(* ===== verification/Spice_Prelude.thy ===== *)
theory Spice_Prelude
  imports Main "HOL-Library.Word"
begin

unbundle bit_operations_syntax

text \<open>
  The shared ground of the development: the machine integers of the Rust sources, little-endian
  byte strings, checked \<open>usize\<close> arithmetic, slices, and the outcome of a fallible Rust function.

  \<^item> \<open>u8\<close>, \<open>u16\<close>, \<open>u32\<close> and \<open>u64\<close> are words of their width; \<open>i16\<close> and \<open>i32\<close> are the same words
    read through \<^const>\<open>sint\<close>.
  \<^item> \<open>usize\<close> is a natural number below \<open>2 ^ 64\<close>: every target of \<open>release/targets.toml\<close> is a
    64-bit target, so \<open>usize::try_from\<close> of a \<open>u32\<close> is \<^const>\<open>unat\<close> and never fails. Sums and
    products that the code checks are checked here against \<open>2 ^ 64\<close>.
  \<^item> A function that returns \<open>Result\<close> is a value of the sum type \<open>outcome\<close>. Its left side
    separates the errors the code returns (\<open>Err\<close>) from a Rust panic (\<open>Panic\<close>), which models a
    failed \<open>expect\<close>, an out-of-range index or slice and an underflowing subtraction.
\<close>

section \<open>Machine integers\<close>

type_synonym u8 = "8 word"
type_synonym u16 = "16 word"
type_synonym u32 = "32 word"
type_synonym u64 = "64 word"
type_synonym i16 = "16 word"
type_synonym i32 = "32 word"

abbreviation usize_limit :: nat where
  "usize_limit \<equiv> 18446744073709551616"

definition usize_checked_add :: "nat \<Rightarrow> nat \<Rightarrow> nat option" where
  "usize_checked_add a b = (if a + b < usize_limit then Some (a + b) else None)"

definition usize_checked_mul :: "nat \<Rightarrow> nat \<Rightarrow> nat option" where
  "usize_checked_mul a b = (if a * b < usize_limit then Some (a * b) else None)"

definition u32_try_from :: "nat \<Rightarrow> u32 option" where
  "u32_try_from n = (if n < 2 ^ 32 then Some (of_nat n) else None)"

lemma usize_checked_add_Some [simp]:
  "usize_checked_add a b = Some c \<longleftrightarrow> c = a + b \<and> a + b < usize_limit"
  by (auto simp: usize_checked_add_def)

lemma usize_checked_mul_Some [simp]:
  "usize_checked_mul a b = Some c \<longleftrightarrow> c = a * b \<and> a * b < usize_limit"
  by (auto simp: usize_checked_mul_def)

lemma usize_checked_add_in [simp]: "a + b < usize_limit \<Longrightarrow> usize_checked_add a b = Some (a + b)"
  by simp

lemma usize_checked_mul_in [simp]: "a * b < usize_limit \<Longrightarrow> usize_checked_mul a b = Some (a * b)"
  by simp

lemma usize_checked_add_None [simp]:
  "usize_checked_add a b = None \<longleftrightarrow> usize_limit \<le> a + b"
  by (auto simp: usize_checked_add_def)

lemma usize_checked_mul_None [simp]:
  "usize_checked_mul a b = None \<longleftrightarrow> usize_limit \<le> a * b"
  by (auto simp: usize_checked_mul_def)

lemma unat_of_nat_u32 [simp]: "n < 4294967296 \<Longrightarrow> unat (of_nat n :: u32) = n"
  by (simp add: unat_of_nat)

lemma u32_of_unat: "n < 4294967296 \<Longrightarrow> \<exists>w :: u32. n = unat w"
  by (metis unat_of_nat_u32)

lemma u32_try_from_Some [simp]: "u32_try_from n = Some w \<longleftrightarrow> n = unat w"
  using unsigned_less [of w] by (auto simp: u32_try_from_def)

lemma u32_try_from_unat [simp]: "u32_try_from (unat w) = Some w"
  by simp

lemma u32_try_from_None [simp]: "u32_try_from n = None \<longleftrightarrow> 4294967296 \<le> n"
  by (auto simp: u32_try_from_def)

lemma u32_try_from_in: "n < 4294967296 \<Longrightarrow> u32_try_from n = Some (of_nat n)"
  by (simp add: u32_try_from_def)

lemma unat_u8_less: "unat (w :: u8) < 256"
  using unsigned_less [of w] by simp

lemma unat_u16_less: "unat (w :: u16) < 65536"
  using unsigned_less [of w] by simp

lemma unat_u32_less: "unat (w :: u32) < 4294967296"
  using unsigned_less [of w] by simp

lemma unat_u64_less: "unat (w :: u64) < usize_limit"
  using unsigned_less [of w] by simp

section \<open>Little-endian byte strings\<close>

text \<open>
  \<open>to_le n w\<close> is the low \<open>n\<close> bytes of a word, least significant first (\<open>to_le_bytes\<close>), and
  \<open>from_le\<close> rebuilds a word from such bytes (\<open>from_le_bytes\<close>).
\<close>

primrec to_le :: "nat \<Rightarrow> 'a::len word \<Rightarrow> u8 list" where
  "to_le 0 w = []"
| "to_le (Suc n) w = ucast w # to_le n (drop_bit 8 w)"

fun from_le :: "u8 list \<Rightarrow> 'a::len word" where
  "from_le [] = 0"
| "from_le (b # bs) = ucast b OR push_bit 8 (from_le bs)"

abbreviation u16_to_le_bytes :: "u16 \<Rightarrow> u8 list" where "u16_to_le_bytes \<equiv> to_le 2"
abbreviation u32_to_le_bytes :: "u32 \<Rightarrow> u8 list" where "u32_to_le_bytes \<equiv> to_le 4"
abbreviation u64_to_le_bytes :: "u64 \<Rightarrow> u8 list" where "u64_to_le_bytes \<equiv> to_le 8"

lemma length_to_le [simp]: "length (to_le n w) = n"
  by (induction n arbitrary: w) simp_all

lemma to_le_eq_Nil [simp]: "to_le n w = [] \<longleftrightarrow> n = 0"
  by (cases n) simp_all

text \<open>Evaluation at the widths of the wire format.\<close>

lemma to_le_expand:
  "to_le 2 w = [ucast w, ucast (drop_bit 8 w)]"
  "to_le 4 w = to_le 2 w @ to_le 2 (drop_bit 16 w)"
  "to_le 8 w = to_le 4 w @ to_le 4 (drop_bit 32 w)"
  by (simp_all add: numeral_eq_Suc)

lemma bit_from_le_bound:
  assumes "bit (from_le bs :: 'a::len word) k"
  shows "k < 8 * length bs"
  using assms
proof (induction bs arbitrary: k)
  case Nil
  then show ?case by simp
next
  case (Cons b bs)
  show ?case
  proof (cases "k < 8")
    case False
    with Cons.prems have "bit (from_le bs :: 'a word) (k - 8)"
      using bit_imp_le_length [of b k] by (auto simp: bit_simps)
    from Cons.IH [OF this] False show ?thesis by simp
  qed simp
qed

lemma from_le_to_le: "from_le (to_le n w) = take_bit (8 * n) (w :: 'a::len word)"
proof (induction n arbitrary: w)
  case 0
  then show ?case by simp
next
  case (Suc n)
  show ?case
    by (rule bit_word_eqI) (use Suc in \<open>auto simp: bit_simps\<close>)
qed

lemma from_le_to_le_id [simp]:
  "8 * n = LENGTH('a) \<Longrightarrow> from_le (to_le n w) = (w :: 'a::len word)"
  by (simp add: from_le_to_le)

lemma to_le_from_le [simp]:
  "length bs = n \<Longrightarrow> 8 * n \<le> LENGTH('a) \<Longrightarrow> to_le n (from_le bs :: 'a::len word) = bs"
proof (induction bs arbitrary: n)
  case Nil
  then show ?case by simp
next
  case (Cons b bs)
  then obtain m where n: "n = Suc m" "length bs = m" by (cases n) auto
  have "drop_bit 8 (from_le (b # bs) :: 'a word) = from_le bs"
  proof (rule bit_word_eqI)
    fix k assume "k < LENGTH('a)"
    show "bit (drop_bit 8 (from_le (b # bs)) :: 'a word) k = bit (from_le bs :: 'a word) k"
      using bit_from_le_bound [of bs k, where 'a = 'a] Cons.prems n bit_imp_le_length [of b "8 + k"]
      by (auto simp: bit_simps)
  qed
  moreover have "ucast (from_le (b # bs) :: 'a word) = b"
    by (rule bit_word_eqI) (use Cons.prems n in \<open>auto simp: bit_simps\<close>)
  ultimately show ?case using Cons n by simp
qed

lemma to_le_inj [simp]:
  "8 * n = LENGTH('a) \<Longrightarrow> to_le n (v :: 'a::len word) = to_le n w \<longleftrightarrow> v = w"
  by (metis from_le_to_le_id)

lemma le_split:
  assumes "8 * n = LENGTH('a)" and "k + n \<le> length xs"
  shows "drop k xs = to_le n (from_le (take n (drop k xs)) :: 'a::len word) @ drop (k + n) xs"
proof -
  have "to_le n (from_le (take n (drop k xs)) :: 'a word) = take n (drop k xs)"
    using assms by (intro to_le_from_le) auto
  then show ?thesis by (metis add.commute append_take_drop_id drop_drop)
qed

text \<open>Big-endian byte strings (\<open>to_be_bytes\<close>, \<open>from_be_bytes\<close>).\<close>

definition to_be :: "nat \<Rightarrow> 'a::len word \<Rightarrow> u8 list" where
  "to_be n w = rev (to_le n w)"

definition from_be :: "u8 list \<Rightarrow> 'a::len word" where
  "from_be bs = from_le (rev bs)"

lemma length_to_be [simp]: "length (to_be n w) = n"
  by (simp add: to_be_def)

lemma from_be_to_be [simp]: "8 * n = LENGTH('a) \<Longrightarrow> from_be (to_be n w) = (w :: 'a::len word)"
  by (simp add: from_be_def to_be_def)

section \<open>Slices\<close>

text \<open>\<open>slice_get xs a b\<close> is \<open>xs.get(a..b)\<close>: the half-open range, or nothing when it leaves \<open>xs\<close>.\<close>

definition slice_get :: "'a list \<Rightarrow> nat \<Rightarrow> nat \<Rightarrow> 'a list option" where
  "slice_get xs a b = (if a \<le> b \<and> b \<le> length xs then Some (take (b - a) (drop a xs)) else None)"

lemma slice_get_Some [simp]:
  "slice_get xs a b = Some ys \<longleftrightarrow> a \<le> b \<and> b \<le> length xs \<and> ys = take (b - a) (drop a xs)"
  by (auto simp: slice_get_def)

lemma slice_get_None [simp]: "slice_get xs a b = None \<longleftrightarrow> \<not> (a \<le> b \<and> b \<le> length xs)"
  by (auto simp: slice_get_def)

lemma take_drop_split: "a \<le> b \<Longrightarrow> take b xs = take a xs @ take (b - a) (drop a xs)"
  by (metis le_add_diff_inverse take_add)

lemma take_take_drop: "xs = take k xs @ take m (drop k xs) @ drop (m + k) xs"
  by (metis append_take_drop_id drop_drop)

text \<open>\<open>chunks_exact n xs\<close> is the list of the whole \<open>n\<close>-element chunks of \<open>xs\<close>; a remainder is dropped.\<close>

function chunks_exact :: "nat \<Rightarrow> 'a list \<Rightarrow> 'a list list" where
  "chunks_exact n xs =
     (if n = 0 \<or> length xs < n then [] else take n xs # chunks_exact n (drop n xs))"
  by pat_completeness auto
termination by (relation "measure (\<lambda>(n, xs). length xs)") auto

declare chunks_exact.simps [simp del]

lemma chunks_exact_append:
  "0 < n \<Longrightarrow> length x = n \<Longrightarrow> chunks_exact n (x @ xs) = x # chunks_exact n xs"
  by (subst chunks_exact.simps) simp

lemma chunks_exact_Nil [simp]: "chunks_exact n [] = []"
  by (subst chunks_exact.simps) auto

lemma chunks_exact_concat:
  "0 < n \<Longrightarrow> (\<And>w. w \<in> set ws \<Longrightarrow> length (f w) = n) \<Longrightarrow> chunks_exact n (concat (map f ws)) = map f ws"
  by (induction ws) (simp_all add: chunks_exact_append)

lemma chunks_exact_length: "c \<in> set (chunks_exact n xs) \<Longrightarrow> length c = n"
  by (induction n xs rule: chunks_exact.induct) (subst (asm) (2) chunks_exact.simps, auto split: if_splits)

text \<open>\<open>position p xs\<close> is \<open>xs.iter().position(p)\<close>.\<close>

definition position :: "('a \<Rightarrow> bool) \<Rightarrow> 'a list \<Rightarrow> nat option" where
  "position p xs = (let n = length (takeWhile (\<lambda>x. \<not> p x) xs) in if n < length xs then Some n else None)"

lemma position_append: "(\<And>x. x \<in> set xs \<Longrightarrow> \<not> p x) \<Longrightarrow> p y \<Longrightarrow> position p (xs @ y # ys) = Some (length xs)"
  by (simp add: position_def Let_def takeWhile_tail)

lemma position_Some_less: "position p xs = Some n \<Longrightarrow> n < length xs"
  by (auto simp: position_def Let_def split: if_splits)

text \<open>\<open>copy_from_slice xs k ys\<close> is \<open>xs[k..k + ys.len()].copy_from_slice(ys)\<close> on an array \<open>xs\<close>.\<close>

definition copy_from_slice :: "'a list \<Rightarrow> nat \<Rightarrow> 'a list \<Rightarrow> 'a list option" where
  "copy_from_slice xs k ys =
     (if k + length ys \<le> length xs then Some (take k xs @ ys @ drop (k + length ys) xs) else None)"

section \<open>Outcomes\<close>

datatype 'e abort = Err 'e | Panic

type_synonym ('e, 'a) outcome = "'e abort + 'a"

text \<open>\<open>and_then\<close> is the \<open>?\<close> operator: the first failure is the result.\<close>

definition and_then :: "('e, 'a) outcome \<Rightarrow> ('a \<Rightarrow> ('e, 'b) outcome) \<Rightarrow> ('e, 'b) outcome" where
  "and_then m f = (case m of Inl e \<Rightarrow> Inl e | Inr x \<Rightarrow> f x)"

definition ok_or :: "'e \<Rightarrow> 'a option \<Rightarrow> ('e, 'a) outcome" where
  "ok_or e v = (case v of None \<Rightarrow> Inl (Err e) | Some x \<Rightarrow> Inr x)"

definition expect :: "'a option \<Rightarrow> ('e, 'a) outcome" where
  "expect v = (case v of None \<Rightarrow> Inl Panic | Some x \<Rightarrow> Inr x)"

definition no_panic :: "('e, 'a) outcome \<Rightarrow> bool" where
  "no_panic m \<longleftrightarrow> m \<noteq> Inl Panic"

text \<open>A \<open>for\<close> loop whose body may return early with an error.\<close>

fun try_for_each :: "('a \<Rightarrow> ('e, unit) outcome) \<Rightarrow> 'a list \<Rightarrow> ('e, unit) outcome" where
  "try_for_each f [] = Inr ()"
| "try_for_each f (x # xs) = and_then (f x) (\<lambda>_. try_for_each f xs)"

text \<open>A loop that pushes one fallible result per element.\<close>

fun try_map :: "('a \<Rightarrow> ('e, 'b) outcome) \<Rightarrow> 'a list \<Rightarrow> ('e, 'b list) outcome" where
  "try_map f [] = Inr []"
| "try_map f (x # xs) = and_then (f x) (\<lambda>y. and_then (try_map f xs) (\<lambda>ys. Inr (y # ys)))"

named_theorems no_panic_intros \<open>closure rules for panic freedom\<close>

lemma and_then_Inr [simp]: "and_then (Inr x) f = f x"
  by (simp add: and_then_def)

lemma and_then_Inl [simp]: "and_then (Inl e) f = Inl e"
  by (simp add: and_then_def)

lemma and_then_eq_Inr [simp]: "and_then m f = Inr y \<longleftrightarrow> (\<exists>x. m = Inr x \<and> f x = Inr y)"
  by (cases m) simp_all

lemma and_then_eq_Inl: "and_then m f = Inl e \<longleftrightarrow> m = Inl e \<or> (\<exists>x. m = Inr x \<and> f x = Inl e)"
  by (cases m) simp_all

lemma and_then_assoc: "and_then (and_then m f) g = and_then m (\<lambda>x. and_then (f x) g)"
  by (cases m) simp_all

lemma and_then_if: "and_then (if b then m else n) f = (if b then and_then m f else and_then n f)"
  by simp

lemma and_then_cong [fundef_cong]:
  assumes "m = n" and "\<And>x. n = Inr x \<Longrightarrow> f x = g x"
  shows "and_then m f = and_then n g"
  using assms by (cases n) simp_all

lemma ok_or_simps [simp]: "ok_or e None = Inl (Err e)" "ok_or e (Some x) = Inr x"
  by (simp_all add: ok_or_def)

lemma ok_or_eq_Inr [simp]: "ok_or e v = Inr x \<longleftrightarrow> v = Some x"
  by (cases v) simp_all

lemma expect_simps [simp]: "expect None = Inl Panic" "expect (Some x) = Inr x"
  by (simp_all add: expect_def)

lemma expect_eq_Inr [simp]: "expect v = Inr x \<longleftrightarrow> v = Some x"
  by (cases v) simp_all

lemma no_panic_Inr [simp, no_panic_intros]: "no_panic (Inr x)"
  by (simp add: no_panic_def)

lemma no_panic_Err [simp, no_panic_intros]: "no_panic (Inl (Err e))"
  by (simp add: no_panic_def)

lemma no_panic_ok_or [simp, no_panic_intros]: "no_panic (ok_or e v)"
  by (cases v) simp_all

lemma no_panic_expect [simp]: "no_panic (expect v) \<longleftrightarrow> v \<noteq> None"
  by (cases v) (simp_all add: no_panic_def)

lemma no_panic_case_option:
  "(v = None \<Longrightarrow> no_panic m) \<Longrightarrow> (\<And>x. v = Some x \<Longrightarrow> no_panic (f x)) \<Longrightarrow>
   no_panic (case v of None \<Rightarrow> m | Some x \<Rightarrow> f x)"
  by (cases v) simp_all

lemma no_panic_and_then [no_panic_intros]:
  assumes "no_panic m" and "\<And>x. m = Inr x \<Longrightarrow> no_panic (f x)"
  shows "no_panic (and_then m f)"
  using assms by (cases m) (auto simp: no_panic_def)

lemma no_panic_if [no_panic_intros]:
  assumes "b \<Longrightarrow> no_panic m" and "\<not> b \<Longrightarrow> no_panic n"
  shows "no_panic (if b then m else n)"
  using assms by simp

lemma try_for_each_Inr [simp]: "try_for_each f xs = Inr u \<longleftrightarrow> (\<forall>x \<in> set xs. f x = Inr ())"
  by (induction xs) auto

lemma no_panic_try_for_each [no_panic_intros]:
  "(\<And>x. x \<in> set xs \<Longrightarrow> no_panic (f x)) \<Longrightarrow> no_panic (try_for_each f xs)"
  by (induction xs) (auto intro!: no_panic_and_then)

lemma no_panic_try_map [no_panic_intros]:
  "(\<And>x. x \<in> set xs \<Longrightarrow> no_panic (f x)) \<Longrightarrow> no_panic (try_map f xs)"
  by (induction xs) (auto intro!: no_panic_and_then)

lemma try_map_Inr_iff: "try_map f xs = Inr ys \<longleftrightarrow> list_all2 (\<lambda>x y. f x = Inr y) xs ys"
  by (induction xs arbitrary: ys) (auto simp: list_all2_Cons1)

lemma try_map_map [simp]: "try_map (\<lambda>x. Inr (f x)) xs = Inr (map f xs)"
  by (induction xs) auto

lemma no_panic_case_prod [no_panic_intros]:
  "(\<And>a b. p = (a, b) \<Longrightarrow> no_panic (f a b)) \<Longrightarrow> no_panic (case p of (a, b) \<Rightarrow> f a b)"
  by (cases p) simp

lemma no_panic_let [no_panic_intros]: "no_panic (f v) \<Longrightarrow> no_panic (let x = v in f x)"
  by simp

end
