(* ===== verification/Spice_Wire.thy ===== *)
theory Spice_Wire
  imports Spice_Prelude
begin

text \<open>
  The checked wire reader of \<open>oxide-spice-protocol\<close> (\<open>error.rs\<close> and \<open>wire.rs\<close>).

  A \<open>Reader\<close> is a cursor over one bounded input. Its methods are functions from a reader to an
  outcome that carries the value and the advanced reader; \<open>rd_then\<close> is the sequencing of Rust
  statements with the \<open>?\<close> operator. The theory shows the contract every decoder of the crate rests
  on: an operation never panics on a reader whose offset is inside its input, leaves the input
  alone, only moves forward and stays inside (locale \<open>safe_reader\<close>), and reading back what
  \<open>to_le_bytes\<close> wrote returns the value and leaves the rest.
\<close>

section \<open>Decode errors (error.rs)\<close>

datatype DecodeErrorKind =
    Truncated | InvalidValue | Overflow | ResourceLimit | InvalidOffset | Unsupported

type_synonym context_str = String.literal

record DecodeError =
  kind :: DecodeErrorKind
  offset :: nat
  err_context :: context_str

definition DecodeError_new :: "DecodeErrorKind \<Rightarrow> nat \<Rightarrow> context_str \<Rightarrow> DecodeError" where
  "DecodeError_new k off ctx = \<lparr>kind = k, offset = off, err_context = ctx\<rparr>"

lemma DecodeError_new_sel [simp]:
  "kind (DecodeError_new k off ctx) = k"
  "offset (DecodeError_new k off ctx) = off"
  by (simp_all add: DecodeError_new_def)

type_synonym 'a decoded = "(DecodeError, 'a) outcome"

abbreviation decode_err :: "DecodeErrorKind \<Rightarrow> nat \<Rightarrow> context_str \<Rightarrow> 'a decoded" where
  "decode_err k off ctx \<equiv> Inl (Err (DecodeError_new k off ctx))"

section \<open>The reader (wire.rs)\<close>

record Reader =
  rd_input :: "u8 list"
  rd_offset :: nat

type_synonym 'a reader_op = "Reader \<Rightarrow> (DecodeError, 'a \<times> Reader) outcome"

definition Reader_new :: "u8 list \<Rightarrow> Reader" where
  "Reader_new input = \<lparr>rd_input = input, rd_offset = 0\<rparr>"

definition rd_return :: "'a \<Rightarrow> 'a reader_op" where
  "rd_return x r = Inr (x, r)"

definition rd_then :: "'a reader_op \<Rightarrow> ('a \<Rightarrow> 'b reader_op) \<Rightarrow> 'b reader_op" where
  "rd_then m f r = and_then (m r) (\<lambda>(x, r'). f x r')"

definition rd_lift :: "'a decoded \<Rightarrow> 'a reader_op" where
  "rd_lift m r = and_then m (\<lambda>x. Inr (x, r))"

abbreviation rd_err :: "DecodeErrorKind \<Rightarrow> nat \<Rightarrow> context_str \<Rightarrow> 'a reader_op" where
  "rd_err k off ctx \<equiv> rd_lift (decode_err k off ctx)"

text \<open>A \<open>for _ in 0..n\<close> loop that pushes one decoded element per turn.\<close>

primrec rd_repeat :: "nat \<Rightarrow> 'a reader_op \<Rightarrow> 'a list reader_op" where
  "rd_repeat 0 m = rd_return []"
| "rd_repeat (Suc n) m = rd_then m (\<lambda>x. rd_then (rd_repeat n m) (\<lambda>xs. rd_return (x # xs)))"

text \<open>Running a body of reader statements over a fresh reader, as each \<open>decode\<close> function does.\<close>

definition decode_with :: "u8 list \<Rightarrow> 'a reader_op \<Rightarrow> 'a decoded" where
  "decode_with input m = and_then (m (Reader_new input)) (\<lambda>(x, _). Inr x)"

definition Reader_offset :: "nat reader_op" where
  "Reader_offset r = Inr (rd_offset r, r)"

definition Reader_remaining :: "nat reader_op" where
  "Reader_remaining r =
     (if rd_offset r \<le> length (rd_input r) then Inr (length (rd_input r) - rd_offset r, r)
      else Inl Panic)"

definition Reader_take :: "nat \<Rightarrow> context_str \<Rightarrow> u8 list reader_op" where
  "Reader_take n ctx r =
     and_then (ok_or (DecodeError_new Overflow (rd_offset r) ctx)
                 (usize_checked_add (rd_offset r) n)) (\<lambda>end_offset.
     and_then (ok_or (DecodeError_new Truncated (rd_offset r) ctx)
                 (slice_get (rd_input r) (rd_offset r) end_offset)) (\<lambda>value.
     Inr (value, r\<lparr>rd_offset := end_offset\<rparr>)))"

text \<open>\<open>try_into().expect(..)\<close> of a slice to \<open>[u8; n]\<close>, then \<open>from_le_bytes\<close>.\<close>

definition Reader_le :: "nat \<Rightarrow> context_str \<Rightarrow> 'a::len word reader_op" where
  "Reader_le n ctx = rd_then (Reader_take n ctx) (\<lambda>bytes.
     rd_then (rd_lift (expect (if length bytes = n then Some bytes else None))) (\<lambda>bytes.
     rd_return (from_le bytes)))"

definition Reader_u8 :: "context_str \<Rightarrow> u8 reader_op" where
  "Reader_u8 ctx = rd_then (Reader_take 1 ctx) (\<lambda>bytes.
     rd_lift (expect (case bytes of [] \<Rightarrow> None | b # _ \<Rightarrow> Some b)))"

definition Reader_u16 :: "context_str \<Rightarrow> u16 reader_op" where
  "Reader_u16 = Reader_le 2"

definition Reader_i16 :: "context_str \<Rightarrow> i16 reader_op" where
  "Reader_i16 = Reader_le 2"

definition Reader_u32 :: "context_str \<Rightarrow> u32 reader_op" where
  "Reader_u32 = Reader_le 4"

definition Reader_i32 :: "context_str \<Rightarrow> i32 reader_op" where
  "Reader_i32 = Reader_le 4"

definition Reader_u64 :: "context_str \<Rightarrow> u64 reader_op" where
  "Reader_u64 = Reader_le 8"

definition resolve_range :: "u8 list \<Rightarrow> u32 \<Rightarrow> nat \<Rightarrow> context_str \<Rightarrow> (nat \<times> nat) decoded" where
  "resolve_range body off n ctx =
     (let start = unat off in
      and_then (ok_or (DecodeError_new Overflow start ctx) (usize_checked_add start n)) (\<lambda>end_offset.
      if end_offset > length body then decode_err InvalidOffset start ctx
      else Inr (start, end_offset)))"

definition checked_array_bytes :: "u32 \<Rightarrow> nat \<Rightarrow> nat \<Rightarrow> nat \<Rightarrow> context_str \<Rightarrow> nat decoded" where
  "checked_array_bytes count element_size maximum_count off ctx =
     (let count = unat count in
      if count > maximum_count then decode_err ResourceLimit off ctx
      else ok_or (DecodeError_new Overflow off ctx) (usize_checked_mul count element_size))"

text \<open>
  \<open>slice_index body a b\<close> is the indexing expression \<open>&body[a..b]\<close>, which panics outside the slice;
  \<open>size_error_kind\<close> is the \<open>if actual < expected\<close> choice that every exact-size check makes.
\<close>

definition slice_index :: "'a list \<Rightarrow> nat \<Rightarrow> nat \<Rightarrow> ('e, 'a list) outcome" where
  "slice_index xs a b = expect (slice_get xs a b)"

definition size_error_kind :: "nat \<Rightarrow> nat \<Rightarrow> DecodeErrorKind" where
  "size_error_kind actual expected = (if actual < expected then Truncated else InvalidValue)"

section \<open>Text\<close>

text \<open>
  A Rust string is its UTF-8 bytes. \<open>utf8_valid\<close> is the check of \<open>std::str::from_utf8\<close>: the
  well-formed byte sequences of the Unicode standard, without surrogates and overlong forms.
\<close>

definition in_range :: "u8 \<Rightarrow> u8 \<Rightarrow> u8 \<Rightarrow> bool" where
  "in_range lo hi b \<longleftrightarrow> lo \<le> b \<and> b \<le> hi"

abbreviation utf8_tail :: "u8 \<Rightarrow> bool" where
  "utf8_tail \<equiv> in_range 0x80 0xBF"

fun utf8_valid :: "u8 list \<Rightarrow> bool" where
  "utf8_valid [] = True"
| "utf8_valid (a # bs) =
     (if a < 0x80 then utf8_valid bs
      else if in_range 0xC2 0xDF a then
        (case bs of b # rest \<Rightarrow> utf8_tail b \<and> utf8_valid rest | _ \<Rightarrow> False)
      else if in_range 0xE0 0xEF a then
        (case bs of b # c # rest \<Rightarrow>
            (if a = 0xE0 then in_range 0xA0 0xBF b
             else if a = 0xED then in_range 0x80 0x9F b
             else utf8_tail b) \<and> utf8_tail c \<and> utf8_valid rest
         | _ \<Rightarrow> False)
      else if in_range 0xF0 0xF4 a then
        (case bs of b # c # d # rest \<Rightarrow>
            (if a = 0xF0 then in_range 0x90 0xBF b
             else if a = 0xF4 then in_range 0x80 0x8F b
             else utf8_tail b) \<and> utf8_tail c \<and> utf8_tail d \<and> utf8_valid rest
         | _ \<Rightarrow> False)
      else False)"

definition from_utf8 :: "u8 list \<Rightarrow> u8 list option" where
  "from_utf8 bs = (if utf8_valid bs then Some bs else None)"

text \<open>The terminator test \<open>bytes.last() != Some(&0) || bytes[..len - 1].contains(&0)\<close>, negated.\<close>

definition nul_terminated :: "u8 list \<Rightarrow> bool" where
  "nul_terminated bs \<longleftrightarrow> bs \<noteq> [] \<and> last bs = 0 \<and> 0 \<notin> set (butlast bs)"

lemma from_utf8_Some [simp]: "from_utf8 bs = Some t \<longleftrightarrow> t = bs \<and> utf8_valid bs"
  by (auto simp: from_utf8_def)

lemma from_utf8_valid [simp]: "utf8_valid bs \<Longrightarrow> from_utf8 bs = Some bs"
  by simp

lemma nul_terminated_iff: "nul_terminated bs \<longleftrightarrow> (\<exists>t. bs = t @ [0] \<and> 0 \<notin> set t)"
  unfolding nul_terminated_def
  by (metis append_butlast_last_id butlast_snoc last_snoc snoc_eq_iff_butlast)

lemma nul_terminated_snoc [simp]: "nul_terminated (t @ [0]) \<longleftrightarrow> 0 \<notin> set t"
  by (auto simp: nul_terminated_def)

section \<open>Evaluation of reader statements\<close>

named_theorems reader_simps \<open>one-step evaluation of reader statements\<close>

lemma rd_then_return [simp]: "rd_then (rd_return x) f = f x"
  by (simp add: rd_then_def rd_return_def fun_eq_iff)

lemma rd_then_lift_Inr [simp]: "rd_then (rd_lift (Inr x)) f = f x"
  by (simp add: rd_then_def rd_lift_def fun_eq_iff)

lemma rd_lift_apply [reader_simps]: "rd_lift m r = and_then m (\<lambda>x. Inr (x, r))"
  by (simp add: rd_lift_def)

lemma rd_return_apply [reader_simps]: "rd_return x r = Inr (x, r)"
  by (simp add: rd_return_def)

lemma rd_then_apply [reader_simps]: "rd_then m f r = and_then (m r) (\<lambda>(x, r'). f x r')"
  by (simp add: rd_then_def)

lemma Reader_offset_apply [reader_simps]: "Reader_offset r = Inr (rd_offset r, r)"
  by (simp add: Reader_offset_def)

text \<open>
  \<open>reader_at pre post\<close> is a reader that has consumed \<open>pre\<close> and has \<open>post\<close> left: the shape in which
  decoding an encoded value is computed.
\<close>

definition reader_at :: "u8 list \<Rightarrow> u8 list \<Rightarrow> Reader" where
  "reader_at pre post = \<lparr>rd_input = pre @ post, rd_offset = length pre\<rparr>"

lemma Reader_new_at: "Reader_new input = reader_at [] input"
  by (simp add: Reader_new_def reader_at_def)

lemma rd_offset_at [simp]: "rd_offset (reader_at pre post) = length pre"
  by (simp add: reader_at_def)

lemma rd_input_at [simp]: "rd_input (reader_at pre post) = pre @ post"
  by (simp add: reader_at_def)

lemma reader_at_advance:
  "(reader_at pre (a @ b))\<lparr>rd_offset := length pre + length a\<rparr> = reader_at (pre @ a) b"
  by (simp add: reader_at_def)

lemma Reader_remaining_at [reader_simps]:
  "Reader_remaining (reader_at pre post) = Inr (length post, reader_at pre post)"
  by (simp add: Reader_remaining_def)

lemma Reader_take_at [reader_simps]:
  "length a = n \<Longrightarrow> length pre + n < usize_limit \<Longrightarrow>
     Reader_take n ctx (reader_at pre (a @ b)) = Inr (a, reader_at (pre @ a) b)"
  by (auto simp: Reader_take_def slice_get_def reader_at_advance [symmetric])

lemma Reader_take_all_at [reader_simps]:
  "length pre + length a < usize_limit \<Longrightarrow>
     Reader_take (length a) ctx (reader_at pre a) = Inr (a, reader_at (pre @ a) [])"
  using Reader_take_at [of a "length a" pre ctx "[]"] by simp

lemma Reader_le_at [reader_simps]:
  assumes "8 * n = LENGTH('a)" and "length pre + n < usize_limit"
  shows "Reader_le n ctx (reader_at pre (to_le n (w :: 'a::len word) @ b)) =
           Inr (w, reader_at (pre @ to_le n w) b)"
  using assms Reader_take_at [of "to_le n w" n pre ctx b]
  by (simp add: Reader_le_def reader_simps)

lemma Reader_le_at_end [reader_simps]:
  assumes "8 * n = LENGTH('a)" and "length pre + n < usize_limit"
  shows "Reader_le n ctx (reader_at pre (to_le n (w :: 'a::len word))) =
           Inr (w, reader_at (pre @ to_le n w) [])"
  using Reader_le_at [OF assms, of ctx w "[]"] by simp

lemma Reader_u8_at [reader_simps]:
  assumes "length pre + 1 < usize_limit"
  shows "Reader_u8 ctx (reader_at pre (x # b)) = Inr (x, reader_at (pre @ [x]) b)"
  using assms Reader_take_at [of "[x]" 1 pre ctx b] by (simp add: Reader_u8_def reader_simps)

lemmas reader_width = Reader_u16_def Reader_u32_def Reader_u64_def Reader_i16_def Reader_i32_def

lemma decode_with_at: "decode_with input m = and_then (m (reader_at [] input)) (\<lambda>(x, _). Inr x)"
  by (simp add: decode_with_def Reader_new_at)

text \<open>The loop over an array of little-endian words reads back the words.\<close>

lemma rd_repeat_le_at:
  fixes ws :: "'a::len word list"
  assumes "8 * n = LENGTH('a)" and "length pre + n * length ws < usize_limit"
  shows "rd_repeat (length ws) (Reader_le n ctx) (reader_at pre (concat (map (to_le n) ws) @ b)) =
           Inr (ws, reader_at (pre @ concat (map (to_le n) ws)) b)"
  using assms(2)
proof (induction ws arbitrary: pre)
  case Nil
  then show ?case by (simp add: rd_return_def)
next
  case (Cons w ws)
  then have "length (pre @ to_le n w) + n * length ws < usize_limit" by simp
  from Cons.IH [OF this] assms(1) Cons.prems show ?case
    by (simp add: reader_simps Reader_le_at)
qed

lemma length_concat_le [simp]: "length (concat (map (to_le n) ws)) = n * length ws"
  by (induction ws) simp_all

section \<open>What a successful read returns\<close>

lemma rd_then_Inr [simp]:
  "rd_then m f r = Inr y \<longleftrightarrow> (\<exists>x r'. m r = Inr (x, r') \<and> f x r' = Inr y)"
  by (auto simp: rd_then_def)

lemma rd_return_Inr [simp]: "rd_return x r = Inr (y, r') \<longleftrightarrow> y = x \<and> r' = r"
  by (auto simp: rd_return_def)

lemma rd_lift_Inr [simp]: "rd_lift m r = Inr (y, r') \<longleftrightarrow> m = Inr y \<and> r' = r"
  by (auto simp: rd_lift_def)

lemma Reader_offset_Inr [simp]: "Reader_offset r = Inr (n, r') \<longleftrightarrow> n = rd_offset r \<and> r' = r"
  by (auto simp: Reader_offset_def)

lemma Reader_remaining_Inr [simp]:
  "Reader_remaining r = Inr (n, r') \<longleftrightarrow>
     rd_offset r \<le> length (rd_input r) \<and> n = length (rd_input r) - rd_offset r \<and> r' = r"
  by (auto simp: Reader_remaining_def)

lemma Reader_take_Inr [simp]:
  "Reader_take n ctx r = Inr (v, r') \<longleftrightarrow>
     rd_offset r + n \<le> length (rd_input r) \<and> rd_offset r + n < usize_limit \<and>
     v = take n (drop (rd_offset r) (rd_input r)) \<and> r' = r\<lparr>rd_offset := rd_offset r + n\<rparr>"
  by (auto simp: Reader_take_def)

lemma Reader_le_Inr [simp]:
  "Reader_le n ctx r = Inr (w, r') \<longleftrightarrow>
     rd_offset r + n \<le> length (rd_input r) \<and> rd_offset r + n < usize_limit \<and>
     w = from_le (take n (drop (rd_offset r) (rd_input r))) \<and> r' = r\<lparr>rd_offset := rd_offset r + n\<rparr>"
  by (auto simp: Reader_le_def)

lemma Reader_u8_Inr [simp]:
  "Reader_u8 ctx r = Inr (b, r') \<longleftrightarrow>
     rd_offset r + 1 \<le> length (rd_input r) \<and> rd_offset r + 1 < usize_limit \<and>
     b = rd_input r ! rd_offset r \<and> r' = r\<lparr>rd_offset := rd_offset r + 1\<rparr>"
proof (cases "drop (rd_offset r) (rd_input r)")
  case Nil
  then show ?thesis by (simp add: Reader_u8_def)
next
  case (Cons y ys)
  then have "rd_offset r < length (rd_input r)" "rd_input r ! rd_offset r = y"
    by (metis drop_all list.distinct(1) not_le, metis drop_all hd_drop_conv_nth list.distinct(1) list.sel(1) not_le)
  with Cons show ?thesis by (auto simp: Reader_u8_def)
qed

lemma decode_with_Inr [simp]:
  "decode_with input m = Inr x \<longleftrightarrow> (\<exists>r'. m (Reader_new input) = Inr (x, r'))"
  by (auto simp: decode_with_def)

lemma Reader_new_sel [simp]: "rd_input (Reader_new xs) = xs" "rd_offset (Reader_new xs) = 0"
  by (simp_all add: Reader_new_def)

lemma resolve_range_Inr [simp]:
  "resolve_range body off n ctx = Inr (a, b) \<longleftrightarrow>
     a = unat off \<and> b = a + n \<and> b \<le> length body \<and> b < usize_limit"
  by (auto simp: resolve_range_def Let_def)

lemma checked_array_bytes_Inr [simp]:
  "checked_array_bytes c sz mx off ctx = Inr n \<longleftrightarrow>
     unat c \<le> mx \<and> n = unat c * sz \<and> n < usize_limit"
  by (auto simp: checked_array_bytes_def Let_def)

lemma slice_index_Inr [simp]:
  "slice_index xs a b = Inr ys \<longleftrightarrow> a \<le> b \<and> b \<le> length xs \<and> ys = take (b - a) (drop a xs)"
  by (auto simp: slice_index_def)

lemma slice_index_take: "b \<le> n \<Longrightarrow> slice_index (take n xs) a b = slice_index xs a b"
  by (auto simp: slice_index_def slice_get_def drop_take min_def)

lemma rd_repeat_length:
  "rd_repeat n m r = Inr (xs, r') \<Longrightarrow> length xs = n"
  by (induction n arbitrary: r r' xs) auto

text \<open>What the counted loop returns is the words of the bytes it passed over.\<close>

lemma rd_repeat_le_Inr:
  assumes "8 * n = LENGTH('a)" and "rd_repeat k (Reader_le n ctx :: 'a::len word reader_op) r = Inr (ws, r')"
  shows "concat (map (to_le n) ws) = take (n * k) (drop (rd_offset r) (rd_input r)) \<and>
         length ws = k \<and> r' = r\<lparr>rd_offset := rd_offset r + n * k\<rparr>"
  using assms(2)
proof (induction k arbitrary: r ws)
  case 0
  then show ?case by (simp add: rd_return_def)
next
  case (Suc k)
  let ?r = "r\<lparr>rd_offset := rd_offset r + n\<rparr>"
  let ?b = "take n (drop (rd_offset r) (rd_input r))"
  from Suc.prems obtain vs where b: "rd_offset r + n \<le> length (rd_input r)"
    and ws: "ws = from_le ?b # vs" and rest: "rd_repeat k (Reader_le n ctx) ?r = Inr (vs, r')"
    by auto
  have "to_le n (from_le ?b :: 'a word) = ?b"
    using assms(1) b by (intro to_le_from_le) auto
  with Suc.IH [OF rest] ws show ?case by (simp add: take_add add.commute)
qed

section \<open>The reader contract\<close>

definition reader_ok :: "Reader \<Rightarrow> bool" where
  "reader_ok r \<longleftrightarrow> rd_offset r \<le> length (rd_input r)"

lemma reader_ok_new [simp]: "reader_ok (Reader_new xs)"
  by (simp add: reader_ok_def)

text \<open>
  The contract the decoders rely on: from a reader inside its input an operation does not panic,
  and on success the reader has the same input, has not moved back and is still inside.
\<close>

locale safe_reader =
  fixes op :: "'a reader_op"
  assumes op_no_panic: "reader_ok r \<Longrightarrow> no_panic (op r)"
    and op_input: "reader_ok r \<Longrightarrow> op r = Inr (x, r') \<Longrightarrow> rd_input r' = rd_input r"
    and op_forward: "reader_ok r \<Longrightarrow> op r = Inr (x, r') \<Longrightarrow> rd_offset r \<le> rd_offset r'"
    and op_inside: "reader_ok r \<Longrightarrow> op r = Inr (x, r') \<Longrightarrow> reader_ok r'"
begin

lemma decode_no_panic: "no_panic (decode_with input op)"
  unfolding decode_with_def
  by (rule no_panic_and_then) (auto intro: op_no_panic)

lemma decode_consumes_at_most:
  assumes "op (Reader_new input) = Inr (x, r')"
  shows "rd_offset r' \<le> length input"
  using op_inside [OF reader_ok_new assms] op_input [OF reader_ok_new assms]
  by (simp add: reader_ok_def)

end

named_theorems safe_reader_intros \<open>operations and statements that keep the reader contract\<close>

lemma safe_reader_return [safe_reader_intros]: "safe_reader (rd_return x)"
  by unfold_locales (auto simp: rd_return_apply)

lemma safe_reader_lift [safe_reader_intros]: "no_panic m \<Longrightarrow> safe_reader (rd_lift m)"
  by unfold_locales (auto simp: rd_lift_apply intro: no_panic_intros)

lemma safe_reader_then [safe_reader_intros]:
  assumes m: "safe_reader m"
    and f: "\<And>r x r'. reader_ok r \<Longrightarrow> m r = Inr (x, r') \<Longrightarrow> safe_reader (f x)"
  shows "safe_reader (rd_then m f)"
proof
  fix r assume r: "reader_ok r"
  show "no_panic (rd_then m f r)"
    unfolding rd_then_def
    using r safe_reader.op_no_panic [OF m r] safe_reader.op_inside [OF m r]
      safe_reader.op_no_panic [OF f [OF r]]
    by (intro no_panic_and_then) auto
next
  fix r x r' assume r: "reader_ok r" and "rd_then m f r = Inr (x, r')"
  then obtain y s where s: "m r = Inr (y, s)" and fs: "f y s = Inr (x, r')" by auto
  have ok: "reader_ok s" using safe_reader.op_inside [OF m r s] .
  show "rd_input r' = rd_input r" "rd_offset r \<le> rd_offset r'" "reader_ok r'"
    using safe_reader.op_input [OF m r s] safe_reader.op_input [OF f [OF r s] ok fs]
      safe_reader.op_forward [OF m r s] safe_reader.op_forward [OF f [OF r s] ok fs]
      safe_reader.op_inside [OF f [OF r s] ok fs]
    by auto
qed

lemma safe_reader_if [safe_reader_intros]:
  "\<lbrakk>b \<Longrightarrow> safe_reader m; \<not> b \<Longrightarrow> safe_reader n\<rbrakk> \<Longrightarrow> safe_reader (if b then m else n)"
  by simp

lemma safe_reader_let [safe_reader_intros]: "safe_reader (f v) \<Longrightarrow> safe_reader (let x = v in f x)"
  by simp

lemma safe_reader_offset [safe_reader_intros]: "safe_reader Reader_offset"
  by unfold_locales (auto simp: Reader_offset_apply)

lemma safe_reader_remaining [safe_reader_intros]: "safe_reader Reader_remaining"
  by unfold_locales (auto simp: Reader_remaining_def reader_ok_def)

lemma safe_reader_take [safe_reader_intros]: "safe_reader (Reader_take n ctx)"
  by unfold_locales
     (auto simp: Reader_take_def reader_ok_def intro!: no_panic_and_then)

lemma safe_reader_le [safe_reader_intros]: "safe_reader (Reader_le n ctx :: 'a::len word reader_op)"
proof
  fix r assume r: "reader_ok r"
  show "no_panic (Reader_le n ctx r :: (DecodeError, 'a word \<times> Reader) outcome)"
    using safe_reader.op_no_panic [OF safe_reader_take r, of n ctx]
    by (auto simp: Reader_le_def rd_then_def rd_lift_def rd_return_def intro!: no_panic_and_then)
qed (auto simp: reader_ok_def)

lemma safe_reader_u8 [safe_reader_intros]: "safe_reader (Reader_u8 ctx)"
proof
  fix r assume r: "reader_ok r"
  show "no_panic (Reader_u8 ctx r)"
    using safe_reader.op_no_panic [OF safe_reader_take r, of 1 ctx]
    by (auto simp: Reader_u8_def rd_then_def rd_lift_def intro!: no_panic_and_then split: list.splits)
qed (auto simp: reader_ok_def)

lemma safe_reader_widths [safe_reader_intros]:
  "safe_reader (Reader_u16 ctx)" "safe_reader (Reader_u32 ctx)" "safe_reader (Reader_u64 ctx)"
  "safe_reader (Reader_i16 ctx)" "safe_reader (Reader_i32 ctx)"
  by (simp_all add: reader_width safe_reader_intros)

lemma safe_reader_repeat [safe_reader_intros]: "safe_reader m \<Longrightarrow> safe_reader (rd_repeat n m)"
  by (induction n) (auto intro: safe_reader_intros)

text \<open>
  Running one statement on a given reader. Statements that index the body themselves are safe only on a
  reader over that body, so they are followed state by state.
\<close>

named_theorems no_panic_run \<open>panic freedom of statements on a given reader\<close>

lemma no_panic_run_then [no_panic_run]:
  assumes "safe_reader m" and "reader_ok r"
    and "\<And>x r'. m r = Inr (x, r') \<Longrightarrow> reader_ok r' \<Longrightarrow> rd_input r' = rd_input r \<Longrightarrow>
           rd_offset r \<le> rd_offset r' \<Longrightarrow> no_panic (f x r')"
  shows "no_panic (rd_then m f r)"
proof (cases "m r")
  case (Inl e)
  with safe_reader.op_no_panic [OF assms(1,2)] show ?thesis by (simp add: rd_then_def no_panic_def)
next
  case (Inr a)
  then obtain x r' where r': "m r = Inr (x, r')" by (cases a) auto
  from assms(3) [OF r' safe_reader.op_inside [OF assms(1,2) r'] safe_reader.op_input [OF assms(1,2) r']
      safe_reader.op_forward [OF assms(1,2) r']] r'
  show ?thesis by (simp add: rd_then_def)
qed

lemma no_panic_run_last: "no_panic (m r) \<Longrightarrow> (\<And>x r'. no_panic (f x r')) \<Longrightarrow> no_panic (rd_then m f r)"
  by (auto simp: rd_then_def intro: no_panic_and_then)

lemma no_panic_run_if [no_panic_run]:
  "\<lbrakk>b \<Longrightarrow> no_panic (m r); \<not> b \<Longrightarrow> no_panic (n r)\<rbrakk> \<Longrightarrow> no_panic ((if b then m else n) r)"
  by simp

lemma no_panic_run_return [no_panic_run]: "no_panic (rd_return x r)"
  by (simp add: rd_return_def)

lemma no_panic_run_err [no_panic_run]: "no_panic (rd_lift (Inl (Err e)) r)"
  by (simp add: rd_lift_def)

interpretation u8_reader: safe_reader "Reader_u8 ctx" for ctx
  by (rule safe_reader_u8)

interpretation u32_reader: safe_reader "Reader_u32 ctx" for ctx
  by (rule safe_reader_widths)

interpretation take_reader: safe_reader "Reader_take n ctx" for n ctx
  by (rule safe_reader_take)

lemma no_panic_decode_with [no_panic_intros]: "safe_reader m \<Longrightarrow> no_panic (decode_with input m)"
  by (rule safe_reader.decode_no_panic)

lemma no_panic_resolve_range [simp, no_panic_intros]: "no_panic (resolve_range body off n ctx)"
  by (auto simp: resolve_range_def Let_def intro!: no_panic_intros)

lemma no_panic_checked_array_bytes [simp, no_panic_intros]:
  "no_panic (checked_array_bytes c sz mx off ctx)"
  by (auto simp: checked_array_bytes_def Let_def)

lemma no_panic_slice_index [no_panic_intros]:
  "a \<le> b \<Longrightarrow> b \<le> length xs \<Longrightarrow> no_panic (slice_index xs a b)"
  by (simp add: slice_index_def)

end
