(* ===== verification/Spice_Capability.thy ===== *)
theory Spice_Capability
  imports Spice_Wire
begin

text \<open>
  Capability bitmaps (\<open>capability.rs\<close>): a growable list of 32-bit words, at most sixteen of them.

  The locale \<open>bit_store\<close> states what the link handshake and the Agent announcement rely on: a store
  of bit indices with a bound, in which a successful insertion adds exactly one index. Its lemmas
  give the meaning of \<open>from_bits\<close> as a finite set; it is interpreted on the word-list operations.
\<close>

section \<open>The set and its operations (capability.rs)\<close>

definition MAX_CAPABILITY_WORDS :: nat where
  [simp]: "MAX_CAPABILITY_WORDS = 16"

record CapabilitySet =
  words :: "u32 list"

definition CapabilitySet_new :: CapabilitySet where
  "CapabilitySet_new = \<lparr>words = []\<rparr>"

definition CapabilitySet_from_words :: "u32 list \<Rightarrow> CapabilitySet" where
  "CapabilitySet_from_words ws = \<lparr>words = ws\<rparr>"

text \<open>\<open>Vec::resize\<close> to a length that is not smaller than the present one.\<close>

definition vec_grow :: "nat \<Rightarrow> 'a \<Rightarrow> 'a list \<Rightarrow> 'a list" where
  "vec_grow n x xs = xs @ replicate (n - length xs) x"

definition CapabilitySet_insert :: "CapabilitySet \<Rightarrow> u32 \<Rightarrow> CapabilitySet decoded" where
  "CapabilitySet_insert s b =
     (let maximum_bits = of_nat MAX_CAPABILITY_WORDS * 32 in
      if b \<ge> maximum_bits
      then decode_err ResourceLimit (unat b) STR ''capability bit index''
      else
        let word_index = unat (b div 32);
            ws = (if length (words s) \<le> word_index then vec_grow (word_index + 1) 0 (words s)
                  else words s)
        in Inr (s\<lparr>words := ws[word_index := (ws ! word_index) OR push_bit (unat (b mod 32)) 1]\<rparr>))"

fun CapabilitySet_insert_all :: "CapabilitySet \<Rightarrow> u32 list \<Rightarrow> CapabilitySet decoded" where
  "CapabilitySet_insert_all s [] = Inr s"
| "CapabilitySet_insert_all s (b # bs) =
     and_then (CapabilitySet_insert s b) (\<lambda>s'. CapabilitySet_insert_all s' bs)"

definition CapabilitySet_from_bits :: "u32 list \<Rightarrow> CapabilitySet decoded" where
  "CapabilitySet_from_bits bs = CapabilitySet_insert_all CapabilitySet_new bs"

definition CapabilitySet_contains :: "CapabilitySet \<Rightarrow> u32 \<Rightarrow> bool" where
  "CapabilitySet_contains s b =
     (let word_index = unat (b div 32) in
      word_index < length (words s) \<and>
      (words s ! word_index) AND push_bit (unat (b mod 32)) 1 \<noteq> 0)"

definition capabilities_ok :: "CapabilitySet \<Rightarrow> bool" where
  "capabilities_ok s \<longleftrightarrow> length (words s) \<le> MAX_CAPABILITY_WORDS"

section \<open>Words of the bitmap\<close>

lemma and_exp_eq_0: "(w :: 'a::len word) AND 2 ^ n = 0 \<longleftrightarrow> \<not> bit w n"
  using bit_iff_and_push_bit_not_eq_0 [of w n] by simp

lemma unat_div_32: "unat (b div 32 :: u32) = unat b div 32"
  by (simp add: unat_div)

lemma unat_mod_32: "unat (b mod 32 :: u32) = unat b mod 32"
  by (simp add: unat_mod)

lemma unat_mod_32_lt: "unat (b :: u32) mod 32 < 32"
  by simp

lemma contains_iff:
  "CapabilitySet_contains s b \<longleftrightarrow>
     unat b div 32 < length (words s) \<and> bit (words s ! (unat b div 32)) (unat b mod 32)"
  by (simp add: CapabilitySet_contains_def Let_def and_exp_eq_0 unat_div_32 unat_mod_32)

lemma length_vec_grow [simp]: "length (vec_grow n x xs) = max n (length xs)"
  by (simp add: vec_grow_def max_def)

lemma nth_vec_grow:
  "i < max n (length xs) \<Longrightarrow> vec_grow n x xs ! i = (if i < length xs then xs ! i else x)"
  by (simp add: vec_grow_def nth_append)

lemma insert_Inr:
  "CapabilitySet_insert s b = Inr s' \<longleftrightarrow>
     unat b < 512 \<and>
     s' = s\<lparr>words := (vec_grow (unat b div 32 + 1) 0 (words s))
              [unat b div 32 := (vec_grow (unat b div 32 + 1) 0 (words s)) ! (unat b div 32)
                 OR push_bit (unat b mod 32) 1]\<rparr>"
proof -
  have "(512 :: u32) \<le> b \<longleftrightarrow> \<not> unat b < 512" by (auto simp: word_le_nat_alt)
  moreover have "length (words s) > k \<Longrightarrow> vec_grow (k + 1) 0 (words s) = words s" for k
    by (simp add: vec_grow_def)
  ultimately show ?thesis
    by (auto simp: CapabilitySet_insert_def Let_def unat_div_32 unat_mod_32)
qed

lemma div_mod_32_eq: "(a :: nat) div 32 = b div 32 \<Longrightarrow> a mod 32 = b mod 32 \<Longrightarrow> a = b"
  by (metis div_mult_mod_eq)

lemma insert_contains_iff:
  assumes "CapabilitySet_insert s b = Inr s'"
  shows "CapabilitySet_contains s' c \<longleftrightarrow> c = b \<or> CapabilitySet_contains s c"
proof -
  let ?i = "unat b div 32" and ?j = "unat c div 32"
  from assms have s': "words s' = (vec_grow (?i + 1) 0 (words s))
      [?i := (vec_grow (?i + 1) 0 (words s)) ! ?i OR push_bit (unat b mod 32) 1]"
    by (auto simp: insert_Inr)
  show ?thesis
  proof (cases "?j = ?i")
    case True
    then have "unat c mod 32 = unat b mod 32 \<longleftrightarrow> c = b"
      using div_mod_32_eq [of "unat c" "unat b"] by (auto simp: word_unat_eq_iff)
    then show ?thesis
      by (simp add: contains_iff s' True nth_vec_grow bit_simps) (auto simp: unat_mod_32_lt)
  next
    case False
    then have "c \<noteq> b" by auto
    with False show ?thesis by (auto simp: contains_iff s' nth_vec_grow split: if_splits)
  qed
qed

section \<open>A bounded store of bit indices\<close>

locale bit_store =
  fixes empty :: 's
    and ins :: "'s \<Rightarrow> 'k \<Rightarrow> (DecodeError, 's) outcome"
    and has :: "'s \<Rightarrow> 'k \<Rightarrow> bool"
    and admissible :: "'k \<Rightarrow> bool"
    and invar :: "'s \<Rightarrow> bool"
  assumes has_empty: "\<not> has empty k"
    and invar_empty: "invar empty"
    and ins_total: "admissible k \<Longrightarrow> \<exists>s'. ins s k = Inr s'"
    and ins_refuses: "\<not> admissible k \<Longrightarrow> \<exists>e. ins s k = Inl (Err e) \<and> kind e = ResourceLimit"
    and has_ins: "ins s k = Inr s' \<Longrightarrow> has s' j \<longleftrightarrow> j = k \<or> has s j"
    and invar_ins: "invar s \<Longrightarrow> ins s k = Inr s' \<Longrightarrow> invar s'"
begin

fun ins_all :: "'s \<Rightarrow> 'k list \<Rightarrow> (DecodeError, 's) outcome" where
  "ins_all s [] = Inr s"
| "ins_all s (k # ks) = and_then (ins s k) (\<lambda>s'. ins_all s' ks)"

lemma has_ins_all: "ins_all s ks = Inr s' \<Longrightarrow> has s' j \<longleftrightarrow> j \<in> set ks \<or> has s j"
proof (induction ks arbitrary: s)
  case (Cons k ks)
  then obtain s1 where "ins s k = Inr s1" "ins_all s1 ks = Inr s'" by auto
  with Cons.IH [of s1] has_ins [of s k s1 j] show ?case by auto
qed simp

lemma invar_ins_all: "invar s \<Longrightarrow> ins_all s ks = Inr s' \<Longrightarrow> invar s'"
  by (induction ks arbitrary: s) (auto dest: invar_ins)

lemma ins_all_total: "\<forall>k \<in> set ks. admissible k \<Longrightarrow> \<exists>s'. ins_all s ks = Inr s'"
proof (induction ks arbitrary: s)
  case (Cons k ks)
  then obtain s1 where "ins s k = Inr s1" using ins_total [of k s] by auto
  with Cons show ?case by simp
qed simp

lemma ins_all_refuses:
  "\<exists>k \<in> set ks. \<not> admissible k \<Longrightarrow> \<exists>e. ins_all s ks = Inl (Err e) \<and> kind e = ResourceLimit"
proof (induction ks arbitrary: s)
  case (Cons k ks)
  show ?case
  proof (cases "admissible k")
    case True
    then obtain s1 where "ins s k = Inr s1" using ins_total [of k s] by auto
    with Cons True show ?thesis by auto
  next
    case False
    then obtain e where "ins s k = Inl (Err e)" "kind e = ResourceLimit"
      using ins_refuses by blast
    then show ?thesis by simp
  qed
qed simp

lemma from_list_spec:
  "ins_all empty ks = Inr s \<Longrightarrow> invar s \<and> {k. has s k} = set ks"
  using has_ins_all [of empty ks s] invar_ins_all [of empty ks s] invar_empty has_empty by auto

lemma from_list_iff: "(\<exists>s. ins_all empty ks = Inr s) \<longleftrightarrow> (\<forall>k \<in> set ks. admissible k)"
  using ins_all_total [of ks empty] ins_all_refuses [of ks empty] by fastforce

end

interpretation caps: bit_store CapabilitySet_new CapabilitySet_insert CapabilitySet_contains
  "\<lambda>b. unat b < 512" capabilities_ok
proof
  show "\<not> CapabilitySet_contains CapabilitySet_new k" for k
    by (simp add: contains_iff CapabilitySet_new_def)
  show "capabilities_ok CapabilitySet_new"
    by (simp add: capabilities_ok_def CapabilitySet_new_def)
  show "unat k < 512 \<Longrightarrow> \<exists>s'. CapabilitySet_insert s k = Inr s'" for s k
    by (simp add: insert_Inr)
  show "\<exists>e. CapabilitySet_insert s k = Inl (Err e) \<and> kind e = ResourceLimit"
    if "\<not> unat k < 512" for s k
    using that by (auto simp: CapabilitySet_insert_def word_le_nat_alt)
  show "capabilities_ok s \<Longrightarrow> CapabilitySet_insert s k = Inr s' \<Longrightarrow> capabilities_ok s'" for s k s'
    by (auto simp: insert_Inr capabilities_ok_def)
qed (rule insert_contains_iff)

lemma insert_all_eq_ins_all: "CapabilitySet_insert_all s bs = caps.ins_all s bs"
  by (induction bs arbitrary: s) simp_all

lemma no_panic_CapabilitySet_insert [simp, no_panic_intros]: "no_panic (CapabilitySet_insert s b)"
  by (auto simp: CapabilitySet_insert_def Let_def)

section \<open>Properties\<close>

text \<open>\<open>CapabilitySet::from_bits\<close> succeeds exactly when every index is below 512 (sixteen words of
  thirty-two bits), and then the set contains exactly the given indices and respects the word bound.\<close>

theorem from_bits_correct:
  "(\<exists>s. CapabilitySet_from_bits bs = Inr s) = list_all (\<lambda>b. unat b < 512) bs \<and>
   (case CapabilitySet_from_bits bs of
      Inr s \<Rightarrow> length (words s) \<le> MAX_CAPABILITY_WORDS \<and> {b. CapabilitySet_contains s b} = set bs
    | Inl (Err e) \<Rightarrow> kind e = ResourceLimit
    | Inl Panic \<Rightarrow> False)"
proof (intro conjI)
  show iff: "(\<exists>s. CapabilitySet_from_bits bs = Inr s) = list_all (\<lambda>b. unat b < 512) bs"
    unfolding CapabilitySet_from_bits_def insert_all_eq_ins_all caps.from_list_iff list_all_iff ..
  show "case CapabilitySet_from_bits bs of
      Inr s \<Rightarrow> length (words s) \<le> MAX_CAPABILITY_WORDS \<and> {b. CapabilitySet_contains s b} = set bs
    | Inl (Err e) \<Rightarrow> kind e = ResourceLimit | Inl Panic \<Rightarrow> False"
  proof (cases "CapabilitySet_from_bits bs")
    case (Inr s)
    then show ?thesis
      using caps.from_list_spec [of bs s]
      by (simp add: CapabilitySet_from_bits_def insert_all_eq_ins_all capabilities_ok_def)
  next
    case (Inl a)
    with iff have "\<exists>b \<in> set bs. \<not> unat b < 512" by (auto simp: list_all_iff)
    from caps.ins_all_refuses [OF this, of CapabilitySet_new] Inl show ?thesis
      by (auto simp: CapabilitySet_from_bits_def insert_all_eq_ins_all)
  qed
qed

end
