(* ===== verification/Spice_Channel.thy ===== *)
theory Spice_Channel
  imports Spice_Wire
begin

text \<open>
  Channel framing (\<open>channel.rs\<close> of the protocol crate): channel types, the two normal message
  headers, sub-message lists and cross-channel waits.

  \<open>SubMessageList::decode\<close> validates a whole list before any logical message is dispatched; the
  iterator over the list then uses \<open>expect\<close>. The main result is that this is justified: on a
  decoded list the iterator never panics, ends after \<open>count\<close> messages, and every message is a slice
  of the envelope that lies outside the offset table. The locale \<open>enum_codec\<close> is the contract of a
  numeric Rust enum with a \<open>TryFrom\<close> implementation.
\<close>

section \<open>Numeric enums\<close>

locale enum_codec =
  fixes code :: "'e \<Rightarrow> 'a::len word"
    and try_from :: "'a word \<Rightarrow> 'e decoded"
  assumes try_from_code: "try_from (code e) = Inr e"
    and code_try_from: "try_from c = Inr e \<Longrightarrow> code e = c"
    and try_from_error: "no_panic (try_from c)"
begin

lemma try_from_iff [simp]: "try_from c = Inr e \<longleftrightarrow> c = code e"
  using try_from_code code_try_from by blast

lemma code_inject [simp]: "code a = code b \<longleftrightarrow> a = b"
  by (metis Inr_inject try_from_code)

lemma rejected_iff: "(\<exists>err. try_from c = Inl (Err err)) \<longleftrightarrow> c \<notin> range code"
proof (cases "try_from c")
  case (Inl e)
  then show ?thesis using try_from_error [of c] by (cases e) (auto simp: no_panic_def try_from_code)
next
  case (Inr e)
  then show ?thesis by (auto simp: try_from_code)
qed

end

section \<open>Message codecs\<close>

text \<open>
  The contract of a message with an encoder and a decoder that accepts exactly the encoder's output.
  A Rust slice is shorter than \<open>2 ^ 64\<close> bytes.
\<close>

locale wire_codec =
  fixes encode :: "'m \<Rightarrow> u8 list decoded"
    and decode :: "u8 list \<Rightarrow> 'm decoded"
  assumes decode_encode: "encode m = Inr b \<Longrightarrow> length b < usize_limit \<Longrightarrow> decode b = Inr m"
    and encode_decode: "decode b = Inr m \<Longrightarrow> length b < usize_limit \<Longrightarrow> encode m = Inr b"
    and decode_total: "no_panic (decode b)"
begin

lemma canonical: "length b < usize_limit \<Longrightarrow> decode b = Inr m \<longleftrightarrow> encode m = Inr b"
  using decode_encode encode_decode by blast

lemma encode_injective:
  "encode m = Inr b \<Longrightarrow> encode m' = Inr b \<Longrightarrow> length b < usize_limit \<Longrightarrow> m = m'"
  by (metis Inr_inject decode_encode)

lemma rejected_iff:
  assumes "length b < usize_limit"
  shows "(\<exists>e. decode b = Inl (Err e)) \<longleftrightarrow> (\<forall>m. encode m \<noteq> Inr b)"
proof (cases "decode b")
  case (Inl a)
  with assms canonical [of b] decode_total [of b] show ?thesis by (cases a) (auto simp: no_panic_def)
next
  case (Inr m)
  with assms canonical [of b] show ?thesis by auto
qed

end

section \<open>Channel types (channel.rs)\<close>

datatype ChannelType =
    ChannelType_Main | ChannelType_Display | ChannelType_Inputs | ChannelType_Cursor
  | ChannelType_Playback | ChannelType_Record | ChannelType_Tunnel | ChannelType_Smartcard
  | ChannelType_UsbRedirection | ChannelType_Port | ChannelType_WebDav

primrec ChannelType_code :: "ChannelType \<Rightarrow> u8" where
  "ChannelType_code ChannelType_Main = 1"
| "ChannelType_code ChannelType_Display = 2"
| "ChannelType_code ChannelType_Inputs = 3"
| "ChannelType_code ChannelType_Cursor = 4"
| "ChannelType_code ChannelType_Playback = 5"
| "ChannelType_code ChannelType_Record = 6"
| "ChannelType_code ChannelType_Tunnel = 7"
| "ChannelType_code ChannelType_Smartcard = 8"
| "ChannelType_code ChannelType_UsbRedirection = 9"
| "ChannelType_code ChannelType_Port = 10"
| "ChannelType_code ChannelType_WebDav = 11"

definition ChannelType_try_from :: "u8 \<Rightarrow> ChannelType decoded" where
  "ChannelType_try_from value =
     (if value = 1 then Inr ChannelType_Main
      else if value = 2 then Inr ChannelType_Display
      else if value = 3 then Inr ChannelType_Inputs
      else if value = 4 then Inr ChannelType_Cursor
      else if value = 5 then Inr ChannelType_Playback
      else if value = 6 then Inr ChannelType_Record
      else if value = 7 then Inr ChannelType_Tunnel
      else if value = 8 then Inr ChannelType_Smartcard
      else if value = 9 then Inr ChannelType_UsbRedirection
      else if value = 10 then Inr ChannelType_Port
      else if value = 11 then Inr ChannelType_WebDav
      else decode_err InvalidValue 0 STR ''channel type'')"

interpretation channel_type: enum_codec ChannelType_code ChannelType_try_from
proof
  show "ChannelType_try_from (ChannelType_code e) = Inr e" for e
    by (cases e) (simp_all add: ChannelType_try_from_def)
  show "ChannelType_try_from c = Inr e \<Longrightarrow> ChannelType_code e = c" for c e
    by (auto simp: ChannelType_try_from_def split: if_splits)
  show "no_panic (ChannelType_try_from c)" for c
    by (simp add: ChannelType_try_from_def)
qed

declare channel_type.try_from_error [no_panic_intros]

section \<open>Normal message headers\<close>

datatype Framing = Framing_Mini | Framing_Full

primrec Framing_header_len :: "Framing \<Rightarrow> nat" where
  "Framing_header_len Framing_Mini = 6"
| "Framing_header_len Framing_Full = 18"

record DataHeader =
  dh_serial :: "u64 option"
  dh_message_type :: u16
  dh_body_size :: u32
  dh_sub_list_offset :: "u32 option"

definition DataHeader_decode :: "Framing \<Rightarrow> u8 list \<Rightarrow> DataHeader decoded" where
  "DataHeader_decode framing input =
     (if length input \<noteq> Framing_header_len framing
      then decode_err Truncated (length input) STR ''data header''
      else decode_with input
        (case framing of
           Framing_Mini \<Rightarrow>
             rd_then (Reader_u16 STR ''mini header message type'') (\<lambda>message_type.
             rd_then (Reader_u32 STR ''mini header body size'') (\<lambda>body_size.
             rd_return \<lparr>dh_serial = None, dh_message_type = message_type,
                        dh_body_size = body_size, dh_sub_list_offset = None\<rparr>))
         | Framing_Full \<Rightarrow>
             rd_then (Reader_u64 STR ''data header serial'') (\<lambda>serial.
             rd_then (Reader_u16 STR ''data header message type'') (\<lambda>message_type.
             rd_then (Reader_u32 STR ''data header body size'') (\<lambda>body_size.
             rd_then (Reader_u32 STR ''data header sub-list offset'') (\<lambda>sub_list_offset.
             rd_return \<lparr>dh_serial = Some serial, dh_message_type = message_type,
                        dh_body_size = body_size, dh_sub_list_offset = Some sub_list_offset\<rparr>))))))"

definition DataHeader_encode :: "Framing \<Rightarrow> u64 \<Rightarrow> u16 \<Rightarrow> u32 \<Rightarrow> u8 list \<Rightarrow> u8 list" where
  "DataHeader_encode framing serial message_type body_size output =
     (let output = (if framing = Framing_Full then output @ u64_to_le_bytes serial else output);
          output = output @ u16_to_le_bytes message_type;
          output = output @ u32_to_le_bytes body_size
      in if framing = Framing_Full then output @ u32_to_le_bytes 0 else output)"

section \<open>Sub-message lists\<close>

definition MAX_CHANNEL_WAITS :: nat where [simp]: "MAX_CHANNEL_WAITS = 64"
definition MAX_SUBMESSAGES :: nat where [simp]: "MAX_SUBMESSAGES = 64"
definition common_server_LIST :: u16 where [simp]: "common_server_LIST = 8"

record SubMessage =
  sub_message_type :: u16
  sub_body :: "u8 list"

record SubMessageList =
  sml_body :: "u8 list"
  sml_offsets_start :: nat
  sml_count :: nat

record SubMessages =
  sms_list :: SubMessageList
  sms_index :: nat

definition ranges_overlap :: "nat \<Rightarrow> nat \<Rightarrow> nat \<Rightarrow> nat \<Rightarrow> bool" where
  "ranges_overlap first_start first_end second_start second_end \<longleftrightarrow>
     first_start < second_end \<and> second_start < first_end"

definition read_submessage_offset :: "u8 list \<Rightarrow> nat \<Rightarrow> nat \<Rightarrow> u32 decoded" where
  "read_submessage_offset body offsets_start index =
     (let ctx = STR ''sub-message offset'';
          overflow = DecodeError_new Overflow offsets_start ctx in
      and_then (ok_or overflow (usize_checked_mul index 4)) (\<lambda>index_bytes.
      and_then (ok_or overflow (usize_checked_add offsets_start index_bytes)) (\<lambda>start.
      and_then (ok_or (DecodeError_new Overflow start ctx) (u32_try_from start)) (\<lambda>start32.
      and_then (resolve_range body start32 4 ctx) (\<lambda>(a, b).
      and_then (slice_index body a b) (\<lambda>bytes.
      decode_with bytes (Reader_u32 ctx)))))))"

text \<open>One turn of the validation loop of \<open>SubMessageList::decode\<close>.\<close>

definition validate_submessage :: "u8 list \<Rightarrow> nat \<Rightarrow> nat \<Rightarrow> nat \<Rightarrow> nat \<Rightarrow> unit decoded" where
  "validate_submessage body list_start table_end offsets_start index =
     and_then (read_submessage_offset body offsets_start index) (\<lambda>off.
     and_then (try_for_each (\<lambda>earlier.
         and_then (read_submessage_offset body offsets_start earlier) (\<lambda>off'.
         if off' = off
         then decode_err InvalidOffset (offsets_start + index * 4) STR ''duplicate sub-message offset''
         else Inr ())) [0..<index]) (\<lambda>_.
     and_then (resolve_range body off 6 STR ''sub-message header'') (\<lambda>(h_start, h_end).
     and_then (slice_index body h_start h_end) (\<lambda>header_bytes.
     and_then (decode_with header_bytes
       (rd_then (Reader_u16 STR ''sub-message type'') (\<lambda>message_type.
        if message_type = common_server_LIST
        then rd_err Unsupported h_start STR ''nested sub-message list''
        else rd_then (Reader_u32 STR ''sub-message size'') (\<lambda>size. rd_return (unat size)))))
       (\<lambda>message_size.
     and_then (ok_or (DecodeError_new Overflow h_end STR ''sub-message body'')
                 (usize_checked_add h_end message_size)) (\<lambda>message_end.
     if message_end > length body
     then decode_err InvalidOffset h_end STR ''sub-message body''
     else if ranges_overlap h_start message_end list_start table_end
     then decode_err InvalidOffset h_start STR ''sub-message overlaps list''
     else Inr ()))))))"

definition SubMessageList_decode :: "u8 list \<Rightarrow> u32 \<Rightarrow> SubMessageList decoded" where
  "SubMessageList_decode body list_offset =
     and_then (resolve_range body list_offset 2 STR ''sub-message list'') (\<lambda>(list_start, _).
     and_then (slice_index body list_start (length body)) (\<lambda>list_bytes.
     and_then (decode_with list_bytes (Reader_u16 STR ''sub-message count'')) (\<lambda>count16.
     let count = unat count16; ctx = STR ''sub-message offsets'' in
     if count > MAX_SUBMESSAGES
     then decode_err ResourceLimit list_start STR ''sub-message count''
     else
     and_then (ok_or (DecodeError_new Overflow list_start ctx)
                 (usize_checked_add list_start 2)) (\<lambda>offsets_start.
     and_then (ok_or (DecodeError_new Overflow offsets_start ctx)
                 (usize_checked_mul count 4)) (\<lambda>offsets_bytes.
     and_then (ok_or (DecodeError_new Overflow offsets_start ctx)
                 (u32_try_from offsets_start)) (\<lambda>offsets_start32.
     and_then (resolve_range body offsets_start32 offsets_bytes ctx) (\<lambda>(_, table_end).
     and_then (try_for_each (validate_submessage body list_start table_end offsets_start)
                 [0..<count]) (\<lambda>_.
     Inr \<lparr>sml_body = body, sml_offsets_start = offsets_start, sml_count = count\<rparr>))))))))"

definition SubMessageList_iter :: "SubMessageList \<Rightarrow> SubMessages" where
  "SubMessageList_iter l = \<lparr>sms_list = l, sms_index = 0\<rparr>"

text \<open>\<open>Result::expect\<close>: an error is a panic.\<close>

definition expect_ok :: "('e, 'a) outcome \<Rightarrow> ('e, 'a) outcome" where
  "expect_ok m = (case m of Inl _ \<Rightarrow> Inl Panic | Inr x \<Rightarrow> Inr x)"

lemma expect_ok_Inr [simp]: "expect_ok m = Inr x \<longleftrightarrow> m = Inr x"
  by (cases m) (simp_all add: expect_ok_def)

definition SubMessages_next :: "SubMessages \<Rightarrow> (SubMessage option \<times> SubMessages) decoded" where
  "SubMessages_next it =
     (let l = sms_list it in
      if sms_index it = sml_count l then Inr (None, it)
      else
      and_then (expect_ok (read_submessage_offset (sml_body l) (sml_offsets_start l)
                             (sms_index it))) (\<lambda>off.
      let start = unat off in
      and_then (slice_index (sml_body l) start (length (sml_body l))) (\<lambda>bytes.
      and_then (expect_ok (decode_with bytes
          (rd_then (Reader_u16 STR ''sub-message type'') (\<lambda>message_type.
           rd_then (Reader_u32 STR ''sub-message size'') (\<lambda>size.
           rd_then (Reader_take (unat size) STR ''sub-message body'') (\<lambda>body.
           rd_return \<lparr>sub_message_type = message_type, sub_body = body\<rparr>)))))) (\<lambda>message.
      Inr (Some message, it\<lparr>sms_index := sms_index it + 1\<rparr>)))))"

text \<open>Draining the iterator; the fuel bounds the number of \<open>next\<close> calls, \<open>None\<close> is "not finished".\<close>

fun SubMessages_collect :: "nat \<Rightarrow> SubMessages \<Rightarrow> SubMessage list decoded option" where
  "SubMessages_collect 0 it = None"
| "SubMessages_collect (Suc fuel) it =
     (case SubMessages_next it of
        Inl e \<Rightarrow> Some (Inl e)
      | Inr (None, _) \<Rightarrow> Some (Inr [])
      | Inr (Some m, it') \<Rightarrow>
          map_option (\<lambda>rest. and_then rest (\<lambda>ms. Inr (m # ms))) (SubMessages_collect fuel it'))"

section \<open>Cross-channel waits\<close>

record ChannelWait =
  cw_channel_type :: ChannelType
  cw_channel_id :: u8
  cw_message_serial :: u64

record WaitForChannels =
  waits :: "ChannelWait list"

definition read_channel_wait :: "ChannelWait reader_op" where
  "read_channel_wait =
     rd_then (Reader_u8 STR ''wait channel type'') (\<lambda>code.
     rd_then (rd_lift (ChannelType_try_from code)) (\<lambda>channel_type.
     rd_then (Reader_u8 STR ''wait channel id'') (\<lambda>channel_id.
     rd_then (Reader_u64 STR ''wait message serial'') (\<lambda>serial.
     rd_return \<lparr>cw_channel_type = channel_type, cw_channel_id = channel_id,
                cw_message_serial = serial\<rparr>))))"

definition WaitForChannels_decode :: "u8 list \<Rightarrow> WaitForChannels decoded" where
  "WaitForChannels_decode body = decode_with body
     (rd_then (Reader_u8 STR ''channel wait count'') (\<lambda>count8.
      let count = unat count8 in
      if count > MAX_CHANNEL_WAITS then rd_err ResourceLimit 0 STR ''channel wait count''
      else
      rd_then Reader_offset (\<lambda>here.
      rd_then (rd_lift (ok_or (DecodeError_new Overflow here STR ''channel waits'')
                 (usize_checked_mul count 10))) (\<lambda>expected_bytes.
      rd_then Reader_remaining (\<lambda>remaining.
      if remaining \<noteq> expected_bytes
      then rd_err (size_error_kind remaining expected_bytes) here STR ''channel waits''
      else
      rd_then (rd_repeat count read_channel_wait) (\<lambda>ws.
      rd_return \<lparr>waits = ws\<rparr>))))))"

section \<open>Headers round trip\<close>

lemma DataHeader_decode_encode_mini:
  "DataHeader_decode Framing_Mini (DataHeader_encode Framing_Mini serial mt sz []) =
     Inr \<lparr>dh_serial = None, dh_message_type = mt, dh_body_size = sz, dh_sub_list_offset = None\<rparr>"
  by (simp add: DataHeader_decode_def DataHeader_encode_def decode_with_at reader_width reader_simps)

lemma DataHeader_decode_encode_full:
  "DataHeader_decode Framing_Full (DataHeader_encode Framing_Full serial mt sz []) =
     Inr \<lparr>dh_serial = Some serial, dh_message_type = mt, dh_body_size = sz,
          dh_sub_list_offset = Some 0\<rparr>"
  by (simp add: DataHeader_decode_def DataHeader_encode_def decode_with_at reader_width reader_simps)

section \<open>Validated sub-message lists\<close>

text \<open>
  The reference meaning of a list: entry \<open>i\<close> of the offset table, and the message that starts at a
  byte position.
\<close>

definition list_entry :: "u8 list \<Rightarrow> nat \<Rightarrow> nat \<Rightarrow> u32" where
  "list_entry body offsets_start i = from_le (take 4 (drop (offsets_start + 4 * i) body))"

definition message_size :: "u8 list \<Rightarrow> nat \<Rightarrow> nat" where
  "message_size body p = unat (from_le (take 4 (drop (p + 2) body)) :: u32)"

definition message_at :: "u8 list \<Rightarrow> nat \<Rightarrow> SubMessage" where
  "message_at body p =
     \<lparr>sub_message_type = from_le (take 2 (drop p body)),
      sub_body = take (message_size body p) (drop (p + 6) body)\<rparr>"

definition message_ok :: "u8 list \<Rightarrow> nat \<Rightarrow> nat \<Rightarrow> nat \<Rightarrow> bool" where
  "message_ok body list_start table_end p \<longleftrightarrow>
     p + 6 + message_size body p \<le> length body \<and>
     sub_message_type (message_at body p) \<noteq> common_server_LIST \<and>
     \<not> ranges_overlap p (p + 6 + message_size body p) list_start table_end"

lemma read_submessage_offset_Inr [simp]:
  "read_submessage_offset body os i = Inr off \<longleftrightarrow>
     os + 4 * i + 4 \<le> length body \<and> os + 4 * i < 4294967296 \<and> off = list_entry body os i"
proof (cases "os + i * 4 < 4294967296")
  case True
  then obtain w :: u32 where w: "os + i * 4 = unat w" using u32_of_unat by blast
  then have w': "os + 4 * i = unat w" by simp
  from True have "i < 4611686018427387904" by simp
  with True show ?thesis
    by (auto simp: read_submessage_offset_def Let_def list_entry_def reader_width w w')
next
  case False
  then show ?thesis
    by (auto simp: read_submessage_offset_def Let_def usize_checked_add_def usize_checked_mul_def
        u32_try_from_def)
qed

lemma validate_submessage_Inr:
  "validate_submessage body ls te os i = Inr () \<longleftrightarrow>
     os + 4 * i + 4 \<le> length body \<and> os + 4 * i < 4294967296 \<and>
     (\<forall>j < i. list_entry body os j \<noteq> list_entry body os i) \<and>
     message_ok body ls te (unat (list_entry body os i)) \<and>
     unat (list_entry body os i) + 6 + message_size body (unat (list_entry body os i)) < usize_limit"
  (is "?lhs \<longleftrightarrow> ?rhs")
proof -
  have "(\<forall>j < i. os + 4 * j + 4 \<le> length body \<and> os + 4 * j < 4294967296)"
    if "os + 4 * i + 4 \<le> length body" "os + 4 * i < 4294967296"
    using that by auto
  then show ?thesis
    unfolding validate_submessage_def message_ok_def message_at_def message_size_def
    by (auto simp add: reader_width drop_take min_def)
qed

text \<open>A decoded list: what \<open>SubMessageList::decode\<close> has checked when it returns.\<close>

definition list_ok :: "SubMessageList \<Rightarrow> nat \<Rightarrow> bool" where
  "list_ok l list_start \<longleftrightarrow>
     (let body = sml_body l; os = sml_offsets_start l; n = sml_count l in
      os = list_start + 2 \<and> n \<le> MAX_SUBMESSAGES \<and> os + 4 * n \<le> length body \<and>
      (\<forall>i < n. validate_submessage body list_start (os + 4 * n) os i = Inr ()))"

lemma SubMessageList_decode_Inr:
  assumes "SubMessageList_decode body off = Inr l"
  shows "sml_body l = body \<and> list_ok l (unat off)"
proof -
  from assms obtain w where "unat off + 2 = unat (w :: u32)" and
    "l = \<lparr>sml_body = body, sml_offsets_start = unat off + 2,
           sml_count = unat (from_le (take 2 (drop (unat off) body)) :: u16)\<rparr>" and
    "unat w + unat (from_le (take 2 (drop (unat off) body)) :: u16) * 4 \<le> length body" and
    "unat (from_le (take 2 (drop (unat off) body)) :: u16) \<le> 64" and
    "\<forall>i < sml_count l. validate_submessage body (unat off)
        (unat w + unat (from_le (take 2 (drop (unat off) body)) :: u16) * 4) (unat off + 2) i = Inr ()"
    by (auto simp: SubMessageList_decode_def Let_def reader_width split: if_splits)
  then show ?thesis
    by (simp add: list_ok_def Let_def mult.commute [of _ 4])
qed

lemma list_ok_message:
  assumes "list_ok l ls" and "i < sml_count l"
  shows "message_ok (sml_body l) ls (ls + 2 + 4 * sml_count l)
           (unat (list_entry (sml_body l) (sml_offsets_start l) i))"
  using assms by (auto simp: list_ok_def Let_def validate_submessage_Inr)

lemma list_ok_distinct:
  assumes "list_ok l ls"
  shows "distinct (map (list_entry (sml_body l) (sml_offsets_start l)) [0..<sml_count l])"
proof -
  have "list_entry (sml_body l) (sml_offsets_start l) i \<noteq> list_entry (sml_body l) (sml_offsets_start l) j"
    if "i < j" "j < sml_count l" for i j
    using assms that by (auto simp: list_ok_def Let_def validate_submessage_Inr)
  then show ?thesis
    by (auto simp: distinct_map inj_on_def) (metis linorder_neqE_nat)
qed

lemma SubMessages_next_valid:
  assumes ok: "list_ok l ls" and i: "i < sml_count l"
  shows "SubMessages_next \<lparr>sms_list = l, sms_index = i\<rparr> =
           Inr (Some (message_at (sml_body l) (unat (list_entry (sml_body l) (sml_offsets_start l) i))),
                \<lparr>sms_list = l, sms_index = i + 1\<rparr>)"
proof -
  let ?b = "sml_body l" and ?off = "list_entry (sml_body l) (sml_offsets_start l) i"
  have v: "validate_submessage ?b ls (sml_offsets_start l + 4 * sml_count l) (sml_offsets_start l) i = Inr ()"
    using ok i by (auto simp: list_ok_def Let_def)
  then have off: "read_submessage_offset ?b (sml_offsets_start l) i = Inr ?off"
    and len: "unat ?off + 6 + message_size ?b (unat ?off) \<le> length ?b"
    and lim: "unat ?off + 6 + message_size ?b (unat ?off) < usize_limit"
    by (auto simp: validate_submessage_Inr message_ok_def)
  from off len lim i show ?thesis
    by (auto simp: SubMessages_next_def Let_def reader_width message_at_def message_size_def add_ac)
qed

lemma SubMessages_collect_valid:
  assumes ok: "list_ok l ls"
  shows "i \<le> sml_count l \<Longrightarrow>
    SubMessages_collect (Suc (sml_count l - i)) \<lparr>sms_list = l, sms_index = i\<rparr> =
      Some (Inr (map (\<lambda>i. message_at (sml_body l)
                         (unat (list_entry (sml_body l) (sml_offsets_start l) i))) [i..<sml_count l]))"
proof (induction "sml_count l - i" arbitrary: i)
  case 0
  then show ?case by (simp add: SubMessages_next_def)
next
  case (Suc k)
  then have i: "i < sml_count l" and "k = sml_count l - Suc i" by auto
  with Suc.hyps(1) [of "Suc i"] SubMessages_next_valid [OF ok i] show ?case
    by (simp add: Suc_diff_Suc upt_conv_Cons)
qed

text \<open>C3: once \<open>SubMessageList::decode\<close> has accepted a list, iterating over it cannot panic and ends
  after exactly \<open>count\<close> messages, in list order; every message is the slice of the envelope that its
  table entry designates, is not itself a list, does not overlap the offset table, and no two
  entries share an offset.\<close>

theorem submessage_iteration_sound:
  assumes "SubMessageList_decode body off = Inr l"
  shows "let table = unat off; n = sml_count l;
             entries = map (list_entry body (table + 2)) [0..<n] in
         n \<le> MAX_SUBMESSAGES \<and>
         SubMessages_collect (Suc n) (SubMessageList_iter l) =
           Some (Inr (map (\<lambda>e. message_at body (unat e)) entries)) \<and>
         distinct entries \<and>
         list_all (\<lambda>e. message_ok body table (table + 2 + 4 * n) (unat e)) entries"
proof -
  have b: "sml_body l = body" and ok: "list_ok l (unat off)"
    using SubMessageList_decode_Inr [OF assms] by auto
  then have os: "sml_offsets_start l = unat off + 2" and n: "sml_count l \<le> MAX_SUBMESSAGES"
    by (auto simp: list_ok_def Let_def)
  show ?thesis
    using SubMessages_collect_valid [OF ok, of 0] list_ok_distinct [OF ok] list_ok_message [OF ok] n
    by (auto simp: Let_def SubMessageList_iter_def b os comp_def list_all_iff)
qed

theorem submessage_iteration_sound_witness:
  "\<exists>l. SubMessageList_decode [1, 0, 8, 0, 0, 0, 0, 0, 101, 0, 1, 0, 0, 0, 170] 0 = Inr l \<and>
       SubMessages_collect (Suc (sml_count l)) (SubMessageList_iter l) =
         Some (Inr [\<lparr>sub_message_type = 101, sub_body = [170]\<rparr>])"
proof -
  let ?b = "[1, 0, 8, 0, 0, 0, 0, 0, 101, 0, 1, 0, 0, 0, 170] :: u8 list"
  have d: "SubMessageList_decode ?b 0 = Inr \<lparr>sml_body = ?b, sml_offsets_start = 2, sml_count = 1\<rparr>"
    by (simp add: SubMessageList_decode_def Let_def reader_width validate_submessage_Inr)
       (auto simp: list_entry_def message_ok_def message_size_def message_at_def ranges_overlap_def
         intro!: exI [of _ 2])
  with submessage_iteration_sound [OF d] show ?thesis
    by (simp add: Let_def message_at_def list_entry_def message_size_def del: SubMessages_collect.simps)
qed
section \<open>Panic freedom and waits\<close>

lemma no_panic_DataHeader_decode [no_panic_intros]: "no_panic (DataHeader_decode framing input)"
  by (auto simp: DataHeader_decode_def intro!: no_panic_intros safe_reader_intros split: Framing.split)

lemma no_panic_read_submessage_offset [simp, no_panic_intros]:
  "no_panic (read_submessage_offset body os i)"
  by (auto simp: read_submessage_offset_def Let_def intro!: no_panic_intros safe_reader_intros)

lemma no_panic_validate_submessage [simp, no_panic_intros]:
  "no_panic (validate_submessage body ls te os i)"
  by (auto simp: validate_submessage_def intro!: no_panic_intros safe_reader_intros)

lemma no_panic_SubMessageList_decode [no_panic_intros]:
  "no_panic (SubMessageList_decode body off)"
  by (auto simp: SubMessageList_decode_def Let_def intro!: no_panic_intros safe_reader_intros)

lemma safe_reader_channel_wait [safe_reader_intros]: "safe_reader read_channel_wait"
  unfolding read_channel_wait_def by (intro safe_reader_intros no_panic_intros)

lemma no_panic_WaitForChannels_decode [no_panic_intros]: "no_panic (WaitForChannels_decode body)"
  unfolding WaitForChannels_decode_def
  by (intro no_panic_intros safe_reader_intros)

definition encode_channel_wait :: "ChannelWait \<Rightarrow> u8 list" where
  "encode_channel_wait w =
     ChannelType_code (cw_channel_type w) # cw_channel_id w # u64_to_le_bytes (cw_message_serial w)"

lemma length_encode_channel_wait [simp]: "length (encode_channel_wait w) = 10"
  by (simp add: encode_channel_wait_def)

lemma read_channel_wait_at:
  assumes "length pre + 10 < usize_limit"
  shows "read_channel_wait (reader_at pre (encode_channel_wait w @ b)) =
           Inr (w, reader_at (pre @ encode_channel_wait w) b)"
  using assms
  by (simp add: read_channel_wait_def encode_channel_wait_def reader_width reader_simps
      channel_type.try_from_code)

end
