(* ===== verification/Spice_Link.thy ===== *)
theory Spice_Link
  imports Spice_Capability Spice_Channel
begin

text \<open>
  The link handshake records (\<open>link.rs\<close>): the fixed Link Header, the client's Link Message and the
  server's Link Reply with its two relative capability arrays. The lemmas give the exact layout of
  what the client sends, the round trip of the header, and that a reply is read back from any
  position of its capability array the header declares, within the local limits.
\<close>

section \<open>Constants and header (link.rs)\<close>

definition SPICE_MAGIC :: "u8 list" where "SPICE_MAGIC = [82, 69, 68, 81]"
definition SPICE_VERSION_MAJOR :: u32 where [simp]: "SPICE_VERSION_MAJOR = 2"
definition SPICE_VERSION_MINOR :: u32 where [simp]: "SPICE_VERSION_MINOR = 2"
definition LINK_HEADER_SIZE :: nat where [simp]: "LINK_HEADER_SIZE = 16"
definition LINK_MESSAGE_FIXED_SIZE :: nat where [simp]: "LINK_MESSAGE_FIXED_SIZE = 18"
definition LINK_REPLY_FIXED_SIZE :: nat where [simp]: "LINK_REPLY_FIXED_SIZE = 178"
definition SPICE_TICKET_PUBLIC_KEY_SIZE :: nat where [simp]: "SPICE_TICKET_PUBLIC_KEY_SIZE = 162"
definition MAX_LINK_BODY_SIZE :: nat where [simp]: "MAX_LINK_BODY_SIZE = 4096"

record LinkHeader =
  lh_major_version :: u32
  lh_minor_version :: u32
  lh_body_size :: u32

definition LinkHeader_current :: "u32 \<Rightarrow> LinkHeader" where
  "LinkHeader_current body_size =
     \<lparr>lh_major_version = SPICE_VERSION_MAJOR, lh_minor_version = SPICE_VERSION_MINOR,
      lh_body_size = body_size\<rparr>"

definition LinkHeader_encode :: "LinkHeader \<Rightarrow> u8 list \<Rightarrow> u8 list" where
  "LinkHeader_encode h output =
     output @ SPICE_MAGIC @ u32_to_le_bytes (lh_major_version h) @
     u32_to_le_bytes (lh_minor_version h) @ u32_to_le_bytes (lh_body_size h)"

definition LinkHeader_decode :: "u8 list \<Rightarrow> LinkHeader decoded" where
  "LinkHeader_decode input =
     (if length input \<noteq> LINK_HEADER_SIZE
      then decode_err Truncated (length input) STR ''link header''
      else decode_with input
       (rd_then (Reader_take 4 STR ''link magic'') (\<lambda>magic.
        if magic \<noteq> SPICE_MAGIC then rd_err InvalidValue 0 STR ''link magic''
        else
        rd_then (Reader_u32 STR ''link major version'') (\<lambda>major_version.
        rd_then (Reader_u32 STR ''link minor version'') (\<lambda>minor_version.
        rd_then (Reader_u32 STR ''link body size'') (\<lambda>body_size.
        if major_version \<noteq> SPICE_VERSION_MAJOR then rd_err Unsupported 4 STR ''link major version''
        else if unat body_size > MAX_LINK_BODY_SIZE then rd_err ResourceLimit 12 STR ''link body size''
        else rd_return \<lparr>lh_major_version = major_version, lh_minor_version = minor_version,
                        lh_body_size = body_size\<rparr>))))))"

section \<open>The client's link message\<close>

record LinkMessage =
  lm_connection_id :: u32
  lm_channel_type :: ChannelType
  lm_channel_id :: u8
  lm_common_capabilities :: CapabilitySet
  lm_channel_capabilities :: CapabilitySet

definition LinkMessage_encode :: "LinkMessage \<Rightarrow> u8 list decoded" where
  "LinkMessage_encode m =
     (let common = words (lm_common_capabilities m);
          channel = words (lm_channel_capabilities m) in
      and_then (ok_or (DecodeError_new Overflow 0 STR ''common capability count'')
                 (u32_try_from (length common))) (\<lambda>common_count.
      and_then (ok_or (DecodeError_new Overflow 0 STR ''channel capability count'')
                 (u32_try_from (length channel))) (\<lambda>channel_count.
      if length common > MAX_CAPABILITY_WORDS \<or> length channel > MAX_CAPABILITY_WORDS
      then decode_err ResourceLimit 0 STR ''link capability count''
      else
      and_then (ok_or (DecodeError_new Overflow 0 STR ''link capability count'')
                 (usize_checked_add (length common) (length channel))) (\<lambda>word_count.
      and_then (ok_or (DecodeError_new Overflow 0 STR ''link capability bytes'')
                 (usize_checked_mul word_count 4)) (\<lambda>word_bytes.
      and_then (ok_or (DecodeError_new Overflow 0 STR ''link message bytes'')
                 (usize_checked_add LINK_MESSAGE_FIXED_SIZE word_bytes)) (\<lambda>_.
      Inr (u32_to_le_bytes (lm_connection_id m) @ [ChannelType_code (lm_channel_type m)] @
           [lm_channel_id m] @ u32_to_le_bytes common_count @ u32_to_le_bytes channel_count @
           u32_to_le_bytes (of_nat LINK_MESSAGE_FIXED_SIZE) @
           concat (map u32_to_le_bytes (common @ channel)))))))))"

section \<open>The server's link reply\<close>

datatype LinkError =
    LinkError_Ok | LinkError_Error | LinkError_InvalidMagic | LinkError_InvalidData
  | LinkError_VersionMismatch | LinkError_NeedSecured | LinkError_NeedUnsecured
  | LinkError_PermissionDenied | LinkError_BadConnectionId | LinkError_ChannelUnavailable

primrec LinkError_code :: "LinkError \<Rightarrow> u32" where
  "LinkError_code LinkError_Ok = 0"
| "LinkError_code LinkError_Error = 1"
| "LinkError_code LinkError_InvalidMagic = 2"
| "LinkError_code LinkError_InvalidData = 3"
| "LinkError_code LinkError_VersionMismatch = 4"
| "LinkError_code LinkError_NeedSecured = 5"
| "LinkError_code LinkError_NeedUnsecured = 6"
| "LinkError_code LinkError_PermissionDenied = 7"
| "LinkError_code LinkError_BadConnectionId = 8"
| "LinkError_code LinkError_ChannelUnavailable = 9"

definition LinkError_try_from :: "u32 \<Rightarrow> LinkError decoded" where
  "LinkError_try_from value =
     (if value = 0 then Inr LinkError_Ok
      else if value = 1 then Inr LinkError_Error
      else if value = 2 then Inr LinkError_InvalidMagic
      else if value = 3 then Inr LinkError_InvalidData
      else if value = 4 then Inr LinkError_VersionMismatch
      else if value = 5 then Inr LinkError_NeedSecured
      else if value = 6 then Inr LinkError_NeedUnsecured
      else if value = 7 then Inr LinkError_PermissionDenied
      else if value = 8 then Inr LinkError_BadConnectionId
      else if value = 9 then Inr LinkError_ChannelUnavailable
      else decode_err InvalidValue 0 STR ''link result'')"

interpretation link_error: enum_codec LinkError_code LinkError_try_from
proof
  show "LinkError_try_from (LinkError_code e) = Inr e" for e
    by (cases e) (simp_all add: LinkError_try_from_def)
  show "LinkError_try_from c = Inr e \<Longrightarrow> LinkError_code e = c" for c e
    by (auto simp: LinkError_try_from_def split: if_splits)
  show "no_panic (LinkError_try_from c)" for c
    by (simp add: LinkError_try_from_def)
qed

declare link_error.try_from_error [no_panic_intros]

record LinkReply =
  lr_result :: LinkError
  lr_public_key_der :: "u8 list"
  lr_common_capabilities :: CapabilitySet
  lr_channel_capabilities :: CapabilitySet

text \<open>The capability reader of \<open>LinkReply::decode\<close> runs over the resolved sub-slice.\<close>

definition LinkReply_decode :: "u8 list \<Rightarrow> LinkReply decoded" where
  "LinkReply_decode body =
     (if length body < LINK_REPLY_FIXED_SIZE
      then decode_err Truncated (length body) STR ''link reply''
      else if length body > MAX_LINK_BODY_SIZE
      then decode_err ResourceLimit (length body) STR ''link reply''
      else decode_with body
       (rd_then (Reader_u32 STR ''link reply result'') (\<lambda>code.
        rd_then (rd_lift (LinkError_try_from code)) (\<lambda>result.
        rd_then (Reader_take SPICE_TICKET_PUBLIC_KEY_SIZE STR ''ticket public key'') (\<lambda>key.
        rd_then (rd_lift (expect (if length key = SPICE_TICKET_PUBLIC_KEY_SIZE then Some key else None)))
          (\<lambda>public_key_der.
        rd_then (Reader_u32 STR ''server common capability count'') (\<lambda>common_count.
        rd_then (Reader_u32 STR ''server channel capability count'') (\<lambda>channel_count.
        rd_then (Reader_u32 STR ''server capability offset'') (\<lambda>caps_offset.
        rd_then Reader_offset (\<lambda>here.
        rd_then (rd_lift (checked_array_bytes common_count 4 MAX_CAPABILITY_WORDS here
                   STR ''server common capabilities'')) (\<lambda>common_bytes.
        rd_then (rd_lift (checked_array_bytes channel_count 4 MAX_CAPABILITY_WORDS here
                   STR ''server channel capabilities'')) (\<lambda>channel_bytes.
        rd_then (rd_lift (ok_or (DecodeError_new Overflow here STR ''server capabilities'')
                   (usize_checked_add common_bytes channel_bytes))) (\<lambda>total_bytes.
        if unat caps_offset < LINK_REPLY_FIXED_SIZE
        then rd_err InvalidOffset (unat caps_offset) STR ''server capability offset''
        else
        rd_lift
         (and_then (resolve_range body caps_offset total_bytes STR ''server capabilities'') (\<lambda>(a, b).
          and_then (slice_index body a b) (\<lambda>caps.
          decode_with caps
           (rd_then (rd_repeat (common_bytes div 4) (Reader_u32 STR ''server common capability''))
             (\<lambda>common_words.
            rd_then (rd_repeat (channel_bytes div 4) (Reader_u32 STR ''server channel capability''))
             (\<lambda>channel_words.
            rd_return \<lparr>lr_result = result, lr_public_key_der = public_key_der,
                       lr_common_capabilities = CapabilitySet_from_words common_words,
                       lr_channel_capabilities = CapabilitySet_from_words channel_words\<rparr>)))))))))))))))))))"

section \<open>Helper facts\<close>

lemma length_SPICE_MAGIC [simp]: "length SPICE_MAGIC = 4"
  by (simp add: SPICE_MAGIC_def)

lemma no_panic_LinkHeader_decode [no_panic_intros]: "no_panic (LinkHeader_decode input)"
  unfolding LinkHeader_decode_def by (intro no_panic_intros safe_reader_intros)

lemma no_panic_LinkMessage_encode [no_panic_intros]: "no_panic (LinkMessage_encode m)"
  unfolding LinkMessage_encode_def Let_def by (intro no_panic_intros)

lemma no_panic_LinkReply_decode [no_panic_intros]: "no_panic (LinkReply_decode body)"
  unfolding LinkReply_decode_def
  by (auto intro!: no_panic_intros safe_reader_intros)

section \<open>What the client sends\<close>

lemma LinkHeader_decode_encode:
  "LinkHeader_decode (LinkHeader_encode h []) =
     (if lh_major_version h \<noteq> SPICE_VERSION_MAJOR
      then decode_err Unsupported 4 STR ''link major version''
      else if unat (lh_body_size h) > MAX_LINK_BODY_SIZE
      then decode_err ResourceLimit 12 STR ''link body size''
      else Inr h)"
  by (cases h)
     (simp add: LinkHeader_decode_def LinkHeader_encode_def decode_with_at reader_width reader_simps)

lemma LinkMessage_encode_Inr:
  "LinkMessage_encode m = Inr bytes \<longleftrightarrow>
     capabilities_ok (lm_common_capabilities m) \<and> capabilities_ok (lm_channel_capabilities m) \<and>
     bytes = u32_to_le_bytes (lm_connection_id m) @
       [ChannelType_code (lm_channel_type m), lm_channel_id m] @
       u32_to_le_bytes (of_nat (length (words (lm_common_capabilities m)))) @
       u32_to_le_bytes (of_nat (length (words (lm_channel_capabilities m)))) @
       u32_to_le_bytes 18 @
       concat (map u32_to_le_bytes (words (lm_common_capabilities m) @ words (lm_channel_capabilities m)))"
proof (cases "length (words (lm_common_capabilities m)) \<le> 16 \<and> length (words (lm_channel_capabilities m)) \<le> 16")
  case True
  then have "u32_try_from (length (words (lm_common_capabilities m))) =
      Some (of_nat (length (words (lm_common_capabilities m))))"
    "u32_try_from (length (words (lm_channel_capabilities m))) =
      Some (of_nat (length (words (lm_channel_capabilities m))))"
    by (simp_all add: u32_try_from_in)
  with True show ?thesis
    by (auto simp: LinkMessage_encode_def Let_def capabilities_ok_def)
next
  case False
  then show ?thesis
    by (auto simp: LinkMessage_encode_def Let_def capabilities_ok_def)
qed

section \<open>What the server replies\<close>

text \<open>
  The reply as a server lays it out: the fixed part, any padding before the capability array that the
  declared offset skips, the two word arrays, and bytes after them.
\<close>

definition link_reply_layout :: "LinkReply \<Rightarrow> u8 list \<Rightarrow> u8 list \<Rightarrow> u8 list" where
  "link_reply_layout r pad trailing =
     (let common = words (lr_common_capabilities r); channel = words (lr_channel_capabilities r) in
      u32_to_le_bytes (LinkError_code (lr_result r)) @ lr_public_key_der r @
      u32_to_le_bytes (of_nat (length common)) @ u32_to_le_bytes (of_nat (length channel)) @
      u32_to_le_bytes (of_nat (LINK_REPLY_FIXED_SIZE + length pad)) @ pad @
      concat (map u32_to_le_bytes common) @ concat (map u32_to_le_bytes channel) @ trailing)"

definition link_reply_ok :: "LinkReply \<Rightarrow> bool" where
  "link_reply_ok r \<longleftrightarrow> length (lr_public_key_der r) = SPICE_TICKET_PUBLIC_KEY_SIZE \<and>
     capabilities_ok (lr_common_capabilities r) \<and> capabilities_ok (lr_channel_capabilities r)"

lemma checked_array_bytes_in:
  "n \<le> mx \<Longrightarrow> mx < 4294967296 \<Longrightarrow> n * sz < usize_limit \<Longrightarrow>
     checked_array_bytes (of_nat n) sz mx off ctx = Inr (n * sz)"
  by (simp add: checked_array_bytes_def)

lemma LinkReply_decode_bounds:
  assumes "LinkReply_decode body = Inr r"
  shows "link_reply_ok r \<and> LINK_REPLY_FIXED_SIZE \<le> length body \<and> length body \<le> MAX_LINK_BODY_SIZE"
  using assms
  by (auto simp: LinkReply_decode_def reader_width link_reply_ok_def capabilities_ok_def
      CapabilitySet_from_words_def dest!: rd_repeat_length split: if_splits)

section \<open>Properties\<close>

text \<open>A Link Reply laid out by a server, with its capability array at any declared offset behind
  the fixed part and any bytes after it, decodes to exactly its result code, public key and the two
  capability sets, for every reply within the limits of 4096 bytes and sixteen words per set.\<close>

theorem link_reply_round_trip:
  assumes ok: "link_reply_ok r"
    and len: "length (link_reply_layout r pad trailing) \<le> MAX_LINK_BODY_SIZE"
  shows "LinkReply_decode (link_reply_layout r pad trailing) = Inr r"
proof -
  obtain res key common channel where r: "r = \<lparr>lr_result = res, lr_public_key_der = key,
      lr_common_capabilities = \<lparr>words = common\<rparr>, lr_channel_capabilities = \<lparr>words = channel\<rparr>\<rparr>"
    by (metis CapabilitySet.cases LinkReply.cases old.unit.exhaust)
  let ?caps = "concat (map u32_to_le_bytes common) @ concat (map u32_to_le_bytes channel)"
  let ?fixed = "u32_to_le_bytes (LinkError_code res) @ key @ u32_to_le_bytes (of_nat (length common)) @
      u32_to_le_bytes (of_nat (length channel)) @ u32_to_le_bytes (of_nat (178 + length pad))"
  from ok r have key: "length key = 162" and c: "length common \<le> 16" "length channel \<le> 16"
    by (auto simp: link_reply_ok_def capabilities_ok_def)
  from len r key have p: "length pad \<le> 3918"
    by (simp add: link_reply_layout_def Let_def)
  have body: "link_reply_layout r pad trailing = ?fixed @ pad @ ?caps @ trailing"
    by (simp add: link_reply_layout_def r)
  have off: "unat (of_nat (178 + length pad) :: u32) = 178 + length pad"
    using p by (intro unat_of_nat_u32) simp
  have range: "resolve_range (?fixed @ pad @ ?caps @ trailing) (of_nat (178 + length pad))
      (length common * 4 + length channel * 4) ctx =
      Inr (178 + length pad, 178 + length pad + (length common * 4 + length channel * 4))" for ctx
    unfolding resolve_range_Inr off using key p c by simp
  have slice: "slice_index (?fixed @ pad @ ?caps @ trailing) (178 + length pad)
      (178 + length pad + (length common * 4 + length channel * 4)) = Inr ?caps"
    using key c by (simp add: slice_index_def slice_get_def)
  have "decode_with ?caps
     (rd_then (rd_repeat (length common) (Reader_u32 c1)) (\<lambda>common_words.
      rd_then (rd_repeat (length channel) (Reader_u32 c2)) (\<lambda>channel_words.
      rd_return \<lparr>lr_result = res, lr_public_key_der = key,
         lr_common_capabilities = CapabilitySet_from_words common_words,
         lr_channel_capabilities = CapabilitySet_from_words channel_words\<rparr>))) = Inr r" for c1 c2
    using c rd_repeat_le_at [of 4 "[]" common c1 "concat (map u32_to_le_bytes channel)"]
      rd_repeat_le_at [of 4 "concat (map u32_to_le_bytes common)" channel c2 "[]"]
    by (simp add: decode_with_at rd_then_apply Reader_u32_def rd_return_apply
        CapabilitySet_from_words_def r)
  with len key c show ?thesis
    unfolding body
    by (simp add: LinkReply_decode_def decode_with_at reader_width reader_simps key
        link_error.try_from_code checked_array_bytes_in off range slice del: of_nat_add)
qed

theorem link_reply_round_trip_witness:
  "let r = \<lparr>lr_result = LinkError_NeedSecured, lr_public_key_der = replicate 162 7,
            lr_common_capabilities = \<lparr>words = [11]\<rparr>, lr_channel_capabilities = \<lparr>words = [3, 1]\<rparr>\<rparr> in
   LinkReply_decode (link_reply_layout r [0, 0] [9]) = Inr r"
  unfolding Let_def
  by (rule link_reply_round_trip)
     (simp_all add: link_reply_ok_def capabilities_ok_def link_reply_layout_def)

text \<open>The client's link request is well formed: encoding succeeds exactly when both capability
  sets respect the word bound, the message is the packed 18-byte prefix followed by the words (at
  most 146 bytes), and the header that announces it is accepted by the header decoder with the
  message's length as its body size.\<close>

theorem link_request_accepted:
  "case LinkMessage_encode m of
     Inl _ \<Rightarrow> \<not> (capabilities_ok (lm_common_capabilities m) \<and> capabilities_ok (lm_channel_capabilities m))
   | Inr body \<Rightarrow>
       capabilities_ok (lm_common_capabilities m) \<and> capabilities_ok (lm_channel_capabilities m) \<and>
       length body = LINK_MESSAGE_FIXED_SIZE + 4 * (length (words (lm_common_capabilities m)) +
                                                    length (words (lm_channel_capabilities m))) \<and>
       length body \<le> 146 \<and>
       drop LINK_MESSAGE_FIXED_SIZE body =
         concat (map u32_to_le_bytes (words (lm_common_capabilities m) @ words (lm_channel_capabilities m))) \<and>
       LinkHeader_decode (LinkHeader_encode (LinkHeader_current (of_nat (length body))) []) =
         Inr (LinkHeader_current (of_nat (length body)))"
proof (cases "LinkMessage_encode m")
  case (Inr body)
  then have ok: "capabilities_ok (lm_common_capabilities m)" "capabilities_ok (lm_channel_capabilities m)"
    and len: "length body = 18 + 4 * (length (words (lm_common_capabilities m)) +
      length (words (lm_channel_capabilities m)))"
    and tail: "drop 18 body = concat (map u32_to_le_bytes
      (words (lm_common_capabilities m) @ words (lm_channel_capabilities m)))"
    by (auto simp: LinkMessage_encode_Inr)
  then have small: "length body \<le> 146" by (simp add: capabilities_ok_def)
  have "unat (of_nat (length body) :: u32) = length body"
    using small by (intro unat_of_nat_u32) simp
  with ok len tail small Inr show ?thesis
    by (simp add: LinkHeader_decode_encode LinkHeader_current_def)
next
  case (Inl e)
  then show ?thesis using LinkMessage_encode_Inr [of m] by auto
qed

end
