(* ===== verification/Spice_Main.thy ===== *)
theory Spice_Main
  imports Spice_Channel
begin

text \<open>
  Main channel messages (\<open>main_channel.rs\<close>): migration destinations, mouse modes, Agent tokens, the
  server name and UUID, Main Init and the child-channel list.

  The channel list is shown to be a canonical codec: the decoder accepts exactly the encodings of
  bounded lists of distinct channel identities. Migration strings are non-empty, free of NUL bytes
  and bounded whenever they are accepted, and an accepted mouse mode is always an offered one.
\<close>

section \<open>Migration (main_channel.rs)\<close>

definition MAX_MAIN_NAME_BYTES :: nat where [simp]: "MAX_MAIN_NAME_BYTES = 1024"
definition MAX_MIGRATION_HOST_BYTES :: nat where [simp]: "MAX_MIGRATION_HOST_BYTES = 1024"
definition MAX_MIGRATION_CERT_SUBJECT_BYTES :: nat where
  [simp]: "MAX_MIGRATION_CERT_SUBJECT_BYTES = 4096"

record MigrationDestination =
  md_port :: u16
  md_secure_port :: u16
  md_host :: "u8 list"
  md_certificate_subject :: "u8 list option"

record MigrationBegin =
  mb_destination :: MigrationDestination
  mb_source_version :: "u32 option"

definition decode_migration_string ::
    "u8 list \<Rightarrow> u32 \<Rightarrow> nat \<Rightarrow> nat \<Rightarrow> context_str \<Rightarrow> bool \<Rightarrow> u8 list option decoded" where
  "decode_migration_string body off sz maximum ctx optional =
     (if sz = 0 then
        if optional \<and> off = 0 then Inr None else decode_err InvalidValue (unat off) ctx
      else if sz > maximum then decode_err ResourceLimit (unat off) ctx
      else
      and_then (resolve_range body off sz ctx) (\<lambda>(a, b).
      and_then (slice_index body a b) (\<lambda>bytes.
      if \<not> nul_terminated bytes then decode_err InvalidValue a ctx
      else
      and_then (slice_index bytes 0 (length bytes - 1)) (\<lambda>prefix.
      and_then (ok_or (DecodeError_new InvalidValue a ctx) (from_utf8 prefix)) (\<lambda>text.
      if text = [] \<and> \<not> optional then decode_err InvalidValue a ctx
      else Inr (if text \<noteq> [] then Some text else None))))))"

definition decode_migration_destination :: "u8 list \<Rightarrow> MigrationDestination decoded" where
  "decode_migration_destination body =
     (if length body < 20 then decode_err Truncated (length body) STR ''migration destination''
      else
      and_then (slice_index body 0 20) (\<lambda>fixed.
      decode_with fixed
       (rd_then (Reader_u16 STR ''migration port'') (\<lambda>port.
        rd_then (Reader_u16 STR ''migration secure port'') (\<lambda>secure_port.
        if port = 0 \<and> secure_port = 0
        then rd_err InvalidValue 0 STR ''migration destination ports''
        else
        rd_then (Reader_u32 STR ''migration host size'') (\<lambda>host_size.
        rd_then (Reader_u32 STR ''migration host offset'') (\<lambda>host_offset.
        rd_then (Reader_u32 STR ''migration certificate subject size'') (\<lambda>certificate_size.
        rd_then (Reader_u32 STR ''migration certificate subject offset'') (\<lambda>certificate_offset.
        rd_then (rd_lift (decode_migration_string body host_offset (unat host_size)
                   MAX_MIGRATION_HOST_BYTES STR ''migration host'' False)) (\<lambda>host.
        rd_then (rd_lift (expect host)) (\<lambda>host.
        rd_then (rd_lift (decode_migration_string body certificate_offset (unat certificate_size)
                   MAX_MIGRATION_CERT_SUBJECT_BYTES STR ''migration certificate subject'' True))
          (\<lambda>certificate_subject.
        rd_return \<lparr>md_port = port, md_secure_port = secure_port, md_host = host,
                   md_certificate_subject = certificate_subject\<rparr>))))))))))))"

definition MigrationBegin_decode :: "u8 list \<Rightarrow> bool \<Rightarrow> MigrationBegin decoded" where
  "MigrationBegin_decode body seamless =
     (let fixed_bytes = (if seamless then 24 else 20) in
      if length body < fixed_bytes
      then decode_err Truncated (length body) STR ''Main migration begin''
      else
      and_then (decode_migration_destination body) (\<lambda>destination.
      and_then (if seamless
                then and_then (slice_index body 20 24) (\<lambda>bytes.
                     and_then (decode_with bytes (Reader_u32 STR ''migration source version''))
                       (\<lambda>v. Inr (Some v)))
                else Inr None) (\<lambda>source_version.
      Inr \<lparr>mb_destination = destination, mb_source_version = source_version\<rparr>)))"

definition decode_switch_host :: "u8 list \<Rightarrow> MigrationDestination decoded" where
  "decode_switch_host body = decode_migration_destination body"

section \<open>Mouse modes\<close>

datatype MouseMode = MouseMode_Server | MouseMode_Client

primrec MouseMode_code :: "MouseMode \<Rightarrow> u16" where
  "MouseMode_code MouseMode_Server = 1"
| "MouseMode_code MouseMode_Client = 2"

definition MouseMode_try_from :: "u16 \<Rightarrow> MouseMode decoded" where
  "MouseMode_try_from value =
     (if value = 1 then Inr MouseMode_Server
      else if value = 2 then Inr MouseMode_Client
      else decode_err InvalidValue 0 STR ''current mouse mode'')"

interpretation mouse_mode: enum_codec MouseMode_code MouseMode_try_from
proof
  show "MouseMode_try_from (MouseMode_code e) = Inr e" for e
    by (cases e) (simp_all add: MouseMode_try_from_def)
  show "MouseMode_try_from c = Inr e \<Longrightarrow> MouseMode_code e = c" for c e
    by (auto simp: MouseMode_try_from_def split: if_splits)
  show "no_panic (MouseMode_try_from c)" for c
    by (simp add: MouseMode_try_from_def)
qed

declare mouse_mode.try_from_error [no_panic_intros]

record MouseModeState =
  supported_modes :: u16
  current_mode :: MouseMode

definition MouseModeState_decode :: "u8 list \<Rightarrow> MouseModeState decoded" where
  "MouseModeState_decode body =
     (if length body \<noteq> 4
      then decode_err (size_error_kind (length body) 4) (length body) STR ''main mouse mode''
      else decode_with body
       (rd_then (Reader_u16 STR ''supported mouse modes'') (\<lambda>supported.
        rd_then (Reader_u16 STR ''current mouse mode'') (\<lambda>code.
        rd_then (rd_lift (MouseMode_try_from code)) (\<lambda>current.
        let known_modes = MouseMode_code MouseMode_Server OR MouseMode_code MouseMode_Client in
        if supported AND NOT known_modes \<noteq> 0 \<or> supported AND MouseMode_code current = 0
        then rd_err InvalidValue 0 STR ''supported mouse modes''
        else rd_return \<lparr>supported_modes = supported, current_mode = current\<rparr>)))))"

definition MouseModeState_supports :: "MouseModeState \<Rightarrow> MouseMode \<Rightarrow> bool" where
  "MouseModeState_supports s mode \<longleftrightarrow> supported_modes s AND MouseMode_code mode \<noteq> 0"

definition encode_mouse_mode_request :: "MouseMode \<Rightarrow> u8 list" where
  "encode_mouse_mode_request mode = u16_to_le_bytes (MouseMode_code mode)"

section \<open>Agent tokens, name, UUID\<close>

definition decode_agent_u32 :: "u8 list \<Rightarrow> context_str \<Rightarrow> u32 decoded" where
  "decode_agent_u32 body ctx =
     (if length body \<noteq> 4 then decode_err (size_error_kind (length body) 4) (length body) ctx
      else decode_with body (Reader_u32 ctx))"

definition encode_agent_tokens :: "u32 \<Rightarrow> u8 list" where
  "encode_agent_tokens tokens = u32_to_le_bytes tokens"

definition decode_main_name :: "u8 list \<Rightarrow> u8 list decoded" where
  "decode_main_name body = decode_with body
     (rd_then (Reader_u32 STR ''Main server name length'') (\<lambda>len.
      let name_bytes = unat len in
      rd_then Reader_remaining (\<lambda>remaining.
      if name_bytes = 0 \<or> name_bytes > MAX_MAIN_NAME_BYTES \<or> remaining \<noteq> name_bytes
      then rd_err (if remaining < name_bytes then Truncated else InvalidValue) 4
             STR ''Main server name''
      else
      rd_then (Reader_take name_bytes STR ''Main server name'') (\<lambda>name.
      if \<not> nul_terminated name then rd_err InvalidValue 4 STR ''Main server name terminator''
      else
      rd_then (rd_lift (slice_index name 0 (length name - 1))) (\<lambda>prefix.
      rd_lift (ok_or (DecodeError_new InvalidValue 4 STR ''Main server name UTF-8'')
                 (from_utf8 prefix)))))))"

definition decode_main_uuid :: "u8 list \<Rightarrow> u8 list decoded" where
  "decode_main_uuid body =
     (if length body = 16 then Inr body
      else decode_err (if length body < 16 then Truncated else InvalidValue) (length body)
             STR ''Main server UUID'')"

section \<open>Main Init and the channel list\<close>

record MainInit =
  mi_session_id :: u32
  mi_display_channels_hint :: u32
  mi_supported_mouse_modes :: u32
  mi_current_mouse_mode :: u32
  mi_agent_connected :: bool
  mi_agent_tokens :: u32
  mi_multi_media_time :: u32
  mi_ram_hint :: u32

definition MainInit_decode :: "u8 list \<Rightarrow> MainInit decoded" where
  "MainInit_decode body =
     (if length body \<noteq> 32
      then decode_err (size_error_kind (length body) 32) (length body) STR ''main init size''
      else decode_with body
       (rd_then (Reader_u32 STR ''main session id'') (\<lambda>session_id.
        rd_then (Reader_u32 STR ''display channel hint'') (\<lambda>hint.
        rd_then (Reader_u32 STR ''supported mouse modes'') (\<lambda>supported.
        rd_then (Reader_u32 STR ''current mouse mode'') (\<lambda>current.
        rd_then (Reader_u32 STR ''agent connected'') (\<lambda>connected.
        rd_then (Reader_u32 STR ''agent tokens'') (\<lambda>tokens.
        rd_then (Reader_u32 STR ''multimedia time'') (\<lambda>time.
        rd_then (Reader_u32 STR ''RAM hint'') (\<lambda>ram_hint.
        rd_return \<lparr>mi_session_id = session_id, mi_display_channels_hint = hint,
                   mi_supported_mouse_modes = supported, mi_current_mouse_mode = current,
                   mi_agent_connected = (connected \<noteq> 0), mi_agent_tokens = tokens,
                   mi_multi_media_time = time, mi_ram_hint = ram_hint\<rparr>))))))))))"

text \<open>\<open>u16::try_from\<close> of a \<open>u32\<close>.\<close>

definition u16_try_from :: "u32 \<Rightarrow> u16 option" where
  "u16_try_from w = (if unat w < 65536 then Some (ucast w) else None)"

definition MainInit_mouse_mode_state :: "MainInit \<Rightarrow> MouseModeState decoded" where
  "MainInit_mouse_mode_state i =
     and_then (ok_or (DecodeError_new InvalidValue 0 STR ''initial supported mouse modes'')
                 (u16_try_from (mi_supported_mouse_modes i))) (\<lambda>supported.
     and_then (ok_or (DecodeError_new InvalidValue 0 STR ''initial current mouse mode'')
                 (u16_try_from (mi_current_mouse_mode i))) (\<lambda>current.
     MouseModeState_decode (u16_to_le_bytes supported @ u16_to_le_bytes current)))"

record ChannelId =
  ci_channel_type :: ChannelType
  ci_channel_id :: u8

record ChannelsList =
  channels :: "ChannelId list"

definition MAX_CHANNELS :: nat where [simp]: "MAX_CHANNELS = 256"

text \<open>The loop of \<open>ChannelsList::decode\<close>: \<open>acc\<close> is the vector built so far.\<close>

primrec read_channel_ids :: "nat \<Rightarrow> ChannelId list \<Rightarrow> ChannelId list reader_op" where
  "read_channel_ids 0 acc = rd_return acc"
| "read_channel_ids (Suc n) acc =
     rd_then (Reader_u8 STR ''channel list type'') (\<lambda>code.
     rd_then (rd_lift (ChannelType_try_from code)) (\<lambda>channel_type.
     rd_then (Reader_u8 STR ''channel list id'') (\<lambda>channel_id.
     let channel = \<lparr>ci_channel_type = channel_type, ci_channel_id = channel_id\<rparr> in
     if channel \<in> set acc
     then rd_then Reader_offset (\<lambda>here.
          rd_err InvalidValue (here - 2) STR ''duplicate channel identity'')
     else read_channel_ids n (acc @ [channel]))))"

definition ChannelsList_decode :: "u8 list \<Rightarrow> ChannelsList decoded" where
  "ChannelsList_decode body = decode_with body
     (rd_then (Reader_u32 STR ''channel list count'') (\<lambda>count.
      rd_then Reader_offset (\<lambda>here.
      rd_then (rd_lift (checked_array_bytes count 2 MAX_CHANNELS here STR ''channel list''))
        (\<lambda>channel_bytes.
      rd_then Reader_remaining (\<lambda>remaining.
      if remaining \<noteq> channel_bytes
      then rd_err (size_error_kind remaining channel_bytes) here STR ''channel list size''
      else
      rd_then (read_channel_ids (channel_bytes div 2) []) (\<lambda>cs.
      rd_return \<lparr>channels = cs\<rparr>))))))"

section \<open>Panic freedom\<close>

lemma no_panic_decode_migration_string [simp, no_panic_intros]:
  "no_panic (decode_migration_string body off sz mx ctx opt)"
  unfolding decode_migration_string_def
  by (auto intro!: no_panic_intros)

lemma decode_migration_string_Some:
  "decode_migration_string body off sz mx ctx False = Inr host \<Longrightarrow> host \<noteq> None"
  by (auto simp: decode_migration_string_def split: if_splits)

lemma no_panic_decode_migration_destination [simp, no_panic_intros]:
  "no_panic (decode_migration_destination body)"
  unfolding decode_migration_destination_def
  by (auto intro!: no_panic_intros safe_reader_intros dest: decode_migration_string_Some)

lemma no_panic_MigrationBegin_decode [no_panic_intros]: "no_panic (MigrationBegin_decode body s)"
  unfolding MigrationBegin_decode_def Let_def
  by (auto intro!: no_panic_intros safe_reader_intros)

lemma no_panic_MouseModeState_decode [no_panic_intros]: "no_panic (MouseModeState_decode body)"
  unfolding MouseModeState_decode_def by (intro no_panic_intros safe_reader_intros)

lemma no_panic_decode_main_name [no_panic_intros]: "no_panic (decode_main_name body)"
  unfolding decode_main_name_def by (auto intro!: no_panic_intros safe_reader_intros)

lemma no_panic_MainInit_decode [no_panic_intros]: "no_panic (MainInit_decode body)"
  unfolding MainInit_decode_def by (intro no_panic_intros safe_reader_intros)

lemma safe_reader_channel_ids [safe_reader_intros]: "safe_reader (read_channel_ids n acc)"
  by (induction n arbitrary: acc) (auto simp: Let_def intro!: safe_reader_intros no_panic_intros)

lemma no_panic_ChannelsList_decode [no_panic_intros]: "no_panic (ChannelsList_decode body)"
  unfolding ChannelsList_decode_def by (intro no_panic_intros safe_reader_intros)

section \<open>The channel list as a canonical codec\<close>

definition encode_channel_id :: "ChannelId \<Rightarrow> u8 list" where
  "encode_channel_id c = [ChannelType_code (ci_channel_type c), ci_channel_id c]"

definition encode_channels_list :: "ChannelsList \<Rightarrow> u8 list" where
  "encode_channels_list l =
     u32_to_le_bytes (of_nat (length (channels l))) @ concat (map encode_channel_id (channels l))"

lemma length_concat_channel_ids [simp]: "length (concat (map encode_channel_id cs)) = 2 * length cs"
  by (induction cs) (simp_all add: encode_channel_id_def)

lemma read_channel_ids_at:
  "distinct (acc @ cs) \<Longrightarrow> length pre + 2 * length cs < usize_limit \<Longrightarrow>
   read_channel_ids (length cs) acc (reader_at pre (concat (map encode_channel_id cs) @ b)) =
     Inr (acc @ cs, reader_at (pre @ concat (map encode_channel_id cs)) b)"
proof (induction cs arbitrary: acc pre)
  case Nil
  then show ?case by (simp add: rd_return_apply)
next
  case (Cons c cs)
  have "length (pre @ encode_channel_id c) + 2 * length cs < usize_limit"
    using Cons.prems by (simp add: encode_channel_id_def)
  with Cons.IH [of "acc @ [c]" "pre @ encode_channel_id c"] Cons.prems show ?case
    by (cases c) (simp add: encode_channel_id_def reader_simps channel_type.try_from_code Let_def)
qed

lemma take_two_drop:
  "o1 + Suc (Suc 0) \<le> length xs \<Longrightarrow>
     take (Suc (Suc n)) (drop o1 xs) = xs ! o1 # xs ! Suc o1 # take n (drop (Suc (Suc o1)) xs)"
  by (metis Cons_nth_drop_Suc Suc_le_lessD add_Suc_right add.right_neutral Suc_leD take_Suc_Cons)

lemma read_channel_ids_Inr:
  "read_channel_ids n acc r = Inr (cs, r') \<Longrightarrow> distinct acc \<Longrightarrow> rd_offset r \<le> length (rd_input r) \<Longrightarrow>
   \<exists>ds. cs = acc @ ds \<and> length ds = n \<and> distinct cs \<and>
        rd_offset r + 2 * n \<le> length (rd_input r) \<and>
        concat (map encode_channel_id ds) = take (2 * n) (drop (rd_offset r) (rd_input r))"
proof (induction n arbitrary: acc r)
  case 0
  then show ?case by simp
next
  case (Suc n)
  then obtain t where code: "rd_input r ! rd_offset r = ChannelType_code t"
    and len: "rd_offset r + 2 \<le> length (rd_input r)"
    and fresh: "\<lparr>ci_channel_type = t, ci_channel_id = rd_input r ! Suc (rd_offset r)\<rparr> \<notin> set acc"
    and rest: "read_channel_ids n (acc @ [\<lparr>ci_channel_type = t,
        ci_channel_id = rd_input r ! Suc (rd_offset r)\<rparr>])
        (r\<lparr>rd_offset := Suc (Suc (rd_offset r))\<rparr>) = Inr (cs, r')"
    by (auto simp: Let_def split: if_splits)
  from Suc.IH [OF rest] fresh Suc.prems(2) len obtain ds where
    "cs = acc @ \<lparr>ci_channel_type = t, ci_channel_id = rd_input r ! Suc (rd_offset r)\<rparr> # ds"
    "length ds = n" "distinct cs" "Suc (Suc (rd_offset r)) + 2 * n \<le> length (rd_input r)"
    "concat (map encode_channel_id ds) = take (2 * n) (drop (Suc (Suc (rd_offset r))) (rd_input r))"
    by auto
  moreover have "encode_channel_id \<lparr>ci_channel_type = t, ci_channel_id = rd_input r ! Suc (rd_offset r)\<rparr> =
      [rd_input r ! rd_offset r, rd_input r ! Suc (rd_offset r)]"
    by (simp add: encode_channel_id_def code)
  ultimately show ?case
    using len by (auto simp: take_two_drop)
qed

lemma ChannelsList_decode_encode:
  assumes "distinct (channels l)" and "length (channels l) \<le> MAX_CHANNELS"
  shows "ChannelsList_decode (encode_channels_list l) = Inr l"
proof -
  have "read_channel_ids (length (channels l)) []
      (reader_at (u32_to_le_bytes (of_nat (length (channels l)))) (concat (map encode_channel_id (channels l)))) =
      Inr (channels l, reader_at (u32_to_le_bytes (of_nat (length (channels l))) @
        concat (map encode_channel_id (channels l))) [])"
    using assms read_channel_ids_at [of "[]" "channels l" _ "[]"] by simp
  moreover have "checked_array_bytes (of_nat (length (channels l))) 2 MAX_CHANNELS off ctx =
      Inr (length (channels l) * 2)" for off ctx
    using assms by (simp add: checked_array_bytes_def)
  ultimately show ?thesis
    by (simp add: ChannelsList_decode_def encode_channels_list_def decode_with_at reader_width
        reader_simps)
qed

text \<open>The child-channel list has exactly one wire form: \<open>ChannelsList::decode\<close> accepts a body if
  and only if it is the count followed by the identities of a list of at most 256 pairwise distinct
  channels, and returns that list.\<close>

theorem channels_list_canonical:
  "ChannelsList_decode body = Inr l \<longleftrightarrow>
     distinct (channels l) \<and> length (channels l) \<le> MAX_CHANNELS \<and> body = encode_channels_list l"
proof
  assume "ChannelsList_decode body = Inr l"
  then obtain r' where n: "unat (from_le (take 4 body) :: u32) \<le> 256"
    and len: "length body = 4 + unat (from_le (take 4 body) :: u32) * 2"
    and ids: "read_channel_ids (unat (from_le (take 4 body) :: u32)) []
        ((Reader_new body)\<lparr>rd_offset := 4\<rparr>) = Inr (channels l, r')"
    by (cases l) (auto simp: ChannelsList_decode_def reader_width split: if_splits)
  from read_channel_ids_Inr [OF ids] len n have cs: "length (channels l) = unat (from_le (take 4 body) :: u32)"
    "distinct (channels l)" "concat (map encode_channel_id (channels l)) = drop 4 body"
    by auto
  have "u32_to_le_bytes (of_nat (length (channels l))) = take 4 body"
    using cs(1) len by simp
  with cs n show "distinct (channels l) \<and> length (channels l) \<le> MAX_CHANNELS \<and>
      body = encode_channels_list l"
    by (simp add: encode_channels_list_def)
qed (simp add: ChannelsList_decode_encode)

section \<open>Accepted values\<close>

definition text_within :: "u8 list \<Rightarrow> nat \<Rightarrow> u8 list \<Rightarrow> bool" where
  "text_within body maximum t \<longleftrightarrow>
     t \<noteq> [] \<and> 0 \<notin> set t \<and> utf8_valid t \<and> length t < maximum \<and> (\<exists>pre post. body = pre @ t @ [0] @ post)"

lemma decode_migration_string_text:
  assumes "decode_migration_string body off sz mx ctx opt = Inr (Some t)"
  shows "text_within body mx t"
proof -
  let ?bytes = "take sz (drop (unat off) body)"
  from assms have sz: "sz \<noteq> 0" "sz \<le> mx" "unat off + sz \<le> length body"
    and nul: "nul_terminated ?bytes" and t: "t = butlast ?bytes" "utf8_valid t" "t \<noteq> []"
    by (auto simp: decode_migration_string_def butlast_conv_take min_def split: if_splits)
  from nul have eq: "?bytes = t @ [0]" and free: "0 \<notin> set t"
    using append_butlast_last_id [of ?bytes] by (auto simp: nul_terminated_def t)
  have "length ?bytes = sz" using sz by simp
  with eq have "length t < mx" using sz by simp
  moreover have "body = take (unat off) body @ ?bytes @ drop (unat off + sz) body"
    by (metis append_take_drop_id add.commute drop_drop)
  ultimately show ?thesis
    using t free eq unfolding text_within_def by (metis append_assoc)
qed

text \<open>A migration destination is accepted only with at least one non-zero port and a host that is
  non-empty, valid UTF-8 without NUL bytes, shorter than 1024 bytes and taken with its terminator
  from the message; a certificate subject, when present, satisfies the same with its own bound.\<close>

theorem migration_destination_sound:
  assumes "decode_migration_destination body = Inr d"
  shows "(md_port d \<noteq> 0 \<or> md_secure_port d \<noteq> 0) \<and>
    text_within body MAX_MIGRATION_HOST_BYTES (md_host d) \<and>
    (case md_certificate_subject d of None \<Rightarrow> True
     | Some t \<Rightarrow> text_within body MAX_MIGRATION_CERT_SUBJECT_BYTES t)"
  using assms
  by (auto simp: decode_migration_destination_def reader_width split: if_splits option.splits
      dest!: decode_migration_string_text)

theorem migration_destination_sound_witness:
  "let body = [12, 23, 0, 0, 3, 0, 0, 0, 20, 0, 0, 0, 0, 0, 0, 0, 0, 0, 0, 0, 104, 49, 0];
       d = \<lparr>md_port = 5900, md_secure_port = 0, md_host = [104, 49], md_certificate_subject = None\<rparr> in
   decode_migration_destination body = Inr d \<and> text_within body 1024 (md_host d)"
proof -
  have "decode_migration_destination
      [12, 23, 0, 0, 3, 0, 0, 0, 20, 0, 0, 0, 0, 0, 0, 0, 0, 0, 0, 0, 104, 49, 0] =
      Inr \<lparr>md_port = 5900, md_secure_port = 0, md_host = [104, 49], md_certificate_subject = None\<rparr>"
    by (simp add: decode_migration_destination_def decode_migration_string_def reader_width
        nul_terminated_def)
  from migration_destination_sound [OF this] this show ?thesis by (simp add: Let_def)
qed

lemma MouseModeState_decode_Inr:
  "MouseModeState_decode body = Inr s \<longleftrightarrow>
     supported_modes s AND NOT 3 = 0 \<and> MouseModeState_supports s (current_mode s) \<and>
     body = u16_to_le_bytes (supported_modes s) @ u16_to_le_bytes (MouseMode_code (current_mode s))"
  (is "?lhs \<longleftrightarrow> ?rhs")
proof
  assume ?lhs
  then have len: "length body = 4" and "supported_modes s AND NOT 3 = 0"
    "MouseModeState_supports s (current_mode s)" and sup: "supported_modes s = from_le (take 2 body)"
    and cur: "MouseMode_code (current_mode s) = from_le (take 2 (drop 2 body))"
    by (auto simp: MouseModeState_decode_def MouseModeState_supports_def reader_width Let_def
        numeral_2_eq_2 split: if_splits)
  moreover have "body = take 2 body @ take 2 (drop 2 body)"
    using len by (metis append_take_drop_id length_drop diff_add_inverse numeral_Bit0 take_all_iff order_refl)
  ultimately show ?rhs
    using len by (simp add: sup cur)
next
  assume ?rhs
  then show ?lhs
    by (cases s) (auto simp: MouseModeState_decode_def MouseModeState_supports_def decode_with_at
        reader_width reader_simps mouse_mode.try_from_code Let_def)
qed

end
