(* ===== verification/Spice_Framing.thy ===== *)
theory Spice_Framing
  imports Spice_Wire
begin

text \<open>
  The contract of an incremental decoder of length-prefixed frames, shared by the Agent stream
  (\<open>agent.rs\<close>) and the usbredir stream (\<open>usbredir.rs\<close>) of the protocol crate.

  The locale \<open>framed_stream\<close> holds a reference decoder that consumes one byte at a time. The locale
  \<open>frame_decoder\<close> adds what a block-copying Rust loop has to satisfy: each turn of the loop does what
  the reference decoder does on a non-empty prefix of its input. From these two the clients get that
  the loop equals the reference on every input, that how a stream is cut into pieces does not matter,
  and that a sequence of encoded frames decodes to exactly the messages that were framed.
\<close>

section \<open>States and results\<close>

record ('c, 'p) frame_state =
  fs_conf :: 'c
  fs_header :: "u8 list"
  fs_current :: "('p \<times> nat \<times> u8 list) option"

text \<open>
  A push returns its \<open>Result\<close>, the decoder it leaves behind and the output vector. Both are kept on
  errors too: the code leaves earlier messages in the output vector.
\<close>

type_synonym ('d, 'm) pushed = "unit decoded \<times> 'd \<times> 'm list"

definition push_then :: "('d, 'm) pushed \<Rightarrow> ('d \<Rightarrow> 'm list \<Rightarrow> ('d, 'm) pushed) \<Rightarrow> ('d, 'm) pushed" where
  "push_then p f = (case p of (Inl e, d, out) \<Rightarrow> (Inl e, d, out) | (Inr _, d, out) \<Rightarrow> f d out)"

lemma push_then_simps [simp]:
  "push_then (Inl e, d, out) f = (Inl e, d, out)"
  "push_then (Inr u, d, out) f = f d out"
  by (simp_all add: push_then_def)

lemma push_then_assoc:
  "push_then (push_then p f) g = push_then p (\<lambda>d out. push_then (f d out) g)"
  by (simp add: push_then_def split: sum.splits prod.splits)

lemma push_then_cong [fundef_cong]:
  assumes "p = q" and "\<And>u d out. q = (Inr u, d, out) \<Longrightarrow> f d out = g d out"
  shows "push_then p f = push_then q g"
  using assms by (auto simp: push_then_def split: sum.splits prod.splits)

lemma push_then_return [simp]: "push_then p (\<lambda>d out. (Inr (), d, out)) = p"
  by (simp add: push_then_def split: sum.splits prod.splits)

text \<open>Pushing the pieces of a stream one after the other, stopping at the first error.\<close>

fun push_pieces ::
    "('d \<Rightarrow> u8 list \<Rightarrow> 'm list \<Rightarrow> ('d, 'm) pushed) \<Rightarrow> 'd \<Rightarrow> u8 list list \<Rightarrow> 'm list \<Rightarrow> ('d, 'm) pushed" where
  "push_pieces push d [] out = (Inr (), d, out)"
| "push_pieces push d (x # xs) out = push_then (push d x out) (\<lambda>d' out'. push_pieces push d' xs out')"

section \<open>The reference decoder\<close>

locale framed_stream =
  fixes header_size :: "'c \<Rightarrow> nat"
    and open_frame :: "'c \<Rightarrow> u8 list \<Rightarrow> ('p \<times> nat) decoded"
    and close_frame :: "'c \<Rightarrow> 'p \<Rightarrow> u8 list \<Rightarrow> ('c \<times> 'm) decoded"
  assumes header_size_pos: "0 < header_size c"
begin

definition idle :: "'c \<Rightarrow> ('c, 'p) frame_state" where
  "idle c = \<lparr>fs_conf = c, fs_header = [], fs_current = None\<rparr>"

definition settle :: "'c \<Rightarrow> 'p \<Rightarrow> nat \<Rightarrow> u8 list \<Rightarrow> 'm list \<Rightarrow> (('c, 'p) frame_state, 'm) pushed" where
  "settle c p n ys out =
     (if length ys = n then
        (case close_frame c p ys of
           Inl e \<Rightarrow> (Inl e, idle c, out)
         | Inr (c', m) \<Rightarrow> (Inr (), idle c', out @ [m]))
      else (Inr (), \<lparr>fs_conf = c, fs_header = [], fs_current = Some (p, n, ys)\<rparr>, out))"

definition header_full ::
    "'c \<Rightarrow> u8 list \<Rightarrow> 'm list \<Rightarrow> ('p \<Rightarrow> nat \<Rightarrow> (('c, 'p) frame_state, 'm) pushed) \<Rightarrow>
     (('c, 'p) frame_state, 'm) pushed" where
  "header_full c h out k =
     (case open_frame c h of
        Inl e \<Rightarrow> (Inl e, \<lparr>fs_conf = c, fs_header = h, fs_current = None\<rparr>, out)
      | Inr (p, n) \<Rightarrow> k p n)"

definition feed_byte ::
    "('c, 'p) frame_state \<Rightarrow> u8 \<Rightarrow> 'm list \<Rightarrow> (('c, 'p) frame_state, 'm) pushed" where
  "feed_byte st b out =
     (case fs_current st of
        None \<Rightarrow>
          let c = fs_conf st; h = fs_header st @ [b] in
          if length h \<noteq> header_size c
          then (Inr (), \<lparr>fs_conf = c, fs_header = h, fs_current = None\<rparr>, out)
          else header_full c h out (\<lambda>p n. settle c p n [] out)
      | Some (p, n, ys) \<Rightarrow> settle (fs_conf st) p n (ys @ [b]) out)"

fun feed :: "('c, 'p) frame_state \<Rightarrow> u8 list \<Rightarrow> 'm list \<Rightarrow> (('c, 'p) frame_state, 'm) pushed" where
  "feed st [] out = (Inr (), st, out)"
| "feed st (b # bs) out = push_then (feed_byte st b out) (\<lambda>st' out'. feed st' bs out')"

text \<open>A state between two bytes: an incomplete header or an incomplete payload.\<close>

definition waiting :: "('c, 'p) frame_state \<Rightarrow> bool" where
  "waiting st \<longleftrightarrow>
     (case fs_current st of
        None \<Rightarrow> length (fs_header st) < header_size (fs_conf st)
      | Some (p, n, ys) \<Rightarrow> fs_header st = [] \<and> length ys < n)"

lemma waiting_idle [simp]: "waiting (idle c)"
  using header_size_pos by (simp add: waiting_def idle_def)

lemma idle_sel [simp]: "fs_conf (idle c) = c" "fs_header (idle c) = []" "fs_current (idle c) = None"
  by (simp_all add: idle_def)

lemma feed_append:
  "feed st (xs @ ys) out = push_then (feed st xs out) (\<lambda>st' out'. feed st' ys out')"
  by (induction xs arbitrary: st out) (auto simp: push_then_assoc intro!: push_then_cong)

lemma feed_pieces: "push_pieces feed st xss out = feed st (concat xss) out"
  by (induction xss arbitrary: st out) (auto simp: feed_append intro!: push_then_cong)

lemma feed_header_part:
  "length h + length xs < header_size c \<Longrightarrow>
     feed \<lparr>fs_conf = c, fs_header = h, fs_current = None\<rparr> xs out =
       (Inr (), \<lparr>fs_conf = c, fs_header = h @ xs, fs_current = None\<rparr>, out)"
  by (induction xs arbitrary: h) (simp_all add: feed_byte_def)

lemma feed_header_rest:
  assumes "length h + length xs = header_size c" and "xs \<noteq> []"
  shows "feed \<lparr>fs_conf = c, fs_header = h, fs_current = None\<rparr> xs out =
           header_full c (h @ xs) out (\<lambda>p n. settle c p n [] out)"
proof -
  obtain ys b where xs: "xs = ys @ [b]" using assms(2) by (metis rev_exhaust)
  have "length h + length ys < header_size c" using assms xs by simp
  from feed_header_part [OF this, of out] show ?thesis
    using assms by (simp add: xs feed_append feed_byte_def push_then_def split: prod.splits sum.splits)
qed

lemma settle_short: "length ys \<noteq> n \<Longrightarrow>
    settle c p n ys out = (Inr (), \<lparr>fs_conf = c, fs_header = [], fs_current = Some (p, n, ys)\<rparr>, out)"
  by (simp add: settle_def)

lemma feed_payload:
  assumes "length ys + length xs \<le> n" and "xs \<noteq> []"
  shows "feed \<lparr>fs_conf = c, fs_header = [], fs_current = Some (p, n, ys)\<rparr> xs out =
           settle c p n (ys @ xs) out"
  using assms
proof (induction xs arbitrary: ys)
  case Nil
  then show ?case by simp
next
  case (Cons x xs)
  show ?case
  proof (cases "xs = []")
    case True
    then show ?thesis
      by (simp add: feed_byte_def push_then_def settle_def split: sum.splits prod.splits)
  next
    case False
    with Cons.prems have "length (ys @ [x]) \<noteq> n" by (cases xs) auto
    with Cons.IH [of "ys @ [x]"] Cons.prems False show ?thesis
      by (simp add: feed_byte_def settle_short)
  qed
qed

lemma settle_feed:
  "length xs \<le> n \<Longrightarrow> push_then (settle c p n [] out) (\<lambda>st out. feed st xs out) = settle c p n xs out"
  using feed_payload [of "[]" xs n c p out] by (cases xs) (auto simp: settle_short)

lemma feed_header_then_payload:
  assumes "length h + length xs = header_size c" and "xs \<noteq> []"
    and "open_frame c (h @ xs) = Inr (p, n)" and "length ys \<le> n"
  shows "feed \<lparr>fs_conf = c, fs_header = h, fs_current = None\<rparr> (xs @ ys) out = settle c p n ys out"
  using assms by (simp add: feed_append feed_header_rest header_full_def settle_feed)

lemma feed_frame:
  assumes "length h = header_size c" and "open_frame c h = Inr (p, length ys)"
    and "close_frame c p ys = Inr (c', m)"
  shows "feed (idle c) (h @ ys) out = (Inr (), idle c', out @ [m])"
proof -
  have "h \<noteq> []" using assms(1) header_size_pos [of c] by auto
  with assms feed_header_then_payload [of "[]" h c p "length ys" ys out] show ?thesis
    by (simp add: idle_def [of c] settle_def)
qed

text \<open>\<open>frames c fs c'\<close>: the pieces \<open>fs\<close> are encoded frames that lead from \<open>c\<close> to \<open>c'\<close>.\<close>

fun frames :: "'c \<Rightarrow> (u8 list \<times> 'm) list \<Rightarrow> 'c \<Rightarrow> bool" where
  "frames c [] c' \<longleftrightarrow> c' = c"
| "frames c ((x, m) # fs) c' \<longleftrightarrow>
     (\<exists>c1. (\<forall>out. feed (idle c) x out = (Inr (), idle c1, out @ [m])) \<and> frames c1 fs c')"

lemma feed_frames:
  "frames c fs c' \<Longrightarrow>
     feed (idle c) (concat (map fst fs)) out = (Inr (), idle c', out @ map snd fs)"
  by (induction c fs c' arbitrary: out rule: frames.induct) (auto simp: feed_append)

lemma settle_waiting:
  "length ys \<le> n \<Longrightarrow> settle c p n ys out = (Inr u, st', out') \<Longrightarrow> waiting st'"
  by (auto simp: settle_def waiting_def header_size_pos idle_def split: if_splits sum.splits prod.splits)

lemma feed_byte_waiting:
  "waiting st \<Longrightarrow> feed_byte st b out = (Inr u, st', out') \<Longrightarrow> waiting st'"
  by (auto simp: feed_byte_def header_full_def Let_def waiting_def [of st] dest!: settle_waiting [rotated]
      split: option.splits if_splits sum.splits prod.splits) (auto simp: waiting_def)

lemma feed_waiting: "waiting st \<Longrightarrow> feed st xs out = (Inr u, st', out') \<Longrightarrow> waiting st'"
proof (induction xs arbitrary: st out)
  case (Cons x xs)
  then show ?case
    by (auto simp: push_then_def dest: feed_byte_waiting split: prod.splits sum.splits)
qed simp

end

section \<open>Block-copying decoders\<close>

text \<open>
  \<open>turn d input out\<close> is one turn of the decoder's loop; it returns the rest of the input as well.
\<close>

type_synonym ('d, 'm) turned = "unit decoded \<times> 'd \<times> u8 list \<times> 'm list"

definition turn_result :: "('d, 'm) turned \<Rightarrow> ('d, 'm) pushed" where
  "turn_result t = (case t of (res, d, rest, out) \<Rightarrow> (res, d, out))"

definition turn_rest :: "('d, 'm) turned \<Rightarrow> u8 list" where
  "turn_rest t = (case t of (res, d, rest, out) \<Rightarrow> rest)"

lemma turn_sel [simp]:
  "turn_result (res, d, rest, out) = (res, d, out)" "turn_rest (res, d, rest, out) = rest"
  by (simp_all add: turn_result_def turn_rest_def)

definition map_pushed :: "('d \<Rightarrow> 'e) \<Rightarrow> ('d, 'm) pushed \<Rightarrow> ('e, 'm) pushed" where
  "map_pushed f p = (case p of (res, d, out) \<Rightarrow> (res, f d, out))"

lemma map_pushed_simps [simp]: "map_pushed f (res, d, out) = (res, f d, out)"
  by (simp add: map_pushed_def)

lemma map_pushed_eq: "map_pushed f p = (res, e, out) \<longleftrightarrow> (\<exists>d. p = (res, d, out) \<and> f d = e)"
  by (cases p) auto

locale frame_decoder = framed_stream header_size open_frame close_frame
  for header_size :: "'c \<Rightarrow> nat"
    and open_frame :: "'c \<Rightarrow> u8 list \<Rightarrow> ('p \<times> nat) decoded"
    and close_frame :: "'c \<Rightarrow> 'p \<Rightarrow> u8 list \<Rightarrow> ('c \<times> 'm) decoded" +
  fixes inv :: "'d \<Rightarrow> bool"
    and abs :: "'d \<Rightarrow> ('c, 'p) frame_state"
    and turn :: "'d \<Rightarrow> u8 list \<Rightarrow> 'm list \<Rightarrow> ('d, 'm) turned"
    and push :: "'d \<Rightarrow> u8 list \<Rightarrow> 'm list \<Rightarrow> ('d, 'm) pushed"
  assumes push_Nil: "push d [] out = (Inr (), d, out)"
    and push_turn: "inv d \<Longrightarrow> input \<noteq> [] \<Longrightarrow>
          push d input out = push_then (turn_result (turn d input out))
                               (\<lambda>d' out'. push d' (turn_rest (turn d input out)) out')"
    and turn_prefix: "inv d \<Longrightarrow> input \<noteq> [] \<Longrightarrow>
          \<exists>pre. pre \<noteq> [] \<and> input = pre @ turn_rest (turn d input out) \<and>
                map_pushed abs (turn_result (turn d input out)) = feed (abs d) pre out"
    and turn_inv: "inv d \<Longrightarrow> input \<noteq> [] \<Longrightarrow> turn_result (turn d input out) = (Inr u, d', out') \<Longrightarrow> inv d'"
begin

lemma push_refines: "inv d \<Longrightarrow> map_pushed abs (push d input out) = feed (abs d) input out"
proof (induction "length input" arbitrary: d input out rule: less_induct)
  case less
  show ?case
  proof (cases "input = []")
    case True
    then show ?thesis by (simp add: push_Nil)
  next
    case False
    let ?t = "turn d input out"
    obtain pre where pre: "pre \<noteq> []" "input = pre @ turn_rest ?t"
      and f: "map_pushed abs (turn_result ?t) = feed (abs d) pre out"
      using turn_prefix [OF less.prems False] by blast
    obtain res d' out' where r: "turn_result ?t = (res, d', out')" by (metis prod_cases3)
    have shorter: "length (turn_rest ?t) < length input"
      using pre by (metis append_Nil add.commute length_append length_greater_0_conv less_add_same_cancel1)
    have split: "feed (abs d) input out = push_then (feed (abs d) pre out)
                   (\<lambda>st out. feed st (turn_rest ?t) out)"
      by (subst pre(2)) (rule feed_append)
    show ?thesis
    proof (cases res)
      case (Inl e)
      with r f split show ?thesis
        using push_turn [OF less.prems False, of out] by (metis map_pushed_simps push_then_simps(1))
    next
      case (Inr u)
      from turn_inv [OF less.prems False] r Inr have "inv d'" by blast
      from less.hyps [OF shorter this, of out'] r Inr f [symmetric] split show ?thesis
        using push_turn [OF less.prems False, of out] by simp
    qed
  qed
qed

lemma push_inv: "inv d \<Longrightarrow> push d input out = (Inr u, d', out') \<Longrightarrow> inv d'"
proof (induction "length input" arbitrary: d input out rule: less_induct)
  case less
  show ?case
  proof (cases "input = []")
    case True
    with less.prems show ?thesis by (simp add: push_Nil)
  next
    case False
    let ?t = "turn d input out"
    obtain pre where pre: "pre \<noteq> []" "input = pre @ turn_rest ?t"
      using turn_prefix [OF less.prems(1) False] by blast
    then have shorter: "length (turn_rest ?t) < length input"
      by (metis append_Nil add.commute length_append length_greater_0_conv less_add_same_cancel1)
    obtain res d1 out1 where r: "turn_result ?t = (res, d1, out1)" by (metis prod_cases3)
    with less.prems push_turn [OF less.prems(1) False, of out] obtain v where
      v: "res = Inr v" and p: "push d1 (turn_rest ?t) out1 = (Inr u, d', out')"
      by (cases res) auto
    with turn_inv [OF less.prems(1) False] r have "inv d1" by blast
    from less.hyps [OF shorter this p] show ?thesis .
  qed
qed

lemma push_pieces_refines:
  "inv d \<Longrightarrow> map_pushed abs (push_pieces push d xss out) = feed (abs d) (concat xss) out"
proof (induction xss arbitrary: d out)
  case (Cons xs xss)
  obtain res d' out' where p: "push d xs out = (res, d', out')" by (metis prod_cases3)
  with push_refines [OF Cons.prems, of xs out]
  have f: "feed (abs d) xs out = (res, abs d', out')" by simp
  show ?case
  proof (cases res)
    case (Inr u)
    with push_inv [OF Cons.prems] p have "inv d'" by blast
    from Cons.IH [OF this] p f Inr show ?thesis by (simp add: feed_append)
  qed (simp add: p f feed_append)
qed simp

lemma push_pieces_inv: "inv d \<Longrightarrow> push_pieces push d xss out = (Inr u, d', out') \<Longrightarrow> inv d'"
proof (induction xss arbitrary: d out)
  case (Cons xs xss)
  obtain res d1 out1 where p: "push d xs out = (res, d1, out1)" by (metis prod_cases3)
  with Cons show ?case by (cases res) (auto dest: push_inv)
qed simp

text \<open>How the stream is cut into pieces does not matter.\<close>

lemma push_pieces_independent:
  "inv d \<Longrightarrow> concat xss = concat yss \<Longrightarrow>
     map_pushed abs (push_pieces push d xss out) = map_pushed abs (push_pieces push d yss out)"
  by (simp add: push_pieces_refines)

lemma push_pieces_frames:
  assumes "inv d" and "abs d = idle c" and "frames c fs c'" and "concat xss = concat (map fst fs)"
  shows "\<exists>d'. push_pieces push d xss out = (Inr (), d', out @ map snd fs) \<and> abs d' = idle c'"
  using push_pieces_refines [OF assms(1), of xss out] feed_frames [OF assms(3), of out] assms(2,4)
  by (simp add: map_pushed_eq)

end

section \<open>Decoders that bound what they buffer\<close>

locale bounded_frame_decoder = frame_decoder header_size open_frame close_frame inv abs turn push
  for header_size :: "'c \<Rightarrow> nat"
    and open_frame :: "'c \<Rightarrow> u8 list \<Rightarrow> ('p \<times> nat) decoded"
    and close_frame :: "'c \<Rightarrow> 'p \<Rightarrow> u8 list \<Rightarrow> ('c \<times> 'm) decoded"
    and inv :: "'d \<Rightarrow> bool"
    and abs :: "'d \<Rightarrow> ('c, 'p) frame_state"
    and turn :: "'d \<Rightarrow> u8 list \<Rightarrow> 'm list \<Rightarrow> ('d, 'm) turned"
    and push :: "'d \<Rightarrow> u8 list \<Rightarrow> 'm list \<Rightarrow> ('d, 'm) pushed" +
  fixes limit :: "'c \<Rightarrow> nat"
  assumes open_no_panic: "length h = header_size c \<Longrightarrow> no_panic (open_frame c h)"
    and close_no_panic: "no_panic (close_frame c p ys)"
    and open_limit: "open_frame c h = Inr (p, n) \<Longrightarrow> n \<le> limit c"
    and close_limit: "close_frame c p ys = Inr (c', m) \<Longrightarrow> limit c' = limit c"
begin

definition bounded :: "nat \<Rightarrow> ('c, 'p) frame_state \<Rightarrow> bool" where
  "bounded k st \<longleftrightarrow> limit (fs_conf st) = k \<and> length (fs_header st) \<le> header_size (fs_conf st) \<and>
     (case fs_current st of None \<Rightarrow> True | Some (p, n, ys) \<Rightarrow> length ys \<le> n \<and> n \<le> k)"

lemma settle_bounded:
  assumes "length ys \<le> n" and "n \<le> limit c" and "settle c p n ys out = (res, st', out')"
  shows "no_panic res \<and> bounded (limit c) st'"
  using assms close_no_panic [of c p ys]
  by (auto simp: settle_def bounded_def idle_def no_panic_def dest: close_limit
      split: if_splits sum.splits prod.splits)

lemma feed_byte_bounded:
  assumes "waiting st" and "bounded k st" and "feed_byte st b out = (res, st', out')"
  shows "no_panic res \<and> bounded k st'"
proof (cases "fs_current st")
  case None
  let ?h = "fs_header st @ [b]" and ?c = "fs_conf st"
  show ?thesis
  proof (cases "length ?h = header_size ?c")
    case True
    show ?thesis
    proof (cases "open_frame ?c ?h")
      case (Inl e)
      with assms None True open_no_panic [OF True] show ?thesis
        by (auto simp: feed_byte_def header_full_def bounded_def no_panic_def Let_def)
    next
      case (Inr pn)
      then obtain p n where o: "open_frame ?c ?h = Inr (p, n)" by (cases pn) auto
      with assms None True have "settle ?c p n [] out = (res, st', out')"
        by (simp add: feed_byte_def header_full_def Let_def)
      from settle_bounded [OF _ open_limit [OF o] this] assms(2) show ?thesis
        by (auto simp: bounded_def [of k st])
    qed
  next
    case False
    with assms None show ?thesis
      by (auto simp: feed_byte_def waiting_def bounded_def no_panic_def)
  qed
next
  case (Some a)
  then obtain p n ys where c: "fs_current st = Some (p, n, ys)" by (cases a) auto
  with assms have "length (ys @ [b]) \<le> n" "n \<le> limit (fs_conf st)" "limit (fs_conf st) = k"
    by (auto simp: waiting_def bounded_def)
  with settle_bounded [of "ys @ [b]" n "fs_conf st" p out res st' out'] assms c show ?thesis
    by (simp add: feed_byte_def)
qed

lemma feed_bounded:
  "waiting st \<Longrightarrow> bounded k st \<Longrightarrow> feed st xs out = (res, st', out') \<Longrightarrow> no_panic res \<and> bounded k st'"
proof (induction xs arbitrary: st out)
  case (Cons x xs)
  obtain r s o' where b: "feed_byte st x out = (r, s, o')" by (metis prod_cases3)
  note bb = feed_byte_bounded [OF Cons.prems(1,2) b]
  show ?case
  proof (cases r)
    case (Inl e)
    with Cons.prems b bb show ?thesis by auto
  next
    case (Inr u)
    with b have "feed_byte st x out = (Inr u, s, o')" by simp
    from Cons.IH [OF feed_byte_waiting [OF Cons.prems(1) this]] bb Cons.prems b Inr show ?thesis
      by auto
  qed
qed auto

lemma push_pieces_bounded:
  assumes "inv d" and "abs d = idle c" and "push_pieces push d xss out = (res, d', out')"
  shows "no_panic res \<and> bounded (limit c) (abs d')"
proof -
  have "feed (idle c) (concat xss) out = (res, abs d', out')"
    using push_pieces_refines [OF assms(1), of xss out] assms(2,3) by simp
  from feed_bounded [OF waiting_idle _ this, of "limit c"] show ?thesis
    by (simp add: bounded_def)
qed

end

section \<open>Decoders with a fixed header array\<close>

text \<open>
  Both decoders keep the header bytes in a fixed array with a fill count and copy as much of the
  input as fits, first into the array and then into the payload. \<open>block_turn\<close> is this loop body over
  the parameters of the framed stream; a decoder's own loop body is related to it by \<open>view\<close>.
\<close>

record ('c, 'p) block_state =
  bs_conf :: 'c
  bs_header :: "u8 list"
  bs_header_bytes :: nat
  bs_current :: "('p \<times> nat \<times> u8 list) option"

definition map_turned :: "('d \<Rightarrow> 'e) \<Rightarrow> ('d, 'm) turned \<Rightarrow> ('e, 'm) turned" where
  "map_turned f t = (case t of (res, d, rest, out) \<Rightarrow> (res, f d, rest, out))"

lemma map_turned_simps [simp]: "map_turned f (res, d, rest, out) = (res, f d, rest, out)"
  by (simp add: map_turned_def)

lemma map_turned_eq: "map_turned f t = (res, e, rest, out) \<longleftrightarrow> (\<exists>d. t = (res, d, rest, out) \<and> f d = e)"
  by (cases t) auto

lemma turn_result_map: "turn_result (map_turned f t) = map_pushed f (turn_result t)"
  "turn_rest (map_turned f t) = turn_rest t"
  by (cases t; simp)+

lemma copy_from_slice_take:
  assumes "copy_from_slice xs k ys = Some zs"
  shows "length zs = length xs" and "take (k + length ys) zs = take k xs @ ys"
  using assms by (cases ys; auto simp: copy_from_slice_def min_def split: if_splits)+

text \<open>Every turn that does not return shrinks this measure, so a loop of turns ends.\<close>

definition block_measure :: "('c, 'p) block_state \<Rightarrow> u8 list \<Rightarrow> nat" where
  "block_measure s input =
     3 * length input + (if bs_current s = None then 0 else 1) + (if bs_header_bytes s = 0 then 0 else 1)"

lemma block_measure_shorter: "length rest < length input \<Longrightarrow> block_measure s' rest < block_measure s input"
  by (simp add: block_measure_def)

context framed_stream
begin

definition block_payload_turn ::
    "('c, 'p) block_state \<Rightarrow> u8 list \<Rightarrow> 'm list \<Rightarrow> (('c, 'p) block_state, 'm) turned" where
  "block_payload_turn s input out =
     (case bs_current s of
        None \<Rightarrow> (Inl Panic, s, input, out)
      | Some (p, n, ys) \<Rightarrow>
          if n < length ys then (Inl Panic, s, input, out)
          else
          let k = min (n - length ys) (length input) in
          if length ys + k \<noteq> n
          then (Inr (), s\<lparr>bs_current := Some (p, n, ys @ take k input)\<rparr>, drop k input, out)
          else case close_frame (bs_conf s) p (ys @ take k input) of
             Inl e \<Rightarrow> (Inl e, s\<lparr>bs_current := None\<rparr>, drop k input, out)
           | Inr (c', m) \<Rightarrow>
               (Inr (), s\<lparr>bs_current := None, bs_conf := c'\<rparr>, drop k input, out @ [m]))"

definition block_turn ::
    "('c, 'p) block_state \<Rightarrow> u8 list \<Rightarrow> 'm list \<Rightarrow> (('c, 'p) block_state, 'm) turned" where
  "block_turn s input out =
     (if bs_current s \<noteq> None then block_payload_turn s input out
      else
      let size = header_size (bs_conf s) in
      if size < bs_header_bytes s then (Inl Panic, s, input, out)
      else
      let k = min (size - bs_header_bytes s) (length input) in
      case copy_from_slice (bs_header s) (bs_header_bytes s) (take k input) of
        None \<Rightarrow> (Inl Panic, s, input, out)
      | Some header \<Rightarrow>
          let s = s\<lparr>bs_header := header, bs_header_bytes := bs_header_bytes s + k\<rparr> in
          if bs_header_bytes s \<noteq> size then (Inr (), s, drop k input, out)
          else case open_frame (bs_conf s) (take size header) of
             Inl e \<Rightarrow> (Inl e, s, drop k input, out)
           | Inr (p, n) \<Rightarrow>
               block_payload_turn (s\<lparr>bs_header_bytes := 0, bs_current := Some (p, n, [])\<rparr>)
                 (drop k input) out)"

definition block_abs :: "('c, 'p) block_state \<Rightarrow> ('c, 'p) frame_state" where
  "block_abs s = \<lparr>fs_conf = bs_conf s, fs_header = take (bs_header_bytes s) (bs_header s),
                  fs_current = bs_current s\<rparr>"

definition block_inv :: "nat \<Rightarrow> ('c, 'p) block_state \<Rightarrow> bool" where
  "block_inv array_size s \<longleftrightarrow> length (bs_header s) = array_size \<and>
     (case bs_current s of
        None \<Rightarrow> bs_header_bytes s < header_size (bs_conf s)
      | Some (p, n, ys) \<Rightarrow> bs_header_bytes s = 0 \<and> length ys < n)"

lemma block_payload_turn_measure:
  assumes "block_payload_turn s input out = (Inr u, s', rest, out')" and "input \<noteq> []"
  shows "block_measure s' rest < block_measure s input"
  using assms
  by (cases input)
     (auto simp: block_payload_turn_def block_measure_def Let_def
       split: if_splits sum.splits prod.splits option.splits)

lemma block_payload_turn_rest:
  "block_payload_turn s input out = (res, s', rest, out') \<Longrightarrow> length rest \<le> length input"
  by (auto simp: block_payload_turn_def Let_def split: if_splits sum.splits prod.splits option.splits)

lemma block_turn_measure:
  assumes t: "block_turn s input out = (Inr u, s', rest, out')" and ne: "input \<noteq> []"
  shows "block_measure s' rest < block_measure s input"
proof (cases "bs_current s")
  case (Some p)
  with t ne show ?thesis by (simp add: block_turn_def block_payload_turn_measure)
next
  case None
  let ?hs = "header_size (bs_conf s)"
  let ?k = "min (?hs - bs_header_bytes s) (length input)"
  obtain header where h: "copy_from_slice (bs_header s) (bs_header_bytes s) (take ?k input) = Some header"
    and hs: "bs_header_bytes s \<le> ?hs"
    using t None by (auto simp: block_turn_def Let_def split: if_splits option.splits)
  consider (part) "bs_header_bytes s + ?k \<noteq> ?hs" "rest = drop ?k input"
    | (full) p n where "bs_header_bytes s + ?k = ?hs"
        "block_payload_turn (s\<lparr>bs_header := header, bs_header_bytes := 0, bs_current := Some (p, n, [])\<rparr>)
           (drop ?k input) out = (Inr u, s', rest, out')"
    using t None h hs
    by (auto simp: block_turn_def Let_def split: if_splits option.splits sum.splits)
  then show ?thesis
  proof cases
    case part
    then have "0 < ?k" using hs ne by (cases input) auto
    with part(2) ne show ?thesis by (intro block_measure_shorter) simp
  next
    case full
    show ?thesis
    proof (cases "?k = 0")
      case True
      with full hs header_size_pos [of "bs_conf s"] have "0 < bs_header_bytes s" by simp
      with block_payload_turn_measure [OF full(2)] True ne show ?thesis
        by (auto simp: block_measure_def)
    next
      case False
      with block_payload_turn_rest [OF full(2)] ne show ?thesis
        by (intro block_measure_shorter) (auto simp: min_def split: if_splits)
    qed
  qed
qed

lemma block_payload_turn_settle:
  fixes input :: "u8 list"
  assumes c: "bs_current s = Some (p, n, ys)" and h: "bs_header_bytes s = 0" and le: "length ys \<le> n"
  defines "k \<equiv> min (n - length ys) (length input)"
  shows "turn_rest (block_payload_turn s input out) = drop k input"
    and "map_pushed block_abs (turn_result (block_payload_turn s input out)) =
           settle (bs_conf s) p n (ys @ take k input) out"
  using c h le unfolding k_def
  by (auto simp: block_payload_turn_def Let_def settle_def block_abs_def idle_def
      split: sum.splits prod.splits)

lemma block_turn_header:
  assumes inv: "block_inv asz s" and le: "header_size (bs_conf s) \<le> asz"
    and c: "bs_current s = None" and ne: "input \<noteq> []"
  defines "hs \<equiv> header_size (bs_conf s)"
  defines "k \<equiv> min (hs - bs_header_bytes s) (length input)"
  obtains header where "length header = asz" and "0 < k"
    and "take (bs_header_bytes s + k) header = take (bs_header_bytes s) (bs_header s) @ take k input"
    and "block_turn s input out =
          (let s1 = s\<lparr>bs_header := header, bs_header_bytes := bs_header_bytes s + k\<rparr> in
           if bs_header_bytes s + k \<noteq> hs then (Inr (), s1, drop k input, out)
           else case open_frame (bs_conf s) (take hs header) of
             Inl e \<Rightarrow> (Inl e, s1, drop k input, out)
           | Inr (p, n) \<Rightarrow> block_payload_turn
               (s\<lparr>bs_header := header, bs_header_bytes := 0, bs_current := Some (p, n, [])\<rparr>)
               (drop k input) out)"
proof -
  have b: "bs_header_bytes s < hs" "hs \<le> asz" "length (bs_header s) = asz"
    using inv le c by (auto simp: block_inv_def hs_def)
  then have "bs_header_bytes s + length (take k input) \<le> length (bs_header s)" by (auto simp: k_def)
  then obtain header where h: "copy_from_slice (bs_header s) (bs_header_bytes s) (take k input) = Some header"
    by (simp add: copy_from_slice_def)
  have "length (take k input) = k" "0 < k" using b ne by (simp_all add: k_def)
  with copy_from_slice_take [OF h] b ne h c show ?thesis
    by (intro that [of header])
       (auto simp: block_turn_def Let_def hs_def [symmetric] k_def [symmetric] split: sum.split)
qed

lemma block_turn_prefix:
  assumes inv: "block_inv asz s" and le: "header_size (bs_conf s) \<le> asz" and ne: "input \<noteq> []"
  shows "\<exists>pre. pre \<noteq> [] \<and> input = pre @ turn_rest (block_turn s input out) \<and>
               map_pushed block_abs (turn_result (block_turn s input out)) = feed (block_abs s) pre out"
proof (cases "bs_current s")
  case (Some a)
  then obtain p n ys where c: "bs_current s = Some (p, n, ys)" by (cases a) auto
  let ?k = "min (n - length ys) (length input)"
  have b: "length ys < n" "bs_header_bytes s = 0" using inv c by (auto simp: block_inv_def)
  have t: "block_turn s input out = block_payload_turn s input out"
    using c by (simp add: block_turn_def)
  have f: "feed (block_abs s) (take ?k input) out = settle (bs_conf s) p n (ys @ take ?k input) out"
    using b ne c by (subst feed_payload [symmetric]) (auto simp: block_abs_def)
  show ?thesis
    using block_payload_turn_settle [OF c b(2), of input out] b f ne t
    by (intro exI [of _ "take ?k input"]) simp
next
  case None
  let ?hs = "header_size (bs_conf s)" and ?c = "bs_conf s"
  let ?k = "min (?hs - bs_header_bytes s) (length input)"
  let ?h = "take (bs_header_bytes s) (bs_header s)"
  obtain header where h: "length header = asz" "0 < ?k"
      "take (bs_header_bytes s + ?k) header = ?h @ take ?k input"
    and t: "block_turn s input out =
          (let s1 = s\<lparr>bs_header := header, bs_header_bytes := bs_header_bytes s + ?k\<rparr> in
           if bs_header_bytes s + ?k \<noteq> ?hs then (Inr (), s1, drop ?k input, out)
           else case open_frame ?c (take ?hs header) of
             Inl e \<Rightarrow> (Inl e, s1, drop ?k input, out)
           | Inr (p, n) \<Rightarrow> block_payload_turn
               (s\<lparr>bs_header := header, bs_header_bytes := 0, bs_current := Some (p, n, [])\<rparr>)
               (drop ?k input) out)"
    using block_turn_header [OF inv le None ne] by blast
  have a: "block_abs s = \<lparr>fs_conf = ?c, fs_header = ?h, fs_current = None\<rparr>"
    and hl: "length ?h = bs_header_bytes s"
    using None inv le by (auto simp: block_abs_def block_inv_def)
  have ne': "take ?k input \<noteq> []" and kl: "length (take ?k input) = ?k" using h(2) by auto
  show ?thesis
  proof (cases "bs_header_bytes s + ?k = ?hs")
    case False
    have "length ?h + length (take ?k input) < ?hs"
      using False inv None unfolding hl kl by (auto simp: block_inv_def)
    from feed_header_part [OF this, of out] t False h(3) ne' None show ?thesis
      by (intro exI [of _ "take ?k input"]) (subst a, auto simp: block_abs_def)
  next
    case True
    have full: "length ?h + length (take ?k input) = ?hs" using True unfolding hl kl .
    have hd: "take ?hs header = ?h @ take ?k input" using h(3) True by simp
    show ?thesis
    proof (cases "open_frame ?c (take ?hs header)")
      case (Inl e)
      with feed_header_rest [OF full ne', of out] t True ne' hd None show ?thesis
        by (intro exI [of _ "take ?k input"]) (subst a, auto simp: block_abs_def header_full_def)
    next
      case (Inr pn)
      then obtain p n where o: "open_frame ?c (take ?hs header) = Inr (p, n)" by (cases pn) auto
      let ?s = "s\<lparr>bs_header := header, bs_header_bytes := 0, bs_current := Some (p, n, [])\<rparr>"
      let ?m = "min n (length (drop ?k input))"
      have "block_turn s input out = block_payload_turn ?s (drop ?k input) out"
        using t True o by simp
      moreover have "input = take ?k input @ take ?m (drop ?k input) @ drop (?m + ?k) input"
        by (rule take_take_drop)
      ultimately show ?thesis
        using block_payload_turn_settle [of ?s p n "[]" "drop ?k input" out] ne' a
          feed_header_then_payload [OF full ne' o [unfolded hd], of "take ?m (drop ?k input)" out]
        by (intro exI [of _ "take ?k input @ take ?m (drop ?k input)"]) simp
    qed
  qed
qed

lemma block_payload_turn_inv:
  assumes "block_payload_turn s input out = (Inr u, s', rest, out')" and "bs_header_bytes s = 0"
    and "length (bs_header s) = asz"
  shows "block_inv asz s'"
  using assms header_size_pos
  by (auto simp: block_payload_turn_def block_inv_def Let_def split: if_splits option.splits sum.splits)

lemma block_turn_inv:
  assumes inv: "block_inv asz s" and le: "header_size (bs_conf s) \<le> asz" and ne: "input \<noteq> []"
    and t: "block_turn s input out = (Inr u, s', rest, out')"
  shows "block_inv asz s'"
proof (cases "bs_current s")
  case (Some a)
  with t inv show ?thesis
    by (auto simp: block_turn_def block_inv_def [of _ s] intro: block_payload_turn_inv)
next
  case None
  let ?hs = "header_size (bs_conf s)"
  let ?k = "min (?hs - bs_header_bytes s) (length input)"
  obtain header where h: "length header = asz" and "block_turn s input out =
      (let s1 = s\<lparr>bs_header := header, bs_header_bytes := bs_header_bytes s + ?k\<rparr> in
       if bs_header_bytes s + ?k \<noteq> ?hs then (Inr (), s1, drop ?k input, out)
       else case open_frame (bs_conf s) (take ?hs header) of
         Inl e \<Rightarrow> (Inl e, s1, drop ?k input, out)
       | Inr (p, n) \<Rightarrow> block_payload_turn
           (s\<lparr>bs_header := header, bs_header_bytes := 0, bs_current := Some (p, n, [])\<rparr>)
           (drop ?k input) out)"
    using block_turn_header [OF inv le None ne] by blast
  with t consider
      "bs_header_bytes s + ?k \<noteq> ?hs" "s' = s\<lparr>bs_header := header, bs_header_bytes := bs_header_bytes s + ?k\<rparr>"
    | p n where "block_payload_turn
         (s\<lparr>bs_header := header, bs_header_bytes := 0, bs_current := Some (p, n, [])\<rparr>)
         (drop ?k input) out = (Inr u, s', rest, out')"
    by (auto simp: Let_def split: if_splits sum.splits)
  then show ?thesis
    by cases (use inv None h in \<open>auto simp: block_inv_def [of _ s] intro: block_payload_turn_inv\<close>,
        auto simp: block_inv_def)
qed

text \<open>The fill count never leaves the header array, after an error either.\<close>

definition array_ok :: "nat \<Rightarrow> ('c, 'p) block_state \<Rightarrow> bool" where
  "array_ok asz s \<longleftrightarrow> length (bs_header s) = asz \<and> bs_header_bytes s \<le> asz"

lemma block_payload_turn_array:
  "block_payload_turn s input out = (res, s', rest, out') \<Longrightarrow> array_ok asz s \<Longrightarrow> array_ok asz s'"
  by (auto simp: block_payload_turn_def array_ok_def Let_def
      split: if_splits option.splits sum.splits prod.splits)

lemma block_turn_array:
  assumes "block_turn s input out = (res, s', rest, out')" and "array_ok asz s"
    and "header_size (bs_conf s) \<le> asz"
  shows "array_ok asz s'"
proof (cases "bs_current s")
  case None
  have upd: "array_ok asz (s\<lparr>bs_header := h, bs_header_bytes := k\<rparr>) \<longleftrightarrow> length h = asz \<and> k \<le> asz"
    "array_ok asz (s\<lparr>bs_header := h, bs_header_bytes := k, bs_current := x\<rparr>) \<longleftrightarrow> length h = asz \<and> k \<le> asz"
    for h k x by (simp_all add: array_ok_def)
  have len: "copy_from_slice (bs_header s) k ys = Some h \<Longrightarrow> length h = asz" for k ys h
    using copy_from_slice_take(1) assms(2) by (auto simp: array_ok_def)
  have "bs_header_bytes s \<le> header_size (bs_conf s) \<Longrightarrow>
      bs_header_bytes s + min (header_size (bs_conf s) - bs_header_bytes s) (length input) \<le> asz"
    using assms(3) by auto
  with assms(1,2) None show ?thesis
    by (auto simp: block_turn_def Let_def upd dest: len split: if_splits option.splits sum.splits)
       (rule block_payload_turn_array, assumption, auto simp: upd dest: len)
next
  case (Some a)
  with assms block_payload_turn_array show ?thesis by (simp add: block_turn_def)
qed

end

text \<open>A decoder whose loop body is a block turn. Its termination is proved in this locale.\<close>

locale block_turns = framed_stream header_size open_frame close_frame
  for header_size :: "'c \<Rightarrow> nat"
    and open_frame :: "'c \<Rightarrow> u8 list \<Rightarrow> ('p \<times> nat) decoded"
    and close_frame :: "'c \<Rightarrow> 'p \<Rightarrow> u8 list \<Rightarrow> ('c \<times> 'm) decoded" +
  fixes array_size :: nat
    and view :: "'d \<Rightarrow> ('c, 'p) block_state"
    and turn :: "'d \<Rightarrow> u8 list \<Rightarrow> 'm list \<Rightarrow> ('d, 'm) turned"
  assumes header_size_le: "header_size c \<le> array_size"
    and turn_view: "map_turned view (turn d input out) = block_turn (view d) input out"
begin

lemma turn_measure:
  assumes "turn_result (turn d input out) = (Inr u, d', out')" and "input \<noteq> []"
  shows "block_measure (view d') (turn_rest (turn d input out)) < block_measure (view d) input"
  using assms turn_view [of d input out] block_turn_measure [of "view d" input out u "view d'" _ out']
  by (cases "turn d input out") auto

end

locale block_decoder = block_turns header_size open_frame close_frame array_size view turn
  for header_size :: "'c \<Rightarrow> nat"
    and open_frame :: "'c \<Rightarrow> u8 list \<Rightarrow> ('p \<times> nat) decoded"
    and close_frame :: "'c \<Rightarrow> 'p \<Rightarrow> u8 list \<Rightarrow> ('c \<times> 'm) decoded"
    and array_size :: nat
    and view :: "'d \<Rightarrow> ('c, 'p) block_state"
    and turn :: "'d \<Rightarrow> u8 list \<Rightarrow> 'm list \<Rightarrow> ('d, 'm) turned" +
  fixes push :: "'d \<Rightarrow> u8 list \<Rightarrow> 'm list \<Rightarrow> ('d, 'm) pushed"
    and limit :: "'c \<Rightarrow> nat"
  assumes push_loop: "push d input out =
            (if input = [] then (Inr (), d, out)
             else push_then (turn_result (turn d input out))
                    (\<lambda>d' out'. push d' (turn_rest (turn d input out)) out'))"
    and frame_no_panic: "length h = header_size c \<Longrightarrow> no_panic (open_frame c h)"
      "no_panic (close_frame c p ys)"
    and frame_limit: "open_frame c h = Inr (p, n) \<Longrightarrow> n \<le> limit c"
      "close_frame c p ys = Inr (c', m) \<Longrightarrow> limit c' = limit c"
begin

definition state_of :: "'d \<Rightarrow> ('c, 'p) frame_state" where
  "state_of d = block_abs (view d)"

definition state_inv :: "'d \<Rightarrow> bool" where
  "state_inv d \<longleftrightarrow> block_inv array_size (view d)"

end

sublocale block_decoder \<subseteq> bounded_frame_decoder header_size open_frame close_frame state_inv state_of
    turn push limit
proof
  fix d input out assume inv: "state_inv d" and ne: "input \<noteq> ([] :: u8 list)"
  show "push d input out = push_then (turn_result (turn d input out))
          (\<lambda>d' out'. push d' (turn_rest (turn d input out)) out')"
    by (subst push_loop) (simp add: ne)
  have v: "turn_rest (turn d input out) = turn_rest (block_turn (view d) input out)"
    "map_pushed view (turn_result (turn d input out)) = turn_result (block_turn (view d) input out)"
    by (simp_all add: turn_view [symmetric] turn_result_map)
  have "map_pushed state_of (turn_result (turn d input out)) =
        map_pushed block_abs (turn_result (block_turn (view d) input out))"
    unfolding v(2) [symmetric] by (cases "turn_result (turn d input out)") (simp add: state_of_def)
  then show "\<exists>pre. pre \<noteq> [] \<and> input = pre @ turn_rest (turn d input out) \<and>
      map_pushed state_of (turn_result (turn d input out)) = feed (state_of d) pre out"
    using block_turn_prefix [OF inv [unfolded state_inv_def] header_size_le ne, of out] v(1)
    by (simp add: state_of_def)
  fix u d' out' assume "turn_result (turn d input out) = (Inr u, d', out')"
  then obtain rest where "block_turn (view d) input out = (Inr u, view d', rest, out')"
    using turn_view [of d input out] by (cases "turn d input out") (auto dest: sym)
  from block_turn_inv [OF inv [unfolded state_inv_def] header_size_le ne this]
  show "state_inv d'" by (simp add: state_inv_def)
qed (use frame_no_panic frame_limit in \<open>simp_all add: push_loop\<close>)

context block_decoder
begin

lemma push_array: "array_ok array_size (view d) \<Longrightarrow> push d input out = (res, d', out') \<Longrightarrow>
    array_ok array_size (view d')"
proof (induction "block_measure (view d) input" arbitrary: d input out rule: less_induct)
  case less
  show ?case
  proof (cases "input = []")
    case True
    with less.prems push_loop [of d input out] show ?thesis by simp
  next
    case False
    obtain r d1 rest out1 where t: "turn d input out = (r, d1, rest, out1)" by (metis prod_cases4)
    then have ok: "array_ok array_size (view d1)"
      using turn_view [of d input out] block_turn_array [OF sym less.prems(1) header_size_le] by simp
    show ?thesis
    proof (cases r)
      case (Inl e)
      with less.prems(2) t False ok show ?thesis by (subst (asm) push_loop) simp
    next
      case (Inr u)
      with less.prems(2) t False have "push d1 rest out1 = (res, d', out')"
        by (subst (asm) push_loop) simp
      moreover have "block_measure (view d1) rest < block_measure (view d) input"
        using turn_measure [of d input out u d1 out1] t Inr False by simp
      ultimately show ?thesis using less.hyps ok by blast
    qed
  qed
qed

lemma push_pieces_array:
  "array_ok array_size (view d) \<Longrightarrow> push_pieces push d xss out = (res, d', out') \<Longrightarrow>
     array_ok array_size (view d')"
proof (induction xss arbitrary: d out)
  case (Cons xs xss)
  obtain r d1 out1 where p: "push d xs out = (r, d1, out1)" by (metis prod_cases3)
  with push_array [OF Cons.prems(1) this] Cons show ?case by (cases r) auto
qed simp

lemma state_inv_array: "state_inv d \<Longrightarrow> array_ok array_size (view d)"
  using header_size_le [of "bs_conf (view d)"]
  by (auto simp: state_inv_def block_inv_def array_ok_def split: option.splits)

end

end
