(* ===== verification/Spice_UsbRedir.thy ===== *)
theory Spice_UsbRedir
  imports Spice_Framing
begin

text \<open>
  The usbredir byte stream (\<open>usbredir.rs\<close>): Hello negotiation, packet framing with the negotiated
  identifier width, and the incremental stream decoder.

  \<open>push_bytes\<close> is modelled turn by turn as the Rust loop is written, block copies and the fixed
  sixteen-byte header array included. It is an instance of the framed-stream contract, which gives
  independence from how the stream is split, the round trip with the two encoders, absence of
  panics and the bound on what the decoder buffers.
\<close>

section \<open>Constants and data (usbredir.rs)\<close>

definition USBREDIR_HEADER32_BYTES :: nat where [simp]: "USBREDIR_HEADER32_BYTES = 12"
definition USBREDIR_HEADER64_BYTES :: nat where [simp]: "USBREDIR_HEADER64_BYTES = 16"
definition USBREDIR_VERSION_BYTES :: nat where [simp]: "USBREDIR_VERSION_BYTES = 64"
definition MAX_USBREDIR_PACKET_BYTES :: nat where [simp]: "MAX_USBREDIR_PACKET_BYTES = 1024 * 1024"
definition MAX_USBREDIR_CAPABILITY_WORDS :: nat where [simp]: "MAX_USBREDIR_CAPABILITY_WORDS = 8"
definition USBREDIR_PACKET_HELLO :: u32 where [simp]: "USBREDIR_PACKET_HELLO = 0"
definition usbredir_capability_IDS_64BIT :: nat where [simp]: "usbredir_capability_IDS_64BIT = 5"

record UsbRedirCapabilities =
  usb_word :: u32

definition UsbRedirCapabilities_contains :: "UsbRedirCapabilities \<Rightarrow> nat \<Rightarrow> bool" where
  "UsbRedirCapabilities_contains caps b \<longleftrightarrow> b < 32 \<and> usb_word caps AND push_bit b 1 \<noteq> 0"

record UsbRedirHello =
  hello_version :: "u8 list"
  hello_capabilities :: "u32 list"

record UsbRedirPacket =
  up_packet_type :: u32
  up_id :: u64
  up_payload :: "u8 list"

record PartialUsbRedirPacket =
  pu_packet_type :: u32
  pu_id :: u64
  pu_declared_size :: nat
  pu_payload :: "u8 list"

record UsbRedirStreamDecoder =
  ud_local_capabilities :: UsbRedirCapabilities
  ud_peer_hello :: "UsbRedirHello option"
  ud_wide_ids :: bool
  ud_header :: "u8 list"
  ud_header_bytes :: nat
  ud_current :: "PartialUsbRedirPacket option"

definition UsbRedirStreamDecoder_new :: "UsbRedirCapabilities \<Rightarrow> UsbRedirStreamDecoder" where
  "UsbRedirStreamDecoder_new local_capabilities =
     \<lparr>ud_local_capabilities = local_capabilities, ud_peer_hello = None, ud_wide_ids = False,
      ud_header = replicate USBREDIR_HEADER64_BYTES 0, ud_header_bytes = 0, ud_current = None\<rparr>"

section \<open>Encoders and the Hello payload\<close>

definition encode_usbredir_hello :: "u8 list \<Rightarrow> UsbRedirCapabilities \<Rightarrow> u8 list decoded" where
  "encode_usbredir_hello version capabilities =
     (if version = [] \<or> length version \<ge> USBREDIR_VERSION_BYTES \<or> 0 \<in> set version
      then decode_err InvalidValue 0 STR ''usbredir version''
      else
      let payload_size = USBREDIR_VERSION_BYTES + 4;
          output = u32_to_le_bytes USBREDIR_PACKET_HELLO @ u32_to_le_bytes (of_nat payload_size) @
                   u32_to_le_bytes 0 @ version;
          output = output @
            replicate (USBREDIR_HEADER32_BYTES + USBREDIR_VERSION_BYTES - length output) 0
      in Inr (output @ u32_to_le_bytes (usb_word capabilities)))"

definition encode_usbredir_packet :: "u32 \<Rightarrow> u64 \<Rightarrow> u8 list \<Rightarrow> bool \<Rightarrow> u8 list decoded" where
  "encode_usbredir_packet packet_type packet_id payload wide_ids =
     (if packet_type = USBREDIR_PACKET_HELLO
      then decode_err InvalidValue 0 STR ''post-Hello usbredir packet type''
      else if length payload > MAX_USBREDIR_PACKET_BYTES
      then decode_err ResourceLimit 4 STR ''usbredir packet payload''
      else
      and_then (ok_or (DecodeError_new Overflow 4 STR ''usbredir packet payload'')
                 (u32_try_from (length payload))) (\<lambda>payload_size.
      and_then (if wide_ids then Inr (u64_to_le_bytes packet_id)
                else and_then (ok_or (DecodeError_new InvalidValue 8 STR ''usbredir 32-bit packet id'')
                                 (u32_try_from (unat packet_id))) (\<lambda>id32. Inr (u32_to_le_bytes id32))) (\<lambda>id_bytes.
      Inr (u32_to_le_bytes packet_type @ u32_to_le_bytes payload_size @ id_bytes @ payload))))"

definition decode_usbredir_hello :: "u8 list \<Rightarrow> UsbRedirHello decoded" where
  "decode_usbredir_hello payload =
     (if length payload < USBREDIR_VERSION_BYTES \<or>
         (length payload - USBREDIR_VERSION_BYTES) mod 4 \<noteq> 0
      then decode_err InvalidValue 0 STR ''usbredir Hello length''
      else
      let capability_words = (length payload - USBREDIR_VERSION_BYTES) div 4 in
      if capability_words > MAX_USBREDIR_CAPABILITY_WORDS
      then decode_err ResourceLimit USBREDIR_VERSION_BYTES STR ''usbredir capability words''
      else
      and_then (slice_index payload 0 USBREDIR_VERSION_BYTES) (\<lambda>version_field.
      and_then (ok_or (DecodeError_new InvalidValue 0 STR ''usbredir version terminator'')
                 (position (\<lambda>b. b = 0) version_field)) (\<lambda>terminator.
      and_then (slice_index version_field 0 terminator) (\<lambda>prefix.
      and_then (ok_or (DecodeError_new InvalidValue 0 STR ''usbredir version UTF-8'')
                 (from_utf8 prefix)) (\<lambda>version.
      and_then (slice_index payload USBREDIR_VERSION_BYTES (length payload)) (\<lambda>words.
      Inr \<lparr>hello_version = version, hello_capabilities = map from_le (chunks_exact 4 words)\<rparr>))))))"

section \<open>The stream decoder\<close>

definition usb_header_size :: "UsbRedirHello option \<Rightarrow> bool \<Rightarrow> nat" where
  "usb_header_size peer_hello wide_ids =
     (if peer_hello = None \<or> \<not> wide_ids then USBREDIR_HEADER32_BYTES else USBREDIR_HEADER64_BYTES)"

text \<open>The checks on a complete header: the packet under construction, or the error.\<close>

definition usb_parse_header ::
    "UsbRedirHello option \<Rightarrow> nat \<Rightarrow> u8 list \<Rightarrow> PartialUsbRedirPacket decoded" where
  "usb_parse_header peer_hello header_size header =
     and_then (slice_index header 0 4) (\<lambda>type_bytes.
     and_then (slice_index header 4 8) (\<lambda>length_bytes.
     let packet_type = from_le type_bytes;
         declared_size = unat (from_le length_bytes :: u32) in
     if declared_size > MAX_USBREDIR_PACKET_BYTES
     then decode_err ResourceLimit 4 STR ''usbredir packet length''
     else
     and_then (if header_size = USBREDIR_HEADER64_BYTES
               then and_then (slice_index header 8 16) (\<lambda>id_bytes. Inr (from_le id_bytes :: u64))
               else and_then (slice_index header 8 12) (\<lambda>id_bytes.
                    Inr (ucast (from_le id_bytes :: u32) :: u64))) (\<lambda>packet_id.
     if peer_hello = None \<and> (packet_type \<noteq> USBREDIR_PACKET_HELLO \<or> packet_id \<noteq> 0)
     then decode_err InvalidValue 0 STR ''usbredir first packet''
     else Inr \<lparr>pu_packet_type = packet_type, pu_id = packet_id, pu_declared_size = declared_size,
               pu_payload = []\<rparr>)))"

text \<open>The negotiation on a complete packet: the new \<open>(peer_hello, wide_ids)\<close>, or the error.\<close>

definition usb_finish_packet ::
    "UsbRedirCapabilities \<Rightarrow> UsbRedirHello option \<Rightarrow> bool \<Rightarrow> u32 \<Rightarrow> u8 list \<Rightarrow>
     (UsbRedirHello option \<times> bool) decoded" where
  "usb_finish_packet local_capabilities peer_hello wide_ids packet_type payload =
     (if peer_hello = None then
        and_then (decode_usbredir_hello payload) (\<lambda>hello.
        let peer_64bit = (case hello_capabilities hello of
              [] \<Rightarrow> False
            | word # _ \<Rightarrow> word AND push_bit usbredir_capability_IDS_64BIT 1 \<noteq> 0)
        in Inr (Some hello,
                UsbRedirCapabilities_contains local_capabilities usbredir_capability_IDS_64BIT \<and>
                peer_64bit))
      else if packet_type = USBREDIR_PACKET_HELLO
      then decode_err InvalidValue 0 STR ''repeated usbredir Hello''
      else Inr (peer_hello, wide_ids))"

text \<open>The second half of a loop turn: copy payload bytes and complete the packet.\<close>

definition usb_payload_turn ::
    "UsbRedirStreamDecoder \<Rightarrow> u8 list \<Rightarrow> UsbRedirPacket list \<Rightarrow>
     (UsbRedirStreamDecoder, UsbRedirPacket) turned" where
  "usb_payload_turn d input output =
     (case ud_current d of
        None \<Rightarrow> (Inl Panic, d, input, output)
      | Some current \<Rightarrow>
          if pu_declared_size current < length (pu_payload current)
          then (Inl Panic, d, input, output)
          else
          let remaining = pu_declared_size current - length (pu_payload current);
              copied = min remaining (length input);
              current = current\<lparr>pu_payload := pu_payload current @ take copied input\<rparr>;
              input = drop copied input
          in if length (pu_payload current) \<noteq> pu_declared_size current
             then (Inr (), d\<lparr>ud_current := Some current\<rparr>, input, output)
             else
             let d = d\<lparr>ud_current := None\<rparr> in
             case usb_finish_packet (ud_local_capabilities d) (ud_peer_hello d) (ud_wide_ids d)
                    (pu_packet_type current) (pu_payload current) of
               Inl e \<Rightarrow> (Inl e, d, input, output)
             | Inr (peer_hello, wide_ids) \<Rightarrow>
                 (Inr (), d\<lparr>ud_peer_hello := peer_hello, ud_wide_ids := wide_ids\<rparr>, input,
                  output @ [\<lparr>up_packet_type = pu_packet_type current, up_id = pu_id current,
                             up_payload = pu_payload current\<rparr>]))"

definition usb_turn ::
    "UsbRedirStreamDecoder \<Rightarrow> u8 list \<Rightarrow> UsbRedirPacket list \<Rightarrow>
     (UsbRedirStreamDecoder, UsbRedirPacket) turned" where
  "usb_turn d input output =
     (if ud_current d \<noteq> None then usb_payload_turn d input output
      else
      let header_size = usb_header_size (ud_peer_hello d) (ud_wide_ids d) in
      if header_size < ud_header_bytes d then (Inl Panic, d, input, output)
      else
      let needed = header_size - ud_header_bytes d;
          copied = min needed (length input) in
      case copy_from_slice (ud_header d) (ud_header_bytes d) (take copied input) of
        None \<Rightarrow> (Inl Panic, d, input, output)
      | Some header \<Rightarrow>
          let d = d\<lparr>ud_header := header, ud_header_bytes := ud_header_bytes d + copied\<rparr>;
              input = drop copied input in
          if ud_header_bytes d \<noteq> header_size then (Inr (), d, input, output)
          else
          case usb_parse_header (ud_peer_hello d) header_size (ud_header d) of
            Inl e \<Rightarrow> (Inl e, d, input, output)
          | Inr partial \<Rightarrow>
              usb_payload_turn (d\<lparr>ud_current := Some partial, ud_header_bytes := 0\<rparr>) input output)"

section \<open>The decoder is a framed stream\<close>

record usb_conf =
  uc_local :: UsbRedirCapabilities
  uc_hello :: "UsbRedirHello option"
  uc_wide :: bool

definition usb_conf_header_size :: "usb_conf \<Rightarrow> nat" where
  "usb_conf_header_size c = usb_header_size (uc_hello c) (uc_wide c)"

definition usb_open :: "usb_conf \<Rightarrow> u8 list \<Rightarrow> ((u32 \<times> u64) \<times> nat) decoded" where
  "usb_open c h = and_then (usb_parse_header (uc_hello c) (usb_conf_header_size c) h)
     (\<lambda>p. Inr ((pu_packet_type p, pu_id p), pu_declared_size p))"

definition usb_close :: "usb_conf \<Rightarrow> u32 \<times> u64 \<Rightarrow> u8 list \<Rightarrow> (usb_conf \<times> UsbRedirPacket) decoded" where
  "usb_close c p payload =
     and_then (usb_finish_packet (uc_local c) (uc_hello c) (uc_wide c) (fst p) payload) (\<lambda>(hello, wide).
     Inr (c\<lparr>uc_hello := hello, uc_wide := wide\<rparr>,
          \<lparr>up_packet_type = fst p, up_id = snd p, up_payload = payload\<rparr>))"

definition usb_view :: "UsbRedirStreamDecoder \<Rightarrow> (usb_conf, u32 \<times> u64) block_state" where
  "usb_view d =
     \<lparr>bs_conf = \<lparr>uc_local = ud_local_capabilities d, uc_hello = ud_peer_hello d, uc_wide = ud_wide_ids d\<rparr>,
      bs_header = ud_header d, bs_header_bytes = ud_header_bytes d,
      bs_current = map_option (\<lambda>p. ((pu_packet_type p, pu_id p), pu_declared_size p, pu_payload p))
                     (ud_current d)\<rparr>"

lemma usb_header_size_bounds: "0 < usb_header_size h w" "usb_header_size h w \<le> 16"
  by (simp_all add: usb_header_size_def)

interpretation usb: framed_stream usb_conf_header_size usb_open usb_close
  by unfold_locales (simp add: usb_conf_header_size_def usb_header_size_bounds)

lemma usb_parse_header_take:
  "hs = 12 \<or> hs = 16 \<Longrightarrow> usb_parse_header hello hs (take hs header) = usb_parse_header hello hs header"
  by (auto simp: usb_parse_header_def slice_index_take cong: if_cong)

lemma usb_parse_header_payload: "usb_parse_header hello hs header = Inr p \<Longrightarrow> pu_payload p = []"
  by (auto simp: usb_parse_header_def Let_def split: if_splits)

lemma usb_open_take:
  "usb_open c (take (usb_conf_header_size c) header) =
     and_then (usb_parse_header (uc_hello c) (usb_conf_header_size c) header)
       (\<lambda>p. Inr ((pu_packet_type p, pu_id p), pu_declared_size p))"
  unfolding usb_open_def
  by (subst usb_parse_header_take) (auto simp: usb_conf_header_size_def usb_header_size_def)

lemma usb_payload_turn_view:
  "map_turned usb_view (usb_payload_turn d input out) = usb.block_payload_turn (usb_view d) input out"
  by (cases "ud_current d")
     (auto simp: usb_payload_turn_def usb.block_payload_turn_def usb_view_def usb_close_def Let_def
       split: sum.splits)

lemma usb_turn_view: "map_turned usb_view (usb_turn d input out) = usb.block_turn (usb_view d) input out"
proof (cases "ud_current d")
  case (Some p)
  then show ?thesis
    by (simp add: usb_turn_def usb.block_turn_def usb_payload_turn_view) (simp add: usb_view_def)
next
  case None
  let ?hs = "usb_header_size (ud_peer_hello d) (ud_wide_ids d)"
  have c: "usb_conf_header_size (bs_conf (usb_view d)) = ?hs"
    by (simp add: usb_conf_header_size_def usb_view_def)
  have v: "bs_current (usb_view d) = None" "bs_header (usb_view d) = ud_header d"
    "bs_header_bytes (usb_view d) = ud_header_bytes d" "uc_hello (bs_conf (usb_view d)) = ud_peer_hello d"
    using None by (simp_all add: usb_view_def)
  have o: "usb_open (bs_conf (usb_view d)) (take ?hs header) =
      and_then (usb_parse_header (ud_peer_hello d) ?hs header)
        (\<lambda>p. Inr ((pu_packet_type p, pu_id p), pu_declared_size p))" for header
    using usb_open_take [of "bs_conf (usb_view d)" header] c v by simp
  show ?thesis
    unfolding usb_turn_def usb.block_turn_def
    using None
    by (auto simp: c v o Let_def usb_payload_turn_view usb_parse_header_payload split: option.splits sum.splits)
       (auto simp: usb_view_def usb_parse_header_payload)
qed

interpretation usb: block_turns usb_conf_header_size usb_open usb_close 16 usb_view usb_turn
  by unfold_locales (simp_all add: usb_conf_header_size_def usb_header_size_bounds usb_turn_view)

function UsbRedirStreamDecoder_push_bytes ::
    "UsbRedirStreamDecoder \<Rightarrow> u8 list \<Rightarrow> UsbRedirPacket list \<Rightarrow>
     (UsbRedirStreamDecoder, UsbRedirPacket) pushed" where
  "UsbRedirStreamDecoder_push_bytes d input output =
     (if input = [] then (Inr (), d, output)
      else push_then (turn_result (usb_turn d input output))
             (\<lambda>d' output'. UsbRedirStreamDecoder_push_bytes d' (turn_rest (usb_turn d input output))
                             output'))"
  by pat_completeness auto
termination
  by (relation "measure (\<lambda>(d, input, out). block_measure (usb_view d) input)")
     (auto dest: usb.turn_measure)

declare UsbRedirStreamDecoder_push_bytes.simps [simp del]

lemma no_panic_decode_usbredir_hello [no_panic_intros]: "no_panic (decode_usbredir_hello payload)"
  unfolding decode_usbredir_hello_def
  by (auto simp: Let_def dest!: position_Some_less intro!: no_panic_intros)

lemma no_panic_usb_open: "length h = usb_conf_header_size c \<Longrightarrow> no_panic (usb_open c h)"
  unfolding usb_open_def usb_parse_header_def usb_conf_header_size_def
  by (auto simp: Let_def usb_header_size_def intro!: no_panic_intros split: if_splits)

lemma no_panic_usb_close: "no_panic (usb_close c p ys)"
  unfolding usb_close_def usb_finish_packet_def by (intro no_panic_intros)

lemma usb_open_limit: "usb_open c h = Inr (p, n) \<Longrightarrow> n \<le> 1048576"
  by (auto simp: usb_open_def usb_parse_header_def Let_def split: if_splits)

interpretation usb: block_decoder usb_conf_header_size usb_open usb_close 16 usb_view
    usb_turn UsbRedirStreamDecoder_push_bytes "\<lambda>c. 1048576"
  by unfold_locales (rule UsbRedirStreamDecoder_push_bytes.simps refl |
      fact no_panic_usb_open no_panic_usb_close usb_open_limit)+

section \<open>Properties of the stream\<close>

definition usb_abs :: "UsbRedirStreamDecoder \<Rightarrow> (usb_conf, u32 \<times> u64) frame_state" where
  "usb_abs d =
     \<lparr>fs_conf = \<lparr>uc_local = ud_local_capabilities d, uc_hello = ud_peer_hello d, uc_wide = ud_wide_ids d\<rparr>,
      fs_header = take (ud_header_bytes d) (ud_header d),
      fs_current = map_option (\<lambda>p. ((pu_packet_type p, pu_id p), pu_declared_size p, pu_payload p))
                     (ud_current d)\<rparr>"

lemma usb_state_of: "usb.state_of = usb_abs"
  by (simp add: fun_eq_iff usb.state_of_def usb.block_abs_def usb_abs_def usb_view_def)


definition usb_start :: "UsbRedirCapabilities \<Rightarrow> usb_conf" where
  "usb_start local_capabilities = \<lparr>uc_local = local_capabilities, uc_hello = None, uc_wide = False\<rparr>"

lemma usb_new_inv: "usb.state_inv (UsbRedirStreamDecoder_new caps)"
  by (simp add: usb.state_inv_def usb.block_inv_def usb_view_def UsbRedirStreamDecoder_new_def
      usb_conf_header_size_def usb_header_size_def)

lemma usb_new_abs: "usb.state_of (UsbRedirStreamDecoder_new caps) = usb.idle (usb_start caps)"
  by (simp add: usb_state_of usb_abs_def UsbRedirStreamDecoder_new_def usb.idle_def usb_start_def)

text \<open>C35: the usbredir decoder does not depend on how the byte stream is cut into SpiceVMC messages: for
  every cut, errors included, pushing the pieces gives the same result, the same packets and the same
  decoder (up to header bytes that will be overwritten) as one push of the whole stream.\<close>

theorem usbredir_split_independent:
  "map_pushed usb_abs (push_pieces UsbRedirStreamDecoder_push_bytes
       (UsbRedirStreamDecoder_new caps) pieces []) =
   map_pushed usb_abs (UsbRedirStreamDecoder_push_bytes
       (UsbRedirStreamDecoder_new caps) (concat pieces) [])"
  by (simp add: usb_state_of [symmetric] usb.push_pieces_refines usb.push_refines usb_new_inv)

text \<open>On any sequence of pushes the usbredir decoder does not panic, and it never holds more than one
  header and one payload of at most \<open>MAX_USBREDIR_PACKET_BYTES\<close>, which is also what it reserves.\<close>

theorem usbredir_bounded_no_panic:
  assumes "push_pieces UsbRedirStreamDecoder_push_bytes (UsbRedirStreamDecoder_new caps) pieces [] =
             (res, d, packets)"
  shows "no_panic res \<and> ud_header_bytes d \<le> USBREDIR_HEADER64_BYTES \<and>
         (\<forall>p. ud_current d = Some p \<longrightarrow> length (pu_payload p) \<le> pu_declared_size p \<and>
               pu_declared_size p \<le> MAX_USBREDIR_PACKET_BYTES)"
  using usb.push_pieces_bounded [OF usb_new_inv usb_new_abs assms]
    usb.push_pieces_array [OF usb.state_inv_array [OF usb_new_inv] assms]
  unfolding usb.bounded_def usb_state_of by (auto simp: usb_abs_def usb.array_ok_def usb_view_def)

theorem usbredir_bounded_no_panic_witness:
  "\<exists>d. push_pieces UsbRedirStreamDecoder_push_bytes (UsbRedirStreamDecoder_new \<lparr>usb_word = 0\<rparr>)
          [[0, 0], [0]] [] = (Inr (), d, []) \<and> ud_header_bytes d = 3 \<and> no_panic (Inr () :: unit decoded)"
proof -
  have "push_pieces UsbRedirStreamDecoder_push_bytes (UsbRedirStreamDecoder_new \<lparr>usb_word = 0\<rparr>)
          [[0, 0], [0]] [] = (Inr (), (UsbRedirStreamDecoder_new \<lparr>usb_word = 0\<rparr>)\<lparr>ud_header_bytes := 3\<rparr>, [])"
    by (simp add: UsbRedirStreamDecoder_push_bytes.simps usb_turn_def usb_header_size_def
        UsbRedirStreamDecoder_new_def copy_from_slice_def numeral_eq_Suc)
  with usbredir_bounded_no_panic [OF this] show ?thesis by simp
qed


lemma slice_index_append [simp]:
  "length a = n \<Longrightarrow> slice_index (a @ b) 0 n = Inr a"
  "length a = n \<Longrightarrow> slice_index (a @ b) n (n + length b) = Inr b"
  by (simp_all add: slice_index_def slice_get_def)

lemma decode_usbredir_hello_encoded:
  assumes "length v < 64" and "0 \<notin> set v" and "utf8_valid v"
  shows "decode_usbredir_hello (v @ replicate (64 - length v) 0 @ to_le 4 w) =
           Inr \<lparr>hello_version = v, hello_capabilities = [w]\<rparr>"
proof -
  obtain k where k: "64 - length v = Suc k" using assms(1) by (metis Suc_diff_Suc)
  let ?f = "v @ replicate (64 - length v) 0"
  have f: "length ?f = 64" using assms(1) by simp
  have pos: "position (\<lambda>b. b = 0) ?f = Some (length v)"
    unfolding k using assms(2) by (auto intro!: position_append simp: replicate_app_Cons_same)
  have "slice_index (?f @ to_le 4 w) 0 64 = (Inr ?f :: u8 list decoded)"
    and "slice_index (?f @ to_le 4 w) 64 (64 + length (to_le 4 w)) = (Inr (to_le 4 w) :: u8 list decoded)"
    and "slice_index ?f 0 (length v) = (Inr v :: u8 list decoded)"
    by (rule slice_index_append, rule f, rule slice_index_append, rule f, rule slice_index_append, rule refl)
  moreover have "chunks_exact 4 (to_le 4 w) = [to_le 4 w]"
    using chunks_exact_concat [of 4 "[w]" "to_le 4"] by simp
  ultimately show ?thesis
    using assms f pos by (simp add: decode_usbredir_hello_def append_assoc [symmetric] del: append_assoc)
qed

lemma usb_feed_hello:
  assumes enc: "encode_usbredir_hello v peer = Inr bytes" and v: "utf8_valid v"
  shows "usb.feed (usb.idle (usb_start caps)) bytes out =
     (Inr (), usb.idle \<lparr>uc_local = caps, uc_hello = Some \<lparr>hello_version = v, hello_capabilities = [usb_word peer]\<rparr>,
        uc_wide = (UsbRedirCapabilities_contains caps usbredir_capability_IDS_64BIT \<and>
                   UsbRedirCapabilities_contains peer usbredir_capability_IDS_64BIT)\<rparr>,
      out @ [\<lparr>up_packet_type = USBREDIR_PACKET_HELLO, up_id = 0, up_payload = drop 12 bytes\<rparr>])"
proof -
  let ?h = "to_le 4 (0 :: u32) @ to_le 4 (68 :: u32) @ to_le 4 (0 :: u32)"
  let ?p = "v @ replicate (64 - length v) 0 @ to_le 4 (usb_word peer)"
  have len: "length v < 64" "0 \<notin> set v" and b: "bytes = ?h @ ?p"
    using enc by (auto simp: encode_usbredir_hello_def Let_def split: if_splits)
  have "usb_open (usb_start caps) ?h = Inr ((0, 0), length ?p)"
    using len by (simp add: usb_open_def usb_parse_header_def usb_start_def usb_conf_header_size_def
        usb_header_size_def slice_index_def slice_get_def)
  moreover have "length ?h = usb_conf_header_size (usb_start caps)"
    by (simp add: usb_conf_header_size_def usb_header_size_def usb_start_def)
  ultimately show ?thesis
    unfolding b
    by (subst usb.feed_frame) (auto simp: usb_close_def usb_finish_packet_def usb_start_def
        decode_usbredir_hello_encoded len v UsbRedirCapabilities_contains_def)
qed

lemma u64_of_u32: "unat (x :: u64) = unat (y :: u32) \<Longrightarrow> ucast y = x"
  using unat_u32_less [of y]
  by (simp add: unsigned_ucast_eq word_unat_eq_iff take_bit_nat_eq_self_iff)

lemma u32_of_u64: "unat (x :: u64) = unat (y :: u32) \<Longrightarrow> ucast x = y"
  by (metis of_nat_unat ucast_id)

lemma usb_feed_packet:
  assumes enc: "encode_usbredir_packet (up_packet_type p) (up_id p) (up_payload p) (uc_wide c) = Inr bytes"
    and hello: "uc_hello c \<noteq> None"
  shows "usb.feed (usb.idle c) bytes out = (Inr (), usb.idle c, out @ [p])"
proof -
  obtain sz where sz: "length (up_payload p) = unat (sz :: u32)"
    and t: "up_packet_type p \<noteq> 0" and le: "unat sz \<le> 1048576"
    using enc by (auto simp: encode_usbredir_packet_def split: if_splits)
  define idb where "idb = (if uc_wide c then to_le 8 (up_id p) else to_le 4 (ucast (up_id p) :: u32))"
  let ?h = "to_le 4 (up_packet_type p) @ to_le 4 sz @ idb"
  have b: "bytes = ?h @ up_payload p"
    using enc t le sz
    by (auto simp: encode_usbredir_packet_def idb_def dest!: u32_of_u64 split: if_splits)
  have len: "length ?h = usb_conf_header_size c"
    using hello by (simp add: usb_conf_header_size_def usb_header_size_def idb_def)
  have "\<not> uc_wide c \<Longrightarrow> ucast (ucast (up_id p) :: u32) = up_id p"
    using enc t le sz
    by (auto simp: encode_usbredir_packet_def) (metis u32_of_u64 u64_of_u32)
  then have "usb_open c ?h = Inr ((up_packet_type p, up_id p), length (up_payload p))"
    using hello sz le
    by (auto simp: usb_open_def usb_parse_header_def usb_conf_header_size_def usb_header_size_def
        slice_index_def slice_get_def idb_def)
  with len show ?thesis
    unfolding b using hello t
    by (subst usb.feed_frame) (auto simp: usb_close_def usb_finish_packet_def)
qed


lemma usb_frames_packets:
  assumes "list_all2 (\<lambda>p b. encode_usbredir_packet (up_packet_type p) (up_id p) (up_payload p)
             (uc_wide c) = Inr b) packets encoded"
    and "uc_hello c \<noteq> None"
  shows "usb.frames c (zip encoded packets) c \<and>
         map fst (zip encoded packets) = encoded \<and> map snd (zip encoded packets) = packets"
  using assms by (induction rule: list_all2_induct) (auto simp: usb_feed_packet)

text \<open>C1: the decoder inverts the two usbredir encoders, for every cut of the stream: after an encoded
  Hello and any sequence of encoded packets, whose identifiers are written at the width both Hellos
  agree on, it returns exactly these packets in order and has negotiated that width.\<close>

theorem usbredir_stream_round_trip:
  assumes hello: "encode_usbredir_hello version peer = Inr hello_bytes" and "utf8_valid version"
    and wide: "wide = (UsbRedirCapabilities_contains caps usbredir_capability_IDS_64BIT \<and>
                       UsbRedirCapabilities_contains peer usbredir_capability_IDS_64BIT)"
    and packets: "list_all2 (\<lambda>p b. encode_usbredir_packet (up_packet_type p) (up_id p) (up_payload p)
                    wide = Inr b) packets encoded"
    and cut: "concat pieces = hello_bytes @ concat encoded"
  shows "\<exists>d. push_pieces UsbRedirStreamDecoder_push_bytes (UsbRedirStreamDecoder_new caps) pieces [] =
           (Inr (), d, \<lparr>up_packet_type = USBREDIR_PACKET_HELLO, up_id = 0,
                        up_payload = drop USBREDIR_HEADER32_BYTES hello_bytes\<rparr> # packets) \<and>
         ud_wide_ids d = wide \<and>
         ud_peer_hello d = Some \<lparr>hello_version = version, hello_capabilities = [usb_word peer]\<rparr>"
proof -
  let ?c = "\<lparr>uc_local = caps, uc_hello = Some \<lparr>hello_version = version, hello_capabilities = [usb_word peer]\<rparr>,
             uc_wide = wide\<rparr>"
  let ?m = "\<lparr>up_packet_type = USBREDIR_PACKET_HELLO, up_id = 0, up_payload = drop 12 hello_bytes\<rparr>"
  let ?fs = "(hello_bytes, ?m) # zip encoded packets"
  have ps: "usb.frames ?c (zip encoded packets) ?c" "map fst (zip encoded packets) = encoded"
    "map snd (zip encoded packets) = packets"
    using usb_frames_packets [of ?c packets encoded] packets by auto
  then have "usb.frames (usb_start caps) ?fs ?c"
    using usb_feed_hello [OF hello assms(2)] wide by auto
  from usb.push_pieces_frames [OF usb_new_inv usb_new_abs this, of pieces "[]"] cut ps
  obtain d where "push_pieces UsbRedirStreamDecoder_push_bytes (UsbRedirStreamDecoder_new caps) pieces [] =
      (Inr (), d, ?m # packets)" "usb_abs d = usb.idle ?c" by (auto simp: usb_state_of)
  then show ?thesis by (intro exI [of _ d]) (auto simp: usb_abs_def usb.idle_def)
qed

theorem usbredir_stream_round_trip_witness:
  "\<exists>hello d. encode_usbredir_hello [97] \<lparr>usb_word = 32\<rparr> = Inr hello \<and>
     push_pieces UsbRedirStreamDecoder_push_bytes (UsbRedirStreamDecoder_new \<lparr>usb_word = 32\<rparr>)
       [take 7 hello, drop 7 hello @ [9, 0, 0, 0, 2, 0, 0, 0, 42], [0, 0, 0, 0, 0, 0, 0, 1, 2]] [] =
       (Inr (), d, [\<lparr>up_packet_type = 0, up_id = 0, up_payload = drop 12 hello\<rparr>,
                    \<lparr>up_packet_type = 9, up_id = 42, up_payload = [1, 2]\<rparr>]) \<and> ud_wide_ids d"
proof -
  let ?caps = "\<lparr>usb_word = 32\<rparr>"
  obtain hello where h: "encode_usbredir_hello [97] ?caps = Inr hello"
    by (simp add: encode_usbredir_hello_def Let_def)
  let ?p = "\<lparr>up_packet_type = 9, up_id = 42, up_payload = [1, 2]\<rparr>"
  let ?e = "[9, 0, 0, 0, 2, 0, 0, 0, 42, 0, 0, 0, 0, 0, 0, 0, 1, 2] :: u8 list"
  let ?xs = "[take 7 hello, drop 7 hello @ [9, 0, 0, 0, 2, 0, 0, 0, 42], [0, 0, 0, 0, 0, 0, 0, 1, 2]]"
  have w: "True = (UsbRedirCapabilities_contains ?caps usbredir_capability_IDS_64BIT \<and>
                   UsbRedirCapabilities_contains ?caps usbredir_capability_IDS_64BIT)"
    by (simp add: UsbRedirCapabilities_contains_def)
  have e: "list_all2 (\<lambda>p b. encode_usbredir_packet (up_packet_type p) (up_id p) (up_payload p) True = Inr b)
      [?p] [?e]"
    by (simp add: encode_usbredir_packet_def u32_try_from_def to_le_expand)
  have c: "concat ?xs = hello @ concat [?e]" by simp
  have "utf8_valid [97]" by simp
  from usbredir_stream_round_trip [OF h this w e c] h show ?thesis by auto
qed

end
