(* ===== verification/Spice_AgentStream.thy ===== *)
theory Spice_AgentStream
  imports Spice_Framing
begin

text \<open>
  The Agent stream carried by Main AgentData messages (\<open>agent.rs\<close>): the incremental decoder
  \<open>AgentStreamDecoder\<close> and the token-by-token encoder \<open>OutboundAgentMessage\<close>.

  The decoder is an instance of the framed-stream contract. The encoder is shown to emit non-empty
  fragments of at most \<open>MAX_AGENT_FRAGMENT_BYTES\<close> whose concatenation is the framed message, in the
  least possible number of fragments, and the decoder inverts it.
\<close>

section \<open>Data (agent.rs)\<close>

definition AGENT_PROTOCOL :: u32 where [simp]: "AGENT_PROTOCOL = 1"
definition AGENT_MESSAGE_HEADER_BYTES :: nat where [simp]: "AGENT_MESSAGE_HEADER_BYTES = 20"
definition MAX_AGENT_FRAGMENT_BYTES :: nat where [simp]: "MAX_AGENT_FRAGMENT_BYTES = 2048"

record AgentMessage =
  am_protocol :: u32
  am_message_type :: u32
  am_opaque :: u64
  am_payload :: "u8 list"

record PartialAgentMessage =
  pa_protocol :: u32
  pa_message_type :: u32
  pa_opaque :: u64
  pa_declared_size :: nat
  pa_payload :: "u8 list"

record AgentStreamDecoder =
  ad_maximum_message_bytes :: nat
  ad_header :: "u8 list"
  ad_header_bytes :: nat
  ad_current :: "PartialAgentMessage option"

definition AgentStreamDecoder_new :: "nat \<Rightarrow> AgentStreamDecoder decoded" where
  "AgentStreamDecoder_new maximum_message_bytes =
     (if maximum_message_bytes = 0 then decode_err ResourceLimit 0 STR ''agent message bound''
      else Inr \<lparr>ad_maximum_message_bytes = maximum_message_bytes,
                ad_header = replicate AGENT_MESSAGE_HEADER_BYTES 0, ad_header_bytes = 0,
                ad_current = None\<rparr>)"

section \<open>The decoder\<close>

definition agent_parse_header :: "nat \<Rightarrow> u8 list \<Rightarrow> PartialAgentMessage decoded" where
  "agent_parse_header maximum_message_bytes header = decode_with header
     (rd_then (Reader_u32 STR ''agent protocol'') (\<lambda>protocol.
      rd_then (Reader_u32 STR ''agent message type'') (\<lambda>message_type.
      rd_then (Reader_u64 STR ''agent opaque'') (\<lambda>opaque.
      rd_then (Reader_u32 STR ''agent payload size'') (\<lambda>payload_size.
      let declared_size = unat payload_size in
      if declared_size > maximum_message_bytes
      then rd_err ResourceLimit 16 STR ''agent payload size''
      else rd_return \<lparr>pa_protocol = protocol, pa_message_type = message_type, pa_opaque = opaque,
                      pa_declared_size = declared_size, pa_payload = []\<rparr>)))))"

definition agent_payload_turn ::
    "AgentStreamDecoder \<Rightarrow> u8 list \<Rightarrow> AgentMessage list \<Rightarrow> (AgentStreamDecoder, AgentMessage) turned" where
  "agent_payload_turn d fragment output =
     (case ad_current d of
        None \<Rightarrow> (Inl Panic, d, fragment, output)
      | Some current \<Rightarrow>
          if pa_declared_size current < length (pa_payload current)
          then (Inl Panic, d, fragment, output)
          else
          let remaining = pa_declared_size current - length (pa_payload current);
              copied = min remaining (length fragment);
              current = current\<lparr>pa_payload := pa_payload current @ take copied fragment\<rparr>;
              fragment = drop copied fragment
          in if length (pa_payload current) = pa_declared_size current
             then (Inr (), d\<lparr>ad_current := None\<rparr>, fragment,
                   output @ [\<lparr>am_protocol = pa_protocol current,
                              am_message_type = pa_message_type current,
                              am_opaque = pa_opaque current, am_payload = pa_payload current\<rparr>])
             else (Inr (), d\<lparr>ad_current := Some current\<rparr>, fragment, output))"

definition agent_turn ::
    "AgentStreamDecoder \<Rightarrow> u8 list \<Rightarrow> AgentMessage list \<Rightarrow> (AgentStreamDecoder, AgentMessage) turned" where
  "agent_turn d fragment output =
     (if ad_current d \<noteq> None then agent_payload_turn d fragment output
      else if AGENT_MESSAGE_HEADER_BYTES < ad_header_bytes d then (Inl Panic, d, fragment, output)
      else
      let needed = AGENT_MESSAGE_HEADER_BYTES - ad_header_bytes d;
          copied = min needed (length fragment) in
      case copy_from_slice (ad_header d) (ad_header_bytes d) (take copied fragment) of
        None \<Rightarrow> (Inl Panic, d, fragment, output)
      | Some header \<Rightarrow>
          let d = d\<lparr>ad_header := header, ad_header_bytes := ad_header_bytes d + copied\<rparr>;
              fragment = drop copied fragment in
          if ad_header_bytes d \<noteq> AGENT_MESSAGE_HEADER_BYTES then (Inr (), d, fragment, output)
          else
          case agent_parse_header (ad_maximum_message_bytes d) (ad_header d) of
            Inl e \<Rightarrow> (Inl e, d, fragment, output)
          | Inr partial \<Rightarrow>
              agent_payload_turn (d\<lparr>ad_current := Some partial, ad_header_bytes := 0\<rparr>) fragment output)"

section \<open>The decoder is a framed stream\<close>

type_synonym agent_frame = "u32 \<times> u32 \<times> u64"

definition agent_open :: "nat \<Rightarrow> u8 list \<Rightarrow> (agent_frame \<times> nat) decoded" where
  "agent_open maximum h = and_then (agent_parse_header maximum h)
     (\<lambda>p. Inr ((pa_protocol p, pa_message_type p, pa_opaque p), pa_declared_size p))"

definition agent_close :: "nat \<Rightarrow> agent_frame \<Rightarrow> u8 list \<Rightarrow> (nat \<times> AgentMessage) decoded" where
  "agent_close maximum p payload =
     Inr (maximum, \<lparr>am_protocol = fst p, am_message_type = fst (snd p), am_opaque = snd (snd p),
                    am_payload = payload\<rparr>)"

definition agent_view :: "AgentStreamDecoder \<Rightarrow> (nat, agent_frame) block_state" where
  "agent_view d =
     \<lparr>bs_conf = ad_maximum_message_bytes d, bs_header = ad_header d,
      bs_header_bytes = ad_header_bytes d,
      bs_current = map_option (\<lambda>p. ((pa_protocol p, pa_message_type p, pa_opaque p),
                                     pa_declared_size p, pa_payload p)) (ad_current d)\<rparr>"

interpretation agent: framed_stream "\<lambda>c. 20" agent_open agent_close
  by unfold_locales simp

lemma slice_get_take: "b \<le> n \<Longrightarrow> slice_get (take n xs) a b = slice_get xs a b"
  by (auto simp: slice_get_def drop_take min_def)

lemma agent_parse_header_take: "agent_parse_header m (take 20 h) = agent_parse_header m h"
  by (simp add: agent_parse_header_def decode_with_def reader_width Reader_le_def Reader_take_def
      rd_then_def rd_lift_def rd_return_def Reader_new_def and_then_assoc slice_get_take Let_def
      if_distribR and_then_if cong: if_cong)


lemma agent_parse_header_payload: "agent_parse_header m h = Inr p \<Longrightarrow> pa_payload p = []"
  by (auto simp: agent_parse_header_def Let_def reader_width split: if_splits)

lemma agent_open_take:
  "agent_open m (take 20 header) = and_then (agent_parse_header m header)
     (\<lambda>p. Inr ((pa_protocol p, pa_message_type p, pa_opaque p), pa_declared_size p))"
  by (simp add: agent_open_def agent_parse_header_take)

lemma agent_payload_turn_view:
  "map_turned agent_view (agent_payload_turn d input out) =
     agent.block_payload_turn (agent_view d) input out"
  by (cases "ad_current d")
     (auto simp: agent_payload_turn_def agent.block_payload_turn_def agent_view_def agent_close_def Let_def)

lemma agent_turn_view:
  "map_turned agent_view (agent_turn d input out) = agent.block_turn (agent_view d) input out"
proof (cases "ad_current d")
  case (Some p)
  then show ?thesis
    by (simp add: agent_turn_def agent.block_turn_def agent_payload_turn_view) (simp add: agent_view_def)
next
  case None
  have v: "bs_current (agent_view d) = None" "bs_header (agent_view d) = ad_header d"
    "bs_header_bytes (agent_view d) = ad_header_bytes d"
    "bs_conf (agent_view d) = ad_maximum_message_bytes d"
    using None by (simp_all add: agent_view_def)
  show ?thesis
    unfolding agent_turn_def agent.block_turn_def
    using None
    by (auto simp: v agent_open_take Let_def agent_payload_turn_view agent_parse_header_payload
        split: option.splits sum.splits)
       (auto simp: agent_view_def agent_parse_header_payload)
qed

interpretation agent: block_turns "\<lambda>c. 20" agent_open agent_close 20 agent_view agent_turn
  by unfold_locales (simp_all add: agent_turn_view)

text \<open>The \<open>while\<close> loop of \<open>push_fragment_into\<close>, and the whole function with its size check.\<close>

function agent_push_loop ::
    "AgentStreamDecoder \<Rightarrow> u8 list \<Rightarrow> AgentMessage list \<Rightarrow> (AgentStreamDecoder, AgentMessage) pushed" where
  "agent_push_loop d fragment output =
     (if fragment = [] then (Inr (), d, output)
      else push_then (turn_result (agent_turn d fragment output))
             (\<lambda>d' output'. agent_push_loop d' (turn_rest (agent_turn d fragment output)) output'))"
  by pat_completeness auto
termination
  by (relation "measure (\<lambda>(d, input, out). block_measure (agent_view d) input)")
     (auto dest: agent.turn_measure)

declare agent_push_loop.simps [simp del]

definition AgentStreamDecoder_push_fragment_into ::
    "AgentStreamDecoder \<Rightarrow> u8 list \<Rightarrow> AgentMessage list \<Rightarrow> (AgentStreamDecoder, AgentMessage) pushed" where
  "AgentStreamDecoder_push_fragment_into d fragment output =
     (if fragment = [] \<or> length fragment > MAX_AGENT_FRAGMENT_BYTES
      then (decode_err ResourceLimit (length fragment) STR ''agent fragment bytes'', d, output)
      else agent_push_loop d fragment output)"

definition AgentStreamDecoder_reset :: "AgentStreamDecoder \<Rightarrow> AgentStreamDecoder" where
  "AgentStreamDecoder_reset d = d\<lparr>ad_header_bytes := 0, ad_current := None\<rparr>"

lemma no_panic_agent_parse_header: "no_panic (agent_parse_header m h)"
  unfolding agent_parse_header_def by (intro no_panic_intros safe_reader_intros)

lemma agent_open_limit: "agent_open c h = Inr (p, n) \<Longrightarrow> n \<le> c"
  by (auto simp: agent_open_def agent_parse_header_def Let_def reader_width split: if_splits)

interpretation agent: block_decoder "\<lambda>c. 20" agent_open agent_close 20 agent_view agent_turn
    agent_push_loop "\<lambda>c. c"
proof
  show "no_panic (agent_open c h)" for c h
    unfolding agent_open_def by (intro no_panic_intros no_panic_agent_parse_header)
qed (rule agent_push_loop.simps | auto simp: agent_close_def agent_open_limit no_panic_def)+

section \<open>The encoder\<close>

record OutboundAgentMessage =
  oa_header :: "u8 list"
  oa_payload :: "u8 list"
  oa_stream_offset :: nat

definition OutboundAgentMessage_new ::
    "u32 \<Rightarrow> u64 \<Rightarrow> u8 list \<Rightarrow> nat \<Rightarrow> OutboundAgentMessage decoded" where
  "OutboundAgentMessage_new message_type opaque payload maximum_message_bytes =
     (if length payload > maximum_message_bytes
      then decode_err ResourceLimit (length payload) STR ''outbound agent payload''
      else
      and_then (ok_or (DecodeError_new Overflow (length payload) STR ''outbound agent payload'')
                 (u32_try_from (length payload))) (\<lambda>payload_size.
      Inr \<lparr>oa_header = u32_to_le_bytes AGENT_PROTOCOL @ u32_to_le_bytes message_type @
                        u64_to_le_bytes opaque @ u32_to_le_bytes payload_size,
           oa_payload = payload, oa_stream_offset = 0\<rparr>))"

definition OutboundAgentMessage_is_complete :: "OutboundAgentMessage \<Rightarrow> bool" where
  "OutboundAgentMessage_is_complete m \<longleftrightarrow>
     oa_stream_offset m = AGENT_MESSAGE_HEADER_BYTES + length (oa_payload m)"

text \<open>The body of the copy loop, and the loop; each turn copies at least one byte.\<close>

definition outbound_turn ::
    "OutboundAgentMessage \<Rightarrow> u8 list \<Rightarrow> (OutboundAgentMessage \<times> u8 list) decoded" where
  "outbound_turn m output =
     (if oa_stream_offset m < AGENT_MESSAGE_HEADER_BYTES then
        let remaining_header = AGENT_MESSAGE_HEADER_BYTES - oa_stream_offset m;
            copied = min remaining_header (MAX_AGENT_FRAGMENT_BYTES - length output) in
        and_then (slice_index (oa_header m) (oa_stream_offset m) (oa_stream_offset m + copied)) (\<lambda>bytes.
        Inr (m\<lparr>oa_stream_offset := oa_stream_offset m + copied\<rparr>, output @ bytes))
      else
        let payload_offset = oa_stream_offset m - AGENT_MESSAGE_HEADER_BYTES in
        if length (oa_payload m) < payload_offset then Inl Panic
        else
        let copied = min (length (oa_payload m) - payload_offset)
                       (MAX_AGENT_FRAGMENT_BYTES - length output) in
        and_then (slice_index (oa_payload m) payload_offset (payload_offset + copied)) (\<lambda>bytes.
        Inr (m\<lparr>oa_stream_offset := oa_stream_offset m + copied\<rparr>, output @ bytes)))"

lemma outbound_turn_progress:
  assumes "outbound_turn m output = Inr (m', output')"
    and "length output < 2048" and "\<not> OutboundAgentMessage_is_complete m"
  shows "length output < length output'"
  using assms
  by (auto simp: outbound_turn_def Let_def OutboundAgentMessage_is_complete_def split: if_splits)

function outbound_fill ::
    "OutboundAgentMessage \<Rightarrow> u8 list \<Rightarrow> (OutboundAgentMessage \<times> u8 list) decoded" where
  "outbound_fill m output =
     (if length output < MAX_AGENT_FRAGMENT_BYTES \<and> \<not> OutboundAgentMessage_is_complete m
      then and_then (outbound_turn m output) (\<lambda>(m', output'). outbound_fill m' output')
      else Inr (m, output))"
  by pat_completeness auto
termination
  by (relation "measure (\<lambda>(m, output). 2048 - length output)")
     (auto dest!: outbound_turn_progress)

declare outbound_fill.simps [simp del]

definition OutboundAgentMessage_next_fragment ::
    "OutboundAgentMessage \<Rightarrow> (OutboundAgentMessage \<times> u8 list) decoded" where
  "OutboundAgentMessage_next_fragment m =
     (if OutboundAgentMessage_is_complete m
      then decode_err InvalidValue (oa_stream_offset m) STR ''completed outbound agent message''
      else outbound_fill m [])"


lemma outbound_turn_step:
  assumes "outbound_turn m out = Inr (m', out')"
    and "length out < 2048" and "\<not> OutboundAgentMessage_is_complete m"
  shows "oa_payload m' = oa_payload m \<and> oa_header m' = oa_header m \<and>
         oa_stream_offset m < oa_stream_offset m' \<and> oa_stream_offset m' \<le> 20 + length (oa_payload m)"
  using assms
  by (auto simp: outbound_turn_def Let_def OutboundAgentMessage_is_complete_def min_def split: if_splits)

lemma outbound_fill_step:
  "outbound_fill m out = Inr (m', out') \<Longrightarrow>
     oa_payload m' = oa_payload m \<and> oa_header m' = oa_header m \<and>
     oa_stream_offset m \<le> oa_stream_offset m' \<and>
     (length out < 2048 \<and> \<not> OutboundAgentMessage_is_complete m \<longrightarrow>
        oa_stream_offset m < oa_stream_offset m' \<and> oa_stream_offset m < 20 + length (oa_payload m))"
proof (induction m out rule: outbound_fill.induct)
  case (1 m out)
  show ?case
  proof (cases "length out < 2048 \<and> \<not> OutboundAgentMessage_is_complete m")
    case True
    with "1.prems" obtain m1 out1 where t: "outbound_turn m out = Inr (m1, out1)"
      and f: "outbound_fill m1 out1 = Inr (m', out')"
      by (subst (asm) outbound_fill.simps) auto
    from outbound_turn_step [OF t] "1.IH" [OF _ t, of m1 out1] True f show ?thesis by auto
  next
    case False
    with "1.prems" show ?thesis by (subst (asm) outbound_fill.simps) auto
  qed
qed

text \<open>The client's loop: fragments until the message is complete.\<close>

function outbound_fragments :: "OutboundAgentMessage \<Rightarrow> u8 list list decoded" where
  "outbound_fragments m =
     (if OutboundAgentMessage_is_complete m then Inr []
      else and_then (OutboundAgentMessage_next_fragment m) (\<lambda>(m', fragment).
           and_then (outbound_fragments m') (\<lambda>rest. Inr (fragment # rest))))"
  by pat_completeness auto
termination
  by (relation "measure (\<lambda>m. 20 + length (oa_payload m) - oa_stream_offset m)")
     (auto simp: OutboundAgentMessage_next_fragment_def dest: outbound_fill_step)

declare outbound_fragments.simps [simp del]

definition outbound_ok :: "OutboundAgentMessage \<Rightarrow> bool" where
  "outbound_ok m \<longleftrightarrow> length (oa_header m) = 20 \<and> oa_stream_offset m \<le> 20 + length (oa_payload m)"

definition outbound_rest :: "OutboundAgentMessage \<Rightarrow> u8 list" where
  "outbound_rest m = drop (oa_stream_offset m) (oa_header m @ oa_payload m)"

lemma outbound_complete_iff:
  "outbound_ok m \<Longrightarrow> OutboundAgentMessage_is_complete m \<longleftrightarrow> outbound_rest m = []"
  by (auto simp: outbound_ok_def outbound_rest_def OutboundAgentMessage_is_complete_def)

lemma outbound_turn_copies:
  assumes "outbound_ok m" and "\<not> OutboundAgentMessage_is_complete m" and "length out < 2048"
  obtains k where "0 < k" and "k \<le> 2048 - length out" and "k \<le> length (outbound_rest m)"
    and "outbound_turn m out = Inr (m\<lparr>oa_stream_offset := oa_stream_offset m + k\<rparr>,
           out @ take k (outbound_rest m))"
    and "outbound_rest (m\<lparr>oa_stream_offset := oa_stream_offset m + k\<rparr>) = drop k (outbound_rest m)"
    and "outbound_ok (m\<lparr>oa_stream_offset := oa_stream_offset m + k\<rparr>)"
proof (cases "oa_stream_offset m < 20")
  case True
  let ?k = "min (20 - oa_stream_offset m) (2048 - length out)"
  show ?thesis
    by (rule that [of ?k])
       (use assms True in \<open>auto simp: outbound_ok_def outbound_rest_def outbound_turn_def Let_def
          slice_index_def slice_get_def add.commute\<close>)
next
  case False
  let ?k = "min (length (oa_payload m) - (oa_stream_offset m - 20)) (2048 - length out)"
  show ?thesis
    by (rule that [of ?k])
       (use assms False in \<open>auto simp: outbound_ok_def outbound_rest_def outbound_turn_def Let_def
          slice_index_def slice_get_def add.commute OutboundAgentMessage_is_complete_def\<close>)
qed

lemma outbound_fill_copies:
  assumes "outbound_ok m" and "length out \<le> 2048"
  defines "k \<equiv> min (2048 - length out) (length (outbound_rest m))"
  shows "\<exists>m'. outbound_fill m out = Inr (m', out @ take k (outbound_rest m)) \<and>
              outbound_ok m' \<and> outbound_rest m' = drop k (outbound_rest m)"
  using assms(1,2) unfolding k_def
proof (induction m out rule: outbound_fill.induct)
  case (1 m out)
  show ?case
  proof (cases "length out < 2048 \<and> \<not> OutboundAgentMessage_is_complete m")
    case True
    then obtain j where j: "0 < j" "j \<le> 2048 - length out" "j \<le> length (outbound_rest m)"
      and t: "outbound_turn m out = Inr (m\<lparr>oa_stream_offset := oa_stream_offset m + j\<rparr>,
           out @ take j (outbound_rest m))"
      and r: "outbound_rest (m\<lparr>oa_stream_offset := oa_stream_offset m + j\<rparr>) = drop j (outbound_rest m)"
      and ok: "outbound_ok (m\<lparr>oa_stream_offset := oa_stream_offset m + j\<rparr>)"
      using outbound_turn_copies [OF "1.prems"(1)] by blast
    have len: "length (out @ take j (outbound_rest m)) = length out + j" using j by simp
    let ?k = "min (2048 - (length out + j)) (length (outbound_rest m) - j)"
    have k: "min (2048 - length out) (length (outbound_rest m)) = j + ?k" using j by linarith
    have "outbound_fill m out = outbound_fill (m\<lparr>oa_stream_offset := oa_stream_offset m + j\<rparr>)
        (out @ take j (outbound_rest m))"
      using True by (subst outbound_fill.simps) (simp add: t)
    with "1.IH" [OF _ t refl ok] True j len r show ?thesis
      unfolding k by (simp add: take_add add.commute)
  next
    case False
    then have "outbound_fill m out = Inr (m, out)" by (subst outbound_fill.simps) auto
    moreover from False "1.prems" have "length out = 2048 \<or> outbound_rest m = []"
      using outbound_complete_iff by auto
    ultimately show ?thesis using "1.prems" by auto
  qed
qed

lemma next_fragment_copies:
  assumes "outbound_ok m" and "outbound_rest m \<noteq> []"
  shows "\<exists>m'. OutboundAgentMessage_next_fragment m = Inr (m', take 2048 (outbound_rest m)) \<and>
              outbound_ok m' \<and> outbound_rest m' = drop 2048 (outbound_rest m)"
  using outbound_fill_copies [OF assms(1), of "[]"] assms outbound_complete_iff [OF assms(1)]
  by (auto simp: OutboundAgentMessage_next_fragment_def min_def split: if_splits)


definition fragments_of :: "u8 list \<Rightarrow> u8 list list \<Rightarrow> bool" where
  "fragments_of stream fs \<longleftrightarrow>
     concat fs = stream \<and> list_all (\<lambda>f. f \<noteq> [] \<and> length f \<le> MAX_AGENT_FRAGMENT_BYTES) fs \<and>
     length fs = (length stream + MAX_AGENT_FRAGMENT_BYTES - 1) div MAX_AGENT_FRAGMENT_BYTES"

lemma fragment_count: "0 < n \<Longrightarrow> (2047 + n) div 2048 = Suc ((2047 + (n - 2048)) div 2048)" for n :: nat
proof (cases "n \<le> 2048")
  case False
  then obtain m where "n = 2048 + m" by (metis nat_le_linear le_Suc_ex)
  then show ?thesis by (simp add: div_add_self1 add.assoc)
qed (auto intro!: div_nat_eqI)

lemma fragments_of_Cons:
  assumes "fragments_of (drop 2048 xs) fs" and "xs \<noteq> []"
  shows "fragments_of xs (take 2048 xs # fs)"
  using assms fragment_count [of "length xs"] by (simp add: fragments_of_def)

lemma outbound_fragments_rest:
  "outbound_ok m \<Longrightarrow> \<exists>fs. outbound_fragments m = Inr fs \<and> fragments_of (outbound_rest m) fs"
proof (induction "length (outbound_rest m)" arbitrary: m rule: less_induct)
  case less
  show ?case
  proof (cases "outbound_rest m = []")
    case True
    with less.prems show ?thesis
      by (subst outbound_fragments.simps) (simp add: outbound_complete_iff fragments_of_def)
  next
    case False
    obtain m' where n: "OutboundAgentMessage_next_fragment m = Inr (m', take 2048 (outbound_rest m))"
      and ok: "outbound_ok m'" and r: "outbound_rest m' = drop 2048 (outbound_rest m)"
      using next_fragment_copies [OF less.prems False] by blast
    have "length (outbound_rest m') < length (outbound_rest m)" using r False by simp
    from less.hyps [OF this ok] obtain fs where "outbound_fragments m' = Inr fs"
      and "fragments_of (outbound_rest m') fs" by blast
    with n r False less.prems show ?thesis
      by (subst outbound_fragments.simps) (simp add: outbound_complete_iff fragments_of_Cons)
  qed
qed

definition agent_header :: "u32 \<Rightarrow> u64 \<Rightarrow> u32 \<Rightarrow> u8 list" where
  "agent_header message_type opaque payload_size =
     u32_to_le_bytes AGENT_PROTOCOL @ u32_to_le_bytes message_type @
     u64_to_le_bytes opaque @ u32_to_le_bytes payload_size"

lemma OutboundAgentMessage_new_Inr:
  assumes "OutboundAgentMessage_new message_type opaque payload maximum = Inr m"
  shows "length payload \<le> maximum \<and> length payload < 4294967296 \<and> outbound_ok m \<and>
         outbound_rest m = agent_header message_type opaque (of_nat (length payload)) @ payload"
  using assms unat_u32_less
  by (auto simp: OutboundAgentMessage_new_def outbound_ok_def outbound_rest_def agent_header_def
      split: if_splits)

text \<open>C36: sending an Agent message terminates, never panics, and cuts the framed message into the least
  number of non-empty fragments of at most \<open>MAX_AGENT_FRAGMENT_BYTES\<close>, without losing, repeating or
  reordering a byte.\<close>

theorem outbound_message_fragments:
  assumes "OutboundAgentMessage_new message_type opaque payload maximum = Inr m"
  shows "\<exists>fs. outbound_fragments m = Inr fs \<and>
              fragments_of (agent_header message_type opaque (of_nat (length payload)) @ payload) fs"
  using outbound_fragments_rest [of m] OutboundAgentMessage_new_Inr [OF assms] by auto

theorem outbound_message_fragments_witness:
  "\<exists>m fs. OutboundAgentMessage_new 4 0 (replicate 3000 7) 4096 = Inr m \<and>
     outbound_fragments m = Inr fs \<and> length fs = 2 \<and>
     concat fs = agent_header 4 0 3000 @ replicate 3000 7"
proof -
  obtain m where m: "OutboundAgentMessage_new 4 0 (replicate 3000 7) 4096 = Inr m"
    by (simp add: OutboundAgentMessage_new_def u32_try_from_def)
  from outbound_message_fragments [OF m] m show ?thesis
    by (auto simp: fragments_of_def agent_header_def)
qed

section \<open>Properties of the stream\<close>

definition agent_abs :: "AgentStreamDecoder \<Rightarrow> (nat, agent_frame) frame_state" where
  "agent_abs d =
     \<lparr>fs_conf = ad_maximum_message_bytes d, fs_header = take (ad_header_bytes d) (ad_header d),
      fs_current = map_option (\<lambda>p. ((pa_protocol p, pa_message_type p, pa_opaque p),
                                     pa_declared_size p, pa_payload p)) (ad_current d)\<rparr>"

lemma agent_state_of: "agent.state_of = agent_abs"
  by (simp add: fun_eq_iff agent.state_of_def agent.block_abs_def agent_abs_def agent_view_def)

lemma agent_new_state:
  assumes "AgentStreamDecoder_new maximum = Inr d"
  shows "agent.state_inv d" and "agent.state_of d = agent.idle maximum"
  using assms
  by (auto simp: AgentStreamDecoder_new_def agent.state_inv_def agent.block_inv_def agent_view_def
      agent_state_of agent_abs_def agent.idle_def split: if_splits)

definition fragment_ok :: "u8 list \<Rightarrow> bool" where
  "fragment_ok f \<longleftrightarrow> f \<noteq> [] \<and> length f \<le> MAX_AGENT_FRAGMENT_BYTES"

lemma push_fragments_loop:
  "list_all fragment_ok fs \<Longrightarrow>
     push_pieces AgentStreamDecoder_push_fragment_into d fs out = push_pieces agent_push_loop d fs out"
  by (induction fs arbitrary: d out)
     (auto simp: AgentStreamDecoder_push_fragment_into_def fragment_ok_def intro!: push_then_cong)

lemma agent_feed_message:
  assumes "length payload \<le> maximum" and "length payload < 4294967296"
  shows "agent.feed (agent.idle maximum) (agent_header t q (of_nat (length payload)) @ payload) out =
     (Inr (), agent.idle maximum,
      out @ [\<lparr>am_protocol = AGENT_PROTOCOL, am_message_type = t, am_opaque = q, am_payload = payload\<rparr>])"
proof (rule agent.feed_frame)
  let ?h = "agent_header t q (of_nat (length payload))"
  show "length ?h = 20" by (simp add: agent_header_def)
  show "agent_open maximum ?h = Inr ((AGENT_PROTOCOL, t, q), length payload)"
    using assms
    by (simp add: agent_open_def agent_parse_header_def agent_header_def decode_with_at reader_width
        reader_simps Let_def)
qed (simp add: agent_close_def)


lemma concat_map_concat: "concat (map concat xsss) = concat (concat xsss)"
  by (induction xsss) simp_all

lemma agent_frames:
  assumes "list_all2 (\<lambda>msg fs. \<exists>m. OutboundAgentMessage_new (am_message_type msg) (am_opaque msg)
             (am_payload msg) maximum = Inr m \<and> outbound_fragments m = Inr fs) msgs fss"
    and "list_all (\<lambda>msg. am_protocol msg = AGENT_PROTOCOL) msgs"
  shows "agent.frames maximum (zip (map concat fss) msgs) maximum \<and>
         map fst (zip (map concat fss) msgs) = map concat fss \<and>
         map snd (zip (map concat fss) msgs) = msgs \<and> list_all (list_all fragment_ok) fss"
  using assms
proof (induction rule: list_all2_induct)
  case (Cons msg msgs fs fss)
  then obtain m where m: "OutboundAgentMessage_new (am_message_type msg) (am_opaque msg)
      (am_payload msg) maximum = Inr m" "outbound_fragments m = Inr fs" by blast
  from OutboundAgentMessage_new_Inr [OF m(1)] outbound_fragments_rest [of m] m(2)
  have f: "concat fs = agent_header (am_message_type msg) (am_opaque msg)
      (of_nat (length (am_payload msg))) @ am_payload msg" "list_all fragment_ok fs"
    and "length (am_payload msg) \<le> maximum" "length (am_payload msg) < 4294967296"
    by (auto simp: fragments_of_def fragment_ok_def [abs_def])
  with agent_feed_message [of "am_payload msg" maximum "am_message_type msg" "am_opaque msg"] Cons
  show ?case by auto
qed simp

text \<open>C2: the Agent stream decoder inverts the encoder: pushing, one AgentData body after the other, the
  fragments of any sequence of outbound messages returns exactly these messages and leaves no
  partial message behind.\<close>

theorem agent_stream_round_trip:
  assumes new: "AgentStreamDecoder_new maximum = Inr d"
    and sent: "list_all2 (\<lambda>msg fs. \<exists>m. OutboundAgentMessage_new (am_message_type msg) (am_opaque msg)
                 (am_payload msg) maximum = Inr m \<and> outbound_fragments m = Inr fs) msgs fss"
    and "list_all (\<lambda>msg. am_protocol msg = AGENT_PROTOCOL) msgs"
  shows "\<exists>d'. push_pieces AgentStreamDecoder_push_fragment_into d (concat fss) [] = (Inr (), d', msgs) \<and>
              ad_header_bytes d' = 0 \<and> ad_current d' = None"
proof -
  let ?fs = "zip (map concat fss) msgs"
  have f: "agent.frames maximum ?fs maximum" "concat (map fst ?fs) = concat (concat fss)"
    "map snd ?fs = msgs" and ok: "list_all fragment_ok (concat fss)"
    using agent_frames [OF sent assms(3)] by (auto simp: concat_map_concat list_all_iff)
  obtain d' where "push_pieces agent_push_loop d (concat fss) [] = (Inr (), d', msgs)"
    and "agent.state_of d' = agent.idle maximum" and inv: "agent.state_inv d'"
    using agent.push_pieces_frames [OF agent_new_state [OF new] f(1), of "concat fss" "[]"] f(2,3)
      agent.push_pieces_inv [OF agent_new_state(1) [OF new], of "concat fss" "[]"] by auto
  then show ?thesis
    using push_fragments_loop [OF ok, of d "[]"]
    by (auto simp: agent_state_of agent_abs_def agent.idle_def agent.state_inv_def agent.block_inv_def
        agent_view_def)
qed

theorem agent_stream_round_trip_witness:
  "\<exists>d m fs d'. AgentStreamDecoder_new 64 = Inr d \<and> OutboundAgentMessage_new 4 9 [1, 2, 3] 64 = Inr m \<and>
     outbound_fragments m = Inr fs \<and>
     push_pieces AgentStreamDecoder_push_fragment_into d (concat [fs]) [] =
       (Inr (), d', [\<lparr>am_protocol = 1, am_message_type = 4, am_opaque = 9, am_payload = [1, 2, 3]\<rparr>])"
proof -
  obtain d where d: "AgentStreamDecoder_new 64 = Inr d" by (simp add: AgentStreamDecoder_new_def)
  obtain m where m: "OutboundAgentMessage_new 4 9 [1, 2, 3] 64 = Inr m"
    by (simp add: OutboundAgentMessage_new_def u32_try_from_def)
  obtain fs where fs: "outbound_fragments m = Inr fs"
    using outbound_fragments_rest [of m] OutboundAgentMessage_new_Inr [OF m] by auto
  let ?msg = "\<lparr>am_protocol = 1, am_message_type = 4, am_opaque = 9, am_payload = [1, 2, 3]\<rparr>"
  from agent_stream_round_trip [OF d, of "[?msg]" "[fs]"] d m fs show ?thesis by auto
qed

text \<open>A rejected body leaves the decoder as it was, so a run of pushes is a run of loops up to there.\<close>

lemma push_fragments_checked:
  "push_pieces AgentStreamDecoder_push_fragment_into d xss out = (res, d', out') \<Longrightarrow>
     \<exists>yss r. push_pieces agent_push_loop d yss out = (r, d', out') \<and> (no_panic r \<longrightarrow> no_panic res)"
proof (induction xss arbitrary: d out)
  case Nil
  then show ?case by (intro exI [of _ "[]"]) auto
next
  case (Cons xs xss)
  show ?case
  proof (cases "fragment_ok xs")
    case False
    with Cons.prems show ?thesis
      by (intro exI [of _ "[]"]) (auto simp: fragment_ok_def AgentStreamDecoder_push_fragment_into_def)
  next
    case True
    obtain r1 d1 out1 where p: "agent_push_loop d xs out = (r1, d1, out1)" by (metis prod_cases3)
    have e: "AgentStreamDecoder_push_fragment_into d xs out = (r1, d1, out1)"
      using True p by (simp add: fragment_ok_def AgentStreamDecoder_push_fragment_into_def)
    show ?thesis
    proof (cases r1)
      case (Inl a)
      with Cons.prems e p show ?thesis by (intro exI [of _ "[xs]"]) auto
    next
      case (Inr u)
      with Cons.prems e have "push_pieces AgentStreamDecoder_push_fragment_into d1 xss out1 = (res, d', out')"
        by simp
      from Cons.IH [OF this] obtain yss r where
        "push_pieces agent_push_loop d1 yss out1 = (r, d', out')" "no_panic r \<longrightarrow> no_panic res" by blast
      with Inr p show ?thesis by (intro exI [of _ "xs # yss"]) auto
    qed
  qed
qed

text \<open>Whatever AgentData bodies arrive, cut in any way, the decoder does not panic and never holds
  more than the twenty header bytes and one payload within the configured message bound; after
  \<open>reset\<close> it is as good as a new decoder.\<close>

theorem agent_stream_bounded:
  assumes new: "AgentStreamDecoder_new maximum = Inr d"
    and run: "push_pieces AgentStreamDecoder_push_fragment_into d fragments [] = (res, d', msgs)"
  shows "no_panic res \<and> ad_maximum_message_bytes d' = maximum \<and> ad_header_bytes d' \<le> AGENT_MESSAGE_HEADER_BYTES \<and>
         (\<forall>p. ad_current d' = Some p \<longrightarrow>
              length (pa_payload p) \<le> pa_declared_size p \<and> pa_declared_size p \<le> maximum) \<and>
         agent_abs (AgentStreamDecoder_reset d') = agent_abs d"
proof -
  obtain yss r where r: "push_pieces agent_push_loop d yss [] = (r, d', msgs)"
    and "no_panic r \<longrightarrow> no_panic res"
    using push_fragments_checked [OF run] by blast
  with agent.push_pieces_bounded [OF agent_new_state [OF new] r]
    agent.push_pieces_array [OF agent.state_inv_array [OF agent_new_state(1) [OF new]] r]
    agent_new_state(2) [OF new]
  show ?thesis
    unfolding agent.bounded_def agent_state_of
    by (auto simp: agent_abs_def agent.array_ok_def agent_view_def AgentStreamDecoder_reset_def
        agent.idle_def)
qed

theorem agent_stream_bounded_witness:
  "\<exists>d d'. AgentStreamDecoder_new 64 = Inr d \<and>
     push_pieces AgentStreamDecoder_push_fragment_into d [[1, 0], []] [] =
       (decode_err ResourceLimit 0 STR ''agent fragment bytes'', d', []) \<and>
     ad_header_bytes d' \<le> 20 \<and> agent_abs (AgentStreamDecoder_reset d') = agent_abs d"
proof -
  obtain d where d: "AgentStreamDecoder_new 64 = Inr d"
    and r: "d = \<lparr>ad_maximum_message_bytes = 64, ad_header = replicate 20 0, ad_header_bytes = 0, ad_current = None\<rparr>"
    by (simp add: AgentStreamDecoder_new_def)
  let ?d = "d\<lparr>ad_header := 1 # replicate 19 0, ad_header_bytes := 2\<rparr>"
  have run: "push_pieces AgentStreamDecoder_push_fragment_into d [[1, 0], []] [] =
       (decode_err ResourceLimit 0 STR ''agent fragment bytes'', ?d, [])"
    by (simp add: AgentStreamDecoder_push_fragment_into_def agent_push_loop.simps agent_turn_def
        copy_from_slice_def r numeral_eq_Suc)
  from agent_stream_bounded [OF d run] d run show ?thesis by auto
qed

end
