(* ===== verification/Spice_AgentPayload.thy ===== *)
theory Spice_AgentPayload
  imports Spice_Channel Spice_Capability
begin

text \<open>
  The payloads of Agent messages (\<open>agent.rs\<close>): capability announcements, the clipboard messages with
  their negotiated optional fields, WebDAV file lists, monitor configurations, file transfers, audio
  volumes and graphics device information.

  Every decoder is panic free. Capability announcements and file lists are canonical codecs: the
  decoder accepts exactly what the encoder produces. The clipboard messages and audio volumes round
  trip under each negotiated capability combination, and the key-file header of a file transfer
  cannot be forged through the file name.
\<close>

section \<open>Numeric enums (agent.rs)\<close>

definition MAX_AGENT_MONITORS :: nat where [simp]: "MAX_AGENT_MONITORS = 256"
definition MAX_AGENT_CLIPBOARD_TYPES :: nat where [simp]: "MAX_AGENT_CLIPBOARD_TYPES = 64"
definition MAX_AGENT_CLIPBOARD_FILE_PATHS :: nat where [simp]: "MAX_AGENT_CLIPBOARD_FILE_PATHS = 1024"
definition MAX_AGENT_FILE_NAME_BYTES :: nat where [simp]: "MAX_AGENT_FILE_NAME_BYTES = 255"
definition MAX_AGENT_FILE_CHUNK_BYTES :: nat where [simp]: "MAX_AGENT_FILE_CHUNK_BYTES = 64 * 1024"
definition MAX_AGENT_AUDIO_CHANNELS :: nat where [simp]: "MAX_AGENT_AUDIO_CHANNELS = 32"
definition MAX_AGENT_DISPLAY_DEVICES :: nat where [simp]: "MAX_AGENT_DISPLAY_DEVICES = 256"
definition MAX_AGENT_DEVICE_ADDRESS_BYTES :: nat where [simp]: "MAX_AGENT_DEVICE_ADDRESS_BYTES = 1024"

datatype AgentClipboardType =
    AgentClipboardType_None | AgentClipboardType_Utf8Text | AgentClipboardType_ImagePng
  | AgentClipboardType_ImageBmp | AgentClipboardType_ImageTiff | AgentClipboardType_ImageJpeg
  | AgentClipboardType_FileList

primrec AgentClipboardType_code :: "AgentClipboardType \<Rightarrow> u32" where
  "AgentClipboardType_code AgentClipboardType_None = 0"
| "AgentClipboardType_code AgentClipboardType_Utf8Text = 1"
| "AgentClipboardType_code AgentClipboardType_ImagePng = 2"
| "AgentClipboardType_code AgentClipboardType_ImageBmp = 3"
| "AgentClipboardType_code AgentClipboardType_ImageTiff = 4"
| "AgentClipboardType_code AgentClipboardType_ImageJpeg = 5"
| "AgentClipboardType_code AgentClipboardType_FileList = 6"

definition AgentClipboardType_try_from :: "u32 \<Rightarrow> AgentClipboardType decoded" where
  "AgentClipboardType_try_from value =
     (if value = 0 then Inr AgentClipboardType_None
      else if value = 1 then Inr AgentClipboardType_Utf8Text
      else if value = 2 then Inr AgentClipboardType_ImagePng
      else if value = 3 then Inr AgentClipboardType_ImageBmp
      else if value = 4 then Inr AgentClipboardType_ImageTiff
      else if value = 5 then Inr AgentClipboardType_ImageJpeg
      else if value = 6 then Inr AgentClipboardType_FileList
      else decode_err Unsupported 0 STR ''agent clipboard type'')"

interpretation clipboard_type: enum_codec AgentClipboardType_code AgentClipboardType_try_from
proof
  show "AgentClipboardType_try_from (AgentClipboardType_code e) = Inr e" for e
    by (cases e) (simp_all add: AgentClipboardType_try_from_def)
  show "AgentClipboardType_try_from c = Inr e \<Longrightarrow> AgentClipboardType_code e = c" for c e
    by (auto simp: AgentClipboardType_try_from_def split: if_splits)
  show "no_panic (AgentClipboardType_try_from c)" for c
    by (simp add: AgentClipboardType_try_from_def)
qed

datatype AgentClipboardSelection =
    AgentClipboardSelection_Clipboard | AgentClipboardSelection_Primary
  | AgentClipboardSelection_Secondary

primrec AgentClipboardSelection_code :: "AgentClipboardSelection \<Rightarrow> u8" where
  "AgentClipboardSelection_code AgentClipboardSelection_Clipboard = 0"
| "AgentClipboardSelection_code AgentClipboardSelection_Primary = 1"
| "AgentClipboardSelection_code AgentClipboardSelection_Secondary = 2"

definition AgentClipboardSelection_try_from :: "u8 \<Rightarrow> AgentClipboardSelection decoded" where
  "AgentClipboardSelection_try_from value =
     (if value = 0 then Inr AgentClipboardSelection_Clipboard
      else if value = 1 then Inr AgentClipboardSelection_Primary
      else if value = 2 then Inr AgentClipboardSelection_Secondary
      else decode_err InvalidValue 0 STR ''agent clipboard selection'')"

interpretation clipboard_selection:
  enum_codec AgentClipboardSelection_code AgentClipboardSelection_try_from
proof
  show "AgentClipboardSelection_try_from (AgentClipboardSelection_code e) = Inr e" for e
    by (cases e) (simp_all add: AgentClipboardSelection_try_from_def)
  show "AgentClipboardSelection_try_from c = Inr e \<Longrightarrow> AgentClipboardSelection_code e = c" for c e
    by (auto simp: AgentClipboardSelection_try_from_def split: if_splits)
  show "no_panic (AgentClipboardSelection_try_from c)" for c
    by (simp add: AgentClipboardSelection_try_from_def)
qed

datatype AgentFileTransferStatus =
    AgentFileTransferStatus_CanSendData | AgentFileTransferStatus_Cancelled
  | AgentFileTransferStatus_RemoteError | AgentFileTransferStatus_Success
  | AgentFileTransferStatus_NotEnoughSpace | AgentFileTransferStatus_SessionLocked
  | AgentFileTransferStatus_AgentNotConnected | AgentFileTransferStatus_Disabled

primrec AgentFileTransferStatus_code :: "AgentFileTransferStatus \<Rightarrow> u32" where
  "AgentFileTransferStatus_code AgentFileTransferStatus_CanSendData = 0"
| "AgentFileTransferStatus_code AgentFileTransferStatus_Cancelled = 1"
| "AgentFileTransferStatus_code AgentFileTransferStatus_RemoteError = 2"
| "AgentFileTransferStatus_code AgentFileTransferStatus_Success = 3"
| "AgentFileTransferStatus_code AgentFileTransferStatus_NotEnoughSpace = 4"
| "AgentFileTransferStatus_code AgentFileTransferStatus_SessionLocked = 5"
| "AgentFileTransferStatus_code AgentFileTransferStatus_AgentNotConnected = 6"
| "AgentFileTransferStatus_code AgentFileTransferStatus_Disabled = 7"

definition AgentFileTransferStatus_try_from :: "u32 \<Rightarrow> AgentFileTransferStatus decoded" where
  "AgentFileTransferStatus_try_from value =
     (if value = 0 then Inr AgentFileTransferStatus_CanSendData
      else if value = 1 then Inr AgentFileTransferStatus_Cancelled
      else if value = 2 then Inr AgentFileTransferStatus_RemoteError
      else if value = 3 then Inr AgentFileTransferStatus_Success
      else if value = 4 then Inr AgentFileTransferStatus_NotEnoughSpace
      else if value = 5 then Inr AgentFileTransferStatus_SessionLocked
      else if value = 6 then Inr AgentFileTransferStatus_AgentNotConnected
      else if value = 7 then Inr AgentFileTransferStatus_Disabled
      else decode_err InvalidValue 4 STR ''agent file transfer status'')"

interpretation transfer_status: enum_codec AgentFileTransferStatus_code AgentFileTransferStatus_try_from
proof
  show "AgentFileTransferStatus_try_from (AgentFileTransferStatus_code e) = Inr e" for e
    by (cases e) (simp_all add: AgentFileTransferStatus_try_from_def)
  show "AgentFileTransferStatus_try_from c = Inr e \<Longrightarrow> AgentFileTransferStatus_code e = c" for c e
    by (auto simp: AgentFileTransferStatus_try_from_def split: if_splits)
  show "no_panic (AgentFileTransferStatus_try_from c)" for c
    by (simp add: AgentFileTransferStatus_try_from_def)
qed

declare clipboard_selection.try_from_error [no_panic_intros]
  and transfer_status.try_from_error [no_panic_intros]

section \<open>Capability announcements\<close>

record AgentCapabilities =
  ac_request_reply :: bool
  ac_capabilities :: CapabilitySet

definition AgentCapabilities_decode :: "u8 list \<Rightarrow> AgentCapabilities decoded" where
  "AgentCapabilities_decode payload =
     (if length payload < 4 \<or> length payload mod 4 \<noteq> 0
      then decode_err InvalidValue (length payload) STR ''agent capability payload''
      else
      let word_count = length payload div 4 - 1 in
      if word_count > MAX_CAPABILITY_WORDS
      then decode_err ResourceLimit 4 STR ''agent capability words''
      else decode_with payload
       (rd_then (Reader_u32 STR ''agent capability request'') (\<lambda>request.
        if request > 1 then rd_err InvalidValue 0 STR ''agent capability request''
        else
        rd_then (rd_repeat word_count (Reader_u32 STR ''agent capability word'')) (\<lambda>words.
        rd_return \<lparr>ac_request_reply = (request \<noteq> 0),
                   ac_capabilities = CapabilitySet_from_words words\<rparr>))))"

definition AgentCapabilities_encode :: "AgentCapabilities \<Rightarrow> u8 list" where
  "AgentCapabilities_encode c =
     u32_to_le_bytes (of_bool (ac_request_reply c)) @
     concat (map u32_to_le_bytes (words (ac_capabilities c)))"

section \<open>Clipboard messages\<close>

record AgentClipboardGrab =
  cg_selection :: AgentClipboardSelection
  cg_serial :: "u32 option"
  cg_types :: "u32 list"

record AgentClipboardRequest =
  cr_selection :: AgentClipboardSelection
  cr_clipboard_type :: u32

record AgentClipboardData =
  cd_selection :: AgentClipboardSelection
  cd_clipboard_type :: u32
  cd_data :: "u8 list"

definition decode_selection :: "u8 list \<Rightarrow> bool \<Rightarrow> (AgentClipboardSelection \<times> u8 list) decoded" where
  "decode_selection payload selection_supported =
     (if \<not> selection_supported then Inr (AgentClipboardSelection_Clipboard, payload)
      else
      and_then (ok_or (DecodeError_new Truncated (length payload) STR ''agent clipboard selection'')
                 (slice_get payload 0 4)) (\<lambda>prefix.
      and_then (expect (case prefix of [] \<Rightarrow> None | b # _ \<Rightarrow> Some b)) (\<lambda>code.
      and_then (AgentClipboardSelection_try_from code) (\<lambda>selection.
      and_then (slice_index payload 4 (length payload)) (\<lambda>rest.
      Inr (selection, rest))))))"

definition encode_selection :: "AgentClipboardSelection \<Rightarrow> bool \<Rightarrow> u8 list" where
  "encode_selection selection selection_supported =
     (if selection_supported then [AgentClipboardSelection_code selection, 0, 0, 0] else [])"

text \<open>\<open>while reader.remaining() != 0 { types.push(reader.u32(..)?) }\<close>\<close>

function read_u32s_to_end :: "context_str \<Rightarrow> u32 list reader_op" where
  "read_u32s_to_end ctx r =
     and_then (Reader_remaining r) (\<lambda>(remaining, r).
     if remaining = 0 then Inr ([], r)
     else and_then (Reader_u32 ctx r) (\<lambda>(w, r').
          and_then (read_u32s_to_end ctx r') (\<lambda>(ws, r''). Inr (w # ws, r''))))"
  by pat_completeness auto
termination
  by (relation "measure (\<lambda>(ctx, r). length (rd_input r) - rd_offset r)") (auto simp: Reader_u32_def)

declare read_u32s_to_end.simps [simp del]

definition decode_clipboard_grab :: "u8 list \<Rightarrow> bool \<Rightarrow> bool \<Rightarrow> AgentClipboardGrab decoded" where
  "decode_clipboard_grab payload selection_supported serial_supported =
     and_then (decode_selection payload selection_supported) (\<lambda>(selection, payload).
     decode_with payload
      (rd_then (if serial_supported
                then rd_then (Reader_u32 STR ''agent clipboard serial'') (\<lambda>serial. rd_return (Some serial))
                else rd_return None) (\<lambda>serial.
       rd_then Reader_offset (\<lambda>here.
       rd_then Reader_remaining (\<lambda>remaining.
       if remaining mod 4 \<noteq> 0 then rd_err InvalidValue here STR ''agent clipboard types''
       else if remaining div 4 > MAX_AGENT_CLIPBOARD_TYPES
       then rd_err ResourceLimit here STR ''agent clipboard types''
       else
       rd_then (read_u32s_to_end STR ''agent clipboard type'') (\<lambda>types.
       rd_then Reader_offset (\<lambda>here.
       if types = [] then rd_err InvalidValue here STR ''agent clipboard types''
       else rd_return \<lparr>cg_selection = selection, cg_serial = serial, cg_types = types\<rparr>)))))))"

definition encode_clipboard_grab ::
    "AgentClipboardSelection \<Rightarrow> u32 option \<Rightarrow> AgentClipboardType list \<Rightarrow> bool \<Rightarrow> u8 list decoded" where
  "encode_clipboard_grab selection serial types selection_supported =
     (if \<not> selection_supported \<and> selection \<noteq> AgentClipboardSelection_Clipboard
      then decode_err Unsupported 0 STR ''agent clipboard selection''
      else if types = [] then decode_err InvalidValue 0 STR ''agent clipboard types''
      else if length types > MAX_AGENT_CLIPBOARD_TYPES
      then decode_err ResourceLimit 0 STR ''agent clipboard types''
      else Inr (encode_selection selection selection_supported @
                (case serial of None \<Rightarrow> [] | Some serial \<Rightarrow> u32_to_le_bytes serial) @
                concat (map (\<lambda>t. u32_to_le_bytes (AgentClipboardType_code t)) types)))"

definition decode_clipboard_request :: "u8 list \<Rightarrow> bool \<Rightarrow> AgentClipboardRequest decoded" where
  "decode_clipboard_request payload selection_supported =
     and_then (decode_selection payload selection_supported) (\<lambda>(selection, payload).
     if length payload \<noteq> 4
     then decode_err (size_error_kind (length payload) 4) (length payload) STR ''agent clipboard request''
     else decode_with payload
      (rd_then (Reader_u32 STR ''agent clipboard requested type'') (\<lambda>clipboard_type.
       rd_return \<lparr>cr_selection = selection, cr_clipboard_type = clipboard_type\<rparr>)))"

definition encode_clipboard_request ::
    "AgentClipboardSelection \<Rightarrow> AgentClipboardType \<Rightarrow> bool \<Rightarrow> u8 list decoded" where
  "encode_clipboard_request selection clipboard_type selection_supported =
     (if \<not> selection_supported \<and> selection \<noteq> AgentClipboardSelection_Clipboard
      then decode_err Unsupported 0 STR ''agent clipboard selection''
      else Inr (encode_selection selection selection_supported @
                u32_to_le_bytes (AgentClipboardType_code clipboard_type)))"

definition decode_clipboard_data :: "u8 list \<Rightarrow> bool \<Rightarrow> AgentClipboardData decoded" where
  "decode_clipboard_data payload selection_supported =
     and_then (decode_selection payload selection_supported) (\<lambda>(selection, payload).
     decode_with payload
      (rd_then (Reader_u32 STR ''agent clipboard data type'') (\<lambda>clipboard_type.
       rd_then Reader_remaining (\<lambda>remaining.
       rd_then (Reader_take remaining STR ''agent clipboard data'') (\<lambda>data.
       rd_return \<lparr>cd_selection = selection, cd_clipboard_type = clipboard_type, cd_data = data\<rparr>)))))"

definition encode_clipboard_data ::
    "AgentClipboardSelection \<Rightarrow> AgentClipboardType \<Rightarrow> u8 list \<Rightarrow> bool \<Rightarrow> u8 list decoded" where
  "encode_clipboard_data selection clipboard_type data selection_supported =
     (if \<not> selection_supported \<and> selection \<noteq> AgentClipboardSelection_Clipboard
      then decode_err Unsupported 0 STR ''agent clipboard selection''
      else Inr (encode_selection selection selection_supported @
                u32_to_le_bytes (AgentClipboardType_code clipboard_type) @ data))"

definition decode_clipboard_release :: "u8 list \<Rightarrow> bool \<Rightarrow> AgentClipboardSelection decoded" where
  "decode_clipboard_release payload selection_supported =
     and_then (decode_selection payload selection_supported) (\<lambda>(selection, remaining).
     if remaining \<noteq> []
     then decode_err InvalidValue (length payload - length remaining) STR ''agent clipboard release''
     else Inr selection)"

definition encode_clipboard_release :: "AgentClipboardSelection \<Rightarrow> bool \<Rightarrow> u8 list decoded" where
  "encode_clipboard_release selection selection_supported =
     (if \<not> selection_supported \<and> selection \<noteq> AgentClipboardSelection_Clipboard
      then decode_err Unsupported 0 STR ''agent clipboard selection''
      else Inr (encode_selection selection selection_supported))"

section \<open>File lists\<close>

text \<open>
  \<open>ascii\<close> is the bytes of a byte-string literal and \<open>split_on\<close> is \<open>slice::split\<close> on a separator byte:
  always one more field than separators.
\<close>

definition ascii :: "string \<Rightarrow> u8 list" where
  "ascii s = map of_char s"

fun split_on :: "u8 \<Rightarrow> u8 list \<Rightarrow> u8 list list" where
  "split_on sep [] = [[]]"
| "split_on sep (b # bs) =
     (if b = sep then [] # split_on sep bs
      else (b # hd (split_on sep bs)) # tl (split_on sep bs))"

datatype AgentClipboardFileAction = AgentClipboardFileAction_Copy | AgentClipboardFileAction_Cut

record AgentClipboardFileList =
  fl_action :: AgentClipboardFileAction
  fl_paths :: "u8 list list"

definition path_starts_with_slash :: "u8 list \<Rightarrow> bool" where
  "path_starts_with_slash path \<longleftrightarrow> (case path of [] \<Rightarrow> False | b # _ \<Rightarrow> b = 47)"

text \<open>The loop over the path fields; \<open>paths\<close> is what has been pushed so far.\<close>

fun decode_file_paths :: "nat \<Rightarrow> u8 list list \<Rightarrow> u8 list list \<Rightarrow> u8 list list decoded" where
  "decode_file_paths payload_len paths [] = Inr paths"
| "decode_file_paths payload_len paths (field # more_fields) =
     (if length paths = MAX_AGENT_CLIPBOARD_FILE_PATHS
      then decode_err ResourceLimit payload_len STR ''agent clipboard file paths''
      else
      and_then (ok_or (DecodeError_new InvalidValue 0 STR ''agent clipboard file path UTF-8'')
                 (from_utf8 field)) (\<lambda>path.
      if path = [] \<or> \<not> path_starts_with_slash path
      then decode_err InvalidValue 0 STR ''agent clipboard absolute file path''
      else decode_file_paths payload_len (paths @ [path]) more_fields))"

definition decode_clipboard_file_list :: "u8 list \<Rightarrow> AgentClipboardFileList decoded" where
  "decode_clipboard_file_list payload =
     (if payload = [] \<or> last payload \<noteq> 0
      then decode_err Truncated (length payload) STR ''agent clipboard file list terminator''
      else
      and_then (slice_index payload 0 (length payload - 1)) (\<lambda>prefix.
      case split_on 0 prefix of
        [] \<Rightarrow> decode_err InvalidValue 0 STR ''agent clipboard file action''
      | first # more_fields \<Rightarrow>
          and_then (if first = ascii ''copy'' then Inr AgentClipboardFileAction_Copy
                    else if first = ascii ''cut'' then Inr AgentClipboardFileAction_Cut
                    else decode_err InvalidValue 0 STR ''agent clipboard file action'') (\<lambda>action.
          and_then (decode_file_paths (length payload) [] more_fields) (\<lambda>paths.
          if paths = [] then decode_err InvalidValue (length payload) STR ''agent clipboard file paths''
          else Inr \<lparr>fl_action = action, fl_paths = paths\<rparr>))))"

fun file_list_bytes :: "nat \<Rightarrow> u8 list list \<Rightarrow> nat decoded" where
  "file_list_bytes subtotal [] = Inr subtotal"
| "file_list_bytes subtotal (path # paths) =
     (if path = [] \<or> \<not> path_starts_with_slash path \<or> 0 \<in> set path
      then decode_err InvalidValue 0 STR ''agent clipboard absolute file path''
      else
      and_then (ok_or (DecodeError_new Overflow 0 STR ''agent clipboard file list'')
                 (usize_checked_add subtotal (length path + 1))) (\<lambda>subtotal.
      file_list_bytes subtotal paths))"

definition encode_clipboard_file_list :: "AgentClipboardFileList \<Rightarrow> u8 list decoded" where
  "encode_clipboard_file_list file_list =
     (if fl_paths file_list = [] then decode_err InvalidValue 0 STR ''agent clipboard file paths''
      else if length (fl_paths file_list) > MAX_AGENT_CLIPBOARD_FILE_PATHS
      then decode_err ResourceLimit 0 STR ''agent clipboard file paths''
      else
      let action = (case fl_action file_list of
                      AgentClipboardFileAction_Copy \<Rightarrow> ascii ''copy''
                    | AgentClipboardFileAction_Cut \<Rightarrow> ascii ''cut'') in
      and_then (file_list_bytes (length action + 1) (fl_paths file_list)) (\<lambda>_.
      Inr (action @ [0] @ concat (map (\<lambda>path. path @ [0]) (fl_paths file_list)))))"

section \<open>Monitor configuration\<close>

record AgentMonitorConfig =
  mc_width :: u32
  mc_height :: u32
  mc_depth :: u32
  mc_x :: i32
  mc_y :: i32
  mc_width_mm :: "u16 option"
  mc_height_mm :: "u16 option"

definition check_monitor :: "bool \<Rightarrow> bool \<Rightarrow> AgentMonitorConfig \<Rightarrow> unit decoded" where
  "check_monitor sparse_supported physical_size_supported monitor =
     (if mc_depth monitor = 0 \<or> mc_depth monitor > 32
      then decode_err InvalidValue 0 STR ''agent monitor depth''
      else if (mc_width monitor = 0 \<or> mc_height monitor = 0) \<and> \<not> sparse_supported
      then decode_err Unsupported 0 STR ''sparse agent monitor''
      else if \<not> physical_size_supported \<and> (mc_width_mm monitor \<noteq> None \<or> mc_height_mm monitor \<noteq> None)
      then decode_err Unsupported 0 STR ''agent monitor physical size''
      else Inr ())"

definition encode_monitors_config ::
    "AgentMonitorConfig list \<Rightarrow> bool \<Rightarrow> bool \<Rightarrow> bool \<Rightarrow> u8 list decoded" where
  "encode_monitors_config monitors use_positions sparse_supported physical_size_supported =
     and_then (ok_or (DecodeError_new Overflow (length monitors) STR ''agent monitor count'')
                (u32_try_from (length monitors))) (\<lambda>monitor_count.
     and_then (checked_array_bytes monitor_count 20 MAX_AGENT_MONITORS 0 STR ''agent monitors'') (\<lambda>_.
     and_then (try_for_each (check_monitor sparse_supported physical_size_supported) monitors) (\<lambda>_.
     and_then (if physical_size_supported
               then ok_or (DecodeError_new Overflow 0 STR ''agent monitor sizes'')
                      (usize_checked_mul (length monitors) 4)
               else Inr 0) (\<lambda>_.
     let flags = (if use_positions then 1 else 0) OR (if physical_size_supported then 2 else 0) in
     Inr (u32_to_le_bytes monitor_count @ u32_to_le_bytes flags @
          concat (map (\<lambda>m. u32_to_le_bytes (mc_height m) @ u32_to_le_bytes (mc_width m) @
                             u32_to_le_bytes (mc_depth m) @ u32_to_le_bytes (mc_x m) @
                             u32_to_le_bytes (mc_y m)) monitors) @
          (if physical_size_supported
           then concat (map (\<lambda>m. u16_to_le_bytes (case mc_height_mm m of None \<Rightarrow> 0 | Some v \<Rightarrow> v) @
                                   u16_to_le_bytes (case mc_width_mm m of None \<Rightarrow> 0 | Some v \<Rightarrow> v)) monitors)
           else []))))))"

section \<open>File transfers\<close>

text \<open>The decimal digits that \<open>format!\<close> prints for an unsigned integer.\<close>

fun decimal :: "nat \<Rightarrow> u8 list" where
  "decimal n = (if n < 10 then [48 + of_nat n] else decimal (n div 10) @ [48 + of_nat (n mod 10)])"

declare decimal.simps [simp del]

definition file_name_byte_rejected :: "u8 \<Rightarrow> bool" where
  "file_name_byte_rejected b \<longleftrightarrow> b \<in> {0, 47, 92, 13, 10, 91, 93, 61}"

definition encode_file_transfer_start :: "u32 \<Rightarrow> u8 list \<Rightarrow> u64 \<Rightarrow> u8 list decoded" where
  "encode_file_transfer_start transfer_id file_name file_size =
     (if transfer_id = 0 \<or> file_name = [] \<or> length file_name > MAX_AGENT_FILE_NAME_BYTES \<or>
         list_ex file_name_byte_rejected file_name \<or> file_name = ascii ''.'' \<or> file_name = ascii ''..''
      then decode_err InvalidValue 0 STR ''agent file name''
      else
      let metadata = ascii ''[vdagent-file-xfer]'' @ [10] @ ascii ''name='' @ file_name @ [10] @
                     ascii ''size='' @ decimal (unat file_size) @ [10] in
      Inr (u32_to_le_bytes transfer_id @ metadata @ [0]))"

definition encode_file_transfer_data :: "u32 \<Rightarrow> u8 list \<Rightarrow> u8 list decoded" where
  "encode_file_transfer_data transfer_id data =
     (if transfer_id = 0 then decode_err InvalidValue 0 STR ''agent file transfer id''
      else if length data > MAX_AGENT_FILE_CHUNK_BYTES
      then decode_err ResourceLimit (length data) STR ''agent file transfer data''
      else Inr (u32_to_le_bytes transfer_id @ u64_to_le_bytes (of_nat (length data)) @ data))"

record AgentFileTransferStatusMessage =
  ft_transfer_id :: u32
  ft_status :: AgentFileTransferStatus
  ft_detail :: "u8 list"

definition decode_file_transfer_status :: "u8 list \<Rightarrow> AgentFileTransferStatusMessage decoded" where
  "decode_file_transfer_status payload = decode_with payload
     (rd_then (Reader_u32 STR ''agent file transfer id'') (\<lambda>transfer_id.
      if transfer_id = 0 then rd_err InvalidValue 0 STR ''agent file transfer id''
      else
      rd_then (Reader_u32 STR ''agent file transfer status'') (\<lambda>code.
      rd_then (rd_lift (AgentFileTransferStatus_try_from code)) (\<lambda>status.
      rd_then Reader_remaining (\<lambda>remaining.
      rd_then (Reader_take remaining STR ''agent file transfer detail'') (\<lambda>detail.
      rd_return \<lparr>ft_transfer_id = transfer_id, ft_status = status, ft_detail = detail\<rparr>))))))"

definition encode_file_transfer_status :: "u32 \<Rightarrow> AgentFileTransferStatus \<Rightarrow> u8 list decoded" where
  "encode_file_transfer_status transfer_id status =
     (if transfer_id = 0 then decode_err InvalidValue 0 STR ''agent file transfer id''
      else Inr (u32_to_le_bytes transfer_id @ u32_to_le_bytes (AgentFileTransferStatus_code status)))"

datatype AgentFileTransferFailure =
    AgentFileTransferFailure_RemoteError (error_domain: "u8 option") (error_code: "u32 option")
  | AgentFileTransferFailure_NotEnoughSpace (available_bytes: "u64 option")
  | AgentFileTransferFailure_SessionLocked
  | AgentFileTransferFailure_AgentNotConnected
  | AgentFileTransferFailure_Disabled

definition require_empty_detail :: "u8 list \<Rightarrow> unit decoded" where
  "require_empty_detail detail =
     (if detail = [] then Inr ()
      else decode_err InvalidValue 0 STR ''agent file transfer status detail'')"

definition decode_file_transfer_failure ::
    "AgentFileTransferStatus \<Rightarrow> u8 list \<Rightarrow> AgentFileTransferFailure decoded" where
  "decode_file_transfer_failure status detail =
     (case status of
        AgentFileTransferStatus_RemoteError \<Rightarrow>
          if detail = [] then Inr (AgentFileTransferFailure_RemoteError None None)
          else if length detail \<noteq> 5
          then decode_err (size_error_kind (length detail) 5) (length detail)
                 STR ''agent file transfer remote error''
          else decode_with detail
           (rd_then (Reader_u8 STR ''agent file transfer error domain'') (\<lambda>error_domain.
            rd_then (Reader_u32 STR ''agent file transfer error code'') (\<lambda>error_code.
            rd_return (AgentFileTransferFailure_RemoteError (Some error_domain) (Some error_code)))))
      | AgentFileTransferStatus_NotEnoughSpace \<Rightarrow>
          if detail = [] then Inr (AgentFileTransferFailure_NotEnoughSpace None)
          else if length detail \<noteq> 8
          then decode_err (size_error_kind (length detail) 8) (length detail)
                 STR ''agent file transfer free space''
          else decode_with detail
           (rd_then (Reader_u64 STR ''agent file transfer free space'') (\<lambda>available_bytes.
            rd_return (AgentFileTransferFailure_NotEnoughSpace (Some available_bytes))))
      | AgentFileTransferStatus_SessionLocked \<Rightarrow>
          and_then (require_empty_detail detail) (\<lambda>_. Inr AgentFileTransferFailure_SessionLocked)
      | AgentFileTransferStatus_AgentNotConnected \<Rightarrow>
          and_then (require_empty_detail detail) (\<lambda>_. Inr AgentFileTransferFailure_AgentNotConnected)
      | AgentFileTransferStatus_Disabled \<Rightarrow>
          and_then (require_empty_detail detail) (\<lambda>_. Inr AgentFileTransferFailure_Disabled)
      | _ \<Rightarrow> decode_err InvalidValue 0 STR ''agent non-failure file transfer status'')"

section \<open>Audio volumes and graphics devices\<close>

record AgentAudioVolumeSync =
  av_is_playback :: bool
  av_muted :: bool
  av_volumes :: "u16 list"

definition decode_audio_volume_sync :: "u8 list \<Rightarrow> AgentAudioVolumeSync decoded" where
  "decode_audio_volume_sync payload = decode_with payload
     (rd_then (Reader_u8 STR ''agent audio direction'') (\<lambda>playback.
      rd_then (Reader_u8 STR ''agent audio mute'') (\<lambda>mute.
      rd_then (Reader_u8 STR ''agent audio channel count'') (\<lambda>count8.
      let channel_count = unat count8 in
      if playback > 1 \<or> mute > 1 \<or> channel_count = 0
      then rd_err InvalidValue 0 STR ''agent audio volume header''
      else if channel_count > MAX_AGENT_AUDIO_CHANNELS
      then rd_err ResourceLimit 2 STR ''agent audio channels''
      else
      rd_then (rd_lift (ok_or (DecodeError_new Overflow 3 STR ''agent audio volumes'')
                 (usize_checked_mul channel_count 2))) (\<lambda>expected_volume_bytes.
      rd_then Reader_offset (\<lambda>here.
      rd_then Reader_remaining (\<lambda>remaining.
      if remaining \<noteq> expected_volume_bytes
      then rd_err (size_error_kind remaining expected_volume_bytes) here STR ''agent audio volumes''
      else
      rd_then (rd_repeat channel_count (Reader_u16 STR ''agent audio volume'')) (\<lambda>volumes.
      rd_return \<lparr>av_is_playback = (playback \<noteq> 0), av_muted = (mute \<noteq> 0), av_volumes = volumes\<rparr>))))))))"

definition encode_audio_volume_sync :: "AgentAudioVolumeSync \<Rightarrow> u8 list decoded" where
  "encode_audio_volume_sync volume =
     (if av_volumes volume = [] then decode_err InvalidValue 0 STR ''agent audio channels''
      else if length (av_volumes volume) > MAX_AGENT_AUDIO_CHANNELS
      then decode_err ResourceLimit 0 STR ''agent audio channels''
      else
      and_then (ok_or (DecodeError_new Overflow 0 STR ''agent audio channel count'')
                 (if length (av_volumes volume) < 256 then Some (of_nat (length (av_volumes volume)))
                  else None)) (\<lambda>channel_count.
      Inr ([of_bool (av_is_playback volume), of_bool (av_muted volume), channel_count] @
           concat (map u16_to_le_bytes (av_volumes volume)))))"

record AgentDisplayDevice =
  dd_channel_id :: u32
  dd_monitor_id :: u32
  dd_device_display_id :: u32
  dd_device_address :: "u8 list"

record AgentGraphicsDeviceInfo =
  gd_displays :: "AgentDisplayDevice list"

definition read_display_device :: "AgentDisplayDevice reader_op" where
  "read_display_device =
     rd_then (Reader_u32 STR ''agent display channel id'') (\<lambda>channel_id.
     rd_then (Reader_u32 STR ''agent display monitor id'') (\<lambda>monitor_id.
     rd_then (Reader_u32 STR ''agent device display id'') (\<lambda>device_display_id.
     rd_then (Reader_u32 STR ''agent device address length'') (\<lambda>address_len.
     rd_then Reader_offset (\<lambda>here.
     let address_bytes = unat address_len in
     if address_bytes = 0 \<or> address_bytes > MAX_AGENT_DEVICE_ADDRESS_BYTES
     then rd_err (if address_bytes = 0 then InvalidValue else ResourceLimit) here
            STR ''agent device address''
     else
     rd_then (Reader_take address_bytes STR ''agent device address'') (\<lambda>address.
     if \<not> nul_terminated address
     then rd_err InvalidValue here STR ''agent device address terminator''
     else
     rd_then (rd_lift (slice_index address 0 (length address - 1))) (\<lambda>prefix.
     rd_then (rd_lift (ok_or (DecodeError_new InvalidValue here STR ''agent device address UTF-8'')
                (from_utf8 prefix))) (\<lambda>address.
     rd_return \<lparr>dd_channel_id = channel_id, dd_monitor_id = monitor_id,
                dd_device_display_id = device_display_id, dd_device_address = address\<rparr>))))))))"

definition decode_graphics_device_info :: "u8 list \<Rightarrow> AgentGraphicsDeviceInfo decoded" where
  "decode_graphics_device_info payload = decode_with payload
     (rd_then (Reader_u32 STR ''agent display device count'') (\<lambda>count32.
      let display_count = unat count32 in
      if display_count > MAX_AGENT_DISPLAY_DEVICES
      then rd_err ResourceLimit 0 STR ''agent display devices''
      else
      rd_then (rd_repeat display_count read_display_device) (\<lambda>displays.
      rd_then Reader_offset (\<lambda>here.
      rd_then Reader_remaining (\<lambda>remaining.
      if remaining \<noteq> 0
      then rd_err InvalidValue here STR ''agent graphics device trailing data''
      else rd_return \<lparr>gd_displays = displays\<rparr>)))))"

section \<open>Panic freedom\<close>

lemma no_panic_decode_selection [no_panic_intros]: "no_panic (decode_selection payload supported)"
  by (auto simp: decode_selection_def intro!: no_panic_intros split: list.splits)

lemma u32_count: "0 < n \<Longrightarrow> (n + 3) div 4 = Suc ((n - 4 + 3) div 4)" for n :: nat
proof (cases "n \<le> 4")
  case False
  then obtain m where "n = 4 + m" by (metis nat_le_linear le_Suc_ex)
  then show ?thesis by (simp add: div_add_self1 add.assoc)
qed (auto intro!: div_nat_eqI)

text \<open>The \<open>while\<close> loop is the counted loop over the words that are left.\<close>

lemma read_u32s_to_end_repeat:
  "reader_ok r \<Longrightarrow> read_u32s_to_end ctx r =
     rd_repeat ((length (rd_input r) - rd_offset r + 3) div 4) (Reader_u32 ctx) r"
proof (induction "length (rd_input r) - rd_offset r" arbitrary: r rule: less_induct)
  case less
  let ?n = "length (rd_input r) - rd_offset r"
  have rem: "Reader_remaining r = Inr (?n, r)"
    using less.prems by (simp add: Reader_remaining_def reader_ok_def)
  show ?case
  proof (cases "?n = 0")
    case True
    then show ?thesis by (subst read_u32s_to_end.simps) (simp add: rem rd_return_def)
  next
    case False
    have "read_u32s_to_end ctx r' =
        rd_repeat ((?n - 4 + 3) div 4) (Reader_u32 ctx) r'"
      if u: "Reader_u32 ctx r = Inr (w, r')" for w r'
    proof -
      have r': "r' = r\<lparr>rd_offset := rd_offset r + 4\<rparr>" and "rd_offset r + 4 \<le> length (rd_input r)"
        using u by (auto simp: Reader_u32_def)
      with less.hyps [of r'] False show ?thesis by (auto simp: reader_ok_def diff_diff_left)
    qed
    then show ?thesis
      using False u32_count [of ?n]
      by (subst read_u32s_to_end.simps) (auto simp: rem rd_then_def rd_return_def intro!: and_then_cong)
  qed
qed

lemma safe_reader_eqI:
  assumes "\<And>r. reader_ok r \<Longrightarrow> \<exists>m'. safe_reader m' \<and> m r = m' r"
  shows "safe_reader m"
proof
  fix r assume r: "reader_ok r"
  from assms [OF r] obtain m' where m': "safe_reader m'" and eq: "m r = m' r" by blast
  show "no_panic (m r)" unfolding eq by (rule safe_reader.op_no_panic [OF m' r])
  fix x r' assume s: "m r = Inr (x, r')"
  note s' = s [unfolded eq]
  show "rd_input r' = rd_input r" "rd_offset r \<le> rd_offset r'" "reader_ok r'"
    by (fact safe_reader.op_input [OF m' r s'] safe_reader.op_forward [OF m' r s']
        safe_reader.op_inside [OF m' r s'])+
qed

lemma safe_reader_u32s_to_end [safe_reader_intros]: "safe_reader (read_u32s_to_end ctx)"
  by (rule safe_reader_eqI) (metis read_u32s_to_end_repeat safe_reader_repeat safe_reader_widths(2))

lemma no_panic_AgentCapabilities_decode [no_panic_intros]: "no_panic (AgentCapabilities_decode payload)"
  unfolding AgentCapabilities_decode_def by (intro no_panic_intros safe_reader_intros)

lemma no_panic_decode_clipboard_grab [no_panic_intros]: "no_panic (decode_clipboard_grab payload sel ser)"
  unfolding decode_clipboard_grab_def by (intro no_panic_intros safe_reader_intros)

lemma no_panic_decode_clipboard_request [no_panic_intros]: "no_panic (decode_clipboard_request payload sel)"
  unfolding decode_clipboard_request_def by (intro no_panic_intros safe_reader_intros)

lemma no_panic_decode_clipboard_data [no_panic_intros]: "no_panic (decode_clipboard_data payload sel)"
  unfolding decode_clipboard_data_def by (intro no_panic_intros safe_reader_intros)

lemma no_panic_decode_clipboard_release [no_panic_intros]: "no_panic (decode_clipboard_release payload sel)"
  unfolding decode_clipboard_release_def by (intro no_panic_intros safe_reader_intros)

lemma no_panic_decode_file_transfer_status [no_panic_intros]: "no_panic (decode_file_transfer_status payload)"
  unfolding decode_file_transfer_status_def by (intro no_panic_intros safe_reader_intros)

lemma no_panic_decode_audio_volume_sync [no_panic_intros]: "no_panic (decode_audio_volume_sync payload)"
  unfolding decode_audio_volume_sync_def by (intro no_panic_intros safe_reader_intros)

lemma no_panic_decode_file_paths [no_panic_intros]: "no_panic (decode_file_paths n paths fs)"
  by (induction n paths fs rule: decode_file_paths.induct) (auto intro!: no_panic_intros)

lemma no_panic_decode_clipboard_file_list [no_panic_intros]:
  "no_panic (decode_clipboard_file_list payload)"
  unfolding decode_clipboard_file_list_def
  by (auto intro!: no_panic_intros split: list.splits)

lemma no_panic_decode_file_transfer_failure [no_panic_intros]:
  "no_panic (decode_file_transfer_failure status detail)"
  by (auto simp: decode_file_transfer_failure_def require_empty_detail_def
      intro!: no_panic_intros safe_reader_intros split: AgentFileTransferStatus.splits)

lemma safe_reader_display_device [safe_reader_intros]: "safe_reader read_display_device"
  unfolding read_display_device_def
  by (auto intro!: safe_reader_intros no_panic_intros)

lemma no_panic_decode_graphics_device_info [no_panic_intros]:
  "no_panic (decode_graphics_device_info payload)"
  unfolding decode_graphics_device_info_def by (intro no_panic_intros safe_reader_intros)

section \<open>Capability announcements are canonical\<close>

lemma AgentCapabilities_decode_encode:
  assumes "length (words (ac_capabilities c)) \<le> 16"
  shows "AgentCapabilities_decode (AgentCapabilities_encode c) = Inr c"
proof -
  let ?ws = "words (ac_capabilities c)"
  have "rd_repeat (length ?ws) (Reader_le 4 ctx) (reader_at (to_le 4 (b :: u32)) (concat (map (to_le 4) ?ws))) =
      Inr (?ws, reader_at (to_le 4 b @ concat (map (to_le 4) ?ws)) [])" for ctx b
    using rd_repeat_le_at [of 4 "to_le 4 b" ?ws ctx "[]"] assms by simp
  then show ?thesis
    using assms
    by (cases c, cases "ac_capabilities c", cases "ac_request_reply c")
       (auto simp: AgentCapabilities_decode_def AgentCapabilities_encode_def decode_with_at reader_width
         reader_simps Let_def CapabilitySet_from_words_def)
qed

lemma AgentCapabilities_decode_Inr:
  assumes "AgentCapabilities_decode payload = Inr c"
  shows "length (words (ac_capabilities c)) \<le> 16 \<and> payload = AgentCapabilities_encode c"
proof -
  let ?n = "length payload div 4 - 1" and ?q = "from_le (take 4 payload) :: u32"
  obtain ws r' where len: "4 \<le> length payload" "length payload mod 4 = 0" "?n \<le> 16"
    and q: "\<not> 1 < ?q"
    and rep: "rd_repeat ?n (Reader_le 4 STR ''agent capability word'')
                ((Reader_new payload)\<lparr>rd_offset := 4\<rparr>) = Inr (ws, r')"
    and c: "c = \<lparr>ac_request_reply = (?q \<noteq> 0), ac_capabilities = CapabilitySet_from_words ws\<rparr>"
    using assms
    by (auto simp: AgentCapabilities_decode_def Let_def reader_width not_less split: if_splits)
  have n: "4 * ?n = length payload - 4" using len by (auto simp: algebra_simps)
  from rd_repeat_le_Inr [OF _ rep] n have ws: "concat (map (to_le 4) ws) = drop 4 payload" "length ws = ?n"
    by simp_all
  have "?q = 0 \<or> ?q = 1" using q by (auto simp: not_less word_le_nat_alt word_unat_eq_iff)
  then have "of_bool (?q \<noteq> 0) = ?q" by auto
  then have "to_le 4 (of_bool (?q \<noteq> 0) :: u32) = take 4 payload"
    using to_le_from_le [of "take 4 payload" 4, where 'a = 32] len by simp
  with c ws len show ?thesis
    by (simp add: AgentCapabilities_encode_def CapabilitySet_from_words_def)
qed

text \<open>\<open>AgentCapabilities::decode\<close> accepts exactly the encodings of announcements of at most sixteen
  capability words, and returns the announcement that was encoded.\<close>

theorem agent_capabilities_canonical:
  "AgentCapabilities_decode payload = Inr c \<longleftrightarrow>
     length (words (ac_capabilities c)) \<le> MAX_CAPABILITY_WORDS \<and> payload = AgentCapabilities_encode c"
  using AgentCapabilities_decode_encode AgentCapabilities_decode_Inr by auto

section \<open>Clipboard messages round trip\<close>

lemma decode_selection_encode:
  assumes "supported \<or> selection = AgentClipboardSelection_Clipboard"
  shows "decode_selection (encode_selection selection supported @ rest) supported = Inr (selection, rest)"
  using assms
  by (auto simp: decode_selection_def encode_selection_def slice_get_def slice_index_def
      clipboard_selection.try_from_code)

lemma decode_with_u32s:
  assumes "length ws \<le> 64" and "length pre \<le> 8"
  shows "read_u32s_to_end ctx (reader_at pre (concat (map (to_le 4) ws))) =
           Inr (ws, reader_at (pre @ concat (map (to_le 4) ws)) [])"
proof -
  have "(4 * length ws + 3) div 4 = length ws" by simp
  then show ?thesis
    using rd_repeat_le_at [of 4 pre ws ctx "[]"] assms
    by (subst read_u32s_to_end_repeat) (simp_all add: reader_ok_def reader_width)
qed

lemmas clipboard_codec_defs =
  decode_clipboard_grab_def encode_clipboard_grab_def decode_clipboard_request_def
  encode_clipboard_request_def decode_clipboard_data_def encode_clipboard_data_def
  decode_clipboard_release_def encode_clipboard_release_def

lemma concat_map_code:
  "concat (map (\<lambda>t. u32_to_le_bytes (AgentClipboardType_code t)) types) =
     concat (map (to_le 4) (map AgentClipboardType_code types))"
  by (simp add: comp_def)

lemma grab_round_trip:
  assumes "encode_clipboard_grab selection serial types supported = Inr bytes"
  shows "decode_clipboard_grab bytes supported (serial \<noteq> None) =
     Inr \<lparr>cg_selection = selection, cg_serial = serial, cg_types = map AgentClipboardType_code types\<rparr>"
proof -
  let ?ws = "map AgentClipboardType_code types"
  let ?serial = "case serial of None \<Rightarrow> [] | Some serial \<Rightarrow> u32_to_le_bytes serial"
  have sel: "supported \<or> selection = AgentClipboardSelection_Clipboard" and types: "types \<noteq> []" "length types \<le> 64"
    and b: "bytes = encode_selection selection supported @ ?serial @ concat (map (to_le 4) ?ws)"
    using assms by (auto simp: encode_clipboard_grab_def concat_map_code split: if_splits)
  have "read_u32s_to_end ctx (reader_at pre (concat (map (to_le 4) ?ws))) =
      Inr (?ws, reader_at (pre @ concat (map (to_le 4) ?ws)) [])" if "length pre \<le> 8" for ctx pre
    using decode_with_u32s [of ?ws pre ctx] types that by simp
  then show ?thesis
    unfolding b using types
    by (cases serial)
       (auto simp: decode_clipboard_grab_def decode_selection_encode [OF sel] decode_with_at
         reader_width reader_simps simp del: map_map)
qed

lemma request_round_trip:
  assumes "encode_clipboard_request selection clipboard_type supported = Inr bytes"
  shows "decode_clipboard_request bytes supported =
     Inr \<lparr>cr_selection = selection, cr_clipboard_type = AgentClipboardType_code clipboard_type\<rparr>"
proof -
  have sel: "supported \<or> selection = AgentClipboardSelection_Clipboard"
    and b: "bytes = encode_selection selection supported @ to_le 4 (AgentClipboardType_code clipboard_type)"
    using assms by (auto simp: encode_clipboard_request_def split: if_splits)
  show ?thesis
    by (simp add: b decode_clipboard_request_def decode_selection_encode [OF sel] decode_with_at
        reader_width reader_simps)
qed

lemma data_round_trip:
  assumes "encode_clipboard_data selection clipboard_type payload supported = Inr bytes"
    and "length bytes < usize_limit"
  shows "decode_clipboard_data bytes supported =
     Inr \<lparr>cd_selection = selection, cd_clipboard_type = AgentClipboardType_code clipboard_type,
          cd_data = payload\<rparr>"
  using assms
  by (auto simp: decode_clipboard_data_def encode_clipboard_data_def decode_selection_encode
      decode_with_at reader_width reader_simps split: if_splits)

lemma release_round_trip:
  assumes "encode_clipboard_release selection supported = Inr bytes"
  shows "decode_clipboard_release bytes supported = Inr selection"
  using assms decode_selection_encode [of supported selection "[]"]
  by (auto simp: decode_clipboard_release_def encode_clipboard_release_def split: if_splits)

text \<open>Under every negotiated combination of the selection and serial capabilities, each clipboard
  message that an encoder accepts is decoded to the selection, serial, types and data that were
  encoded.\<close>

theorem clipboard_round_trip:
  assumes "encode_clipboard_grab selection serial types supported = Inr grab"
    and "encode_clipboard_request selection clipboard_type supported = Inr request"
    and "encode_clipboard_data selection clipboard_type content supported = Inr sent"
    and "encode_clipboard_release selection supported = Inr release"
    and "length sent < usize_limit"
  shows "decode_clipboard_grab grab supported (serial \<noteq> None) =
           Inr \<lparr>cg_selection = selection, cg_serial = serial,
                cg_types = map AgentClipboardType_code types\<rparr> \<and>
         decode_clipboard_request request supported =
           Inr \<lparr>cr_selection = selection, cr_clipboard_type = AgentClipboardType_code clipboard_type\<rparr> \<and>
         decode_clipboard_data sent supported =
           Inr \<lparr>cd_selection = selection, cd_clipboard_type = AgentClipboardType_code clipboard_type,
                cd_data = content\<rparr> \<and>
         decode_clipboard_release release supported = Inr selection"
  by (intro conjI grab_round_trip request_round_trip data_round_trip release_round_trip assms)

theorem clipboard_round_trip_witness:
  "\<exists>grab. encode_clipboard_grab AgentClipboardSelection_Primary (Some 7) [AgentClipboardType_Utf8Text] True =
       Inr grab \<and>
     decode_clipboard_grab grab True True =
       Inr \<lparr>cg_selection = AgentClipboardSelection_Primary, cg_serial = Some 7, cg_types = [1]\<rparr>"
proof -
  let ?s = AgentClipboardSelection_Primary and ?t = AgentClipboardType_Utf8Text
  obtain grab request sent release where
    "encode_clipboard_grab ?s (Some 7) [?t] True = Inr grab"
    "encode_clipboard_request ?s ?t True = Inr request"
    "encode_clipboard_data ?s ?t [65] True = Inr sent"
    "encode_clipboard_release ?s True = Inr release" "length sent < usize_limit"
    by (simp add: clipboard_codec_defs encode_selection_def)
  with clipboard_round_trip [of ?s "Some 7" "[?t]" True grab ?t request "[65]" sent release]
  show ?thesis by auto
qed

section \<open>File lists are canonical\<close>

lemma split_on_not_Nil [simp]: "split_on sep xs \<noteq> []"
  by (cases xs) auto

lemma split_on_join: "concat (map (\<lambda>f. f @ [sep]) (split_on sep xs)) = xs @ [sep]"
proof (induction xs)
  case (Cons x xs)
  obtain f fs where "split_on sep xs = f # fs" by (meson neq_Nil_conv split_on_not_Nil)
  with Cons show ?case by auto
qed simp

lemma split_on_fields: "f \<in> set (split_on sep xs) \<Longrightarrow> sep \<notin> set f"
proof (induction xs arbitrary: f)
  case (Cons x xs)
  obtain g fs where "split_on sep xs = g # fs" by (meson neq_Nil_conv split_on_not_Nil)
  with Cons show ?case by (auto split: if_splits)
qed simp

lemma split_on_single: "sep \<notin> set f \<Longrightarrow> split_on sep f = [f]"
  by (induction f) auto

lemma split_on_append: "sep \<notin> set f \<Longrightarrow> split_on sep (f @ sep # xs) = f # split_on sep xs"
  by (induction f) auto

lemma split_on_concat:
  "list_all (\<lambda>f. sep \<notin> set f) fs \<Longrightarrow> fs \<noteq> [] \<Longrightarrow> concat (map (\<lambda>f. f @ [sep]) fs) = xs @ [sep] \<Longrightarrow>
     split_on sep xs = fs"
proof (induction fs arbitrary: xs)
  case (Cons f fs)
  show ?case
  proof (cases "fs = []")
    case True
    with Cons show ?thesis by (simp add: split_on_single)
  next
    case False
    then obtain ys where ys: "concat (map (\<lambda>f. f @ [sep]) fs) = ys @ [sep]"
      by (cases fs rule: rev_cases) auto
    with Cons.prems have "xs = f @ sep # ys" by simp
    with Cons ys False show ?thesis by (simp add: split_on_append)
  qed
qed simp

definition path_ok :: "u8 list \<Rightarrow> bool" where
  "path_ok path \<longleftrightarrow> path \<noteq> [] \<and> path_starts_with_slash path \<and> utf8_valid path"

lemma decode_file_paths_Inr:
  "length paths \<le> 1024 \<Longrightarrow> decode_file_paths n paths fs = Inr out \<longleftrightarrow>
     out = paths @ fs \<and> list_all path_ok fs \<and> length paths + length fs \<le> 1024"
  by (induction n paths fs rule: decode_file_paths.induct) (auto simp: path_ok_def)

lemma file_list_bytes_Inr:
  "(\<exists>t. file_list_bytes n paths = Inr t) \<longleftrightarrow>
     list_all (\<lambda>p. p \<noteq> [] \<and> path_starts_with_slash p \<and> 0 \<notin> set p) paths \<and>
     (paths \<noteq> [] \<longrightarrow> n + length (concat (map (\<lambda>p. p @ [0]) paths)) < usize_limit)"
proof (induction paths arbitrary: n)
  case (Cons p paths)
  then show ?case by (cases "paths = []") (auto simp: add.assoc)
qed simp

definition action_bytes :: "AgentClipboardFileAction \<Rightarrow> u8 list" where
  "action_bytes a = (case a of AgentClipboardFileAction_Copy \<Rightarrow> ascii ''copy''
                     | AgentClipboardFileAction_Cut \<Rightarrow> ascii ''cut'')"

lemma action_bytes_no_nul: "0 \<notin> set (action_bytes a)"
  by (cases a) (auto simp: action_bytes_def ascii_def)

lemma action_bytes_iff:
  "(if first = ascii ''copy'' then Inr AgentClipboardFileAction_Copy
    else if first = ascii ''cut'' then Inr AgentClipboardFileAction_Cut
    else decode_err InvalidValue 0 ctx) = Inr a \<longleftrightarrow> first = action_bytes a"
  by (cases a) (auto simp: action_bytes_def ascii_def)

lemma encode_file_list_Inr:
  "encode_clipboard_file_list fl = Inr payload \<longleftrightarrow>
     fl_paths fl \<noteq> [] \<and> length (fl_paths fl) \<le> 1024 \<and>
     list_all (\<lambda>p. p \<noteq> [] \<and> path_starts_with_slash p \<and> 0 \<notin> set p) (fl_paths fl) \<and>
     payload = concat (map (\<lambda>f. f @ [0]) (action_bytes (fl_action fl) # fl_paths fl)) \<and>
     length payload < usize_limit"
  using file_list_bytes_Inr [of "length (action_bytes (fl_action fl)) + 1" "fl_paths fl"]
  by (auto simp: encode_clipboard_file_list_def action_bytes_def [symmetric] Let_def)

lemma decode_file_list_Inr:
  "decode_clipboard_file_list payload = Inr fl \<longleftrightarrow>
     (\<exists>xs. payload = xs @ [0] \<and> split_on 0 xs = action_bytes (fl_action fl) # fl_paths fl) \<and>
     fl_paths fl \<noteq> [] \<and> list_all path_ok (fl_paths fl) \<and> length (fl_paths fl) \<le> 1024"
proof (cases payload rule: rev_cases)
  case (snoc xs x)
  obtain first more_fields where s: "split_on 0 xs = first # more_fields" by (meson neq_Nil_conv split_on_not_Nil)
  have "slice_index payload 0 (length payload - 1) = (Inr xs :: u8 list decoded)"
    by (simp add: snoc slice_index_def slice_get_def)
  with snoc s show ?thesis
    by (cases fl) (auto simp: decode_clipboard_file_list_def action_bytes_iff decode_file_paths_Inr)
qed (simp add: decode_clipboard_file_list_def)

text \<open>The file-list codec is canonical: a payload is decoded to a list exactly when encoding that list
  gives the payload back, and then every path is absolute, free of NUL bytes and valid UTF-8.\<close>

theorem clipboard_file_list_canonical:
  assumes "length payload < usize_limit"
  shows "decode_clipboard_file_list payload = Inr fl \<longleftrightarrow>
         encode_clipboard_file_list fl = Inr payload \<and> list_all utf8_valid (fl_paths fl)"
    (is "?dec \<longleftrightarrow> ?enc")
proof
  assume ?dec
  then obtain xs where xs: "payload = xs @ [0]" "split_on 0 xs = action_bytes (fl_action fl) # fl_paths fl"
    and p: "fl_paths fl \<noteq> []" "list_all path_ok (fl_paths fl)" "length (fl_paths fl) \<le> 1024"
    unfolding decode_file_list_Inr by blast
  moreover have "0 \<notin> set f" if "f \<in> set (fl_paths fl)" for f
    using split_on_fields [of f 0 xs] xs(2) that by simp
  ultimately show ?enc
    using split_on_join [of 0 xs] assms
    by (auto simp: encode_file_list_Inr list_all_iff path_ok_def)
next
  assume ?enc
  then have e: "payload = concat (map (\<lambda>f. f @ [0]) (action_bytes (fl_action fl) # fl_paths fl))"
    and p: "fl_paths fl \<noteq> []" "length (fl_paths fl) \<le> 1024" "list_all utf8_valid (fl_paths fl)"
      "list_all (\<lambda>p. p \<noteq> [] \<and> path_starts_with_slash p \<and> 0 \<notin> set p) (fl_paths fl)"
    unfolding encode_file_list_Inr by blast+
  obtain xs where xs: "payload = xs @ [0]"
    using e p(1) by (cases "fl_paths fl" rule: rev_cases) auto
  have "split_on 0 xs = action_bytes (fl_action fl) # fl_paths fl"
    by (rule split_on_concat) (use e p xs action_bytes_no_nul in \<open>auto simp: list_all_iff\<close>)
  with xs p show ?dec
    unfolding decode_file_list_Inr by (auto simp: list_all_iff path_ok_def)
qed

theorem clipboard_file_list_canonical_witness:
  "decode_clipboard_file_list (ascii ''cut'' @ [0, 47, 97, 0]) =
     Inr \<lparr>fl_action = AgentClipboardFileAction_Cut, fl_paths = [[47, 97]]\<rparr>"
  using clipboard_file_list_canonical [of "ascii ''cut'' @ [0, 47, 97, 0]"
      "\<lparr>fl_action = AgentClipboardFileAction_Cut, fl_paths = [[47, 97]]\<rparr>"]
  by (simp add: encode_clipboard_file_list_def path_starts_with_slash_def ascii_def)

section \<open>File transfer headers\<close>

definition decimal_value :: "u8 list \<Rightarrow> nat" where
  "decimal_value ds = foldl (\<lambda>v d. 10 * v + (unat d - 48)) 0 ds"

lemma unat_digit: "d < 10 \<Longrightarrow> unat (48 + of_nat d :: u8) = 48 + d"
  by (simp add: unat_word_ariths unat_of_nat)

lemma decimal_digits: "b \<in> set (decimal n) \<Longrightarrow> 48 \<le> unat b \<and> unat b \<le> 57"
proof (induction n arbitrary: b rule: decimal.induct)
  case (1 n)
  show ?case
  proof (cases "n < 10")
    case True
    with "1.prems" show ?thesis by (subst (asm) decimal.simps) (auto simp: unat_digit)
  next
    case False
    with "1.prems" have "b \<in> set (decimal (n div 10)) \<or> b = 48 + of_nat (n mod 10)"
      by (subst (asm) decimal.simps) auto
    with "1.IH" [OF False] show ?thesis using unat_digit [of "n mod 10"] by auto
  qed
qed

lemma decimal_value_decimal [simp]: "decimal_value (decimal n) = n"
proof (induction n rule: decimal.induct)
  case (1 n)
  show ?case
  proof (cases "n < 10")
    case True
    then show ?thesis by (subst decimal.simps) (simp add: decimal_value_def unat_digit)
  next
    case False
    with "1.IH" [OF False] show ?thesis
      by (subst decimal.simps) (simp add: decimal_value_def unat_digit)
  qed
qed

text \<open>C38: the key file that starts a file transfer cannot be forged through the file name: an accepted
  header has exactly the three lines of the group, the name and the size, is closed by its only NUL
  byte, reads back to the given name and size, and names no directory.\<close>

theorem file_transfer_start_unforgeable:
  assumes "encode_file_transfer_start transfer_id file_name file_size = Inr bytes"
  shows "\<exists>body. bytes = u32_to_le_bytes transfer_id @ body @ [0] \<and> 0 \<notin> set body \<and>
     split_on 10 body = [ascii ''[vdagent-file-xfer]'', ascii ''name='' @ file_name,
                         ascii ''size='' @ decimal (unat file_size), []] \<and>
     split_on 61 (ascii ''name='' @ file_name) = [ascii ''name'', file_name] \<and>
     decimal_value (decimal (unat file_size)) = unat file_size \<and>
     transfer_id \<noteq> 0 \<and> file_name \<notin> {[], ascii ''.'', ascii ''..''} \<and> 47 \<notin> set file_name \<and> 92 \<notin> set file_name"
proof -
  let ?d = "decimal (unat file_size)"
  let ?body = "ascii ''[vdagent-file-xfer]'' @ 10 # ascii ''name='' @ file_name @ 10 # ascii ''size='' @ ?d @ [10]"
  have n: "0 \<notin> set file_name" "10 \<notin> set file_name" "61 \<notin> set file_name" "47 \<notin> set file_name" "92 \<notin> set file_name"
    and b: "bytes = to_le 4 transfer_id @ ?body @ [0]"
    and rest: "transfer_id \<noteq> 0" "file_name \<notin> {[], ascii ''.'', ascii ''..''}"
    using assms by (auto simp: encode_file_transfer_start_def Let_def list_ex_iff file_name_byte_rejected_def
        split: if_splits)
  have d: "0 \<notin> set ?d" "10 \<notin> set ?d" using decimal_digits [of _ "unat file_size"] by fastforce+
  have a: "10 \<notin> set (ascii ''[vdagent-file-xfer]'')" "10 \<notin> set (ascii ''name='')"
    "10 \<notin> set (ascii ''size='')" by (simp_all add: ascii_def)
  have "split_on 10 ?body = [ascii ''[vdagent-file-xfer]'', ascii ''name='' @ file_name, ascii ''size='' @ ?d, []]"
    using a n d split_on_append [of 10 "ascii ''name='' @ file_name"] split_on_append [of 10 "ascii ''size='' @ ?d" "[]"]
    by (simp add: split_on_append)
  moreover have "0 \<notin> set ?body" using n d by (simp add: ascii_def)
  moreover have "split_on 61 (ascii ''name='' @ file_name) = [ascii ''name'', file_name]"
    using n split_on_single [of 61 file_name] by (simp add: ascii_def)
  ultimately show ?thesis using n b rest by (intro exI [of _ ?body]) auto
qed

theorem file_transfer_start_unforgeable_witness:
  "\<exists>body. encode_file_transfer_start 1 (ascii ''a.txt'') 7 = Inr (u32_to_le_bytes 1 @ body @ [0]) \<and>
     split_on 10 body = [ascii ''[vdagent-file-xfer]'', ascii ''name=a.txt'', ascii ''size=7'', []]"
proof -
  have seven: "decimal 7 = [55]" by (simp add: decimal.simps)
  obtain bytes where b: "encode_file_transfer_start 1 (ascii ''a.txt'') 7 = Inr bytes"
    by (simp add: encode_file_transfer_start_def ascii_def file_name_byte_rejected_def)
  from file_transfer_start_unforgeable [OF b] b show ?thesis
    by (auto simp: ascii_def seven)
qed

section \<open>Audio volumes are canonical\<close>

lemma audio_volume_decode_encode:
  assumes "encode_audio_volume_sync v = Inr bytes"
  shows "decode_audio_volume_sync bytes = Inr v"
proof -
  let ?n = "length (av_volumes v)"
  have n: "0 < ?n" "?n \<le> 32" and b: "bytes = [of_bool (av_is_playback v), of_bool (av_muted v), of_nat ?n] @
      concat (map (to_le 2) (av_volumes v))"
    using assms by (auto simp: encode_audio_volume_sync_def split: if_splits)
  have u: "unat (of_nat ?n :: u8) = ?n" using n by (simp add: unat_of_nat)
  have "rd_repeat ?n (Reader_le 2 ctx) (reader_at [x, y, z] (concat (map (to_le 2) (av_volumes v)))) =
      Inr (av_volumes v, reader_at ([x, y, z] @ concat (map (to_le 2) (av_volumes v))) [])" for ctx x y z
    using rd_repeat_le_at [of 2 "[x, y, z]" "av_volumes v" ctx "[]"] n by simp
  with n u show ?thesis
    unfolding b
    by (cases v) (auto simp: decode_audio_volume_sync_def decode_with_at reader_width reader_simps Let_def)
qed

lemma u8_flag: "\<not> (b :: u8) > 1 \<Longrightarrow> of_bool (b \<noteq> 0) = b"
  by (auto simp: not_less word_le_nat_alt word_unat_eq_iff)

lemma audio_volume_decode_Inr:
  assumes "decode_audio_volume_sync bytes = Inr v"
  shows "encode_audio_volume_sync v = Inr bytes"
proof -
  obtain p m c rest where bytes: "bytes = p # m # c # rest"
    using assms by (cases bytes; cases "tl bytes"; cases "tl (tl bytes)")
      (auto simp: decode_audio_volume_sync_def)
  with assms obtain ws r' where f: "\<not> p > 1" "\<not> m > 1" "0 < unat c" "unat c \<le> 32" "length rest = unat c * 2"
    and rep: "rd_repeat (unat c) (Reader_le 2 STR ''agent audio volume'')
        ((Reader_new bytes)\<lparr>rd_offset := 3\<rparr>) = Inr (ws, r')"
    and v: "v = \<lparr>av_is_playback = (p \<noteq> 0), av_muted = (m \<noteq> 0), av_volumes = ws\<rparr>"
    by (auto simp: decode_audio_volume_sync_def Let_def reader_width numeral_3_eq_3 split: if_splits)
  from rd_repeat_le_Inr [OF _ rep] bytes f
  have "concat (map (to_le 2) ws) = rest" "length ws = unat c" by simp_all
  with f v bytes show ?thesis
    by (auto simp: encode_audio_volume_sync_def u8_flag)
qed

interpretation audio_volume: wire_codec encode_audio_volume_sync decode_audio_volume_sync
  by unfold_locales (auto intro: audio_volume_decode_encode audio_volume_decode_Inr no_panic_intros)

interpretation agent_capabilities: wire_codec
    "\<lambda>c. if length (words (ac_capabilities c)) \<le> 16 then Inr (AgentCapabilities_encode c)
         else decode_err ResourceLimit 4 STR ''agent capability words''"
    AgentCapabilities_decode
  by unfold_locales
     (auto simp: AgentCapabilities_decode_encode dest: AgentCapabilities_decode_Inr
       intro: no_panic_intros split: if_splits)

text \<open>The audio volume codec is canonical: a payload decodes to an update exactly when encoding the
  update gives the payload, so trailing bytes, zero channels and out-of-range flags are rejected.\<close>

theorem audio_volume_canonical:
  "decode_audio_volume_sync payload = Inr v \<longleftrightarrow> encode_audio_volume_sync v = Inr payload"
  using audio_volume_decode_encode audio_volume_decode_Inr by blast

end
