(* ===== verification/Spice_Peripherals.thy ===== *)
theory Spice_Peripherals
  imports Spice_Channel
begin

text \<open>
  The wire types of the peripheral channels: Inputs (\<open>inputs.rs\<close>), Port and WebDAV (\<open>port.rs\<close>), the
  compressed SpiceVMC envelope (\<open>spicevmc.rs\<close>), Smartcard (\<open>smartcard.rs\<close>), Playback (\<open>playback.rs\<close>)
  and Record (\<open>record.rs\<close>).

  Smartcard messages and compressed envelopes are canonical codecs; accepted port names are bounded
  NUL-free text; accepted audio formats have a frame size of 2 to 64 bytes, so the frame arithmetic
  of the clients cannot overflow or divide by zero.
\<close>

section \<open>Inputs (inputs.rs)\<close>

definition INPUT_MOTION_ACK_BUNCH :: u32 where [simp]: "INPUT_MOTION_ACK_BUNCH = 4"

record KeyboardModifiers =
  km_bits :: u16

definition KeyboardModifiers_KNOWN_BITS :: u16 where [simp]: "KeyboardModifiers_KNOWN_BITS = 7"

definition KeyboardModifiers_from_bits :: "u16 \<Rightarrow> KeyboardModifiers decoded" where
  "KeyboardModifiers_from_bits bits =
     (if bits AND NOT KeyboardModifiers_KNOWN_BITS \<noteq> 0
      then decode_err InvalidValue 0 STR ''keyboard modifier flags''
      else Inr \<lparr>km_bits = bits\<rparr>)"

definition KeyboardModifiers_decode :: "u8 list \<Rightarrow> KeyboardModifiers decoded" where
  "KeyboardModifiers_decode body =
     (if length body \<noteq> 2
      then decode_err (size_error_kind (length body) 2) (length body) STR ''keyboard modifiers''
      else and_then (decode_with body (Reader_u16 STR ''keyboard modifiers''))
             KeyboardModifiers_from_bits)"

record MouseButtons =
  mb_bits :: u16

definition MouseButtons_KNOWN_BITS :: u16 where [simp]: "MouseButtons_KNOWN_BITS = 127"

definition MouseButtons_from_bits :: "u16 \<Rightarrow> MouseButtons option" where
  "MouseButtons_from_bits bits =
     (if bits AND NOT MouseButtons_KNOWN_BITS = 0 then Some \<lparr>mb_bits = bits\<rparr> else None)"

datatype MouseButton =
    MouseButton_Left | MouseButton_Middle | MouseButton_Right | MouseButton_WheelUp
  | MouseButton_WheelDown | MouseButton_Side | MouseButton_Extra

primrec MouseButton_code :: "MouseButton \<Rightarrow> u8" where
  "MouseButton_code MouseButton_Left = 1"
| "MouseButton_code MouseButton_Middle = 2"
| "MouseButton_code MouseButton_Right = 3"
| "MouseButton_code MouseButton_WheelUp = 4"
| "MouseButton_code MouseButton_WheelDown = 5"
| "MouseButton_code MouseButton_Side = 6"
| "MouseButton_code MouseButton_Extra = 7"

definition encode_key_code :: "u32 \<Rightarrow> u8 list" where
  "encode_key_code code = u32_to_le_bytes code"

definition encode_mouse_position :: "u32 \<Rightarrow> u32 \<Rightarrow> MouseButtons \<Rightarrow> u8 \<Rightarrow> u8 list" where
  "encode_mouse_position x y buttons display_id =
     u32_to_le_bytes x @ u32_to_le_bytes y @ u16_to_le_bytes (mb_bits buttons) @ [display_id]"

definition encode_mouse_motion :: "i32 \<Rightarrow> i32 \<Rightarrow> MouseButtons \<Rightarrow> u8 list" where
  "encode_mouse_motion dx dy buttons =
     u32_to_le_bytes dx @ u32_to_le_bytes dy @ u16_to_le_bytes (mb_bits buttons)"

definition encode_mouse_button :: "MouseButton \<Rightarrow> MouseButtons \<Rightarrow> u8 list" where
  "encode_mouse_button button buttons = MouseButton_code button # u16_to_le_bytes (mb_bits buttons)"

section \<open>Port (port.rs)\<close>

definition MAX_PORT_NAME_BYTES :: nat where [simp]: "MAX_PORT_NAME_BYTES = 1024"
definition MAX_PORT_DATA_BYTES :: nat where [simp]: "MAX_PORT_DATA_BYTES = 256 * 1024"

datatype PortEvent = PortEvent_Opened | PortEvent_Closed | PortEvent_Break

primrec PortEvent_code :: "PortEvent \<Rightarrow> u8" where
  "PortEvent_code PortEvent_Opened = 0"
| "PortEvent_code PortEvent_Closed = 1"
| "PortEvent_code PortEvent_Break = 2"

definition PortEvent_try_from :: "u8 \<Rightarrow> PortEvent decoded" where
  "PortEvent_try_from value =
     (if value = 0 then Inr PortEvent_Opened
      else if value = 1 then Inr PortEvent_Closed
      else if value = 2 then Inr PortEvent_Break
      else decode_err InvalidValue 0 STR ''port event'')"

interpretation port_event: enum_codec PortEvent_code PortEvent_try_from
proof
  show "PortEvent_try_from (PortEvent_code e) = Inr e" for e
    by (cases e) (simp_all add: PortEvent_try_from_def)
  show "PortEvent_try_from c = Inr e \<Longrightarrow> PortEvent_code e = c" for c e
    by (auto simp: PortEvent_try_from_def split: if_splits)
  show "no_panic (PortEvent_try_from c)" for c
    by (simp add: PortEvent_try_from_def)
qed

record PortInit =
  pi_name :: "u8 list"
  pi_opened :: bool

definition PortInit_decode :: "u8 list \<Rightarrow> PortInit decoded" where
  "PortInit_decode body = decode_with body
     (rd_then (Reader_u32 STR ''port name size'') (\<lambda>size32.
      let name_size = unat size32 in
      rd_then (Reader_u32 STR ''port name offset'') (\<lambda>offset32.
      let name_offset = unat offset32 in
      rd_then (Reader_u8 STR ''port opened'') (\<lambda>opened8.
      rd_then (if opened8 = 0 then rd_return False
               else if opened8 = 1 then rd_return True
               else rd_err InvalidValue 8 STR ''port opened'') (\<lambda>opened.
      if name_size < 2 then rd_err InvalidValue 0 STR ''port name''
      else if name_size > MAX_PORT_NAME_BYTES then rd_err ResourceLimit 0 STR ''port name''
      else if name_offset < 9 then rd_err InvalidOffset 4 STR ''port name''
      else
      rd_then (rd_lift (ok_or (DecodeError_new Overflow 4 STR ''port name'')
                 (usize_checked_add name_offset name_size))) (\<lambda>name_end.
      if name_end \<noteq> length body then rd_err InvalidOffset 4 STR ''port name''
      else
      rd_then (rd_lift (slice_index body name_offset name_end)) (\<lambda>name.
      if \<not> nul_terminated name
      then rd_err InvalidValue name_offset STR ''port name terminator''
      else
      rd_then (rd_lift (slice_index name 0 (length name - 1))) (\<lambda>prefix.
      rd_then (rd_lift (ok_or (DecodeError_new InvalidValue name_offset STR ''port name UTF-8'')
                 (from_utf8 prefix))) (\<lambda>name.
      rd_return \<lparr>pi_name = name, pi_opened = opened\<rparr>)))))))))"

definition decode_port_event :: "u8 list \<Rightarrow> PortEvent decoded" where
  "decode_port_event body =
     (if length body \<noteq> 1
      then decode_err (if body = [] then Truncated else InvalidValue) (length body) STR ''port event''
      else and_then (expect (case body of [] \<Rightarrow> None | b # _ \<Rightarrow> Some b)) PortEvent_try_from)"

definition encode_port_event :: "PortEvent \<Rightarrow> u8 list" where
  "encode_port_event event = [PortEvent_code event]"

definition decode_port_data :: "u8 list \<Rightarrow> u8 list decoded" where
  "decode_port_data body =
     (if length body > MAX_PORT_DATA_BYTES then decode_err ResourceLimit 0 STR ''port data''
      else Inr body)"

section \<open>Compressed SpiceVMC data (spicevmc.rs)\<close>

definition SPICEVMC_COMPRESSION_LZ4 :: u8 where [simp]: "SPICEVMC_COMPRESSION_LZ4 = 1"

record SpiceVmcCompressedData =
  vm_uncompressed_size :: nat
  vm_compressed_bytes :: "u8 list"

definition SpiceVmcCompressedData_decode :: "u8 list \<Rightarrow> nat \<Rightarrow> SpiceVmcCompressedData decoded" where
  "SpiceVmcCompressedData_decode body maximum_uncompressed_bytes = decode_with body
     (rd_then (Reader_u8 STR ''SpiceVMC compression type'') (\<lambda>compression.
      if compression \<noteq> SPICEVMC_COMPRESSION_LZ4
      then rd_err Unsupported 0 STR ''SpiceVMC compression type''
      else
      rd_then (Reader_u32 STR ''SpiceVMC uncompressed size'') (\<lambda>size32.
      let uncompressed_size = unat size32 in
      if uncompressed_size = 0 \<or> uncompressed_size > maximum_uncompressed_bytes
      then rd_err ResourceLimit 1 STR ''SpiceVMC uncompressed size''
      else
      rd_then Reader_remaining (\<lambda>remaining.
      rd_then (Reader_take remaining STR ''SpiceVMC compressed bytes'') (\<lambda>compressed_bytes.
      if compressed_bytes = [] then rd_err InvalidValue 5 STR ''SpiceVMC compressed bytes''
      else rd_return \<lparr>vm_uncompressed_size = uncompressed_size,
                      vm_compressed_bytes = compressed_bytes\<rparr>)))))"

definition encode_spicevmc_compressed_data :: "nat \<Rightarrow> u8 list \<Rightarrow> u8 list decoded" where
  "encode_spicevmc_compressed_data uncompressed_size compressed_bytes =
     (if uncompressed_size = 0 \<or> compressed_bytes = []
      then decode_err InvalidValue 0 STR ''SpiceVMC compressed data''
      else
      and_then (ok_or (DecodeError_new Overflow 1 STR ''SpiceVMC uncompressed size'')
                 (u32_try_from uncompressed_size)) (\<lambda>uncompressed_size.
      Inr (SPICEVMC_COMPRESSION_LZ4 # u32_to_le_bytes uncompressed_size @ compressed_bytes)))"

section \<open>Smartcard (smartcard.rs)\<close>

definition MAX_SMARTCARD_DATA_BYTES :: nat where [simp]: "MAX_SMARTCARD_DATA_BYTES = 64 * 1024"

datatype SmartcardMessageType =
    SmartcardMessageType_Init | SmartcardMessageType_Error | SmartcardMessageType_ReaderAdd
  | SmartcardMessageType_ReaderRemove | SmartcardMessageType_Atr | SmartcardMessageType_CardRemove
  | SmartcardMessageType_Apdu | SmartcardMessageType_Flush | SmartcardMessageType_FlushComplete

primrec SmartcardMessageType_code :: "SmartcardMessageType \<Rightarrow> u32" where
  "SmartcardMessageType_code SmartcardMessageType_Init = 1"
| "SmartcardMessageType_code SmartcardMessageType_Error = 2"
| "SmartcardMessageType_code SmartcardMessageType_ReaderAdd = 3"
| "SmartcardMessageType_code SmartcardMessageType_ReaderRemove = 4"
| "SmartcardMessageType_code SmartcardMessageType_Atr = 5"
| "SmartcardMessageType_code SmartcardMessageType_CardRemove = 6"
| "SmartcardMessageType_code SmartcardMessageType_Apdu = 7"
| "SmartcardMessageType_code SmartcardMessageType_Flush = 8"
| "SmartcardMessageType_code SmartcardMessageType_FlushComplete = 9"

definition SmartcardMessageType_try_from :: "u32 \<Rightarrow> SmartcardMessageType decoded" where
  "SmartcardMessageType_try_from value =
     (if value = 1 then Inr SmartcardMessageType_Init
      else if value = 2 then Inr SmartcardMessageType_Error
      else if value = 3 then Inr SmartcardMessageType_ReaderAdd
      else if value = 4 then Inr SmartcardMessageType_ReaderRemove
      else if value = 5 then Inr SmartcardMessageType_Atr
      else if value = 6 then Inr SmartcardMessageType_CardRemove
      else if value = 7 then Inr SmartcardMessageType_Apdu
      else if value = 8 then Inr SmartcardMessageType_Flush
      else if value = 9 then Inr SmartcardMessageType_FlushComplete
      else decode_err InvalidValue 0 STR ''smartcard message type'')"

interpretation smartcard_type: enum_codec SmartcardMessageType_code SmartcardMessageType_try_from
proof
  show "SmartcardMessageType_try_from (SmartcardMessageType_code e) = Inr e" for e
    by (cases e) (simp_all add: SmartcardMessageType_try_from_def)
  show "SmartcardMessageType_try_from c = Inr e \<Longrightarrow> SmartcardMessageType_code e = c" for c e
    by (auto simp: SmartcardMessageType_try_from_def split: if_splits)
  show "no_panic (SmartcardMessageType_try_from c)" for c
    by (simp add: SmartcardMessageType_try_from_def)
qed

record SmartcardMessage =
  sc_message_type :: SmartcardMessageType
  sc_reader_id :: u32
  sc_data :: "u8 list"

definition SmartcardMessage_decode :: "u8 list \<Rightarrow> SmartcardMessage decoded" where
  "SmartcardMessage_decode body = decode_with body
     (rd_then (Reader_u32 STR ''smartcard message type'') (\<lambda>code.
      rd_then (rd_lift (SmartcardMessageType_try_from code)) (\<lambda>message_type.
      rd_then (Reader_u32 STR ''smartcard reader id'') (\<lambda>reader_id.
      rd_then (Reader_u32 STR ''smartcard data length'') (\<lambda>length32.
      let data_length = unat length32 in
      if data_length > MAX_SMARTCARD_DATA_BYTES
      then rd_err ResourceLimit 8 STR ''smartcard data length''
      else
      rd_then Reader_remaining (\<lambda>remaining.
      if remaining \<noteq> data_length
      then rd_err (size_error_kind remaining data_length) 12 STR ''smartcard data length''
      else
      rd_then (Reader_take data_length STR ''smartcard data'') (\<lambda>data.
      rd_return \<lparr>sc_message_type = message_type, sc_reader_id = reader_id, sc_data = data\<rparr>)))))))"

definition encode_smartcard_message :: "SmartcardMessageType \<Rightarrow> u32 \<Rightarrow> u8 list \<Rightarrow> u8 list decoded" where
  "encode_smartcard_message message_type reader_id data =
     (if length data > MAX_SMARTCARD_DATA_BYTES
      then decode_err ResourceLimit 12 STR ''smartcard data length''
      else
      and_then (ok_or (DecodeError_new Overflow 8 STR ''smartcard data length'')
                 (u32_try_from (length data))) (\<lambda>data_length.
      Inr (u32_to_le_bytes (SmartcardMessageType_code message_type) @ u32_to_le_bytes reader_id @
           u32_to_le_bytes data_length @ data)))"

section \<open>Playback (playback.rs)\<close>

definition MAX_PLAYBACK_CHANNELS :: u32 where [simp]: "MAX_PLAYBACK_CHANNELS = 32"
definition MAX_PLAYBACK_SAMPLE_RATE_HZ :: u32 where [simp]: "MAX_PLAYBACK_SAMPLE_RATE_HZ = 384000"
definition MAX_PLAYBACK_PACKET_BYTES :: nat where [simp]: "MAX_PLAYBACK_PACKET_BYTES = 256 * 1024"
definition MAX_AUDIO_VOLUME_CHANNELS :: nat where [simp]: "MAX_AUDIO_VOLUME_CHANNELS = 32"

definition decode_audio_volume :: "u8 list \<Rightarrow> u16 list decoded" where
  "decode_audio_volume body = decode_with body
     (rd_then (Reader_u8 STR ''audio volume channel count'') (\<lambda>count8.
      let channel_count = unat count8 in
      if channel_count = 0 \<or> channel_count > MAX_AUDIO_VOLUME_CHANNELS
      then rd_err ResourceLimit 0 STR ''audio volume channel count''
      else
      rd_then (rd_lift (ok_or (DecodeError_new Overflow 1 STR ''audio volume values'')
                 (usize_checked_mul channel_count 2))) (\<lambda>expected_bytes.
      rd_then Reader_remaining (\<lambda>remaining.
      if remaining \<noteq> expected_bytes
      then rd_err (size_error_kind remaining expected_bytes) 1 STR ''audio volume values''
      else rd_repeat channel_count (Reader_u16 STR ''audio volume value'')))))"

definition decode_audio_mute :: "u8 list \<Rightarrow> bool decoded" where
  "decode_audio_mute body =
     (if length body \<noteq> 1
      then decode_err (if body = [] then Truncated else InvalidValue) (length body) STR ''audio mute''
      else and_then (expect (case body of [] \<Rightarrow> None | b # _ \<Rightarrow> Some b)) (\<lambda>b.
           if b = 0 then Inr False
           else if b = 1 then Inr True
           else decode_err InvalidValue 0 STR ''audio mute''))"

definition decode_playback_latency :: "u8 list \<Rightarrow> u32 decoded" where
  "decode_playback_latency body =
     (if length body \<noteq> 4
      then decode_err (size_error_kind (length body) 4) (length body) STR ''playback latency''
      else and_then (expect (if length body = 4 then Some body else None)) (\<lambda>bytes. Inr (from_le bytes)))"

datatype AudioDataMode = AudioDataMode_Raw | AudioDataMode_Celt051 | AudioDataMode_Opus

primrec AudioDataMode_code :: "AudioDataMode \<Rightarrow> u32" where
  "AudioDataMode_code AudioDataMode_Raw = 1"
| "AudioDataMode_code AudioDataMode_Celt051 = 2"
| "AudioDataMode_code AudioDataMode_Opus = 3"

definition AudioDataMode_try_from :: "u32 \<Rightarrow> AudioDataMode decoded" where
  "AudioDataMode_try_from value =
     (if value = 1 then Inr AudioDataMode_Raw
      else if value = 2 then Inr AudioDataMode_Celt051
      else if value = 3 then Inr AudioDataMode_Opus
      else decode_err InvalidValue 4 STR ''playback data mode'')"

interpretation audio_mode: enum_codec AudioDataMode_code AudioDataMode_try_from
proof
  show "AudioDataMode_try_from (AudioDataMode_code e) = Inr e" for e
    by (cases e) (simp_all add: AudioDataMode_try_from_def)
  show "AudioDataMode_try_from c = Inr e \<Longrightarrow> AudioDataMode_code e = c" for c e
    by (auto simp: AudioDataMode_try_from_def split: if_splits)
  show "no_panic (AudioDataMode_try_from c)" for c
    by (simp add: AudioDataMode_try_from_def)
qed

datatype AudioSampleFormat = AudioSampleFormat_Signed16LittleEndian

definition AudioSampleFormat_try_from :: "u32 \<Rightarrow> AudioSampleFormat decoded" where
  "AudioSampleFormat_try_from value =
     (if value = 1 then Inr AudioSampleFormat_Signed16LittleEndian
      else decode_err Unsupported 4 STR ''playback sample format'')"

record PlaybackMode =
  pm_timestamp_ms :: u32
  pm_mode :: AudioDataMode
  pm_codec_data :: "u8 list"

definition PlaybackMode_decode :: "u8 list \<Rightarrow> PlaybackMode decoded" where
  "PlaybackMode_decode body = decode_with body
     (rd_then (Reader_u32 STR ''playback mode timestamp'') (\<lambda>timestamp_ms.
      rd_then (Reader_u32 STR ''playback data mode'') (\<lambda>code.
      rd_then (rd_lift (AudioDataMode_try_from code)) (\<lambda>mode.
      rd_then Reader_remaining (\<lambda>remaining.
      rd_then (Reader_take remaining STR ''playback mode data'') (\<lambda>codec_data.
      if mode = AudioDataMode_Raw \<and> codec_data \<noteq> []
      then rd_err InvalidValue 8 STR ''raw playback mode data''
      else rd_return \<lparr>pm_timestamp_ms = timestamp_ms, pm_mode = mode, pm_codec_data = codec_data\<rparr>))))))"

record PlaybackStart =
  ps_channels :: u32
  ps_format :: AudioSampleFormat
  ps_sample_rate_hz :: u32
  ps_timestamp_ms :: u32

definition PlaybackStart_decode :: "u8 list \<Rightarrow> PlaybackStart decoded" where
  "PlaybackStart_decode body =
     (if length body \<noteq> 16
      then decode_err (size_error_kind (length body) 16) (length body) STR ''playback start''
      else decode_with body
       (rd_then (Reader_u32 STR ''playback channel count'') (\<lambda>channels.
        if channels = 0 \<or> channels > MAX_PLAYBACK_CHANNELS
        then rd_err ResourceLimit 0 STR ''playback channel count''
        else
        rd_then (Reader_u32 STR ''playback sample format'') (\<lambda>code.
        rd_then (rd_lift (AudioSampleFormat_try_from code)) (\<lambda>format.
        rd_then (Reader_u32 STR ''playback sample rate'') (\<lambda>sample_rate_hz.
        if sample_rate_hz = 0 \<or> sample_rate_hz > MAX_PLAYBACK_SAMPLE_RATE_HZ
        then rd_err ResourceLimit 8 STR ''playback sample rate''
        else
        rd_then (Reader_u32 STR ''playback start timestamp'') (\<lambda>timestamp_ms.
        rd_return \<lparr>ps_channels = channels, ps_format = format, ps_sample_rate_hz = sample_rate_hz,
                   ps_timestamp_ms = timestamp_ms\<rparr>)))))))"

definition PlaybackStart_frame_bytes :: "PlaybackStart \<Rightarrow> nat decoded" where
  "PlaybackStart_frame_bytes start =
     (let bytes_per_sample = (case ps_format start of AudioSampleFormat_Signed16LittleEndian \<Rightarrow> 2) in
      ok_or (DecodeError_new Overflow 0 STR ''playback sample frame bytes'')
        (usize_checked_mul (unat (ps_channels start)) bytes_per_sample))"

record PlaybackPacket =
  pp_timestamp_ms :: u32
  pp_data :: "u8 list"

definition PlaybackPacket_decode :: "u8 list \<Rightarrow> PlaybackPacket decoded" where
  "PlaybackPacket_decode body = decode_with body
     (rd_then (Reader_u32 STR ''playback packet timestamp'') (\<lambda>timestamp_ms.
      rd_then Reader_remaining (\<lambda>remaining.
      rd_then (Reader_take remaining STR ''playback packet data'') (\<lambda>data.
      if data = [] then rd_err InvalidValue 4 STR ''playback packet data''
      else if length data > MAX_PLAYBACK_PACKET_BYTES
      then rd_err ResourceLimit 4 STR ''playback packet data''
      else rd_return \<lparr>pp_timestamp_ms = timestamp_ms, pp_data = data\<rparr>))))"

section \<open>Record (record.rs)\<close>

definition MAX_RECORD_PACKET_BYTES :: nat where
  [simp]: "MAX_RECORD_PACKET_BYTES = MAX_PLAYBACK_PACKET_BYTES"

record RecordStart =
  rs_channels :: u32
  rs_format :: AudioSampleFormat
  rs_sample_rate_hz :: u32

definition RecordStart_decode :: "u8 list \<Rightarrow> RecordStart decoded" where
  "RecordStart_decode body =
     (if length body \<noteq> 12
      then decode_err (size_error_kind (length body) 12) (length body) STR ''record start''
      else decode_with body
       (rd_then (Reader_u32 STR ''record channel count'') (\<lambda>channels.
        if channels = 0 \<or> channels > MAX_PLAYBACK_CHANNELS
        then rd_err ResourceLimit 0 STR ''record channel count''
        else
        rd_then (Reader_u32 STR ''record sample format'') (\<lambda>code.
        rd_then (rd_lift (AudioSampleFormat_try_from code)) (\<lambda>format.
        rd_then (Reader_u32 STR ''record sample rate'') (\<lambda>sample_rate_hz.
        if sample_rate_hz = 0 \<or> sample_rate_hz > MAX_PLAYBACK_SAMPLE_RATE_HZ
        then rd_err ResourceLimit 8 STR ''record sample rate''
        else rd_return \<lparr>rs_channels = channels, rs_format = format,
                        rs_sample_rate_hz = sample_rate_hz\<rparr>))))))"

definition RecordStart_frame_bytes :: "RecordStart \<Rightarrow> nat decoded" where
  "RecordStart_frame_bytes start =
     (let bytes_per_sample = (case rs_format start of AudioSampleFormat_Signed16LittleEndian \<Rightarrow> 2) in
      ok_or (DecodeError_new Overflow 0 STR ''record sample frame bytes'')
        (usize_checked_mul (unat (rs_channels start)) bytes_per_sample))"

definition encode_record_mode :: "u32 \<Rightarrow> AudioDataMode \<Rightarrow> u8 list" where
  "encode_record_mode timestamp_ms mode =
     u32_to_le_bytes timestamp_ms @ u32_to_le_bytes (AudioDataMode_code mode)"

definition encode_record_start_mark :: "u32 \<Rightarrow> u8 list" where
  "encode_record_start_mark timestamp_ms = u32_to_le_bytes timestamp_ms"

definition encode_record_packet :: "u32 \<Rightarrow> u8 list \<Rightarrow> u8 list decoded" where
  "encode_record_packet timestamp_ms pcm =
     (if pcm = [] then decode_err InvalidValue 4 STR ''record packet data''
      else if length pcm > MAX_RECORD_PACKET_BYTES
      then decode_err ResourceLimit 4 STR ''record packet data''
      else Inr (u32_to_le_bytes timestamp_ms @ pcm))"

section \<open>Panic freedom\<close>

declare port_event.try_from_error [no_panic_intros] and smartcard_type.try_from_error [no_panic_intros]
  and audio_mode.try_from_error [no_panic_intros]

lemma no_panic_AudioSampleFormat [no_panic_intros]: "no_panic (AudioSampleFormat_try_from c)"
  by (simp add: AudioSampleFormat_try_from_def)

lemma no_panic_KeyboardModifiers_decode [no_panic_intros]: "no_panic (KeyboardModifiers_decode body)"
  unfolding KeyboardModifiers_decode_def KeyboardModifiers_from_bits_def
  by (intro no_panic_intros safe_reader_intros)

lemma no_panic_PortInit_decode [no_panic_intros]: "no_panic (PortInit_decode body)"
  unfolding PortInit_decode_def
  by (auto simp: Let_def intro!: no_panic_intros safe_reader_intros)

lemma no_panic_decode_port_event [no_panic_intros]: "no_panic (decode_port_event body)"
  by (auto simp: decode_port_event_def intro!: no_panic_intros split: list.splits)

lemma no_panic_decode_port_data [no_panic_intros]: "no_panic (decode_port_data body)"
  by (simp add: decode_port_data_def)

lemma no_panic_SpiceVmcCompressedData_decode [no_panic_intros]:
  "no_panic (SpiceVmcCompressedData_decode body maximum)"
  unfolding SpiceVmcCompressedData_decode_def by (intro no_panic_intros safe_reader_intros)

lemma no_panic_SmartcardMessage_decode [no_panic_intros]: "no_panic (SmartcardMessage_decode body)"
  unfolding SmartcardMessage_decode_def by (intro no_panic_intros safe_reader_intros)

lemma no_panic_decode_audio_volume [no_panic_intros]: "no_panic (decode_audio_volume body)"
  unfolding decode_audio_volume_def by (intro no_panic_intros safe_reader_intros)

lemma no_panic_decode_audio_mute [no_panic_intros]: "no_panic (decode_audio_mute body)"
  by (auto simp: decode_audio_mute_def intro!: no_panic_intros split: list.splits)

lemma no_panic_decode_playback_latency [no_panic_intros]: "no_panic (decode_playback_latency body)"
  by (auto simp: decode_playback_latency_def)

lemma no_panic_PlaybackMode_decode [no_panic_intros]: "no_panic (PlaybackMode_decode body)"
  unfolding PlaybackMode_decode_def by (intro no_panic_intros safe_reader_intros)

lemma no_panic_PlaybackStart_decode [no_panic_intros]: "no_panic (PlaybackStart_decode body)"
  unfolding PlaybackStart_decode_def by (intro no_panic_intros safe_reader_intros)

lemma no_panic_PlaybackPacket_decode [no_panic_intros]: "no_panic (PlaybackPacket_decode body)"
  unfolding PlaybackPacket_decode_def by (intro no_panic_intros safe_reader_intros)

lemma no_panic_RecordStart_decode [no_panic_intros]: "no_panic (RecordStart_decode body)"
  unfolding RecordStart_decode_def by (intro no_panic_intros safe_reader_intros)

section \<open>Canonical codecs\<close>

lemma smartcard_decode_encode:
  assumes "encode_smartcard_message t r payload = Inr b"
  shows "SmartcardMessage_decode b = Inr \<lparr>sc_message_type = t, sc_reader_id = r, sc_data = payload\<rparr>"
proof -
  obtain w :: u32 where w: "length payload = unat w" "unat w \<le> 65536"
    and b: "b = to_le 4 (SmartcardMessageType_code t) @ to_le 4 r @ to_le 4 w @ payload"
    using assms by (auto simp: encode_smartcard_message_def split: if_splits)
  have "Reader_take (unat w) ctx (reader_at pre payload) = Inr (payload, reader_at (pre @ payload) [])"
    if "length pre = 12" for ctx pre
    using Reader_take_all_at [of pre payload ctx] w that by simp
  with w show ?thesis
    by (simp add: b SmartcardMessage_decode_def decode_with_at reader_width reader_simps Let_def
        smartcard_type.try_from_code del: Reader_take_Inr)
qed

lemma smartcard_encode_decode:
  assumes "SmartcardMessage_decode b = Inr m"
  shows "encode_smartcard_message (sc_message_type m) (sc_reader_id m) (sc_data m) = Inr b"
proof -
  let ?w = "from_le (take 4 (drop 8 b)) :: u32"
  have "12 + unat ?w = length b" "unat ?w \<le> 65536"
    and m: "SmartcardMessageType_code (sc_message_type m) = from_le (take 4 b)"
      "sc_reader_id m = from_le (take 4 (drop 4 b))" "sc_data m = drop 12 b"
    using assms
    by (auto simp: SmartcardMessage_decode_def Let_def reader_width not_less split: if_splits)
  moreover from this have "b = to_le 4 (from_le (take 4 b) :: u32) @
      to_le 4 (from_le (take 4 (drop 4 b)) :: u32) @ to_le 4 ?w @ drop 12 b"
    using le_split [of 4 0 b, where 'a = 32] le_split [of 4 4 b, where 'a = 32]
      le_split [of 4 8 b, where 'a = 32] by simp
  ultimately show ?thesis
    by (auto simp: encode_smartcard_message_def intro!: exI [of _ ?w])
qed

interpretation smartcard: wire_codec
    "\<lambda>m. encode_smartcard_message (sc_message_type m) (sc_reader_id m) (sc_data m)" SmartcardMessage_decode
  by unfold_locales (auto simp: smartcard_encode_decode smartcard_decode_encode intro: no_panic_intros)

text \<open>The Smartcard codec is canonical: a body decodes to a message exactly when encoding that message
  gives the body, so a body with trailing or missing bytes, an unknown operation or more than 64 KiB
  of data is rejected.\<close>

theorem smartcard_canonical:
  assumes "length body < usize_limit"
  shows "SmartcardMessage_decode body = Inr m \<longleftrightarrow>
         encode_smartcard_message (sc_message_type m) (sc_reader_id m) (sc_data m) = Inr body"
  using assms by (rule smartcard.canonical)

theorem smartcard_canonical_witness:
  "SmartcardMessage_decode [7, 0, 0, 0, 9, 0, 0, 0, 1, 0, 0, 0, 164] =
     Inr \<lparr>sc_message_type = SmartcardMessageType_Apdu, sc_reader_id = 9, sc_data = [164]\<rparr>"
  using smartcard_canonical [of "[7, 0, 0, 0, 9, 0, 0, 0, 1, 0, 0, 0, 164]"
      "\<lparr>sc_message_type = SmartcardMessageType_Apdu, sc_reader_id = 9, sc_data = [164]\<rparr>"]
  by (simp add: encode_smartcard_message_def u32_try_from_def to_le_expand)

lemma spicevmc_decode_encode:
  assumes "encode_spicevmc_compressed_data n c = Inr b" and "n \<le> maximum" and "length b < usize_limit"
  shows "SpiceVmcCompressedData_decode b maximum = Inr \<lparr>vm_uncompressed_size = n, vm_compressed_bytes = c\<rparr>"
proof -
  obtain w :: u32 where w: "n = unat w" "n \<noteq> 0" "c \<noteq> []" and b: "b = 1 # to_le 4 w @ c"
    using assms(1) by (auto simp: encode_spicevmc_compressed_data_def split: if_splits)
  with assms(2,3) show ?thesis
    by (simp add: SpiceVmcCompressedData_decode_def decode_with_at reader_width reader_simps Let_def)
qed

lemma spicevmc_encode_decode:
  assumes "SpiceVmcCompressedData_decode b maximum = Inr d"
  shows "vm_uncompressed_size d \<le> maximum \<and>
         encode_spicevmc_compressed_data (vm_uncompressed_size d) (vm_compressed_bytes d) = Inr b"
proof -
  let ?w = "from_le (take 4 (drop 1 b)) :: u32"
  have "5 < length b" "b ! 0 = 1" "unat ?w \<noteq> 0" "unat ?w \<le> maximum"
    and d: "vm_uncompressed_size d = unat ?w" "vm_compressed_bytes d = drop 5 b"
    using assms
    by (auto simp: SpiceVmcCompressedData_decode_def Let_def reader_width not_less split: if_splits)
  moreover from this have "b = 1 # drop 1 b" by (cases b) auto
  ultimately show ?thesis
    using le_split [of 4 1 b, where 'a = 32] by (auto simp: encode_spicevmc_compressed_data_def)
qed

text \<open>The compressed SpiceVMC envelope is canonical up to the caller's bound: a body decodes exactly
  when it is the encoding of a non-empty block and the declared size is positive and within the bound.\<close>

theorem spicevmc_canonical:
  assumes "length body < usize_limit"
  shows "SpiceVmcCompressedData_decode body maximum = Inr d \<longleftrightarrow>
         vm_uncompressed_size d \<le> maximum \<and>
         encode_spicevmc_compressed_data (vm_uncompressed_size d) (vm_compressed_bytes d) = Inr body"
  using assms spicevmc_decode_encode spicevmc_encode_decode by auto

theorem spicevmc_canonical_witness:
  "SpiceVmcCompressedData_decode [1, 0, 16, 0, 0, 3] 4096 =
     Inr \<lparr>vm_uncompressed_size = 4096, vm_compressed_bytes = [3]\<rparr>"
  using spicevmc_canonical [of "[1, 0, 16, 0, 0, 3]" 4096
      "\<lparr>vm_uncompressed_size = 4096, vm_compressed_bytes = [3]\<rparr>"]
  by (simp add: encode_spicevmc_compressed_data_def u32_try_from_def to_le_expand)

section \<open>Bounds of accepted messages\<close>

text \<open>An accepted Port Init names a non-empty NUL-free UTF-8 port of fewer than
  \<open>MAX_PORT_NAME_BYTES\<close> bytes whose text lies behind the fixed fields and ends the body.\<close>

theorem port_init_sound:
  assumes "PortInit_decode body = Inr p"
  shows "pi_name p \<noteq> [] \<and> length (pi_name p) < MAX_PORT_NAME_BYTES \<and> 0 \<notin> set (pi_name p) \<and>
         utf8_valid (pi_name p) \<and> (\<exists>k. 9 \<le> k \<and> drop k body = pi_name p @ [0])"
proof -
  let ?n = "unat (from_le (take 4 body) :: u32)" and ?o = "unat (from_le (take 4 (drop 4 body)) :: u32)"
  have n: "2 \<le> ?n" "?n \<le> 1024" "9 \<le> ?o" "?o + ?n = length body"
    and t: "nul_terminated (drop ?o body)" "utf8_valid (butlast (drop ?o body))"
      "pi_name p = butlast (drop ?o body)"
    using assms
    by (auto simp: PortInit_decode_def Let_def reader_width not_less butlast_conv_take split: if_splits)
  then obtain s where s: "drop ?o body = s @ [0]" "0 \<notin> set s" by (auto simp: nul_terminated_iff)
  moreover have "length (drop ?o body) = ?n" using n by simp
  ultimately show ?thesis using n t by (cases s) (auto simp del: utf8_valid.simps)
qed

theorem port_init_sound_witness:
  "\<exists>p. PortInit_decode [2, 0, 0, 0, 9, 0, 0, 0, 1, 97, 0] = Inr p \<and> pi_name p = [97] \<and>
       utf8_valid (pi_name p)"
proof -
  have d: "PortInit_decode [2, 0, 0, 0, 9, 0, 0, 0, 1, 97, 0] = Inr \<lparr>pi_name = [97], pi_opened = True\<rparr>"
    by (auto simp: PortInit_decode_def Let_def reader_width nul_terminated_def)
  from port_init_sound [OF d] d show ?thesis by auto
qed

text \<open>The audio formats that Playback Start and Record Start accept have 1 to 32 channels and a
  positive sample rate, so a frame is 2 to 64 bytes, computing it never fails, and one second of
  audio is far below the width of \<open>usize\<close>.\<close>

theorem audio_format_bounds:
  "(PlaybackStart_decode body = Inr start \<longrightarrow>
      (\<exists>frame. PlaybackStart_frame_bytes start = Inr frame \<and> frame = 2 * unat (ps_channels start) \<and>
               2 \<le> frame \<and> frame \<le> 64 \<and> 0 < unat (ps_sample_rate_hz start) \<and>
               frame * unat (ps_sample_rate_hz start) \<le> 24576000)) \<and>
   (RecordStart_decode body = Inr capture \<longrightarrow>
      (\<exists>frame. RecordStart_frame_bytes capture = Inr frame \<and> frame = 2 * unat (rs_channels capture) \<and>
               2 \<le> frame \<and> frame \<le> 64 \<and> 0 < unat (rs_sample_rate_hz capture) \<and>
               frame * unat (rs_sample_rate_hz capture) \<le> 24576000))"
proof -
  have frame: "\<exists>frame. frame = 2 * unat c \<and> frame < usize_limit \<and> 2 \<le> frame \<and> frame \<le> 64 \<and> 0 < unat r \<and>
      frame * unat r \<le> 24576000" if "c \<noteq> 0" "c \<le> 32" "r \<noteq> 0" "r \<le> 384000" for c r :: u32
  proof -
    have "0 < unat c" "unat c \<le> 32" "0 < unat r" "unat r \<le> 384000"
      using that by (auto simp: word_le_nat_alt unat_gt_0)
    moreover from this have "2 * unat c * unat r \<le> 64 * 384000" by (intro mult_le_mono) auto
    ultimately show ?thesis by auto
  qed
  show ?thesis
    using frame [of "ps_channels start" "ps_sample_rate_hz start"]
      frame [of "rs_channels capture" "rs_sample_rate_hz capture"]
    by (auto simp: PlaybackStart_decode_def PlaybackStart_frame_bytes_def RecordStart_decode_def
        RecordStart_frame_bytes_def reader_width not_less split: if_splits AudioSampleFormat.splits)
qed

theorem audio_format_bounds_witness:
  "\<exists>start. PlaybackStart_decode [2, 0, 0, 0, 1, 0, 0, 0, 128, 187, 0, 0, 5, 0, 0, 0] = Inr start \<and>
     PlaybackStart_frame_bytes start = Inr 4"
proof -
  let ?b = "[2, 0, 0, 0, 1, 0, 0, 0, 128, 187, 0, 0, 5, 0, 0, 0] :: u8 list"
  let ?s = "\<lparr>ps_channels = 2, ps_format = AudioSampleFormat_Signed16LittleEndian, ps_sample_rate_hz = 48000,
     ps_timestamp_ms = 5\<rparr>"
  have d: "PlaybackStart_decode ?b = Inr ?s"
    by (simp add: PlaybackStart_decode_def reader_width AudioSampleFormat_try_from_def)
  with audio_format_bounds [of ?b ?s undefined] show ?thesis by auto
qed

end
