(* ===== verification/Spice_CursorWire.thy ===== *)
theory Spice_CursorWire
  imports Spice_Channel
begin

text \<open>
  Cursor channel messages (\<open>cursor.rs\<close> of the protocol crate): positions, trails, cache ids and the
  Init and Set messages with their cursor image reference.

  The main result is an exact description of what the Set and Init decoders accept: the fixed fields,
  one of the three image forms with its flag word, and nothing behind it.
\<close>

section \<open>Data (cursor.rs)\<close>

definition CURSOR_FLAG_NONE :: u16 where [simp]: "CURSOR_FLAG_NONE = 1"
definition CURSOR_FLAG_CACHE_ME :: u16 where [simp]: "CURSOR_FLAG_CACHE_ME = 2"
definition CURSOR_FLAG_FROM_CACHE :: u16 where [simp]: "CURSOR_FLAG_FROM_CACHE = 4"
definition KNOWN_CURSOR_FLAGS :: u16 where [simp]: "KNOWN_CURSOR_FLAGS = 7"

record CursorPosition =
  cp_x :: i16
  cp_y :: i16

datatype CursorType =
    CursorType_Alpha | CursorType_Mono | CursorType_Color4 | CursorType_Color8
  | CursorType_Color16 | CursorType_Color24 | CursorType_Color32

primrec CursorType_code :: "CursorType \<Rightarrow> u8" where
  "CursorType_code CursorType_Alpha = 0"
| "CursorType_code CursorType_Mono = 1"
| "CursorType_code CursorType_Color4 = 2"
| "CursorType_code CursorType_Color8 = 3"
| "CursorType_code CursorType_Color16 = 4"
| "CursorType_code CursorType_Color24 = 5"
| "CursorType_code CursorType_Color32 = 6"

definition CursorType_try_from :: "u8 \<Rightarrow> CursorType decoded" where
  "CursorType_try_from value =
     (if value = 0 then Inr CursorType_Alpha
      else if value = 1 then Inr CursorType_Mono
      else if value = 2 then Inr CursorType_Color4
      else if value = 3 then Inr CursorType_Color8
      else if value = 4 then Inr CursorType_Color16
      else if value = 5 then Inr CursorType_Color24
      else if value = 6 then Inr CursorType_Color32
      else decode_err InvalidValue 0 STR ''cursor type'')"

interpretation cursor_type: enum_codec CursorType_code CursorType_try_from
proof
  show "CursorType_try_from (CursorType_code e) = Inr e" for e
    by (cases e) (simp_all add: CursorType_try_from_def)
  show "CursorType_try_from c = Inr e \<Longrightarrow> CursorType_code e = c" for c e
    by (auto simp: CursorType_try_from_def split: if_splits)
  show "no_panic (CursorType_try_from c)" for c
    by (simp add: CursorType_try_from_def)
qed

declare cursor_type.try_from_error [no_panic_intros]

record CursorHeader =
  ch_unique_id :: u64
  ch_cursor_type :: CursorType
  ch_width :: u16
  ch_height :: u16
  ch_hot_spot_x :: u16
  ch_hot_spot_y :: u16

datatype CursorImage =
    CursorImage_None
  | CursorImage_Cached u64
  | CursorImage_Data (ci_header: CursorHeader) (ci_cache_me: bool) (ci_data: "u8 list")

record CursorInit =
  cui_position :: CursorPosition
  cui_trail_length :: u16
  cui_trail_frequency :: u16
  cui_visible :: bool
  cui_image :: CursorImage

record CursorSet =
  cus_position :: CursorPosition
  cus_visible :: bool
  cus_image :: CursorImage

section \<open>Decoders\<close>

definition read_position :: "CursorPosition reader_op" where
  "read_position =
     rd_then (Reader_u16 STR ''cursor x'') (\<lambda>x.
     rd_then (Reader_u16 STR ''cursor y'') (\<lambda>y.
     rd_return \<lparr>cp_x = x, cp_y = y\<rparr>))"

definition read_bool :: "context_str \<Rightarrow> bool reader_op" where
  "read_bool ctx =
     rd_then (Reader_u8 ctx) (\<lambda>b.
     rd_then Reader_offset (\<lambda>here.
     if b = 0 then rd_return False
     else if b = 1 then rd_return True
     else rd_err InvalidValue (here - 1) ctx))"

definition read_image :: "u8 list \<Rightarrow> CursorImage reader_op" where
  "read_image body =
     rd_then (Reader_u16 STR ''cursor flags'') (\<lambda>flags.
     rd_then Reader_offset (\<lambda>here.
     if flags AND NOT KNOWN_CURSOR_FLAGS \<noteq> 0 \<or>
        (flags AND CURSOR_FLAG_NONE \<noteq> 0 \<and> flags \<noteq> CURSOR_FLAG_NONE) \<or>
        (flags AND CURSOR_FLAG_FROM_CACHE \<noteq> 0 \<and> flags AND CURSOR_FLAG_CACHE_ME \<noteq> 0)
     then rd_err InvalidValue (here - 2) STR ''cursor flags''
     else if flags = CURSOR_FLAG_NONE then
       rd_then Reader_remaining (\<lambda>remaining.
       if remaining \<noteq> 0 then rd_err InvalidValue here STR ''none cursor data''
       else rd_return CursorImage_None)
     else
     rd_then (Reader_u64 STR ''cursor unique id'') (\<lambda>unique_id.
     if flags AND CURSOR_FLAG_FROM_CACHE \<noteq> 0 then
       rd_then (Reader_take 9 STR ''cached cursor unused header fields'') (\<lambda>_.
       rd_then Reader_remaining (\<lambda>remaining.
       rd_then Reader_offset (\<lambda>here.
       if remaining \<noteq> 0 then rd_err InvalidValue here STR ''cached cursor data''
       else rd_return (CursorImage_Cached unique_id))))
     else
     rd_then (Reader_u8 STR ''cursor type'') (\<lambda>code.
     rd_then (rd_lift (CursorType_try_from code)) (\<lambda>cursor_type.
     rd_then (Reader_u16 STR ''cursor width'') (\<lambda>width.
     rd_then (Reader_u16 STR ''cursor height'') (\<lambda>height.
     rd_then (Reader_u16 STR ''cursor hotspot x'') (\<lambda>hot_spot_x.
     rd_then (Reader_u16 STR ''cursor hotspot y'') (\<lambda>hot_spot_y.
     rd_then Reader_offset (\<lambda>data_offset.
     rd_then (rd_lift (slice_index body data_offset (length body))) (\<lambda>data.
     if data = [] then rd_err Truncated data_offset STR ''cursor image data''
     else rd_return (CursorImage_Data
            \<lparr>ch_unique_id = unique_id, ch_cursor_type = cursor_type, ch_width = width,
             ch_height = height, ch_hot_spot_x = hot_spot_x, ch_hot_spot_y = hot_spot_y\<rparr>
            (flags AND CURSOR_FLAG_CACHE_ME \<noteq> 0) data))))))))))))"

definition CursorInit_decode :: "u8 list \<Rightarrow> CursorInit decoded" where
  "CursorInit_decode body = decode_with body
     (rd_then read_position (\<lambda>position.
      rd_then (Reader_u16 STR ''cursor trail length'') (\<lambda>trail_length.
      rd_then (Reader_u16 STR ''cursor trail frequency'') (\<lambda>trail_frequency.
      rd_then (read_bool STR ''cursor visible'') (\<lambda>visible.
      rd_then (read_image body) (\<lambda>image.
      rd_return \<lparr>cui_position = position, cui_trail_length = trail_length,
                 cui_trail_frequency = trail_frequency, cui_visible = visible,
                 cui_image = image\<rparr>))))))"

definition CursorSet_decode :: "u8 list \<Rightarrow> CursorSet decoded" where
  "CursorSet_decode body = decode_with body
     (rd_then read_position (\<lambda>position.
      rd_then (read_bool STR ''cursor visible'') (\<lambda>visible.
      rd_then (read_image body) (\<lambda>image.
      rd_return \<lparr>cus_position = position, cus_visible = visible, cus_image = image\<rparr>))))"

definition exact_reader :: "u8 list \<Rightarrow> nat \<Rightarrow> context_str \<Rightarrow> Reader decoded" where
  "exact_reader body expected ctx =
     (if length body \<noteq> expected
      then decode_err (size_error_kind (length body) expected) (length body) ctx
      else Inr (Reader_new body))"

definition decode_cursor_position :: "u8 list \<Rightarrow> CursorPosition decoded" where
  "decode_cursor_position body =
     and_then (exact_reader body 4 STR ''cursor position'') (\<lambda>reader.
     and_then (read_position reader) (\<lambda>(position, _). Inr position))"

definition decode_cursor_trail :: "u8 list \<Rightarrow> (u16 \<times> u16) decoded" where
  "decode_cursor_trail body =
     and_then (exact_reader body 4 STR ''cursor trail'') (\<lambda>reader.
     and_then (rd_then (Reader_u16 STR ''cursor trail length'') (\<lambda>trail_length.
               rd_then (Reader_u16 STR ''cursor trail frequency'') (\<lambda>trail_frequency.
               rd_return (trail_length, trail_frequency))) reader) (\<lambda>(trail, _). Inr trail))"

definition decode_cursor_cache_id :: "u8 list \<Rightarrow> u64 decoded" where
  "decode_cursor_cache_id body =
     and_then (exact_reader body 8 STR ''cursor cache id'') (\<lambda>reader.
     and_then (Reader_u64 STR ''cursor cache id'' reader) (\<lambda>(cache_id, _). Inr cache_id))"

section \<open>Panic freedom\<close>

lemma safe_reader_position [safe_reader_intros]: "safe_reader read_position"
  unfolding read_position_def by (intro safe_reader_intros)

lemma safe_reader_bool [safe_reader_intros]: "safe_reader (read_bool ctx)"
  unfolding read_bool_def by (intro safe_reader_intros no_panic_intros)

lemma no_panic_decode_cursor_fixed [no_panic_intros]:
  "no_panic (decode_cursor_position body)" "no_panic (decode_cursor_trail body)"
  "no_panic (decode_cursor_cache_id body)"
proof -
  have "no_panic (exact_reader body n ctx)" for n ctx by (simp add: exact_reader_def)
  moreover have "reader_ok r" if "exact_reader body n ctx = Inr r" for n ctx r
    using that by (auto simp: exact_reader_def split: if_splits)
  ultimately show "no_panic (decode_cursor_position body)" "no_panic (decode_cursor_trail body)"
    "no_panic (decode_cursor_cache_id body)"
    unfolding decode_cursor_position_def decode_cursor_trail_def decode_cursor_cache_id_def
    by (blast intro: no_panic_intros safe_reader_intros safe_reader.op_no_panic)+
qed

lemma no_panic_read_image:
  "reader_ok r \<Longrightarrow> rd_input r = body \<Longrightarrow> no_panic (read_image body r)"
  unfolding read_image_def
  by (intro no_panic_run safe_reader_intros no_panic_intros; (assumption | simp))
     (auto simp: reader_ok_def)

lemma no_panic_image_last:
  "reader_ok r \<Longrightarrow> rd_input r = body \<Longrightarrow> no_panic (rd_then (read_image body) (\<lambda>image. rd_return (f image)) r)"
  by (rule no_panic_run_last) (auto intro: no_panic_read_image no_panic_run)

lemma no_panic_CursorInit_decode [no_panic_intros]: "no_panic (CursorInit_decode body)"
  unfolding CursorInit_decode_def decode_with_def
  by (rule no_panic_and_then)
     (rule no_panic_image_last no_panic_run_then safe_reader_intros no_panic_intros | simp)+

lemma no_panic_CursorSet_decode [no_panic_intros]: "no_panic (CursorSet_decode body)"
  unfolding CursorSet_decode_def decode_with_def
  by (rule no_panic_and_then)
     (rule no_panic_image_last no_panic_run_then safe_reader_intros no_panic_intros | simp)+

section \<open>What the decoders accept\<close>

definition image_bytes :: "u8 list \<Rightarrow> CursorImage \<Rightarrow> u8 list" where
  "image_bytes unused img =
     (case img of
        CursorImage_None \<Rightarrow> u16_to_le_bytes CURSOR_FLAG_NONE
      | CursorImage_Cached unique_id \<Rightarrow>
          u16_to_le_bytes CURSOR_FLAG_FROM_CACHE @ u64_to_le_bytes unique_id @ unused
      | CursorImage_Data header cache_me bytes \<Rightarrow>
          u16_to_le_bytes (if cache_me then CURSOR_FLAG_CACHE_ME else 0) @
          u64_to_le_bytes (ch_unique_id header) @ [CursorType_code (ch_cursor_type header)] @
          u16_to_le_bytes (ch_width header) @ u16_to_le_bytes (ch_height header) @
          u16_to_le_bytes (ch_hot_spot_x header) @ u16_to_le_bytes (ch_hot_spot_y header) @ bytes)"

definition image_ok :: "CursorImage \<Rightarrow> bool" where
  "image_ok img \<longleftrightarrow> (case img of CursorImage_Data _ _ bytes \<Rightarrow> bytes \<noteq> [] | _ \<Rightarrow> True)"

definition cursor_set_bytes :: "u8 list \<Rightarrow> CursorSet \<Rightarrow> u8 list" where
  "cursor_set_bytes unused s =
     u16_to_le_bytes (cp_x (cus_position s)) @ u16_to_le_bytes (cp_y (cus_position s)) @
     [of_bool (cus_visible s)] @ image_bytes unused (cus_image s)"

definition cursor_init_bytes :: "u8 list \<Rightarrow> CursorInit \<Rightarrow> u8 list" where
  "cursor_init_bytes unused s =
     u16_to_le_bytes (cp_x (cui_position s)) @ u16_to_le_bytes (cp_y (cui_position s)) @
     u16_to_le_bytes (cui_trail_length s) @ u16_to_le_bytes (cui_trail_frequency s) @
     [of_bool (cui_visible s)] @ image_bytes unused (cui_image s)"

lemma small_flags:
  assumes "(w :: u16) AND NOT 7 = 0"
  shows "w \<in> {0, 1, 2, 3, 4, 5, 6, 7}"
proof -
  have "w = (w AND mask 3) OR (w AND NOT (mask 3))"
    by (simp flip: bit.conj_disj_distrib)
  moreover have "(mask 3 :: u16) = 7" by (simp add: mask_eq_exp_minus_1)
  ultimately have "w = take_bit 3 w" using assms by (simp add: take_bit_eq_mask)
  from arg_cong [OF this, of unat] have "unat w = take_bit 3 (unat w)"
    by (simp add: unsigned_take_bit_eq)
  then have "unat w < 8" using take_bit_nat_less_exp [of 3 "unat w"] by simp
  then have "unat w \<in> {0, 1, 2, 3, 4, 5, 6, 7}" by auto
  then show ?thesis by (auto simp: word_unat_eq_iff)
qed

lemma read_image_at:
  assumes ok: "image_ok img" and "length unused = 9" and "length pre + length (image_bytes unused img) < usize_limit"
  shows "\<exists>r. read_image (pre @ image_bytes unused img) (reader_at pre (image_bytes unused img)) = Inr (img, r)"
proof (cases img)
  case CursorImage_None
  with assms show ?thesis
    by (simp add: read_image_def image_bytes_def reader_width reader_simps)
next
  case (CursorImage_Cached i)
  with assms show ?thesis
    by (simp add: read_image_def image_bytes_def reader_width reader_simps)
next
  case (CursorImage_Data h c d)
  with assms show ?thesis
    by (cases h) (simp add: read_image_def image_bytes_def reader_width reader_simps image_ok_def
        cursor_type.try_from_code slice_index_def slice_get_def)
qed

lemma image_flags:
  assumes "\<not> (flags AND NOT KNOWN_CURSOR_FLAGS \<noteq> 0 \<or>
        (flags AND CURSOR_FLAG_NONE \<noteq> 0 \<and> flags \<noteq> CURSOR_FLAG_NONE) \<or>
        (flags AND CURSOR_FLAG_FROM_CACHE \<noteq> 0 \<and> flags AND CURSOR_FLAG_CACHE_ME \<noteq> 0))"
  shows "flags \<in> {0, 1, 2, 4}"
  using assms small_flags [of flags] by auto

lemma read_image_Inr:
  assumes read: "read_image body r = Inr (img, r')" and body: "rd_input r = body"
  shows "image_ok img \<and> (\<exists>unused. length unused = 9 \<and> drop (rd_offset r) body = image_bytes unused img)"
proof -
  let ?o = "rd_offset r"
  define flags :: u16 where "flags = from_le (take 2 (drop ?o body))"
  have f: "flags \<in> {0, 1, 2, 4}"
    using read body unfolding read_image_def
    by (intro image_flags) (auto simp: reader_width flags_def split: if_splits)
  have h: "?o + 2 \<le> length body" "drop ?o body = to_le 2 flags @ drop (?o + 2) body"
    using read body le_split [of 2 ?o body, where 'a = 16]
    by (auto simp: read_image_def reader_width flags_def)
  note rd = read [unfolded read_image_def reader_width]
  note fl = flags_def [symmetric]
  consider (none) "flags = 1" | (cached) "flags = 4" | (bytes) "flags = 0 \<or> flags = 2"
    using f by auto
  then show ?thesis
  proof cases
    case none
    then have "length body = ?o + 2" "img = CursorImage_None"
      using rd body h(1) by (auto simp: fl split: if_splits)
    with none h(2) show ?thesis
      by (intro conjI exI [of _ "replicate 9 0"]) (auto simp: image_ok_def image_bytes_def)
  next
    case cached
    then have "length body = ?o + 19" "img = CursorImage_Cached (from_le (take 8 (drop (?o + 2) body)))"
      using rd body h(1) by (auto simp: fl split: if_splits)
    with cached h(2) le_split [of 8 "?o + 2" body, where 'a = 64] show ?thesis
      by (intro conjI exI [of _ "drop (10 + ?o) body"]) (auto simp: image_ok_def image_bytes_def)
  next
    case bytes
    then obtain t where "?o + 19 < length body" and t: "CursorType_code t = body ! (?o + 10)"
      and "img = CursorImage_Data
        \<lparr>ch_unique_id = from_le (take 8 (drop (?o + 2) body)), ch_cursor_type = t,
         ch_width = from_le (take 2 (drop (?o + 11) body)), ch_height = from_le (take 2 (drop (?o + 13) body)),
         ch_hot_spot_x = from_le (take 2 (drop (?o + 15) body)),
         ch_hot_spot_y = from_le (take 2 (drop (?o + 17) body))\<rparr> (flags = 2) (drop (?o + 19) body)"
      using rd body h(1) by (auto simp: fl add.commute split: if_splits)
    moreover from this have "drop (?o + 10) body = CursorType_code t # drop (?o + 11) body"
      using Cons_nth_drop_Suc [of "?o + 10" body] t by (simp add: add.commute)
    ultimately show ?thesis
      using bytes h(2) le_split [of 8 "?o + 2" body, where 'a = 64]
        le_split [of 2 "?o + 11" body, where 'a = 16] le_split [of 2 "?o + 13" body, where 'a = 16]
        le_split [of 2 "?o + 15" body, where 'a = 16] le_split [of 2 "?o + 17" body, where 'a = 16]
      by (intro conjI exI [of _ "replicate 9 0"])
         (auto simp: image_ok_def image_bytes_def add.commute [of "numeral k" ?o for k])
  qed
qed

lemma read_position_Inr:
  "read_position r = Inr (p, r') \<longleftrightarrow>
     rd_offset r + 4 \<le> length (rd_input r) \<and> rd_offset r + 4 < usize_limit \<and>
     p = \<lparr>cp_x = from_le (take 2 (drop (rd_offset r) (rd_input r))),
          cp_y = from_le (take 2 (drop (rd_offset r + 2) (rd_input r)))\<rparr> \<and>
     r' = r\<lparr>rd_offset := rd_offset r + 4\<rparr>"
  by (auto simp: read_position_def reader_width)

lemma read_bool_Inr:
  "read_bool ctx r = Inr (b, r') \<longleftrightarrow>
     rd_offset r + 1 \<le> length (rd_input r) \<and> rd_offset r + 1 < usize_limit \<and>
     rd_input r ! rd_offset r = of_bool b \<and> r' = r\<lparr>rd_offset := rd_offset r + 1\<rparr>"
  by (auto simp: read_bool_def)

lemma nth_drop_of_bool:
  "k < length xs \<Longrightarrow> xs ! k = of_bool b \<Longrightarrow> drop k xs = of_bool b # drop (k + 1) xs"
  by (simp add: Cons_nth_drop_Suc [symmetric])

lemma CursorSet_decode_Inr:
  assumes "CursorSet_decode body = Inr s"
  shows "image_ok (cus_image s) \<and> (\<exists>unused. length unused = 9 \<and> body = cursor_set_bytes unused s)"
proof -
  let ?r = "(Reader_new body)\<lparr>rd_offset := 5\<rparr>"
  obtain img r' v where len: "5 \<le> length body" and v: "body ! 4 = of_bool v"
    and img: "read_image body ?r = Inr (img, r')"
    and s: "s = \<lparr>cus_position = \<lparr>cp_x = from_le (take 2 body), cp_y = from_le (take 2 (drop 2 body))\<rparr>,
                 cus_visible = v, cus_image = img\<rparr>"
    using assms by (auto simp: CursorSet_decode_def read_position_Inr read_bool_Inr numeral_2_eq_2)
  obtain unused where "length unused = 9" "drop 5 body = image_bytes unused img" "image_ok img"
    using read_image_Inr [OF img] by auto
  with len s le_split [of 2 0 body, where 'a = 16] le_split [of 2 2 body, where 'a = 16]
    nth_drop_of_bool [of 4 body, OF _ v]
  show ?thesis by (intro conjI exI [of _ unused]) (auto simp: cursor_set_bytes_def)
qed

lemma CursorInit_decode_Inr:
  assumes "CursorInit_decode body = Inr s"
  shows "image_ok (cui_image s) \<and> (\<exists>unused. length unused = 9 \<and> body = cursor_init_bytes unused s)"
proof -
  let ?r = "(Reader_new body)\<lparr>rd_offset := 9\<rparr>"
  obtain img r' v where len: "9 \<le> length body" and v: "body ! 8 = of_bool v"
    and img: "read_image body ?r = Inr (img, r')"
    and s: "s = \<lparr>cui_position = \<lparr>cp_x = from_le (take 2 body), cp_y = from_le (take 2 (drop 2 body))\<rparr>,
                 cui_trail_length = from_le (take 2 (drop 4 body)),
                 cui_trail_frequency = from_le (take 2 (drop 6 body)), cui_visible = v, cui_image = img\<rparr>"
    using assms by (auto simp: CursorInit_decode_def read_position_Inr read_bool_Inr reader_width numeral_2_eq_2)
  obtain unused where "length unused = 9" "drop 9 body = image_bytes unused img" "image_ok img"
    using read_image_Inr [OF img] by auto
  with len s le_split [of 2 0 body, where 'a = 16] le_split [of 2 2 body, where 'a = 16]
    le_split [of 2 4 body, where 'a = 16] le_split [of 2 6 body, where 'a = 16]
    nth_drop_of_bool [of 8 body, OF _ v]
  show ?thesis by (intro conjI exI [of _ unused]) (auto simp: cursor_init_bytes_def)
qed

lemma CursorSet_decode_bytes:
  assumes "image_ok (cus_image s)" and "length unused = 9" and "length (cursor_set_bytes unused s) < usize_limit"
  shows "CursorSet_decode (cursor_set_bytes unused s) = Inr s"
proof -
  let ?pre = "to_le 2 (cp_x (cus_position s)) @ to_le 2 (cp_y (cus_position s)) @ [of_bool (cus_visible s)]"
  have "\<exists>r. read_image (?pre @ image_bytes unused (cus_image s)) (reader_at ?pre (image_bytes unused (cus_image s))) =
      Inr (cus_image s, r)"
    using assms by (intro read_image_at) (auto simp: cursor_set_bytes_def)
  then show ?thesis
    by (cases s, cases "cus_position s", cases "cus_visible s")
       (auto simp: CursorSet_decode_def cursor_set_bytes_def decode_with_at read_position_def read_bool_def
         reader_width reader_simps)
qed

lemma CursorInit_decode_bytes:
  assumes "image_ok (cui_image s)" and "length unused = 9" and "length (cursor_init_bytes unused s) < usize_limit"
  shows "CursorInit_decode (cursor_init_bytes unused s) = Inr s"
proof -
  let ?pre = "to_le 2 (cp_x (cui_position s)) @ to_le 2 (cp_y (cui_position s)) @
     to_le 2 (cui_trail_length s) @ to_le 2 (cui_trail_frequency s) @ [of_bool (cui_visible s)]"
  have "\<exists>r. read_image (?pre @ image_bytes unused (cui_image s)) (reader_at ?pre (image_bytes unused (cui_image s))) =
      Inr (cui_image s, r)"
    using assms by (intro read_image_at) (auto simp: cursor_init_bytes_def)
  then show ?thesis
    by (cases s, cases "cui_position s", cases "cui_visible s")
       (auto simp: CursorInit_decode_def cursor_init_bytes_def decode_with_at read_position_def read_bool_def
         reader_width reader_simps)
qed

text \<open>The Cursor Set and Init decoders accept exactly the messages of the protocol layout: the fixed
  fields, then no image, a cache reference with its nine unused header bytes, or a header with
  non-empty image bytes, and nothing behind it. The three forms are told apart by the flag word.\<close>

theorem cursor_messages_exact:
  assumes "length body < usize_limit"
  shows "(CursorSet_decode body = Inr s \<longleftrightarrow>
            image_ok (cus_image s) \<and> (\<exists>unused. length unused = 9 \<and> body = cursor_set_bytes unused s)) \<and>
         (CursorInit_decode body = Inr i \<longleftrightarrow>
            image_ok (cui_image i) \<and> (\<exists>unused. length unused = 9 \<and> body = cursor_init_bytes unused i))"
  using assms CursorSet_decode_Inr CursorSet_decode_bytes CursorInit_decode_Inr CursorInit_decode_bytes
  by blast

theorem cursor_messages_exact_witness:
  "CursorSet_decode [5, 0, 6, 0, 1, 4, 0, 9, 0, 0, 0, 0, 0, 0, 0, 1, 2, 3, 4, 5, 6, 7, 8, 9] =
     Inr \<lparr>cus_position = \<lparr>cp_x = 5, cp_y = 6\<rparr>, cus_visible = True, cus_image = CursorImage_Cached 9\<rparr>"
proof -
  let ?b = "[5, 0, 6, 0, 1, 4, 0, 9, 0, 0, 0, 0, 0, 0, 0, 1, 2, 3, 4, 5, 6, 7, 8, 9] :: u8 list"
  let ?s = "\<lparr>cus_position = \<lparr>cp_x = 5, cp_y = 6\<rparr>, cus_visible = True, cus_image = CursorImage_Cached 9\<rparr>"
  let ?u = "[1, 2, 3, 4, 5, 6, 7, 8, 9] :: u8 list"
  have b: "?b = cursor_set_bytes ?u ?s"
    by (simp add: cursor_set_bytes_def image_bytes_def to_le_expand)
  have "image_ok (cus_image ?s) \<and> (\<exists>unused. length unused = 9 \<and> ?b = cursor_set_bytes unused ?s)"
    by (intro conjI exI [of _ ?u]) (simp_all only: b, simp_all add: image_ok_def)
  moreover have "length ?b < usize_limit" by simp
  ultimately show ?thesis using cursor_messages_exact [of ?b ?s undefined] by blast
qed

end
