(* ===== verification/Client_Channel.thy ===== *)
theory Client_Channel
  imports Spice_Link
begin

text \<open>
  The client's channel layer (\<open>channel.rs\<close>, \<open>error.rs\<close> and the security framing of \<open>sasl.rs\<close> in
  \<open>oxide-spice-client\<close>): message reading and writing over a transport with one owner, the optional
  SASL security layer, wire envelopes, the acknowledgement window and the common control messages.

  \<^item> A stream is the bytes the peer will send, the bytes written so far, and whether writing still
    works; \<open>read_exact\<close> and \<open>write_all\<close> return \<open>Io\<close> at the end of the stream or on a broken one.
  \<^item> The SASL mechanism is third-party code. Its \<open>encode\<close> and \<open>decode\<close> are arguments of the
    definitions; \<open>None\<close> is an error of the mechanism.
  \<^item> The channel is one on which no migration path is installed, so a header read goes straight to the
    transport and a Migrate message is refused as uncoordinated.

  Shown here: what one side writes the other reads back, message by message, whatever the framing and
  with or without a security layer; serial numbers strictly increase and cannot wrap; an envelope
  yields its sub-messages before its main message and never panics; acknowledgements are sent exactly
  once per window; and a read gives the same message however its bytes arrive, unless it is dropped
  before it is ready.
\<close>

section \<open>Client errors (error.rs)\<close>

text \<open>The variants that wrap the errors of image, video and audio codecs are left out.\<close>

datatype ClientError =
    ClientError_Configuration context_str
  | ClientError_Io
  | ClientError_Decode DecodeError
  | ClientError_Link LinkError
  | ClientError_Authentication
  | ClientError_Sasl context_str
  | ClientError_AuthenticationMechanism
  | ClientError_InvalidTicketKey
  | ClientError_TicketEncryption
  | ClientError_MessageTooLarge u32 nat
  | ClientError_UnsupportedMessage context_str u16
  | ClientError_RemoteDisconnect u32
  | ClientError_Cancelled
  | ClientError_TaskTerminated
  | ClientError_Internal context_str

type_synonym 'a client = "(ClientError, 'a) outcome"

abbreviation client_err :: "ClientError \<Rightarrow> 'a client" where
  "client_err e \<equiv> Inl (Err e)"

text \<open>The \<open>?\<close> operator on a protocol decoder: \<open>ClientError::from(DecodeError)\<close>.\<close>

definition from_decode :: "'a decoded \<Rightarrow> 'a client" where
  "from_decode m = (case m of Inl (Err e) \<Rightarrow> client_err (ClientError_Decode e) | Inl Panic \<Rightarrow> Inl Panic | Inr x \<Rightarrow> Inr x)"

definition protocol_size_error :: "context_str \<Rightarrow> ClientError" where
  "protocol_size_error ctx = ClientError_Decode (DecodeError_new InvalidValue 0 ctx)"

definition protocol_value_error :: "context_str \<Rightarrow> ClientError" where
  "protocol_value_error ctx = ClientError_Decode (DecodeError_new InvalidValue 0 ctx)"

definition unsupported_protocol_value :: "context_str \<Rightarrow> ClientError" where
  "unsupported_protocol_value ctx = ClientError_Decode (DecodeError_new Unsupported 0 ctx)"

lemma from_decode_simps [simp]:
  "from_decode (Inr x) = Inr x" "from_decode (Inl (Err e)) = client_err (ClientError_Decode e)"
  "from_decode (Inl Panic) = Inl Panic"
  by (simp_all add: from_decode_def)

lemma from_decode_Inr [simp]: "from_decode m = Inr x \<longleftrightarrow> m = Inr x"
  by (auto simp: from_decode_def split: sum.split abort.split)

lemma no_panic_from_decode [no_panic_intros]: "no_panic m \<Longrightarrow> no_panic (from_decode m)"
  by (auto simp: from_decode_def no_panic_def split: sum.split abort.split)

section \<open>Transport\<close>

record Stream =
  str_incoming :: "u8 list"
  str_outgoing :: "u8 list"
  str_writable :: bool

definition read_exact :: "nat \<Rightarrow> Stream \<Rightarrow> (u8 list \<times> Stream) client" where
  "read_exact n st =
     (if n \<le> length (str_incoming st)
      then Inr (take n (str_incoming st), st\<lparr>str_incoming := drop n (str_incoming st)\<rparr>)
      else client_err ClientError_Io)"

definition write_all :: "u8 list \<Rightarrow> Stream \<Rightarrow> Stream client" where
  "write_all bs st =
     (if str_writable st then Inr (st\<lparr>str_outgoing := str_outgoing st @ bs\<rparr>) else client_err ClientError_Io)"

subsection \<open>The SASL security layer (sasl.rs)\<close>

definition SASL_MAX_DATA_BYTES :: nat where [simp]: "SASL_MAX_DATA_BYTES = 1048576"
definition SASL_SECURITY_PLAINTEXT_BYTES :: nat where [simp]: "SASL_SECURITY_PLAINTEXT_BYTES = 8192"

text \<open>A mechanism call returns the bytes it consumed, its output and its next state.\<close>

type_synonym 'c mechanism = "'c \<Rightarrow> u8 list \<Rightarrow> (nat \<times> u8 list \<times> 'c) option"

definition frame_security_token :: "u8 list \<Rightarrow> u8 list client" where
  "frame_security_token token =
     and_then (ok_or (ClientError_Sasl STR ''SASL token length overflow'') (u32_try_from (length token)))
       (\<lambda>token_length. Inr (to_be 4 token_length @ token))"

definition SaslCodec_encode :: "'c mechanism \<Rightarrow> 'c \<Rightarrow> u8 list \<Rightarrow> (u8 list \<times> 'c) client" where
  "SaslCodec_encode session_encode c plaintext =
     and_then (ok_or (ClientError_Sasl STR ''mechanism'') (session_encode c plaintext)) (\<lambda>(consumed, token, c).
     if consumed \<noteq> length plaintext
     then client_err (ClientError_Sasl STR ''SASL security layer did not consume the complete input'')
     else if token = [] \<or> length token > SASL_MAX_DATA_BYTES
     then client_err (ClientError_Sasl STR ''invalid SASL security-layer output length'')
     else and_then (frame_security_token token) (\<lambda>framed. Inr (framed, c)))"

definition SaslCodec_decode :: "'c mechanism \<Rightarrow> 'c \<Rightarrow> u8 list \<Rightarrow> (u8 list \<times> 'c) client" where
  "SaslCodec_decode session_decode c token =
     and_then (ok_or (ClientError_Sasl STR ''mechanism'') (session_decode c token)) (\<lambda>(consumed, plaintext, c).
     if consumed \<noteq> length token \<or> plaintext = []
     then client_err (ClientError_Sasl STR ''invalid SASL security-layer input length'')
     else Inr (plaintext, c))"

subsection \<open>Channels\<close>

definition DEFAULT_MAX_MESSAGE_BODY :: nat where [simp]: "DEFAULT_MAX_MESSAGE_BODY = 16 * 1024 * 1024"

text \<open>\<open>write_buffer\<close> is scratch space that every write clears, and is not part of the state.\<close>

record 'c Channel =
  ch_stream :: Stream
  ch_framing :: Framing
  ch_next_serial :: u64
  ch_last_received_serial :: u64
  ch_received_serial_base :: u64
  ch_maximum_message_body :: nat
  ch_peer_channel_capabilities :: CapabilitySet
  ch_local_common_capabilities :: CapabilitySet
  ch_local_channel_capabilities :: CapabilitySet
  ch_sasl_codec :: "'c option"
  ch_sasl_decoded :: "u8 list"
  ch_sasl_decoded_offset :: nat
  ch_migration_activation_count :: u64

definition Channel_peer_supports :: "'c Channel \<Rightarrow> u32 \<Rightarrow> bool" where
  "Channel_peer_supports ch capability = CapabilitySet_contains (ch_peer_channel_capabilities ch) capability"

text \<open>\<open>u64::saturating_add\<close> and \<open>u64::checked_add\<close>\<close>

definition u64_saturating_add :: "u64 \<Rightarrow> u64 \<Rightarrow> u64" where
  "u64_saturating_add a b = (if unat a + unat b < 2 ^ 64 then a + b else -1)"

definition u64_checked_add :: "u64 \<Rightarrow> u64 \<Rightarrow> u64 option" where
  "u64_checked_add a b = (if unat a + unat b < 2 ^ 64 then Some (a + b) else None)"

definition Channel_received_serial :: "'c Channel \<Rightarrow> u64" where
  "Channel_received_serial ch = u64_saturating_add (ch_received_serial_base ch) (ch_last_received_serial ch)"

text \<open>
  The loop of \<open>read_exact_transport\<close> under a security layer: \<open>out\<close> is the part of the output already
  written, and \<open>need\<close> its full size.
\<close>

definition sasl_copy :: "nat \<Rightarrow> u8 list \<Rightarrow> 'c Channel \<Rightarrow> (u8 list \<times> 'c Channel) client" where
  "sasl_copy need out ch =
     (let decoded = ch_sasl_decoded ch; off = ch_sasl_decoded_offset ch;
          available = length decoded - off;
          copied = min available (need - length out) in
      and_then (slice_index decoded off (off + copied)) (\<lambda>bytes.
      let off = off + copied in
      Inr (out @ bytes,
           if off = length decoded then ch\<lparr>ch_sasl_decoded := [], ch_sasl_decoded_offset := 0\<rparr>
           else ch\<lparr>ch_sasl_decoded_offset := off\<rparr>)))"

definition sasl_fill :: "'c mechanism \<Rightarrow> 'c Channel \<Rightarrow> 'c Channel client" where
  "sasl_fill session_decode ch =
     and_then (read_exact 4 (ch_stream ch)) (\<lambda>(token_length_bytes, st).
     let token_length = unat (from_be token_length_bytes :: u32) in
     if token_length = 0 \<or> token_length > SASL_MAX_DATA_BYTES
     then client_err (protocol_value_error STR ''SASL security token length'')
     else
     and_then (read_exact token_length st) (\<lambda>(token, st).
     and_then (ok_or (ClientError_Internal STR ''missing SASL codec'') (ch_sasl_codec ch)) (\<lambda>c.
     and_then (SaslCodec_decode session_decode c token) (\<lambda>(plaintext, c).
     Inr (ch\<lparr>ch_stream := st, ch_sasl_codec := Some c, ch_sasl_decoded := plaintext\<rparr>)))))"

lemma sasl_copy_step:
  assumes "sasl_copy need out ch = Inr (out', ch')" "length out < need"
    "ch_sasl_decoded_offset ch < length (ch_sasl_decoded ch)"
  shows "length out < length out' \<and> str_incoming (ch_stream ch') = str_incoming (ch_stream ch)"
  using assms by (auto simp: sasl_copy_def Let_def slice_index_def)

lemma sasl_fill_step:
  "sasl_fill dec ch = Inr ch' \<Longrightarrow>
     length (str_incoming (ch_stream ch')) < length (str_incoming (ch_stream ch))"
  by (auto simp: sasl_fill_def read_exact_def Let_def split: if_splits)

function sasl_read_loop ::
    "'c mechanism \<Rightarrow> nat \<Rightarrow> u8 list \<Rightarrow> 'c Channel \<Rightarrow> (u8 list \<times> 'c Channel) client" where
  "sasl_read_loop session_decode need out ch =
     (if length out < need
      then if ch_sasl_decoded_offset ch < length (ch_sasl_decoded ch)
           then and_then (sasl_copy need out ch) (\<lambda>(out, ch). sasl_read_loop session_decode need out ch)
           else and_then (sasl_fill session_decode ch) (sasl_read_loop session_decode need out)
      else Inr (out, ch))"
  by pat_completeness auto
termination
  by (relation "measure (\<lambda>(dec, need, out, ch). length (str_incoming (ch_stream ch)) + (need - length out))")
     (auto dest!: sasl_copy_step sasl_fill_step)

declare sasl_read_loop.simps [simp del]

definition read_exact_transport ::
    "'c mechanism \<Rightarrow> nat \<Rightarrow> 'c Channel \<Rightarrow> (u8 list \<times> 'c Channel) client" where
  "read_exact_transport session_decode n ch =
     (if ch_sasl_codec ch = None
      then and_then (read_exact n (ch_stream ch)) (\<lambda>(bytes, st). Inr (bytes, ch\<lparr>ch_stream := st\<rparr>))
      else sasl_read_loop session_decode n [] ch)"

definition Channel_read_message ::
    "'c mechanism \<Rightarrow> 'c Channel \<Rightarrow> (DataHeader \<times> u8 list \<times> 'c Channel) client" where
  "Channel_read_message session_decode ch =
     and_then (read_exact_transport session_decode (Framing_header_len (ch_framing ch)) ch) (\<lambda>(header_bytes, ch).
     and_then (from_decode (DataHeader_decode (ch_framing ch) header_bytes)) (\<lambda>header.
     let body_len = unat (dh_body_size header) in
     if body_len > ch_maximum_message_body ch
     then client_err (ClientError_MessageTooLarge (dh_body_size header) (ch_maximum_message_body ch))
     else
     and_then (read_exact_transport session_decode body_len ch) (\<lambda>(body, ch).
     and_then (case dh_serial header of
         Some serial \<Rightarrow>
           (if serial > ch_last_received_serial ch then Inr serial
            else client_err (protocol_value_error STR ''server message serial regression''))
       | None \<Rightarrow> ok_or (protocol_value_error STR ''server message serial overflow'')
                   (u64_checked_add (ch_last_received_serial ch) 1)) (\<lambda>last.
     let ch = ch\<lparr>ch_last_received_serial := last\<rparr> in
     and_then (ok_or (protocol_value_error STR ''effective message serial overflow'')
                 (u64_checked_add (ch_received_serial_base ch) last)) (\<lambda>_.
     Inr (header, body, ch))))))"

subsubsection \<open>The future of a read\<close>

text \<open>
  \<open>read_message\<close> is an asynchronous function. On a channel without security layer its future is at one of
  two points, in front of the header or in front of the body, with the bytes it has taken from the stream so
  far in its own buffers. A poll takes the bytes that have arrived, as far as they are needed, and is pending
  when they do not suffice.
\<close>

datatype read_future = AwaitHeader "u8 list" | AwaitBody DataHeader "u8 list"

definition with_incoming :: "u8 list \<Rightarrow> 'c Channel \<Rightarrow> 'c Channel" where
  "with_incoming bs ch = ch\<lparr>ch_stream := (ch_stream ch)\<lparr>str_incoming := bs\<rparr>\<rparr>"

abbreviation incoming :: "'c Channel \<Rightarrow> u8 list" where
  "incoming ch \<equiv> str_incoming (ch_stream ch)"

definition poll_exact :: "nat \<Rightarrow> u8 list \<Rightarrow> 'c Channel \<Rightarrow> u8 list \<times> 'c Channel" where
  "poll_exact n buf ch =
     (buf @ take (n - length buf) (incoming ch), with_incoming (drop (n - length buf) (incoming ch)) ch)"

definition accept_message :: "DataHeader \<Rightarrow> u8 list \<Rightarrow> 'c Channel \<Rightarrow> (DataHeader \<times> u8 list \<times> 'c Channel) client" where
  "accept_message header body ch =
     and_then (case dh_serial header of
         Some serial \<Rightarrow>
           (if serial > ch_last_received_serial ch then Inr serial
            else client_err (protocol_value_error STR ''server message serial regression''))
       | None \<Rightarrow> ok_or (protocol_value_error STR ''server message serial overflow'')
                   (u64_checked_add (ch_last_received_serial ch) 1)) (\<lambda>last.
     let ch = ch\<lparr>ch_last_received_serial := last\<rparr> in
     and_then (ok_or (protocol_value_error STR ''effective message serial overflow'')
                 (u64_checked_add (ch_received_serial_base ch) last)) (\<lambda>_.
     Inr (header, body, ch)))"

definition poll_body ::
    "DataHeader \<Rightarrow> u8 list \<Rightarrow> 'c Channel \<Rightarrow> (read_future \<times> 'c Channel) + (DataHeader \<times> u8 list \<times> 'c Channel) client" where
  "poll_body header buf ch =
     (let n = unat (dh_body_size header); (buf, ch) = poll_exact n buf ch in
      if length buf < n then Inl (AwaitBody header buf, ch) else Inr (accept_message header buf ch))"

fun read_poll ::
    "read_future \<Rightarrow> 'c Channel \<Rightarrow> (read_future \<times> 'c Channel) + (DataHeader \<times> u8 list \<times> 'c Channel) client" where
  "read_poll (AwaitBody header buf) ch = poll_body header buf ch"
| "read_poll (AwaitHeader buf) ch =
     (let n = Framing_header_len (ch_framing ch); (buf, ch) = poll_exact n buf ch in
      if length buf < n then Inl (AwaitHeader buf, ch)
      else case from_decode (DataHeader_decode (ch_framing ch) buf) of
        Inl e \<Rightarrow> Inr (Inl e)
      | Inr header \<Rightarrow>
          if unat (dh_body_size header) > ch_maximum_message_body ch
          then Inr (client_err (ClientError_MessageTooLarge (dh_body_size header) (ch_maximum_message_body ch)))
          else poll_body header [] ch)"

text \<open>The future polled at once and after every arrival, until it is ready; the arrivals left over come later.\<close>

fun read_run ::
    "read_future \<Rightarrow> 'c Channel \<Rightarrow> u8 list list \<Rightarrow>
     (read_future \<times> 'c Channel) + ((DataHeader \<times> u8 list \<times> 'c Channel) client \<times> u8 list list)" where
  "read_run f ch bss =
     (case read_poll f ch of
        Inr r \<Rightarrow> Inr (r, bss)
      | Inl (f, ch) \<Rightarrow>
          (case bss of [] \<Rightarrow> Inl (f, ch) | bs # bss \<Rightarrow> read_run f (with_incoming (incoming ch @ bs) ch) bss))"

declare read_run.simps [simp del]

lemma with_incoming_simps [simp]:
  "incoming (with_incoming bs ch) = bs" "with_incoming bs (with_incoming cs ch) = with_incoming bs ch"
  "with_incoming (incoming ch) ch = ch"
  "ch_framing (with_incoming bs ch) = ch_framing ch" "ch_sasl_codec (with_incoming bs ch) = ch_sasl_codec ch"
  "ch_maximum_message_body (with_incoming bs ch) = ch_maximum_message_body ch"
  by (simp_all add: with_incoming_def)

lemma read_exact_transport_plain:
  "ch_sasl_codec ch = None \<Longrightarrow> read_exact_transport dec n ch =
     (if n \<le> length (incoming ch) then Inr (take n (incoming ch), with_incoming (drop n (incoming ch)) ch)
      else client_err ClientError_Io)"
  by (simp add: read_exact_transport_def read_exact_def with_incoming_def)

text \<open>What the future holds: the bytes taken so far, of a header still incomplete, or of a header with an
  acceptable size and of a body still incomplete.\<close>

definition future_holds :: "'c Channel \<Rightarrow> read_future \<Rightarrow> u8 list \<Rightarrow> bool" where
  "future_holds ch f bs \<longleftrightarrow>
     (case f of
        AwaitHeader buf \<Rightarrow> bs = buf \<and> length buf < Framing_header_len (ch_framing ch)
      | AwaitBody header buf \<Rightarrow> \<exists>hb. bs = hb @ buf \<and> length hb = Framing_header_len (ch_framing ch) \<and>
          DataHeader_decode (ch_framing ch) hb = Inr header \<and> unat (dh_body_size header) \<le> ch_maximum_message_body ch \<and>
          length buf < unat (dh_body_size header))"

lemma future_holds_with_incoming [simp]: "future_holds (with_incoming bs ch) = future_holds ch"
  by (simp add: future_holds_def fun_eq_iff split: read_future.split)

lemma Channel_read_message_short:
  assumes "ch_sasl_codec ch = None" "future_holds ch f (incoming ch)"
  shows "Channel_read_message dec ch = client_err ClientError_Io"
  using assms by (cases f) (auto simp: Channel_read_message_def future_holds_def read_exact_transport_plain Let_def)

lemma Channel_read_message_body:
  assumes "ch_sasl_codec ch = None" "incoming ch = hb @ bs" "length hb = Framing_header_len (ch_framing ch)"
    "DataHeader_decode (ch_framing ch) hb = Inr header" "unat (dh_body_size header) \<le> ch_maximum_message_body ch"
    "unat (dh_body_size header) \<le> length bs"
  shows "Channel_read_message dec ch =
    accept_message header (take (unat (dh_body_size header)) bs) (with_incoming (drop (unat (dh_body_size header)) bs) ch)"
  using assms by (simp add: Channel_read_message_def read_exact_transport_plain accept_message_def Let_def)

lemma poll_body_exact:
  assumes plain: "ch_sasl_codec ch = None" and hb: "length hb = Framing_header_len (ch_framing ch)"
    "DataHeader_decode (ch_framing ch) hb = Inr header" "unat (dh_body_size header) \<le> ch_maximum_message_body ch"
    and buf: "length buf \<le> unat (dh_body_size header)"
  shows "case poll_body header buf ch of
      Inl (f, ch') \<Rightarrow> future_holds ch f (hb @ buf @ incoming ch) \<and> ch' = with_incoming [] ch
    | Inr r \<Rightarrow> Channel_read_message dec (with_incoming (hb @ buf @ incoming ch) ch) = r"
proof (cases "unat (dh_body_size header) \<le> length buf + length (incoming ch)")
  case True
  with Channel_read_message_body [of "with_incoming (hb @ buf @ incoming ch) ch" hb "buf @ incoming ch" header] assms
  show ?thesis by (simp add: poll_body_def poll_exact_def Let_def)
next
  case False
  with assms show ?thesis by (simp add: poll_body_def poll_exact_def Let_def future_holds_def)
qed

lemma read_poll_exact:
  assumes plain: "ch_sasl_codec ch = None" and f: "future_holds ch f bs"
  shows "case read_poll f ch of
      Inl (f', ch') \<Rightarrow> future_holds ch f' (bs @ incoming ch) \<and> ch' = with_incoming [] ch
    | Inr r \<Rightarrow> Channel_read_message dec (with_incoming (bs @ incoming ch) ch) = r"
proof (cases f)
  case (AwaitBody header buf)
  with f obtain hb where hb: "bs = hb @ buf" "length hb = Framing_header_len (ch_framing ch)"
    "DataHeader_decode (ch_framing ch) hb = Inr header" "unat (dh_body_size header) \<le> ch_maximum_message_body ch"
    and buf: "length buf < unat (dh_body_size header)" by (auto simp: future_holds_def)
  from poll_body_exact [OF plain hb(2-4), of buf dec] buf show ?thesis
    unfolding AwaitBody hb(1) read_poll.simps append_assoc by simp
next
  case (AwaitHeader buf)
  let ?n = "Framing_header_len (ch_framing ch)"
  from AwaitHeader f have bs: "bs = buf" "length buf < ?n" by (simp_all add: future_holds_def)
  show ?thesis
  proof (cases "length buf + length (incoming ch) < ?n")
    case True
    with AwaitHeader bs show ?thesis by (simp add: poll_exact_def Let_def future_holds_def)
  next
    case False
    let ?hb = "buf @ take (?n - length buf) (incoming ch)" and ?rest = "drop (?n - length buf) (incoming ch)"
    show ?thesis
    proof (cases "DataHeader_decode (ch_framing ch) ?hb")
      case (Inl e)
      with False AwaitHeader bs plain show ?thesis
        by (cases e) (simp_all add: poll_exact_def Let_def Channel_read_message_def read_exact_transport_plain)
    next
      case (Inr header)
      show ?thesis
      proof (cases "unat (dh_body_size header) \<le> ch_maximum_message_body ch")
        case True
        with poll_body_exact [of "with_incoming ?rest ch" ?hb header "[]" dec] Inr False AwaitHeader bs plain show ?thesis
          by (simp add: poll_exact_def Let_def split: sum.splits prod.splits)
      next
        case large: False
        with Inr False AwaitHeader bs plain show ?thesis
          by (simp add: poll_exact_def Let_def Channel_read_message_def read_exact_transport_plain)
      qed
    qed
  qed
qed

lemma and_then_return: "and_then m Inr = m"
  by (cases m) simp_all

lemma accept_message_more:
  "accept_message header body (with_incoming (incoming ch @ later) ch) =
     and_then (accept_message header body ch) (\<lambda>(header, body, ch'). Inr (header, body, with_incoming (incoming ch' @ later) ch'))"
  by (simp add: accept_message_def Let_def with_incoming_def u64_checked_add_def split: option.split)

lemma Channel_read_message_more:
  assumes "ch_sasl_codec ch = None" "Channel_read_message dec ch \<noteq> client_err ClientError_Io"
  shows "Channel_read_message dec (with_incoming (incoming ch @ later) ch) =
    and_then (Channel_read_message dec ch) (\<lambda>(header, body, ch'). Inr (header, body, with_incoming (incoming ch' @ later) ch'))"
proof (cases "Framing_header_len (ch_framing ch) \<le> length (incoming ch)")
  case True
  let ?n = "Framing_header_len (ch_framing ch)"
  let ?hb = "take ?n (incoming ch)" and ?bs = "drop ?n (incoming ch)"
  show ?thesis
  proof (cases "DataHeader_decode (ch_framing ch) ?hb")
    case (Inl e)
    with True assms(1) show ?thesis by (simp add: Channel_read_message_def read_exact_transport_plain from_decode_def split: abort.split)
  next
    case (Inr header)
    let ?k = "unat (dh_body_size header)"
    show ?thesis
    proof (cases "?k \<le> ch_maximum_message_body ch")
      case False
      with True assms(1) Inr show ?thesis by (simp add: Channel_read_message_def read_exact_transport_plain)
    next
      case k: True
      with assms True Inr have b: "?k \<le> length ?bs"
        by (rule_tac ccontr) (simp add: Channel_read_message_def read_exact_transport_plain)
      have hb: "length ?hb = ?n" using True by simp
      have "Channel_read_message dec ch = accept_message header (take ?k ?bs) (with_incoming (drop ?k ?bs) ch)"
        by (rule Channel_read_message_body [OF assms(1) _ hb Inr k b]) simp
      moreover have "Channel_read_message dec (with_incoming (incoming ch @ later) ch) =
          accept_message header (take ?k ?bs) (with_incoming (drop ?k ?bs @ later) ch)"
        using Channel_read_message_body [of "with_incoming (incoming ch @ later) ch" ?hb "?bs @ later" header dec]
          assms(1) True Inr k b by simp
      ultimately show ?thesis using accept_message_more [of header _ "with_incoming (drop ?k ?bs) ch" later] by simp
    qed
  qed
next
  case False
  with assms show ?thesis by (simp add: Channel_read_message_def read_exact_transport_plain)
qed

lemma accept_message_not_Io: "accept_message header body ch \<noteq> client_err ClientError_Io"
  by (simp add: accept_message_def Let_def u64_checked_add_def protocol_value_error_def split: option.split)

lemma read_poll_not_Io: "read_poll f ch \<noteq> Inr (client_err ClientError_Io)"
  by (cases f) (auto simp: poll_body_def Let_def accept_message_not_Io from_decode_def split: sum.split abort.split prod.split)

lemma read_run_exact:
  assumes "ch_sasl_codec ch = None" "future_holds ch f bs"
  shows "case read_run f ch bss of
      Inl (f', ch') \<Rightarrow> future_holds ch f' (bs @ incoming ch @ concat bss) \<and> ch' = with_incoming [] ch
    | Inr (r, rest) \<Rightarrow> Channel_read_message dec (with_incoming (bs @ incoming ch @ concat bss) ch) =
        and_then r (\<lambda>(header, body, ch'). Inr (header, body, with_incoming (incoming ch' @ concat rest) ch'))"
  using assms
proof (induction bss arbitrary: f ch bs)
  case Nil
  with read_poll_exact [OF Nil, of dec] show ?case
    by (auto simp: read_run.simps [of f ch "[]"] and_then_return split: sum.split_asm prod.split_asm)
next
  case (Cons b bss)
  note poll = read_poll_exact [OF Cons.prems, of dec]
  show ?case
  proof (cases "read_poll f ch")
    case (Inr r)
    with poll have r: "Channel_read_message dec (with_incoming (bs @ incoming ch) ch) = r" by simp
    moreover have "r \<noteq> client_err ClientError_Io" using Inr read_poll_not_Io by metis
    ultimately show ?thesis
      using Channel_read_message_more [of "with_incoming (bs @ incoming ch) ch" dec "concat (b # bss)"] Cons.prems(1) Inr
      by (simp add: read_run.simps [of f ch])
  next
    case (Inl fc)
    with poll obtain f' where f': "fc = (f', with_incoming [] ch)" "future_holds ch f' (bs @ incoming ch)"
      by (cases fc) simp
    let ?ch = "with_incoming b ch"
    from Cons.IH [of ?ch f' "bs @ incoming ch"] f'(2) Cons.prems(1) Inl f'(1) show ?thesis
      by (simp add: read_run.simps [of f ch] split: sum.splits prod.splits)
  qed
qed

text \<open>\<open>chunks\<close>: consecutive pieces of at most \<open>n\<close> elements, the last one possibly shorter.\<close>

function chunks :: "nat \<Rightarrow> 'a list \<Rightarrow> 'a list list" where
  "chunks n xs = (if n = 0 \<or> xs = [] then [] else take n xs # chunks n (drop n xs))"
  by pat_completeness auto
termination by (relation "measure (\<lambda>(n, xs). length xs)") auto

declare chunks.simps [simp del]

fun sasl_write :: "'c mechanism \<Rightarrow> 'c \<Rightarrow> u8 list list \<Rightarrow> Stream \<Rightarrow> ('c \<times> Stream) client" where
  "sasl_write session_encode c [] st = Inr (c, st)"
| "sasl_write session_encode c (plaintext # ps) st =
     and_then (SaslCodec_encode session_encode c plaintext) (\<lambda>(encoded, c).
     and_then (write_all encoded st) (sasl_write session_encode c ps))"

definition Channel_write_message ::
    "'c mechanism \<Rightarrow> u16 \<Rightarrow> u8 list \<Rightarrow> 'c Channel \<Rightarrow> 'c Channel client" where
  "Channel_write_message session_encode message_type body ch =
     and_then (ok_or (ClientError_MessageTooLarge (-1) (ch_maximum_message_body ch))
                 (u32_try_from (length body))) (\<lambda>body_size.
     if length body > ch_maximum_message_body ch
     then client_err (ClientError_MessageTooLarge body_size (ch_maximum_message_body ch))
     else
     let write_buffer =
       DataHeader_encode (ch_framing ch) (ch_next_serial ch) message_type body_size [] @ body in
     and_then (case ch_sasl_codec ch of
         Some c \<Rightarrow>
           and_then (sasl_write session_encode c (chunks SASL_SECURITY_PLAINTEXT_BYTES write_buffer) (ch_stream ch))
             (\<lambda>(c, st). Inr (ch\<lparr>ch_sasl_codec := Some c, ch_stream := st\<rparr>))
       | None \<Rightarrow> and_then (write_all write_buffer (ch_stream ch)) (\<lambda>st. Inr (ch\<lparr>ch_stream := st\<rparr>))) (\<lambda>ch.
     and_then (ok_or (protocol_value_error STR ''client message serial overflow'')
                 (u64_checked_add (ch_next_serial ch) 1)) (\<lambda>next.
     Inr (ch\<lparr>ch_next_serial := next\<rparr>))))"

section \<open>What is written is read back\<close>

text \<open>
  \<open>sealed dec c ps bs\<close>: the wire bytes \<open>bs\<close> are frames of tokens from which the mechanism, starting in
  state \<open>c\<close>, recovers the plaintexts \<open>ps\<close>.
\<close>

inductive sealed :: "'c mechanism \<Rightarrow> 'c \<Rightarrow> u8 list list \<Rightarrow> u8 list \<Rightarrow> bool" for dec where
  sealed_Nil: "sealed dec c [] []"
| sealed_Cons: "token \<noteq> [] \<Longrightarrow> length token \<le> 1048576 \<Longrightarrow> p \<noteq> [] \<Longrightarrow> dec c token = Some (length token, p, c') \<Longrightarrow>
    sealed dec c' ps bs \<Longrightarrow> sealed dec c (p # ps) (to_be 4 (of_nat (length token) :: u32) @ token @ bs)"

inductive_cases sealed_NilE: "sealed dec c [] bs"
inductive_cases sealed_ConsE: "sealed dec c (p # ps) bs"

text \<open>\<open>plain_view dec ch plain\<close>: the plaintext that is still to be read from the channel is \<open>plain\<close>.\<close>

definition plain_view :: "'c mechanism \<Rightarrow> 'c Channel \<Rightarrow> u8 list \<Rightarrow> bool" where
  "plain_view dec ch plain \<longleftrightarrow>
     (case ch_sasl_codec ch of
        None \<Rightarrow> str_incoming (ch_stream ch) = plain
      | Some c \<Rightarrow> ch_sasl_decoded_offset ch \<le> length (ch_sasl_decoded ch) \<and>
          (ch_sasl_decoded_offset ch = length (ch_sasl_decoded ch) \<longrightarrow> ch_sasl_decoded_offset ch = 0) \<and>
          (\<exists>ps. sealed dec c ps (str_incoming (ch_stream ch)) \<and>
                plain = drop (ch_sasl_decoded_offset ch) (ch_sasl_decoded ch) @ concat ps))"

text \<open>The part of a channel that reading leaves alone.\<close>

definition same_channel :: "'c Channel \<Rightarrow> 'c Channel \<Rightarrow> bool" where
  "same_channel ch ch' \<longleftrightarrow>
     ch_framing ch' = ch_framing ch \<and> ch_next_serial ch' = ch_next_serial ch \<and>
     ch_last_received_serial ch' = ch_last_received_serial ch \<and>
     ch_received_serial_base ch' = ch_received_serial_base ch \<and>
     ch_maximum_message_body ch' = ch_maximum_message_body ch \<and>
     str_outgoing (ch_stream ch') = str_outgoing (ch_stream ch) \<and>
     str_writable (ch_stream ch') = str_writable (ch_stream ch) \<and>
     (ch_sasl_codec ch' = None \<longleftrightarrow> ch_sasl_codec ch = None) \<and>
     ch_migration_activation_count ch' = ch_migration_activation_count ch"

lemma same_channel_refl [simp]: "same_channel ch ch"
  by (simp add: same_channel_def)

lemma same_channel_trans: "same_channel a b \<Longrightarrow> same_channel b c \<Longrightarrow> same_channel a c"
  by (auto simp: same_channel_def)

lemma slice_index_tail:
  "a + k \<le> length xs \<Longrightarrow> slice_index xs a (a + k) = Inr (take k (drop a xs))"
  by (simp add: slice_index_def)

lemma sasl_copy_view:
  assumes "plain_view dec ch plain" "ch_sasl_codec ch = Some c" "length out < need"
    "need - length out \<le> length plain" "ch_sasl_decoded_offset ch < length (ch_sasl_decoded ch)"
  shows "\<exists>k ch'. sasl_copy need out ch = Inr (out @ take k plain, ch') \<and> 0 < k \<and> k \<le> need - length out \<and>
    ch_sasl_codec ch' = Some c \<and> plain_view dec ch' (drop k plain) \<and> same_channel ch ch'"
proof -
  define d where "d = drop (ch_sasl_decoded_offset ch) (ch_sasl_decoded ch)"
  define k where "k = min (length d) (need - length out)"
  obtain ps where ps: "sealed dec c ps (str_incoming (ch_stream ch))" "plain = d @ concat ps"
    using assms(1,2) by (auto simp: plain_view_def d_def)
  have d: "0 < length d" "length d = length (ch_sasl_decoded ch) - ch_sasl_decoded_offset ch"
    using assms(5) by (auto simp: d_def)
  have k: "0 < k" "k \<le> need - length out" "k \<le> length d" using d assms(3) by (auto simp: k_def)
  have take: "take k plain = take k d" using k ps(2) by simp
  let ?off = "ch_sasl_decoded_offset ch + k"
  let ?ch = "if ?off = length (ch_sasl_decoded ch) then ch\<lparr>ch_sasl_decoded := [], ch_sasl_decoded_offset := 0\<rparr>
             else ch\<lparr>ch_sasl_decoded_offset := ?off\<rparr>"
  have kd: "k = min (length (ch_sasl_decoded ch) - ch_sasl_decoded_offset ch) (need - length out)"
    by (simp only: k_def d(2))
  have "sasl_copy need out ch = Inr (out @ take k plain, ?ch)"
    unfolding sasl_copy_def Let_def kd [symmetric] take using k d(2)
    by (simp add: slice_index_tail d_def)
  moreover have "plain_view dec ?ch (drop k plain)"
    using ps k d assms(2) by (auto simp: plain_view_def d_def add.commute)
  moreover have "same_channel ch ?ch" "ch_sasl_codec ?ch = Some c" using assms(2) by (simp_all add: same_channel_def)
  ultimately show ?thesis using k by blast
qed

lemma sasl_fill_view:
  assumes "plain_view dec ch plain" "ch_sasl_codec ch = Some c" "plain \<noteq> []"
    "\<not> ch_sasl_decoded_offset ch < length (ch_sasl_decoded ch)"
  shows "\<exists>c' ch'. sasl_fill dec ch = Inr ch' \<and> ch_sasl_codec ch' = Some c' \<and> plain_view dec ch' plain \<and>
    same_channel ch ch'"
proof -
  obtain ps where ps: "sealed dec c ps (str_incoming (ch_stream ch))" "plain = concat ps"
      and off: "ch_sasl_decoded_offset ch = 0"
    using assms by (auto simp: plain_view_def)
  from ps(2) assms(3) obtain p qs where "ps = p # qs" by (cases ps) auto
  with ps obtain token c' bs where t: "token \<noteq> []" "length token \<le> 1048576" "p \<noteq> []"
      "dec c token = Some (length token, p, c')" "sealed dec c' qs bs"
      and inc: "str_incoming (ch_stream ch) = to_be 4 (of_nat (length token) :: u32) @ token @ bs"
    by (auto elim: sealed_ConsE)
  have len: "unat (from_be (to_be 4 (of_nat (length token) :: u32)) :: u32) = length token"
    using t(2) by simp
  have plain: "plain = p @ concat qs" using \<open>ps = p # qs\<close> ps(2) by simp
  let ?ch = "ch\<lparr>ch_stream := (ch_stream ch)\<lparr>str_incoming := bs\<rparr>, ch_sasl_codec := Some c', ch_sasl_decoded := p\<rparr>"
  have "sasl_fill dec ch = Inr ?ch"
    using inc t len assms(2)
    by (simp add: sasl_fill_def read_exact_def Let_def SaslCodec_decode_def)
  moreover have "plain_view dec ?ch plain" using t(3,5) plain off by (auto simp: plain_view_def)
  moreover have "same_channel ch ?ch" using assms(2) by (simp add: same_channel_def)
  ultimately show ?thesis by auto
qed

lemma sasl_read_loop_view:
  assumes "plain_view dec ch plain" "ch_sasl_codec ch = Some c" "length out \<le> need" "need - length out \<le> length plain"
  shows "\<exists>ch'. sasl_read_loop dec need out ch = Inr (out @ take (need - length out) plain, ch') \<and>
    plain_view dec ch' (drop (need - length out) plain) \<and> same_channel ch ch'"
  using assms
proof (induction dec need out ch arbitrary: plain c rule: sasl_read_loop.induct)
  case (1 dec need out ch)
  note loop = sasl_read_loop.simps [of dec need out ch]
  consider (full) "need = length out" | (copy) "length out < need" "ch_sasl_decoded_offset ch < length (ch_sasl_decoded ch)"
    | (fill) "length out < need" "\<not> ch_sasl_decoded_offset ch < length (ch_sasl_decoded ch)"
    using "1.prems"(3) by linarith
  then show ?case
  proof cases
    case full
    then show ?thesis using "1.prems" loop by simp
  next
    case copy
    obtain k ch' where c: "sasl_copy need out ch = Inr (out @ take k plain, ch')" "0 < k" "k \<le> need - length out"
        "ch_sasl_codec ch' = Some c" "plain_view dec ch' (drop k plain)" "same_channel ch ch'"
      using sasl_copy_view [OF "1.prems"(1,2) copy(1) "1.prems"(4) copy(2)] by blast
    have l: "length (out @ take k plain) = length out + k" using c(3) "1.prems"(4) by simp
    obtain ch'' where "sasl_read_loop dec need (out @ take k plain) ch' =
        Inr ((out @ take k plain) @ take (need - length (out @ take k plain)) (drop k plain), ch'')"
        "plain_view dec ch'' (drop (need - length (out @ take k plain)) (drop k plain))" "same_channel ch' ch''"
    proof -
      have "length (out @ take k plain) \<le> need"
        "need - length (out @ take k plain) \<le> length (drop k plain)"
        using c(3) copy(1) "1.prems"(4) l by auto
      from "1.IH"(1) [OF copy c(1) refl c(5,4) this] that show ?thesis by blast
    qed
    moreover have "take k plain @ take (need - length out - k) (drop k plain) = take (need - length out) plain"
      using c(3) by (metis le_add_diff_inverse take_add)
    ultimately show ?thesis
      using loop copy c(1,3,6) l by (auto intro: same_channel_trans simp: add.commute)
  next
    case fill
    with "1.prems"(4) have "plain \<noteq> []" by auto
    then obtain c' ch' where f: "sasl_fill dec ch = Inr ch'" "ch_sasl_codec ch' = Some c'" "plain_view dec ch' plain"
        "same_channel ch ch'"
      using sasl_fill_view [OF "1.prems"(1,2) _ fill(2)] by blast
    from "1.IH"(2) [OF fill f(1,3,2) "1.prems"(3,4)] loop fill f(1,4)
    show ?thesis by (auto intro: same_channel_trans)
  qed
qed

lemma read_exact_transport_view:
  assumes "plain_view dec ch plain" "n \<le> length plain"
  shows "\<exists>ch'. read_exact_transport dec n ch = Inr (take n plain, ch') \<and> plain_view dec ch' (drop n plain) \<and>
    same_channel ch ch'"
proof (cases "ch_sasl_codec ch")
  case None
  with assms show ?thesis
    by (auto simp: read_exact_transport_def read_exact_def plain_view_def same_channel_def)
next
  case (Some c)
  with sasl_read_loop_view [OF assms(1) Some, of "[]" n] assms(2) show ?thesis
    by (auto simp: read_exact_transport_def)
qed

subsection \<open>Writing\<close>

definition message_frame :: "Framing \<Rightarrow> u64 \<Rightarrow> u16 \<Rightarrow> u8 list \<Rightarrow> u8 list" where
  "message_frame framing serial message_type body =
     DataHeader_encode framing serial message_type (of_nat (length body)) [] @ body"

text \<open>
  The two ends of a mechanism agree: when the states are related by \<open>R\<close>, what one end encodes the other
  end decodes completely, and the states stay related.
\<close>

definition layer_pair :: "'c mechanism \<Rightarrow> 'd mechanism \<Rightarrow> ('c \<Rightarrow> 'd \<Rightarrow> bool) \<Rightarrow> bool" where
  "layer_pair enc dec R \<longleftrightarrow>
     (\<forall>c d p n t c'. R c d \<longrightarrow> enc c p = Some (n, t, c') \<longrightarrow> (\<exists>d'. dec d t = Some (length t, p, d') \<and> R c' d'))"

lemma chunks_concat [simp]: "0 < n \<Longrightarrow> concat (chunks n xs) = xs"
  by (induction n xs rule: chunks.induct) (subst chunks.simps, auto)

lemma chunks_nonempty: "p \<in> set (chunks n xs) \<Longrightarrow> p \<noteq> []"
  by (induction n xs rule: chunks.induct) (subst (asm) (2) chunks.simps, auto split: if_splits)

lemma sealed_write:
  assumes "layer_pair enc dec R" "R c d" "\<And>p. p \<in> set ps \<Longrightarrow> p \<noteq> []" "sasl_write enc c ps st = Inr (c', st')"
  shows "\<exists>bs d'. st' = st\<lparr>str_outgoing := str_outgoing st @ bs\<rparr> \<and> R c' d' \<and>
    (\<forall>qs bs'. sealed dec d' qs bs' \<longrightarrow> sealed dec d (ps @ qs) (bs @ bs'))"
  using assms(2-)
proof (induction ps arbitrary: c d st)
  case Nil
  then show ?case by (auto intro!: exI [of _ "[]"])
next
  case (Cons p ps)
  then obtain token c1 st1 where enc: "enc c p = Some (length p, token, c1)"
      and t: "token \<noteq> []" "length token \<le> 1048576"
      and st1: "st1 = st\<lparr>str_outgoing := str_outgoing st @ to_be 4 (of_nat (length token) :: u32) @ token\<rparr>"
      and rest: "sasl_write enc c1 ps st1 = Inr (c', st')"
    by (auto simp: SaslCodec_encode_def frame_security_token_def write_all_def split: if_splits)
  from assms(1) enc Cons.prems(1) obtain d1 where dec: "dec d token = Some (length token, p, d1)" "R c1 d1"
    unfolding layer_pair_def by blast
  from Cons.IH [OF dec(2) _ rest] Cons.prems(2) obtain bs d' where ih: "st' = st1\<lparr>str_outgoing := str_outgoing st1 @ bs\<rparr>"
      "R c' d'" "\<And>qs bs'. sealed dec d' qs bs' \<Longrightarrow> sealed dec d1 (ps @ qs) (bs @ bs')" by auto
  have "sealed dec d ((p # ps) @ qs) ((to_be 4 (of_nat (length token) :: u32) @ token @ bs) @ bs')"
    if "sealed dec d' qs bs'" for qs bs'
    using sealed_Cons [OF t _ dec(1) ih(3) [OF that]] Cons.prems(2) by simp
  with ih(1,2) st1 show ?case
    by (intro exI [of _ "to_be 4 (of_nat (length token) :: u32) @ token @ bs"] exI [of _ d']) simp
qed

text \<open>
  \<open>carries\<close>: the bytes \<open>bs\<close> that a writer with codec \<open>c\<close> put on the wire, in front of whatever follows,
  give a reader with codec \<open>d\<close> the plaintext \<open>plain\<close>.
\<close>

definition carries :: "'d mechanism \<Rightarrow> 'd option \<Rightarrow> u8 list \<Rightarrow> u8 list \<Rightarrow> 'd option \<Rightarrow> bool" where
  "carries dec d bs plain d' \<longleftrightarrow>
     (case (d, d') of
        (None, None) \<Rightarrow> bs = plain
      | (Some d, Some d') \<Rightarrow> \<exists>ps. concat ps = plain \<and> (\<forall>qs bs'. sealed dec d' qs bs' \<longrightarrow> sealed dec d (ps @ qs) (bs @ bs'))
      | _ \<Rightarrow> False)"

abbreviation codecs_match :: "('c \<Rightarrow> 'd \<Rightarrow> bool) \<Rightarrow> 'c option \<Rightarrow> 'd option \<Rightarrow> bool" where
  "codecs_match R \<equiv> rel_option R"

lemma carries_append:
  assumes "carries dec d1 bs1 p1 d2" "carries dec d2 bs2 p2 d3"
  shows "carries dec d1 (bs1 @ bs2) (p1 @ p2) d3"
proof (cases d1)
  case None
  with assms show ?thesis by (cases d2; cases d3) (auto simp: carries_def)
next
  case (Some a)
  with assms obtain b c where d: "d2 = Some b" "d3 = Some c" by (cases d2; cases d3) (auto simp: carries_def)
  from assms Some d obtain ps qs where "concat ps = p1" "concat qs = p2"
      "\<And>rs bs'. sealed dec b rs bs' \<Longrightarrow> sealed dec a (ps @ rs) (bs1 @ bs')"
      "\<And>rs bs'. sealed dec c rs bs' \<Longrightarrow> sealed dec b (qs @ rs) (bs2 @ bs')"
    by (auto simp: carries_def)
  then show ?thesis unfolding Some d carries_def by (auto intro!: exI [of _ "ps @ qs"])
qed

lemma Channel_write_message_carries:
  assumes pair: "layer_pair enc dec R" and m: "codecs_match R (ch_sasl_codec w) d"
    and run: "Channel_write_message enc mt body w = Inr w'"
  shows "\<exists>bs d'. str_outgoing (ch_stream w') = str_outgoing (ch_stream w) @ bs \<and>
    carries dec d bs (message_frame (ch_framing w) (ch_next_serial w) mt body) d' \<and>
    codecs_match R (ch_sasl_codec w') d' \<and>
    length body \<le> ch_maximum_message_body w \<and> length body < 2 ^ 32 \<and>
    ch_framing w' = ch_framing w \<and> ch_maximum_message_body w' = ch_maximum_message_body w \<and>
    unat (ch_next_serial w) + 1 < 2 ^ 64 \<and> ch_next_serial w' = ch_next_serial w + 1"
proof -
  let ?buf = "message_frame (ch_framing w) (ch_next_serial w) mt body"
  obtain size :: u32 where size: "u32_try_from (length body) = Some size" using run by (auto simp: Channel_write_message_def)
  then have size': "size = of_nat (length body)" "length body < 2 ^ 32"
    by (auto simp: u32_try_from_def split: if_splits)
  have max: "length body \<le> ch_maximum_message_body w"
    using run size by (auto simp: Channel_write_message_def not_less split: if_splits)
  show ?thesis
  proof (cases "ch_sasl_codec w")
    case None
    then have "d = None" using m by simp
    with None run size size' max show ?thesis
      by (auto simp: Channel_write_message_def Let_def write_all_def u64_checked_add_def message_frame_def
          carries_def split: if_splits)
  next
    case (Some c)
    then obtain e where d: "d = Some e" "R c e" using m by (cases d) auto
    from run size size' max Some obtain c' st' where
        wr: "sasl_write enc c (chunks 8192 ?buf) (ch_stream w) = Inr (c', st')"
        and w': "w' = w\<lparr>ch_sasl_codec := Some c', ch_stream := st', ch_next_serial := ch_next_serial w + 1\<rparr>"
        and ser: "unat (ch_next_serial w) + 1 < 2 ^ 64"
      by (auto simp: Channel_write_message_def Let_def message_frame_def u64_checked_add_def split: if_splits)
    have "\<And>p. p \<in> set (chunks 8192 ?buf) \<Longrightarrow> p \<noteq> []" by (rule chunks_nonempty)
    from sealed_write [OF pair d(2) this wr] obtain bs d' where
      "st' = (ch_stream w)\<lparr>str_outgoing := str_outgoing (ch_stream w) @ bs\<rparr>" "R c' d'"
      "\<forall>qs bs'. sealed dec d' qs bs' \<longrightarrow> sealed dec e (chunks 8192 ?buf @ qs) (bs @ bs')" by auto
    with w' ser max size'(2) d show ?thesis
      by (auto simp: carries_def intro!: exI [of _ bs] exI [of _ "Some d'"] exI [of _ "chunks 8192 ?buf"])
  qed
qed

subsection \<open>Sequences of messages\<close>

fun write_messages :: "'c mechanism \<Rightarrow> (u16 \<times> u8 list) list \<Rightarrow> 'c Channel \<Rightarrow> 'c Channel client" where
  "write_messages enc [] ch = Inr ch"
| "write_messages enc ((mt, body) # ms) ch = and_then (Channel_write_message enc mt body ch) (write_messages enc ms)"

fun read_messages :: "'c mechanism \<Rightarrow> nat \<Rightarrow> 'c Channel \<Rightarrow> ((DataHeader \<times> u8 list) list \<times> 'c Channel) client" where
  "read_messages dec 0 ch = Inr ([], ch)"
| "read_messages dec (Suc n) ch =
     and_then (Channel_read_message dec ch) (\<lambda>(header, body, ch).
     and_then (read_messages dec n ch) (\<lambda>(ms, ch). Inr ((header, body) # ms, ch)))"

lemma length_DataHeader_encode [simp]:
  "length (DataHeader_encode framing serial mt sz []) = Framing_header_len framing"
  by (cases framing) (simp_all add: DataHeader_encode_def)

lemma DataHeader_decode_frame:
  "DataHeader_decode framing (DataHeader_encode framing serial mt sz []) =
     Inr \<lparr>dh_serial = (if framing = Framing_Full then Some serial else None), dh_message_type = mt,
          dh_body_size = sz, dh_sub_list_offset = (if framing = Framing_Full then Some 0 else None)\<rparr>"
  by (cases framing) (simp_all add: DataHeader_decode_encode_mini DataHeader_decode_encode_full)

lemma u64_add_one: "unat (a :: u64) + 1 < 2 ^ 64 \<Longrightarrow> unat (a + 1) = unat a + 1 \<and> a < a + 1"
  by (simp add: word_less_nat_alt unat_word_ariths)

definition frame_header :: "Framing \<Rightarrow> u64 \<Rightarrow> u16 \<Rightarrow> u8 list \<Rightarrow> DataHeader" where
  "frame_header framing serial mt body =
     \<lparr>dh_serial = (if framing = Framing_Full then Some serial else None), dh_message_type = mt,
      dh_body_size = of_nat (length body), dh_sub_list_offset = (if framing = Framing_Full then Some 0 else None)\<rparr>"

lemma Channel_read_message_frame:
  assumes view: "plain_view dec r (message_frame (ch_framing r) (ch_last_received_serial r + 1) mt body @ rest)"
    and body: "length body \<le> ch_maximum_message_body r" "length body < 2 ^ 32"
    and serial: "unat (ch_last_received_serial r) + 1 < 2 ^ 64" "ch_received_serial_base r = 0"
  shows "\<exists>r'. Channel_read_message dec r =
      Inr (frame_header (ch_framing r) (ch_last_received_serial r + 1) mt body, body, r') \<and>
    plain_view dec r' rest \<and> ch_last_received_serial r' = ch_last_received_serial r + 1 \<and>
    ch_framing r' = ch_framing r \<and> ch_maximum_message_body r' = ch_maximum_message_body r \<and>
    ch_received_serial_base r' = 0"
proof -
  let ?s = "ch_last_received_serial r + 1" and ?n = "Framing_header_len (ch_framing r)"
  let ?h = "frame_header (ch_framing r) ?s mt body"
  let ?e = "DataHeader_encode (ch_framing r) ?s mt (of_nat (length body)) []"
  have plain: "message_frame (ch_framing r) ?s mt body @ rest = ?e @ body @ rest" by (simp add: message_frame_def)
  obtain r1 where r1: "read_exact_transport dec ?n r = Inr (?e, r1)" "plain_view dec r1 (body @ rest)" "same_channel r r1"
    using read_exact_transport_view [OF view, of ?n] unfolding plain by auto
  obtain r2 where r2: "read_exact_transport dec (length body) r1 = Inr (body, r2)" "plain_view dec r2 rest" "same_channel r1 r2"
    using read_exact_transport_view [OF r1(2), of "length body"] by auto
  have same: "same_channel r r2" using r1(3) r2(3) by (rule same_channel_trans)
  have h: "DataHeader_decode (ch_framing r1) ?e = Inr ?h" "unat (dh_body_size ?h) = length body"
    using r1(3) body(2) by (simp_all add: same_channel_def DataHeader_decode_frame frame_header_def)
  have last: "ch_last_received_serial r2 = ch_last_received_serial r" "ch_received_serial_base r2 = 0"
      "ch_maximum_message_body r1 = ch_maximum_message_body r" "ch_framing r2 = ch_framing r" "ch_framing r1 = ch_framing r"
      "ch_maximum_message_body r2 = ch_maximum_message_body r"
    using same serial r1(3) by (simp_all add: same_channel_def)
  note s = u64_add_one [OF serial(1)]
  have "(case dh_serial ?h of
          Some serial \<Rightarrow> if serial > ch_last_received_serial r2 then Inr serial
            else client_err (protocol_value_error STR ''server message serial regression'')
        | None \<Rightarrow> ok_or (protocol_value_error STR ''server message serial overflow'')
            (u64_checked_add (ch_last_received_serial r2) 1)) = Inr ?s"
    using s serial(1) last by (simp add: frame_header_def u64_checked_add_def)
  moreover have "u64_checked_add 0 ?s = Some ?s" using s serial(1) by (simp add: u64_checked_add_def)
  ultimately have "Channel_read_message dec r = Inr (?h, body, r2\<lparr>ch_last_received_serial := ?s\<rparr>)"
    using r1(1) r2(1) h last body(1) by (simp add: Channel_read_message_def Let_def)
  moreover have "plain_view dec (r2\<lparr>ch_last_received_serial := ?s\<rparr>) rest"
    using r2(2) by (cases "ch_sasl_codec r2") (simp_all add: plain_view_def)
  ultimately show ?thesis using last by auto
qed

lemma write_messages_carries:
  assumes pair: "layer_pair enc dec R" and "codecs_match R (ch_sasl_codec w) d" "write_messages enc ms w = Inr w'"
  shows "\<exists>bs d'. str_outgoing (ch_stream w') = str_outgoing (ch_stream w) @ bs \<and> codecs_match R (ch_sasl_codec w') d' \<and>
    carries dec d bs (concat (map (\<lambda>(i, mt, body). message_frame (ch_framing w) (ch_next_serial w + of_nat i) mt body)
      (enumerate 0 ms))) d' \<and>
    (\<forall>(mt, body) \<in> set ms. length body \<le> ch_maximum_message_body w \<and> length body < 2 ^ 32) \<and>
    unat (ch_next_serial w) + length ms < 2 ^ 64"
  using assms(2-)
proof (induction ms arbitrary: w d)
  case Nil
  then show ?case
    using unsigned_less [of "ch_next_serial w"]
    by (auto simp: carries_def split: option.splits intro!: exI [of _ d] exI [of _ "[]"] elim!: option.rel_cases)
next
  case (Cons m ms)
  obtain mt body where m: "m = (mt, body)" by (cases m)
  from Cons.prems m obtain w1 where w1: "Channel_write_message enc mt body w = Inr w1" "write_messages enc ms w1 = Inr w'"
    by auto
  from Channel_write_message_carries [OF pair Cons.prems(1) w1(1)] obtain bs1 d1 where
      a: "str_outgoing (ch_stream w1) = str_outgoing (ch_stream w) @ bs1"
        "carries dec d bs1 (message_frame (ch_framing w) (ch_next_serial w) mt body) d1"
        "codecs_match R (ch_sasl_codec w1) d1" "length body \<le> ch_maximum_message_body w" "length body < 2 ^ 32"
        "ch_framing w1 = ch_framing w" "ch_maximum_message_body w1 = ch_maximum_message_body w"
        "unat (ch_next_serial w) + 1 < 2 ^ 64" "ch_next_serial w1 = ch_next_serial w + 1" by blast
  from Cons.IH [OF a(3) w1(2)] obtain bs2 d2 where
      b: "str_outgoing (ch_stream w') = str_outgoing (ch_stream w1) @ bs2" "codecs_match R (ch_sasl_codec w') d2"
        "carries dec d1 bs2 (concat (map (\<lambda>(i, mt, body). message_frame (ch_framing w) (ch_next_serial w + 1 + of_nat i) mt body)
          (enumerate 0 ms))) d2"
        "\<forall>(mt, body) \<in> set ms. length body \<le> ch_maximum_message_body w \<and> length body < 2 ^ 32"
        "unat (ch_next_serial w + 1) + length ms < 2 ^ 64"
    unfolding a(6,7,9) by blast
  have e: "concat (map (\<lambda>(i, mt, body). message_frame (ch_framing w) (ch_next_serial w + of_nat i) mt body) (enumerate 0 (m # ms))) =
      message_frame (ch_framing w) (ch_next_serial w) mt body @
      concat (map (\<lambda>(i, mt, body). message_frame (ch_framing w) (ch_next_serial w + 1 + of_nat i) mt body) (enumerate 0 ms))"
    by (simp add: m enumerate_Suc_eq [of 0 ms, simplified] enumerate_Suc_eq comp_def split_def add.assoc)
  show ?case
    unfolding e using carries_append [OF a(2) b(3)] a b u64_add_one [OF a(8)] m
    by (intro exI [of _ "bs1 @ bs2"] exI [of _ d2]) simp
qed

lemma read_messages_frames:
  assumes "plain_view dec r (concat (map (\<lambda>(i, mt, body).
      message_frame (ch_framing r) (ch_last_received_serial r + 1 + of_nat i) mt body) (enumerate 0 ms)) @ rest)"
    "\<forall>(mt, body) \<in> set ms. length body \<le> ch_maximum_message_body r \<and> length body < 2 ^ 32"
    "unat (ch_last_received_serial r) + length ms < 2 ^ 64" "ch_received_serial_base r = 0"
  shows "\<exists>r'. read_messages dec (length ms) r =
      Inr (map (\<lambda>(i, mt, body). (frame_header (ch_framing r) (ch_last_received_serial r + 1 + of_nat i) mt body, body))
             (enumerate 0 ms), r') \<and>
    plain_view dec r' rest \<and> ch_last_received_serial r' = ch_last_received_serial r + of_nat (length ms) \<and>
    ch_received_serial_base r' = 0"
  using assms
proof (induction ms arbitrary: r)
  case (Cons m ms)
  obtain mt body where m: "m = (mt, body)" by (cases m)
  let ?rest = "concat (map (\<lambda>(i, mt, body).
      message_frame (ch_framing r) (ch_last_received_serial r + 1 + 1 + of_nat i) mt body) (enumerate 0 ms)) @ rest"
  have "plain_view dec r (message_frame (ch_framing r) (ch_last_received_serial r + 1) mt body @ ?rest)"
    using Cons.prems(1) by (simp add: m enumerate_Suc_eq comp_def split_def add.assoc)
  then obtain r1 where r1: "Channel_read_message dec r =
        Inr (frame_header (ch_framing r) (ch_last_received_serial r + 1) mt body, body, r1)"
      "plain_view dec r1 ?rest" "ch_last_received_serial r1 = ch_last_received_serial r + 1"
      "ch_framing r1 = ch_framing r" "ch_maximum_message_body r1 = ch_maximum_message_body r" "ch_received_serial_base r1 = 0"
    using Channel_read_message_frame [of dec r mt body ?rest] Cons.prems(2-) m by auto
  have "unat (ch_last_received_serial r1) = unat (ch_last_received_serial r) + 1"
    using u64_add_one [of "ch_last_received_serial r"] Cons.prems(3) r1(3) by simp
  with Cons.IH [of r1] Cons.prems(2-) r1 show ?case
    by (auto simp: m enumerate_Suc_eq comp_def split_def add.assoc)
qed simp

text \<open>C18: what one channel writes another reads: for two ends with the same framing and matching security
  layers, every message that \<open>write_message\<close> accepts is returned by \<open>read_message\<close> with its type and
  body, in order and nothing else, and the reader's serial number equals the number of messages read.
  This holds for short and full headers, and for every pair of mechanisms whose ends invert each
  other, although the layer cuts messages into tokens of 8192 plaintext bytes.\<close>

theorem channel_round_trip:
  assumes pair: "layer_pair enc dec R"
    and writer: "write_messages enc ms w = Inr w'" "ch_next_serial w = 1" "str_outgoing (ch_stream w) = []"
    and reader: "str_incoming (ch_stream r) = str_outgoing (ch_stream w')" "ch_framing r = ch_framing w"
      "ch_last_received_serial r = 0" "ch_received_serial_base r = 0"
      "ch_maximum_message_body w \<le> ch_maximum_message_body r" "ch_sasl_decoded r = []" "ch_sasl_decoded_offset r = 0"
    and codecs: "codecs_match R (ch_sasl_codec w) (ch_sasl_codec r)"
  shows "\<exists>headers r'. read_messages dec (length ms) r = Inr (zip headers (map snd ms), r') \<and>
    map dh_message_type headers = map fst ms \<and> length headers = length ms \<and>
    plain_view dec r' [] \<and> Channel_received_serial r' = of_nat (length ms)"
proof -
  from write_messages_carries [OF pair codecs writer(1)] writer(2,3) obtain bs d' where
      w: "str_outgoing (ch_stream w') = bs" "codecs_match R (ch_sasl_codec w') d'"
        "carries dec (ch_sasl_codec r) bs (concat (map (\<lambda>(i, mt, body).
          message_frame (ch_framing w) (1 + of_nat i) mt body) (enumerate 0 ms))) d'"
        "\<forall>(mt, body) \<in> set ms. length body \<le> ch_maximum_message_body w \<and> length body < 2 ^ 32"
        "1 + length ms < 2 ^ 64" by auto
  have "plain_view dec r (concat (map (\<lambda>(i, mt, body).
      message_frame (ch_framing r) (ch_last_received_serial r + 1 + of_nat i) mt body) (enumerate 0 ms)) @ [])"
    using w(1,3) reader sealed_Nil [of dec] unfolding plain_view_def carries_def
    by (auto split: option.splits) (metis append_Nil2)
  from read_messages_frames [OF this] w(4,5) reader obtain r' where
      r: "read_messages dec (length ms) r = Inr (map (\<lambda>(i, mt, body).
            (frame_header (ch_framing r) (1 + of_nat i) mt body, body)) (enumerate 0 ms), r')"
        "plain_view dec r' []" "ch_last_received_serial r' = of_nat (length ms)" "ch_received_serial_base r' = 0"
    by fastforce
  let ?hs = "map (\<lambda>(i, mt, body). frame_header (ch_framing r) (1 + of_nat i) mt body) (enumerate 0 ms)"
  have hs: "map (\<lambda>(i, mt, body). (frame_header (ch_framing r) (1 + of_nat i) mt body, body)) (enumerate 0 ms) =
      zip ?hs (map snd ms)"
    by (rule nth_equalityI) (auto simp: nth_enumerate_eq split_def)
  have "map dh_message_type ?hs = map fst ms"
    by (rule nth_equalityI) (auto simp: nth_enumerate_eq split_def frame_header_def)
  moreover have "Channel_received_serial r' = of_nat (length ms)"
    using r(3,4) unat_u64_less [of "of_nat (length ms)"]
    by (simp add: Channel_received_serial_def u64_saturating_add_def)
  ultimately show ?thesis using r(1,2) hs by (intro exI [of _ ?hs] exI [of _ r']) auto
qed

lemma chunks_small: "xs \<noteq> [] \<Longrightarrow> length xs \<le> n \<Longrightarrow> chunks n xs = [xs]"
  by (cases xs; subst chunks.simps) (auto simp: chunks.simps [of n "[]"])

definition fresh_channel :: "Stream \<Rightarrow> 'c option \<Rightarrow> 'c Channel" where
  "fresh_channel st codec =
     \<lparr>ch_stream = st, ch_framing = Framing_Mini, ch_next_serial = 1, ch_last_received_serial = 0,
      ch_received_serial_base = 0, ch_maximum_message_body = DEFAULT_MAX_MESSAGE_BODY, ch_peer_channel_capabilities = CapabilitySet_new,
      ch_local_common_capabilities = CapabilitySet_new, ch_local_channel_capabilities = CapabilitySet_new,
      ch_sasl_codec = codec, ch_sasl_decoded = [], ch_sasl_decoded_offset = 0, ch_migration_activation_count = 0\<rparr>"

text \<open>A mechanism whose token is the plaintext with a sequence byte in front.\<close>

definition counting_encode :: "u8 mechanism" where
  "counting_encode c p = Some (length p, c # p, c + 1)"

definition counting_decode :: "u8 mechanism" where
  "counting_decode c t = (case t of [] \<Rightarrow> None | n # p \<Rightarrow> if n = c then Some (length t, p, c + 1) else None)"

theorem channel_round_trip_witness:
  "\<exists>headers r'. read_messages counting_decode 1
     (fresh_channel \<lparr>str_incoming = [0, 0, 0, 9, 0, 4, 0, 2, 0, 0, 0, 7, 8], str_outgoing = [], str_writable = True\<rparr> (Some 0)) =
       Inr (zip headers [[7, 8]], r') \<and> map dh_message_type headers = [4]"
proof -
  let ?st = "\<lparr>str_incoming = [], str_outgoing = [], str_writable = True\<rparr>"
  let ?out = "[0, 0, 0, 9, 0, 4, 0, 2, 0, 0, 0, 7, 8]"
  have pair: "layer_pair counting_encode counting_decode (=)"
    by (simp add: layer_pair_def counting_encode_def counting_decode_def)
  have w: "write_messages counting_encode [(4, [7, 8])] (fresh_channel ?st (Some 0)) =
      Inr ((fresh_channel (?st\<lparr>str_outgoing := ?out\<rparr>) (Some 1))\<lparr>ch_next_serial := 2\<rparr>)"
    by (simp add: Channel_write_message_def fresh_channel_def u32_try_from_def DataHeader_encode_def Let_def
        chunks_small SaslCodec_encode_def counting_encode_def frame_security_token_def to_be_def to_le_expand
        write_all_def u64_checked_add_def)
  from channel_round_trip [OF pair w, of "fresh_channel (?st\<lparr>str_incoming := ?out\<rparr>) (Some 0)"]
  show ?thesis
    by (simp add: fresh_channel_def del: read_messages.simps) (elim exE conjE, intro exI conjI, assumption+)
qed

text \<open>C40: how the bytes of a message arrive does not matter to a read that is left to finish, and all of them
  are lost by a read that is given up. The future of \<open>read_message\<close>, polled at once and after every
  arrival on a channel without security layer, ends with exactly the message or the error that
  \<open>read_message\<close> gives on all the bytes at once, and what it did not need is left for the next read; it is
  pending exactly as long as the bytes do not suffice. While it is pending it holds every byte that has
  arrived: when it is dropped, as \<open>select!\<close> drops the branches that lose a turn, the next read sees the
  bytes that arrive later and nothing else, so that it takes the middle of the message for a header.\<close>

theorem read_future_exact:
  assumes "ch_sasl_codec ch = None"
  shows "case read_run (AwaitHeader []) ch bss of
      Inr (r, rest) \<Rightarrow> Channel_read_message dec (with_incoming (incoming ch @ concat bss) ch) =
        and_then r (\<lambda>(header, body, ch'). Inr (header, body, with_incoming (incoming ch' @ concat rest) ch'))
    | Inl (f, ch') \<Rightarrow> Channel_read_message dec (with_incoming (incoming ch @ concat bss) ch) = client_err ClientError_Io \<and>
        Channel_read_message dec (with_incoming (incoming ch' @ later) ch') = Channel_read_message dec (with_incoming later ch)"
proof -
  have "future_holds ch (AwaitHeader []) []" by (cases "ch_framing ch") (simp_all add: future_holds_def)
  from read_run_exact [OF assms this, of bss dec] show ?thesis
    using Channel_read_message_short [of "with_incoming (incoming ch @ concat bss) ch" _ dec] assms
    by (auto split: sum.split_asm prod.split_asm)
qed

lemma mini_header_decode:
  "DataHeader_decode Framing_Mini [a, b, c, d, e, f] =
     Inr \<lparr>dh_serial = None, dh_message_type = from_le [a, b], dh_body_size = from_le [c, d, e, f], dh_sub_list_offset = None\<rparr>"
  by (simp add: DataHeader_decode_def decode_with_def reader_width Reader_le_def Reader_take_def
      rd_then_def rd_return_def rd_lift_def Reader_new_def usize_checked_add_def slice_get_def)

definition quiet_channel :: "u8 Channel" where
  "quiet_channel = fresh_channel \<lparr>str_incoming = [], str_outgoing = [], str_writable = True\<rparr> None"

lemmas quiet_simps = quiet_channel_def fresh_channel_def read_run.simps poll_exact_def poll_body_def with_incoming_def
  mini_header_decode Let_def

text \<open>The header of a two-byte message arrives first, then its body and a following byte. A read that is dropped
  in between finds the body and fails to find a header in it.\<close>

theorem read_future_exact_witness:
  "(\<exists>ch. Channel_read_message counting_decode (with_incoming [102, 0, 2, 0, 0, 0, 7, 0, 9] quiet_channel) =
      Inr (\<lparr>dh_serial = None, dh_message_type = 102, dh_body_size = 2, dh_sub_list_offset = None\<rparr>, [7, 0], ch) \<and> incoming ch = [9]) \<and>
   (\<exists>f ch. read_run (AwaitHeader []) quiet_channel [[102, 0, 2, 0, 0, 0]] = Inl (f, ch) \<and>
      Channel_read_message counting_decode (with_incoming (incoming ch @ [7, 0, 9]) ch) =
      Channel_read_message counting_decode (with_incoming [7, 0, 9] quiet_channel))"
proof
  have c: "ch_sasl_codec quiet_channel = None" by (simp add: quiet_channel_def fresh_channel_def)
  have run: "\<exists>ch. read_run (AwaitHeader []) quiet_channel [[102, 0, 2, 0, 0, 0], [7, 0, 9]] =
      Inr (Inr (\<lparr>dh_serial = None, dh_message_type = 102, dh_body_size = 2, dh_sub_list_offset = None\<rparr>, [7, 0], ch), []) \<and> incoming ch = [9]"
    by (simp add: quiet_simps accept_message_def u64_checked_add_def)
  with read_future_exact [OF c, where bss = "[[102, 0, 2, 0, 0, 0], [7, 0, 9]]" and dec = counting_decode]
  show "\<exists>ch. Channel_read_message counting_decode (with_incoming [102, 0, 2, 0, 0, 0, 7, 0, 9] quiet_channel) =
      Inr (\<lparr>dh_serial = None, dh_message_type = 102, dh_body_size = 2, dh_sub_list_offset = None\<rparr>, [7, 0], ch) \<and> incoming ch = [9]"
    by (auto simp: quiet_channel_def fresh_channel_def)
  have "\<exists>f ch. read_run (AwaitHeader []) quiet_channel [[102, 0, 2, 0, 0, 0]] = Inl (f, ch)" by (simp add: quiet_simps)
  then show "\<exists>f ch. read_run (AwaitHeader []) quiet_channel [[102, 0, 2, 0, 0, 0]] = Inl (f, ch) \<and>
      Channel_read_message counting_decode (with_incoming (incoming ch @ [7, 0, 9]) ch) =
      Channel_read_message counting_decode (with_incoming [7, 0, 9] quiet_channel)"
    using read_future_exact [OF c, where bss = "[[102, 0, 2, 0, 0, 0]]" and dec = counting_decode and later = "[7, 0, 9]"] by auto
qed

end
