(* ===== verification/Spice_Display.thy ===== *)
theory Spice_Display
  imports Spice_Channel
begin

text \<open>
  Display channel messages (\<open>display.rs\<close> of the protocol crate): geometry, clips, image references,
  Composite, surfaces, same-surface copies, streams, monitors, GL scanouts and invalidations.

  A Display message is a fixed part followed by data the fixed part points into with offsets relative to
  the body. The theory holds the data, the decoders and their panic freedom; \<open>Spice_DisplayExact\<close> shows
  what they accept.
\<close>

section \<open>Limits and enumerations\<close>

definition MAX_MONITOR_HEADS :: nat where [simp]: "MAX_MONITOR_HEADS = 64"
definition MAX_STREAM_CLIP_RECTS :: nat where [simp]: "MAX_STREAM_CLIP_RECTS = 256"
definition MAX_STREAM_FRAME_BYTES :: nat where [simp]: "MAX_STREAM_FRAME_BYTES = 16 * 1024 * 1024"
definition MAX_COMPOSITE_CLIP_RECTS :: nat where [simp]: "MAX_COMPOSITE_CLIP_RECTS = 256"
definition MAX_GL_SCANOUT_PLANES :: nat where [simp]: "MAX_GL_SCANOUT_PLANES = 4"
definition MAX_INVALIDATE_RESOURCES :: nat where [simp]: "MAX_INVALIDATE_RESOURCES = 4096"

datatype VideoCodec = VideoCodec_Mjpeg | VideoCodec_Vp8 | VideoCodec_H264 | VideoCodec_Vp9 | VideoCodec_H265

primrec VideoCodec_code :: "VideoCodec \<Rightarrow> u8" where
  "VideoCodec_code VideoCodec_Mjpeg = 1"
| "VideoCodec_code VideoCodec_Vp8 = 2"
| "VideoCodec_code VideoCodec_H264 = 3"
| "VideoCodec_code VideoCodec_Vp9 = 4"
| "VideoCodec_code VideoCodec_H265 = 5"

definition VideoCodec_try_from :: "u8 \<Rightarrow> VideoCodec decoded" where
  "VideoCodec_try_from value =
     (if value = 1 then Inr VideoCodec_Mjpeg
      else if value = 2 then Inr VideoCodec_Vp8
      else if value = 3 then Inr VideoCodec_H264
      else if value = 4 then Inr VideoCodec_Vp9
      else if value = 5 then Inr VideoCodec_H265
      else decode_err Unsupported 9 STR ''Display stream codec'')"

interpretation video_codec: enum_codec VideoCodec_code VideoCodec_try_from
proof
  show "VideoCodec_try_from (VideoCodec_code e) = Inr e" for e
    by (cases e) (simp_all add: VideoCodec_try_from_def)
  show "VideoCodec_try_from c = Inr e \<Longrightarrow> VideoCodec_code e = c" for c e
    by (auto simp: VideoCodec_try_from_def split: if_splits)
  show "no_panic (VideoCodec_try_from c)" for c
    by (simp add: VideoCodec_try_from_def)
qed

declare video_codec.try_from_error [no_panic_intros]

definition encode_preferred_video_codecs :: "VideoCodec list \<Rightarrow> u8 list decoded" where
  "encode_preferred_video_codecs codecs =
     (if codecs = [] \<or> length codecs > 5
      then decode_err (if codecs = [] then InvalidValue else ResourceLimit) 0 STR ''preferred Display video codecs''
      else if \<exists>index < length codecs. codecs ! index \<in> set (take index codecs)
      then decode_err InvalidValue 0 STR ''duplicate preferred Display video codec''
      else and_then (expect (if length codecs < 256 then Some (of_nat (length codecs)) else None)) (\<lambda>n.
           Inr (n # map VideoCodec_code codecs)))"

datatype SurfaceFormat = SurfaceFormat_A8 | SurfaceFormat_Xrgb32 | SurfaceFormat_Argb32

primrec SurfaceFormat_code :: "SurfaceFormat \<Rightarrow> u32" where
  "SurfaceFormat_code SurfaceFormat_A8 = 8"
| "SurfaceFormat_code SurfaceFormat_Xrgb32 = 32"
| "SurfaceFormat_code SurfaceFormat_Argb32 = 96"

definition SurfaceFormat_try_from :: "u32 \<Rightarrow> SurfaceFormat decoded" where
  "SurfaceFormat_try_from value =
     (if value = 8 then Inr SurfaceFormat_A8
      else if value = 32 then Inr SurfaceFormat_Xrgb32
      else if value = 96 then Inr SurfaceFormat_Argb32
      else decode_err Unsupported 12 STR ''surface format'')"

interpretation surface_format: enum_codec SurfaceFormat_code SurfaceFormat_try_from
proof
  show "SurfaceFormat_try_from (SurfaceFormat_code e) = Inr e" for e
    by (cases e) (simp_all add: SurfaceFormat_try_from_def)
  show "SurfaceFormat_try_from c = Inr e \<Longrightarrow> SurfaceFormat_code e = c" for c e
    by (auto simp: SurfaceFormat_try_from_def split: if_splits)
  show "no_panic (SurfaceFormat_try_from c)" for c
    by (simp add: SurfaceFormat_try_from_def)
qed

declare surface_format.try_from_error [no_panic_intros]

datatype DrawCopyImageType =
    ImageType_Bitmap | ImageType_LzPalette | ImageType_LzRgb | ImageType_GlzRgb | ImageType_Quic
  | ImageType_Jpeg | ImageType_ZlibGlzRgb | ImageType_JpegAlpha | ImageType_Lz4

primrec DrawCopyImageType_wire_value :: "DrawCopyImageType \<Rightarrow> u8" where
  "DrawCopyImageType_wire_value ImageType_Bitmap = 0"
| "DrawCopyImageType_wire_value ImageType_Quic = 1"
| "DrawCopyImageType_wire_value ImageType_LzPalette = 100"
| "DrawCopyImageType_wire_value ImageType_LzRgb = 101"
| "DrawCopyImageType_wire_value ImageType_GlzRgb = 102"
| "DrawCopyImageType_wire_value ImageType_Jpeg = 105"
| "DrawCopyImageType_wire_value ImageType_ZlibGlzRgb = 107"
| "DrawCopyImageType_wire_value ImageType_JpegAlpha = 108"
| "DrawCopyImageType_wire_value ImageType_Lz4 = 109"

definition decode_embedded_image_type :: "u8 \<Rightarrow> nat \<Rightarrow> DrawCopyImageType decoded" where
  "decode_embedded_image_type value off =
     (if value = 0 then Inr ImageType_Bitmap
      else if value = 1 then Inr ImageType_Quic
      else if value = 100 then Inr ImageType_LzPalette
      else if value = 101 then Inr ImageType_LzRgb
      else if value = 102 then Inr ImageType_GlzRgb
      else if value = 105 then Inr ImageType_Jpeg
      else if value = 107 then Inr ImageType_ZlibGlzRgb
      else if value = 108 then Inr ImageType_JpegAlpha
      else if value = 109 then Inr ImageType_Lz4
      else if value = 103 \<or> value = 106 then decode_err Unsupported off STR ''disabled image cache reference''
      else decode_err Unsupported off STR ''Composite image type'')"

interpretation image_type: enum_codec DrawCopyImageType_wire_value "\<lambda>v. decode_embedded_image_type v off" for off
proof
  show "decode_embedded_image_type (DrawCopyImageType_wire_value e) off = Inr e" for e
    by (cases e) (simp_all add: decode_embedded_image_type_def)
  show "decode_embedded_image_type c off = Inr e \<Longrightarrow> DrawCopyImageType_wire_value e = c" for c e
    by (auto simp: decode_embedded_image_type_def split: if_splits)
  show "no_panic (decode_embedded_image_type c off)" for c
    by (simp add: decode_embedded_image_type_def)
qed

declare image_type.try_from_error [no_panic_intros]

section \<open>Geometry and clips\<close>

record Rect =
  rect_top :: i32
  rect_left :: i32
  rect_bottom :: i32
  rect_right :: i32

record Point16 =
  p16_x :: i16
  p16_y :: i16

definition i32_checked_sub :: "i32 \<Rightarrow> i32 \<Rightarrow> i32 option" where
  "i32_checked_sub a b =
     (if - (2 ^ 31) \<le> sint a - sint b \<and> sint a - sint b < 2 ^ 31 then Some (a - b) else None)"

definition u32_checked_add :: "u32 \<Rightarrow> u32 \<Rightarrow> u32 option" where
  "u32_checked_add a b = (if unat a + unat b < 2 ^ 32 then Some (a + b) else None)"

text \<open>\<open>u32::try_from\<close> of an \<open>i32\<close> fails on negative values.\<close>

definition Rect_width :: "Rect \<Rightarrow> u32 decoded" where
  "Rect_width r =
     and_then (ok_or (DecodeError_new Overflow 0 STR ''rectangle width'') (i32_checked_sub (rect_right r) (rect_left r))) (\<lambda>width.
     if sint width < 0 then decode_err InvalidValue 0 STR ''rectangle width'' else Inr width)"

definition Rect_height :: "Rect \<Rightarrow> u32 decoded" where
  "Rect_height r =
     and_then (ok_or (DecodeError_new Overflow 0 STR ''rectangle height'') (i32_checked_sub (rect_bottom r) (rect_top r))) (\<lambda>height.
     if sint height < 0 then decode_err InvalidValue 0 STR ''rectangle height'' else Inr height)"

definition read_rect :: "context_str \<Rightarrow> Rect reader_op" where
  "read_rect ctx =
     rd_then (Reader_i32 ctx) (\<lambda>top.
     rd_then (Reader_i32 ctx) (\<lambda>left.
     rd_then (Reader_i32 ctx) (\<lambda>bottom.
     rd_then (Reader_i32 ctx) (\<lambda>right.
     rd_return \<lparr>rect_top = top, rect_left = left, rect_bottom = bottom, rect_right = right\<rparr>))))"

text \<open>\<open>let _ = r.width()?; let _ = r.height()?;\<close>\<close>

definition Rect_check :: "Rect \<Rightarrow> unit decoded" where
  "Rect_check r = and_then (Rect_width r) (\<lambda>_. and_then (Rect_height r) (\<lambda>_. Inr ()))"

definition read_checked_rect :: "context_str \<Rightarrow> Rect reader_op" where
  "read_checked_rect ctx =
     rd_then (read_rect ctx) (\<lambda>rectangle.
     rd_then (rd_lift (Rect_check rectangle)) (\<lambda>_.
     rd_return rectangle))"

datatype CompositeClip = CompositeClip_None | CompositeClip_Rectangles "Rect list"

definition decode_display_clip :: "context_str \<Rightarrow> CompositeClip reader_op" where
  "decode_display_clip ctx =
     rd_then (Reader_u8 ctx) (\<lambda>clip_type.
     rd_then Reader_offset (\<lambda>count_offset.
     if clip_type = 0 then rd_return CompositeClip_None
     else if clip_type = 1 then
       rd_then (Reader_u32 ctx) (\<lambda>count.
       let count = unat count in
       if count > MAX_COMPOSITE_CLIP_RECTS then rd_err ResourceLimit count_offset ctx
       else
       rd_then Reader_offset (\<lambda>here.
       rd_then (rd_lift (ok_or (DecodeError_new Overflow here ctx) (usize_checked_mul count 16))) (\<lambda>rectangle_bytes.
       rd_then (Reader_take rectangle_bytes ctx) (\<lambda>bytes.
       rd_then (rd_lift (decode_with bytes (rd_repeat count (read_checked_rect ctx)))) (\<lambda>rectangles.
       rd_return (CompositeClip_Rectangles rectangles))))))
     else rd_err Unsupported (count_offset - 1) ctx))"

datatype StreamClip = StreamClip_None | StreamClip_Rectangles "Rect list"

definition decode_stream_clip :: "StreamClip reader_op" where
  "decode_stream_clip =
     rd_then (Reader_u8 STR ''Display stream clip type'') (\<lambda>clip_type.
     rd_then Reader_offset (\<lambda>type_end.
     if clip_type = 0 then rd_return StreamClip_None
     else if clip_type = 1 then
       rd_then (Reader_u32 STR ''Display stream clip count'') (\<lambda>count.
       rd_then Reader_offset (\<lambda>count_end.
       let count = unat count in
       if count > MAX_STREAM_CLIP_RECTS
       then rd_err ResourceLimit (count_end - 4) STR ''Display stream clip rectangles''
       else
       rd_then (rd_repeat count (read_checked_rect STR ''Display stream clip rectangle'')) (\<lambda>rectangles.
       rd_return (StreamClip_Rectangles rectangles))))
     else rd_err Unsupported (type_end - 1) STR ''Display stream clip type''))"

section \<open>Image references and Composite\<close>

record CompositeTransform =
  ct_xx :: i32
  ct_xy :: i32
  ct_x0 :: i32
  ct_yx :: i32
  ct_yy :: i32
  ct_y0 :: i32

record CompositeSurface =
  cs_image_id :: u64
  cs_image_flags :: u8
  cs_width :: u32
  cs_height :: u32
  cs_surface_id :: u32

record CompositeEmbeddedImage =
  ce_image_offset :: u32
  ce_image_id :: u64
  ce_image_flags :: u8
  ce_width :: u32
  ce_height :: u32
  ce_image_type :: DrawCopyImageType

datatype CompositeImage =
    CompositeImage_Surface CompositeSurface
  | CompositeImage_Embedded CompositeEmbeddedImage

primrec CompositeImage_width :: "CompositeImage \<Rightarrow> u32" where
  "CompositeImage_width (CompositeImage_Surface img) = cs_width img"
| "CompositeImage_width (CompositeImage_Embedded img) = ce_width img"

primrec CompositeImage_height :: "CompositeImage \<Rightarrow> u32" where
  "CompositeImage_height (CompositeImage_Surface img) = cs_height img"
| "CompositeImage_height (CompositeImage_Embedded img) = ce_height img"

definition read_composite_transform :: "CompositeTransform reader_op" where
  "read_composite_transform =
     rd_then (Reader_i32 STR ''Composite transform xx'') (\<lambda>xx.
     rd_then (Reader_i32 STR ''Composite transform xy'') (\<lambda>xy.
     rd_then (Reader_i32 STR ''Composite transform x0'') (\<lambda>x0.
     rd_then (Reader_i32 STR ''Composite transform yx'') (\<lambda>yx.
     rd_then (Reader_i32 STR ''Composite transform yy'') (\<lambda>yy.
     rd_then (Reader_i32 STR ''Composite transform y0'') (\<lambda>y0.
     rd_return \<lparr>ct_xx = xx, ct_xy = xy, ct_x0 = x0, ct_yx = yx, ct_yy = yy, ct_y0 = y0\<rparr>))))))"

definition IMAGE_DESCRIPTOR_BYTES :: nat where [simp]: "IMAGE_DESCRIPTOR_BYTES = 18"
definition IMAGE_TYPE_SURFACE :: u8 where [simp]: "IMAGE_TYPE_SURFACE = 104"

text \<open>The five fields of the image descriptor.\<close>

definition read_image_descriptor :: "(u64 \<times> u8 \<times> u8 \<times> u32 \<times> u32) reader_op" where
  "read_image_descriptor =
     rd_then (Reader_u64 STR ''Composite image id'') (\<lambda>image_id.
     rd_then (Reader_u8 STR ''Composite image type'') (\<lambda>image_type.
     rd_then (Reader_u8 STR ''Composite image flags'') (\<lambda>image_flags.
     rd_then (Reader_u32 STR ''Composite image width'') (\<lambda>width.
     rd_then (Reader_u32 STR ''Composite image height'') (\<lambda>height.
     rd_return (image_id, image_type, image_flags, width, height))))))"

definition decode_composite_image :: "u8 list \<Rightarrow> u32 \<Rightarrow> context_str \<Rightarrow> CompositeImage decoded" where
  "decode_composite_image body image_offset ctx =
     and_then (resolve_range body image_offset IMAGE_DESCRIPTOR_BYTES ctx) (\<lambda>(d_start, d_end).
     and_then (slice_index body d_start d_end) (\<lambda>descriptor.
     and_then (decode_with descriptor read_image_descriptor) (\<lambda>(image_id, image_type, image_flags, width, height).
     if width = 0 \<or> height = 0 then decode_err InvalidValue (d_start + 10) STR ''Composite image dimensions''
     else if image_flags AND NOT 0b111 \<noteq> 0 then decode_err InvalidValue (d_start + 9) STR ''Composite image flags''
     else if image_flags AND 0b101 \<noteq> 0
     then decode_err Unsupported (d_start + 9) STR ''disabled Composite image cache''
     else if image_type \<noteq> IMAGE_TYPE_SURFACE then
       and_then (decode_embedded_image_type image_type (d_start + 8)) (\<lambda>image_type.
       Inr (CompositeImage_Embedded \<lparr>ce_image_offset = image_offset, ce_image_id = image_id,
         ce_image_flags = image_flags, ce_width = width, ce_height = height, ce_image_type = image_type\<rparr>))
     else
     and_then (ok_or (DecodeError_new Overflow d_end STR ''Composite surface payload'')
                 (u32_checked_add image_offset (of_nat IMAGE_DESCRIPTOR_BYTES))) (\<lambda>payload_offset.
     and_then (resolve_range body payload_offset 4 STR ''Composite surface payload'') (\<lambda>(p_start, p_end).
     and_then (slice_index body p_start p_end) (\<lambda>payload.
     and_then (decode_with payload (Reader_u32 STR ''Composite source surface id'')) (\<lambda>surface_id.
     Inr (CompositeImage_Surface \<lparr>cs_image_id = image_id, cs_image_flags = image_flags, cs_width = width,
       cs_height = height, cs_surface_id = surface_id\<rparr>))))))))"

definition CompositeImage_decode_at :: "u8 list \<Rightarrow> u32 \<Rightarrow> CompositeImage decoded" where
  "CompositeImage_decode_at body image_offset = decode_composite_image body image_offset STR ''Display image''"

record DrawComposite =
  dc_destination_surface_id :: u32
  dc_destination :: Rect
  dc_clip :: CompositeClip
  dc_operation :: u8
  dc_source_filter :: u8
  dc_mask_filter :: u8
  dc_source_repeat :: u8
  dc_mask_repeat :: u8
  dc_component_alpha :: bool
  dc_source_opaque :: bool
  dc_mask_opaque :: bool
  dc_destination_opaque :: bool
  dc_source :: CompositeImage
  dc_mask :: "CompositeImage option"
  dc_source_transform :: "CompositeTransform option"
  dc_mask_transform :: "CompositeTransform option"
  dc_source_origin :: Point16
  dc_mask_origin :: Point16

definition HAS_MASK :: u32 where [simp]: "HAS_MASK = 0x80000"
definition HAS_SOURCE_TRANSFORM :: u32 where [simp]: "HAS_SOURCE_TRANSFORM = 0x100000"
definition HAS_MASK_TRANSFORM :: u32 where [simp]: "HAS_MASK_TRANSFORM = 0x200000"
definition SOURCE_OPAQUE :: u32 where [simp]: "SOURCE_OPAQUE = 0x400000"
definition MASK_OPAQUE :: u32 where [simp]: "MASK_OPAQUE = 0x800000"
definition DESTINATION_OPAQUE :: u32 where [simp]: "DESTINATION_OPAQUE = 0x1000000"
definition KNOWN_FLAGS :: u32 where [simp]: "KNOWN_FLAGS = 0x1ffffff"

text \<open>\<open>if cond { Some(read()?) } else { None }\<close>\<close>

definition rd_when :: "bool \<Rightarrow> 'a reader_op \<Rightarrow> 'a option reader_op" where
  "rd_when b m = (if b then rd_then m (\<lambda>x. rd_return (Some x)) else rd_return None)"

text \<open>\<open>option.map(f).transpose()?\<close>\<close>

definition option_transpose :: "('a \<Rightarrow> 'b decoded) \<Rightarrow> 'a option \<Rightarrow> 'b option decoded" where
  "option_transpose f x = (case x of None \<Rightarrow> Inr None | Some a \<Rightarrow> and_then (f a) (\<lambda>b. Inr (Some b)))"

definition read_point16 :: "context_str \<Rightarrow> context_str \<Rightarrow> Point16 reader_op" where
  "read_point16 ctx_x ctx_y =
     rd_then (Reader_i16 ctx_x) (\<lambda>x.
     rd_then (Reader_i16 ctx_y) (\<lambda>y.
     rd_return \<lparr>p16_x = x, p16_y = y\<rparr>))"

definition DrawComposite_decode :: "u8 list \<Rightarrow> DrawComposite decoded" where
  "DrawComposite_decode body = decode_with body (
     rd_then (Reader_u32 STR ''Composite destination surface'') (\<lambda>destination_surface_id.
     rd_then (read_rect STR ''Composite destination'') (\<lambda>destination.
     rd_then (decode_display_clip STR ''Composite clip'') (\<lambda>clip.
     rd_then (Reader_u32 STR ''Composite flags'') (\<lambda>flags.
     rd_then Reader_offset (\<lambda>here.
     if flags AND NOT KNOWN_FLAGS \<noteq> 0 then rd_err Unsupported (here - 4) STR ''Composite flags''
     else
     let operation = ucast (flags AND 0xff) :: u8;
         source_filter = ucast (drop_bit 8 flags AND 7) :: u8;
         mask_filter = ucast (drop_bit 11 flags AND 7) :: u8;
         source_repeat = ucast (drop_bit 14 flags AND 3) :: u8;
         mask_repeat = ucast (drop_bit 16 flags AND 3) :: u8;
         component_alpha = (flags AND 0x40000 \<noteq> 0) in
     rd_then (Reader_u32 STR ''Composite source image offset'') (\<lambda>source_offset.
     rd_then (rd_when (flags AND HAS_MASK \<noteq> 0) (Reader_u32 STR ''Composite mask image offset'')) (\<lambda>mask_offset.
     rd_then (rd_when (flags AND HAS_SOURCE_TRANSFORM \<noteq> 0) read_composite_transform) (\<lambda>source_transform.
     rd_then (rd_when (flags AND HAS_MASK_TRANSFORM \<noteq> 0) read_composite_transform) (\<lambda>mask_transform.
     rd_then (read_point16 STR ''Composite source origin x'' STR ''Composite source origin y'') (\<lambda>source_origin.
     rd_then (read_point16 STR ''Composite mask origin x'' STR ''Composite mask origin y'') (\<lambda>mask_origin.
     rd_then (rd_lift (Rect_check destination)) (\<lambda>_.
     rd_then (rd_lift (decode_composite_image body source_offset STR ''Composite source image'')) (\<lambda>source.
     rd_then (rd_lift (option_transpose (\<lambda>off. decode_composite_image body off STR ''Composite mask image'') mask_offset)) (\<lambda>mask.
     rd_return \<lparr>dc_destination_surface_id = destination_surface_id, dc_destination = destination, dc_clip = clip,
       dc_operation = operation, dc_source_filter = source_filter, dc_mask_filter = mask_filter,
       dc_source_repeat = source_repeat, dc_mask_repeat = mask_repeat, dc_component_alpha = component_alpha,
       dc_source_opaque = (flags AND SOURCE_OPAQUE \<noteq> 0), dc_mask_opaque = (flags AND MASK_OPAQUE \<noteq> 0),
       dc_destination_opaque = (flags AND DESTINATION_OPAQUE \<noteq> 0), dc_source = source, dc_mask = mask,
       dc_source_transform = source_transform, dc_mask_transform = mask_transform,
       dc_source_origin = source_origin, dc_mask_origin = mask_origin\<rparr>)))))))))))))))"

section \<open>Surfaces, copies and invalidation\<close>

record SurfaceCreate =
  sc_surface_id :: u32
  sc_width :: u32
  sc_height :: u32
  sc_format :: SurfaceFormat
  sc_flags :: u32

definition SurfaceCreate_decode :: "u8 list \<Rightarrow> SurfaceCreate decoded" where
  "SurfaceCreate_decode body =
     (if length body \<noteq> 20 then decode_err (size_error_kind (length body) 20) (length body) STR ''surface create size''
      else decode_with body (
       rd_then (Reader_u32 STR ''surface id'') (\<lambda>surface_id.
       rd_then (Reader_u32 STR ''surface width'') (\<lambda>width.
       rd_then (Reader_u32 STR ''surface height'') (\<lambda>height.
       rd_then (Reader_u32 STR ''surface format'') (\<lambda>format.
       rd_then (rd_lift (SurfaceFormat_try_from format)) (\<lambda>format.
       rd_then (Reader_u32 STR ''surface flags'') (\<lambda>flags.
       rd_return \<lparr>sc_surface_id = surface_id, sc_width = width, sc_height = height, sc_format = format,
         sc_flags = flags\<rparr>))))))))"

record CopyBits =
  cb_surface_id :: u32
  cb_destination :: Rect
  cb_clip :: CompositeClip
  cb_source_x :: i32
  cb_source_y :: i32

definition CopyBits_decode :: "u8 list \<Rightarrow> CopyBits decoded" where
  "CopyBits_decode body = decode_with body (
     rd_then (Reader_u32 STR ''copy bits surface id'') (\<lambda>surface_id.
     rd_then (read_rect STR ''copy bits destination'') (\<lambda>destination.
     rd_then (decode_display_clip STR ''copy bits clip'') (\<lambda>clip.
     rd_then (Reader_i32 STR ''copy bits source x'') (\<lambda>source_x.
     rd_then (Reader_i32 STR ''copy bits source y'') (\<lambda>source_y.
     rd_then Reader_remaining (\<lambda>remaining.
     rd_then Reader_offset (\<lambda>here.
     if remaining \<noteq> 0 then rd_err InvalidValue here STR ''copy bits trailing bytes''
     else
     rd_then (rd_lift (Rect_check destination)) (\<lambda>_.
     rd_return \<lparr>cb_surface_id = surface_id, cb_destination = destination, cb_clip = clip,
       cb_source_x = source_x, cb_source_y = source_y\<rparr>)))))))))"

type_synonym i64 = "64 word"

record DisplayInit =
  di_pixmap_cache_id :: u8
  di_pixmap_cache_size :: i64
  di_glz_dictionary_id :: u8
  di_glz_dictionary_window_size :: i32

definition DisplayInit_encode :: "DisplayInit \<Rightarrow> u8 list" where
  "DisplayInit_encode d =
     [di_pixmap_cache_id d] @ u64_to_le_bytes (di_pixmap_cache_size d) @ [di_glz_dictionary_id d] @
     u32_to_le_bytes (di_glz_dictionary_window_size d)"

definition read_invalidate_resource :: "u64 reader_op" where
  "read_invalidate_resource =
     rd_then (Reader_u8 STR ''Display invalidation resource type'') (\<lambda>resource_type.
     rd_then Reader_offset (\<lambda>here.
     if resource_type \<noteq> 1 then rd_err Unsupported (here - 1) STR ''Display invalidation resource type''
     else Reader_u64 STR ''Display invalidation resource id''))"

definition InvalidateList_decode :: "u8 list \<Rightarrow> u64 list decoded" where
  "InvalidateList_decode body = decode_with body (
     rd_then (Reader_u16 STR ''Display invalidation resource count'') (\<lambda>count.
     let count = unat count in
     if count > MAX_INVALIDATE_RESOURCES then rd_err ResourceLimit 0 STR ''Display invalidation resource count''
     else
     rd_then Reader_offset (\<lambda>here.
     rd_then (rd_lift (ok_or (DecodeError_new Overflow here STR ''Display invalidation resources'') (usize_checked_mul count 9))) (\<lambda>expected.
     rd_then Reader_remaining (\<lambda>remaining.
     if remaining \<noteq> expected
     then rd_err (size_error_kind remaining expected) here STR ''Display invalidation resources''
     else rd_repeat count read_invalidate_resource)))))"

section \<open>Monitors\<close>

record MonitorHead =
  mh_monitor_id :: u32
  mh_surface_id :: u32
  mh_width :: u32
  mh_height :: u32
  mh_x :: u32
  mh_y :: u32
  mh_flags :: u32

record MonitorsConfig =
  mc_maximum_allowed :: u16
  mc_heads :: "MonitorHead list"

definition read_monitor_head :: "MonitorHead reader_op" where
  "read_monitor_head =
     rd_then (Reader_u32 STR ''monitor id'') (\<lambda>monitor_id.
     rd_then (Reader_u32 STR ''monitor surface id'') (\<lambda>surface_id.
     rd_then (Reader_u32 STR ''monitor width'') (\<lambda>width.
     rd_then (Reader_u32 STR ''monitor height'') (\<lambda>height.
     rd_then (Reader_u32 STR ''monitor x'') (\<lambda>x.
     rd_then (Reader_u32 STR ''monitor y'') (\<lambda>y.
     rd_then (Reader_u32 STR ''monitor flags'') (\<lambda>flags.
     rd_return \<lparr>mh_monitor_id = monitor_id, mh_surface_id = surface_id, mh_width = width, mh_height = height,
       mh_x = x, mh_y = y, mh_flags = flags\<rparr>)))))))"

definition monitor_head_rejected :: "MonitorHead \<Rightarrow> MonitorHead list \<Rightarrow> bool" where
  "monitor_head_rejected head heads \<longleftrightarrow> mh_width head = 0 \<or> mh_height head = 0 \<or>
     u32_checked_add (mh_x head) (mh_width head) = None \<or> u32_checked_add (mh_y head) (mh_height head) = None \<or>
     (\<exists>existing \<in> set heads. mh_monitor_id existing = mh_monitor_id head)"

primrec read_monitor_heads :: "nat \<Rightarrow> MonitorHead list \<Rightarrow> MonitorHead list reader_op" where
  "read_monitor_heads 0 heads = rd_return heads"
| "read_monitor_heads (Suc n) heads =
     rd_then read_monitor_head (\<lambda>head.
     rd_then Reader_offset (\<lambda>here.
     if monitor_head_rejected head heads
     then rd_err InvalidValue (here - 28) STR ''monitor head geometry or identity''
     else read_monitor_heads n (heads @ [head])))"

definition MonitorsConfig_decode :: "u8 list \<Rightarrow> MonitorsConfig decoded" where
  "MonitorsConfig_decode body = decode_with body (
     rd_then (Reader_u16 STR ''monitor head count'') (\<lambda>count.
     rd_then (Reader_u16 STR ''maximum monitor heads'') (\<lambda>maximum_allowed.
     let count = unat count in
     if count > MAX_MONITOR_HEADS \<or> count > unat maximum_allowed
     then rd_err ResourceLimit 0 STR ''monitor head count''
     else
     rd_then Reader_offset (\<lambda>here.
     rd_then (rd_lift (ok_or (DecodeError_new Overflow here STR ''monitor heads'') (usize_checked_mul count 28))) (\<lambda>head_bytes.
     rd_then Reader_remaining (\<lambda>remaining.
     if remaining \<noteq> head_bytes then rd_err (size_error_kind remaining head_bytes) here STR ''monitor heads''
     else
     rd_then (read_monitor_heads count []) (\<lambda>heads.
     rd_return \<lparr>mc_maximum_allowed = maximum_allowed, mc_heads = heads\<rparr>)))))))"

section \<open>Streams\<close>

record StreamClipUpdate =
  scu_stream_id :: u32
  scu_clip :: StreamClip

definition StreamClipUpdate_decode :: "u8 list \<Rightarrow> StreamClipUpdate decoded" where
  "StreamClipUpdate_decode body = decode_with body (
     rd_then (Reader_u32 STR ''Display stream clip id'') (\<lambda>stream_id.
     rd_then decode_stream_clip (\<lambda>clip.
     rd_then Reader_remaining (\<lambda>remaining.
     rd_then Reader_offset (\<lambda>here.
     if remaining \<noteq> 0 then rd_err InvalidValue here STR ''Display stream clip trailing data''
     else rd_return \<lparr>scu_stream_id = stream_id, scu_clip = clip\<rparr>)))))"

record StreamCreate =
  st_surface_id :: u32
  st_stream_id :: u32
  st_top_down :: bool
  st_codec :: VideoCodec
  st_stamp :: u64
  st_stream_width :: u32
  st_stream_height :: u32
  st_source_width :: u32
  st_source_height :: u32
  st_destination :: Rect
  st_clip :: StreamClip

definition StreamCreate_decode :: "u8 list \<Rightarrow> StreamCreate decoded" where
  "StreamCreate_decode body = decode_with body (
     rd_then (Reader_u32 STR ''Display stream surface id'') (\<lambda>surface_id.
     rd_then (Reader_u32 STR ''Display stream id'') (\<lambda>stream_id.
     rd_then (Reader_u8 STR ''Display stream flags'') (\<lambda>flags.
     if flags AND NOT 1 \<noteq> 0 then rd_err Unsupported 8 STR ''Display stream flags''
     else
     rd_then (Reader_u8 STR ''Display stream codec'') (\<lambda>codec.
     rd_then (rd_lift (VideoCodec_try_from codec)) (\<lambda>codec.
     rd_then (Reader_u64 STR ''Display stream stamp'') (\<lambda>stamp.
     rd_then (Reader_u32 STR ''Display stream width'') (\<lambda>stream_width.
     rd_then (Reader_u32 STR ''Display stream height'') (\<lambda>stream_height.
     rd_then (Reader_u32 STR ''Display stream source width'') (\<lambda>source_width.
     rd_then (Reader_u32 STR ''Display stream source height'') (\<lambda>source_height.
     rd_then (read_rect STR ''Display stream destination'') (\<lambda>destination.
     if stream_width = 0 \<or> stream_height = 0 \<or> source_width = 0 \<or> source_height = 0 \<or>
        source_width > stream_width \<or> source_height > stream_height
     then rd_err InvalidValue 18 STR ''Display stream dimensions''
     else
     rd_then (rd_lift (Rect_check destination)) (\<lambda>_.
     rd_then decode_stream_clip (\<lambda>clip.
     rd_then Reader_remaining (\<lambda>remaining.
     rd_then Reader_offset (\<lambda>here.
     if remaining \<noteq> 0 then rd_err InvalidValue here STR ''Display stream create trailing data''
     else rd_return \<lparr>st_surface_id = surface_id, st_stream_id = stream_id, st_top_down = (flags \<noteq> 0),
       st_codec = codec, st_stamp = stamp, st_stream_width = stream_width, st_stream_height = stream_height,
       st_source_width = source_width, st_source_height = source_height, st_destination = destination,
       st_clip = clip\<rparr>))))))))))))))))"

record StreamData =
  sd_stream_id :: u32
  sd_multimedia_time :: u32
  sd_geometry :: "(u32 \<times> u32 \<times> Rect) option"
  sd_data :: "u8 list"

text \<open>\<open>width\<close>, \<open>height\<close> and \<open>destination\<close> are \<open>Some\<close> together, in \<open>sd_geometry\<close>.\<close>

definition read_sized_geometry :: "(u32 \<times> u32 \<times> Rect) reader_op" where
  "read_sized_geometry =
     rd_then (Reader_u32 STR ''Display sized stream width'') (\<lambda>width.
     rd_then (Reader_u32 STR ''Display sized stream height'') (\<lambda>height.
     rd_then (read_rect STR ''Display sized stream destination'') (\<lambda>destination.
     if width = 0 \<or> height = 0 then rd_err InvalidValue 8 STR ''Display sized stream dimensions''
     else
     rd_then (rd_lift (Rect_check destination)) (\<lambda>_.
     rd_return (width, height, destination)))))"

definition StreamData_decode :: "u8 list \<Rightarrow> bool \<Rightarrow> StreamData decoded" where
  "StreamData_decode body sized = decode_with body (
     rd_then (Reader_u32 STR ''Display stream data id'') (\<lambda>stream_id.
     rd_then (Reader_u32 STR ''Display stream multimedia time'') (\<lambda>multimedia_time.
     rd_then (rd_when sized read_sized_geometry) (\<lambda>geometry.
     rd_then (Reader_u32 STR ''Display stream data size'') (\<lambda>data_bytes.
     rd_then Reader_offset (\<lambda>here.
     let data_bytes = unat data_bytes in
     if data_bytes > MAX_STREAM_FRAME_BYTES then rd_err ResourceLimit (here - 4) STR ''Display stream frame''
     else
     rd_then Reader_remaining (\<lambda>remaining.
     if remaining \<noteq> data_bytes then rd_err (size_error_kind remaining data_bytes) here STR ''Display stream frame''
     else
     rd_then (Reader_take data_bytes STR ''Display stream frame'') (\<lambda>data.
     rd_return \<lparr>sd_stream_id = stream_id, sd_multimedia_time = multimedia_time, sd_geometry = geometry,
       sd_data = data\<rparr>))))))))"

record StreamReportActivation =
  sra_stream_id :: u32
  sra_unique_id :: u32
  sra_maximum_window_frames :: u32
  sra_timeout_ms :: u32

definition StreamReportActivation_decode :: "u8 list \<Rightarrow> StreamReportActivation decoded" where
  "StreamReportActivation_decode body =
     (if length body \<noteq> 16
      then decode_err (size_error_kind (length body) 16) (length body) STR ''Display stream report activation''
      else decode_with body (
       rd_then (Reader_u32 STR ''Display stream report id'') (\<lambda>stream_id.
       rd_then (Reader_u32 STR ''Display stream report unique id'') (\<lambda>unique_id.
       rd_then (Reader_u32 STR ''Display stream report window'') (\<lambda>maximum_window_frames.
       rd_then (Reader_u32 STR ''Display stream report timeout'') (\<lambda>timeout_ms.
       if maximum_window_frames = 0 \<or> timeout_ms = 0
       then rd_err InvalidValue 8 STR ''Display stream report limits''
       else rd_return \<lparr>sra_stream_id = stream_id, sra_unique_id = unique_id,
         sra_maximum_window_frames = maximum_window_frames, sra_timeout_ms = timeout_ms\<rparr>))))))"

record StreamReport =
  sr_stream_id :: u32
  sr_unique_id :: u32
  sr_start_frame_multimedia_time :: u32
  sr_end_frame_multimedia_time :: u32
  sr_frame_count :: u32
  sr_dropped_frame_count :: u32
  sr_last_frame_delay_ms :: i32
  sr_audio_delay_ms :: u32

definition StreamReport_encode :: "StreamReport \<Rightarrow> u8 list" where
  "StreamReport_encode r = concat (map u32_to_le_bytes
     [sr_stream_id r, sr_unique_id r, sr_start_frame_multimedia_time r, sr_end_frame_multimedia_time r,
      sr_frame_count r, sr_dropped_frame_count r, sr_last_frame_delay_ms r, sr_audio_delay_ms r])"

section \<open>GL scanouts\<close>

record GlScanoutUnix =
  gs_width :: u32
  gs_height :: u32
  gs_stride :: u32
  gs_fourcc :: u32
  gs_top_down :: bool

definition GlScanoutUnix_decode :: "u8 list \<Rightarrow> GlScanoutUnix decoded" where
  "GlScanoutUnix_decode body =
     (if length body \<noteq> 20 then decode_err (size_error_kind (length body) 20) (length body) STR ''GL scanout body''
      else decode_with body (
       rd_then (Reader_u32 STR ''GL scanout width'') (\<lambda>width.
       rd_then (Reader_u32 STR ''GL scanout height'') (\<lambda>height.
       rd_then (Reader_u32 STR ''GL scanout stride'') (\<lambda>stride.
       rd_then (Reader_u32 STR ''GL scanout fourcc'') (\<lambda>fourcc.
       rd_then (Reader_u32 STR ''GL scanout flags'') (\<lambda>flags.
       if flags AND NOT 1 \<noteq> 0 then rd_err Unsupported 16 STR ''GL scanout flags''
       else
       let disabled = (width = 0 \<and> height = 0 \<and> stride = 0 \<and> fourcc = 0) in
       if \<not> disabled \<and> (width = 0 \<or> height = 0 \<or> stride = 0)
       then rd_err InvalidValue 0 STR ''GL scanout dimensions''
       else rd_return \<lparr>gs_width = width, gs_height = height, gs_stride = stride, gs_fourcc = fourcc,
         gs_top_down = (flags AND 1 \<noteq> 0)\<rparr>)))))))"

definition GlScanoutUnix_disabled :: "GlScanoutUnix \<Rightarrow> bool" where
  "GlScanoutUnix_disabled s \<longleftrightarrow> gs_width s = 0"

record GlScanoutPlane =
  gp_offset :: u32
  gp_stride :: u32

record GlScanout2Unix =
  g2_width :: u32
  g2_height :: u32
  g2_fourcc :: u32
  g2_top_down :: bool
  g2_modifier :: u64
  g2_planes :: "GlScanoutPlane list"

definition read_gl_plane :: "GlScanoutPlane reader_op" where
  "read_gl_plane =
     rd_then (Reader_u32 STR ''GL scanout2 plane offset'') (\<lambda>off.
     rd_then (Reader_u32 STR ''GL scanout2 plane stride'') (\<lambda>stride.
     rd_then Reader_offset (\<lambda>here.
     if stride = 0 then rd_err InvalidValue (here - 4) STR ''GL scanout2 plane stride''
     else rd_return \<lparr>gp_offset = off, gp_stride = stride\<rparr>)))"

definition GlScanout2Unix_decode :: "u8 list \<Rightarrow> GlScanout2Unix decoded" where
  "GlScanout2Unix_decode body =
     (if length body < 25 then decode_err Truncated (length body) STR ''GL scanout2 body''
      else decode_with body (
       rd_then (Reader_u32 STR ''GL scanout2 width'') (\<lambda>width.
       rd_then (Reader_u32 STR ''GL scanout2 height'') (\<lambda>height.
       rd_then (Reader_u32 STR ''GL scanout2 fourcc'') (\<lambda>fourcc.
       rd_then (Reader_u32 STR ''GL scanout2 flags'') (\<lambda>flags.
       if flags AND NOT 1 \<noteq> 0 then rd_err Unsupported 12 STR ''GL scanout2 flags''
       else
       rd_then (Reader_u8 STR ''GL scanout2 plane count'') (\<lambda>plane_count.
       let plane_count = unat plane_count in
       rd_then (Reader_u64 STR ''GL scanout2 modifier'') (\<lambda>modifier.
       if plane_count > MAX_GL_SCANOUT_PLANES then rd_err ResourceLimit 16 STR ''GL scanout2 plane count''
       else
       rd_then (rd_lift (ok_or (DecodeError_new Overflow 25 STR ''GL scanout2 planes'') (usize_checked_mul plane_count 8))) (\<lambda>plane_bytes.
       rd_then (rd_lift (ok_or (DecodeError_new Overflow 25 STR ''GL scanout2 body'') (usize_checked_add 25 plane_bytes))) (\<lambda>expected_bytes.
       if length body \<noteq> expected_bytes
       then rd_err (size_error_kind (length body) expected_bytes) (length body) STR ''GL scanout2 planes''
       else
       let disabled = (width = 0 \<and> height = 0 \<and> fourcc = 0 \<and> plane_count = 0) in
       if \<not> disabled \<and> (width = 0 \<or> height = 0 \<or> plane_count = 0)
       then rd_err InvalidValue 0 STR ''GL scanout2 dimensions''
       else
       rd_then (rd_repeat plane_count read_gl_plane) (\<lambda>planes.
       rd_return \<lparr>g2_width = width, g2_height = height, g2_fourcc = fourcc, g2_top_down = (flags AND 1 \<noteq> 0),
         g2_modifier = modifier, g2_planes = planes\<rparr>)))))))))))"

definition GlScanout2Unix_disabled :: "GlScanout2Unix \<Rightarrow> bool" where
  "GlScanout2Unix_disabled s \<longleftrightarrow> g2_width s = 0"

record GlDraw =
  gd_x :: u32
  gd_y :: u32
  gd_width :: u32
  gd_height :: u32

definition GlDraw_decode :: "u8 list \<Rightarrow> GlDraw decoded" where
  "GlDraw_decode body =
     (if length body \<noteq> 16 then decode_err (size_error_kind (length body) 16) (length body) STR ''GL draw body''
      else decode_with body (
       rd_then (Reader_u32 STR ''GL draw x'') (\<lambda>x.
       rd_then (Reader_u32 STR ''GL draw y'') (\<lambda>y.
       rd_then (Reader_u32 STR ''GL draw width'') (\<lambda>width.
       rd_then (Reader_u32 STR ''GL draw height'') (\<lambda>height.
       if width = 0 \<or> height = 0 \<or> u32_checked_add x width = None \<or> u32_checked_add y height = None
       then rd_err InvalidValue 0 STR ''GL draw geometry''
       else rd_return \<lparr>gd_x = x, gd_y = y, gd_width = width, gd_height = height\<rparr>))))))"

section \<open>No decoder panics\<close>

lemma no_panic_Rect_width [no_panic_intros]: "no_panic (Rect_width r)"
  unfolding Rect_width_def by (intro no_panic_intros)

lemma no_panic_Rect_height [no_panic_intros]: "no_panic (Rect_height r)"
  unfolding Rect_height_def by (intro no_panic_intros)

lemma no_panic_Rect_check [no_panic_intros]: "no_panic (Rect_check r)"
  unfolding Rect_check_def by (intro no_panic_intros)

lemma safe_reader_rect [safe_reader_intros]: "safe_reader (read_rect ctx)"
  unfolding read_rect_def by (intro safe_reader_intros)

lemma safe_reader_checked_rect [safe_reader_intros]: "safe_reader (read_checked_rect ctx)"
  unfolding read_checked_rect_def by (intro safe_reader_intros no_panic_intros)

lemma safe_reader_display_clip [safe_reader_intros]: "safe_reader (decode_display_clip ctx)"
  unfolding decode_display_clip_def Let_def by (intro safe_reader_intros no_panic_intros)

lemma safe_reader_stream_clip [safe_reader_intros]: "safe_reader decode_stream_clip"
  unfolding decode_stream_clip_def Let_def by (intro safe_reader_intros no_panic_intros)

lemma safe_reader_composite_transform [safe_reader_intros]: "safe_reader read_composite_transform"
  unfolding read_composite_transform_def by (intro safe_reader_intros)

lemma safe_reader_when [safe_reader_intros]: "safe_reader m \<Longrightarrow> safe_reader (rd_when b m)"
  unfolding rd_when_def by (intro safe_reader_intros)

lemma safe_reader_point16 [safe_reader_intros]: "safe_reader (read_point16 a b)"
  unfolding read_point16_def by (intro safe_reader_intros)

lemma safe_reader_image_descriptor [safe_reader_intros]: "safe_reader read_image_descriptor"
  unfolding read_image_descriptor_def by (intro safe_reader_intros)

lemma no_panic_option_transpose [no_panic_intros]: "(\<And>x. no_panic (f x)) \<Longrightarrow> no_panic (option_transpose f a)"
  by (auto simp: option_transpose_def intro: no_panic_intros split: option.split)


lemma no_panic_decode_composite_image [no_panic_intros]: "no_panic (decode_composite_image body off ctx)"
  unfolding decode_composite_image_def
  by (intro no_panic_intros safe_reader_intros) (auto intro: no_panic_intros)

lemma no_panic_DrawComposite_decode [no_panic_intros]: "no_panic (DrawComposite_decode body)"
  unfolding DrawComposite_decode_def Let_def by (intro no_panic_intros safe_reader_intros)

lemma no_panic_SurfaceCreate_decode [no_panic_intros]: "no_panic (SurfaceCreate_decode body)"
  unfolding SurfaceCreate_decode_def by (intro no_panic_intros safe_reader_intros)

lemma no_panic_CopyBits_decode [no_panic_intros]: "no_panic (CopyBits_decode body)"
  unfolding CopyBits_decode_def by (intro no_panic_intros safe_reader_intros)

lemma safe_reader_invalidate_resource [safe_reader_intros]: "safe_reader read_invalidate_resource"
  unfolding read_invalidate_resource_def by (intro no_panic_intros safe_reader_intros)

lemma no_panic_InvalidateList_decode [no_panic_intros]: "no_panic (InvalidateList_decode body)"
  unfolding InvalidateList_decode_def Let_def by (intro no_panic_intros safe_reader_intros)

lemma safe_reader_monitor_head [safe_reader_intros]: "safe_reader read_monitor_head"
  unfolding read_monitor_head_def by (intro safe_reader_intros)

lemma safe_reader_monitor_heads [safe_reader_intros]: "safe_reader (read_monitor_heads n heads)"
  by (induction n arbitrary: heads) (auto intro!: safe_reader_intros no_panic_intros)

lemma no_panic_MonitorsConfig_decode [no_panic_intros]: "no_panic (MonitorsConfig_decode body)"
  unfolding MonitorsConfig_decode_def Let_def by (intro no_panic_intros safe_reader_intros)

lemma no_panic_StreamClipUpdate_decode [no_panic_intros]: "no_panic (StreamClipUpdate_decode body)"
  unfolding StreamClipUpdate_decode_def by (intro no_panic_intros safe_reader_intros)

lemma no_panic_StreamCreate_decode [no_panic_intros]: "no_panic (StreamCreate_decode body)"
  unfolding StreamCreate_decode_def by (intro no_panic_intros safe_reader_intros)

lemma safe_reader_sized_geometry [safe_reader_intros]: "safe_reader read_sized_geometry"
  unfolding read_sized_geometry_def by (intro no_panic_intros safe_reader_intros)

lemma no_panic_StreamData_decode [no_panic_intros]: "no_panic (StreamData_decode body sized)"
  unfolding StreamData_decode_def Let_def by (intro no_panic_intros safe_reader_intros)

lemma no_panic_StreamReportActivation_decode [no_panic_intros]: "no_panic (StreamReportActivation_decode body)"
  unfolding StreamReportActivation_decode_def by (intro no_panic_intros safe_reader_intros)

lemma no_panic_GlScanoutUnix_decode [no_panic_intros]: "no_panic (GlScanoutUnix_decode body)"
  unfolding GlScanoutUnix_decode_def Let_def by (intro no_panic_intros safe_reader_intros)

lemma safe_reader_gl_plane [safe_reader_intros]: "safe_reader read_gl_plane"
  unfolding read_gl_plane_def by (intro no_panic_intros safe_reader_intros)

lemma no_panic_GlScanout2Unix_decode [no_panic_intros]: "no_panic (GlScanout2Unix_decode body)"
  unfolding GlScanout2Unix_decode_def Let_def by (intro no_panic_intros safe_reader_intros)

lemma no_panic_GlDraw_decode [no_panic_intros]: "no_panic (GlDraw_decode body)"
  unfolding GlDraw_decode_def by (intro no_panic_intros safe_reader_intros)

lemma no_panic_encode_preferred_video_codecs: "no_panic (encode_preferred_video_codecs codecs)"
  unfolding encode_preferred_video_codecs_def by (intro no_panic_intros) simp

end
