(* ===== verification/Spice_DisplayExact.thy ===== *)
theory Spice_DisplayExact
  imports Spice_Display
begin

text \<open>
  What the Display decoders accept. Fixed-size elements of arrays share one contract (locale
  \<open>element_codec\<close>), from which clips and monitor lists are described exactly; image references are shown to
  lie inside the body, with usable dimensions.
\<close>

section \<open>Fixed-size elements\<close>

text \<open>
  The contract of an element of fixed size inside a message: reading the bytes of a valid value returns
  it, and whatever is read is valid and its bytes are those passed over. Counted arrays of such elements
  inherit the contract.
\<close>

locale element_codec =
  fixes op :: "'a reader_op" and enc :: "'a \<Rightarrow> u8 list" and ok :: "'a \<Rightarrow> bool" and n :: nat
  assumes length_enc: "length (enc x) = n"
    and op_at: "ok x \<Longrightarrow> length pre + n < usize_limit \<Longrightarrow>
      op (reader_at pre (enc x @ b)) = Inr (x, reader_at (pre @ enc x) b)"
    and op_Inr: "op r = Inr (x, r') \<Longrightarrow> ok x \<and> rd_offset r + n \<le> length (rd_input r) \<and>
      enc x = take n (drop (rd_offset r) (rd_input r)) \<and> r' = r\<lparr>rd_offset := rd_offset r + n\<rparr>"
begin

lemma length_concat_enc: "length (concat (map enc xs)) = n * length xs"
  by (induction xs) (simp_all add: length_enc)

lemma repeat_at:
  "list_all ok xs \<Longrightarrow> length pre + n * length xs < usize_limit \<Longrightarrow>
   rd_repeat (length xs) op (reader_at pre (concat (map enc xs) @ b)) = Inr (xs, reader_at (pre @ concat (map enc xs)) b)"
proof (induction xs arbitrary: pre)
  case Nil
  then show ?case by (simp add: rd_return_apply)
next
  case (Cons x xs)
  then have "length (pre @ enc x) + n * length xs < usize_limit" by (simp add: length_enc)
  with Cons show ?case by (simp add: rd_then_apply rd_return_apply op_at)
qed

lemma repeat_Inr:
  "rd_repeat k op r = Inr (xs, r') \<Longrightarrow> rd_offset r \<le> length (rd_input r) \<Longrightarrow> list_all ok xs \<and> length xs = k \<and>
   rd_offset r + n * k \<le> length (rd_input r) \<and>
   concat (map enc xs) = take (n * k) (drop (rd_offset r) (rd_input r)) \<and> r' = r\<lparr>rd_offset := rd_offset r + n * k\<rparr>"
proof (induction k arbitrary: r xs)
  case 0
  then show ?case by (simp add: rd_return_def)
next
  case (Suc k)
  from Suc.prems obtain x r1 ys where x: "op r = Inr (x, r1)" and ys: "rd_repeat k op r1 = Inr (ys, r')" "xs = x # ys"
    by auto
  note i = op_Inr [OF x]
  with Suc.IH [OF ys(1)] ys(2) show ?case by (simp add: take_add add.commute add.left_commute)
qed

end

lemma take_drop_join:
  "take a (drop i xs) @ take b (drop (i + a) xs) = take (a + b) (drop i xs)"
  "take a (drop i xs) @ take b (drop (a + i) xs) = take (a + b) (drop i xs)"
  "take a (drop i xs) @ take b (drop (i + a) xs) @ zs = take (a + b) (drop i xs) @ zs"
  "take a (drop i xs) @ take b (drop (a + i) xs) @ zs = take (a + b) (drop i xs) @ zs"
  by (simp_all add: take_add add.commute)

definition encode_rect :: "Rect \<Rightarrow> u8 list" where
  "encode_rect r = u32_to_le_bytes (rect_top r) @ u32_to_le_bytes (rect_left r) @
     u32_to_le_bytes (rect_bottom r) @ u32_to_le_bytes (rect_right r)"

interpretation rect: element_codec "read_rect ctx" encode_rect "\<lambda>_. True" 16 for ctx
proof
  show "length (encode_rect x) = 16" for x by (simp add: encode_rect_def)
  show "read_rect ctx (reader_at pre (encode_rect x @ b)) = Inr (x, reader_at (pre @ encode_rect x) b)"
    if "length pre + 16 < usize_limit" for x pre b
    using that by (simp add: read_rect_def encode_rect_def reader_width reader_simps)
  show "True \<and> rd_offset r + 16 \<le> length (rd_input r) \<and>
      encode_rect x = take 16 (drop (rd_offset r) (rd_input r)) \<and> r' = r\<lparr>rd_offset := rd_offset r + 16\<rparr>"
    if "read_rect ctx r = Inr (x, r')" for r x r'
    using that by (auto simp: read_rect_def encode_rect_def reader_width take_drop_join)
qed

text \<open>A rectangle whose sides are ordered and whose extents fit an \<open>i32\<close>.\<close>

definition rect_ordered :: "Rect \<Rightarrow> bool" where
  "rect_ordered r \<longleftrightarrow> rect_left r \<le>s rect_right r \<and> rect_top r \<le>s rect_bottom r \<and>
     sint (rect_right r) - sint (rect_left r) < 2 ^ 31 \<and> sint (rect_bottom r) - sint (rect_top r) < 2 ^ 31"

lemma i32_checked_sub_Some:
  "i32_checked_sub a b = Some c \<longleftrightarrow> c = a - b \<and> sint c = sint a - sint b"
proof -
  have r: "- (2 ^ 31) \<le> sint (a - b) \<and> sint (a - b) < 2 ^ 31"
    using sint_range_size [of "a - b"] by (simp add: word_size)
  have "sint (a - b) = sint a - sint b" if "- (2 ^ 31) \<le> sint a - sint b" "sint a - sint b < 2 ^ 31"
    using that by (simp add: sint_word_ariths signed_take_bit_int_eq_self)
  with r show ?thesis by (auto simp: i32_checked_sub_def)
qed

lemma sint_i32_range: "- (2 ^ 31) \<le> sint (w :: i32)" "sint (w :: i32) < 2 ^ 31"
  using sint_range_size [of w] by (simp_all add: word_size)

lemma unat_of_sint: "0 \<le> sint (w :: i32) \<Longrightarrow> int (unat w) = sint w"
proof -
  assume "0 \<le> sint w"
  with sint_i32_range(2) [of w] have "take_bit 32 (sint w) = sint w"
    by (intro take_bit_int_eq_self) simp_all
  then have "uint w = sint w" using uint_sint [of w] by simp
  then show ?thesis by (simp only: uint_nat)
qed

lemma Rect_width_Inr:
  "Rect_width r = Inr w \<longleftrightarrow> rect_left r \<le>s rect_right r \<and> sint (rect_right r) - sint (rect_left r) < 2 ^ 31 \<and>
     w = rect_right r - rect_left r"
  using i32_checked_sub_Some [of "rect_right r" "rect_left r" "rect_right r - rect_left r"]
  by (auto simp: Rect_width_def i32_checked_sub_def word_sle_eq split: if_splits)

lemma Rect_height_Inr:
  "Rect_height r = Inr h \<longleftrightarrow> rect_top r \<le>s rect_bottom r \<and> sint (rect_bottom r) - sint (rect_top r) < 2 ^ 31 \<and>
     h = rect_bottom r - rect_top r"
  using i32_checked_sub_Some [of "rect_bottom r" "rect_top r" "rect_bottom r - rect_top r"]
  by (auto simp: Rect_height_def i32_checked_sub_def word_sle_eq split: if_splits)

lemma Rect_check_Inr [simp]: "Rect_check r = Inr u \<longleftrightarrow> rect_ordered r"
  by (auto simp: Rect_check_def Rect_width_Inr Rect_height_Inr rect_ordered_def)

interpretation checked_rect: element_codec "read_checked_rect ctx" encode_rect rect_ordered 16 for ctx
proof
  show "length (encode_rect x) = 16" for x by (rule rect.length_enc)
  show "read_checked_rect ctx (reader_at pre (encode_rect x @ b)) = Inr (x, reader_at (pre @ encode_rect x) b)"
    if "rect_ordered x" "length pre + 16 < usize_limit" for x pre b
  proof -
    have "Rect_check x = Inr ()" using that(1) by simp
    with rect.op_at [where pre = pre and x = x and b = b and ctx = ctx] that(2) show ?thesis
      by (simp add: read_checked_rect_def rd_then_apply rd_lift_apply rd_return_apply del: Rect_check_Inr)
  qed
  show "rect_ordered x \<and> rd_offset r + 16 \<le> length (rd_input r) \<and>
      encode_rect x = take 16 (drop (rd_offset r) (rd_input r)) \<and> r' = r\<lparr>rd_offset := rd_offset r + 16\<rparr>"
    if "read_checked_rect ctx r = Inr (x, r')" for r x r'
    using that rect.op_Inr [where ctx = ctx and r = r and x = x and r' = r'] by (auto simp: read_checked_rect_def)
qed

definition encode_monitor_head :: "MonitorHead \<Rightarrow> u8 list" where
  "encode_monitor_head h = u32_to_le_bytes (mh_monitor_id h) @ u32_to_le_bytes (mh_surface_id h) @
     u32_to_le_bytes (mh_width h) @ u32_to_le_bytes (mh_height h) @ u32_to_le_bytes (mh_x h) @
     u32_to_le_bytes (mh_y h) @ u32_to_le_bytes (mh_flags h)"

interpretation monitor_head: element_codec read_monitor_head encode_monitor_head "\<lambda>_. True" 28
proof
  show "length (encode_monitor_head x) = 28" for x by (simp add: encode_monitor_head_def)
  show "read_monitor_head (reader_at pre (encode_monitor_head x @ b)) = Inr (x, reader_at (pre @ encode_monitor_head x) b)"
    if "length pre + 28 < usize_limit" for x pre b
    using that by (simp add: read_monitor_head_def encode_monitor_head_def reader_width reader_simps)
  show "True \<and> rd_offset r + 28 \<le> length (rd_input r) \<and>
      encode_monitor_head x = take 28 (drop (rd_offset r) (rd_input r)) \<and> r' = r\<lparr>rd_offset := rd_offset r + 28\<rparr>"
    if "read_monitor_head r = Inr (x, r')" for r x r'
    using that by (auto simp: read_monitor_head_def encode_monitor_head_def reader_width take_drop_join)
qed

section \<open>The monitor configuration as a canonical codec\<close>

definition monitors_config_bytes :: "MonitorsConfig \<Rightarrow> u8 list" where
  "monitors_config_bytes c = u16_to_le_bytes (of_nat (length (mc_heads c))) @ u16_to_le_bytes (mc_maximum_allowed c) @
     concat (map encode_monitor_head (mc_heads c))"

definition monitor_head_ok :: "MonitorHead \<Rightarrow> bool" where
  "monitor_head_ok h \<longleftrightarrow> mh_width h \<noteq> 0 \<and> mh_height h \<noteq> 0 \<and> unat (mh_x h) + unat (mh_width h) < 2 ^ 32 \<and>
     unat (mh_y h) + unat (mh_height h) < 2 ^ 32"

definition monitors_ok :: "MonitorHead list \<Rightarrow> bool" where
  "monitors_ok hs \<longleftrightarrow> list_all monitor_head_ok hs \<and> distinct (map mh_monitor_id hs)"

lemma monitor_head_rejected_iff:
  "monitor_head_rejected h hs \<longleftrightarrow> \<not> monitor_head_ok h \<or> mh_monitor_id h \<in> mh_monitor_id ` set hs"
  by (simp add: monitor_head_rejected_def monitor_head_ok_def u32_checked_add_def image_iff) metis

lemma read_monitor_heads_at:
  "monitors_ok (acc @ hs) \<Longrightarrow> length pre + 28 * length hs < usize_limit \<Longrightarrow>
   read_monitor_heads (length hs) acc (reader_at pre (concat (map encode_monitor_head hs) @ b)) =
     Inr (acc @ hs, reader_at (pre @ concat (map encode_monitor_head hs)) b)"
proof (induction hs arbitrary: acc pre)
  case Nil
  then show ?case by (simp add: rd_return_apply)
next
  case (Cons h hs)
  have "\<not> monitor_head_rejected h acc" using Cons.prems(1) by (auto simp: monitor_head_rejected_iff monitors_ok_def)
  moreover have "length (pre @ encode_monitor_head h) + 28 * length hs < usize_limit"
    using Cons.prems(2) by (simp add: monitor_head.length_enc)
  moreover have "monitors_ok ((acc @ [h]) @ hs)" using Cons.prems(1) by simp
  moreover have "length pre + 28 < usize_limit" using Cons.prems(2) by simp
  ultimately show ?case
    using Cons.IH [of "acc @ [h]" "pre @ encode_monitor_head h"] monitor_head.op_at [of pre h]
    by (simp add: rd_then_apply Reader_offset_apply)
qed

lemma read_monitor_heads_Inr:
  "read_monitor_heads n acc r = Inr (hs, r') \<Longrightarrow> monitors_ok acc \<Longrightarrow> rd_offset r \<le> length (rd_input r) \<Longrightarrow>
   \<exists>ds. hs = acc @ ds \<and> length ds = n \<and> monitors_ok hs \<and>
     concat (map encode_monitor_head ds) = take (28 * n) (drop (rd_offset r) (rd_input r))"
proof (induction n arbitrary: acc r)
  case (Suc n)
  then obtain h r1 where h: "read_monitor_head r = Inr (h, r1)" and ok: "\<not> monitor_head_rejected h acc"
    and rest: "read_monitor_heads n (acc @ [h]) r1 = Inr (hs, r')"
    by (auto split: if_splits)
  note i = monitor_head.op_Inr [OF h]
  have "monitors_ok (acc @ [h])"
    using Suc.prems(2) ok by (auto simp: monitor_head_rejected_iff monitors_ok_def)
  from Suc.IH [OF rest this] i obtain ds where "hs = (acc @ [h]) @ ds" "length ds = n" "monitors_ok hs"
    "concat (map encode_monitor_head ds) = take (28 * n) (drop (rd_offset r1) (rd_input r1))"
    by auto
  with i show ?case by (intro exI [of _ "h # ds"]) (simp add: take_add add.commute)
qed simp

lemma MonitorsConfig_decode_parts:
  assumes "MonitorsConfig_decode body = Inr c"
  shows "unat (from_le (take 2 body) :: u16) \<le> 64 \<and> unat (from_le (take 2 body) :: u16) \<le> unat (mc_maximum_allowed c) \<and>
    mc_maximum_allowed c = from_le (take 2 (drop 2 body)) \<and>
    length body = 4 + 28 * unat (from_le (take 2 body) :: u16) \<and>
    (\<exists>r'. read_monitor_heads (unat (from_le (take 2 body) :: u16)) [] ((Reader_new body)\<lparr>rd_offset := 4\<rparr>) = Inr (mc_heads c, r'))"
proof -
  note assms [unfolded MonitorsConfig_decode_def decode_with_Inr]
  then show ?thesis
    by (simp add: reader_width Let_def numeral_2_eq_2 [symmetric] del: read_monitor_heads.simps)
      (elim exE conjE, simp split: if_splits del: read_monitor_heads.simps, elim exE conjE, auto simp del: read_monitor_heads.simps)
qed

text \<open>A monitor configuration has exactly one wire form. The decoder accepts a body if and only if it is the
  encoding of a list of at most 64 heads, and of no more than the server's own limit, that are non-empty,
  end inside the 32-bit plane and have pairwise distinct identities.\<close>

theorem monitors_config_canonical:
  "MonitorsConfig_decode body = Inr c \<longleftrightarrow>
     body = monitors_config_bytes c \<and> length (mc_heads c) \<le> MAX_MONITOR_HEADS \<and>
     length (mc_heads c) \<le> unat (mc_maximum_allowed c) \<and> list_all monitor_head_ok (mc_heads c) \<and>
     distinct (map mh_monitor_id (mc_heads c))"
proof
  assume "MonitorsConfig_decode body = Inr c"
  from MonitorsConfig_decode_parts [OF this] obtain r' where n: "unat (from_le (take 2 body) :: u16) \<le> 64"
    "unat (from_le (take 2 body) :: u16) \<le> unat (mc_maximum_allowed c)"
    and m: "mc_maximum_allowed c = from_le (take 2 (drop 2 body))"
    and l: "length body = 4 + 28 * unat (from_le (take 2 body) :: u16)"
    and hs: "read_monitor_heads (unat (from_le (take 2 body) :: u16)) [] ((Reader_new body)\<lparr>rd_offset := 4\<rparr>) = Inr (mc_heads c, r')"
    by blast
  define k where "k = unat (from_le (take 2 body) :: u16)"
  have ok: "monitors_ok []" by (simp add: monitors_ok_def)
  have len: "length body = 4 + 28 * k" using l by (simp only: k_def)
  have at: "rd_offset ((Reader_new body)\<lparr>rd_offset := 4\<rparr>) \<le> length (rd_input ((Reader_new body)\<lparr>rd_offset := 4\<rparr>))"
    using len by simp
  from read_monitor_heads_Inr [OF hs [folded k_def] ok at] obtain ds where "mc_heads c = [] @ ds" "length ds = k"
    "monitors_ok (mc_heads c)" "concat (map encode_monitor_head ds) = take (28 * k) (drop 4 body)"
    by auto
  then have cs: "length (mc_heads c) = k" "monitors_ok (mc_heads c)" "concat (map encode_monitor_head (mc_heads c)) = drop 4 body"
    using len by simp_all
  have "u16_to_le_bytes (of_nat (length (mc_heads c))) = take 2 body"
  proof -
    have "length (take 2 body) = 2" using len by simp
    then show ?thesis unfolding cs(1) k_def by simp
  qed
  moreover have "u16_to_le_bytes (mc_maximum_allowed c) = take 2 (drop 2 body)" using m len by simp
  moreover have "take 2 body @ take 2 (drop 2 body) @ drop 4 body = body"
    by (metis append_take_drop_id drop_drop numeral_Bit0)
  ultimately show "body = monitors_config_bytes c \<and> length (mc_heads c) \<le> MAX_MONITOR_HEADS \<and>
     length (mc_heads c) \<le> unat (mc_maximum_allowed c) \<and> list_all monitor_head_ok (mc_heads c) \<and>
     distinct (map mh_monitor_id (mc_heads c))"
    using cs n [folded k_def] by (simp add: monitors_config_bytes_def monitors_ok_def)
next
  assume c: "body = monitors_config_bytes c \<and> length (mc_heads c) \<le> MAX_MONITOR_HEADS \<and>
     length (mc_heads c) \<le> unat (mc_maximum_allowed c) \<and> list_all monitor_head_ok (mc_heads c) \<and>
     distinct (map mh_monitor_id (mc_heads c))"
  let ?pre = "u16_to_le_bytes (of_nat (length (mc_heads c))) @ u16_to_le_bytes (mc_maximum_allowed c)"
  have h: "read_monitor_heads (length (mc_heads c)) [] (reader_at ?pre (concat (map encode_monitor_head (mc_heads c)))) =
      Inr (mc_heads c, reader_at (?pre @ concat (map encode_monitor_head (mc_heads c))) [])"
    using c read_monitor_heads_at [of "[]" "mc_heads c" ?pre "[]"] by (simp add: monitors_ok_def)
  have "unat (of_nat (length (mc_heads c)) :: u16) = length (mc_heads c)"
    using c by (simp add: unat_of_nat)
  with c h show "MonitorsConfig_decode body = Inr c"
    by (simp add: MonitorsConfig_decode_def monitors_config_bytes_def decode_with_at reader_width reader_simps
        Let_def monitor_head.length_concat_enc)
qed

section \<open>Clips and image references\<close>

lemma decode_display_clip_Inr:
  assumes "decode_display_clip ctx r = Inr (clip, r')"
  shows "case clip of CompositeClip_None \<Rightarrow> True
    | CompositeClip_Rectangles rs \<Rightarrow> length rs \<le> MAX_COMPOSITE_CLIP_RECTS \<and> list_all rect_ordered rs"
proof (cases clip)
  case (CompositeClip_Rectangles rs)
  from assms CompositeClip_Rectangles obtain n bytes r1 where n: "\<not> 256 < n"
    and rep: "rd_repeat n (read_checked_rect ctx) (Reader_new bytes) = Inr (rs, r1)"
    by (auto simp: decode_display_clip_def Let_def split: if_splits)
  from checked_rect.repeat_Inr [OF rep] n show ?thesis by (simp add: CompositeClip_Rectangles)
qed simp

definition descriptor_bytes :: "u64 \<Rightarrow> u8 \<Rightarrow> u8 \<Rightarrow> u32 \<Rightarrow> u32 \<Rightarrow> u8 list" where
  "descriptor_bytes image_id image_type image_flags width height =
     u64_to_le_bytes image_id @ [image_type, image_flags] @ u32_to_le_bytes width @ u32_to_le_bytes height"

fun image_ref_bytes :: "CompositeImage \<Rightarrow> u8 list" where
  "image_ref_bytes (CompositeImage_Surface s) =
     descriptor_bytes (cs_image_id s) IMAGE_TYPE_SURFACE (cs_image_flags s) (cs_width s) (cs_height s) @
     u32_to_le_bytes (cs_surface_id s)"
| "image_ref_bytes (CompositeImage_Embedded e) =
     descriptor_bytes (ce_image_id e) (DrawCopyImageType_wire_value (ce_image_type e)) (ce_image_flags e) (ce_width e) (ce_height e)"

fun image_ref_flags :: "CompositeImage \<Rightarrow> u8" where
  "image_ref_flags (CompositeImage_Surface s) = cs_image_flags s"
| "image_ref_flags (CompositeImage_Embedded e) = ce_image_flags e"

text \<open>The image at \<open>off\<close> of a body: its bytes are there, it is not empty, and no cache flag is set.\<close>

definition image_at :: "u8 list \<Rightarrow> u32 \<Rightarrow> CompositeImage \<Rightarrow> bool" where
  "image_at body off img \<longleftrightarrow>
     (\<exists>pre post. body = pre @ image_ref_bytes img @ post \<and> length pre = unat off) \<and>
     CompositeImage_width img \<noteq> 0 \<and> CompositeImage_height img \<noteq> 0 \<and> image_ref_flags img AND NOT 2 = 0 \<and>
     (\<forall>e. img = CompositeImage_Embedded e \<longrightarrow> ce_image_offset e = off)"

lemma image_flags_iff: "(f :: u8) AND NOT 7 = 0 \<and> f AND 5 = 0 \<longleftrightarrow> f AND NOT 2 = 0"
proof -
  have "f AND NOT 2 = (f AND NOT 7) OR (f AND 5)"
    by (simp add: bit.conj_disj_distrib [symmetric])
  then show ?thesis by (simp add: or_eq_0_iff)
qed

lemma take_drop_nth:
  "i + a < length xs \<Longrightarrow> take a (drop i xs) @ xs ! (i + a) # zs = take (Suc a) (drop i xs) @ zs"
  "a + i < length xs \<Longrightarrow> take a (drop i xs) @ xs ! (a + i) # zs = take (Suc a) (drop i xs) @ zs"
  by (simp_all add: take_Suc_conv_app_nth add.commute)

interpretation image_descriptor: element_codec read_image_descriptor
  "\<lambda>(i, ty, f, w, h). descriptor_bytes i ty f w h" "\<lambda>_. True" 18
proof
  show "length ((\<lambda>(i, ty, f, w, h). descriptor_bytes i ty f w h) x) = 18" for x
    by (cases x) (simp add: descriptor_bytes_def)
  show "read_image_descriptor (reader_at pre ((\<lambda>(i, ty, f, w, h). descriptor_bytes i ty f w h) x @ b)) =
      Inr (x, reader_at (pre @ (\<lambda>(i, ty, f, w, h). descriptor_bytes i ty f w h) x) b)"
    if "length pre + 18 < usize_limit" for x pre b
    using that by (cases x) (simp add: read_image_descriptor_def descriptor_bytes_def reader_width reader_simps)
  show "True \<and> rd_offset r + 18 \<le> length (rd_input r) \<and>
      (\<lambda>(i, ty, f, w, h). descriptor_bytes i ty f w h) x = take 18 (drop (rd_offset r) (rd_input r)) \<and>
      r' = r\<lparr>rd_offset := rd_offset r + 18\<rparr>"
    if "read_image_descriptor r = Inr (x, r')" for r x r'
    using that by (auto simp: read_image_descriptor_def descriptor_bytes_def reader_width take_drop_join take_drop_nth)
qed
lemma take_at_offset:
  assumes "unat off + n \<le> length body"
  shows "\<exists>pre post. body = pre @ take n (drop (unat off) body) @ post \<and> length pre = unat off"
proof (intro exI conjI)
  show "body = take (unat off) body @ take n (drop (unat off) body) @ drop (unat off + n) body"
    by (metis append_assoc append_take_drop_id take_add)
  show "length (take (unat off) body) = unat off" using assms by simp
qed

lemma image_descriptor_decoded:
  assumes "decode_with (take 18 xs) read_image_descriptor = Inr (i, ty, f, w, h)"
  shows "take 18 xs = descriptor_bytes i ty f w h"
  using assms image_descriptor.op_Inr [of "Reader_new (take 18 xs)" "(i, ty, f, w, h)"] by auto

lemma u32_checked_add_Some: "u32_checked_add a b = Some c \<Longrightarrow> unat c = unat a + unat b"
  by (auto simp: u32_checked_add_def unat_word_ariths split: if_splits)

lemma decode_composite_image_sound:
  assumes d: "decode_composite_image body off ctx = Inr img"
  shows "image_at body off img"
proof -
  let ?d = "take 18 (drop (unat off) body)"
  obtain i ty f w h where len: "unat off + 18 \<le> length body"
    and desc: "?d = descriptor_bytes i ty f w h" and wh: "w \<noteq> 0" "h \<noteq> 0" and f: "f AND NOT 2 = 0"
    and rest: "(if ty \<noteq> IMAGE_TYPE_SURFACE then
       and_then (decode_embedded_image_type ty (unat off + 8)) (\<lambda>image_type.
       Inr (CompositeImage_Embedded \<lparr>ce_image_offset = off, ce_image_id = i,
         ce_image_flags = f, ce_width = w, ce_height = h, ce_image_type = image_type\<rparr>))
     else
     and_then (ok_or (DecodeError_new Overflow (unat off + 18) STR ''Composite surface payload'')
                 (u32_checked_add off (of_nat IMAGE_DESCRIPTOR_BYTES))) (\<lambda>payload_offset.
     and_then (resolve_range body payload_offset 4 STR ''Composite surface payload'') (\<lambda>(p_start, p_end).
     and_then (slice_index body p_start p_end) (\<lambda>payload.
     and_then (decode_with payload (Reader_u32 STR ''Composite source surface id'')) (\<lambda>surface_id.
     Inr (CompositeImage_Surface \<lparr>cs_image_id = i, cs_image_flags = f, cs_width = w,
       cs_height = h, cs_surface_id = surface_id\<rparr>)))))) = Inr img"
  proof -
    obtain i ty f w h where 1: "decode_with ?d read_image_descriptor = Inr (i, ty, f, w, h)"
      using d unfolding decode_composite_image_def by (auto simp del: decode_with_Inr)
    have 2: "unat off + 18 \<le> length body" "unat off + 18 < usize_limit"
      using d unfolding decode_composite_image_def by (auto simp del: decode_with_Inr)
    have 3: "resolve_range body off 18 ctx = Inr (unat off, unat off + 18)"
      "slice_index body (unat off) (unat off + 18) = Inr ?d"
      using 2 by simp_all
    show ?thesis
      using d 2 image_descriptor_decoded [OF 1] that [of i ty f w h] image_flags_iff [of f]
      unfolding decode_composite_image_def IMAGE_DESCRIPTOR_BYTES_def 3 and_then_Inr case_prod_conv 1
      by (auto split: if_splits)
  qed
  show ?thesis
  proof (cases "ty = IMAGE_TYPE_SURFACE")
    case False
    with rest obtain t where img: "img = CompositeImage_Embedded \<lparr>ce_image_offset = off, ce_image_id = i,
         ce_image_flags = f, ce_width = w, ce_height = h, ce_image_type = t\<rparr>" and "ty = DrawCopyImageType_wire_value t"
      by auto
    with desc have "image_ref_bytes img = ?d" by simp
    with take_at_offset [OF len] wh f show ?thesis by (auto simp: image_at_def img)
  next
    case True
    with rest obtain p where p: "u32_checked_add off 18 = Some p" "unat p + 4 \<le> length body"
      and img: "img = CompositeImage_Surface \<lparr>cs_image_id = i, cs_image_flags = f, cs_width = w,
       cs_height = h, cs_surface_id = from_le (take 4 (drop (unat p) body))\<rparr>"
      by (auto simp: reader_width)
    have "unat p = unat off + 18" using u32_checked_add_Some [OF p(1)] by simp
    with p(2) desc True have "image_ref_bytes img = ?d @ take 4 (drop (unat off + 18) body)" by (simp add: img)
    also have "\<dots> = take 22 (drop (unat off) body)" by (simp add: take_drop_join)
    finally have "image_ref_bytes img = take 22 (drop (unat off) body)" .
    with take_at_offset [of off 22 body] p(2) \<open>unat p = unat off + 18\<close> wh f show ?thesis
      by (auto simp: image_at_def img)
  qed
qed
lemma option_transpose_Inr:
  "option_transpose f x = Inr (Some b) \<Longrightarrow> \<exists>a. x = Some a \<and> f a = Inr b"
  by (auto simp: option_transpose_def split: option.splits)

text \<open>An accepted Draw Composite is ready to be executed: the destination and every clip rectangle are
  ordered with extents that fit an \<open>i32\<close>, there are at most 256 of them, and the source and the mask name
  non-empty, uncached images whose descriptors (and surface payloads) lie inside the body.\<close>

theorem draw_composite_sound:
  assumes "DrawComposite_decode body = Inr c"
  shows "rect_ordered (dc_destination c)
    \<and> (case dc_clip c of CompositeClip_None \<Rightarrow> True
       | CompositeClip_Rectangles rs \<Rightarrow> length rs \<le> MAX_COMPOSITE_CLIP_RECTS \<and> list_all rect_ordered rs)
    \<and> (\<exists>off. image_at body off (dc_source c))
    \<and> (\<forall>m. dc_mask c = Some m \<longrightarrow> (\<exists>off. image_at body off m))"
proof -
  from assms obtain r r' off mask_off where "rect_ordered (dc_destination c)"
    and clip: "decode_display_clip STR ''Composite clip'' r = Inr (dc_clip c, r')"
    and source: "decode_composite_image body off STR ''Composite source image'' = Inr (dc_source c)"
    and mask: "option_transpose (\<lambda>off. decode_composite_image body off STR ''Composite mask image'') mask_off = Inr (dc_mask c)"
    by (auto simp: DrawComposite_decode_def Let_def split: if_splits)
  have "\<exists>off. image_at body off m" if "dc_mask c = Some m" for m
    using option_transpose_Inr [OF mask [unfolded that]] decode_composite_image_sound by blast
  with \<open>rect_ordered (dc_destination c)\<close> decode_display_clip_Inr [OF clip] decode_composite_image_sound [OF source]
  show ?thesis by blast
qed

text \<open>A copy of an 8 by 8 surface onto the square with corners (0, 0) and (8, 8).\<close>

definition composite_body :: "u8 list" where
  "composite_body =
     [1, 0, 0, 0] @ [0, 0, 0, 0, 0, 0, 0, 0, 8, 0, 0, 0, 8, 0, 0, 0] @ [0] @ [1, 0, 0, 0] @ [37, 0, 0, 0] @
     [0, 0, 0, 0, 0, 0, 0, 0] @
     [9, 0, 0, 0, 0, 0, 0, 0, 104, 0, 8, 0, 0, 0, 8, 0, 0, 0, 2, 0, 0, 0]"

theorem draw_composite_sound_witness:
  "\<exists>c. DrawComposite_decode composite_body = Inr c \<and> (\<exists>off. image_at composite_body off (dc_source c))"
proof -
  have "\<exists>c. DrawComposite_decode composite_body = Inr c"
    by (simp add: DrawComposite_decode_def composite_body_def decode_with_def Reader_new_def reader_width Reader_le_def Reader_take_def
      Reader_u8_def Reader_offset_def rd_then_def rd_return_def rd_lift_def usize_checked_add_def slice_get_def Let_def read_rect_def
      decode_display_clip_def rd_when_def read_point16_def option_transpose_def decode_composite_image_def
      resolve_range_def slice_index_def read_image_descriptor_def u32_checked_add_def Rect_check_def Rect_width_def Rect_height_def
      i32_checked_sub_def)
  then obtain c where c: "DrawComposite_decode composite_body = Inr c" by blast
  with draw_composite_sound [OF c] show ?thesis by blast
qed

end
