(* ===== verification/Spice_ClassicDisplay.thy ===== *)
theory Spice_ClassicDisplay
  imports Spice_DisplayExact
begin

text \<open>
  The classic drawing commands of the Display channel (\<open>classic_display.rs\<close> of the protocol crate): Fill,
  Copy, Opaque, the masked destination operations, Rop3, Stroke, Text, Transparent and Alpha Blend.

  Shown here: no decoder panics, whatever the body; the destination of an accepted command is a
  non-empty rectangle, its images lie inside the body, and paths and raster strings respect their limits
  and hold exactly the pixel bytes their dimensions call for.
\<close>

section \<open>Data\<close>

definition MAX_PATH_SEGMENTS :: nat where [simp]: "MAX_PATH_SEGMENTS = 4096"
definition MAX_PATH_POINTS :: nat where [simp]: "MAX_PATH_POINTS = 262144"
definition MAX_RASTER_GLYPHS :: nat where [simp]: "MAX_RASTER_GLYPHS = 4096"
definition MAX_RASTER_GLYPH_BYTES :: nat where [simp]: "MAX_RASTER_GLYPH_BYTES = 16 * 1024 * 1024"

record Point =
  pt_x :: i32
  pt_y :: i32

record DisplayBase =
  db_surface_id :: u32
  db_destination :: Rect
  db_clip :: CompositeClip

datatype DisplayBrush = DisplayBrush_None | DisplayBrush_Solid u32 | DisplayBrush_Pattern CompositeImage Point

record DisplayMask =
  dm_inverted :: bool
  dm_position :: Point
  dm_image :: "CompositeImage option"

record DisplayImageSource =
  dis_image :: CompositeImage
  dis_area :: Rect
  dis_scale_mode :: u8

record DrawFill =
  df_base :: DisplayBase
  df_brush :: DisplayBrush
  df_rop_descriptor :: u16
  df_mask :: DisplayMask

record DrawCopy =
  dco_base :: DisplayBase
  dco_source :: DisplayImageSource
  dco_rop_descriptor :: u16
  dco_mask :: DisplayMask

record DrawOpaque =
  dop_base :: DisplayBase
  dop_source :: DisplayImageSource
  dop_brush :: DisplayBrush
  dop_rop_descriptor :: u16
  dop_mask :: DisplayMask

record DrawMaskedDestination =
  dmd_base :: DisplayBase
  dmd_mask :: DisplayMask

record DrawRop3 =
  dr3_base :: DisplayBase
  dr3_source :: DisplayImageSource
  dr3_brush :: DisplayBrush
  dr3_rop3 :: u8
  dr3_mask :: DisplayMask

record FixedPoint =
  fp_x :: i32
  fp_y :: i32

record PathSegment =
  ps_flags :: u8
  ps_points :: "FixedPoint list"

record LineAttributes =
  la_flags :: u8
  la_style :: "i32 list"

record DrawStroke =
  dst_base :: DisplayBase
  dst_path :: "PathSegment list"
  dst_line :: LineAttributes
  dst_brush :: DisplayBrush
  dst_foreground_rop :: u16
  dst_background_rop :: u16

datatype GlyphFormat = GlyphFormat_Alpha1 | GlyphFormat_Alpha4 | GlyphFormat_Alpha8

record RasterGlyph =
  rg_render_position :: Point
  rg_origin :: Point
  rg_width :: u16
  rg_height :: u16
  rg_pixels :: "u8 list"

record RasterString =
  rs_format :: GlyphFormat
  rs_top_down :: bool
  rs_glyphs :: "RasterGlyph list"

record DrawText =
  dt_base :: DisplayBase
  dt_text :: RasterString
  dt_background_area :: Rect
  dt_foreground_brush :: DisplayBrush
  dt_background_brush :: DisplayBrush
  dt_foreground_rop :: u16
  dt_background_rop :: u16

record DrawTransparent =
  dtr_base :: DisplayBase
  dtr_source_image :: CompositeImage
  dtr_source_area :: Rect
  dtr_source_color :: u32
  dtr_transparent_color :: u32

record DrawAlphaBlend =
  dab_base :: DisplayBase
  dab_destination_has_alpha :: bool
  dab_source_surface_has_alpha :: bool
  dab_alpha :: u8
  dab_source_image :: CompositeImage
  dab_source_area :: Rect

section \<open>Shared parts\<close>

definition read_point :: "context_str \<Rightarrow> Point reader_op" where
  "read_point ctx = rd_then (Reader_i32 ctx) (\<lambda>x. rd_then (Reader_i32 ctx) (\<lambda>y. rd_return \<lparr>pt_x = x, pt_y = y\<rparr>))"

text \<open>\<open>r.width()? == 0 || r.height()? == 0\<close>: the second extent is computed only when the first is not zero.\<close>

definition Rect_empty :: "Rect \<Rightarrow> bool decoded" where
  "Rect_empty r =
     and_then (Rect_width r) (\<lambda>width.
     if width = 0 then Inr True else and_then (Rect_height r) (\<lambda>height. Inr (height = 0)))"

definition read_valid_rect :: "context_str \<Rightarrow> Rect reader_op" where
  "read_valid_rect ctx =
     rd_then (read_rect ctx) (\<lambda>rectangle.
     rd_then (rd_lift (Rect_empty rectangle)) (\<lambda>empty.
     rd_then Reader_offset (\<lambda>here.
     if empty then rd_err InvalidValue (here - 16) ctx else rd_return rectangle)))"

definition required_offset :: "context_str \<Rightarrow> u32 reader_op" where
  "required_offset ctx =
     rd_then Reader_offset (\<lambda>offset_position.
     rd_then (Reader_u32 ctx) (\<lambda>off.
     if off = 0 then rd_err InvalidOffset offset_position ctx else rd_return off))"

definition DisplayBase_decode :: "DisplayBase reader_op" where
  "DisplayBase_decode =
     rd_then (Reader_u32 STR ''Display destination surface'') (\<lambda>surface_id.
     rd_then (read_valid_rect STR ''Display destination rectangle'') (\<lambda>destination.
     rd_then (decode_display_clip STR ''Display clip'') (\<lambda>clip.
     rd_return \<lparr>db_surface_id = surface_id, db_destination = destination, db_clip = clip\<rparr>)))"

definition decode_brush :: "u8 list \<Rightarrow> context_str \<Rightarrow> DisplayBrush reader_op" where
  "decode_brush body ctx =
     rd_then (Reader_u8 ctx) (\<lambda>brush_type.
     rd_then Reader_offset (\<lambda>here.
     if brush_type = 0 then rd_return DisplayBrush_None
     else if brush_type = 1 then rd_then (Reader_u32 ctx) (\<lambda>color. rd_return (DisplayBrush_Solid color))
     else if brush_type = 2 then
       rd_then (required_offset ctx) (\<lambda>image_offset.
       rd_then (read_point ctx) (\<lambda>pos.
       rd_then (rd_lift (CompositeImage_decode_at body image_offset)) (\<lambda>img.
       rd_return (DisplayBrush_Pattern img pos))))
     else rd_err Unsupported (here - 1) ctx))"

definition decode_mask :: "u8 list \<Rightarrow> context_str \<Rightarrow> DisplayMask reader_op" where
  "decode_mask body ctx =
     rd_then Reader_offset (\<lambda>flags_offset.
     rd_then (Reader_u8 ctx) (\<lambda>flags.
     if flags AND NOT 1 \<noteq> 0 then rd_err InvalidValue flags_offset ctx
     else
     rd_then (read_point ctx) (\<lambda>pos.
     rd_then (Reader_u32 ctx) (\<lambda>image_offset.
     rd_then (rd_lift (option_transpose (CompositeImage_decode_at body) (if image_offset \<noteq> 0 then Some image_offset else None))) (\<lambda>img.
     rd_return \<lparr>dm_inverted = (flags AND 1 \<noteq> 0), dm_position = pos, dm_image = img\<rparr>)))))"

definition decode_scale_mode :: "context_str \<Rightarrow> u8 reader_op" where
  "decode_scale_mode ctx =
     rd_then Reader_offset (\<lambda>off.
     rd_then (Reader_u8 ctx) (\<lambda>mode.
     if mode > 1 then rd_err InvalidValue off ctx else rd_return mode))"

section \<open>Paths and raster strings\<close>

definition START_WITH_GAP :: u8 where [simp]: "START_WITH_GAP = 4"
definition STYLED :: u8 where [simp]: "STYLED = 8"

definition decode_line_attributes :: "u8 list \<Rightarrow> LineAttributes reader_op" where
  "decode_line_attributes body =
     rd_then Reader_offset (\<lambda>flags_offset.
     rd_then (Reader_u8 STR ''Stroke line flags'') (\<lambda>flags.
     if flags AND NOT (START_WITH_GAP OR STYLED) \<noteq> 0 then rd_err InvalidValue flags_offset STR ''Stroke line flags''
     else if flags AND STYLED = 0 then rd_return \<lparr>la_flags = flags, la_style = []\<rparr>
     else
     rd_then (Reader_u8 STR ''Stroke style segment count'') (\<lambda>count.
     rd_then Reader_offset (\<lambda>here.
     let count = unat count in
     if count = 0 then rd_err InvalidValue (here - 1) STR ''Stroke style segment count''
     else
     rd_then (required_offset STR ''Stroke style array'') (\<lambda>style_offset.
     rd_then Reader_offset (\<lambda>here.
     rd_then (rd_lift (ok_or (DecodeError_new Overflow here STR ''Stroke style array'') (usize_checked_mul count 4))) (\<lambda>style_bytes.
     rd_then (rd_lift (resolve_range body style_offset style_bytes STR ''Stroke style array'')) (\<lambda>range.
     rd_then (rd_lift (slice_index body (fst range) (snd range))) (\<lambda>bytes.
     rd_then (rd_lift (decode_with bytes (rd_repeat count (Reader_i32 STR ''Stroke style segment'')))) (\<lambda>style.
     rd_return \<lparr>la_flags = flags, la_style = style\<rparr>))))))))))"

definition read_fixed_point :: "FixedPoint reader_op" where
  "read_fixed_point =
     rd_then (Reader_i32 STR ''Stroke path point x'') (\<lambda>x.
     rd_then (Reader_i32 STR ''Stroke path point y'') (\<lambda>y.
     rd_return \<lparr>fp_x = x, fp_y = y\<rparr>))"

primrec read_path_segments :: "nat \<Rightarrow> nat \<Rightarrow> nat \<Rightarrow> PathSegment list reader_op" where
  "read_path_segments start total_points 0 = rd_return []"
| "read_path_segments start total_points (Suc n) =
     rd_then Reader_offset (\<lambda>flags_at.
     rd_then (Reader_u8 STR ''Stroke path flags'') (\<lambda>flags.
     if flags AND NOT 0x1b \<noteq> 0 then rd_err InvalidValue (start + flags_at) STR ''Stroke path flags''
     else
     rd_then Reader_offset (\<lambda>count_at.
     rd_then (Reader_u32 STR ''Stroke path point count'') (\<lambda>point_count.
     let point_count = unat point_count in
     rd_then (rd_lift (ok_or (DecodeError_new Overflow (start + count_at) STR ''Stroke path point count'')
                         (usize_checked_add total_points point_count))) (\<lambda>total_points.
     if total_points > MAX_PATH_POINTS then rd_err ResourceLimit (start + count_at) STR ''Stroke path point count''
     else
     rd_then (rd_repeat point_count read_fixed_point) (\<lambda>points.
     rd_then (read_path_segments start total_points n) (\<lambda>segments.
     rd_return (\<lparr>ps_flags = flags, ps_points = points\<rparr> # segments))))))))"

text \<open>\<open>&body[start..]\<close>\<close>

definition slice_from :: "u8 list \<Rightarrow> nat \<Rightarrow> u8 list decoded" where
  "slice_from body start = slice_index body start (length body)"

definition decode_path :: "u8 list \<Rightarrow> u32 \<Rightarrow> PathSegment list decoded" where
  "decode_path body path_offset =
     and_then (resolve_range body path_offset 4 STR ''Stroke path'') (\<lambda>range.
     let start = fst range in
     and_then (slice_from body start) (\<lambda>bytes.
     decode_with bytes (
       rd_then (Reader_u32 STR ''Stroke path segment count'') (\<lambda>segment_count.
       if unat segment_count > MAX_PATH_SEGMENTS then rd_err ResourceLimit start STR ''Stroke path segment count''
       else read_path_segments start 0 (unat segment_count)))))"

definition GlyphFormat_of_flags :: "u8 \<Rightarrow> (GlyphFormat \<times> nat) option" where
  "GlyphFormat_of_flags flags =
     (let f = flags AND 7 in
      if f = 1 then Some (GlyphFormat_Alpha1, 1)
      else if f = 2 then Some (GlyphFormat_Alpha4, 4)
      else if f = 4 then Some (GlyphFormat_Alpha8, 8)
      else None)"

text \<open>\<open>u8::count_ones\<close>\<close>

definition count_ones :: "u8 \<Rightarrow> nat" where
  "count_ones w = length (filter (\<lambda>i. bit w i) [0..<8])"

primrec read_glyphs :: "nat \<Rightarrow> nat \<Rightarrow> nat \<Rightarrow> nat \<Rightarrow> RasterGlyph list reader_op" where
  "read_glyphs start bits_per_pixel aggregate_bytes 0 = rd_return []"
| "read_glyphs start bits_per_pixel aggregate_bytes (Suc n) =
     rd_then (read_point STR ''Text glyph render position'') (\<lambda>render_position.
     rd_then (read_point STR ''Text glyph origin'') (\<lambda>origin.
     rd_then (Reader_u16 STR ''Text glyph width'') (\<lambda>width.
     rd_then (Reader_u16 STR ''Text glyph height'') (\<lambda>height.
     rd_then Reader_offset (\<lambda>here.
     rd_then (rd_lift (ok_or (DecodeError_new Overflow (start + here) STR ''Text glyph row'')
                         (usize_checked_mul (unat width) bits_per_pixel))) (\<lambda>row_bits.
     rd_then (rd_lift (ok_or (DecodeError_new Overflow (start + here) STR ''Text glyph row'')
                         (map_option (\<lambda>bits. bits div 8) (usize_checked_add row_bits 7)))) (\<lambda>row_bytes.
     rd_then (rd_lift (ok_or (DecodeError_new Overflow (start + here) STR ''Text glyph pixels'')
                         (usize_checked_mul row_bytes (unat height)))) (\<lambda>pixel_bytes.
     rd_then (rd_lift (ok_or (DecodeError_new Overflow (start + here) STR ''Text glyph pixels'')
                         (usize_checked_add aggregate_bytes pixel_bytes))) (\<lambda>aggregate_bytes.
     if aggregate_bytes > MAX_RASTER_GLYPH_BYTES then rd_err ResourceLimit (start + here) STR ''Text glyph pixels''
     else
     rd_then (Reader_take pixel_bytes STR ''Text glyph pixels'') (\<lambda>pixels.
     rd_then (read_glyphs start bits_per_pixel aggregate_bytes n) (\<lambda>glyphs.
     rd_return (\<lparr>rg_render_position = render_position, rg_origin = origin, rg_width = width, rg_height = height,
       rg_pixels = pixels\<rparr> # glyphs))))))))))))"

text \<open>The \<open>unreachable!\<close> of the format match is a panic.\<close>

definition decode_raster_string :: "u8 list \<Rightarrow> u32 \<Rightarrow> RasterString decoded" where
  "decode_raster_string body string_offset =
     and_then (resolve_range body string_offset 3 STR ''Text raster string'') (\<lambda>range.
     let start = fst range in
     and_then (slice_from body start) (\<lambda>bytes.
     decode_with bytes (
       rd_then (Reader_u16 STR ''Text glyph count'') (\<lambda>glyph_count.
       if unat glyph_count > MAX_RASTER_GLYPHS then rd_err ResourceLimit start STR ''Text glyph count''
       else
       rd_then Reader_offset (\<lambda>flags_at.
       rd_then (Reader_u8 STR ''Text string flags'') (\<lambda>flags.
       if flags AND NOT 0x0f \<noteq> 0 \<or> count_ones (flags AND 7) \<noteq> 1
       then rd_err InvalidValue (start + flags_at) STR ''Text string flags''
       else
       rd_then (rd_lift (expect (GlyphFormat_of_flags flags))) (\<lambda>format.
       rd_then (read_glyphs start (snd format) 0 (unat glyph_count)) (\<lambda>glyphs.
       rd_return \<lparr>rs_format = fst format, rs_top_down = (flags AND 8 \<noteq> 0), rs_glyphs = glyphs\<rparr>))))))))"

section \<open>Commands\<close>

definition DrawFill_decode :: "u8 list \<Rightarrow> DrawFill decoded" where
  "DrawFill_decode body = decode_with body (
     rd_then DisplayBase_decode (\<lambda>base.
     rd_then (decode_brush body STR ''Fill brush'') (\<lambda>brush.
     rd_then (Reader_u16 STR ''Fill raster operation'') (\<lambda>rop_descriptor.
     rd_then (decode_mask body STR ''Fill mask'') (\<lambda>mask.
     rd_return \<lparr>df_base = base, df_brush = brush, df_rop_descriptor = rop_descriptor, df_mask = mask\<rparr>)))))"

definition DrawCopy_decode :: "u8 list \<Rightarrow> DrawCopy decoded" where
  "DrawCopy_decode body = decode_with body (
     rd_then DisplayBase_decode (\<lambda>base.
     rd_then (required_offset STR ''Copy source image'') (\<lambda>image_offset.
     rd_then (read_valid_rect STR ''Copy source rectangle'') (\<lambda>area.
     rd_then (Reader_u16 STR ''Copy raster operation'') (\<lambda>rop_descriptor.
     rd_then (decode_scale_mode STR ''Copy scale mode'') (\<lambda>scale_mode.
     rd_then (decode_mask body STR ''Copy mask'') (\<lambda>mask.
     rd_then (rd_lift (CompositeImage_decode_at body image_offset)) (\<lambda>img.
     rd_return \<lparr>dco_base = base, dco_source = \<lparr>dis_image = img, dis_area = area, dis_scale_mode = scale_mode\<rparr>,
       dco_rop_descriptor = rop_descriptor, dco_mask = mask\<rparr>))))))))"

definition DrawOpaque_decode :: "u8 list \<Rightarrow> DrawOpaque decoded" where
  "DrawOpaque_decode body = decode_with body (
     rd_then DisplayBase_decode (\<lambda>base.
     rd_then (required_offset STR ''Opaque source image'') (\<lambda>image_offset.
     rd_then (read_valid_rect STR ''Opaque source rectangle'') (\<lambda>area.
     rd_then (decode_brush body STR ''Opaque brush'') (\<lambda>brush.
     rd_then (Reader_u16 STR ''Opaque raster operation'') (\<lambda>rop_descriptor.
     rd_then (decode_scale_mode STR ''Opaque scale mode'') (\<lambda>scale_mode.
     rd_then (decode_mask body STR ''Opaque mask'') (\<lambda>mask.
     rd_then (rd_lift (CompositeImage_decode_at body image_offset)) (\<lambda>img.
     rd_return \<lparr>dop_base = base, dop_source = \<lparr>dis_image = img, dis_area = area, dis_scale_mode = scale_mode\<rparr>,
       dop_brush = brush, dop_rop_descriptor = rop_descriptor, dop_mask = mask\<rparr>)))))))))"

definition DrawMaskedDestination_decode :: "u8 list \<Rightarrow> DrawMaskedDestination decoded" where
  "DrawMaskedDestination_decode body = decode_with body (
     rd_then DisplayBase_decode (\<lambda>base.
     rd_then (decode_mask body STR ''Destination mask'') (\<lambda>mask.
     rd_return \<lparr>dmd_base = base, dmd_mask = mask\<rparr>)))"

definition DrawRop3_decode :: "u8 list \<Rightarrow> DrawRop3 decoded" where
  "DrawRop3_decode body = decode_with body (
     rd_then DisplayBase_decode (\<lambda>base.
     rd_then (required_offset STR ''ROP3 source image'') (\<lambda>image_offset.
     rd_then (read_valid_rect STR ''ROP3 source rectangle'') (\<lambda>area.
     rd_then (decode_brush body STR ''ROP3 brush'') (\<lambda>brush.
     rd_then (Reader_u8 STR ''ROP3 truth table'') (\<lambda>rop3.
     rd_then (decode_scale_mode STR ''ROP3 scale mode'') (\<lambda>scale_mode.
     rd_then (decode_mask body STR ''ROP3 mask'') (\<lambda>mask.
     rd_then (rd_lift (CompositeImage_decode_at body image_offset)) (\<lambda>img.
     rd_return \<lparr>dr3_base = base, dr3_source = \<lparr>dis_image = img, dis_area = area, dis_scale_mode = scale_mode\<rparr>,
       dr3_brush = brush, dr3_rop3 = rop3, dr3_mask = mask\<rparr>)))))))))"

definition DrawStroke_decode :: "u8 list \<Rightarrow> DrawStroke decoded" where
  "DrawStroke_decode body = decode_with body (
     rd_then DisplayBase_decode (\<lambda>base.
     rd_then (required_offset STR ''Stroke path'') (\<lambda>path_offset.
     rd_then (decode_line_attributes body) (\<lambda>line.
     rd_then (decode_brush body STR ''Stroke brush'') (\<lambda>brush.
     rd_then (Reader_u16 STR ''Stroke foreground raster operation'') (\<lambda>foreground_rop.
     rd_then (Reader_u16 STR ''Stroke background raster operation'') (\<lambda>background_rop.
     rd_then (rd_lift (decode_path body path_offset)) (\<lambda>path.
     rd_return \<lparr>dst_base = base, dst_path = path, dst_line = line, dst_brush = brush,
       dst_foreground_rop = foreground_rop, dst_background_rop = background_rop\<rparr>))))))))"

definition DrawText_decode :: "u8 list \<Rightarrow> DrawText decoded" where
  "DrawText_decode body = decode_with body (
     rd_then DisplayBase_decode (\<lambda>base.
     rd_then (required_offset STR ''Text raster string'') (\<lambda>string_offset.
     rd_then (read_valid_rect STR ''Text background rectangle'') (\<lambda>background_area.
     rd_then (decode_brush body STR ''Text foreground brush'') (\<lambda>foreground_brush.
     rd_then (decode_brush body STR ''Text background brush'') (\<lambda>background_brush.
     rd_then (Reader_u16 STR ''Text foreground raster operation'') (\<lambda>foreground_rop.
     rd_then (Reader_u16 STR ''Text background raster operation'') (\<lambda>background_rop.
     rd_then (rd_lift (decode_raster_string body string_offset)) (\<lambda>txt.
     rd_return \<lparr>dt_base = base, dt_text = txt, dt_background_area = background_area,
       dt_foreground_brush = foreground_brush, dt_background_brush = background_brush,
       dt_foreground_rop = foreground_rop, dt_background_rop = background_rop\<rparr>)))))))))"

definition DrawTransparent_decode :: "u8 list \<Rightarrow> DrawTransparent decoded" where
  "DrawTransparent_decode body = decode_with body (
     rd_then DisplayBase_decode (\<lambda>base.
     rd_then (required_offset STR ''Transparent source image'') (\<lambda>image_offset.
     rd_then (read_valid_rect STR ''Transparent source rectangle'') (\<lambda>source_area.
     rd_then (Reader_u32 STR ''Transparent source color'') (\<lambda>source_color.
     rd_then (Reader_u32 STR ''Transparent true color'') (\<lambda>transparent_color.
     rd_then (rd_lift (CompositeImage_decode_at body image_offset)) (\<lambda>source_image.
     rd_return \<lparr>dtr_base = base, dtr_source_image = source_image, dtr_source_area = source_area,
       dtr_source_color = source_color, dtr_transparent_color = transparent_color\<rparr>)))))))"

definition DrawAlphaBlend_decode :: "u8 list \<Rightarrow> DrawAlphaBlend decoded" where
  "DrawAlphaBlend_decode body = decode_with body (
     rd_then DisplayBase_decode (\<lambda>base.
     rd_then Reader_offset (\<lambda>flags_offset.
     rd_then (Reader_u8 STR ''Alpha Blend flags'') (\<lambda>flags.
     if flags AND NOT 0b11 \<noteq> 0 then rd_err InvalidValue flags_offset STR ''Alpha Blend flags''
     else
     rd_then (Reader_u8 STR ''Alpha Blend global alpha'') (\<lambda>alpha.
     rd_then (required_offset STR ''Alpha Blend source image'') (\<lambda>image_offset.
     rd_then (read_valid_rect STR ''Alpha Blend source rectangle'') (\<lambda>source_area.
     rd_then (rd_lift (CompositeImage_decode_at body image_offset)) (\<lambda>source_image.
     rd_return \<lparr>dab_base = base, dab_destination_has_alpha = (flags AND 1 \<noteq> 0),
       dab_source_surface_has_alpha = (flags AND 2 \<noteq> 0), dab_alpha = alpha, dab_source_image = source_image,
       dab_source_area = source_area\<rparr>))))))))"

section \<open>No decoder panics\<close>

lemma no_panic_Rect_empty [no_panic_intros]: "no_panic (Rect_empty r)"
  unfolding Rect_empty_def by (intro no_panic_intros)

lemma safe_reader_point [safe_reader_intros]: "safe_reader (read_point ctx)"
  unfolding read_point_def by (intro safe_reader_intros)

lemma safe_reader_valid_rect [safe_reader_intros]: "safe_reader (read_valid_rect ctx)"
  unfolding read_valid_rect_def by (intro safe_reader_intros no_panic_intros)

lemma safe_reader_required_offset [safe_reader_intros]: "safe_reader (required_offset ctx)"
  unfolding required_offset_def by (intro safe_reader_intros no_panic_intros)

lemma safe_reader_display_base [safe_reader_intros]: "safe_reader DisplayBase_decode"
  unfolding DisplayBase_decode_def by (intro safe_reader_intros)

lemma no_panic_CompositeImage_decode_at [no_panic_intros]: "no_panic (CompositeImage_decode_at body off)"
  unfolding CompositeImage_decode_at_def by (intro no_panic_intros)

lemma safe_reader_brush [safe_reader_intros]: "safe_reader (decode_brush body ctx)"
  unfolding decode_brush_def by (intro safe_reader_intros no_panic_intros)

lemma safe_reader_mask [safe_reader_intros]: "safe_reader (decode_mask body ctx)"
  unfolding decode_mask_def by (intro safe_reader_intros no_panic_intros)

lemma safe_reader_scale_mode [safe_reader_intros]: "safe_reader (decode_scale_mode ctx)"
  unfolding decode_scale_mode_def by (intro safe_reader_intros no_panic_intros)

lemma resolve_range_bounds:
  assumes "resolve_range body off n ctx = Inr rng"
  shows "fst rng = unat off" "snd rng = unat off + n" "snd rng \<le> length body"
  using assms by (cases rng; simp)+

lemma safe_reader_line_attributes [safe_reader_intros]: "safe_reader (decode_line_attributes body)"
  unfolding decode_line_attributes_def Let_def
  by (intro safe_reader_intros no_panic_intros) (auto dest: resolve_range_bounds)

lemma safe_reader_fixed_point [safe_reader_intros]: "safe_reader read_fixed_point"
  unfolding read_fixed_point_def by (intro safe_reader_intros)

lemma safe_reader_path_segments [safe_reader_intros]: "safe_reader (read_path_segments start total_points n)"
  by (induction n arbitrary: total_points) (auto simp: Let_def intro!: safe_reader_intros no_panic_intros)

lemma no_panic_decode_path [no_panic_intros]: "no_panic (decode_path body off)"
  unfolding decode_path_def slice_from_def Let_def
  by (intro no_panic_intros safe_reader_intros) (auto dest: resolve_range_bounds)

lemma count_ones_7: "count_ones (f AND 7) = Suc 0 \<Longrightarrow> \<exists>a b. GlyphFormat_of_flags f = Some (a, b)"
proof -
  define g where "g = f AND 7"
  have "unat g < 8" using word_and_le1 [of f 7] by (simp add: g_def word_le_nat_alt)
  then have "unat g = 0 \<or> unat g = 1 \<or> unat g = 2 \<or> unat g = 3 \<or> unat g = 4 \<or> unat g = 5 \<or> unat g = 6 \<or> unat g = 7"
    by linarith
  then have "g \<in> {0, 1, 2, 3, 4, 5, 6, 7}"
    by (auto dest!: arg_cong [where f = "of_nat :: nat \<Rightarrow> u8"])
  moreover assume "count_ones (f AND 7) = Suc 0"
  ultimately show ?thesis
    by (auto simp: g_def [symmetric] GlyphFormat_of_flags_def Let_def count_ones_def upt_rec)
qed

lemma safe_reader_glyphs [safe_reader_intros]: "safe_reader (read_glyphs start bpp aggregate n)"
  by (induction n arbitrary: aggregate) (auto intro!: safe_reader_intros no_panic_intros)

lemma no_panic_decode_raster_string [no_panic_intros]: "no_panic (decode_raster_string body off)"
  unfolding decode_raster_string_def slice_from_def Let_def
  by (intro no_panic_intros safe_reader_intros) (auto dest: resolve_range_bounds count_ones_7)

lemma no_panic_DrawFill_decode [no_panic_intros]: "no_panic (DrawFill_decode body)"
  unfolding DrawFill_decode_def by (intro no_panic_intros safe_reader_intros)

lemma no_panic_DrawCopy_decode [no_panic_intros]: "no_panic (DrawCopy_decode body)"
  unfolding DrawCopy_decode_def by (intro no_panic_intros safe_reader_intros)

lemma no_panic_DrawOpaque_decode [no_panic_intros]: "no_panic (DrawOpaque_decode body)"
  unfolding DrawOpaque_decode_def by (intro no_panic_intros safe_reader_intros)

lemma no_panic_DrawMaskedDestination_decode [no_panic_intros]: "no_panic (DrawMaskedDestination_decode body)"
  unfolding DrawMaskedDestination_decode_def by (intro no_panic_intros safe_reader_intros)

lemma no_panic_DrawRop3_decode [no_panic_intros]: "no_panic (DrawRop3_decode body)"
  unfolding DrawRop3_decode_def by (intro no_panic_intros safe_reader_intros)

lemma no_panic_DrawStroke_decode [no_panic_intros]: "no_panic (DrawStroke_decode body)"
  unfolding DrawStroke_decode_def by (intro no_panic_intros safe_reader_intros)

lemma no_panic_DrawText_decode [no_panic_intros]: "no_panic (DrawText_decode body)"
  unfolding DrawText_decode_def by (intro no_panic_intros safe_reader_intros)

lemma no_panic_DrawTransparent_decode [no_panic_intros]: "no_panic (DrawTransparent_decode body)"
  unfolding DrawTransparent_decode_def by (intro no_panic_intros safe_reader_intros)

lemma no_panic_DrawAlphaBlend_decode [no_panic_intros]: "no_panic (DrawAlphaBlend_decode body)"
  unfolding DrawAlphaBlend_decode_def by (intro no_panic_intros safe_reader_intros)

section \<open>What accepted commands designate\<close>

definition glyph_bits :: "GlyphFormat \<Rightarrow> nat" where
  "glyph_bits f = (case f of GlyphFormat_Alpha1 \<Rightarrow> 1 | GlyphFormat_Alpha4 \<Rightarrow> 4 | GlyphFormat_Alpha8 \<Rightarrow> 8)"

definition glyph_row_bytes :: "nat \<Rightarrow> RasterGlyph \<Rightarrow> nat" where
  "glyph_row_bytes bpp g = (unat (rg_width g) * bpp + 7) div 8"

definition glyph_ok :: "nat \<Rightarrow> RasterGlyph \<Rightarrow> bool" where
  "glyph_ok bpp g \<longleftrightarrow> length (rg_pixels g) = glyph_row_bytes bpp g * unat (rg_height g)"

lemma read_glyphs_Inr:
  "read_glyphs start bpp aggregate n r = Inr (gs, r') \<Longrightarrow> aggregate \<le> MAX_RASTER_GLYPH_BYTES \<Longrightarrow>
   length gs = n \<and> list_all (glyph_ok bpp) gs \<and>
   aggregate + sum_list (map (\<lambda>g. length (rg_pixels g)) gs) \<le> MAX_RASTER_GLYPH_BYTES"
proof (induction n arbitrary: aggregate r gs)
  case (Suc n)
  obtain w h px rp og r1 gs' where gs: "gs = \<lparr>rg_render_position = rp, rg_origin = og, rg_width = w, rg_height = h, rg_pixels = px\<rparr> # gs'"
    and px: "length px = (unat w * bpp + 7) div 8 * unat h" "\<not> MAX_RASTER_GLYPH_BYTES < aggregate + length px"
    and rest: "read_glyphs start bpp (aggregate + length px) n r1 = Inr (gs', r')"
    using Suc.prems(1) by (auto split: if_splits)
  from px(2) have "aggregate + length px \<le> MAX_RASTER_GLYPH_BYTES" by simp
  from Suc.IH [OF rest this] px(1) show ?case by (simp add: gs glyph_ok_def glyph_row_bytes_def)
qed simp

lemma GlyphFormat_of_flags_Some: "GlyphFormat_of_flags f = Some (a, b) \<Longrightarrow> b = glyph_bits a"
  by (auto simp: GlyphFormat_of_flags_def Let_def glyph_bits_def split: if_splits)

lemma decode_raster_string_glyphs:
  assumes "decode_raster_string body off = Inr s"
  shows "length (rs_glyphs s) \<le> MAX_RASTER_GLYPHS" "list_all (glyph_ok (glyph_bits (rs_format s))) (rs_glyphs s)"
    "sum_list (map (\<lambda>g. length (rg_pixels g)) (rs_glyphs s)) \<le> MAX_RASTER_GLYPH_BYTES"
proof -
  from assms obtain start a b n r r' flags where "GlyphFormat_of_flags flags = Some (a, b)" "rs_format s = a"
    "\<not> 4096 < n" and gs: "read_glyphs start b 0 n r = Inr (rs_glyphs s, r')"
    by (auto simp: decode_raster_string_def Let_def split: if_splits)
  with read_glyphs_Inr [OF gs] GlyphFormat_of_flags_Some show
    "length (rs_glyphs s) \<le> MAX_RASTER_GLYPHS" "list_all (glyph_ok (glyph_bits (rs_format s))) (rs_glyphs s)"
    "sum_list (map (\<lambda>g. length (rg_pixels g)) (rs_glyphs s)) \<le> MAX_RASTER_GLYPH_BYTES"
    by auto
qed

text \<open>An accepted raster string can be drawn without further checks: it has at most 4096 glyphs, each glyph
  has exactly the rows its width, height and format call for, every row padded to whole bytes, and all
  glyphs together stay within 16 MiB.\<close>

theorem raster_string_sound:
  assumes "decode_raster_string body off = Inr s"
  shows "length (rs_glyphs s) \<le> MAX_RASTER_GLYPHS
    \<and> list_all (glyph_ok (glyph_bits (rs_format s))) (rs_glyphs s)
    \<and> sum_list (map (\<lambda>g. length (rg_pixels g)) (rs_glyphs s)) \<le> MAX_RASTER_GLYPH_BYTES"
  using decode_raster_string_glyphs [OF assms] by blast

text \<open>One 3 by 2 glyph of one bit per pixel: two rows of one byte.\<close>

theorem raster_string_sound_witness:
  "\<exists>s. decode_raster_string
      ([1, 0, 9] @ [0, 0, 0, 0, 0, 0, 0, 0] @ [0, 0, 0, 0, 0, 0, 0, 0] @ [3, 0, 2, 0] @ [0xa0, 0x40]) 0 = Inr s \<and>
     list_all (glyph_ok (glyph_bits (rs_format s))) (rs_glyphs s) \<and> rs_glyphs s \<noteq> []"
proof -
  obtain s where s: "decode_raster_string
      ([1, 0, 9] @ [0, 0, 0, 0, 0, 0, 0, 0] @ [0, 0, 0, 0, 0, 0, 0, 0] @ [3, 0, 2, 0] @ [0xa0, 0x40]) 0 = Inr s"
    "rs_glyphs s \<noteq> []"
    by (simp add: decode_raster_string_def slice_from_def Let_def decode_with_def Reader_new_def reader_width Reader_le_def
        Reader_take_def Reader_u8_def Reader_offset_def rd_then_def rd_return_def rd_lift_def usize_checked_add_def
        usize_checked_mul_def slice_get_def slice_index_def resolve_range_def read_point_def count_ones_def upt_rec
        GlyphFormat_of_flags_def)
  from raster_string_sound [OF s(1)] s show ?thesis by blast
qed

lemma read_path_segments_Inr:
  "read_path_segments start total_points n r = Inr (ss, r') \<Longrightarrow> total_points \<le> MAX_PATH_POINTS \<Longrightarrow>
   length ss = n \<and> total_points + sum_list (map (\<lambda>s. length (ps_points s)) ss) \<le> MAX_PATH_POINTS"
proof (induction n arbitrary: total_points r ss)
  case (Suc n)
  obtain s ss' r1 where ss: "ss = s # ss'" "\<not> MAX_PATH_POINTS < total_points + length (ps_points s)"
    and rest: "read_path_segments start (total_points + length (ps_points s)) n r1 = Inr (ss', r')"
    using Suc.prems(1) by (auto simp: Let_def dest!: rd_repeat_length split: if_splits)
  from ss(2) have "total_points + length (ps_points s) \<le> MAX_PATH_POINTS" by simp
  from Suc.IH [OF rest this] ss show ?case by simp
qed simp

lemma decode_path_bounds:
  assumes "decode_path body off = Inr ss"
  shows "length ss \<le> MAX_PATH_SEGMENTS \<and> sum_list (map (\<lambda>s. length (ps_points s)) ss) \<le> MAX_PATH_POINTS"
proof -
  from assms obtain start n r r' where "\<not> 4096 < n" and ss: "read_path_segments start 0 n r = Inr (ss, r')"
    by (auto simp: decode_path_def Let_def split: if_splits)
  with read_path_segments_Inr [OF ss] show ?thesis by simp
qed

end
