(* ===== verification/Codec_Common.thy ===== *)
theory Codec_Common
  imports Spice_Wire
begin

text \<open>
  What the image decoders of the codecs crate share: loops with an accumulator and an early return,
  indexing that panics, and the passes that fill an output image cell by cell.

  A pass allocates the output, then visits the cells of the image in some order and copies one cell
  per turn with \<open>copy_from_slice\<close>. The locale \<open>cell_pass\<close> states what the body of such a loop
  promises, and shows once that the pass never panics, keeps the size of the output, and leaves in
  every visited cell exactly the value computed for it, whatever the order of the visits.
\<close>

section \<open>Loops and indexing\<close>

text \<open>A \<open>for\<close> loop whose body updates an accumulator and may return early.\<close>

fun for_each :: "('i \<Rightarrow> 'b \<Rightarrow> ('e, 'b) outcome) \<Rightarrow> 'i list \<Rightarrow> 'b \<Rightarrow> ('e, 'b) outcome" where
  "for_each f [] b = Inr b"
| "for_each f (i # is) b = and_then (f i b) (for_each f is)"

text \<open>\<open>source[i]\<close>, which panics outside the slice.\<close>

definition index_at :: "'a list \<Rightarrow> nat \<Rightarrow> ('e, 'a) outcome" where
  "index_at xs i = (if i < length xs then Inr (xs ! i) else Inl Panic)"

text \<open>\<open>slice.copy_within(a..a + n, b)\<close>, which panics when one of the ranges is outside the slice.\<close>

definition copy_within :: "'a list \<Rightarrow> nat \<Rightarrow> nat \<Rightarrow> nat \<Rightarrow> ('e, 'a list) outcome" where
  "copy_within xs a n b =
     (if a + n \<le> length xs \<and> b + n \<le> length xs
      then Inr (take b xs @ take n (drop a xs) @ drop (b + n) xs) else Inl Panic)"

text \<open>\<open>xs[i] = v\<close>, which panics outside the slice.\<close>

definition index_set :: "'a list \<Rightarrow> nat \<Rightarrow> 'a \<Rightarrow> ('e, 'a list) outcome" where
  "index_set xs i v = (if i < length xs then Inr (xs[i := v]) else Inl Panic)"

lemma index_at_in [simp]: "i < length xs \<Longrightarrow> index_at xs i = Inr (xs ! i)"
  by (simp add: index_at_def)

lemma index_at_Inr [simp]: "index_at xs i = Inr x \<longleftrightarrow> i < length xs \<and> x = xs ! i"
  by (auto simp: index_at_def)

lemma slice_index_in [simp]:
  "a \<le> b \<Longrightarrow> b \<le> length xs \<Longrightarrow> slice_index xs a b = Inr (take (b - a) (drop a xs))"
  by (simp add: slice_index_def)

lemma for_each_append: "for_each f (is @ js) b = and_then (for_each f is b) (for_each f js)"
proof (induction "is" arbitrary: b)
  case (Cons i "is")
  then have "for_each f (is @ js) = (\<lambda>b. and_then (for_each f is b) (for_each f js))" by (intro ext) simp
  then show ?case by (simp add: and_then_assoc)
qed simp

lemma for_each_cong:
  "(\<And>i b. i \<in> set is \<Longrightarrow> f i b = g i b) \<Longrightarrow> for_each f is b = for_each g is b"
proof (induction "is" arbitrary: b)
  case (Cons i "is")
  then have "for_each f is = for_each g is" by (intro ext) simp
  with Cons show ?case by simp
qed simp

lemma for_each_map: "for_each f (map h is) b = for_each (\<lambda>i. f (h i)) is b"
proof (induction "is" arbitrary: b)
  case (Cons i "is")
  then have "for_each f (map h is) = for_each (\<lambda>i. f (h i)) is" by (intro ext) simp
  then show ?case by simp
qed simp

lemma for_each_total:
  assumes "P b" "\<And>i b. i \<in> set is \<Longrightarrow> P b \<Longrightarrow> \<exists>b'. f i b = Inr b' \<and> P b'"
  shows "\<exists>b'. for_each f is b = Inr b' \<and> P b'"
  using assms
proof (induction "is" arbitrary: b)
  case (Cons i "is")
  from Cons.prems(2) [of i b] Cons.prems(1) obtain b1 where b1: "f i b = Inr b1" "P b1" by auto
  from Cons.IH [OF b1(2)] Cons.prems(2) b1(1) show ?case by simp
qed simp

text \<open>Two nested loops are one loop over the pairs, row by row.\<close>

lemma for_each_nested:
  "for_each (\<lambda>y. for_each (\<lambda>x. f (y, x)) xs) ys b = for_each f (List.product ys xs) b"
proof (induction ys arbitrary: b)
  case (Cons y ys)
  have "for_each (\<lambda>x. f (y, x)) xs c = for_each f (map (Pair y) xs) c" for c
    by (simp add: for_each_map)
  moreover from Cons have "for_each (\<lambda>y. for_each (\<lambda>x. f (y, x)) xs) ys = for_each f (List.product ys xs)"
    by (intro ext) simp
  ultimately show ?case by (simp add: for_each_append)
qed simp

lemma nth_copy_within:
  assumes "a + n \<le> length xs" "b + n \<le> length xs" "i < length xs"
  shows "(take b xs @ take n (drop a xs) @ drop (b + n) xs) ! i = (if b \<le> i \<and> i < b + n then xs ! (a + (i - b)) else xs ! i)"
proof -
  have l: "length (take n (drop a xs)) = n" "length (take b xs) = b" using assms(1,2) by simp_all
  show ?thesis using assms by (auto simp only: nth_append l) auto
qed

lemma length_copy_within:
  assumes "a + n \<le> length xs" "b + n \<le> length xs"
  shows "length (take b xs @ take n (drop a xs) @ drop (b + n) xs) = length xs"
proof -
  have "length (take n (drop a xs)) = n" "length (take b xs) = b" using assms by simp_all
  then show ?thesis using assms(2) by (simp only: length_append length_drop)
qed

text \<open>A loop that keeps a property of its state and does not panic from states that have it.\<close>

lemma for_each_keeps:
  assumes "\<And>i b. i \<in> set js \<Longrightarrow> P b \<Longrightarrow> no_panic (f i b)" "\<And>i b b'. i \<in> set js \<Longrightarrow> P b \<Longrightarrow> f i b = Inr b' \<Longrightarrow> P b'" "P b"
  shows "no_panic (for_each f js b) \<and> (\<forall>b'. for_each f js b = Inr b' \<longrightarrow> P b')"
  using assms
proof (induction js arbitrary: b)
  case (Cons i js)
  have i: "no_panic (f i b)" "\<And>b'. f i b = Inr b' \<Longrightarrow> P b'"
    using Cons.prems(1) [of i b] Cons.prems(2) [of i b] Cons.prems(3) by simp_all
  have "no_panic (f j c)" if "j \<in> set js" "P c" for j c using Cons.prems(1) that by simp
  moreover have "P c'" if "j \<in> set js" "P c" "f j c = Inr c'" for j c c' using Cons.prems(2) [of j c c'] that by simp
  ultimately have "no_panic (for_each f js b') \<and> (\<forall>c. for_each f js b' = Inr c \<longrightarrow> P c)" if "P b'" for b'
    using that by (intro Cons.IH) blast+
  with i show ?case by (auto intro!: no_panic_and_then)
qed simp

section \<open>Postconditions\<close>

text \<open>\<open>returns P m\<close>: a value that \<open>m\<close> returns has the property \<open>P\<close>. The rules follow the statements of the code.\<close>

definition returns :: "('a \<Rightarrow> bool) \<Rightarrow> ('e, 'a) outcome \<Rightarrow> bool" where
  "returns P m \<longleftrightarrow> (\<forall>v. m = Inr v \<longrightarrow> P v)"

named_theorems returns_intros

lemma returns_and_then [returns_intros]: "(\<And>x. m = Inr x \<Longrightarrow> returns P (f x)) \<Longrightarrow> returns P (and_then m f)"
  by (auto simp: returns_def)

lemma returns_Inr [returns_intros]: "P v \<Longrightarrow> returns P (Inr v)"
  by (simp add: returns_def)

lemma returns_Inl [returns_intros]: "returns P (Inl e)"
  by (simp add: returns_def)

lemma returns_if [returns_intros]: "(b \<Longrightarrow> returns P m) \<Longrightarrow> (\<not> b \<Longrightarrow> returns P n) \<Longrightarrow> returns P (if b then m else n)"
  by (simp add: returns_def)

lemma returns_case_prod [returns_intros]: "(\<And>a b. x = (a, b) \<Longrightarrow> returns P (f a b)) \<Longrightarrow> returns P (case x of (a, b) \<Rightarrow> f a b)"
  by (cases x) simp

lemma returns_let [returns_intros]: "(\<And>x. x = v \<Longrightarrow> returns P (f x)) \<Longrightarrow> returns P (let x = v in f x)"
  by simp

lemma returnsD: "returns P m \<Longrightarrow> m = Inr v \<Longrightarrow> P v"
  by (simp add: returns_def)

section \<open>Running without a panic\<close>

text \<open>\<open>safely P m\<close>: \<open>m\<close> does not panic, and a value it returns has the property \<open>P\<close>. The rules are those of a
  Hoare logic over the statements of the code.\<close>

definition safely :: "('a \<Rightarrow> bool) \<Rightarrow> ('e, 'a) outcome \<Rightarrow> bool" where
  "safely P m \<longleftrightarrow> (case m of Inl e \<Rightarrow> e \<noteq> Panic | Inr v \<Rightarrow> P v)"

named_theorems safely_intros

lemma safely_simps [simp]: "safely P (Inr v) = P v" "safely P (Inl e) = (e \<noteq> Panic)"
  by (simp_all add: safely_def)

lemma safely_and_then: "safely Q m \<Longrightarrow> (\<And>x. m = Inr x \<Longrightarrow> Q x \<Longrightarrow> safely P (f x)) \<Longrightarrow> safely P (and_then m f)"
  by (cases m) simp_all

lemma safely_weaken: "safely Q m \<Longrightarrow> (\<And>x. Q x \<Longrightarrow> P x) \<Longrightarrow> safely P m"
  by (auto simp: safely_def split: sum.splits)

lemma safely_case_prod [safely_intros]: "(\<And>a b. x = (a, b) \<Longrightarrow> safely P (f a b)) \<Longrightarrow> safely P (case x of (a, b) \<Rightarrow> f a b)"
  by (cases x) simp

lemma safely_ok_or: "(\<And>x. v = Some x \<Longrightarrow> P x) \<Longrightarrow> safely P (ok_or e v)"
  by (cases v) (simp_all add: ok_or_def)

lemma safely_expect: "v = Some x \<Longrightarrow> P x \<Longrightarrow> safely P (expect v)"
  by (simp add: expect_def)

lemma safely_index_at: "i < length xs \<Longrightarrow> P (xs ! i) \<Longrightarrow> safely P (index_at xs i)"
  by simp

lemma safely_index_set: "i < length xs \<Longrightarrow> P (xs[i := v]) \<Longrightarrow> safely P (index_set xs i v)"
  by (simp add: index_set_def)

lemma safely_slice_index: "a \<le> b \<Longrightarrow> b \<le> length xs \<Longrightarrow> P (take (b - a) (drop a xs)) \<Longrightarrow> safely P (slice_index xs a b)"
  by simp

lemma safely_for_each:
  assumes "P b" "\<And>i b. i \<in> set js \<Longrightarrow> P b \<Longrightarrow> safely P (f i b)"
  shows "safely P (for_each f js b)"
  using assms
proof (induction js arbitrary: b)
  case (Cons j js)
  have "safely P (f j b)" using Cons.prems by simp
  moreover have "safely P (for_each f js b')" if "P b'" for b' using Cons.IH [of b'] that Cons.prems(2) by simp
  ultimately show ?case by (auto intro: safely_and_then)
qed simp

lemma safely_try_map:
  assumes "\<And>x. x \<in> set xs \<Longrightarrow> safely P (f x)"
  shows "safely (\<lambda>ys. length ys = length xs \<and> (\<forall>y \<in> set ys. P y)) (try_map f xs)"
  using assms
proof (induction xs)
  case (Cons x xs)
  have "safely P (f x)" "safely (\<lambda>ys. length ys = length xs \<and> (\<forall>y \<in> set ys. P y)) (try_map f xs)" using Cons by simp_all
  then show ?case by (auto intro!: safely_and_then)
qed simp

lemma safely_no_panic: "safely P m \<Longrightarrow> no_panic m"
  by (auto simp: safely_def no_panic_def split: sum.splits)

lemma safelyD: "safely P m \<Longrightarrow> m = Inr v \<Longrightarrow> P v"
  by (simp add: safely_def)

section \<open>Agreement on success\<close>

text \<open>
  \<open>refines m n\<close>: whenever \<open>m\<close> succeeds, \<open>n\<close> succeeds with the same value. The closure rules walk
  through the statements of two runs of the same code, so that a proof that two runs agree needs an
  argument only where they differ.
\<close>

definition refines :: "('e, 'a) outcome \<Rightarrow> ('e, 'a) outcome \<Rightarrow> bool" where
  "refines m n \<longleftrightarrow> (\<forall>y. m = Inr y \<longrightarrow> n = Inr y)"

named_theorems refines_intros \<open>closure rules for agreement on success\<close>

lemma refinesD: "refines m n \<Longrightarrow> m = Inr y \<Longrightarrow> n = Inr y"
  by (simp add: refines_def)

lemma refines_refl [refines_intros]: "refines m m"
  by (simp add: refines_def)

lemma refines_Inl [refines_intros]: "refines (Inl e) m"
  by (simp add: refines_def)

lemma refines_and_then [refines_intros]:
  assumes "refines m m'" "\<And>x. m = Inr x \<Longrightarrow> refines (f x) (f' x)"
  shows "refines (and_then m f) (and_then m' f')"
  using assms by (auto simp: refines_def)

lemma refines_if [refines_intros]:
  assumes "b \<Longrightarrow> refines m m'" "\<not> b \<Longrightarrow> refines n n'"
  shows "refines (if b then m else n) (if b then m' else n')"
  using assms by simp

lemma refines_case_prod [refines_intros]:
  assumes "\<And>a b. p = (a, b) \<Longrightarrow> refines (f a b) (f' a b)"
  shows "refines (case p of (a, b) \<Rightarrow> f a b) (case p of (a, b) \<Rightarrow> f' a b)"
  using assms by (cases p) simp

lemma refines_case_prod_app [refines_intros]:
  assumes "\<And>a b. p = (a, b) \<Longrightarrow> refines (f a b z) (f' a b z)"
  shows "refines ((case p of (a, b) \<Rightarrow> f a b) z) ((case p of (a, b) \<Rightarrow> f' a b) z)"
  using assms by (cases p) simp

lemma refines_let [refines_intros]:
  assumes "\<And>x. x = v \<Longrightarrow> refines (f x) (f' x)"
  shows "refines (let x = v in f x) (let x = v in f' x)"
  using assms by (simp add: Let_def)

lemma refines_for_each [refines_intros]:
  assumes "\<And>i b. refines (f i b) (g i b)"
  shows "refines (for_each f is b) (for_each g is b)"
  using assms
proof (induction "is" arbitrary: b)
  case (Cons i "is")
  then show ?case by (auto intro!: refines_and_then)
qed (simp add: refines_refl)

section \<open>Cells\<close>

text \<open>\<open>cell_at k j out\<close> is the cell \<open>j\<close> of an output made of cells of \<open>k\<close> bytes.\<close>

definition cell_at :: "nat \<Rightarrow> nat \<Rightarrow> 'a list \<Rightarrow> 'a list" where
  "cell_at k j xs = take k (drop (j * k) xs)"

lemma copy_from_slice_Some [simp]:
  "copy_from_slice xs k ys = Some zs \<longleftrightarrow>
     k + length ys \<le> length xs \<and> zs = take k xs @ ys @ drop (k + length ys) xs"
  by (auto simp: copy_from_slice_def)

lemma copy_from_slice_None [simp]:
  "copy_from_slice xs k ys = None \<longleftrightarrow> length xs < k + length ys"
  by (auto simp: copy_from_slice_def)

lemma cell_end: "j < n \<Longrightarrow> j * k + k \<le> n * (k :: nat)"
  by (metis Suc_leI mult_Suc mult_le_mono1 add.commute)

lemma cell_at_write_same:
  assumes "length ys = k" "j < n" "length xs = n * k"
  shows "cell_at k j (take (j * k) xs @ ys @ drop (j * k + k) xs) = ys"
  using assms cell_end [of j n k] by (simp add: cell_at_def)

lemma cell_at_write_other:
  assumes "length ys = k" "j < n" "length xs = n * k" "i \<noteq> j"
  shows "cell_at k i (take (j * k) xs @ ys @ drop (j * k + k) xs) = cell_at k i xs"
proof (cases "i < j")
  case True
  with assms cell_end [of i j k] cell_end [of j n k] show ?thesis
    by (simp add: cell_at_def min_def drop_take le_diff_conv2)
next
  case False
  with assms have "j < i" by simp
  with assms cell_end [of j i k] cell_end [of j n k] show ?thesis
    by (simp add: cell_at_def)
qed

lemma cell_at_concat:
  assumes "\<And>x. x \<in> set xs \<Longrightarrow> length x = k" and "j < length xs"
  shows "cell_at k j (concat xs) = xs ! j"
  using assms
proof (induction xs arbitrary: j)
  case (Cons x xs)
  then show ?case by (cases j) (simp_all add: cell_at_def)
qed simp

lemma length_cell_at: "j < n \<Longrightarrow> length xs = n * k \<Longrightarrow> length (cell_at k j xs) = k"
  using cell_end [of j n k] by (simp add: cell_at_def)

section \<open>Passes over an output image\<close>

text \<open>
  \<open>body\<close> is the body of the loop, over the output and the number of cancellation polls; \<open>cell\<close> is
  the output cell of a loop index and \<open>value_of\<close> the value computed for it.
\<close>

locale cell_pass =
  fixes inside :: "'i \<Rightarrow> bool"
    and body :: "'i \<Rightarrow> 'b list \<times> nat \<Rightarrow> ('e, 'b list \<times> nat) outcome"
    and cell :: "'i \<Rightarrow> nat"
    and value_of :: "'i \<Rightarrow> ('e, 'b list) outcome"
    and width cells :: nat
  assumes body_writes:
      "inside i \<Longrightarrow> body i (out, p) = Inr (out', p') \<Longrightarrow>
        \<exists>v. value_of i = Inr v \<and> length v = width \<and> copy_from_slice out (cell i * width) v = Some out'"
    and body_no_panic: "inside i \<Longrightarrow> length out = cells * width \<Longrightarrow> no_panic (body i (out, p))"
    and cell_bound: "inside i \<Longrightarrow> cell i < cells"
    and cell_inj: "inside i \<Longrightarrow> inside j \<Longrightarrow> cell i = cell j \<Longrightarrow> i = j"
begin

lemma step:
  assumes "inside i" "length out = cells * width" "body i (out, p) = Inr (out', p')"
  shows "length out' = cells * width" "value_of i = Inr (cell_at width (cell i) out')"
    "j \<noteq> cell i \<Longrightarrow> cell_at width j out' = cell_at width j out"
proof -
  obtain v where v: "value_of i = Inr v" "length v = width"
      and out: "out' = take (cell i * width) out @ v @ drop (cell i * width + width) out"
    using body_writes [OF assms(1,3)] by auto
  note b = cell_bound [OF assms(1)]
  show "length out' = cells * width" using cell_end [OF b, of width] assms(2) v out by simp
  show "value_of i = Inr (cell_at width (cell i) out')"
    using cell_at_write_same [OF v(2) b assms(2)] v(1) out by simp
  show "j \<noteq> cell i \<Longrightarrow> cell_at width j out' = cell_at width j out"
    using cell_at_write_other [OF v(2) b assms(2), of j] out by simp
qed

lemma fill:
  assumes "for_each body is (out, p) = Inr (out', p')" "length out = cells * width"
    "\<And>i. i \<in> set is \<Longrightarrow> inside i"
  shows "length out' = cells * width \<and>
         (\<forall>i \<in> set is. value_of i = Inr (cell_at width (cell i) out')) \<and>
         (\<forall>j. j \<notin> cell ` set is \<longrightarrow> cell_at width j out' = cell_at width j out)"
  using assms
proof (induction "is" arbitrary: out p)
  case Nil
  then show ?case by simp
next
  case (Cons i "is")
  then obtain out1 p1 where b: "body i (out, p) = Inr (out1, p1)"
    and rest: "for_each body is (out1, p1) = Inr (out', p')" by auto
  have i: "inside i" using Cons.prems(3) by simp
  note s = step [OF i Cons.prems(2) b]
  note ih = Cons.IH [OF rest s(1)]
  have "value_of i = Inr (cell_at width (cell i) out')"
  proof (cases "i \<in> set is")
    case True
    with ih Cons.prems(3) show ?thesis by simp
  next
    case False
    then have "cell i \<notin> cell ` set is" using cell_inj [OF i] Cons.prems(3) by auto
    with ih Cons.prems(3) s(2) show ?thesis by simp
  qed
  with ih Cons.prems(3) s(3) show ?case by auto
qed

lemma pass_no_panic:
  assumes "length out = cells * width" "\<And>i. i \<in> set is \<Longrightarrow> inside i"
  shows "no_panic (for_each body is (out, p))"
  using assms
proof (induction "is" arbitrary: out p)
  case (Cons i "is")
  then show ?case
    by (auto intro!: no_panic_and_then body_no_panic dest!: step(1) [rotated 2])
qed simp

end

end
