(* ===== verification/Client_Surface.thy ===== *)
theory Client_Surface
  imports Client_Channel Spice_ClassicDisplay Codec_Common
begin

text \<open>
  Display surfaces (\<open>display.rs\<close> of \<open>oxide-spice-client\<close>): checked rectangles, the pixel store, the byte
  budget all surfaces of a session share, same-surface copies and the blit of decoded video frames.

  A surface is a row-major list of 32-bit words; its byte view is the four bytes of each word, and the
  code takes byte ranges only at multiples of four, so the model works on words throughout. The main
  result is the meaning of \<open>copy_bits\<close>: with or without a clip, and however source and destination
  overlap, every selected pixel receives the value its source had before the copy. The locale
  \<open>pixel_loop\<close> carries this argument for every loop that rewrites pixels in place.
\<close>

section \<open>Errors and rectangles\<close>

definition resource_limit_error :: "context_str \<Rightarrow> ClientError" where
  "resource_limit_error ctx = ClientError_Decode (DecodeError_new ResourceLimit 0 ctx)"

definition unsupported_wire :: "context_str \<Rightarrow> ClientError" where
  "unsupported_wire ctx = ClientError_Decode (DecodeError_new Unsupported 0 ctx)"

record Bounds =
  bo_x :: nat
  bo_y :: nat
  bo_width :: nat
  bo_height :: nat

text \<open>\<open>a.checked_add(b).is_none_or(|s| s > limit)\<close>\<close>

definition sum_exceeds :: "nat \<Rightarrow> nat \<Rightarrow> nat \<Rightarrow> bool" where
  "sum_exceeds a b limit = (case usize_checked_add a b of None \<Rightarrow> True | Some s \<Rightarrow> s > limit)"

definition image_rect_bounds :: "Rect \<Rightarrow> u32 \<Rightarrow> u32 \<Rightarrow> Bounds client" where
  "image_rect_bounds rect width height =
     (if sint (rect_left rect) < 0 then client_err (protocol_value_error STR ''negative rectangle x'')
      else if sint (rect_top rect) < 0 then client_err (protocol_value_error STR ''negative rectangle y'')
      else
      let x = unat (rect_left rect); y = unat (rect_top rect) in
      and_then (from_decode (Rect_width rect)) (\<lambda>rect_width.
      and_then (from_decode (Rect_height rect)) (\<lambda>rect_height.
      if sum_exceeds x (unat rect_width) (unat width) \<or> sum_exceeds y (unat rect_height) (unat height)
      then client_err (protocol_value_error STR ''rectangle outside image'')
      else Inr \<lparr>bo_x = x, bo_y = y, bo_width = unat rect_width, bo_height = unat rect_height\<rparr>)))"

text \<open>\<open>i64::try_from\<close> of a \<open>usize\<close>, then the test of every rectangle.\<close>

definition rects_contain :: "Rect list \<Rightarrow> nat \<Rightarrow> nat \<Rightarrow> bool" where
  "rects_contain rectangles x y \<longleftrightarrow> (\<exists>r \<in> set rectangles.
     int x \<ge> sint (rect_left r) \<and> int x < sint (rect_right r) \<and> int y \<ge> sint (rect_top r) \<and> int y < sint (rect_bottom r))"

definition clip_contains :: "CompositeClip \<Rightarrow> nat \<Rightarrow> nat \<Rightarrow> bool client" where
  "clip_contains clip x y =
     (case clip of
        CompositeClip_None \<Rightarrow> Inr True
      | CompositeClip_Rectangles rectangles \<Rightarrow>
          if x \<ge> 2 ^ 63 then client_err (resource_limit_error STR ''Canvas clip x'')
          else if y \<ge> 2 ^ 63 then client_err (resource_limit_error STR ''Canvas clip y'')
          else Inr (rects_contain rectangles x y))"

definition stream_clip_contains :: "StreamClip \<Rightarrow> nat \<Rightarrow> nat \<Rightarrow> bool client" where
  "stream_clip_contains clip x y =
     (case clip of
        StreamClip_None \<Rightarrow> Inr True
      | StreamClip_Rectangles rectangles \<Rightarrow>
          if x \<ge> 2 ^ 63 then client_err (resource_limit_error STR ''stream clip x'')
          else if y \<ge> 2 ^ 63 then client_err (resource_limit_error STR ''stream clip y'')
          else Inr (rects_contain rectangles x y))"

section \<open>The byte budget\<close>

record SurfaceBudget =
  sb_used :: nat
  sb_maximum :: nat

text \<open>
  \<open>reserve\<close> loads the counter and retries its compare-and-exchange until it succeeds. The list holds, for
  each attempt, the value the counter has at that moment (other tasks may have changed it) and whether
  the weak exchange fails spuriously; the result is the value stored. \<open>None\<close> is a loop that is still
  retrying when the list ends.
\<close>

fun SurfaceBudget_reserve :: "nat \<Rightarrow> nat \<Rightarrow> nat \<Rightarrow> (nat \<times> bool) list \<Rightarrow> nat client option" where
  "SurfaceBudget_reserve maximum bytes current attempts =
     (case usize_checked_add current bytes of
        None \<Rightarrow> Some (client_err (resource_limit_error STR ''surface byte budget''))
      | Some updated \<Rightarrow>
          if updated > maximum then Some (client_err (resource_limit_error STR ''surface byte budget''))
          else
          (case attempts of
             [] \<Rightarrow> None
           | (observed, spurious) # rest \<Rightarrow>
               if observed = current \<and> \<not> spurious then Some (Inr updated)
               else SurfaceBudget_reserve maximum bytes observed rest))"

declare SurfaceBudget_reserve.simps [simp del]

section \<open>Surfaces\<close>

record SurfaceData =
  su_width :: u32
  su_height :: u32
  su_format :: SurfaceFormat
  su_pixels :: "u32 list"
  su_allocated_bytes :: nat

text \<open>\<open>new\<close> with the outcome of the reservation as an argument, and the bytes it asks for.\<close>

definition surface_bytes :: "SurfaceCreate \<Rightarrow> nat client" where
  "surface_bytes create =
     (if sc_width create = 0 \<or> sc_height create = 0 then client_err (protocol_value_error STR ''zero-sized surface'')
      else ok_or (resource_limit_error STR ''surface dimensions'')
        (Option.bind (usize_checked_mul (unat (sc_width create)) (unat (sc_height create))) (\<lambda>pixels.
         usize_checked_mul pixels 4)))"

definition SurfaceData_new :: "SurfaceCreate \<Rightarrow> (nat \<Rightarrow> nat client) \<Rightarrow> SurfaceData client" where
  "SurfaceData_new create reserve =
     and_then (surface_bytes create) (\<lambda>pixel_bytes.
     and_then (reserve pixel_bytes) (\<lambda>_.
     Inr \<lparr>su_width = sc_width create, su_height = sc_height create, su_format = sc_format create,
       su_pixels = replicate (pixel_bytes div 4) 0, su_allocated_bytes = pixel_bytes\<rparr>))"

definition SurfaceData_rect_bounds :: "SurfaceData \<Rightarrow> Rect \<Rightarrow> Bounds client" where
  "SurfaceData_rect_bounds s rect = image_rect_bounds rect (su_width s) (su_height s)"

definition SurfaceData_pixel_offset :: "SurfaceData \<Rightarrow> nat \<Rightarrow> nat \<Rightarrow> nat client" where
  "SurfaceData_pixel_offset s x y =
     ok_or (resource_limit_error STR ''surface pixel offset'')
       (Option.bind (usize_checked_mul y (unat (su_width s))) (\<lambda>pixels.
        Option.bind (usize_checked_add pixels x) (\<lambda>pixels.
        usize_checked_mul pixels 4)))"

definition SurfaceData_copy_surface_row :: "Bounds \<Rightarrow> Bounds \<Rightarrow> nat \<Rightarrow> SurfaceData \<Rightarrow> SurfaceData client" where
  "SurfaceData_copy_surface_row source destination row s =
     and_then (SurfaceData_pixel_offset s (bo_x source) (bo_y source + row)) (\<lambda>source_start.
     and_then (SurfaceData_pixel_offset s (bo_x destination) (bo_y destination + row)) (\<lambda>destination_start.
     and_then (copy_within (su_pixels s) (source_start div 4) (bo_width destination) (destination_start div 4)) (\<lambda>px.
     Inr (s\<lparr>su_pixels := px\<rparr>))))"

definition i32_from_usize :: "nat \<Rightarrow> i32 option" where
  "i32_from_usize n = (if n < 2 ^ 31 then Some (of_nat n) else None)"

definition i32_add_checked :: "i32 \<Rightarrow> i32 \<Rightarrow> i32 option" where
  "i32_add_checked a b =
     (if - (2 ^ 31) \<le> sint a + sint b \<and> sint a + sint b < 2 ^ 31 then Some (a + b) else None)"

definition copy_source_rect :: "CopyBits \<Rightarrow> Bounds \<Rightarrow> Rect client" where
  "copy_source_rect copy destination =
     and_then (ok_or (resource_limit_error STR ''copy bits height'') (i32_from_usize (bo_height destination))) (\<lambda>height.
     and_then (ok_or (resource_limit_error STR ''copy bits bottom'') (i32_add_checked (cb_source_y copy) height)) (\<lambda>bottom.
     and_then (ok_or (resource_limit_error STR ''copy bits width'') (i32_from_usize (bo_width destination))) (\<lambda>width.
     and_then (ok_or (resource_limit_error STR ''copy bits right'') (i32_add_checked (cb_source_x copy) width)) (\<lambda>right.
     Inr \<lparr>rect_top = cb_source_y copy, rect_left = cb_source_x copy, rect_bottom = bottom, rect_right = right\<rparr>))))"

text \<open>The clipped path first saves the source rows, then visits the destination pixel by pixel.\<close>

definition copy_saved_row :: "SurfaceData \<Rightarrow> Bounds \<Rightarrow> nat \<Rightarrow> u32 list \<Rightarrow> u32 list client" where
  "copy_saved_row s source row saved =
     and_then (ok_or (resource_limit_error STR ''copy bits source row'')
                 (Option.bind (usize_checked_mul (bo_y source + row) (unat (su_width s))) (\<lambda>pixels.
                  usize_checked_add pixels (bo_x source)))) (\<lambda>start.
     and_then (slice_index (su_pixels s) start (start + bo_width source)) (\<lambda>pixels.
     Inr (saved @ pixels)))"

definition copy_clipped_pixel :: "CompositeClip \<Rightarrow> nat \<Rightarrow> Bounds \<Rightarrow> Bounds \<Rightarrow> u32 list \<Rightarrow> nat \<times> nat \<Rightarrow> u32 list \<Rightarrow> u32 list client" where
  "copy_clipped_pixel clip surface_width source destination saved i px =
     (case i of (row, column) \<Rightarrow>
      let x = bo_x destination + column; y = bo_y destination + row in
      and_then (clip_contains clip x y) (\<lambda>inside.
      if inside then
        and_then (index_at saved (row * bo_width source + column)) (\<lambda>v.
        index_set px (y * surface_width + x) v)
      else Inr px))"

definition copy_bits_clipped :: "CopyBits \<Rightarrow> Bounds \<Rightarrow> Bounds \<Rightarrow> SurfaceData \<Rightarrow> SurfaceData client" where
  "copy_bits_clipped copy source destination s =
     (let surface_width = unat (su_width s) in
      and_then (ok_or (resource_limit_error STR ''copy bits source pixels'')
                  (usize_checked_mul (bo_width source) (bo_height source))) (\<lambda>_.
      and_then (for_each (copy_saved_row s source) [0..<bo_height source] []) (\<lambda>saved.
      and_then (for_each (\<lambda>row. for_each (\<lambda>column.
            copy_clipped_pixel (cb_clip copy) surface_width source destination saved (row, column)) [0..<bo_width destination])
          [0..<bo_height destination] (su_pixels s)) (\<lambda>px.
      Inr (s\<lparr>su_pixels := px\<rparr>)))))"

definition SurfaceData_copy_bits :: "CopyBits \<Rightarrow> SurfaceData \<Rightarrow> SurfaceData client" where
  "SurfaceData_copy_bits copy s =
     and_then (SurfaceData_rect_bounds s (cb_destination copy)) (\<lambda>destination.
     and_then (copy_source_rect copy destination) (\<lambda>source_rect.
     and_then (SurfaceData_rect_bounds s source_rect) (\<lambda>source.
     if cb_clip copy \<noteq> CompositeClip_None then copy_bits_clipped copy source destination s
     else if bo_y destination > bo_y source
     then for_each (SurfaceData_copy_surface_row source destination) (rev [0..<bo_height destination]) s
     else for_each (SurfaceData_copy_surface_row source destination) [0..<bo_height destination] s)))"

section \<open>Video frames\<close>

record DecodedVideoFrame =
  vf_width :: u32
  vf_height :: u32
  vf_rgba :: "u8 list"

text \<open>The four bytes stored for a pixel, as indexing and \<open>copy_from_slice\<close> of its source give them.\<close>

definition write_surface_pixel :: "SurfaceFormat \<Rightarrow> u8 list \<Rightarrow> u8 list client" where
  "write_surface_pixel format source =
     (case format of
        SurfaceFormat_A8 \<Rightarrow> and_then (index_at source 3) (\<lambda>a. Inr [-1, -1, -1, a])
      | SurfaceFormat_Xrgb32 \<Rightarrow>
          and_then (index_at source 0) (\<lambda>r. and_then (index_at source 1) (\<lambda>g. and_then (index_at source 2) (\<lambda>b. Inr [r, g, b, -1])))
      | SurfaceFormat_Argb32 \<Rightarrow> if length source = 4 then Inr source else Inl Panic)"

definition blit_pixel :: "SurfaceData \<Rightarrow> Bounds \<Rightarrow> StreamClip \<Rightarrow> DecodedVideoFrame \<Rightarrow> nat \<Rightarrow> nat \<Rightarrow> nat \<Rightarrow> u32 list \<Rightarrow> u32 list client" where
  "blit_pixel s destination clip frame destination_row source_y destination_column px =
     (let surface_y = bo_y destination + destination_row;
          surface_x = bo_x destination + destination_column;
          source_width = unat (vf_width frame) in
      and_then (stream_clip_contains clip surface_x surface_y) (\<lambda>inside.
      if \<not> inside then Inr px
      else
      and_then (ok_or (resource_limit_error STR ''stream source column'') (usize_checked_mul destination_column source_width)) (\<lambda>m.
      let source_x = m div bo_width destination in
      and_then (ok_or (resource_limit_error STR ''stream source pixel'')
                  (Option.bind (usize_checked_mul source_y source_width) (\<lambda>pixels.
                   Option.bind (usize_checked_add pixels source_x) (\<lambda>pixels.
                   usize_checked_mul pixels 4)))) (\<lambda>source_offset.
      and_then (SurfaceData_pixel_offset s surface_x surface_y) (\<lambda>destination_offset.
      and_then (ok_or (protocol_value_error STR ''stream source pixel bounds'')
                  (slice_get (vf_rgba frame) source_offset (source_offset + 4))) (\<lambda>source_pixel.
      and_then (write_surface_pixel (su_format s) source_pixel) (\<lambda>bytes.
      index_set px (destination_offset div 4) (from_le bytes))))))))"

definition SurfaceData_blit_stream_frame :: "Rect \<Rightarrow> StreamClip \<Rightarrow> DecodedVideoFrame \<Rightarrow> SurfaceData \<Rightarrow> SurfaceData client" where
  "SurfaceData_blit_stream_frame destination clip frame s =
     and_then (SurfaceData_rect_bounds s destination) (\<lambda>destination.
     if vf_width frame = 0 \<or> vf_height frame = 0 then client_err (protocol_value_error STR ''stream source dimensions'')
     else
     and_then (for_each (\<lambda>destination_row px.
         and_then (ok_or (resource_limit_error STR ''stream source row'')
                     (usize_checked_mul destination_row (unat (vf_height frame)))) (\<lambda>m.
         let source_y = m div bo_height destination in
         for_each (\<lambda>destination_column. blit_pixel s destination clip frame destination_row source_y destination_column)
           [0..<bo_width destination] px)) [0..<bo_height destination] (su_pixels s)) (\<lambda>px.
     Inr (s\<lparr>su_pixels := px\<rparr>)))"

section \<open>Region snapshots\<close>

text \<open>The pixels of a checked region, row by row.\<close>

definition snapshot_row :: "SurfaceData \<Rightarrow> Bounds \<Rightarrow> nat \<Rightarrow> u32 list \<Rightarrow> u32 list client" where
  "snapshot_row s bounds row pixels =
     and_then (SurfaceData_pixel_offset s (bo_x bounds) row) (\<lambda>start.
     and_then (slice_index (su_pixels s) (start div 4) (start div 4 + bo_width bounds)) (\<lambda>words.
     Inr (pixels @ words)))"

definition SurfaceHandle_snapshot_region :: "SurfaceData \<Rightarrow> Rect \<Rightarrow> (u32 \<times> u32 \<times> u32 list) client" where
  "SurfaceHandle_snapshot_region s region =
     and_then (SurfaceData_rect_bounds s region) (\<lambda>bounds.
     and_then (ok_or (resource_limit_error STR ''snapshot row bytes'') (usize_checked_mul (bo_width bounds) 4)) (\<lambda>row_bytes.
     and_then (ok_or (resource_limit_error STR ''snapshot region bytes'') (usize_checked_mul row_bytes (bo_height bounds))) (\<lambda>_.
     and_then (for_each (snapshot_row s bounds) [bo_y bounds..<bo_y bounds + bo_height bounds] []) (\<lambda>pixels.
     and_then (ok_or (resource_limit_error STR ''snapshot width'') (u32_try_from (bo_width bounds))) (\<lambda>width.
     and_then (ok_or (resource_limit_error STR ''snapshot height'') (u32_try_from (bo_height bounds))) (\<lambda>height.
     Inr (width, height, pixels)))))))"

section \<open>Rectangles and offsets\<close>

lemma sum_exceeds_iff: "\<not> sum_exceeds a b limit \<longleftrightarrow> a + b \<le> limit \<and> a + b < usize_limit"
  by (auto simp: sum_exceeds_def split: option.splits)

lemma image_rect_bounds_Inr:
  assumes "image_rect_bounds rect w h = Inr b"
  shows "bo_x b = unat (rect_left rect)" "bo_y b = unat (rect_top rect)"
    "bo_x b + bo_width b \<le> unat w" "bo_y b + bo_height b \<le> unat h"
    "bo_width b = unat (rect_right rect - rect_left rect)" "bo_height b = unat (rect_bottom rect - rect_top rect)"
    "0 \<le> sint (rect_left rect)" "0 \<le> sint (rect_top rect)"
proof -
  from assms show
    "bo_x b = unat (rect_left rect)" "bo_y b = unat (rect_top rect)"
    "bo_x b + bo_width b \<le> unat w" "bo_y b + bo_height b \<le> unat h"
    "bo_width b = unat (rect_right rect - rect_left rect)" "bo_height b = unat (rect_bottom rect - rect_top rect)"
    "0 \<le> sint (rect_left rect)" "0 \<le> sint (rect_top rect)"
    by (auto simp: image_rect_bounds_def Let_def Rect_width_Inr Rect_height_Inr sum_exceeds_iff split: if_splits)
qed

text \<open>A surface as \<open>new\<close> makes it: all its pixels are there and its byte size is a \<open>usize\<close>.\<close>

definition surface_ok :: "SurfaceData \<Rightarrow> bool" where
  "surface_ok s \<longleftrightarrow> length (su_pixels s) = unat (su_width s) * unat (su_height s) \<and>
     length (su_pixels s) * 4 < usize_limit"

definition bounds_in :: "SurfaceData \<Rightarrow> Bounds \<Rightarrow> bool" where
  "bounds_in s b \<longleftrightarrow> bo_x b + bo_width b \<le> unat (su_width s) \<and> bo_y b + bo_height b \<le> unat (su_height s)"

lemma rect_bounds_in: "SurfaceData_rect_bounds s rect = Inr b \<Longrightarrow> bounds_in s b"
  by (auto simp: SurfaceData_rect_bounds_def bounds_in_def dest: image_rect_bounds_Inr)

lemma pixel_index_less:
  fixes x y w h :: nat
  assumes "x < w" "y < h"
  shows "y * w + x < w * h"
proof -
  have "y * w + x < y * w + w" using assms(1) by simp
  also have "\<dots> = (y + 1) * w" by simp
  also have "\<dots> \<le> h * w" using assms(2) by (intro mult_le_mono1) simp
  finally show ?thesis by (simp add: mult.commute)
qed

lemma pixel_row_end:
  fixes x y w h n :: nat
  assumes "x + n \<le> w" "y < h"
  shows "y * w + x + n \<le> w * h"
proof -
  have "y * w + x + n \<le> y * w + w" using assms(1) by simp
  also have "\<dots> = (y + 1) * w" by simp
  also have "\<dots> \<le> h * w" using assms(2) by (intro mult_le_mono1) simp
  finally show ?thesis by (simp add: mult.commute)
qed

lemma pixel_offset_in:
  assumes "surface_ok s" "y * unat (su_width s) + x \<le> length (su_pixels s)"
  shows "SurfaceData_pixel_offset s x y = Inr ((y * unat (su_width s) + x) * 4)"
  using assms by (simp add: SurfaceData_pixel_offset_def surface_ok_def)

definition pixel :: "SurfaceData \<Rightarrow> nat \<Rightarrow> nat \<Rightarrow> u32" where
  "pixel s x y = su_pixels s ! (y * unat (su_width s) + x)"

text \<open>\<open>new\<close> makes such a surface of black, transparent pixels.\<close>

lemma SurfaceData_new_ok: "SurfaceData_new create reserve = Inr s \<Longrightarrow> surface_ok s"
  by (auto simp: SurfaceData_new_def surface_bytes_def surface_ok_def Option.bind_eq_Some_conv mult.commute
      split: if_splits)

lemma SurfaceBudget_reserve_sound:
  "SurfaceBudget_reserve maximum bytes current attempts = Some (Inr updated) \<Longrightarrow>
   updated \<le> maximum \<and> (\<exists>observed. (observed, False) \<in> set attempts \<and> updated = observed + bytes)"
proof (induction maximum bytes current attempts rule: SurfaceBudget_reserve.induct)
  case (1 maximum bytes current attempts)
  then show ?case
    by (subst (asm) SurfaceBudget_reserve.simps)
      (fastforce split: option.splits if_splits list.splits prod.splits)
qed

lemma pixel_index_inj:
  fixes x y x' y' w :: nat
  assumes "y * w + x = y' * w + x'" "x < w" "x' < w"
  shows "y = y' \<and> x = x'"
proof -
  have "y = (y * w + x) div w" "x = (y * w + x) mod w" using assms(2) by simp_all
  moreover have "y' = (y' * w + x') div w" "x' = (y' * w + x') mod w" using assms(3) by simp_all
  ultimately show ?thesis using assms(1) by metis
qed

lemma pixel_index_before:
  fixes x y y' w :: nat
  assumes "x < w" "y < y'"
  shows "y * w + x < y' * w"
proof -
  have "y * w + x < (y + 1) * w" using assms(1) by simp
  also have "\<dots> \<le> y' * w" using assms(2) by (intro mult_le_mono1) simp
  finally show ?thesis .
qed

lemma in_row_iff:
  fixes x y w r dx n :: nat
  assumes "x < w" "dx + n \<le> w"
  shows "r * w + dx \<le> y * w + x \<and> y * w + x < r * w + dx + n \<longleftrightarrow> y = r \<and> dx \<le> x \<and> x < dx + n"
proof (cases y r rule: linorder_cases)
  case less
  with pixel_index_before [OF assms(1) less] show ?thesis by simp
next
  case greater
  have "r * w + (dx + n) \<le> r * w + w" using assms(2) by simp
  also have "\<dots> = (r + 1) * w" by simp
  also have "\<dots> \<le> y * w" using greater by (intro mult_le_mono1) simp
  finally show ?thesis using greater by simp
qed auto

text \<open>What every drawing operation keeps of a surface.\<close>

definition same_shape :: "SurfaceData \<Rightarrow> SurfaceData \<Rightarrow> bool" where
  "same_shape s s' \<longleftrightarrow> length (su_pixels s') = length (su_pixels s) \<and> su_width s' = su_width s \<and>
     su_height s' = su_height s \<and> su_format s' = su_format s \<and> su_allocated_bytes s' = su_allocated_bytes s"

lemma same_shape_refl [simp]: "same_shape s s" by (simp add: same_shape_def)

lemma same_shape_trans: "same_shape s s' \<Longrightarrow> same_shape s' s'' \<Longrightarrow> same_shape s s''"
  by (simp add: same_shape_def)

lemma same_shape_ok: "same_shape s s' \<Longrightarrow> surface_ok s \<Longrightarrow> surface_ok s'"
  by (auto simp only: same_shape_def surface_ok_def)

lemma same_shape_bounds: "same_shape s s' \<Longrightarrow> bounds_in s' b \<longleftrightarrow> bounds_in s b"
  by (simp add: same_shape_def bounds_in_def)

definition in_bounds :: "Bounds \<Rightarrow> nat \<Rightarrow> nat \<Rightarrow> bool" where
  "in_bounds b x y \<longleftrightarrow> bo_x b \<le> x \<and> x < bo_x b + bo_width b \<and> bo_y b \<le> y \<and> y < bo_y b + bo_height b"

section \<open>Loops over pixels\<close>

text \<open>
  A loop that visits indices and either leaves the pixels alone or replaces the cell of the index by a
  function of its old value. Cells of different indices are different, so the order does not matter and
  every cell is computed from its original value.
\<close>

locale pixel_loop =
  fixes inside :: "'i \<Rightarrow> bool"
    and body :: "'i \<Rightarrow> u32 list \<Rightarrow> ('e, u32 list) outcome"
    and cell :: "'i \<Rightarrow> nat"
    and selected :: "'i \<Rightarrow> bool"
    and new :: "'i \<Rightarrow> u32 \<Rightarrow> u32"
    and n :: nat
  assumes body_eq: "inside i \<Longrightarrow> length px = n \<Longrightarrow>
      body i px = Inr (if selected i then px[cell i := new i (px ! cell i)] else px)"
    and cell_less: "inside i \<Longrightarrow> cell i < n"
    and cell_inj: "inside i \<Longrightarrow> inside j \<Longrightarrow> cell i = cell j \<Longrightarrow> i = j"
begin

lemma loop:
  assumes "distinct is" "\<And>i. i \<in> set is \<Longrightarrow> inside i" "length px = n"
  shows "\<exists>px'. for_each body is px = Inr px' \<and> length px' = n \<and>
    (\<forall>i \<in> set is. px' ! cell i = (if selected i then new i (px ! cell i) else px ! cell i)) \<and>
    (\<forall>j. j \<notin> cell ` set is \<longrightarrow> px' ! j = px ! j)"
  using assms
proof (induction "is" arbitrary: px)
  case (Cons i "is")
  let ?px = "if selected i then px[cell i := new i (px ! cell i)] else px"
  have i: "inside i" using Cons.prems(2) by simp
  have len: "length ?px = n" using Cons.prems(3) by simp
  from Cons.IH [OF _ _ len] Cons.prems(1,2) obtain px' where ih: "for_each body is ?px = Inr px'" "length px' = n"
    "\<forall>j \<in> set is. px' ! cell j = (if selected j then new j (?px ! cell j) else ?px ! cell j)"
    "\<forall>j. j \<notin> cell ` set is \<longrightarrow> px' ! j = ?px ! j"
    by auto
  have other: "cell j \<noteq> cell i" if "j \<in> set is" for j
    using that cell_inj [of j i] i Cons.prems(1,2) by auto
  have "cell i \<notin> cell ` set is" using other by fastforce
  then have "px' ! cell i = (if selected i then new i (px ! cell i) else px ! cell i)"
    using ih(4) cell_less [OF i] Cons.prems(3) by simp
  moreover have "px' ! cell j = (if selected j then new j (px ! cell j) else px ! cell j)" if "j \<in> set is" for j
    using ih(3) other [OF that] that by simp
  moreover have "px' ! j = px ! j" if "j \<notin> cell ` set (i # is)" for j
    using that ih(4) by auto
  ultimately show ?case
    using ih(1,2) body_eq [OF i Cons.prems(3)] by (intro exI [of _ px']) auto
qed simp

end

text \<open>The same loop over the pixels of a rectangle of a surface, row by row.\<close>

definition bounds_cell :: "SurfaceData \<Rightarrow> Bounds \<Rightarrow> nat \<times> nat \<Rightarrow> nat" where
  "bounds_cell s b i = (bo_y b + fst i) * unat (su_width s) + (bo_x b + snd i)"

lemma bounds_cell_less:
  assumes "bounds_in s b" "fst i < bo_height b" "snd i < bo_width b"
  shows "bounds_cell s b i < unat (su_width s) * unat (su_height s)"
  using pixel_index_less [of "bo_x b + snd i" "unat (su_width s)" "bo_y b + fst i" "unat (su_height s)"] assms
  by (simp add: bounds_cell_def bounds_in_def)

lemma bounds_cell_inj:
  assumes "bounds_in s b" "snd i < bo_width b" "snd j < bo_width b" "bounds_cell s b i = bounds_cell s b j"
  shows "i = j"
  using pixel_index_inj [OF assms(4) [unfolded bounds_cell_def]] assms(1-3) by (simp add: bounds_in_def prod_eq_iff)

locale bounds_loop = pixel_loop inside body "bounds_cell s b" selected new "unat (su_width s) * unat (su_height s)"
  for inside :: "nat \<times> nat \<Rightarrow> bool" and body :: "nat \<times> nat \<Rightarrow> u32 list \<Rightarrow> ('e, u32 list) outcome"
    and s :: SurfaceData and b :: Bounds and selected :: "nat \<times> nat \<Rightarrow> bool" and new :: "nat \<times> nat \<Rightarrow> u32 \<Rightarrow> u32"
begin

lemma pixels:
  assumes s: "surface_ok s" and b: "bounds_in s b"
    and ok: "\<And>i. fst i < bo_height b \<Longrightarrow> snd i < bo_width b \<Longrightarrow> inside i"
  shows "\<exists>px'. for_each (\<lambda>row. for_each (\<lambda>column. body (row, column)) [0..<bo_width b]) [0..<bo_height b] (su_pixels s) = Inr px' \<and>
    same_shape s (s\<lparr>su_pixels := px'\<rparr>) \<and>
    (\<forall>x < unat (su_width s). \<forall>y < unat (su_height s). pixel (s\<lparr>su_pixels := px'\<rparr>) x y =
      (let i = (y - bo_y b, x - bo_x b) in
       if in_bounds b x y \<and> selected i then new i (pixel s x y) else pixel s x y))"
proof -
  let ?w = "unat (su_width s)" and ?h = "unat (su_height s)"
  let ?is = "List.product [0..<bo_height b] [0..<bo_width b]"
  have n: "length (su_pixels s) = ?w * ?h" using s by (simp add: surface_ok_def)
  have dist: "distinct ?is" by (simp add: distinct_product)
  have "inside i" if "i \<in> set ?is" for i using that ok by auto
  from loop [OF dist this n] obtain px' where run: "for_each body ?is (su_pixels s) = Inr px'" "length px' = ?w * ?h"
    and inner: "\<forall>i \<in> set ?is. px' ! bounds_cell s b i =
      (if selected i then new i (su_pixels s ! bounds_cell s b i) else su_pixels s ! bounds_cell s b i)"
    and outer: "\<forall>j. j \<notin> bounds_cell s b ` set ?is \<longrightarrow> px' ! j = su_pixels s ! j"
    by blast
  let ?s' = "s\<lparr>su_pixels := px'\<rparr>"
  have "pixel ?s' x y = (let i = (y - bo_y b, x - bo_x b) in
      if in_bounds b x y \<and> selected i then new i (pixel s x y) else pixel s x y)"
    if x: "x < ?w" and y: "y < ?h" for x y
  proof (cases "in_bounds b x y")
    case True
    let ?i = "(y - bo_y b, x - bo_x b)"
    have i: "?i \<in> set ?is" and c: "bounds_cell s b ?i = y * ?w + x"
      using True by (auto simp: in_bounds_def bounds_cell_def)
    from inner [THEN bspec, OF i] True c show ?thesis by (simp add: pixel_def)
  next
    case False
    have "y * ?w + x \<notin> bounds_cell s b ` set ?is"
    proof
      assume "y * ?w + x \<in> bounds_cell s b ` set ?is"
      then obtain r c where rc: "r < bo_height b" "c < bo_width b"
        and e: "y * ?w + x = (bo_y b + r) * ?w + (bo_x b + c)" by (auto simp: bounds_cell_def)
      have "bo_x b + c < ?w" using rc b by (simp add: bounds_in_def)
      from pixel_index_inj [OF e x this] rc False show False by (simp add: in_bounds_def)
    qed
    with outer False show ?thesis by (simp add: pixel_def)
  qed
  moreover have "same_shape s ?s'" using run(2) n by (simp add: same_shape_def)
  ultimately show ?thesis using run(1) by (auto simp: for_each_nested)
qed

end

section \<open>Copies within a surface\<close>

text \<open>One row: \<open>copy_within\<close> reads the whole row before it writes.\<close>

lemma copy_surface_row_pixels:
  assumes "surface_ok s" "bounds_in s source" "bounds_in s destination"
    "bo_width source = bo_width destination" "r < bo_height source" "r < bo_height destination"
  shows "\<exists>s'. SurfaceData_copy_surface_row source destination r s = Inr s' \<and> same_shape s s' \<and>
    (\<forall>x < unat (su_width s). \<forall>y < unat (su_height s). pixel s' x y =
      (if y = bo_y destination + r \<and> bo_x destination \<le> x \<and> x < bo_x destination + bo_width destination
       then pixel s (x - bo_x destination + bo_x source) (bo_y source + r) else pixel s x y))"
proof -
  let ?w = "unat (su_width s)" and ?xs = "su_pixels s" and ?n = "bo_width destination"
  let ?a = "(bo_y source + r) * ?w + bo_x source" and ?b = "(bo_y destination + r) * ?w + bo_x destination"
  have len: "length ?xs = ?w * unat (su_height s)" using assms(1) by (simp add: surface_ok_def)
  have a: "?a + ?n \<le> length ?xs"
    using pixel_row_end [of "bo_x source" ?n ?w "bo_y source + r" "unat (su_height s)"] assms(2,4,5) len
    by (simp add: bounds_in_def)
  have b: "?b + ?n \<le> length ?xs"
    using pixel_row_end [of "bo_x destination" ?n ?w "bo_y destination + r" "unat (su_height s)"] assms(3,6) len
    by (simp add: bounds_in_def)
  let ?px = "take ?b ?xs @ take ?n (drop ?a ?xs) @ drop (?b + ?n) ?xs"
  let ?s' = "s\<lparr>su_pixels := ?px\<rparr>"
  note l = length_copy_within [OF a b]
  have run: "SurfaceData_copy_surface_row source destination r s = Inr ?s'"
    using a b pixel_offset_in [OF assms(1), of "bo_y source + r" "bo_x source"]
      pixel_offset_in [OF assms(1), of "bo_y destination + r" "bo_x destination"]
    by (simp add: SurfaceData_copy_surface_row_def copy_within_def)
  have "pixel ?s' x y = (if y = bo_y destination + r \<and> bo_x destination \<le> x \<and> x < bo_x destination + ?n
       then pixel s (x - bo_x destination + bo_x source) (bo_y source + r) else pixel s x y)"
    if x: "x < ?w" and y: "y < unat (su_height s)" for x y
  proof -
    have i: "y * ?w + x < length ?xs" using pixel_index_less [OF x y] len by simp
    note nth = nth_copy_within [OF a b i]
    have d: "bo_x destination + ?n \<le> ?w" using assms(3) by (simp add: bounds_in_def)
    note row = in_row_iff [OF x d, of "bo_y destination + r" y]
    show ?thesis
    proof (cases "y = bo_y destination + r \<and> bo_x destination \<le> x \<and> x < bo_x destination + ?n")
      case True
      then have "?a + (y * ?w + x - ?b) = (bo_y source + r) * ?w + (x - bo_x destination + bo_x source)" by simp
      with True nth row show ?thesis by (simp only: pixel_def) simp
    next
      case False
      with nth row show ?thesis by (simp only: pixel_def) simp
    qed
  qed
  moreover have "same_shape s ?s'" using l by (simp add: same_shape_def del: length_append length_take length_drop)
  ultimately show ?thesis using run by blast
qed


text \<open>
  All rows: a row is read before any row written earlier could have changed it, when the rows come in an
  order in which no destination row is a source row still to be read.
\<close>

lemma copy_rows_pixels:
  assumes "surface_ok s" "bounds_in s source" "bounds_in s destination"
    "bo_width source = bo_width destination" "bo_height source = bo_height destination"
    "distinct rows" "\<And>r. r \<in> set rows \<Longrightarrow> r < bo_height destination"
    "sorted_wrt (\<lambda>r' r. bo_y destination + r' \<noteq> bo_y source + r) rows"
  shows "\<exists>s'. for_each (SurfaceData_copy_surface_row source destination) rows s = Inr s' \<and> same_shape s s' \<and>
    (\<forall>x < unat (su_width s). \<forall>y < unat (su_height s). pixel s' x y =
      (if in_bounds destination x y \<and> y - bo_y destination \<in> set rows
       then pixel s (x - bo_x destination + bo_x source) (y - bo_y destination + bo_y source) else pixel s x y))"
  using assms
proof (induction rows arbitrary: s)
  case (Cons r rows)
  have r: "r < bo_height source" "r < bo_height destination" using Cons.prems(5,7) by simp_all
  obtain s1 where s1: "SurfaceData_copy_surface_row source destination r s = Inr s1" "same_shape s s1"
    and p1: "\<And>x y. x < unat (su_width s) \<Longrightarrow> y < unat (su_height s) \<Longrightarrow> pixel s1 x y =
      (if y = bo_y destination + r \<and> bo_x destination \<le> x \<and> x < bo_x destination + bo_width destination
       then pixel s (x - bo_x destination + bo_x source) (bo_y source + r) else pixel s x y)"
    using copy_surface_row_pixels [OF Cons.prems(1-4) r] by blast
  have dim: "su_width s1 = su_width s" "su_height s1 = su_height s" using s1(2) by (simp_all add: same_shape_def)
  have "distinct rows" "\<And>q. q \<in> set rows \<Longrightarrow> q < bo_height destination"
    "sorted_wrt (\<lambda>r' r. bo_y destination + r' \<noteq> bo_y source + r) rows"
    using Cons.prems(6-8) by simp_all
  from Cons.IH [OF same_shape_ok [OF s1(2) Cons.prems(1)] _ _ Cons.prems(4,5) this]
  obtain s2 where s2: "for_each (SurfaceData_copy_surface_row source destination) rows s1 = Inr s2" "same_shape s1 s2"
    and p2: "\<And>x y. x < unat (su_width s) \<Longrightarrow> y < unat (su_height s) \<Longrightarrow> pixel s2 x y =
      (if in_bounds destination x y \<and> y - bo_y destination \<in> set rows
       then pixel s1 (x - bo_x destination + bo_x source) (y - bo_y destination + bo_y source) else pixel s1 x y)"
    using Cons.prems(2,3) same_shape_bounds [OF s1(2)] unfolding dim by blast
  have "pixel s2 x y = (if in_bounds destination x y \<and> y - bo_y destination \<in> set (r # rows)
       then pixel s (x - bo_x destination + bo_x source) (y - bo_y destination + bo_y source) else pixel s x y)"
    if x: "x < unat (su_width s)" and y: "y < unat (su_height s)" for x y
  proof (cases "in_bounds destination x y \<and> y - bo_y destination \<in> set rows")
    case True
    let ?x = "x - bo_x destination + bo_x source" and ?y = "y - bo_y destination + bo_y source"
    have "?x < unat (su_width s)" "?y < unat (su_height s)"
      using True Cons.prems(2,4,5) by (auto simp: in_bounds_def bounds_in_def)
    moreover have "?y \<noteq> bo_y destination + r" using True Cons.prems(8) by (auto simp: add.commute)
    ultimately have "pixel s1 ?x ?y = pixel s ?x ?y" using p1 by simp
    with True p2 [OF x y] show ?thesis by simp
  next
    case False
    then show ?thesis
      using p2 [OF x y] p1 [OF x y] r(2) by (auto simp: in_bounds_def add.commute)
  qed
  with s1 s2 same_shape_trans [OF s1(2) s2(2)] show ?case by (intro exI [of _ s2]) simp
qed simp

text \<open>The clip test never fails at coordinates a surface has.\<close>

definition clip_selects :: "CompositeClip \<Rightarrow> nat \<Rightarrow> nat \<Rightarrow> bool" where
  "clip_selects clip x y = (case clip of CompositeClip_None \<Rightarrow> True | CompositeClip_Rectangles rs \<Rightarrow> rects_contain rs x y)"

definition stream_clip_selects :: "StreamClip \<Rightarrow> nat \<Rightarrow> nat \<Rightarrow> bool" where
  "stream_clip_selects clip x y = (case clip of StreamClip_None \<Rightarrow> True | StreamClip_Rectangles rs \<Rightarrow> rects_contain rs x y)"

lemma clip_contains_eq: "x < 2 ^ 32 \<Longrightarrow> y < 2 ^ 32 \<Longrightarrow> clip_contains clip x y = Inr (clip_selects clip x y)"
  by (cases clip) (simp_all add: clip_contains_def clip_selects_def)

lemma stream_clip_contains_eq:
  "x < 2 ^ 32 \<Longrightarrow> y < 2 ^ 32 \<Longrightarrow> stream_clip_contains clip x y = Inr (stream_clip_selects clip x y)"
  by (cases clip) (simp_all add: stream_clip_contains_def stream_clip_selects_def)

lemma surface_coordinate:
  "x < unat (su_width s) \<Longrightarrow> x < 2 ^ 32" "y < unat (su_height s) \<Longrightarrow> y < 2 ^ 32"
  using unat_u32_less [of "su_width s"] unat_u32_less [of "su_height s"] by simp_all

text \<open>The saved rows hold the source rectangle, pixel by pixel.\<close>

lemma copy_saved_row_eq:
  assumes "surface_ok s" "bounds_in s source" "row < bo_height source"
  shows "copy_saved_row s source row saved =
    Inr (saved @ map (\<lambda>c. pixel s (bo_x source + c) (bo_y source + row)) [0..<bo_width source])"
proof -
  let ?w = "unat (su_width s)"
  let ?start = "(bo_y source + row) * ?w + bo_x source"
  have len: "length (su_pixels s) = ?w * unat (su_height s)" "length (su_pixels s) * 4 < usize_limit"
    using assms(1) unfolding surface_ok_def by blast+
  have e: "?start + bo_width source \<le> length (su_pixels s)"
    using pixel_row_end [of "bo_x source" "bo_width source" ?w "bo_y source + row" "unat (su_height s)"] assms(2,3) len
    by (simp add: bounds_in_def)
  have "take (bo_width source) (drop ?start (su_pixels s)) =
      map (\<lambda>c. pixel s (bo_x source + c) (bo_y source + row)) [0..<bo_width source]"
    using e by (intro nth_equalityI) (auto simp: pixel_def add.assoc)
  then show ?thesis
    using e len(2) by (simp add: copy_saved_row_def slice_index_def)
qed

lemma copy_saved_rows_eq:
  assumes "surface_ok s" "bounds_in s source" "rows \<le> bo_height source"
  shows "\<exists>saved. for_each (copy_saved_row s source) [0..<rows] [] = Inr saved \<and>
    length saved = rows * bo_width source \<and>
    (\<forall>r < rows. \<forall>c < bo_width source. saved ! (r * bo_width source + c) = pixel s (bo_x source + c) (bo_y source + r))"
  using assms(3)
proof (induction rows)
  case (Suc rows)
  then obtain saved where saved: "for_each (copy_saved_row s source) [0..<rows] [] = Inr saved"
    "length saved = rows * bo_width source"
    and px: "\<And>r c. r < rows \<Longrightarrow> c < bo_width source \<Longrightarrow>
      saved ! (r * bo_width source + c) = pixel s (bo_x source + c) (bo_y source + r)"
    using Suc.IH by auto
  let ?new = "map (\<lambda>c. pixel s (bo_x source + c) (bo_y source + rows)) [0..<bo_width source]"
  have "for_each (copy_saved_row s source) [0..<Suc rows] [] = Inr (saved @ ?new)"
    using saved(1) copy_saved_row_eq [OF assms(1,2), of rows] Suc.prems by (simp add: for_each_append)
  moreover have "(saved @ ?new) ! (r * bo_width source + c) = pixel s (bo_x source + c) (bo_y source + r)"
    if "r < Suc rows" "c < bo_width source" for r c
  proof (cases "r = rows")
    case False
    then have "r * bo_width source + c < length saved"
      using that pixel_index_before [of c "bo_width source" r rows] saved(2) by simp
    with that False px show ?thesis by (simp add: nth_append)
  qed (use that saved(2) in \<open>simp add: nth_append\<close>)
  ultimately show ?case using saved(2) by (intro exI [of _ "saved @ ?new"]) (simp add: add.commute)
qed simp

text \<open>The clipped copy visits each destination pixel once.\<close>

definition copy_loop_ok :: "SurfaceData \<Rightarrow> Bounds \<Rightarrow> Bounds \<Rightarrow> u32 list \<Rightarrow> nat \<times> nat \<Rightarrow> bool" where
  "copy_loop_ok s source destination saved i \<longleftrightarrow> bounds_in s destination \<and> bo_width source = bo_width destination \<and>
     length saved = bo_height destination * bo_width destination \<and> fst i < bo_height destination \<and> snd i < bo_width destination"

interpretation clipped: bounds_loop "copy_loop_ok s source destination saved"
    "copy_clipped_pixel clip (unat (su_width s)) source destination saved" s destination
    "\<lambda>i. clip_selects clip (bo_x destination + snd i) (bo_y destination + fst i)"
    "\<lambda>i _. saved ! (fst i * bo_width destination + snd i)"
  for s source destination saved clip
proof
  fix i and px :: "u32 list"
  assume i: "copy_loop_ok s source destination saved i" and n: "length px = unat (su_width s) * unat (su_height s)"
  obtain r c where rc: "i = (r, c)" by (cases i)
  note ok = i [unfolded copy_loop_ok_def rc, simplified]
  have "bo_x destination + c < unat (su_width s)" "bo_y destination + r < unat (su_height s)"
    using ok by (auto simp: bounds_in_def)
  then have clip: "clip_contains clip (bo_x destination + c) (bo_y destination + r) =
      Inr (clip_selects clip (bo_x destination + c) (bo_y destination + r))"
    by (intro clip_contains_eq surface_coordinate)
  have "r * bo_width destination + c < bo_height destination * bo_width destination"
    using ok pixel_index_before by simp
  moreover have "(bo_y destination + r) * unat (su_width s) + (bo_x destination + c) < length px"
    using bounds_cell_less [of s destination "(r, c)"] ok n by (simp add: bounds_cell_def)
  ultimately show "copy_clipped_pixel clip (unat (su_width s)) source destination saved i px =
      Inr (if clip_selects clip (bo_x destination + snd i) (bo_y destination + fst i)
        then px[bounds_cell s destination i := saved ! (fst i * bo_width destination + snd i)] else px)"
    using clip ok by (simp add: rc copy_clipped_pixel_def bounds_cell_def index_set_def)
qed (auto simp: copy_loop_ok_def bounds_cell_less dest: bounds_cell_inj)

lemma bounds_area:
  assumes "surface_ok s" "bounds_in s b"
  shows "bo_width b * bo_height b * 4 < usize_limit"
proof -
  have "bo_width b * bo_height b \<le> unat (su_width s) * unat (su_height s)"
    using assms(2) by (intro mult_le_mono) (simp_all add: bounds_in_def)
  with assms(1) show ?thesis unfolding surface_ok_def by linarith
qed

lemma copy_bits_clipped_pixels:
  assumes s: "surface_ok s" and b: "bounds_in s source" "bounds_in s destination"
    and eq: "bo_width source = bo_width destination" "bo_height source = bo_height destination"
  shows "\<exists>s'. copy_bits_clipped copy source destination s = Inr s' \<and> same_shape s s' \<and>
    (\<forall>x < unat (su_width s). \<forall>y < unat (su_height s). pixel s' x y =
      (if in_bounds destination x y \<and> clip_selects (cb_clip copy) x y
       then pixel s (x - bo_x destination + bo_x source) (y - bo_y destination + bo_y source) else pixel s x y))"
proof -
  let ?d = destination
  obtain saved where saved: "for_each (copy_saved_row s source) [0..<bo_height source] [] = Inr saved"
    "length saved = bo_height source * bo_width source"
    and px: "\<And>r c. r < bo_height source \<Longrightarrow> c < bo_width source \<Longrightarrow>
      saved ! (r * bo_width source + c) = pixel s (bo_x source + c) (bo_y source + r)"
    using copy_saved_rows_eq [OF s b(1) order_refl] by blast
  have "copy_loop_ok s source ?d saved i" if "fst i < bo_height ?d" "snd i < bo_width ?d" for i
    using that saved(2) b eq by (simp add: copy_loop_ok_def)
  from clipped.pixels [OF s b(2) this, of "cb_clip copy"] obtain px' where
    run: "for_each (\<lambda>row. for_each (\<lambda>column. copy_clipped_pixel (cb_clip copy) (unat (su_width s)) source ?d saved (row, column))
      [0..<bo_width ?d]) [0..<bo_height ?d] (su_pixels s) = Inr px'" "same_shape s (s\<lparr>su_pixels := px'\<rparr>)"
    and p: "\<And>x y. x < unat (su_width s) \<Longrightarrow> y < unat (su_height s) \<Longrightarrow> pixel (s\<lparr>su_pixels := px'\<rparr>) x y =
      (if in_bounds ?d x y \<and> clip_selects (cb_clip copy) (bo_x ?d + (x - bo_x ?d)) (bo_y ?d + (y - bo_y ?d))
       then saved ! ((y - bo_y ?d) * bo_width ?d + (x - bo_x ?d)) else pixel s x y)"
    by (auto simp: Let_def)
  have "copy_bits_clipped copy source ?d s = Inr (s\<lparr>su_pixels := px'\<rparr>)"
    using saved(1) run(1) bounds_area [OF s b(1)] by (simp add: copy_bits_clipped_def Let_def mult.commute)
  moreover have "pixel (s\<lparr>su_pixels := px'\<rparr>) x y = (if in_bounds ?d x y \<and> clip_selects (cb_clip copy) x y
       then pixel s (x - bo_x ?d + bo_x source) (y - bo_y ?d + bo_y source) else pixel s x y)"
    if "x < unat (su_width s)" "y < unat (su_height s)" for x y
  proof (cases "in_bounds ?d x y")
    case True
    then have "bo_x ?d + (x - bo_x ?d) = x" "bo_y ?d + (y - bo_y ?d) = y"
      "saved ! ((y - bo_y ?d) * bo_width ?d + (x - bo_x ?d)) = pixel s (x - bo_x ?d + bo_x source) (y - bo_y ?d + bo_y source)"
      using eq px [of "y - bo_y ?d" "x - bo_x ?d"] by (auto simp: in_bounds_def add.commute)
    with True p [OF that] show ?thesis by simp
  qed (use p [OF that] in simp)
  ultimately show ?thesis using run(2) by blast
qed

lemma copy_source_rect_Inr:
  assumes "copy_source_rect copy d = Inr r"
  shows "rect_left r = cb_source_x copy" "rect_top r = cb_source_y copy"
    "unat (rect_right r - rect_left r) = bo_width d" "unat (rect_bottom r - rect_top r) = bo_height d"
  using assms by (auto simp: copy_source_rect_def i32_from_usize_def i32_add_checked_def split: if_splits)

lemma rows_forward:
  fixes a b n :: nat
  shows "a \<le> b \<Longrightarrow> sorted_wrt (\<lambda>r' r. a + r' \<noteq> b + r) [0..<n]"
  by (rule sorted_wrt_mono_rel [OF _ sorted_wrt_upt]) auto

lemma rows_backward:
  fixes a b n :: nat
  shows "b < a \<Longrightarrow> sorted_wrt (\<lambda>r' r. a + r' \<noteq> b + r) (rev [0..<n])"
  unfolding sorted_wrt_rev by (rule sorted_wrt_mono_rel [OF _ sorted_wrt_upt]) auto

lemma copy_bits_pixels:
  assumes s: "surface_ok s" and d: "SurfaceData_rect_bounds s (cb_destination copy) = Inr d"
    and r: "copy_source_rect copy d = Inr r" and source: "SurfaceData_rect_bounds s r = Inr source"
  shows "\<exists>s'. SurfaceData_copy_bits copy s = Inr s' \<and> same_shape s s' \<and>
    (\<forall>x < unat (su_width s). \<forall>y < unat (su_height s). pixel s' x y =
      (if in_bounds d x y \<and> clip_selects (cb_clip copy) x y
       then pixel s (x - bo_x d + unat (cb_source_x copy)) (y - bo_y d + unat (cb_source_y copy)) else pixel s x y))"
proof -
  have b: "bounds_in s source" "bounds_in s d" using rect_bounds_in d source by blast+
  note i = image_rect_bounds_Inr [OF source [unfolded SurfaceData_rect_bounds_def]] and c = copy_source_rect_Inr [OF r]
  have eq: "bo_width source = bo_width d" "bo_height source = bo_height d"
    and xy: "bo_x source = unat (cb_source_x copy)" "bo_y source = unat (cb_source_y copy)"
    using i(1,2,5,6) c by simp_all
  let ?rows = "if bo_y d > bo_y source then rev [0..<bo_height d] else [0..<bo_height d]"
  show ?thesis
  proof (cases "cb_clip copy = CompositeClip_None")
    case True
    then have run: "SurfaceData_copy_bits copy s = for_each (SurfaceData_copy_surface_row source d) ?rows s"
      using d r source by (simp add: SurfaceData_copy_bits_def)
    have "distinct ?rows" "\<And>r. r \<in> set ?rows \<Longrightarrow> r < bo_height d"
      "sorted_wrt (\<lambda>r' r. bo_y d + r' \<noteq> bo_y source + r) ?rows"
      using rows_forward [of "bo_y d" "bo_y source"] rows_backward [of "bo_y source" "bo_y d"]
      by (auto split: if_splits)
    from copy_rows_pixels [OF s b eq this] obtain s' where
      s': "for_each (SurfaceData_copy_surface_row source d) ?rows s = Inr s'" "same_shape s s'"
      and p: "\<forall>x < unat (su_width s). \<forall>y < unat (su_height s). pixel s' x y =
      (if in_bounds d x y \<and> y - bo_y d \<in> set ?rows
       then pixel s (x - bo_x d + bo_x source) (y - bo_y d + bo_y source) else pixel s x y)"
      by blast
    have "set ?rows = {0..<bo_height d}" by simp
    then have "(in_bounds d x y \<and> y - bo_y d \<in> set ?rows) = in_bounds d x y" for x y by (auto simp: in_bounds_def)
    with p have "\<forall>x < unat (su_width s). \<forall>y < unat (su_height s). pixel s' x y =
      (if in_bounds d x y then pixel s (x - bo_x d + bo_x source) (y - bo_y d + bo_y source) else pixel s x y)"
      by presburger
    with s' run True xy show ?thesis by (simp add: clip_selects_def)
  next
    case False
    then have run: "SurfaceData_copy_bits copy s = copy_bits_clipped copy source d s"
      using d r source by (simp add: SurfaceData_copy_bits_def)
    show ?thesis unfolding run xy [symmetric] by (rule copy_bits_clipped_pixels [OF s b eq])
  qed
qed

lemma no_panic_rect_bounds [no_panic_intros]: "no_panic (SurfaceData_rect_bounds s rect)"
  unfolding SurfaceData_rect_bounds_def image_rect_bounds_def Let_def Rect_width_def Rect_height_def
  by (intro no_panic_intros)

lemma no_panic_copy_source_rect [no_panic_intros]: "no_panic (copy_source_rect copy d)"
  unfolding copy_source_rect_def by (intro no_panic_intros)

text \<open>C26: \<open>copy_bits\<close> moves a rectangle within a surface exactly. Whether or not the source and the
  destination overlap and whatever the clip, each destination pixel the clip selects receives the value
  its source pixel had before the operation, every other pixel and the shape of the surface stay as they
  were, and no index is ever outside the pixels; the operation is refused only when the destination or
  the source rectangle is not inside the surface.\<close>

theorem copy_bits_moves:
  assumes "surface_ok s"
  shows "case SurfaceData_copy_bits copy s of
      Inl e \<Rightarrow> e \<noteq> Panic \<and> (\<nexists>d r source. SurfaceData_rect_bounds s (cb_destination copy) = Inr d \<and>
        copy_source_rect copy d = Inr r \<and> SurfaceData_rect_bounds s r = Inr source)
    | Inr s' \<Rightarrow> same_shape s s' \<and> (\<exists>d. SurfaceData_rect_bounds s (cb_destination copy) = Inr d \<and>
        (\<forall>x < unat (su_width s). \<forall>y < unat (su_height s). pixel s' x y =
          (if in_bounds d x y \<and> clip_selects (cb_clip copy) x y
           then pixel s (x - bo_x d + unat (cb_source_x copy)) (y - bo_y d + unat (cb_source_y copy))
           else pixel s x y)))"
proof (cases "\<exists>d r source. SurfaceData_rect_bounds s (cb_destination copy) = Inr d \<and>
        copy_source_rect copy d = Inr r \<and> SurfaceData_rect_bounds s r = Inr source")
  case True
  then obtain d r source where ok: "SurfaceData_rect_bounds s (cb_destination copy) = Inr d"
    "copy_source_rect copy d = Inr r" "SurfaceData_rect_bounds s r = Inr source" by blast
  from copy_bits_pixels [OF assms ok] ok(1) show ?thesis by auto
next
  case False
  have "no_panic (and_then (SurfaceData_rect_bounds s (cb_destination copy)) (\<lambda>d.
      and_then (copy_source_rect copy d) (SurfaceData_rect_bounds s)))"
    by (intro no_panic_intros)
  with False show ?thesis
    by (auto simp: SurfaceData_copy_bits_def and_then_def no_panic_def split: sum.splits)
qed

theorem copy_bits_moves_witness:
  "\<exists>s'. SurfaceData_copy_bits
      \<lparr>cb_surface_id = 0, cb_destination = \<lparr>rect_top = 0, rect_left = 1, rect_bottom = 1, rect_right = 4\<rparr>,
       cb_clip = CompositeClip_None, cb_source_x = 0, cb_source_y = 0\<rparr>
      \<lparr>su_width = 4, su_height = 1, su_format = SurfaceFormat_Argb32, su_pixels = [1, 2, 3, 4], su_allocated_bytes = 16\<rparr> = Inr s' \<and>
    pixel s' 0 0 = 1 \<and> pixel s' 1 0 = 1 \<and> pixel s' 2 0 = 2 \<and> pixel s' 3 0 = 3"
  (is "\<exists>s'. SurfaceData_copy_bits ?c ?s = Inr s' \<and> _")
proof -
  have s: "surface_ok ?s" by (simp add: surface_ok_def)
  have d: "SurfaceData_rect_bounds ?s (cb_destination ?c) = Inr \<lparr>bo_x = 1, bo_y = 0, bo_width = 3, bo_height = 1\<rparr>"
    by (simp add: SurfaceData_rect_bounds_def image_rect_bounds_def Rect_width_def Rect_height_def i32_checked_sub_def
        sum_exceeds_def usize_checked_add_def)
  have r: "copy_source_rect ?c \<lparr>bo_x = 1, bo_y = 0, bo_width = 3, bo_height = 1\<rparr> =
      Inr \<lparr>rect_top = 0, rect_left = 0, rect_bottom = 1, rect_right = 3\<rparr>"
    by (simp add: copy_source_rect_def i32_from_usize_def i32_add_checked_def)
  have b: "SurfaceData_rect_bounds ?s \<lparr>rect_top = 0, rect_left = 0, rect_bottom = 1, rect_right = 3\<rparr> =
      Inr \<lparr>bo_x = 0, bo_y = 0, bo_width = 3, bo_height = 1\<rparr>"
    by (simp add: SurfaceData_rect_bounds_def image_rect_bounds_def Rect_width_def Rect_height_def i32_checked_sub_def
        sum_exceeds_def usize_checked_add_def)
  from copy_bits_moves [OF s, of ?c] d r b obtain s' where s': "SurfaceData_copy_bits ?c ?s = Inr s'"
    and p: "\<And>x. x < 4 \<Longrightarrow> pixel s' x 0 = (if 1 \<le> x then pixel ?s (x - 1) 0 else pixel ?s x 0)"
    by (fastforce simp: in_bounds_def clip_selects_def split: sum.splits)
  from s' p [of 0] p [of 1] p [of 2] p [of 3] show ?thesis by (simp add: pixel_def)
qed
section \<open>The blit of a video frame\<close>

definition frame_ok :: "DecodedVideoFrame \<Rightarrow> bool" where
  "frame_ok f \<longleftrightarrow> vf_width f \<noteq> 0 \<and> vf_height f \<noteq> 0 \<and>
     length (vf_rgba f) = unat (vf_width f) * unat (vf_height f) * 4 \<and> length (vf_rgba f) < usize_limit"

definition stored_bytes :: "SurfaceFormat \<Rightarrow> u8 list \<Rightarrow> u8 list" where
  "stored_bytes format px =
     (case format of
        SurfaceFormat_A8 \<Rightarrow> [-1, -1, -1, px ! 3]
      | SurfaceFormat_Xrgb32 \<Rightarrow> [px ! 0, px ! 1, px ! 2, -1]
      | SurfaceFormat_Argb32 \<Rightarrow> px)"

definition frame_word :: "SurfaceFormat \<Rightarrow> DecodedVideoFrame \<Rightarrow> nat \<Rightarrow> nat \<Rightarrow> u32" where
  "frame_word format f x y = from_le (stored_bytes format (take 4 (drop ((y * unat (vf_width f) + x) * 4) (vf_rgba f))))"

lemma write_surface_pixel_eq: "length px = 4 \<Longrightarrow> write_surface_pixel format px = Inr (stored_bytes format px)"
  by (cases format) (simp_all add: write_surface_pixel_def stored_bytes_def)

text \<open>Nearest neighbour: index \<open>c\<close> of \<open>n\<close> reads index \<open>c m / n\<close> of \<open>m\<close>.\<close>

lemma nearest_less:
  fixes c n m :: nat
  shows "c < n \<Longrightarrow> 0 < m \<Longrightarrow> c * m div n < m"
  by (simp add: div_less_iff_less_mult mult.commute)

lemma scale_fits:
  fixes c :: nat
  assumes "c < 4294967296"
  shows "c * unat (m :: u32) < usize_limit"
proof -
  have "c * unat m \<le> 4294967295 * 4294967295"
    using assms unat_u32_less [of m] by (intro mult_le_mono) simp_all
  then show ?thesis by simp
qed

definition blit_loop_ok :: "SurfaceData \<Rightarrow> Bounds \<Rightarrow> DecodedVideoFrame \<Rightarrow> nat \<times> nat \<Rightarrow> bool" where
  "blit_loop_ok s d f i \<longleftrightarrow> surface_ok s \<and> frame_ok f \<and> bounds_in s d \<and> fst i < bo_height d \<and> snd i < bo_width d"

lemma blit_pixel_eq:
  assumes ok: "blit_loop_ok s d f (r, c)" and n: "length px = length (su_pixels s)"
  shows "blit_pixel s d clip f r (r * unat (vf_height f) div bo_height d) c px =
    Inr (if stream_clip_selects clip (bo_x d + c) (bo_y d + r)
      then px[bounds_cell s d (r, c) := frame_word (su_format s) f (c * unat (vf_width f) div bo_width d)
        (r * unat (vf_height f) div bo_height d)] else px)"
proof -
  let ?w = "unat (vf_width f)" and ?sx = "c * unat (vf_width f) div bo_width d"
    and ?sy = "r * unat (vf_height f) div bo_height d"
  note o = ok [unfolded blit_loop_ok_def fst_conv snd_conv]
  have xy: "bo_x d + c < unat (su_width s)" "bo_y d + r < unat (su_height s)" using o by (auto simp: bounds_in_def)
  note clip = stream_clip_contains_eq [OF surface_coordinate(1) [OF xy(1)] surface_coordinate(2) [OF xy(2)]]
  have pos: "0 < ?w" "0 < unat (vf_height f)" using o by (simp_all add: frame_ok_def unat_gt_0)
  have sx: "?sx < ?w" "?sy < unat (vf_height f)" using nearest_less o pos by blast+
  have src: "?sy * ?w + ?sx < ?w * unat (vf_height f)" by (rule pixel_index_less [OF sx])
  have len: "length (vf_rgba f) = ?w * unat (vf_height f) * 4" "length (vf_rgba f) < usize_limit"
    using o unfolding frame_ok_def by blast+
  have four: "(?sy * ?w + ?sx) * 4 + 4 \<le> length (vf_rgba f)" using src len by simp
  have c: "c * ?w < usize_limit" by (rule scale_fits) (use xy(1) unat_u32_less [of "su_width s"] in simp)
  have cell: "(bo_y d + r) * unat (su_width s) + (bo_x d + c) < length (su_pixels s)"
    using bounds_cell_less [of s d "(r, c)"] o by (simp add: bounds_cell_def surface_ok_def)
  have off: "SurfaceData_pixel_offset s (bo_x d + c) (bo_y d + r) = Inr (((bo_y d + r) * unat (su_width s) + (bo_x d + c)) * 4)"
    using pixel_offset_in [of s "bo_y d + r" "bo_x d + c"] o cell by simp
  have px: "write_surface_pixel (su_format s) (take 4 (drop ((?sy * ?w + ?sx) * 4) (vf_rgba f))) =
      Inr (stored_bytes (su_format s) (take 4 (drop ((?sy * ?w + ?sx) * 4) (vf_rgba f))))"
    using four by (intro write_surface_pixel_eq) simp
  have mul: "usize_checked_mul ?sy ?w = Some (?sy * ?w)" "usize_checked_add (?sy * ?w) ?sx = Some (?sy * ?w + ?sx)"
    "usize_checked_mul (?sy * ?w + ?sx) 4 = Some ((?sy * ?w + ?sx) * 4)" "usize_checked_mul c ?w = Some (c * ?w)"
    "slice_get (vf_rgba f) ((?sy * ?w + ?sx) * 4) ((?sy * ?w + ?sx) * 4 + 4) =
       Some (take 4 (drop ((?sy * ?w + ?sx) * 4) (vf_rgba f)))"
    using four len(2) c by (auto simp: slice_get_def)
  show ?thesis
    using cell n four px by (simp add: blit_pixel_def Let_def clip off mul index_set_def bounds_cell_def frame_word_def)
qed

interpretation blit: bounds_loop "blit_loop_ok s d f"
    "\<lambda>(r, c). blit_pixel s d clip f r (r * unat (vf_height f) div bo_height d) c" s d
    "\<lambda>i. stream_clip_selects clip (bo_x d + snd i) (bo_y d + fst i)"
    "\<lambda>i _. frame_word (su_format s) f (snd i * unat (vf_width f) div bo_width d) (fst i * unat (vf_height f) div bo_height d)"
  for s d f clip
proof
  fix i and px :: "u32 list"
  assume i: "blit_loop_ok s d f i" and n: "length px = unat (su_width s) * unat (su_height s)"
  then have "length px = length (su_pixels s)" by (simp add: blit_loop_ok_def surface_ok_def)
  moreover obtain r c where "i = (r, c)" by (cases i)
  ultimately show "(case i of (r, c) \<Rightarrow> blit_pixel s d clip f r (r * unat (vf_height f) div bo_height d) c) px =
      Inr (if stream_clip_selects clip (bo_x d + snd i) (bo_y d + fst i)
        then px[bounds_cell s d i := frame_word (su_format s) f (snd i * unat (vf_width f) div bo_width d)
          (fst i * unat (vf_height f) div bo_height d)] else px)"
    using i blit_pixel_eq [of s d f r c px] by simp
qed (auto simp: blit_loop_ok_def bounds_cell_less dest: bounds_cell_inj)

text \<open>Drawing a decoded video frame scales it exactly. For a frame whose bytes match its dimensions,
  the blit succeeds whenever the destination is inside the surface; each destination pixel the stream's
  clip selects receives the nearest frame pixel, stored in the surface's format, and every other pixel
  stays as it was. No multiplication overflows and no index is outside the frame or the surface.\<close>

theorem blit_stream_frame_scales:
  assumes "surface_ok s" "frame_ok f" "SurfaceData_rect_bounds s rect = Inr d"
  shows "\<exists>s'. SurfaceData_blit_stream_frame rect clip f s = Inr s' \<and> same_shape s s' \<and>
    (\<forall>x < unat (su_width s). \<forall>y < unat (su_height s). pixel s' x y =
      (if in_bounds d x y \<and> stream_clip_selects clip x y
       then frame_word (su_format s) f ((x - bo_x d) * unat (vf_width f) div bo_width d)
              ((y - bo_y d) * unat (vf_height f) div bo_height d)
       else pixel s x y))"
proof -
  have b: "bounds_in s d" by (rule rect_bounds_in [OF assms(3)])
  have "blit_loop_ok s d f i" if "fst i < bo_height d" "snd i < bo_width d" for i
    using that assms b by (simp add: blit_loop_ok_def)
  from blit.pixels [OF assms(1) b this, of clip] obtain px' where
    run: "for_each (\<lambda>row. for_each (\<lambda>column. blit_pixel s d clip f row (row * unat (vf_height f) div bo_height d) column)
      [0..<bo_width d]) [0..<bo_height d] (su_pixels s) = Inr px'" "same_shape s (s\<lparr>su_pixels := px'\<rparr>)"
    and p: "\<And>x y. x < unat (su_width s) \<Longrightarrow> y < unat (su_height s) \<Longrightarrow> pixel (s\<lparr>su_pixels := px'\<rparr>) x y =
      (if in_bounds d x y \<and> stream_clip_selects clip (bo_x d + (x - bo_x d)) (bo_y d + (y - bo_y d))
       then frame_word (su_format s) f ((x - bo_x d) * unat (vf_width f) div bo_width d)
              ((y - bo_y d) * unat (vf_height f) div bo_height d) else pixel s x y)"
    by (auto simp: Let_def)
  have "r * unat (vf_height f) < usize_limit" if "r < bo_height d" for r
    using that b unat_u32_less [of "su_height s"] by (intro scale_fits) (simp add: bounds_in_def)
  then have "SurfaceData_blit_stream_frame rect clip f s = Inr (s\<lparr>su_pixels := px'\<rparr>)"
    using assms(2,3) trans [OF for_each_cong run(1)]
    by (auto simp: SurfaceData_blit_stream_frame_def frame_ok_def Let_def)
  moreover have "pixel (s\<lparr>su_pixels := px'\<rparr>) x y = (if in_bounds d x y \<and> stream_clip_selects clip x y
       then frame_word (su_format s) f ((x - bo_x d) * unat (vf_width f) div bo_width d)
              ((y - bo_y d) * unat (vf_height f) div bo_height d) else pixel s x y)"
    if "x < unat (su_width s)" "y < unat (su_height s)" for x y
    using p [OF that] by (cases "in_bounds d x y") (auto simp: in_bounds_def)
  ultimately show ?thesis using run(2) by blast
qed

lemma minus_one_u8: "(-1 :: u8) = 255" by simp

theorem blit_stream_frame_scales_witness:
  "\<exists>s'. SurfaceData_blit_stream_frame \<lparr>rect_top = 0, rect_left = 1, rect_bottom = 1, rect_right = 3\<rparr> StreamClip_None
      \<lparr>vf_width = 1, vf_height = 1, vf_rgba = [1, 2, 3, 4]\<rparr>
      \<lparr>su_width = 3, su_height = 1, su_format = SurfaceFormat_Xrgb32, su_pixels = [7, 8, 9], su_allocated_bytes = 12\<rparr> = Inr s' \<and>
    pixel s' 0 0 = 7 \<and> pixel s' 1 0 = 0xFF030201 \<and> pixel s' 2 0 = 0xFF030201"
  (is "\<exists>s'. SurfaceData_blit_stream_frame ?r _ ?f ?s = Inr s' \<and> _")
proof -
  have s: "surface_ok ?s" and f: "frame_ok ?f" by (simp_all add: surface_ok_def frame_ok_def)
  have d: "SurfaceData_rect_bounds ?s ?r = Inr \<lparr>bo_x = 1, bo_y = 0, bo_width = 2, bo_height = 1\<rparr>"
    by (simp add: SurfaceData_rect_bounds_def image_rect_bounds_def Rect_width_def Rect_height_def i32_checked_sub_def
        sum_exceeds_def usize_checked_add_def)
  from blit_stream_frame_scales [OF s f d, of StreamClip_None] obtain s' where
    "SurfaceData_blit_stream_frame ?r StreamClip_None ?f ?s = Inr s'"
    "\<And>x. x < 3 \<Longrightarrow> pixel s' x 0 = (if 1 \<le> x then frame_word SurfaceFormat_Xrgb32 ?f ((x - 1) div 2) 0 else pixel ?s x 0)"
    by (fastforce simp: in_bounds_def stream_clip_selects_def)
  from this(1) this(2) [of 0] this(2) [of 1] this(2) [of 2] show ?thesis
    by (simp add: pixel_def frame_word_def stored_bytes_def minus_one_u8)
qed

end
