(* ===== verification/Client_Canvas.thy ===== *)
theory Client_Canvas
  imports Client_Surface
begin

text \<open>
  The canvas (\<open>display/canvas.rs\<close> of \<open>oxide-spice-client\<close>): raster operations, alpha blending, scaling,
  brushes, masks, glyph coverage and the classic drawing commands on them. The surfaces of the channel
  are a map from their identifiers; the display task is the only one that writes them, so a command reads
  its inputs and then rewrites its destination as one step. Slice indexing and integer arithmetic that
  would overflow are panics of the model, and the results show that no command reaches one.

  Strokes are rasterised with 64-bit floating point numbers and are not modelled.
\<close>

section \<open>Raster operations\<close>

definition ROP_INVERT_SOURCE :: u16 where [simp]: "ROP_INVERT_SOURCE = push_bit 0 1"
definition ROP_INVERT_BRUSH :: u16 where [simp]: "ROP_INVERT_BRUSH = push_bit 1 1"
definition ROP_INVERT_DESTINATION :: u16 where [simp]: "ROP_INVERT_DESTINATION = push_bit 2 1"
definition ROP_PUT :: u16 where [simp]: "ROP_PUT = push_bit 3 1"
definition ROP_OR :: u16 where [simp]: "ROP_OR = push_bit 4 1"
definition ROP_AND :: u16 where [simp]: "ROP_AND = push_bit 5 1"
definition ROP_XOR :: u16 where [simp]: "ROP_XOR = push_bit 6 1"
definition ROP_BLACKNESS :: u16 where [simp]: "ROP_BLACKNESS = push_bit 7 1"
definition ROP_WHITENESS :: u16 where [simp]: "ROP_WHITENESS = push_bit 8 1"
definition ROP_INVERT :: u16 where [simp]: "ROP_INVERT = push_bit 9 1"
definition ROP_INVERT_RESULT :: u16 where [simp]: "ROP_INVERT_RESULT = push_bit 10 1"
definition KNOWN_ROP_BITS :: u16 where [simp]: "KNOWN_ROP_BITS = push_bit 11 1 - 1"

datatype RopInput = RopInput_Source | RopInput_Brush | RopInput_Destination

datatype MaskedDestinationOperation = MaskedDestination_Blackness | MaskedDestination_Whiteness | MaskedDestination_Invert

primrec inversion_bit :: "RopInput \<Rightarrow> u16" where
  "inversion_bit RopInput_Source = ROP_INVERT_SOURCE"
| "inversion_bit RopInput_Brush = ROP_INVERT_BRUSH"
| "inversion_bit RopInput_Destination = ROP_INVERT_DESTINATION"

definition validate_rop_descriptor :: "u16 \<Rightarrow> unit client" where
  "validate_rop_descriptor descriptor =
     (if descriptor AND NOT KNOWN_ROP_BITS \<noteq> 0 then client_err (unsupported_wire STR ''Canvas raster operation bits'')
      else Inr ())"

definition apply_binary_rop :: "u16 \<Rightarrow> u32 \<Rightarrow> u32 \<Rightarrow> RopInput \<Rightarrow> RopInput \<Rightarrow> u32" where
  "apply_binary_rop descriptor source destination source_kind destination_kind =
     (let source = (if descriptor AND inversion_bit source_kind \<noteq> 0 then NOT source else source);
          destination = (if descriptor AND inversion_bit destination_kind \<noteq> 0 then NOT destination else destination);
          result =
            (if descriptor AND ROP_PUT \<noteq> 0 then source
             else if descriptor AND ROP_OR \<noteq> 0 then source OR destination
             else if descriptor AND ROP_AND \<noteq> 0 then source AND destination
             else if descriptor AND ROP_XOR \<noteq> 0 then source XOR destination
             else if descriptor AND ROP_BLACKNESS \<noteq> 0 then 0
             else if descriptor AND ROP_WHITENESS \<noteq> 0 then -1
             else if descriptor AND ROP_INVERT \<noteq> 0 then NOT destination
             else source)
      in if descriptor AND ROP_INVERT_RESULT \<noteq> 0 then NOT result else result)"

definition apply_rop3_term :: "u8 \<Rightarrow> u32 \<Rightarrow> u32 \<Rightarrow> u32 \<Rightarrow> u32 \<Rightarrow> nat \<Rightarrow> u32" where
  "apply_rop3_term code pattern source destination result index =
     (if code AND push_bit index 1 = 0 then result
      else
      let i = (of_nat index :: u8);
          pattern_term = (if i AND 4 \<noteq> 0 then pattern else NOT pattern);
          source_term = (if i AND 2 \<noteq> 0 then source else NOT source);
          destination_term = (if i AND 1 \<noteq> 0 then destination else NOT destination)
      in result OR (pattern_term AND source_term AND destination_term))"

definition apply_rop3 :: "u8 \<Rightarrow> u32 \<Rightarrow> u32 \<Rightarrow> u32 \<Rightarrow> u32" where
  "apply_rop3 code pattern source destination =
     foldl (apply_rop3_term code pattern source destination) 0 [0..<8]"

section \<open>Pixel words\<close>

text \<open>\<open>to_ne_bytes\<close> on the little-endian targets the client supports.\<close>

definition word_bytes :: "u32 \<Rightarrow> u8 list" where
  "word_bytes w = to_le 4 w"

text \<open>Arithmetic on \<open>u16\<close>: a value that does not fit panics.\<close>

definition u16_value :: "nat \<Rightarrow> nat client" where
  "u16_value n = (if n < 2 ^ 16 then Inr n else Inl Panic)"

definition u8_try_from :: "nat \<Rightarrow> u8 option" where
  "u8_try_from n = (if n < 2 ^ 8 then Some (of_nat n) else None)"

text \<open>\<open>(source * alpha + destination * (255 - alpha) + 127) / 255\<close> in \<open>u16\<close> arithmetic; \<open>beta\<close> is the code's \<open>inverse\<close>.\<close>

definition blend_channel :: "u8 \<Rightarrow> u8 \<Rightarrow> nat \<Rightarrow> nat \<Rightarrow> u8 client" where
  "blend_channel source destination alpha beta =
     and_then (u16_value (unat source * alpha)) (\<lambda>a.
     and_then (u16_value (unat destination * beta)) (\<lambda>b.
     and_then (u16_value (a + b)) (\<lambda>c.
     and_then (u16_value (c + 127)) (\<lambda>d.
     expect (u8_try_from (d div 255))))))"

definition blend_coverage :: "u32 \<Rightarrow> u32 \<Rightarrow> u8 \<Rightarrow> u32 client" where
  "blend_coverage source destination coverage =
     (let source = word_bytes source; destination = word_bytes destination;
          alpha = unat coverage; beta = 255 - alpha in
      and_then (for_each (\<lambda>component out.
        and_then (blend_channel (source ! component) (destination ! component) alpha beta) (\<lambda>v.
        Inr (out[component := v]))) [0..<4] (replicate 4 0)) (\<lambda>out.
      Inr (from_le out)))"

definition alpha_blend_word :: "u32 \<Rightarrow> u32 \<Rightarrow> u8 \<Rightarrow> bool \<Rightarrow> bool \<Rightarrow> u32 client" where
  "alpha_blend_word source destination global_alpha source_has_alpha destination_has_alpha =
     (let source = word_bytes source; destination = word_bytes destination;
          source_alpha = (if source_has_alpha then unat (source ! 3) else 255) in
      and_then (u16_value (source_alpha * unat global_alpha)) (\<lambda>m.
      and_then (u16_value (m + 127)) (\<lambda>m.
      let alpha = m div 255 in
      if 255 < alpha then Inl Panic
      else
      let beta = 255 - alpha in
      and_then (for_each (\<lambda>component out.
        and_then (blend_channel (source ! component) (destination ! component) alpha beta) (\<lambda>v.
        Inr (out[component := v]))) [0..<3] (replicate 4 0)) (\<lambda>out.
      and_then
        (if destination_has_alpha then
           and_then (u16_value (unat (destination ! 3) * beta)) (\<lambda>d.
           and_then (u16_value (d + 127)) (\<lambda>d.
           and_then (u16_value (alpha + d div 255)) (\<lambda>v.
           expect (u8_try_from v))))
         else Inr (-1)) (\<lambda>v.
      Inr (from_le (out[3 := v])))))))"

definition bgrx_to_rgba_word :: "u32 \<Rightarrow> SurfaceFormat \<Rightarrow> u32" where
  "bgrx_to_rgba_word color format =
     (let bgrx = to_le 4 color in
      from_le (if format = SurfaceFormat_A8 then [-1, -1, -1, bgrx ! 0] else [bgrx ! 2, bgrx ! 1, bgrx ! 0, -1]))"

definition normalize_word :: "SurfaceFormat \<Rightarrow> u32 \<Rightarrow> u32" where
  "normalize_word format w =
     (let bytes = word_bytes w in
      from_le (case format of
        SurfaceFormat_A8 \<Rightarrow> [-1, -1, -1, bytes ! 3]
      | SurfaceFormat_Xrgb32 \<Rightarrow> [bytes ! 0, bytes ! 1, bytes ! 2, -1]
      | SurfaceFormat_Argb32 \<Rightarrow> bytes))"

section \<open>Rewriting the pixels of a rectangle\<close>

definition apply_pixel :: "SurfaceData \<Rightarrow> Bounds \<Rightarrow> CompositeClip \<Rightarrow> u8 list option \<Rightarrow> (nat \<Rightarrow> u32 \<Rightarrow> u32 client) \<Rightarrow>
    nat \<times> nat \<Rightarrow> u32 list \<Rightarrow> u32 list client" where
  "apply_pixel destination bounds clip msk operation i px =
     (case i of (local_y, local_x) \<Rightarrow>
      let surface_y = bo_y bounds + local_y; surface_x = bo_x bounds + local_x;
          local_index = local_y * bo_width bounds + local_x in
      and_then (clip_contains clip surface_x surface_y) (\<lambda>inside.
      and_then (if \<not> inside then Inr True
                else case msk of None \<Rightarrow> Inr False
                  | Some coverage \<Rightarrow> and_then (index_at coverage local_index) (\<lambda>c. Inr (c = 0))) (\<lambda>skip.
      if skip then Inr px
      else
      let destination_index = surface_y * unat (su_width destination) + surface_x in
      and_then (index_at px destination_index) (\<lambda>old.
      and_then (operation local_index old) (\<lambda>w.
      index_set px destination_index (normalize_word (su_format destination) w))))))"

definition apply_pixels :: "Bounds \<Rightarrow> CompositeClip \<Rightarrow> u8 list option \<Rightarrow> (nat \<Rightarrow> u32 \<Rightarrow> u32 client) \<Rightarrow> SurfaceData \<Rightarrow> SurfaceData client" where
  "apply_pixels bounds clip msk operation destination =
     and_then (for_each (\<lambda>local_y. for_each (\<lambda>local_x.
         apply_pixel destination bounds clip msk operation (local_y, local_x)) [0..<bo_width bounds])
       [0..<bo_height bounds] (su_pixels destination)) (\<lambda>px.
     Inr (destination\<lparr>su_pixels := px\<rparr>))"

section \<open>Prepared images\<close>

record OwnedCompositePixels =
  oc_format :: SurfaceFormat
  oc_width :: u32
  oc_height :: u32
  oc_pixels :: "u32 list"

datatype PreparedCompositeImage =
    PreparedComposite_Surface CompositeSurface
  | PreparedComposite_Pixels OwnedCompositePixels

type_synonym surfaces = "u32 \<rightharpoonup> SurfaceData"

definition surface_for_update :: "surfaces \<Rightarrow> u32 \<Rightarrow> SurfaceData client" where
  "surface_for_update surfaces surface_id =
     ok_or (protocol_value_error STR ''update for unknown surface'') (surfaces surface_id)"

definition inspect_surface :: "surfaces \<Rightarrow> CompositeSurface \<Rightarrow> (SurfaceFormat \<Rightarrow> u32 \<Rightarrow> u32 \<Rightarrow> u32 list \<Rightarrow> 'a client) \<Rightarrow> 'a client" where
  "inspect_surface surfaces descriptor inspect =
     and_then (surface_for_update surfaces (cs_surface_id descriptor)) (\<lambda>surface.
     if cs_width descriptor \<noteq> su_width surface \<or> cs_height descriptor \<noteq> su_height surface
     then client_err (protocol_value_error STR ''Canvas surface descriptor dimensions'')
     else inspect (su_format surface) (su_width surface) (su_height surface) (su_pixels surface))"

definition inspect_prepared :: "surfaces \<Rightarrow> PreparedCompositeImage \<Rightarrow> (SurfaceFormat \<Rightarrow> u32 \<Rightarrow> u32 \<Rightarrow> u32 list \<Rightarrow> 'a client) \<Rightarrow> 'a client" where
  "inspect_prepared surfaces prepared inspect =
     (case prepared of
        PreparedComposite_Pixels p \<Rightarrow> inspect (oc_format p) (oc_width p) (oc_height p) (oc_pixels p)
      | PreparedComposite_Surface descriptor \<Rightarrow> inspect_surface surfaces descriptor inspect)"

section \<open>Scaling\<close>

definition UNIT :: nat where [simp]: "UNIT = 65536"

definition centered_source_coordinate :: "nat \<Rightarrow> nat \<Rightarrow> nat \<Rightarrow> nat client" where
  "centered_source_coordinate output_coordinate output_length source_length =
     and_then (ok_or (resource_limit_error STR ''Canvas interpolation coordinate'')
       (Option.bind (usize_checked_mul output_coordinate 2) (\<lambda>coordinate.
        Option.bind (usize_checked_add coordinate 1) (\<lambda>coordinate.
        Option.bind (usize_checked_mul coordinate source_length) (\<lambda>coordinate.
        usize_checked_mul coordinate UNIT))))) (\<lambda>numerator.
     and_then (ok_or (resource_limit_error STR ''Canvas interpolation length'') (usize_checked_mul output_length 2)) (\<lambda>denominator.
     if denominator = 0 then Inl Panic else Inr (numerator div denominator - UNIT div 2)))"

text \<open>One channel of the bilinear mix; all values stay below \<open>255 * 2^32 + 2^31\<close>.\<close>

definition interpolate_channel :: "nat \<Rightarrow> nat \<Rightarrow> u8 \<Rightarrow> u8 \<Rightarrow> u8 \<Rightarrow> u8 \<Rightarrow> u8 client" where
  "interpolate_channel fraction_x fraction_y top_left top_right bottom_left bottom_right =
     (let top = unat top_left * (UNIT - fraction_x) + unat top_right * fraction_x;
          bottom = unat bottom_left * (UNIT - fraction_x) + unat bottom_right * fraction_x;
          v = top * (UNIT - fraction_y) + bottom * fraction_y
      in expect (u8_try_from ((v + UNIT * UNIT div 2) div (UNIT * UNIT))))"

definition interpolate_pixel :: "u32 list \<Rightarrow> nat \<Rightarrow> Bounds \<Rightarrow> nat \<Rightarrow> nat \<Rightarrow> nat \<Rightarrow> nat \<Rightarrow> u32 client" where
  "interpolate_pixel pixels image_width source output_x output_y output_width output_height =
     and_then (centered_source_coordinate output_x output_width (bo_width source)) (\<lambda>fixed_x.
     and_then (centered_source_coordinate output_y output_height (bo_height source)) (\<lambda>fixed_y.
     if bo_width source = 0 \<or> bo_height source = 0 then Inl Panic
     else
     let x0 = fixed_x div UNIT; y0 = fixed_y div UNIT;
         x1 = min (x0 + 1) (bo_width source - 1); y1 = min (y0 + 1) (bo_height source - 1);
         fraction_x = fixed_x mod UNIT; fraction_y = fixed_y mod UNIT in
     and_then (index_at pixels ((bo_y source + y0) * image_width + bo_x source + x0)) (\<lambda>top_left.
     and_then (index_at pixels ((bo_y source + y0) * image_width + bo_x source + x1)) (\<lambda>top_right.
     and_then (index_at pixels ((bo_y source + y1) * image_width + bo_x source + x0)) (\<lambda>bottom_left.
     and_then (index_at pixels ((bo_y source + y1) * image_width + bo_x source + x1)) (\<lambda>bottom_right.
     and_then (for_each (\<lambda>component out.
         and_then (interpolate_channel fraction_x fraction_y (word_bytes top_left ! component) (word_bytes top_right ! component)
           (word_bytes bottom_left ! component) (word_bytes bottom_right ! component)) (\<lambda>v.
         Inr (out[component := v]))) [0..<4] (replicate 4 0)) (\<lambda>out.
     Inr (from_le out))))))))"

definition scale_pixel :: "u32 list \<Rightarrow> nat \<Rightarrow> Bounds \<Rightarrow> nat \<Rightarrow> nat \<Rightarrow> u8 \<Rightarrow> nat \<times> nat \<Rightarrow> u32 client" where
  "scale_pixel pixels image_width source output_width output_height scale_mode i =
     (case i of (output_y, output_x) \<Rightarrow>
      if scale_mode = 1 then
        and_then (ok_or (resource_limit_error STR ''Canvas source x'') (usize_checked_mul output_x (bo_width source))) (\<lambda>mx.
        and_then (ok_or (resource_limit_error STR ''Canvas source y'') (usize_checked_mul output_y (bo_height source))) (\<lambda>my.
        let source_x = bo_x source + mx div output_width; source_y = bo_y source + my div output_height in
        index_at pixels (source_y * image_width + source_x)))
      else interpolate_pixel pixels image_width source output_x output_y output_width output_height)"

definition scale_pixels :: "u32 list \<Rightarrow> nat \<Rightarrow> Bounds \<Rightarrow> nat \<Rightarrow> nat \<Rightarrow> u8 \<Rightarrow> u32 list client" where
  "scale_pixels pixels image_width source output_width output_height scale_mode =
     and_then (ok_or (resource_limit_error STR ''Canvas scaled pixels'') (usize_checked_mul output_width output_height)) (\<lambda>_.
     for_each (\<lambda>output_y. for_each (\<lambda>output_x out.
       and_then (scale_pixel pixels image_width source output_width output_height scale_mode (output_y, output_x)) (\<lambda>w.
       Inr (out @ [w]))) [0..<output_width]) [0..<output_height] [])"

section \<open>Sources, brushes and masks\<close>

record SampledPixels =
  sp_format :: SurfaceFormat
  sp_pixels :: "u32 list"

definition sample_source :: "surfaces \<Rightarrow> PreparedCompositeImage \<Rightarrow> Rect \<Rightarrow> u8 \<Rightarrow> nat \<Rightarrow> nat \<Rightarrow> SampledPixels client" where
  "sample_source surfaces prepared area scale_mode output_width output_height =
     inspect_prepared surfaces prepared (\<lambda>format width height pixels.
     and_then (image_rect_bounds area width height) (\<lambda>source_bounds.
     and_then (scale_pixels pixels (unat width) source_bounds output_width output_height scale_mode) (\<lambda>sampled.
     Inr \<lparr>sp_format = format, sp_pixels = sampled\<rparr>)))"

definition i64_try_from :: "nat \<Rightarrow> int option" where
  "i64_try_from n = (if n < 2 ^ 63 then Some (int n) else None)"

definition pattern_coordinate :: "i32 \<Rightarrow> nat \<Rightarrow> i32 \<Rightarrow> nat \<Rightarrow> context_str \<Rightarrow> nat client" where
  "pattern_coordinate origin local position_coordinate len ctx =
     and_then (ok_or (resource_limit_error ctx) (i64_try_from local)) (\<lambda>l.
     and_then (expect (i64_try_from len)) (\<lambda>len.
     Inr (nat ((sint origin + l - sint position_coordinate) mod len))))"

definition sample_pattern :: "u32 \<Rightarrow> u32 \<Rightarrow> u32 list \<Rightarrow> Point \<Rightarrow> Rect \<Rightarrow> Bounds \<Rightarrow> u32 list client" where
  "sample_pattern width height pixels pos destination bounds =
     (let width = unat width; height = unat height in
      if width = 0 \<or> height = 0 then client_err (protocol_value_error STR ''zero-sized Canvas pattern'')
      else
      for_each (\<lambda>local_y out.
        and_then (pattern_coordinate (rect_top destination) local_y (pt_y pos) height STR ''Canvas pattern y'') (\<lambda>pattern_y.
        for_each (\<lambda>local_x out.
          and_then (pattern_coordinate (rect_left destination) local_x (pt_x pos) width STR ''Canvas pattern x'') (\<lambda>pattern_x.
          and_then (index_at pixels (pattern_y * width + pattern_x)) (\<lambda>w.
          Inr (out @ [w])))) [0..<bo_width bounds] out)) [0..<bo_height bounds] [])"

definition sample_brush :: "surfaces \<Rightarrow> DisplayBrush \<Rightarrow> PreparedCompositeImage option \<Rightarrow> Rect \<Rightarrow> Bounds \<Rightarrow> SurfaceFormat \<Rightarrow> SampledPixels client" where
  "sample_brush surfaces brush pattern destination destination_bounds destination_format =
     and_then (ok_or (resource_limit_error STR ''Canvas brush pixels'')
                 (usize_checked_mul (bo_width destination_bounds) (bo_height destination_bounds))) (\<lambda>pixel_count.
     case brush of
       DisplayBrush_None \<Rightarrow> client_err (unsupported_wire STR ''empty Canvas brush'')
     | DisplayBrush_Solid color \<Rightarrow>
         Inr \<lparr>sp_format = destination_format, sp_pixels = replicate pixel_count (bgrx_to_rgba_word color destination_format)\<rparr>
     | DisplayBrush_Pattern _ pos \<Rightarrow>
         and_then (ok_or (ClientError_Internal STR ''missing prepared pattern'') pattern) (\<lambda>pattern.
         inspect_prepared surfaces pattern (\<lambda>format width height pixels.
         and_then (sample_pattern width height pixels pos destination destination_bounds) (\<lambda>sampled.
         Inr \<lparr>sp_format = format, sp_pixels = sampled\<rparr>))))"

definition mask_selects :: "SurfaceFormat \<Rightarrow> u32 list \<Rightarrow> nat \<Rightarrow> nat \<Rightarrow> DisplayMask \<Rightarrow> int \<Rightarrow> int \<Rightarrow> bool client" where
  "mask_selects format pixels width height msk mask_x mask_y =
     (let inside = (mask_x \<ge> 0 \<and> mask_y \<ge> 0 \<and> nat mask_x < width \<and> nat mask_y < height) in
      if inside then
        and_then (index_at pixels (nat mask_y * width + nat mask_x)) (\<lambda>w.
        let bytes = word_bytes w;
            selected = (if format = SurfaceFormat_A8 then bytes ! 3 \<noteq> 0 else \<exists>component \<in> set (take 3 bytes). component \<noteq> 0)
        in Inr (if dm_inverted msk then \<not> selected else selected))
      else Inr False)"

definition sample_mask :: "surfaces \<Rightarrow> DisplayMask \<Rightarrow> PreparedCompositeImage option \<Rightarrow> Bounds \<Rightarrow> u8 list option client" where
  "sample_mask surfaces msk prepared destination_bounds =
     (case prepared of
        None \<Rightarrow> if dm_image msk = None then Inr None
                else client_err (ClientError_Internal STR ''missing prepared Canvas mask'')
      | Some prepared \<Rightarrow>
          inspect_prepared surfaces prepared (\<lambda>format width height pixels.
          and_then (ok_or (resource_limit_error STR ''Canvas mask pixels'')
                      (usize_checked_mul (bo_width destination_bounds) (bo_height destination_bounds))) (\<lambda>_.
          and_then (for_each (\<lambda>local_y out.
              and_then (ok_or (resource_limit_error STR ''Canvas mask y'') (i64_try_from local_y)) (\<lambda>ly.
              for_each (\<lambda>local_x out.
                and_then (ok_or (resource_limit_error STR ''Canvas mask x'') (i64_try_from local_x)) (\<lambda>lx.
                and_then (mask_selects format pixels (unat width) (unat height) msk
                    (lx + sint (pt_x (dm_position msk))) (ly + sint (pt_y (dm_position msk)))) (\<lambda>selected.
                Inr (out @ [if selected then -1 else 0])))) [0..<bo_width destination_bounds] out))
              [0..<bo_height destination_bounds] []) (\<lambda>coverage.
          Inr (Some coverage)))))"

section \<open>Glyph coverage\<close>

definition destination_index :: "Bounds \<Rightarrow> int \<Rightarrow> int \<Rightarrow> nat option" where
  "destination_index destination x y =
     Option.bind (i64_try_from (bo_x destination)) (\<lambda>left.
     Option.bind (i64_try_from (bo_y destination)) (\<lambda>top.
     if x - left < - (2 ^ 63) \<or> x - left \<ge> 2 ^ 63 \<or> x - left < 0 then None
     else if y - top < - (2 ^ 63) \<or> y - top \<ge> 2 ^ 63 \<or> y - top < 0 then None
     else
     let local_x = nat (x - left); local_y = nat (y - top) in
     if local_x \<ge> bo_width destination \<or> local_y \<ge> bo_height destination then None
     else Option.bind (usize_checked_mul local_y (bo_width destination)) (\<lambda>row. usize_checked_add row local_x)))"

definition canvas_row_bytes :: "GlyphFormat \<Rightarrow> nat \<Rightarrow> nat" where
  "canvas_row_bytes format width =
     (case format of GlyphFormat_Alpha1 \<Rightarrow> (width + 7) div 8 | GlyphFormat_Alpha4 \<Rightarrow> (width + 1) div 2 | GlyphFormat_Alpha8 \<Rightarrow> width)"

definition glyph_alpha :: "GlyphFormat \<Rightarrow> u8 list \<Rightarrow> nat \<Rightarrow> u8 client" where
  "glyph_alpha format row x =
     (case format of
        GlyphFormat_Alpha1 \<Rightarrow> and_then (index_at row (x div 8)) (\<lambda>b. Inr (if b AND push_bit (7 - x mod 8) 1 \<noteq> 0 then -1 else 0))
      | GlyphFormat_Alpha4 \<Rightarrow>
          and_then (index_at row (x div 2)) (\<lambda>b.
          let nibble = (if x mod 2 = 0 then drop_bit 4 b else b AND 15) in
          if unat nibble * 17 < 256 then Inr (nibble * 17) else Inl Panic)
      | GlyphFormat_Alpha8 \<Rightarrow> index_at row x)"

definition rasterize_glyph_pixel :: "GlyphFormat \<Rightarrow> Bounds \<Rightarrow> RasterGlyph \<Rightarrow> u8 list \<Rightarrow> nat \<Rightarrow> nat \<Rightarrow> u8 list \<Rightarrow> u8 list client" where
  "rasterize_glyph_pixel format destination glyph row logical_y x coverage =
     and_then (glyph_alpha format row x) (\<lambda>alpha.
     and_then (ok_or (resource_limit_error STR ''Text glyph x'') (i64_try_from x)) (\<lambda>dx.
     and_then (ok_or (resource_limit_error STR ''Text glyph y'') (i64_try_from logical_y)) (\<lambda>dy.
     let surface_x = sint (pt_x (rg_render_position glyph)) + sint (pt_x (rg_origin glyph)) + dx;
         surface_y = sint (pt_y (rg_render_position glyph)) + sint (pt_y (rg_origin glyph)) + dy in
     case destination_index destination surface_x surface_y of
       None \<Rightarrow> Inr coverage
     | Some index \<Rightarrow>
         and_then (index_at coverage index) (\<lambda>c. index_set coverage index (max c alpha)))))"

definition rasterize_glyph_row :: "RasterString \<Rightarrow> Bounds \<Rightarrow> RasterGlyph \<Rightarrow> nat \<Rightarrow> u8 list \<Rightarrow> u8 list client" where
  "rasterize_glyph_row txt destination glyph logical_y coverage =
     (let width = unat (rg_width glyph); height = unat (rg_height glyph);
          row_bytes = canvas_row_bytes (rs_format txt) width;
          storage_y = (if rs_top_down txt then logical_y else height - logical_y - 1) in
      and_then (slice_index (rg_pixels glyph) (storage_y * row_bytes) ((storage_y + 1) * row_bytes)) (\<lambda>row.
      for_each (rasterize_glyph_pixel (rs_format txt) destination glyph row logical_y) [0..<width] coverage))"

definition rasterize_glyphs :: "RasterString \<Rightarrow> Bounds \<Rightarrow> u8 list client" where
  "rasterize_glyphs txt destination =
     and_then (ok_or (resource_limit_error STR ''Text glyph coverage'')
                 (usize_checked_mul (bo_width destination) (bo_height destination))) (\<lambda>pixel_count.
     for_each (\<lambda>glyph. for_each (rasterize_glyph_row txt destination glyph) [0..<unat (rg_height glyph)])
       (rs_glyphs txt) (replicate pixel_count 0))"

section \<open>Drawing commands\<close>

text \<open>Each command returns the surfaces with its destination rewritten.\<close>

definition render_fill :: "surfaces \<Rightarrow> DrawFill \<Rightarrow> PreparedCompositeImage option \<Rightarrow> PreparedCompositeImage option \<Rightarrow> surfaces client" where
  "render_fill surfaces command pattern msk =
     and_then (validate_rop_descriptor (df_rop_descriptor command)) (\<lambda>_.
     let base = df_base command in
     and_then (surface_for_update surfaces (db_surface_id base)) (\<lambda>destination.
     and_then (SurfaceData_rect_bounds destination (db_destination base)) (\<lambda>bounds.
     and_then (sample_brush surfaces (df_brush command) pattern (db_destination base) bounds (su_format destination)) (\<lambda>brush.
     and_then (sample_mask surfaces (df_mask command) msk bounds) (\<lambda>coverage.
     and_then (apply_pixels bounds (db_clip base) coverage (\<lambda>index old.
         and_then (index_at (sp_pixels brush) index) (\<lambda>b.
         Inr (apply_binary_rop (df_rop_descriptor command) b old RopInput_Brush RopInput_Destination))) destination) (\<lambda>destination.
     Inr (surfaces(db_surface_id base \<mapsto> destination))))))))"

definition render_copy :: "surfaces \<Rightarrow> DrawCopy \<Rightarrow> PreparedCompositeImage \<Rightarrow> PreparedCompositeImage option \<Rightarrow> surfaces client" where
  "render_copy surfaces command source msk =
     and_then (validate_rop_descriptor (dco_rop_descriptor command)) (\<lambda>_.
     let base = dco_base command in
     and_then (surface_for_update surfaces (db_surface_id base)) (\<lambda>destination.
     and_then (SurfaceData_rect_bounds destination (db_destination base)) (\<lambda>bounds.
     and_then (sample_source surfaces source (dis_area (dco_source command)) (dis_scale_mode (dco_source command))
         (bo_width bounds) (bo_height bounds)) (\<lambda>sampled.
     and_then (sample_mask surfaces (dco_mask command) msk bounds) (\<lambda>coverage.
     and_then (apply_pixels bounds (db_clip base) coverage (\<lambda>index old.
         and_then (index_at (sp_pixels sampled) index) (\<lambda>s.
         Inr (apply_binary_rop (dco_rop_descriptor command) s old RopInput_Source RopInput_Destination))) destination) (\<lambda>destination.
     Inr (surfaces(db_surface_id base \<mapsto> destination))))))))"

definition render_opaque :: "surfaces \<Rightarrow> DrawOpaque \<Rightarrow> PreparedCompositeImage \<Rightarrow> PreparedCompositeImage option \<Rightarrow>
    PreparedCompositeImage option \<Rightarrow> surfaces client" where
  "render_opaque surfaces command source pattern msk =
     and_then (validate_rop_descriptor (dop_rop_descriptor command)) (\<lambda>_.
     let base = dop_base command in
     and_then (surface_for_update surfaces (db_surface_id base)) (\<lambda>destination.
     and_then (SurfaceData_rect_bounds destination (db_destination base)) (\<lambda>bounds.
     and_then (sample_source surfaces source (dis_area (dop_source command)) (dis_scale_mode (dop_source command))
         (bo_width bounds) (bo_height bounds)) (\<lambda>sampled.
     and_then (sample_brush surfaces (dop_brush command) pattern (db_destination base) bounds (su_format destination)) (\<lambda>brush.
     and_then (sample_mask surfaces (dop_mask command) msk bounds) (\<lambda>coverage.
     and_then (apply_pixels bounds (db_clip base) coverage (\<lambda>index _.
         and_then (index_at (sp_pixels brush) index) (\<lambda>b.
         and_then (index_at (sp_pixels sampled) index) (\<lambda>s.
         Inr (apply_binary_rop (dop_rop_descriptor command) b s RopInput_Brush RopInput_Source)))) destination) (\<lambda>destination.
     Inr (surfaces(db_surface_id base \<mapsto> destination)))))))))"

definition render_masked_destination :: "surfaces \<Rightarrow> DrawMaskedDestination \<Rightarrow> PreparedCompositeImage option \<Rightarrow>
    MaskedDestinationOperation \<Rightarrow> surfaces client" where
  "render_masked_destination surfaces command msk operation =
     (let base = dmd_base command in
     and_then (surface_for_update surfaces (db_surface_id base)) (\<lambda>destination.
     and_then (SurfaceData_rect_bounds destination (db_destination base)) (\<lambda>bounds.
     and_then (sample_mask surfaces (dmd_mask command) msk bounds) (\<lambda>coverage.
     and_then (apply_pixels bounds (db_clip base) coverage (\<lambda>_ old.
         Inr (case operation of MaskedDestination_Blackness \<Rightarrow> 0 | MaskedDestination_Whiteness \<Rightarrow> -1
              | MaskedDestination_Invert \<Rightarrow> NOT old)) destination) (\<lambda>destination.
     Inr (surfaces(db_surface_id base \<mapsto> destination)))))))"

definition render_rop3 :: "surfaces \<Rightarrow> DrawRop3 \<Rightarrow> PreparedCompositeImage \<Rightarrow> PreparedCompositeImage option \<Rightarrow>
    PreparedCompositeImage option \<Rightarrow> surfaces client" where
  "render_rop3 surfaces command source pattern msk =
     (let base = dr3_base command in
     and_then (surface_for_update surfaces (db_surface_id base)) (\<lambda>destination.
     and_then (SurfaceData_rect_bounds destination (db_destination base)) (\<lambda>bounds.
     and_then (sample_source surfaces source (dis_area (dr3_source command)) (dis_scale_mode (dr3_source command))
         (bo_width bounds) (bo_height bounds)) (\<lambda>sampled.
     and_then (sample_brush surfaces (dr3_brush command) pattern (db_destination base) bounds (su_format destination)) (\<lambda>brush.
     and_then (sample_mask surfaces (dr3_mask command) msk bounds) (\<lambda>coverage.
     and_then (apply_pixels bounds (db_clip base) coverage (\<lambda>index old.
         and_then (index_at (sp_pixels brush) index) (\<lambda>p.
         and_then (index_at (sp_pixels sampled) index) (\<lambda>s.
         Inr (apply_rop3 (dr3_rop3 command) p s old)))) destination) (\<lambda>destination.
     Inr (surfaces(db_surface_id base \<mapsto> destination)))))))))"

definition render_transparent :: "surfaces \<Rightarrow> DrawTransparent \<Rightarrow> PreparedCompositeImage \<Rightarrow> surfaces client" where
  "render_transparent surfaces command source =
     (let base = dtr_base command in
     and_then (surface_for_update surfaces (db_surface_id base)) (\<lambda>destination.
     and_then (SurfaceData_rect_bounds destination (db_destination base)) (\<lambda>bounds.
     and_then (sample_source surfaces source (dtr_source_area command) 1 (bo_width bounds) (bo_height bounds)) (\<lambda>sampled.
     let transparent = bgrx_to_rgba_word (dtr_transparent_color command) SurfaceFormat_Xrgb32 in
     and_then (apply_pixels bounds (db_clip base) None (\<lambda>index old.
         and_then (index_at (sp_pixels sampled) index) (\<lambda>s.
         Inr (if take 3 (word_bytes s) = take 3 (word_bytes transparent) then old else s))) destination) (\<lambda>destination.
     Inr (surfaces(db_surface_id base \<mapsto> destination)))))))"

definition render_alpha_blend :: "surfaces \<Rightarrow> DrawAlphaBlend \<Rightarrow> PreparedCompositeImage \<Rightarrow> surfaces client" where
  "render_alpha_blend surfaces command source =
     (let base = dab_base command in
     and_then (surface_for_update surfaces (db_surface_id base)) (\<lambda>destination.
     and_then (SurfaceData_rect_bounds destination (db_destination base)) (\<lambda>bounds.
     and_then (sample_source surfaces source (dab_source_area command) 1 (bo_width bounds) (bo_height bounds)) (\<lambda>sampled.
     let source_has_alpha = (sp_format sampled = SurfaceFormat_Argb32 \<or> sp_format sampled = SurfaceFormat_A8 \<or>
           dab_source_surface_has_alpha command) in
     and_then (apply_pixels bounds (db_clip base) None (\<lambda>index old.
         and_then (index_at (sp_pixels sampled) index) (\<lambda>s.
         alpha_blend_word s old (dab_alpha command) source_has_alpha (dab_destination_has_alpha command))) destination) (\<lambda>destination.
     Inr (surfaces(db_surface_id base \<mapsto> destination)))))))"

text \<open>The background of a text is written before the glyphs are sampled.\<close>

definition render_text_background :: "surfaces \<Rightarrow> DrawText \<Rightarrow> PreparedCompositeImage option \<Rightarrow> Bounds \<Rightarrow> SurfaceData \<Rightarrow> SurfaceData client" where
  "render_text_background surfaces command background_pattern background_bounds destination =
     (if dt_background_brush command = DisplayBrush_None then Inr destination
      else
      and_then (sample_brush surfaces (dt_background_brush command) background_pattern (dt_background_area command)
          background_bounds (su_format destination)) (\<lambda>brush.
      apply_pixels background_bounds (db_clip (dt_base command)) None (\<lambda>index old.
        and_then (index_at (sp_pixels brush) index) (\<lambda>b.
        Inr (apply_binary_rop (dt_background_rop command) b old RopInput_Brush RopInput_Destination))) destination))"

definition render_text :: "surfaces \<Rightarrow> DrawText \<Rightarrow> PreparedCompositeImage option \<Rightarrow> PreparedCompositeImage option \<Rightarrow> surfaces client" where
  "render_text surfaces command foreground_pattern background_pattern =
     and_then (validate_rop_descriptor (dt_foreground_rop command)) (\<lambda>_.
     and_then (validate_rop_descriptor (dt_background_rop command)) (\<lambda>_.
     let base = dt_base command in
     and_then (surface_for_update surfaces (db_surface_id base)) (\<lambda>destination.
     and_then (SurfaceData_rect_bounds destination (db_destination base)) (\<lambda>glyph_bounds.
     and_then (SurfaceData_rect_bounds destination (dt_background_area command)) (\<lambda>background_bounds.
     and_then (render_text_background surfaces command background_pattern background_bounds destination) (\<lambda>destination.
     let surfaces = surfaces(db_surface_id base \<mapsto> destination);
         foreground_brush_kind = (if dt_foreground_brush command = DisplayBrush_None then DisplayBrush_Solid 0
           else dt_foreground_brush command) in
     and_then (sample_brush surfaces foreground_brush_kind foreground_pattern (db_destination base) glyph_bounds
         (su_format destination)) (\<lambda>brush.
     and_then (rasterize_glyphs (dt_text command) glyph_bounds) (\<lambda>glyph_coverage.
     and_then (apply_pixels glyph_bounds (db_clip base) (Some glyph_coverage) (\<lambda>index old.
         and_then (index_at (sp_pixels brush) index) (\<lambda>b.
         let raster = apply_binary_rop (dt_foreground_rop command) b old RopInput_Brush RopInput_Destination in
         and_then (index_at glyph_coverage index) (\<lambda>c.
         blend_coverage raster old c))) destination) (\<lambda>destination.
     Inr (surfaces(db_surface_id base \<mapsto> destination)))))))))))"

end
