(* ===== verification/Client_CanvasExact.thy ===== *)
theory Client_CanvasExact
  imports Client_Canvas
begin

text \<open>
  What the canvas draws. Raster operations are compared bit by bit with their truth tables; blending and
  interpolation are shown to fit their machine integers and to stay between the colours they mix; every
  brush, mask, source and glyph coverage has one value for every destination pixel. The locale of pixel
  loops is interpreted on \<open>apply_pixels\<close>, so that each drawing command is characterised exactly: the
  selected pixels of its destination are rewritten from their own old value, and nothing else changes.
  The decoders of the commands refuse the empty source rectangles on which the scaling would panic, so a
  command that comes from the wire never panics.
\<close>

section \<open>Raster operations, bit by bit\<close>

lemma and_power_zero: "(w AND push_bit k 1 = 0) \<longleftrightarrow> \<not> bit w k" for w :: "'a::len word"
  by (metis and_exp_eq_0_iff_not_bit push_bit_of_1)

lemma bit_apply_rop3_term:
  assumes "i < 32"
  shows "bit (apply_rop3_term code pattern source destination result k) i \<longleftrightarrow> bit result i \<or> bit code k \<and>
    bit pattern i = bit (of_nat k :: u8) 2 \<and> bit source i = bit (of_nat k :: u8) 1 \<and> bit destination i = bit (of_nat k :: u8) 0"
  using assms and_power_zero [of code k] and_power_zero [of "of_nat k :: u8" 2] and_power_zero [of "of_nat k :: u8" 1]
    and_power_zero [of "of_nat k :: u8" 0]
  by (simp add: apply_rop3_term_def Let_def bit_simps)

text \<open>C37: the eight-bit ROP3 code is the truth table it stands for. Bit \<open>i\<close> of the result is the bit of the
  code at the index formed by bit \<open>i\<close> of the pattern, of the source and of the destination.\<close>

theorem apply_rop3_truth_table:
  "bit (apply_rop3 code pattern source destination) i = (i < 32 \<and>
     bit code (4 * of_bool (bit pattern i) + 2 * of_bool (bit source i) + of_bool (bit destination i)))"
proof (cases "i < 32")
  case True
  have "[0..<8] = [0, 1, 2, 3, 4, 5, 6, 7 :: nat]" by (simp add: upt_rec)
  moreover have "bit (1 :: u8) 2 = False" "bit (2 :: u8) 2 = False" "bit (3 :: u8) 2 = False" "bit (1 :: u8) 1 = False"
    "bit (4 :: u8) 1 = False" "bit (5 :: u8) 1 = False" by (simp_all add: bit_iff_odd)
  ultimately show ?thesis
    using True by (cases "bit pattern i"; cases "bit source i"; cases "bit destination i")
      (simp_all add: apply_rop3_def bit_apply_rop3_term bit_iff_odd [of "_ :: u8"] del: upt_Suc)
qed (auto dest: bit_imp_le_length)

section \<open>Blending\<close>

lemma length_word_bytes [simp]: "length (word_bytes w) = 4"
  by (simp add: word_bytes_def)

lemma blend_bound:
  fixes s d a u :: nat
  assumes "a \<le> u" "s \<le> m" "d \<le> m"
  shows "s * a + d * (u - a) \<le> m * u"
proof -
  have "s * a + d * (u - a) \<le> m * a + m * (u - a)" using assms by (intro add_mono mult_le_mono1) simp_all
  also have "\<dots> = m * u" using assms(1) by (simp flip: add_mult_distrib2)
  finally show ?thesis .
qed

lemma blend_bound_below:
  fixes s d a u :: nat
  assumes "a \<le> u" "m \<le> s" "m \<le> d"
  shows "m * u \<le> s * a + d * (u - a)"
proof -
  have "m * u = m * a + m * (u - a)" using assms(1) by (simp flip: add_mult_distrib2)
  also have "\<dots> \<le> s * a + d * (u - a)" using assms by (intro add_mono mult_le_mono1) simp_all
  finally show ?thesis .
qed

lemma unat_u8_le: "unat (b :: u8) \<le> 255"
  using unat_u8_less [of b] by simp

text \<open>No sum overflows, and the mix lies between the two channels.\<close>

lemma blend_channel_eq:
  assumes "a \<le> 255"
  shows "\<exists>v. blend_channel s d a (255 - a) = Inr v \<and>
    unat v = (unat s * a + unat d * (255 - a) + 127) div 255 \<and> min (unat s) (unat d) \<le> unat v \<and> unat v \<le> max (unat s) (unat d)"
proof -
  let ?x = "unat s * a + unat d * (255 - a)"
  have up: "?x \<le> max (unat s) (unat d) * 255" by (rule blend_bound [OF assms]) simp_all
  have lo: "min (unat s) (unat d) * 255 \<le> ?x" by (rule blend_bound_below [OF assms]) simp_all
  have m: "max (unat s) (unat d) \<le> 255" using unat_u8_le by simp
  have x: "?x \<le> 65025" using up m by linarith
  have q: "(?x + 127) div 255 \<le> max (unat s) (unat d)" using up by linarith
  have r: "min (unat s) (unat d) \<le> (?x + 127) div 255" using lo by linarith
  have "unat s * a \<le> ?x" "unat d * (255 - a) \<le> ?x" by simp_all
  then have "unat s * a < 65536" "unat d * (255 - a) < 65536" using x by linarith+
  with x q r m show ?thesis by (simp add: blend_channel_def u16_value_def u8_try_from_def unat_of_nat)
qed

lemma upt_3_4: "[0..<4] = [0, 1, 2, 3 :: nat]" "[0..<3] = [0, 1, 2 :: nat]"
  by (simp_all add: upt_rec)

lemma replicate_4: "replicate 4 x = [x, x, x, x]"
  by (simp add: eval_nat_numeral)

lemma word_bytes_cases:
  obtains a b c d where "word_bytes w = [a, b, c, d]"
proof -
  have "length xs = 4 \<Longrightarrow> \<exists>a b c d. xs = [a, b, c, d]" for xs :: "u8 list"
    by (auto simp: length_Suc_conv eval_nat_numeral)
  with length_word_bytes [of w] that show ?thesis by blast
qed

text \<open>The value of \<open>blend_channel\<close>, as a function.\<close>

definition mix :: "nat \<Rightarrow> u8 \<Rightarrow> u8 \<Rightarrow> u8" where
  "mix a s d = of_nat ((unat s * a + unat d * (255 - a) + 127) div 255)"

lemma blend_channel_mix:
  assumes "a \<le> 255"
  shows "blend_channel s d a (255 - a) = Inr (mix a s d)"
    "min (unat s) (unat d) \<le> unat (mix a s d)" "unat (mix a s d) \<le> max (unat s) (unat d)"
proof -
  obtain v where v: "blend_channel s d a (255 - a) = Inr v" "unat v = (unat s * a + unat d * (255 - a) + 127) div 255"
    "min (unat s) (unat d) \<le> unat v" "unat v \<le> max (unat s) (unat d)"
    using blend_channel_eq [OF assms] by blast
  have "v = mix a s d" unfolding mix_def v(2) [symmetric] by simp
  with v(1,3,4) show "blend_channel s d a (255 - a) = Inr (mix a s d)"
    "min (unat s) (unat d) \<le> unat (mix a s d)" "unat (mix a s d) \<le> max (unat s) (unat d)" by simp_all
qed

lemma blend_coverage_eq:
  "blend_coverage source destination coverage =
     Inr (from_le (map2 (mix (unat coverage)) (word_bytes source) (word_bytes destination)))"
proof -
  obtain a b c d where s: "word_bytes source = [a, b, c, d]"
    by (rule word_bytes_cases)
  obtain a' b' c' d' where d: "word_bytes destination = [a', b', c', d']"
    by (rule word_bytes_cases)
  show ?thesis
    using unat_u8_le [of coverage]
    by (simp add: blend_coverage_def Let_def s d upt_3_4 replicate_4 blend_channel_mix(1))
qed

lemma mix_endpoints [simp]: "mix 255 s d = s" "mix 0 s d = d"
  by (simp_all add: mix_def)

definition blend_alpha :: "u32 \<Rightarrow> u8 \<Rightarrow> bool \<Rightarrow> nat" where
  "blend_alpha source global_alpha source_has_alpha =
     ((if source_has_alpha then unat (word_bytes source ! 3) else 255) * unat global_alpha + 127) div 255"

lemma blend_alpha_le:
  "(if source_has_alpha then unat (word_bytes source ! 3) else 255) * unat global_alpha \<le> 65025"
  "blend_alpha source global_alpha source_has_alpha \<le> 255"
proof -
  have "(if source_has_alpha then unat (word_bytes source ! 3) else 255) * unat global_alpha \<le> 255 * 255"
    using unat_u8_le by (intro mult_le_mono) simp_all
  then show "(if source_has_alpha then unat (word_bytes source ! 3) else 255) * unat global_alpha \<le> 65025"
    "blend_alpha source global_alpha source_has_alpha \<le> 255"
    unfolding blend_alpha_def by simp_all
qed

text \<open>Blending never overflows its 16-bit arithmetic, and its channels are the mixes.\<close>

lemma alpha_blend_word_eq:
  "\<exists>v. alpha_blend_word source destination global_alpha source_has_alpha destination_has_alpha =
     Inr (from_le (map2 (mix (blend_alpha source global_alpha source_has_alpha)) (take 3 (word_bytes source))
       (take 3 (word_bytes destination)) @ [v]))"
proof -
  let ?a = "blend_alpha source global_alpha source_has_alpha"
  obtain a b c d where s: "word_bytes source = [a, b, c, d]"
    by (rule word_bytes_cases)
  obtain a' b' c' d' where d: "word_bytes destination = [a', b', c', d']"
    by (rule word_bytes_cases)
  define m where "m = (if source_has_alpha then unat (word_bytes source ! 3) else 255) * unat global_alpha"
  have m: "m \<le> 65025" "?a = (m + 127) div 255" "?a \<le> 255"
    using blend_alpha_le by (simp_all only: m_def blend_alpha_def)
  have le: "unat d' * (255 - ?a) \<le> 255 * (255 - ?a)" using unat_u8_le by (intro mult_le_mono1)
  then have q: "?a + (unat d' * (255 - ?a) + 127) div 255 \<le> 255" "unat d' * (255 - ?a) \<le> 65025" using m(3) by linarith+
  have "alpha_blend_word source destination global_alpha source_has_alpha destination_has_alpha =
      Inr (from_le [mix ?a a a', mix ?a b b', mix ?a c c',
        if destination_has_alpha then of_nat (?a + (unat d' * (255 - ?a) + 127) div 255) else -1])"
    unfolding alpha_blend_word_def Let_def m_def [symmetric]
    using m(1,3) q by (simp add: m(2) [symmetric] s d upt_3_4 replicate_4 u16_value_def u8_try_from_def blend_channel_mix(1))
  then show ?thesis by (auto simp: s d)
qed

section \<open>Scaling\<close>

lemma interpolate_channel_eq:
  assumes "fx \<le> UNIT" "fy \<le> UNIT"
  shows "\<exists>v. interpolate_channel fx fy a b c d = Inr v"
proof -
  let ?top = "unat a * (UNIT - fx) + unat b * fx" and ?bottom = "unat c * (UNIT - fx) + unat d * fx"
  have "?top \<le> 255 * UNIT" "?bottom \<le> 255 * UNIT"
    using blend_bound [OF assms(1), of "unat b" 255 "unat a"] blend_bound [OF assms(1), of "unat d" 255 "unat c"] unat_u8_le
    by (simp_all add: add.commute)
  from blend_bound [OF assms(2) this(2,1)] have "?top * (UNIT - fy) + ?bottom * fy \<le> 255 * UNIT * UNIT"
    by (simp add: add.commute)
  then have "(?top * (UNIT - fy) + ?bottom * fy + UNIT * UNIT div 2) div (UNIT * UNIT) < 256" by simp
  then show ?thesis by (simp only: interpolate_channel_def Let_def u8_try_from_def) simp
qed

lemma centered_source_coordinate_less:
  assumes "centered_source_coordinate c n m = Inr f" "c < n" "0 < m"
  shows "f div UNIT < m" "f mod UNIT \<le> UNIT"
proof -
  from assms(1) have f: "f = (c * 2 + 1) * m * UNIT div (n * 2) - UNIT div 2"
    by (auto simp: centered_source_coordinate_def Option.bind_eq_Some_conv split: if_splits)
  have "(c * 2 + 1) * (m * UNIT) < (n * 2) * (m * UNIT)" using assms(2,3) by (intro mult_strict_right_mono) auto
  then have "(c * 2 + 1) * m * UNIT < m * UNIT * (n * 2)" by (simp only: ac_simps)
  moreover have "0 < n * 2" using assms(2) by simp
  ultimately have "(c * 2 + 1) * m * UNIT div (n * 2) < m * UNIT" by (simp only: div_less_iff_less_mult)
  then have "f < m * UNIT" using f by linarith
  then show "f div UNIT < m" by (subst div_less_iff_less_mult) simp_all
  show "f mod UNIT \<le> UNIT" by simp
qed

lemma no_panic_centered [no_panic_intros]: "0 < n \<Longrightarrow> no_panic (centered_source_coordinate c n m)"
  unfolding centered_source_coordinate_def by (intro no_panic_intros) auto

text \<open>An image that has all its pixels, and a rectangle inside it.\<close>

definition image_ok :: "u32 \<Rightarrow> u32 \<Rightarrow> u32 list \<Rightarrow> bool" where
  "image_ok width height pixels \<longleftrightarrow> length pixels = unat width * unat height"

definition image_bounds :: "nat \<Rightarrow> u32 list \<Rightarrow> Bounds \<Rightarrow> bool" where
  "image_bounds width pixels b \<longleftrightarrow> bo_x b + bo_width b \<le> width \<and> 0 < bo_width b \<and> 0 < bo_height b \<and>
     (\<exists>height. length pixels = width * height \<and> bo_y b + bo_height b \<le> height)"

lemma image_bounds_index:
  assumes "image_bounds width pixels b" "x < bo_width b" "y < bo_height b"
  shows "(bo_y b + y) * width + bo_x b + x < length pixels"
proof -
  from assms(1) obtain height where h: "length pixels = width * height" "bo_y b + bo_height b \<le> height"
    and w: "bo_x b + bo_width b \<le> width" by (auto simp: image_bounds_def)
  from pixel_index_less [of "bo_x b + x" width "bo_y b + y" height] h w assms(2,3) show ?thesis by simp
qed

lemma no_panic_interpolate_pixel:
  assumes b: "image_bounds width pixels b" and xy: "x < ow" "y < oh"
  shows "no_panic (interpolate_pixel pixels width b x y ow oh)"
proof -
  have pos: "0 < bo_width b" "0 < bo_height b" using b by (simp_all add: image_bounds_def)
  have total: "\<exists>w. interpolate_pixel pixels width b x y ow oh = Inr w"
    if fx: "centered_source_coordinate x ow (bo_width b) = Inr fx" and fy: "centered_source_coordinate y oh (bo_height b) = Inr fy" for fx fy
  proof -
    note cx = centered_source_coordinate_less [OF fx xy(1) pos(1)] and cy = centered_source_coordinate_less [OF fy xy(2) pos(2)]
    let ?x0 = "fx div UNIT" and ?y0 = "fy div UNIT"
    let ?x1 = "min (?x0 + 1) (bo_width b - 1)" and ?y1 = "min (?y0 + 1) (bo_height b - 1)"
    have "?x1 < bo_width b" "?y1 < bo_height b" using pos by simp_all
    note i = image_bounds_index [OF b cx(1) cy(1)] image_bounds_index [OF b this(1) cy(1)]
      image_bounds_index [OF b cx(1) this(2)] image_bounds_index [OF b this]
    obtain v where "\<And>p q r s. interpolate_channel (fx mod UNIT) (fy mod UNIT) p q r s = Inr (v p q r s)"
      using interpolate_channel_eq [OF cx(2) cy(2)] by metis
    then show ?thesis
      using fx fy pos i by (simp add: interpolate_pixel_def Let_def upt_3_4 del: UNIT_def)
  qed
  have np: "no_panic (centered_source_coordinate x ow (bo_width b))" "no_panic (centered_source_coordinate y oh (bo_height b))"
    using xy by (auto intro: no_panic_intros)
  show ?thesis
  proof (cases "centered_source_coordinate x ow (bo_width b)")
    case (Inl e)
    with np(1) show ?thesis by (simp add: interpolate_pixel_def no_panic_def)
  next
    case fx: (Inr fx)
    show ?thesis
    proof (cases "centered_source_coordinate y oh (bo_height b)")
      case (Inl e)
      with fx np(2) show ?thesis by (simp add: interpolate_pixel_def no_panic_def)
    next
      case (Inr fy)
      from total [OF fx this] show ?thesis by (auto simp: no_panic_def)
    qed
  qed
qed

text \<open>Loops that append to a list: every turn adds \<open>k\<close> elements or reports an error.\<close>

definition grows :: "nat \<Rightarrow> ('i \<Rightarrow> 'a list \<Rightarrow> ('e, 'a list) outcome) \<Rightarrow> 'i list \<Rightarrow> bool" where
  "grows k f is \<longleftrightarrow> (\<forall>i \<in> set is. \<forall>out. no_panic (f i out) \<and> (\<forall>out'. f i out = Inr out' \<longrightarrow> length out' = length out + k))"

lemma grows_loop:
  assumes "grows k f is"
  shows "no_panic (for_each f is out)" "for_each f is out = Inr out' \<Longrightarrow> length out' = length out + k * length is"
proof -
  have "no_panic (for_each f is out) \<and> (\<forall>out'. for_each f is out = Inr out' \<longrightarrow> length out' = length out + k * length is)"
    using assms
  proof (induction "is" arbitrary: out)
    case (Cons i "is")
    then have "grows k f is" by (simp add: grows_def)
    from Cons.IH [OF this] have ih: "no_panic (for_each f is out)"
      "for_each f is out = Inr out' \<Longrightarrow> length out' = length out + k * length is" for out out' by blast+
    have i: "no_panic (f i out)" "f i out = Inr out' \<Longrightarrow> length out' = length out + k" for out out'
      using Cons.prems unfolding grows_def by simp_all
    have "length out' = length out + k * length (i # is)" if r: "for_each f (i # is) out = Inr out'" for out'
    proof -
      from r obtain out1 where "f i out = Inr out1" "for_each f is out1 = Inr out'" by auto
      with i(2) ih(2) show ?thesis by simp
    qed
    then show ?case using i(1) ih(1) by (simp add: no_panic_and_then)
  qed simp
  then show "no_panic (for_each f is out)" "for_each f is out = Inr out' \<Longrightarrow> length out' = length out + k * length is" by blast+
qed

lemma grows_push: "(\<And>i. i \<in> set is \<Longrightarrow> no_panic (f i)) \<Longrightarrow> grows 1 (\<lambda>i out. and_then (f i) (\<lambda>w. Inr (out @ [w]))) is"
  by (auto simp: grows_def intro!: no_panic_and_then)

lemma grows_nested:
  assumes "\<And>i. i \<in> set is \<Longrightarrow> no_panic (g i)" "\<And>i v. i \<in> set is \<Longrightarrow> g i = Inr v \<Longrightarrow> grows k (f i v) js"
  shows "grows (k * length js) (\<lambda>i out. and_then (g i) (\<lambda>v. for_each (f i v) js out)) is"
  using assms by (auto simp: grows_def [of "k * length js"] intro!: no_panic_and_then grows_loop(1) dest: grows_loop(2))

lemma no_panic_scale_pixel:
  assumes b: "image_bounds width pixels b" and "fst i < oh" "snd i < ow"
  shows "no_panic (scale_pixel pixels width b ow oh mode i)"
proof (cases i)
  case (Pair y x)
  have "x * bo_width b div ow < bo_width b" "y * bo_height b div oh < bo_height b"
    using assms nearest_less [of x ow] nearest_less [of y oh] by (simp_all add: image_bounds_def Pair)
  from image_bounds_index [OF b this] have "index_at pixels ((bo_y b + y * bo_height b div oh) * width + (bo_x b + x * bo_width b div ow)) \<noteq> Inl Panic"
    by (simp add: add.assoc)
  then show ?thesis
    using no_panic_interpolate_pixel [OF b, of x ow y oh] assms(2,3)
    unfolding scale_pixel_def Pair prod.case Let_def by (intro no_panic_intros) (auto simp: no_panic_def)
qed

lemma scale_pixels_ok:
  assumes b: "image_bounds width pixels b"
  shows "no_panic (scale_pixels pixels width b ow oh mode)"
    "scale_pixels pixels width b ow oh mode = Inr out \<Longrightarrow> length out = ow * oh"
proof -
  let ?f = "\<lambda>i out. and_then (scale_pixel pixels width b ow oh mode i) (\<lambda>w. Inr (out @ [w]))"
  have g: "grows 1 ?f (List.product [0..<oh] [0..<ow])"
    using no_panic_scale_pixel [OF b] by (intro grows_push) auto
  have e: "scale_pixels pixels width b ow oh mode = and_then (ok_or (resource_limit_error STR ''Canvas scaled pixels'') (usize_checked_mul ow oh))
      (\<lambda>_. for_each ?f (List.product [0..<oh] [0..<ow]) [])"
    by (simp add: scale_pixels_def flip: for_each_nested)
  show "no_panic (scale_pixels pixels width b ow oh mode)"
    unfolding e by (intro no_panic_intros grows_loop(1) [OF g])
  show "scale_pixels pixels width b ow oh mode = Inr out \<Longrightarrow> length out = ow * oh"
    using grows_loop(2) [OF g] unfolding e by (auto simp: length_product mult.commute)
qed

section \<open>Images, brushes and masks have one value for every destination pixel\<close>

definition surfaces_ok :: "surfaces \<Rightarrow> bool" where
  "surfaces_ok m \<longleftrightarrow> (\<forall>k s. m k = Some s \<longrightarrow> surface_ok s)"

definition prepared_ok :: "PreparedCompositeImage \<Rightarrow> bool" where
  "prepared_ok p = (case p of PreparedComposite_Surface _ \<Rightarrow> True
     | PreparedComposite_Pixels q \<Rightarrow> image_ok (oc_width q) (oc_height q) (oc_pixels q))"

definition area_nonempty :: "Rect \<Rightarrow> bool" where
  "area_nonempty r \<longleftrightarrow> rect_right r \<noteq> rect_left r \<and> rect_bottom r \<noteq> rect_top r"

lemma surfaces_ok_update: "surfaces_ok m \<Longrightarrow> surface_ok s \<Longrightarrow> surfaces_ok (m(k \<mapsto> s))"
  by (simp add: surfaces_ok_def)

lemma surface_for_update_ok: "surfaces_ok m \<Longrightarrow> surface_for_update m k = Inr s \<Longrightarrow> m k = Some s \<and> surface_ok s"
  by (auto simp: surface_for_update_def surfaces_ok_def)

lemma no_panic_surface_for_update [no_panic_intros]: "no_panic (surface_for_update m k)"
  by (simp add: surface_for_update_def)

lemma inspect_prepared_ok:
  assumes "surfaces_ok m" "prepared_ok p"
  shows "(\<And>fmt w h px. image_ok w h px \<Longrightarrow> no_panic (f fmt w h px)) \<Longrightarrow> no_panic (inspect_prepared m p f)"
    "inspect_prepared m p f = Inr v \<Longrightarrow> \<exists>fmt w h px. image_ok w h px \<and> f fmt w h px = Inr v"
proof -
  have s: "image_ok (su_width s) (su_height s) (su_pixels s)" if "surface_for_update m k = Inr s" for k s
    using surface_for_update_ok [OF assms(1) that] unfolding image_ok_def surface_ok_def by blast
  have q: "p = PreparedComposite_Pixels q \<Longrightarrow> image_ok (oc_width q) (oc_height q) (oc_pixels q)" for q
    using assms(2) by (simp add: prepared_ok_def)
  show "(\<And>fmt w h px. image_ok w h px \<Longrightarrow> no_panic (f fmt w h px)) \<Longrightarrow> no_panic (inspect_prepared m p f)"
    unfolding inspect_prepared_def inspect_surface_def using s q
    by (cases p) (auto intro!: no_panic_intros)
  show "inspect_prepared m p f = Inr v \<Longrightarrow> \<exists>fmt w h px. image_ok w h px \<and> f fmt w h px = Inr v"
    unfolding inspect_prepared_def inspect_surface_def using s q
    by (cases p) (fastforce split: if_splits)+
qed

lemma image_bounds_rect:
  assumes "image_ok w h px" "image_rect_bounds area w h = Inr b" "area_nonempty area"
  shows "image_bounds (unat w) px b"
proof -
  note i = image_rect_bounds_Inr [OF assms(2)]
  have "bo_width b \<noteq> 0" "bo_height b \<noteq> 0" using i(5,6) assms(3) by (simp_all add: area_nonempty_def unat_eq_0)
  then show ?thesis using i(3,4) assms(1) unfolding image_bounds_def image_ok_def by blast
qed

lemma no_panic_image_rect_bounds [no_panic_intros]: "no_panic (image_rect_bounds rect w h)"
  unfolding image_rect_bounds_def Let_def Rect_width_def Rect_height_def by (intro no_panic_intros)

lemma sample_source_ok:
  assumes "surfaces_ok m" "prepared_ok p" "area_nonempty area"
  shows "no_panic (sample_source m p area mode ow oh)"
    "sample_source m p area mode ow oh = Inr sp \<Longrightarrow> length (sp_pixels sp) = ow * oh"
proof -
  note b = image_bounds_rect [OF _ _ assms(3)]
  show "no_panic (sample_source m p area mode ow oh)"
    unfolding sample_source_def by (intro inspect_prepared_ok(1) [OF assms(1,2)] no_panic_intros scale_pixels_ok(1) b)
  show "length (sp_pixels sp) = ow * oh" if "sample_source m p area mode ow oh = Inr sp"
    using inspect_prepared_ok(2) [OF assms(1,2) that [unfolded sample_source_def]] scale_pixels_ok(2) [OF b] by auto
qed

lemma pattern_coordinate_ok:
  assumes "0 < len" "len < 2 ^ 63"
  shows "no_panic (pattern_coordinate o1 l p len ctx)" "pattern_coordinate o1 l p len ctx = Inr v \<Longrightarrow> v < len"
  using assms by (auto simp: pattern_coordinate_def i64_try_from_def nat_less_iff intro!: no_panic_intros)

lemma sample_pattern_ok:
  assumes "image_ok w h px"
  shows "no_panic (sample_pattern w h px p d b)"
    "sample_pattern w h px p d b = Inr out \<Longrightarrow> length out = bo_width b * bo_height b"
proof -
  let ?f = "\<lambda>y pattern_y x. and_then (pattern_coordinate (rect_left d) x (pt_x p) (unat w) STR ''Canvas pattern x'') (\<lambda>pattern_x.
      index_at px (pattern_y * unat w + pattern_x))"
  let ?g = "\<lambda>y. pattern_coordinate (rect_top d) y (pt_y p) (unat h) STR ''Canvas pattern y''"
  have lim: "unat w < 2 ^ 63" "unat h < 2 ^ 63" using unat_u32_less [of w] unat_u32_less [of h] by simp_all
  have "no_panic (?f y py x)" if "unat w \<noteq> 0" "py < unat h" for y :: nat and py x
  proof (rule no_panic_and_then)
    show "no_panic (pattern_coordinate (rect_left d) x (pt_x p) (unat w) STR ''Canvas pattern x'')"
      using that lim(1) by (intro pattern_coordinate_ok(1)) simp_all
    fix c
    assume "pattern_coordinate (rect_left d) x (pt_x p) (unat w) STR ''Canvas pattern x'' = Inr c"
    moreover have "0 < unat w" using that(1) by simp
    ultimately have "c < unat w" using pattern_coordinate_ok(2) lim(1) by blast
    then show "no_panic (index_at px (py * unat w + c))"
      using pixel_index_less [of c "unat w" py "unat h"] that assms by (simp add: image_ok_def)
  qed
  then have "grows 1 (\<lambda>x out. and_then (?f y py x) (\<lambda>w. Inr (out @ [w]))) [0..<bo_width b]"
    if "unat w \<noteq> 0" "py < unat h" for y :: nat and py
    using that by (intro grows_push) blast
  then have g: "grows (1 * length [0..<bo_width b]) (\<lambda>y out. and_then (?g y) (\<lambda>py.
      for_each (\<lambda>x out. and_then (?f y py x) (\<lambda>w. Inr (out @ [w]))) [0..<bo_width b] out)) [0..<bo_height b]"
    if "unat w \<noteq> 0" "unat h \<noteq> 0"
    using that pattern_coordinate_ok [OF _ lim(2)] by (intro grows_nested) auto
  show "no_panic (sample_pattern w h px p d b)"
    unfolding sample_pattern_def Let_def
    using grows_loop(1) [OF g] by (intro no_panic_intros) (auto simp: and_then_assoc)
  show "sample_pattern w h px p d b = Inr out \<Longrightarrow> length out = bo_width b * bo_height b"
    unfolding sample_pattern_def Let_def
    using grows_loop(2) [OF g] by (auto simp: and_then_assoc split: if_splits)
qed

lemma sample_brush_ok:
  assumes "surfaces_ok m" "pred_option prepared_ok pattern"
  shows "no_panic (sample_brush m brush pattern d b fmt)"
    "sample_brush m brush pattern d b fmt = Inr sp \<Longrightarrow> length (sp_pixels sp) = bo_width b * bo_height b"
proof -
  have p: "prepared_ok q" if "ok_or e pattern = Inr q" for q and e :: ClientError
    using that assms(2) by (cases pattern) simp_all
  show "no_panic (sample_brush m brush pattern d b fmt)"
    unfolding sample_brush_def
    by (cases brush) (auto intro!: no_panic_intros inspect_prepared_ok(1) [OF assms(1)] sample_pattern_ok(1) dest: p)
  show "length (sp_pixels sp) = bo_width b * bo_height b" if "sample_brush m brush pattern d b fmt = Inr sp"
  proof (cases brush)
    case (DisplayBrush_Pattern i pos)
    with that obtain q where q: "pattern = Some q" "inspect_prepared m q (\<lambda>format width height pixels.
         and_then (sample_pattern width height pixels pos d b) (\<lambda>sampled.
         Inr \<lparr>sp_format = format, sp_pixels = sampled\<rparr>)) = Inr sp"
      by (auto simp: sample_brush_def)
    from inspect_prepared_ok(2) [OF assms(1) _ q(2)] q(1) assms(2) sample_pattern_ok(2) show ?thesis by fastforce
  qed (use that in \<open>auto simp: sample_brush_def\<close>)
qed

lemma no_panic_mask_selects:
  assumes "length pixels = width * height"
  shows "no_panic (mask_selects format pixels width height msk x y)"
proof (cases "x \<ge> 0 \<and> y \<ge> 0 \<and> nat x < width \<and> nat y < height")
  case True
  then have "nat y * width + nat x < length pixels" using assms pixel_index_less by simp
  with True show ?thesis by (simp add: mask_selects_def Let_def)
qed (auto simp: mask_selects_def Let_def)

lemma sample_mask_ok:
  assumes "surfaces_ok m" "pred_option prepared_ok p"
  shows "no_panic (sample_mask m msk p b)"
    "sample_mask m msk p b = Inr coverage \<Longrightarrow> pred_option (\<lambda>c. length c = bo_width b * bo_height b) coverage"
proof -
  define row where "row fmt w h px = (\<lambda>(local_y :: nat) (ly :: int) local_x.
      and_then (ok_or (resource_limit_error STR ''Canvas mask x'') (i64_try_from local_x)) (\<lambda>lx.
      and_then (mask_selects fmt px (unat w) (unat h) msk (lx + sint (pt_x (dm_position msk))) (ly + sint (pt_y (dm_position msk)))) (\<lambda>selected.
      Inr (if selected then -1 else (0 :: u8)))))" for fmt and w h :: u32 and px
  define ys where "ys = (\<lambda>local_y. ok_or (resource_limit_error STR ''Canvas mask y'') (i64_try_from local_y))"
  have "grows 1 (\<lambda>x out. and_then (row fmt w h px y ly x) (\<lambda>c. Inr (out @ [c]))) [0..<bo_width b]"
    if "image_ok w h px" for fmt w h px and y :: nat and ly
    unfolding row_def using that by (intro grows_push no_panic_intros no_panic_mask_selects) (simp add: image_ok_def)
  then have g: "grows (1 * length [0..<bo_width b]) (\<lambda>y out. and_then (ys y) (\<lambda>ly.
      for_each (\<lambda>x out. and_then (row fmt w h px y ly x) (\<lambda>c. Inr (out @ [c]))) [0..<bo_width b] out)) [0..<bo_height b]"
    if "image_ok w h px" for fmt w h px
    using that by (intro grows_nested) (simp_all add: ys_def)
  have e: "sample_mask m msk (Some q) b = inspect_prepared m q (\<lambda>fmt w h px.
      and_then (ok_or (resource_limit_error STR ''Canvas mask pixels'') (usize_checked_mul (bo_width b) (bo_height b))) (\<lambda>_.
      and_then (for_each (\<lambda>y out. and_then (ys y) (\<lambda>ly.
        for_each (\<lambda>x out. and_then (row fmt w h px y ly x) (\<lambda>c. Inr (out @ [c]))) [0..<bo_width b] out)) [0..<bo_height b] [])
        (\<lambda>c. Inr (Some c))))" for q
    by (simp add: sample_mask_def row_def ys_def and_then_assoc)
  show "no_panic (sample_mask m msk p b)"
  proof (cases p)
    case (Some q)
    then have q: "prepared_ok q" using assms(2) by simp
    show ?thesis unfolding Some e
      by (intro inspect_prepared_ok(1) [OF assms(1) q] no_panic_intros grows_loop(1) [OF g])
  qed (simp add: sample_mask_def)
  show "pred_option (\<lambda>c. length c = bo_width b * bo_height b) coverage" if r: "sample_mask m msk p b = Inr coverage"
  proof (cases p)
    case (Some q)
    then have q: "prepared_ok q" using assms(2) by simp
    from inspect_prepared_ok(2) [OF assms(1) q r [unfolded Some e]] show ?thesis
      using grows_loop(2) [OF g] by fastforce
  qed (use r in \<open>simp add: sample_mask_def split: if_splits\<close>)
qed

section \<open>Rewriting pixels\<close>

definition covers :: "u8 list option \<Rightarrow> nat \<Rightarrow> bool" where
  "covers msk i = (case msk of None \<Rightarrow> True | Some coverage \<Rightarrow> coverage ! i \<noteq> 0)"

definition apply_loop_ok :: "SurfaceData \<Rightarrow> Bounds \<Rightarrow> u8 list option \<Rightarrow> (nat \<Rightarrow> u32 \<Rightarrow> u32 client) \<Rightarrow> (nat \<Rightarrow> u32 \<Rightarrow> u32) \<Rightarrow> nat \<times> nat \<Rightarrow> bool" where
  "apply_loop_ok s b msk operation op i \<longleftrightarrow> bounds_in s b \<and> fst i < bo_height b \<and> snd i < bo_width b \<and>
     pred_option (\<lambda>c. length c = bo_width b * bo_height b) msk \<and>
     (\<forall>k < bo_width b * bo_height b. \<forall>old. operation k old = Inr (op k old))"

lemma local_index_less:
  "fst i < bo_height b \<Longrightarrow> snd i < bo_width b \<Longrightarrow> fst i * bo_width b + snd i < bo_width b * bo_height b"
  by (rule pixel_index_less)

interpretation drawn: bounds_loop "apply_loop_ok s b msk operation op" "apply_pixel s b clip msk operation" s b
    "\<lambda>i. clip_selects clip (bo_x b + snd i) (bo_y b + fst i) \<and> covers msk (fst i * bo_width b + snd i)"
    "\<lambda>i old. normalize_word (su_format s) (op (fst i * bo_width b + snd i) old)"
  for s b clip msk operation op
proof
  fix i and px :: "u32 list"
  assume i: "apply_loop_ok s b msk operation op i" and n: "length px = unat (su_width s) * unat (su_height s)"
  obtain r c where rc: "i = (r, c)" by (cases i)
  note ok = i [unfolded apply_loop_ok_def rc fst_conv snd_conv]
  have "bo_x b + c < unat (su_width s)" "bo_y b + r < unat (su_height s)" using ok by (auto simp: bounds_in_def)
  note clip = clip_contains_eq [OF surface_coordinate(1) [OF this(1)] surface_coordinate(2) [OF this(2)]]
  have k: "r * bo_width b + c < bo_width b * bo_height b" using ok local_index_less [of "(r, c)" b] by simp
  have cell: "(bo_y b + r) * unat (su_width s) + (bo_x b + c) < length px"
    using bounds_cell_less [of s b "(r, c)"] ok n by (simp add: bounds_cell_def)
  show "apply_pixel s b clip msk operation i px =
      Inr (if clip_selects clip (bo_x b + snd i) (bo_y b + fst i) \<and> covers msk (fst i * bo_width b + snd i)
        then px[bounds_cell s b i := normalize_word (su_format s) (op (fst i * bo_width b + snd i) (px ! bounds_cell s b i))] else px)"
    using ok k cell
    by (cases msk) (auto simp: rc apply_pixel_def Let_def clip covers_def index_set_def bounds_cell_def)
qed (auto simp: apply_loop_ok_def bounds_cell_less dest: bounds_cell_inj)

text \<open>
  Every drawing command ends in this step: the destination pixels that the clip selects and the mask
  covers are replaced by the operation on their own old value, in the format of the surface.
\<close>

definition drawn_as :: "SurfaceData \<Rightarrow> SurfaceData \<Rightarrow> Bounds \<Rightarrow> CompositeClip \<Rightarrow> u8 list option \<Rightarrow> (nat \<Rightarrow> u32 \<Rightarrow> u32) \<Rightarrow> bool" where
  "drawn_as s s' b clip msk op \<longleftrightarrow> same_shape s s' \<and>
     (\<forall>x < unat (su_width s). \<forall>y < unat (su_height s). pixel s' x y =
       (let k = (y - bo_y b) * bo_width b + (x - bo_x b) in
        if in_bounds b x y \<and> clip_selects clip x y \<and> covers msk k
        then normalize_word (su_format s) (op k (pixel s x y)) else pixel s x y))"

lemma apply_pixels_drawn:
  assumes "surface_ok s" "bounds_in s b" "pred_option (\<lambda>c. length c = bo_width b * bo_height b) msk"
    "\<And>k old. k < bo_width b * bo_height b \<Longrightarrow> operation k old = Inr (op k old)"
  shows "\<exists>s'. apply_pixels b clip msk operation s = Inr s' \<and> drawn_as s s' b clip msk op"
proof -
  have "apply_loop_ok s b msk operation op i" if "fst i < bo_height b" "snd i < bo_width b" for i
    using that assms by (simp add: apply_loop_ok_def)
  from drawn.pixels [OF assms(1,2) this, of clip] obtain px' where
    run: "for_each (\<lambda>row. for_each (\<lambda>column. apply_pixel s b clip msk operation (row, column)) [0..<bo_width b])
      [0..<bo_height b] (su_pixels s) = Inr px'" "same_shape s (s\<lparr>su_pixels := px'\<rparr>)"
    and p: "\<And>x y. x < unat (su_width s) \<Longrightarrow> y < unat (su_height s) \<Longrightarrow> pixel (s\<lparr>su_pixels := px'\<rparr>) x y =
      (if in_bounds b x y \<and> clip_selects clip (bo_x b + (x - bo_x b)) (bo_y b + (y - bo_y b)) \<and>
          covers msk ((y - bo_y b) * bo_width b + (x - bo_x b))
       then normalize_word (su_format s) (op ((y - bo_y b) * bo_width b + (x - bo_x b)) (pixel s x y)) else pixel s x y)"
    by (auto simp: Let_def)
  have "pixel (s\<lparr>su_pixels := px'\<rparr>) x y = (let k = (y - bo_y b) * bo_width b + (x - bo_x b) in
        if in_bounds b x y \<and> clip_selects clip x y \<and> covers msk k
        then normalize_word (su_format s) (op k (pixel s x y)) else pixel s x y)"
    if "x < unat (su_width s)" "y < unat (su_height s)" for x y
    using p [OF that] by (cases "in_bounds b x y") (auto simp: in_bounds_def Let_def)
  with run show ?thesis unfolding drawn_as_def by (simp add: apply_pixels_def)
qed

section \<open>Glyph coverage\<close>

lemma destination_index_less: "destination_index b x y = Some k \<Longrightarrow> k < bo_width b * bo_height b"
  using pixel_index_less
  by (auto simp: destination_index_def Let_def Option.bind_eq_Some_conv not_le split: if_splits)

lemma no_panic_glyph_alpha:
  assumes "x < width" "length row = canvas_row_bytes format width"
  shows "no_panic (glyph_alpha format row x)"
proof -
  have "unat (if x mod 2 = 0 then drop_bit 4 b else b AND 15) * 17 < 256" for b :: u8
  proof -
    have "unat (drop_bit 4 b) < 16" using unat_u8_less [of b] by (simp add: drop_bit_eq_div unat_div div_less_iff_less_mult)
    moreover have "b AND 15 \<le> 15" by (rule word_and_le1)
    then have "unat (b AND 15) \<le> unat (15 :: u8)" by (simp only: word_le_nat_alt)
    then have "unat (b AND 15) < 16" by simp
    ultimately show ?thesis by simp
  qed
  moreover have "x div 8 < (width + 7) div 8" "x div 2 < (width + 1) div 2" using assms(1) by linarith+
  ultimately show ?thesis
    using assms by (cases format) (simp_all add: glyph_alpha_def canvas_row_bytes_def Let_def)
qed

lemma rasterize_glyph_pixel_ok:
  assumes "x < width" "length row = canvas_row_bytes format width" "length coverage = bo_width b * bo_height b"
  shows "no_panic (rasterize_glyph_pixel format b glyph row y x coverage)"
    "rasterize_glyph_pixel format b glyph row y x coverage = Inr c \<Longrightarrow> length c = bo_width b * bo_height b"
  using assms destination_index_less [of b]
  unfolding rasterize_glyph_pixel_def Let_def
  by (auto intro!: no_panic_intros no_panic_glyph_alpha [OF assms(1,2)] simp: index_set_def split: option.splits if_splits)
definition glyph_drawable :: "GlyphFormat \<Rightarrow> RasterGlyph \<Rightarrow> bool" where
  "glyph_drawable format g \<longleftrightarrow> length (rg_pixels g) = canvas_row_bytes format (unat (rg_width g)) * unat (rg_height g)"

lemma rasterize_glyph_row_ok:
  assumes "glyph_drawable (rs_format txt) g" "y < unat (rg_height g)" "length coverage = bo_width b * bo_height b"
  shows "no_panic (rasterize_glyph_row txt b g y coverage)"
    "rasterize_glyph_row txt b g y coverage = Inr c \<Longrightarrow> length c = bo_width b * bo_height b"
proof -
  let ?k = "canvas_row_bytes (rs_format txt) (unat (rg_width g))"
  let ?y = "if rs_top_down txt then y else unat (rg_height g) - y - 1"
  have "?y < unat (rg_height g)" using assms(2) by auto
  then have "(?y + 1) * ?k \<le> unat (rg_height g) * ?k" by (intro mult_le_mono1) simp
  then have e: "(?y + 1) * ?k \<le> length (rg_pixels g)" using assms(1) by (simp add: glyph_drawable_def mult.commute)
  define row where "row = take ?k (drop (?y * ?k) (rg_pixels g))"
  have row: "slice_index (rg_pixels g) (?y * ?k) ((?y + 1) * ?k) = Inr row" "length row = ?k"
    using e by (auto simp: slice_index_def row_def)
  have eq: "rasterize_glyph_row txt b g y coverage = for_each (rasterize_glyph_pixel (rs_format txt) b g row y) [0..<unat (rg_width g)] coverage"
    using row(1) by (simp add: rasterize_glyph_row_def Let_def del: One_nat_def)
  let ?P = "\<lambda>c :: u8 list. length c = bo_width b * bo_height b"
  have p: "no_panic (rasterize_glyph_pixel (rs_format txt) b g row y x c)"
    "rasterize_glyph_pixel (rs_format txt) b g row y x c = Inr c' \<Longrightarrow> ?P c'"
    if "x \<in> set [0..<unat (rg_width g)]" "?P c" for x c c'
    using rasterize_glyph_pixel_ok [OF _ row(2) that(2)] that(1) by simp_all
  have "no_panic (for_each (rasterize_glyph_pixel (rs_format txt) b g row y) [0..<unat (rg_width g)] coverage) \<and>
      (\<forall>c. for_each (rasterize_glyph_pixel (rs_format txt) b g row y) [0..<unat (rg_width g)] coverage = Inr c \<longrightarrow> ?P c)"
    by (rule for_each_keeps [where P = ?P]) (use p assms(3) in \<open>blast+\<close>)
  then show "no_panic (rasterize_glyph_row txt b g y coverage)" "rasterize_glyph_row txt b g y coverage = Inr c \<Longrightarrow> ?P c"
    unfolding eq by blast+
qed

lemma rasterize_glyphs_ok:
  assumes "list_all (glyph_drawable (rs_format txt)) (rs_glyphs txt)"
  shows "no_panic (rasterize_glyphs txt b)" "rasterize_glyphs txt b = Inr c \<Longrightarrow> length c = bo_width b * bo_height b"
proof -
  let ?P = "\<lambda>c :: u8 list. length c = bo_width b * bo_height b"
  let ?f = "\<lambda>g. for_each (rasterize_glyph_row txt b g) [0..<unat (rg_height g)]"
  have g: "no_panic (?f g c)" "?f g c = Inr c' \<Longrightarrow> ?P c'" if "g \<in> set (rs_glyphs txt)" "?P c" for g c c'
  proof -
    have d: "glyph_drawable (rs_format txt) g" using that assms by (simp add: list_all_iff)
    have r: "no_panic (rasterize_glyph_row txt b g y c)" "rasterize_glyph_row txt b g y c = Inr c' \<Longrightarrow> ?P c'"
      if "y \<in> set [0..<unat (rg_height g)]" "?P c" for y c c'
      using rasterize_glyph_row_ok [OF d _ that(2)] that(1) by simp_all
    have "no_panic (?f g c) \<and> (\<forall>c'. ?f g c = Inr c' \<longrightarrow> ?P c')"
      by (rule for_each_keeps [where P = ?P]) (use r that(2) in \<open>blast+\<close>)
    then show "no_panic (?f g c)" "?f g c = Inr c' \<Longrightarrow> ?P c'" by blast+
  qed
  have loop: "no_panic (for_each ?f (rs_glyphs txt) c) \<and> (\<forall>c'. for_each ?f (rs_glyphs txt) c = Inr c' \<longrightarrow> ?P c')" if "?P c" for c
    by (rule for_each_keeps [where P = ?P]) (use g that in \<open>blast+\<close>)
  show "no_panic (rasterize_glyphs txt b)"
    unfolding rasterize_glyphs_def by (intro no_panic_intros loop [THEN conjunct1]) auto
  show "?P c" if "rasterize_glyphs txt b = Inr c"
    using that loop [of "replicate (bo_width b * bo_height b) 0"] by (auto simp: rasterize_glyphs_def)
qed

section \<open>Commands from the wire\<close>

lemma read_valid_rect_nonempty:
  "read_valid_rect ctx r = Inr (rect, r') \<Longrightarrow> area_nonempty rect"
  by (auto simp: read_valid_rect_def Rect_empty_def Rect_width_Inr Rect_height_Inr area_nonempty_def split: if_splits)

lemma decoded_areas_nonempty:
  "DrawCopy_decode body = Inr c1 \<Longrightarrow> area_nonempty (dis_area (dco_source c1))"
  "DrawOpaque_decode body = Inr c2 \<Longrightarrow> area_nonempty (dis_area (dop_source c2))"
  "DrawRop3_decode body = Inr c3 \<Longrightarrow> area_nonempty (dis_area (dr3_source c3))"
  "DrawTransparent_decode body = Inr c4 \<Longrightarrow> area_nonempty (dtr_source_area c4)"
  "DrawAlphaBlend_decode body = Inr c5 \<Longrightarrow> area_nonempty (dab_source_area c5)"
  by (auto simp: DrawCopy_decode_def DrawOpaque_decode_def DrawRop3_decode_def DrawTransparent_decode_def
      DrawAlphaBlend_decode_def dest!: read_valid_rect_nonempty split: if_splits)

lemma glyph_ok_drawable: "glyph_ok (glyph_bits format) g \<Longrightarrow> glyph_drawable format g"
proof -
  have "(n * 4 + 7) div 8 = (n + 1) div 2" "(n * 8 + 7) div 8 = n" for n :: nat by linarith+
  then show "glyph_ok (glyph_bits format) g \<Longrightarrow> glyph_drawable format g"
    by (cases format) (simp_all add: glyph_ok_def glyph_bits_def glyph_row_bytes_def glyph_drawable_def canvas_row_bytes_def)
qed

lemma decoded_glyphs_drawable:
  assumes "DrawText_decode body = Inr c"
  shows "list_all (glyph_drawable (rs_format (dt_text c))) (rs_glyphs (dt_text c))"
proof -
  obtain off where "decode_raster_string body off = Inr (dt_text c)"
    using assms by (auto simp: DrawText_decode_def)
  from decode_raster_string_glyphs(2) [OF this] show ?thesis by (auto simp: list_all_iff glyph_ok_drawable)
qed

section \<open>Drawing commands\<close>

text \<open>A drawing command that names surface \<open>k\<close>: it does not panic, and when it succeeds the surface keeps its width, height, format,
  allocation and number of pixels, no surface appears or disappears, and every other surface is as before.\<close>

definition draws_on :: "u32 \<Rightarrow> surfaces \<Rightarrow> surfaces client \<Rightarrow> bool" where
  "draws_on k m r \<longleftrightarrow> no_panic r \<and>
     (\<forall>m'. r = Inr m' \<longrightarrow> surfaces_ok m' \<and> dom m' = dom m \<and> (\<forall>j. j \<noteq> k \<longrightarrow> m' j = m j) \<and>
       (\<forall>s s'. m k = Some s \<longrightarrow> m' k = Some s' \<longrightarrow> same_shape s s'))"

text \<open>A message body and the command it decodes to, executed.\<close>

definition executes :: "'c decoded \<Rightarrow> ('c \<Rightarrow> DisplayBase) \<Rightarrow> surfaces \<Rightarrow> ('c \<Rightarrow> surfaces client) \<Rightarrow> bool" where
  "executes decoded base m render \<longleftrightarrow>
     no_panic decoded \<and> (\<forall>c. decoded = Inr c \<longrightarrow> draws_on (db_surface_id (base c)) m (render c))"

lemma keeps_and_then:
  "no_panic r \<Longrightarrow> (\<And>v. r = Inr v \<Longrightarrow> draws_on k m (f v)) \<Longrightarrow> draws_on k m (and_then r f)"
  by (cases r) (simp_all add: draws_on_def no_panic_def)

lemma drawn_as_ok: "drawn_as s s' b clip msk op \<Longrightarrow> surface_ok s \<Longrightarrow> surface_ok s'"
  unfolding drawn_as_def using same_shape_ok by blast

lemma keeps_draw:
  assumes "surfaces_ok m" "m k = Some s" "bounds_in s b" "pred_option (\<lambda>c. length c = bo_width b * bo_height b) msk"
    "\<And>i old. i < bo_width b * bo_height b \<Longrightarrow> \<exists>w. operation i old = Inr w"
  shows "draws_on k m (and_then (apply_pixels b clip msk operation s) (\<lambda>s. Inr (m(k \<mapsto> s))))"
proof -
  have s: "surface_ok s" using assms(1,2) by (auto simp: surfaces_ok_def)
  obtain op where op: "\<And>i old. i < bo_width b * bo_height b \<Longrightarrow> operation i old = Inr (op i old)" using assms(5) by metis
  obtain s' where "apply_pixels b clip msk operation s = Inr s'" "drawn_as s s' b clip msk op"
    using apply_pixels_drawn [where operation = operation and op = op, OF s assms(3,4) op] by blast
  moreover from this(2) have "surface_ok s'" "same_shape s s'" using drawn_as_ok [OF _ s] by (blast, simp add: drawn_as_def)
  ultimately show ?thesis using assms(1,2) by (auto simp: draws_on_def surfaces_ok_update)
qed

lemma no_panic_validate_rop [no_panic_intros]: "no_panic (validate_rop_descriptor d)"
  by (simp add: validate_rop_descriptor_def)

lemmas keeps_intros = keeps_and_then no_panic_validate_rop no_panic_surface_for_update no_panic_rect_bounds
  sample_source_ok(1) sample_brush_ok(1) sample_mask_ok(1) keeps_draw

lemma keeps_render_fill:
  assumes "surfaces_ok m" "pred_option prepared_ok pattern" "pred_option prepared_ok msk"
  shows "draws_on (db_surface_id (df_base c)) m (render_fill m c pattern msk)"
  unfolding render_fill_def Let_def
  by (intro keeps_intros assms)
    (auto dest!: surface_for_update_ok [OF assms(1)] rect_bounds_in sample_brush_ok(2) [OF assms(1,2)] sample_mask_ok(2) [OF assms(1,3)])

lemma keeps_render_copy:
  assumes "surfaces_ok m" "prepared_ok source" "pred_option prepared_ok msk" "area_nonempty (dis_area (dco_source c))"
  shows "draws_on (db_surface_id (dco_base c)) m (render_copy m c source msk)"
  unfolding render_copy_def Let_def
  by (intro keeps_intros assms)
    (auto dest!: surface_for_update_ok [OF assms(1)] rect_bounds_in sample_source_ok(2) [OF assms(1,2,4)] sample_mask_ok(2) [OF assms(1,3)])

lemma keeps_render_opaque:
  assumes "surfaces_ok m" "prepared_ok source" "pred_option prepared_ok pattern" "pred_option prepared_ok msk"
    "area_nonempty (dis_area (dop_source c))"
  shows "draws_on (db_surface_id (dop_base c)) m (render_opaque m c source pattern msk)"
  unfolding render_opaque_def Let_def
  by (intro keeps_intros assms)
    (auto dest!: surface_for_update_ok [OF assms(1)] rect_bounds_in sample_source_ok(2) [OF assms(1,2,5)]
      sample_brush_ok(2) [OF assms(1,3)] sample_mask_ok(2) [OF assms(1,4)])

lemma keeps_render_masked_destination:
  assumes "surfaces_ok m" "pred_option prepared_ok msk"
  shows "draws_on (db_surface_id (dmd_base c)) m (render_masked_destination m c msk operation)"
  unfolding render_masked_destination_def Let_def
  by (intro keeps_intros assms)
    (auto dest!: surface_for_update_ok [OF assms(1)] rect_bounds_in sample_mask_ok(2) [OF assms])

lemma keeps_render_rop3:
  assumes "surfaces_ok m" "prepared_ok source" "pred_option prepared_ok pattern" "pred_option prepared_ok msk"
    "area_nonempty (dis_area (dr3_source c))"
  shows "draws_on (db_surface_id (dr3_base c)) m (render_rop3 m c source pattern msk)"
  unfolding render_rop3_def Let_def
  by (intro keeps_intros assms)
    (auto dest!: surface_for_update_ok [OF assms(1)] rect_bounds_in sample_source_ok(2) [OF assms(1,2,5)]
      sample_brush_ok(2) [OF assms(1,3)] sample_mask_ok(2) [OF assms(1,4)])

lemma keeps_render_transparent:
  assumes "surfaces_ok m" "prepared_ok source" "area_nonempty (dtr_source_area c)"
  shows "draws_on (db_surface_id (dtr_base c)) m (render_transparent m c source)"
  unfolding render_transparent_def Let_def
  by (intro keeps_intros assms)
    (auto dest!: surface_for_update_ok [OF assms(1)] rect_bounds_in sample_source_ok(2) [OF assms])

lemma keeps_render_alpha_blend:
  assumes "surfaces_ok m" "prepared_ok source" "area_nonempty (dab_source_area c)"
  shows "draws_on (db_surface_id (dab_base c)) m (render_alpha_blend m c source)"
proof -
  have "\<exists>v. alpha_blend_word s old a b e = Inr v" for s old a b e using alpha_blend_word_eq by blast
  then show ?thesis
    unfolding render_alpha_blend_def Let_def
    by (intro keeps_intros assms)
      (auto dest!: surface_for_update_ok [OF assms(1)] rect_bounds_in sample_source_ok(2) [OF assms])
qed

lemma render_text_background_ok:
  assumes "surfaces_ok m" "surface_ok s" "bounds_in s b" "pred_option prepared_ok pattern"
  shows "no_panic (render_text_background m c pattern b s)"
    "render_text_background m c pattern b s = Inr s' \<Longrightarrow> same_shape s s'"
proof -
  let ?op = "\<lambda>sp i old. apply_binary_rop (dt_background_rop c) (sp_pixels sp ! i) old RopInput_Brush RopInput_Destination"
  have draw: "\<exists>s'. apply_pixels b (db_clip (dt_base c)) None (\<lambda>index old.
        and_then (index_at (sp_pixels sp) index) (\<lambda>w.
        Inr (apply_binary_rop (dt_background_rop c) w old RopInput_Brush RopInput_Destination))) s = Inr s' \<and>
      drawn_as s s' b (db_clip (dt_base c)) None (?op sp)"
    if "sample_brush m (dt_background_brush c) pattern (dt_background_area c) b (su_format s) = Inr sp" for sp
    using sample_brush_ok(2) [OF assms(1,4) that] by (intro apply_pixels_drawn assms(2,3)) simp_all
  have "no_panic (apply_pixels b (db_clip (dt_base c)) None (\<lambda>index old.
        and_then (index_at (sp_pixels sp) index) (\<lambda>w.
        Inr (apply_binary_rop (dt_background_rop c) w old RopInput_Brush RopInput_Destination))) s)"
    if "sample_brush m (dt_background_brush c) pattern (dt_background_area c) b (su_format s) = Inr sp" for sp
    using draw [OF that] by (auto simp: no_panic_def)
  then show "no_panic (render_text_background m c pattern b s)"
    unfolding render_text_background_def by (intro no_panic_intros sample_brush_ok(1) assms) auto
  show "same_shape s s'" if "render_text_background m c pattern b s = Inr s'"
    using that draw by (fastforce simp: render_text_background_def drawn_as_def split: if_splits)
qed

lemma keeps_update: "m k = Some s \<Longrightarrow> same_shape s s' \<Longrightarrow> draws_on k (m(k \<mapsto> s')) r \<Longrightarrow> draws_on k m r"
  by (auto simp: draws_on_def insert_absorb domI intro: same_shape_trans)

lemma keeps_render_text:
  assumes "surfaces_ok m" "pred_option prepared_ok fg" "pred_option prepared_ok bg"
    "list_all (glyph_drawable (rs_format (dt_text c))) (rs_glyphs (dt_text c))"
  shows "draws_on (db_surface_id (dt_base c)) m (render_text m c fg bg)"
  unfolding render_text_def Let_def
proof (rule keeps_and_then [OF no_panic_validate_rop], rule keeps_and_then [OF no_panic_validate_rop],
    rule keeps_and_then [OF no_panic_surface_for_update], rule keeps_and_then [OF no_panic_rect_bounds],
    rule keeps_and_then [OF no_panic_rect_bounds], rule keeps_and_then)
  fix s gb bb
  assume s: "surface_for_update m (db_surface_id (dt_base c)) = Inr s"
    and gb: "SurfaceData_rect_bounds s (db_destination (dt_base c)) = Inr gb"
    and bb: "SurfaceData_rect_bounds s (dt_background_area c) = Inr bb"
  note ok = surface_for_update_ok [OF assms(1) s] and b = rect_bounds_in [OF gb] rect_bounds_in [OF bb]
  show "no_panic (render_text_background m c bg bb s)"
    by (rule render_text_background_ok(1) [OF assms(1) ok [THEN conjunct2] b(2) assms(3)])
  fix s'
  assume "render_text_background m c bg bb s = Inr s'"
  then have shape: "same_shape s s'" by (rule render_text_background_ok(2) [OF assms(1) ok [THEN conjunct2] b(2) assms(3)])
  let ?m = "m(db_surface_id (dt_base c) \<mapsto> s')"
  have m': "surfaces_ok ?m" "?m (db_surface_id (dt_base c)) = Some s'" "bounds_in s' gb"
    using surfaces_ok_update [OF assms(1) same_shape_ok [OF shape]] ok same_shape_bounds [OF shape] b(1) by simp_all
  note brush = sample_brush_ok [OF m'(1) assms(2)] and glyphs = rasterize_glyphs_ok [OF assms(4)]
  show "draws_on (db_surface_id (dt_base c)) m (and_then (sample_brush ?m (if dt_foreground_brush c = DisplayBrush_None then DisplayBrush_Solid 0
        else dt_foreground_brush c) fg (db_destination (dt_base c)) gb (su_format s')) (\<lambda>brush.
      and_then (rasterize_glyphs (dt_text c) gb) (\<lambda>glyph_coverage.
      and_then (apply_pixels gb (db_clip (dt_base c)) (Some glyph_coverage) (\<lambda>index old.
         and_then (index_at (sp_pixels brush) index) (\<lambda>b.
         and_then (index_at glyph_coverage index) (\<lambda>w.
         blend_coverage (apply_binary_rop (dt_foreground_rop c) b old RopInput_Brush RopInput_Destination) old w))) s') (\<lambda>s.
      Inr (?m(db_surface_id (dt_base c) \<mapsto> s))))))"
    using ok by (intro keeps_update [of m "db_surface_id (dt_base c)" s s'] shape keeps_and_then brush(1) glyphs(1) keeps_draw m')
      (auto dest!: brush(2) glyphs(2) simp: blend_coverage_eq)
qed

text \<open>C15: drawing never panics, whatever the server sends, and only rewrites pixels of the surface it names. For every message body of
  the Fill, Copy, Opaque, Blackness, Whiteness, Invers, Rop3, Text, Transparent and Alpha Blend commands, the body either is
  refused or decodes to a command; executed on well-formed surfaces with prepared images of the declared sizes, the command ends in
  an error value, or in surfaces with the same identifiers in which the named surface keeps its width, height, format, allocation and
  number of pixels and every other surface is unchanged. The decoders carry the obligation that makes this hold: a command with an
  empty source rectangle, for which scaling would read outside the image, is refused by them. Stroke, which is rasterised with
  floating point numbers, is not covered.\<close>

theorem draw_commands_safe:
  assumes "surfaces_ok m" "prepared_ok source" "pred_option prepared_ok pattern" "pred_option prepared_ok background"
    "pred_option prepared_ok msk"
  shows "executes (DrawFill_decode body) df_base m (\<lambda>c. render_fill m c pattern msk) \<and>
    executes (DrawCopy_decode body) dco_base m (\<lambda>c. render_copy m c source msk) \<and>
    executes (DrawOpaque_decode body) dop_base m (\<lambda>c. render_opaque m c source pattern msk) \<and>
    executes (DrawMaskedDestination_decode body) dmd_base m (\<lambda>c. render_masked_destination m c msk operation) \<and>
    executes (DrawRop3_decode body) dr3_base m (\<lambda>c. render_rop3 m c source pattern msk) \<and>
    executes (DrawText_decode body) dt_base m (\<lambda>c. render_text m c pattern background) \<and>
    executes (DrawTransparent_decode body) dtr_base m (\<lambda>c. render_transparent m c source) \<and>
    executes (DrawAlphaBlend_decode body) dab_base m (\<lambda>c. render_alpha_blend m c source)"
  unfolding executes_def
  by (intro conjI allI impI no_panic_intros keeps_render_fill keeps_render_copy keeps_render_opaque
      keeps_render_masked_destination keeps_render_rop3 keeps_render_text keeps_render_transparent keeps_render_alpha_blend
      assms decoded_areas_nonempty decoded_glyphs_drawable)

text \<open>A whiteness command for the single pixel of a surface, as it arrives.\<close>

theorem draw_commands_safe_witness:
  "let m = [0 \<mapsto> \<lparr>su_width = 1, su_height = 1, su_format = SurfaceFormat_Xrgb32, su_pixels = [5], su_allocated_bytes = 4\<rparr>];
       body = [0, 0, 0, 0] @ [0, 0, 0, 0] @ [0, 0, 0, 0] @ [1, 0, 0, 0] @ [1, 0, 0, 0] @ [0] @ [0] @ [0, 0, 0, 0] @ [0, 0, 0, 0] @ [0, 0, 0, 0] in
   (\<exists>c. DrawMaskedDestination_decode body = Inr c \<and> db_clip (dmd_base c) = CompositeClip_None) \<and>
   executes (DrawMaskedDestination_decode body) dmd_base m (\<lambda>c. render_masked_destination m c None MaskedDestination_Whiteness)"
  (is "let m = ?m; body = ?b in ?P body \<and> ?Q m body")
proof -
  have "surfaces_ok ?m" by (simp add: surfaces_ok_def surface_ok_def)
  moreover have "prepared_ok (PreparedComposite_Surface \<lparr>cs_image_id = 0, cs_image_flags = 0, cs_width = 1, cs_height = 1, cs_surface_id = 0\<rparr>)"
    by (simp add: prepared_ok_def)
  ultimately have "?Q ?m ?b" using draw_commands_safe [of ?m _ None None None ?b MaskedDestination_Whiteness] by simp
  moreover have "?P ?b"
    by (simp add: DrawMaskedDestination_decode_def DisplayBase_decode_def read_valid_rect_def read_rect_def Rect_empty_def
        Rect_width_def Rect_height_def i32_checked_sub_def decode_display_clip_def decode_mask_def read_point_def
        decode_with_def Reader_new_def reader_width Reader_le_def Reader_take_def Reader_u8_def Reader_offset_def rd_then_def
        rd_return_def rd_lift_def usize_checked_add_def slice_get_def option_transpose_def)
  ultimately show ?thesis by simp
qed

lemma for_each_push_map:
  "(\<And>i. i \<in> set js \<Longrightarrow> f i = Inr (g i)) \<Longrightarrow> for_each (\<lambda>i out. and_then (f i) (\<lambda>w. Inr (out @ [w]))) js out = Inr (out @ map g js)"
  by (induction js arbitrary: out) simp_all

text \<open>Nearest-neighbour scaling, as a function of the output position.\<close>

definition nearest_pixel :: "u32 list \<Rightarrow> nat \<Rightarrow> Bounds \<Rightarrow> nat \<Rightarrow> nat \<Rightarrow> nat \<times> nat \<Rightarrow> u32" where
  "nearest_pixel pixels width a ow oh i =
     pixels ! ((bo_y a + fst i * bo_height a div oh) * width + (bo_x a + snd i * bo_width a div ow))"

lemma scale_pixels_nearest:
  assumes a: "image_bounds width pixels a" and lim: "ow * oh < usize_limit" "ow * bo_width a < usize_limit" "oh * bo_height a < usize_limit"
  shows "scale_pixels pixels width a ow oh 1 = Inr (map (nearest_pixel pixels width a ow oh) (List.product [0..<oh] [0..<ow]))"
proof -
  have p: "scale_pixel pixels width a ow oh 1 i = Inr (nearest_pixel pixels width a ow oh i)"
    if "i \<in> set (List.product [0..<oh] [0..<ow])" for i
  proof -
    from that obtain y x where i: "i = (y, x)" "y < oh" "x < ow" by auto
    have pos: "0 < bo_width a" "0 < bo_height a" using a by (simp_all add: image_bounds_def)
    have "x * bo_width a \<le> ow * bo_width a" "y * bo_height a \<le> oh * bo_height a" using i(2,3) by (simp_all add: mult_le_mono1)
    then have fits: "x * bo_width a < usize_limit" "y * bo_height a < usize_limit" using lim(2,3) by linarith+
    note n = nearest_less [OF i(3) pos(1)] nearest_less [OF i(2) pos(2)]
    from image_bounds_index [OF a n] fits show ?thesis
      by (simp add: i(1) scale_pixel_def nearest_pixel_def add.assoc)
  qed
  have "for_each (\<lambda>i out. and_then (scale_pixel pixels width a ow oh 1 i) (\<lambda>w. Inr (out @ [w]))) (List.product [0..<oh] [0..<ow]) [] =
      (Inr ([] @ map (nearest_pixel pixels width a ow oh) (List.product [0..<oh] [0..<ow])) :: u32 list client)"
    by (rule for_each_push_map) (rule p)
  then show ?thesis using lim(1) by (simp add: scale_pixels_def flip: for_each_nested)
qed

lemma u32_product_fits:
  fixes x y :: nat
  assumes "x \<le> unat (v :: u32)" "y \<le> unat (w :: u32)"
  shows "x * y < usize_limit"
proof -
  have "x * y \<le> 4294967295 * 4294967295"
    using assms unat_u32_less [of v] unat_u32_less [of w] by (intro mult_le_mono) simp_all
  then show ?thesis by simp
qed

text \<open>A copy command draws its image exactly. With a source rectangle inside the image, a destination inside
  the surface and nearest-neighbour scaling, the command succeeds; each destination pixel its clip selects
  becomes the raster operation of the nearest source pixel and its own old value, in the surface's format,
  and no other pixel of that surface and no other surface changes.\<close>

theorem render_copy_nearest:
  assumes "surfaces_ok m" "m (db_surface_id (dco_base c)) = Some s"
    "SurfaceData_rect_bounds s (db_destination (dco_base c)) = Inr b"
    "prepared_ok (PreparedComposite_Pixels q)" "image_rect_bounds (dis_area (dco_source c)) (oc_width q) (oc_height q) = Inr a"
    "area_nonempty (dis_area (dco_source c))" "dis_scale_mode (dco_source c) = 1"
    "validate_rop_descriptor (dco_rop_descriptor c) = Inr ()" "dm_image (dco_mask c) = None"
  shows "\<exists>s'. render_copy m c (PreparedComposite_Pixels q) None = Inr (m(db_surface_id (dco_base c) \<mapsto> s')) \<and>
    drawn_as s s' b (db_clip (dco_base c)) None (\<lambda>k old. apply_binary_rop (dco_rop_descriptor c)
      (nearest_pixel (oc_pixels q) (unat (oc_width q)) a (bo_width b) (bo_height b) (k div bo_width b, k mod bo_width b))
      old RopInput_Source RopInput_Destination)"
proof -
  let ?is = "List.product [0..<bo_height b] [0..<bo_width b]"
  let ?near = "nearest_pixel (oc_pixels q) (unat (oc_width q)) a (bo_width b) (bo_height b)"
  have s: "surface_ok s" using assms(1,2) by (auto simp: surfaces_ok_def)
  note b = rect_bounds_in [OF assms(3)] and ib = image_rect_bounds_Inr [OF assms(5)]
  have q: "image_bounds (unat (oc_width q)) (oc_pixels q) a"
    using assms(4) image_bounds_rect [OF _ assms(5,6)] by (simp add: prepared_ok_def)
  have "bo_width b \<le> unat (su_width s)" "bo_height b \<le> unat (su_height s)" using b by (simp_all add: bounds_in_def)
  moreover have "bo_width a \<le> unat (oc_width q)" "bo_height a \<le> unat (oc_height q)" using ib(3,4) by simp_all
  ultimately have lim: "bo_width b * bo_width a < usize_limit" "bo_height b * bo_height a < usize_limit"
    using u32_product_fits by blast+
  have "scale_pixels (oc_pixels q) (unat (oc_width q)) a (bo_width b) (bo_height b) 1 = Inr (map ?near ?is)"
    using bounds_area [OF s b] lim by (intro scale_pixels_nearest [OF q]) linarith+
  then have src: "sample_source m (PreparedComposite_Pixels q) (dis_area (dco_source c)) (dis_scale_mode (dco_source c))
      (bo_width b) (bo_height b) = Inr \<lparr>sp_format = oc_format q, sp_pixels = map ?near ?is\<rparr>"
    using assms(5,7) by (simp add: sample_source_def inspect_prepared_def)
  have op: "and_then (index_at (map ?near ?is) k) (\<lambda>p. Inr (apply_binary_rop (dco_rop_descriptor c) p old RopInput_Source RopInput_Destination)) =
      Inr (apply_binary_rop (dco_rop_descriptor c) (?near (k div bo_width b, k mod bo_width b)) old RopInput_Source RopInput_Destination)"
    if "k < bo_width b * bo_height b" for k old
  proof -
    have "0 < bo_width b" using that by (cases "bo_width b") simp_all
    then have "k div bo_width b < bo_height b" "k mod bo_width b < bo_width b"
      using that by (simp_all add: less_mult_imp_div_less mult.commute)
    then show ?thesis using that by (simp add: product_nth length_product mult.commute)
  qed
  have "\<exists>s'. apply_pixels b (db_clip (dco_base c)) None (\<lambda>k old. and_then (index_at (map ?near ?is) k)
      (\<lambda>p. Inr (apply_binary_rop (dco_rop_descriptor c) p old RopInput_Source RopInput_Destination))) s = Inr s' \<and>
    drawn_as s s' b (db_clip (dco_base c)) None (\<lambda>k old. apply_binary_rop (dco_rop_descriptor c)
      (?near (k div bo_width b, k mod bo_width b)) old RopInput_Source RopInput_Destination)"
    by (rule apply_pixels_drawn [OF s b]) (simp, rule op)
  with src assms(2,3,8,9) show ?thesis
    by (auto simp: render_copy_def Let_def surface_for_update_def sample_mask_def)
qed

theorem render_copy_nearest_witness:
  "let c = \<lparr>dco_base = \<lparr>db_surface_id = 0, db_destination = \<lparr>rect_top = 0, rect_left = 0, rect_bottom = 1, rect_right = 2\<rparr>, db_clip = CompositeClip_None\<rparr>,
        dco_source = \<lparr>dis_image = CompositeImage_Surface \<lparr>cs_image_id = 0, cs_image_flags = 0, cs_width = 1, cs_height = 1, cs_surface_id = 0\<rparr>,
          dis_area = \<lparr>rect_top = 0, rect_left = 0, rect_bottom = 1, rect_right = 1\<rparr>, dis_scale_mode = 1\<rparr>,
        dco_rop_descriptor = 8, dco_mask = \<lparr>dm_inverted = False, dm_position = \<lparr>pt_x = 0, pt_y = 0\<rparr>, dm_image = None\<rparr>\<rparr>;
       m = [0 \<mapsto> \<lparr>su_width = 2, su_height = 1, su_format = SurfaceFormat_Argb32, su_pixels = [5, 6], su_allocated_bytes = 8\<rparr>];
       q = \<lparr>oc_format = SurfaceFormat_Argb32, oc_width = 1, oc_height = 1, oc_pixels = [9]\<rparr> in
   \<exists>s'. render_copy m c (PreparedComposite_Pixels q) None = Inr (m(0 \<mapsto> s')) \<and> pixel s' 0 0 = 9 \<and> pixel s' 1 0 = 9"
  (is "let c = ?c; m = ?m; q = ?q in ?P c m q")
proof -
  let ?s = "\<lparr>su_width = 2, su_height = 1, su_format = SurfaceFormat_Argb32, su_pixels = [5, 6], su_allocated_bytes = 8\<rparr>"
  have m: "surfaces_ok ?m" "?m (db_surface_id (dco_base ?c)) = Some ?s" by (simp_all add: surfaces_ok_def surface_ok_def)
  have b: "SurfaceData_rect_bounds ?s (db_destination (dco_base ?c)) = Inr \<lparr>bo_x = 0, bo_y = 0, bo_width = 2, bo_height = 1\<rparr>"
    and a: "image_rect_bounds (dis_area (dco_source ?c)) (oc_width ?q) (oc_height ?q) = Inr \<lparr>bo_x = 0, bo_y = 0, bo_width = 1, bo_height = 1\<rparr>"
    by (simp_all add: SurfaceData_rect_bounds_def image_rect_bounds_def Rect_width_def Rect_height_def i32_checked_sub_def
        sum_exceeds_def usize_checked_add_def)
  have q: "prepared_ok (PreparedComposite_Pixels ?q)" "area_nonempty (dis_area (dco_source ?c))"
    "dis_scale_mode (dco_source ?c) = 1" "validate_rop_descriptor (dco_rop_descriptor ?c) = Inr ()" "dm_image (dco_mask ?c) = None"
    by (simp_all add: prepared_ok_def image_ok_def area_nonempty_def validate_rop_descriptor_def)
  define n where "n = ?m"
  have "\<exists>s'. render_copy n ?c (PreparedComposite_Pixels ?q) None = Inr (n(0 \<mapsto> s')) \<and> pixel s' 0 0 = 9 \<and> pixel s' 1 0 = 9"
    using render_copy_nearest [OF m [folded n_def] b q(1) a q(2-5)]
    by (auto simp: drawn_as_def in_bounds_def clip_selects_def covers_def nearest_pixel_def apply_binary_rop_def
        normalize_word_def word_bytes_def)
  then show ?thesis unfolding n_def by simp
qed

end
