(* ===== verification/Client_Updates.thy ===== *)
theory Client_Updates
  imports Client_Channel "HOL-Library.Product_Lexorder"
begin

text \<open>
  Coalesced display notifications (\<open>display/updates.rs\<close> of \<open>oxide-spice-client\<close>). The sender keeps the newest
  value of every surface in a snapshot behind a watch channel; a receiver remembers which allocation it
  has seen of every surface and where its last scan stopped, and serves the next surface in cyclic order.

  A shared pointer is the number of its allocation and the value: \<open>Arc::ptr_eq\<close> compares the numbers, and
  an allocation that a receiver still holds is never reused. A B-tree map is the association list of its
  entries in key order.

  Shown here: a receiver gets each publication at most once, always the newest value of its surface and
  never one that was removed; and no surface starves, however busy the others are.
\<close>

section \<open>Ordered maps\<close>

type_synonym SurfaceKey = "u8 \<times> u32"
type_synonym ('k, 'v) btree = "('k \<times> 'v) list"

fun bt_insert :: "'k::linorder \<Rightarrow> 'v \<Rightarrow> ('k, 'v) btree \<Rightarrow> ('k, 'v) btree" where
  "bt_insert k v [] = [(k, v)]"
| "bt_insert k v ((k', v') # m) =
     (if k < k' then (k, v) # (k', v') # m else if k = k' then (k, v) # m else (k', v') # bt_insert k v m)"

definition bt_retain :: "('k \<Rightarrow> bool) \<Rightarrow> ('k, 'v) btree \<Rightarrow> ('k, 'v) btree" where
  "bt_retain keep m = filter (\<lambda>(k, _). keep k) m"

text \<open>\<open>range((Excluded(k), Unbounded))\<close>, or the whole map without a boundary.\<close>

definition bt_range_from :: "'k::linorder option \<Rightarrow> ('k, 'v) btree \<Rightarrow> ('k, 'v) btree" where
  "bt_range_from boundary m = (case boundary of None \<Rightarrow> m | Some b \<Rightarrow> filter (\<lambda>(k, _). b < k) m)"

section \<open>The channel\<close>

record 'a Snapshot =
  sn_values :: "(SurfaceKey, nat \<times> 'a) btree"
  sn_latest :: "SurfaceKey option"

text \<open>The sender owns the snapshot; \<open>ds_allocated\<close> numbers its allocations.\<close>

record 'a DisplaySender =
  ds_snapshot :: "'a Snapshot"
  ds_allocated :: nat

record 'a DisplayReceiver =
  dr_seen :: "(SurfaceKey, nat \<times> 'a) btree"
  dr_previous :: "SurfaceKey option"

definition display_updates :: "'a DisplaySender \<times> 'a DisplayReceiver" where
  "display_updates =
     (\<lparr>ds_snapshot = \<lparr>sn_values = [], sn_latest = None\<rparr>, ds_allocated = 0\<rparr>, \<lparr>dr_seen = [], dr_previous = None\<rparr>)"

definition DisplaySender_publish :: "SurfaceKey \<Rightarrow> 'a \<Rightarrow> 'a DisplaySender \<Rightarrow> 'a DisplaySender" where
  "DisplaySender_publish key v s =
     s\<lparr>ds_snapshot := \<lparr>sn_values = bt_insert key (ds_allocated s, v) (sn_values (ds_snapshot s)), sn_latest = Some key\<rparr>,
       ds_allocated := ds_allocated s + 1\<rparr>"

definition DisplaySender_remove :: "SurfaceKey \<Rightarrow> 'a DisplaySender \<Rightarrow> 'a DisplaySender" where
  "DisplaySender_remove key s =
     s\<lparr>ds_snapshot := \<lparr>sn_values = bt_retain (\<lambda>k. k \<noteq> key) (sn_values (ds_snapshot s)),
         sn_latest = (if sn_latest (ds_snapshot s) = Some key then None else sn_latest (ds_snapshot s))\<rparr>\<rparr>"

definition DisplaySender_clear_channel :: "u8 \<Rightarrow> 'a DisplaySender \<Rightarrow> 'a DisplaySender" where
  "DisplaySender_clear_channel channel_id s =
     s\<lparr>ds_snapshot := \<lparr>sn_values = bt_retain (\<lambda>(channel, _). channel \<noteq> channel_id) (sn_values (ds_snapshot s)),
         sn_latest = (case sn_latest (ds_snapshot s) of
            None \<Rightarrow> None
          | Some (channel, surface) \<Rightarrow> if channel = channel_id then None else Some (channel, surface))\<rparr>\<rparr>"

definition DisplayReceiver_latest :: "'a Snapshot \<Rightarrow> 'a option" where
  "DisplayReceiver_latest snapshot =
     Option.bind (sn_latest snapshot) (\<lambda>key. map_option snd (map_of (sn_values snapshot) key))"

text \<open>
  \<open>next\<close> looks at the snapshot and, when nothing in it is new, waits for the watch to change and looks
  again. \<open>display_turn\<close> is one look; the list holds the snapshot at every look, and after its last element
  the sender is gone.
\<close>

definition unseen :: "(SurfaceKey, nat \<times> 'a) btree \<Rightarrow> SurfaceKey \<times> nat \<times> 'a \<Rightarrow> bool" where
  "unseen seen e = (case e of (key, arc) \<Rightarrow> case map_of seen key of None \<Rightarrow> True | Some s \<Rightarrow> fst s \<noteq> fst arc)"

definition display_turn :: "'a Snapshot \<Rightarrow> 'a DisplayReceiver \<Rightarrow> (SurfaceKey \<times> nat \<times> 'a) option \<times> 'a DisplayReceiver" where
  "display_turn snapshot r =
     (let seen = bt_retain (\<lambda>k. map_of (sn_values snapshot) k \<noteq> None) (dr_seen r) in
      case find (unseen seen) (bt_range_from (dr_previous r) (sn_values snapshot) @ sn_values snapshot) of
        None \<Rightarrow> (None, r\<lparr>dr_seen := seen\<rparr>)
      | Some (key, arc) \<Rightarrow> (Some (key, arc), \<lparr>dr_seen = bt_insert key arc seen, dr_previous = Some key\<rparr>))"

fun DisplayReceiver_next :: "'a Snapshot list \<Rightarrow> 'a DisplayReceiver \<Rightarrow> 'a client \<times> 'a DisplayReceiver" where
  "DisplayReceiver_next [] r = (client_err ClientError_TaskTerminated, r)"
| "DisplayReceiver_next (snapshot # rest) r =
     (case display_turn snapshot r of
        (Some (key, arc), r) \<Rightarrow> (Inr (snd arc), r)
      | (None, r) \<Rightarrow> DisplayReceiver_next rest r)"

section \<open>Ordered maps, continued\<close>

definition bt_ok :: "('k::linorder, 'v) btree \<Rightarrow> bool" where
  "bt_ok m \<longleftrightarrow> sorted_wrt (<) (map fst m)"

lemma bt_ok_distinct: "bt_ok m \<Longrightarrow> distinct (map fst m)"
  by (simp add: bt_ok_def strict_sorted_iff)

lemma map_of_bt_insert [simp]: "map_of (bt_insert k v m) = (map_of m)(k \<mapsto> v)"
  by (induction k v m rule: bt_insert.induct) (auto simp: fun_eq_iff)

lemma set_bt_insert: "fst ` set (bt_insert k v m) = insert k (fst ` set m)"
  by (induction k v m rule: bt_insert.induct) auto

lemma bt_ok_insert [simp]: "bt_ok m \<Longrightarrow> bt_ok (bt_insert k v m)"
proof (induction k v m rule: bt_insert.induct)
  case (2 k v k' v' m)
  then show ?case using set_bt_insert [of k v m] by (auto simp: bt_ok_def)
qed (simp add: bt_ok_def)

lemma map_of_bt_retain [simp]: "map_of (bt_retain P m) k = (if P k then map_of m k else None)"
  by (induction m) (auto simp: bt_retain_def)

lemma bt_ok_filter: "bt_ok m \<Longrightarrow> bt_ok (filter P m)"
  unfolding bt_ok_def by (induction m) (auto simp: sorted_wrt_filter)

lemma bt_ok_retain [simp]: "bt_ok m \<Longrightarrow> bt_ok (bt_retain P m)"
  by (simp add: bt_retain_def bt_ok_filter)

lemma bt_ok_range [simp]: "bt_ok m \<Longrightarrow> bt_ok (bt_range_from b m)"
  by (simp add: bt_range_from_def bt_ok_filter split: option.split)

lemma set_bt_range: "e \<in> set (bt_range_from b m) \<longleftrightarrow> e \<in> set m \<and> (case b of None \<Rightarrow> True | Some k \<Rightarrow> k < fst e)"
  by (cases e) (auto simp: bt_range_from_def split: option.split)

lemma find_SomeD: "find P m = Some e \<Longrightarrow> e \<in> set m \<and> P e"
  by (induction m) (auto split: if_splits)

lemma find_append: "find P (xs @ ys) = (case find P xs of None \<Rightarrow> find P ys | Some e \<Rightarrow> Some e)"
  by (induction xs) simp_all

lemma find_least:
  "bt_ok m \<Longrightarrow> find P m = Some e \<Longrightarrow> e' \<in> set m \<Longrightarrow> P e' \<Longrightarrow> fst e \<le> fst e'"
  by (induction m) (auto simp: bt_ok_def split: if_splits)

section \<open>The mailbox it implements\<close>

text \<open>
  What a receiver sees is a mailbox with one slot per surface: the newest value of each surface and the
  set of surfaces whose value it has not taken yet.
\<close>

definition pending :: "'a DisplaySender \<Rightarrow> 'a DisplayReceiver \<Rightarrow> SurfaceKey set" where
  "pending s r = {k. \<exists>arc. map_of (sn_values (ds_snapshot s)) k = Some arc \<and> unseen (dr_seen r) (k, arc)}"

definition mailbox :: "'a DisplaySender \<Rightarrow> 'a DisplayReceiver \<Rightarrow> (SurfaceKey \<rightharpoonup> 'a) \<times> SurfaceKey set" where
  "mailbox s r = (\<lambda>k. map_option snd (map_of (sn_values (ds_snapshot s)) k), pending s r)"

definition stamps_below :: "nat \<Rightarrow> ('k, nat \<times> 'a) btree \<Rightarrow> bool" where
  "stamps_below n m \<longleftrightarrow> (\<forall>k arc. map_of m k = Some arc \<longrightarrow> fst arc < n)"

lemma stamps_below_insert: "stamps_below n m \<Longrightarrow> fst arc < n \<Longrightarrow> stamps_below n (bt_insert k arc m)"
  unfolding stamps_below_def map_of_bt_insert fun_upd_apply by (metis option.inject)

lemma stamps_below_retain: "stamps_below n m \<Longrightarrow> stamps_below n (bt_retain P m)"
  by (simp add: stamps_below_def)

lemma stamps_below_mono: "stamps_below n m \<Longrightarrow> n \<le> n' \<Longrightarrow> stamps_below n' m"
  unfolding stamps_below_def by (meson less_le_trans)

lemma stamps_belowD: "stamps_below n m \<Longrightarrow> map_of m k = Some arc \<Longrightarrow> fst arc < n"
  unfolding stamps_below_def by blast

definition updates_ok :: "'a DisplaySender \<Rightarrow> 'a DisplayReceiver \<Rightarrow> bool" where
  "updates_ok s r \<longleftrightarrow> bt_ok (sn_values (ds_snapshot s)) \<and> stamps_below (ds_allocated s) (dr_seen r) \<and>
     stamps_below (ds_allocated s) (sn_values (ds_snapshot s))"

lemma updates_ok_init: "updates_ok (fst display_updates) (snd display_updates)"
  by (simp add: display_updates_def updates_ok_def bt_ok_def stamps_below_def)

lemma updates_ok_sender:
  assumes "updates_ok s r"
  shows "updates_ok (DisplaySender_publish k v s) r" "updates_ok (DisplaySender_remove k s) r"
    "updates_ok (DisplaySender_clear_channel c s) r"
  using assms stamps_below_mono [of "ds_allocated s" _ "Suc (ds_allocated s)"]
  by (auto simp: updates_ok_def DisplaySender_publish_def DisplaySender_remove_def DisplaySender_clear_channel_def
      intro: stamps_below_insert stamps_below_retain)

lemma display_turn_cases:
  assumes "updates_ok s r"
  obtains (idle) r' where "display_turn (ds_snapshot s) r = (None, r')" "pending s r = {}" "mailbox s r' = mailbox s r"
      "updates_ok s r'" "dr_previous r' = dr_previous r"
    | (served) k arc r' where "display_turn (ds_snapshot s) r = (Some (k, arc), r')" "k \<in> pending s r"
      "map_of (sn_values (ds_snapshot s)) k = Some arc" "pending s r' = pending s r - {k}" "updates_ok s r'"
      "dr_previous r' = Some k"
      "\<And>j. j \<in> pending s r \<Longrightarrow> (case dr_previous r of None \<Rightarrow> k \<le> j
         | Some p \<Rightarrow> if p < j then p < k \<and> k \<le> j else p < k \<or> k \<le> j)"
proof -
  let ?v = "sn_values (ds_snapshot s)"
  define seen where "seen = bt_retain (\<lambda>k. map_of ?v k \<noteq> None) (dr_seen r)"
  define xs where "xs = bt_range_from (dr_previous r) ?v"
  have ok: "bt_ok ?v" and ok': "bt_ok xs" using assms by (simp_all add: updates_ok_def xs_def)
  have mem: "(k, a) \<in> set ?v \<longleftrightarrow> map_of ?v k = Some a" for k a
    using bt_ok_distinct [OF ok] by (simp add: map_of_eq_Some_iff)
  have un: "unseen seen (k, a) \<longleftrightarrow> unseen (dr_seen r) (k, a)" if "map_of ?v k = Some a" for k a
    using that by (simp add: unseen_def seen_def)
  have seen_ok: "stamps_below (ds_allocated s) seen"
    using assms by (simp add: seen_def updates_ok_def stamps_below_retain)
  have pend: "j \<in> pending s r \<longleftrightarrow> (\<exists>a. (j, a) \<in> set ?v \<and> unseen seen (j, a))" for j
    using un unfolding pending_def mem by blast
  show thesis
  proof (cases "find (unseen seen) (xs @ ?v)")
    case None
    then have "pending s r = {}" using pend unfolding find_None_iff set_append by blast
    moreover have "pending s (r\<lparr>dr_seen := seen\<rparr>) = pending s r"
      using un unfolding pending_def by auto
    ultimately show thesis
      using None assms seen_ok by (intro idle [of "r\<lparr>dr_seen := seen\<rparr>"])
        (auto simp: display_turn_def seen_def xs_def mailbox_def updates_ok_def)
  next
    case (Some e)
    obtain k a where e: "e = (k, a)" by (cases e)
    let ?r = "\<lparr>dr_seen = bt_insert k a seen, dr_previous = Some k\<rparr>"
    from find_SomeD [OF Some] have f: "(k, a) \<in> set xs \<or> (k, a) \<in> set ?v" "unseen seen (k, a)" by (simp_all add: e)
    then have "(k, a) \<in> set ?v" unfolding xs_def set_bt_range by blast
    then have v: "map_of ?v k = Some a" unfolding mem .
    have k: "k \<in> pending s r" using f(2) v unfolding pend mem by blast
    have "pending s ?r = pending s r - {k}"
      using un v by (auto simp: pending_def unseen_def split: if_splits)
    moreover have "case dr_previous r of None \<Rightarrow> k \<le> j | Some p \<Rightarrow> if p < j then p < k \<and> k \<le> j else p < k \<or> k \<le> j"
      if "j \<in> pending s r" for j
    proof -
      from that obtain b where b: "(j, b) \<in> set ?v" "unseen seen (j, b)" by (auto simp: pend)
      consider "find (unseen seen) xs = Some e" | "find (unseen seen) xs = None" "find (unseen seen) ?v = Some e"
        using Some by (auto simp: find_append split: option.splits)
      then show ?thesis
      proof cases
        case 1
        from find_SomeD [OF 1] have ex: "e \<in> set xs" ..
        have "k \<le> j" if "(j, b) \<in> set xs" using find_least [OF ok' 1 that b(2)] by (simp add: e)
        then show ?thesis using ex b(1) by (auto simp: e xs_def set_bt_range split: option.splits)
      next
        case 2
        have "(j, b) \<notin> set xs" using 2(1) b(2) unfolding find_None_iff by blast
        moreover have "k \<le> j" using find_least [OF ok 2(2) b] by (simp add: e)
        ultimately show ?thesis using b(1) by (auto simp: xs_def set_bt_range split: option.splits)
      qed
    qed
    ultimately show thesis
      using Some assms seen_ok v k by (intro served [of k a ?r])
        (auto simp: display_turn_def seen_def xs_def updates_ok_def e stamps_below_insert stamps_belowD)
  qed
qed

lemma unseen_fresh: "stamps_below n seen \<Longrightarrow> unseen seen (k, (n, v))"
  unfolding unseen_def by (auto split: option.split dest: stamps_belowD)

lemma mailbox_sender:
  assumes "updates_ok s r"
  shows "mailbox (DisplaySender_publish k v s) r = ((fst (mailbox s r))(k \<mapsto> v), insert k (snd (mailbox s r)))"
    "mailbox (DisplaySender_remove k s) r = ((fst (mailbox s r))(k := None), snd (mailbox s r) - {k})"
    "mailbox (DisplaySender_clear_channel c s) r =
      ((\<lambda>k. if fst k = c then None else fst (mailbox s r) k), {k \<in> snd (mailbox s r). fst k \<noteq> c})"
proof -
  have below: "stamps_below (ds_allocated s) (dr_seen r)" using assms by (simp add: updates_ok_def)
  show "mailbox (DisplaySender_publish k v s) r = ((fst (mailbox s r))(k \<mapsto> v), insert k (snd (mailbox s r)))"
    using unseen_fresh [OF below, of k v]
    by (auto simp: mailbox_def pending_def DisplaySender_publish_def fun_eq_iff)
  show "mailbox (DisplaySender_remove k s) r = ((fst (mailbox s r))(k := None), snd (mailbox s r) - {k})"
    by (auto simp: mailbox_def pending_def DisplaySender_remove_def fun_eq_iff)
  show "mailbox (DisplaySender_clear_channel c s) r =
      ((\<lambda>k. if fst k = c then None else fst (mailbox s r) k), {k \<in> snd (mailbox s r). fst k \<noteq> c})"
    by (auto simp: mailbox_def pending_def DisplaySender_clear_channel_def fun_eq_iff)
qed

lemma mailbox_turn:
  assumes "updates_ok s r"
  shows "case display_turn (ds_snapshot s) r of
       (None, r') \<Rightarrow> snd (mailbox s r) = {} \<and> mailbox s r' = mailbox s r
     | (Some (k, arc), r') \<Rightarrow> k \<in> snd (mailbox s r) \<and> fst (mailbox s r) k = Some (snd arc) \<and>
         mailbox s r' = (fst (mailbox s r), snd (mailbox s r) - {k})"
  using assms by (cases rule: display_turn_cases) (auto simp: mailbox_def)

text \<open>C16: the update channel implements a mailbox with one slot per surface. Publishing fills the slot and marks it
  pending, removing a surface or clearing a channel empties the slots concerned, and a receiver's look takes
  one pending slot with exactly its newest value, or finds nothing if and only if nothing is pending. No value
  is delivered twice and no removed or superseded value is delivered.\<close>

theorem updates_refine_mailbox:
  assumes "updates_ok s r"
  shows "mailbox (DisplaySender_publish k v s) r = ((fst (mailbox s r))(k \<mapsto> v), insert k (snd (mailbox s r))) \<and>
    mailbox (DisplaySender_remove k s) r = ((fst (mailbox s r))(k := None), snd (mailbox s r) - {k}) \<and>
    mailbox (DisplaySender_clear_channel c s) r =
      ((\<lambda>k. if fst k = c then None else fst (mailbox s r) k), {k \<in> snd (mailbox s r). fst k \<noteq> c}) \<and>
    (case display_turn (ds_snapshot s) r of
       (None, r') \<Rightarrow> snd (mailbox s r) = {} \<and> mailbox s r' = mailbox s r
     | (Some (k, arc), r') \<Rightarrow> k \<in> snd (mailbox s r) \<and> fst (mailbox s r) k = Some (snd arc) \<and>
         mailbox s r' = (fst (mailbox s r), snd (mailbox s r) - {k}))"
  by (intro conjI mailbox_sender mailbox_turn assms)

theorem updates_refine_mailbox_witness:
  "mailbox (DisplaySender_publish (0, 0) CHR ''a'' (fst display_updates)) (snd display_updates) =
     ([(0, 0) \<mapsto> CHR ''a''], {(0, 0)})"
  using updates_refine_mailbox [OF updates_ok_init, of "(0, 0)" "CHR ''a''" 0]
  by (simp add: mailbox_def pending_def display_updates_def)

section \<open>No surface starves\<close>

datatype 'a display_event =
    Event_Publish SurfaceKey 'a
  | Event_Remove SurfaceKey
  | Event_Clear u8
  | Event_Next

fun run_event :: "'a display_event \<Rightarrow> 'a DisplaySender \<Rightarrow> 'a DisplayReceiver \<Rightarrow>
    SurfaceKey list \<times> 'a DisplaySender \<times> 'a DisplayReceiver" where
  "run_event (Event_Publish k v) s r = ([], DisplaySender_publish k v s, r)"
| "run_event (Event_Remove k) s r = ([], DisplaySender_remove k s, r)"
| "run_event (Event_Clear c) s r = ([], DisplaySender_clear_channel c s, r)"
| "run_event Event_Next s r =
     (case display_turn (ds_snapshot s) r of (None, r') \<Rightarrow> ([], s, r') | (Some (k, _), r') \<Rightarrow> ([k], s, r'))"

text \<open>The surfaces a receiver serves along a history.\<close>

fun served :: "'a display_event list \<Rightarrow> 'a DisplaySender \<Rightarrow> 'a DisplayReceiver \<Rightarrow> SurfaceKey list" where
  "served [] s r = []"
| "served (e # es) s r = (case run_event e s r of (ks, s', r') \<Rightarrow> ks @ served es s' r')"

definition is_next :: "'a display_event \<Rightarrow> bool" where
  "is_next e = (case e of Event_Next \<Rightarrow> True | _ \<Rightarrow> False)"

text \<open>An event that leaves surface \<open>k\<close> alone and publishes only surfaces of \<open>K\<close>.\<close>

definition spares :: "SurfaceKey set \<Rightarrow> SurfaceKey \<Rightarrow> 'a display_event \<Rightarrow> bool" where
  "spares K k e = (case e of Event_Publish j _ \<Rightarrow> j \<in> K | Event_Remove j \<Rightarrow> j \<noteq> k | Event_Clear c \<Rightarrow> c \<noteq> fst k | Event_Next \<Rightarrow> True)"

text \<open>The surfaces that may be served before \<open>k\<close>: those between the last one served and \<open>k\<close>, cyclically.\<close>

definition ahead :: "'k::linorder set \<Rightarrow> 'k option \<Rightarrow> 'k \<Rightarrow> 'k set" where
  "ahead K previous k = {j \<in> K. case previous of None \<Rightarrow> j < k
     | Some p \<Rightarrow> if p < k then p < j \<and> j < k else p < j \<or> j < k}"

definition known :: "SurfaceKey set \<Rightarrow> 'a DisplaySender \<Rightarrow> bool" where
  "known K s \<longleftrightarrow> dom (map_of (sn_values (ds_snapshot s))) \<subseteq> K"

lemma ahead_psubset:
  assumes "j \<in> ahead K previous k"
  shows "ahead K (Some j) k \<subset> ahead K previous k"
  using assms by (auto simp: ahead_def split: option.splits if_splits)

lemma known_event: "known K s \<Longrightarrow> spares K k e \<Longrightarrow> known K (fst (snd (run_event e s r)))"
  by (cases e) (auto simp: known_def spares_def DisplaySender_publish_def DisplaySender_remove_def
      DisplaySender_clear_channel_def dom_def split: if_splits prod.splits option.splits)

lemma ok_event: "updates_ok s r \<Longrightarrow> updates_ok (fst (snd (run_event e s r))) (snd (snd (run_event e s r)))"
proof (cases e)
  case Event_Next
  assume "updates_ok s r"
  then show ?thesis by (cases rule: display_turn_cases) (auto simp: Event_Next)
qed (simp_all add: updates_ok_sender)

lemma served_eventually:
  assumes "finite K" "updates_ok s r" "known K s" "k \<in> pending s r" "list_all (spares K k) es"
    "card (ahead K (dr_previous r) k) < length (filter is_next es)"
  shows "k \<in> set (served es s r)"
  using assms(2-)
proof (induction es arbitrary: s r)
  case (Cons e es)
  have sp: "spares K k e" "list_all (spares K k) es" using Cons.prems(4) by simp_all
  note ok = ok_event [OF Cons.prems(1), of e] and kn = known_event [OF Cons.prems(2) sp(1), of r]
  have keep: "k \<in> set (served (e # es) s r)" if e: "run_event e s r = ([], s', r)" "\<not> is_next e" "k \<in> pending s' r" for s'
    using Cons.IH [of s' r] ok kn e sp(2) Cons.prems(5) by simp
  show ?case
  proof (cases e)
    case (Event_Publish j v)
    then show ?thesis using mailbox_sender(1) [OF Cons.prems(1), of j v] Cons.prems(3)
      by (intro keep [of "DisplaySender_publish j v s"]) (simp_all add: is_next_def mailbox_def)
  next
    case (Event_Remove j)
    then show ?thesis using mailbox_sender(2) [OF Cons.prems(1), of j] Cons.prems(3) sp(1)
      by (intro keep [of "DisplaySender_remove j s"]) (auto simp: is_next_def mailbox_def spares_def)
  next
    case (Event_Clear c)
    then show ?thesis using mailbox_sender(3) [OF Cons.prems(1), of c] Cons.prems(3) sp(1)
      by (intro keep [of "DisplaySender_clear_channel c s"]) (auto simp: is_next_def mailbox_def spares_def)
  next
    case Event_Next
    show ?thesis using Cons.prems(1)
    proof (cases rule: display_turn_cases)
      case (idle r')
      then show ?thesis using Cons.prems(3) by simp
    next
      case (served j arc r')
      show ?thesis
      proof (cases "j = k")
        case False
        have "j \<in> K" using served(3) Cons.prems(2) by (auto simp: known_def dom_def)
        with served(7) [OF Cons.prems(3)] False have "j \<in> ahead K (dr_previous r) k"
          by (auto simp: ahead_def split: option.splits if_splits)
        from ahead_psubset [OF this] have "card (ahead K (Some j) k) < card (ahead K (dr_previous r) k)"
          using assms(1) by (intro psubset_card_mono) (simp_all add: ahead_def)
        then have "k \<in> set (served es s r')"
          using Cons.prems(2,3,5) served(4-6) sp(2) False by (intro Cons.IH) (auto simp: Event_Next is_next_def)
        then show ?thesis using served(1) by (simp add: Event_Next)
      qed (use served(1) in \<open>simp add: Event_Next\<close>)
    qed
  qed
qed simp

text \<open>C34: a busy surface never starves a quiet one. From any state of the channel, in any history in which
  publications concern at most \<open>card K\<close> surfaces and the surface \<open>k\<close> is neither removed nor cleared, a pending
  surface \<open>k\<close> is served within \<open>card K\<close> calls of \<open>next\<close>, however many new values the other surfaces publish
  between the calls.\<close>

theorem pending_surface_served:
  assumes "finite K" "updates_ok s r" "known K s" "k \<in> pending s r" "list_all (spares K k) es"
    "card K \<le> length (filter is_next es)"
  shows "k \<in> set (served es s r)"
proof (rule served_eventually [OF assms(1-5)])
  have "k \<in> K" using assms(3,4) by (auto simp: known_def pending_def)
  then have "ahead K (dr_previous r) k \<subset> K" by (auto simp: ahead_def split: option.splits if_splits)
  from psubset_card_mono [OF assms(1) this] assms(6)
  show "card (ahead K (dr_previous r) k) < length (filter is_next es)" by linarith
qed

text \<open>Surface (0, 0) republishes after every look, and (1, 0) is served all the same.\<close>

theorem pending_surface_served_witness:
  "(1, 0) \<in> set (served [Event_Next, Event_Publish (0, 0) CHR ''c'', Event_Next]
     (DisplaySender_publish (1, 0) CHR ''b'' (DisplaySender_publish (0, 0) CHR ''a'' (fst display_updates))) (snd display_updates))"
proof (rule pending_surface_served [where K = "{(0, 0), (1, 0)}"])
  show "updates_ok (DisplaySender_publish (1, 0) CHR ''b'' (DisplaySender_publish (0, 0) CHR ''a'' (fst display_updates))) (snd display_updates)"
    by (intro updates_ok_sender updates_ok_init)
qed (simp_all add: known_def pending_def display_updates_def DisplaySender_publish_def unseen_def spares_def is_next_def)

section \<open>Waiting for the next update\<close>

text \<open>A call of \<open>next\<close> returns at once when something is pending, and otherwise looks again after the next change.\<close>

lemma DisplayReceiver_next_pending:
  assumes "updates_ok s r" "pending s r \<noteq> {}"
  shows "\<exists>k v r'. DisplayReceiver_next (ds_snapshot s # rest) r = (Inr v, r') \<and> k \<in> pending s r \<and> fst (mailbox s r) k = Some v"
  using assms(1)
proof (cases rule: display_turn_cases)
  case (served k arc r')
  then show ?thesis by (intro exI [of _ k]) (simp add: mailbox_def)
qed (use assms(2) in simp)

lemma DisplayReceiver_next_idle:
  assumes "updates_ok s r" "pending s r = {}"
  shows "\<exists>r'. DisplayReceiver_next (ds_snapshot s # rest) r = DisplayReceiver_next rest r' \<and> mailbox s r' = mailbox s r"
  using assms(1) by (cases rule: display_turn_cases) (use assms(2) in auto)

lemma DisplayReceiver_latest_publish: "DisplayReceiver_latest (ds_snapshot (DisplaySender_publish k v s)) = Some v"
  by (simp add: DisplayReceiver_latest_def DisplaySender_publish_def)

lemma DisplayReceiver_latest_remove: "DisplayReceiver_latest (ds_snapshot s) = Some v \<Longrightarrow>
   DisplayReceiver_latest (ds_snapshot (DisplaySender_remove k s)) =
     (if sn_latest (ds_snapshot s) = Some k then None else Some v)"
  by (auto simp: DisplayReceiver_latest_def DisplaySender_remove_def Option.bind_eq_Some_conv)

end
