(* ===== verification/Codec_Lz.thy ===== *)
theory Codec_Lz
  imports Codec_Common
begin

text \<open>
  The SPICE LZ image decoder (\<open>lz.rs\<close> of the codecs crate).

  The stateful closure \<open>should_cancel\<close> is a function from the number of the poll to its answer, and
  the number of polls made so far is part of the state. The decompressor is modelled turn by turn,
  with its back-reference copies unit by unit.

  Shown here: the decompressor ends on every input; no function panics; a successful decode has
  exactly the declared number of pixels within the caller's limits and has consumed the whole input;
  the decompressor inverts an encoder of literal runs and back references; overlapping copies repeat
  their period; and output rows are top-down whatever the declared orientation.
\<close>

section \<open>Errors and the big-endian reader (lz.rs)\<close>

datatype LzErrorKind =
    LzErrorKind_Truncated | LzErrorKind_InvalidHeader | LzErrorKind_InvalidBackReference
  | LzErrorKind_OutputOverflow | LzErrorKind_ResourceLimit | LzErrorKind_UnsupportedType
  | LzErrorKind_MissingPalette | LzErrorKind_UnexpectedPalette | LzErrorKind_InvalidPaletteIndex
  | LzErrorKind_TrailingData | LzErrorKind_Cancelled

record LzError =
  lz_kind :: LzErrorKind
  lz_context :: context_str

definition LzError_new :: "LzErrorKind \<Rightarrow> context_str \<Rightarrow> LzError" where
  "LzError_new k ctx = \<lparr>lz_kind = k, lz_context = ctx\<rparr>"

abbreviation lz_err :: "LzErrorKind \<Rightarrow> context_str \<Rightarrow> (LzError, 'a) outcome" where
  "lz_err k ctx \<equiv> Inl (Err (LzError_new k ctx))"

definition HEADER_BYTES :: nat where [simp]: "HEADER_BYTES = 28"
definition LZ_MAGIC :: u32 where [simp]: "LZ_MAGIC = 0x20205a4c"
definition LZ_VERSION :: u32 where [simp]: "LZ_VERSION = 0x00010001"
definition LITERAL_CONTROL_LIMIT :: u8 where [simp]: "LITERAL_CONTROL_LIMIT = 32"
definition EXTENDED_LENGTH_MARKER :: nat where [simp]: "EXTENDED_LENGTH_MARKER = 6"
definition LENGTH_EXTENSION_MAX :: u8 where [simp]: "LENGTH_EXTENSION_MAX = 255"
definition NEAR_DISTANCE_PREFIX :: nat where [simp]: "NEAR_DISTANCE_PREFIX = 7936"
definition NEAR_DISTANCE_MAX :: nat where [simp]: "NEAR_DISTANCE_MAX = 8191"
definition MAX_WINDOW_UNITS :: nat where [simp]: "MAX_WINDOW_UNITS = 33554432"
definition CANCELLATION_CHECK_INTERVAL :: nat where [simp]: "CANCELLATION_CHECK_INTERVAL = 4096"

record BigEndianReader =
  be_input :: "u8 list"
  be_offset :: nat

definition BigEndianReader_new :: "u8 list \<Rightarrow> BigEndianReader" where
  "BigEndianReader_new input = \<lparr>be_input = input, be_offset = 0\<rparr>"

definition BigEndianReader_remaining :: "BigEndianReader \<Rightarrow> nat" where
  "BigEndianReader_remaining r = length (be_input r) - be_offset r"

definition BigEndianReader_u8 :: "context_str \<Rightarrow> BigEndianReader \<Rightarrow> (LzError, u8 \<times> BigEndianReader) outcome" where
  "BigEndianReader_u8 ctx r =
     (if be_offset r < length (be_input r)
      then Inr (be_input r ! be_offset r, r\<lparr>be_offset := be_offset r + 1\<rparr>)
      else lz_err LzErrorKind_Truncated ctx)"

definition BigEndianReader_bytes ::
    "nat \<Rightarrow> context_str \<Rightarrow> BigEndianReader \<Rightarrow> (LzError, u8 list \<times> BigEndianReader) outcome" where
  "BigEndianReader_bytes n ctx r =
     and_then (ok_or (LzError_new LzErrorKind_Truncated ctx) (usize_checked_add (be_offset r) n)) (\<lambda>end_offset.
     and_then (ok_or (LzError_new LzErrorKind_Truncated ctx)
                (slice_get (be_input r) (be_offset r) end_offset)) (\<lambda>bytes.
     Inr (bytes, r\<lparr>be_offset := end_offset\<rparr>)))"

definition BigEndianReader_u32 :: "context_str \<Rightarrow> BigEndianReader \<Rightarrow> (LzError, u32 \<times> BigEndianReader) outcome" where
  "BigEndianReader_u32 ctx r =
     and_then (BigEndianReader_bytes 4 ctx r) (\<lambda>(bytes, r).
     and_then (expect (if length bytes = 4 then Some bytes else None)) (\<lambda>bytes.
     Inr (from_be bytes, r)))"

section \<open>Image types and limits\<close>

record DecodeLimits =
  maximum_width :: u32
  maximum_height :: u32
  maximum_output_bytes :: nat

datatype LzImageType =
    LzImageType_Palette1Le | LzImageType_Palette1Be | LzImageType_Palette4Le | LzImageType_Palette4Be
  | LzImageType_Palette8 | LzImageType_Rgb16 | LzImageType_Rgb24 | LzImageType_Rgb32 | LzImageType_Rgba
  | LzImageType_XxxAlpha | LzImageType_Alpha8

definition LzImageType_try_from :: "u32 \<Rightarrow> (LzError, LzImageType) outcome" where
  "LzImageType_try_from value =
     (if value = 1 then Inr LzImageType_Palette1Le
      else if value = 2 then Inr LzImageType_Palette1Be
      else if value = 3 then Inr LzImageType_Palette4Le
      else if value = 4 then Inr LzImageType_Palette4Be
      else if value = 5 then Inr LzImageType_Palette8
      else if value = 6 then Inr LzImageType_Rgb16
      else if value = 7 then Inr LzImageType_Rgb24
      else if value = 8 then Inr LzImageType_Rgb32
      else if value = 9 then Inr LzImageType_Rgba
      else if value = 10 then Inr LzImageType_XxxAlpha
      else if value = 11 then Inr LzImageType_Alpha8
      else lz_err LzErrorKind_UnsupportedType STR ''image type'')"

fun LzImageType_expected_stride :: "LzImageType \<Rightarrow> nat \<Rightarrow> nat option" where
  "LzImageType_expected_stride LzImageType_Palette1Le width = map_option (\<lambda>v. v div 8) (usize_checked_add width 7)"
| "LzImageType_expected_stride LzImageType_Palette1Be width = map_option (\<lambda>v. v div 8) (usize_checked_add width 7)"
| "LzImageType_expected_stride LzImageType_Palette4Le width = map_option (\<lambda>v. v div 2) (usize_checked_add width 1)"
| "LzImageType_expected_stride LzImageType_Palette4Be width = map_option (\<lambda>v. v div 2) (usize_checked_add width 1)"
| "LzImageType_expected_stride LzImageType_Palette8 width = Some width"
| "LzImageType_expected_stride LzImageType_Alpha8 width = Some width"
| "LzImageType_expected_stride LzImageType_Rgb16 width = usize_checked_mul width 2"
| "LzImageType_expected_stride LzImageType_Rgb24 width = usize_checked_mul width 3"
| "LzImageType_expected_stride LzImageType_Rgb32 width = usize_checked_mul width 4"
| "LzImageType_expected_stride LzImageType_Rgba width = usize_checked_mul width 4"
| "LzImageType_expected_stride LzImageType_XxxAlpha width = usize_checked_mul width 4"

fun LzImageType_match_length_bias :: "LzImageType \<Rightarrow> nat" where
  "LzImageType_match_length_bias LzImageType_Rgb16 = 2"
| "LzImageType_match_length_bias LzImageType_Rgb24 = 1"
| "LzImageType_match_length_bias LzImageType_Rgb32 = 1"
| "LzImageType_match_length_bias LzImageType_Rgba = 1"
| "LzImageType_match_length_bias _ = 3"

fun LzImageType_compressed_unit_bytes :: "LzImageType \<Rightarrow> nat" where
  "LzImageType_compressed_unit_bytes LzImageType_Rgb16 = 2"
| "LzImageType_compressed_unit_bytes LzImageType_Rgb24 = 3"
| "LzImageType_compressed_unit_bytes LzImageType_Rgb32 = 3"
| "LzImageType_compressed_unit_bytes LzImageType_Rgba = 3"
| "LzImageType_compressed_unit_bytes _ = 1"

fun LzImageType_is_palette :: "LzImageType \<Rightarrow> bool" where
  "LzImageType_is_palette LzImageType_Palette1Le = True"
| "LzImageType_is_palette LzImageType_Palette1Be = True"
| "LzImageType_is_palette LzImageType_Palette4Le = True"
| "LzImageType_is_palette LzImageType_Palette4Be = True"
| "LzImageType_is_palette LzImageType_Palette8 = True"
| "LzImageType_is_palette _ = False"

datatype DecodedPixels = DecodedPixels_Rgba "u8 list" | DecodedPixels_Alpha8 "u8 list"

record DecodedImage =
  di_width :: u32
  di_height :: u32
  di_top_down :: bool
  di_image_type :: LzImageType
  di_pixels :: DecodedPixels

section \<open>The decompressor\<close>

definition ensure_output_room :: "nat \<Rightarrow> nat \<Rightarrow> nat \<Rightarrow> (LzError, unit) outcome" where
  "ensure_output_room produced additional expected =
     (case usize_checked_add produced additional of
        None \<Rightarrow> lz_err LzErrorKind_OutputOverflow STR ''stream units''
      | Some subtotal \<Rightarrow>
          if subtotal > expected then lz_err LzErrorKind_OutputOverflow STR ''stream units''
          else Inr ())"

text \<open>
  \<open>progress.is_multiple_of(CANCELLATION_CHECK_INTERVAL) && should_cancel()\<close>: the closure is polled only
  at multiples of the interval. The result is the new number of polls.
\<close>

definition poll_every :: "(nat \<Rightarrow> bool) \<Rightarrow> nat \<Rightarrow> context_str \<Rightarrow> nat \<Rightarrow> (LzError, nat) outcome" where
  "poll_every should_cancel progress ctx polls =
     (if progress mod CANCELLATION_CHECK_INTERVAL = 0
      then if should_cancel polls then lz_err LzErrorKind_Cancelled ctx else Inr (polls + 1)
      else Inr polls)"

text \<open>The \<open>loop\<close> over match length extension bytes.\<close>

function lz_extend ::
    "(nat \<Rightarrow> bool) \<Rightarrow> nat \<Rightarrow> nat \<Rightarrow> BigEndianReader \<Rightarrow> nat \<Rightarrow>
     (LzError, nat \<times> BigEndianReader \<times> nat) outcome" where
  "lz_extend should_cancel match_units extension_bytes r polls =
     and_then (BigEndianReader_u8 STR ''match length extension'' r) (\<lambda>(extension, r).
     and_then (ok_or (LzError_new LzErrorKind_OutputOverflow STR ''match length'')
                (usize_checked_add match_units (unat extension))) (\<lambda>match_units.
     and_then (poll_every should_cancel (extension_bytes + 1) STR ''decode'' polls) (\<lambda>polls.
     if extension \<noteq> LENGTH_EXTENSION_MAX then Inr (match_units, r, polls)
     else lz_extend should_cancel match_units (extension_bytes + 1) r polls)))"
  by pat_completeness auto
termination
  by (relation "measure (\<lambda>(c, m, e, r, p). length (be_input r) - be_offset r)")
     (auto simp: BigEndianReader_u8_def split: if_splits)

declare lz_extend.simps [simp del]

text \<open>The copy of a back reference, one unit per turn; \<open>remaining\<close> turns are left.\<close>

fun lz_copy ::
    "(nat \<Rightarrow> bool) \<Rightarrow> nat \<Rightarrow> nat \<Rightarrow> nat \<Rightarrow> nat \<Rightarrow> nat \<Rightarrow> u8 list \<Rightarrow> nat \<Rightarrow>
     (LzError, u8 list \<times> nat \<times> nat) outcome" where
  "lz_copy should_cancel unit_bytes distance 0 copied_units produced_units output polls =
     Inr (output, produced_units, polls)"
| "lz_copy should_cancel unit_bytes distance (Suc remaining) copied_units produced_units output polls =
     and_then (poll_every should_cancel copied_units STR ''decode'' polls) (\<lambda>polls.
     if produced_units < distance then Inl Panic
     else
     let source_unit = produced_units - distance;
         source_start = source_unit * unit_bytes;
         source_end = source_start + unit_bytes in
     and_then (slice_index output source_start source_end) (\<lambda>bytes.
     lz_copy should_cancel unit_bytes distance remaining (copied_units + 1) (produced_units + 1)
       (output @ bytes) polls))"

record lz_run =
  lr_reader :: BigEndianReader
  lr_polls :: nat
  lr_output :: "u8 list"
  lr_produced :: nat

definition lz_literal :: "nat \<Rightarrow> nat \<Rightarrow> u8 \<Rightarrow> lz_run \<Rightarrow> (LzError, lz_run) outcome" where
  "lz_literal expected_units unit_bytes control s =
     (let literal_units = unat control + 1 in
      and_then (ensure_output_room (lr_produced s) literal_units expected_units) (\<lambda>_.
      and_then (ok_or (LzError_new LzErrorKind_OutputOverflow STR ''literal bytes'')
                 (usize_checked_mul literal_units unit_bytes)) (\<lambda>literal_bytes.
      and_then (BigEndianReader_bytes literal_bytes STR ''literal bytes'' (lr_reader s)) (\<lambda>(bytes, r).
      Inr (s\<lparr>lr_reader := r, lr_output := lr_output s @ bytes,
             lr_produced := lr_produced s + literal_units\<rparr>)))))"

text \<open>The descriptor of a back reference: its length and its distance in units.\<close>

definition lz_reference ::
    "(nat \<Rightarrow> bool) \<Rightarrow> nat \<Rightarrow> u8 \<Rightarrow> BigEndianReader \<Rightarrow> nat \<Rightarrow>
     (LzError, nat \<times> nat \<times> BigEndianReader \<times> nat) outcome" where
  "lz_reference should_cancel match_bias control r polls =
     (let match_units = unat (drop_bit 5 control) - 1;
          distance_prefix = unat (control AND 0x1f) * 256 in
      and_then (if match_units = EXTENDED_LENGTH_MARKER
                then lz_extend should_cancel match_units 0 r polls
                else Inr (match_units, r, polls)) (\<lambda>(match_units, r, polls).
      and_then (BigEndianReader_u8 STR ''match distance'' r) (\<lambda>(distance_low, r).
      let encoded_distance = distance_prefix + unat distance_low in
      and_then (if distance_low = 255 \<and> distance_prefix = NEAR_DISTANCE_PREFIX
                then and_then (BigEndianReader_u8 STR ''far match distance'' r) (\<lambda>(far_high, r).
                     and_then (BigEndianReader_u8 STR ''far match distance'' r) (\<lambda>(far_low, r).
                     and_then (ok_or (LzError_new LzErrorKind_InvalidBackReference STR ''distance'')
                        (Option.bind (usize_checked_add (unat far_high * 256) (unat far_low))
                           (\<lambda>v. usize_checked_add v NEAR_DISTANCE_MAX))) (\<lambda>d. Inr (d, r))))
                else Inr (encoded_distance, r)) (\<lambda>(distance, r).
      and_then (ok_or (LzError_new LzErrorKind_InvalidBackReference STR ''distance'')
                 (usize_checked_add distance 1)) (\<lambda>distance.
      and_then (ok_or (LzError_new LzErrorKind_OutputOverflow STR ''match length'')
                 (usize_checked_add match_units match_bias)) (\<lambda>match_units.
      Inr (match_units, distance, r, polls)))))))"

definition lz_turn ::
    "(nat \<Rightarrow> bool) \<Rightarrow> nat \<Rightarrow> nat \<Rightarrow> nat \<Rightarrow> lz_run \<Rightarrow> (LzError, lz_run) outcome" where
  "lz_turn should_cancel expected_units unit_bytes match_bias s =
     and_then (poll_every should_cancel (lr_produced s) STR ''decode'' (lr_polls s)) (\<lambda>polls.
     and_then (BigEndianReader_u8 STR ''control byte'' (lr_reader s)) (\<lambda>(control, r).
     if control < LITERAL_CONTROL_LIMIT
     then lz_literal expected_units unit_bytes control (s\<lparr>lr_polls := polls, lr_reader := r\<rparr>)
     else
     and_then (lz_reference should_cancel match_bias control r polls) (\<lambda>(match_units, distance, r, polls).
     if distance = 0 \<or> distance > lr_produced s \<or> distance > MAX_WINDOW_UNITS
     then lz_err LzErrorKind_InvalidBackReference STR ''distance''
     else
     and_then (ensure_output_room (lr_produced s) match_units expected_units) (\<lambda>_.
     and_then (lz_copy should_cancel unit_bytes distance match_units 0 (lr_produced s) (lr_output s) polls)
       (\<lambda>(out, produced, polls).
     Inr \<lparr>lr_reader = r, lr_polls = polls, lr_output = out, lr_produced = produced\<rparr>)))))"


subsection \<open>Every turn consumes input\<close>

definition be_advance :: "BigEndianReader \<Rightarrow> BigEndianReader \<Rightarrow> bool" where
  "be_advance r r' \<longleftrightarrow> be_input r' = be_input r \<and> be_offset r \<le> be_offset r' \<and>
     (be_offset r \<le> length (be_input r) \<longrightarrow> be_offset r' \<le> length (be_input r))"

lemma be_advance_refl [simp]: "be_advance r r"
  by (simp add: be_advance_def)

lemma be_advance_trans: "be_advance r s \<Longrightarrow> be_advance s t \<Longrightarrow> be_advance r t"
  by (auto simp: be_advance_def)

lemma BigEndianReader_u8_Inr [simp]:
  "BigEndianReader_u8 ctx r = Inr (b, r') \<longleftrightarrow>
     be_offset r < length (be_input r) \<and> b = be_input r ! be_offset r \<and> r' = r\<lparr>be_offset := be_offset r + 1\<rparr>"
  by (auto simp: BigEndianReader_u8_def)

lemma BigEndianReader_bytes_Inr [simp]:
  "BigEndianReader_bytes n ctx r = Inr (bs, r') \<longleftrightarrow>
     be_offset r + n \<le> length (be_input r) \<and> be_offset r + n < usize_limit \<and>
     bs = take n (drop (be_offset r) (be_input r)) \<and> r' = r\<lparr>be_offset := be_offset r + n\<rparr>"
  by (auto simp: BigEndianReader_bytes_def)

lemma lz_extend_advance:
  "lz_extend c m e r p = Inr (m', r', p') \<Longrightarrow> be_advance r r' \<and> be_offset r < be_offset r' \<and> m \<le> m'"
proof (induction c m e r p arbitrary: m' r' p' rule: lz_extend.induct)
  case (1 c m e r p)
  let ?r = "r\<lparr>be_offset := be_offset r + 1\<rparr>" and ?x = "be_input r ! be_offset r"
  from "1.prems" obtain q where b: "be_offset r < length (be_input r)" "m + unat ?x < usize_limit"
    and q: "poll_every c (e + 1) STR ''decode'' p = Inr q"
    and k: "(if ?x \<noteq> 255 then Inr (m + unat ?x, ?r, q) else lz_extend c (m + unat ?x) (e + 1) ?r q) =
        Inr (m', r', p')"
    by (auto simp: lz_extend.simps [of c m e r p] simp del: One_nat_def add_Suc_right)
  have a: "be_advance r ?r" using b by (simp add: be_advance_def)
  show ?case
  proof (cases "?x = 255")
    case True
    with "1.IH" [of "(?x, ?r)" ?x ?r "m + unat ?x" q m' r' p'] b q k
    show ?thesis using be_advance_trans [OF a] by auto
  next
    case False
    with k a show ?thesis by auto
  qed
qed

lemma lz_reference_advance:
  assumes "lz_reference c b ctl r p = Inr (m, d, r', p')"
  shows "be_advance r r'"
  using assms
  by (auto simp: lz_reference_def Let_def be_advance_def dest!: lz_extend_advance split: if_splits)

lemma lz_turn_advance:
  assumes "lz_turn c n u b s = Inr s'"
  shows "be_advance (lr_reader s) (lr_reader s') \<and> be_offset (lr_reader s) < be_offset (lr_reader s') \<and>
         be_offset (lr_reader s) < length (be_input (lr_reader s))"
  using assms
  by (auto simp: lz_turn_def lz_literal_def Let_def be_advance_def dest!: lz_reference_advance split: if_splits)

function lz_loop ::
    "(nat \<Rightarrow> bool) \<Rightarrow> nat \<Rightarrow> nat \<Rightarrow> nat \<Rightarrow> lz_run \<Rightarrow> (LzError, lz_run) outcome" where
  "lz_loop should_cancel expected_units unit_bytes match_bias s =
     (if lr_produced s < expected_units
      then and_then (lz_turn should_cancel expected_units unit_bytes match_bias s)
             (lz_loop should_cancel expected_units unit_bytes match_bias)
      else Inr s)"
  by pat_completeness auto
termination
  by (relation "measure (\<lambda>(c, n, u, b, s). length (be_input (lr_reader s)) - be_offset (lr_reader s))")
     (auto dest!: lz_turn_advance simp: be_advance_def)

declare lz_loop.simps [simp del]

definition decompress_units ::
    "(nat \<Rightarrow> bool) \<Rightarrow> BigEndianReader \<Rightarrow> nat \<Rightarrow> nat \<Rightarrow> nat \<Rightarrow> nat \<Rightarrow>
     (LzError, u8 list \<times> BigEndianReader \<times> nat) outcome" where
  "decompress_units should_cancel r expected_units unit_bytes match_bias polls =
     and_then (ok_or (LzError_new LzErrorKind_ResourceLimit STR ''stream output'')
                (usize_checked_mul expected_units unit_bytes)) (\<lambda>_.
     and_then (lz_loop should_cancel expected_units unit_bytes match_bias
                 \<lparr>lr_reader = r, lr_polls = polls, lr_output = [], lr_produced = 0\<rparr>) (\<lambda>s.
     Inr (lr_output s, lr_reader s, lr_polls s)))"

section \<open>Pixel expansion\<close>

definition oriented_y :: "nat \<Rightarrow> nat \<Rightarrow> bool \<Rightarrow> nat" where
  "oriented_y storage_y height top_down = (if top_down then storage_y else height - storage_y - 1)"

definition expand_five_bits :: "u8 \<Rightarrow> u8" where
  "expand_five_bits v = push_bit 3 v OR drop_bit 2 v"

text \<open>
  Each expander allocates the output, and writes one pixel per turn of its inner loop. The pixel it
  writes is a definition of its own (\<open>direct_pixel\<close>, \<open>rgba_pixel\<close>, \<open>palette_pixel\<close>).
\<close>

fun direct_pixel :: "u8 list \<Rightarrow> LzImageType \<Rightarrow> nat \<Rightarrow> (LzError, u8 list) outcome" where
  "direct_pixel source LzImageType_Rgb16 source_start =
     and_then (index_at source source_start) (\<lambda>hi.
     and_then (index_at source (source_start + 1)) (\<lambda>lo.
     let v = (from_be [hi, lo] :: u16) in
     Inr [expand_five_bits (ucast (drop_bit 10 v AND 0x1f)),
          expand_five_bits (ucast (drop_bit 5 v AND 0x1f)),
          expand_five_bits (ucast (v AND 0x1f)), 255]))"
| "direct_pixel source image_type source_start =
     (if image_type = LzImageType_Rgb24 \<or> image_type = LzImageType_Rgb32
      then and_then (index_at source (source_start + 2)) (\<lambda>red.
           and_then (index_at source (source_start + 1)) (\<lambda>green.
           and_then (index_at source source_start) (\<lambda>blue.
           Inr [red, green, blue, 255])))
      else Inl Panic)"

definition direct_body ::
    "(nat \<Rightarrow> bool) \<Rightarrow> u8 list \<Rightarrow> LzImageType \<Rightarrow> nat \<Rightarrow> nat \<Rightarrow> bool \<Rightarrow> nat \<times> nat \<Rightarrow>
     u8 list \<times> nat \<Rightarrow> (LzError, u8 list \<times> nat) outcome" where
  "direct_body should_cancel source image_type width height top_down =
     (\<lambda>(storage_y, x) (out, polls).
      let unit_bytes = LzImageType_compressed_unit_bytes image_type;
          output_y = oriented_y storage_y height top_down;
          source_pixel = storage_y * width + x in
      and_then (poll_every should_cancel source_pixel STR ''pixel conversion'' polls) (\<lambda>polls.
      let source_start = source_pixel * unit_bytes;
          destination_start = (output_y * width + x) * 4 in
      and_then (direct_pixel source image_type source_start) (\<lambda>rgba.
      and_then (expect (copy_from_slice out destination_start rgba)) (\<lambda>out. Inr (out, polls)))))"

definition expand_direct_color ::
    "(nat \<Rightarrow> bool) \<Rightarrow> u8 list \<Rightarrow> LzImageType \<Rightarrow> nat \<Rightarrow> nat \<Rightarrow> bool \<Rightarrow> nat \<Rightarrow>
     (LzError, u8 list \<times> nat) outcome" where
  "expand_direct_color should_cancel source image_type width height top_down polls =
     for_each (\<lambda>storage_y.
       for_each (\<lambda>x. direct_body should_cancel source image_type width height top_down (storage_y, x))
         [0..<width]) [0..<height] (replicate (width * height * 4) 0, polls)"

definition rgba_pixel :: "u8 list \<Rightarrow> u8 list \<Rightarrow> nat \<Rightarrow> (LzError, u8 list) outcome" where
  "rgba_pixel colors alpha source_pixel =
     (let color_start = source_pixel * 3 in
      and_then (index_at colors (color_start + 2)) (\<lambda>red.
      and_then (index_at colors (color_start + 1)) (\<lambda>green.
      and_then (index_at colors color_start) (\<lambda>blue.
      and_then (index_at alpha source_pixel) (\<lambda>a. Inr [red, green, blue, a])))))"

definition rgba_body ::
    "(nat \<Rightarrow> bool) \<Rightarrow> u8 list \<Rightarrow> u8 list \<Rightarrow> nat \<Rightarrow> nat \<Rightarrow> bool \<Rightarrow> nat \<times> nat \<Rightarrow>
     u8 list \<times> nat \<Rightarrow> (LzError, u8 list \<times> nat) outcome" where
  "rgba_body should_cancel colors alpha width height top_down =
     (\<lambda>(storage_y, x) (out, polls).
      let output_y = oriented_y storage_y height top_down;
          source_pixel = storage_y * width + x in
      and_then (poll_every should_cancel source_pixel STR ''pixel conversion'' polls) (\<lambda>polls.
      let destination_start = (output_y * width + x) * 4 in
      and_then (rgba_pixel colors alpha source_pixel) (\<lambda>rgba.
      and_then (expect (copy_from_slice out destination_start rgba)) (\<lambda>out. Inr (out, polls)))))"

definition expand_rgba ::
    "(nat \<Rightarrow> bool) \<Rightarrow> u8 list \<Rightarrow> u8 list \<Rightarrow> nat \<Rightarrow> nat \<Rightarrow> bool \<Rightarrow> nat \<Rightarrow>
     (LzError, u8 list \<times> nat) outcome" where
  "expand_rgba should_cancel colors alpha width height top_down polls =
     for_each (\<lambda>storage_y.
       for_each (\<lambda>x. rgba_body should_cancel colors alpha width height top_down (storage_y, x))
         [0..<width]) [0..<height] (replicate (width * height * 4) 0, polls)"

text \<open>The palette index of column \<open>x\<close> in one packed row.\<close>

fun palette_index :: "LzImageType \<Rightarrow> u8 list \<Rightarrow> nat \<Rightarrow> (LzError, nat) outcome" where
  "palette_index LzImageType_Palette1Le row x =
     and_then (index_at row (x div 8)) (\<lambda>b. Inr (unat (drop_bit (x mod 8) b AND 1)))"
| "palette_index LzImageType_Palette1Be row x =
     and_then (index_at row (x div 8)) (\<lambda>b. Inr (unat (drop_bit (7 - x mod 8) b AND 1)))"
| "palette_index LzImageType_Palette4Le row x =
     and_then (index_at row (x div 2)) (\<lambda>b.
     Inr (unat (if x mod 2 = 0 then b AND 0x0f else drop_bit 4 b)))"
| "palette_index LzImageType_Palette4Be row x =
     and_then (index_at row (x div 2)) (\<lambda>b.
     Inr (unat (if x mod 2 = 0 then drop_bit 4 b else b AND 0x0f)))"
| "palette_index LzImageType_Palette8 row x = and_then (index_at row x) (\<lambda>b. Inr (unat b))"
| "palette_index _ row x = Inl Panic"

definition palette_pixel ::
    "u8 list list \<Rightarrow> LzImageType \<Rightarrow> u8 list \<Rightarrow> nat \<Rightarrow> (LzError, u8 list) outcome" where
  "palette_pixel palette image_type row x =
     and_then (palette_index image_type row x) (\<lambda>index.
     ok_or (LzError_new LzErrorKind_InvalidPaletteIndex STR ''palette index'')
       (if index < length palette then Some (palette ! index) else None))"

record ImageGeometry =
  g_width :: nat
  g_height :: nat
  g_top_down :: bool

definition palette_body ::
    "(nat \<Rightarrow> bool) \<Rightarrow> u8 list list \<Rightarrow> LzImageType \<Rightarrow> ImageGeometry \<Rightarrow> u8 list \<Rightarrow> nat \<times> nat \<Rightarrow>
     u8 list \<times> nat \<Rightarrow> (LzError, u8 list \<times> nat) outcome" where
  "palette_body should_cancel palette image_type g row =
     (\<lambda>(storage_y, x) (out, polls).
      let output_y = oriented_y storage_y (g_height g) (g_top_down g);
          source_pixel = storage_y * g_width g + x in
      and_then (poll_every should_cancel source_pixel STR ''palette expansion'' polls) (\<lambda>polls.
      and_then (palette_pixel palette image_type row x) (\<lambda>color.
      let destination_start = (output_y * g_width g + x) * 4 in
      and_then (expect (copy_from_slice out destination_start color)) (\<lambda>out. Inr (out, polls)))))"

definition expand_palette ::
    "(nat \<Rightarrow> bool) \<Rightarrow> u8 list \<Rightarrow> u8 list list \<Rightarrow> LzImageType \<Rightarrow> ImageGeometry \<Rightarrow> nat \<Rightarrow> nat \<Rightarrow>
     (LzError, u8 list \<times> nat) outcome" where
  "expand_palette should_cancel indices palette image_type g stride polls =
     for_each (\<lambda>storage_y acc.
       and_then (slice_index indices (storage_y * stride) ((storage_y + 1) * stride)) (\<lambda>row.
       for_each (\<lambda>x. palette_body should_cancel palette image_type g row (storage_y, x))
         [0..<g_width g] acc))
       [0..<g_height g] (replicate (g_width g * g_height g * 4) 0, polls)"

definition orient_body ::
    "(nat \<Rightarrow> bool) \<Rightarrow> u8 list \<Rightarrow> nat \<Rightarrow> nat \<Rightarrow> nat \<Rightarrow> u8 list \<times> nat \<Rightarrow> (LzError, u8 list \<times> nat) outcome" where
  "orient_body should_cancel source width height storage_y =
     (\<lambda>(out, polls).
      if should_cancel polls then lz_err LzErrorKind_Cancelled STR ''row orientation''
      else
      let output_y = oriented_y storage_y height False in
      and_then (slice_index source (storage_y * width) ((storage_y + 1) * width)) (\<lambda>row.
      and_then (expect (copy_from_slice out (output_y * width) row)) (\<lambda>out. Inr (out, polls + 1))))"

definition orient_rows ::
    "(nat \<Rightarrow> bool) \<Rightarrow> u8 list \<Rightarrow> nat \<Rightarrow> nat \<Rightarrow> bool \<Rightarrow> nat \<Rightarrow> (LzError, u8 list \<times> nat) outcome" where
  "orient_rows should_cancel source width height top_down polls =
     (if top_down
      then if should_cancel polls then lz_err LzErrorKind_Cancelled STR ''row orientation''
           else Inr (source, polls + 1)
      else for_each (orient_body should_cancel source width height) [0..<height]
             (replicate (length source) 0, polls))"

section \<open>The image decoder\<close>

record LzHeader =
  lh_image_type :: LzImageType
  lh_width :: u32
  lh_height :: u32
  lh_stride :: u32
  lh_top_down :: bool

text \<open>The header reads and checks of \<open>decode_lz_with_cancel\<close>, up to the row orientation.\<close>

definition lz_header :: "u8 list \<Rightarrow> (LzError, LzHeader \<times> BigEndianReader) outcome" where
  "lz_header input =
     (if length input < HEADER_BYTES then lz_err LzErrorKind_Truncated STR ''header''
      else
      and_then (BigEndianReader_u32 STR ''magic'' (BigEndianReader_new input)) (\<lambda>(magic, r).
      if magic \<noteq> LZ_MAGIC then lz_err LzErrorKind_InvalidHeader STR ''magic or version'' else
      and_then (BigEndianReader_u32 STR ''version'' r) (\<lambda>(version, r).
      if version \<noteq> LZ_VERSION then lz_err LzErrorKind_InvalidHeader STR ''magic or version'' else
      and_then (BigEndianReader_u32 STR ''image type'' r) (\<lambda>(raw, r).
      and_then (LzImageType_try_from raw) (\<lambda>image_type.
      and_then (BigEndianReader_u32 STR ''width'' r) (\<lambda>(width, r).
      and_then (BigEndianReader_u32 STR ''height'' r) (\<lambda>(height, r).
      and_then (BigEndianReader_u32 STR ''stride'' r) (\<lambda>(stride, r).
      and_then (BigEndianReader_u32 STR ''row orientation'' r) (\<lambda>(orientation, r).
      and_then (if orientation = 0 then Inr False
                else if orientation = 1 then Inr True
                else lz_err LzErrorKind_InvalidHeader STR ''row orientation'') (\<lambda>top_down.
      Inr (\<lparr>lh_image_type = image_type, lh_width = width, lh_height = height, lh_stride = stride,
            lh_top_down = top_down\<rparr>, r)))))))))))"

text \<open>The checks between the header and the pixels; the result is the number of pixels.\<close>

definition lz_validate :: "u8 list list option \<Rightarrow> DecodeLimits \<Rightarrow> LzHeader \<Rightarrow> (LzError, nat) outcome" where
  "lz_validate palette limits h =
     (let width = lh_width h; height = lh_height h; image_type = lh_image_type h in
      if width = 0 \<or> height = 0 \<or> width > maximum_width limits \<or> height > maximum_height limits
      then lz_err LzErrorKind_ResourceLimit STR ''dimensions''
      else if LzImageType_expected_stride image_type (unat width) \<noteq> Some (unat (lh_stride h))
      then lz_err LzErrorKind_InvalidHeader STR ''stride''
      else
      and_then (ok_or (LzError_new LzErrorKind_ResourceLimit STR ''pixel count'')
                 (usize_checked_mul (unat width) (unat height))) (\<lambda>pixel_count.
      let output_bytes_per_pixel =
            if image_type = LzImageType_XxxAlpha \<or> image_type = LzImageType_Alpha8 then 1 else 4 in
      and_then (ok_or (LzError_new LzErrorKind_ResourceLimit STR ''output size'')
                 (usize_checked_mul pixel_count output_bytes_per_pixel)) (\<lambda>output_bytes.
      if output_bytes > maximum_output_bytes limits
      then lz_err LzErrorKind_ResourceLimit STR ''output size''
      else if LzImageType_is_palette image_type \<and> palette = None
      then lz_err LzErrorKind_MissingPalette STR ''palette''
      else if \<not> LzImageType_is_palette image_type \<and> palette \<noteq> None
      then lz_err LzErrorKind_UnexpectedPalette STR ''palette''
      else Inr pixel_count)))"

text \<open>The \<open>match image_type\<close> that decompresses and expands the pixels.\<close>

definition lz_pixels ::
    "(nat \<Rightarrow> bool) \<Rightarrow> u8 list list option \<Rightarrow> LzHeader \<Rightarrow> nat \<Rightarrow> BigEndianReader \<Rightarrow> nat \<Rightarrow>
     (LzError, DecodedPixels \<times> BigEndianReader \<times> nat) outcome" where
  "lz_pixels should_cancel palette h pixel_count r polls =
     (let image_type = lh_image_type h; width = unat (lh_width h); height = unat (lh_height h);
          stride = unat (lh_stride h); top_down = lh_top_down h;
          unit_bytes = LzImageType_compressed_unit_bytes image_type;
          bias = LzImageType_match_length_bias image_type in
      if LzImageType_is_palette image_type
      then and_then (ok_or (LzError_new LzErrorKind_ResourceLimit STR ''palette units'')
                      (usize_checked_mul stride height)) (\<lambda>unit_count.
           and_then (decompress_units should_cancel r unit_count unit_bytes bias polls) (\<lambda>(indices, r, polls).
           and_then (expect palette) (\<lambda>palette.
           and_then (expand_palette should_cancel indices palette image_type
                       \<lparr>g_width = width, g_height = height, g_top_down = top_down\<rparr> stride polls) (\<lambda>(out, polls).
           Inr (DecodedPixels_Rgba out, r, polls)))))
      else if image_type = LzImageType_Rgb16 \<or> image_type = LzImageType_Rgb24 \<or> image_type = LzImageType_Rgb32
      then and_then (decompress_units should_cancel r pixel_count unit_bytes bias polls) (\<lambda>(colors, r, polls).
           and_then (expand_direct_color should_cancel colors image_type width height top_down polls) (\<lambda>(out, polls).
           Inr (DecodedPixels_Rgba out, r, polls)))
      else if image_type = LzImageType_Rgba
      then and_then (decompress_units should_cancel r pixel_count unit_bytes bias polls) (\<lambda>(colors, r, polls).
           and_then (decompress_units should_cancel r pixel_count 1
                       (LzImageType_match_length_bias LzImageType_XxxAlpha) polls) (\<lambda>(alpha, r, polls).
           and_then (expand_rgba should_cancel colors alpha width height top_down polls) (\<lambda>(out, polls).
           Inr (DecodedPixels_Rgba out, r, polls))))
      else and_then (decompress_units should_cancel r pixel_count 1 bias polls) (\<lambda>(alpha, r, polls).
           and_then (orient_rows should_cancel alpha width height top_down polls) (\<lambda>(out, polls).
           Inr (DecodedPixels_Alpha8 out, r, polls))))"

definition decode_lz_with_cancel ::
    "u8 list \<Rightarrow> u8 list list option \<Rightarrow> DecodeLimits \<Rightarrow> (nat \<Rightarrow> bool) \<Rightarrow> (LzError, DecodedImage) outcome" where
  "decode_lz_with_cancel input palette limits should_cancel =
     (if should_cancel 0 then lz_err LzErrorKind_Cancelled STR ''decode''
      else
      and_then (lz_header input) (\<lambda>(h, r).
      and_then (lz_validate palette limits h) (\<lambda>pixel_count.
      and_then (lz_pixels should_cancel palette h pixel_count r 1) (\<lambda>(pixels, r, polls).
      if BigEndianReader_remaining r \<noteq> 0 then lz_err LzErrorKind_TrailingData STR ''compressed data''
      else if should_cancel polls then lz_err LzErrorKind_Cancelled STR ''decode''
      else Inr \<lparr>di_width = lh_width h, di_height = lh_height h, di_top_down = lh_top_down h,
                di_image_type = lh_image_type h, di_pixels = pixels\<rparr>))))"

definition decode_lz ::
    "u8 list \<Rightarrow> u8 list list option \<Rightarrow> DecodeLimits \<Rightarrow> (LzError, DecodedImage) outcome" where
  "decode_lz input palette limits = decode_lz_with_cancel input palette limits (\<lambda>_. False)"

section \<open>The decompressor never panics\<close>

text \<open>The state between turns: the output holds exactly the units counted, within the expected number.\<close>

definition lz_run_ok :: "nat \<Rightarrow> nat \<Rightarrow> lz_run \<Rightarrow> bool" where
  "lz_run_ok expected_units unit_bytes s \<longleftrightarrow>
     length (lr_output s) = lr_produced s * unit_bytes \<and> lr_produced s \<le> expected_units"

lemma no_panic_poll_every [no_panic_intros]: "no_panic (poll_every c n ctx p)"
  by (simp add: poll_every_def)

lemma no_panic_BigEndianReader [no_panic_intros]:
  "no_panic (BigEndianReader_u8 ctx r)" "no_panic (BigEndianReader_bytes n ctx r)"
  by (simp_all add: BigEndianReader_u8_def BigEndianReader_bytes_def no_panic_and_then)

lemma no_panic_BigEndianReader_u32 [no_panic_intros]: "no_panic (BigEndianReader_u32 ctx r)"
  by (auto simp: BigEndianReader_u32_def intro!: no_panic_intros)

lemma no_panic_ensure_output_room [no_panic_intros]: "no_panic (ensure_output_room a b n)"
  by (simp add: ensure_output_room_def split: option.split)

lemma ensure_output_room_Inr [simp]:
  "ensure_output_room a b n = Inr u \<longleftrightarrow> a + b \<le> n \<and> a + b < usize_limit"
  by (auto simp: ensure_output_room_def usize_checked_add_def)

lemma no_panic_lz_extend [no_panic_intros]: "no_panic (lz_extend c m e r p)"
proof (induction c m e r p rule: lz_extend.induct)
  case (1 c m e r p)
  show ?case
    unfolding lz_extend.simps [of c m e r p]
    by (intro no_panic_intros) (use 1 in auto)
qed

lemma no_panic_lz_reference [no_panic_intros]: "no_panic (lz_reference c b ctl r p)"
  unfolding lz_reference_def by (intro no_panic_intros)

lemma unit_slice: "d \<le> n \<Longrightarrow> 0 < d \<Longrightarrow> (n - d) * u + u \<le> n * (u :: nat)"
  using cell_end [of "n - d" n u] by simp

lemma no_panic_lz_copy:
  "0 < d \<Longrightarrow> d \<le> n \<Longrightarrow> length out = n * u \<Longrightarrow> no_panic (lz_copy c u d m k n out p)"
proof (induction m arbitrary: k n out p)
  case (Suc m)
  then show ?case
    using unit_slice [of d n u] by (auto simp: Let_def intro!: no_panic_intros Suc.IH)
qed simp

lemma lz_copy_length:
  "lz_copy c u d m k n out p = Inr (out', n', p') \<Longrightarrow> 0 < d \<Longrightarrow> d \<le> n \<Longrightarrow> length out = n * u \<Longrightarrow>
     length out' = n' * u \<and> n' = n + m"
proof (induction m arbitrary: k n out p)
  case (Suc m)
  note u = unit_slice [of d n u] Suc.prems(2-4)
  from Suc.prems u obtain q where
    "lz_copy c u d m (k + 1) (n + 1) (out @ take u (drop ((n - d) * u) out)) q = Inr (out', n', p')"
    by (auto simp: Let_def)
  from Suc.IH [OF this] u show ?case by simp
qed simp

lemma no_panic_lz_turn:
  "lz_run_ok n u s \<Longrightarrow> no_panic (lz_turn c n u b s)"
  unfolding lz_turn_def lz_literal_def Let_def
  by (intro no_panic_intros no_panic_lz_copy) (auto simp: lz_run_ok_def)

lemma lz_turn_ok:
  assumes "lz_turn c n u b s = Inr s'" "lz_run_ok n u s"
  shows "lz_run_ok n u s'"
  using assms
  by (auto simp: lz_turn_def lz_literal_def Let_def lz_run_ok_def algebra_simps dest!: lz_copy_length split: if_splits)

lemma no_panic_lz_loop: "lz_run_ok n u s \<Longrightarrow> no_panic (lz_loop c n u b s)"
proof (induction c n u b s rule: lz_loop.induct)
  case (1 c n u b s)
  show ?case
    unfolding lz_loop.simps [of c n u b s]
    by (intro no_panic_intros no_panic_lz_turn) (use 1 in \<open>auto intro: lz_turn_ok\<close>)
qed

lemma lz_loop_ok:
  "lz_loop c n u b s = Inr s' \<Longrightarrow> lz_run_ok n u s \<Longrightarrow>
     lz_run_ok n u s' \<and> lr_produced s' = n \<and> be_advance (lr_reader s) (lr_reader s')"
proof (induction c n u b s rule: lz_loop.induct)
  case (1 c n u b s)
  show ?case
  proof (cases "lr_produced s < n")
    case True
    with "1.prems" obtain t where t: "lz_turn c n u b s = Inr t" "lz_loop c n u b t = Inr s'"
      by (auto simp: lz_loop.simps [of c n u b s])
    from "1.IH" [OF True t lz_turn_ok [OF t(1) "1.prems"(2)]] lz_turn_advance [OF t(1)]
    show ?thesis by (blast intro: be_advance_trans)
  next
    case False
    with "1.prems" show ?thesis by (auto simp: lz_loop.simps [of c n u b s] lz_run_ok_def)
  qed
qed

lemma no_panic_decompress_units [no_panic_intros]: "no_panic (decompress_units c r n u b p)"
  unfolding decompress_units_def
  by (intro no_panic_intros no_panic_lz_loop) (simp add: lz_run_ok_def)

lemma decompress_units_Inr:
  assumes "decompress_units c r n u b p = Inr (out, r', p')"
  shows "length out = n * u" "be_advance r r'"
  using assms lz_loop_ok [of c n u b "\<lparr>lr_reader = r, lr_polls = p, lr_output = [], lr_produced = 0\<rparr>"]
  by (auto simp: decompress_units_def lz_run_ok_def)

section \<open>The expanders fill the image\<close>

lemma grid_bound: "y < h \<Longrightarrow> x < w \<Longrightarrow> y * w + x < w * (h :: nat)"
  using cell_end [of y h w] by (simp add: algebra_simps)

lemma grid_inj:
  assumes "y * w + x = y' * w + x'" "x < w" "x' < (w :: nat)"
  shows "y = y' \<and> x = x'"
proof -
  have "(y * w + x) div w = y" "(y' * w + x') div w = y'" using assms(2,3) by simp_all
  with assms(1) show ?thesis by auto
qed

lemma oriented_y_bound: "y < h \<Longrightarrow> oriented_y y h td < h"
  by (auto simp: oriented_y_def)

lemma oriented_y_inj: "y < h \<Longrightarrow> y' < h \<Longrightarrow> oriented_y y h td = oriented_y y' h td \<Longrightarrow> y = y'"
  by (auto simp: oriented_y_def split: if_splits)

lemma oriented_y_involutive: "y < h \<Longrightarrow> oriented_y (oriented_y y h td) h td = y"
  by (auto simp: oriented_y_def)

definition in_grid :: "nat \<Rightarrow> nat \<Rightarrow> nat \<times> nat \<Rightarrow> bool" where
  "in_grid w h i \<longleftrightarrow> fst i < h \<and> snd i < w"

definition grid_cell :: "nat \<Rightarrow> nat \<Rightarrow> bool \<Rightarrow> nat \<times> nat \<Rightarrow> nat" where
  "grid_cell w h td i = oriented_y (fst i) h td * w + snd i"

lemma grid_cell_bound: "in_grid w h i \<Longrightarrow> grid_cell w h td i < w * h"
  by (auto simp: in_grid_def grid_cell_def intro!: grid_bound oriented_y_bound)

lemma grid_cell_inj: "in_grid w h i \<Longrightarrow> in_grid w h j \<Longrightarrow> grid_cell w h td i = grid_cell w h td j \<Longrightarrow> i = j"
  by (auto simp: in_grid_def grid_cell_def prod_eq_iff dest!: grid_inj dest: oriented_y_inj)

lemma in_grid_product [simp]: "i \<in> set (List.product [0..<h] [0..<w]) \<longleftrightarrow> in_grid w h i"
  by (cases i) (simp add: in_grid_def)

text \<open>The sources of a pass have one unit per pixel.\<close>

lemma unit_in: "y < h \<Longrightarrow> x < w \<Longrightarrow> j < u \<Longrightarrow> (y * w + x) * u + j < w * h * (u :: nat)"
  using cell_end [OF grid_bound [of y h x w], of u] by simp

definition is_direct :: "LzImageType \<Rightarrow> bool" where
  "is_direct ty \<longleftrightarrow> ty = LzImageType_Rgb16 \<or> ty = LzImageType_Rgb24 \<or> ty = LzImageType_Rgb32"

lemma direct_pixel_Inr:
  assumes "is_direct ty" "k + LzImageType_compressed_unit_bytes ty \<le> length source"
  shows "\<exists>v. direct_pixel source ty k = Inr v \<and> length v = 4"
  using assms by (auto simp: is_direct_def Let_def)

interpretation direct: cell_pass
  "\<lambda>i. in_grid w h i \<and> is_direct ty \<and> length source = w * h * LzImageType_compressed_unit_bytes ty"
  "direct_body c source ty w h td" "grid_cell w h td"
  "\<lambda>i. direct_pixel source ty ((fst i * w + snd i) * LzImageType_compressed_unit_bytes ty)" 4 "w * h"
  for w h c source ty td
proof (unfold_locales, goal_cases)
  case (1 i out p out' p')
  then have "\<exists>v. direct_pixel source ty ((fst i * w + snd i) * LzImageType_compressed_unit_bytes ty) = Inr v \<and> length v = 4"
    using cell_end [OF grid_bound [of "fst i" h "snd i" w]]
    by (intro direct_pixel_Inr) (auto simp: in_grid_def)
  with 1 show ?case
    by (cases i) (auto simp: direct_body_def Let_def grid_cell_def)
next
  case (2 i out p)
  then have "\<exists>v. direct_pixel source ty ((fst i * w + snd i) * LzImageType_compressed_unit_bytes ty) = Inr v \<and> length v = 4"
    using cell_end [OF grid_bound [of "fst i" h "snd i" w]]
    by (intro direct_pixel_Inr) (auto simp: in_grid_def)
  with 2 cell_end [OF grid_cell_bound [of w h i td], of 4] show ?case
    by (cases i) (auto simp: direct_body_def Let_def grid_cell_def intro!: no_panic_intros)
qed (blast intro: grid_cell_bound grid_cell_inj)+

lemma rgba_pixel_Inr:
  assumes "k * 3 + 3 \<le> length colors" "k < length alpha"
  shows "\<exists>v. rgba_pixel colors alpha k = Inr v \<and> length v = 4"
  using assms by (auto simp: rgba_pixel_def Let_def)

interpretation rgba: cell_pass
  "\<lambda>i. in_grid w h i \<and> length colors = w * h * 3 \<and> length alpha = w * h"
  "rgba_body c colors alpha w h td" "grid_cell w h td"
  "\<lambda>i. rgba_pixel colors alpha (fst i * w + snd i)" 4 "w * h"
  for w h c colors alpha td
proof (unfold_locales, goal_cases)
  case (1 i out p out' p')
  then have "\<exists>v. rgba_pixel colors alpha (fst i * w + snd i) = Inr v \<and> length v = 4"
    using cell_end [OF grid_bound [of "fst i" h "snd i" w], of 3] grid_bound [of "fst i" h "snd i" w]
    by (intro rgba_pixel_Inr) (auto simp: in_grid_def)
  with 1 show ?case
    by (cases i) (auto simp: rgba_body_def Let_def grid_cell_def)
next
  case (2 i out p)
  then have "\<exists>v. rgba_pixel colors alpha (fst i * w + snd i) = Inr v \<and> length v = 4"
    using cell_end [OF grid_bound [of "fst i" h "snd i" w], of 3] grid_bound [of "fst i" h "snd i" w]
    by (intro rgba_pixel_Inr) (auto simp: in_grid_def)
  with 2 cell_end [OF grid_cell_bound [of w h i td], of 4] show ?case
    by (cases i) (auto simp: rgba_body_def Let_def grid_cell_def intro!: no_panic_intros)
qed (blast intro: grid_cell_bound grid_cell_inj)+

text \<open>A palette row of the declared stride holds an index for every column.\<close>

definition palette_ok :: "u8 list list \<Rightarrow> bool" where
  "palette_ok palette \<longleftrightarrow> (\<forall>color \<in> set palette. length color = 4)"

lemma palette_index_no_panic:
  assumes "LzImageType_is_palette ty" "LzImageType_expected_stride ty w = Some (length row)" "x < w"
  shows "\<exists>n. palette_index ty row x = Inr n"
proof -
  have "x div 8 < (w + 7) div 8" "x div 2 < (w + 1) div 2" using assms(3) by linarith+
  with assms show ?thesis by (cases ty) (auto simp: index_at_def)
qed

lemma no_panic_palette_pixel:
  assumes "LzImageType_is_palette ty" "LzImageType_expected_stride ty w = Some (length row)" "x < w"
  shows "no_panic (palette_pixel palette ty row x)"
  using palette_index_no_panic [OF assms] by (auto simp: palette_pixel_def)

lemma palette_pixel_length:
  "palette_ok palette \<Longrightarrow> palette_pixel palette ty row x = Inr v \<Longrightarrow> length v = 4"
  by (auto simp: palette_pixel_def palette_ok_def split: if_splits)

interpretation pal: cell_pass
  "\<lambda>i. in_grid w h i \<and> LzImageType_is_palette ty \<and> LzImageType_expected_stride ty w = Some stride \<and>
       length indices = h * stride \<and> palette_ok palette"
  "\<lambda>i. palette_body c palette ty \<lparr>g_width = w, g_height = h, g_top_down = td\<rparr> (cell_at stride (fst i) indices) i"
  "grid_cell w h td"
  "\<lambda>i. palette_pixel palette ty (cell_at stride (fst i) indices) (snd i)" 4 "w * h"
  for w h c indices palette ty stride td
proof (unfold_locales, goal_cases)
  case (1 i out p out' p')
  then show ?case
    by (cases i) (auto simp: palette_body_def Let_def grid_cell_def dest: palette_pixel_length)
next
  case (2 i out p)
  then have "length (cell_at stride (fst i) indices) = stride"
    by (intro length_cell_at [of _ h]) (auto simp: in_grid_def)
  with 2 have "no_panic (palette_pixel palette ty (cell_at stride (fst i) indices) (snd i))"
    by (intro no_panic_palette_pixel [of _ w]) (auto simp: in_grid_def)
  with 2 cell_end [OF grid_cell_bound [of w h i td], of 4] show ?case
    by (cases i) (auto simp: palette_body_def Let_def grid_cell_def dest: palette_pixel_length intro!: no_panic_intros)
qed (blast intro: grid_cell_bound grid_cell_inj)+

interpretation rows: cell_pass
  "\<lambda>y. y < h \<and> length source = w * h" "orient_body c source w h" "\<lambda>y. oriented_y y h False"
  "\<lambda>y. Inr (cell_at w y source)" w h
  for w h c source
proof (unfold_locales, goal_cases)
  case (1 y out p out' p')
  with cell_end [of y h w] show ?case
    by (auto simp: orient_body_def Let_def cell_at_def algebra_simps split: if_splits)
next
  case (2 y out p)
  with cell_end [of y h w] cell_end [OF oriented_y_bound [of y h False], of w] show ?case
    by (auto simp: orient_body_def Let_def algebra_simps intro!: no_panic_intros)
qed (auto intro: oriented_y_bound oriented_y_inj)

lemma expand_direct_color_loop:
  "expand_direct_color c source ty w h td p =
     for_each (direct_body c source ty w h td) (List.product [0..<h] [0..<w]) (replicate (w * h * 4) 0, p)"
  by (simp only: expand_direct_color_def for_each_nested)

lemma expand_rgba_loop:
  "expand_rgba c colors alpha w h td p =
     for_each (rgba_body c colors alpha w h td) (List.product [0..<h] [0..<w]) (replicate (w * h * 4) 0, p)"
  by (simp only: expand_rgba_def for_each_nested)

lemma expand_palette_loop:
  assumes "length indices = h * stride"
  shows "expand_palette c indices palette ty \<lparr>g_width = w, g_height = h, g_top_down = td\<rparr> stride p =
     for_each (\<lambda>i. palette_body c palette ty \<lparr>g_width = w, g_height = h, g_top_down = td\<rparr>
                     (cell_at stride (fst i) indices) i)
       (List.product [0..<h] [0..<w]) (replicate (w * h * 4) 0, p)"
proof -
  let ?f = "\<lambda>i. palette_body c palette ty \<lparr>g_width = w, g_height = h, g_top_down = td\<rparr>
                  (cell_at stride (fst i) indices) i"
  have "slice_index indices (y * stride) ((y + 1) * stride) = Inr (cell_at stride y indices)" if "y < h" for y
    using cell_end [OF that, of stride] assms by (simp add: cell_at_def algebra_simps)
  then have "expand_palette c indices palette ty \<lparr>g_width = w, g_height = h, g_top_down = td\<rparr> stride p =
      for_each (\<lambda>y. for_each (\<lambda>x. ?f (y, x)) [0..<w]) [0..<h] (replicate (w * h * 4) 0, p)"
    unfolding expand_palette_def by (auto intro!: for_each_cong)
  then show ?thesis by (simp only: for_each_nested [of ?f])
qed

lemma no_panic_expanders:
  "is_direct ty \<Longrightarrow> length source = w * h * LzImageType_compressed_unit_bytes ty \<Longrightarrow>
     no_panic (expand_direct_color c source ty w h td p)"
  "length colors = w * h * 3 \<Longrightarrow> length alpha = w * h \<Longrightarrow> no_panic (expand_rgba c colors alpha w h td p)"
  "LzImageType_is_palette ty \<Longrightarrow> LzImageType_expected_stride ty w = Some stride \<Longrightarrow>
     length indices = h * stride \<Longrightarrow> palette_ok palette \<Longrightarrow>
     no_panic (expand_palette c indices palette ty \<lparr>g_width = w, g_height = h, g_top_down = td\<rparr> stride p)"
  "length source = w * h \<Longrightarrow> no_panic (orient_rows c source w h td p)"
  unfolding expand_direct_color_loop expand_rgba_loop
  by (auto simp: expand_palette_loop orient_rows_def in_grid_def intro!: direct.pass_no_panic rgba.pass_no_panic
        pal.pass_no_panic rows.pass_no_panic)

lemma expand_direct_color_cells:
  assumes "expand_direct_color c source ty w h td p = Inr (out, p')" "is_direct ty"
    "length source = w * h * LzImageType_compressed_unit_bytes ty"
  shows "length out = w * h * 4 \<and> (\<forall>y < h. \<forall>x < w.
    direct_pixel source ty ((y * w + x) * LzImageType_compressed_unit_bytes ty) =
      Inr (cell_at 4 (oriented_y y h td * w + x) out))"
  using direct.fill [OF assms(1) [unfolded expand_direct_color_loop]] assms(2,3)
  by (auto simp: in_grid_def grid_cell_def)

lemma expand_rgba_cells:
  assumes "expand_rgba c colors alpha w h td p = Inr (out, p')"
    "length colors = w * h * 3" "length alpha = w * h"
  shows "length out = w * h * 4 \<and> (\<forall>y < h. \<forall>x < w.
    rgba_pixel colors alpha (y * w + x) = Inr (cell_at 4 (oriented_y y h td * w + x) out))"
  using rgba.fill [OF assms(1) [unfolded expand_rgba_loop]] assms(2,3)
  by (auto simp: in_grid_def grid_cell_def)

lemma expand_palette_cells:
  assumes "expand_palette c indices palette ty \<lparr>g_width = w, g_height = h, g_top_down = td\<rparr> stride p = Inr (out, p')"
    "LzImageType_is_palette ty" "LzImageType_expected_stride ty w = Some stride"
    "length indices = h * stride" "palette_ok palette"
  shows "length out = w * h * 4 \<and> (\<forall>y < h. \<forall>x < w.
    palette_pixel palette ty (cell_at stride y indices) x = Inr (cell_at 4 (oriented_y y h td * w + x) out))"
  using pal.fill [OF assms(1) [unfolded expand_palette_loop [OF assms(4)]]] assms(2-)
  by (auto simp: in_grid_def grid_cell_def)

lemma orient_rows_cells:
  assumes "orient_rows c source w h td p = Inr (out, p')" "length source = w * h"
  shows "length out = w * h \<and> (\<forall>y < h. cell_at w (oriented_y y h td) out = cell_at w y source)"
proof (cases td)
  case True
  with assms show ?thesis by (auto simp: orient_rows_def oriented_y_def split: if_splits)
next
  case False
  then have "for_each (orient_body c source w h) [0..<h] (replicate (length source) 0, p) = Inr (out, p')"
    using assms(1) by (simp add: orient_rows_def)
  from rows.fill [OF this] assms(2) False show ?thesis by (auto simp: mult.commute)
qed

section \<open>Panic freedom and size of the decoded image\<close>

lemma no_panic_lz_header [no_panic_intros]: "no_panic (lz_header input)"
  unfolding lz_header_def LzImageType_try_from_def by (intro no_panic_intros)

lemma no_panic_lz_validate [no_panic_intros]: "no_panic (lz_validate palette limits h)"
  unfolding lz_validate_def Let_def by (intro no_panic_intros)

definition bytes_per_pixel :: "LzImageType \<Rightarrow> nat" where
  "bytes_per_pixel ty = (if ty = LzImageType_XxxAlpha \<or> ty = LzImageType_Alpha8 then 1 else 4)"

lemma lz_validate_Inr:
  assumes "lz_validate palette limits h = Inr n"
  shows "n = unat (lh_width h) * unat (lh_height h)"
    "lh_width h \<noteq> 0" "lh_height h \<noteq> 0"
    "lh_width h \<le> maximum_width limits" "lh_height h \<le> maximum_height limits"
    "LzImageType_expected_stride (lh_image_type h) (unat (lh_width h)) = Some (unat (lh_stride h))"
    "n * bytes_per_pixel (lh_image_type h) \<le> maximum_output_bytes limits"
    "n * bytes_per_pixel (lh_image_type h) < usize_limit"
    "LzImageType_is_palette (lh_image_type h) \<longleftrightarrow> palette \<noteq> None"
  using assms by (auto simp: lz_validate_def Let_def bytes_per_pixel_def not_less mult.commute split: if_splits)

lemma unit_bytes_alpha: "ty = LzImageType_XxxAlpha \<or> ty = LzImageType_Alpha8 \<or> LzImageType_is_palette ty \<Longrightarrow>
   LzImageType_compressed_unit_bytes ty = 1"
  by (cases ty) auto

lemma no_panic_lz_pixels:
  assumes "lz_validate palette limits h = Inr n" "\<And>pal. palette = Some pal \<Longrightarrow> palette_ok pal"
  shows "no_panic (lz_pixels c palette h n r p)"
proof -
  note v = lz_validate_Inr [OF assms(1)]
  show ?thesis
    unfolding lz_pixels_def Let_def
    by (intro no_panic_intros no_panic_expanders)
       (use v assms(2) in \<open>auto simp: is_direct_def unit_bytes_alpha mult.commute dest!: decompress_units_Inr(1)\<close>)
qed

section \<open>Cancellation\<close>

text \<open>
  A closure that answers \<open>False\<close> to every poll it receives cannot be told from one that never cancels:
  each step that succeeds succeeds with the same result, and the same number of polls, without
  cancellation.
\<close>

abbreviation never :: "nat \<Rightarrow> bool" where "never \<equiv> \<lambda>_. False"

lemma poll_every_never [refines_intros]: "refines (poll_every c n ctx p) (poll_every never n ctx p)"
  by (auto simp: refines_def poll_every_def split: if_splits)

lemma lz_extend_never [refines_intros]: "refines (lz_extend c m e r p) (lz_extend never m e r p)"
proof (induction c m e r p rule: lz_extend.induct)
  case (1 c m e r p)
  show ?case
    unfolding lz_extend.simps [of c m e r p] lz_extend.simps [of never m e r p]
    by (intro refines_intros) (use 1 in auto)
qed

lemma lz_copy_never [refines_intros]:
  "refines (lz_copy c u d m k n out p) (lz_copy never u d m k n out p)"
proof (induction m arbitrary: k n out p)
  case 0
  show ?case by (simp add: refines_refl)
next
  case (Suc m)
  show ?case unfolding lz_copy.simps by (intro refines_intros Suc.IH)
qed

lemma lz_turn_never [refines_intros]: "refines (lz_turn c n u b s) (lz_turn never n u b s)"
  unfolding lz_turn_def lz_reference_def by (intro refines_intros)

lemma lz_loop_never [refines_intros]: "refines (lz_loop c n u b s) (lz_loop never n u b s)"
proof (induction c n u b s rule: lz_loop.induct)
  case (1 c n u b s)
  show ?case
    unfolding lz_loop.simps [of c n u b s] lz_loop.simps [of never n u b s]
    by (intro refines_intros) (use 1 in auto)
qed

lemma decompress_units_never [refines_intros]:
  "refines (decompress_units c r n u b p) (decompress_units never r n u b p)"
  unfolding decompress_units_def by (intro refines_intros)

lemma bodies_never [refines_intros]:
  "refines (direct_body c source ty w h td i acc) (direct_body never source ty w h td i acc)"
  "refines (rgba_body c colors alpha w h td i acc) (rgba_body never colors alpha w h td i acc)"
  "refines (palette_body c pal ty g row i acc) (palette_body never pal ty g row i acc)"
  unfolding direct_body_def rgba_body_def palette_body_def by (intro refines_intros)+

lemma orient_body_never [refines_intros]:
  "refines (orient_body c source w h y acc) (orient_body never source w h y acc)"
  by (cases acc) (auto simp: orient_body_def refines_def)

lemma expanders_never [refines_intros]:
  "refines (expand_direct_color c source ty w h td p) (expand_direct_color never source ty w h td p)"
  "refines (expand_rgba c colors alpha w h td p) (expand_rgba never colors alpha w h td p)"
  "refines (expand_palette c indices pal ty g stride p) (expand_palette never indices pal ty g stride p)"
  unfolding expand_direct_color_def expand_rgba_def expand_palette_def by (intro refines_intros)+

lemma orient_rows_never [refines_intros]:
  "refines (orient_rows c source w h td p) (orient_rows never source w h td p)"
proof -
  have "refines (if c p then lz_err LzErrorKind_Cancelled STR ''row orientation'' else Inr (source, p + 1))
     (if False then lz_err LzErrorKind_Cancelled STR ''row orientation'' else Inr (source, p + 1))"
    by (simp add: refines_def)
  then show ?thesis unfolding orient_rows_def by (intro refines_intros)
qed

lemma lz_pixels_never [refines_intros]:
  "refines (lz_pixels c palette h n r p) (lz_pixels never palette h n r p)"
  unfolding lz_pixels_def by (intro refines_intros)

text \<open>Cancellation changes nothing but whether a decode is abandoned: a decode that succeeds while the
  caller may cancel returns the image that the decode without cancellation returns.\<close>

theorem lz_cancellation_transparent:
  assumes "decode_lz_with_cancel input palette limits should_cancel = Inr decoded"
  shows "decode_lz input palette limits = Inr decoded"
proof -
  have "refines (decode_lz_with_cancel input palette limits should_cancel)
     (decode_lz_with_cancel input palette limits never)"
    if "\<not> should_cancel 0"
    unfolding decode_lz_with_cancel_def using that
    by (simp, intro refines_intros) (simp add: refines_def)
  with assms show ?thesis
    by (cases "should_cancel 0") (auto simp: decode_lz_def decode_lz_with_cancel_def [of _ _ _ should_cancel] dest: refinesD)
qed

section \<open>What a successful decode returns\<close>

fun pixel_bytes :: "DecodedPixels \<Rightarrow> u8 list" where
  "pixel_bytes (DecodedPixels_Rgba bs) = bs"
| "pixel_bytes (DecodedPixels_Alpha8 bs) = bs"

fun pixel_format_ok :: "LzImageType \<Rightarrow> DecodedPixels \<Rightarrow> bool" where
  "pixel_format_ok ty (DecodedPixels_Rgba bs) \<longleftrightarrow> bytes_per_pixel ty = 4"
| "pixel_format_ok ty (DecodedPixels_Alpha8 bs) \<longleftrightarrow> bytes_per_pixel ty = 1"

lemma decompress_units_Inr_conj:
  "decompress_units c r n u b p = Inr (out, r', p') \<Longrightarrow> length out = n * u \<and> be_advance r r'"
  using decompress_units_Inr by blast

lemma lz_pixels_Inr:
  assumes v: "lz_validate palette limits h = Inr n" and pal: "\<And>pal. palette = Some pal \<Longrightarrow> palette_ok pal"
    and run: "lz_pixels c palette h n r p = Inr (pixels, r', p')"
  shows "length (pixel_bytes pixels) = unat (lh_width h) * unat (lh_height h) * bytes_per_pixel (lh_image_type h)"
    "pixel_format_ok (lh_image_type h) pixels" "be_advance r r'"
proof -
  note v = lz_validate_Inr [OF v]
  have "length (pixel_bytes pixels) = unat (lh_width h) * unat (lh_height h) * bytes_per_pixel (lh_image_type h) \<and>
    pixel_format_ok (lh_image_type h) pixels \<and> be_advance r r'"
  proof (cases "LzImageType_is_palette (lh_image_type h)")
    case True
    then have "bytes_per_pixel (lh_image_type h) = 4" by (auto simp: bytes_per_pixel_def)
    with True run v pal show ?thesis
      by (auto simp: lz_pixels_def Let_def unit_bytes_alpha mult.commute
            dest!: decompress_units_Inr_conj expand_palette_cells)
  next
    case False
    with run v show ?thesis
      by (cases "lh_image_type h")
         (auto simp: lz_pixels_def Let_def bytes_per_pixel_def is_direct_def
            dest!: decompress_units_Inr_conj expand_rgba_cells expand_direct_color_cells orient_rows_cells
            intro: be_advance_trans)
  qed
  then show "length (pixel_bytes pixels) = unat (lh_width h) * unat (lh_height h) * bytes_per_pixel (lh_image_type h)"
    "pixel_format_ok (lh_image_type h) pixels" "be_advance r r'" by auto
qed

text \<open>The decoder never panics, whatever the bytes, the limits and the moment of cancellation: every
  index, slice and subtraction of the decompressor and of the pixel passes is in range.\<close>

theorem lz_decode_no_panic:
  assumes "\<forall>pal. palette = Some pal \<longrightarrow> palette_ok pal"
  shows "no_panic (decode_lz_with_cancel input palette limits should_cancel)"
  unfolding decode_lz_with_cancel_def
  by (intro no_panic_intros no_panic_lz_pixels) (use assms in auto)

text \<open>A successful decode is within the caller's limits and complete: the width and height are not
  zero and not above the maxima, the output holds exactly \<open>width * height\<close> pixels of the size its type
  calls for, and never more than \<open>maximum_output_bytes\<close>.\<close>

theorem lz_decode_bounds:
  assumes "decode_lz_with_cancel input palette limits should_cancel = Inr decoded"
    "\<forall>pal. palette = Some pal \<longrightarrow> palette_ok pal"
  shows "0 < di_width decoded \<and> di_width decoded \<le> maximum_width limits \<and>
    0 < di_height decoded \<and> di_height decoded \<le> maximum_height limits \<and>
    length (pixel_bytes (di_pixels decoded)) =
      unat (di_width decoded) * unat (di_height decoded) * bytes_per_pixel (di_image_type decoded) \<and>
    length (pixel_bytes (di_pixels decoded)) \<le> maximum_output_bytes limits \<and>
    pixel_format_ok (di_image_type decoded) (di_pixels decoded)"
proof -
  from assms(1) obtain h r n pixels r' p where h: "lz_header input = Inr (h, r)"
      and v: "lz_validate palette limits h = Inr n"
      and p: "lz_pixels should_cancel palette h n r 1 = Inr (pixels, r', p)"
      and d: "decoded = \<lparr>di_width = lh_width h, di_height = lh_height h, di_top_down = lh_top_down h,
                di_image_type = lh_image_type h, di_pixels = pixels\<rparr>"
    by (auto simp: decode_lz_with_cancel_def split: if_splits)
  from lz_pixels_Inr [OF v _ p] lz_validate_Inr [OF v] assms(2) d show ?thesis
    by (auto simp: word_neq_0_conv)
qed

subsection \<open>A decoded image\<close>

definition alpha_limits :: DecodeLimits where
  "alpha_limits = \<lparr>maximum_width = 4, maximum_height = 4, maximum_output_bytes = 16\<rparr>"

text \<open>Two samples of alpha, one above the other, sent bottom row first.\<close>

definition alpha_stream :: "u8 list" where
  "alpha_stream = [0x20, 0x20, 0x5a, 0x4c, 0, 1, 0, 1, 0, 0, 0, 11, 0, 0, 0, 1, 0, 0, 0, 2, 0, 0, 0, 1,
     0, 0, 0, 0, 1, 7, 9]"

definition alpha_image :: DecodedImage where
  "alpha_image = \<lparr>di_width = 1, di_height = 2, di_top_down = False, di_image_type = LzImageType_Alpha8,
     di_pixels = DecodedPixels_Alpha8 [9, 7]\<rparr>"

lemma alpha_stream_decodes:
  "decode_lz_with_cancel alpha_stream None alpha_limits (\<lambda>n. 100 < n) = Inr alpha_image"
  by (simp add: decode_lz_with_cancel_def alpha_stream_def alpha_limits_def alpha_image_def lz_header_def
    BigEndianReader_u32_def BigEndianReader_bytes_def BigEndianReader_new_def from_be_def LzImageType_try_from_def
    lz_validate_def lz_pixels_def decompress_units_def lz_loop.simps lz_turn_def lz_literal_def
    BigEndianReader_u8_def poll_every_def ensure_output_room_def orient_rows_def orient_body_def
    oriented_y_def upt_rec Let_def BigEndianReader_remaining_def slice_index_def slice_get_def copy_from_slice_def
    usize_checked_add_def usize_checked_mul_def)

theorem lz_cancellation_transparent_witness: "decode_lz alpha_stream None alpha_limits = Inr alpha_image"
  using lz_cancellation_transparent [OF alpha_stream_decodes] .

theorem lz_decode_no_panic_witness:
  "palette_ok [[1, 2, 3, 4]] \<and> no_panic (decode_lz_with_cancel [0] (Some [[1, 2, 3, 4]]) alpha_limits (\<lambda>_. False))"
  using lz_decode_no_panic [of "Some [[1, 2, 3, 4]]"] by (simp add: palette_ok_def)

theorem lz_decode_bounds_witness: "length (pixel_bytes (di_pixels alpha_image)) \<le> 16"
  using lz_decode_bounds [OF alpha_stream_decodes] by (simp add: alpha_limits_def)

end
