(* ===== verification/Codec_LzTokens.thy ===== *)
theory Codec_LzTokens
  imports Codec_Lz
begin

text \<open>
  The LZ decompressor against a reference: LZ77 tokens over units.

  A token is a literal run of units or a copy of earlier units by length and distance; \<open>lz_emit\<close> is
  its meaning on the list of units produced so far, where a copy longer than its distance repeats the
  units it has just produced. \<open>lz_encode\<close> writes a token in the wire format of the decompressor, with
  extended lengths and far distances. The decompressor inverts it on every valid token stream.
\<close>

section \<open>Tokens and their meaning\<close>

datatype lz_token = LzLiteral "u8 list list" | LzMatch nat nat

fun lz_repeat :: "nat \<Rightarrow> nat \<Rightarrow> 'a list \<Rightarrow> 'a list" where
  "lz_repeat distance 0 us = us"
| "lz_repeat distance (Suc n) us = lz_repeat distance n (us @ [us ! (length us - distance)])"

fun lz_emit :: "u8 list list \<Rightarrow> lz_token \<Rightarrow> u8 list list" where
  "lz_emit us (LzLiteral ls) = us @ ls"
| "lz_emit us (LzMatch n distance) = lz_repeat distance n us"

abbreviation lz_expand :: "u8 list list \<Rightarrow> lz_token list \<Rightarrow> u8 list list" where
  "lz_expand \<equiv> foldl lz_emit"

fun lz_token_ok :: "nat \<Rightarrow> nat \<Rightarrow> u8 list list \<Rightarrow> lz_token \<Rightarrow> bool" where
  "lz_token_ok unit_bytes bias us (LzLiteral ls) \<longleftrightarrow>
     ls \<noteq> [] \<and> length ls \<le> 32 \<and> (\<forall>l \<in> set ls. length l = unit_bytes)"
| "lz_token_ok unit_bytes bias us (LzMatch n distance) \<longleftrightarrow>
     bias \<le> n \<and> 0 < n \<and> 0 < distance \<and> distance \<le> length us \<and> distance \<le> 73727"

fun lz_tokens_ok :: "nat \<Rightarrow> nat \<Rightarrow> u8 list list \<Rightarrow> lz_token list \<Rightarrow> bool" where
  "lz_tokens_ok unit_bytes bias us [] \<longleftrightarrow> True"
| "lz_tokens_ok unit_bytes bias us (t # ts) \<longleftrightarrow>
     lz_token_ok unit_bytes bias us t \<and> lz_tokens_ok unit_bytes bias (lz_emit us t) ts"

section \<open>The wire format of a token\<close>

fun lz_length_bytes :: "nat \<Rightarrow> u8 list" where
  "lz_length_bytes k = (if k < 255 then [of_nat k] else 255 # lz_length_bytes (k - 255))"

declare lz_length_bytes.simps [simp del]

definition lz_distance_high :: "nat \<Rightarrow> nat" where
  "lz_distance_high e = (if e < 8191 then e div 256 else 31)"

definition lz_distance_low :: "nat \<Rightarrow> u8 list" where
  "lz_distance_low e =
     (if e < 8191 then [of_nat (e mod 256)]
      else [255, of_nat ((e - 8191) div 256), of_nat ((e - 8191) mod 256)])"

fun lz_encode :: "nat \<Rightarrow> lz_token \<Rightarrow> u8 list" where
  "lz_encode bias (LzLiteral ls) = of_nat (length ls - 1) # concat ls"
| "lz_encode bias (LzMatch n distance) =
     (let m = n - bias; e = distance - 1 in
      if m < 6 then of_nat ((m + 1) * 32 + lz_distance_high e) # lz_distance_low e
      else of_nat (7 * 32 + lz_distance_high e) # lz_length_bytes (m - 6) @ lz_distance_low e)"

section \<open>Copies\<close>

lemma length_lz_repeat [simp]: "length (lz_repeat d n us) = length us + n"
  by (induction d n us rule: lz_repeat.induct) simp_all

text \<open>An overlapping copy continues the period of its distance.\<close>

lemma lz_repeat_periodic:
  assumes "0 < d" "d \<le> length us"
  shows "lz_repeat d n us = us @ map (\<lambda>i. us ! (length us - d + i mod d)) [0..<n]"
  using assms
proof (induction n arbitrary: us)
  case (Suc n)
  let ?v = "us ! (length us - d)"
  have e: "(us @ [?v]) ! (length us + 1 - d + i mod d) = us ! (length us - d + Suc i mod d)" for i
  proof (cases "Suc (i mod d) = d")
    case True
    then have "Suc i mod d = 0" by (simp add: mod_Suc)
    moreover have "length us + 1 - d + i mod d = length us" using True Suc.prems by linarith
    ultimately show ?thesis by simp
  next
    case False
    then have "Suc i mod d = Suc (i mod d)" "Suc (i mod d) < d"
      using Suc.prems(1) by (auto simp: mod_Suc less_Suc_eq intro: Suc_lessI)
    moreover from this have "length us + 1 - d + i mod d = length us - d + Suc i mod d" "length us - d + Suc i mod d < length us"
      using Suc.prems by linarith+
    ultimately show ?thesis by (simp add: nth_append)
  qed
  have "lz_repeat d (Suc n) us = (us @ [?v]) @ map (\<lambda>i. (us @ [?v]) ! (length us + 1 - d + i mod d)) [0..<n]"
    using Suc.IH [of "us @ [?v]"] Suc.prems by simp
  also have "\<dots> = us @ map (\<lambda>i. us ! (length us - d + i mod d)) (0 # map Suc [0..<n])"
    using e by simp
  finally show ?case by (simp only: upt_conv_Cons map_Suc_upt zero_less_Suc)
qed simp

lemma lz_repeat_units:
  "(\<And>x. x \<in> set us \<Longrightarrow> length x = u) \<Longrightarrow> 0 < d \<Longrightarrow> d \<le> length us \<Longrightarrow> x \<in> set (lz_repeat d n us) \<Longrightarrow> length x = u"
proof (induction n arbitrary: us)
  case (Suc n)
  have "length y = u" if "y \<in> set (us @ [us ! (length us - d)])" for y
    using that Suc.prems(1) Suc.prems(2,3) by (auto simp: Suc.prems(1) nth_mem)
  then show ?case using Suc.IH [of "us @ [us ! (length us - d)]"] Suc.prems(2-) by simp
qed simp

lemma length_concat_units: "(\<And>x. x \<in> set us \<Longrightarrow> length x = u) \<Longrightarrow> length (concat us) = length us * u"
  by (induction us) auto

lemma poll_never: "\<exists>q. poll_every never n ctx p = Inr q"
  by (cases "n mod 4096 = 0") (simp_all add: poll_every_def)

lemma lz_copy_repeat:
  assumes "\<And>x. x \<in> set us \<Longrightarrow> length x = u" "0 < d" "d \<le> length us"
  shows "\<exists>q. lz_copy never u d n k (length us) (concat us) p =
    Inr (concat (lz_repeat d n us), length us + n, q)"
  using assms
proof (induction n arbitrary: us k p)
  case (Suc n)
  let ?v = "us ! (length us - d)"
  have v: "?v \<in> set us" using Suc.prems by simp
  obtain q where q: "poll_every never k STR ''decode'' p = Inr q" using poll_never by blast
  have "slice_index (concat us) ((length us - d) * u) ((length us - d) * u + u) = Inr ?v"
    using cell_at_concat [of us u "length us - d"] Suc.prems unit_slice [of d "length us" u]
    by (simp add: length_concat_units cell_at_def)
  moreover obtain q' where "lz_copy never u d n (k + 1) (length (us @ [?v])) (concat (us @ [?v])) q =
      Inr (concat (lz_repeat d n (us @ [?v])), length (us @ [?v]) + n, q')"
    using Suc.IH [of "us @ [?v]" "k + 1" q] Suc.prems v by fastforce
  ultimately show ?case using q Suc.prems by (auto simp: Let_def)
qed simp

section \<open>Reading back what was written\<close>

definition be_rest :: "BigEndianReader \<Rightarrow> u8 list" where
  "be_rest r = drop (be_offset r) (be_input r)"

definition be_skip :: "BigEndianReader \<Rightarrow> nat \<Rightarrow> BigEndianReader" where
  "be_skip r n = r\<lparr>be_offset := be_offset r + n\<rparr>"

definition be_small :: "BigEndianReader \<Rightarrow> bool" where
  "be_small r \<longleftrightarrow> length (be_input r) < usize_limit"

lemma be_rest_skip [simp]: "be_rest (be_skip r n) = drop n (be_rest r)"
  by (simp add: be_rest_def be_skip_def add.commute)

lemma be_skip_skip [simp]: "be_skip (be_skip r m) n = be_skip r (m + n)"
  by (simp add: be_skip_def)

lemma be_small_skip [simp]: "be_small (be_skip r n) = be_small r"
  by (simp add: be_small_def be_skip_def)

lemma read_u8:
  assumes "be_rest r = b # bs"
  shows "BigEndianReader_u8 ctx r = Inr (b, be_skip r 1)"
proof -
  have "be_offset r < length (be_input r)" using assms by (cases "be_offset r < length (be_input r)") (auto simp: be_rest_def)
  moreover have "be_input r ! be_offset r = b" using assms by (simp add: be_rest_def nth_via_drop)
  ultimately show ?thesis by (simp add: be_skip_def)
qed

lemma read_bytes:
  assumes "be_rest r = bs @ rest" "be_small r" "bs \<noteq> []"
  shows "BigEndianReader_bytes (length bs) ctx r = Inr (bs, be_skip r (length bs))"
proof -
  have "length (be_rest r) = length bs + length rest" "0 < length bs" using assms by simp_all
  then have "be_offset r + length bs \<le> length (be_input r)" unfolding be_rest_def length_drop by linarith
  moreover have "take (length bs) (be_rest r) = bs" using assms(1) by simp
  ultimately show ?thesis using assms(2) by (simp add: be_skip_def be_small_def be_rest_def)
qed

lemma unat_of_nat_u8 [simp]: "n < 256 \<Longrightarrow> unat (of_nat n :: u8) = n"
  by (simp add: unat_of_nat)

lemma unat_of_nat_small: "k < 255 \<Longrightarrow> unat (of_nat k :: u8) = k"
  by simp

lemma unat_255: "unat (255 :: u8) = 255"
  by simp

lemma lz_extend_reads:
  assumes "be_rest r = lz_length_bytes k @ rest" "m + k < usize_limit"
  shows "\<exists>q. lz_extend never m e r p = Inr (m + k, be_skip r (length (lz_length_bytes k)), q)"
  using assms
proof (induction k arbitrary: m e r p rule: lz_length_bytes.induct)
  case (1 k)
  show ?case
  proof (cases "k < 255")
    case True
    then have "(of_nat k :: u8) \<noteq> 255" by (metis True less_irrefl unat_255 unat_of_nat_small)
    moreover have r: "be_rest r = of_nat k # rest" using True "1.prems"(1) by (simp add: lz_length_bytes.simps [of k])
    ultimately show ?thesis
      using True "1.prems"(2) poll_never [of "e + 1" "STR ''decode''" p]
      by (auto simp: lz_extend.simps [of never m e r p] read_u8 [OF r] lz_length_bytes.simps [of k])
  next
    case False
    then have r: "be_rest r = 255 # lz_length_bytes (k - 255) @ rest"
      using "1.prems"(1) by (simp add: lz_length_bytes.simps [of k])
    obtain q where q: "poll_every never (e + 1) STR ''decode'' p = Inr q" using poll_never by blast
    obtain q' where "lz_extend never (m + 255) (e + 1) (be_skip r 1) q =
        Inr (m + 255 + (k - 255), be_skip (be_skip r 1) (length (lz_length_bytes (k - 255))), q')"
      using "1.IH" [OF False, of "be_skip r 1" "m + 255" "e + 1" q] r "1.prems"(2) False by auto
    with False q "1.prems"(2) show ?thesis
      by (auto simp: lz_extend.simps [of never m e r p] read_u8 [OF r] lz_length_bytes.simps [of k])
  qed
qed

text \<open>The fields of a control byte.\<close>

lemma control_bits: "unat (drop_bit 5 c) = unat (c :: u8) div 32" "unat (c AND 0x1f) = unat c mod 32"
proof -
  show "unat (drop_bit 5 c) = unat c div 32" by (simp add: drop_bit_eq_div unat_div)
  have "c AND 0x1f = take_bit 5 c" by (simp add: take_bit_eq_mask mask_eq_exp_minus_1)
  then show "unat (c AND 0x1f) = unat c mod 32" by (simp add: take_bit_eq_mod unat_mod)
qed

lemma lz_distance_high_less: "e \<le> 73726 \<Longrightarrow> lz_distance_high e < 32"
  by (auto simp: lz_distance_high_def)

lemma lz_reference_reads:
  assumes "be_small r" "0 < bias" "bias \<le> n" "n < usize_limit" "0 < d" "d \<le> 73727"
    and enc: "lz_encode bias (LzMatch n d) = ctl # bs" and rest: "be_rest r = bs @ rest"
  shows "\<not> ctl < 32 \<and> (\<exists>q. lz_reference never bias ctl r p = Inr (n, d, be_skip r (length bs), q))"
proof -
  define e where "e = d - 1"
  define m where "m = n - bias"
  let ?hi = "lz_distance_high e"
  have e: "e \<le> 73726" "d = e + 1" using assms(5,6) by (auto simp: e_def)
  have n: "n = m + bias" using assms(3) by (simp add: m_def)
  define a where "a = (if m < 6 then m + 1 else 7)"
  have a: "0 < a" "a < 8" by (auto simp: a_def)
  have ctl: "ctl = of_nat (a * 32 + ?hi)"
    and bs: "bs = (if m < 6 then [] else lz_length_bytes (m - 6)) @ lz_distance_low e"
    using enc by (auto simp: Let_def a_def e_def m_def split: if_splits)
  have c: "unat ctl = a * 32 + ?hi"
    unfolding ctl using a lz_distance_high_less [OF e(1)] by (intro unat_of_nat_u8) simp
  have big: "\<not> ctl < 32" using c a by (simp add: word_less_nat_alt)
  have f: "unat (drop_bit 5 ctl) = a" "unat (ctl AND 0x1f) = ?hi"
    using c lz_distance_high_less [OF e(1)] by (simp_all add: control_bits)
  define k where "k = length (if m < 6 then [] else lz_length_bytes (m - 6))"
  have r1: "be_rest (be_skip r k) = lz_distance_low e @ rest" using rest bs by (simp add: k_def)
  obtain q where len: "(if a - 1 = 6 then lz_extend never (a - 1) 0 r p else Inr (a - 1, r, p)) =
      Inr (m, be_skip r k, q)"
  proof (cases "m < 6")
    case True
    then show ?thesis using that [of p] by (simp add: a_def k_def be_skip_def)
  next
    case False
    then have "\<exists>q. lz_extend never 6 0 r p = Inr (6 + (m - 6), be_skip r (length (lz_length_bytes (m - 6))), q)"
      using rest bs n assms(4) by (intro lz_extend_reads) auto
    with False show ?thesis using that by (auto simp: a_def k_def)
  qed
  show ?thesis
  proof (cases "e < 8191")
    case True
    then have low: "be_rest (be_skip r k) = of_nat (e mod 256) # rest" and hi: "?hi = e div 256"
      using r1 by (simp_all add: lz_distance_low_def lz_distance_high_def)
    have "\<not> ((of_nat (e mod 256) :: u8) = 255 \<and> e div 256 = 31)"
    proof
      assume h: "(of_nat (e mod 256) :: u8) = 255 \<and> e div 256 = 31"
      then have "e mod 256 = 255" by (metis unat_255 unat_of_nat_u8 mod_less_divisor zero_less_numeral)
      moreover have "e = e div 256 * 256 + e mod 256" by simp
      ultimately show False using h True by simp
    qed
    then have "lz_reference never bias ctl r p = Inr (m + bias, e + 1, be_skip r (k + 1), q)"
      unfolding lz_reference_def Let_def f EXTENDED_LENGTH_MARKER_def len and_then_Inr prod.case
        read_u8 [OF low] hi
      using assms(4) n e(1) by (auto simp: usize_checked_add_def)
    moreover have "length bs = k + 1" using True bs by (simp add: k_def lz_distance_low_def)
    ultimately show ?thesis using big n e(2) by simp
  next
    case False
    define v where "v = e - 8191"
    have v: "v < 65536" "e = v + 8191" using False e by (auto simp: v_def)
    have low: "be_rest (be_skip r k) = 255 # of_nat (v div 256) # of_nat (v mod 256) # rest" and hi: "?hi = 31"
      using False r1 by (simp_all add: lz_distance_low_def lz_distance_high_def v_def)
    have low2: "be_rest (be_skip r (k + 1)) = of_nat (v div 256) # of_nat (v mod 256) # rest"
      and low3: "be_rest (be_skip r (k + 2)) = of_nat (v mod 256) # rest"
      using low be_rest_skip [of "be_skip r k" 1] be_rest_skip [of "be_skip r k" 2] by (simp_all add: be_rest_def be_skip_def numeral_2_eq_2)
    have w: "unat (of_nat (v div 256) :: u8) * 256 + unat (of_nat (v mod 256) :: u8) = v"
      using v by (simp add: less_mult_imp_div_less)
    have "lz_reference never bias ctl r p = Inr (m + bias, v + 8191 + 1, be_skip r (k + 3), q)"
      unfolding lz_reference_def Let_def f EXTENDED_LENGTH_MARKER_def len and_then_Inr prod.case
        read_u8 [OF low] hi
      using assms(4) n v w read_u8 [OF low2] read_u8 [OF low3]
      by (simp add: usize_checked_add_def numeral_3_eq_3 del: BigEndianReader_u8_Inr)
    moreover have "length bs = k + 3" using False bs by (simp add: k_def lz_distance_low_def)
    ultimately show ?thesis using big n e(2) v(2) by simp
  qed
qed

section \<open>The decompressor inverts the encoder\<close>

lemma lz_emit_units:
  assumes "\<And>x. x \<in> set us \<Longrightarrow> length x = u" "lz_token_ok u bias us t" "x \<in> set (lz_emit us t)"
  shows "length x = u"
  using assms by (cases t) (auto dest: lz_repeat_units [rotated 3])

lemma length_lz_emit: "lz_token_ok u bias us t \<Longrightarrow> length us < length (lz_emit us t)"
  by (cases t) auto

lemma length_lz_expand: "lz_tokens_ok u bias us ts \<Longrightarrow> length us \<le> length (lz_expand us ts)"
proof (induction ts arbitrary: us)
  case (Cons t ts)
  then show ?case using length_lz_emit [of u bias us t] by fastforce
qed simp

lemma concat_eq_length: "ls \<noteq> [] \<Longrightarrow> (\<forall>l \<in> set ls. length l = u) \<Longrightarrow> 0 < u \<Longrightarrow> concat ls \<noteq> []"
  by (cases ls) auto

lemma lz_run_update:
  "s\<lparr>lr_polls := p, lr_reader := r, lr_output := out, lr_produced := n\<rparr> =
     \<lparr>lr_reader = r, lr_polls = p, lr_output = out, lr_produced = n\<rparr>"
  by (cases s) simp

lemma lz_turn_token:
  assumes "be_small (lr_reader s)" "0 < bias" "0 < u" "u < 256"
    and us: "\<And>x. x \<in> set us \<Longrightarrow> length x = u" and out: "lr_output s = concat us" "lr_produced s = length us"
    and t: "lz_token_ok u bias us t" "length (lz_emit us t) \<le> n" "n < usize_limit"
    and rest: "be_rest (lr_reader s) = lz_encode bias t @ rest"
  shows "\<exists>q. lz_turn never n u bias s =
    Inr \<lparr>lr_reader = be_skip (lr_reader s) (length (lz_encode bias t)), lr_polls = q,
         lr_output = concat (lz_emit us t), lr_produced = length (lz_emit us t)\<rparr>"
proof -
  obtain p where p: "poll_every never (lr_produced s) STR ''decode'' (lr_polls s) = Inr p" using poll_never by blast
  show ?thesis
  proof (cases t)
    case (LzLiteral ls)
    have ls: "ls \<noteq> []" "length ls \<le> 32" "\<And>x. x \<in> set ls \<Longrightarrow> length x = u" using t LzLiteral by auto
    have r: "be_rest (lr_reader s) = of_nat (length ls - 1) # concat ls @ rest" using rest LzLiteral by simp
    have c: "unat (of_nat (length ls - 1) :: u8) = length ls - 1" using ls(2) by (intro unat_of_nat_u8) simp
    have small: "(of_nat (length ls - 1) :: u8) < 32" using c ls(1,2) by (simp add: word_less_nat_alt)
    have l: "length (concat ls) = length ls * u" using ls(3) by (rule length_concat_units)
    have "length ls * u < 32 * 256 + 1" using ls(2) assms(4) mult_le_mono [of "length ls" 32 u 256] by simp
    moreover have "BigEndianReader_bytes (length ls * u) STR ''literal bytes'' (be_skip (lr_reader s) 1) =
        Inr (concat ls, be_skip (be_skip (lr_reader s) 1) (length ls * u))"
      using read_bytes [of "be_skip (lr_reader s) 1" "concat ls" rest] r assms(1,3) l
        concat_eq_length [of ls u] ls by simp
    ultimately show ?thesis
      using LzLiteral p small c ls(1) out t(2,3) l
      by (simp add: lz_turn_def lz_literal_def Let_def read_u8 [OF r] lz_run_update del: BigEndianReader_bytes_Inr)
  next
    case (LzMatch m d)
    have "\<exists>ctl bs. lz_encode bias t = ctl # bs" by (simp add: LzMatch Let_def)
    then obtain ctl bs where enc: "lz_encode bias t = ctl # bs" by blast
    have r: "be_rest (lr_reader s) = ctl # bs @ rest" using rest enc by simp
    have m: "bias \<le> m" "0 < d" "d \<le> length us" "d \<le> 73727" using t LzMatch by auto
    have n: "length us + m \<le> n" "length us + m < usize_limit" using t(2,3) LzMatch by auto
    obtain q where big: "\<not> ctl < 32"
      and ref: "lz_reference never bias ctl (be_skip (lr_reader s) 1) p =
        Inr (m, d, be_skip (be_skip (lr_reader s) 1) (length bs), q)"
      using lz_reference_reads [of "be_skip (lr_reader s) 1" bias m d ctl bs rest p] assms(1,2) m n enc r LzMatch by auto
    obtain q' where "lz_copy never u d m 0 (length us) (concat us) q =
        Inr (concat (lz_repeat d m us), length us + m, q')"
      using lz_copy_repeat [of us u d m 0 q] us m by blast
    then show ?thesis
      using LzMatch p big m n out enc ref
      by (simp add: lz_turn_def read_u8 [OF r])
  qed
qed

lemma lz_loop_tokens:
  assumes "be_small (lr_reader s)" "0 < bias" "0 < u" "u < 256"
    "\<And>x. x \<in> set us \<Longrightarrow> length x = u" "lr_output s = concat us" "lr_produced s = length us"
    "lz_tokens_ok u bias us ts" "length (lz_expand us ts) = n" "n < usize_limit"
    "be_rest (lr_reader s) = concat (map (lz_encode bias) ts) @ rest"
  shows "\<exists>q. lz_loop never n u bias s =
    Inr \<lparr>lr_reader = be_skip (lr_reader s) (length (concat (map (lz_encode bias) ts))), lr_polls = q,
         lr_output = concat (lz_expand us ts), lr_produced = n\<rparr>"
  using assms
proof (induction ts arbitrary: us s)
  case Nil
  then show ?case by (simp add: lz_loop.simps [of never n u bias s] be_skip_def) (metis lz_run.surjective unit.exhaust old.unit.exhaust)
next
  case (Cons t ts)
  have ok: "lz_token_ok u bias us t" "lz_tokens_ok u bias (lz_emit us t) ts" using Cons.prems(8) by simp_all
  have n: "length (lz_emit us t) \<le> n" using length_lz_expand [OF ok(2)] Cons.prems(9) by simp
  obtain q where turn: "lz_turn never n u bias s =
      Inr \<lparr>lr_reader = be_skip (lr_reader s) (length (lz_encode bias t)), lr_polls = q,
           lr_output = concat (lz_emit us t), lr_produced = length (lz_emit us t)\<rparr>" (is "_ = Inr ?s")
    using lz_turn_token [OF Cons.prems(1-7) ok(1) n Cons.prems(10)] Cons.prems(11) by auto
  have "\<exists>q. lz_loop never n u bias ?s =
    Inr \<lparr>lr_reader = be_skip (lr_reader ?s) (length (concat (map (lz_encode bias) ts))), lr_polls = q,
         lr_output = concat (lz_expand (lz_emit us t) ts), lr_produced = n\<rparr>"
    using Cons.prems ok lz_emit_units [OF Cons.prems(5) ok(1)] by (intro Cons.IH) auto
  then show ?case
    using turn length_lz_emit [OF ok(1)] n Cons.prems(7) by (simp add: lz_loop.simps [of never n u bias s])
qed

lemma decompress_units_tokens:
  assumes "be_small r" "0 < bias" "0 < u" "u < 256" "lz_tokens_ok u bias [] ts"
    "length (lz_expand [] ts) = n" "n * u < usize_limit"
    "be_rest r = concat (map (lz_encode bias) ts) @ rest"
  shows "\<exists>q. decompress_units never r n u bias p =
    Inr (concat (lz_expand [] ts), be_skip r (length (concat (map (lz_encode bias) ts))), q)"
proof -
  have "n \<le> n * u" using assms(3) by simp
  then have "n < usize_limit" using assms(7) by linarith
  then obtain q where "lz_loop never n u bias \<lparr>lr_reader = r, lr_polls = p, lr_output = [], lr_produced = 0\<rparr> =
    Inr \<lparr>lr_reader = be_skip r (length (concat (map (lz_encode bias) ts))), lr_polls = q,
         lr_output = concat (lz_expand [] ts), lr_produced = n\<rparr>"
    using lz_loop_tokens [of "\<lparr>lr_reader = r, lr_polls = p, lr_output = [], lr_produced = 0\<rparr>" bias u "[]" ts n rest]
      assms by auto
  with assms(7) show ?thesis by (simp add: decompress_units_def)
qed

lemma lz_expand_units:
  "(\<And>x. x \<in> set us \<Longrightarrow> length x = u) \<Longrightarrow> lz_tokens_ok u bias us ts \<Longrightarrow> x \<in> set (lz_expand us ts) \<Longrightarrow> length x = u"
proof (induction ts arbitrary: us)
  case (Cons t ts)
  have "length y = u" if "y \<in> set (lz_emit us t)" for y
    using lz_emit_units [of us u bias t y] Cons.prems(1,2) that by simp
  from Cons.IH [OF this] Cons.prems(2,3) show ?case by simp
qed simp

section \<open>Whole images\<close>

fun lz_type_code :: "LzImageType \<Rightarrow> u32" where
  "lz_type_code LzImageType_Palette1Le = 1"
| "lz_type_code LzImageType_Palette1Be = 2"
| "lz_type_code LzImageType_Palette4Le = 3"
| "lz_type_code LzImageType_Palette4Be = 4"
| "lz_type_code LzImageType_Palette8 = 5"
| "lz_type_code LzImageType_Rgb16 = 6"
| "lz_type_code LzImageType_Rgb24 = 7"
| "lz_type_code LzImageType_Rgb32 = 8"
| "lz_type_code LzImageType_Rgba = 9"
| "lz_type_code LzImageType_XxxAlpha = 10"
| "lz_type_code LzImageType_Alpha8 = 11"

definition lz_header_bytes :: "LzHeader \<Rightarrow> u8 list" where
  "lz_header_bytes h = to_be 4 LZ_MAGIC @ to_be 4 LZ_VERSION @ to_be 4 (lz_type_code (lh_image_type h)) @
     to_be 4 (lh_width h) @ to_be 4 (lh_height h) @ to_be 4 (lh_stride h) @
     to_be 4 (if lh_top_down h then 1 else 0 :: u32)"

lemma read_u32:
  assumes "be_rest r = to_be 4 w @ rest" "be_small r"
  shows "BigEndianReader_u32 ctx r = Inr (w, be_skip r 4)"
proof -
  have "to_be 4 w \<noteq> []" using length_to_be [of 4 w] by (metis length_0_conv zero_neq_numeral)
  from read_bytes [OF assms this, of ctx] show ?thesis
    by (simp add: BigEndianReader_u32_def del: BigEndianReader_bytes_Inr)
qed

lemma LzImageType_try_from_code [simp]: "LzImageType_try_from (lz_type_code ty) = Inr ty"
  by (cases ty) (simp_all add: LzImageType_try_from_def)

lemma lz_header_reads:
  assumes "length (lz_header_bytes h @ body) < usize_limit"
  shows "lz_header (lz_header_bytes h @ body) =
    Inr (h, be_skip (BigEndianReader_new (lz_header_bytes h @ body)) 28)"
proof -
  let ?r = "BigEndianReader_new (lz_header_bytes h @ body)"
  have small: "be_small ?r" using assms by (simp add: be_small_def BigEndianReader_new_def)
  have rest: "be_rest ?r = lz_header_bytes h @ body" by (simp add: be_rest_def BigEndianReader_new_def)
  have l: "\<not> length (lz_header_bytes h @ body) < 28" by (simp add: lz_header_bytes_def)
  note reads = read_u32 [of "be_skip ?r k" for k]
  have steps: "BigEndianReader_u32 ctx ?r = Inr (LZ_MAGIC, be_skip ?r 4)"
    "BigEndianReader_u32 ctx (be_skip ?r 4) = Inr (LZ_VERSION, be_skip ?r 8)"
    "BigEndianReader_u32 ctx (be_skip ?r 8) = Inr (lz_type_code (lh_image_type h), be_skip ?r 12)"
    "BigEndianReader_u32 ctx (be_skip ?r 12) = Inr (lh_width h, be_skip ?r 16)"
    "BigEndianReader_u32 ctx (be_skip ?r 16) = Inr (lh_height h, be_skip ?r 20)"
    "BigEndianReader_u32 ctx (be_skip ?r 20) = Inr (lh_stride h, be_skip ?r 24)"
    "BigEndianReader_u32 ctx (be_skip ?r 24) = Inr (if lh_top_down h then 1 else 0, be_skip ?r 28)" for ctx
    using read_u32 [of ?r] reads rest small by (simp_all add: lz_header_bytes_def del: LZ_MAGIC_def LZ_VERSION_def)
  show ?thesis
    unfolding lz_header_def HEADER_BYTES_def using l
    by (simp only: if_False steps and_then_Inr prod.case refl simp_thms LzImageType_try_from_code)
       (cases h; simp)
qed

lemma direct_body_total:
  assumes "in_grid w h i" "is_direct ty" "length source = w * h * LzImageType_compressed_unit_bytes ty"
    "length (fst acc) = w * h * 4"
  shows "\<exists>acc'. direct_body never source ty w h td i acc = Inr acc' \<and> length (fst acc') = w * h * 4"
proof -
  obtain v where v: "direct_pixel source ty ((fst i * w + snd i) * LzImageType_compressed_unit_bytes ty) = Inr v" "length v = 4"
    using direct_pixel_Inr [of ty "(fst i * w + snd i) * LzImageType_compressed_unit_bytes ty" source] assms
      cell_end [OF grid_bound [of "fst i" h "snd i" w]] by (auto simp: in_grid_def)
  obtain q where "poll_every never (fst i * w + snd i) STR ''pixel conversion'' (snd acc) = Inr q" using poll_never by blast
  with v assms(4) cell_end [OF grid_cell_bound [OF assms(1), of td], of 4] show ?thesis
    by (cases i; cases acc) (auto simp: direct_body_def Let_def grid_cell_def)
qed

lemma expand_direct_color_total:
  assumes "is_direct ty" "length source = w * h * LzImageType_compressed_unit_bytes ty"
  shows "\<exists>out q. expand_direct_color never source ty w h td p = Inr (out, q)"
  using for_each_total [of "\<lambda>acc. length (fst acc) = w * h * 4" "(replicate (w * h * 4) 0, p)"
      "List.product [0..<h] [0..<w]" "direct_body never source ty w h td"]
    direct_body_total [OF _ assms] unfolding expand_direct_color_loop in_grid_product by auto

text \<open>C20: the decompressor is the inverse of the LZ77 encoder: a reader positioned at the encoding of any
  valid token stream yields the concatenated units the tokens stand for, and stops exactly at the end
  of the encoding. Copies that overlap their source, extended lengths and far distances are included.\<close>

theorem lz_decompress_inverts_tokens:
  assumes "be_small r" "0 < bias" "0 < u" "u < 256" "lz_tokens_ok u bias [] ts"
    "length (lz_expand [] ts) * u < usize_limit"
    "be_rest r = concat (map (lz_encode bias) ts) @ rest"
  shows "\<exists>polls'. decompress_units (\<lambda>_. False) r (length (lz_expand [] ts)) u bias polls =
      Inr (concat (lz_expand [] ts), be_skip r (length (concat (map (lz_encode bias) ts))), polls') \<and>
    be_rest (be_skip r (length (concat (map (lz_encode bias) ts)))) = rest"
  using decompress_units_tokens [OF assms(1-5) refl assms(6,7), of polls] assms(7) by auto

text \<open>C19: a 24-bit or 32-bit RGB image decodes to its pixels: the header and the encoding of the tokens whose units are the rows
  of BGR triples in storage order give an image of four bytes per pixel whose first row is the top of the picture. The pixel in
  column \<open>x\<close> of its row \<open>y\<close> is the opaque RGBA form of the triple in column \<open>x\<close> of storage row \<open>y\<close> when the header says that
  the rows are stored top-down, and of storage row \<open>height - 1 - y\<close> when they are stored bottom-up.\<close>

theorem lz_rgb_image_round_trip:
  assumes ty: "lh_image_type h = LzImageType_Rgb24 \<or> lh_image_type h = LzImageType_Rgb32"
    and v: "lz_validate None limits h = Inr (length (lz_expand [] ts))"
    and ts: "lz_tokens_ok 3 1 [] ts"
    and input: "input = lz_header_bytes h @ concat (map (lz_encode 1) ts)" "length input < usize_limit"
  shows "\<exists>out. decode_lz input None limits =
      Inr \<lparr>di_width = lh_width h, di_height = lh_height h, di_top_down = lh_top_down h,
           di_image_type = lh_image_type h, di_pixels = DecodedPixels_Rgba out\<rparr> \<and>
    length out = unat (lh_width h) * unat (lh_height h) * 4 \<and>
    (\<forall>y < unat (lh_height h). \<forall>x < unat (lh_width h).
       take 4 (drop ((y * unat (lh_width h) + x) * 4) out) =
       (let storage_row = (if lh_top_down h then y else unat (lh_height h) - 1 - y);
            bgr = lz_expand [] ts ! (storage_row * unat (lh_width h) + x) in [bgr ! 2, bgr ! 1, bgr ! 0, 255]))"
proof -
  let ?us = "lz_expand [] ts" and ?w = "unat (lh_width h)" and ?h = "unat (lh_height h)"
  let ?r = "be_skip (BigEndianReader_new input) 28" and ?enc = "concat (map (lz_encode 1) ts)"
  note vv = lz_validate_Inr [OF v]
  have n: "length ?us = ?w * ?h" "length ?us * 4 < usize_limit" using vv(1,8) ty by (auto simp: bytes_per_pixel_def)
  have units: "LzImageType_compressed_unit_bytes (lh_image_type h) = 3" "LzImageType_match_length_bias (lh_image_type h) = 1"
    "is_direct (lh_image_type h)" "\<not> LzImageType_is_palette (lh_image_type h)" using ty by (auto simp: is_direct_def)
  have len3: "\<And>x. x \<in> set ?us \<Longrightarrow> length x = 3" using lz_expand_units [of "[]" 3 1 ts] ts by auto
  have src: "length (concat ?us) = ?w * ?h * 3" using length_concat_units [OF len3] n(1) by simp
  have hdr: "length (lz_header_bytes h) = 28" by (simp add: lz_header_bytes_def)
  have r: "be_rest ?r = ?enc @ []" "be_small ?r" "be_offset (be_skip ?r (length ?enc)) = length input"
    using input hdr by (simp_all add: be_rest_def be_skip_def be_small_def BigEndianReader_new_def)
  obtain q where dec: "decompress_units never ?r (length ?us) 3 1 1 = Inr (concat ?us, be_skip ?r (length ?enc), q)"
    using decompress_units_tokens [OF r(2) _ _ _ ts refl _ r(1), of 1] n(2) by auto
  obtain out q' where ex: "expand_direct_color never (concat ?us) (lh_image_type h) ?w ?h (lh_top_down h) q = Inr (out, q')"
    using expand_direct_color_total [OF units(3), of "concat ?us" ?w ?h "lh_top_down h" q] src units(1) by auto
  have px: "lz_pixels never None h (length ?us) ?r 1 = Inr (DecodedPixels_Rgba out, be_skip ?r (length ?enc), q')"
    using units dec ex ty by (simp add: lz_pixels_def Let_def)
  have "decode_lz input None limits = Inr \<lparr>di_width = lh_width h, di_height = lh_height h,
      di_top_down = lh_top_down h, di_image_type = lh_image_type h, di_pixels = DecodedPixels_Rgba out\<rparr>"
    using lz_header_reads [of h ?enc] input v px r(3)
    by (simp add: decode_lz_def decode_lz_with_cancel_def BigEndianReader_remaining_def be_skip_def BigEndianReader_new_def)
  moreover have cell: "cell_at 4 (oriented_y y ?h (lh_top_down h) * ?w + x) out =
      (let bgr = ?us ! (y * ?w + x) in [bgr ! 2, bgr ! 1, bgr ! 0, 255])" if "y < ?h" "x < ?w" for x y
  proof -
    let ?k = "y * ?w + x"
    have k: "?k < length ?us" using grid_bound [OF that] n(1) by simp
    have bgr: "cell_at 3 ?k (concat ?us) = ?us ! ?k" using cell_at_concat [OF len3 k] .
    have e: "concat ?us ! (?k * 3 + j) = ?us ! ?k ! j" if "j < 3" for j
      using that bgr cell_end [OF k, of 3] src n(1) by (auto simp: cell_at_def dest!: arg_cong [of _ _ "\<lambda>xs. xs ! j"])
    have "direct_pixel (concat ?us) (lh_image_type h) (?k * 3) = Inr [?us ! ?k ! 2, ?us ! ?k ! 1, ?us ! ?k ! 0, 255]"
      using ty e [of 0] e [of 1] e [of 2] cell_end [OF k, of 3] src n(1) by auto
    with expand_direct_color_cells [OF ex units(3)] src units(1) that show ?thesis by (simp add: Let_def)
  qed
  moreover have "take 4 (drop ((y * ?w + x) * 4) out) =
      (let storage_row = (if lh_top_down h then y else ?h - 1 - y); bgr = ?us ! (storage_row * ?w + x) in
       [bgr ! 2, bgr ! 1, bgr ! 0, 255])" if "y < ?h" "x < ?w" for x y
    using cell [OF oriented_y_bound [OF that(1), of "lh_top_down h"] that(2)] oriented_y_involutive [OF that(1), of "lh_top_down h"]
    by (auto simp: cell_at_def oriented_y_def Let_def)
  moreover have "length out = ?w * ?h * 4" using expand_direct_color_cells [OF ex units(3)] src units(1) by simp
  ultimately show ?thesis by blast
qed

subsection \<open>Concrete streams\<close>

lemma lz_repeat_numeral:
  "lz_repeat d (numeral k) us = lz_repeat d (pred_numeral k) (us @ [us ! (length us - d)])"
  by (simp add: numeral_eq_Suc)

theorem lz_decompress_inverts_tokens_witness:
  "\<exists>polls'. decompress_units (\<lambda>_. False) (BigEndianReader_new [1, 7, 9, 96, 1]) 7 1 3 0 =
     Inr ([7, 9, 7, 9, 7, 9, 7], be_skip (BigEndianReader_new [1, 7, 9, 96, 1]) 5, polls')"
  using lz_decompress_inverts_tokens [of "BigEndianReader_new [1, 7, 9, 96, 1]" 3 1
      "[LzLiteral [[7], [9]], LzMatch 5 2]" "[]" 0]
  by (simp add: be_small_def be_rest_def be_skip_def BigEndianReader_new_def Let_def lz_distance_high_def
      lz_distance_low_def lz_repeat_numeral) (simp add: numeral_eq_Suc)

definition rgb_header :: LzHeader where
  "rgb_header = \<lparr>lh_image_type = LzImageType_Rgb24, lh_width = 1, lh_height = 2, lh_stride = 3, lh_top_down = False\<rparr>"

text \<open>Two pixels, one above the other, stored bottom-up.\<close>

theorem lz_rgb_image_round_trip_witness:
  "\<exists>out. decode_lz (lz_header_bytes rgb_header @ [1, 1, 2, 3, 4, 5, 6]) None alpha_limits =
     Inr \<lparr>di_width = 1, di_height = 2, di_top_down = False, di_image_type = LzImageType_Rgb24,
          di_pixels = DecodedPixels_Rgba out\<rparr> \<and> take 4 out = [6, 5, 4, 255] \<and> take 4 (drop 4 out) = [3, 2, 1, 255]"
proof -
  have v: "lz_validate None alpha_limits rgb_header = Inr (length (lz_expand [] [LzLiteral [[1, 2, 3], [4, 5, 6]]]))"
    by (simp add: lz_validate_def rgb_header_def alpha_limits_def Let_def usize_checked_mul_def)
  have enc: "concat (map (lz_encode 1) [LzLiteral [[1, 2, 3], [4, 5, 6]]]) = [1, 1, 2, 3, 4, 5, 6]" by simp
  have ok: "lz_tokens_ok 3 1 [] [LzLiteral [[1, 2, 3], [4, 5, 6]]]" by simp
  have small: "length (lz_header_bytes rgb_header @ [1, 1, 2, 3, 4, 5, 6]) < usize_limit"
    by (simp add: lz_header_bytes_def)
  show ?thesis
    using lz_rgb_image_round_trip [OF _ v ok _ small] enc
    by (auto simp: rgb_header_def Let_def less_2_cases_iff all_simps)
qed

end
