(* ===== verification/Codec_Glz.thy ===== *)
theory Codec_Glz
  imports Codec_Lz
begin

text \<open>
  The SPICE GLZ image decoder (\<open>glz.rs\<close> of the codecs crate). GLZ extends LZ with references into images
  decoded earlier; the caller's \<open>resolve_image\<close> is a function from an image identifier to the pixels it
  retained, and \<open>should_cancel\<close> is, as for LZ, a function from the number of the poll to its answer. The
  output is the flat byte vector of the code, written at multiples of four.

  Shown here: both streams end, because every turn produces at least one pixel; no input and no
  dictionary make the decoder index outside its buffers; and a successful decode has exactly the
  declared pixels within the caller's limits.
\<close>

section \<open>Errors and the reader\<close>

datatype GlzErrorKind =
    GlzErrorKind_Truncated | GlzErrorKind_InvalidHeader | GlzErrorKind_InvalidBackReference
  | GlzErrorKind_MissingReference | GlzErrorKind_OutputOverflow | GlzErrorKind_ResourceLimit
  | GlzErrorKind_UnsupportedType | GlzErrorKind_TrailingData | GlzErrorKind_Cancelled

record GlzError =
  glz_kind :: GlzErrorKind
  glz_context :: context_str
  glz_missing_image_id :: "u64 option"

definition GlzError_new :: "GlzErrorKind \<Rightarrow> context_str \<Rightarrow> GlzError" where
  "GlzError_new k ctx = \<lparr>glz_kind = k, glz_context = ctx, glz_missing_image_id = None\<rparr>"

definition GlzError_missing :: "u64 \<Rightarrow> GlzError" where
  "GlzError_missing image_id =
     \<lparr>glz_kind = GlzErrorKind_MissingReference, glz_context = STR ''dictionary image'', glz_missing_image_id = Some image_id\<rparr>"

abbreviation glz_err :: "GlzErrorKind \<Rightarrow> context_str \<Rightarrow> (GlzError, 'a) outcome" where
  "glz_err k ctx \<equiv> Inl (Err (GlzError_new k ctx))"

definition GLZ_HEADER_BYTES :: nat where [simp]: "GLZ_HEADER_BYTES = 33"
definition GLZ_EXTENDED_LENGTH_MARKER :: nat where [simp]: "GLZ_EXTENDED_LENGTH_MARKER = 7"

record GlzReader =
  gz_input :: "u8 list"
  gz_offset :: nat

definition GlzReader_remaining :: "GlzReader \<Rightarrow> nat" where
  "GlzReader_remaining r = length (gz_input r) - gz_offset r"

definition GlzReader_u8 :: "context_str \<Rightarrow> GlzReader \<Rightarrow> (GlzError, u8 \<times> GlzReader) outcome" where
  "GlzReader_u8 ctx r =
     (if gz_offset r < length (gz_input r)
      then Inr (gz_input r ! gz_offset r, r\<lparr>gz_offset := gz_offset r + 1\<rparr>)
      else glz_err GlzErrorKind_Truncated ctx)"

definition GlzReader_bytes :: "nat \<Rightarrow> context_str \<Rightarrow> GlzReader \<Rightarrow> (GlzError, u8 list \<times> GlzReader) outcome" where
  "GlzReader_bytes n ctx r =
     and_then (ok_or (GlzError_new GlzErrorKind_Truncated ctx) (usize_checked_add (gz_offset r) n)) (\<lambda>end_offset.
     and_then (ok_or (GlzError_new GlzErrorKind_Truncated ctx) (slice_get (gz_input r) (gz_offset r) end_offset)) (\<lambda>bytes.
     Inr (bytes, r\<lparr>gz_offset := end_offset\<rparr>)))"

definition GlzReader_u32 :: "context_str \<Rightarrow> GlzReader \<Rightarrow> (GlzError, u32 \<times> GlzReader) outcome" where
  "GlzReader_u32 ctx r =
     and_then (GlzReader_bytes 4 ctx r) (\<lambda>(bytes, r).
     and_then (expect (if length bytes = 4 then Some bytes else None)) (\<lambda>bytes. Inr (from_be bytes, r)))"

definition GlzReader_u64 :: "context_str \<Rightarrow> GlzReader \<Rightarrow> (GlzError, u64 \<times> GlzReader) outcome" where
  "GlzReader_u64 ctx r =
     and_then (GlzReader_bytes 8 ctx r) (\<lambda>(bytes, r).
     and_then (expect (if length bytes = 8 then Some bytes else None)) (\<lambda>bytes. Inr (from_be bytes, r)))"

section \<open>References\<close>

definition glz_ensure_output_room :: "nat \<Rightarrow> nat \<Rightarrow> nat \<Rightarrow> (GlzError, unit) outcome" where
  "glz_ensure_output_room produced additional expected =
     (case usize_checked_add produced additional of
        None \<Rightarrow> glz_err GlzErrorKind_OutputOverflow STR ''stream pixels''
      | Some n \<Rightarrow> if n > expected then glz_err GlzErrorKind_OutputOverflow STR ''stream pixels'' else Inr ())"

definition glz_check_cancel :: "(nat \<Rightarrow> bool) \<Rightarrow> nat \<Rightarrow> nat \<Rightarrow> (GlzError, nat) outcome" where
  "glz_check_cancel should_cancel progress polls =
     (if progress mod CANCELLATION_CHECK_INTERVAL = 0
      then if should_cancel polls then glz_err GlzErrorKind_Cancelled STR ''decode'' else Inr (polls + 1)
      else Inr polls)"

record GlzReference =
  ref_length :: nat
  ref_pixel_offset :: nat
  ref_image_distance :: u64

function glz_extend :: "nat \<Rightarrow> GlzReader \<Rightarrow> (GlzError, nat \<times> GlzReader) outcome" where
  "glz_extend len r =
     and_then (GlzReader_u8 STR ''match length extension'' r) (\<lambda>(extension, r).
     and_then (ok_or (GlzError_new GlzErrorKind_OutputOverflow STR ''match length'') (usize_checked_add len (unat extension))) (\<lambda>len.
     if extension \<noteq> 255 then Inr (len, r) else glz_extend len r))"
  by pat_completeness auto
termination
  by (relation "measure (\<lambda>(n, r). length (gz_input r) - gz_offset r)") (auto simp: GlzReader_u8_def split: if_splits)

declare glz_extend.simps [simp del]

text \<open>The bytes of an image distance, least significant first, from bit \<open>base\<close> on.\<close>

definition glz_distance :: "nat \<Rightarrow> nat \<Rightarrow> u64 \<Rightarrow> GlzReader \<Rightarrow> (GlzError, u64 \<times> GlzReader) outcome" where
  "glz_distance base n distance r =
     for_each (\<lambda>byte_index (distance, r).
       and_then (GlzReader_u8 STR ''image distance'' r) (\<lambda>(b, r).
       Inr (distance OR push_bit (base + byte_index * 8) (ucast b), r))) [0..<n] (distance, r)"

abbreviation glz_offset_add :: "nat \<Rightarrow> nat \<Rightarrow> (GlzError, nat) outcome" where
  "glz_offset_add a b \<equiv> ok_or (GlzError_new GlzErrorKind_InvalidBackReference STR ''pixel offset'') (usize_checked_add a b)"

definition glz_decode_reference :: "GlzReader \<Rightarrow> u8 \<Rightarrow> nat \<Rightarrow> (GlzError, GlzReference \<times> GlzReader) outcome" where
  "glz_decode_reference r control match_bias =
     (let len = unat (drop_bit 5 control); long_pixel_offset = (control AND 0x10 \<noteq> 0); pixel_offset = unat (control AND 0x0f) in
      and_then (if len = GLZ_EXTENDED_LENGTH_MARKER then glz_extend len r else Inr (len, r)) (\<lambda>(len, r).
      and_then (GlzReader_u8 STR ''pixel offset'' r) (\<lambda>(b, r).
      and_then (glz_offset_add pixel_offset (unat b * 16)) (\<lambda>pixel_offset.
      and_then (GlzReader_u8 STR ''reference descriptor'' r) (\<lambda>(descriptor, r).
      let distance_bytes = unat (drop_bit 6 descriptor) in
      and_then
        (if long_pixel_offset then
           and_then (glz_offset_add pixel_offset (unat (descriptor AND 0x1f) * 4096)) (\<lambda>pixel_offset.
           and_then (glz_distance 0 distance_bytes 0 r) (\<lambda>(distance, r).
           if descriptor AND 0x20 \<noteq> 0 then
             and_then (GlzReader_u8 STR ''long pixel offset'' r) (\<lambda>(b, r).
             and_then (glz_offset_add pixel_offset (unat b * 131072)) (\<lambda>pixel_offset.
             Inr (pixel_offset, distance, r)))
           else Inr (pixel_offset, distance, r)))
         else
           and_then (glz_distance 6 distance_bytes (ucast (descriptor AND 0x3f)) r) (\<lambda>(distance, r).
           Inr (pixel_offset, distance, r))) (\<lambda>(pixel_offset, image_distance, r).
      and_then (ok_or (GlzError_new GlzErrorKind_OutputOverflow STR ''match length'') (usize_checked_add len match_bias)) (\<lambda>len.
      and_then (if image_distance = 0 then glz_offset_add pixel_offset 1 else Inr pixel_offset) (\<lambda>pixel_offset.
      Inr (\<lparr>ref_length = len, ref_pixel_offset = pixel_offset, ref_image_distance = image_distance\<rparr>, r)))))))))"

definition glz_copy_pixel :: "nat \<Rightarrow> nat \<Rightarrow> bool \<Rightarrow> u8 list \<Rightarrow> (GlzError, u8 list) outcome" where
  "glz_copy_pixel source destination alpha_only out =
     (let source_start = source * 4; destination_start = destination * 4 in
      if alpha_only then and_then (index_at out (source_start + 3)) (index_set out (destination_start + 3))
      else copy_within out source_start 4 destination_start)"

definition glz_copy_local :: "(nat \<Rightarrow> bool) \<Rightarrow> nat \<Rightarrow> nat \<Rightarrow> bool \<Rightarrow> nat \<Rightarrow> u8 list \<times> nat \<Rightarrow> (GlzError, u8 list \<times> nat) outcome" where
  "glz_copy_local should_cancel produced pixel_offset alpha_only copied st =
     (case st of (out, polls) \<Rightarrow>
      and_then (glz_check_cancel should_cancel copied polls) (\<lambda>polls.
      if produced + copied < pixel_offset then Inl Panic
      else
      and_then (glz_copy_pixel (produced + copied - pixel_offset) (produced + copied) alpha_only out) (\<lambda>out.
      Inr (out, polls))))"

definition glz_copy_from :: "(nat \<Rightarrow> bool) \<Rightarrow> u8 list \<Rightarrow> nat \<Rightarrow> nat \<Rightarrow> bool \<Rightarrow> nat \<Rightarrow> u8 list \<times> nat \<Rightarrow> (GlzError, u8 list \<times> nat) outcome" where
  "glz_copy_from should_cancel source produced pixel_offset alpha_only copied st =
     (case st of (out, polls) \<Rightarrow>
      and_then (glz_check_cancel should_cancel copied polls) (\<lambda>polls.
      let source_start = (pixel_offset + copied) * 4; destination_start = (produced + copied) * 4 in
      and_then
        (if alpha_only then and_then (index_at source (source_start + 3)) (index_set out (destination_start + 3))
         else and_then (slice_index source source_start (source_start + 4)) (\<lambda>bytes.
              expect (copy_from_slice out destination_start bytes))) (\<lambda>out.
      Inr (out, polls))))"

definition glz_copy_reference ::
    "(u64 \<Rightarrow> u8 list option) \<Rightarrow> (nat \<Rightarrow> bool) \<Rightarrow> u64 \<Rightarrow> bool \<Rightarrow> nat \<Rightarrow> GlzReference \<Rightarrow> u8 list \<times> nat \<Rightarrow>
     (GlzError, u8 list \<times> nat) outcome" where
  "glz_copy_reference resolve_image should_cancel image_id alpha_only produced reference st =
     (if ref_length reference = 0 then glz_err GlzErrorKind_InvalidBackReference STR ''zero match length''
      else if ref_image_distance reference = 0 then
        if ref_pixel_offset reference > produced then glz_err GlzErrorKind_InvalidBackReference STR ''local pixel offset''
        else for_each (glz_copy_local should_cancel produced (ref_pixel_offset reference) alpha_only) [0..<ref_length reference] st
      else if image_id < ref_image_distance reference then glz_err GlzErrorKind_InvalidBackReference STR ''image distance''
      else
      let reference_id = image_id - ref_image_distance reference in
      and_then (ok_or (GlzError_missing reference_id) (resolve_image reference_id)) (\<lambda>source.
      let source_pixels = length source div 4 in
      if length source mod 4 \<noteq> 0 \<or>
         (case usize_checked_add (ref_pixel_offset reference) (ref_length reference) of None \<Rightarrow> True | Some e \<Rightarrow> e > source_pixels)
      then glz_err GlzErrorKind_InvalidBackReference STR ''dictionary pixel range''
      else for_each (glz_copy_from should_cancel source produced (ref_pixel_offset reference) alpha_only)
             [0..<ref_length reference] st))"

section \<open>The two streams\<close>

record glz_run =
  gr_reader :: GlzReader
  gr_polls :: nat
  gr_output :: "u8 list"
  gr_produced :: nat

definition glz_literal_pixel :: "LzImageType \<Rightarrow> u8 list \<Rightarrow> (GlzError, u8 list) outcome" where
  "glz_literal_pixel image_type encoded =
     (if image_type = LzImageType_Rgb16 then
        and_then (index_at encoded 0) (\<lambda>hi. and_then (index_at encoded 1) (\<lambda>lo.
        let v = (from_be [hi, lo] :: u16) in
        Inr [expand_five_bits (ucast (drop_bit 10 v AND 0x1f)), expand_five_bits (ucast (drop_bit 5 v AND 0x1f)),
             expand_five_bits (ucast (v AND 0x1f)), 255]))
      else
        and_then (index_at encoded 2) (\<lambda>red. and_then (index_at encoded 1) (\<lambda>green. and_then (index_at encoded 0) (\<lambda>blue.
        Inr [red, green, blue, 255]))))"

definition glz_literal_bytes :: "LzImageType \<Rightarrow> (GlzError, nat) outcome" where
  "glz_literal_bytes image_type =
     (case image_type of LzImageType_Rgb16 \<Rightarrow> Inr 2 | LzImageType_Rgb24 \<Rightarrow> Inr 3 | LzImageType_Rgb32 \<Rightarrow> Inr 3
      | LzImageType_Rgba \<Rightarrow> Inr 3 | _ \<Rightarrow> Inl Panic)"

definition glz_literal :: "LzImageType \<Rightarrow> nat \<Rightarrow> nat \<Rightarrow> glz_run \<Rightarrow> (GlzError, glz_run) outcome" where
  "glz_literal image_type literal_bytes _ s =
     and_then (GlzReader_bytes literal_bytes STR ''literal pixel'' (gr_reader s)) (\<lambda>(encoded, r).
     and_then (glz_literal_pixel image_type encoded) (\<lambda>rgba.
     Inr (s\<lparr>gr_reader := r, gr_output := gr_output s @ rgba, gr_produced := gr_produced s + 1\<rparr>)))"

text \<open>\<open>output.resize(n, 0)\<close>\<close>

definition vec_resize :: "u8 list \<Rightarrow> nat \<Rightarrow> u8 list" where
  "vec_resize out n = take n out @ replicate (n - length out) 0"

definition glz_color_turn ::
    "(u64 \<Rightarrow> u8 list option) \<Rightarrow> (nat \<Rightarrow> bool) \<Rightarrow> u64 \<Rightarrow> LzImageType \<Rightarrow> nat \<Rightarrow> nat \<Rightarrow> glz_run \<Rightarrow> (GlzError, glz_run) outcome" where
  "glz_color_turn resolve_image should_cancel image_id image_type literal_bytes expected_pixels s =
     (let match_bias = (if image_type = LzImageType_Rgb16 then 1 else 0); produced = gr_produced s in
      and_then (glz_check_cancel should_cancel produced (gr_polls s)) (\<lambda>polls.
      and_then (GlzReader_u8 STR ''control byte'' (gr_reader s)) (\<lambda>(control, r).
      let s = s\<lparr>gr_reader := r, gr_polls := polls\<rparr> in
      if control < LITERAL_CONTROL_LIMIT then
        let n = unat control + 1 in
        and_then (glz_ensure_output_room produced n expected_pixels) (\<lambda>_.
        for_each (glz_literal image_type literal_bytes) [0..<n] s)
      else
      and_then (glz_decode_reference r control match_bias) (\<lambda>(reference, r).
      and_then (glz_ensure_output_room produced (ref_length reference) expected_pixels) (\<lambda>_.
      let out = vec_resize (gr_output s) ((produced + ref_length reference) * 4) in
      and_then (glz_copy_reference resolve_image should_cancel image_id False produced reference (out, polls)) (\<lambda>(out, polls).
      Inr \<lparr>gr_reader = r, gr_polls = polls, gr_output = out, gr_produced = produced + ref_length reference\<rparr>))))))"

definition glz_literal_alpha :: "nat \<Rightarrow> u8 list \<times> GlzReader \<Rightarrow> (GlzError, u8 list \<times> GlzReader) outcome" where
  "glz_literal_alpha px st =
     (case st of (out, r) \<Rightarrow>
      and_then (GlzReader_u8 STR ''literal alpha'' r) (\<lambda>(a, r).
      and_then (index_set out (px * 4 + 3) a) (\<lambda>out. Inr (out, r))))"

definition glz_alpha_turn ::
    "(u64 \<Rightarrow> u8 list option) \<Rightarrow> (nat \<Rightarrow> bool) \<Rightarrow> u64 \<Rightarrow> nat \<Rightarrow> glz_run \<Rightarrow> (GlzError, glz_run) outcome" where
  "glz_alpha_turn resolve_image should_cancel image_id expected_pixels s =
     (let produced = gr_produced s in
      and_then (glz_check_cancel should_cancel produced (gr_polls s)) (\<lambda>polls.
      and_then (GlzReader_u8 STR ''alpha control byte'' (gr_reader s)) (\<lambda>(control, r).
      if control < LITERAL_CONTROL_LIMIT then
        let n = unat control + 1 in
        and_then (glz_ensure_output_room produced n expected_pixels) (\<lambda>_.
        and_then (for_each glz_literal_alpha [produced..<produced + n] (gr_output s, r)) (\<lambda>(out, r).
        Inr \<lparr>gr_reader = r, gr_polls = polls, gr_output = out, gr_produced = produced + n\<rparr>))
      else
      and_then (glz_decode_reference r control 2) (\<lambda>(reference, r).
      and_then (glz_ensure_output_room produced (ref_length reference) expected_pixels) (\<lambda>_.
      and_then (glz_copy_reference resolve_image should_cancel image_id True produced reference (gr_output s, polls)) (\<lambda>(out, polls).
      Inr \<lparr>gr_reader = r, gr_polls = polls, gr_output = out, gr_produced = produced + ref_length reference\<rparr>))))))"

section \<open>Readers\<close>

lemma GlzReader_u8_Inr [simp]:
  "GlzReader_u8 ctx r = Inr (b, r') \<longleftrightarrow>
     gz_offset r < length (gz_input r) \<and> b = gz_input r ! gz_offset r \<and> r' = r\<lparr>gz_offset := gz_offset r + 1\<rparr>"
  by (auto simp: GlzReader_u8_def)

lemma GlzReader_bytes_Inr [simp]:
  "GlzReader_bytes n ctx r = Inr (bs, r') \<longleftrightarrow>
     gz_offset r + n \<le> length (gz_input r) \<and> gz_offset r + n < usize_limit \<and>
     bs = take n (drop (gz_offset r) (gz_input r)) \<and> r' = r\<lparr>gz_offset := gz_offset r + n\<rparr>"
  by (auto simp: GlzReader_bytes_def)

lemma no_panic_GlzReader [no_panic_intros]:
  "no_panic (GlzReader_u8 ctx r)" "no_panic (GlzReader_bytes n ctx r)"
  by (simp_all add: GlzReader_u8_def GlzReader_bytes_def no_panic_and_then)

lemma no_panic_GlzReader_int [no_panic_intros]: "no_panic (GlzReader_u32 ctx r)" "no_panic (GlzReader_u64 ctx r)"
  by (auto simp: GlzReader_u32_def GlzReader_u64_def intro!: no_panic_intros)

lemma no_panic_glz_checks [no_panic_intros]:
  "no_panic (glz_ensure_output_room a b c)" "no_panic (glz_check_cancel f n p)"
  by (simp_all add: glz_ensure_output_room_def glz_check_cancel_def split: option.split)

lemma no_panic_glz_extend [no_panic_intros]: "no_panic (glz_extend n r)"
proof (induction n r rule: glz_extend.induct)
  case (1 n r)
  show ?case by (subst glz_extend.simps) (auto intro!: no_panic_intros 1)
qed

lemma no_panic_for_each: "(\<And>i b. i \<in> set js \<Longrightarrow> no_panic (f i b)) \<Longrightarrow> no_panic (for_each f js b)"
  using for_each_keeps [of js "\<lambda>_. True" f b] by simp

lemma no_panic_glz_distance [no_panic_intros]: "no_panic (glz_distance base n d r)"
  unfolding glz_distance_def by (intro no_panic_for_each) (auto split: prod.splits intro!: no_panic_intros)

lemma no_panic_glz_decode_reference [no_panic_intros]: "no_panic (glz_decode_reference r c b)"
  unfolding glz_decode_reference_def Let_def by (intro no_panic_intros)

lemma glz_ensure_output_room_Inr [simp]:
  "glz_ensure_output_room a b c = Inr u \<longleftrightarrow> a + b \<le> c \<and> a + b < usize_limit"
  by (auto simp: glz_ensure_output_room_def split: option.splits if_splits)

section \<open>Copies\<close>

lemma length_copy_within_Inr: "copy_within xs a n b = Inr ys \<Longrightarrow> length ys = length xs"
  using length_copy_within [of a n xs b] by (auto simp: copy_within_def split: if_splits)

lemma glz_copy_local_ok:
  assumes "off \<le> produced" "0 < off" "(produced + len) * 4 \<le> length (fst st)" "i < len"
  shows "no_panic (glz_copy_local c produced off alpha i st)"
    "glz_copy_local c produced off alpha i st = Inr st' \<Longrightarrow> length (fst st') = length (fst st)"
proof -
  obtain out p where st: "st = (out, p)" by (cases st)
  have "(produced + i) * 4 + 4 \<le> (produced + len) * 4" using assms(4) by simp
  then have d: "(produced + i) * 4 + 4 \<le> length out" using assms(3) st by simp
  have s: "(produced + i - off) * 4 + 4 \<le> length out" using d by (simp add: diff_mult_distrib)
  show "no_panic (glz_copy_local c produced off alpha i st)"
    using d s assms(1) by (auto simp: glz_copy_local_def glz_copy_pixel_def Let_def st copy_within_def index_set_def intro!: no_panic_intros)
  show "length (fst st') = length (fst st)" if "glz_copy_local c produced off alpha i st = Inr st'"
    using that by (auto simp: glz_copy_local_def glz_copy_pixel_def Let_def st index_set_def dest!: length_copy_within_Inr split: if_splits)
qed

lemma glz_copy_from_ok:
  assumes "off + len \<le> length source div 4" "(produced + len) * 4 \<le> length (fst st)" "i < len"
  shows "no_panic (glz_copy_from c source produced off alpha i st)"
    "glz_copy_from c source produced off alpha i st = Inr st' \<Longrightarrow> length (fst st') = length (fst st)"
proof -
  obtain out p where st: "st = (out, p)" by (cases st)
  have "(produced + i) * 4 + 4 \<le> (produced + len) * 4" using assms(3) by simp
  then have d: "(produced + i) * 4 + 4 \<le> length out" using assms(2) st by simp
  have "(off + i + 1) * 4 \<le> length source div 4 * 4" using assms(1,3) by (intro mult_le_mono1) simp
  also have "\<dots> \<le> length source" by simp
  finally have s: "(off + i) * 4 + 4 \<le> length source" by simp
  show "no_panic (glz_copy_from c source produced off alpha i st)"
    using d s by (auto simp: glz_copy_from_def Let_def st index_set_def intro!: no_panic_intros)
  show "length (fst st') = length (fst st)" if "glz_copy_from c source produced off alpha i st = Inr st'"
    using that d s by (auto simp: glz_copy_from_def Let_def st index_set_def split: if_splits)
qed

lemma glz_copies_ok:
  fixes out :: "u8 list"
  assumes "(produced + len) * 4 \<le> length out"
  shows "off \<le> produced \<Longrightarrow> 0 < off \<Longrightarrow> no_panic (for_each (glz_copy_local c produced off alpha) [0..<len] (out, p)) \<and>
      (\<forall>st'. for_each (glz_copy_local c produced off alpha) [0..<len] (out, p) = Inr st' \<longrightarrow> length (fst st') = length out)"
    and "off + len \<le> length source div 4 \<Longrightarrow> no_panic (for_each (glz_copy_from c source produced off alpha) [0..<len] (out, p)) \<and>
      (\<forall>st'. for_each (glz_copy_from c source produced off alpha) [0..<len] (out, p) = Inr st' \<longrightarrow> length (fst st') = length out)"
proof -
  let ?P = "\<lambda>st :: u8 list \<times> nat. length (fst st) = length out"
  have room: "(produced + len) * 4 \<le> length (fst st)" if "?P st" for st :: "u8 list \<times> nat" using that assms by metis
  show "no_panic (for_each (glz_copy_local c produced off alpha) [0..<len] (out, p)) \<and>
      (\<forall>st'. for_each (glz_copy_local c produced off alpha) [0..<len] (out, p) = Inr st' \<longrightarrow> ?P st')"
    if "off \<le> produced" "0 < off"
  proof (rule for_each_keeps [where P = ?P])
    fix i st st' assume i: "i \<in> set [0..<len]" "?P st"
    then have "i < len" by simp
    note ok = glz_copy_local_ok [OF that room [OF i(2)] this]
    show "no_panic (glz_copy_local c produced off alpha i st)" by (rule ok(1))
    show "?P st'" if "glz_copy_local c produced off alpha i st = Inr st'" using ok(2) [OF that] i(2) by (rule trans)
  qed simp
  show "no_panic (for_each (glz_copy_from c source produced off alpha) [0..<len] (out, p)) \<and>
      (\<forall>st'. for_each (glz_copy_from c source produced off alpha) [0..<len] (out, p) = Inr st' \<longrightarrow> ?P st')"
    if "off + len \<le> length source div 4"
  proof (rule for_each_keeps [where P = ?P])
    fix i st st' assume i: "i \<in> set [0..<len]" "?P st"
    then have "i < len" by simp
    note ok = glz_copy_from_ok [OF that room [OF i(2)] this]
    show "no_panic (glz_copy_from c source produced off alpha i st)" by (rule ok(1))
    show "?P st'" if "glz_copy_from c source produced off alpha i st = Inr st'" using ok(2) [OF that] i(2) by (rule trans)
  qed simp
qed

lemma glz_copy_reference_ok:
  assumes "(produced + ref_length ref) * 4 \<le> length out" "ref_image_distance ref = 0 \<Longrightarrow> 0 < ref_pixel_offset ref"
  shows "no_panic (glz_copy_reference res c image_id alpha produced ref (out, p))"
    "glz_copy_reference res c image_id alpha produced ref (out, p) = Inr (out', p') \<Longrightarrow> length out' = length out \<and> 0 < ref_length ref"
proof -
  note l = glz_copies_ok(1) [OF assms(1)] and f = glz_copies_ok(2) [OF assms(1)]
  have in_range: "ref_pixel_offset ref + ref_length ref \<le> n"
    if "\<not> (b \<or> (case usize_checked_add (ref_pixel_offset ref) (ref_length ref) of None \<Rightarrow> True | Some e \<Rightarrow> e > n))" for n b
    using that by (simp split: option.splits)
  show "no_panic (glz_copy_reference res c image_id alpha produced ref (out, p))"
    unfolding glz_copy_reference_def Let_def
    by (intro no_panic_intros l [THEN conjunct1] f [THEN conjunct1] in_range assms(2)) (simp_all add: not_less)
  assume r: "glz_copy_reference res c image_id alpha produced ref (out, p) = Inr (out', p')"
  then have n: "ref_length ref \<noteq> 0" by (auto simp: glz_copy_reference_def split: if_splits)
  show "length out' = length out \<and> 0 < ref_length ref"
  proof (cases "ref_image_distance ref = 0")
    case True
    with r n have "ref_pixel_offset ref \<le> produced"
      "for_each (glz_copy_local c produced (ref_pixel_offset ref) alpha) [0..<ref_length ref] (out, p) = Inr (out', p')"
      by (simp_all add: glz_copy_reference_def split: if_splits)
    with l [of "ref_pixel_offset ref"] assms(2) [OF True] n show ?thesis by fastforce
  next
    case False
    with r n obtain source where "ref_pixel_offset ref + ref_length ref \<le> length source div 4"
      "for_each (glz_copy_from c source produced (ref_pixel_offset ref) alpha) [0..<ref_length ref] (out, p) = Inr (out', p')"
      by (auto simp: glz_copy_reference_def Let_def not_less split: if_splits option.splits)
    with f [of "ref_pixel_offset ref" source] n show ?thesis by fastforce
  qed
qed

lemma glz_decode_reference_offset:
  "glz_decode_reference r c b = Inr (ref, r') \<Longrightarrow> ref_image_distance ref = 0 \<Longrightarrow> 0 < ref_pixel_offset ref"
proof -
  have "returns (\<lambda>(ref, _). ref_image_distance ref = 0 \<longrightarrow> 0 < ref_pixel_offset ref) (glz_decode_reference r c b)"
    unfolding glz_decode_reference_def by (intro returns_intros) (auto split: if_splits)
  then show "glz_decode_reference r c b = Inr (ref, r') \<Longrightarrow> ref_image_distance ref = 0 \<Longrightarrow> 0 < ref_pixel_offset ref"
    by (auto dest: returnsD)
qed

section \<open>Every turn produces pixels\<close>

definition glz_literal_size :: "LzImageType \<Rightarrow> nat" where
  "glz_literal_size t = (if t = LzImageType_Rgb16 then 2 else 3)"

lemma glz_literal_ok:
  shows "no_panic (glz_literal t (glz_literal_size t) i s)"
    "glz_literal t (glz_literal_size t) i s = Inr s' \<Longrightarrow>
      length (gr_output s') = length (gr_output s) + 4 \<and> gr_produced s' = gr_produced s + 1"
  unfolding glz_literal_def
  by (auto simp: glz_literal_size_def glz_literal_pixel_def Let_def intro!: no_panic_intros split: if_splits)

lemma glz_literals_ok:
  "no_panic (for_each (glz_literal t (glz_literal_size t)) js s) \<and>
   (\<forall>s'. for_each (glz_literal t (glz_literal_size t)) js s = Inr s' \<longrightarrow>
      length (gr_output s') = length (gr_output s) + 4 * length js \<and> gr_produced s' = gr_produced s + length js)"
proof (induction js arbitrary: s)
  case (Cons j js)
  then show ?case using glz_literal_ok [of t j s] by (auto intro!: no_panic_and_then)
qed simp

lemma length_vec_resize [simp]: "length (vec_resize out n) = n"
  by (simp add: vec_resize_def)

text \<open>While the colour stream runs, the output has the pixels produced; while the alpha stream runs, it has all.\<close>

definition glz_color_ok :: "nat \<Rightarrow> glz_run \<Rightarrow> bool" where
  "glz_color_ok n s \<longleftrightarrow> length (gr_output s) = gr_produced s * 4 \<and> gr_produced s \<le> n"

definition glz_alpha_ok :: "nat \<Rightarrow> glz_run \<Rightarrow> bool" where
  "glz_alpha_ok n s \<longleftrightarrow> length (gr_output s) = n * 4 \<and> gr_produced s \<le> n"

lemma glz_copy_reference_nonzero:
  "glz_copy_reference res c image_id alpha produced ref st = Inr st' \<Longrightarrow> 0 < ref_length ref"
  by (auto simp: glz_copy_reference_def split: if_splits)

lemma glz_literals_produced:
  "for_each (glz_literal t lb) js s = Inr s' \<Longrightarrow> gr_produced s' = gr_produced s + length js"
proof (induction js arbitrary: s)
  case (Cons j js)
  from Cons.prems obtain s1 where "glz_literal t lb j s = Inr s1" "for_each (glz_literal t lb) js s1 = Inr s'" by auto
  moreover from this(1) have "gr_produced s1 = gr_produced s + 1" by (auto simp: glz_literal_def)
  ultimately show ?case using Cons.IH [of s1] by simp
qed simp

lemma glz_color_turn_progress:
  "glz_color_turn res c image_id t lb n s = Inr s' \<Longrightarrow> gr_produced s < gr_produced s' \<and> gr_produced s' \<le> n"
proof -
  have "returns (\<lambda>s'. gr_produced s < gr_produced s' \<and> gr_produced s' \<le> n) (glz_color_turn res c image_id t lb n s)"
    unfolding glz_color_turn_def
    by (intro returns_intros) (auto simp: returns_def dest!: glz_copy_reference_nonzero glz_literals_produced)
  then show "glz_color_turn res c image_id t lb n s = Inr s' \<Longrightarrow> gr_produced s < gr_produced s' \<and> gr_produced s' \<le> n"
    by (auto dest: returnsD)
qed

lemma glz_alpha_turn_progress:
  "glz_alpha_turn res c image_id n s = Inr s' \<Longrightarrow> gr_produced s < gr_produced s' \<and> gr_produced s' \<le> n"
proof -
  have "returns (\<lambda>s'. gr_produced s < gr_produced s' \<and> gr_produced s' \<le> n) (glz_alpha_turn res c image_id n s)"
    unfolding glz_alpha_turn_def
    by (intro returns_intros) (auto dest!: glz_copy_reference_nonzero)
  then show "glz_alpha_turn res c image_id n s = Inr s' \<Longrightarrow> gr_produced s < gr_produced s' \<and> gr_produced s' \<le> n"
    by (auto dest: returnsD)
qed

function glz_color_loop ::
    "(u64 \<Rightarrow> u8 list option) \<Rightarrow> (nat \<Rightarrow> bool) \<Rightarrow> u64 \<Rightarrow> LzImageType \<Rightarrow> nat \<Rightarrow> nat \<Rightarrow> glz_run \<Rightarrow> (GlzError, glz_run) outcome" where
  "glz_color_loop resolve_image should_cancel image_id image_type literal_bytes expected_pixels s =
     (if gr_produced s < expected_pixels
      then and_then (glz_color_turn resolve_image should_cancel image_id image_type literal_bytes expected_pixels s)
             (glz_color_loop resolve_image should_cancel image_id image_type literal_bytes expected_pixels)
      else Inr s)"
  by pat_completeness auto
termination
  by (relation "measure (\<lambda>(r, c, i, t, b, n, s). n - gr_produced s)") (auto dest!: glz_color_turn_progress)

declare glz_color_loop.simps [simp del]

function glz_alpha_loop ::
    "(u64 \<Rightarrow> u8 list option) \<Rightarrow> (nat \<Rightarrow> bool) \<Rightarrow> u64 \<Rightarrow> nat \<Rightarrow> glz_run \<Rightarrow> (GlzError, glz_run) outcome" where
  "glz_alpha_loop resolve_image should_cancel image_id expected_pixels s =
     (if gr_produced s < expected_pixels
      then and_then (glz_alpha_turn resolve_image should_cancel image_id expected_pixels s)
             (glz_alpha_loop resolve_image should_cancel image_id expected_pixels)
      else Inr s)"
  by pat_completeness auto
termination
  by (relation "measure (\<lambda>(r, c, i, n, s). n - gr_produced s)") (auto dest!: glz_alpha_turn_progress)

declare glz_alpha_loop.simps [simp del]

definition glz_decode_color_stream ::
    "(u64 \<Rightarrow> u8 list option) \<Rightarrow> (nat \<Rightarrow> bool) \<Rightarrow> u64 \<Rightarrow> LzImageType \<Rightarrow> nat \<Rightarrow> GlzReader \<Rightarrow> nat \<Rightarrow> (GlzError, glz_run) outcome" where
  "glz_decode_color_stream resolve_image should_cancel image_id image_type expected_pixels r polls =
     and_then (glz_literal_bytes image_type) (\<lambda>literal_bytes.
     glz_color_loop resolve_image should_cancel image_id image_type literal_bytes expected_pixels
       \<lparr>gr_reader = r, gr_polls = polls, gr_output = [], gr_produced = 0\<rparr>)"

definition glz_decode_alpha_stream ::
    "(u64 \<Rightarrow> u8 list option) \<Rightarrow> (nat \<Rightarrow> bool) \<Rightarrow> u64 \<Rightarrow> nat \<Rightarrow> glz_run \<Rightarrow> (GlzError, glz_run) outcome" where
  "glz_decode_alpha_stream resolve_image should_cancel image_id expected_pixels s =
     glz_alpha_loop resolve_image should_cancel image_id expected_pixels (s\<lparr>gr_produced := 0\<rparr>)"

section \<open>The whole image\<close>

record DecodedGlzImage =
  gi_image_id :: u64
  gi_oldest_retained_image_id :: u64
  gi_width :: u32
  gi_height :: u32
  gi_top_down :: bool
  gi_pixels :: "u8 list"

definition glz_expected_stride :: "LzImageType \<Rightarrow> nat \<Rightarrow> (GlzError, nat) outcome" where
  "glz_expected_stride image_type width =
     (case image_type of
        LzImageType_Rgb16 \<Rightarrow> ok_or (GlzError_new GlzErrorKind_ResourceLimit STR ''stride'') (usize_checked_mul width 2)
      | LzImageType_Rgb24 \<Rightarrow> ok_or (GlzError_new GlzErrorKind_ResourceLimit STR ''stride'') (usize_checked_mul width 3)
      | LzImageType_Rgb32 \<Rightarrow> ok_or (GlzError_new GlzErrorKind_ResourceLimit STR ''stride'') (usize_checked_mul width 4)
      | LzImageType_Rgba \<Rightarrow> ok_or (GlzError_new GlzErrorKind_ResourceLimit STR ''stride'') (usize_checked_mul width 4)
      | _ \<Rightarrow> Inl Panic)"

definition glz_image_type :: "u8 \<Rightarrow> (GlzError, LzImageType) outcome" where
  "glz_image_type type_and_orientation =
     (if type_and_orientation AND NOT 0x1f \<noteq> 0 then glz_err GlzErrorKind_InvalidHeader STR ''image type flags''
      else
      case LzImageType_try_from (ucast (type_and_orientation AND 0x0f)) of
        Inl _ \<Rightarrow> glz_err GlzErrorKind_UnsupportedType STR ''image type''
      | Inr image_type \<Rightarrow>
          if image_type \<in> {LzImageType_Rgb16, LzImageType_Rgb24, LzImageType_Rgb32, LzImageType_Rgba} then Inr image_type
          else glz_err GlzErrorKind_UnsupportedType STR ''GLZ_RGB image type'')"

text \<open>The header: image type, orientation, dimensions, identifier and the oldest image still needed.\<close>

definition glz_read_header :: "DecodeLimits \<Rightarrow> GlzReader \<Rightarrow>
    (GlzError, (LzImageType \<times> bool \<times> u32 \<times> u32 \<times> u64 \<times> u64 \<times> nat) \<times> GlzReader) outcome" where
  "glz_read_header limits r =
     and_then (GlzReader_u32 STR ''magic'' r) (\<lambda>(magic, r).
     and_then (if magic \<noteq> LZ_MAGIC then Inr (True, r)
               else and_then (GlzReader_u32 STR ''version'' r) (\<lambda>(version, r). Inr (version \<noteq> LZ_VERSION, r))) (\<lambda>(bad, r).
     if bad then glz_err GlzErrorKind_InvalidHeader STR ''magic or version''
     else
     and_then (GlzReader_u8 STR ''image type'' r) (\<lambda>(type_and_orientation, r).
     and_then (glz_image_type type_and_orientation) (\<lambda>image_type.
     let top_down = (type_and_orientation AND 0x10 \<noteq> 0) in
     and_then (GlzReader_u32 STR ''width'' r) (\<lambda>(width, r).
     and_then (GlzReader_u32 STR ''height'' r) (\<lambda>(height, r).
     and_then (GlzReader_u32 STR ''stride'' r) (\<lambda>(stride, r).
     and_then (GlzReader_u64 STR ''image id'' r) (\<lambda>(image_id, r).
     and_then (GlzReader_u32 STR ''window head distance'' r) (\<lambda>(distance, r).
     if image_id < ucast distance then glz_err GlzErrorKind_InvalidHeader STR ''window head distance''
     else if width = 0 \<or> height = 0 \<or> width > maximum_width limits \<or> height > maximum_height limits
     then glz_err GlzErrorKind_ResourceLimit STR ''dimensions''
     else
     and_then (glz_expected_stride image_type (unat width)) (\<lambda>expected_stride.
     if unat stride \<noteq> expected_stride then glz_err GlzErrorKind_InvalidHeader STR ''stride''
     else
     and_then (ok_or (GlzError_new GlzErrorKind_ResourceLimit STR ''pixel count'')
       (usize_checked_mul (unat width) (unat height))) (\<lambda>pixel_count.
     and_then (ok_or (GlzError_new GlzErrorKind_ResourceLimit STR ''output size'') (usize_checked_mul pixel_count 4)) (\<lambda>output_bytes.
     if output_bytes > maximum_output_bytes limits then glz_err GlzErrorKind_ResourceLimit STR ''output size''
     else Inr ((image_type, top_down, width, height, image_id, image_id - ucast distance, pixel_count), r)))))))))))))"

text \<open>The two streams and the check that nothing is left of the input.\<close>

fun glz_decode_streams ::
    "(u64 \<Rightarrow> u8 list option) \<Rightarrow> (nat \<Rightarrow> bool) \<Rightarrow> (LzImageType \<times> bool \<times> u32 \<times> u32 \<times> u64 \<times> u64 \<times> nat) \<times> GlzReader \<Rightarrow>
     (GlzError, DecodedGlzImage) outcome" where
  "glz_decode_streams resolve_image should_cancel ((image_type, top_down, width, height, image_id, oldest, pixel_count), r) =
      and_then (glz_decode_color_stream resolve_image should_cancel image_id image_type pixel_count r 1) (\<lambda>s.
      and_then (if image_type = LzImageType_Rgba
                then glz_decode_alpha_stream resolve_image should_cancel image_id pixel_count s else Inr s) (\<lambda>s.
      if GlzReader_remaining (gr_reader s) \<noteq> 0 then glz_err GlzErrorKind_TrailingData STR ''compressed data''
      else Inr \<lparr>gi_image_id = image_id, gi_oldest_retained_image_id = oldest, gi_width = width, gi_height = height,
        gi_top_down = top_down, gi_pixels = gr_output s\<rparr>))"

definition decode_glz_with_cancel ::
    "u8 list \<Rightarrow> DecodeLimits \<Rightarrow> (u64 \<Rightarrow> u8 list option) \<Rightarrow> (nat \<Rightarrow> bool) \<Rightarrow> (GlzError, DecodedGlzImage) outcome" where
  "decode_glz_with_cancel input limits resolve_image should_cancel =
     (if should_cancel 0 then glz_err GlzErrorKind_Cancelled STR ''decode''
      else if length input < GLZ_HEADER_BYTES then glz_err GlzErrorKind_Truncated STR ''header''
      else
      and_then (glz_read_header limits \<lparr>gz_input = input, gz_offset = 0\<rparr>) (glz_decode_streams resolve_image should_cancel))"


section \<open>Soundness\<close>

lemma glz_color_turn_ok:
  assumes "glz_color_ok n s"
  shows "no_panic (glz_color_turn res c image_id t (glz_literal_size t) n s)"
    "glz_color_turn res c image_id t (glz_literal_size t) n s = Inr s' \<Longrightarrow> glz_color_ok n s'"
proof -
  have ref: "no_panic (glz_copy_reference res c image_id False (gr_produced s) ref
        (vec_resize out ((gr_produced s + ref_length ref) * 4), p))"
      "glz_copy_reference res c image_id False (gr_produced s) ref (vec_resize out ((gr_produced s + ref_length ref) * 4), p) = Inr (out', p') \<Longrightarrow>
        length out' = (gr_produced s + ref_length ref) * 4"
    if "glz_decode_reference r ctl b = Inr (ref, r')" for r ctl b ref r' out p out' p'
    using glz_copy_reference_ok [of "gr_produced s" ref "vec_resize out ((gr_produced s + ref_length ref) * 4)"]
      glz_decode_reference_offset [OF that] by auto
  show "no_panic (glz_color_turn res c image_id t (glz_literal_size t) n s)"
    unfolding glz_color_turn_def Let_def
    by (intro no_panic_intros glz_literals_ok [THEN conjunct1] ref(1)) auto
  have "returns (glz_color_ok n) (glz_color_turn res c image_id t (glz_literal_size t) n s)"
    unfolding glz_color_turn_def
    using assms glz_literals_ok [of t]
    by (intro returns_intros) (auto simp: returns_def glz_color_ok_def dest!: ref(2))
  then show "glz_color_turn res c image_id t (glz_literal_size t) n s = Inr s' \<Longrightarrow> glz_color_ok n s'" by (rule returnsD)
qed

lemma glz_literal_alpha_ok:
  assumes "length (fst st) = n * 4" "i < n"
  shows "no_panic (glz_literal_alpha i st)" "glz_literal_alpha i st = Inr st' \<Longrightarrow> length (fst st') = n * 4"
proof -
  obtain out r where st: "st = (out, r)" by (cases st)
  have "i * 4 + 3 < n * 4" using assms(2) by simp
  then show "no_panic (glz_literal_alpha i st)" "glz_literal_alpha i st = Inr st' \<Longrightarrow> length (fst st') = n * 4"
    using assms(1) by (auto simp: glz_literal_alpha_def st index_set_def intro!: no_panic_intros split: if_splits)
qed

lemma glz_literal_alphas_ok:
  assumes "length out = n * 4" "b \<le> n"
  shows "no_panic (for_each glz_literal_alpha [a..<b] (out, r)) \<and>
    (\<forall>st'. for_each glz_literal_alpha [a..<b] (out, r) = Inr st' \<longrightarrow> length (fst st') = n * 4)"
proof (rule for_each_keeps [where P = "\<lambda>st. length (fst st) = n * 4"])
  fix i and st st' :: "u8 list \<times> GlzReader" assume i: "i \<in> set [a..<b]" "length (fst st) = n * 4"
  then have "i < n" using assms(2) by simp
  note ok = glz_literal_alpha_ok [OF i(2) this]
  show "no_panic (glz_literal_alpha i st)" by (rule ok(1))
  show "glz_literal_alpha i st = Inr st' \<Longrightarrow> length (fst st') = n * 4" by (rule ok(2))
qed (simp add: assms(1))

lemma glz_alpha_turn_ok:
  assumes "glz_alpha_ok n s"
  shows "no_panic (glz_alpha_turn res c image_id n s)"
    "glz_alpha_turn res c image_id n s = Inr s' \<Longrightarrow> glz_alpha_ok n s'"
proof -
  have len: "length (gr_output s) = n * 4" using assms by (simp add: glz_alpha_ok_def)
  have room: "(gr_produced s + k) * 4 \<le> length (gr_output s)" if "gr_produced s + k \<le> n" for k
    unfolding len using that by (intro mult_le_mono1)
  have ref: "no_panic (glz_copy_reference res c image_id True (gr_produced s) ref (gr_output s, p))"
      "glz_copy_reference res c image_id True (gr_produced s) ref (gr_output s, p) = Inr (out', p') \<Longrightarrow> length out' = n * 4"
    if "glz_decode_reference r ctl b = Inr (ref, r')" "gr_produced s + ref_length ref \<le> n" for r ctl b ref r' p out' p'
    using glz_copy_reference_ok [OF room [OF that(2)]] glz_decode_reference_offset [OF that(1)] len by auto
  show "no_panic (glz_alpha_turn res c image_id n s)"
    unfolding glz_alpha_turn_def Let_def
    by (intro no_panic_intros glz_literal_alphas_ok [OF len, THEN conjunct1] ref(1)) auto
  have "returns (glz_alpha_ok n) (glz_alpha_turn res c image_id n s)"
    unfolding glz_alpha_turn_def
    using glz_literal_alphas_ok [OF len]
    by (intro returns_intros) (fastforce simp: glz_alpha_ok_def dest!: ref(2))+
  then show "glz_alpha_turn res c image_id n s = Inr s' \<Longrightarrow> glz_alpha_ok n s'" by (rule returnsD)
qed

lemma glz_color_loop_ok:
  "glz_color_ok n s \<Longrightarrow> no_panic (glz_color_loop res c i t (glz_literal_size t) n s) \<and>
    (\<forall>s'. glz_color_loop res c i t (glz_literal_size t) n s = Inr s' \<longrightarrow> glz_color_ok n s' \<and> gr_produced s' = n)"
proof (induction "n - gr_produced s" arbitrary: s rule: less_induct)
  case less
  have step: "glz_color_turn res c i t (glz_literal_size t) n s = Inr s1 \<Longrightarrow>
      no_panic (glz_color_loop res c i t (glz_literal_size t) n s1) \<and>
      (\<forall>s'. glz_color_loop res c i t (glz_literal_size t) n s1 = Inr s' \<longrightarrow> glz_color_ok n s' \<and> gr_produced s' = n)" for s1
    using less.hyps [of s1] glz_color_turn_ok(2) [OF less.prems] glz_color_turn_progress [of res c i t _ n s s1] by fastforce
  show ?case
    using step glz_color_turn_ok(1) [OF less.prems] less.prems
    by (subst (1 2) glz_color_loop.simps) (auto intro!: no_panic_and_then simp: glz_color_ok_def)
qed

lemma glz_alpha_loop_ok:
  "glz_alpha_ok n s \<Longrightarrow> no_panic (glz_alpha_loop res c i n s) \<and>
    (\<forall>s'. glz_alpha_loop res c i n s = Inr s' \<longrightarrow> glz_alpha_ok n s')"
proof (induction "n - gr_produced s" arbitrary: s rule: less_induct)
  case less
  have step: "glz_alpha_turn res c i n s = Inr s1 \<Longrightarrow> no_panic (glz_alpha_loop res c i n s1) \<and>
      (\<forall>s'. glz_alpha_loop res c i n s1 = Inr s' \<longrightarrow> glz_alpha_ok n s')" for s1
    using less.hyps [of s1] glz_alpha_turn_ok(2) [OF less.prems] glz_alpha_turn_progress [of res c i n s s1] by fastforce
  show ?case
    using step glz_alpha_turn_ok(1) [OF less.prems] less.prems
    by (subst (1 2) glz_alpha_loop.simps) (auto intro!: no_panic_and_then)
qed

definition glz_supported :: "LzImageType \<Rightarrow> bool" where
  "glz_supported t \<longleftrightarrow> t \<in> {LzImageType_Rgb16, LzImageType_Rgb24, LzImageType_Rgb32, LzImageType_Rgba}"

lemma glz_literal_bytes_eq: "glz_supported t \<Longrightarrow> glz_literal_bytes t = Inr (glz_literal_size t)"
  by (auto simp: glz_supported_def glz_literal_bytes_def glz_literal_size_def)

lemma no_panic_glz_stride: "glz_supported t \<Longrightarrow> no_panic (glz_expected_stride t w)"
  by (auto simp: glz_supported_def glz_expected_stride_def)

lemma glz_image_type_ok: "no_panic (glz_image_type b)" "glz_image_type b = Inr t \<Longrightarrow> glz_supported t"
  by (auto simp: glz_image_type_def glz_supported_def no_panic_def split: if_splits sum.splits)

lemma no_panic_glz_read_header: "no_panic (glz_read_header limits r)"
  unfolding glz_read_header_def Let_def
  by (intro no_panic_intros glz_image_type_ok(1) no_panic_glz_stride glz_image_type_ok(2))

lemma glz_read_header_Inr:
  assumes "glz_read_header limits r = Inr ((t, td, w, h, i, old, n), r')"
  shows "glz_supported t \<and> w \<noteq> 0 \<and> h \<noteq> 0 \<and> w \<le> maximum_width limits \<and> h \<le> maximum_height limits \<and>
    n = unat w * unat h \<and> n * 4 \<le> maximum_output_bytes limits \<and> old \<le> i"
proof -
  have le: "i - d \<le> i" if "\<not> i < d" for i d :: u64 using that by (simp add: word_le_nat_alt unat_sub not_less)
  have "returns (\<lambda>((t, td, w, h, i, old, n), r'). glz_supported t \<and> w \<noteq> 0 \<and> h \<noteq> 0 \<and> w \<le> maximum_width limits \<and>
      h \<le> maximum_height limits \<and> n = unat w * unat h \<and> n * 4 \<le> maximum_output_bytes limits \<and> old \<le> i)
    (glz_read_header limits r)"
    unfolding glz_read_header_def by (intro returns_intros) (auto simp: not_less dest: glz_image_type_ok(2) intro: le)
  from returnsD [OF this assms] show ?thesis by simp
qed

lemma glz_color_stream_ok:
  assumes "glz_supported t"
  shows "no_panic (glz_decode_color_stream res c i t n r p)"
    "glz_decode_color_stream res c i t n r p = Inr s \<Longrightarrow> length (gr_output s) = n * 4"
proof -
  have "glz_color_ok n \<lparr>gr_reader = r, gr_polls = p, gr_output = [], gr_produced = 0\<rparr>" by (simp add: glz_color_ok_def)
  from glz_color_loop_ok [OF this, of res c i t] show "no_panic (glz_decode_color_stream res c i t n r p)"
    "glz_decode_color_stream res c i t n r p = Inr s \<Longrightarrow> length (gr_output s) = n * 4"
    using glz_literal_bytes_eq [OF assms] by (auto simp: glz_decode_color_stream_def glz_color_ok_def)
qed

lemma glz_alpha_stream_ok:
  assumes "length (gr_output s) = n * 4"
  shows "no_panic (glz_decode_alpha_stream res c i n s)"
    "glz_decode_alpha_stream res c i n s = Inr s' \<Longrightarrow> length (gr_output s') = n * 4"
proof -
  have "glz_alpha_ok n (s\<lparr>gr_produced := 0\<rparr>)" using assms by (simp add: glz_alpha_ok_def)
  from glz_alpha_loop_ok [OF this, of res c i] show "no_panic (glz_decode_alpha_stream res c i n s)"
    "glz_decode_alpha_stream res c i n s = Inr s' \<Longrightarrow> length (gr_output s') = n * 4"
    by (auto simp: glz_decode_alpha_stream_def glz_alpha_ok_def)
qed

lemma glz_decode_streams_ok:
  assumes "glz_supported t"
  shows "no_panic (glz_decode_streams resolve should_cancel ((t, td, w, h, i, old, n), r))"
    "glz_decode_streams resolve should_cancel ((t, td, w, h, i, old, n), r) = Inr img \<Longrightarrow>
      length (gi_pixels img) = n * 4 \<and> gi_width img = w \<and> gi_height img = h \<and> gi_image_id img = i \<and>
      gi_oldest_retained_image_id img = old"
  using glz_color_stream_ok [OF assms, of resolve should_cancel i n r 1] glz_alpha_stream_ok [of _ n resolve should_cancel i]
  by (auto intro!: no_panic_and_then split: if_splits)

lemma glz_decode_no_panic [no_panic_intros]: "no_panic (decode_glz_with_cancel input limits resolve should_cancel)"
proof -
  have "no_panic (glz_decode_streams resolve should_cancel x)"
    if "glz_read_header limits \<lparr>gz_input = input, gz_offset = 0\<rparr> = Inr x" for x
  proof -
    obtain t td w h i old n r where x: "x = ((t, td, w, h, i, old, n), r)" by (metis surj_pair)
    with that have "glz_supported t" using glz_read_header_Inr by blast
    then show ?thesis unfolding x by (rule glz_decode_streams_ok(1))
  qed
  then show ?thesis
    unfolding decode_glz_with_cancel_def by (auto intro!: no_panic_and_then no_panic_glz_read_header)
qed

lemma glz_decode_image:
  assumes "decode_glz_with_cancel input limits resolve should_cancel = Inr img"
  shows "length (gi_pixels img) = unat (gi_width img) * unat (gi_height img) * 4 \<and>
     length (gi_pixels img) \<le> maximum_output_bytes limits \<and> gi_width img \<noteq> 0 \<and> gi_height img \<noteq> 0 \<and>
     gi_width img \<le> maximum_width limits \<and> gi_height img \<le> maximum_height limits \<and>
     gi_oldest_retained_image_id img \<le> gi_image_id img"
proof -
  obtain x where "glz_read_header limits \<lparr>gz_input = input, gz_offset = 0\<rparr> = Inr x"
      "glz_decode_streams resolve should_cancel x = Inr img"
    using assms unfolding decode_glz_with_cancel_def by (auto simp del: glz_decode_streams.simps split: if_splits)
  moreover obtain t td w h i old n r where "x = ((t, td, w, h, i, old, n), r)" by (metis surj_pair)
  ultimately show ?thesis using glz_read_header_Inr glz_decode_streams_ok(2) by metis
qed

text \<open>C21: the GLZ decoder is safe for every input, every dictionary and every way of cancelling: it always ends
  and never indexes outside its buffers, and an image it returns has a declared size within the caller's
  limits, exactly four bytes for each of its pixels, and needs no dictionary image newer than itself.\<close>

theorem glz_decode_sound:
  "case decode_glz_with_cancel input limits resolve should_cancel of
     Inl e \<Rightarrow> e \<noteq> Panic
   | Inr img \<Rightarrow> length (gi_pixels img) = unat (gi_width img) * unat (gi_height img) * 4 \<and>
      length (gi_pixels img) \<le> maximum_output_bytes limits \<and> gi_width img \<noteq> 0 \<and> gi_height img \<noteq> 0 \<and>
      gi_width img \<le> maximum_width limits \<and> gi_height img \<le> maximum_height limits \<and>
      gi_oldest_retained_image_id img \<le> gi_image_id img"
  using glz_decode_no_panic [of input limits resolve should_cancel] glz_decode_image [of input limits resolve should_cancel]
  by (auto simp: no_panic_def split: sum.split)

end
