(* ===== verification/Codec_Quic.thy ===== *)
theory Codec_Quic
  imports Codec_Lz
begin

text \<open>
  The SPICE QUIC image decoder (\<open>quic.rs\<close> of the codecs crate): a bit reader over little-endian words, an
  adaptive Golomb code for the residuals of each colour component, and run lengths for pixels equal to
  their neighbours. The unsigned integers of the code are natural numbers here; a subtraction that would
  underflow, a counter that would leave 32 bits and an index out of range are panics. A pixel is the list
  of its four components.

  Every loop is a function with a termination proof: a turn of a row segment moves forward, or it has
  just read an empty run, after which a pixel follows; a turn of a row advances the code index.
\<close>

section \<open>Errors and the bit reader\<close>

datatype QuicErrorKind =
    QuicErrorKind_Truncated | QuicErrorKind_InvalidHeader | QuicErrorKind_UnsupportedType | QuicErrorKind_DimensionMismatch
  | QuicErrorKind_InvalidCode | QuicErrorKind_InvalidRun | QuicErrorKind_ResourceLimit | QuicErrorKind_Cancelled

record QuicError =
  quic_kind :: QuicErrorKind
  quic_context :: context_str

definition QuicError_new :: "QuicErrorKind \<Rightarrow> context_str \<Rightarrow> QuicError" where
  "QuicError_new k ctx = \<lparr>quic_kind = k, quic_context = ctx\<rparr>"

type_synonym 'a quic = "(QuicError, 'a) outcome"

abbreviation quic_err :: "QuicErrorKind \<Rightarrow> context_str \<Rightarrow> 'a quic" where
  "quic_err k ctx \<equiv> Inl (Err (QuicError_new k ctx))"

definition QUIC_MAGIC :: u32 where [simp]: "QUIC_MAGIC = 0x43495551"
definition QUIC_VERSION :: u32 where [simp]: "QUIC_VERSION = 0"
definition HEADER_WORDS :: nat where [simp]: "HEADER_WORDS = 5"
definition MAX_CODE_BITS :: nat where [simp]: "MAX_CODE_BITS = 26"
definition INITIAL_CODE_INDEX :: nat where [simp]: "INITIAL_CODE_INDEX = 0"
definition MAX_CODE_INDEX :: nat where [simp]: "MAX_CODE_INDEX = 6"
definition CODE_INDEX_PIXELS :: nat where [simp]: "CODE_INDEX_PIXELS = 2048"
definition MODEL_CODE_COUNT :: nat where [simp]: "MODEL_CODE_COUNT = 8"
definition RUN_STATE_COUNT :: nat where [simp]: "RUN_STATE_COUNT = 32"
definition CANCELLATION_INTERVAL_PIXELS :: nat where [simp]: "CANCELLATION_INTERVAL_PIXELS = 4096"

definition RUN_LENGTH_BITS :: "nat list" where
  "RUN_LENGTH_BITS = [0, 0, 0, 0, 1, 1, 1, 1, 2, 2, 2, 2, 3, 3, 3, 3, 4, 4, 5, 5, 6, 6, 7, 7, 8, 9, 10, 11, 12, 13, 14, 15]"

definition EVOLUTION_THREE_TRIGGERS :: "nat list" where
  "EVOLUTION_THREE_TRIGGERS = [110, 550, 900, 800, 550, 400, 350, 250, 140, 160, 140]"

definition MODEL_RANDOM :: "nat list" where
  "MODEL_RANDOM =
  [0x02c57542, 0x35427717, 0x2f5a2153, 0x9244f155, 0x7bd26d07, 0x354c6052, 0x57329b28, 0x2993868e, 0x6cd8808c, 0x147b46e0,
   0x99db66af, 0xe32b4cac, 0x1b671264, 0x9d433486, 0x62a4c192, 0x06089a4b, 0x9e3dce44, 0xdaabee13, 0x222425ea, 0xa46f331d,
   0xcd589250, 0x8bb81d7f, 0xc8b736b9, 0x35948d33, 0xd7ac7fd0, 0x5fbe2803, 0x2cfbc105, 0x013dbc4e, 0x7a37820f, 0x39f88e9e,
   0xedd58794, 0xc5076689, 0xfcada5a4, 0x64c2f46d, 0xb3ba3243, 0x8974b4f9, 0x5a05aebd, 0x20afcd00, 0x39e2b008, 0x88a18a45,
   0x600bde29, 0xf3971ace, 0xf37b0a6b, 0x7041495b, 0x70b707ab, 0x06beffbb, 0x4206051f, 0xe13c4ee3, 0xc1a78327, 0x91aa067c,
   0x8295f72a, 0x732917a6, 0x1d871b4d, 0x4048f136, 0xf1840e7e, 0x6a6048c1, 0x696cb71a, 0x7ff501c3, 0x0fc6310b, 0x57e0f83d,
   0x8cc26e74, 0x11a525a2, 0x946934c7, 0x7cd888f0, 0x8f9d8604, 0x4f86e73b, 0x04520316, 0xdeeea20c, 0xf1def496, 0x67687288,
   0xf540c5b2, 0x22401484, 0x3478658a, 0xc2385746, 0x01979c2c, 0x5dad73c8, 0x0321f58b, 0xf0fedbee, 0x92826ddf, 0x284bec73,
   0x5b1a1975, 0x03df1e11, 0x20963e01, 0xa17cf12b, 0x740d776e, 0xa7a6bf3c, 0x01b5cce4, 0x1118aa76, 0xfc6fac0a, 0xce927e9b,
   0x00bf2567, 0x806f216c, 0xbca69056, 0x795bd3e9, 0xc9dc4557, 0x8929b6c2, 0x789d52ec, 0x3f3fbf40, 0xb9197368, 0xa38c15b5,
   0xc3b44fa8, 0xca8333b0, 0xb7e8d590, 0xbe807feb, 0xbf5f8360, 0xd99e2f5c, 0x372928e1, 0x7c757c4c, 0x0db5b154, 0xc01ede02,
   0x1fc86e78, 0x1f3985be, 0xb4805c77, 0x00c880fa, 0x974c1b12, 0x35ab0214, 0xb2dc840d, 0x5b00ae37, 0xd313b026, 0xb260969d,
   0x7f4c8879, 0x1734c4d3, 0x49068631, 0xb9f6a021, 0x6b863e6f, 0xcee5debf, 0x29f8c9fb, 0x53dd6880, 0x72b61223, 0x1f67a9fd,
   0x0a0f6993, 0x13e59119, 0x11cca12e, 0xfe6b6766, 0x16b6effc, 0x97918fc4, 0xc2b8a563, 0x94f2f741, 0x0bfa8c9a, 0xd1537ae8,
   0xc1da349c, 0x873c60ca, 0x95005b85, 0x9b5c080e, 0xbc8abbd9, 0xe1eab1d2, 0x6dac9070, 0x4ea9ebf1, 0xe0cf30d4, 0x1ef5bd7b,
   0xd161043e, 0x5d2fa2e2, 0xff5d3cae, 0x86ed9f87, 0x2aa1daa1, 0xbd731a34, 0x9e8f4b22, 0xb1c2c67a, 0xc21758c9, 0xa182215d,
   0xccb01948, 0x8d168df7, 0x04238cfe, 0x368c3dbc, 0x0aeadca5, 0xbad21c24, 0x0a71fee5, 0x9fc5d872, 0x54c152c6, 0xfc329483,
   0x6783384a, 0xeddb3e1c, 0x65f90e30, 0x884ad098, 0xce81675a, 0x4b372f7d, 0x68bf9a39, 0x43445f1e, 0x40f8d8cb, 0x90d5acb6,
   0x4cd07282, 0x349eeb06, 0x0c9d5332, 0x520b24ef, 0x80020447, 0x67976491, 0x2f931ca3, 0xfe9b0535, 0xfcd30220, 0x61a9e6cc,
   0xa487d8d7, 0x3f7c5dd1, 0x7d0127c5, 0x48f51d15, 0x60dea871, 0xc9a91cb7, 0x58b53bb3, 0x9d5e0b2d, 0x624a78b4, 0x30dbee1b,
   0x9bdf22e7, 0x1df5c299, 0x2d5643a7, 0xf4dd35ff, 0x03ca8fd6, 0x53b47ed8, 0x6f2c19aa, 0xfeb0c1f4, 0x49e54438, 0x2f2577e6,
   0xbf876969, 0x72440ea9, 0xfa0bafb8, 0x74f5b3a0, 0x7dd357cd, 0x89ce1358, 0x6ef2cdda, 0x1e7767f3, 0xa6be9fdb, 0x4f5f88f8,
   0xba994a3a, 0x08ca6b65, 0xe0893818, 0x9e00a16a, 0xf42bfc8f, 0x9972eedc, 0x749c8b51, 0x32c05f5e, 0xd706805f, 0x6bfbb7cf,
   0xd9210a10, 0x31a1db97, 0x923a9559, 0x37a7a1f6, 0x059f8861, 0xca493e62, 0x65157e81, 0x8f6467dd, 0xab85ff9f, 0x9331aff2,
   0x8616b9f5, 0xedbd5695, 0xee7e29b1, 0x313ac44f, 0xb903112f, 0x432ef649, 0xdc0a36c0, 0x61cf2bba, 0x81474925, 0xa8b6c7ad,
   0xee5931de, 0xb2f8158d, 0x59fb7409, 0x2e3dfaed, 0x9af25a3f, 0xe1fed4d5]"

text \<open>Unsigned subtraction: it panics below zero.\<close>

definition usize_sub :: "nat \<Rightarrow> nat \<Rightarrow> ('e, nat) outcome" where
  "usize_sub a b = (if b \<le> a then Inr (a - b) else Inl Panic)"

record BitReader =
  br_input :: "u8 list"
  br_offset :: nat

definition BitReader_new :: "u8 list \<Rightarrow> BitReader quic" where
  "BitReader_new input =
     (if length input < HEADER_WORDS * 4 \<or> length input mod 4 \<noteq> 0 then quic_err QuicErrorKind_Truncated STR ''word stream''
      else Inr \<lparr>br_input = input, br_offset = 0\<rparr>)"

text \<open>The loop of \<open>read_bits\<close> up to bit \<open>e\<close>: each turn takes what the current word still offers.\<close>

definition quic_bits_turn :: "nat \<Rightarrow> u32 \<times> BitReader \<Rightarrow> (u32 \<times> BitReader) quic" where
  "quic_bits_turn e st =
     (case st of (acc, r) \<Rightarrow>
      let word_offset = br_offset r div 32 * 4 in
      and_then (slice_index (br_input r) word_offset (word_offset + 4)) (\<lambda>bytes.
      let word = (from_le bytes :: u32);
          available = 32 - br_offset r mod 32;
          taken = min available (e - br_offset r);
          shift = available - taken;
          bit_mask = (if taken = 32 then - 1 else push_bit taken 1 - 1) in
      Inr (push_bit taken acc OR (drop_bit shift word AND bit_mask), r\<lparr>br_offset := br_offset r + taken\<rparr>)))"

lemma quic_bits_turn_progress:
  "quic_bits_turn e (acc, r) = Inr (acc', r') \<Longrightarrow> br_offset r < e \<Longrightarrow> br_offset r < br_offset r' \<and> br_offset r' \<le> e"
  by (auto simp: quic_bits_turn_def Let_def)

function quic_bits_loop :: "nat \<Rightarrow> u32 \<times> BitReader \<Rightarrow> (u32 \<times> BitReader) quic" where
  "quic_bits_loop e st =
     (if br_offset (snd st) < e then and_then (quic_bits_turn e st) (quic_bits_loop e) else Inr st)"
  by pat_completeness auto
termination
  by (relation "measure (\<lambda>(e, st). e - br_offset (snd st))") (auto dest!: quic_bits_turn_progress)

declare quic_bits_loop.simps [simp del]

definition BitReader_read_bits :: "nat \<Rightarrow> BitReader \<Rightarrow> (u32 \<times> BitReader) quic" where
  "BitReader_read_bits n r =
     (if n > 31 then quic_err QuicErrorKind_InvalidCode STR ''bit count''
      else
      and_then (ok_or (QuicError_new QuicErrorKind_Truncated STR ''bit stream'')
        (case usize_checked_add (br_offset r) n of
           None \<Rightarrow> None | Some e \<Rightarrow> if e \<le> length (br_input r) * 8 then Some e else None)) (\<lambda>e.
      quic_bits_loop e (0, r)))"

definition BitReader_read_bit :: "BitReader \<Rightarrow> (u32 \<times> BitReader) quic" where
  "BitReader_read_bit r = BitReader_read_bits 1 r"

definition BitReader_read_u32 :: "BitReader \<Rightarrow> (u32 \<times> BitReader) quic" where
  "BitReader_read_u32 r =
     and_then (BitReader_read_bits 16 r) (\<lambda>(high, r).
     and_then (BitReader_read_bits 16 r) (\<lambda>(low, r).
     Inr (push_bit 16 high OR low, r)))"

section \<open>Golomb codes\<close>

text \<open>\<open>usize::BITS - leading_zeros(n)\<close>\<close>

fun bit_length :: "nat \<Rightarrow> nat" where
  "bit_length n = (if n = 0 then 0 else bit_length (n div 2) + 1)"

declare bit_length.simps [simp del]

definition ceil_log2 :: "nat \<Rightarrow> nat" where
  "ceil_log2 value = (if value \<le> 1 then 0 else bit_length (value - 1))"

definition golomb_maximum_prefix :: "nat \<Rightarrow> nat \<Rightarrow> nat quic" where
  "golomb_maximum_prefix code bits_per_component =
     and_then (usize_sub MAX_CODE_BITS bits_per_component) (\<lambda>a.
     and_then (usize_sub bits_per_component code) (\<lambda>k. Inr (min a (2 ^ k - 1))))"

function golomb_zero_prefix :: "nat \<Rightarrow> nat \<Rightarrow> BitReader \<Rightarrow> (nat \<times> BitReader) quic" where
  "golomb_zero_prefix maximum_prefix zero_prefix r =
     (if zero_prefix < maximum_prefix then
        and_then (BitReader_read_bit r) (\<lambda>(b, r).
        if b = 0 then golomb_zero_prefix maximum_prefix (zero_prefix + 1) r else Inr (zero_prefix, r))
      else Inr (zero_prefix, r))"
  by pat_completeness auto
termination
  by (relation "measure (\<lambda>(m, z, r). m - z)") auto

declare golomb_zero_prefix.simps [simp del]

definition decode_golomb :: "nat \<Rightarrow> nat \<Rightarrow> BitReader \<Rightarrow> (u8 \<times> BitReader) quic" where
  "decode_golomb code bits_per_component r =
     (let maximum_value = 2 ^ bits_per_component - 1 in
      and_then (golomb_maximum_prefix code bits_per_component) (\<lambda>maximum_prefix.
      let first_escape_value = push_bit code maximum_prefix in
      and_then (golomb_zero_prefix maximum_prefix 0 r) (\<lambda>(zero_prefix, r).
      and_then
        (if zero_prefix < maximum_prefix then
           and_then (BitReader_read_bits code r) (\<lambda>(v, r). Inr (push_bit code zero_prefix OR unat v, r))
         else
           and_then (usize_sub (maximum_value + 1) first_escape_value) (\<lambda>escape_values.
           and_then (BitReader_read_bits (ceil_log2 escape_values) r) (\<lambda>(v, r). Inr (first_escape_value + unat v, r)))) (\<lambda>(v, r).
      if v < 256 \<and> v \<le> maximum_value then Inr (of_nat v, r)
      else quic_err QuicErrorKind_InvalidCode STR ''Golomb value''))))"

definition golomb_code_length :: "u8 \<Rightarrow> nat \<Rightarrow> nat \<Rightarrow> nat quic" where
  "golomb_code_length value code bits_per_component =
     and_then (golomb_maximum_prefix code bits_per_component) (\<lambda>maximum_prefix.
     let first_escape_value = push_bit code maximum_prefix in
     if unat value < first_escape_value then
       and_then (expect (u32_try_from (drop_bit code (unat value) + code + 1))) (\<lambda>n. Inr (unat n))
     else
       and_then (usize_sub (2 ^ bits_per_component) first_escape_value) (\<lambda>escape_values.
       and_then (expect (u32_try_from (maximum_prefix + ceil_log2 escape_values))) (\<lambda>n. Inr (unat n))))"

section \<open>The model of one component\<close>

record Bucket =
  bk_counters :: "nat list"
  bk_best_code :: nat

record ChannelModel =
  cm_residuals :: "u8 list"
  cm_prior_context :: u8
  cm_context_buckets :: "nat list"
  cm_buckets :: "Bucket list"

definition ChannelModel_new :: "nat \<Rightarrow> nat \<Rightarrow> ChannelModel" where
  "ChannelModel_new width bits_per_component =
     \<lparr>cm_residuals = replicate width 0, cm_prior_context = 0,
      cm_context_buckets =
        map (\<lambda>c. if c = 0 then 0 else min (bit_length (c + 1) - 1) (bits_per_component - 1)) [0..<2 ^ bits_per_component],
      cm_buckets = replicate bits_per_component
        \<lparr>bk_counters = replicate MODEL_CODE_COUNT 0, bk_best_code = bits_per_component - 1\<rparr>\<rparr>"

definition ChannelModel_start_next_row :: "ChannelModel \<Rightarrow> ChannelModel quic" where
  "ChannelModel_start_next_row ch = and_then (index_at (cm_residuals ch) 0) (\<lambda>v. Inr (ch\<lparr>cm_prior_context := v\<rparr>))"

definition quic_bucket :: "ChannelModel \<Rightarrow> u8 \<Rightarrow> (nat \<times> Bucket) quic" where
  "quic_bucket ch ctx =
     and_then (index_at (cm_context_buckets ch) (unat ctx)) (\<lambda>b.
     and_then (index_at (cm_buckets ch) b) (\<lambda>bucket. Inr (b, bucket)))"

definition ChannelModel_best_code :: "ChannelModel \<Rightarrow> u8 \<Rightarrow> nat quic" where
  "ChannelModel_best_code ch ctx = and_then (quic_bucket ch ctx) (\<lambda>(_, bucket). Inr (bk_best_code bucket))"

text \<open>Charging one code: the counter is a 32-bit integer.\<close>

definition quic_charge :: "u8 \<Rightarrow> nat \<Rightarrow> nat \<Rightarrow> nat list \<Rightarrow> (nat \<times> nat list) quic" where
  "quic_charge value bits_per_component code counters =
     and_then (index_at counters code) (\<lambda>c.
     and_then (golomb_code_length value code bits_per_component) (\<lambda>n.
     if c + n < 2 ^ 32 then Inr (c + n, counters[code := c + n]) else Inl Panic))"

definition quic_update_code :: "u8 \<Rightarrow> nat \<Rightarrow> nat \<Rightarrow> nat list \<times> nat \<times> nat \<Rightarrow> (nat list \<times> nat \<times> nat) quic" where
  "quic_update_code value bits_per_component code st =
     (case st of (counters, best_code, best_length) \<Rightarrow>
      and_then (quic_charge value bits_per_component code counters) (\<lambda>(c, counters).
      Inr (if c < best_length then (counters, code, c) else (counters, best_code, best_length))))"

definition quic_halve :: "nat \<Rightarrow> nat list \<Rightarrow> nat list" where
  "quic_halve bits_per_component counters = map (\<lambda>c. c div 2) (take bits_per_component counters) @ drop bits_per_component counters"

definition ChannelModel_update :: "u8 \<Rightarrow> u8 \<Rightarrow> nat \<Rightarrow> nat \<Rightarrow> ChannelModel \<Rightarrow> ChannelModel quic" where
  "ChannelModel_update ctx value bits_per_component trigger ch =
     and_then (quic_bucket ch ctx) (\<lambda>(b, bucket).
     and_then (usize_sub bits_per_component 1) (\<lambda>first_code.
     and_then (quic_charge value bits_per_component first_code (bk_counters bucket)) (\<lambda>(best_length, counters).
     and_then (for_each (quic_update_code value bits_per_component) (rev [0..<first_code]) (counters, first_code, best_length))
       (\<lambda>(counters, best_code, best_length).
     if best_length > trigger \<and> length counters < bits_per_component then Inl Panic
     else Inr (ch\<lparr>cm_buckets := (cm_buckets ch)[b := bucket\<lparr>
         bk_counters := (if best_length > trigger then quic_halve bits_per_component counters else counters),
         bk_best_code := best_code\<rparr>]\<rparr>)))))"

section \<open>The coding state\<close>

record CodingState =
  cs_wait_count :: nat
  cs_random_index :: u8
  cs_code_index :: nat
  cs_pixels_until_code_index :: nat
  cs_model_trigger :: nat
  cs_run_state :: nat

definition CodingState_update_model_trigger :: "CodingState \<Rightarrow> CodingState" where
  "CodingState_update_model_trigger s = s\<lparr>cs_model_trigger := EVOLUTION_THREE_TRIGGERS ! (min (cs_code_index s) 10)\<rparr>"

definition CodingState_new :: CodingState where
  "CodingState_new = CodingState_update_model_trigger
     \<lparr>cs_wait_count = 0, cs_random_index = 255, cs_code_index = INITIAL_CODE_INDEX,
      cs_pixels_until_code_index = CODE_INDEX_PIXELS, cs_model_trigger = 0, cs_run_state = 0\<rparr>"

definition CodingState_next_wait :: "CodingState \<Rightarrow> nat \<times> CodingState" where
  "CodingState_next_wait s =
     (let i = cs_random_index s + 1 in
      ((MODEL_RANDOM ! unat i) mod 2 ^ cs_code_index s, s\<lparr>cs_random_index := i\<rparr>))"

definition CodingState_increase_code_index :: "CodingState \<Rightarrow> CodingState" where
  "CodingState_increase_code_index s =
     CodingState_update_model_trigger (s\<lparr>cs_code_index := cs_code_index s + 1, cs_pixels_until_code_index := CODE_INDEX_PIXELS\<rparr>)"

section \<open>Pixels and runs\<close>

type_synonym quic_pixel = "u8 list"

definition quic_pixel_component :: "quic_pixel list \<Rightarrow> nat \<Rightarrow> nat \<Rightarrow> u8 quic" where
  "quic_pixel_component pixels i component = and_then (index_at pixels i) (\<lambda>p. index_at p component)"

definition quic_set_component :: "quic_pixel list \<Rightarrow> nat \<Rightarrow> nat \<Rightarrow> u8 \<Rightarrow> quic_pixel list quic" where
  "quic_set_component pixels i component v =
     and_then (index_at pixels i) (\<lambda>p. and_then (index_set p component v) (\<lambda>p. index_set pixels i p))"

definition quic_predictor :: "quic_pixel list option \<Rightarrow> quic_pixel list \<Rightarrow> nat \<Rightarrow> nat \<Rightarrow> nat quic" where
  "quic_predictor previous current i component =
     (case previous of
        None \<Rightarrow>
          if i = 0 then Inr 0 else and_then (quic_pixel_component current (i - 1) component) (\<lambda>v. Inr (unat v))
      | Some upper \<Rightarrow>
          if i = 0 then and_then (quic_pixel_component upper 0 component) (\<lambda>v. Inr (unat v))
          else and_then (quic_pixel_component current (i - 1) component) (\<lambda>a.
               and_then (quic_pixel_component upper i component) (\<lambda>b. Inr ((unat a + unat b) div 2))))"

definition quic_unfold :: "u8 \<Rightarrow> nat \<Rightarrow> nat quic" where
  "quic_unfold residual component_mask =
     (if residual AND 1 = 0 then Inr (unat (drop_bit 1 residual))
      else usize_sub component_mask (unat (drop_bit 1 residual)))"

definition quic_channel_context :: "ChannelModel \<Rightarrow> nat \<Rightarrow> u8 quic" where
  "quic_channel_context ch i = (if i = 0 then Inr (cm_prior_context ch) else index_at (cm_residuals ch) (i - 1))"

definition quic_decode_component ::
    "quic_pixel list option \<Rightarrow> nat \<Rightarrow> nat \<Rightarrow> nat \<Rightarrow> ChannelModel \<Rightarrow> BitReader \<times> quic_pixel list \<Rightarrow>
     (ChannelModel \<times> BitReader \<times> quic_pixel list) quic" where
  "quic_decode_component previous i bits_per_component component ch st =
     (case st of (r, current) \<Rightarrow>
      let component_mask = 2 ^ bits_per_component - 1 in
      and_then (quic_channel_context ch i) (\<lambda>ctx.
      and_then (ChannelModel_best_code ch ctx) (\<lambda>code.
      and_then (decode_golomb code bits_per_component r) (\<lambda>(residual, r).
      and_then (index_set (cm_residuals ch) i residual) (\<lambda>residuals.
      and_then (quic_predictor previous current i component) (\<lambda>predictor.
      and_then (quic_unfold residual component_mask) (\<lambda>unfolded.
      and_then (quic_set_component current i component (of_nat ((predictor + unfolded) mod 2 ^ bits_per_component))) (\<lambda>current.
      Inr (ch\<lparr>cm_residuals := residuals\<rparr>, r, current)))))))))"

fun quic_decode_pixel ::
    "quic_pixel list option \<Rightarrow> nat \<Rightarrow> nat \<Rightarrow> ChannelModel list \<Rightarrow> nat list \<Rightarrow> BitReader \<times> quic_pixel list \<Rightarrow>
     (ChannelModel list \<times> BitReader \<times> quic_pixel list) quic" where
  "quic_decode_pixel previous i bits_per_component (ch # chs) (c # cs) st =
     and_then (quic_decode_component previous i bits_per_component c ch st) (\<lambda>(ch, st).
     and_then (quic_decode_pixel previous i bits_per_component chs cs st) (\<lambda>(chs, st).
     Inr (ch # chs, st)))"
| "quic_decode_pixel previous i bits_per_component chs cs st = Inr (chs, st)"

definition quic_update_model :: "nat \<Rightarrow> nat \<Rightarrow> nat \<Rightarrow> ChannelModel \<Rightarrow> ChannelModel quic" where
  "quic_update_model i bits_per_component trigger ch =
     and_then (quic_channel_context ch i) (\<lambda>ctx.
     and_then (index_at (cm_residuals ch) i) (\<lambda>v.
     ChannelModel_update ctx v bits_per_component trigger ch))"

definition update_models :: "ChannelModel list \<Rightarrow> nat \<Rightarrow> nat \<Rightarrow> nat \<Rightarrow> ChannelModel list quic" where
  "update_models channels i bits_per_component trigger = try_map (quic_update_model i bits_per_component trigger) channels"

fun same_components :: "quic_pixel \<Rightarrow> quic_pixel \<Rightarrow> nat list \<Rightarrow> bool quic" where
  "same_components l r [] = Inr True"
| "same_components l r (c # cs) =
     and_then (index_at l c) (\<lambda>a. and_then (index_at r c) (\<lambda>b. if a = b then same_components l r cs else Inr False))"

definition should_decode_run :: "quic_pixel list option \<Rightarrow> quic_pixel list \<Rightarrow> nat list \<Rightarrow> nat \<Rightarrow> nat \<Rightarrow> bool quic" where
  "should_decode_run previous current components i run_index =
     (case previous of
        None \<Rightarrow> Inr False
      | Some upper \<Rightarrow>
          if \<not> (i > 2 \<and> run_index \<noteq> i) then Inr False
          else
          and_then (index_at upper (i - 1)) (\<lambda>p. and_then (index_at upper i) (\<lambda>q.
          and_then (same_components p q components) (\<lambda>same.
          if \<not> same then Inr False
          else
          and_then (index_at current (i - 1)) (\<lambda>p. and_then (index_at current (i - 2)) (\<lambda>q.
          same_components p q components))))))"

text \<open>The limit of a run: \<open>checked_add\<close> with the filter.\<close>

definition quic_run_add :: "nat \<Rightarrow> context_str \<Rightarrow> nat \<Rightarrow> nat \<Rightarrow> nat quic" where
  "quic_run_add maximum_length ctx len n =
     ok_or (QuicError_new QuicErrorKind_InvalidRun ctx)
       (case usize_checked_add len n of None \<Rightarrow> None | Some l \<Rightarrow> if l \<le> maximum_length then Some l else None)"

definition quic_run_turn :: "nat \<Rightarrow> nat \<Rightarrow> CodingState \<Rightarrow> (nat \<times> CodingState) quic" where
  "quic_run_turn maximum_length len s =
     and_then (index_at RUN_LENGTH_BITS (cs_run_state s)) (\<lambda>run_bits.
     and_then (quic_run_add maximum_length STR ''run length'' len (2 ^ run_bits)) (\<lambda>len.
     Inr (len, if cs_run_state s + 1 < RUN_STATE_COUNT then s\<lparr>cs_run_state := cs_run_state s + 1\<rparr> else s)))"

lemma quic_run_turn_progress: "quic_run_turn m len s = Inr (len', s') \<Longrightarrow> len < len' \<and> len' \<le> m"
  by (auto simp: quic_run_turn_def quic_run_add_def split: option.splits if_splits)

function quic_run_loop :: "nat \<Rightarrow> nat \<Rightarrow> CodingState \<Rightarrow> BitReader \<Rightarrow> (nat \<times> CodingState \<times> BitReader) quic" where
  "quic_run_loop maximum_length len s r =
     and_then (BitReader_read_bit r) (\<lambda>(b, r).
     if b = 1 then and_then (quic_run_turn maximum_length len s) (\<lambda>(len, s). quic_run_loop maximum_length len s r)
     else Inr (len, s, r))"
  by pat_completeness auto
termination
  by (relation "measure (\<lambda>(m, len, s, r). m - len)") (auto dest!: quic_run_turn_progress)

declare quic_run_loop.simps [simp del]

definition decode_run :: "nat \<Rightarrow> CodingState \<Rightarrow> BitReader \<Rightarrow> (nat \<times> CodingState \<times> BitReader) quic" where
  "decode_run maximum_length s r =
     and_then (quic_run_loop maximum_length 0 s r) (\<lambda>(len, s, r).
     and_then (index_at RUN_LENGTH_BITS (cs_run_state s)) (\<lambda>remainder_bits.
     and_then
       (if remainder_bits \<noteq> 0 then
          and_then (BitReader_read_bits remainder_bits r) (\<lambda>(v, r).
          and_then (quic_run_add maximum_length STR ''run remainder'' len (unat v)) (\<lambda>len. Inr (len, r)))
        else Inr (len, r)) (\<lambda>(len, r).
     Inr (len, s\<lparr>cs_run_state := cs_run_state s - 1\<rparr>, r))))"

definition quic_copy_components :: "quic_pixel \<Rightarrow> nat list \<Rightarrow> quic_pixel \<Rightarrow> quic_pixel quic" where
  "quic_copy_components source components = for_each (\<lambda>c p. and_then (index_at source c) (index_set p c)) components"

definition quic_copy_run :: "nat list \<Rightarrow> nat \<Rightarrow> nat \<Rightarrow> quic_pixel list \<Rightarrow> quic_pixel list quic" where
  "quic_copy_run components i run_length current =
     and_then (index_at current (i - 1)) (\<lambda>source.
     and_then (slice_index current i (i + run_length)) (\<lambda>slice.
     and_then (try_map (quic_copy_components source components) slice) (\<lambda>slice.
     Inr (take i current @ slice @ drop (i + run_length) current))))"

section \<open>Rows\<close>

text \<open>What one row of one component group threads through its steps.\<close>

record quic_row =
  qr_reader :: BitReader
  qr_state :: CodingState
  qr_channels :: "ChannelModel list"
  qr_current :: "quic_pixel list"

datatype pixels_result = PixReturn quic_row | PixRan quic_row nat nat nat | PixEnd quic_row nat

definition quic_row_pixel :: "quic_pixel list option \<Rightarrow> nat list \<Rightarrow> nat \<Rightarrow> nat \<Rightarrow> quic_row \<Rightarrow> quic_row quic" where
  "quic_row_pixel previous components bits_per_component i row =
     and_then (quic_decode_pixel previous i bits_per_component (qr_channels row) components (qr_reader row, qr_current row))
       (\<lambda>(chs, r, current). Inr (row\<lparr>qr_reader := r, qr_channels := chs, qr_current := current\<rparr>))"

definition quic_row_run :: "nat list \<Rightarrow> nat \<Rightarrow> nat \<Rightarrow> nat \<Rightarrow> quic_row \<Rightarrow> pixels_result quic" where
  "quic_row_run components e i stop_index row =
     and_then (usize_sub stop_index i) (\<lambda>w.
     and_then (decode_run (e - i) ((qr_state row)\<lparr>cs_wait_count := w\<rparr>) (qr_reader row)) (\<lambda>(run_length, s, r).
     and_then (quic_copy_run components i run_length (qr_current row)) (\<lambda>current.
     let row = row\<lparr>qr_reader := r, qr_state := s, qr_current := current\<rparr> in
     Inr (if i + run_length = e then PixReturn row else PixRan row (i + run_length) i (i + run_length + cs_wait_count s)))))"

function quic_pixels_loop ::
    "quic_pixel list option \<Rightarrow> nat list \<Rightarrow> nat \<Rightarrow> nat \<Rightarrow> nat \<Rightarrow> nat \<Rightarrow> nat \<Rightarrow> nat \<Rightarrow> quic_row \<Rightarrow> pixels_result quic" where
  "quic_pixels_loop previous components bits_per_component e decode_end run_index stop_index i row =
     (if i < decode_end then
        and_then (should_decode_run previous (qr_current row) components i run_index) (\<lambda>run.
        if run then quic_row_run components e i stop_index row
        else
        and_then (quic_row_pixel previous components bits_per_component i row) (\<lambda>row.
        quic_pixels_loop previous components bits_per_component e decode_end run_index stop_index (i + 1) row))
      else Inr (PixEnd row i))"
  by pat_completeness auto
termination
  by (relation "measure (\<lambda>(p, c, b, e, d, x, y, i, row). d - i)") auto

declare quic_pixels_loop.simps [simp del]

datatype segment_result = SegReturn quic_row | SegNext quic_row nat nat nat

definition quic_segment_turn ::
    "quic_pixel list option \<Rightarrow> nat list \<Rightarrow> nat \<Rightarrow> nat \<Rightarrow> nat \<Rightarrow> nat \<Rightarrow> nat \<Rightarrow> nat \<Rightarrow> quic_row \<Rightarrow> segment_result quic" where
  "quic_segment_turn previous components bits_per_component e wait_bits run_index stop_index i row =
     (let decode_end = min e (stop_index + 1) in
      and_then (quic_pixels_loop previous components bits_per_component e decode_end run_index stop_index i row) (\<lambda>res.
      case res of
        PixReturn row \<Rightarrow> Inr (SegReturn row)
      | PixRan row i run_index stop_index \<Rightarrow> Inr (SegNext row i run_index stop_index)
      | PixEnd row i \<Rightarrow>
          if stop_index < e then
            and_then (update_models (qr_channels row) stop_index bits_per_component (cs_model_trigger (qr_state row))) (\<lambda>chs.
            let (w, s) = CodingState_next_wait (qr_state row) in
            Inr (SegNext (row\<lparr>qr_channels := chs, qr_state := s\<rparr>) i run_index (i + w mod 2 ^ wait_bits)))
          else
            and_then (usize_sub stop_index e) (\<lambda>w.
            Inr (SegReturn (row\<lparr>qr_state := (qr_state row)\<lparr>cs_wait_count := w\<rparr>\<rparr>)))))"

text \<open>Every turn moves forward, or it has just decoded an empty run, after which a pixel follows.\<close>

definition segment_rank :: "nat \<Rightarrow> nat \<Rightarrow> nat \<Rightarrow> nat" where
  "segment_rank run_index stop_index i = (if stop_index < i then 2 else if run_index \<noteq> i then 1 else 0)"

lemma decode_run_bound: "decode_run m s r = Inr (n, s', r') \<Longrightarrow> n \<le> m"
proof -
  have loop: "quic_run_loop m len s r = Inr (n, s', r') \<Longrightarrow> len \<le> m \<Longrightarrow> n \<le> m" for len n s r s' r'
  proof (induction m len s r rule: quic_run_loop.induct)
    case (1 m len s r)
    from "1.prems"(1) obtain b r1 where b: "BitReader_read_bit r = Inr (b, r1)"
      by (auto simp: quic_run_loop.simps [of m len s r])
    show ?case
    proof (cases "b = 1")
      case True
      with "1.prems"(1) b obtain len' s1 where t: "quic_run_turn m len s = Inr (len', s1)"
          "quic_run_loop m len' s1 r1 = Inr (n, s', r')"
        by (auto simp: quic_run_loop.simps [of m len s r])
      with "1.IH" [OF b refl True t(1) refl] quic_run_turn_progress [OF t(1)] show ?thesis by blast
    next
      case False
      with "1.prems" b show ?thesis by (auto simp: quic_run_loop.simps [of m len s r])
    qed
  qed
  show "decode_run m s r = Inr (n, s', r') \<Longrightarrow> n \<le> m"
    by (auto simp: decode_run_def quic_run_add_def dest!: loop split: if_splits option.splits)
qed

lemma quic_row_run_progress:
  assumes "quic_row_run components e i stop row = Inr (PixRan row' i' run' stop')" "i < e"
  shows "i \<le> i' \<and> i' < e \<and> run' = i \<and> i' \<le> stop'"
proof -
  from assms(1) obtain w n s r where "decode_run (e - i) ((qr_state row)\<lparr>cs_wait_count := w\<rparr>) (qr_reader row) = Inr (n, s, r)"
      "i' = i + n" "run' = i" "stop' = i + n + cs_wait_count s" "i + n \<noteq> e"
    by (auto simp: quic_row_run_def Let_def split: if_splits)
  with decode_run_bound [OF this(1)] assms(2) show ?thesis by linarith
qed

lemma should_decode_run_index: "should_decode_run p c cs i run = Inr True \<Longrightarrow> run \<noteq> i"
  by (auto simp: should_decode_run_def split: option.splits if_splits)

lemma quic_pixels_loop_progress:
  assumes "quic_pixels_loop p c b e d run stop i row = Inr res" "d \<le> e"
  shows "case res of
      PixReturn _ \<Rightarrow> True
    | PixRan _ i' run' stop' \<Rightarrow> i \<le> i' \<and> i < d \<and> i' < e \<and> i' \<le> stop' \<and> (i' = i \<longrightarrow> run' = i \<and> run \<noteq> i)
    | PixEnd _ i' \<Rightarrow> i' = max i d"
  using assms
proof (induction "d - i" arbitrary: i row)
  case 0
  then have "res = PixEnd row i" by (simp add: quic_pixels_loop.simps [of p c b e d run stop i row])
  with 0 show ?case by simp
next
  case (Suc n)
  then have i: "i < d" by linarith
  from Suc.prems(1) i obtain go where go: "should_decode_run p (qr_current row) c i run = Inr go"
    by (auto simp: quic_pixels_loop.simps [of p c b e d run stop i row])
  show ?case
  proof (cases go)
    case True
    then have run: "quic_row_run c e i stop row = Inr res"
      using Suc.prems(1) go i by (simp add: quic_pixels_loop.simps [of p c b e d run stop i row])
    show ?thesis
    proof (cases res)
      case (PixRan r i' run' stop')
      with quic_row_run_progress [of c e i stop row r i' run' stop'] run i Suc.prems(2) should_decode_run_index go True
      show ?thesis by auto
    next
      case (PixEnd r i')
      with run show ?thesis by (auto simp: quic_row_run_def Let_def split: if_splits)
    qed simp
  next
    case False
    then obtain row1 where "quic_pixels_loop p c b e d run stop (i + 1) row1 = Inr res"
      using Suc.prems(1) go i by (auto simp: quic_pixels_loop.simps [of p c b e d run stop i row])
    moreover have "n = d - (i + 1)" using Suc.hyps(2) by linarith
    ultimately show ?thesis using Suc.hyps(1) [of "i + 1" row1] Suc.prems(2) i by (cases res) auto
  qed
qed

lemma quic_segment_turn_progress:
  assumes "quic_segment_turn p c b e wb run stop i row = Inr (SegNext row' i' run' stop')"
  shows "e - i' < e - i \<or> i' = i \<and> segment_rank run' stop' i' < segment_rank run stop i"
proof -
  from assms obtain res where res: "quic_pixels_loop p c b e (min e (stop + 1)) run stop i row = Inr res"
    by (auto simp: quic_segment_turn_def Let_def)
  note pl = quic_pixels_loop_progress [OF this]
  show ?thesis
  proof (cases res)
    case (PixRan row1 i1 run1 stop1)
    then have "i' = i1" "run' = run1" "stop' = stop1" using assms res by (auto simp: quic_segment_turn_def Let_def)
    with pl PixRan show ?thesis by (auto simp: segment_rank_def)
  next
    case (PixEnd row1 i1)
    then have "stop < e" "i' = i1" "i' \<le> stop'" using assms res
      by (auto simp: quic_segment_turn_def Let_def case_prod_beta split: if_splits)
    with pl PixEnd show ?thesis by (auto simp: segment_rank_def)
  qed (use assms res in \<open>auto simp: quic_segment_turn_def Let_def\<close>)
qed

function quic_segment_loop ::
    "quic_pixel list option \<Rightarrow> nat list \<Rightarrow> nat \<Rightarrow> nat \<Rightarrow> nat \<Rightarrow> nat \<Rightarrow> nat \<Rightarrow> nat \<Rightarrow> quic_row \<Rightarrow> quic_row quic" where
  "quic_segment_loop previous components bits_per_component e wait_bits run_index stop_index i row =
     and_then (quic_segment_turn previous components bits_per_component e wait_bits run_index stop_index i row) (\<lambda>res.
     case res of
       SegReturn row \<Rightarrow> Inr row
     | SegNext row i run_index stop_index \<Rightarrow>
         quic_segment_loop previous components bits_per_component e wait_bits run_index stop_index i row)"
  by pat_completeness auto
termination
  by (relation "measures [\<lambda>(p, c, b, e, wb, run, stop, i, row). e - i, \<lambda>(p, c, b, e, wb, run, stop, i, row). segment_rank run stop i]")
    (auto dest!: quic_segment_turn_progress)

declare quic_segment_loop.simps [simp del]

definition decode_row_segment ::
    "quic_pixel list option \<Rightarrow> nat list \<Rightarrow> nat \<Rightarrow> nat \<Rightarrow> nat \<Rightarrow> quic_row \<Rightarrow> quic_row quic" where
  "decode_row_segment previous components bits_per_component start e row =
     (let wait_bits = cs_code_index (qr_state row) in
      and_then
        (if start = 0 then
           and_then (quic_row_pixel previous components bits_per_component start row) (\<lambda>row.
           if cs_wait_count (qr_state row) \<noteq> 0
           then Inr (row\<lparr>qr_state := (qr_state row)\<lparr>cs_wait_count := cs_wait_count (qr_state row) - 1\<rparr>\<rparr>, start + 1)
           else
             let (w, s) = CodingState_next_wait (qr_state row) in
             and_then (update_models (qr_channels row) start bits_per_component (cs_model_trigger s)) (\<lambda>chs.
             Inr (row\<lparr>qr_channels := chs, qr_state := s\<lparr>cs_wait_count := w mod 2 ^ wait_bits\<rparr>\<rparr>, start + 1)))
         else Inr (row, start)) (\<lambda>(row, i).
      quic_segment_loop previous components bits_per_component e wait_bits 0 (i + cs_wait_count (qr_state row)) i row))"

text \<open>A segment does not touch the schedule of the code index.\<close>

definition same_schedule :: "CodingState \<Rightarrow> CodingState \<Rightarrow> bool" where
  "same_schedule s s' \<longleftrightarrow> cs_code_index s' = cs_code_index s \<and> cs_pixels_until_code_index s' = cs_pixels_until_code_index s"

lemma same_schedule_refl [simp]: "same_schedule s s"
  by (simp add: same_schedule_def)

lemma same_schedule_trans: "same_schedule s s' \<Longrightarrow> same_schedule s' s'' \<Longrightarrow> same_schedule s s''"
  by (simp add: same_schedule_def)

lemma same_schedule_update [simp]:
  "same_schedule s (s'\<lparr>cs_wait_count := w\<rparr>) = same_schedule s s'" "same_schedule (s\<lparr>cs_wait_count := w\<rparr>) s' = same_schedule s s'"
  "same_schedule s (s'\<lparr>cs_run_state := k\<rparr>) = same_schedule s s'" "same_schedule s (s'\<lparr>cs_random_index := b\<rparr>) = same_schedule s s'"
  "same_schedule (s\<lparr>cs_random_index := b\<rparr>) s' = same_schedule s s'"
  by (simp_all add: same_schedule_def)

lemma quic_run_loop_schedule: "quic_run_loop m len s r = Inr (n, s', r') \<Longrightarrow> same_schedule s s'"
proof (induction m len s r rule: quic_run_loop.induct)
  case (1 m len s r)
  from "1.prems" obtain b r1 where b: "BitReader_read_bit r = Inr (b, r1)" by (auto simp: quic_run_loop.simps [of m len s r])
  show ?case
  proof (cases "b = 1")
    case True
    with "1.prems" b obtain len' s1 where t: "quic_run_turn m len s = Inr (len', s1)" "quic_run_loop m len' s1 r1 = Inr (n, s', r')"
      by (auto simp: quic_run_loop.simps [of m len s r])
    moreover from t(1) have "same_schedule s s1" by (auto simp: quic_run_turn_def)
    ultimately show ?thesis using "1.IH" [OF b refl True t(1) refl t(2)] by (blast intro: same_schedule_trans)
  next
    case False
    with "1.prems" b show ?thesis by (auto simp: quic_run_loop.simps [of m len s r])
  qed
qed

lemma decode_run_schedule: "decode_run m s r = Inr (n, s', r') \<Longrightarrow> same_schedule s s'"
  by (auto simp: decode_run_def dest!: quic_run_loop_schedule split: if_splits)

fun pixels_state :: "pixels_result \<Rightarrow> CodingState" where
  "pixels_state (PixReturn row) = qr_state row"
| "pixels_state (PixRan row i run stop) = qr_state row"
| "pixels_state (PixEnd row i) = qr_state row"

lemma quic_row_run_schedule: "quic_row_run c e i stop row = Inr res \<Longrightarrow> same_schedule (qr_state row) (pixels_state res)"
  by (auto simp: quic_row_run_def Let_def dest!: decode_run_schedule)

lemma quic_row_pixel_schedule: "quic_row_pixel p c b i row = Inr row' \<Longrightarrow> qr_state row' = qr_state row"
  by (auto simp: quic_row_pixel_def)

lemma quic_pixels_loop_schedule:
  "quic_pixels_loop p c b e d run stop i row = Inr res \<Longrightarrow> same_schedule (qr_state row) (pixels_state res)"
proof (induction "d - i" arbitrary: i row)
  case 0
  then show ?case by (auto simp: quic_pixels_loop.simps [of p c b e d run stop i row])
next
  case (Suc n)
  then have i: "i < d" by linarith
  from Suc.prems i consider "quic_row_run c e i stop row = Inr res"
    | row1 where "quic_row_pixel p c b i row = Inr row1" "quic_pixels_loop p c b e d run stop (i + 1) row1 = Inr res"
    by (auto simp: quic_pixels_loop.simps [of p c b e d run stop i row] split: if_splits)
  then show ?case
  proof cases
    case 1
    then show ?thesis by (rule quic_row_run_schedule)
  next
    case 2
    moreover have "n = d - (i + 1)" using Suc.hyps(2) by linarith
    ultimately show ?thesis using Suc.hyps(1) [of "i + 1" row1] quic_row_pixel_schedule by metis
  qed
qed

lemma quic_segment_turn_schedule:
  assumes "quic_segment_turn p c b e wb run stop i row = Inr res"
  shows "case res of SegReturn row' \<Rightarrow> same_schedule (qr_state row) (qr_state row')
    | SegNext row' _ _ _ \<Rightarrow> same_schedule (qr_state row) (qr_state row')"
proof -
  from assms obtain pr where "quic_pixels_loop p c b e (min e (stop + 1)) run stop i row = Inr pr"
    by (auto simp: quic_segment_turn_def Let_def)
  with quic_pixels_loop_schedule [OF this] assms show ?thesis
    by (cases pr) (auto simp: quic_segment_turn_def Let_def CodingState_next_wait_def split: if_splits)
qed

lemma quic_segment_loop_schedule:
  "quic_segment_loop p c b e wb run stop i row = Inr row' \<Longrightarrow> same_schedule (qr_state row) (qr_state row')"
proof (induction p c b e wb run stop i row rule: quic_segment_loop.induct)
  case (1 p c b e wb run stop i row)
  from "1.prems" obtain res where res: "quic_segment_turn p c b e wb run stop i row = Inr res"
    by (auto simp: quic_segment_loop.simps [of p c b e wb run stop i row])
  with quic_segment_turn_schedule [OF this] "1.prems" "1.IH" [OF res] show ?case
    by (cases res) (auto simp: quic_segment_loop.simps [of p c b e wb run stop i row] intro: same_schedule_trans)
qed

lemma decode_row_segment_schedule:
  "decode_row_segment p c b i e row = Inr row' \<Longrightarrow> same_schedule (qr_state row) (qr_state row')"
  by (auto simp: decode_row_segment_def Let_def CodingState_next_wait_def dest!: quic_segment_loop_schedule quic_row_pixel_schedule
      split: if_splits)

text \<open>A row is cut where the code index advances.\<close>

definition quic_row_turn ::
    "quic_pixel list option \<Rightarrow> nat list \<Rightarrow> nat \<Rightarrow> nat \<Rightarrow> nat \<Rightarrow> quic_row \<Rightarrow> (quic_row \<times> nat \<times> nat) quic" where
  "quic_row_turn previous components bits_per_component i remaining row =
     and_then
       (if cs_pixels_until_code_index (qr_state row) \<noteq> 0 then
          let segment_end = i + cs_pixels_until_code_index (qr_state row) in
          and_then (decode_row_segment previous components bits_per_component i segment_end row) (\<lambda>row.
          and_then (usize_sub remaining (cs_pixels_until_code_index (qr_state row))) (\<lambda>remaining.
          Inr (row, segment_end, remaining)))
        else Inr (row, i, remaining)) (\<lambda>(row, i, remaining).
     Inr (row\<lparr>qr_state := CodingState_increase_code_index (qr_state row)\<rparr>, i, remaining))"

lemma quic_row_turn_index:
  "quic_row_turn p c b i n row = Inr (row', i', n') \<Longrightarrow> cs_code_index (qr_state row') = cs_code_index (qr_state row) + 1"
  by (auto simp: quic_row_turn_def Let_def CodingState_increase_code_index_def CodingState_update_model_trigger_def same_schedule_def
      dest!: decode_row_segment_schedule split: if_splits)

function quic_row_loop ::
    "quic_pixel list option \<Rightarrow> nat list \<Rightarrow> nat \<Rightarrow> nat \<Rightarrow> nat \<Rightarrow> quic_row \<Rightarrow> (quic_row \<times> nat \<times> nat) quic" where
  "quic_row_loop previous components bits_per_component i remaining row =
     (if cs_code_index (qr_state row) < MAX_CODE_INDEX \<and> cs_pixels_until_code_index (qr_state row) \<le> remaining then
        and_then (quic_row_turn previous components bits_per_component i remaining row) (\<lambda>(row, i, remaining).
        quic_row_loop previous components bits_per_component i remaining row)
      else Inr (row, i, remaining))"
  by pat_completeness auto
termination
  by (relation "measure (\<lambda>(p, c, b, i, n, row). MAX_CODE_INDEX - cs_code_index (qr_state row))") (auto dest!: quic_row_turn_index)

declare quic_row_loop.simps [simp del]

definition decode_row :: "quic_pixel list option \<Rightarrow> nat list \<Rightarrow> nat \<Rightarrow> quic_row \<Rightarrow> quic_row quic" where
  "decode_row previous components bits_per_component row =
     and_then (quic_row_loop previous components bits_per_component 0 (length (qr_current row)) row) (\<lambda>(row, i, remaining).
     if remaining \<noteq> 0 then
       and_then (decode_row_segment previous components bits_per_component i (i + remaining) row) (\<lambda>row.
       if cs_code_index (qr_state row) < MAX_CODE_INDEX then
         and_then (usize_sub (cs_pixels_until_code_index (qr_state row)) remaining) (\<lambda>n.
         Inr (row\<lparr>qr_state := (qr_state row)\<lparr>cs_pixels_until_code_index := n\<rparr>\<rparr>))
       else Inr row)
     else Inr row)"

section \<open>The whole image\<close>

datatype QuicImageType = QuicImageType_Gray | QuicImageType_Rgb16 | QuicImageType_Rgb24 | QuicImageType_Rgb32 | QuicImageType_Rgba

definition QuicImageType_try_from :: "u32 \<Rightarrow> QuicImageType quic" where
  "QuicImageType_try_from value =
     (if value = 1 then Inr QuicImageType_Gray else if value = 2 then Inr QuicImageType_Rgb16
      else if value = 3 then Inr QuicImageType_Rgb24 else if value = 4 then Inr QuicImageType_Rgb32
      else if value = 5 then Inr QuicImageType_Rgba else quic_err QuicErrorKind_UnsupportedType STR ''image type'')"

record DecodedQuicImage =
  qi_width :: u32
  qi_height :: u32
  qi_image_type :: QuicImageType
  qi_pixels :: "quic_pixel list"

record quic_run =
  qu_reader :: BitReader
  qu_rgb_state :: CodingState
  qu_alpha_state :: CodingState
  qu_channels :: "ChannelModel list"
  qu_pixels :: "quic_pixel list"
  qu_polls :: nat

definition quic_poll :: "(nat \<Rightarrow> bool) \<Rightarrow> nat \<Rightarrow> nat quic" where
  "quic_poll should_cancel polls = (if should_cancel polls then quic_err QuicErrorKind_Cancelled STR ''decode'' else Inr (polls + 1))"

definition quic_image_row :: "(nat \<Rightarrow> bool) \<Rightarrow> QuicImageType \<Rightarrow> nat \<Rightarrow> nat \<Rightarrow> nat \<Rightarrow> quic_run \<Rightarrow> quic_run quic" where
  "quic_image_row should_cancel image_type width bits_per_component row u =
     and_then (if row mod ((CANCELLATION_INTERVAL_PIXELS + width - 1) div width) = 0
               then quic_poll should_cancel (qu_polls u) else Inr (qu_polls u)) (\<lambda>polls.
     and_then (if row > 0 then try_map ChannelModel_start_next_row (qu_channels u) else Inr (qu_channels u)) (\<lambda>channels.
     let row_start = row * width in
     and_then (slice_index (qu_pixels u) row_start (row_start + width)) (\<lambda>current.
     and_then (if row > 0 then and_then (usize_sub row_start width) (\<lambda>a.
                 and_then (slice_index (qu_pixels u) a row_start) (\<lambda>upper. Inr (Some upper))) else Inr None) (\<lambda>previous.
     and_then (slice_index channels 0 3) (\<lambda>colour.
     and_then (decode_row previous [0, 1, 2] bits_per_component
       \<lparr>qr_reader = qu_reader u, qr_state = qu_rgb_state u, qr_channels = colour, qr_current = current\<rparr>) (\<lambda>rgb.
     and_then
       (if image_type = QuicImageType_Rgba then
          and_then (slice_index channels 3 4) (\<lambda>alpha.
          and_then (decode_row previous [3] 8
            \<lparr>qr_reader = qr_reader rgb, qr_state = qu_alpha_state u, qr_channels = alpha, qr_current = qr_current rgb\<rparr>) (\<lambda>a.
          Inr (qr_reader a, qr_state a, qr_channels a, qr_current a)))
        else Inr (qr_reader rgb, qu_alpha_state u, drop 3 channels, qr_current rgb)) (\<lambda>(r, alpha_state, alpha, current).
     Inr \<lparr>qu_reader = r, qu_rgb_state = qr_state rgb, qu_alpha_state = alpha_state, qu_channels = qr_channels rgb @ alpha,
       qu_pixels = take row_start (qu_pixels u) @ current @ drop (row_start + width) (qu_pixels u), qu_polls = polls\<rparr>)))))))"

definition quic_expand_pixel :: "quic_pixel \<Rightarrow> quic_pixel quic" where
  "quic_expand_pixel pixel =
     and_then (slice_index pixel 0 3) (\<lambda>cs. Inr (map (\<lambda>c. push_bit 3 c OR drop_bit 2 c) cs @ drop 3 pixel))"

definition quic_header :: "u32 \<Rightarrow> u32 \<Rightarrow> DecodeLimits \<Rightarrow> BitReader \<Rightarrow> (QuicImageType \<times> nat \<times> BitReader) quic" where
  "quic_header expected_width expected_height limits r =
     and_then (BitReader_read_u32 r) (\<lambda>(magic, r).
     and_then (if magic \<noteq> QUIC_MAGIC then Inr (True, r)
               else and_then (BitReader_read_u32 r) (\<lambda>(version, r). Inr (version \<noteq> QUIC_VERSION, r))) (\<lambda>(bad, r).
     if bad then quic_err QuicErrorKind_InvalidHeader STR ''magic or version''
     else
     and_then (BitReader_read_u32 r) (\<lambda>(t, r).
     and_then (QuicImageType_try_from t) (\<lambda>image_type.
     if image_type = QuicImageType_Gray then quic_err QuicErrorKind_UnsupportedType STR ''grayscale display image''
     else
     and_then (BitReader_read_u32 r) (\<lambda>(width, r).
     and_then (BitReader_read_u32 r) (\<lambda>(height, r).
     if width \<noteq> expected_width \<or> height \<noteq> expected_height
     then quic_err QuicErrorKind_DimensionMismatch STR ''image descriptor dimensions''
     else if width = 0 \<or> height = 0 \<or> width > maximum_width limits \<or> height > maximum_height limits
     then quic_err QuicErrorKind_ResourceLimit STR ''dimensions''
     else
     and_then (ok_or (QuicError_new QuicErrorKind_ResourceLimit STR ''pixel count'')
       (usize_checked_mul (unat width) (unat height))) (\<lambda>pixel_count.
     and_then (ok_or (QuicError_new QuicErrorKind_ResourceLimit STR ''output size'') (usize_checked_mul pixel_count 4)) (\<lambda>output_bytes.
     if output_bytes > maximum_output_bytes limits then quic_err QuicErrorKind_ResourceLimit STR ''output size''
     else Inr (image_type, pixel_count, r)))))))))"

definition decode_quic_with_cancel ::
    "u8 list \<Rightarrow> u32 \<Rightarrow> u32 \<Rightarrow> DecodeLimits \<Rightarrow> (nat \<Rightarrow> bool) \<Rightarrow> DecodedQuicImage quic" where
  "decode_quic_with_cancel input expected_width expected_height limits should_cancel =
     and_then (quic_poll should_cancel 0) (\<lambda>polls.
     and_then (BitReader_new input) (\<lambda>r.
     and_then (quic_header expected_width expected_height limits r) (\<lambda>(image_type, pixel_count, r).
     let bits_per_component = (if image_type = QuicImageType_Rgb16 then 5 else 8);
         channel_count = (if image_type = QuicImageType_Rgba then 4 else 3) in
     and_then (for_each (quic_image_row should_cancel image_type (unat expected_width) bits_per_component) [0..<unat expected_height]
       \<lparr>qu_reader = r, qu_rgb_state = CodingState_new, qu_alpha_state = CodingState_new,
        qu_channels = replicate channel_count (ChannelModel_new (unat expected_width) bits_per_component),
        qu_pixels = replicate pixel_count [0, 0, 0, 255], qu_polls = polls\<rparr>) (\<lambda>u.
     and_then (quic_poll should_cancel (qu_polls u)) (\<lambda>_.
     and_then (if image_type = QuicImageType_Rgb16 then try_map quic_expand_pixel (qu_pixels u) else Inr (qu_pixels u)) (\<lambda>pixels.
     Inr \<lparr>qi_width = expected_width, qi_height = expected_height, qi_image_type = image_type, qi_pixels = pixels\<rparr>))))))"

end
