(* ===== verification/Codec_QuicSafe.thy ===== *)
theory Codec_QuicSafe
  imports Codec_Quic
begin

text \<open>
  The QUIC decoder never panics. A decoded image has the expected dimensions and exactly that many pixels of
  four components; the model counters never overflow, because each stays within a constant factor of the
  smallest; and a Golomb code reads back every component value from exactly as many bits as
  \<open>golomb_code_length\<close> charges for it.
\<close>

section \<open>What the bit reader reads\<close>

text \<open>Bit \<open>i\<close> of the stream: words little-endian, bits of a word from the most significant.\<close>

definition quic_bit :: "u8 list \<Rightarrow> nat \<Rightarrow> bool" where
  "quic_bit xs i = bit (from_le (take 4 (drop (i div 32 * 4) xs)) :: u32) (31 - i mod 32)"

definition bits_ok :: "BitReader \<Rightarrow> bool" where
  "bits_ok r \<longleftrightarrow> length (br_input r) mod 4 = 0"

text \<open>The value \<open>v\<close> holds the bits of the stream from \<open>a\<close> to \<open>b\<close>, the first most significant.\<close>

definition holds_bits :: "u8 list \<Rightarrow> nat \<Rightarrow> nat \<Rightarrow> u32 \<Rightarrow> bool" where
  "holds_bits xs a b v \<longleftrightarrow> (\<forall>j. bit v j \<longleftrightarrow> j < b - a \<and> quic_bit xs (b - 1 - j))"

lemma word_in_range: "length xs mod 4 = 0 \<Longrightarrow> i < length xs * 8 \<Longrightarrow> i div 32 * 4 + 4 \<le> length (xs :: u8 list)"
proof -
  assume "length xs mod 4 = 0" "i < length xs * 8"
  then obtain k where k: "length xs = 4 * k" by auto
  then have "i div 32 < k" using \<open>i < length xs * 8\<close> by (simp add: div_less_iff_less_mult)
  then show ?thesis using k by linarith
qed

lemma same_word:
  fixes p t j :: nat
  assumes "j < t" "t \<le> 32 - p mod 32"
  shows "(p + t - 1 - j) div 32 = p div 32" "31 - (p + t - 1 - j) mod 32 = 32 - p mod 32 - t + j"
proof -
  obtain q m where p: "p = 32 * q + m" "m < 32" 
    by (rule that [of "p div 32" "p mod 32"]) simp_all
  then have m: "p mod 32 = m" "p div 32 = q" by simp_all
  have mt: "j < t" "t \<le> 32 - m" using assms by (simp_all only: m)
  with p have e: "p + t - 1 - j = m + t - 1 - j + 32 * q" and l: "m + t - 1 - j < 32" by linarith+
  from l have d: "(p + t - 1 - j) div 32 = q" and r: "(p + t - 1 - j) mod 32 = m + t - 1 - j" unfolding e by simp_all
  show "(p + t - 1 - j) div 32 = p div 32" unfolding d m by (rule refl)
  have "31 - (m + t - 1 - j) = 32 - m - t + j" using mt p(2) by linarith
  then show "31 - (p + t - 1 - j) mod 32 = 32 - p mod 32 - t + j" by (simp only: r m)
qed

lemma bit_low_mask: "t \<le> 32 \<Longrightarrow> bit (if t = 32 then - 1 else push_bit t 1 - 1 :: u32) j \<longleftrightarrow> j < t \<and> j < 32"
  by (auto simp: push_bit_of_1 bit_minus_1_iff simp flip: mask_eq_exp_minus_1 simp: bit_mask_iff)

lemma shift_index: "t \<le> j \<Longrightarrow> a \<le> p \<Longrightarrow> p - 1 - (j - t) = p + t - 1 - j \<and> (j - t < p - a \<longleftrightarrow> j < p + t - a)" for t j a p :: nat
  by linarith

lemma bit_append_bits:
  assumes "t \<le> 32"
  shows "bit (push_bit t acc OR (drop_bit s w AND (if t = 32 then - 1 else push_bit t 1 - 1)) :: u32) j \<longleftrightarrow>
    (if j < t then bit w (s + j) else j < 32 \<and> bit acc (j - t))"
proof -
  have "bit w (s + j) \<Longrightarrow> s + j < 32" using bit_imp_le_length [of w "s + j"] by simp
  then show ?thesis unfolding bit_or_iff bit_and_iff bit_low_mask [OF assms] bit_push_bit_iff bit_drop_bit_eq comp_def by auto
qed

lemma quic_bits_turn_safe:
  assumes "bits_ok r" "br_offset r < e" "e \<le> length (br_input r) * 8" "a \<le> br_offset r" "e \<le> a + 31"
    "holds_bits (br_input r) a (br_offset r) acc"
  shows "safely (\<lambda>(acc', r'). br_input r' = br_input r \<and> br_offset r < br_offset r' \<and> br_offset r' \<le> e \<and>
    holds_bits (br_input r) a (br_offset r') acc') (quic_bits_turn e (acc, r))"
proof -
  let ?o = "br_offset r" and ?xs = "br_input r"
  let ?w = "from_le (take 4 (drop (?o div 32 * 4) ?xs)) :: u32"
  define t where "t = min (32 - ?o mod 32) (e - ?o)"
  have range: "?o div 32 * 4 + 4 \<le> length ?xs" using assms word_in_range [of ?xs ?o] by (simp add: bits_ok_def)
  have t: "0 < t" "t \<le> 32 - ?o mod 32" "?o + t \<le> e" using assms(2) by (auto simp: t_def)
  from t(2) have t32: "t \<le> 32" by linarith
  have "bit (push_bit t acc OR (drop_bit (32 - ?o mod 32 - t) ?w AND (if t = 32 then - 1 else push_bit t 1 - 1))) j
      \<longleftrightarrow> j < ?o + t - a \<and> quic_bit ?xs (?o + t - 1 - j)" for j
  proof (cases "j < t")
    case True
    then have "j < ?o + t - a" using assms(4) by linarith
    with True show ?thesis
      unfolding bit_append_bits [OF t32] quic_bit_def same_word [OF True t(2)] by simp
  next
    case False
    have e: "?o - 1 - (j - t) = ?o + t - 1 - j" "j - t < ?o - a \<longleftrightarrow> j < ?o + t - a"
      using shift_index [OF leI [OF False] assms(4)] by blast+
    have "bit acc (j - t) \<longleftrightarrow> j - t < ?o - a \<and> quic_bit ?xs (?o - 1 - (j - t))"
      using assms(6) by (simp only: holds_bits_def)
    then have acc: "bit acc (j - t) \<longleftrightarrow> j < ?o + t - a \<and> quic_bit ?xs (?o + t - 1 - j)" by (simp only: e)
    have "j < ?o + t - a \<Longrightarrow> j < 32" using t(3) assms(5) by linarith
    with False show ?thesis unfolding bit_append_bits [OF t32] acc by argo
  qed
  then have "holds_bits ?xs a (?o + t) (push_bit t acc OR (drop_bit (32 - ?o mod 32 - t) ?w AND (if t = 32 then - 1 else push_bit t 1 - 1)))"
    by (simp only: holds_bits_def) blast
  moreover have "quic_bits_turn e (acc, r) = Inr (push_bit t acc OR (drop_bit (32 - ?o mod 32 - t) ?w AND
      (if t = 32 then - 1 else push_bit t 1 - 1)), r\<lparr>br_offset := ?o + t\<rparr>)"
    using range unfolding quic_bits_turn_def t_def Let_def by simp
  ultimately show ?thesis using t by (simp only: safely_simps prod.case) simp
qed

lemma quic_bits_loop_safe:
  "bits_ok r \<Longrightarrow> e \<le> length (br_input r) * 8 \<Longrightarrow> br_offset r \<le> e \<Longrightarrow> a \<le> br_offset r \<Longrightarrow> e \<le> a + 31 \<Longrightarrow>
     holds_bits (br_input r) a (br_offset r) acc \<Longrightarrow>
     safely (\<lambda>(v, r'). r' = r\<lparr>br_offset := e\<rparr> \<and> holds_bits (br_input r) a e v) (quic_bits_loop e (acc, r))"
proof (induction "e - br_offset r" arbitrary: acc r rule: less_induct)
  case less
  show ?case
  proof (cases "br_offset r < e")
    case True
    note turn = quic_bits_turn_safe [OF less.prems(1) True less.prems(2,4,5,6)]
    have "safely (\<lambda>(v, r'). r' = r\<lparr>br_offset := e\<rparr> \<and> holds_bits (br_input r) a e v) (quic_bits_loop e (acc', r'))"
      if "br_input r' = br_input r" "br_offset r < br_offset r'" "br_offset r' \<le> e" "holds_bits (br_input r) a (br_offset r') acc'"
      for acc' r'
    proof -
      have "r'\<lparr>br_offset := e\<rparr> = r\<lparr>br_offset := e\<rparr>" using that(1) by (cases r, cases r') simp
      moreover have "e - br_offset r' < e - br_offset r" "bits_ok r'" using that True less.prems(1) by (auto simp: bits_ok_def)
      moreover from this have "safely (\<lambda>(v, r''). r'' = r'\<lparr>br_offset := e\<rparr> \<and> holds_bits (br_input r') a e v) (quic_bits_loop e (acc', r'))"
        using less.prems that by (intro less.hyps) simp_all
      ultimately show ?thesis by (simp only: that(1))
    qed
    then show ?thesis
      unfolding quic_bits_loop.simps [of e "(acc, r)"] using True by (auto intro!: safely_and_then [OF turn])
  next
    case False
    with less.prems show ?thesis by (simp add: quic_bits_loop.simps [of e "(acc, r)"])
  qed
qed

lemma BitReader_read_bits_safe:
  assumes "bits_ok r" "n \<le> 31"
  shows "safely (\<lambda>(v, r'). r' = r\<lparr>br_offset := br_offset r + n\<rparr> \<and> br_offset r + n \<le> length (br_input r) * 8 \<and>
    holds_bits (br_input r) (br_offset r) (br_offset r + n) v) (BitReader_read_bits n r)"
proof -
  have "holds_bits (br_input r) (br_offset r) (br_offset r) 0" by (simp add: holds_bits_def)
  from quic_bits_loop_safe [OF assms(1) _ _ _ _ this, of "br_offset r + n"] assms(2)
  have "safely (\<lambda>(v, r'). r' = r\<lparr>br_offset := br_offset r + n\<rparr> \<and> br_offset r + n \<le> length (br_input r) * 8 \<and>
      holds_bits (br_input r) (br_offset r) (br_offset r + n) v) (quic_bits_loop (br_offset r + n) (0, r))"
    if "br_offset r + n \<le> length (br_input r) * 8" using that by (auto elim!: safely_weaken)
  then show ?thesis
    unfolding BitReader_read_bits_def using assms(2)
    by (auto intro!: safely_and_then [OF safely_ok_or] split: option.splits if_splits)
qed

lemma holds_bits_bound: "holds_bits xs a (a + n) v \<Longrightarrow> unat v < 2 ^ n"
proof -
  assume "holds_bits xs a (a + n) v"
  then have "take_bit n v = v" by (intro bit_eqI) (auto simp: bit_take_bit_iff holds_bits_def)
  then show ?thesis by (metis take_bit_nat_less_exp unsigned_take_bit_eq)
qed

section \<open>Golomb codes are bounded\<close>

definition bpc_ok :: "nat \<Rightarrow> bool" where
  "bpc_ok b \<longleftrightarrow> b = 5 \<or> b = 8"

definition golomb_prefix :: "nat \<Rightarrow> nat \<Rightarrow> nat" where
  "golomb_prefix code b = min (26 - b) (2 ^ (b - code) - 1)"

definition golomb_length :: "u8 \<Rightarrow> nat \<Rightarrow> nat \<Rightarrow> nat" where
  "golomb_length v code b =
     (if unat v < golomb_prefix code b * 2 ^ code then unat v div 2 ^ code + code + 1
      else golomb_prefix code b + ceil_log2 (2 ^ b - golomb_prefix code b * 2 ^ code))"

lemma bit_length_le: "n < 2 ^ k \<Longrightarrow> bit_length n \<le> k"
proof (induction k arbitrary: n)
  case (Suc k)
  then have "bit_length (n div 2) \<le> k" by (intro Suc.IH) auto
  then show ?case by (simp add: bit_length.simps [of n])
qed (simp add: bit_length.simps)

lemma less_bit_length: "n < 2 ^ bit_length n"
proof (induction n rule: bit_length.induct)
  case (1 n)
  show ?case
  proof (cases "n = 0")
    case False
    with 1 have "n div 2 < 2 ^ bit_length (n div 2)" by blast
    then show ?thesis using False by (simp add: bit_length.simps [of n])
  qed (simp add: bit_length.simps)
qed

lemma ceil_log2_le: "n \<le> 2 ^ k \<Longrightarrow> ceil_log2 n \<le> k"
  unfolding ceil_log2_def by (auto intro!: bit_length_le)

lemma le_ceil_log2: "n \<le> 2 ^ ceil_log2 n"
  using less_bit_length [of "n - 1"] by (auto simp: ceil_log2_def)

lemma golomb_prefix_props:
  assumes "bpc_ok b" "code < b"
  shows "0 < golomb_prefix code b" "golomb_prefix code b * 2 ^ code + 2 ^ code \<le> 2 ^ b" "golomb_prefix code b \<le> 26 - b"
proof -
  have "(2 :: nat) \<le> 2 ^ (b - code)" using assms(2) self_le_power [of 2 "b - code"] by simp
  then show "0 < golomb_prefix code b" using assms(1) by (auto simp: golomb_prefix_def bpc_ok_def)
  have "(golomb_prefix code b + 1) * 2 ^ code \<le> 2 ^ (b - code) * 2 ^ code"
    using \<open>2 \<le> 2 ^ (b - code)\<close> by (intro mult_le_mono1) (simp add: golomb_prefix_def)
  also have "\<dots> = 2 ^ b" using assms(2) by (simp flip: power_add)
  finally show "golomb_prefix code b * 2 ^ code + 2 ^ code \<le> 2 ^ b" by simp
  show "golomb_prefix code b \<le> 26 - b" by (simp add: golomb_prefix_def)
qed

lemma golomb_maximum_prefix_eq:
  "bpc_ok b \<Longrightarrow> code < b \<Longrightarrow> golomb_maximum_prefix code b = Inr (golomb_prefix code b)"
  by (auto simp: golomb_maximum_prefix_def golomb_prefix_def usize_sub_def bpc_ok_def)

lemma golomb_length_bounds:
  assumes "bpc_ok b" "code < b" "unat v < 2 ^ b"
  shows "1 \<le> golomb_length v code b" "golomb_length v code b \<le> 26"
proof -
  note p = golomb_prefix_props [OF assms(1,2)]
  have "unat v div 2 ^ code < golomb_prefix code b" if "unat v < golomb_prefix code b * 2 ^ code"
    using that by (simp add: div_less_iff_less_mult)
  moreover have "ceil_log2 (2 ^ b - golomb_prefix code b * 2 ^ code) \<le> b" by (intro ceil_log2_le) simp
  moreover have "b \<le> 26" using assms(1) by (auto simp: bpc_ok_def)
  ultimately show "1 \<le> golomb_length v code b" "golomb_length v code b \<le> 26"
    using p assms(2) unfolding golomb_length_def by (force split: if_splits)+
qed

lemma golomb_code_length_eq:
  assumes "bpc_ok b" "code < b" "unat v < 2 ^ b"
  shows "golomb_code_length v code b = Inr (golomb_length v code b)"
proof -
  note p = golomb_prefix_props [OF assms(1,2)]
  have esc: "usize_sub (2 ^ b) (push_bit code (golomb_prefix code b)) = Inr (2 ^ b - golomb_prefix code b * 2 ^ code)"
    using p(2) by (simp add: usize_sub_def push_bit_eq_mult)
  have u32: "and_then (expect (u32_try_from n)) (\<lambda>m. Inr (unat m)) = (Inr n :: nat quic)" if "n \<le> 26" for n
    using that by (simp add: u32_try_from_def expect_def unat_of_nat)
  show ?thesis
  proof (cases "unat v < golomb_prefix code b * 2 ^ code")
    case True
    then have "golomb_length v code b = unat v div 2 ^ code + code + 1" by (simp add: golomb_length_def)
    with True golomb_length_bounds(2) [OF assms] show ?thesis
      unfolding golomb_code_length_def golomb_maximum_prefix_eq [OF assms(1,2)] and_then_Inr Let_def push_bit_eq_mult drop_bit_eq_div
      by (simp only: if_True u32)
  next
    case False
    then have "golomb_length v code b = golomb_prefix code b + ceil_log2 (2 ^ b - golomb_prefix code b * 2 ^ code)"
      by (simp add: golomb_length_def)
    with False golomb_length_bounds(2) [OF assms] show ?thesis
      unfolding golomb_code_length_def golomb_maximum_prefix_eq [OF assms(1,2)] and_then_Inr Let_def esc
      by (simp only: push_bit_eq_mult if_False u32 and_then_Inr)
  qed
qed

lemma golomb_zero_prefix_safe:
  "bits_ok r \<Longrightarrow> z \<le> m \<Longrightarrow> safely (\<lambda>(z', r'). z' \<le> m \<and> bits_ok r') (golomb_zero_prefix m z r)"
proof (induction m z r rule: golomb_zero_prefix.induct)
  case (1 m z r)
  have "safely (\<lambda>(v, r'). bits_ok r') (BitReader_read_bit r)"
    unfolding BitReader_read_bit_def
    by (rule safely_weaken [OF BitReader_read_bits_safe [OF "1.prems"(1)]]) (use "1.prems"(1) in \<open>auto simp: bits_ok_def\<close>)
  then show ?case
    using "1.prems" "1.IH" unfolding golomb_zero_prefix.simps [of m z r]
    by (cases "BitReader_read_bit r") (auto simp: safely_def split: if_splits)
qed

lemma decode_golomb_safe:
  assumes "bpc_ok b" "code < b" "bits_ok r"
  shows "safely (\<lambda>(v, r'). unat v < 2 ^ b \<and> bits_ok r') (decode_golomb code b r)"
proof -
  note p = golomb_prefix_props [OF assms(1,2)]
  have b: "b \<le> 8" using assms(1) by (auto simp: bpc_ok_def)
  have bits: "safely (\<lambda>(v, r'). bits_ok r') (BitReader_read_bits n r)" if "n \<le> 31" "bits_ok r" for n r
    by (rule safely_weaken [OF BitReader_read_bits_safe [OF that(2,1)]]) (use that in \<open>auto simp: bits_ok_def\<close>)
  have esc: "usize_sub (2 ^ b - 1 + 1) (push_bit code (golomb_prefix code b)) = Inr (2 ^ b - golomb_prefix code b * 2 ^ code)"
    using p(2) by (simp add: usize_sub_def push_bit_eq_mult)
  have "ceil_log2 (2 ^ b - golomb_prefix code b * 2 ^ code) \<le> b" by (intro ceil_log2_le) simp
  then have e31: "ceil_log2 (2 ^ b - golomb_prefix code b * 2 ^ code) \<le> 31" using b by linarith
  have final: "safely (\<lambda>(v, r'). unat v < 2 ^ b \<and> bits_ok r') (if v < 256 \<and> v \<le> 2 ^ b - 1 then Inr (of_nat v :: u8, r) else quic_err QuicErrorKind_InvalidCode ctx)"
    if "bits_ok r" for v r ctx
  proof -
    have "(1 :: nat) \<le> 2 ^ b" by simp
    then have "v \<le> 2 ^ b - 1 \<Longrightarrow> v < 2 ^ b" by linarith
    then show ?thesis using that by (auto simp: unat_of_nat)
  qed
  have body: "safely (\<lambda>(v, r'). bits_ok r')
      (if z < golomb_prefix code b then and_then (BitReader_read_bits code r) (\<lambda>(v, r). Inr (push_bit code z OR unat v, r))
       else and_then (usize_sub (2 ^ b - 1 + 1) (push_bit code (golomb_prefix code b))) (\<lambda>n.
         and_then (BitReader_read_bits (ceil_log2 n) r) (\<lambda>(v, r). Inr (push_bit code (golomb_prefix code b) + unat v, r))))"
    if "bits_ok r" for z r
    using assms(2) b that e31 unfolding esc by (auto intro!: safely_and_then [OF bits])
  show ?thesis
    unfolding decode_golomb_def Let_def golomb_maximum_prefix_eq [OF assms(1,2)] and_then_Inr
    by (rule safely_and_then [OF golomb_zero_prefix_safe [OF assms(3)]], simp, rule safely_case_prod,
        rule safely_and_then [OF body], simp, rule safely_case_prod, rule final, simp)
qed

section \<open>The model counters do not overflow\<close>

text \<open>Every counter stays within the factor 26 of every other, because a code of one value is between 1 and 26
  bits long, and one counter is always small, because all are halved when the smallest exceeds the trigger.\<close>

definition bucket_ok :: "nat \<Rightarrow> Bucket \<Rightarrow> bool" where
  "bucket_ok b bk \<longleftrightarrow> length (bk_counters bk) = MODEL_CODE_COUNT \<and> bk_best_code bk < b \<and>
     (\<forall>i < b. \<forall>j < b. bk_counters bk ! i \<le> 26 * (bk_counters bk ! j) + 26) \<and> (\<exists>j < b. bk_counters bk ! j \<le> 900)"

definition channel_ok :: "nat \<Rightarrow> nat \<Rightarrow> ChannelModel \<Rightarrow> bool" where
  "channel_ok w b ch \<longleftrightarrow>
     length (cm_residuals ch) = w \<and> (\<forall>v \<in> set (cm_residuals ch). unat v < 2 ^ b) \<and> unat (cm_prior_context ch) < 2 ^ b \<and>
     length (cm_context_buckets ch) = 2 ^ b \<and> (\<forall>k \<in> set (cm_context_buckets ch). k < b) \<and>
     length (cm_buckets ch) = b \<and> (\<forall>bk \<in> set (cm_buckets ch). bucket_ok b bk)"

lemma bucket_small: "bucket_ok b bk \<Longrightarrow> i < b \<Longrightarrow> bk_counters bk ! i \<le> 23426"
proof -
  assume ok: "bucket_ok b bk" "i < b"
  then obtain j where "j < b" "bk_counters bk ! j \<le> 900" by (auto simp: bucket_ok_def)
  moreover have "bk_counters bk ! i \<le> 26 * (bk_counters bk ! j) + 26" using ok \<open>j < b\<close> by (simp add: bucket_ok_def)
  ultimately show ?thesis by linarith
qed

lemma ChannelModel_new_ok: "bpc_ok b \<Longrightarrow> channel_ok w b (ChannelModel_new w b)"
  by (auto simp: channel_ok_def ChannelModel_new_def bucket_ok_def bpc_ok_def)

lemma quic_bucket_eq:
  assumes "channel_ok w b ch" "unat ctx < 2 ^ b"
  shows "\<exists>k. quic_bucket ch ctx = Inr (k, cm_buckets ch ! k) \<and> k < b \<and> bucket_ok b (cm_buckets ch ! k)"
proof -
  let ?k = "cm_context_buckets ch ! unat ctx"
  have "?k < b" using assms by (auto simp: channel_ok_def intro: nth_mem)
  then show ?thesis using assms by (auto simp: quic_bucket_def channel_ok_def)
qed

lemma ChannelModel_best_code_safe:
  assumes "channel_ok w b ch" "unat ctx < 2 ^ b"
  shows "safely (\<lambda>code. code < b) (ChannelModel_best_code ch ctx)"
  using quic_bucket_eq [OF assms] by (auto simp: ChannelModel_best_code_def bucket_ok_def)

lemma quic_charge_eq:
  assumes "bpc_ok b" "code < b" "unat v < 2 ^ b" "length cs = MODEL_CODE_COUNT" "cs ! code \<le> 23426"
  shows "quic_charge v b code cs = Inr (cs ! code + golomb_length v code b, cs[code := cs ! code + golomb_length v code b])"
proof -
  have "code < length cs" using assms(1,2,4) by (auto simp: bpc_ok_def)
  moreover have "cs ! code + golomb_length v code b < 2 ^ 32" using golomb_length_bounds(2) [OF assms(1-3)] assms(5) by simp
  ultimately show ?thesis by (simp add: quic_charge_def golomb_code_length_eq [OF assms(1-3)])
qed

text \<open>The counters after the codes from \<open>k\<close> on have been charged, and the best of them.\<close>

definition charged :: "u8 \<Rightarrow> nat \<Rightarrow> nat list \<Rightarrow> nat \<Rightarrow> nat list \<times> nat \<times> nat \<Rightarrow> bool" where
  "charged v b cs k st \<longleftrightarrow> (case st of (cs', best, n) \<Rightarrow>
     length cs' = MODEL_CODE_COUNT \<and> best < b \<and> n = cs' ! best \<and> k \<le> best \<and>
     (\<forall>i < b. cs' ! i = cs ! i + (if k \<le> i then golomb_length v i b else 0)))"

lemma quic_update_code_charged:
  assumes "bpc_ok b" "unat v < 2 ^ b" "\<And>i. i < b \<Longrightarrow> cs ! i \<le> 23426" "charged v b cs (Suc k) st" "k < b"
  shows "\<exists>st'. quic_update_code v b k st = Inr st' \<and> charged v b cs k st'"
proof -
  obtain cs' best n where st: "st = (cs', best, n)" by (cases st)
  have ok: "length cs' = MODEL_CODE_COUNT" "best < b" "n = cs' ! best" "Suc k \<le> best"
    "\<And>i. i < b \<Longrightarrow> cs' ! i = cs ! i + (if Suc k \<le> i then golomb_length v i b else 0)"
    using assms(4) by (auto simp: charged_def st)
  have "cs' ! k = cs ! k" "k < length cs'" using ok assms(1,5) by (auto simp: bpc_ok_def)
  moreover from this have "quic_charge v b k cs' = Inr (cs' ! k + golomb_length v k b, cs'[k := cs' ! k + golomb_length v k b])"
    using quic_charge_eq [OF assms(1,5,2) ok(1)] assms(3) [OF assms(5)] by simp
  ultimately show ?thesis
    using ok assms(5) by (auto simp: quic_update_code_def st charged_def nth_list_update)
qed

lemma quic_update_codes_charged:
  assumes "bpc_ok b" "unat v < 2 ^ b" "\<And>i. i < b \<Longrightarrow> cs ! i \<le> 23426" "charged v b cs k st" "k < b"
  shows "\<exists>st'. for_each (quic_update_code v b) (rev [0..<k]) st = Inr st' \<and> charged v b cs 0 st'"
  using assms(4,5)
proof (induction k arbitrary: st)
  case (Suc k)
  then obtain st1 where "quic_update_code v b k st = Inr st1" "charged v b cs k st1"
    using quic_update_code_charged [OF assms(1-3) Suc.prems(1)] by auto
  with Suc.IH [of st1] Suc.prems(2) show ?case by simp
qed simp

lemma nth_quic_halve: "i < b \<Longrightarrow> b \<le> length cs \<Longrightarrow> quic_halve b cs ! i = cs ! i div 2"
  by (simp add: quic_halve_def nth_append)

lemma length_quic_halve: "length (quic_halve b cs) = length cs"
  by (simp add: quic_halve_def)

lemma halve_spread: "x \<le> 26 * y + 26 \<Longrightarrow> x div 2 \<le> 26 * (y div 2) + 26" for x y :: nat
  by linarith

lemma updated_bucket_ok:
  assumes "bucket_ok b bk" "bpc_ok b" "unat v < 2 ^ b" "trigger \<le> 900" "charged v b (bk_counters bk) 0 (cs, best, n)"
  shows "bucket_ok b \<lparr>bk_counters = (if n > trigger then quic_halve b cs else cs), bk_best_code = best\<rparr>"
proof -
  let ?c = "bk_counters bk"
  have ok: "length cs = MODEL_CODE_COUNT" "best < b" "n = cs ! best" and cs: "\<And>i. i < b \<Longrightarrow> cs ! i = ?c ! i + golomb_length v i b"
    using assms(5) by (auto simp: charged_def)
  have b8: "b \<le> length cs" using ok(1) assms(2) by (auto simp: bpc_ok_def)
  have len: "1 \<le> golomb_length v i b" "golomb_length v i b \<le> 26" if "i < b" for i
    using golomb_length_bounds [OF assms(2) that assms(3)] by auto
  have spread: "cs ! i \<le> 26 * (cs ! j) + 26" if "i < b" "j < b" for i j
  proof -
    have "?c ! i \<le> 26 * (?c ! j) + 26" using assms(1) that by (simp add: bucket_ok_def)
    then show ?thesis using len [OF that(1)] len [OF that(2)] cs [OF that(1)] cs [OF that(2)] by linarith
  qed
  obtain j where j: "j < b" "?c ! j \<le> 900" using assms(1) by (auto simp: bucket_ok_def)
  show ?thesis
  proof (cases "n > trigger")
    case True
    have "quic_halve b cs ! j \<le> 900" using j cs [OF j(1)] len [OF j(1)] nth_quic_halve [OF j(1) b8] by linarith
    moreover have "quic_halve b cs ! i \<le> 26 * (quic_halve b cs ! j) + 26" if "i < b" "j < b" for i j
      using spread [OF that] nth_quic_halve [OF that(1) b8] nth_quic_halve [OF that(2) b8] halve_spread by metis
    ultimately show ?thesis using True ok j(1) by (auto simp: bucket_ok_def length_quic_halve)
  next
    case False
    then have "cs ! best \<le> 900" using ok(3) assms(4) by linarith
    with False ok spread show ?thesis by (auto simp: bucket_ok_def)
  qed
qed

lemma ChannelModel_update_safe:
  assumes "channel_ok w b ch" "bpc_ok b" "unat ctx < 2 ^ b" "unat v < 2 ^ b" "trigger \<le> 900"
  shows "safely (channel_ok w b) (ChannelModel_update ctx v b trigger ch)"
proof -
  obtain k where k: "quic_bucket ch ctx = Inr (k, cm_buckets ch ! k)" "k < b" "bucket_ok b (cm_buckets ch ! k)"
    using quic_bucket_eq [OF assms(1,3)] by blast
  let ?c = "bk_counters (cm_buckets ch ! k)"
  have small: "?c ! i \<le> 23426" if "i < b" for i using bucket_small [OF k(3) that] .
  have len: "length ?c = MODEL_CODE_COUNT" using k(3) by (simp add: bucket_ok_def)
  have b1: "b - 1 < b" "0 < b" "b \<le> MODEL_CODE_COUNT" using assms(2) by (auto simp: bpc_ok_def)
  have first: "quic_charge v b (b - 1) ?c = Inr (?c ! (b - 1) + golomb_length v (b - 1) b, ?c[b - 1 := ?c ! (b - 1) + golomb_length v (b - 1) b])"
    by (rule quic_charge_eq [OF assms(2) b1(1) assms(4) len small [OF b1(1)]])
  have "charged v b ?c (b - 1) (?c[b - 1 := ?c ! (b - 1) + golomb_length v (b - 1) b], b - 1, ?c ! (b - 1) + golomb_length v (b - 1) b)"
    using b1 len by (auto simp: charged_def nth_list_update)
  from quic_update_codes_charged [OF assms(2,4) small this b1(1)] obtain cs best n where
    loop: "for_each (quic_update_code v b) (rev [0..<b - 1])
      (?c[b - 1 := ?c ! (b - 1) + golomb_length v (b - 1) b], b - 1, ?c ! (b - 1) + golomb_length v (b - 1) b) = Inr (cs, best, n)"
    and ch: "charged v b ?c 0 (cs, best, n)" by (metis prod_cases3)
  have rec: "bk\<lparr>bk_counters := x, bk_best_code := y\<rparr> = \<lparr>bk_counters = x, bk_best_code = y\<rparr>" for bk :: Bucket and x y
    by (cases bk) simp
  have sub: "usize_sub b 1 = Inr (b - 1)" using b1 by (simp add: usize_sub_def)
  have "\<not> length cs < b" using ch b1(3) by (auto simp: charged_def)
  then have "ChannelModel_update ctx v b trigger ch = Inr (ch\<lparr>cm_buckets := (cm_buckets ch)[k :=
      \<lparr>bk_counters = (if n > trigger then quic_halve b cs else cs), bk_best_code = best\<rparr>]\<rparr>)"
    unfolding ChannelModel_update_def k(1) and_then_Inr prod.case sub first loop by (cases "n > trigger") (simp_all add: rec)
  moreover have "bucket_ok b \<lparr>bk_counters = (if n > trigger then quic_halve b cs else cs), bk_best_code = best\<rparr>"
    by (rule updated_bucket_ok [OF k(3) assms(2,4,5) ch])
  ultimately show ?thesis using assms(1) k(2) by (auto simp: channel_ok_def dest!: set_update_subset_insert [THEN subsetD])
qed

section \<open>Pixels, runs and rows are safe\<close>

definition pixels_ok :: "nat \<Rightarrow> quic_pixel list \<Rightarrow> bool" where
  "pixels_ok w ps \<longleftrightarrow> length ps = w \<and> (\<forall>p \<in> set ps. length p = 4)"

definition coding_ok :: "CodingState \<Rightarrow> bool" where
  "coding_ok s \<longleftrightarrow> cs_run_state s < RUN_STATE_COUNT \<and> cs_model_trigger s \<le> 900"

definition row_ok :: "nat \<Rightarrow> nat \<Rightarrow> nat \<Rightarrow> quic_row \<Rightarrow> bool" where
  "row_ok w b n row \<longleftrightarrow> bits_ok (qr_reader row) \<and> coding_ok (qr_state row) \<and> length (qr_channels row) = n \<and>
     (\<forall>ch \<in> set (qr_channels row). channel_ok w b ch) \<and> pixels_ok w (qr_current row)"

definition group_ok :: "nat \<Rightarrow> nat \<Rightarrow> quic_pixel list option \<Rightarrow> nat list \<Rightarrow> bool" where
  "group_ok w b previous components \<longleftrightarrow> bpc_ok b \<and> pred_option (pixels_ok w) previous \<and> (\<forall>c \<in> set components. c < 4)"

lemma pixels_ok_nth: "pixels_ok w ps \<Longrightarrow> i < w \<Longrightarrow> i < length ps \<and> length (ps ! i) = 4"
  by (simp add: pixels_ok_def)

lemma quic_pixel_component_safe: "pixels_ok w ps \<Longrightarrow> i < w \<Longrightarrow> c < 4 \<Longrightarrow> safely (\<lambda>_. True) (quic_pixel_component ps i c)"
  by (auto simp: quic_pixel_component_def dest: pixels_ok_nth)

lemma quic_set_component_safe: "pixels_ok w ps \<Longrightarrow> i < w \<Longrightarrow> c < 4 \<Longrightarrow> safely (pixels_ok w) (quic_set_component ps i c v)"
  using pixels_ok_nth [of w ps i]
  by (auto simp: quic_set_component_def index_set_def pixels_ok_def dest!: set_update_subset_insert [THEN subsetD])

lemma quic_predictor_safe:
  "pred_option (pixels_ok w) previous \<Longrightarrow> pixels_ok w current \<Longrightarrow> i < w \<Longrightarrow> c < 4 \<Longrightarrow>
     safely (\<lambda>_. True) (quic_predictor previous current i c)"
  unfolding quic_predictor_def
  by (auto split: option.split intro!: safely_and_then [OF quic_pixel_component_safe])

lemma quic_unfold_safe: "unat v \<le> m \<Longrightarrow> safely (\<lambda>_. True) (quic_unfold v m)"
proof -
  assume "unat v \<le> m"
  moreover have "unat (drop_bit 1 v) \<le> unat v" by (simp add: drop_bit_eq_div unat_div)
  ultimately have "unat (drop_bit 1 v) \<le> m" by linarith
  then show ?thesis by (simp add: quic_unfold_def usize_sub_def)
qed

lemma quic_channel_context_safe:
  "channel_ok w b ch \<Longrightarrow> i \<le> w \<Longrightarrow> safely (\<lambda>ctx. unat ctx < 2 ^ b) (quic_channel_context ch i)"
  by (auto simp: quic_channel_context_def channel_ok_def intro!: safely_index_at)

lemma channel_ok_residual:
  "channel_ok w b ch \<Longrightarrow> unat v < 2 ^ b \<Longrightarrow> channel_ok w b (ch\<lparr>cm_residuals := (cm_residuals ch)[i := v]\<rparr>)"
  by (auto simp: channel_ok_def dest!: set_update_subset_insert [THEN subsetD])

lemma quic_decode_component_safe:
  assumes "group_ok w b previous components" "c < 4" "channel_ok w b ch" "bits_ok r" "pixels_ok w current" "i < w"
  shows "safely (\<lambda>(ch', r', current'). channel_ok w b ch' \<and> bits_ok r' \<and> pixels_ok w current')
    (quic_decode_component previous i b c ch (r, current))"
proof -
  have bp: "bpc_ok b" "pred_option (pixels_ok w) previous" using assms(1) by (simp_all add: group_ok_def)
  have i: "i \<le> w" "i < length (cm_residuals ch)" using assms(3,6) by (simp_all add: channel_ok_def)
  have set_eq: "index_set (cm_residuals ch) i v = Inr ((cm_residuals ch)[i := v])" for v using i by (simp add: index_set_def)
  have tail: "safely (\<lambda>(ch', r', current'). channel_ok w b ch' \<and> bits_ok r' \<and> pixels_ok w current')
      (and_then (index_set (cm_residuals ch) i v) (\<lambda>residuals.
       and_then (quic_predictor previous current i c) (\<lambda>predictor.
       and_then (quic_unfold v (2 ^ b - 1)) (\<lambda>unfolded.
       and_then (quic_set_component current i c (of_nat ((predictor + unfolded) mod 2 ^ b))) (\<lambda>current.
       Inr (ch\<lparr>cm_residuals := residuals\<rparr>, r', current))))))" if "unat v < 2 ^ b" "bits_ok r'" for v r'
    unfolding set_eq and_then_Inr
    by (rule safely_and_then [OF quic_predictor_safe [OF bp(2) assms(5,6,2)]], rule safely_and_then [OF quic_unfold_safe],
        use that in linarith, rule safely_and_then [OF quic_set_component_safe [OF assms(5,6,2)]])
      (use that assms(3) channel_ok_residual in auto)
  show ?thesis
    unfolding quic_decode_component_def prod.case Let_def
    by (rule safely_and_then [OF quic_channel_context_safe [OF assms(3) i(1)]], rule safely_and_then [OF ChannelModel_best_code_safe [OF assms(3)]],
        assumption, rule safely_and_then [OF decode_golomb_safe [OF bp(1) _ assms(4)]], assumption, rule safely_case_prod, rule tail, simp_all)
qed

lemma quic_decode_pixel_safe:
  assumes "group_ok w b previous components" "i < w"
  shows "set cs \<subseteq> set components \<Longrightarrow> (\<forall>ch \<in> set chs. channel_ok w b ch) \<Longrightarrow> bits_ok r \<Longrightarrow> pixels_ok w current \<Longrightarrow>
    safely (\<lambda>(chs', r', current'). length chs' = length chs \<and> (\<forall>ch \<in> set chs'. channel_ok w b ch) \<and> bits_ok r' \<and> pixels_ok w current')
      (quic_decode_pixel previous i b chs cs (r, current))"
proof (induction chs arbitrary: cs r current)
  case step: (Cons ch chs)
  show ?case
  proof (cases cs)
    case (Cons c cs')
    have "c < 4" using step.prems(1) Cons assms(1) by (auto simp: group_ok_def)
    then have comp: "safely (\<lambda>(ch', r', current'). channel_ok w b ch' \<and> bits_ok r' \<and> pixels_ok w current')
        (quic_decode_component previous i b c ch (r, current))"
      using step.prems assms(2) by (intro quic_decode_component_safe [OF assms(1)]) simp_all
    have rest: "safely (\<lambda>(chs', r', current'). length chs' = length chs \<and> (\<forall>ch \<in> set chs'. channel_ok w b ch) \<and> bits_ok r' \<and> pixels_ok w current')
        (quic_decode_pixel previous i b chs cs' (r', current'))" if "bits_ok r'" "pixels_ok w current'" for r' current'
      using step.prems Cons that by (intro step.IH) auto
    show ?thesis unfolding Cons quic_decode_pixel.simps
      by (rule safely_and_then [OF comp]) (auto intro!: safely_and_then [OF rest])
  qed (use step.prems in simp)
qed simp

lemma update_models_safe:
  assumes "\<forall>ch \<in> set chs. channel_ok w b ch" "bpc_ok b" "i < w" "trigger \<le> 900"
  shows "safely (\<lambda>chs'. length chs' = length chs \<and> (\<forall>ch \<in> set chs'. channel_ok w b ch)) (update_models chs i b trigger)"
  unfolding update_models_def
proof (rule safely_try_map)
  fix ch assume "ch \<in> set chs"
  then have ch: "channel_ok w b ch" using assms(1) by blast
  then have v: "i < length (cm_residuals ch)" "unat (cm_residuals ch ! i) < 2 ^ b" using assms(3) by (simp_all add: channel_ok_def)
  have "i \<le> w" using assms(3) by simp
  then show "safely (channel_ok w b) (quic_update_model i b trigger ch)"
    unfolding quic_update_model_def index_at_in [OF v(1)] and_then_Inr
    by (rule safely_and_then [OF quic_channel_context_safe [OF ch]]) (rule ChannelModel_update_safe [OF ch assms(2) _ v(2) assms(4)])
qed

lemma same_components_safe:
  "length l = 4 \<Longrightarrow> length r = 4 \<Longrightarrow> \<forall>c \<in> set cs. c < 4 \<Longrightarrow> safely (\<lambda>_. True) (same_components l r cs)"
  by (induction cs) simp_all

lemma should_decode_run_safe:
  assumes "group_ok w b previous components" "pixels_ok w current" "i < w"
  shows "safely (\<lambda>go. go \<longrightarrow> 2 < i) (should_decode_run previous current components i run)"
proof (cases previous)
  case (Some upper)
  then have up: "pixels_ok w upper" and cs: "\<forall>c \<in> set components. c < 4" using assms(1) by (simp_all add: group_ok_def)
  have at: "index_at ps j = Inr (ps ! j)" "length (ps ! j) = 4" if "pixels_ok w ps" "j \<le> i" for ps j
    using that assms(3) by (simp_all add: pixels_ok_def)
  show ?thesis
    unfolding should_decode_run_def Some option.case
    using at [OF up, of i] at [OF up, of "i - 1"] at [OF assms(2), of "i - 1"] at [OF assms(2), of "i - 2"] cs
    by (auto intro!: safely_and_then [OF same_components_safe] safely_weaken [OF same_components_safe])
qed (simp add: should_decode_run_def)

lemma run_bits: "k < RUN_STATE_COUNT \<Longrightarrow> k < length RUN_LENGTH_BITS \<and> RUN_LENGTH_BITS ! k \<le> 31"
proof -
  assume "k < RUN_STATE_COUNT"
  moreover have "length RUN_LENGTH_BITS = 32" "\<forall>x \<in> set RUN_LENGTH_BITS. x \<le> 31" by (simp_all add: RUN_LENGTH_BITS_def)
  ultimately show ?thesis by (metis RUN_STATE_COUNT_def nth_mem)
qed

lemma read_safe: "bits_ok r \<Longrightarrow> n \<le> 31 \<Longrightarrow> safely (\<lambda>(v, r'). bits_ok r') (BitReader_read_bits n r)"
  by (rule safely_weaken [OF BitReader_read_bits_safe]) (auto simp: bits_ok_def)

lemma quic_run_add_safe: "safely (\<lambda>n. n \<le> m) (quic_run_add m ctx len k)"
  unfolding quic_run_add_def by (rule safely_ok_or) (auto split: option.splits if_splits)

lemma quic_run_turn_safe:
  assumes "coding_ok s"
  shows "safely (\<lambda>(len', s'). coding_ok s' \<and> cs_wait_count s' = cs_wait_count s) (quic_run_turn m len s)"
proof -
  have "index_at RUN_LENGTH_BITS (cs_run_state s) = Inr (RUN_LENGTH_BITS ! cs_run_state s)"
    using assms run_bits by (simp add: coding_ok_def)
  then show ?thesis unfolding quic_run_turn_def using assms
    by (auto simp: coding_ok_def intro!: safely_and_then [OF quic_run_add_safe])
qed

lemma quic_run_loop_safe:
  "coding_ok s \<Longrightarrow> bits_ok r \<Longrightarrow>
     safely (\<lambda>(len', s', r'). coding_ok s' \<and> cs_wait_count s' = cs_wait_count s \<and> bits_ok r') (quic_run_loop m len s r)"
proof (induction m len s r rule: quic_run_loop.induct)
  case (1 m len s r)
  have bit: "safely (\<lambda>(v, r'). bits_ok r') (BitReader_read_bit r)" unfolding BitReader_read_bit_def by (rule read_safe [OF "1.prems"(2)]) simp
  have turn: "safely (\<lambda>(len', s', r'). coding_ok s' \<and> cs_wait_count s' = cs_wait_count s \<and> bits_ok r')
      (and_then (quic_run_turn m len s) (\<lambda>(len, s). quic_run_loop m len s r1))"
    if "BitReader_read_bit r = Inr (1, r1)" "bits_ok r1" for r1
  proof (rule safely_and_then [OF quic_run_turn_safe [OF "1.prems"(1)]])
    fix x assume x: "quic_run_turn m len s = Inr x" "case x of (len', s') \<Rightarrow> coding_ok s' \<and> cs_wait_count s' = cs_wait_count s"
    obtain len' s' where e: "x = (len', s')" by (cases x)
    from "1.IH" [OF that(1) refl refl x(1) e [symmetric]] x(2) that(2)
    show "safely (\<lambda>(len', s', r'). coding_ok s' \<and> cs_wait_count s' = cs_wait_count s \<and> bits_ok r')
        (case x of (len, s) \<Rightarrow> quic_run_loop m len s r1)" by (simp add: e)
  qed
  show ?case unfolding quic_run_loop.simps [of m len s r]
  proof (rule safely_and_then [OF bit], rule safely_case_prod)
    fix x v r1 assume x: "BitReader_read_bit r = Inr x" "case x of (v, r') \<Rightarrow> bits_ok r'" "x = (v, r1)"
    then show "safely (\<lambda>(len', s', r'). coding_ok s' \<and> cs_wait_count s' = cs_wait_count s \<and> bits_ok r')
        (if v = 1 then and_then (quic_run_turn m len s) (\<lambda>(len, s). quic_run_loop m len s r1) else Inr (len, s, r1))"
      using turn [of r1] "1.prems"(1) by simp
  qed
qed

lemma decode_run_safe:
  assumes "coding_ok s" "bits_ok r"
  shows "safely (\<lambda>(n, s', r'). n \<le> m \<and> coding_ok s' \<and> cs_wait_count s' = cs_wait_count s \<and> bits_ok r') (decode_run m s r)"
proof -
  have "safely (\<lambda>(n, s', r'). coding_ok s' \<and> cs_wait_count s' = cs_wait_count s \<and> bits_ok r') (decode_run m s r)"
    unfolding decode_run_def
  proof (rule safely_and_then [OF quic_run_loop_safe [OF assms]])
    fix x :: "nat \<times> CodingState \<times> BitReader" assume x: "case x of (len', s', r') \<Rightarrow> coding_ok s' \<and> cs_wait_count s' = cs_wait_count s \<and> bits_ok r'"
    obtain len s' r' where e: "x = (len, s', r')" by (cases x)
    with x have ok: "coding_ok s'" "cs_wait_count s' = cs_wait_count s" "bits_ok r'" by simp_all
    let ?k = "RUN_LENGTH_BITS ! cs_run_state s'"
    have k: "index_at RUN_LENGTH_BITS (cs_run_state s') = (Inr ?k :: nat quic)" "?k \<le> 31" using run_bits ok(1) by (simp_all add: coding_ok_def)
    have rest: "safely (\<lambda>(len, r). bits_ok r)
        (if ?k \<noteq> 0 then and_then (BitReader_read_bits ?k r') (\<lambda>(v, r).
           and_then (quic_run_add m STR ''run remainder'' len (unat v)) (\<lambda>len. Inr (len, r))) else Inr (len, r'))"
      using ok(3) k(2) by (auto intro!: safely_and_then [OF read_safe] safely_and_then [OF quic_run_add_safe])
    show "safely (\<lambda>(n, s', r'). coding_ok s' \<and> cs_wait_count s' = cs_wait_count s \<and> bits_ok r')
        (case x of (len, s, r) \<Rightarrow>
         and_then (index_at RUN_LENGTH_BITS (cs_run_state s)) (\<lambda>remainder_bits.
         and_then (if remainder_bits \<noteq> 0 then and_then (BitReader_read_bits remainder_bits r) (\<lambda>(v, r).
             and_then (quic_run_add m STR ''run remainder'' len (unat v)) (\<lambda>len. Inr (len, r))) else Inr (len, r)) (\<lambda>(len, r).
         Inr (len, s\<lparr>cs_run_state := cs_run_state s - 1\<rparr>, r))))"
      unfolding e prod.case k(1) and_then_Inr by (rule safely_and_then [OF rest]) (use ok in \<open>auto simp: coding_ok_def\<close>)
  qed
  then show ?thesis using decode_run_bound [of m s r] by (cases "decode_run m s r") (auto simp: safely_def)
qed

lemma quic_copy_components_safe:
  "length source = 4 \<Longrightarrow> length p = 4 \<Longrightarrow> \<forall>c \<in> set cs. c < 4 \<Longrightarrow> safely (\<lambda>q. length q = 4) (quic_copy_components source cs p)"
  unfolding quic_copy_components_def by (rule safely_for_each) (simp_all add: index_set_def)

lemma quic_copy_run_safe:
  assumes "pixels_ok w current" "0 < i" "i + n \<le> w" "\<forall>c \<in> set cs. c < 4"
  shows "safely (pixels_ok w) (quic_copy_run cs i n current)"
proof -
  have src: "index_at current (i - 1) = Inr (current ! (i - 1))" "length (current ! (i - 1)) = 4"
    using assms(1-3) by (simp_all add: pixels_ok_def)
  have sl: "slice_index current i (i + n) = Inr (take n (drop i current))" using assms(1,3) by (simp add: pixels_ok_def)
  have "length p = 4" if "p \<in> set (take n (drop i current))" for p
    using that assms(1) by (meson in_set_dropD in_set_takeD pixels_ok_def)
  then have "safely (\<lambda>ys. length ys = length (take n (drop i current)) \<and> (\<forall>y \<in> set ys. length y = 4))
      (try_map (quic_copy_components (current ! (i - 1)) cs) (take n (drop i current)))"
    using src(2) assms(4) by (intro safely_try_map quic_copy_components_safe) auto
  then show ?thesis unfolding quic_copy_run_def src(1) sl and_then_Inr
    by (rule safely_and_then) (use assms(1,3) in \<open>auto simp: pixels_ok_def dest: in_set_takeD in_set_dropD\<close>)
qed

fun pixels_row :: "pixels_result \<Rightarrow> quic_row" where
  "pixels_row (PixReturn row) = row"
| "pixels_row (PixRan row i run stop) = row"
| "pixels_row (PixEnd row i) = row"

fun segment_row :: "segment_result \<Rightarrow> quic_row" where
  "segment_row (SegReturn row) = row"
| "segment_row (SegNext row i run stop) = row"

lemma quic_row_pixel_safe:
  assumes "group_ok w b previous components" "row_ok w b n row" "i < w"
  shows "safely (row_ok w b n) (quic_row_pixel previous components b i row)"
proof -
  have "safely (\<lambda>(chs', r', current'). length chs' = length (qr_channels row) \<and> (\<forall>ch \<in> set chs'. channel_ok w b ch) \<and> bits_ok r' \<and> pixels_ok w current')
      (quic_decode_pixel previous i b (qr_channels row) components (qr_reader row, qr_current row))"
    using assms(2) by (intro quic_decode_pixel_safe [OF assms(1,3)]) (simp_all add: row_ok_def)
  then show ?thesis
    unfolding quic_row_pixel_def by (rule safely_and_then) (use assms(2) in \<open>auto simp: row_ok_def\<close>)
qed

lemma quic_row_run_safe:
  assumes "group_ok w b previous components" "row_ok w b n row" "0 < i" "i \<le> stop" "i < e" "e \<le> w"
  shows "safely (\<lambda>res. row_ok w b n (pixels_row res)) (quic_row_run components e i stop row)"
proof -
  have ok: "coding_ok ((qr_state row)\<lparr>cs_wait_count := stop - i\<rparr>)" "bits_ok (qr_reader row)" "pixels_ok w (qr_current row)"
    using assms(2) by (simp_all add: row_ok_def coding_ok_def)
  have cs: "\<forall>c \<in> set components. c < 4" using assms(1) by (simp add: group_ok_def)
  have sub: "usize_sub stop i = (Inr (stop - i) :: nat quic)" using assms(4) by (simp add: usize_sub_def)
  show ?thesis unfolding quic_row_run_def sub and_then_Inr
  proof (rule safely_and_then [OF decode_run_safe [OF ok(1,2), of "e - i"]])
    fix x :: "nat \<times> CodingState \<times> BitReader"
    assume x: "case x of (k, s', r') \<Rightarrow> k \<le> e - i \<and> coding_ok s' \<and> cs_wait_count s' = cs_wait_count ((qr_state row)\<lparr>cs_wait_count := stop - i\<rparr>) \<and> bits_ok r'"
    obtain k s r where e: "x = (k, s, r)" by (cases x)
    with x assms(5,6) have k: "i + k \<le> w" "coding_ok s" "bits_ok r" by auto
    have "safely (pixels_ok w) (quic_copy_run components i k (qr_current row))" by (rule quic_copy_run_safe [OF ok(3) assms(3) k(1) cs])
    then show "safely (\<lambda>res. row_ok w b n (pixels_row res))
        (case x of (run_length, s, r) \<Rightarrow> and_then (quic_copy_run components i run_length (qr_current row)) (\<lambda>current.
          let row = row\<lparr>qr_reader := r, qr_state := s, qr_current := current\<rparr> in
          Inr (if i + run_length = e then PixReturn row else PixRan row (i + run_length) i (i + run_length + cs_wait_count s))))"
      unfolding e prod.case by (rule safely_and_then) (use assms(2) k in \<open>auto simp: row_ok_def Let_def\<close>)
  qed
qed

lemma quic_pixels_loop_safe:
  assumes "group_ok w b previous components" "e \<le> w" "d \<le> e" "d \<le> stop + 1"
  shows "row_ok w b n row \<Longrightarrow> safely (\<lambda>res. row_ok w b n (pixels_row res)) (quic_pixels_loop previous components b e d run stop i row)"
proof (induction "d - i" arbitrary: i row)
  case 0
  then show ?case by (simp add: quic_pixels_loop.simps [of previous components b e d run stop i row])
next
  case (Suc k)
  then have i: "i < d" "k = d - (i + 1)" by linarith+
  then have "i < w" "i < e" "i \<le> stop" using assms(2-4) by linarith+
  have cur: "pixels_ok w (qr_current row)" using Suc.prems by (simp add: row_ok_def)
  have run: "safely (\<lambda>res. row_ok w b n (pixels_row res)) (quic_row_run components e i stop row)" if "2 < i"
    using that \<open>i < e\<close> \<open>i \<le> stop\<close> assms(2) by (intro quic_row_run_safe [OF assms(1) Suc.prems]) simp_all
  have next_pixel: "safely (\<lambda>res. row_ok w b n (pixels_row res)) (and_then (quic_row_pixel previous components b i row)
      (quic_pixels_loop previous components b e d run stop (i + 1)))"
    by (rule safely_and_then [OF quic_row_pixel_safe [OF assms(1) Suc.prems \<open>i < w\<close>]]) (rule Suc.hyps(1) [OF i(2)])
  show ?case
    unfolding quic_pixels_loop.simps [of previous components b e d run stop i row]
    using i(1) run next_pixel by (auto intro!: safely_and_then [OF should_decode_run_safe [OF assms(1) cur \<open>i < w\<close>]])
qed

lemma quic_segment_turn_safe:
  assumes "group_ok w b previous components" "e \<le> w" "row_ok w b n row" "i \<le> stop"
  shows "safely (\<lambda>res. row_ok w b n (segment_row res) \<and> (\<forall>row' i' run' stop'. res = SegNext row' i' run' stop' \<longrightarrow> i' \<le> stop'))
    (quic_segment_turn previous components b e wb run stop i row)"
proof -
  let ?d = "min e (stop + 1)"
  have bp: "bpc_ok b" using assms(1) by (simp add: group_ok_def)
  have loop: "safely (\<lambda>res. row_ok w b n (pixels_row res)) (quic_pixels_loop previous components b e ?d run stop i row)"
    by (rule quic_pixels_loop_safe [OF assms(1,2) _ _ assms(3)]) simp_all
  show ?thesis unfolding quic_segment_turn_def Let_def
  proof (rule safely_and_then [OF loop])
    fix res assume res: "quic_pixels_loop previous components b e ?d run stop i row = Inr res" "row_ok w b n (pixels_row res)"
    show "safely (\<lambda>res. row_ok w b n (segment_row res) \<and> (\<forall>row' i' run' stop'. res = SegNext row' i' run' stop' \<longrightarrow> i' \<le> stop'))
        (case res of PixReturn row \<Rightarrow> Inr (SegReturn row) | PixRan row i run_index stop_index \<Rightarrow> Inr (SegNext row i run_index stop_index)
         | PixEnd row i \<Rightarrow>
            if stop < e then and_then (update_models (qr_channels row) stop b (cs_model_trigger (qr_state row))) (\<lambda>chs.
              case CodingState_next_wait (qr_state row) of (w, s) \<Rightarrow>
              Inr (SegNext (row\<lparr>qr_channels := chs, qr_state := s\<rparr>) i run (i + w mod 2 ^ wb)))
            else and_then (usize_sub stop e) (\<lambda>w. Inr (SegReturn (row\<lparr>qr_state := (qr_state row)\<lparr>cs_wait_count := w\<rparr>\<rparr>))))"
    proof (cases res)
      case (PixRan row1 i1 run1 stop1)
      with quic_pixels_loop_progress [OF res(1)] res(2) show ?thesis by simp
    next
      case (PixEnd row1 i1)
      then have ok: "row_ok w b n row1" using res(2) by simp
      have "safely (\<lambda>chs'. length chs' = length (qr_channels row1) \<and> (\<forall>ch \<in> set chs'. channel_ok w b ch))
          (update_models (qr_channels row1) stop b (cs_model_trigger (qr_state row1)))" if "stop < e"
        using ok that assms(2) by (intro update_models_safe bp) (simp_all add: row_ok_def coding_ok_def)
      then show ?thesis unfolding PixEnd pixels_result.case
        using ok by (auto simp: row_ok_def coding_ok_def CodingState_next_wait_def Let_def usize_sub_def not_less intro!: safely_and_then)
    qed (use res(2) in simp)
  qed
qed

lemma quic_segment_loop_safe:
  assumes "group_ok w b previous components" "e \<le> w"
  shows "row_ok w b n row \<Longrightarrow> i \<le> stop \<Longrightarrow> safely (row_ok w b n) (quic_segment_loop previous components b e wb run stop i row)"
proof (induction "(e - i, segment_rank run stop i)" arbitrary: run stop i row rule: wf_induct_rule [OF wf_lex_prod [OF wf_less_than wf_less_than]])
  case 1
  show ?case
    unfolding quic_segment_loop.simps [of previous components b e wb run stop i row]
  proof (rule safely_and_then [OF quic_segment_turn_safe [OF assms "1.prems"]])
    fix res assume res: "quic_segment_turn previous components b e wb run stop i row = Inr res"
      "row_ok w b n (segment_row res) \<and> (\<forall>row' i' run' stop'. res = SegNext row' i' run' stop' \<longrightarrow> i' \<le> stop')"
    show "safely (row_ok w b n) (case res of SegReturn row \<Rightarrow> Inr row
        | SegNext row i run stop \<Rightarrow> quic_segment_loop previous components b e wb run stop i row)"
    proof (cases res)
      case (SegNext row' i' run' stop')
      then have "((e - i', segment_rank run' stop' i'), e - i, segment_rank run stop i) \<in> less_than <*lex*> less_than"
        using quic_segment_turn_progress [of previous components b e wb run stop i row row' i' run' stop'] res(1) by auto
      with "1.hyps" [of i' run' stop' row'] res(2) SegNext show ?thesis by simp
    qed (use res(2) in simp)
  qed
qed

lemma decode_row_segment_safe:
  assumes "group_ok w b previous components" "e \<le> w" "row_ok w b n row" "i < w"
  shows "safely (\<lambda>row'. row_ok w b n row' \<and> same_schedule (qr_state row) (qr_state row')) (decode_row_segment previous components b i e row)"
proof -
  have bp: "bpc_ok b" using assms(1) by (simp add: group_ok_def)
  have pixel: "safely (row_ok w b n) (quic_row_pixel previous components b i row)" by (rule quic_row_pixel_safe [OF assms(1,3,4)])
  have update: "safely (\<lambda>chs'. length chs' = length (qr_channels row1) \<and> (\<forall>ch \<in> set chs'. channel_ok w b ch))
      (update_models (qr_channels row1) i b trigger)" if "row_ok w b n row1" "trigger \<le> 900" for row1 trigger
    using that assms(4) by (intro update_models_safe bp) (simp_all add: row_ok_def)
  have wait: "safely (\<lambda>(row', j). row_ok w b n row')
      (if cs_wait_count (qr_state row1) \<noteq> 0
       then Inr (row1\<lparr>qr_state := (qr_state row1)\<lparr>cs_wait_count := cs_wait_count (qr_state row1) - 1\<rparr>\<rparr>, i + 1)
       else case CodingState_next_wait (qr_state row1) of (w, s) \<Rightarrow>
         and_then (update_models (qr_channels row1) i b (cs_model_trigger s)) (\<lambda>chs.
         Inr (row1\<lparr>qr_channels := chs, qr_state := s\<lparr>cs_wait_count := w mod 2 ^ wb\<rparr>\<rparr>, i + 1)))"
    if "row_ok w b n row1" for row1 wb
  proof -
    obtain k s where e: "CodingState_next_wait (qr_state row1) = (k, s)" by (cases "CodingState_next_wait (qr_state row1)")
    then have s: "CodingState_next_wait (qr_state row1) = (k, s)" "coding_ok s"
      using that by (auto simp: CodingState_next_wait_def Let_def row_ok_def coding_ok_def)
    then have u: "safely (\<lambda>chs'. length chs' = length (qr_channels row1) \<and> (\<forall>ch \<in> set chs'. channel_ok w b ch))
        (update_models (qr_channels row1) i b (cs_model_trigger s))" by (intro update [OF that]) (simp add: coding_ok_def)
    have "safely (\<lambda>(row', j). row_ok w b n row') (and_then (update_models (qr_channels row1) i b (cs_model_trigger s)) (\<lambda>chs.
         Inr (row1\<lparr>qr_channels := chs, qr_state := s\<lparr>cs_wait_count := k mod 2 ^ wb\<rparr>\<rparr>, i + 1)))"
      by (rule safely_and_then [OF u]) (use that s(2) in \<open>auto simp: row_ok_def coding_ok_def\<close>)
    then show ?thesis using that unfolding s(1) prod.case by (auto simp: row_ok_def coding_ok_def)
  qed
  have "safely (\<lambda>(row', j). row_ok w b n row')
      (if i = 0 then
         and_then (quic_row_pixel previous components b i row) (\<lambda>row.
         if cs_wait_count (qr_state row) \<noteq> 0
         then Inr (row\<lparr>qr_state := (qr_state row)\<lparr>cs_wait_count := cs_wait_count (qr_state row) - 1\<rparr>\<rparr>, i + 1)
         else case CodingState_next_wait (qr_state row) of (w, s) \<Rightarrow>
           and_then (update_models (qr_channels row) i b (cs_model_trigger s)) (\<lambda>chs.
           Inr (row\<lparr>qr_channels := chs, qr_state := s\<lparr>cs_wait_count := w mod 2 ^ wb\<rparr>\<rparr>, i + 1)))
       else Inr (row, i))" for wb
  proof (cases "i = 0")
    case True
    show ?thesis unfolding if_P [OF True] by (rule safely_and_then [OF pixel]) (rule wait)
  qed (simp add: assms(3))
  then have "safely (row_ok w b n) (decode_row_segment previous components b i e row)"
    unfolding decode_row_segment_def Let_def
    by (rule safely_and_then) (auto intro!: quic_segment_loop_safe [OF assms(1,2)])
  then show ?thesis using decode_row_segment_schedule [of previous components b i e row]
    by (cases "decode_row_segment previous components b i e row") (simp_all add: safely_def)
qed

lemma trigger_bound: "EVOLUTION_THREE_TRIGGERS ! (min k 10) \<le> 900"
proof -
  have "length EVOLUTION_THREE_TRIGGERS = 11" "\<forall>x \<in> set EVOLUTION_THREE_TRIGGERS. x \<le> 900" by (simp_all add: EVOLUTION_THREE_TRIGGERS_def)
  moreover have "min k 10 < 11" by linarith
  ultimately show ?thesis by (metis nth_mem)
qed

lemma coding_ok_trigger: "cs_run_state s < RUN_STATE_COUNT \<Longrightarrow> coding_ok (CodingState_update_model_trigger s)"
  by (simp add: coding_ok_def CodingState_update_model_trigger_def trigger_bound)

lemma coding_ok_increase: "coding_ok s \<Longrightarrow> coding_ok (CodingState_increase_code_index s)"
  unfolding CodingState_increase_code_index_def by (rule coding_ok_trigger) (simp add: coding_ok_def)

lemma coding_ok_new: "coding_ok CodingState_new"
  unfolding CodingState_new_def by (rule coding_ok_trigger) simp

lemma quic_row_turn_safe:
  assumes "group_ok w b previous components" "row_ok w b n row" "i + remaining = w" "cs_pixels_until_code_index (qr_state row) \<le> remaining"
  shows "safely (\<lambda>(row', i', remaining'). row_ok w b n row' \<and> i' + remaining' = w) (quic_row_turn previous components b i remaining row)"
proof -
  let ?p = "cs_pixels_until_code_index (qr_state row)"
  have "safely (\<lambda>(row', i', remaining'). row_ok w b n row' \<and> i' + remaining' = w)
      (if ?p \<noteq> 0 then
         let segment_end = i + ?p in
         and_then (decode_row_segment previous components b i segment_end row) (\<lambda>row.
         and_then (usize_sub remaining (cs_pixels_until_code_index (qr_state row))) (\<lambda>remaining. Inr (row, segment_end, remaining)))
       else Inr (row, i, remaining))"
  proof (cases "?p = 0")
    case False
    then have "i + ?p \<le> w" "i < w" using assms(3,4) by linarith+
    note seg = decode_row_segment_safe [OF assms(1) this(1) assms(2) this(2)]
    show ?thesis using False assms(3,4)
      by (auto simp: Let_def same_schedule_def usize_sub_def intro!: safely_and_then [OF seg])
  qed (use assms in simp)
  then show ?thesis unfolding quic_row_turn_def
    by (rule safely_and_then) (auto simp: row_ok_def coding_ok_increase)
qed

lemma quic_row_loop_safe:
  assumes "group_ok w b previous components"
  shows "row_ok w b n row \<Longrightarrow> i + remaining = w \<Longrightarrow>
    safely (\<lambda>(row', i', remaining'). row_ok w b n row' \<and> i' + remaining' = w \<and>
      (cs_code_index (qr_state row') < MAX_CODE_INDEX \<longrightarrow> remaining' < cs_pixels_until_code_index (qr_state row')))
      (quic_row_loop previous components b i remaining row)"
proof (induction "MAX_CODE_INDEX - cs_code_index (qr_state row)" arbitrary: row i remaining rule: less_induct)
  case less
  show ?case
  proof (cases "cs_code_index (qr_state row) < MAX_CODE_INDEX \<and> cs_pixels_until_code_index (qr_state row) \<le> remaining")
    case True
    have "safely (\<lambda>(row', i', remaining'). row_ok w b n row' \<and> i' + remaining' = w \<and>
        (cs_code_index (qr_state row') < MAX_CODE_INDEX \<longrightarrow> remaining' < cs_pixels_until_code_index (qr_state row')))
        (and_then (quic_row_turn previous components b i remaining row) (\<lambda>(row, i, remaining). quic_row_loop previous components b i remaining row))"
    proof (rule safely_and_then [OF quic_row_turn_safe [OF assms less.prems]])
      show "cs_pixels_until_code_index (qr_state row) \<le> remaining" using True by simp
      fix x assume x: "quic_row_turn previous components b i remaining row = Inr x"
        "case x of (row', i', remaining') \<Rightarrow> row_ok w b n row' \<and> i' + remaining' = w"
      obtain row1 i1 n1 where e: "x = (row1, i1, n1)" by (cases x)
      have "MAX_CODE_INDEX - cs_code_index (qr_state row1) < MAX_CODE_INDEX - cs_code_index (qr_state row)"
        using quic_row_turn_index x(1) e True by fastforce
      from less.hyps [OF this, of i1 n1] x(2)
      show "safely (\<lambda>(row', i', remaining'). row_ok w b n row' \<and> i' + remaining' = w \<and>
          (cs_code_index (qr_state row') < MAX_CODE_INDEX \<longrightarrow> remaining' < cs_pixels_until_code_index (qr_state row')))
          (case x of (row, i, remaining) \<Rightarrow> quic_row_loop previous components b i remaining row)" by (simp add: e)
    qed
    then show ?thesis using True by (simp only: quic_row_loop.simps [of previous components b i remaining row] if_True simp_thms)
  next
    case False
    then show ?thesis using less.prems by (auto simp: quic_row_loop.simps [of previous components b i remaining row])
  qed
qed

lemma decode_row_safe:
  assumes "group_ok w b previous components" "row_ok w b n row"
  shows "safely (row_ok w b n) (decode_row previous components b row)"
proof -
  have len: "0 + length (qr_current row) = w" using assms(2) by (simp add: row_ok_def pixels_ok_def)
  show ?thesis unfolding decode_row_def
  proof (rule safely_and_then [OF quic_row_loop_safe [OF assms len]])
    fix x :: "quic_row \<times> nat \<times> nat"
    assume x: "case x of (row', i', remaining') \<Rightarrow> row_ok w b n row' \<and> i' + remaining' = w \<and>
      (cs_code_index (qr_state row') < MAX_CODE_INDEX \<longrightarrow> remaining' < cs_pixels_until_code_index (qr_state row'))"
    obtain row1 i m where e: "x = (row1, i, m)" by (cases x)
    with x have ok: "row_ok w b n row1" "i + m = w" "cs_code_index (qr_state row1) < MAX_CODE_INDEX \<longrightarrow> m < cs_pixels_until_code_index (qr_state row1)"
      by simp_all
    have seg: "safely (\<lambda>row'. row_ok w b n row' \<and> same_schedule (qr_state row1) (qr_state row')) (decode_row_segment previous components b i (i + m) row1)"
      if "m \<noteq> 0" using that ok(2) by (intro decode_row_segment_safe [OF assms(1) _ ok(1)]) simp_all
    show "safely (row_ok w b n) (case x of (row, i, remaining) \<Rightarrow>
        if remaining \<noteq> 0 then
          and_then (decode_row_segment previous components b i (i + remaining) row) (\<lambda>row.
          if cs_code_index (qr_state row) < MAX_CODE_INDEX then
            and_then (usize_sub (cs_pixels_until_code_index (qr_state row)) remaining) (\<lambda>n.
            Inr (row\<lparr>qr_state := (qr_state row)\<lparr>cs_pixels_until_code_index := n\<rparr>\<rparr>))
          else Inr row)
        else Inr row)"
      unfolding e prod.case using ok
      by (auto simp: same_schedule_def usize_sub_def row_ok_def coding_ok_def intro!: safely_and_then [OF seg])
  qed
qed

section \<open>The decoder is safe\<close>

definition image_rows_ok :: "nat \<Rightarrow> nat \<Rightarrow> nat \<Rightarrow> nat \<Rightarrow> quic_run \<Rightarrow> bool" where
  "image_rows_ok w h b n u \<longleftrightarrow> bits_ok (qu_reader u) \<and> coding_ok (qu_rgb_state u) \<and> coding_ok (qu_alpha_state u) \<and>
     length (qu_channels u) = n \<and> (\<forall>ch \<in> set (qu_channels u). channel_ok w b ch) \<and> pixels_ok (h * w) (qu_pixels u)"

lemma quic_poll_safe: "safely (\<lambda>_. True) (quic_poll c p)"
  by (simp add: quic_poll_def)

lemma start_next_row_safe: "0 < w \<Longrightarrow> channel_ok w b ch \<Longrightarrow> safely (channel_ok w b) (ChannelModel_start_next_row ch)"
  by (auto simp: ChannelModel_start_next_row_def channel_ok_def intro!: safely_and_then [OF safely_index_at])

lemma row_slice:
  assumes "row < h" "pixels_ok (h * w) ps"
  shows "slice_index ps (row * w) (row * w + w) = Inr (take w (drop (row * w) ps))" "pixels_ok w (take w (drop (row * w) ps))"
    "pixels_ok w cur \<Longrightarrow> pixels_ok (h * w) (take (row * w) ps @ cur @ drop (row * w + w) ps)"
proof -
  have "(row + 1) * w \<le> h * w" using assms(1) by (intro mult_le_mono1) simp
  then have le: "row * w + w \<le> length ps" using assms(2) by (simp add: pixels_ok_def add.commute)
  then show "slice_index ps (row * w) (row * w + w) = Inr (take w (drop (row * w) ps))" by simp
  show "pixels_ok w (take w (drop (row * w) ps))" "pixels_ok w cur \<Longrightarrow> pixels_ok (h * w) (take (row * w) ps @ cur @ drop (row * w + w) ps)"
    using assms(2) le by (auto simp: pixels_ok_def dest: in_set_takeD in_set_dropD)
qed

lemma quic_above_safe:
  assumes "row < h" "pixels_ok (h * w) ps"
  shows "safely (pred_option (pixels_ok w))
    (if row > 0 then and_then (usize_sub (row * w) w) (\<lambda>a. and_then (slice_index ps a (row * w)) (\<lambda>upper. Inr (Some upper))) else Inr None)"
proof (cases row)
  case (Suc k)
  then have "k < h" using assms(1) by simp
  from row_slice(1,2) [OF this assms(2)] show ?thesis by (simp add: Suc usize_sub_def add.commute)
qed simp

lemma quic_alpha_safe:
  assumes "group_ok w 8 previous [3]" "bits_ok r" "coding_ok s" "\<forall>ch \<in> set channels. channel_ok w 8 ch" "length channels = 4" "pixels_ok w current"
  shows "safely (\<lambda>(r', s', chs', current'). bits_ok r' \<and> coding_ok s' \<and> length chs' = 1 \<and> (\<forall>ch \<in> set chs'. channel_ok w 8 ch) \<and> pixels_ok w current')
    (and_then (slice_index channels 3 4) (\<lambda>alpha.
     and_then (decode_row previous [3] 8 \<lparr>qr_reader = r, qr_state = s, qr_channels = alpha, qr_current = current\<rparr>) (\<lambda>a.
     Inr (qr_reader a, qr_state a, qr_channels a, qr_current a))))"
proof -
  have sl: "slice_index channels 3 4 = Inr (take 1 (drop 3 channels))" using assms(5) by simp
  have "row_ok w 8 1 \<lparr>qr_reader = r, qr_state = s, qr_channels = take 1 (drop 3 channels), qr_current = current\<rparr>"
    using assms by (auto simp: row_ok_def dest: in_set_takeD in_set_dropD)
  from decode_row_safe [OF assms(1) this] show ?thesis
    unfolding sl and_then_Inr by (rule safely_and_then) (auto simp: row_ok_def)
qed

lemma quic_image_row_safe:
  assumes "image_rows_ok w h b n u" "row < h" "0 < w" "bpc_ok b" "n = (if t = QuicImageType_Rgba then 4 else 3)"
    "t = QuicImageType_Rgba \<Longrightarrow> b = 8"
  shows "safely (image_rows_ok w h b n) (quic_image_row c t w b row u)"
proof -
  have u: "bits_ok (qu_reader u)" "coding_ok (qu_rgb_state u)" "coding_ok (qu_alpha_state u)" "length (qu_channels u) = n"
    "\<forall>ch \<in> set (qu_channels u). channel_ok w b ch" "pixels_ok (h * w) (qu_pixels u)"
    using assms(1) by (simp_all add: image_rows_ok_def)
  have poll: "safely (\<lambda>_. True) (if row mod ((CANCELLATION_INTERVAL_PIXELS + w - 1) div w) = 0
      then quic_poll c (qu_polls u) else Inr (qu_polls u))" using quic_poll_safe by simp
  have start: "safely (\<lambda>chs. length chs = n \<and> (\<forall>ch \<in> set chs. channel_ok w b ch))
      (if row > 0 then try_map ChannelModel_start_next_row (qu_channels u) else Inr (qu_channels u))"
    using u(4,5) safely_try_map [of "qu_channels u" "channel_ok w b" ChannelModel_start_next_row] start_next_row_safe [OF assms(3)] by simp
  note cur = row_slice [OF assms(2) u(6)] and prev = quic_above_safe [OF assms(2) u(6)]
  show ?thesis
    unfolding quic_image_row_def Let_def cur(1) and_then_Inr
  proof (rule safely_and_then [OF poll], rule safely_and_then [OF start], rule safely_and_then [OF prev])
    fix polls channels previous
    assume ch: "length channels = n \<and> (\<forall>ch \<in> set channels. channel_ok w b ch)" and pr: "pred_option (pixels_ok w) previous"
    have n: "3 \<le> n" using assms(5) by simp
    have g: "group_ok w b previous [0, 1, 2]" "b = 8 \<Longrightarrow> group_ok w 8 previous [3]" using pr assms(4) by (simp_all add: group_ok_def)
    have sl: "slice_index channels 0 3 = Inr (take 3 channels)" using ch n by simp
    have "row_ok w b 3 \<lparr>qr_reader = qu_reader u, qr_state = qu_rgb_state u, qr_channels = take 3 channels,
        qr_current = take w (drop (row * w) (qu_pixels u))\<rparr>"
      using u cur(2) ch n by (auto simp: row_ok_def dest: in_set_takeD)
    note rgb = decode_row_safe [OF g(1) this]
    show "safely (image_rows_ok w h b n) (and_then (slice_index channels 0 3) (\<lambda>colour.
      and_then (decode_row previous [0, 1, 2] b
        \<lparr>qr_reader = qu_reader u, qr_state = qu_rgb_state u, qr_channels = colour, qr_current = take w (drop (row * w) (qu_pixels u))\<rparr>) (\<lambda>rgb.
      and_then
       (if t = QuicImageType_Rgba then
          and_then (slice_index channels 3 4) (\<lambda>alpha.
          and_then (decode_row previous [3] 8
            \<lparr>qr_reader = qr_reader rgb, qr_state = qu_alpha_state u, qr_channels = alpha, qr_current = qr_current rgb\<rparr>) (\<lambda>a.
          Inr (qr_reader a, qr_state a, qr_channels a, qr_current a)))
        else Inr (qr_reader rgb, qu_alpha_state u, drop 3 channels, qr_current rgb)) (\<lambda>(r, alpha_state, alpha, current).
      Inr \<lparr>qu_reader = r, qu_rgb_state = qr_state rgb, qu_alpha_state = alpha_state, qu_channels = qr_channels rgb @ alpha,
        qu_pixels = take (row * w) (qu_pixels u) @ current @ drop (row * w + w) (qu_pixels u), qu_polls = polls\<rparr>))))"
      unfolding sl and_then_Inr
    proof (rule safely_and_then [OF rgb])
      fix rgb assume r: "row_ok w b 3 rgb"
      have "safely (\<lambda>(r', s', chs', current'). bits_ok r' \<and> coding_ok s' \<and> length chs' = n - 3 \<and> (\<forall>ch \<in> set chs'. channel_ok w b ch) \<and> pixels_ok w current')
        (if t = QuicImageType_Rgba then
          and_then (slice_index channels 3 4) (\<lambda>alpha.
          and_then (decode_row previous [3] 8
            \<lparr>qr_reader = qr_reader rgb, qr_state = qu_alpha_state u, qr_channels = alpha, qr_current = qr_current rgb\<rparr>) (\<lambda>a.
          Inr (qr_reader a, qr_state a, qr_channels a, qr_current a)))
        else Inr (qr_reader rgb, qu_alpha_state u, drop 3 channels, qr_current rgb))"
      proof (cases "t = QuicImageType_Rgba")
        case True
        then have "b = 8" "n = 4" using assms(5,6) by simp_all
        with True g(2) r u(3) ch show ?thesis
          using quic_alpha_safe [of w previous "qr_reader rgb" "qu_alpha_state u" channels "qr_current rgb"] by (simp add: row_ok_def)
      next
        case False
        then show ?thesis using r u(3) ch n by (auto simp: row_ok_def dest: in_set_dropD)
      qed
      then show "safely (image_rows_ok w h b n) (and_then
       (if t = QuicImageType_Rgba then
          and_then (slice_index channels 3 4) (\<lambda>alpha.
          and_then (decode_row previous [3] 8
            \<lparr>qr_reader = qr_reader rgb, qr_state = qu_alpha_state u, qr_channels = alpha, qr_current = qr_current rgb\<rparr>) (\<lambda>a.
          Inr (qr_reader a, qr_state a, qr_channels a, qr_current a)))
        else Inr (qr_reader rgb, qu_alpha_state u, drop 3 channels, qr_current rgb)) (\<lambda>(r, alpha_state, alpha, current).
      Inr \<lparr>qu_reader = r, qu_rgb_state = qr_state rgb, qu_alpha_state = alpha_state, qu_channels = qr_channels rgb @ alpha,
        qu_pixels = take (row * w) (qu_pixels u) @ current @ drop (row * w + w) (qu_pixels u), qu_polls = polls\<rparr>))"
        by (rule safely_and_then) (use r cur(3) n in \<open>auto simp: row_ok_def image_rows_ok_def\<close>)
    qed
  qed
qed

lemma read_u32_safe: "bits_ok r \<Longrightarrow> safely (\<lambda>(v, r'). bits_ok r') (BitReader_read_u32 r)"
  unfolding BitReader_read_u32_def
  by (rule safely_and_then [OF read_safe], assumption, simp, rule safely_case_prod, rule safely_and_then [OF read_safe]) auto

lemma QuicImageType_try_from_safe: "safely (\<lambda>_. True) (QuicImageType_try_from v)"
  by (simp add: QuicImageType_try_from_def)

lemma quic_header_safe:
  assumes "bits_ok r"
  shows "safely (\<lambda>(t, n, r'). bits_ok r' \<and> t \<noteq> QuicImageType_Gray \<and> n = unat ew * unat eh \<and> n * 4 \<le> maximum_output_bytes limits \<and>
    ew \<noteq> 0 \<and> eh \<noteq> 0 \<and> ew \<le> maximum_width limits \<and> eh \<le> maximum_height limits) (quic_header ew eh limits r)"
proof -
  have sizes: "safely (\<lambda>(t', n, r'). bits_ok r' \<and> t' \<noteq> QuicImageType_Gray \<and> n = unat ew * unat eh \<and> n * 4 \<le> maximum_output_bytes limits \<and>
      ew \<noteq> 0 \<and> eh \<noteq> 0 \<and> ew \<le> maximum_width limits \<and> eh \<le> maximum_height limits)
     (if width \<noteq> ew \<or> height \<noteq> eh then quic_err QuicErrorKind_DimensionMismatch c1
      else if width = 0 \<or> height = 0 \<or> width > maximum_width limits \<or> height > maximum_height limits then quic_err QuicErrorKind_ResourceLimit c2
      else and_then (ok_or e1 (usize_checked_mul (unat width) (unat height))) (\<lambda>pixel_count.
        and_then (ok_or e2 (usize_checked_mul pixel_count 4)) (\<lambda>output_bytes.
        if output_bytes > maximum_output_bytes limits then quic_err QuicErrorKind_ResourceLimit c3 else Inr (t, pixel_count, r))))"
    if "t \<noteq> QuicImageType_Gray" "bits_ok r" for t r width height c1 c2 c3 e1 e2
    using that by (auto intro!: safely_and_then [OF safely_ok_or])
  have version: "safely (\<lambda>(bad, r'). bits_ok r') (if magic \<noteq> QUIC_MAGIC then Inr (True, r)
      else and_then (BitReader_read_u32 r) (\<lambda>(version, r). Inr (version \<noteq> QUIC_VERSION, r)))" if "bits_ok r" for magic r
    using that by (auto intro!: safely_and_then [OF read_u32_safe])
  have dims: "safely P (and_then (BitReader_read_u32 r) (\<lambda>(width, r). and_then (BitReader_read_u32 r) (\<lambda>(height, r). f width height r)))"
    if "bits_ok r" "\<And>width height r. bits_ok r \<Longrightarrow> safely P (f width height r)" for P f r
    using that by (auto intro!: safely_and_then [OF read_u32_safe])
  show ?thesis unfolding quic_header_def
    by (rule safely_and_then [OF read_u32_safe [OF assms]], rule safely_case_prod, rule safely_and_then [OF version], simp,
        rule safely_case_prod, simp only: split: if_split, intro conjI impI, simp, rule safely_and_then [OF read_u32_safe], simp,
        rule safely_case_prod, rule safely_and_then [OF QuicImageType_try_from_safe], simp only: split: if_split, intro conjI impI, simp,
        rule dims, simp, rule sizes, assumption+)
qed

lemma decode_quic_safe:
  "safely (\<lambda>img. qi_width img = ew \<and> qi_height img = eh \<and> ew \<noteq> 0 \<and> eh \<noteq> 0 \<and> ew \<le> maximum_width limits \<and> eh \<le> maximum_height limits \<and>
     length (qi_pixels img) = unat ew * unat eh \<and> length (qi_pixels img) * 4 \<le> maximum_output_bytes limits \<and>
     (\<forall>p \<in> set (qi_pixels img). length p = 4))
   (decode_quic_with_cancel input ew eh limits should_cancel)"
proof -
  have new: "safely bits_ok (BitReader_new input)" by (simp add: BitReader_new_def bits_ok_def)
  have expand: "safely (pixels_ok n) (if t = QuicImageType_Rgb16 then try_map quic_expand_pixel ps else Inr ps)" if "pixels_ok n ps" for t n ps
    using that safely_try_map [of ps "\<lambda>p. length p = 4" quic_expand_pixel] by (auto simp: pixels_ok_def [abs_def] quic_expand_pixel_def)
  have rows: "safely (image_rows_ok (unat ew) (unat eh) b n)
      (for_each (quic_image_row should_cancel t (unat ew) b) [0..<unat eh]
       \<lparr>qu_reader = r, qu_rgb_state = CodingState_new, qu_alpha_state = CodingState_new,
        qu_channels = replicate n (ChannelModel_new (unat ew) b), qu_pixels = replicate (unat ew * unat eh) [0, 0, 0, 255], qu_polls = p\<rparr>)"
    if "bits_ok r" "ew \<noteq> 0" "b = (if t = QuicImageType_Rgb16 then 5 else 8)" "n = (if t = QuicImageType_Rgba then 4 else 3)" for r t b n p
  proof (rule safely_for_each)
    have b: "bpc_ok b" using that(3) by (simp add: bpc_ok_def)
    have w: "0 < unat ew" using that(2) by (simp add: unat_gt_0)
    show "image_rows_ok (unat ew) (unat eh) b n
       \<lparr>qu_reader = r, qu_rgb_state = CodingState_new, qu_alpha_state = CodingState_new,
        qu_channels = replicate n (ChannelModel_new (unat ew) b), qu_pixels = replicate (unat ew * unat eh) [0, 0, 0, 255], qu_polls = p\<rparr>"
      using that(1) ChannelModel_new_ok [OF b] by (simp add: image_rows_ok_def coding_ok_new pixels_ok_def mult.commute)
    show "safely (image_rows_ok (unat ew) (unat eh) b n) (quic_image_row should_cancel t (unat ew) b i u)"
      if "i \<in> set [0..<unat eh]" "image_rows_ok (unat ew) (unat eh) b n u" for i u
      using that \<open>b = (if t = QuicImageType_Rgb16 then 5 else 8)\<close> \<open>n = (if t = QuicImageType_Rgba then 4 else 3)\<close> w b
      by (intro quic_image_row_safe) simp_all
  qed
  show ?thesis unfolding decode_quic_with_cancel_def Let_def
  proof (rule safely_and_then [OF quic_poll_safe], rule safely_and_then [OF new], rule safely_and_then [OF quic_header_safe], assumption)
    fix polls x
    assume "case x of (t, n, r') \<Rightarrow> bits_ok r' \<and> t \<noteq> QuicImageType_Gray \<and> n = unat ew * unat eh \<and> n * 4 \<le> maximum_output_bytes limits \<and>
      ew \<noteq> 0 \<and> eh \<noteq> 0 \<and> ew \<le> maximum_width limits \<and> eh \<le> maximum_height limits"
    moreover obtain t n r where x: "x = (t, n, r)" by (cases x)
    ultimately have hd: "bits_ok r" "n = unat ew * unat eh" "n * 4 \<le> maximum_output_bytes limits"
      "ew \<noteq> 0" "eh \<noteq> 0" "ew \<le> maximum_width limits" "eh \<le> maximum_height limits" by simp_all
    show "safely (\<lambda>img. qi_width img = ew \<and> qi_height img = eh \<and> ew \<noteq> 0 \<and> eh \<noteq> 0 \<and> ew \<le> maximum_width limits \<and> eh \<le> maximum_height limits \<and>
       length (qi_pixels img) = unat ew * unat eh \<and> length (qi_pixels img) * 4 \<le> maximum_output_bytes limits \<and>
       (\<forall>p \<in> set (qi_pixels img). length p = 4))
      (case x of (t, n, r) \<Rightarrow>
       and_then (for_each (quic_image_row should_cancel t (unat ew) (if t = QuicImageType_Rgb16 then 5 else 8)) [0..<unat eh]
         \<lparr>qu_reader = r, qu_rgb_state = CodingState_new, qu_alpha_state = CodingState_new,
          qu_channels = replicate (if t = QuicImageType_Rgba then 4 else 3) (ChannelModel_new (unat ew) (if t = QuicImageType_Rgb16 then 5 else 8)),
          qu_pixels = replicate n [0, 0, 0, 255], qu_polls = polls\<rparr>) (\<lambda>u.
       and_then (quic_poll should_cancel (qu_polls u)) (\<lambda>_.
       and_then (if t = QuicImageType_Rgb16 then try_map quic_expand_pixel (qu_pixels u) else Inr (qu_pixels u)) (\<lambda>pixels.
       Inr \<lparr>qi_width = ew, qi_height = eh, qi_image_type = t, qi_pixels = pixels\<rparr>))))"
      unfolding x prod.case hd(2)
    proof (rule safely_and_then [OF rows [OF hd(1,4) refl refl]], rule safely_and_then [OF quic_poll_safe], rule safely_and_then [OF expand])
      fix u assume "image_rows_ok (unat ew) (unat eh) (if t = QuicImageType_Rgb16 then 5 else 8) (if t = QuicImageType_Rgba then 4 else 3) u"
      then show "pixels_ok (unat eh * unat ew) (qu_pixels u)" by (simp add: image_rows_ok_def)
    qed (use hd in \<open>auto simp: pixels_ok_def mult.commute\<close>)
  qed
qed

text \<open>C22: the QUIC decoder is safe for every input, every declared size and every way of cancelling: it always ends, no index,
  subtraction or 32-bit counter fails, and an image it returns has the expected dimensions within the caller's
  limits and exactly one pixel of four components for each position.\<close>

theorem quic_decode_sound:
  "case decode_quic_with_cancel input expected_width expected_height limits should_cancel of
     Inl e \<Rightarrow> e \<noteq> Panic
   | Inr img \<Rightarrow> qi_width img = expected_width \<and> qi_height img = expected_height \<and>
       expected_width \<noteq> 0 \<and> expected_height \<noteq> 0 \<and>
       expected_width \<le> maximum_width limits \<and> expected_height \<le> maximum_height limits \<and>
       length (qi_pixels img) = unat expected_width * unat expected_height \<and>
       length (qi_pixels img) * 4 \<le> maximum_output_bytes limits \<and> filter (\<lambda>p. length p \<noteq> 4) (qi_pixels img) = []"
  using decode_quic_safe [of expected_width expected_height limits input should_cancel]
  by (auto simp: safely_def filter_empty_conv split: sum.splits)

section \<open>Golomb codes read back\<close>

text \<open>The code of a value: a zero prefix in unary, then the low bits, or for the values the prefix cannot reach
  the longest prefix and an index of fixed width.\<close>

definition bits_of :: "nat \<Rightarrow> nat \<Rightarrow> bool list" where
  "bits_of n k = map (\<lambda>i. bit k (n - 1 - i)) [0..<n]"

definition golomb_bits :: "u8 \<Rightarrow> nat \<Rightarrow> nat \<Rightarrow> bool list" where
  "golomb_bits v code b =
     (let p = golomb_prefix code b in
      if unat v < p * 2 ^ code then replicate (unat v div 2 ^ code) False @ True # bits_of code (unat v mod 2 ^ code)
      else replicate p False @ bits_of (ceil_log2 (2 ^ b - p * 2 ^ code)) (unat v - p * 2 ^ code))"

definition reads :: "BitReader \<Rightarrow> bool list \<Rightarrow> bool" where
  "reads r bs \<longleftrightarrow> bits_ok r \<and> length (br_input r) * 8 < usize_limit \<and> br_offset r + length bs \<le> length (br_input r) * 8 \<and>
     (\<forall>i < length bs. quic_bit (br_input r) (br_offset r + i) = bs ! i)"

abbreviation br_skip :: "nat \<Rightarrow> BitReader \<Rightarrow> BitReader" where
  "br_skip n r \<equiv> r\<lparr>br_offset := br_offset r + n\<rparr>"

lemma length_bits_of [simp]: "length (bits_of n k) = n"
  by (simp add: bits_of_def)

lemma length_golomb_bits: "length (golomb_bits v code b) = golomb_length v code b"
  by (simp add: golomb_bits_def golomb_length_def Let_def)

lemma reads_append: "reads r (as @ bs) \<Longrightarrow> reads r as \<and> reads (br_skip (length as) r) bs"
proof -
  assume r: "reads r (as @ bs)"
  have "quic_bit (br_input r) (br_offset r + i) = as ! i" if "i < length as" for i
    using r that by (simp add: reads_def nth_append)
  moreover have "quic_bit (br_input r) (br_offset r + (length as + i)) = (as @ bs) ! (length as + i)" if "i < length bs" for i
    using r that unfolding reads_def by simp
  ultimately show ?thesis using r by (simp add: reads_def bits_ok_def add.assoc)
qed

lemma quic_bits_loop_error: "quic_bits_loop e st = Inl x \<Longrightarrow> x = Panic"
proof (induction e st rule: quic_bits_loop.induct)
  case (1 e st)
  have turn: "quic_bits_turn e st = Inl y \<Longrightarrow> y = Panic" for y
    by (cases st) (auto simp: quic_bits_turn_def Let_def and_then_eq_Inl slice_index_def expect_def split: option.splits)
  show ?case
  proof (cases "br_offset (snd st) < e")
    case True
    with "1.prems" turn "1.IH" show ?thesis by (auto simp: quic_bits_loop.simps [of e st] and_then_eq_Inl)
  next
    case False
    with "1.prems" show ?thesis by (simp add: quic_bits_loop.simps [of e st])
  qed
qed

lemma read_bits_reads:
  assumes "reads r (bits_of n k)" "n \<le> 31" "k < 2 ^ n"
  shows "\<exists>v. BitReader_read_bits n r = Inr (v, br_skip n r) \<and> unat v = k"
proof -
  have r: "bits_ok r" "br_offset r + n \<le> length (br_input r) * 8" "br_offset r + n < usize_limit"
    using assms(1) by (auto simp: reads_def)
  then have "BitReader_read_bits n r = quic_bits_loop (br_offset r + n) (0, r)"
    using assms(2) by (simp add: BitReader_read_bits_def usize_checked_add_def ok_or_def)
  with BitReader_read_bits_safe [OF r(1) assms(2)] quic_bits_loop_error [of "br_offset r + n" "(0, r)"]
  obtain v where v: "BitReader_read_bits n r = Inr (v, br_skip n r)" "holds_bits (br_input r) (br_offset r) (br_offset r + n) v"
    by (cases "quic_bits_loop (br_offset r + n) (0, r)") (auto simp: safely_def)
  have "bit v j \<longleftrightarrow> bit k j" for j
  proof (cases "j < n")
    case True
    then have "n - 1 - j < length (bits_of n k)" by simp
    then have "quic_bit (br_input r) (br_offset r + (n - 1 - j)) = bits_of n k ! (n - 1 - j)" using assms(1) unfolding reads_def by blast
    moreover have "bits_of n k ! (n - 1 - j) = bit k j" using True by (simp add: bits_of_def)
    moreover have "br_offset r + (n - 1 - j) = br_offset r + n - 1 - j" using True by linarith
    ultimately show ?thesis using v(2) True by (simp add: holds_bits_def)
  next
    case False
    have "take_bit n k = k" using assms(3) by (simp add: take_bit_nat_eq_self)
    then have "\<not> bit k j" using False by (metis bit_take_bit_iff)
    then show ?thesis using v(2) False by (simp add: holds_bits_def)
  qed
  then have "unat v = k" by (intro bit_eqI) (simp add: bit_unsigned_iff bit_imp_le_length)
  with v(1) show ?thesis by blast
qed

lemma bits_of_1: "bits_of 1 0 = [False]" "bits_of 1 1 = [True]"
  by (simp_all add: bits_of_def bit_0)

lemma read_bit_reads: "reads r (b # bs) \<Longrightarrow> \<exists>v. BitReader_read_bit r = Inr (v, br_skip 1 r) \<and> (v = 0 \<longleftrightarrow> \<not> b) \<and> reads (br_skip 1 r) bs"
proof -
  assume "reads r (b # bs)"
  then have "reads r [b]" "reads (br_skip 1 r) bs" using reads_append [of r "[b]" bs] by simp_all
  moreover from this(1) have "reads r (bits_of 1 (if b then 1 else 0))" by (cases b) (simp_all only: bits_of_1 if_True if_False)
  then have "\<exists>v. BitReader_read_bit r = Inr (v, br_skip 1 r) \<and> unat v = (if b then 1 else 0)"
    unfolding BitReader_read_bit_def by (rule read_bits_reads) simp_all
  then obtain v where "BitReader_read_bit r = Inr (v, br_skip 1 r)" "unat v = (if b then 1 else 0)" by blast
  moreover from this(2) have "v = 0 \<longleftrightarrow> \<not> b" by (auto simp: unat_eq_zero split: if_splits)
  ultimately show ?thesis by blast
qed

lemma golomb_zero_prefix_reads:
  "reads r (replicate k False @ bs) \<Longrightarrow> z + k \<le> m \<Longrightarrow> (z + k < m \<Longrightarrow> \<exists>cs. bs = True # cs) \<Longrightarrow>
     golomb_zero_prefix m z r = Inr (z + k, br_skip (if z + k < m then k + 1 else k) r)"
proof (induction k arbitrary: z r)
  case 0
  show ?case
  proof (cases "z < m")
    case True
    with 0 obtain cs where "reads r (True # cs)" by auto
    from read_bit_reads [OF this] True show ?thesis by (auto simp: golomb_zero_prefix.simps [of m z r])
  next
    case False
    then have "golomb_zero_prefix m z r = Inr (z, r)" by (simp add: golomb_zero_prefix.simps [of m z r])
    then show ?thesis using False by simp
  qed
next
  case (Suc k)
  from Suc.prems(1) have "reads r (False # replicate k False @ bs)" by simp
  from read_bit_reads [OF this] obtain v where v: "BitReader_read_bit r = Inr (v, br_skip 1 r)" "v = 0"
    "reads (br_skip 1 r) (replicate k False @ bs)" by auto
  then have "golomb_zero_prefix m z r = golomb_zero_prefix m (z + 1) (br_skip 1 r)"
    using Suc.prems(2) by (simp add: golomb_zero_prefix.simps [of m z r])
  also have "\<dots> = Inr (z + 1 + k, br_skip (if z + 1 + k < m then k + 1 else k) (br_skip 1 r))"
    using Suc.prems by (intro Suc.IH [OF v(3)]) auto
  finally show ?case by simp
qed

lemma push_or: "k < 2 ^ c \<Longrightarrow> push_bit c z OR k = z * 2 ^ c + k" for z k :: nat
proof -
  assume k: "k < 2 ^ c"
  have "push_bit c z AND k = 0"
  proof (rule bit_eqI)
    fix n
    have "take_bit c k = k" using k by (simp add: take_bit_nat_eq_self)
    then have "bit k n \<Longrightarrow> n < c" by (metis bit_take_bit_iff)
    then show "bit (push_bit c z AND k) n \<longleftrightarrow> bit (0 :: nat) n" by (auto simp: bit_and_iff bit_push_bit_iff)
  qed
  then show ?thesis by (simp add: disjunctive_add_eq_or push_bit_eq_mult flip: disjunctive_add_eq_or)
qed

lemma decode_golomb_reads:
  assumes "bpc_ok b" "code < b" "unat v < 2 ^ b" "reads r (golomb_bits v code b)"
  shows "decode_golomb code b r = Inr (v, br_skip (golomb_length v code b) r)"
proof -
  let ?p = "golomb_prefix code b"
  note p = golomb_prefix_props [OF assms(1,2)]
  have b: "b \<le> 8" "unat v < 256" "unat v \<le> 2 ^ b - 1" using assms(1,3) unsigned_less [of v, where 'a = nat] by (auto simp: bpc_ok_def)
  have final: "(if unat v < 256 \<and> unat v \<le> 2 ^ b - 1 then Inr (of_nat (unat v), r') else quic_err QuicErrorKind_InvalidCode ctx) = Inr (v, r')" for r' ctx
    using b by simp
  have sub: "usize_sub (2 ^ b - 1 + 1) (?p * 2 ^ code) = (Inr (2 ^ b - ?p * 2 ^ code) :: nat quic)"
    using p(2) by (simp add: usize_sub_def)
  note unfold = decode_golomb_def Let_def golomb_maximum_prefix_eq [OF assms(1,2)] and_then_Inr push_bit_eq_mult
  show ?thesis
  proof (cases "unat v < ?p * 2 ^ code")
    case True
    let ?z = "unat v div 2 ^ code" and ?k = "unat v mod 2 ^ code"
    have z: "?z < ?p" using True by (simp add: div_less_iff_less_mult)
    have r: "reads r (replicate ?z False @ True # bits_of code ?k)" using assms(4) True by (simp add: golomb_bits_def Let_def)
    have zero: "golomb_zero_prefix ?p 0 r = Inr (?z, br_skip (?z + 1) r)" using golomb_zero_prefix_reads [OF r, of 0 ?p] z by simp
    have "reads (br_skip (?z + 1) r) (bits_of code ?k)"
      using reads_append [of r "replicate ?z False @ [True]" "bits_of code ?k"] r by simp
    then obtain w where w: "BitReader_read_bits code (br_skip (?z + 1) r) = Inr (w, br_skip code (br_skip (?z + 1) r))" "unat w = ?k"
      using read_bits_reads [of _ code ?k] assms(2) b(1) by fastforce
    have "push_bit code ?z OR unat w = unat v" unfolding w(2) by (subst push_or) (simp, rule div_mult_mod_eq)
    then have e: "?z * 2 ^ code OR unat w = unat v" by (simp add: push_bit_eq_mult)
    have "br_skip code (br_skip (?z + 1) r) = br_skip (golomb_length v code b) r" using True by (simp add: golomb_length_def algebra_simps)
    then show ?thesis unfolding unfold zero prod.case if_P [OF z] w(1) e final by simp
  next
    case False
    let ?n = "ceil_log2 (2 ^ b - ?p * 2 ^ code)" and ?k = "unat v - ?p * 2 ^ code"
    have k: "?k < 2 ^ ?n" using le_ceil_log2 [of "2 ^ b - ?p * 2 ^ code"] assms(3) False by linarith
    have n: "?n \<le> 31" using ceil_log2_le [of "2 ^ b - ?p * 2 ^ code" b] b(1) by simp
    have r: "reads r (replicate ?p False @ bits_of ?n ?k)" using assms(4) False by (simp add: golomb_bits_def Let_def)
    have zero: "golomb_zero_prefix ?p 0 r = Inr (?p, br_skip ?p r)" using golomb_zero_prefix_reads [OF r, of 0 ?p] by simp
    have "reads (br_skip ?p r) (bits_of ?n ?k)" using reads_append [OF r] by simp
    then obtain w where w: "BitReader_read_bits ?n (br_skip ?p r) = Inr (w, br_skip ?n (br_skip ?p r))" "unat w = ?k"
      using read_bits_reads [OF _ n k] by blast
    have e: "?p * 2 ^ code + unat w = unat v" using w(2) False by simp
    have "br_skip ?n (br_skip ?p r) = br_skip (golomb_length v code b) r" using False by (simp add: golomb_length_def algebra_simps)
    then show ?thesis unfolding unfold zero prod.case if_not_P [OF less_irrefl] sub w(1) e final by simp
  qed
qed

text \<open>C23: the Golomb code of a component value reads back as that value, for every code of the model and both component
  depths, and takes exactly the number of bits that \<open>golomb_code_length\<close> charges to the model for it.\<close>

theorem golomb_round_trip:
  assumes "b = 5 \<or> b = 8" "code < b" "unat v < 2 ^ b" "reads r (golomb_bits v code b)"
  shows "\<exists>n. golomb_code_length v code b = Inr n \<and> length (golomb_bits v code b) = n \<and>
    decode_golomb code b r = Inr (v, r\<lparr>br_offset := br_offset r + n\<rparr>)"
  using decode_golomb_reads [of b code v r] golomb_code_length_eq [of b code v] length_golomb_bits [of v code b] assms
  by (auto simp: bpc_ok_def)

definition golomb_sample :: BitReader where
  "golomb_sample = \<lparr>br_input = [0, 0, 0, 0x2c], br_offset = 0\<rparr>"

theorem golomb_round_trip_witness:
  "golomb_bits 19 3 8 = [False, False, True, False, True, True] \<and> decode_golomb 3 8 golomb_sample = Inr (19, golomb_sample\<lparr>br_offset := 6\<rparr>)"
proof -
  have bits: "golomb_bits 19 3 8 = [False, False, True, False, True, True]"
    by code_simp
  have "reads golomb_sample (golomb_bits 19 3 8)"
    unfolding bits by (simp add: reads_def golomb_sample_def bits_ok_def quic_bit_def All_less_Suc)
  from golomb_round_trip [OF _ _ _ this] bits show ?thesis by (auto simp: golomb_sample_def)
qed

end
