(* ===== verification/Spice_Images.thy ===== *)
theory Spice_Images
  imports Spice_ClassicDisplay "HOL-Library.Sublist"
begin

text \<open>
  The image payloads of Display messages (\<open>display.rs\<close> of the protocol crate, from \<open>BitmapFormat\<close> on): raw bitmaps with their
  palettes, compressed wrappers and JPEG pairs, as they stand behind an image descriptor of a Draw Copy message
  (\<open>decode_draw_copy\<close>) or of a composite command (\<open>EmbeddedImage\<close>). Borrowed slices are byte lists.

  Shown here: no input makes one of the decoders panic, and an accepted payload has the sizes its header declares, lies inside the
  message and respects the caller's bound.
\<close>

section \<open>Formats and payloads\<close>

datatype BitmapFormat =
    BitmapFormat_Indexed1Be | BitmapFormat_Indexed4Be | BitmapFormat_Indexed8 | BitmapFormat_Rgb16
  | BitmapFormat_Bgr24 | BitmapFormat_Xrgb32 | BitmapFormat_Rgba32 | BitmapFormat_Alpha8

primrec BitmapFormat_code :: "BitmapFormat \<Rightarrow> u8" where
  "BitmapFormat_code BitmapFormat_Indexed1Be = 2"
| "BitmapFormat_code BitmapFormat_Indexed4Be = 4"
| "BitmapFormat_code BitmapFormat_Indexed8 = 5"
| "BitmapFormat_code BitmapFormat_Rgb16 = 6"
| "BitmapFormat_code BitmapFormat_Bgr24 = 7"
| "BitmapFormat_code BitmapFormat_Xrgb32 = 8"
| "BitmapFormat_code BitmapFormat_Rgba32 = 9"
| "BitmapFormat_code BitmapFormat_Alpha8 = 10"

definition BitmapFormat_try_from :: "u8 \<Rightarrow> BitmapFormat decoded" where
  "BitmapFormat_try_from value =
     (if value = 2 then Inr BitmapFormat_Indexed1Be
      else if value = 4 then Inr BitmapFormat_Indexed4Be
      else if value = 5 then Inr BitmapFormat_Indexed8
      else if value = 6 then Inr BitmapFormat_Rgb16
      else if value = 7 then Inr BitmapFormat_Bgr24
      else if value = 8 then Inr BitmapFormat_Xrgb32
      else if value = 9 then Inr BitmapFormat_Rgba32
      else if value = 10 then Inr BitmapFormat_Alpha8
      else decode_err Unsupported 0 STR ''bitmap format'')"

interpretation bitmap_format: enum_codec BitmapFormat_code BitmapFormat_try_from
proof
  show "BitmapFormat_try_from (BitmapFormat_code e) = Inr e" for e by (cases e) (simp_all add: BitmapFormat_try_from_def)
  show "BitmapFormat_try_from c = Inr e \<Longrightarrow> BitmapFormat_code e = c" for c e
    by (auto simp: BitmapFormat_try_from_def split: if_splits)
  show "no_panic (BitmapFormat_try_from c)" for c by (simp add: BitmapFormat_try_from_def)
qed

declare bitmap_format.try_from_error [no_panic_intros]

fun BitmapFormat_bytes_per_pixel :: "BitmapFormat \<Rightarrow> nat option" where
  "BitmapFormat_bytes_per_pixel BitmapFormat_Rgb16 = Some 2"
| "BitmapFormat_bytes_per_pixel BitmapFormat_Bgr24 = Some 3"
| "BitmapFormat_bytes_per_pixel BitmapFormat_Xrgb32 = Some 4"
| "BitmapFormat_bytes_per_pixel BitmapFormat_Rgba32 = Some 4"
| "BitmapFormat_bytes_per_pixel BitmapFormat_Alpha8 = Some 1"
| "BitmapFormat_bytes_per_pixel _ = None"

fun BitmapFormat_minimum_stride :: "BitmapFormat \<Rightarrow> u32 \<Rightarrow> nat option" where
  "BitmapFormat_minimum_stride BitmapFormat_Indexed1Be width = map_option (\<lambda>pixels. pixels div 8) (usize_checked_add (unat width) 7)"
| "BitmapFormat_minimum_stride BitmapFormat_Indexed4Be width = map_option (\<lambda>pixels. pixels div 2) (usize_checked_add (unat width) 1)"
| "BitmapFormat_minimum_stride BitmapFormat_Indexed8 width = Some (unat width)"
| "BitmapFormat_minimum_stride BitmapFormat_Alpha8 width = Some (unat width)"
| "BitmapFormat_minimum_stride direct width =
     (case BitmapFormat_bytes_per_pixel direct of None \<Rightarrow> None | Some bytes \<Rightarrow> usize_checked_mul (unat width) bytes)"

fun BitmapFormat_maximum_palette_entries :: "BitmapFormat \<Rightarrow> nat option" where
  "BitmapFormat_maximum_palette_entries BitmapFormat_Indexed1Be = Some 2"
| "BitmapFormat_maximum_palette_entries BitmapFormat_Indexed4Be = Some 16"
| "BitmapFormat_maximum_palette_entries BitmapFormat_Indexed8 = Some 256"
| "BitmapFormat_maximum_palette_entries _ = None"

datatype BitmapPalette = BitmapPalette_Inline u64 bool "u8 list" | BitmapPalette_Cached u64

record CompressedImageUpdate =
  cu_surface_id :: u32
  cu_destination :: Rect
  cu_source :: Rect
  cu_image_width :: u32
  cu_image_height :: u32
  cu_image_type :: DrawCopyImageType
  cu_rop_descriptor :: u16
  cu_scale_mode :: u8
  cu_palette :: "BitmapPalette option"
  cu_compressed_bytes :: "u8 list"
  cu_uncompressed_bytes :: "nat option"

record JpegUpdate =
  ju_surface_id :: u32
  ju_destination :: Rect
  ju_source :: Rect
  ju_image_width :: u32
  ju_image_height :: u32
  ju_rop_descriptor :: u16
  ju_scale_mode :: u8
  ju_alpha_top_down :: "bool option"
  ju_jpeg_bytes :: "u8 list"
  ju_alpha_lz_bytes :: "u8 list option"

record BitmapUpdate =
  bu_surface_id :: u32
  bu_destination :: Rect
  bu_source :: Rect
  bu_image_width :: u32
  bu_image_height :: u32
  bu_format :: BitmapFormat
  bu_rop_descriptor :: u16
  bu_scale_mode :: u8
  bu_stride :: u32
  bu_top_down :: bool
  bu_palette :: "BitmapPalette option"
  bu_pixel_bytes :: "u8 list"

record EmbeddedBitmap =
  eb_width :: u32
  eb_height :: u32
  eb_format :: BitmapFormat
  eb_stride :: u32
  eb_top_down :: bool
  eb_palette :: "BitmapPalette option"
  eb_pixel_bytes :: "u8 list"

record EmbeddedCompressedImage =
  em_width :: u32
  em_height :: u32
  em_image_type :: DrawCopyImageType
  em_palette :: "BitmapPalette option"
  em_compressed_bytes :: "u8 list"
  em_uncompressed_bytes :: "nat option"

record EmbeddedJpeg =
  ej_width :: u32
  ej_height :: u32
  ej_alpha_top_down :: "bool option"
  ej_jpeg_bytes :: "u8 list"
  ej_alpha_lz_bytes :: "u8 list option"

datatype EmbeddedImage =
    EmbeddedImage_Bitmap EmbeddedBitmap
  | EmbeddedImage_Compressed EmbeddedCompressedImage
  | EmbeddedImage_Jpeg EmbeddedJpeg

definition DEFAULT_MAX_BITMAP_BYTES :: nat where [simp]: "DEFAULT_MAX_BITMAP_BYTES = 256 * 1024 * 1024"
definition DEFAULT_MAX_COMPRESSED_BYTES :: nat where [simp]: "DEFAULT_MAX_COMPRESSED_BYTES = 256 * 1024 * 1024"
definition PALETTE_CACHE_ME :: u8 where [simp]: "PALETTE_CACHE_ME = 1"
definition PALETTE_FROM_CACHE :: u8 where [simp]: "PALETTE_FROM_CACHE = 2"
definition BITMAP_TOP_DOWN :: u8 where [simp]: "BITMAP_TOP_DOWN = 4"

text \<open>The flag test that the four palette wrappers share.\<close>

definition palette_flags_invalid :: "u8 \<Rightarrow> bool" where
  "palette_flags_invalid flags \<longleftrightarrow>
     flags AND NOT (PALETTE_CACHE_ME OR PALETTE_FROM_CACHE OR BITMAP_TOP_DOWN) \<noteq> 0 \<or>
     (flags AND PALETTE_CACHE_ME \<noteq> 0 \<and> flags AND PALETTE_FROM_CACHE \<noteq> 0)"

section \<open>Draw Copy\<close>

record DrawCopyCommon =
  dcc_surface_id :: u32
  dcc_destination :: Rect
  dcc_source :: Rect
  dcc_image_width :: u32
  dcc_image_height :: u32
  dcc_image_type :: DrawCopyImageType
  dcc_rop_descriptor :: u16
  dcc_scale_mode :: u8
  dcc_image_payload_offset :: nat

text \<open>The fixed fields of the message: surface, destination, source, raster operation, scale mode and image offset.\<close>

definition read_draw_copy_fields :: "(u32 \<times> Rect \<times> u32 \<times> Rect \<times> u16 \<times> u8) reader_op" where
  "read_draw_copy_fields =
     rd_then (Reader_u32 STR ''draw surface id'') (\<lambda>surface_id.
     rd_then (read_rect STR ''draw destination'') (\<lambda>destination.
     rd_then (Reader_u8 STR ''draw clip type'') (\<lambda>clip_type.
     rd_then Reader_offset (\<lambda>here.
     if clip_type \<noteq> 0 then rd_err Unsupported (here - 1) STR ''draw clip rectangles''
     else
     rd_then (Reader_u32 STR ''draw source image offset'') (\<lambda>image_offset.
     rd_then (read_rect STR ''draw source rectangle'') (\<lambda>source.
     rd_then (Reader_u16 STR ''draw raster operation'') (\<lambda>rop_descriptor.
     rd_then (Reader_u8 STR ''draw scale mode'') (\<lambda>scale_mode.
     rd_then Reader_offset (\<lambda>here.
     if scale_mode > 1 then rd_err InvalidValue (here - 1) STR ''draw scale mode''
     else
     rd_then (Reader_u8 STR ''draw mask flags'') (\<lambda>_.
     rd_then (Reader_i32 STR ''draw mask x'') (\<lambda>_.
     rd_then (Reader_i32 STR ''draw mask y'') (\<lambda>_.
     rd_then (Reader_u32 STR ''draw mask image offset'') (\<lambda>mask_offset.
     rd_then Reader_offset (\<lambda>here.
     if mask_offset \<noteq> 0 then rd_err Unsupported (here - 4) STR ''draw mask image''
     else rd_return (surface_id, destination, image_offset, source, rop_descriptor, scale_mode)))))))))))))))"

definition draw_copy_image_type :: "u8 \<Rightarrow> nat \<Rightarrow> DrawCopyImageType decoded" where
  "draw_copy_image_type value start =
     (if value = 0 then Inr ImageType_Bitmap
      else if value = 100 then Inr ImageType_LzPalette
      else if value = 101 then Inr ImageType_LzRgb
      else if value = 102 then Inr ImageType_GlzRgb
      else if value = 1 then Inr ImageType_Quic
      else if value = 103 \<or> value = 106 then decode_err Unsupported (start + 8) STR ''disabled image cache reference''
      else if value = 105 then Inr ImageType_Jpeg
      else if value = 107 then Inr ImageType_ZlibGlzRgb
      else if value = 108 then Inr ImageType_JpegAlpha
      else if value = 109 then Inr ImageType_Lz4
      else decode_err Unsupported (start + 8) STR ''image type'')"

definition read_draw_copy_image :: "nat \<Rightarrow> (DrawCopyImageType \<times> u32 \<times> u32) reader_op" where
  "read_draw_copy_image start =
     rd_then (Reader_u64 STR ''image id'') (\<lambda>_.
     rd_then (Reader_u8 STR ''image type'') (\<lambda>value.
     rd_then (rd_lift (draw_copy_image_type value start)) (\<lambda>image_type.
     rd_then (Reader_u8 STR ''image flags'') (\<lambda>image_flags.
     if image_flags AND NOT 0b111 \<noteq> 0 then rd_err InvalidValue (start + 9) STR ''image flags''
     else if image_flags AND 0b101 \<noteq> 0 then rd_err Unsupported (start + 9) STR ''image cache flags''
     else
     rd_then (Reader_u32 STR ''image width'') (\<lambda>image_width.
     rd_then (Reader_u32 STR ''image height'') (\<lambda>image_height.
     rd_return (image_type, image_width, image_height)))))))"

definition decode_draw_copy_common :: "u8 list \<Rightarrow> DrawCopyCommon decoded" where
  "decode_draw_copy_common body =
     and_then (decode_with body read_draw_copy_fields) (\<lambda>(surface_id, destination, image_offset, source, rop_descriptor, scale_mode).
     and_then (resolve_range body image_offset 18 STR ''image descriptor'') (\<lambda>image_header.
     and_then (slice_index body (fst image_header) (snd image_header)) (\<lambda>bytes.
     and_then (decode_with bytes (read_draw_copy_image (fst image_header))) (\<lambda>(image_type, image_width, image_height).
     and_then (Rect_check destination) (\<lambda>_.
     and_then (Rect_check source) (\<lambda>_.
     Inr \<lparr>dcc_surface_id = surface_id, dcc_destination = destination, dcc_source = source, dcc_image_width = image_width,
       dcc_image_height = image_height, dcc_image_type = image_type, dcc_rop_descriptor = rop_descriptor,
       dcc_scale_mode = scale_mode, dcc_image_payload_offset = snd image_header\<rparr>))))))"

definition DrawCopyImageType_decode :: "u8 list \<Rightarrow> DrawCopyImageType decoded" where
  "DrawCopyImageType_decode body = and_then (decode_draw_copy_common body) (\<lambda>common. Inr (dcc_image_type common))"

text \<open>The entries of a palette behind its offset.\<close>

definition palette_entries :: "u8 list \<Rightarrow> u32 \<Rightarrow> nat \<Rightarrow> (u64 \<times> u8 list) decoded" where
  "palette_entries body palette_offset maximum_entries =
     and_then (resolve_range body palette_offset 10 STR ''palette header'') (\<lambda>header.
     and_then (slice_index body (fst header) (snd header)) (\<lambda>bytes.
     and_then (decode_with bytes (
       rd_then (Reader_u64 STR ''palette unique id'') (\<lambda>unique_id.
       rd_then (Reader_u16 STR ''palette entry count'') (\<lambda>entry_count.
       rd_return (unique_id, unat entry_count))))) (\<lambda>(unique_id, entry_count).
     if entry_count = 0 \<or> entry_count > maximum_entries
     then decode_err ResourceLimit (unat palette_offset) STR ''palette entry count''
     else
     and_then (ok_or (DecodeError_new Overflow (unat palette_offset) STR ''palette entries'') (usize_checked_mul entry_count 4)) (\<lambda>entry_bytes.
     and_then (ok_or (DecodeError_new Overflow (unat palette_offset) STR ''palette entries'') (u32_checked_add palette_offset 10)) (\<lambda>entries_offset.
     and_then (resolve_range body entries_offset entry_bytes STR ''palette entries'') (\<lambda>entries.
     and_then (slice_index body (fst entries) (snd entries)) (\<lambda>entries_bgrx.
     Inr (unique_id, entries_bgrx))))))))"

definition decode_palette :: "u8 list \<Rightarrow> u32 \<Rightarrow> nat \<Rightarrow> (u64 \<times> u8 list) decoded" where
  "decode_palette body palette_offset maximum_entries =
     (if palette_offset = 0 then decode_err InvalidOffset 0 STR ''palette offset''
      else palette_entries body palette_offset maximum_entries)"

text \<open>The palette union of a raw bitmap: where the pixels start, and the palette.\<close>

definition bitmap_update_palette :: "u8 list \<Rightarrow> BitmapFormat \<Rightarrow> u8 \<Rightarrow> nat \<Rightarrow> nat \<Rightarrow> (nat \<times> BitmapPalette option) decoded" where
  "bitmap_update_palette body format flags bitmap_offset bitmap_fixed_end =
     and_then (ok_or (DecodeError_new Overflow bitmap_fixed_end STR ''bitmap palette union'') (u32_try_from bitmap_fixed_end)) (\<lambda>union_offset.
     if flags AND PALETTE_FROM_CACHE \<noteq> 0
     then
       and_then (resolve_range body union_offset 8 STR ''palette id'') (\<lambda>id_range.
       and_then (slice_index body (fst id_range) (snd id_range)) (\<lambda>bytes.
       and_then (decode_with bytes (Reader_u64 STR ''palette id'')) (\<lambda>unique_id.
       if BitmapFormat_maximum_palette_entries format = None
       then decode_err InvalidValue (bitmap_offset + 1) STR ''direct bitmap palette flags''
       else Inr (snd id_range, Some (BitmapPalette_Cached unique_id)))))
     else
       and_then (resolve_range body union_offset 4 STR ''palette pointer'') (\<lambda>pointer_range.
       and_then (slice_index body (fst pointer_range) (snd pointer_range)) (\<lambda>bytes.
       and_then (decode_with bytes (Reader_u32 STR ''bitmap palette offset'')) (\<lambda>palette_offset.
       and_then (case BitmapFormat_maximum_palette_entries format of
           Some maximum_entries \<Rightarrow>
             if palette_offset = 0 then decode_err InvalidOffset bitmap_fixed_end STR ''indexed bitmap palette''
             else and_then (palette_entries body palette_offset maximum_entries) (\<lambda>(unique_id, entries_bgrx).
               Inr (Some (BitmapPalette_Inline unique_id (flags AND PALETTE_CACHE_ME \<noteq> 0) entries_bgrx)))
         | None \<Rightarrow>
             if palette_offset \<noteq> 0 \<or> flags AND PALETTE_CACHE_ME \<noteq> 0
             then decode_err InvalidValue bitmap_fixed_end STR ''direct bitmap palette''
             else Inr None) (\<lambda>palette.
       Inr (snd pointer_range, palette))))))"

definition read_bitmap_header :: "nat \<Rightarrow> (BitmapFormat \<times> u8 \<times> u32 \<times> u32 \<times> u32) reader_op" where
  "read_bitmap_header bitmap_offset =
     rd_then (Reader_u8 STR ''bitmap format'') (\<lambda>value.
     rd_then (rd_lift (BitmapFormat_try_from value)) (\<lambda>format.
     rd_then (Reader_u8 STR ''bitmap flags'') (\<lambda>flags.
     if palette_flags_invalid flags then rd_err InvalidValue (bitmap_offset + 1) STR ''bitmap flags''
     else
     rd_then (Reader_u32 STR ''bitmap width'') (\<lambda>bitmap_width.
     rd_then (Reader_u32 STR ''bitmap height'') (\<lambda>bitmap_height.
     rd_then (Reader_u32 STR ''bitmap stride'') (\<lambda>stride.
     rd_return (format, flags, bitmap_width, bitmap_height, stride)))))))"

definition BitmapUpdate_decode_draw_copy :: "u8 list \<Rightarrow> nat \<Rightarrow> BitmapUpdate decoded" where
  "BitmapUpdate_decode_draw_copy body maximum_bitmap_bytes =
     and_then (decode_draw_copy_common body) (\<lambda>common.
     if dcc_image_type common \<noteq> ImageType_Bitmap
     then decode_err Unsupported (dcc_image_payload_offset common - 10) STR ''compressed image type''
     else
     let bitmap_offset = dcc_image_payload_offset common in
     and_then (ok_or (DecodeError_new Overflow bitmap_offset STR ''bitmap header'') (usize_checked_add bitmap_offset 14)) (\<lambda>bitmap_fixed_end.
     and_then (ok_or (DecodeError_new Truncated bitmap_offset STR ''bitmap header'') (slice_get body bitmap_offset bitmap_fixed_end)) (\<lambda>bitmap_header.
     and_then (decode_with bitmap_header (read_bitmap_header bitmap_offset)) (\<lambda>(format, flags, bitmap_width, bitmap_height, stride).
     if bitmap_width \<noteq> dcc_image_width common \<or> bitmap_height \<noteq> dcc_image_height common
     then decode_err InvalidValue (bitmap_offset + 2) STR ''bitmap and image dimensions''
     else
     and_then (bitmap_update_palette body format flags bitmap_offset bitmap_fixed_end) (\<lambda>(bitmap_header_end, palette).
     and_then (ok_or (DecodeError_new Overflow (bitmap_offset + 2) STR ''bitmap stride'')
                 (BitmapFormat_minimum_stride format bitmap_width)) (\<lambda>minimum_stride.
     if unat stride < minimum_stride then decode_err InvalidValue (bitmap_offset + 10) STR ''bitmap stride''
     else
     and_then (ok_or (DecodeError_new Overflow (bitmap_offset + 10) STR ''bitmap bytes'')
                 (usize_checked_mul (unat stride) (unat bitmap_height))) (\<lambda>pixel_length.
     if pixel_length > maximum_bitmap_bytes then decode_err ResourceLimit bitmap_header_end STR ''bitmap bytes''
     else
     and_then (ok_or (DecodeError_new Overflow bitmap_header_end STR ''bitmap bytes'') (usize_checked_add bitmap_header_end pixel_length)) (\<lambda>pixel_end.
     and_then (ok_or (DecodeError_new Truncated bitmap_header_end STR ''bitmap bytes'') (slice_get body bitmap_header_end pixel_end)) (\<lambda>pixel_bytes.
     and_then (Rect_check (dcc_destination common)) (\<lambda>_.
     and_then (Rect_check (dcc_source common)) (\<lambda>_.
     Inr \<lparr>bu_surface_id = dcc_surface_id common, bu_destination = dcc_destination common, bu_source = dcc_source common,
       bu_image_width = dcc_image_width common, bu_image_height = dcc_image_height common, bu_format = format,
       bu_rop_descriptor = dcc_rop_descriptor common, bu_scale_mode = dcc_scale_mode common, bu_stride = stride,
       bu_top_down = (flags AND BITMAP_TOP_DOWN \<noteq> 0), bu_palette = palette, bu_pixel_bytes = pixel_bytes\<rparr>)))))))))))"

text \<open>The palette of an LZ palette image, read inside its payload.\<close>

definition read_lz_palette :: "u8 list \<Rightarrow> u8 \<Rightarrow> context_str \<Rightarrow> context_str \<Rightarrow> BitmapPalette reader_op" where
  "read_lz_palette body flags id_ctx offset_ctx =
     (if flags AND PALETTE_FROM_CACHE \<noteq> 0
      then rd_then (Reader_u64 id_ctx) (\<lambda>unique_id. rd_return (BitmapPalette_Cached unique_id))
      else
      rd_then (Reader_u32 offset_ctx) (\<lambda>palette_offset.
      rd_then (rd_lift (decode_palette body palette_offset 256)) (\<lambda>(unique_id, entries_bgrx).
      rd_return (BitmapPalette_Inline unique_id (flags AND PALETTE_CACHE_ME \<noteq> 0) entries_bgrx))))"

text \<open>What stands before the compressed bytes, by image type: palette, data size, output size and the bytes consumed.\<close>

definition read_compressed_update :: "u8 list \<Rightarrow> DrawCopyImageType \<Rightarrow> nat \<Rightarrow> (BitmapPalette option \<times> nat \<times> nat \<times> nat option) reader_op" where
  "read_compressed_update body image_type payload_offset =
     (case image_type of
        ImageType_Quic \<Rightarrow>
          rd_then (Reader_u32 STR ''QUIC data size'') (\<lambda>data_size.
          rd_then Reader_offset (\<lambda>here. rd_return (None, unat data_size, payload_offset + here, None)))
      | ImageType_ZlibGlzRgb \<Rightarrow>
          rd_then (Reader_u32 STR ''zlib GLZ output size'') (\<lambda>uncompressed_bytes.
          rd_then (Reader_u32 STR ''zlib GLZ data size'') (\<lambda>data_size.
          rd_then Reader_offset (\<lambda>here. rd_return (None, unat data_size, payload_offset + here, Some (unat uncompressed_bytes)))))
      | ImageType_LzPalette \<Rightarrow>
          rd_then (Reader_u8 STR ''LZ palette flags'') (\<lambda>flags.
          if palette_flags_invalid flags then rd_err InvalidValue payload_offset STR ''LZ palette flags''
          else
          rd_then (Reader_u32 STR ''LZ palette data size'') (\<lambda>data_size.
          rd_then (read_lz_palette body flags STR ''LZ palette id'' STR ''LZ palette offset'') (\<lambda>palette.
          rd_then Reader_offset (\<lambda>here. rd_return (Some palette, unat data_size, payload_offset + here, None)))))
      | ImageType_Bitmap \<Rightarrow> rd_lift (Inl Panic)
      | ImageType_Jpeg \<Rightarrow> rd_lift (Inl Panic)
      | ImageType_JpegAlpha \<Rightarrow> rd_lift (Inl Panic)
      | _ \<Rightarrow>
          rd_then (Reader_u32 STR ''LZ data size'') (\<lambda>data_size.
          rd_then Reader_offset (\<lambda>here. rd_return (None, unat data_size, payload_offset + here, None))))"

definition CompressedImageUpdate_decode_draw_copy :: "u8 list \<Rightarrow> nat \<Rightarrow> CompressedImageUpdate decoded" where
  "CompressedImageUpdate_decode_draw_copy body maximum_compressed_bytes =
     and_then (decode_draw_copy_common body) (\<lambda>common.
     let payload_offset = dcc_image_payload_offset common in
     if dcc_image_type common \<in> {ImageType_Bitmap, ImageType_Jpeg, ImageType_JpegAlpha}
     then decode_err Unsupported (payload_offset - 10) STR ''uncompressed image type''
     else
     and_then (ok_or (DecodeError_new Truncated payload_offset STR ''LZ image payload'') (slice_get body payload_offset (length body))) (\<lambda>payload.
     and_then (decode_with payload (read_compressed_update body (dcc_image_type common) payload_offset)) (\<lambda>(palette, data_size, data_offset, uncompressed_bytes).
     if data_size > maximum_compressed_bytes then decode_err ResourceLimit data_offset STR ''LZ compressed bytes''
     else if pred_option (\<lambda>bytes. \<not> (bytes = 0 \<or> bytes > DEFAULT_MAX_COMPRESSED_BYTES)) uncompressed_bytes then
     and_then (ok_or (DecodeError_new Overflow data_offset STR ''LZ compressed bytes'') (usize_checked_add data_offset data_size)) (\<lambda>data_end.
     and_then (ok_or (DecodeError_new Truncated data_offset STR ''LZ compressed bytes'') (slice_get body data_offset data_end)) (\<lambda>compressed_bytes.
     Inr \<lparr>cu_surface_id = dcc_surface_id common, cu_destination = dcc_destination common, cu_source = dcc_source common,
       cu_image_width = dcc_image_width common, cu_image_height = dcc_image_height common, cu_image_type = dcc_image_type common,
       cu_rop_descriptor = dcc_rop_descriptor common, cu_scale_mode = dcc_scale_mode common, cu_palette = palette,
       cu_compressed_bytes = compressed_bytes, cu_uncompressed_bytes = uncompressed_bytes\<rparr>))
     else decode_err ResourceLimit payload_offset STR ''zlib GLZ output bytes'')))"

definition JPEG_TOP_DOWN :: u8 where [simp]: "JPEG_TOP_DOWN = 1"

definition read_jpeg_update :: "DrawCopyImageType \<Rightarrow> nat \<Rightarrow> (bool option \<times> nat \<times> nat \<times> nat) reader_op" where
  "read_jpeg_update image_type payload_offset =
     (case image_type of
        ImageType_Jpeg \<Rightarrow>
          rd_then (Reader_u32 STR ''JPEG data size'') (\<lambda>data_size.
          rd_then Reader_offset (\<lambda>here. rd_return (None, unat data_size, unat data_size, here)))
      | ImageType_JpegAlpha \<Rightarrow>
          rd_then (Reader_u8 STR ''JPEG alpha flags'') (\<lambda>flags.
          if flags AND NOT JPEG_TOP_DOWN \<noteq> 0 then rd_err InvalidValue payload_offset STR ''JPEG alpha flags''
          else
          rd_then (Reader_u32 STR ''JPEG alpha JPEG size'') (\<lambda>jpeg_size.
          rd_then (Reader_u32 STR ''JPEG alpha data size'') (\<lambda>data_size.
          rd_then Reader_offset (\<lambda>here. rd_return (Some (flags AND JPEG_TOP_DOWN \<noteq> 0), unat jpeg_size, unat data_size, here)))))
      | _ \<Rightarrow> rd_err Unsupported (payload_offset - 10) STR ''non-JPEG image type'')"

text \<open>\<open>&data[..jpeg_size]\<close> and \<open>alpha_top_down.map(|_| &data[jpeg_size..])\<close>.\<close>

definition split_jpeg :: "u8 list \<Rightarrow> nat \<Rightarrow> bool option \<Rightarrow> (u8 list \<times> u8 list option) decoded" where
  "split_jpeg data jpeg_size alpha_top_down =
     and_then (slice_index data 0 jpeg_size) (\<lambda>jpeg_bytes.
     case alpha_top_down of
       None \<Rightarrow> Inr (jpeg_bytes, None)
     | Some _ \<Rightarrow> and_then (slice_index data jpeg_size (length data)) (\<lambda>alpha. Inr (jpeg_bytes, Some alpha)))"

definition JpegUpdate_decode_draw_copy :: "u8 list \<Rightarrow> nat \<Rightarrow> JpegUpdate decoded" where
  "JpegUpdate_decode_draw_copy body maximum_compressed_bytes =
     and_then (decode_draw_copy_common body) (\<lambda>common.
     let payload_offset = dcc_image_payload_offset common in
     and_then (ok_or (DecodeError_new Truncated payload_offset STR ''JPEG image payload'') (slice_get body payload_offset (length body))) (\<lambda>payload.
     and_then (decode_with payload (read_jpeg_update (dcc_image_type common) payload_offset)) (\<lambda>(alpha_top_down, jpeg_size, data_size, here).
     let data_offset = payload_offset + here in
     if data_size = 0 \<or> data_size > maximum_compressed_bytes \<or> jpeg_size = 0
     then decode_err ResourceLimit data_offset STR ''JPEG compressed bytes''
     else if jpeg_size > data_size \<or> (alpha_top_down \<noteq> None \<and> jpeg_size = data_size)
     then decode_err InvalidValue data_offset STR ''JPEG alpha stream sizes''
     else
     and_then (ok_or (DecodeError_new Overflow data_offset STR ''JPEG compressed bytes'') (usize_checked_add data_offset data_size)) (\<lambda>data_end.
     and_then (ok_or (DecodeError_new Truncated data_offset STR ''JPEG compressed bytes'') (slice_get body data_offset data_end)) (\<lambda>data.
     and_then (split_jpeg data jpeg_size alpha_top_down) (\<lambda>(jpeg_bytes, alpha_lz_bytes).
     Inr \<lparr>ju_surface_id = dcc_surface_id common, ju_destination = dcc_destination common, ju_source = dcc_source common,
       ju_image_width = dcc_image_width common, ju_image_height = dcc_image_height common, ju_rop_descriptor = dcc_rop_descriptor common,
       ju_scale_mode = dcc_scale_mode common, ju_alpha_top_down = alpha_top_down, ju_jpeg_bytes = jpeg_bytes,
       ju_alpha_lz_bytes = alpha_lz_bytes\<rparr>))))))"

section \<open>Embedded images\<close>

definition read_embedded_bitmap_header :: "nat \<Rightarrow> (BitmapFormat \<times> u8 \<times> u32 \<times> u32 \<times> u32) reader_op" where
  "read_embedded_bitmap_header start =
     rd_then (Reader_u8 STR ''Composite bitmap format'') (\<lambda>value.
     rd_then (rd_lift (BitmapFormat_try_from value)) (\<lambda>format.
     rd_then (Reader_u8 STR ''Composite bitmap flags'') (\<lambda>flags.
     if palette_flags_invalid flags then rd_err InvalidValue (start + 1) STR ''Composite bitmap flags''
     else
     rd_then (Reader_u32 STR ''Composite bitmap width'') (\<lambda>width.
     rd_then (Reader_u32 STR ''Composite bitmap height'') (\<lambda>height.
     rd_then (Reader_u32 STR ''Composite bitmap stride'') (\<lambda>stride.
     rd_return (format, flags, width, height, stride)))))))"

definition embedded_bitmap_palette :: "u8 list \<Rightarrow> BitmapFormat \<Rightarrow> u8 \<Rightarrow> nat \<Rightarrow> u32 \<Rightarrow> (nat \<times> BitmapPalette option) decoded" where
  "embedded_bitmap_palette body format flags start union_offset =
     (if flags AND PALETTE_FROM_CACHE \<noteq> 0
      then
       and_then (resolve_range body union_offset 8 STR ''Composite bitmap palette id'') (\<lambda>range.
       if BitmapFormat_maximum_palette_entries format = None
       then decode_err InvalidValue (start + 1) STR ''Composite direct bitmap palette''
       else
       and_then (slice_index body (fst range) (snd range)) (\<lambda>bytes.
       and_then (decode_with bytes (Reader_u64 STR ''Composite bitmap palette id'')) (\<lambda>unique_id.
       Inr (snd range, Some (BitmapPalette_Cached unique_id)))))
      else
       and_then (resolve_range body union_offset 4 STR ''Composite bitmap palette offset'') (\<lambda>range.
       and_then (slice_index body (fst range) (snd range)) (\<lambda>bytes.
       and_then (decode_with bytes (Reader_u32 STR ''Composite bitmap palette offset'')) (\<lambda>palette_offset.
       and_then (case BitmapFormat_maximum_palette_entries format of
           Some maximum_entries \<Rightarrow>
             and_then (decode_palette body palette_offset maximum_entries) (\<lambda>(unique_id, entries_bgrx).
             Inr (Some (BitmapPalette_Inline unique_id (flags AND PALETTE_CACHE_ME \<noteq> 0) entries_bgrx)))
         | None \<Rightarrow>
             if palette_offset \<noteq> 0 \<or> flags AND PALETTE_CACHE_ME \<noteq> 0
             then decode_err InvalidValue (fst range) STR ''Composite direct bitmap palette''
             else Inr None) (\<lambda>palette.
       Inr (snd range, palette))))))"

definition decode_embedded_bitmap :: "u8 list \<Rightarrow> CompositeEmbeddedImage \<Rightarrow> u32 \<Rightarrow> nat \<Rightarrow> EmbeddedBitmap decoded" where
  "decode_embedded_bitmap body descriptor payload_offset maximum_bytes =
     and_then (resolve_range body payload_offset 14 STR ''Composite bitmap header'') (\<lambda>header_range.
     and_then (slice_index body (fst header_range) (snd header_range)) (\<lambda>bytes.
     let start = fst header_range in
     and_then (decode_with bytes (read_embedded_bitmap_header start)) (\<lambda>(format, flags, width, height, stride).
     if width \<noteq> ce_width descriptor \<or> height \<noteq> ce_height descriptor
     then decode_err InvalidValue (start + 2) STR ''Composite bitmap descriptor dimensions''
     else
     and_then (ok_or (DecodeError_new Overflow (snd header_range) STR ''Composite bitmap palette union'') (u32_checked_add payload_offset 14)) (\<lambda>union_offset.
     and_then (embedded_bitmap_palette body format flags start union_offset) (\<lambda>(pixel_offset, palette).
     and_then (ok_or (DecodeError_new Overflow (start + 10) STR ''Composite bitmap stride'') (BitmapFormat_minimum_stride format width)) (\<lambda>minimum_stride.
     if unat stride < minimum_stride then decode_err InvalidValue (start + 10) STR ''Composite bitmap stride''
     else
     and_then (ok_or (DecodeError_new Overflow pixel_offset STR ''Composite bitmap bytes'') (usize_checked_mul (unat stride) (unat height))) (\<lambda>pixel_length.
     if pixel_length > maximum_bytes then decode_err ResourceLimit pixel_offset STR ''Composite bitmap bytes''
     else
     and_then (ok_or (DecodeError_new Overflow pixel_offset STR ''Composite bitmap bytes'') (usize_checked_add pixel_offset pixel_length)) (\<lambda>pixel_end.
     and_then (ok_or (DecodeError_new Truncated pixel_offset STR ''Composite bitmap bytes'') (slice_get body pixel_offset pixel_end)) (\<lambda>pixel_bytes.
     Inr \<lparr>eb_width = width, eb_height = height, eb_format = format, eb_stride = stride,
       eb_top_down = (flags AND BITMAP_TOP_DOWN \<noteq> 0), eb_palette = palette, eb_pixel_bytes = pixel_bytes\<rparr>)))))))))"

definition read_embedded_compressed ::
    "u8 list \<Rightarrow> DrawCopyImageType \<Rightarrow> nat \<Rightarrow> (BitmapPalette option \<times> nat \<times> nat option \<times> nat) reader_op" where
  "read_embedded_compressed body image_type payload_start =
     (case image_type of
        ImageType_LzPalette \<Rightarrow>
          rd_then (Reader_u8 STR ''Composite LZ palette flags'') (\<lambda>flags.
          if palette_flags_invalid flags then rd_err InvalidValue payload_start STR ''Composite LZ palette flags''
          else
          rd_then (Reader_u32 STR ''Composite LZ palette data size'') (\<lambda>data_size.
          rd_then (read_lz_palette body flags STR ''Composite LZ palette id'' STR ''Composite LZ palette offset'') (\<lambda>palette.
          rd_then Reader_offset (\<lambda>here. rd_return (Some palette, unat data_size, None, here)))))
      | ImageType_ZlibGlzRgb \<Rightarrow>
          rd_then (Reader_u32 STR ''Composite zlib GLZ output size'') (\<lambda>output_bytes.
          rd_then (Reader_u32 STR ''Composite zlib GLZ data size'') (\<lambda>data_size.
          rd_then Reader_offset (\<lambda>here. rd_return (None, unat data_size, Some (unat output_bytes), here))))
      | ImageType_Bitmap \<Rightarrow> rd_err Unsupported payload_start STR ''Composite compressed image type''
      | ImageType_Jpeg \<Rightarrow> rd_err Unsupported payload_start STR ''Composite compressed image type''
      | ImageType_JpegAlpha \<Rightarrow> rd_err Unsupported payload_start STR ''Composite compressed image type''
      | _ \<Rightarrow>
          rd_then (Reader_u32 STR ''Composite compressed data size'') (\<lambda>data_size.
          rd_then Reader_offset (\<lambda>here. rd_return (None, unat data_size, None, here))))"

definition decode_embedded_compressed :: "u8 list \<Rightarrow> CompositeEmbeddedImage \<Rightarrow> u32 \<Rightarrow> nat \<Rightarrow> EmbeddedCompressedImage decoded" where
  "decode_embedded_compressed body descriptor payload_offset maximum_bytes =
     (let payload_start = unat payload_offset in
      and_then (ok_or (DecodeError_new InvalidOffset payload_start STR ''Composite compressed image payload'')
                  (slice_get body payload_start (length body))) (\<lambda>payload.
      and_then (decode_with payload (read_embedded_compressed body (ce_image_type descriptor) payload_start)) (\<lambda>(palette, data_size, uncompressed_bytes, here).
      let data_offset = payload_start + here in
      if data_size = 0 \<or> data_size > maximum_bytes then decode_err ResourceLimit data_offset STR ''Composite compressed image bytes''
      else if pred_option (\<lambda>bytes. \<not> (bytes = 0 \<or> bytes > maximum_bytes)) uncompressed_bytes then
      and_then (ok_or (DecodeError_new Overflow data_offset STR ''Composite compressed image bytes'') (usize_checked_add data_offset data_size)) (\<lambda>data_end.
      and_then (ok_or (DecodeError_new Truncated data_offset STR ''Composite compressed image bytes'') (slice_get body data_offset data_end)) (\<lambda>compressed_bytes.
      Inr \<lparr>em_width = ce_width descriptor, em_height = ce_height descriptor, em_image_type = ce_image_type descriptor,
        em_palette = palette, em_compressed_bytes = compressed_bytes, em_uncompressed_bytes = uncompressed_bytes\<rparr>))
      else decode_err ResourceLimit payload_start STR ''Composite zlib GLZ output bytes'')))"

definition read_embedded_jpeg :: "DrawCopyImageType \<Rightarrow> nat \<Rightarrow> (bool option \<times> nat \<times> nat \<times> nat) reader_op" where
  "read_embedded_jpeg image_type payload_start =
     (case image_type of
        ImageType_Jpeg \<Rightarrow>
          rd_then (Reader_u32 STR ''Composite JPEG data size'') (\<lambda>data_size.
          rd_then Reader_offset (\<lambda>here. rd_return (None, unat data_size, unat data_size, here)))
      | ImageType_JpegAlpha \<Rightarrow>
          rd_then (Reader_u8 STR ''Composite JPEG alpha flags'') (\<lambda>flags.
          if flags AND NOT JPEG_TOP_DOWN \<noteq> 0 then rd_err InvalidValue payload_start STR ''Composite JPEG alpha flags''
          else
          rd_then (Reader_u32 STR ''Composite JPEG alpha JPEG size'') (\<lambda>jpeg_size.
          rd_then (Reader_u32 STR ''Composite JPEG alpha data size'') (\<lambda>data_size.
          rd_then Reader_offset (\<lambda>here. rd_return (Some (flags AND JPEG_TOP_DOWN \<noteq> 0), unat jpeg_size, unat data_size, here)))))
      | _ \<Rightarrow> rd_lift (Inl Panic))"

definition decode_embedded_jpeg :: "u8 list \<Rightarrow> CompositeEmbeddedImage \<Rightarrow> u32 \<Rightarrow> nat \<Rightarrow> EmbeddedJpeg decoded" where
  "decode_embedded_jpeg body descriptor payload_offset maximum_bytes =
     (let payload_start = unat payload_offset in
      and_then (ok_or (DecodeError_new InvalidOffset payload_start STR ''Composite JPEG payload'') (slice_get body payload_start (length body))) (\<lambda>payload.
      and_then (decode_with payload (read_embedded_jpeg (ce_image_type descriptor) payload_start)) (\<lambda>(alpha_top_down, jpeg_size, data_size, here).
      let data_offset = payload_start + here in
      if data_size = 0 \<or> data_size > maximum_bytes \<or> jpeg_size = 0 \<or> jpeg_size > data_size
      then decode_err ResourceLimit data_offset STR ''Composite JPEG bytes''
      else if alpha_top_down \<noteq> None \<and> jpeg_size = data_size
      then decode_err InvalidValue data_offset STR ''Composite JPEG alpha stream sizes''
      else
      and_then (ok_or (DecodeError_new Overflow data_offset STR ''Composite JPEG bytes'') (usize_checked_add data_offset data_size)) (\<lambda>data_end.
      and_then (ok_or (DecodeError_new Truncated data_offset STR ''Composite JPEG bytes'') (slice_get body data_offset data_end)) (\<lambda>data.
      and_then (split_jpeg data jpeg_size alpha_top_down) (\<lambda>(jpeg_bytes, alpha_lz_bytes).
      Inr \<lparr>ej_width = ce_width descriptor, ej_height = ce_height descriptor, ej_alpha_top_down = alpha_top_down,
        ej_jpeg_bytes = jpeg_bytes, ej_alpha_lz_bytes = alpha_lz_bytes\<rparr>))))))"

definition decode_embedded_image :: "u8 list \<Rightarrow> CompositeEmbeddedImage \<Rightarrow> nat \<Rightarrow> EmbeddedImage decoded" where
  "decode_embedded_image body descriptor maximum_bytes =
     and_then (ok_or (DecodeError_new Overflow (unat (ce_image_offset descriptor)) STR ''Composite embedded image payload'')
                 (u32_checked_add (ce_image_offset descriptor) 18)) (\<lambda>payload_offset.
     if ce_image_type descriptor = ImageType_Bitmap
     then and_then (decode_embedded_bitmap body descriptor payload_offset maximum_bytes) (\<lambda>v. Inr (EmbeddedImage_Bitmap v))
     else if ce_image_type descriptor = ImageType_Jpeg \<or> ce_image_type descriptor = ImageType_JpegAlpha
     then and_then (decode_embedded_jpeg body descriptor payload_offset maximum_bytes) (\<lambda>v. Inr (EmbeddedImage_Jpeg v))
     else and_then (decode_embedded_compressed body descriptor payload_offset maximum_bytes) (\<lambda>v. Inr (EmbeddedImage_Compressed v)))"

definition EmbeddedImage_decode :: "u8 list \<Rightarrow> CompositeEmbeddedImage \<Rightarrow> nat \<Rightarrow> EmbeddedImage decoded" where
  "EmbeddedImage_decode body descriptor maximum_bytes = decode_embedded_image body descriptor maximum_bytes"

section \<open>No decoder panics\<close>

lemma safe_reader_draw_copy_fields [safe_reader_intros]: "safe_reader read_draw_copy_fields"
  unfolding read_draw_copy_fields_def by (intro safe_reader_intros no_panic_intros)

lemma no_panic_draw_copy_image_type [no_panic_intros]: "no_panic (draw_copy_image_type value start)"
  by (simp add: draw_copy_image_type_def)

lemma safe_reader_draw_copy_image [safe_reader_intros]: "safe_reader (read_draw_copy_image start)"
  unfolding read_draw_copy_image_def by (intro safe_reader_intros no_panic_intros)

lemma no_panic_draw_copy_common [no_panic_intros]: "no_panic (decode_draw_copy_common body)"
  unfolding decode_draw_copy_common_def
  by (intro no_panic_intros safe_reader_intros) (auto dest: resolve_range_bounds)

lemma no_panic_DrawCopyImageType_decode [no_panic_intros]: "no_panic (DrawCopyImageType_decode body)"
  unfolding DrawCopyImageType_decode_def by (intro no_panic_intros)

lemma no_panic_palette_entries [no_panic_intros]: "no_panic (palette_entries body off n)"
  unfolding palette_entries_def
  by (intro no_panic_intros safe_reader_intros) (auto dest: resolve_range_bounds)

lemma no_panic_decode_palette [no_panic_intros]: "no_panic (decode_palette body off n)"
  unfolding decode_palette_def by (intro no_panic_intros)

declare no_panic_case_option [no_panic_intros]

lemma no_panic_bitmap_update_palette [no_panic_intros]: "no_panic (bitmap_update_palette body format flags o1 o2)"
  unfolding bitmap_update_palette_def
  by (intro no_panic_intros safe_reader_intros) (auto dest: resolve_range_bounds)

lemma safe_reader_bitmap_header [safe_reader_intros]:
  "safe_reader (read_bitmap_header off)" "safe_reader (read_embedded_bitmap_header off)"
  unfolding read_bitmap_header_def read_embedded_bitmap_header_def by (intro safe_reader_intros no_panic_intros)+

lemma no_panic_BitmapUpdate_decode [no_panic_intros]: "no_panic (BitmapUpdate_decode_draw_copy body n)"
  unfolding BitmapUpdate_decode_draw_copy_def Let_def by (intro no_panic_intros safe_reader_intros)

lemma safe_reader_case_prod [safe_reader_intros]: "(\<And>a b. safe_reader (f a b)) \<Longrightarrow> safe_reader (case x of (a, b) \<Rightarrow> f a b)"
  by (cases x) simp

lemma safe_reader_lz_palette [safe_reader_intros]: "safe_reader (read_lz_palette body flags c d)"
  unfolding read_lz_palette_def by (intro safe_reader_intros no_panic_intros)

lemma safe_reader_compressed [safe_reader_intros]:
  "t \<notin> {ImageType_Bitmap, ImageType_Jpeg, ImageType_JpegAlpha} \<Longrightarrow> safe_reader (read_compressed_update body t off)"
  "safe_reader (read_embedded_compressed body t off)" "safe_reader (read_jpeg_update t off)"
  "t = ImageType_Jpeg \<or> t = ImageType_JpegAlpha \<Longrightarrow> safe_reader (read_embedded_jpeg t off)"
  by (cases t; auto simp: read_compressed_update_def read_embedded_compressed_def read_jpeg_update_def read_embedded_jpeg_def
      intro!: safe_reader_intros no_panic_intros)+

lemma no_panic_CompressedImageUpdate_decode [no_panic_intros]: "no_panic (CompressedImageUpdate_decode_draw_copy body n)"
  unfolding CompressedImageUpdate_decode_draw_copy_def Let_def by (intro no_panic_intros safe_reader_intros)

lemma no_panic_split_jpeg [no_panic_intros]: "n \<le> length data \<Longrightarrow> no_panic (split_jpeg data n a)"
  unfolding split_jpeg_def by (intro no_panic_intros) auto

lemma no_panic_JpegUpdate_decode [no_panic_intros]: "no_panic (JpegUpdate_decode_draw_copy body n)"
  unfolding JpegUpdate_decode_draw_copy_def Let_def by (intro no_panic_intros safe_reader_intros) auto

lemma no_panic_embedded_bitmap_palette [no_panic_intros]: "no_panic (embedded_bitmap_palette body format flags o1 o2)"
  unfolding embedded_bitmap_palette_def
  by (intro no_panic_intros safe_reader_intros) (auto dest: resolve_range_bounds)

lemma no_panic_embedded_bitmap [no_panic_intros]: "no_panic (decode_embedded_bitmap body d off n)"
  unfolding decode_embedded_bitmap_def Let_def
  by (intro no_panic_intros safe_reader_intros) (auto dest: resolve_range_bounds)

lemma no_panic_embedded_compressed [no_panic_intros]: "no_panic (decode_embedded_compressed body d off n)"
  unfolding decode_embedded_compressed_def Let_def by (intro no_panic_intros safe_reader_intros)

lemma no_panic_embedded_jpeg [no_panic_intros]:
  "ce_image_type d = ImageType_Jpeg \<or> ce_image_type d = ImageType_JpegAlpha \<Longrightarrow> no_panic (decode_embedded_jpeg body d off n)"
  unfolding decode_embedded_jpeg_def Let_def by (intro no_panic_intros safe_reader_intros) auto

lemma no_panic_EmbeddedImage_decode [no_panic_intros]: "no_panic (EmbeddedImage_decode body d n)"
  unfolding EmbeddedImage_decode_def decode_embedded_image_def by (intro no_panic_intros)


section \<open>What an accepted payload is\<close>

text \<open>Bits per pixel, written down from the format names.\<close>

fun bitmap_bits :: "BitmapFormat \<Rightarrow> nat" where
  "bitmap_bits BitmapFormat_Indexed1Be = 1"
| "bitmap_bits BitmapFormat_Indexed4Be = 4"
| "bitmap_bits BitmapFormat_Indexed8 = 8"
| "bitmap_bits BitmapFormat_Rgb16 = 16"
| "bitmap_bits BitmapFormat_Bgr24 = 24"
| "bitmap_bits BitmapFormat_Xrgb32 = 32"
| "bitmap_bits BitmapFormat_Rgba32 = 32"
| "bitmap_bits BitmapFormat_Alpha8 = 8"

text \<open>An indexed format has a palette with between one entry and as many as its indices can name; other formats have none.\<close>

definition palette_fits :: "nat option \<Rightarrow> u8 list \<Rightarrow> BitmapPalette option \<Rightarrow> bool" where
  "palette_fits limit body palette = (case palette of
       None \<Rightarrow> limit = None
     | Some (BitmapPalette_Cached _) \<Rightarrow> limit \<noteq> None
     | Some (BitmapPalette_Inline _ _ entries) \<Rightarrow>
         \<exists>n m. limit = Some m \<and> 1 \<le> n \<and> n \<le> m \<and> length entries = 4 * n \<and> sublist entries body)"

text \<open>\<open>part\<close> stands in \<open>body\<close> from byte \<open>start\<close> on.\<close>

definition stands_at :: "u8 list \<Rightarrow> nat \<Rightarrow> u8 list \<Rightarrow> bool" where
  "stands_at body start part \<longleftrightarrow> start + length part \<le> length body \<and> part = take (length part) (drop start body)"

text \<open>A raw bitmap whose header is at \<open>start\<close>: format, flags, width, height and stride in 14 bytes, then eight bytes of a cached palette's
  identifier or four of a palette's offset, then the rows.\<close>

definition bitmap_payload_ok :: "u8 list \<Rightarrow> nat \<Rightarrow> nat \<Rightarrow> BitmapFormat \<Rightarrow> u32 \<Rightarrow> u32 \<Rightarrow> u32 \<Rightarrow> bool \<Rightarrow> BitmapPalette option \<Rightarrow> u8 list \<Rightarrow> bool" where
  "bitmap_payload_ok body start maximum format width height stride top_down palette pixels \<longleftrightarrow>
     BitmapFormat_code format = body ! start \<and> (top_down \<longleftrightarrow> bit (body ! (start + 1)) 2) \<and>
     stands_at body (start + 2) (to_le 4 width) \<and> stands_at body (start + 6) (to_le 4 height) \<and> stands_at body (start + 10) (to_le 4 stride) \<and>
     stands_at body (start + 14 + (if \<exists>k. palette = Some (BitmapPalette_Cached k) then 8 else 4)) pixels \<and>
     length pixels = unat stride * unat height \<and> length pixels \<le> maximum \<and> bitmap_bits format * unat width \<le> 8 * unat stride \<and>
     palette_fits (if bitmap_bits format \<le> 8 \<and> format \<noteq> BitmapFormat_Alpha8 then Some (2 ^ bitmap_bits format) else None) body palette"

text \<open>The bytes before compressed data, by image type.\<close>

definition compressed_header :: "DrawCopyImageType \<Rightarrow> BitmapPalette option \<Rightarrow> nat" where
  "compressed_header image_type palette =
     (if image_type = ImageType_LzPalette then 5 + (if \<exists>k. palette = Some (BitmapPalette_Cached k) then 8 else 4)
      else if image_type = ImageType_ZlibGlzRgb then 8 else 4)"

definition compressed_payload_ok ::
    "u8 list \<Rightarrow> nat \<Rightarrow> nat \<Rightarrow> nat \<Rightarrow> DrawCopyImageType \<Rightarrow> BitmapPalette option \<Rightarrow> nat option \<Rightarrow> u8 list \<Rightarrow> bool" where
  "compressed_payload_ok body start maximum output_maximum image_type palette uncompressed bytes \<longleftrightarrow>
     image_type \<notin> {ImageType_Bitmap, ImageType_Jpeg, ImageType_JpegAlpha} \<and>
     length bytes \<le> maximum \<and> stands_at body (start + compressed_header image_type palette) bytes \<and>
     palette_fits (if image_type = ImageType_LzPalette then Some 256 else None) body palette \<and>
     (case uncompressed of None \<Rightarrow> image_type \<noteq> ImageType_ZlibGlzRgb
      | Some n \<Rightarrow> image_type = ImageType_ZlibGlzRgb \<and> 0 < n \<and> n \<le> output_maximum)"

definition jpeg_payload_ok :: "u8 list \<Rightarrow> nat \<Rightarrow> nat \<Rightarrow> bool option \<Rightarrow> u8 list \<Rightarrow> u8 list option \<Rightarrow> bool" where
  "jpeg_payload_ok body start maximum alpha_top_down jpeg alpha \<longleftrightarrow>
     jpeg \<noteq> [] \<and> alpha \<noteq> Some [] \<and> (alpha = None \<longleftrightarrow> alpha_top_down = None) \<and>
     (let data = jpeg @ (case alpha of None \<Rightarrow> [] | Some bytes \<Rightarrow> bytes) in
      length data \<le> maximum \<and> stands_at body (start + (if alpha = None then 4 else 9)) data)"

text \<open>The payload of a Draw Copy image: the 18-byte descriptor is at the offset stored in bytes 21 to 24 of the message.\<close>

definition draw_copy_payload :: "u8 list \<Rightarrow> nat" where
  "draw_copy_payload body = unat (from_le (take 4 (drop 21 body)) :: u32) + 18"

lemma stands_at_slice: "start + n \<le> length body \<Longrightarrow> stands_at body start (take n (drop start body))"
  by (simp add: stands_at_def)

lemma draw_copy_common_payload:
  "decode_draw_copy_common body = Inr common \<Longrightarrow> dcc_image_payload_offset common = draw_copy_payload body"
  by (auto simp: decode_draw_copy_common_def read_draw_copy_fields_def read_rect_def reader_width draw_copy_payload_def split: if_split_asm)

lemma sublist_slice [simp]: "sublist (take n (drop k body)) body"
  by (metis append_take_drop_id sublist_appendI)

lemma minimum_stride_bits:
  "BitmapFormat_minimum_stride format width = Some m \<Longrightarrow> m \<le> s \<Longrightarrow> bitmap_bits format * unat width \<le> 8 * s"
  by (cases format) auto

lemma palette_limit:
  "BitmapFormat_maximum_palette_entries format =
     (if bitmap_bits format \<le> 8 \<and> format \<noteq> BitmapFormat_Alpha8 then Some (2 ^ bitmap_bits format) else None)"
  by (cases format) simp_all

lemma palette_entries_ok:
  "palette_entries body off m = Inr (i, entries) \<Longrightarrow>
     \<exists>n. 1 \<le> n \<and> n \<le> m \<and> length entries = 4 * n \<and> sublist entries body"
  by (auto simp: palette_entries_def slice_index_def expect_def not_less Suc_le_eq split: if_split_asm option.split_asm dest!: resolve_range_bounds)

lemma decode_palette_ok:
  "decode_palette body off m = Inr (i, entries) \<Longrightarrow>
     \<exists>n. 1 \<le> n \<and> n \<le> m \<and> length entries = 4 * n \<and> sublist entries body"
  by (auto simp: decode_palette_def split: if_split_asm dest: palette_entries_ok)

lemma update_palette_ok:
  assumes "bitmap_update_palette body format flags o1 o2 = Inr (e, palette)"
  shows "palette_fits (BitmapFormat_maximum_palette_entries format) body palette \<and>
    e = o2 + (if \<exists>k. palette = Some (BitmapPalette_Cached k) then 8 else 4)"
  using assms
  by (cases "BitmapFormat_maximum_palette_entries format")
    (auto simp: bitmap_update_palette_def palette_fits_def split: if_split_asm dest!: palette_entries_ok)

lemma embedded_palette_ok:
  assumes "embedded_bitmap_palette body format flags o1 o2 = Inr (e, palette)"
  shows "palette_fits (BitmapFormat_maximum_palette_entries format) body palette \<and>
    e = unat o2 + (if \<exists>k. palette = Some (BitmapPalette_Cached k) then 8 else 4)"
  using assms
  by (cases "BitmapFormat_maximum_palette_entries format")
    (auto simp: embedded_bitmap_palette_def palette_fits_def split: if_split_asm dest!: decode_palette_ok)

lemma bit_two: "bit w 2 \<longleftrightarrow> w AND 4 \<noteq> 0" for w :: u8
  using and_exp_eq_0_iff_not_bit [of w 2] by auto

lemma header_field: "k + n \<le> 14 \<Longrightarrow> take n (drop k (take 14 (drop start body))) = take n (drop (start + k) body)"
  by (simp add: drop_take min_def add.commute)

lemma header_last: "drop 10 (take 14 (drop start body)) = take 4 (drop (start + 10) body)"
  by (simp add: drop_take add.commute)

lemma bitmap_header_fields:
  assumes "m = read_bitmap_header off \<or> m = read_embedded_bitmap_header off"
    "decode_with (take 14 (drop start body)) m = Inr (format, flags, width, height, stride)" "start + 14 \<le> length body"
  shows "BitmapFormat_code format = body ! start \<and> flags = body ! (start + 1) \<and> stands_at body (start + 2) (to_le 4 width) \<and>
    stands_at body (start + 6) (to_le 4 height) \<and> stands_at body (start + 10) (to_le 4 stride)"
proof -
  have "BitmapFormat_code format = body ! start" "flags = body ! (start + 1)" "width = from_le (take 4 (drop (start + 2) body))"
    "height = from_le (take 4 (drop (start + 6) body))" "stride = from_le (take 4 (drop (start + 10) body))"
    using assms by (auto simp: read_bitmap_header_def read_embedded_bitmap_header_def reader_width header_field header_last split: if_split_asm)
  with assms(3) show ?thesis by (auto intro!: stands_at_slice)
qed

lemma bitmap_update_ok:
  assumes "BitmapUpdate_decode_draw_copy body maximum = Inr u"
  shows "bitmap_payload_ok body (draw_copy_payload body) maximum (bu_format u) (bu_image_width u) (bu_image_height u) (bu_stride u)
    (bu_top_down u) (bu_palette u) (bu_pixel_bytes u)"
proof -
  from assms obtain common format flags palette e m where
      d: "decode_draw_copy_common body = Inr common" "draw_copy_payload body + 14 \<le> length body"
        "decode_with (take 14 (drop (draw_copy_payload body) body)) (read_bitmap_header (draw_copy_payload body)) =
          Inr (format, flags, bu_image_width u, bu_image_height u, bu_stride u)"
      and pal: "bitmap_update_palette body format flags (draw_copy_payload body) (draw_copy_payload body + 14) = Inr (e, palette)"
      and st: "BitmapFormat_minimum_stride format (bu_image_width u) = Some m" "m \<le> unat (bu_stride u)"
        "unat (bu_stride u) * unat (bu_image_height u) \<le> maximum" "e + unat (bu_stride u) * unat (bu_image_height u) \<le> length body"
      and u: "bu_format u = format" "bu_palette u = palette" "bu_top_down u = (flags AND 4 \<noteq> 0)"
        "bu_pixel_bytes u = take (unat (bu_stride u) * unat (bu_image_height u)) (drop e body)"
    unfolding BitmapUpdate_decode_draw_copy_def Let_def
    by (auto simp: not_less dest!: draw_copy_common_payload split: if_split_asm)
  from bitmap_header_fields [OF _ d(3,2)] update_palette_ok [OF pal] minimum_stride_bits [OF st(1,2)] st u show ?thesis
    unfolding bitmap_payload_ok_def palette_limit [symmetric] by (auto simp: bit_two intro!: stands_at_slice)
qed

lemma embedded_bitmap_ok:
  assumes "decode_embedded_bitmap body d off maximum = Inr b"
  shows "bitmap_payload_ok body (unat off) maximum (eb_format b) (eb_width b) (eb_height b) (eb_stride b) (eb_top_down b) (eb_palette b) (eb_pixel_bytes b) \<and>
    eb_width b = ce_width d \<and> eb_height b = ce_height d"
proof -
  from assms obtain flags e m union where
      d: "unat off + 14 \<le> length body" "eb_width b = ce_width d" "eb_height b = ce_height d"
        "decode_with (take 14 (drop (unat off) body)) (read_embedded_bitmap_header (unat off)) =
          Inr (eb_format b, flags, eb_width b, eb_height b, eb_stride b)"
      and pal: "u32_checked_add off 14 = Some union" "embedded_bitmap_palette body (eb_format b) flags (unat off) union = Inr (e, eb_palette b)"
      and st: "BitmapFormat_minimum_stride (eb_format b) (eb_width b) = Some m" "m \<le> unat (eb_stride b)"
        "unat (eb_stride b) * unat (eb_height b) \<le> maximum" "e + unat (eb_stride b) * unat (eb_height b) \<le> length body"
        "eb_top_down b = (flags AND 4 \<noteq> 0)" "eb_pixel_bytes b = take (unat (eb_stride b) * unat (eb_height b)) (drop e body)"
    unfolding decode_embedded_bitmap_def Let_def by (auto simp: not_less split: if_split_asm)
  have "unat union = unat off + 14" using pal(1) by (auto simp: u32_checked_add_def unat_word_ariths split: if_split_asm)
  with bitmap_header_fields [OF _ d(4,1)] embedded_palette_ok [OF pal(2)] minimum_stride_bits [OF st(1,2)] st d show ?thesis
    unfolding bitmap_payload_ok_def palette_limit [symmetric] by (auto simp: bit_two intro!: stands_at_slice)
qed

lemma lz_palette_ok:
  "read_lz_palette body flags c d r = Inr (p, r') \<Longrightarrow> palette_fits (Some 256) body (Some p) \<and>
     rd_offset r' = rd_offset r + (if \<exists>k. p = BitmapPalette_Cached k then 8 else 4)"
  by (auto simp: read_lz_palette_def palette_fits_def reader_width rd_lift_def split: if_split_asm dest!: decode_palette_ok)

lemma read_compressed_ok:
  "read_compressed_update body t off (Reader_new xs) = Inr ((palette, n, k, out), r') \<Longrightarrow>
     palette_fits (if t = ImageType_LzPalette then Some 256 else None) body palette \<and> (out = None \<longleftrightarrow> t \<noteq> ImageType_ZlibGlzRgb) \<and>
     k = off + compressed_header t palette"
  "read_embedded_compressed body t off (Reader_new xs) = Inr ((palette, n, out, k), r') \<Longrightarrow>
     palette_fits (if t = ImageType_LzPalette then Some 256 else None) body palette \<and> (out = None \<longleftrightarrow> t \<noteq> ImageType_ZlibGlzRgb) \<and>
     k = compressed_header t palette \<and> t \<notin> {ImageType_Bitmap, ImageType_Jpeg, ImageType_JpegAlpha}"
  by (cases t; auto simp: read_compressed_update_def read_embedded_compressed_def reader_width rd_lift_def compressed_header_def
      split: if_split_asm dest!: lz_palette_ok; simp add: palette_fits_def)+

lemma compressed_update_ok:
  assumes "CompressedImageUpdate_decode_draw_copy body maximum = Inr u"
  shows "compressed_payload_ok body (draw_copy_payload body) maximum 268435456 (cu_image_type u) (cu_palette u) (cu_uncompressed_bytes u) (cu_compressed_bytes u)"
  using assms unfolding CompressedImageUpdate_decode_draw_copy_def Let_def compressed_payload_ok_def
  by (auto simp: not_less stands_at_def split: if_split_asm option.split dest!: read_compressed_ok(1) draw_copy_common_payload)

lemma embedded_compressed_ok:
  assumes "decode_embedded_compressed body d off maximum = Inr u"
  shows "compressed_payload_ok body (unat off) maximum maximum (em_image_type u) (em_palette u) (em_uncompressed_bytes u) (em_compressed_bytes u) \<and>
    em_compressed_bytes u \<noteq> [] \<and> em_width u = ce_width d \<and> em_height u = ce_height d \<and> em_image_type u = ce_image_type d"
  using assms unfolding decode_embedded_compressed_def Let_def compressed_payload_ok_def
  by (auto simp: not_less stands_at_def split: if_split_asm option.split dest!: read_compressed_ok(2))

lemma split_jpeg_ok:
  assumes "split_jpeg (take m (drop k body)) n a = Inr (jpeg, alpha)" "0 < n" "n \<le> m" "k + m \<le> length body"
    "a \<noteq> None \<longrightarrow> n \<noteq> m" "a = None \<longrightarrow> n = m" "m \<le> maximum" "k = start + (if a = None then 4 else 9)"
  shows "jpeg_payload_ok body start maximum a jpeg alpha"
proof -
  have "jpeg = take n (drop k body)" "alpha = map_option (\<lambda>_. drop n (take m (drop k body))) a"
    using assms(1-4) by (auto simp: split_jpeg_def slice_index_def expect_def split: option.split_asm if_split_asm)
  moreover have "take n (drop k body) @ drop n (take m (drop k body)) = take m (drop k body)"
    using append_take_drop_id [of n "take m (drop k body)"] assms(3) by (simp add: min_def)
  ultimately show ?thesis using assms(2-)
    by (cases a) (auto simp: jpeg_payload_ok_def Let_def stands_at_def simp del: drop_take)
qed

lemma read_jpeg_sizes:
  "read_jpeg_update t off (Reader_new xs) = Inr ((a, n, m, k), r') \<Longrightarrow> (a = None \<longrightarrow> n = m) \<and> k = (if a = None then 4 else 9)"
  "read_embedded_jpeg t off (Reader_new xs) = Inr ((a, n, m, k), r') \<Longrightarrow> (a = None \<longrightarrow> n = m) \<and> k = (if a = None then 4 else 9)"
  by (cases t; auto simp: read_jpeg_update_def read_embedded_jpeg_def reader_width rd_lift_def split: if_split_asm)+

lemma jpeg_update_ok:
  assumes "JpegUpdate_decode_draw_copy body maximum = Inr u"
  shows "jpeg_payload_ok body (draw_copy_payload body) maximum (ju_alpha_top_down u) (ju_jpeg_bytes u) (ju_alpha_lz_bytes u)"
  using assms unfolding JpegUpdate_decode_draw_copy_def Let_def
  by (auto simp: not_less split: if_split_asm dest!: read_jpeg_sizes(1) draw_copy_common_payload intro!: split_jpeg_ok)

lemma embedded_jpeg_ok:
  assumes "decode_embedded_jpeg body d off maximum = Inr u"
  shows "jpeg_payload_ok body (unat off) maximum (ej_alpha_top_down u) (ej_jpeg_bytes u) (ej_alpha_lz_bytes u) \<and>
    ej_width u = ce_width d \<and> ej_height u = ce_height d"
  using assms unfolding decode_embedded_jpeg_def Let_def
  by (auto simp: not_less split: if_split_asm dest!: read_jpeg_sizes(2) intro!: split_jpeg_ok)

definition on_success :: "('a \<Rightarrow> bool) \<Rightarrow> 'a decoded \<Rightarrow> bool" where
  "on_success P m = (case m of Inr v \<Rightarrow> P v | Inl _ \<Rightarrow> True)"

lemma on_successI: "(\<And>v. m = Inr v \<Longrightarrow> P v) \<Longrightarrow> on_success P m"
  by (auto simp: on_success_def split: sum.split)

text \<open>An accepted image payload is what its header says, at the place the message gives. For a Draw Copy message with the payload at
  the stored offset plus 18 bytes, and for an image embedded at a descriptor's offset plus 18: a raw bitmap has the format, the
  dimensions and the stride of its 14-byte header, its pixels are the bytes after the palette union, exactly stride times height of
  them, every row has room for its width, and an indexed format (and only one) has a palette of between one and two to the power of its bits entries;
  compressed bytes and JPEG data (with an alpha stream that is not empty, if there is one) follow their own headers. Nothing exceeds
  the caller's bound, and an embedded image has the descriptor's dimensions and type.\<close>

theorem image_payloads_sound:
  "on_success (\<lambda>u. bitmap_payload_ok body (draw_copy_payload body) maximum (bu_format u) (bu_image_width u) (bu_image_height u)
      (bu_stride u) (bu_top_down u) (bu_palette u) (bu_pixel_bytes u)) (BitmapUpdate_decode_draw_copy body maximum) \<and>
   on_success (\<lambda>u. compressed_payload_ok body (draw_copy_payload body) maximum 268435456 (cu_image_type u) (cu_palette u)
      (cu_uncompressed_bytes u) (cu_compressed_bytes u)) (CompressedImageUpdate_decode_draw_copy body maximum) \<and>
   on_success (\<lambda>u. jpeg_payload_ok body (draw_copy_payload body) maximum (ju_alpha_top_down u) (ju_jpeg_bytes u) (ju_alpha_lz_bytes u))
      (JpegUpdate_decode_draw_copy body maximum) \<and>
   on_success (\<lambda>image. let start = unat (ce_image_offset d) + 18 in case image of
       EmbeddedImage_Bitmap b \<Rightarrow> ce_image_type d = ImageType_Bitmap \<and> eb_width b = ce_width d \<and> eb_height b = ce_height d \<and>
         bitmap_payload_ok body start maximum (eb_format b) (eb_width b) (eb_height b) (eb_stride b) (eb_top_down b) (eb_palette b) (eb_pixel_bytes b)
     | EmbeddedImage_Compressed m \<Rightarrow> ce_image_type d = em_image_type m \<and> em_width m = ce_width d \<and> em_height m = ce_height d \<and>
         em_compressed_bytes m \<noteq> [] \<and>
         compressed_payload_ok body start maximum maximum (em_image_type m) (em_palette m) (em_uncompressed_bytes m) (em_compressed_bytes m)
     | EmbeddedImage_Jpeg j \<Rightarrow> ce_image_type d \<in> {ImageType_Jpeg, ImageType_JpegAlpha} \<and> ej_width j = ce_width d \<and> ej_height j = ce_height d \<and>
         jpeg_payload_ok body start maximum (ej_alpha_top_down j) (ej_jpeg_bytes j) (ej_alpha_lz_bytes j))
      (EmbeddedImage_decode body d maximum)"
proof (intro conjI on_successI)
  fix image
  assume "EmbeddedImage_decode body d maximum = Inr image"
  then obtain off where off: "u32_checked_add (ce_image_offset d) 18 = Some off" and
    image: "(if ce_image_type d = ImageType_Bitmap
     then and_then (decode_embedded_bitmap body d off maximum) (\<lambda>v. Inr (EmbeddedImage_Bitmap v))
     else if ce_image_type d = ImageType_Jpeg \<or> ce_image_type d = ImageType_JpegAlpha
     then and_then (decode_embedded_jpeg body d off maximum) (\<lambda>v. Inr (EmbeddedImage_Jpeg v))
     else and_then (decode_embedded_compressed body d off maximum) (\<lambda>v. Inr (EmbeddedImage_Compressed v))) = Inr image"
    by (auto simp: EmbeddedImage_decode_def decode_embedded_image_def)
  have "unat off = unat (ce_image_offset d) + 18"
    using off by (auto simp: u32_checked_add_def unat_word_ariths split: if_split_asm)
  with image show "let start = unat (ce_image_offset d) + 18 in case image of
       EmbeddedImage_Bitmap b \<Rightarrow> ce_image_type d = ImageType_Bitmap \<and> eb_width b = ce_width d \<and> eb_height b = ce_height d \<and>
         bitmap_payload_ok body start maximum (eb_format b) (eb_width b) (eb_height b) (eb_stride b) (eb_top_down b) (eb_palette b) (eb_pixel_bytes b)
     | EmbeddedImage_Compressed m \<Rightarrow> ce_image_type d = em_image_type m \<and> em_width m = ce_width d \<and> em_height m = ce_height d \<and>
         em_compressed_bytes m \<noteq> [] \<and>
         compressed_payload_ok body start maximum maximum (em_image_type m) (em_palette m) (em_uncompressed_bytes m) (em_compressed_bytes m)
     | EmbeddedImage_Jpeg j \<Rightarrow> ce_image_type d \<in> {ImageType_Jpeg, ImageType_JpegAlpha} \<and> ej_width j = ce_width d \<and> ej_height j = ce_height d \<and>
         jpeg_payload_ok body start maximum (ej_alpha_top_down j) (ej_jpeg_bytes j) (ej_alpha_lz_bytes j)"
    by (auto simp: Let_def split: if_split_asm dest!: embedded_bitmap_ok embedded_jpeg_ok embedded_compressed_ok)
qed (fact bitmap_update_ok compressed_update_ok jpeg_update_ok)+

end
