(* ===== verification/Client_ImageCaches.thy ===== *)
theory Client_ImageCaches
  imports Client_CanvasExact Codec_Glz Spice_Images "HOL-Library.AList" "HOL-Library.Multiset"
begin

text \<open>
  The image dictionaries of the Display client (\<open>display.rs\<close>): the palette cache of one channel and
  the GLZ window that all Display channels of a session share. A \<open>HashMap\<close> is an association list with
  distinct keys; the mutex of the window is a flag that says whether a panic has poisoned it, and the
  watch channel that announces changes is its generation counter.

  Shown here: the palette cache never exceeds its two limits and its byte count is exact; the GLZ window
  after any number of insertions is a function of the set of images inserted and not of their order,
  although channels decode concurrently; and a channel that waits for an image never misses the
  notification of its insertion, whatever other channels, migrations and cancellations do meanwhile.
\<close>

section \<open>Maps with a byte count\<close>

definition bytes_of :: "('v \<Rightarrow> nat) \<Rightarrow> ('k \<times> 'v) list \<Rightarrow> nat" where
  "bytes_of f al = sum_list (map (f \<circ> snd) al)"

definition value_bytes :: "('v \<Rightarrow> nat) \<Rightarrow> 'v option \<Rightarrow> nat" where
  "value_bytes f v = (case v of None \<Rightarrow> 0 | Some x \<Rightarrow> f x)"

abbreviation keys_distinct :: "('k \<times> 'v) list \<Rightarrow> bool" where
  "keys_distinct al \<equiv> distinct (map fst al)"

lemma bytes_of_simps [simp]: "bytes_of f [] = 0" "bytes_of f (p # al) = f (snd p) + bytes_of f al"
  by (simp_all add: bytes_of_def)

lemma value_bytes_simps [simp]: "value_bytes f None = 0" "value_bytes f (Some x) = f x"
  by (simp_all add: value_bytes_def)

lemma bytes_of_delete:
  "keys_distinct al \<Longrightarrow> bytes_of f (AList.delete k al) + value_bytes f (map_of al k) = bytes_of f al"
proof (induction al)
  case (Cons p al)
  show ?case
  proof (cases "fst p = k")
    case True
    with Cons.prems have "k \<notin> fst ` set al" by auto
    then have "AList.delete k al = al" by (rule delete_id)
    with True show ?thesis by (cases p) (simp add: AList.delete_eq)
  next
    case False
    then show ?thesis using Cons by (cases p) (auto simp: AList.delete_eq)
  qed
qed (simp add: AList.delete_eq)

lemma bytes_of_update:
  "bytes_of f (AList.update k v al) + value_bytes f (map_of al k) = bytes_of f al + f v"
  by (induction al) auto

lemma length_update_new: "length (AList.update k v al) = (if map_of al k = None then length al + 1 else length al)"
  by (induction al) auto

lemma length_delete: "keys_distinct al \<Longrightarrow> length (AList.delete k al) \<le> length al"
  by (simp add: AList.delete_eq)

lemma value_bytes_le: "value_bytes f (map_of al k) \<le> bytes_of f al"
  by (induction al) auto

section \<open>The palette cache\<close>

definition MAX_PALETTE_CACHE_ENTRIES :: nat where [simp]: "MAX_PALETTE_CACHE_ENTRIES = 256"
definition MAX_PALETTE_CACHE_BYTES :: nat where [simp]: "MAX_PALETTE_CACHE_BYTES = 256 * 1024"

record PaletteCache =
  pc_entries :: "(u64 \<times> u8 list list) list"
  pc_retained_bytes :: nat

definition PaletteCache_new :: PaletteCache where
  "PaletteCache_new = \<lparr>pc_entries = [], pc_retained_bytes = 0\<rparr>"

definition PaletteCache_insert :: "u64 \<Rightarrow> u8 list list \<Rightarrow> PaletteCache \<Rightarrow> PaletteCache client" where
  "PaletteCache_insert unique_id entries c =
     (let existing_bytes = (case map_of (pc_entries c) unique_id of None \<Rightarrow> 0 | Some e \<Rightarrow> length e * 4) in
      and_then (ok_or (resource_limit_error STR ''palette bytes'') (usize_checked_mul (length entries) 4)) (\<lambda>entry_bytes.
      and_then (ok_or (resource_limit_error STR ''palette cache bytes'')
        (if existing_bytes \<le> pc_retained_bytes c
         then usize_checked_add (pc_retained_bytes c - existing_bytes) entry_bytes else None)) (\<lambda>updated_bytes.
      if map_of (pc_entries c) unique_id = None \<and> MAX_PALETTE_CACHE_ENTRIES \<le> length (pc_entries c) \<or>
         updated_bytes > MAX_PALETTE_CACHE_BYTES
      then client_err (resource_limit_error STR ''palette cache capacity'')
      else Inr \<lparr>pc_entries = AList.update unique_id entries (pc_entries c), pc_retained_bytes = updated_bytes\<rparr>)))"

fun palette_rgba :: "u8 list \<Rightarrow> u8 list list" where
  "palette_rgba (b # g # r # x # rest) = [r, g, b, 255] # palette_rgba rest"
| "palette_rgba _ = []"

definition PaletteCache_resolve :: "BitmapPalette option \<Rightarrow> PaletteCache \<Rightarrow> (u8 list list option \<times> PaletteCache) client" where
  "PaletteCache_resolve palette c =
     (case palette of
        None \<Rightarrow> Inr (None, c)
      | Some (BitmapPalette_Cached unique_id) \<Rightarrow>
          and_then (ok_or (protocol_value_error STR ''palette cache miss'') (map_of (pc_entries c) unique_id)) (\<lambda>e. Inr (Some e, c))
      | Some (BitmapPalette_Inline unique_id cache_me entries_bgrx) \<Rightarrow>
          (let entries = palette_rgba entries_bgrx in
           if cache_me then and_then (PaletteCache_insert unique_id entries c) (\<lambda>c. Inr (Some entries, c))
           else Inr (Some entries, c)))"

definition PaletteCache_invalidate :: "u64 \<Rightarrow> PaletteCache \<Rightarrow> PaletteCache" where
  "PaletteCache_invalidate unique_id c =
     (case map_of (pc_entries c) unique_id of
        None \<Rightarrow> c
      | Some entries \<Rightarrow> \<lparr>pc_entries = AList.delete unique_id (pc_entries c),
          pc_retained_bytes = pc_retained_bytes c - length entries * 4\<rparr>)"

definition PaletteCache_clear :: "PaletteCache \<Rightarrow> PaletteCache" where
  "PaletteCache_clear c = \<lparr>pc_entries = [], pc_retained_bytes = 0\<rparr>"

text \<open>The commands a channel issues to its cache, and the cache after a sequence of them: a failed
  \<open>resolve\<close> leaves the cache as it was.\<close>

datatype palette_op = PalResolve "BitmapPalette option" | PalInvalidate u64 | PalClear

fun palette_step :: "palette_op \<Rightarrow> PaletteCache \<Rightarrow> PaletteCache" where
  "palette_step (PalResolve p) c = (case PaletteCache_resolve p c of Inr (_, c') \<Rightarrow> c' | Inl _ \<Rightarrow> c)"
| "palette_step (PalInvalidate u) c = PaletteCache_invalidate u c"
| "palette_step PalClear c = PaletteCache_clear c"

definition palette_ok :: "PaletteCache \<Rightarrow> bool" where
  "palette_ok c \<longleftrightarrow> keys_distinct (pc_entries c) \<and> pc_retained_bytes c = bytes_of (\<lambda>e. length e * 4) (pc_entries c) \<and>
     length (pc_entries c) \<le> MAX_PALETTE_CACHE_ENTRIES \<and> pc_retained_bytes c \<le> MAX_PALETTE_CACHE_BYTES"

lemma existing_bytes: "(case v of None \<Rightarrow> 0 | Some e \<Rightarrow> length e * 4) = value_bytes (\<lambda>e. length e * 4) v"
  by (simp add: value_bytes_def)

lemma PaletteCache_insert_ok:
  "palette_ok c \<Longrightarrow> PaletteCache_insert u e c = Inr c' \<Longrightarrow> palette_ok c' \<and> pc_entries c' = AList.update u e (pc_entries c)"
  using bytes_of_update [of "\<lambda>e. length e * 4" u e "pc_entries c"]
  by (auto simp: PaletteCache_insert_def palette_ok_def existing_bytes Let_def distinct_update length_update_new split: if_splits)

lemma PaletteCache_invalidate_ok: "palette_ok c \<Longrightarrow> palette_ok (PaletteCache_invalidate u c)"
  using bytes_of_delete [of "pc_entries c" "\<lambda>e. length e * 4" u] length_delete [of "pc_entries c" u]
  by (auto simp: PaletteCache_invalidate_def palette_ok_def distinct_delete split: option.split)

lemma PaletteCache_resolve_ok: "palette_ok c \<Longrightarrow> PaletteCache_resolve p c = Inr (r, c') \<Longrightarrow> palette_ok c'"
  by (auto simp: PaletteCache_resolve_def Let_def dest: PaletteCache_insert_ok split: option.splits BitmapPalette.splits if_splits)

lemma palette_step_ok: "palette_ok c \<Longrightarrow> palette_ok (palette_step op c)"
  by (cases op) (auto simp: PaletteCache_invalidate_ok PaletteCache_clear_def palette_ok_def [of "\<lparr>pc_entries = [], pc_retained_bytes = 0\<rparr>"]
      dest: PaletteCache_resolve_ok split: sum.split)

lemma palette_run_ok: "palette_ok c \<Longrightarrow> palette_ok (fold palette_step ops c)"
  by (induction ops arbitrary: c) (simp_all add: palette_step_ok)

lemma palette_new_ok: "palette_ok PaletteCache_new"
  by (simp add: palette_ok_def PaletteCache_new_def)


section \<open>The GLZ window\<close>

definition DEFAULT_GLZ_DICTIONARY_BYTES :: nat where [simp]: "DEFAULT_GLZ_DICTIONARY_BYTES = 16 * 1024 * 1024"

record GlzWindow =
  gw_images :: "(u64 \<times> u8 list) list"
  gw_oldest_by_image :: "(u64 \<times> u64) list"
  gw_retained_bytes :: nat
  gw_oldest_image_id :: u64
  gw_next_contiguous_image_id :: u64
  gw_last_cleared_migration :: u64
  gw_poisoned :: bool
  gw_changed :: nat

definition glz_window :: GlzWindow where
  "glz_window = \<lparr>gw_images = [], gw_oldest_by_image = [], gw_retained_bytes = 0, gw_oldest_image_id = 0,
     gw_next_contiguous_image_id = 0, gw_last_cleared_migration = 0, gw_poisoned = False, gw_changed = 0\<rparr>"

definition GlzWindow_clear_for_migration :: "u64 \<Rightarrow> GlzWindow \<Rightarrow> unit client \<times> GlzWindow" where
  "GlzWindow_clear_for_migration migration_activation w =
     (if gw_poisoned w then (client_err (ClientError_Internal STR ''GLZ window lock poisoned''), w)
      else if gw_last_cleared_migration w \<ge> migration_activation then (Inr (), w)
      else (Inr (), w\<lparr>gw_images := [], gw_oldest_by_image := [], gw_retained_bytes := 0, gw_oldest_image_id := 0,
        gw_next_contiguous_image_id := 0, gw_last_cleared_migration := migration_activation,
        gw_changed := gw_changed w + 1\<rparr>))"

definition GlzWindow_resolve :: "GlzWindow \<Rightarrow> u64 \<Rightarrow> u8 list option" where
  "GlzWindow_resolve w image_id = (if gw_poisoned w then None else map_of (gw_images w) image_id)"

text \<open>The loop that advances over the images received without a gap; the increment of the identifier
  panics at its maximum.\<close>

function glz_advance :: "GlzWindow \<Rightarrow> GlzWindow client" where
  "glz_advance w =
     (case map_of (gw_oldest_by_image w) (gw_next_contiguous_image_id w) of
        None \<Rightarrow> Inr w
      | Some oldest \<Rightarrow>
          if gw_next_contiguous_image_id w = -1 then Inl Panic
          else glz_advance (w\<lparr>gw_oldest_by_image := AList.delete (gw_next_contiguous_image_id w) (gw_oldest_by_image w),
            gw_oldest_image_id := max (gw_oldest_image_id w) oldest,
            gw_next_contiguous_image_id := gw_next_contiguous_image_id w + 1\<rparr>))"
  by pat_completeness auto

lemma length_delete_present: "map_of al k = Some v \<Longrightarrow> length (AList.delete k al) < length al"
proof -
  assume "map_of al k = Some v"
  then have "(k, v) \<in> set al" by (rule map_of_SomeD)
  then have "\<exists>p \<in> set al. \<not> (\<lambda>(k', _). k \<noteq> k') p" by auto
  then show ?thesis unfolding AList.delete_eq by (metis length_filter_less)
qed

termination glz_advance
  by (relation "measure (\<lambda>w. length (gw_oldest_by_image w))") (auto intro: length_delete_present)

declare glz_advance.simps [simp del]

definition glz_evict :: "u64 \<Rightarrow> GlzWindow \<Rightarrow> GlzWindow client" where
  "glz_evict image_id w =
     (case map_of (gw_images w) image_id of
        None \<Rightarrow> Inr w
      | Some pixels \<Rightarrow>
          if gw_retained_bytes w < length pixels then Inl Panic
          else Inr (w\<lparr>gw_images := AList.delete image_id (gw_images w),
            gw_retained_bytes := gw_retained_bytes w - length pixels\<rparr>))"

definition glz_evict_older :: "GlzWindow \<Rightarrow> GlzWindow client" where
  "glz_evict_older w = for_each glz_evict (filter (\<lambda>image_id. image_id < gw_oldest_image_id w) (map fst (gw_images w))) w"

text \<open>\<open>insert\<close> works on the shared state, so that what it changed before an error stays. A panic poisons
  the lock, after which no operation reads the state again.\<close>

definition GlzWindow_insert :: "DecodedGlzImage \<Rightarrow> GlzWindow \<Rightarrow> unit client \<times> GlzWindow" where
  "GlzWindow_insert img w =
     (if gw_poisoned w then (client_err (ClientError_Internal STR ''GLZ window lock poisoned''), w)
      else if map_of (gw_images w) (gi_image_id img) \<noteq> None then (client_err (protocol_value_error STR ''duplicate GLZ image id''), w)
      else case usize_checked_add (gw_retained_bytes w) (length (gi_pixels img)) of
        None \<Rightarrow> (client_err (resource_limit_error STR ''GLZ dictionary bytes''), w)
      | Some retained_bytes \<Rightarrow>
          (let w = w\<lparr>gw_retained_bytes := retained_bytes,
                gw_images := AList.update (gi_image_id img) (gi_pixels img) (gw_images w),
                gw_oldest_by_image := AList.update (gi_image_id img) (gi_oldest_retained_image_id img) (gw_oldest_by_image w)\<rparr> in
           case and_then (glz_advance w) glz_evict_older of
             Inl e \<Rightarrow> (Inl e, w\<lparr>gw_poisoned := True\<rparr>)
           | Inr w \<Rightarrow>
               if gw_retained_bytes w > DEFAULT_GLZ_DICTIONARY_BYTES
               then (client_err (resource_limit_error STR ''GLZ dictionary bytes''), w)
               else (Inr (), w\<lparr>gw_changed := gw_changed w + 1\<rparr>)))"

text \<open>\<open>wait_for\<close>: the test under the lock. \<open>None\<close> means that the task goes to sleep.\<close>

definition glz_wait_check :: "u64 \<Rightarrow> GlzWindow \<Rightarrow> unit client option" where
  "glz_wait_check image_id w =
     (if gw_poisoned w then Some (client_err (ClientError_Internal STR ''GLZ window lock poisoned''))
      else if map_of (gw_images w) image_id \<noteq> None then Some (Inr ())
      else if image_id < gw_oldest_image_id w then Some (client_err (protocol_value_error STR ''evicted GLZ image reference''))
      else None)"

section \<open>The window is a function of the set of images\<close>

text \<open>The images inserted, as a partial map; the reference window for a list of images with distinct
  identifiers: the images that are not older than any image of the gap-free prefix still needs.\<close>

definition glz_ids :: "DecodedGlzImage list \<Rightarrow> u64 set" where
  "glz_ids ims = set (map gi_image_id ims)"

definition glz_find :: "DecodedGlzImage list \<Rightarrow> u64 \<Rightarrow> DecodedGlzImage option" where
  "glz_find ims k = find (\<lambda>m. gi_image_id m = k) ims"

definition glz_oldest :: "DecodedGlzImage list \<Rightarrow> u64 \<Rightarrow> u64" where
  "glz_oldest ims n = Max (insert 0 (gi_oldest_retained_image_id ` {m \<in> set ims. gi_image_id m < n}))"

definition glz_prefix_ok :: "DecodedGlzImage list \<Rightarrow> GlzWindow \<Rightarrow> bool" where
  "glz_prefix_ok ims w \<longleftrightarrow>
     (\<forall>k < gw_next_contiguous_image_id w. k \<in> glz_ids ims) \<and>
     gw_oldest_image_id w = glz_oldest ims (gw_next_contiguous_image_id w) \<and>
     (\<forall>k. map_of (gw_oldest_by_image w) k =
       (if k < gw_next_contiguous_image_id w then None else map_option gi_oldest_retained_image_id (glz_find ims k)))"

definition glz_images_ok :: "DecodedGlzImage list \<Rightarrow> u64 \<Rightarrow> GlzWindow \<Rightarrow> bool" where
  "glz_images_ok ims oldest w \<longleftrightarrow>
     keys_distinct (gw_images w) \<and> gw_retained_bytes w = bytes_of length (gw_images w) \<and>
     (\<forall>k. map_of (gw_images w) k = (if k < oldest then None else map_option gi_pixels (glz_find ims k)))"

lemma glz_find_append [simp]:
  "gi_image_id m \<notin> glz_ids ims \<Longrightarrow> glz_find (ims @ [m]) k = (if k = gi_image_id m then Some m else glz_find ims k)"
  by (induction ims) (auto simp: glz_find_def glz_ids_def)

lemma glz_find_None [simp]: "glz_find ims k = None \<longleftrightarrow> k \<notin> glz_ids ims"
  by (auto simp: glz_find_def glz_ids_def find_None_iff)

lemma glz_find_SomeD: "glz_find ims k = Some m \<Longrightarrow> m \<in> set ims \<and> gi_image_id m = k"
  by (auto simp: glz_find_def find_Some_iff)

lemma glz_find_unique: "distinct (map gi_image_id ims) \<Longrightarrow> m \<in> set ims \<Longrightarrow> glz_find ims (gi_image_id m) = Some m"
proof -
  assume d: "distinct (map gi_image_id ims)" "m \<in> set ims"
  then have "gi_image_id m \<in> glz_ids ims" by (simp add: glz_ids_def)
  then obtain x where x: "glz_find ims (gi_image_id m) = Some x" by (metis glz_find_None not_None_eq)
  then have "x \<in> set ims" "gi_image_id x = gi_image_id m" using glz_find_SomeD by auto
  with d have "x = m" by (auto simp: distinct_map inj_on_def)
  with x show ?thesis by simp
qed

lemma glz_ids_append [simp]: "glz_ids (ims @ [m]) = insert (gi_image_id m) (glz_ids ims)"
  by (auto simp: glz_ids_def)

lemma unat_less_succ:
  fixes n :: u64
  assumes "n < -1"
  shows "unat (n + 1) = unat n + 1"
proof -
  note assms
  then have "unat n < unat (-1 :: u64)" by (simp only: word_less_nat_alt)
  then have "unat n + unat (1 :: u64) < 2 ^ LENGTH(64)"
    by (simp add: unsigned_minus_1_eq_mask mask_eq_exp_minus_1)
  then have "unat (n + 1) = unat n + unat (1 :: u64)" by (rule unat_add_lem [THEN iffD1])
  then show ?thesis by simp
qed

lemma u64_less_succ:
  assumes "n \<noteq> -1"
  shows "k < n + 1 \<longleftrightarrow> k < n \<or> k = (n :: u64)"
proof -
  have "n < -1" using assms by (simp add: word_order.not_eq_extremum)
  then have "unat (n + 1) = unat n + 1" by (rule unat_less_succ)
  then show ?thesis by (auto simp: word_less_nat_alt less_Suc_eq simp flip: word_unat_eq_iff)
qed

lemma glz_oldest_succ:
  assumes "distinct (map gi_image_id ims)" "glz_find ims n = Some m" "n \<noteq> -1"
  shows "glz_oldest ims (n + 1) = max (glz_oldest ims n) (gi_oldest_retained_image_id m)"
proof -
  have m: "m \<in> set ims" "gi_image_id m = n" using glz_find_SomeD [OF assms(2)] by auto
  have "x = m" if "x \<in> set ims" "gi_image_id x = n" for x
    using that m assms(1) by (metis distinct_map inj_onD)
  then have split: "{x \<in> set ims. gi_image_id x < n + 1} = insert m {x \<in> set ims. gi_image_id x < n}"
    unfolding u64_less_succ [OF assms(3)] using m by blast
  have Max2: "Max (insert 0 (insert b A)) = max (Max (insert 0 A)) b" if "finite A" for A and b :: u64
  proof -
    have "insert 0 (insert b A) = insert b (insert 0 A)" by blast
    also have "Max \<dots> = max b (Max (insert 0 A))" using that by (intro Max_insert) auto
    finally show ?thesis by (simp only: max.commute)
  qed
  show ?thesis unfolding glz_oldest_def split image_insert by (rule Max2) simp
qed

lemma glz_advance_ok:
  assumes "distinct (map gi_image_id ims)" "glz_ids ims \<noteq> UNIV" "glz_prefix_ok ims w"
  shows "\<exists>w'. glz_advance w = Inr w' \<and> glz_prefix_ok ims w' \<and> gw_next_contiguous_image_id w' \<notin> glz_ids ims \<and>
    gw_oldest_image_id w \<le> gw_oldest_image_id w' \<and> gw_images w' = gw_images w \<and> gw_retained_bytes w' = gw_retained_bytes w \<and>
    gw_poisoned w' = gw_poisoned w \<and> gw_changed w' = gw_changed w \<and> gw_last_cleared_migration w' = gw_last_cleared_migration w"
  using assms(3)
proof (induction w rule: glz_advance.induct)
  case (1 w)
  let ?n = "gw_next_contiguous_image_id w"
  have at_n: "map_of (gw_oldest_by_image w) ?n = map_option gi_oldest_retained_image_id (glz_find ims ?n)"
    using "1.prems" by (simp add: glz_prefix_ok_def)
  show ?case
  proof (cases "glz_find ims ?n")
    case None
    with at_n have "glz_advance w = Inr w" by (simp add: glz_advance.simps [of w])
    with None "1.prems" show ?thesis by simp
  next
    case (Some m)
    then have m: "m \<in> set ims" "gi_image_id m = ?n" using glz_find_SomeD by auto
    then have n_in: "?n \<in> glz_ids ims" by (force simp: glz_ids_def)
    have n: "?n \<noteq> -1"
    proof
      assume e: "?n = -1"
      have "k \<in> glz_ids ims" for k
        using "1.prems" n_in e by (cases "k = -1") (auto simp: glz_prefix_ok_def word_order.not_eq_extremum)
      with assms(2) show False by auto
    qed
    let ?w = "w\<lparr>gw_oldest_by_image := AList.delete ?n (gw_oldest_by_image w),
      gw_oldest_image_id := max (gw_oldest_image_id w) (gi_oldest_retained_image_id m),
      gw_next_contiguous_image_id := ?n + 1\<rparr>"
    have "glz_prefix_ok ims ?w"
      using "1.prems" n_in glz_oldest_succ [OF assms(1) Some n]
      by (auto simp: glz_prefix_ok_def u64_less_succ [OF n] delete_conv')
    moreover have "glz_advance w = glz_advance ?w" using at_n Some n by (simp add: glz_advance.simps [of w])
    ultimately show ?thesis using "1.IH" [of "gi_oldest_retained_image_id m"] at_n Some n by fastforce
  qed
qed

lemma glz_evict_ok:
  assumes "keys_distinct (gw_images w)" "gw_retained_bytes w = bytes_of length (gw_images w)"
  shows "\<exists>al. glz_evict k w = Inr (w\<lparr>gw_images := al, gw_retained_bytes := bytes_of length al\<rparr>) \<and>
    keys_distinct al \<and> map_of al = (map_of (gw_images w))(k := None)"
proof (cases "map_of (gw_images w) k")
  case None
  then show ?thesis using assms by (intro exI [of _ "gw_images w"]) (auto simp: glz_evict_def)
next
  case (Some px)
  then show ?thesis
    using assms bytes_of_delete [OF assms(1), of length k]
    by (intro exI [of _ "AList.delete k (gw_images w)"]) (auto simp: glz_evict_def distinct_delete delete_conv')
qed

lemma glz_evicts_ok:
  assumes "keys_distinct (gw_images w)" "gw_retained_bytes w = bytes_of length (gw_images w)"
  shows "\<exists>al. for_each glz_evict ks w = Inr (w\<lparr>gw_images := al, gw_retained_bytes := bytes_of length al\<rparr>) \<and>
    keys_distinct al \<and> map_of al = map_of (gw_images w) |` (- set ks)"
  using assms
proof (induction ks arbitrary: w)
  case (Cons k ks)
  obtain al where al: "glz_evict k w = Inr (w\<lparr>gw_images := al, gw_retained_bytes := bytes_of length al\<rparr>)"
      "keys_distinct al" "map_of al = (map_of (gw_images w))(k := None)"
    using glz_evict_ok [OF Cons.prems] by blast
  from Cons.IH [of "w\<lparr>gw_images := al, gw_retained_bytes := bytes_of length al\<rparr>"] al(2) obtain al' where
    "for_each glz_evict ks (w\<lparr>gw_images := al, gw_retained_bytes := bytes_of length al\<rparr>) =
       Inr (w\<lparr>gw_images := al', gw_retained_bytes := bytes_of length al'\<rparr>)"
    "keys_distinct al'" "map_of al' = map_of al |` (- set ks)" by auto
  with al show ?case by (intro exI [of _ al']) (auto simp: restrict_map_def)
qed (auto intro!: exI [of _ "gw_images w" for w])

lemma glz_evict_older_ok:
  assumes w: "keys_distinct (gw_images w)" "gw_retained_bytes w = bytes_of length (gw_images w)"
    and k: "\<And>k. \<not> k < gw_oldest_image_id w \<Longrightarrow> map_of (gw_images w) k = map_option gi_pixels (glz_find ims k)"
  shows "\<exists>al. glz_evict_older w = Inr (w\<lparr>gw_images := al, gw_retained_bytes := bytes_of length al\<rparr>) \<and>
    glz_images_ok ims (gw_oldest_image_id w) (w\<lparr>gw_images := al, gw_retained_bytes := bytes_of length al\<rparr>)"
proof -
  let ?ks = "filter (\<lambda>k. k < gw_oldest_image_id w) (map fst (gw_images w))"
  obtain al where al: "for_each glz_evict ?ks w = Inr (w\<lparr>gw_images := al, gw_retained_bytes := bytes_of length al\<rparr>)"
    "keys_distinct al" "map_of al = map_of (gw_images w) |` (- set ?ks)"
    using glz_evicts_ok [OF w] by blast
  have "map_of al k = (if k < gw_oldest_image_id w then None else map_of (gw_images w) k)" for k
    unfolding al(3) by (auto simp: restrict_map_def map_of_eq_None_iff)
  then show ?thesis using al k by (intro exI [of _ al]) (simp add: glz_evict_older_def glz_images_ok_def)
qed

definition glz_window_ok :: "DecodedGlzImage list \<Rightarrow> GlzWindow \<Rightarrow> bool" where
  "glz_window_ok ims w \<longleftrightarrow>
     \<not> gw_poisoned w \<and> glz_prefix_ok ims w \<and> gw_next_contiguous_image_id w \<notin> glz_ids ims \<and>
     glz_images_ok ims (gw_oldest_image_id w) w \<and> gw_retained_bytes w \<le> DEFAULT_GLZ_DICTIONARY_BYTES"

definition glz_added :: "DecodedGlzImage \<Rightarrow> GlzWindow \<Rightarrow> GlzWindow" where
  "glz_added m w = w\<lparr>gw_retained_bytes := gw_retained_bytes w + length (gi_pixels m),
     gw_images := AList.update (gi_image_id m) (gi_pixels m) (gw_images w),
     gw_oldest_by_image := AList.update (gi_image_id m) (gi_oldest_retained_image_id m) (gw_oldest_by_image w)\<rparr>"

lemma glz_added_ok:
  assumes "glz_window_ok ims w" "gi_image_id m \<notin> glz_ids ims"
  shows "glz_prefix_ok (ims @ [m]) (glz_added m w)"
    "keys_distinct (gw_images (glz_added m w))"
    "gw_retained_bytes (glz_added m w) = bytes_of length (gw_images (glz_added m w))"
    "\<not> k < gw_oldest_image_id w \<Longrightarrow> map_of (gw_images (glz_added m w)) k = map_option gi_pixels (glz_find (ims @ [m]) k)"
proof -
  let ?n = "gw_next_contiguous_image_id w" and ?i = "gi_image_id m"
  have p: "glz_prefix_ok ims w" and im: "glz_images_ok ims (gw_oldest_image_id w) w" using assms(1) by (simp_all add: glz_window_ok_def)
  from p assms(2) have i: "\<not> ?i < ?n" by (auto simp: glz_prefix_ok_def)
  then have "{x \<in> set (ims @ [m]). gi_image_id x < ?n} = {x \<in> set ims. gi_image_id x < ?n}" by auto
  then have "glz_oldest (ims @ [m]) ?n = glz_oldest ims ?n" by (simp add: glz_oldest_def)
  then show "glz_prefix_ok (ims @ [m]) (glz_added m w)"
    using p assms(2) i by (auto simp: glz_prefix_ok_def glz_added_def update_conv')
  have "map_of (gw_images w) ?i = None" using im assms(2) by (simp add: glz_images_ok_def)
  then have bytes: "bytes_of length (AList.update ?i (gi_pixels m) (gw_images w)) = bytes_of length (gw_images w) + length (gi_pixels m)"
    using bytes_of_update [of length ?i "gi_pixels m" "gw_images w"] by simp
  show "keys_distinct (gw_images (glz_added m w))" using im by (simp add: glz_added_def glz_images_ok_def distinct_update)
  show "gw_retained_bytes (glz_added m w) = bytes_of length (gw_images (glz_added m w))"
    using im bytes by (simp add: glz_added_def glz_images_ok_def)
  show "\<not> k < gw_oldest_image_id w \<Longrightarrow> map_of (gw_images (glz_added m w)) k = map_option gi_pixels (glz_find (ims @ [m]) k)"
    using im assms(2) by (simp add: glz_added_def glz_images_ok_def update_conv')
qed

lemma GlzWindow_insert_ok:
  assumes "glz_window_ok ims w" "distinct (map gi_image_id (ims @ [m]))" "glz_ids (ims @ [m]) \<noteq> UNIV"
  shows "case GlzWindow_insert m w of
      (Inl e, _) \<Rightarrow> e = Err (resource_limit_error STR ''GLZ dictionary bytes'')
    | (Inr _, w') \<Rightarrow> glz_window_ok (ims @ [m]) w' \<and> gw_changed w' = gw_changed w + 1"
proof -
  have m: "gi_image_id m \<notin> glz_ids ims" using assms(2) by (simp add: glz_ids_def)
  note add = glz_added_ok [OF assms(1) m]
  have new: "\<not> gw_poisoned w" "map_of (gw_images w) (gi_image_id m) = None"
    using assms(1) m by (simp_all add: glz_window_ok_def glz_images_ok_def)
  obtain w1 where w1: "glz_advance (glz_added m w) = Inr w1" "glz_prefix_ok (ims @ [m]) w1" "gw_next_contiguous_image_id w1 \<notin> glz_ids (ims @ [m])"
    "gw_oldest_image_id w \<le> gw_oldest_image_id w1" "gw_images w1 = gw_images (glz_added m w)"
    "gw_retained_bytes w1 = gw_retained_bytes (glz_added m w)" "gw_poisoned w1 = gw_poisoned w" "gw_changed w1 = gw_changed w"
    using glz_advance_ok [OF assms(2,3) add(1)] by (auto simp: glz_added_def)
  have "map_of (gw_images w1) k = map_option gi_pixels (glz_find (ims @ [m]) k)" if "\<not> k < gw_oldest_image_id w1" for k
    using add(4) [of k] that w1(4,5) by (metis order_less_le_trans)
  then obtain al where al: "glz_evict_older w1 = Inr (w1\<lparr>gw_images := al, gw_retained_bytes := bytes_of length al\<rparr>)"
    "glz_images_ok (ims @ [m]) (gw_oldest_image_id w1) (w1\<lparr>gw_images := al, gw_retained_bytes := bytes_of length al\<rparr>)"
    using glz_evict_older_ok [of w1 "ims @ [m]"] add(2,3) w1(5,6) by metis
  let ?w2 = "w1\<lparr>gw_images := al, gw_retained_bytes := bytes_of length al\<rparr>"
  have ok: "glz_window_ok (ims @ [m]) (?w2\<lparr>gw_changed := c\<rparr>)" if "bytes_of length al \<le> DEFAULT_GLZ_DICTIONARY_BYTES" for c
    using that w1 al(2) new(1) by (simp add: glz_window_ok_def glz_prefix_ok_def glz_images_ok_def)
  show ?thesis
  proof (cases "gw_retained_bytes w + length (gi_pixels m) < usize_limit")
    case True
    then have "GlzWindow_insert m w = (if bytes_of length al > DEFAULT_GLZ_DICTIONARY_BYTES
      then (client_err (resource_limit_error STR ''GLZ dictionary bytes''), ?w2) else (Inr (), ?w2\<lparr>gw_changed := gw_changed w + 1\<rparr>))"
      using new w1(1,8) al(1) by (simp add: GlzWindow_insert_def glz_added_def usize_checked_add_def Let_def)
    with ok [of "gw_changed w + 1"] show ?thesis by (simp add: not_less)
  next
    case False
    with new show ?thesis by (simp add: GlzWindow_insert_def usize_checked_add_def)
  qed
qed

text \<open>The insertions of one session, in the order in which the channels took the lock.\<close>

fun GlzWindow_inserts :: "DecodedGlzImage list \<Rightarrow> GlzWindow \<Rightarrow> GlzWindow client" where
  "GlzWindow_inserts [] w = Inr w"
| "GlzWindow_inserts (m # ms) w =
     (case GlzWindow_insert m w of (Inl e, _) \<Rightarrow> Inl e | (Inr _, w) \<Rightarrow> GlzWindow_inserts ms w)"

lemma GlzWindow_inserts_ok:
  assumes "glz_window_ok ims w" "distinct (map gi_image_id (ims @ ms))" "glz_ids (ims @ ms) \<noteq> UNIV"
  shows "case GlzWindow_inserts ms w of Inl e \<Rightarrow> e = Err (resource_limit_error STR ''GLZ dictionary bytes'')
    | Inr w' \<Rightarrow> glz_window_ok (ims @ ms) w' \<and> gw_changed w' = gw_changed w + length ms"
  using assms
proof (induction ms arbitrary: ims w)
  case (Cons m ms)
  have "distinct (map gi_image_id (ims @ [m]))" using Cons.prems(2) by auto
  moreover have "glz_ids (ims @ [m]) \<noteq> UNIV" using Cons.prems(3) by (auto simp: glz_ids_def)
  ultimately have step: "case GlzWindow_insert m w of
      (Inl e, _) \<Rightarrow> e = Err (resource_limit_error STR ''GLZ dictionary bytes'')
    | (Inr _, w') \<Rightarrow> glz_window_ok (ims @ [m]) w' \<and> gw_changed w' = gw_changed w + 1"
    by (rule GlzWindow_insert_ok [OF Cons.prems(1)])
  show ?case
  proof (cases "GlzWindow_insert m w")
    case (Pair r w')
    show ?thesis
    proof (cases r)
      case (Inl e)
      with step Pair show ?thesis by simp
    next
      case (Inr u)
      with step Pair have "glz_window_ok (ims @ [m]) w'" "gw_changed w' = gw_changed w + 1" by simp_all
      with Cons.IH [OF this(1)] Cons.prems(2,3) Pair Inr show ?thesis by (simp split: sum.splits)
    qed
  qed
qed simp

lemma glz_window_empty: "glz_window_ok [] glz_window"
  by (simp add: glz_window_ok_def glz_window_def glz_prefix_ok_def glz_images_ok_def glz_ids_def glz_find_def glz_oldest_def)

lemma few_images: "length ims < 2 ^ 64 \<Longrightarrow> glz_ids ims \<noteq> UNIV"
proof
  assume "length ims < 2 ^ 64" "glz_ids ims = UNIV"
  then have "card (UNIV :: u64 set) \<le> length ims" by (metis card_length glz_ids_def length_map)
  moreover have "card (UNIV :: u64 set) = 2 ^ 64" by (simp add: card_word)
  ultimately show False using \<open>length ims < 2 ^ 64\<close> by linarith
qed

text \<open>The byte count of a map depends on the map alone.\<close>

lemma bytes_of_cong:
  assumes "keys_distinct al" "keys_distinct bl" "map_of al = map_of bl"
  shows "bytes_of f al = bytes_of f bl"
proof -
  have "set al = set bl" using assms by (metis map_of_inject_set)
  then have "mset al = mset bl" using assms(1,2) by (metis distinct_map set_eq_iff_mset_eq_distinct)
  then show ?thesis unfolding bytes_of_def by (metis mset_map sum_mset_sum_list)
qed

lemma glz_window_bytes:
  assumes "glz_window_ok ims w" "distinct (map gi_image_id ims)"
  shows "gw_retained_bytes w = sum_list (map (length \<circ> gi_pixels) (filter (\<lambda>m. gw_oldest_image_id w \<le> gi_image_id m) ims))"
proof -
  let ?kept = "filter (\<lambda>m. gw_oldest_image_id w \<le> gi_image_id m) ims"
  let ?al = "map (\<lambda>m. (gi_image_id m, gi_pixels m)) ?kept"
  have keys: "keys_distinct ?al" using assms(2) by (simp add: comp_def distinct_map_filter)
  have find: "map_of (map (\<lambda>m. (gi_image_id m, gi_pixels m)) (filter P xs)) k = map_option gi_pixels (find (\<lambda>m. gi_image_id m = k \<and> P m) xs)"
    for P and xs :: "DecodedGlzImage list" and k by (induction xs) auto
  have "map_of (gw_images w) k = map_of ?al k" for k
  proof (cases "k < gw_oldest_image_id w")
    case True
    moreover from this have "find (\<lambda>m. gi_image_id m = k \<and> gw_oldest_image_id w \<le> gi_image_id m) ims = None"
      by (auto simp: find_None_iff)
    ultimately show ?thesis using assms(1) by (simp add: find glz_window_ok_def glz_images_ok_def)
  next
    case False
    then have "(\<lambda>m. gi_image_id m = k \<and> gw_oldest_image_id w \<le> gi_image_id m) = (\<lambda>m. gi_image_id m = k)" by auto
    then have "map_of ?al k = map_option gi_pixels (glz_find ims k)" unfolding find glz_find_def by (rule arg_cong)
    with False show ?thesis using assms(1) by (simp add: glz_window_ok_def glz_images_ok_def)
  qed
  then have "bytes_of length (gw_images w) = bytes_of length ?al"
    using assms(1) keys by (intro bytes_of_cong) (auto simp: glz_window_ok_def glz_images_ok_def)
  then show ?thesis using assms(1) by (simp add: glz_window_ok_def glz_images_ok_def bytes_of_def comp_def)
qed

lemma glz_inserted_ok:
  assumes "distinct (map gi_image_id ims)" "length ims < 2 ^ 64" "GlzWindow_inserts ims glz_window = Inr w"
  shows "glz_window_ok ims w"
  using GlzWindow_inserts_ok [OF glz_window_empty, of ims] assms few_images by simp

lemma glz_window_next_unique:
  "glz_window_ok ims w \<Longrightarrow> glz_window_ok ims w' \<Longrightarrow> gw_next_contiguous_image_id w' = gw_next_contiguous_image_id w"
  unfolding glz_window_ok_def glz_prefix_ok_def by (metis linorder_less_linear)

lemma glz_window_ok_perm:
  assumes "distinct (map gi_image_id ims)" "mset ims' = mset ims" "glz_window_ok ims' w"
  shows "glz_window_ok ims w"
proof -
  have s: "set ims' = set ims" using assms(2) by (metis mset_eq_setD)
  have "distinct (map gi_image_id ims')" using assms(1,2) by (metis mset_map mset_eq_imp_distinct_iff)
  then have "glz_find ims' k = glz_find ims k" for k
  proof (cases "glz_find ims k")
    case None
    then have "glz_find ims' k = None" using s by (simp add: glz_ids_def)
    from this None show ?thesis by (rule trans [OF _ sym])
  next
    case (Some m)
    then have "m \<in> set ims'" "gi_image_id m = k" using glz_find_SomeD s by auto
    with \<open>distinct (map gi_image_id ims')\<close> Some show ?thesis using glz_find_unique by metis
  qed
  then show ?thesis using assms(3) s by (simp add: glz_window_ok_def glz_prefix_ok_def glz_images_ok_def glz_ids_def glz_oldest_def)
qed

section \<open>Waiting for an image\<close>

text \<open>
  A channel that waits for an image runs beside the channels that insert images, beside a migration that
  clears the window, and beside the session's cancellation. The locked part of \<open>insert\<close> and
  \<open>clear_for_migration\<close> and the \<open>send_modify\<close> that follows it are separate steps: the window's
  generation stays behind by the notifications not yet sent, which \<open>gz_notifying\<close> counts. \<open>subscribe\<close>
  and every wakeup mark the current generation as seen, and \<open>changed()\<close> is ready when the generation is
  another one. The generation's sender is a field of the window that \<open>wait_for\<close> borrows, so it cannot be
  gone during the wait.

  \<open>gz_failed\<close> says that an operation on the window has failed, which ends the task of its channel;
  \<open>gz_inserted\<close> is a history variable, the images inserted since the wait began and not cleared by a
  migration since.
\<close>

datatype glz_waiter = GlzTesting nat | GlzSuspended nat | GlzReturned "unit client"

record glz_world =
  gz_window :: GlzWindow
  gz_notifying :: nat
  gz_failed :: bool
  gz_cancel :: bool
  gz_cancel_unseen :: bool
  gz_cancel_sender :: bool
  gz_waiter :: glz_waiter
  gz_inserted :: "u64 set"

definition glz_locked :: "unit client \<times> GlzWindow \<Rightarrow> glz_world \<Rightarrow> glz_world" where
  "glz_locked rw z =
     (let (r, w) = rw; generation = gw_changed (gz_window z) in
      z\<lparr>gz_window := w\<lparr>gw_changed := generation\<rparr>, gz_notifying := gz_notifying z + (gw_changed w - generation),
        gz_failed := (gz_failed z \<or> isl r)\<rparr>)"

definition glz_world_insert :: "DecodedGlzImage \<Rightarrow> glz_world \<Rightarrow> glz_world" where
  "glz_world_insert m z =
     (let rw = GlzWindow_insert m (gz_window z) in
      (glz_locked rw z)\<lparr>gz_inserted := if isl (fst rw) then gz_inserted z else insert (gi_image_id m) (gz_inserted z)\<rparr>)"

definition glz_world_clear :: "u64 \<Rightarrow> glz_world \<Rightarrow> glz_world" where
  "glz_world_clear migration_activation z =
     (let rw = GlzWindow_clear_for_migration migration_activation (gz_window z) in
      (glz_locked rw z)\<lparr>gz_inserted :=
         if gw_last_cleared_migration (snd rw) = gw_last_cleared_migration (gz_window z) then gz_inserted z else {}\<rparr>)"

definition glz_notify :: "glz_world \<Rightarrow> glz_world" where
  "glz_notify z = z\<lparr>gz_window := (gz_window z)\<lparr>gw_changed := gw_changed (gz_window z) + 1\<rparr>, gz_notifying := gz_notifying z - 1\<rparr>"

text \<open>The three moves of the waiting task: the test, and the two branches of the \<open>select!\<close>.\<close>

definition glz_test :: "u64 \<Rightarrow> glz_world \<Rightarrow> glz_world" where
  "glz_test image_id z =
     (case gz_waiter z of
        GlzTesting seen \<Rightarrow>
          z\<lparr>gz_waiter := (case glz_wait_check image_id (gz_window z) of Some r \<Rightarrow> GlzReturned r | None \<Rightarrow> GlzSuspended seen)\<rparr>
      | _ \<Rightarrow> z)"

definition glz_wake :: "glz_world \<Rightarrow> glz_world option" where
  "glz_wake z =
     (case gz_waiter z of
        GlzSuspended seen \<Rightarrow>
          if seen \<noteq> gw_changed (gz_window z) then Some (z\<lparr>gz_waiter := GlzTesting (gw_changed (gz_window z))\<rparr>) else None
      | _ \<Rightarrow> None)"

definition glz_wake_cancel :: "glz_world \<Rightarrow> glz_world option" where
  "glz_wake_cancel z =
     (case gz_waiter z of
        GlzSuspended seen \<Rightarrow>
          if gz_cancel_unseen z
          then Some (z\<lparr>gz_cancel_unseen := False,
                 gz_waiter := if gz_cancel z then GlzReturned (client_err ClientError_Cancelled) else GlzTesting seen\<rparr>)
          else if \<not> gz_cancel_sender z then Some (z\<lparr>gz_waiter := GlzReturned (client_err ClientError_Cancelled)\<rparr>)
          else None
      | _ \<Rightarrow> None)"

inductive glz_step :: "u64 \<Rightarrow> glz_world \<Rightarrow> glz_world \<Rightarrow> bool" for image_id where
  inserting: "glz_step image_id z (glz_world_insert m z)"
| clearing: "glz_step image_id z (glz_world_clear migration_activation z)"
| notifying: "0 < gz_notifying z \<Longrightarrow> glz_step image_id z (glz_notify z)"
| cancel_sent: "gz_cancel_sender z \<Longrightarrow> glz_step image_id z (z\<lparr>gz_cancel := v, gz_cancel_unseen := True\<rparr>)"
| cancel_gone: "glz_step image_id z (z\<lparr>gz_cancel_sender := False\<rparr>)"
| testing: "gz_waiter z = GlzTesting seen \<Longrightarrow> glz_step image_id z (glz_test image_id z)"
| waking: "glz_wake z = Some z' \<Longrightarrow> glz_step image_id z z'"
| waking_cancel: "glz_wake_cancel z = Some z' \<Longrightarrow> glz_step image_id z z'"

text \<open>\<open>wait_for\<close> has subscribed and comes to its first test; notifications of earlier operations may be
  outstanding.\<close>

definition glz_wait_start :: "glz_world \<Rightarrow> bool" where
  "glz_wait_start z \<longleftrightarrow> gz_waiter z = GlzTesting (gw_changed (gz_window z)) \<and> \<not> gw_poisoned (gz_window z) \<and> gz_inserted z = {}"

subsection \<open>What the window's operations do to a test\<close>

lemma glz_wait_check_cong:
  "glz_wait_check k (w\<lparr>gw_changed := n\<rparr>) = glz_wait_check k w"
  by (simp add: glz_wait_check_def)

lemma glz_wait_check_None:
  "glz_wait_check k w = None \<longleftrightarrow> \<not> gw_poisoned w \<and> map_of (gw_images w) k = None \<and> \<not> k < gw_oldest_image_id w"
  by (simp add: glz_wait_check_def)

lemma glz_advance_keeps:
  "glz_advance w = Inr w' \<Longrightarrow> gw_images w' = gw_images w \<and> gw_poisoned w' = gw_poisoned w \<and> gw_changed w' = gw_changed w \<and>
     gw_oldest_image_id w \<le> gw_oldest_image_id w'"
proof (induction w rule: glz_advance.induct)
  case (1 w)
  show ?case
  proof (cases "map_of (gw_oldest_by_image w) (gw_next_contiguous_image_id w)")
    case None
    with 1(2) show ?thesis by (simp add: glz_advance.simps [of w])
  next
    case (Some oldest)
    with 1(2) have n: "gw_next_contiguous_image_id w \<noteq> -1" by (auto simp: glz_advance.simps [of w])
    from 1(1) [OF Some n] 1(2) Some n show ?thesis by (simp add: glz_advance.simps [of w])
  qed
qed

lemma glz_evict_keeps:
  "glz_evict j w = Inr w' \<Longrightarrow> gw_poisoned w' = gw_poisoned w \<and> gw_changed w' = gw_changed w \<and>
     gw_oldest_image_id w' = gw_oldest_image_id w \<and> (k \<noteq> j \<longrightarrow> map_of (gw_images w') k = map_of (gw_images w) k)"
  by (auto simp: glz_evict_def delete_conv' split: option.split_asm if_split_asm)

lemma for_each_evict_keeps:
  "for_each glz_evict js w = Inr w' \<Longrightarrow> gw_poisoned w' = gw_poisoned w \<and> gw_changed w' = gw_changed w \<and>
     gw_oldest_image_id w' = gw_oldest_image_id w \<and> (k \<notin> set js \<longrightarrow> map_of (gw_images w') k = map_of (gw_images w) k)"
proof (induction js arbitrary: w)
  case (Cons j js)
  then obtain w1 where w1: "glz_evict j w = Inr w1" "for_each glz_evict js w1 = Inr w'" by (auto simp: and_then_Inr)
  from Cons.IH [OF w1(2)] glz_evict_keeps [OF w1(1), of k] show ?case by auto
qed simp

text \<open>A successful insertion leaves one notification to send, decides every wait for its image and keeps every
  other wait decided.\<close>

lemma GlzWindow_insert_decides:
  assumes "GlzWindow_insert m w = (Inr u, w')"
  shows "gw_changed w' = gw_changed w + 1 \<and> \<not> gw_poisoned w' \<and> glz_wait_check (gi_image_id m) w' \<noteq> None \<and>
    (glz_wait_check k w \<noteq> None \<longrightarrow> glz_wait_check k w' \<noteq> None)"
proof -
  let ?w0 = "\<lambda>r. w\<lparr>gw_retained_bytes := r, gw_images := AList.update (gi_image_id m) (gi_pixels m) (gw_images w),
    gw_oldest_by_image := AList.update (gi_image_id m) (gi_oldest_retained_image_id m) (gw_oldest_by_image w)\<rparr>"
  from assms obtain r w1 w2 where live: "\<not> gw_poisoned w" and s: "glz_advance (?w0 r) = Inr w1" "glz_evict_older w1 = Inr w2"
    "w' = w2\<lparr>gw_changed := gw_changed w2 + 1\<rparr>"
    by (auto simp: GlzWindow_insert_def Let_def and_then_Inr split: if_split_asm option.split_asm sum.split_asm)
  note a = glz_advance_keeps [OF s(1)]
  have e: "gw_poisoned w2 = gw_poisoned w1" "gw_changed w2 = gw_changed w1" "gw_oldest_image_id w2 = gw_oldest_image_id w1"
    "\<not> j < gw_oldest_image_id w1 \<Longrightarrow> map_of (gw_images w2) j = map_of (gw_images w1) j" for j
    using for_each_evict_keeps [OF s(2) [unfolded glz_evict_older_def], of j] by auto
  have "glz_wait_check j w' \<noteq> None" if "j = gi_image_id m \<or> glz_wait_check j w \<noteq> None" for j
    using that a e live unfolding s(3) glz_wait_check_cong glz_wait_check_None
    by (auto simp: update_conv' split: if_split_asm)
  with a e live s(3) show ?thesis by simp
qed

lemma GlzWindow_clear_decides:
  assumes "GlzWindow_clear_for_migration a w = (Inr u, w')"
  shows "w' = w \<or> gw_changed w' = gw_changed w + 1 \<and> \<not> gw_poisoned w' \<and> gw_last_cleared_migration w' \<noteq> gw_last_cleared_migration w"
  using assms by (auto simp: GlzWindow_clear_for_migration_def split: if_split_asm)

subsection \<open>No wakeup is lost\<close>

text \<open>The waiting task has not seen a generation that is yet to come; the waits for the inserted images are
  decided; and when the wait of a suspended task is decided, a notification is still to be sent or to be seen.\<close>

definition glz_wait_inv :: "u64 \<Rightarrow> glz_world \<Rightarrow> bool" where
  "glz_wait_inv k z \<longleftrightarrow> gz_failed z \<or>
     \<not> gw_poisoned (gz_window z) \<and> (\<forall>j \<in> gz_inserted z. glz_wait_check j (gz_window z) \<noteq> None) \<and>
     (case gz_waiter z of
        GlzTesting seen \<Rightarrow> seen \<le> gw_changed (gz_window z)
      | GlzSuspended seen \<Rightarrow> seen \<le> gw_changed (gz_window z) \<and>
          (glz_wait_check k (gz_window z) \<noteq> None \<longrightarrow> 0 < gz_notifying z \<or> seen < gw_changed (gz_window z))
      | GlzReturned r \<Rightarrow> True)"

lemma glz_wait_inv_insert:
  assumes "glz_wait_inv k z"
  shows "glz_wait_inv k (glz_world_insert m z)"
proof (cases "GlzWindow_insert m (gz_window z)")
  case (Pair r w)
  show ?thesis
  proof (cases r)
    case (Inl e)
    with Pair show ?thesis by (simp add: glz_wait_inv_def glz_world_insert_def glz_locked_def Let_def)
  next
    case (Inr u)
    from GlzWindow_insert_decides [OF Pair [unfolded Inr]] assms Pair Inr show ?thesis
      by (auto simp: glz_wait_inv_def glz_world_insert_def glz_locked_def Let_def glz_wait_check_cong split: glz_waiter.split)
  qed
qed

lemma glz_wait_inv_clear:
  assumes "glz_wait_inv k z"
  shows "glz_wait_inv k (glz_world_clear a z)"
proof (cases "GlzWindow_clear_for_migration a (gz_window z)")
  case (Pair r w)
  show ?thesis
  proof (cases r)
    case (Inl e)
    with Pair show ?thesis by (simp add: glz_wait_inv_def glz_world_clear_def glz_locked_def Let_def)
  next
    case (Inr u)
    from GlzWindow_clear_decides [OF Pair [unfolded Inr]] assms Pair Inr show ?thesis
      by (auto simp: glz_wait_inv_def glz_world_clear_def glz_locked_def Let_def glz_wait_check_cong split: glz_waiter.split)
  qed
qed

lemma glz_step_inv: "glz_step k z z' \<Longrightarrow> glz_wait_inv k z \<Longrightarrow> glz_wait_inv k z'"
proof (induction rule: glz_step.induct)
  case (inserting z m)
  then show ?case by (rule glz_wait_inv_insert)
next
  case (clearing z a)
  then show ?case by (rule glz_wait_inv_clear)
next
  case (notifying z)
  then show ?case by (auto simp: glz_wait_inv_def glz_notify_def glz_wait_check_cong split: glz_waiter.splits)
next
  case (testing z seen)
  then show ?case by (auto simp: glz_wait_inv_def glz_test_def split: option.split)
qed (auto simp: glz_wait_inv_def glz_wake_def glz_wake_cancel_def split: glz_waiter.splits if_split_asm)

lemma glz_steps_inv: "(glz_step k)\<^sup>*\<^sup>* z z' \<Longrightarrow> glz_wait_inv k z \<Longrightarrow> glz_wait_inv k z'"
  by (induction rule: rtranclp_induct) (auto intro: glz_step_inv)

lemma glz_start_inv: "glz_wait_start z \<Longrightarrow> glz_wait_inv k z"
  by (simp add: glz_wait_inv_def glz_wait_start_def)

definition glz_answer :: "u64 \<Rightarrow> glz_world \<Rightarrow> unit client" where
  "glz_answer k z =
     (if k < gw_oldest_image_id (gz_window z) \<and> map_of (gw_images (gz_window z)) k = None
      then client_err (protocol_value_error STR ''evicted GLZ image reference'') else Inr ())"

lemma glz_decided_answer:
  "\<not> gw_poisoned (gz_window z) \<Longrightarrow> glz_wait_check k (gz_window z) \<noteq> None \<Longrightarrow> glz_wait_check k (gz_window z) = Some (glz_answer k z)"
  by (auto simp: glz_wait_check_def glz_answer_def split: if_split_asm)

section \<open>Properties of the caches\<close>

definition glz_sample :: "u64 \<Rightarrow> u64 \<Rightarrow> DecodedGlzImage" where
  "glz_sample k old = \<lparr>gi_image_id = k, gi_oldest_retained_image_id = old, gi_width = 1, gi_height = 1, gi_top_down = True,
     gi_pixels = [ucast k, 0, 0, 255]\<rparr>"

lemmas glz_sample_run = glz_sample_def GlzWindow_insert_def glz_window_def usize_checked_add_def Let_def glz_evict_older_def glz_evict_def
  glz_advance.simps AList.delete_eq

lemma glz_sample_inserts:
  "GlzWindow_inserts [glz_sample 1 1, glz_sample 0 0] glz_window =
     Inr (glz_window\<lparr>gw_images := [(1, [1, 0, 0, 255])], gw_retained_bytes := 4, gw_oldest_image_id := 1,
       gw_next_contiguous_image_id := 2, gw_changed := 2\<rparr>)"
  "GlzWindow_inserts [glz_sample 0 0, glz_sample 1 1] glz_window =
     Inr (glz_window\<lparr>gw_images := [(1, [1, 0, 0, 255])], gw_retained_bytes := 4, gw_oldest_image_id := 1,
       gw_next_contiguous_image_id := 2, gw_changed := 2\<rparr>)"
  by (simp_all add: glz_sample_run)

text \<open>Whatever a channel does with its palettes, its cache holds at most 256 palettes and 256 KiB, and its byte
  count is exactly the size of the palettes it holds.\<close>

theorem palette_cache_bounded:
  "let c = fold palette_step ops PaletteCache_new in
   length (pc_entries c) \<le> MAX_PALETTE_CACHE_ENTRIES \<and> pc_retained_bytes c \<le> MAX_PALETTE_CACHE_BYTES \<and>
   pc_retained_bytes c = sum_list (map (\<lambda>p. length (snd p) * 4) (pc_entries c)) \<and> distinct (map fst (pc_entries c))"
  using palette_run_ok [OF palette_new_ok, of ops]
  by (simp add: palette_ok_def bytes_of_def comp_def Let_def)

text \<open>C4: the GLZ window is determined by the images inserted. When the images of a session have distinct
  identifiers, the only error of \<open>insert\<close> is the byte limit, and once all are inserted the next
  identifier is the first that is missing, the window's oldest identifier is the largest one that the gap-free
  prefix of the images declares, an image can be referenced exactly if it is not older than that, and the
  byte count is that of these images.\<close>

theorem glz_window_spec:
  assumes "distinct (map gi_image_id ims)" "length ims < 2 ^ 64"
  shows "case GlzWindow_inserts ims glz_window of
      Inl e \<Rightarrow> e = Err (resource_limit_error STR ''GLZ dictionary bytes'')
    | Inr w \<Rightarrow>
        (\<forall>k < gw_next_contiguous_image_id w. k \<in> gi_image_id ` set ims) \<and>
        gw_next_contiguous_image_id w \<notin> gi_image_id ` set ims \<and>
        gw_oldest_image_id w =
          Max (insert 0 (gi_oldest_retained_image_id ` {m \<in> set ims. gi_image_id m < gw_next_contiguous_image_id w})) \<and>
        (\<forall>m \<in> set ims. GlzWindow_resolve w (gi_image_id m) =
          (if gi_image_id m < gw_oldest_image_id w then None else Some (gi_pixels m))) \<and>
        gw_retained_bytes w =
          sum_list (map (length \<circ> gi_pixels) (filter (\<lambda>m. gw_oldest_image_id w \<le> gi_image_id m) ims)) \<and>
        gw_retained_bytes w \<le> DEFAULT_GLZ_DICTIONARY_BYTES"
proof (cases "GlzWindow_inserts ims glz_window")
  case (Inl e)
  then show ?thesis using GlzWindow_inserts_ok [OF glz_window_empty, of ims] assms few_images by simp
next
  case (Inr w)
  note ok = glz_inserted_ok [OF assms Inr]
  have "GlzWindow_resolve w (gi_image_id m) = (if gi_image_id m < gw_oldest_image_id w then None else Some (gi_pixels m))"
    if "m \<in> set ims" for m
    using ok glz_find_unique [OF assms(1) that] by (simp add: GlzWindow_resolve_def glz_window_ok_def glz_images_ok_def)
  moreover have "gw_oldest_image_id w = Max (insert 0 (gi_oldest_retained_image_id ` {m \<in> set ims. gi_image_id m < gw_next_contiguous_image_id w}))"
    "(\<forall>k < gw_next_contiguous_image_id w. k \<in> gi_image_id ` set ims)" "gw_next_contiguous_image_id w \<notin> gi_image_id ` set ims"
    "gw_retained_bytes w \<le> DEFAULT_GLZ_DICTIONARY_BYTES"
    using ok unfolding glz_window_ok_def glz_prefix_ok_def glz_oldest_def glz_ids_def by simp_all
  ultimately show ?thesis unfolding Inr sum.case using glz_window_bytes [OF ok assms(1)] by blast
qed

theorem glz_window_spec_witness:
  "case GlzWindow_inserts [glz_sample 1 1, glz_sample 0 0] glz_window of
     Inl e \<Rightarrow> False
   | Inr w \<Rightarrow> gw_next_contiguous_image_id w = 2 \<and> gw_oldest_image_id w = Max {0, 1} \<and>
       GlzWindow_resolve w 0 = None \<and> GlzWindow_resolve w 1 = Some [1, 0, 0, 255] \<and> gw_retained_bytes w = 4"
  using glz_window_spec [of "[glz_sample 1 1, glz_sample 0 0]"]
  unfolding glz_sample_inserts(1) by (simp add: glz_sample_def)

text \<open>C32: the order in which concurrent Display channels insert their images does not matter: two orders of the
  same images that both fit give windows with the same retained images, the same bytes, the same identifiers
  and the same answer for every waiting channel.\<close>

theorem glz_window_order_irrelevant:
  assumes "distinct (map gi_image_id ims)" "length ims < 2 ^ 64" "mset ims' = mset ims"
    "GlzWindow_inserts ims glz_window = Inr w" "GlzWindow_inserts ims' glz_window = Inr w'"
  shows "GlzWindow_resolve w' k = GlzWindow_resolve w k \<and> gw_retained_bytes w' = gw_retained_bytes w \<and>
    gw_oldest_image_id w' = gw_oldest_image_id w \<and> gw_next_contiguous_image_id w' = gw_next_contiguous_image_id w \<and>
    glz_wait_check k w' = glz_wait_check k w"
proof -
  have "distinct (map gi_image_id ims')" using assms(1,3) by (metis mset_map mset_eq_imp_distinct_iff)
  moreover have "length ims' < 2 ^ 64" using assms(2,3) by (metis size_mset)
  ultimately have ok': "glz_window_ok ims w'" by (intro glz_window_ok_perm [OF assms(1,3)] glz_inserted_ok assms(5))
  note ok = glz_inserted_ok [OF assms(1,2,4)] and n = glz_window_next_unique [OF glz_inserted_ok [OF assms(1,2,4)] ok']
  then have o: "gw_oldest_image_id w' = gw_oldest_image_id w" using ok' by (simp add: glz_window_ok_def glz_prefix_ok_def)
  then have "map_of (gw_images w') k = map_of (gw_images w) k" for k
    using ok ok' by (simp add: glz_window_ok_def glz_images_ok_def)
  then show ?thesis
    using ok ok' o n glz_window_bytes [OF ok assms(1)] glz_window_bytes [OF ok' assms(1)]
    by (simp add: GlzWindow_resolve_def glz_wait_check_def glz_window_ok_def)
qed

theorem glz_window_order_irrelevant_witness:
  "\<exists>w w'. GlzWindow_inserts [glz_sample 1 1, glz_sample 0 0] glz_window = Inr w \<and>
     GlzWindow_inserts [glz_sample 0 0, glz_sample 1 1] glz_window = Inr w' \<and>
     GlzWindow_resolve w' 1 = GlzWindow_resolve w 1 \<and> glz_wait_check 0 w' = glz_wait_check 0 w"
  using glz_window_order_irrelevant [OF _ _ _ glz_sample_inserts, of 1]
    glz_window_order_irrelevant [OF _ _ _ glz_sample_inserts, of 0] glz_sample_inserts
  by (simp add: glz_sample_def)

text \<open>C33: no wakeup is lost. One Display channel waits for an image while any number of channels insert
  images, send their notifications later, clear the window for migrations and change the cancellation, in any
  interleaving. As long as no operation on the window has failed and the image was inserted during the wait
  and not cleared by a migration since: a test of the task ends the wait, with the error exactly if the image
  has been evicted; and if the task is suspended, it has a generation to see, or a notification is outstanding
  whose sending gives it one, and then it wakes and its test ends the wait in the same way. After a migration
  has cleared the window the wait goes on until the image is inserted again.\<close>

theorem glz_wait_released:
  assumes "glz_wait_start z0" "(glz_step k)\<^sup>*\<^sup>* z0 z" "\<not> gz_failed z" "k \<in> gz_inserted z"
  shows "(\<forall>seen. gz_waiter z = GlzTesting seen \<longrightarrow> gz_waiter (glz_test k z) = GlzReturned (glz_answer k z)) \<and>
    (\<forall>seen. gz_waiter z = GlzSuspended seen \<longrightarrow>
       (seen = gw_changed (gz_window z) \<longrightarrow> 0 < gz_notifying z) \<and>
       (\<exists>z'. glz_wake (if seen = gw_changed (gz_window z) then glz_notify z else z) = Some z' \<and>
          gz_waiter (glz_test k z') = GlzReturned (glz_answer k z)))"
proof -
  have v: "glz_wait_inv k z" using glz_steps_inv [OF assms(2)] glz_start_inv [OF assms(1)] by blast
  then have c: "glz_wait_check k (gz_window z) = Some (glz_answer k z)"
    using assms(3,4) by (intro glz_decided_answer) (auto simp: glz_wait_inv_def)
  then show ?thesis using v assms(3)
    by (auto simp: glz_wait_inv_def glz_test_def glz_wake_def glz_notify_def glz_wait_check_cong)
qed

definition glz_example :: glz_world where
  "glz_example = \<lparr>gz_window = glz_window, gz_notifying = 0, gz_failed = False, gz_cancel = False, gz_cancel_unseen = False,
     gz_cancel_sender = True, gz_waiter = GlzTesting 0, gz_inserted = {}\<rparr>"

text \<open>The task goes to sleep; the image arrives and its notification is outstanding.\<close>

theorem glz_wait_released_witness:
  "\<exists>z z'. (glz_step 1)\<^sup>*\<^sup>* glz_example z \<and> gz_waiter z = GlzSuspended 0 \<and> gz_notifying z = 1 \<and>
     glz_wake (glz_notify z) = Some z' \<and> gz_waiter (glz_test 1 z') = GlzReturned (Inr ())"
proof -
  let ?z1 = "glz_test 1 glz_example" and ?z2 = "glz_world_insert (glz_sample 1 0) (glz_test 1 glz_example)"
  have s: "glz_wait_start glz_example" by (simp add: glz_wait_start_def glz_example_def glz_window_def)
  have "glz_step 1 glz_example ?z1" by (rule glz_step.testing [of _ 0]) (simp add: glz_example_def)
  moreover have "glz_step 1 ?z1 ?z2" by (rule glz_step.inserting)
  ultimately have r: "(glz_step 1)\<^sup>*\<^sup>* glz_example ?z2" by (meson converse_rtranclp_into_rtranclp rtranclp.rtrancl_refl)
  have z1: "?z1 = glz_example\<lparr>gz_waiter := GlzSuspended 0\<rparr>"
    by (simp add: glz_test_def glz_wait_check_def glz_example_def glz_window_def)
  have z2: "gz_waiter ?z2 = GlzSuspended 0" "gz_notifying ?z2 = 1" "\<not> gz_failed ?z2" "1 \<in> gz_inserted ?z2"
    "gw_changed (gz_window ?z2) = 0" "gw_oldest_image_id (gz_window ?z2) = 0"
    unfolding z1 by (simp_all add: glz_world_insert_def glz_locked_def glz_example_def glz_sample_run)
  from glz_wait_released [OF s r z2(3,4)] z2 r show ?thesis by (auto simp: glz_answer_def)
qed

end
