(* ===== verification/Client_Control.thy ===== *)
theory Client_Control
  imports Client_Channel
begin

text \<open>
  Envelopes and common control messages of the client's channels (\<open>channel.rs\<close>).

  A wire message is an envelope: sub-messages first, then at most one main message. Every logical
  message passes through \<open>ControlState\<close>, which answers pings, installs the acknowledgement window and
  refuses what it cannot handle; acknowledgements count wire envelopes. The theory shows that
  unpacking an envelope never panics and yields exactly its sub-messages in list order followed by its
  main message, and that one acknowledgement is sent per full window and no other.
\<close>

section \<open>Message numbers\<close>

definition common_server_MIGRATE :: u16 where [simp]: "common_server_MIGRATE = 1"
definition common_server_MIGRATE_DATA :: u16 where [simp]: "common_server_MIGRATE_DATA = 2"
definition common_server_SET_ACK :: u16 where [simp]: "common_server_SET_ACK = 3"
definition common_server_PING :: u16 where [simp]: "common_server_PING = 4"
definition common_server_WAIT_FOR_CHANNELS :: u16 where [simp]: "common_server_WAIT_FOR_CHANNELS = 5"
definition common_server_DISCONNECTING :: u16 where [simp]: "common_server_DISCONNECTING = 6"
definition common_server_NOTIFY :: u16 where [simp]: "common_server_NOTIFY = 7"
definition common_client_ACK_SYNC :: u16 where [simp]: "common_client_ACK_SYNC = 1"
definition common_client_ACK :: u16 where [simp]: "common_client_ACK = 2"
definition common_client_PONG :: u16 where [simp]: "common_client_PONG = 3"

section \<open>Envelopes\<close>

record IncomingMessage =
  im_header :: DataHeader
  im_body :: "u8 list"

record IncomingEnvelope =
  ie_header :: DataHeader
  ie_main_body :: "u8 list option"
  ie_submessages :: "SubMessageList option"

definition IncomingEnvelope_decode :: "DataHeader \<Rightarrow> u8 list \<Rightarrow> IncomingEnvelope client" where
  "IncomingEnvelope_decode header body =
     (if dh_message_type header = common_server_LIST
      then if (case dh_sub_list_offset header of None \<Rightarrow> False | Some off \<Rightarrow> off \<noteq> 0)
           then client_err (unsupported_protocol_value STR ''nested sub-message envelope'')
           else and_then (from_decode (SubMessageList_decode body 0)) (\<lambda>l.
                Inr \<lparr>ie_header = header, ie_main_body = None, ie_submessages = Some l\<rparr>)
      else
      (case (case dh_sub_list_offset header of None \<Rightarrow> None | Some off \<Rightarrow> if off \<noteq> 0 then Some off else None) of
         None \<Rightarrow> Inr \<lparr>ie_header = header, ie_main_body = Some body, ie_submessages = None\<rparr>
       | Some list_offset \<Rightarrow>
           and_then (ok_or (protocol_value_error STR ''sub-message list offset'')
                       (slice_get body 0 (unat list_offset))) (\<lambda>main_body.
           and_then (from_decode (SubMessageList_decode body list_offset)) (\<lambda>l.
           Inr \<lparr>ie_header = header, ie_main_body = Some main_body, ie_submessages = Some l\<rparr>))))"

record IncomingMessages =
  ims_envelope_header :: DataHeader
  ims_submessages :: "SubMessages option"
  ims_main_body :: "u8 list option"

definition IncomingEnvelope_messages :: "IncomingEnvelope \<Rightarrow> IncomingMessages" where
  "IncomingEnvelope_messages e =
     \<lparr>ims_envelope_header = ie_header e, ims_submessages = map_option SubMessageList_iter (ie_submessages e),
      ims_main_body = ie_main_body e\<rparr>"

definition IncomingEnvelope_counts_for_ack :: "IncomingEnvelope \<Rightarrow> bool" where
  "IncomingEnvelope_counts_for_ack e \<longleftrightarrow>
     dh_message_type (ie_header e) \<noteq> common_server_SET_ACK \<or>
     (case ie_submessages e of None \<Rightarrow> False | Some l \<Rightarrow> sml_count l \<noteq> 0)"

definition IncomingMessages_main :: "IncomingMessages \<Rightarrow> (IncomingMessage option \<times> IncomingMessages) client" where
  "IncomingMessages_main it =
     (let it' = it\<lparr>ims_submessages := None, ims_main_body := None\<rparr> in
      case ims_main_body it of
        None \<Rightarrow> Inr (None, it')
      | Some body \<Rightarrow>
          and_then (expect (u32_try_from (length body))) (\<lambda>body_size.
          Inr (Some \<lparr>im_header = (ims_envelope_header it)\<lparr>dh_body_size := body_size, dh_sub_list_offset := None\<rparr>,
                     im_body = body\<rparr>, it')))"

definition IncomingMessages_next :: "IncomingMessages \<Rightarrow> (IncomingMessage option \<times> IncomingMessages) client" where
  "IncomingMessages_next it =
     (case ims_submessages it of
        None \<Rightarrow> IncomingMessages_main it
      | Some subs \<Rightarrow>
          and_then (from_decode (SubMessages_next subs)) (\<lambda>(next, subs).
          case next of
            None \<Rightarrow> IncomingMessages_main it
          | Some sub \<Rightarrow>
              and_then (expect (u32_try_from (length (sub_body sub)))) (\<lambda>body_size.
              Inr (Some \<lparr>im_header = \<lparr>dh_serial = dh_serial (ims_envelope_header it),
                                      dh_message_type = sub_message_type sub, dh_body_size = body_size,
                                      dh_sub_list_offset = None\<rparr>,
                         im_body = sub_body sub\<rparr>, it\<lparr>ims_submessages := Some subs\<rparr>))))"

text \<open>The messages of a \<open>for\<close> loop over the iterator; the fuel bounds the \<open>next\<close> calls.\<close>

fun IncomingMessages_collect :: "nat \<Rightarrow> IncomingMessages \<Rightarrow> IncomingMessage list client option" where
  "IncomingMessages_collect 0 it = None"
| "IncomingMessages_collect (Suc fuel) it =
     (case IncomingMessages_next it of
        Inl e \<Rightarrow> Some (Inl e)
      | Inr (None, _) \<Rightarrow> Some (Inr [])
      | Inr (Some m, it') \<Rightarrow>
          map_option (\<lambda>rest. and_then rest (\<lambda>ms. Inr (m # ms))) (IncomingMessages_collect fuel it'))"

section \<open>Control state\<close>

record ControlState =
  cs_generation :: u32
  cs_window :: u32
  cs_consumed_since_ack :: u32
  cs_migration_activation_count :: u64

definition ControlState_new :: ControlState where
  "ControlState_new = \<lparr>cs_generation = 0, cs_window = 0, cs_consumed_since_ack = 0, cs_migration_activation_count = 0\<rparr>"

definition ControlState_synchronize_migration_activation :: "'c Channel \<Rightarrow> ControlState \<Rightarrow> ControlState" where
  "ControlState_synchronize_migration_activation ch cs =
     cs\<lparr>cs_migration_activation_count := ch_migration_activation_count ch\<rparr>"

datatype ControlDisposition = Consumed | Dispatch

text \<open>\<open>read_u32\<close>, after the caller validated the size.\<close>

definition channel_read_u32 :: "u8 list \<Rightarrow> nat \<Rightarrow> u32 client" where
  "channel_read_u32 bytes off =
     and_then (slice_index bytes off (off + 4)) (\<lambda>bs.
     and_then (expect (if length bs = 4 then Some bs else None)) (\<lambda>bs. Inr (from_le bs)))"

definition u32_saturating_add :: "u32 \<Rightarrow> u32 \<Rightarrow> u32" where
  "u32_saturating_add a b = (if unat a + unat b < 2 ^ 32 then a + b else -1)"

definition ControlState_acknowledge_envelope ::
    "'c mechanism \<Rightarrow> 'c Channel \<Rightarrow> ControlState \<Rightarrow> ('c Channel \<times> ControlState) client" where
  "ControlState_acknowledge_envelope enc ch cs =
     (if cs_window cs = 0 then Inr (ch, cs)
      else
      let cs = cs\<lparr>cs_consumed_since_ack := u32_saturating_add (cs_consumed_since_ack cs) 1\<rparr> in
      if cs_consumed_since_ack cs \<ge> cs_window cs
      then and_then (Channel_write_message enc common_client_ACK [] ch) (\<lambda>ch.
           Inr (ch, cs\<lparr>cs_consumed_since_ack := 0\<rparr>))
      else Inr (ch, cs))"

text \<open>\<open>migrate_to_replacement\<close> on a channel without a migration path.\<close>

definition migrate_uncoordinated :: "u8 list \<Rightarrow> ('a :: type) client" where
  "migrate_uncoordinated body =
     (if length body \<noteq> 4 then client_err (protocol_size_error STR ''channel migrate flags'')
      else
      and_then (expect (if length body = 4 then Some body else None)) (\<lambda>bs.
      let flags = (from_le bs :: u32) in
      if flags AND NOT (1 OR 2) \<noteq> 0
      then client_err (unsupported_protocol_value STR ''channel migrate flags'')
      else client_err (unsupported_protocol_value STR ''uncoordinated channel migration'')))"

text \<open>The \<open>match\<close> on the message type in \<open>handle_inner\<close>.\<close>

definition control_dispatch ::
    "'c mechanism \<Rightarrow> 'c Channel \<Rightarrow> IncomingMessage \<Rightarrow> ControlState \<Rightarrow>
     (ControlDisposition \<times> 'c Channel \<times> ControlState) client" where
  "control_dispatch enc ch message cs =
     (let body = im_body message; mt = dh_message_type (im_header message) in
      if mt = common_server_SET_ACK then
        if length body \<noteq> 8 then client_err (protocol_size_error STR ''set ack body'')
        else and_then (channel_read_u32 body 0) (\<lambda>generation.
             and_then (channel_read_u32 body 4) (\<lambda>window.
             and_then (Channel_write_message enc common_client_ACK_SYNC (u32_to_le_bytes generation) ch) (\<lambda>ch.
             Inr (Consumed, ch,
               cs\<lparr>cs_generation := generation, cs_window := window, cs_consumed_since_ack := 0\<rparr>))))
      else if mt = common_server_PING then
        if length body < 12 then client_err (protocol_size_error STR ''ping body'')
        else and_then (slice_index body 0 12) (\<lambda>prefix.
             and_then (Channel_write_message enc common_client_PONG prefix ch) (\<lambda>ch. Inr (Consumed, ch, cs)))
      else if mt = common_server_DISCONNECTING then
        if length body \<noteq> 12 then client_err (protocol_size_error STR ''disconnect body'')
        else and_then (channel_read_u32 body 8) (\<lambda>reason. client_err (ClientError_RemoteDisconnect reason))
      else if mt = common_server_NOTIFY then
        if length body < 25 then client_err (protocol_size_error STR ''notify body'')
        else and_then (channel_read_u32 body 20) (\<lambda>text_len.
             if unat text_len \<noteq> length body - 25
             then client_err (protocol_size_error STR ''notify message length'')
             else if last body \<noteq> 0 then client_err (protocol_value_error STR ''notify message terminator'')
             else Inr (Consumed, ch, cs))
      else if mt = common_server_MIGRATE then migrate_uncoordinated body
      else Inr (Dispatch, ch, cs))"

text \<open>Control state that belongs to an earlier transport is dropped first.\<close>

definition control_current :: "'c Channel \<Rightarrow> ControlState \<Rightarrow> ControlState" where
  "control_current ch cs =
     (if cs_migration_activation_count cs \<noteq> ch_migration_activation_count ch
      then \<lparr>cs_generation = 0, cs_window = 0, cs_consumed_since_ack = 0,
            cs_migration_activation_count = ch_migration_activation_count ch\<rparr>
      else cs)"

definition ControlState_handle_inner ::
    "'c mechanism \<Rightarrow> 'c Channel \<Rightarrow> IncomingMessage \<Rightarrow> bool \<Rightarrow> ControlState \<Rightarrow>
     (ControlDisposition \<times> 'c Channel \<times> ControlState) client" where
  "ControlState_handle_inner enc ch message count_for_ack cs =
     and_then (control_dispatch enc ch message (control_current ch cs)) (\<lambda>(disposition, ch, cs).
     if count_for_ack \<and> dh_message_type (im_header message) \<noteq> common_server_SET_ACK
     then and_then (ControlState_acknowledge_envelope enc ch cs) (\<lambda>(ch, cs). Inr (disposition, ch, cs))
     else Inr (disposition, ch, cs))"

definition ControlState_handle_without_ack ::
    "'c mechanism \<Rightarrow> 'c Channel \<Rightarrow> IncomingMessage \<Rightarrow> ControlState \<Rightarrow>
     (ControlDisposition \<times> 'c Channel \<times> ControlState) client" where
  "ControlState_handle_without_ack enc ch message cs = ControlState_handle_inner enc ch message False cs"

section \<open>Unpacking an envelope\<close>

text \<open>The reference: the sub-messages a list at a byte position designates, in list order.\<close>

definition list_messages :: "u8 list \<Rightarrow> nat \<Rightarrow> SubMessage list" where
  "list_messages body off =
     map (\<lambda>i. message_at body (unat (list_entry body (off + 2) i)))
       [0..<unat (from_le (take 2 (drop off body)) :: u16)]"

definition logical_message :: "u64 option \<Rightarrow> u16 \<Rightarrow> u8 list \<Rightarrow> IncomingMessage" where
  "logical_message serial mt body =
     \<lparr>im_header = \<lparr>dh_serial = serial, dh_message_type = mt, dh_body_size = of_nat (length body),
                   dh_sub_list_offset = None\<rparr>, im_body = body\<rparr>"

definition sub_logical :: "u64 option \<Rightarrow> SubMessage \<Rightarrow> IncomingMessage" where
  "sub_logical serial sub = logical_message serial (sub_message_type sub) (sub_body sub)"

definition envelope_contents :: "DataHeader \<Rightarrow> u8 list \<Rightarrow> IncomingMessage list" where
  "envelope_contents header body =
     (if dh_message_type header = common_server_LIST
      then map (sub_logical (dh_serial header)) (list_messages body 0)
      else case dh_sub_list_offset header of
        None \<Rightarrow> [logical_message (dh_serial header) (dh_message_type header) body]
      | Some off \<Rightarrow>
          (if off = 0 then [logical_message (dh_serial header) (dh_message_type header) body]
           else map (sub_logical (dh_serial header)) (list_messages body (unat off)) @
                [logical_message (dh_serial header) (dh_message_type header) (take (unat off) body)]))"

fun main_part :: "DataHeader \<Rightarrow> u8 list option \<Rightarrow> IncomingMessage list" where
  "main_part header None = []"
| "main_part header (Some body) = [logical_message (dh_serial header) (dh_message_type header) body]"

fun main_size :: "u8 list option \<Rightarrow> nat" where
  "main_size None = 0"
| "main_size (Some body) = length body"

lemma SubMessageList_decode_count:
  "SubMessageList_decode body off = Inr l \<Longrightarrow>
     sml_count l = unat (from_le (take 2 (drop (unat off) body)) :: u16)"
  by (auto simp: SubMessageList_decode_def Let_def reader_width split: if_splits)

lemma main_collect:
  assumes "ims_submessages it = None" "main_size (ims_main_body it) < 2 ^ 32" "2 \<le> fuel"
  shows "IncomingMessages_collect fuel it =
    Some (Inr (main_part (ims_envelope_header it) (ims_main_body it)))"
proof -
  obtain f where f: "fuel = Suc (Suc f)" using assms(3) by (metis Suc_le_D numeral_2_eq_2 Suc_le_mono)
  show ?thesis
    using assms(1,2) unfolding f
    by (cases "ims_main_body it"; cases "ims_envelope_header it")
       (auto simp: IncomingMessages_next_def IncomingMessages_main_def u32_try_from_in logical_message_def)
qed

lemma main_without_subs: "IncomingMessages_main (it\<lparr>ims_submessages := None\<rparr>) = IncomingMessages_main it"
  by (cases "ims_main_body it") (simp_all add: IncomingMessages_main_def)

lemma collect_main_eq:
  "IncomingMessages_next it = IncomingMessages_main it \<Longrightarrow>
   IncomingMessages_collect (Suc fuel) it = IncomingMessages_collect (Suc fuel) (it\<lparr>ims_submessages := None\<rparr>)"
  by (simp add: IncomingMessages_next_def [of "it\<lparr>ims_submessages := None\<rparr>"] main_without_subs)

lemma sub_collect:
  assumes ok: "list_ok l ls" and small: "length (sml_body l) < 2 ^ 32"
    and main: "main_size (ims_main_body it) < 2 ^ 32"
  shows "i \<le> sml_count l \<Longrightarrow> ims_submessages it = Some \<lparr>sms_list = l, sms_index = i\<rparr> \<Longrightarrow>
    sml_count l - i + 2 \<le> fuel \<Longrightarrow>
    IncomingMessages_collect fuel it =
      Some (Inr (map (\<lambda>j. sub_logical (dh_serial (ims_envelope_header it))
                   (message_at (sml_body l) (unat (list_entry (sml_body l) (sml_offsets_start l) j)))) [i..<sml_count l] @
        main_part (ims_envelope_header it) (ims_main_body it)))"
  using main
proof (induction "sml_count l - i" arbitrary: i it fuel)
  case 0
  then obtain f where f: "fuel = Suc f" "2 \<le> fuel" by (cases fuel) auto
  have "IncomingMessages_next it = IncomingMessages_main it"
    using 0 by (simp add: IncomingMessages_next_def SubMessages_next_def)
  from collect_main_eq [OF this] main_collect [of "it\<lparr>ims_submessages := None\<rparr>" fuel] f 0 show ?case by simp
next
  case (Suc k)
  then have i: "i < sml_count l" by simp
  obtain f where f: "fuel = Suc f" "sml_count l - Suc i + 2 \<le> f" using Suc.prems(3) i by (cases fuel) auto
  let ?m = "message_at (sml_body l) (unat (list_entry (sml_body l) (sml_offsets_start l) i))"
  have "length (sub_body ?m) < 2 ^ 32"
    using small by (auto simp: message_at_def min_def intro: le_less_trans)
  then have nxt: "IncomingMessages_next it = Inr (Some (sub_logical (dh_serial (ims_envelope_header it)) ?m),
      it\<lparr>ims_submessages := Some \<lparr>sms_list = l, sms_index = i + 1\<rparr>\<rparr>)"
    using Suc.prems(2) SubMessages_next_valid [OF ok i]
    by (simp add: IncomingMessages_next_def u32_try_from_in sub_logical_def logical_message_def)
  show ?case
    using Suc.hyps(1) [of "i + 1" "it\<lparr>ims_submessages := Some \<lparr>sms_list = l, sms_index = i + 1\<rparr>\<rparr>" f]
      Suc.hyps(2) Suc.prems nxt f i
    by (simp add: upt_conv_Cons)
qed

text \<open>C29: unpacking an accepted envelope cannot panic and ends: the loop over its messages sees exactly
  the sub-messages its list designates, in list order and each with the envelope's serial, and then
  the main message, which is the part of the body in front of the list.\<close>

theorem envelope_messages_exact:
  assumes "IncomingEnvelope_decode header body = Inr e" "length body < 2 ^ 32"
  shows "IncomingMessages_collect 66 (IncomingEnvelope_messages e) = Some (Inr (envelope_contents header body))"
proof -
  consider (plain) "e = \<lparr>ie_header = header, ie_main_body = Some body, ie_submessages = None\<rparr>"
      "envelope_contents header body = [logical_message (dh_serial header) (dh_message_type header) body]"
    | (listed) off l main where "SubMessageList_decode body off = Inr l"
      "e = \<lparr>ie_header = header, ie_main_body = main, ie_submessages = Some l\<rparr>"
      "main_size main < 2 ^ 32"
      "envelope_contents header body = map (sub_logical (dh_serial header)) (list_messages body (unat off)) @
         main_part header main"
    using assms
    by (auto simp: IncomingEnvelope_decode_def envelope_contents_def split: if_splits option.splits
        intro: le_less_trans)
  then show ?thesis
  proof cases
    case plain
    then show ?thesis
      using assms(2) main_collect [of "IncomingEnvelope_messages e" 66] by (simp add: IncomingEnvelope_messages_def)
  next
    case listed
    note l = SubMessageList_decode_Inr [OF listed(1)] SubMessageList_decode_count [OF listed(1)]
    have os: "sml_offsets_start l = unat off + 2" "sml_count l \<le> 64" using l(1) by (auto simp: list_ok_def Let_def)
    show ?thesis
      using sub_collect [of l "unat off" "IncomingEnvelope_messages e" 0 66] l os listed(2-) assms(2)
      by (simp add: IncomingEnvelope_messages_def SubMessageList_iter_def list_messages_def comp_def)
  qed
qed

theorem envelope_messages_exact_witness:
  "IncomingMessages_collect 66 (IncomingEnvelope_messages
     \<lparr>ie_header = \<lparr>dh_serial = Some 9, dh_message_type = 104, dh_body_size = 2, dh_sub_list_offset = Some 0\<rparr>,
      ie_main_body = Some [5, 6], ie_submessages = None\<rparr>) =
   Some (Inr [logical_message (Some 9) 104 [5, 6]])"
  using envelope_messages_exact [of
      "\<lparr>dh_serial = Some 9, dh_message_type = 104, dh_body_size = 2, dh_sub_list_offset = Some 0\<rparr>" "[5, 6]"
      "\<lparr>ie_header = \<lparr>dh_serial = Some 9, dh_message_type = 104, dh_body_size = 2, dh_sub_list_offset = Some 0\<rparr>,
        ie_main_body = Some [5, 6], ie_submessages = None\<rparr>"]
  by (simp add: IncomingEnvelope_decode_def envelope_contents_def del: IncomingMessages_collect.simps)

section \<open>Acknowledgements\<close>

definition control_ok :: "ControlState \<Rightarrow> bool" where
  "control_ok cs \<longleftrightarrow> cs_window cs = 0 \<or> cs_consumed_since_ack cs < cs_window cs"

lemma control_ok_new [simp]: "control_ok ControlState_new"
  by (simp add: control_ok_def ControlState_new_def)

fun acknowledge_many :: "'c mechanism \<Rightarrow> nat \<Rightarrow> 'c Channel \<Rightarrow> ControlState \<Rightarrow> ('c Channel \<times> ControlState) client" where
  "acknowledge_many enc 0 ch cs = Inr (ch, cs)"
| "acknowledge_many enc (Suc k) ch cs =
     and_then (ControlState_acknowledge_envelope enc ch cs) (\<lambda>(ch, cs). acknowledge_many enc k ch cs)"

lemma acknowledge_envelope_counts:
  assumes "control_ok cs" "cs_window cs \<noteq> 0"
  shows "ControlState_acknowledge_envelope enc ch cs =
    (if unat (cs_consumed_since_ack cs) + 1 = unat (cs_window cs)
     then and_then (Channel_write_message enc common_client_ACK [] ch) (\<lambda>ch. Inr (ch, cs\<lparr>cs_consumed_since_ack := 0\<rparr>))
     else Inr (ch, cs\<lparr>cs_consumed_since_ack := cs_consumed_since_ack cs + 1\<rparr>))"
proof -
  have c: "unat (cs_consumed_since_ack cs) < unat (cs_window cs)"
    using assms by (simp add: control_ok_def word_less_nat_alt)
  then have n: "unat (cs_consumed_since_ack cs) + 1 < 2 ^ 32"
    using unat_u32_less [of "cs_window cs"] by simp
  then have "unat (cs_consumed_since_ack cs + 1) = unat (cs_consumed_since_ack cs) + 1"
    by (simp add: unat_word_ariths)
  with c n assms(2) show ?thesis
    by (auto simp: ControlState_acknowledge_envelope_def Let_def u32_saturating_add_def word_le_nat_alt)
qed

lemma write_messages_append: "write_messages enc (ms @ ns) ch = and_then (write_messages enc ms ch) (write_messages enc ns)"
proof (induction ms arbitrary: ch)
  case (Cons m ms)
  obtain mt body where m: "m = (mt, body)" by (cases m)
  have "write_messages enc (ms @ ns) = (\<lambda>ch. and_then (write_messages enc ms ch) (write_messages enc ns))"
    using Cons.IH by (intro ext)
  then show ?case by (simp add: m and_then_assoc)
qed simp

text \<open>C30: acknowledgement flow control is exact: after any number \<open>k\<close> of envelopes under a window \<open>w\<close>, the
  channel has sent \<open>(c + k) div w\<close> acknowledgements, where \<open>c\<close> envelopes were pending before, nothing
  else, and \<open>(c + k) mod w\<close> envelopes are pending. With no window nothing is sent. The same holds when
  writing fails: the error is that of the failed write.\<close>

theorem acknowledgements_exact:
  assumes "control_ok cs"
  shows "acknowledge_many enc k ch cs =
    (if cs_window cs = 0 then Inr (ch, cs)
     else let c = unat (cs_consumed_since_ack cs); w = unat (cs_window cs) in
       and_then (write_messages enc (replicate ((c + k) div w) (common_client_ACK, [])) ch) (\<lambda>ch.
       Inr (ch, cs\<lparr>cs_consumed_since_ack := of_nat ((c + k) mod w)\<rparr>)))"
proof (cases "cs_window cs = 0")
  case True
  then show ?thesis by (induction k) (simp_all add: ControlState_acknowledge_envelope_def)
next
  case False
  define w where "w = unat (cs_window cs)"
  have w: "0 < w" using False by (simp add: w_def unat_gt_0)
  show ?thesis
    using assms False w_def
  proof (induction k arbitrary: ch cs)
    case 0
    then have "unat (cs_consumed_since_ack cs) < w" by (simp add: control_ok_def word_less_nat_alt)
    with 0 show ?case by (simp add: Let_def)
  next
    case (Suc k)
    let ?c = "unat (cs_consumed_since_ack cs)"
    have c: "?c < w" using Suc.prems by (simp add: control_ok_def word_less_nat_alt)
    show ?case
    proof (cases "?c + 1 = w")
      case True
      let ?cs = "cs\<lparr>cs_consumed_since_ack := 0\<rparr>"
      have sum: "?c + Suc k = k + w" using True by simp
      have e: "(?c + Suc k) div w = Suc (k div w)" "(?c + Suc k) mod w = k mod w"
        using w unfolding sum by (simp_all add: div_add_self2)
      have ih: "acknowledge_many enc k ch' ?cs = and_then (write_messages enc (replicate (k div w) (common_client_ACK, [])) ch')
          (\<lambda>ch. Inr (ch, cs\<lparr>cs_consumed_since_ack := of_nat (k mod w)\<rparr>))" for ch'
        using Suc.IH [of ?cs ch'] Suc.prems by (simp add: control_ok_def word_neq_0_conv Let_def)
      show ?thesis
        using True Suc.prems e ih by (simp add: acknowledge_envelope_counts Let_def and_then_assoc)
    next
      case False
      let ?cs = "cs\<lparr>cs_consumed_since_ack := cs_consumed_since_ack cs + 1\<rparr>"
      have u: "unat (cs_consumed_since_ack cs + 1) = ?c + 1"
        using c unat_u32_less [of "cs_window cs"] Suc.prems(3) by (simp add: unat_word_ariths)
      have ok: "control_ok ?cs" using c u False Suc.prems by (simp add: control_ok_def word_less_nat_alt)
      show ?thesis
        using Suc.IH [OF ok] False Suc.prems u by (simp add: acknowledge_envelope_counts Let_def)
    qed
  qed
qed

theorem acknowledgements_exact_witness:
  "acknowledge_many counting_encode 7 (fresh_channel \<lparr>str_incoming = [], str_outgoing = [], str_writable = True\<rparr> None)
     (ControlState_new\<lparr>cs_window := 4, cs_consumed_since_ack := 1\<rparr>) =
   and_then (write_messages counting_encode [(2, []), (2, [])]
       (fresh_channel \<lparr>str_incoming = [], str_outgoing = [], str_writable = True\<rparr> None))
     (\<lambda>ch. Inr (ch, ControlState_new\<lparr>cs_window := 4, cs_consumed_since_ack := 0\<rparr>))"
proof -
  have ok: "control_ok (ControlState_new\<lparr>cs_window := 4, cs_consumed_since_ack := 1\<rparr>)"
    by (simp add: control_ok_def)
  have two: "replicate 2 x = [x, x]" for x :: "u16 \<times> u8 list" by (simp add: numeral_2_eq_2)
  show ?thesis
    using acknowledgements_exact [OF ok, of counting_encode 7] by (simp add: Let_def two del: write_messages.simps)
qed

section \<open>The control state over a channel's life\<close>

text \<open>The steps a channel task takes through its control state.\<close>

inductive control_step :: "'c mechanism \<Rightarrow> 'c Channel \<times> ControlState \<Rightarrow> 'c Channel \<times> ControlState \<Rightarrow> bool" for enc where
  handled: "ControlState_handle_inner enc ch message count_for_ack cs = Inr (disposition, ch', cs') \<Longrightarrow>
    control_step enc (ch, cs) (ch', cs')"
| acknowledged: "ControlState_acknowledge_envelope enc ch cs = Inr (ch', cs') \<Longrightarrow> control_step enc (ch, cs) (ch', cs')"
| received: "Channel_read_message dec ch = Inr (header, body, ch') \<Longrightarrow> control_step enc (ch, cs) (ch', cs)"
| sent: "Channel_write_message enc mt body ch = Inr ch' \<Longrightarrow> control_step enc (ch, cs) (ch', cs)"

inductive_cases control_stepE: "control_step enc s s'"

inductive control_reachable :: "'c mechanism \<Rightarrow> 'c Channel \<times> ControlState \<Rightarrow> bool" for enc where
  start: "control_reachable enc (ch, ControlState_new)"
| step: "control_reachable enc s \<Longrightarrow> control_step enc s s' \<Longrightarrow> control_reachable enc s'"

lemma acknowledge_keeps_ok:
  assumes "control_ok cs" "ControlState_acknowledge_envelope enc ch cs = Inr (ch', cs')"
  shows "control_ok cs' \<and> cs_window cs' = cs_window cs"
proof (cases "cs_window cs = 0")
  case True
  with assms show ?thesis by (simp add: ControlState_acknowledge_envelope_def control_ok_def)
next
  case False
  have c: "unat (cs_consumed_since_ack cs) < unat (cs_window cs)"
    using assms(1) False by (simp add: control_ok_def word_less_nat_alt)
  then have u: "unat (cs_consumed_since_ack cs + 1) = unat (cs_consumed_since_ack cs) + 1"
    using unat_u32_less [of "cs_window cs"] by (simp add: unat_word_ariths)
  have "cs' = cs\<lparr>cs_consumed_since_ack := 0\<rparr> \<or>
      unat (cs_consumed_since_ack cs) + 1 \<noteq> unat (cs_window cs) \<and>
      cs' = cs\<lparr>cs_consumed_since_ack := cs_consumed_since_ack cs + 1\<rparr>"
    using assms(2) unfolding acknowledge_envelope_counts [OF assms(1) False] by (auto split: if_splits)
  then show ?thesis
  proof
    assume "cs' = cs\<lparr>cs_consumed_since_ack := 0\<rparr>"
    then show ?thesis using False by (simp add: control_ok_def word_neq_0_conv)
  next
    assume "unat (cs_consumed_since_ack cs) + 1 \<noteq> unat (cs_window cs) \<and>
      cs' = cs\<lparr>cs_consumed_since_ack := cs_consumed_since_ack cs + 1\<rparr>"
    then show ?thesis using c u by (simp add: control_ok_def word_less_nat_alt)
  qed
qed

lemma control_dispatch_Inr:
  assumes "control_dispatch enc ch message cs = Inr (disposition, ch', cs')"
  shows "cs' = cs \<or> cs_consumed_since_ack cs' = 0"
proof (cases "dh_message_type (im_header message) = common_server_SET_ACK")
  case True
  with assms show ?thesis by (auto simp: control_dispatch_def Let_def split: if_splits)
next
  case False
  note F = False
  show ?thesis
  proof (cases "dh_message_type (im_header message) = common_server_PING")
    case True
    with F assms show ?thesis by (auto simp: control_dispatch_def Let_def split: if_splits)
  next
    case False
    with F assms show ?thesis
      by (auto simp: control_dispatch_def Let_def migrate_uncoordinated_def split: if_splits)
  qed
qed

lemma handle_inner_keeps_ok:
  assumes "control_ok cs" "ControlState_handle_inner enc ch message counts cs = Inr (disposition, ch', cs')"
  shows "control_ok cs'"
proof -
  obtain d ch1 cs1 where 1: "control_dispatch enc ch message (control_current ch cs) = Inr (d, ch1, cs1)"
      and 2: "(ch', cs') = (ch1, cs1) \<or> ControlState_acknowledge_envelope enc ch1 cs1 = Inr (ch', cs')"
    using assms(2) by (auto simp: ControlState_handle_inner_def split: if_splits)
  have "control_ok (control_current ch cs)" using assms(1) by (simp add: control_current_def control_ok_def)
  with control_dispatch_Inr [OF 1] have "control_ok cs1"
    by (cases "cs_window cs1 = 0") (auto simp: control_ok_def word_neq_0_conv)
  with 2 acknowledge_keeps_ok show ?thesis by blast
qed

lemma control_reachable_ok: "control_reachable enc s \<Longrightarrow> control_ok (snd s)"
proof (induction rule: control_reachable.induct)
  case (step s s')
  then show ?case
    by (auto elim!: control_stepE dest: handle_inner_keeps_ok acknowledge_keeps_ok)
qed simp

lemma no_panic_write_all [no_panic_intros]: "no_panic (write_all bs st)"
  by (simp add: write_all_def)

lemma no_panic_SaslCodec_encode [no_panic_intros]: "no_panic (SaslCodec_encode enc c p)"
  unfolding SaslCodec_encode_def frame_security_token_def by (intro no_panic_intros)

lemma no_panic_sasl_write [no_panic_intros]: "no_panic (sasl_write enc c ps st)"
proof (induction ps arbitrary: c st)
  case (Cons p ps)
  show ?case unfolding sasl_write.simps by (intro no_panic_intros Cons.IH)
qed simp

declare no_panic_case_option [no_panic_intros]

lemma no_panic_Channel_write_message [no_panic_intros]: "no_panic (Channel_write_message enc mt body ch)"
  unfolding Channel_write_message_def Let_def by (intro no_panic_intros)

lemma channel_read_u32_in: "off + 4 \<le> length bs \<Longrightarrow> channel_read_u32 bs off = Inr (from_le (take 4 (drop off bs)))"
  by (simp add: channel_read_u32_def slice_index_def)

lemma no_panic_acknowledge [no_panic_intros]: "no_panic (ControlState_acknowledge_envelope enc ch cs)"
  unfolding ControlState_acknowledge_envelope_def Let_def by (intro no_panic_intros)

lemma no_panic_control_dispatch [no_panic_intros]: "no_panic (control_dispatch enc ch message cs)"
  unfolding control_dispatch_def Let_def migrate_uncoordinated_def
  by (intro no_panic_intros) (simp_all add: channel_read_u32_in slice_index_def)

lemma no_panic_handle_inner [no_panic_intros]: "no_panic (ControlState_handle_inner enc ch message counts cs)"
  unfolding ControlState_handle_inner_def by (intro no_panic_intros)

text \<open>C31: along every run of a channel the acknowledgement counter stays below its window, so the saturating
  increment never saturates and no acknowledgement is late, and no control message, however malformed,
  makes the handler panic.\<close>

theorem control_invariant:
  assumes "control_reachable enc (ch, cs)"
  shows "(cs_window cs = 0 \<or> cs_consumed_since_ack cs < cs_window cs) \<and>
    no_panic (ControlState_handle_inner enc ch message count_for_ack cs) \<and>
    no_panic (ControlState_acknowledge_envelope enc ch cs)"
  using control_reachable_ok [OF assms] by (auto simp: control_ok_def intro: no_panic_intros)

theorem control_invariant_witness:
  "control_reachable counting_encode (fresh_channel \<lparr>str_incoming = [], str_outgoing = [], str_writable = True\<rparr> None, ControlState_new)
   \<and> no_panic (ControlState_acknowledge_envelope counting_encode
        (fresh_channel \<lparr>str_incoming = [], str_outgoing = [], str_writable = True\<rparr> None) ControlState_new)"
  using control_invariant [OF control_reachable.start] control_reachable.start by blast

end
