(* ===== verification/Client_Progress.thy ===== *)
theory Client_Progress
  imports Client_Control
begin

text \<open>
  Cross-channel ordering (\<open>ProgressRegistry\<close>, \<open>handle_channel_wait\<close> of \<open>channel.rs\<close>).

  Every channel task publishes the serial of each message it has completely processed; a Wait For
  Channels message makes a task wait until other channels have reached given serials. The tasks run
  concurrently: between two polls of a waiting task any other task may publish progress, and the session
  may be cancelled. The theory models the wait as a polled computation inside such an interleaving and
  shows that a wait that succeeds has all its barriers reached, that one poll passes it once they are,
  and that the serials of a channel's own reads always satisfy the registry's monotonicity check.
\<close>

section \<open>The registry\<close>

record ChannelIdentity =
  ci_channel_type :: ChannelType
  ci_channel_id :: u8

type_synonym registry = "ChannelIdentity \<rightharpoonup> u64"

fun progress_insert_all :: "registry \<Rightarrow> (ChannelIdentity \<times> u64) list \<Rightarrow> registry client" where
  "progress_insert_all entries [] = Inr entries"
| "progress_insert_all entries ((identity, completed_serial) # rest) =
     (if entries identity \<noteq> None
      then client_err (ClientError_Internal STR ''duplicate progress channel identity'')
      else progress_insert_all (entries(identity \<mapsto> completed_serial)) rest)"

definition ProgressRegistry_new :: "(ChannelIdentity \<times> u64) list \<Rightarrow> registry client" where
  "ProgressRegistry_new channels = progress_insert_all Map.empty channels"

definition ProgressRegistry_complete :: "ChannelIdentity \<Rightarrow> u64 \<Rightarrow> registry \<Rightarrow> registry client" where
  "ProgressRegistry_complete identity serial reg =
     and_then (ok_or (ClientError_Internal STR ''missing progress channel identity'') (reg identity)) (\<lambda>progress.
     if serial \<le> progress then client_err (ClientError_Internal STR ''non-monotonic completed serial'')
     else Inr (reg(identity \<mapsto> serial)))"

section \<open>Waiting\<close>

definition wait_target :: "ChannelWait \<Rightarrow> ChannelIdentity" where
  "wait_target w = \<lparr>ci_channel_type = cw_channel_type w, ci_channel_id = cw_channel_id w\<rparr>"

datatype wait_status = WaitPending "ChannelWait list" | WaitDone

text \<open>
  One poll of \<open>wait_for\<close>: the barriers that are reached are passed, and at the first one that is not
  the task suspends. A suspended task is polled again after the progress or the cancellation flag it
  watches has changed, and then repeats the test of that barrier. Each test starts with the checks of
  the barrier, which depend on nothing that changes.
\<close>

fun wait_poll :: "ChannelIdentity \<Rightarrow> u64 \<Rightarrow> registry \<Rightarrow> bool \<Rightarrow> ChannelWait list \<Rightarrow> wait_status client" where
  "wait_poll requester requester_serial reg cancelled [] = Inr WaitDone"
| "wait_poll requester requester_serial reg cancelled (w # ws) =
     (if wait_target w = requester \<and> cw_message_serial w \<ge> requester_serial
      then client_err (protocol_value_error STR ''self-referential channel wait'')
      else
      and_then (ok_or (protocol_value_error STR ''wait for unknown channel'') (reg (wait_target w))) (\<lambda>completed.
      if completed < cw_message_serial w
      then if cancelled then client_err ClientError_Cancelled else Inr (WaitPending (w # ws))
      else wait_poll requester requester_serial reg cancelled ws))"

text \<open>\<open>handle_channel_wait\<close> up to its first suspension; \<open>None\<close> is \<open>Ok(false)\<close>.\<close>

definition handle_channel_wait ::
    "registry \<Rightarrow> ChannelIdentity \<Rightarrow> u64 \<Rightarrow> bool \<Rightarrow> IncomingMessage \<Rightarrow> wait_status option client" where
  "handle_channel_wait reg identity serial cancelled message =
     (if dh_message_type (im_header message) \<noteq> common_server_WAIT_FOR_CHANNELS then Inr None
      else
      and_then (from_decode (WaitForChannels_decode (im_body message))) (\<lambda>ws.
      and_then (wait_poll identity serial reg cancelled (waits ws)) (\<lambda>status. Inr (Some status))))"

section \<open>Interleaving\<close>

text \<open>
  The state of the session as a waiting task sees it: the registry, the cancellation flag and what the
  task is doing.
\<close>

datatype task_status = Waiting "ChannelWait list" | Passed | Failed ClientError

record session =
  se_registry :: registry
  se_cancelled :: bool
  se_task :: task_status

definition task_of :: "wait_status client \<Rightarrow> task_status" where
  "task_of m = (case m of Inr WaitDone \<Rightarrow> Passed | Inr (WaitPending ws) \<Rightarrow> Waiting ws
      | Inl (Err e) \<Rightarrow> Failed e | Inl Panic \<Rightarrow> Failed (ClientError_Internal STR ''panic''))"

inductive session_step :: "ChannelIdentity \<Rightarrow> u64 \<Rightarrow> session \<Rightarrow> session \<Rightarrow> bool" for requester serial where
  progress: "ProgressRegistry_complete other n (se_registry s) = Inr reg \<Longrightarrow>
    session_step requester serial s (s\<lparr>se_registry := reg\<rparr>)"
| cancel: "session_step requester serial s (s\<lparr>se_cancelled := True\<rparr>)"
| poll: "se_task s = Waiting ws \<Longrightarrow>
    session_step requester serial s
      (s\<lparr>se_task := task_of (wait_poll requester serial (se_registry s) (se_cancelled s) ws)\<rparr>)"

inductive_cases session_stepE: "session_step requester serial s s'"

abbreviation session_run :: "ChannelIdentity \<Rightarrow> u64 \<Rightarrow> session \<Rightarrow> session \<Rightarrow> bool" where
  "session_run requester serial \<equiv> (session_step requester serial)\<^sup>*\<^sup>*"

section \<open>Properties of the registry\<close>

definition reached :: "registry \<Rightarrow> ChannelWait \<Rightarrow> bool" where
  "reached reg w \<longleftrightarrow> (\<exists>n. reg (wait_target w) = Some n \<and> cw_message_serial w \<le> n)"

definition registry_le :: "registry \<Rightarrow> registry \<Rightarrow> bool" where
  "registry_le reg reg' \<longleftrightarrow> (\<forall>i n. reg i = Some n \<longrightarrow> (\<exists>n'. reg' i = Some n' \<and> n \<le> n'))"

lemma registry_le_refl [simp]: "registry_le reg reg"
  by (simp add: registry_le_def)

lemma registry_le_trans: "registry_le a b \<Longrightarrow> registry_le b c \<Longrightarrow> registry_le a c"
  unfolding registry_le_def by (meson order_trans)

lemma complete_registry_le: "ProgressRegistry_complete i n reg = Inr reg' \<Longrightarrow> registry_le reg reg' \<and> dom reg' = dom reg"
  by (auto simp: ProgressRegistry_complete_def registry_le_def split: if_splits)

lemma complete_dom: "ProgressRegistry_complete i n reg = Inr reg' \<Longrightarrow> dom reg' = dom reg"
  using complete_registry_le by blast

lemma reached_mono: "registry_le reg reg' \<Longrightarrow> reached reg w \<Longrightarrow> reached reg' w"
  unfolding registry_le_def reached_def by (meson order_trans)

lemma progress_insert_all_Inr:
  "progress_insert_all reg cs = Inr reg' \<longleftrightarrow>
     distinct (map fst cs) \<and> set (map fst cs) \<inter> dom reg = {} \<and> reg' = reg ++ map_of cs"
proof (induction reg cs arbitrary: reg' rule: progress_insert_all.induct)
  case (2 reg i n rest)
  show ?case
  proof (cases "reg i = None")
    case True
    then have i: "i \<notin> dom reg" by (simp add: domIff)
    have m: "reg(i \<mapsto> n) ++ map_of rest = reg ++ map_of ((i, n) # rest)" if "i \<notin> fst ` set rest"
      using that by (simp add: map_add_upd_left dom_map_of_conv_image_fst)
    have "progress_insert_all reg ((i, n) # rest) = Inr reg' \<longleftrightarrow>
        distinct (map fst rest) \<and> set (map fst rest) \<inter> dom (reg(i \<mapsto> n)) = {} \<and> reg' = reg(i \<mapsto> n) ++ map_of rest"
    proof -
      have "progress_insert_all reg ((i, n) # rest) = progress_insert_all (reg(i \<mapsto> n)) rest" using True by simp
      moreover have none: "\<not> reg i \<noteq> None" using True by simp
      ultimately show ?thesis by (simp only: "2.IH" [OF none])
    qed
    also have "\<dots> \<longleftrightarrow> distinct (map fst ((i, n) # rest)) \<and> set (map fst ((i, n) # rest)) \<inter> dom reg = {} \<and>
        reg' = reg ++ map_of ((i, n) # rest)"
    proof (cases "i \<in> fst ` set rest")
      case True
      then show ?thesis by simp
    next
      case False
      then show ?thesis unfolding m [OF False] using i by simp
    qed
    finally show ?thesis .
  next
    case False
    then show ?thesis by auto
  qed
qed auto

section \<open>Properties of waiting\<close>

lemma wait_poll_Inr:
  "wait_poll requester serial reg cancelled ws = Inr status \<Longrightarrow>
     (case status of WaitDone \<Rightarrow> (\<forall>w \<in> set ws. reached reg w)
      | WaitPending vs \<Rightarrow> \<exists>us. ws = us @ vs \<and> vs \<noteq> [] \<and> (\<forall>w \<in> set us. reached reg w) \<and> \<not> cancelled \<and> \<not> reached reg (hd vs))"
proof (induction requester serial reg cancelled ws rule: wait_poll.induct)
  case (2 requester serial reg cancelled w ws)
  then obtain completed where c: "reg (wait_target w) = Some completed" by (auto split: if_splits)
  show ?case
  proof (cases "completed < cw_message_serial w")
    case True
    with 2(2) c show ?thesis by (auto simp: reached_def split: if_splits)
  next
    case False
    then have r: "reached reg w" using c by (auto simp: reached_def)
    have "case status of WaitDone \<Rightarrow> (\<forall>w \<in> set ws. reached reg w)
      | WaitPending vs \<Rightarrow> \<exists>us. ws = us @ vs \<and> vs \<noteq> [] \<and> (\<forall>w \<in> set us. reached reg w) \<and> \<not> cancelled \<and> \<not> reached reg (hd vs)"
      using 2 c False by (auto split: if_splits)
    with r show ?thesis by (cases status) (auto intro: exI [of _ "w # us" for us])
  qed
qed auto

lemma wait_poll_no_panic [no_panic_intros]: "no_panic (wait_poll requester serial reg cancelled ws)"
proof (induction requester serial reg cancelled ws rule: wait_poll.induct)
  case (2 requester serial reg cancelled w ws)
  show ?case unfolding wait_poll.simps by (intro no_panic_intros) (use 2 in auto)
qed simp

text \<open>A task that suspended has passed the checks of the barrier it waits for.\<close>

definition wait_valid :: "ChannelIdentity \<Rightarrow> u64 \<Rightarrow> registry \<Rightarrow> ChannelWait \<Rightarrow> bool" where
  "wait_valid requester serial reg w \<longleftrightarrow>
     (wait_target w = requester \<longrightarrow> cw_message_serial w < serial) \<and> wait_target w \<in> dom reg"

lemma wait_poll_valid:
  "(\<And>w. w \<in> set ws \<Longrightarrow> wait_valid requester serial reg w) \<Longrightarrow>
   wait_poll requester serial reg cancelled ws =
     (let vs = dropWhile (reached reg) ws in
      if vs = [] then Inr WaitDone else if cancelled then client_err ClientError_Cancelled else Inr (WaitPending vs))"
proof (induction requester serial reg cancelled ws rule: wait_poll.induct)
  case (2 requester serial reg cancelled w ws)
  from 2(2) [of w] obtain n where n: "reg (wait_target w) = Some n" by (auto simp: wait_valid_def)
  have v: "\<not> (wait_target w = requester \<and> cw_message_serial w \<ge> serial)"
    using 2(2) [of w] by (auto simp: wait_valid_def)
  have "reached reg w \<longleftrightarrow> \<not> n < cw_message_serial w" using n by (auto simp: reached_def)
  with 2 n v show ?case by (auto simp: Let_def)
qed simp

definition wait_inv :: "ChannelWait list \<Rightarrow> session \<Rightarrow> bool" where
  "wait_inv ws s \<longleftrightarrow>
     (case se_task s of
        Waiting vs \<Rightarrow> \<exists>us. ws = us @ vs \<and> (\<forall>w \<in> set us. reached (se_registry s) w)
      | Passed \<Rightarrow> (\<forall>w \<in> set ws. reached (se_registry s) w)
      | Failed e \<Rightarrow> True)"

lemma wait_inv_step:
  assumes "session_step requester serial s s'" "wait_inv ws s"
  shows "wait_inv ws s'"
  using assms
proof cases
  case (progress other n reg)
  then have "registry_le (se_registry s) reg" using complete_registry_le by blast
  with progress assms(2) show ?thesis
    by (auto simp: wait_inv_def split: task_status.splits intro: reached_mono)
next
  case cancel
  with assms(2) show ?thesis by (simp add: wait_inv_def split: task_status.splits)
next
  case (poll vs)
  with assms(2) obtain us where us: "ws = us @ vs" "\<forall>w \<in> set us. reached (se_registry s) w"
    by (auto simp: wait_inv_def)
  show ?thesis
  proof (cases "wait_poll requester serial (se_registry s) (se_cancelled s) vs")
    case (Inl e)
    with poll show ?thesis by (cases e) (simp_all add: wait_inv_def task_of_def)
  next
    case (Inr status)
    from wait_poll_Inr [OF Inr] us poll Inr show ?thesis
      by (cases status) (auto simp: wait_inv_def task_of_def intro: exI [of _ "us @ us'" for us'])
  qed
qed

lemma session_run_inv:
  "session_run requester serial s s' \<Longrightarrow> wait_inv ws s \<Longrightarrow> wait_inv ws s'"
  by (induction rule: rtranclp_induct) (auto intro: wait_inv_step)

text \<open>C27: a cross-channel wait is a barrier: in every interleaving of the waiting task with the progress of
  other channels and with cancellation, a wait that succeeds has all the serials it names completed at
  that moment, including those it tested earlier.\<close>

theorem channel_wait_sound:
  assumes "session_run requester serial s s'" "se_task s = Waiting ws" "se_task s' = Passed"
  shows "\<forall>w \<in> set ws. \<exists>n. se_registry s' (wait_target w) = Some n \<and> cw_message_serial w \<le> n"
proof -
  have "wait_inv ws s" using assms(2) by (auto simp: wait_inv_def)
  from session_run_inv [OF assms(1) this] assms(3) show ?thesis by (auto simp: wait_inv_def reached_def)
qed

lemma session_step_dom: "session_step requester serial s s' \<Longrightarrow> dom (se_registry s') = dom (se_registry s)"
  by (elim session_stepE) (simp_all add: complete_dom)

lemma session_run_dom: "session_run requester serial s s' \<Longrightarrow> dom (se_registry s') = dom (se_registry s)"
  by (induction rule: rtranclp_induct) (simp_all add: session_step_dom)

lemma session_run_waiting:
  assumes "session_run requester serial s s'" "se_task s = Waiting ws"
    "\<And>w. w \<in> set ws \<Longrightarrow> wait_valid requester serial (se_registry s) w" "\<not> se_cancelled s'"
  shows "se_task s' = Passed \<or> (\<exists>us vs. se_task s' = Waiting vs \<and> ws = us @ vs)"
  using assms
proof (induction rule: rtranclp_induct)
  case (step t u)
  have c: "\<not> se_cancelled t" using step.hyps(2) step.prems(3) by (auto elim!: session_stepE)
  have valid: "wait_valid requester serial (se_registry t) w" if "w \<in> set ws" for w
    using step.prems(2) [OF that] session_run_dom [OF step.hyps(1)] by (simp add: wait_valid_def)
  from step.IH [OF step.prems(1,2) c] consider (passed) "se_task t = Passed"
    | (waiting) us vs where "se_task t = Waiting vs" "ws = us @ vs" by blast
  then show ?case
  proof cases
    case passed
    with step.hyps(2) show ?thesis by (auto elim!: session_stepE)
  next
    case waiting
    have p: "wait_poll requester serial (se_registry t) (se_cancelled t) vs =
      (let rest = dropWhile (reached (se_registry t)) vs in if rest = [] then Inr WaitDone else Inr (WaitPending rest))"
      using wait_poll_valid [of vs requester serial "se_registry t" "se_cancelled t"] valid waiting(2) c by (simp add: Let_def)
    show ?thesis
      using step.hyps(2)
    proof cases
      case (poll xs)
      with waiting p have "se_task u = task_of (wait_poll requester serial (se_registry t) (se_cancelled t) vs)" by simp
      with p waiting(2) show ?thesis
        by (auto simp: task_of_def Let_def split: if_splits)
           (metis append.assoc takeWhile_dropWhile_id)
    qed (use waiting in auto)
  qed
qed auto

text \<open>C28: a wait ends at the next poll. Take any interleaving from a waiting task to a later moment at which the session is not
  cancelled and every serial the wait names has been completed, where each barrier names a known channel and none names the
  requester's own current or later message. Then the wait has not failed: it has passed, or it is still suspended and one single
  poll passes it, however many barriers were left. And it will be polled: if it was suspended at the first moment on a barrier not
  yet reached, the progress of that barrier's channel, which the suspended task watches, has changed since.\<close>

theorem channel_wait_live:
  assumes run: "session_run requester serial s s'" and start: "se_task s = Waiting ws"
    and valid: "\<forall>w \<in> set ws. wait_valid requester serial (se_registry s) w"
    and calm: "\<not> se_cancelled s'" and completed: "\<forall>w \<in> set ws. reached (se_registry s') w"
  shows "(se_task s' = Passed \<or>
      (\<exists>vs. se_task s' = Waiting vs \<and> task_of (wait_poll requester serial (se_registry s') (se_cancelled s') vs) = Passed)) \<and>
    (ws \<noteq> [] \<and> \<not> reached (se_registry s) (hd ws) \<longrightarrow>
      se_registry s' (wait_target (hd ws)) \<noteq> se_registry s (wait_target (hd ws)))"
proof
  have v: "\<And>w. w \<in> set ws \<Longrightarrow> wait_valid requester serial (se_registry s) w" using valid by blast
  from session_run_waiting [OF run start v calm] consider (passed) "se_task s' = Passed"
    | (waiting) us vs where "se_task s' = Waiting vs" "ws = us @ vs" by blast
  then show "se_task s' = Passed \<or>
      (\<exists>vs. se_task s' = Waiting vs \<and> task_of (wait_poll requester serial (se_registry s') (se_cancelled s') vs) = Passed)"
  proof cases
    case waiting
    have "wait_valid requester serial (se_registry s') w" if "w \<in> set vs" for w
      using valid that waiting(2) session_run_dom [OF run] by (auto simp: wait_valid_def)
    moreover have "dropWhile (reached (se_registry s')) vs = []" using completed waiting(2) by (auto simp: dropWhile_eq_Nil_conv)
    ultimately have "wait_poll requester serial (se_registry s') (se_cancelled s') vs = Inr WaitDone"
      using wait_poll_valid [of vs requester serial "se_registry s'"] by simp
    with waiting(1) show ?thesis by (simp add: task_of_def)
  qed simp
  show "ws \<noteq> [] \<and> \<not> reached (se_registry s) (hd ws) \<longrightarrow>
      se_registry s' (wait_target (hd ws)) \<noteq> se_registry s (wait_target (hd ws))"
    using completed by (cases ws) (auto simp: reached_def)
qed

subsection \<open>A wait in a session of two channels\<close>

definition display_channel :: ChannelIdentity where
  "display_channel = \<lparr>ci_channel_type = ChannelType_Display, ci_channel_id = 0\<rparr>"

definition cursor_channel :: ChannelIdentity where
  "cursor_channel = \<lparr>ci_channel_type = ChannelType_Cursor, ci_channel_id = 0\<rparr>"

definition display_wait :: ChannelWait where
  "display_wait = \<lparr>cw_channel_type = ChannelType_Display, cw_channel_id = 0, cw_message_serial = 5\<rparr>"

definition waiting_session :: session where
  "waiting_session = \<lparr>se_registry = [display_channel \<mapsto> 3, cursor_channel \<mapsto> 1], se_cancelled = False,
     se_task = Waiting [display_wait]\<rparr>"

lemma display_wait_simps [simp]:
  "wait_target display_wait = display_channel" "cw_message_serial display_wait = 5" "display_channel \<noteq> cursor_channel"
  by (simp_all add: wait_target_def display_wait_def display_channel_def cursor_channel_def)

definition advanced_session :: session where
  "advanced_session = waiting_session\<lparr>se_registry := [display_channel \<mapsto> 6, cursor_channel \<mapsto> 1]\<rparr>"

lemma waiting_session_progress: "session_step cursor_channel 9 waiting_session advanced_session"
proof -
  have "ProgressRegistry_complete display_channel 6 (se_registry waiting_session) =
      Inr [display_channel \<mapsto> 6, cursor_channel \<mapsto> 1]"
    by (simp add: ProgressRegistry_complete_def waiting_session_def fun_upd_twist)
  from session_step.progress [OF this] show ?thesis by (simp add: advanced_session_def)
qed

lemma advanced_session_passes: "session_step cursor_channel 9 advanced_session (advanced_session\<lparr>se_task := Passed\<rparr>)"
  using session_step.poll [of advanced_session "[display_wait]" cursor_channel 9]
  by (simp add: advanced_session_def waiting_session_def task_of_def)

theorem channel_wait_live_witness:
  "se_task advanced_session = Waiting [display_wait] \<and>
   task_of (wait_poll cursor_channel 9 (se_registry advanced_session) (se_cancelled advanced_session) [display_wait]) = Passed \<and>
   se_registry advanced_session (wait_target display_wait) \<noteq> se_registry waiting_session (wait_target display_wait)"
  using channel_wait_live [OF r_into_rtranclp [of "session_step cursor_channel 9", OF waiting_session_progress], of "[display_wait]"]
  by (simp add: waiting_session_def wait_valid_def reached_def advanced_session_def)

theorem channel_wait_sound_witness:
  "session_run cursor_channel 9 waiting_session (advanced_session\<lparr>se_task := Passed\<rparr>) \<and>
   (\<exists>n. se_registry (advanced_session\<lparr>se_task := Passed\<rparr>) (wait_target display_wait) = Some n \<and>
     cw_message_serial display_wait \<le> n)"
proof -
  have run: "session_run cursor_channel 9 waiting_session (advanced_session\<lparr>se_task := Passed\<rparr>)"
    using waiting_session_progress advanced_session_passes by (meson converse_rtranclp_into_rtranclp rtranclp.rtrancl_refl)
  have "se_task waiting_session = Waiting [display_wait]" by (simp add: waiting_session_def)
  from channel_wait_sound [OF run this] run show ?thesis by auto
qed

section \<open>Reading and publishing\<close>

lemma sasl_copy_same: "sasl_copy need out ch = Inr (out', ch') \<Longrightarrow> same_channel ch ch'"
proof -
  assume "sasl_copy need out ch = Inr (out', ch')"
  then have "ch' = ch\<lparr>ch_sasl_decoded := [], ch_sasl_decoded_offset := 0\<rparr> \<or> (\<exists>off. ch' = ch\<lparr>ch_sasl_decoded_offset := off\<rparr>)"
    unfolding sasl_copy_def Let_def and_then_eq_Inr by (elim exE conjE) (simp split: if_splits, blast+)
  then show "same_channel ch ch'" by (auto simp: same_channel_def)
qed

lemma sasl_fill_same: "sasl_fill dec ch = Inr ch' \<Longrightarrow> same_channel ch ch'"
  by (auto simp: sasl_fill_def Let_def same_channel_def read_exact_def split: if_splits)

lemma sasl_read_loop_same: "sasl_read_loop dec need out ch = Inr (bs, ch') \<Longrightarrow> same_channel ch ch'"
proof (induction dec need out ch rule: sasl_read_loop.induct)
  case (1 dec need out ch)
  note loop = sasl_read_loop.simps [of dec need out ch]
  show ?case
  proof (cases "length out < need")
    case True
    note T = True
    show ?thesis
    proof (cases "ch_sasl_decoded_offset ch < length (ch_sasl_decoded ch)")
      case True
      with T "1.prems" loop obtain out1 ch1 where c: "sasl_copy need out ch = Inr (out1, ch1)"
          "sasl_read_loop dec need out1 ch1 = Inr (bs, ch')" by auto
      from "1.IH"(1) [OF T True c(1) refl c(2)] sasl_copy_same [OF c(1)] show ?thesis by (blast intro: same_channel_trans)
    next
      case False
      with T "1.prems" loop obtain ch1 where f: "sasl_fill dec ch = Inr ch1"
          "sasl_read_loop dec need out ch1 = Inr (bs, ch')" by auto
      from "1.IH"(2) [OF T False f] sasl_fill_same [OF f(1)] show ?thesis by (blast intro: same_channel_trans)
    qed
  next
    case False
    with "1.prems" loop show ?thesis by simp
  qed
qed

lemma read_exact_transport_same: "read_exact_transport dec n ch = Inr (bs, ch') \<Longrightarrow> same_channel ch ch'"
  by (auto simp: read_exact_transport_def read_exact_def same_channel_def dest: sasl_read_loop_same split: if_splits)

definition serial_ok :: "'c Channel \<Rightarrow> bool" where
  "serial_ok ch \<longleftrightarrow> unat (ch_received_serial_base ch) + unat (ch_last_received_serial ch) < 2 ^ 64"

lemma Channel_read_message_serial:
  assumes "Channel_read_message dec ch = Inr (header, body, ch')"
  shows "ch_received_serial_base ch' = ch_received_serial_base ch"
    "ch_last_received_serial ch < ch_last_received_serial ch'" "serial_ok ch'"
proof -
  from assms obtain hb ch1 ch2 l where 1: "read_exact_transport dec (Framing_header_len (ch_framing ch)) ch = Inr (hb, ch1)"
      and 2: "read_exact_transport dec (unat (dh_body_size header)) ch1 = Inr (body, ch2)"
      and l: "(case dh_serial header of
          Some serial \<Rightarrow> if serial > ch_last_received_serial ch2 then Inr serial
            else client_err (protocol_value_error STR ''server message serial regression'')
        | None \<Rightarrow> ok_or (protocol_value_error STR ''server message serial overflow'')
            (u64_checked_add (ch_last_received_serial ch2) 1)) = Inr l"
      and base: "u64_checked_add (ch_received_serial_base ch2) l \<noteq> None"
      and ch': "ch' = ch2\<lparr>ch_last_received_serial := l\<rparr>"
    by (auto simp: Channel_read_message_def Let_def not_less split: if_splits)
  have same: "same_channel ch ch2" using read_exact_transport_same [OF 1] read_exact_transport_same [OF 2]
    by (rule same_channel_trans)
  have "ch_last_received_serial ch2 < l"
    using l by (auto simp: u64_checked_add_def u64_add_one split: option.splits if_splits)
  with same ch' base show "ch_received_serial_base ch' = ch_received_serial_base ch"
    "ch_last_received_serial ch < ch_last_received_serial ch'" "serial_ok ch'"
    by (auto simp: same_channel_def serial_ok_def u64_checked_add_def split: if_splits)
qed

lemma received_serial_unat:
  "serial_ok ch \<Longrightarrow> unat (Channel_received_serial ch) = unat (ch_received_serial_base ch) + unat (ch_last_received_serial ch)"
  by (simp add: Channel_received_serial_def u64_saturating_add_def serial_ok_def unat_word_ariths)

text \<open>A channel task between two messages: its serial is published up to the last message it processed.\<close>

definition task_ok :: "ChannelIdentity \<Rightarrow> 'c Channel \<Rightarrow> registry \<Rightarrow> bool" where
  "task_ok identity ch reg \<longleftrightarrow> serial_ok ch \<and> (\<exists>n. reg identity = Some n \<and> n \<le> Channel_received_serial ch)"

fun read_and_complete ::
    "'c mechanism \<Rightarrow> ChannelIdentity \<Rightarrow> nat \<Rightarrow> 'c Channel \<Rightarrow> registry \<Rightarrow> ('c Channel \<times> registry) client" where
  "read_and_complete dec identity 0 ch reg = Inr (ch, reg)"
| "read_and_complete dec identity (Suc k) ch reg =
     and_then (Channel_read_message dec ch) (\<lambda>(header, body, ch).
     and_then (ProgressRegistry_complete identity (Channel_received_serial ch) reg) (\<lambda>reg.
     read_and_complete dec identity k ch reg))"

lemma read_then_complete:
  assumes "task_ok identity ch reg" "Channel_read_message dec ch = Inr (header, body, ch')"
  shows "ProgressRegistry_complete identity (Channel_received_serial ch') reg =
      Inr (reg(identity \<mapsto> Channel_received_serial ch'))"
    "Channel_received_serial ch < Channel_received_serial ch'"
    "task_ok identity ch' (reg(identity \<mapsto> Channel_received_serial ch'))"
proof -
  note r = Channel_read_message_serial [OF assms(2)]
  obtain n where n: "reg identity = Some n" "n \<le> Channel_received_serial ch" and ok: "serial_ok ch"
    using assms(1) by (auto simp: task_ok_def)
  show less: "Channel_received_serial ch < Channel_received_serial ch'"
    using r(1,2) received_serial_unat [OF ok] received_serial_unat [OF r(3)] by (simp add: word_less_nat_alt)
  then have "\<not> Channel_received_serial ch' \<le> n" using n(2) by (meson leD order.strict_trans1)
  then show "ProgressRegistry_complete identity (Channel_received_serial ch') reg =
      Inr (reg(identity \<mapsto> Channel_received_serial ch'))"
    using n(1) by (simp add: ProgressRegistry_complete_def)
  show "task_ok identity ch' (reg(identity \<mapsto> Channel_received_serial ch'))" using r(3) by (simp add: task_ok_def)
qed

text \<open>Publishing progress cannot fail: along any run of a channel task that reads messages and publishes
  the serial of each, whatever serials the server puts in its headers and however long it runs, the
  registry accepts every serial, so the only errors are those of reading.\<close>

theorem progress_always_accepted:
  assumes "task_ok identity ch reg"
  shows "(case read_and_complete dec identity k ch reg of
      Inl e \<Rightarrow> \<exists>j < k. \<exists>ch' reg'. read_and_complete dec identity j ch reg = Inr (ch', reg') \<and>
        Channel_read_message dec ch' = Inl e
    | Inr (ch', reg') \<Rightarrow> task_ok identity ch' reg' \<and> registry_le reg reg')"
  using assms
proof (induction k arbitrary: ch reg)
  case (Suc k)
  show ?case
  proof (cases "Channel_read_message dec ch")
    case (Inl e)
    then show ?thesis by (auto intro!: exI [of _ 0])
  next
    case (Inr x)
    obtain header body ch1 where x: "x = (header, body, ch1)" by (cases x)
    let ?reg = "reg(identity \<mapsto> Channel_received_serial ch1)"
    note s = read_then_complete [OF Suc.prems Inr [unfolded x]]
    have le: "registry_le reg ?reg" using complete_registry_le [OF s(1)] by blast
    have unf: "read_and_complete dec identity (Suc j) ch reg = read_and_complete dec identity j ch1 ?reg" for j
      using Inr x s(1) by simp
    show ?thesis
    proof (cases "read_and_complete dec identity k ch1 ?reg")
      case (Inl e)
      from Suc.IH [OF s(3)] obtain j ch' reg' where j: "j < k"
          "read_and_complete dec identity j ch1 ?reg = Inr (ch', reg')" "Channel_read_message dec ch' = Inl e"
        unfolding Inl sum.case by blast
      then have "Suc j < Suc k \<and> read_and_complete dec identity (Suc j) ch reg = Inr (ch', reg') \<and>
          Channel_read_message dec ch' = Inl e"
        unfolding unf by simp
      then show ?thesis unfolding unf [of k] Inl sum.case by blast
    next
      case (Inr y)
      from Suc.IH [OF s(3)] le show ?thesis unfolding unf [of k] Inr sum.case
        by (cases y) (auto intro: registry_le_trans simp del: fun_upd_apply)
    qed
  qed
qed simp

theorem progress_always_accepted_witness:
  "case read_and_complete counting_decode cursor_channel 0
      (fresh_channel \<lparr>str_incoming = [101, 0, 0, 0, 0, 0], str_outgoing = [], str_writable = True\<rparr> None) [cursor_channel \<mapsto> 0] of
     Inl e \<Rightarrow> False | Inr (ch, reg) \<Rightarrow> task_ok cursor_channel ch reg"
proof -
  have ok: "task_ok cursor_channel
      (fresh_channel \<lparr>str_incoming = [101, 0, 0, 0, 0, 0], str_outgoing = [], str_writable = True\<rparr> None :: u8 Channel)
      [cursor_channel \<mapsto> 0]"
    by (simp add: task_ok_def serial_ok_def fresh_channel_def)
  show ?thesis
    using progress_always_accepted [OF ok, where dec = counting_decode and k = 0] by simp
qed

end
