(* ===== verification/Client_Inputs.thy ===== *)
theory Client_Inputs
  imports Client_Progress Spice_Main Spice_Peripherals
begin

text \<open>
  Keyboard and pointer delivery (\<open>inputs.rs\<close> of \<open>oxide-spice-client\<close>).

  The host submits ordered input edges (keys, buttons) into a bounded queue, and pointer motion into
  two slots that coalesce: the latest absolute position, and the sum of relative motion. One task owns the
  channel and chooses, at every turn of its \<open>select!\<close>, one branch whose guard holds. The host's calls and
  the task's branches are interleaved in an arbitrary order by the step relation \<open>inputs_step\<close>. Turns
  that end the task (cancellation, a dropped handle, an error) are not steps.

  Shown here: every edge the host got accepted is written to the channel exactly once and in order; the
  queue respects its capacity; the counter of motion in flight is exact and motion respects the window
  the server's acknowledgements leave; a button edge follows the motion that was pending; what
  \<open>move_pointer\<close> does to the pending sum on every branch; and what a turn costs that another branch wins
  while a message has arrived in part.
\<close>

section \<open>Constants and types\<close>

definition INPUT_EDGE_QUEUE_CAPACITY :: nat where [simp]: "INPUT_EDGE_QUEUE_CAPACITY = 128"
definition MAX_SCANCODE_SEQUENCE_BYTES :: nat where [simp]: "MAX_SCANCODE_SEQUENCE_BYTES = 32"
definition MAX_IN_FLIGHT_POINTER_MESSAGES :: u32 where [simp]: "MAX_IN_FLIGHT_POINTER_MESSAGES = 8"

definition inputs_server_INIT :: u16 where [simp]: "inputs_server_INIT = 101"
definition inputs_server_KEY_MODIFIERS :: u16 where [simp]: "inputs_server_KEY_MODIFIERS = 102"
definition inputs_server_MOUSE_MOTION_ACK :: u16 where [simp]: "inputs_server_MOUSE_MOTION_ACK = 111"
definition inputs_client_KEY_DOWN :: u16 where [simp]: "inputs_client_KEY_DOWN = 101"
definition inputs_client_KEY_UP :: u16 where [simp]: "inputs_client_KEY_UP = 102"
definition inputs_client_KEY_MODIFIERS :: u16 where [simp]: "inputs_client_KEY_MODIFIERS = 103"
definition inputs_client_KEY_SCANCODE :: u16 where [simp]: "inputs_client_KEY_SCANCODE = 104"
definition inputs_client_MOUSE_MOTION :: u16 where [simp]: "inputs_client_MOUSE_MOTION = 111"
definition inputs_client_MOUSE_POSITION :: u16 where [simp]: "inputs_client_MOUSE_POSITION = 112"
definition inputs_client_MOUSE_PRESS :: u16 where [simp]: "inputs_client_MOUSE_PRESS = 113"
definition inputs_client_MOUSE_RELEASE :: u16 where [simp]: "inputs_client_MOUSE_RELEASE = 114"

record PointerPosition =
  pp_x :: u32
  pp_y :: u32
  pp_buttons :: MouseButtons
  pp_display_id :: u8

datatype InputSendError =
    InputSendError_QueueFull | InputSendError_ChannelClosed | InputSendError_ScancodeSequenceTooLong
  | InputSendError_RawScancodesUnsupported | InputSendError_WrongMouseMode
  | InputSendError_RelativeMotionOverflow

datatype InputEdge =
    InputEdge_KeyDown u32
  | InputEdge_KeyUp u32
  | InputEdge_Scancodes "u8 list"
  | InputEdge_Modifiers KeyboardModifiers
  | InputEdge_ButtonPress MouseButton MouseButtons
  | InputEdge_ButtonRelease MouseButton MouseButtons

fun InputEdge_requires_pointer_flush :: "InputEdge \<Rightarrow> bool" where
  "InputEdge_requires_pointer_flush (InputEdge_ButtonPress _ _) = True"
| "InputEdge_requires_pointer_flush (InputEdge_ButtonRelease _ _) = True"
| "InputEdge_requires_pointer_flush _ = False"

record RelativeMotion =
  rm_dx :: i32
  rm_dy :: i32
  rm_buttons :: MouseButtons

text \<open>\<open>i32::checked_add\<close>\<close>

definition i32_checked_add :: "i32 \<Rightarrow> i32 \<Rightarrow> i32 option" where
  "i32_checked_add a b =
     (if - (2 ^ 31) \<le> sint a + sint b \<and> sint a + sint b < 2 ^ 31 then Some (a + b) else None)"

section \<open>The paths between host and task\<close>

text \<open>
  The queue and slots shared by \<open>InputsHandle\<close> and \<open>InputTaskPaths\<close>. A watch channel is its value and
  whether the task has an unseen change; \<open>Notify\<close> is its stored permit.
\<close>

record InputPaths =
  ip_edges :: "InputEdge list"
  ip_task_alive :: bool
  ip_pointer :: "PointerPosition option"
  ip_pointer_changed :: bool
  ip_modifiers :: KeyboardModifiers
  ip_mouse_mode :: MouseMode
  ip_mouse_mode_changed :: bool
  ip_pending :: "RelativeMotion option"
  ip_notify :: bool
  ip_raw_scancodes_supported :: bool

type_synonym 'a input_call = "(InputSendError + 'a) \<times> InputPaths"

definition InputsHandle_try_edge :: "InputEdge \<Rightarrow> InputPaths \<Rightarrow> unit input_call" where
  "InputsHandle_try_edge edge p =
     (if \<not> ip_task_alive p then (Inl InputSendError_ChannelClosed, p)
      else if length (ip_edges p) \<ge> INPUT_EDGE_QUEUE_CAPACITY then (Inl InputSendError_QueueFull, p)
      else (Inr (), p\<lparr>ip_edges := ip_edges p @ [edge]\<rparr>))"

text \<open>\<open>send_edge\<close> waits for capacity: \<open>None\<close> is "still waiting".\<close>

definition InputsHandle_send_edge :: "InputEdge \<Rightarrow> InputPaths \<Rightarrow> unit input_call option" where
  "InputsHandle_send_edge edge p =
     (if \<not> ip_task_alive p then Some (Inl InputSendError_ChannelClosed, p)
      else if length (ip_edges p) \<ge> INPUT_EDGE_QUEUE_CAPACITY then None
      else Some (Inr (), p\<lparr>ip_edges := ip_edges p @ [edge]\<rparr>))"

definition InputsHandle_validate_scancodes :: "u8 list \<Rightarrow> InputPaths \<Rightarrow> InputSendError + unit" where
  "InputsHandle_validate_scancodes bytes p =
     (if \<not> ip_raw_scancodes_supported p then Inl InputSendError_RawScancodesUnsupported
      else if bytes = [] \<or> length bytes > MAX_SCANCODE_SEQUENCE_BYTES
      then Inl InputSendError_ScancodeSequenceTooLong
      else Inr ())"

definition InputsHandle_try_key_down :: "u32 \<Rightarrow> InputPaths \<Rightarrow> unit input_call" where
  "InputsHandle_try_key_down code p = InputsHandle_try_edge (InputEdge_KeyDown code) p"

definition InputsHandle_try_key_up :: "u32 \<Rightarrow> InputPaths \<Rightarrow> unit input_call" where
  "InputsHandle_try_key_up code p = InputsHandle_try_edge (InputEdge_KeyUp code) p"

definition InputsHandle_try_scancodes :: "u8 list \<Rightarrow> InputPaths \<Rightarrow> unit input_call" where
  "InputsHandle_try_scancodes bytes p =
     (case InputsHandle_validate_scancodes bytes p of
        Inl e \<Rightarrow> (Inl e, p)
      | Inr _ \<Rightarrow> InputsHandle_try_edge (InputEdge_Scancodes bytes) p)"

definition InputsHandle_try_modifiers :: "KeyboardModifiers \<Rightarrow> InputPaths \<Rightarrow> unit input_call" where
  "InputsHandle_try_modifiers modifiers p = InputsHandle_try_edge (InputEdge_Modifiers modifiers) p"

definition InputsHandle_try_button_press :: "MouseButton \<Rightarrow> MouseButtons \<Rightarrow> InputPaths \<Rightarrow> unit input_call" where
  "InputsHandle_try_button_press button buttons p = InputsHandle_try_edge (InputEdge_ButtonPress button buttons) p"

definition InputsHandle_try_button_release :: "MouseButton \<Rightarrow> MouseButtons \<Rightarrow> InputPaths \<Rightarrow> unit input_call" where
  "InputsHandle_try_button_release button buttons p = InputsHandle_try_edge (InputEdge_ButtonRelease button buttons) p"

definition InputsHandle_set_pointer_position :: "PointerPosition \<Rightarrow> InputPaths \<Rightarrow> unit input_call" where
  "InputsHandle_set_pointer_position pos p =
     (if ip_mouse_mode p \<noteq> MouseMode_Client then (Inl InputSendError_WrongMouseMode, p)
      else if \<not> ip_task_alive p then (Inl InputSendError_ChannelClosed, p)
      else (Inr (), p\<lparr>ip_pointer := Some pos, ip_pointer_changed := True\<rparr>))"

text \<open>
  \<open>move_pointer\<close> updates the pending motion field by field, so a failed addition of \<open>dy\<close> leaves the
  addition of \<open>dx\<close> in place.
\<close>

definition InputsHandle_move_pointer :: "i32 \<Rightarrow> i32 \<Rightarrow> MouseButtons \<Rightarrow> InputPaths \<Rightarrow> unit input_call" where
  "InputsHandle_move_pointer dx dy buttons p =
     (if ip_mouse_mode p \<noteq> MouseMode_Server then (Inl InputSendError_WrongMouseMode, p)
      else if dx = 0 \<and> dy = 0 then (Inr (), p)
      else
      case ip_pending p of
        None \<Rightarrow>
          (Inr (), p\<lparr>ip_pending := Some \<lparr>rm_dx = dx, rm_dy = dy, rm_buttons = buttons\<rparr>, ip_notify := True\<rparr>)
      | Some motion \<Rightarrow>
          (case i32_checked_add (rm_dx motion) dx of
             None \<Rightarrow> (Inl InputSendError_RelativeMotionOverflow, p)
           | Some x \<Rightarrow>
               let motion = motion\<lparr>rm_dx := x\<rparr> in
               (case i32_checked_add (rm_dy motion) dy of
                  None \<Rightarrow> (Inl InputSendError_RelativeMotionOverflow, p\<lparr>ip_pending := Some motion\<rparr>)
                | Some y \<Rightarrow>
                    (Inr (), p\<lparr>ip_pending := Some (motion\<lparr>rm_dy := y, rm_buttons := buttons\<rparr>),
                              ip_notify := True\<rparr>))))"

section \<open>The motion window\<close>

record MotionWindow =
  mw_in_flight :: u32

definition MotionWindow_new :: MotionWindow where
  "MotionWindow_new = \<lparr>mw_in_flight = 0\<rparr>"

definition MotionWindow_can_send_regular_motion :: "MotionWindow \<Rightarrow> bool" where
  "MotionWindow_can_send_regular_motion w \<longleftrightarrow> mw_in_flight w < MAX_IN_FLIGHT_POINTER_MESSAGES"

definition MotionWindow_record_sent :: "MotionWindow \<Rightarrow> MotionWindow client" where
  "MotionWindow_record_sent w =
     (if unat (mw_in_flight w) + 1 < 2 ^ 32 then Inr (w\<lparr>mw_in_flight := mw_in_flight w + 1\<rparr>)
      else client_err (protocol_value_error STR ''pointer in-flight counter''))"

definition MotionWindow_acknowledge_bunch :: "MotionWindow \<Rightarrow> MotionWindow client" where
  "MotionWindow_acknowledge_bunch w =
     (if INPUT_MOTION_ACK_BUNCH \<le> mw_in_flight w
      then Inr (w\<lparr>mw_in_flight := mw_in_flight w - INPUT_MOTION_ACK_BUNCH\<rparr>)
      else client_err (protocol_value_error STR ''unexpected mouse motion ACK''))"

section \<open>Writing\<close>

text \<open>
  The state of the task. \<open>it_written\<close> and \<open>it_acks\<close> are history variables: the input messages the task
  has written, in order, and the number of motion acknowledgements it has processed.
\<close>

record 'c InputsTask =
  it_channel :: "'c Channel"
  it_control :: ControlState
  it_window :: MotionWindow
  it_received_init :: bool
  it_written :: "(u16 \<times> u8 list) list"
  it_acks :: nat

definition inputs_write :: "'c mechanism \<Rightarrow> u16 \<Rightarrow> u8 list \<Rightarrow> 'c InputsTask \<Rightarrow> 'c InputsTask client" where
  "inputs_write enc mt body t =
     and_then (Channel_write_message enc mt body (it_channel t)) (\<lambda>ch.
     Inr (t\<lparr>it_channel := ch, it_written := it_written t @ [(mt, body)]\<rparr>))"

definition encode_key_edge :: "u32 \<Rightarrow> bool \<Rightarrow> u8 list" where
  "encode_key_edge code released =
     (let code = code OR (if released then 0x80 else 0) in
      if code AND 0xff00 = 0xe000 then [0xe0, ucast code, 0, 0] else encode_key_code code)"

fun edge_message :: "InputEdge \<Rightarrow> u16 \<times> u8 list" where
  "edge_message (InputEdge_KeyDown code) = (inputs_client_KEY_DOWN, encode_key_edge code False)"
| "edge_message (InputEdge_KeyUp code) = (inputs_client_KEY_UP, encode_key_edge code True)"
| "edge_message (InputEdge_Scancodes bytes) = (inputs_client_KEY_SCANCODE, bytes)"
| "edge_message (InputEdge_Modifiers modifiers) = (inputs_client_KEY_MODIFIERS, u16_to_le_bytes (km_bits modifiers))"
| "edge_message (InputEdge_ButtonPress button buttons) = (inputs_client_MOUSE_PRESS, encode_mouse_button button buttons)"
| "edge_message (InputEdge_ButtonRelease button buttons) = (inputs_client_MOUSE_RELEASE, encode_mouse_button button buttons)"

definition write_edge :: "'c mechanism \<Rightarrow> InputEdge \<Rightarrow> 'c InputsTask \<Rightarrow> 'c InputsTask client" where
  "write_edge enc edge t = (case edge_message edge of (mt, body) \<Rightarrow> inputs_write enc mt body t)"

definition send_relative_motion ::
    "'c mechanism \<Rightarrow> InputPaths \<Rightarrow> 'c InputsTask \<Rightarrow> (InputPaths \<times> 'c InputsTask) client" where
  "send_relative_motion enc p t =
     (case ip_pending p of
        None \<Rightarrow> Inr (p, t)
      | Some motion \<Rightarrow>
          and_then (inputs_write enc inputs_client_MOUSE_MOTION
                      (encode_mouse_motion (rm_dx motion) (rm_dy motion) (rm_buttons motion)) t) (\<lambda>t.
          and_then (MotionWindow_record_sent (it_window t)) (\<lambda>w.
          Inr (p\<lparr>ip_pending := None\<rparr>, t\<lparr>it_window := w\<rparr>))))"

definition send_latest_pointer ::
    "'c mechanism \<Rightarrow> InputPaths \<Rightarrow> 'c InputsTask \<Rightarrow> (InputPaths \<times> 'c InputsTask) client" where
  "send_latest_pointer enc p t =
     (case ip_pointer p of
        None \<Rightarrow> Inr (p\<lparr>ip_pointer_changed := False\<rparr>, t)
      | Some pos \<Rightarrow>
          and_then (inputs_write enc inputs_client_MOUSE_POSITION
             (encode_mouse_position (pp_x pos) (pp_y pos) (pp_buttons pos) (pp_display_id pos)) t) (\<lambda>t.
          and_then (MotionWindow_record_sent (it_window t)) (\<lambda>w.
          Inr (p\<lparr>ip_pointer_changed := False\<rparr>, t\<lparr>it_window := w\<rparr>))))"

section \<open>Incoming messages\<close>

definition inputs_message :: "IncomingMessage \<Rightarrow> InputPaths \<Rightarrow> 'c InputsTask \<Rightarrow> (InputPaths \<times> 'c InputsTask) client" where
  "inputs_message message p t =
     (let mt = dh_message_type (im_header message); body = im_body message in
      if mt = inputs_server_INIT then
        if it_received_init t then client_err (protocol_value_error STR ''repeated Inputs Init'')
        else and_then (from_decode (KeyboardModifiers_decode body)) (\<lambda>modifiers.
             Inr (p\<lparr>ip_modifiers := modifiers\<rparr>, t\<lparr>it_received_init := True\<rparr>))
      else if mt = inputs_server_KEY_MODIFIERS then
        if \<not> it_received_init t then client_err (protocol_value_error STR ''Inputs message before Init'')
        else and_then (from_decode (KeyboardModifiers_decode body)) (\<lambda>modifiers.
             Inr (p\<lparr>ip_modifiers := modifiers\<rparr>, t))
      else if mt = inputs_server_MOUSE_MOTION_ACK then
        if \<not> it_received_init t then client_err (protocol_value_error STR ''Inputs message before Init'')
        else if body \<noteq> [] then client_err (protocol_value_error STR ''mouse motion ACK body'')
        else and_then (MotionWindow_acknowledge_bunch (it_window t)) (\<lambda>w.
             Inr (p, t\<lparr>it_window := w, it_acks := it_acks t + 1\<rparr>))
      else client_err (ClientError_UnsupportedMessage STR ''inputs'' mt))"

text \<open>
  One message of the envelope loop: common control, then cross-channel waits, then the channel's own
  messages. \<open>None\<close> is a wait that has not been satisfied yet: the task stays suspended at this message.
\<close>

definition inputs_envelope_message ::
    "'c mechanism \<Rightarrow> registry \<Rightarrow> bool \<Rightarrow> ChannelIdentity \<Rightarrow> u64 \<Rightarrow> IncomingMessage \<Rightarrow> InputPaths \<Rightarrow> 'c InputsTask \<Rightarrow>
     (InputPaths \<times> 'c InputsTask) client option" where
  "inputs_envelope_message enc reg cancelled identity serial message p t =
     (case ControlState_handle_without_ack enc (it_channel t) message (it_control t) of
        Inl e \<Rightarrow> Some (Inl e)
      | Inr (disposition, ch, cs) \<Rightarrow>
          let t = t\<lparr>it_channel := ch, it_control := cs\<rparr> in
          if disposition = Consumed then Some (Inr (p, t))
          else
          (case handle_channel_wait reg identity serial cancelled message of
             Inl e \<Rightarrow> Some (Inl e)
           | Inr (Some WaitDone) \<Rightarrow> Some (Inr (p, t))
           | Inr (Some (WaitPending _)) \<Rightarrow> None
           | Inr None \<Rightarrow> Some (inputs_message message p t)))"

fun inputs_envelope_messages ::
    "'c mechanism \<Rightarrow> registry \<Rightarrow> bool \<Rightarrow> ChannelIdentity \<Rightarrow> u64 \<Rightarrow> IncomingMessage list \<Rightarrow> InputPaths \<Rightarrow> 'c InputsTask \<Rightarrow>
     (InputPaths \<times> 'c InputsTask) client option" where
  "inputs_envelope_messages enc reg cancelled identity serial [] p t = Some (Inr (p, t))"
| "inputs_envelope_messages enc reg cancelled identity serial (m # ms) p t =
     (case inputs_envelope_message enc reg cancelled identity serial m p t of
        None \<Rightarrow> None
      | Some (Inl e) \<Rightarrow> Some (Inl e)
      | Some (Inr (p, t)) \<Rightarrow> inputs_envelope_messages enc reg cancelled identity serial ms p t)"

text \<open>The whole incoming branch, with its acknowledgement and progress.\<close>

definition inputs_incoming ::
    "'c mechanism \<Rightarrow> 'c mechanism \<Rightarrow> bool \<Rightarrow> ChannelIdentity \<Rightarrow> registry \<Rightarrow> InputPaths \<Rightarrow> 'c InputsTask \<Rightarrow>
     (registry \<times> InputPaths \<times> 'c InputsTask) client option" where
  "inputs_incoming enc dec cancelled identity reg p t =
     (case and_then (Channel_read_message dec (it_channel t)) (\<lambda>(header, body, ch).
           and_then (IncomingEnvelope_decode header body) (\<lambda>envelope. Inr (envelope, ch))) of
        Inl e \<Rightarrow> Some (Inl e)
      | Inr (envelope, ch) \<Rightarrow>
          (case IncomingMessages_collect 66 (IncomingEnvelope_messages envelope) of
             None \<Rightarrow> None
           | Some (Inl e) \<Rightarrow> Some (Inl e)
           | Some (Inr ms) \<Rightarrow>
               map_option (\<lambda>r. and_then r (\<lambda>(p, t).
                   and_then (if IncomingEnvelope_counts_for_ack envelope
                             then ControlState_acknowledge_envelope enc (it_channel t) (it_control t)
                             else Inr (it_channel t, it_control t)) (\<lambda>(ch', cs).
                   and_then (ProgressRegistry_complete identity (Channel_received_serial ch) reg) (\<lambda>reg.
                   Inr (reg, p, t\<lparr>it_channel := ch', it_control := cs\<rparr>)))))
                 (inputs_envelope_messages enc reg cancelled identity (Channel_received_serial ch) ms p
                    (t\<lparr>it_channel := ch\<rparr>))))"

section \<open>Sending branches\<close>

text \<open>The edge branch of the \<open>select!\<close>, for an edge taken from the front of the queue.\<close>

definition inputs_flush :: "'c mechanism \<Rightarrow> InputEdge \<Rightarrow> InputPaths \<Rightarrow> 'c InputsTask \<Rightarrow> (InputPaths \<times> 'c InputsTask) client" where
  "inputs_flush enc edge p t =
     (if InputEdge_requires_pointer_flush edge
      then case ip_mouse_mode p of
             MouseMode_Client \<Rightarrow> if ip_pointer_changed p then send_latest_pointer enc p t else Inr (p, t)
           | MouseMode_Server \<Rightarrow> send_relative_motion enc p t
      else Inr (p, t))"

definition inputs_edge :: "'c mechanism \<Rightarrow> InputEdge \<Rightarrow> InputPaths \<Rightarrow> 'c InputsTask \<Rightarrow> (InputPaths \<times> 'c InputsTask) client" where
  "inputs_edge enc edge p t =
     and_then (inputs_flush enc edge p t) (\<lambda>(p, t).
     and_then (write_edge enc edge t) (\<lambda>t. Inr (p, t)))"

definition inputs_mode_changed :: "InputPaths \<Rightarrow> InputPaths" where
  "inputs_mode_changed p =
     (let p = p\<lparr>ip_mouse_mode_changed := False\<rparr> in
      case ip_mouse_mode p of
        MouseMode_Client \<Rightarrow> p\<lparr>ip_pending := None\<rparr>
      | MouseMode_Server \<Rightarrow> p\<lparr>ip_pointer_changed := False\<rparr>)"

section \<open>Host and task together\<close>

text \<open>
  \<open>select!\<close> drops the futures of the branches that lose a turn. The future of the read branch is then one
  that has not been polled, or one that is pending after some polls: the channel it leaves is the one of
  its last poll, and the bytes that have not arrived yet come later. Under a security layer the loss also
  depends on which tokens have been decoded, and the relation leaves the layer's state open.
\<close>

inductive read_dropped :: "'c Channel \<Rightarrow> 'c Channel \<Rightarrow> bool" where
  not_started: "read_dropped ch ch"
| pending: "ch_sasl_codec ch = None \<Longrightarrow> incoming ch = arrived @ concat arrivals @ later \<Longrightarrow>
    read_run (AwaitHeader []) (with_incoming arrived ch) arrivals = Inl (f, ch') \<Longrightarrow>
    read_dropped ch (with_incoming (incoming ch' @ later) ch')"
| sealed_pending: "ch_sasl_codec ch = Some c \<Longrightarrow> incoming ch = arrived @ later \<Longrightarrow>
    read_dropped ch ((with_incoming later ch)\<lparr>ch_sasl_codec := Some c', ch_sasl_decoded := decoded, ch_sasl_decoded_offset := off\<rparr>)"

text \<open>\<open>iw_accepted\<close> is a history variable: the edges the host got accepted.\<close>

record 'c inputs_world =
  iw_paths :: InputPaths
  iw_task :: "'c InputsTask"
  iw_registry :: registry
  iw_accepted :: "InputEdge list"

definition lost_turn :: "'c InputsTask \<Rightarrow> 'c InputsTask \<Rightarrow> bool" where
  "lost_turn t t' \<longleftrightarrow> (\<exists>ch. read_dropped (it_channel t) ch \<and> t' = t\<lparr>it_channel := ch\<rparr>)"

inductive inputs_step ::
    "'c mechanism \<Rightarrow> 'c mechanism \<Rightarrow> ChannelIdentity \<Rightarrow> 'c inputs_world \<Rightarrow> 'c inputs_world \<Rightarrow> bool"
  for enc dec identity where
  host_edge: "InputsHandle_try_edge edge (iw_paths w) = (Inr (), p) \<Longrightarrow>
    inputs_step enc dec identity w (w\<lparr>iw_paths := p, iw_accepted := iw_accepted w @ [edge]\<rparr>)"
| host_position: "InputsHandle_set_pointer_position pos (iw_paths w) = (r, p) \<Longrightarrow>
    inputs_step enc dec identity w (w\<lparr>iw_paths := p\<rparr>)"
| host_move: "InputsHandle_move_pointer dx dy buttons (iw_paths w) = (r, p) \<Longrightarrow>
    inputs_step enc dec identity w (w\<lparr>iw_paths := p\<rparr>)"
| server_mode: "inputs_step enc dec identity w
    (w\<lparr>iw_paths := (iw_paths w)\<lparr>ip_mouse_mode := mode, ip_mouse_mode_changed := True\<rparr>\<rparr>)"
| progress: "ProgressRegistry_complete other n (iw_registry w) = Inr reg \<Longrightarrow> other \<noteq> identity \<Longrightarrow>
    inputs_step enc dec identity w (w\<lparr>iw_registry := reg\<rparr>)"
| incoming: "inputs_incoming enc dec False identity (iw_registry w) (iw_paths w) (iw_task w) = Some (Inr (reg, p, t)) \<Longrightarrow>
    inputs_step enc dec identity w (w\<lparr>iw_registry := reg, iw_paths := p, iw_task := t\<rparr>)"
| edge: "it_received_init (iw_task w) \<Longrightarrow> lost_turn (iw_task w) t0 \<Longrightarrow> ip_edges (iw_paths w) = edge # rest \<Longrightarrow>
    inputs_edge enc edge ((iw_paths w)\<lparr>ip_edges := rest\<rparr>) t0 = Inr (p, t) \<Longrightarrow>
    inputs_step enc dec identity w (w\<lparr>iw_paths := p, iw_task := t\<rparr>)"
| mode: "ip_mouse_mode_changed (iw_paths w) \<Longrightarrow> lost_turn (iw_task w) t0 \<Longrightarrow>
    inputs_step enc dec identity w (w\<lparr>iw_paths := inputs_mode_changed (iw_paths w), iw_task := t0\<rparr>)"
| pointer: "it_received_init (iw_task w) \<Longrightarrow> ip_mouse_mode (iw_paths w) = MouseMode_Client \<Longrightarrow>
    MotionWindow_can_send_regular_motion (it_window (iw_task w)) \<Longrightarrow> lost_turn (iw_task w) t0 \<Longrightarrow>
    ip_pointer_changed (iw_paths w) \<Longrightarrow> send_latest_pointer enc (iw_paths w) t0 = Inr (p, t) \<Longrightarrow>
    inputs_step enc dec identity w (w\<lparr>iw_paths := p, iw_task := t\<rparr>)"
| relative: "it_received_init (iw_task w) \<Longrightarrow> ip_mouse_mode (iw_paths w) = MouseMode_Server \<Longrightarrow>
    MotionWindow_can_send_regular_motion (it_window (iw_task w)) \<Longrightarrow> lost_turn (iw_task w) t0 \<Longrightarrow>
    ip_notify (iw_paths w) \<Longrightarrow> send_relative_motion enc ((iw_paths w)\<lparr>ip_notify := False\<rparr>) t0 = Inr (p, t) \<Longrightarrow>
    inputs_step enc dec identity w (w\<lparr>iw_paths := p, iw_task := t\<rparr>)"

section \<open>The bookkeeping of the task\<close>

definition is_motion :: "u16 \<times> u8 list \<Rightarrow> bool" where
  "is_motion m \<longleftrightarrow> fst m = inputs_client_MOUSE_MOTION \<or> fst m = inputs_client_MOUSE_POSITION"

definition is_button :: "u16 \<times> u8 list \<Rightarrow> bool" where
  "is_button m \<longleftrightarrow> fst m = inputs_client_MOUSE_PRESS \<or> fst m = inputs_client_MOUSE_RELEASE"

lemma edge_message_kinds [simp]:
  "\<not> is_motion (edge_message e)" "is_button (edge_message e) \<longleftrightarrow> InputEdge_requires_pointer_flush e"
  by (cases e; simp add: is_motion_def is_button_def)+

text \<open>What the task has on its books: the messages, the window and the acknowledgements.\<close>

definition motions :: "'c InputsTask \<Rightarrow> nat" where
  "motions t = length (filter is_motion (it_written t))"

definition buttons_written :: "'c InputsTask \<Rightarrow> nat" where
  "buttons_written t = length (filter is_button (it_written t))"

definition edges_written :: "'c InputsTask \<Rightarrow> (u16 \<times> u8 list) list" where
  "edges_written t = filter (\<lambda>m. \<not> is_motion m) (it_written t)"

definition in_flight :: "'c InputsTask \<Rightarrow> nat" where
  "in_flight t = unat (mw_in_flight (it_window t))"

definition books :: "'c InputsTask \<Rightarrow> bool" where
  "books t \<longleftrightarrow> motions t = in_flight t + 4 * it_acks t \<and> in_flight t \<le> 8 + buttons_written t"

lemma inputs_write_Inr:
  "inputs_write enc mt body t = Inr t' \<Longrightarrow>
   it_written t' = it_written t @ [(mt, body)] \<and> it_window t' = it_window t \<and> it_acks t' = it_acks t \<and>
   it_received_init t' = it_received_init t"
  by (auto simp: inputs_write_def and_then_Inr)

lemma record_sent_Inr:
  "MotionWindow_record_sent w = Inr w' \<Longrightarrow> unat (mw_in_flight w') = unat (mw_in_flight w) + 1"
  by (auto simp: MotionWindow_record_sent_def unat_word_ariths split: if_splits)

lemma acknowledge_bunch_Inr:
  "MotionWindow_acknowledge_bunch w = Inr w' \<Longrightarrow> unat (mw_in_flight w) = unat (mw_in_flight w') + 4"
  by (auto simp: MotionWindow_acknowledge_bunch_def unat_sub word_le_nat_alt split: if_splits)

text \<open>Each operation of the task, by what it adds to the books.\<close>

lemma motion_message [simp]:
  "is_motion (111, body)" "is_motion (112, body)" "\<not> is_button (111, body)" "\<not> is_button (112, body)"
  by (simp_all add: is_motion_def is_button_def)

lemma motion_sent:
  assumes "inputs_write enc mt body t = Inr t1" "MotionWindow_record_sent (it_window t1) = Inr w"
    and "is_motion (mt, body)" "\<not> is_button (mt, body)" "motions t = in_flight t + 4 * it_acks t"
  shows "edges_written (t1\<lparr>it_window := w\<rparr>) = edges_written t \<and> buttons_written (t1\<lparr>it_window := w\<rparr>) = buttons_written t \<and>
    in_flight (t1\<lparr>it_window := w\<rparr>) = in_flight t + 1 \<and>
    motions (t1\<lparr>it_window := w\<rparr>) = in_flight (t1\<lparr>it_window := w\<rparr>) + 4 * it_acks (t1\<lparr>it_window := w\<rparr>)"
  using inputs_write_Inr [OF assms(1)] record_sent_Inr [OF assms(2)] assms(3-5)
  by (simp add: edges_written_def buttons_written_def in_flight_def motions_def)

lemma send_relative_motion_books:
  assumes "send_relative_motion enc p t = Inr (p', t')" and "motions t = in_flight t + 4 * it_acks t"
  shows "edges_written t' = edges_written t \<and> buttons_written t' = buttons_written t \<and> ip_edges p' = ip_edges p \<and>
    in_flight t' \<le> in_flight t + 1 \<and> motions t' = in_flight t' + 4 * it_acks t'"
proof (cases "ip_pending p")
  case None
  with assms show ?thesis by (simp add: send_relative_motion_def)
next
  case (Some motion)
  with assms obtain t1 w where "inputs_write enc inputs_client_MOUSE_MOTION
      (encode_mouse_motion (rm_dx motion) (rm_dy motion) (rm_buttons motion)) t = Inr t1"
    "MotionWindow_record_sent (it_window t1) = Inr w" "p' = p\<lparr>ip_pending := None\<rparr>" "t' = t1\<lparr>it_window := w\<rparr>"
    by (auto simp: send_relative_motion_def)
  with motion_sent [OF this(1,2) _ _ assms(2)] show ?thesis by simp
qed

lemma send_latest_pointer_books:
  assumes "send_latest_pointer enc p t = Inr (p', t')" and "motions t = in_flight t + 4 * it_acks t"
  shows "edges_written t' = edges_written t \<and> buttons_written t' = buttons_written t \<and> ip_edges p' = ip_edges p \<and>
    in_flight t' \<le> in_flight t + 1 \<and> motions t' = in_flight t' + 4 * it_acks t'"
proof (cases "ip_pointer p")
  case None
  with assms show ?thesis by (auto simp: send_latest_pointer_def)
next
  case (Some pos)
  with assms obtain t1 w where "inputs_write enc inputs_client_MOUSE_POSITION
      (encode_mouse_position (pp_x pos) (pp_y pos) (pp_buttons pos) (pp_display_id pos)) t = Inr t1"
    "MotionWindow_record_sent (it_window t1) = Inr w" "p' = p\<lparr>ip_pointer_changed := False\<rparr>" "t' = t1\<lparr>it_window := w\<rparr>"
    by (auto simp: send_latest_pointer_def)
  with motion_sent [OF this(1,2) _ _ assms(2)] show ?thesis by simp
qed

lemma write_edge_books:
  assumes "write_edge enc edge t = Inr t'"
  shows "edges_written t' = edges_written t @ [edge_message edge] \<and> it_window t' = it_window t \<and>
    it_acks t' = it_acks t \<and> motions t' = motions t \<and>
    buttons_written t' = buttons_written t + (if InputEdge_requires_pointer_flush edge then 1 else 0)"
proof -
  obtain mt body where m: "edge_message edge = (mt, body)" by fastforce
  with assms have "inputs_write enc mt body t = Inr t'" by (simp add: write_edge_def)
  note w = inputs_write_Inr [OF this]
  have "\<not> is_motion (mt, body)" "is_button (mt, body) \<longleftrightarrow> InputEdge_requires_pointer_flush edge"
    using edge_message_kinds [of edge] m by simp_all
  with w m show ?thesis by (simp add: edges_written_def motions_def buttons_written_def)
qed

lemma inputs_edge_books:
  assumes e: "inputs_edge enc edge p t = Inr (p', t')" and b: "books t"
  shows "edges_written t' = edges_written t @ [edge_message edge] \<and> ip_edges p' = ip_edges p \<and> books t'"
proof -
  obtain p1 t1 where f: "inputs_flush enc edge p t = Inr (p1, t1)" "write_edge enc edge t1 = Inr t'" "p' = p1"
    using e by (auto simp: inputs_edge_def)
  have k: "edges_written t1 = edges_written t \<and> buttons_written t1 = buttons_written t \<and> ip_edges p1 = ip_edges p \<and>
    in_flight t1 \<le> in_flight t + (if InputEdge_requires_pointer_flush edge then 1 else 0) \<and>
    motions t1 = in_flight t1 + 4 * it_acks t1"
    using f(1) b send_relative_motion_books [of enc p t p1 t1] send_latest_pointer_books [of enc p t p1 t1]
    by (auto simp: inputs_flush_def books_def split: if_splits MouseMode.splits)
  with write_edge_books [OF f(2)] b f(3) show ?thesis
    by (auto simp: books_def in_flight_def)
qed

lemma inputs_message_books:
  assumes "inputs_message message p t = Inr (p', t')" and b: "books t"
  shows "edges_written t' = edges_written t \<and> ip_edges p' = ip_edges p \<and> books t'"
proof (cases "dh_message_type (im_header message) = inputs_server_MOUSE_MOTION_ACK")
  case True
  with assms obtain w where "MotionWindow_acknowledge_bunch (it_window t) = Inr w" "p' = p"
    "t' = t\<lparr>it_window := w, it_acks := it_acks t + 1\<rparr>"
    by (auto simp: inputs_message_def split: if_splits)
  with acknowledge_bunch_Inr [OF this(1)] b show ?thesis
    by (simp add: books_def edges_written_def motions_def buttons_written_def in_flight_def)
next
  case False
  with assms show ?thesis
    by (auto simp: inputs_message_def Let_def books_def edges_written_def motions_def buttons_written_def in_flight_def
        split: if_splits)
qed

lemma channel_update_books [simp]:
  "books (t\<lparr>it_channel := ch\<rparr>) \<longleftrightarrow> books t" "books (t\<lparr>it_channel := ch, it_control := cs\<rparr>) \<longleftrightarrow> books t"
  "edges_written (t\<lparr>it_channel := ch\<rparr>) = edges_written t" "edges_written (t\<lparr>it_channel := ch, it_control := cs\<rparr>) = edges_written t"
  by (simp_all add: books_def edges_written_def motions_def buttons_written_def in_flight_def)

lemma inputs_envelope_message_books:
  assumes "inputs_envelope_message enc reg cancelled identity serial message p t = Some (Inr (p', t'))" and "books t"
  shows "edges_written t' = edges_written t \<and> ip_edges p' = ip_edges p \<and> books t'"
  using assms inputs_message_books
  by (fastforce simp: inputs_envelope_message_def Let_def split: sum.splits prod.splits if_splits option.splits wait_status.splits)

lemma inputs_envelope_messages_books:
  "inputs_envelope_messages enc reg cancelled identity serial ms p t = Some (Inr (p', t')) \<Longrightarrow> books t \<Longrightarrow>
   edges_written t' = edges_written t \<and> ip_edges p' = ip_edges p \<and> books t'"
proof (induction ms arbitrary: p t)
  case (Cons m ms)
  then obtain p1 t1 where m: "inputs_envelope_message enc reg cancelled identity serial m p t = Some (Inr (p1, t1))"
    and ms: "inputs_envelope_messages enc reg cancelled identity serial ms p1 t1 = Some (Inr (p', t'))"
    by (auto split: option.splits sum.splits prod.splits)
  from inputs_envelope_message_books [OF m Cons.prems(2)] Cons.IH [OF ms] show ?case by simp
qed simp

lemma inputs_incoming_books:
  assumes "inputs_incoming enc dec cancelled identity reg p t = Some (Inr (reg', p', t'))" and "books t"
  shows "edges_written t' = edges_written t \<and> ip_edges p' = ip_edges p \<and> books t'"
proof -
  obtain envelope ch ms p1 t1 ch' cs where
    "inputs_envelope_messages enc reg cancelled identity (Channel_received_serial ch) ms p (t\<lparr>it_channel := ch\<rparr>) = Some (Inr (p1, t1))"
    "p' = p1" "t' = t1\<lparr>it_channel := ch', it_control := cs\<rparr>"
    using assms(1) by (auto simp: inputs_incoming_def split: sum.splits prod.splits option.splits)
  with inputs_envelope_messages_books [OF this(1)] assms(2) show ?thesis by simp
qed

section \<open>Delivery\<close>

definition inputs_start :: "'c inputs_world \<Rightarrow> bool" where
  "inputs_start w \<longleftrightarrow> iw_accepted w = [] \<and> ip_edges (iw_paths w) = [] \<and> it_written (iw_task w) = [] \<and>
     it_acks (iw_task w) = 0 \<and> it_window (iw_task w) = MotionWindow_new"

definition inputs_inv :: "'c inputs_world \<Rightarrow> bool" where
  "inputs_inv w \<longleftrightarrow> length (ip_edges (iw_paths w)) \<le> 128 \<and> books (iw_task w) \<and>
     edges_written (iw_task w) @ map edge_message (ip_edges (iw_paths w)) = map edge_message (iw_accepted w)"

lemma inputs_inv_start: "inputs_start w \<Longrightarrow> inputs_inv w"
  by (simp add: inputs_start_def inputs_inv_def books_def motions_def buttons_written_def in_flight_def
      edges_written_def MotionWindow_new_def)

lemma host_paths_edges:
  "InputsHandle_set_pointer_position pos p = (r, p') \<Longrightarrow> ip_edges p' = ip_edges p"
  "InputsHandle_move_pointer dx dy buttons p = (r, p') \<Longrightarrow> ip_edges p' = ip_edges p"
  "ip_edges (inputs_mode_changed p) = ip_edges p"
  by (auto simp: InputsHandle_set_pointer_position_def InputsHandle_move_pointer_def inputs_mode_changed_def Let_def
      split: if_splits option.splits MouseMode.splits)

lemma lost_turn_books:
  "lost_turn t t' \<Longrightarrow> books t' = books t \<and> edges_written t' = edges_written t \<and> it_window t' = it_window t"
  by (auto simp: lost_turn_def)

lemma regular_motion_books:
  assumes "edges_written t' = edges_written t \<and> buttons_written t' = buttons_written t \<and> ip_edges p' = ip_edges p \<and>
    in_flight t' \<le> in_flight t + 1 \<and> motions t' = in_flight t' + 4 * it_acks t'"
    and "MotionWindow_can_send_regular_motion (it_window t)"
  shows "books t'"
  using assms by (simp add: books_def in_flight_def MotionWindow_can_send_regular_motion_def word_less_nat_alt)

lemma inputs_inv_step: "inputs_step enc dec identity w w' \<Longrightarrow> inputs_inv w \<Longrightarrow> inputs_inv w'"
proof (induction rule: inputs_step.induct)
  case (host_edge edge w p)
  then show ?case
    by (auto simp: inputs_inv_def InputsHandle_try_edge_def split: if_splits)
next
  case (incoming w reg p t)
  with inputs_incoming_books [OF incoming(1)] show ?case by (simp add: inputs_inv_def)
next
  case (edge w t0 e rest p t)
  with inputs_edge_books [OF edge(4)] lost_turn_books [OF edge(2)] show ?case by (auto simp: inputs_inv_def)
next
  case (mode w t0)
  with lost_turn_books [OF mode(2)] show ?case by (simp add: inputs_inv_def host_paths_edges)
next
  case (pointer w t0 p t)
  note l = lost_turn_books [OF pointer(4)]
  have "motions t0 = in_flight t0 + 4 * it_acks t0" using l pointer by (simp add: inputs_inv_def books_def)
  note s = send_latest_pointer_books [OF pointer(6) this]
  with regular_motion_books [OF s] l pointer show ?case by (simp add: inputs_inv_def)
next
  case (relative w t0 p t)
  note l = lost_turn_books [OF relative(4)]
  have "motions t0 = in_flight t0 + 4 * it_acks t0" using l relative by (simp add: inputs_inv_def books_def)
  note s = send_relative_motion_books [OF relative(6) this]
  with regular_motion_books [OF s] l relative show ?case by (simp add: inputs_inv_def)
qed (auto simp: inputs_inv_def host_paths_edges)

lemma inputs_inv_run: "(inputs_step enc dec identity)\<^sup>*\<^sup>* w w' \<Longrightarrow> inputs_inv w \<Longrightarrow> inputs_inv w'"
  by (induction rule: rtranclp_induct) (auto intro: inputs_inv_step)

text \<open>C17: input edges are delivered exactly once and in order. However the host's calls, the server's
  messages and the branches of the task interleave, the edge messages written so far followed by those of
  the edges still queued are the messages of the edges the host got accepted, in the order of acceptance;
  at most 128 edges are queued; the messages of motion in flight are exactly those written less four for
  each acknowledgement; and at most eight of them, and one per button edge, are outstanding.\<close>

theorem inputs_delivery:
  assumes "inputs_start w" and "(inputs_step enc dec identity)\<^sup>*\<^sup>* w w'"
  shows "edges_written (iw_task w') @ map edge_message (ip_edges (iw_paths w')) = map edge_message (iw_accepted w')
    \<and> length (ip_edges (iw_paths w')) \<le> INPUT_EDGE_QUEUE_CAPACITY
    \<and> motions (iw_task w') = unat (mw_in_flight (it_window (iw_task w'))) + 4 * it_acks (iw_task w')
    \<and> unat (mw_in_flight (it_window (iw_task w'))) \<le> unat MAX_IN_FLIGHT_POINTER_MESSAGES + buttons_written (iw_task w')"
  using inputs_inv_run [OF assms(2) inputs_inv_start [OF assms(1)]] by (simp add: inputs_inv_def books_def in_flight_def)

text \<open>A button edge comes after the motion the host submitted before it. In server mode the pending
  motion, and in client mode an unseen position, is written immediately before the button message, and
  nothing of it stays behind.\<close>

theorem button_follows_motion:
  assumes "InputEdge_requires_pointer_flush edge" and "inputs_edge enc edge p t = Inr (p', t')"
  shows "it_written t' = it_written t
      @ (case ip_mouse_mode p of
           MouseMode_Server \<Rightarrow> (case ip_pending p of None \<Rightarrow> []
             | Some m \<Rightarrow> [(inputs_client_MOUSE_MOTION, encode_mouse_motion (rm_dx m) (rm_dy m) (rm_buttons m))])
         | MouseMode_Client \<Rightarrow> (case ip_pointer p of None \<Rightarrow> []
             | Some q \<Rightarrow> if ip_pointer_changed p then
                [(inputs_client_MOUSE_POSITION, encode_mouse_position (pp_x q) (pp_y q) (pp_buttons q) (pp_display_id q))]
                else []))
      @ [edge_message edge]
    \<and> (ip_mouse_mode p = MouseMode_Server \<longrightarrow> ip_pending p' = None)
    \<and> (ip_mouse_mode p = MouseMode_Client \<longrightarrow> \<not> ip_pointer_changed p')"
proof -
  obtain mt body where m: "edge_message edge = (mt, body)" by fastforce
  obtain t1 where f: "inputs_flush enc edge p t = Inr (p', t1)" "inputs_write enc mt body t1 = Inr t'"
    using assms(2) m by (auto simp: inputs_edge_def write_edge_def)
  show ?thesis
    using f(1) inputs_write_Inr [OF f(2)] m assms(1)
    by (auto simp: inputs_flush_def send_relative_motion_def send_latest_pointer_def
        dest!: inputs_write_Inr split: MouseMode.splits option.splits if_splits)
qed

section \<open>Relative motion\<close>

lemma i32_checked_add_iff:
  "i32_checked_add a b = Some c \<longleftrightarrow> c = a + b \<and> sint c = sint a + sint b"
proof -
  have r: "- (2 ^ 31) \<le> sint (a + b) \<and> sint (a + b) < 2 ^ 31"
    using sint_range_size [of "a + b"] by (simp add: word_size)
  have "sint (a + b) = sint a + sint b" if "- (2 ^ 31) \<le> sint a + sint b" "sint a + sint b < 2 ^ 31"
    using that by (simp add: sint_word_ariths signed_take_bit_int_eq_self)
  with r show ?thesis by (auto simp: i32_checked_add_def)
qed

lemma i32_checked_add_None:
  "i32_checked_add a b = None \<longleftrightarrow> \<not> (- (2 ^ 31) \<le> sint a + sint b \<and> sint a + sint b < 2 ^ 31)"
  by (auto simp: i32_checked_add_def)

text \<open>The pending sum as a pair of mathematical integers.\<close>

definition pending_sum :: "InputPaths \<Rightarrow> int \<times> int" where
  "pending_sum p = (case ip_pending p of None \<Rightarrow> (0, 0) | Some m \<Rightarrow> (sint (rm_dx m), sint (rm_dy m)))"

text \<open>C39: relative motion is summed without wrap-around. An accepted \<open>move_pointer\<close> in server mode adds its
  deltas to the pending sum exactly; a refused one reports an overflow only when one of the two sums
  leaves the range of \<open>i32\<close>, and then leaves the vertical sum as it was. The horizontal sum is \<^emph>\<open>not\<close>
  protected in the same way: when only the vertical sum overflows, the horizontal delta of the refused
  call has already been added.\<close>

theorem move_pointer_sums:
  assumes "ip_mouse_mode p = MouseMode_Server" and "InputsHandle_move_pointer dx dy buttons p = (r, p')"
  shows "case r of
      Inr _ \<Rightarrow> pending_sum p' = (fst (pending_sum p) + sint dx, snd (pending_sum p) + sint dy)
    | Inl e \<Rightarrow> e = InputSendError_RelativeMotionOverflow \<and> snd (pending_sum p') = snd (pending_sum p) \<and>
        (let x = fst (pending_sum p) + sint dx; y = snd (pending_sum p) + sint dy in
         if - (2 ^ 31) \<le> x \<and> x < 2 ^ 31
         then \<not> (- (2 ^ 31) \<le> y \<and> y < 2 ^ 31) \<and> fst (pending_sum p') = x
         else fst (pending_sum p') = fst (pending_sum p))"
proof (cases "ip_pending p")
  case None
  with assms show ?thesis
    by (auto simp: InputsHandle_move_pointer_def pending_sum_def split: if_splits)
next
  case (Some m)
  show ?thesis
  proof (cases "dx = 0 \<and> dy = 0")
    case True
    with assms show ?thesis by (auto simp: InputsHandle_move_pointer_def)
  next
    case False
    show ?thesis
    proof (cases "i32_checked_add (rm_dx m) dx")
      case None
      with assms Some False show ?thesis
        by (auto simp: InputsHandle_move_pointer_def pending_sum_def i32_checked_add_None Let_def)
    next
      case x: (Some x)
      then have sx: "sint x = sint (rm_dx m) + sint dx" using i32_checked_add_iff by blast
      then have rx: "- (2 ^ 31) \<le> sint (rm_dx m) + sint dx \<and> sint (rm_dx m) + sint dx < 2 ^ 31"
        using x by (auto simp: i32_checked_add_def split: if_splits)
      show ?thesis
      proof (cases "i32_checked_add (rm_dy m) dy")
        case None
        with assms Some False x sx rx show ?thesis
          by (auto simp: InputsHandle_move_pointer_def pending_sum_def i32_checked_add_None Let_def)
      next
        case (Some y)
        then have "sint y = sint (rm_dy m) + sint dy" using i32_checked_add_iff by blast
        with assms Some \<open>ip_pending p = Some m\<close> False x sx show ?thesis
          by (auto simp: InputsHandle_move_pointer_def pending_sum_def Let_def)
      qed
    qed
  qed
qed

section \<open>Witnesses\<close>

definition plain_stream :: "u8 list \<Rightarrow> Stream" where
  "plain_stream bs = \<lparr>str_incoming = bs, str_outgoing = [], str_writable = True\<rparr>"

definition example_paths :: InputPaths where
  "example_paths = \<lparr>ip_edges = [], ip_task_alive = True, ip_pointer = None, ip_pointer_changed = False,
     ip_modifiers = \<lparr>km_bits = 0\<rparr>, ip_mouse_mode = MouseMode_Server, ip_mouse_mode_changed = False,
     ip_pending = None, ip_notify = False, ip_raw_scancodes_supported = True\<rparr>"

definition example_task :: "u8 list \<Rightarrow> u8 InputsTask" where
  "example_task bs = \<lparr>it_channel = fresh_channel (plain_stream bs) None, it_control = ControlState_new,
     it_window = MotionWindow_new, it_received_init = True, it_written = [], it_acks = 0\<rparr>"

definition example_world :: "u8 list \<Rightarrow> u8 inputs_world" where
  "example_world bs = \<lparr>iw_paths = example_paths, iw_task = example_task bs, iw_registry = Map.empty, iw_accepted = []\<rparr>"

lemmas example_simps = example_world_def example_task_def example_paths_def plain_stream_def

definition moved_paths :: InputPaths where
  "moved_paths = example_paths\<lparr>ip_pending := Some \<lparr>rm_dx = 5, rm_dy = 0x7FFFFFFF, rm_buttons = \<lparr>mb_bits = 0\<rparr>\<rparr>\<rparr>"

text \<open>A refused motion of \<open>(1, 1)\<close> on a pending \<open>(5, 2147483647)\<close> leaves \<open>(6, 2147483647)\<close>.\<close>

theorem move_pointer_sums_witness:
  "\<exists>p'. InputsHandle_move_pointer 1 1 \<lparr>mb_bits = 0\<rparr> moved_paths = (Inl InputSendError_RelativeMotionOverflow, p') \<and>
     pending_sum moved_paths = (5, 2147483647) \<and> pending_sum p' = (6, 2147483647)"
proof -
  obtain p' where m: "InputsHandle_move_pointer 1 1 \<lparr>mb_bits = 0\<rparr> moved_paths = (Inl InputSendError_RelativeMotionOverflow, p')"
    by (simp add: InputsHandle_move_pointer_def moved_paths_def example_paths_def i32_checked_add_def Let_def)
  have s: "pending_sum moved_paths = (5, 2147483647)" by (simp add: pending_sum_def moved_paths_def)
  have mode: "ip_mouse_mode moved_paths = MouseMode_Server" by (simp add: moved_paths_def example_paths_def)
  from move_pointer_sums [OF mode m] s have "pending_sum p' = (6, 2147483647)"
    by (cases "pending_sum p'") (simp add: Let_def)
  with m s show ?thesis by blast
qed

lemma example_step:
  "inputs_step counting_encode counting_decode identity (example_world bs)
     (example_world bs\<lparr>iw_paths := example_paths\<lparr>ip_edges := [InputEdge_KeyDown 0x1c]\<rparr>,
        iw_accepted := [InputEdge_KeyDown 0x1c]\<rparr>)"
proof -
  have "InputsHandle_try_edge (InputEdge_KeyDown 0x1c) (iw_paths (example_world bs)) =
      (Inr (), example_paths\<lparr>ip_edges := [InputEdge_KeyDown 0x1c]\<rparr>)"
    by (simp add: InputsHandle_try_edge_def example_simps)
  from inputs_step.host_edge [OF this] show ?thesis by (simp add: example_world_def)
qed

theorem inputs_delivery_witness:
  "\<exists>w'. inputs_start (example_world []) \<and>
     (inputs_step counting_encode counting_decode display_channel)\<^sup>*\<^sup>* (example_world []) w' \<and>
     edges_written (iw_task w') @ map edge_message (ip_edges (iw_paths w')) = [edge_message (InputEdge_KeyDown 0x1c)]"
proof -
  have s: "inputs_start (example_world [])" by (simp add: inputs_start_def example_simps)
  note r = r_into_rtranclp [of "inputs_step counting_encode counting_decode display_channel", OF example_step [of display_channel "[]"]]
  from s r inputs_delivery [OF s r] show ?thesis by (intro exI conjI) (assumption, assumption, simp)
qed

definition pressed :: InputEdge where
  "pressed = InputEdge_ButtonPress MouseButton_Left \<lparr>mb_bits = 1\<rparr>"

text \<open>The message of motion \<open>(1, 2)\<close> precedes the press of the left button.\<close>

theorem button_follows_motion_witness:
  "\<exists>p' t'. inputs_edge counting_encode pressed
      (example_paths\<lparr>ip_pending := Some \<lparr>rm_dx = 1, rm_dy = 2, rm_buttons = \<lparr>mb_bits = 0\<rparr>\<rparr>\<rparr>) (example_task []) = Inr (p', t') \<and>
    it_written t' = [(111, [1, 0, 0, 0, 2, 0, 0, 0, 0, 0]), (113, [1, 1, 0])] \<and> ip_pending p' = None"
proof -
  let ?p = "example_paths\<lparr>ip_pending := Some \<lparr>rm_dx = 1, rm_dy = 2, rm_buttons = \<lparr>mb_bits = 0\<rparr>\<rparr>\<rparr>"
  have "\<exists>r. inputs_edge counting_encode pressed ?p (example_task []) = Inr r"
    by (simp add: inputs_edge_def inputs_flush_def write_edge_def send_relative_motion_def inputs_write_def pressed_def
        example_simps fresh_channel_def Channel_write_message_def u32_try_from_def DataHeader_encode_def write_all_def
        u64_checked_add_def MotionWindow_record_sent_def MotionWindow_new_def Let_def encode_mouse_motion_def
        encode_mouse_button_def)
  then obtain p' t' where e: "inputs_edge counting_encode pressed ?p (example_task []) = Inr (p', t')" by fastforce
  have f: "InputEdge_requires_pointer_flush pressed" by (simp add: pressed_def)
  from button_follows_motion [OF f e] e show ?thesis
    by (simp add: example_simps pressed_def encode_mouse_motion_def encode_mouse_button_def to_le_expand)
qed

section \<open>A turn lost in the middle of a message\<close>

lemma write_message_incoming: "Channel_write_message enc mt body ch = Inr ch' \<Longrightarrow> ch_sasl_codec ch = None \<Longrightarrow> incoming ch' = incoming ch"
  by (auto simp: Channel_write_message_def Let_def write_all_def split: if_split_asm)

text \<open>Every key event that is sent while a message of the server has arrived in part discards the part: whatever
  the message and wherever it is cut, the step leaves the bytes still to come and no others, and the next read
  starts in the middle of the message.\<close>

lemma key_discards_partial_read:
  assumes "it_received_init (iw_task w)" "ip_edges (iw_paths w) = edge # rest" "\<not> InputEdge_requires_pointer_flush edge"
    and plain: "ch_sasl_codec (it_channel (iw_task w)) = None"
    and "incoming (it_channel (iw_task w)) = arrived @ later"
    and run: "read_run (AwaitHeader []) (with_incoming arrived (it_channel (iw_task w))) [] = Inl (f, ch')"
    and edge: "inputs_edge enc edge ((iw_paths w)\<lparr>ip_edges := rest\<rparr>)
           ((iw_task w)\<lparr>it_channel := with_incoming later (it_channel (iw_task w))\<rparr>) = Inr (p, t)"
  shows "inputs_step enc dec identity w (w\<lparr>iw_paths := p, iw_task := t\<rparr>) \<and> incoming (it_channel t) = later"
proof
  have "future_holds (it_channel (iw_task w)) (AwaitHeader []) []"
    by (cases "ch_framing (it_channel (iw_task w))") (simp_all add: future_holds_def)
  with read_run_exact [of "with_incoming arrived (it_channel (iw_task w))" "AwaitHeader []" "[]" "[]" dec] run plain
  have "ch' = with_incoming [] (it_channel (iw_task w))" by simp
  with read_dropped.pending [OF plain _ run, of later] assms(5)
  have "read_dropped (it_channel (iw_task w)) (with_incoming later (it_channel (iw_task w)))" by simp
  then have "lost_turn (iw_task w) ((iw_task w)\<lparr>it_channel := with_incoming later (it_channel (iw_task w))\<rparr>)"
    unfolding lost_turn_def by blast
  from inputs_step.edge [OF assms(1) this assms(2) edge]
  show "inputs_step enc dec identity w (w\<lparr>iw_paths := p, iw_task := t\<rparr>)" .
  from edge assms(3) plain show "incoming (it_channel t) = later"
    by (auto simp: inputs_edge_def inputs_flush_def write_edge_def inputs_write_def split: prod.split_asm dest!: write_message_incoming)
qed

end
