(* ===== verification/Client_Agent.thy ===== *)
theory Client_Agent
  imports Spice_AgentStream Spice_AgentPayload Spice_Main Client_Channel "HOL-Library.AList"
begin

text \<open>
  The Agent tunnel of the Main channel (\<open>agent.rs\<close> of the client crate): the task-owned \<open>AgentRuntime\<close> with its outbound
  queue, clipboard and file transfers, the credit returns of inbound fragments, and the checks of the host-facing
  \<open>AgentHandle\<close> and \<open>OutgoingFileTransfer\<close>.

  A \<open>oneshot\<close> sender is a number that names the waiting host call; sending on it, or dropping it unused, appends to the log
  \<open>ar_answers\<close>. A \<open>watch\<close> sender is the value it published last, and the one of a file transfer appends to
  \<open>ar_transfer_log\<close>. An \<open>Arc<InboundAgentCredit>\<close> carries the number of its allocation; the credit is returned when the last
  holder of that allocation is dropped. Hash maps are association lists, and the three-element arrays indexed by a clipboard
  selection are functions of the selection. A task that fails drops the runtime, so errors carry no state.
\<close>

section \<open>Constants\<close>

definition AGENT_COMMAND_QUEUE_CAPACITY :: nat where [simp]: "AGENT_COMMAND_QUEUE_CAPACITY = 16"
definition MAX_ACTIVE_FILE_TRANSFERS :: nat where [simp]: "MAX_ACTIVE_FILE_TRANSFERS = 8"
definition AGENT_RECEIVE_WINDOW :: u32 where [simp]: "AGENT_RECEIVE_WINDOW = 10"
definition AGENT_EVENT_QUEUE_CAPACITY :: nat where [simp]: "AGENT_EVENT_QUEUE_CAPACITY = 10"
definition MAX_CLIPBOARD_BYTES :: nat where [simp]: "MAX_CLIPBOARD_BYTES = 8 * 1024 * 1024"
definition DEFAULT_MAX_AGENT_MESSAGE_BYTES :: nat where [simp]: "DEFAULT_MAX_AGENT_MESSAGE_BYTES = 16 * 1024 * 1024"

definition agent_message_MONITORS_CONFIG :: u32 where [simp]: "agent_message_MONITORS_CONFIG = 2"
definition agent_message_CLIPBOARD :: u32 where [simp]: "agent_message_CLIPBOARD = 4"
definition agent_message_ANNOUNCE_CAPABILITIES :: u32 where [simp]: "agent_message_ANNOUNCE_CAPABILITIES = 6"
definition agent_message_CLIPBOARD_GRAB :: u32 where [simp]: "agent_message_CLIPBOARD_GRAB = 7"
definition agent_message_CLIPBOARD_REQUEST :: u32 where [simp]: "agent_message_CLIPBOARD_REQUEST = 8"
definition agent_message_CLIPBOARD_RELEASE :: u32 where [simp]: "agent_message_CLIPBOARD_RELEASE = 9"
definition agent_message_FILE_TRANSFER_START :: u32 where [simp]: "agent_message_FILE_TRANSFER_START = 10"
definition agent_message_FILE_TRANSFER_STATUS :: u32 where [simp]: "agent_message_FILE_TRANSFER_STATUS = 11"
definition agent_message_FILE_TRANSFER_DATA :: u32 where [simp]: "agent_message_FILE_TRANSFER_DATA = 12"
definition agent_message_MAX_CLIPBOARD :: u32 where [simp]: "agent_message_MAX_CLIPBOARD = 14"
definition agent_message_AUDIO_VOLUME_SYNC :: u32 where [simp]: "agent_message_AUDIO_VOLUME_SYNC = 15"
definition agent_message_GRAPHICS_DEVICE_INFO :: u32 where [simp]: "agent_message_GRAPHICS_DEVICE_INFO = 16"

definition agent_capability_MONITORS_CONFIG :: u32 where [simp]: "agent_capability_MONITORS_CONFIG = 1"
definition agent_capability_REPLY :: u32 where [simp]: "agent_capability_REPLY = 2"
definition agent_capability_CLIPBOARD_BY_DEMAND :: u32 where [simp]: "agent_capability_CLIPBOARD_BY_DEMAND = 5"
definition agent_capability_CLIPBOARD_SELECTION :: u32 where [simp]: "agent_capability_CLIPBOARD_SELECTION = 6"
definition agent_capability_SPARSE_MONITORS_CONFIG :: u32 where [simp]: "agent_capability_SPARSE_MONITORS_CONFIG = 7"
definition agent_capability_MAX_CLIPBOARD :: u32 where [simp]: "agent_capability_MAX_CLIPBOARD = 10"
definition agent_capability_AUDIO_VOLUME_SYNC :: u32 where [simp]: "agent_capability_AUDIO_VOLUME_SYNC = 11"
definition agent_capability_MONITORS_CONFIG_POSITION :: u32 where [simp]: "agent_capability_MONITORS_CONFIG_POSITION = 12"
definition agent_capability_FILE_TRANSFER_DISABLED :: u32 where [simp]: "agent_capability_FILE_TRANSFER_DISABLED = 13"
definition agent_capability_FILE_TRANSFER_DETAILED_ERRORS :: u32 where
  [simp]: "agent_capability_FILE_TRANSFER_DETAILED_ERRORS = 14"
definition agent_capability_GRAPHICS_DEVICE_INFO :: u32 where [simp]: "agent_capability_GRAPHICS_DEVICE_INFO = 15"
definition agent_capability_CLIPBOARD_NO_RELEASE_ON_REGRAB :: u32 where
  [simp]: "agent_capability_CLIPBOARD_NO_RELEASE_ON_REGRAB = 16"
definition agent_capability_CLIPBOARD_GRAB_SERIAL :: u32 where [simp]: "agent_capability_CLIPBOARD_GRAB_SERIAL = 17"
definition agent_capability_MONITORS_PHYSICAL_SIZE :: u32 where [simp]: "agent_capability_MONITORS_PHYSICAL_SIZE = 18"

definition main_server_AGENT_CONNECTED :: u16 where [simp]: "main_server_AGENT_CONNECTED = 107"
definition main_server_AGENT_DISCONNECTED :: u16 where [simp]: "main_server_AGENT_DISCONNECTED = 108"
definition main_server_AGENT_DATA :: u16 where [simp]: "main_server_AGENT_DATA = 109"
definition main_server_AGENT_TOKEN :: u16 where [simp]: "main_server_AGENT_TOKEN = 110"
definition main_server_AGENT_CONNECTED_TOKENS :: u16 where [simp]: "main_server_AGENT_CONNECTED_TOKENS = 115"
definition main_client_AGENT_START :: u16 where [simp]: "main_client_AGENT_START = 106"
definition main_client_AGENT_DATA :: u16 where [simp]: "main_client_AGENT_DATA = 107"
definition main_client_AGENT_TOKEN :: u16 where [simp]: "main_client_AGENT_TOKEN = 108"

definition agent_protocol_error :: "context_str \<Rightarrow> ClientError" where
  "agent_protocol_error ctx = ClientError_Decode (DecodeError_new InvalidValue 0 ctx)"

definition agent_resource_error :: "context_str \<Rightarrow> ClientError" where
  "agent_resource_error ctx = ClientError_Decode (DecodeError_new ResourceLimit 0 ctx)"

section \<open>Published values\<close>

record AgentFeatures =
  af_clipboard_by_demand :: bool
  af_clipboard_selection :: bool
  af_clipboard_grab_serial :: bool
  af_monitor_config :: bool
  af_sparse_monitors :: bool
  af_monitor_positions :: bool
  af_monitor_physical_size :: bool
  af_file_transfer_disabled :: bool
  af_file_transfer_detailed_errors :: bool
  af_audio_volume_sync :: bool
  af_graphics_device_info :: bool

record AgentAudioVolumeState =
  avs_connection_generation :: u64
  avs_agent_generation :: u64
  avs_is_playback :: bool
  avs_muted :: bool
  avs_volumes :: "u16 list"

record AgentGraphicsDeviceState =
  ags_connection_generation :: u64
  ags_agent_generation :: u64
  ags_displays :: "AgentDisplayDevice list"

datatype AgentState =
    AgentState_Disconnected u64 u64 "u32 option"
  | AgentState_Negotiating u64 u64
  | AgentState_Ready u64 u64 AgentFeatures

fun AgentState_agent_generation :: "AgentState \<Rightarrow> u64" where
  "AgentState_agent_generation (AgentState_Disconnected connection_generation agent_generation reason) = agent_generation"
| "AgentState_agent_generation (AgentState_Negotiating connection_generation agent_generation) = agent_generation"
| "AgentState_agent_generation (AgentState_Ready connection_generation agent_generation features) = agent_generation"

fun AgentState_is_ready :: "AgentState \<Rightarrow> bool" where
  "AgentState_is_ready (AgentState_Ready connection_generation agent_generation features) = True"
| "AgentState_is_ready state = False"

record ClipboardOffer =
  co_connection_generation :: u64
  co_agent_generation :: u64
  co_revision :: u64
  co_selection :: AgentClipboardSelection
  co_types :: "u32 list"

definition ClipboardOffer_supports :: "ClipboardOffer \<Rightarrow> AgentClipboardType \<Rightarrow> bool" where
  "ClipboardOffer_supports offer clipboard_type \<longleftrightarrow> AgentClipboardType_code clipboard_type \<in> set (co_types offer)"

type_synonym ClipboardOffers = "AgentClipboardSelection \<Rightarrow> ClipboardOffer option"

definition ClipboardOffers_default :: ClipboardOffers where
  "ClipboardOffers_default = (\<lambda>selection. None)"

definition ClipboardOffers_replace :: "ClipboardOffer \<Rightarrow> ClipboardOffers \<Rightarrow> ClipboardOffers" where
  "ClipboardOffers_replace offer offers = offers(co_selection offer := Some offer)"

definition ClipboardOffers_clear :: "AgentClipboardSelection \<Rightarrow> ClipboardOffers \<Rightarrow> ClipboardOffers" where
  "ClipboardOffers_clear selection offers = offers(selection := None)"

record InboundAgentCredit =
  ic_generation :: u64
  ic_allocation :: nat

record ClipboardRequest =
  crq_request_id :: u64
  crq_connection_generation :: u64
  crq_agent_generation :: u64
  crq_selection :: AgentClipboardSelection
  crq_clipboard_type :: AgentClipboardType
  crq_credit :: InboundAgentCredit

record GuestMonitor =
  gm_width :: u32
  gm_height :: u32
  gm_depth :: u32
  gm_x :: i32
  gm_y :: i32
  gm_width_mm :: "u16 option"
  gm_height_mm :: "u16 option"

definition AgentMonitorConfig_from :: "GuestMonitor \<Rightarrow> AgentMonitorConfig" where
  "AgentMonitorConfig_from value =
     \<lparr>mc_width = gm_width value, mc_height = gm_height value, mc_depth = gm_depth value, mc_x = gm_x value,
      mc_y = gm_y value, mc_width_mm = gm_width_mm value, mc_height_mm = gm_height_mm value\<rparr>"

text \<open>The layout receiver: the latest value, and what \<open>has_changed().unwrap_or(false)\<close> says.\<close>

record LayoutWatch =
  lw_value :: "GuestMonitor list option"
  lw_changed :: bool

datatype AgentSendError =
    AgentSendError_Unavailable | AgentSendError_Unsupported | AgentSendError_Closed
  | AgentSendError_StaleGeneration | AgentSendError_ResourceLimit | AgentSendError_InvalidData

record FileTransferMetadata =
  fm_file_name :: "u8 list"
  fm_size :: u64

datatype FileTransferState =
    FileTransferState_WaitingForGuest
  | FileTransferState_Sending u64
  | FileTransferState_AwaitingCompletion u64
  | FileTransferState_Completed
  | FileTransferState_Cancelled
  | FileTransferState_Failed AgentFileTransferFailure
  | FileTransferState_AgentDisconnected

datatype AgentCommand =
    AgentCommand_SyncAudioVolume u64 AgentAudioVolumeSync
  | AgentCommand_OfferClipboard u64 AgentClipboardSelection "AgentClipboardType list"
  | AgentCommand_ReleaseClipboard u64 AgentClipboardSelection
  | AgentCommand_RequestClipboard u64 AgentClipboardSelection AgentClipboardType nat
  | AgentCommand_ProvideClipboard u64 u64 "u8 list"
  | AgentCommand_StartFile u64 FileTransferMetadata nat
  | AgentCommand_FileData u64 u32 "u8 list" nat
  | AgentCommand_CancelFile u64 u32 nat

section \<open>Credit returns\<close>

record AgentCreditReturns =
  cr_generation :: u64
  cr_pending :: u32

definition AgentCreditReturns_new :: AgentCreditReturns where
  "AgentCreditReturns_new = \<lparr>cr_generation = 0, cr_pending = 0\<rparr>"

definition AgentCreditReturns_reset :: "u64 \<Rightarrow> AgentCreditReturns \<Rightarrow> AgentCreditReturns" where
  "AgentCreditReturns_reset generation cr = cr\<lparr>cr_generation := generation, cr_pending := 0\<rparr>"

definition u32_checked_add :: "u32 \<Rightarrow> u32 \<Rightarrow> u32 option" where
  "u32_checked_add a b = (if unat a + unat b < 2 ^ 32 then Some (a + b) else None)"

definition AgentCreditReturns_return_now :: "u64 \<Rightarrow> AgentCreditReturns \<Rightarrow> AgentCreditReturns client" where
  "AgentCreditReturns_return_now generation cr =
     (if cr_generation cr \<noteq> generation then Inr cr
      else and_then (expect (u32_checked_add (cr_pending cr) 1)) (\<lambda>pending. Inr (cr\<lparr>cr_pending := pending\<rparr>)))"

definition AgentCreditReturns_take :: "u64 \<Rightarrow> AgentCreditReturns \<Rightarrow> u32 \<times> AgentCreditReturns" where
  "AgentCreditReturns_take generation cr =
     (if cr_generation cr \<noteq> generation then (0, cr) else (cr_pending cr, cr\<lparr>cr_pending := 0\<rparr>))"

definition features_from_capabilities :: "CapabilitySet \<Rightarrow> AgentFeatures" where
  "features_from_capabilities capabilities =
     \<lparr>af_clipboard_by_demand = CapabilitySet_contains capabilities agent_capability_CLIPBOARD_BY_DEMAND,
      af_clipboard_selection = CapabilitySet_contains capabilities agent_capability_CLIPBOARD_SELECTION,
      af_clipboard_grab_serial = CapabilitySet_contains capabilities agent_capability_CLIPBOARD_GRAB_SERIAL,
      af_monitor_config = CapabilitySet_contains capabilities agent_capability_MONITORS_CONFIG,
      af_sparse_monitors = CapabilitySet_contains capabilities agent_capability_SPARSE_MONITORS_CONFIG,
      af_monitor_positions = CapabilitySet_contains capabilities agent_capability_MONITORS_CONFIG_POSITION,
      af_monitor_physical_size = CapabilitySet_contains capabilities agent_capability_MONITORS_PHYSICAL_SIZE,
      af_file_transfer_disabled = CapabilitySet_contains capabilities agent_capability_FILE_TRANSFER_DISABLED,
      af_file_transfer_detailed_errors =
        CapabilitySet_contains capabilities agent_capability_FILE_TRANSFER_DETAILED_ERRORS,
      af_audio_volume_sync = CapabilitySet_contains capabilities agent_capability_AUDIO_VOLUME_SYNC,
      af_graphics_device_info = CapabilitySet_contains capabilities agent_capability_GRAPHICS_DEVICE_INFO\<rparr>"

section \<open>The runtime\<close>

text \<open>What a waiting host call receives: its result, or nothing because its sender was dropped.\<close>

datatype agent_answer =
    Answer_read "AgentSendError + u8 list"
  | Answer_transfer "AgentSendError + u32"
  | Answer_done "AgentSendError + unit"
  | Answer_dropped

record PendingClipboardRead =
  pr_generation :: u64
  pr_clipboard_type :: AgentClipboardType
  pr_response :: nat

datatype TransferPhase = TransferPhase_WaitingForGuest | TransferPhase_Sending | TransferPhase_AwaitingCompletion

record TransferRuntime =
  tr_generation :: u64
  tr_total_bytes :: u64
  tr_accepted_bytes :: u64
  tr_phase :: TransferPhase

record AgentSinks =
  as_state :: AgentState
  as_offers :: ClipboardOffers
  as_events :: "ClipboardRequest list"
  as_events_open :: bool
  as_audio_volume :: "AgentAudioVolumeState option"
  as_graphics_devices :: "AgentGraphicsDeviceState option"
  as_credit_returns :: AgentCreditReturns
  as_answers :: "(nat \<times> agent_answer) list"
  as_transfer_log :: "(u32 \<times> FileTransferState) list"

record AgentRuntime =
  ar_connection_generation :: u64
  ar_generation :: u64
  ar_connected :: bool
  ar_ready :: bool
  ar_outbound_tokens :: u64
  ar_inbound_tokens :: u32
  ar_decoder :: AgentStreamDecoder
  ar_peer_capabilities :: CapabilitySet
  ar_outbound :: "OutboundAgentMessage option"
  ar_outbound_completion :: "nat option"
  ar_announce_pending :: bool
  ar_max_clipboard_pending :: bool
  ar_sent_layout_generation :: u64
  ar_layout_dirty :: bool
  ar_offer_revision :: u64
  ar_outgoing_clipboard_serial :: "AgentClipboardSelection \<Rightarrow> u32"
  ar_incoming_clipboard_serial :: "AgentClipboardSelection \<Rightarrow> u32"
  ar_desired_clipboard_offers :: "AgentClipboardSelection \<Rightarrow> AgentClipboardType list option"
  ar_sent_offer_generation :: "AgentClipboardSelection \<Rightarrow> u64"
  ar_next_request_id :: u64
  ar_pending_reads :: "(AgentClipboardSelection \<times> PendingClipboardRead) list"
  ar_pending_host_requests :: "(u64 \<times> u64 \<times> AgentClipboardSelection \<times> AgentClipboardType) list"
  ar_next_transfer_id :: u32
  ar_transfers :: "(u32 \<times> TransferRuntime) list"
  ar_next_allocation :: nat
  ar_sinks :: AgentSinks

definition agent_sinks :: "u64 \<Rightarrow> AgentSinks" where
  "agent_sinks connection_generation =
     \<lparr>as_state = AgentState_Disconnected connection_generation 0 None, as_offers = ClipboardOffers_default, as_events = [],
      as_events_open = True, as_audio_volume = None, as_graphics_devices = None,
      as_credit_returns = AgentCreditReturns_new, as_answers = [], as_transfer_log = []\<rparr>"

definition AgentRuntime_new :: "u64 \<Rightarrow> bool \<Rightarrow> u64 \<Rightarrow> AgentSinks \<Rightarrow> AgentRuntime client" where
  "AgentRuntime_new connection_generation connected outbound_tokens sinks =
     and_then (case AgentStreamDecoder_new DEFAULT_MAX_AGENT_MESSAGE_BYTES of Inr d \<Rightarrow> Inr d | Inl _ \<Rightarrow> Inl Panic) (\<lambda>decoder.
     Inr \<lparr>ar_connection_generation = connection_generation, ar_generation = 0, ar_connected = connected, ar_ready = False,
      ar_outbound_tokens = outbound_tokens, ar_inbound_tokens = 0, ar_decoder = decoder,
      ar_peer_capabilities = CapabilitySet_new, ar_outbound = None, ar_outbound_completion = None,
      ar_announce_pending = False, ar_max_clipboard_pending = False, ar_sent_layout_generation = 0,
      ar_layout_dirty = False, ar_offer_revision = 0, ar_outgoing_clipboard_serial = (\<lambda>_. 0),
      ar_incoming_clipboard_serial = (\<lambda>_. 0), ar_desired_clipboard_offers = (\<lambda>_. None),
      ar_sent_offer_generation = (\<lambda>_. 0), ar_next_request_id = 1, ar_pending_reads = [],
      ar_pending_host_requests = [], ar_next_transfer_id = 1, ar_transfers = [], ar_next_allocation = 0,
      ar_sinks = sinks\<rparr>)"

abbreviation update_sinks :: "(AgentSinks \<Rightarrow> AgentSinks) \<Rightarrow> AgentRuntime \<Rightarrow> AgentRuntime" where
  "update_sinks f a \<equiv> a\<lparr>ar_sinks := f (ar_sinks a)\<rparr>"

definition answer_call :: "nat \<Rightarrow> agent_answer \<Rightarrow> AgentRuntime \<Rightarrow> AgentRuntime" where
  "answer_call call answer a = update_sinks (\<lambda>s. s\<lparr>as_answers := as_answers s @ [(call, answer)]\<rparr>) a"

definition publish_transfer :: "u32 \<Rightarrow> FileTransferState \<Rightarrow> AgentRuntime \<Rightarrow> AgentRuntime" where
  "publish_transfer transfer_id state a =
     update_sinks (\<lambda>s. s\<lparr>as_transfer_log := as_transfer_log s @ [(transfer_id, state)]\<rparr>) a"

definition AgentRuntime_can_send :: "AgentRuntime \<Rightarrow> bool" where
  "AgentRuntime_can_send a \<longleftrightarrow> ar_connected a \<and> ar_outbound_tokens a \<noteq> 0 \<and> ar_outbound a \<noteq> None"

definition AgentRuntime_can_accept_command :: "AgentRuntime \<Rightarrow> bool" where
  "AgentRuntime_can_accept_command a \<longleftrightarrow>
     ar_ready a \<and> ar_outbound a = None \<and> \<not> ar_announce_pending a \<and> \<not> ar_max_clipboard_pending a"

definition AgentRuntime_note_layout_changed :: "AgentRuntime \<Rightarrow> AgentRuntime" where
  "AgentRuntime_note_layout_changed a = a\<lparr>ar_layout_dirty := True\<rparr>"

definition AgentRuntime_queue :: "u32 \<Rightarrow> u8 list \<Rightarrow> AgentRuntime \<Rightarrow> AgentRuntime client" where
  "AgentRuntime_queue message_type payload a =
     (if ar_outbound a \<noteq> None then client_err (ClientError_Internal STR ''overlapping outbound Agent messages'')
      else and_then (from_decode (OutboundAgentMessage_new message_type 0 payload DEFAULT_MAX_AGENT_MESSAGE_BYTES)) (\<lambda>m.
           Inr (a\<lparr>ar_outbound := Some m\<rparr>)))"

definition AgentRuntime_queue_with_completion ::
    "u32 \<Rightarrow> u8 list \<Rightarrow> nat \<Rightarrow> AgentRuntime \<Rightarrow> AgentRuntime client" where
  "AgentRuntime_queue_with_completion message_type payload completion a =
     and_then (AgentRuntime_queue message_type payload a) (\<lambda>a.
     Inr (a\<lparr>ar_outbound_completion := Some completion\<rparr>))"

fun allocate_transfer_id_loop :: "nat \<Rightarrow> AgentRuntime \<Rightarrow> (u32 \<times> AgentRuntime) client" where
  "allocate_transfer_id_loop 0 a = client_err (agent_resource_error STR ''Agent file transfer identifiers'')"
| "allocate_transfer_id_loop (Suc n) a =
     (let candidate = max (ar_next_transfer_id a) 1;
          a = a\<lparr>ar_next_transfer_id := max (candidate + 1) 1\<rparr> in
      if map_of (ar_transfers a) candidate = None then Inr (candidate, a) else allocate_transfer_id_loop n a)"

definition AgentRuntime_allocate_transfer_id :: "AgentRuntime \<Rightarrow> (u32 \<times> AgentRuntime) client" where
  "AgentRuntime_allocate_transfer_id a = allocate_transfer_id_loop (Suc MAX_ACTIVE_FILE_TRANSFERS) a"

definition AgentRuntime_fail_pending_reads :: "AgentSendError \<Rightarrow> AgentRuntime \<Rightarrow> AgentRuntime" where
  "AgentRuntime_fail_pending_reads error a =
     update_sinks (\<lambda>s. s\<lparr>as_answers := as_answers s @
       map (\<lambda>(_, pending). (pr_response pending, Answer_read (Inl error))) (ar_pending_reads a)\<rparr>) (a\<lparr>ar_pending_reads := []\<rparr>)"

definition AgentRuntime_fail_transfers :: "AgentRuntime \<Rightarrow> AgentRuntime" where
  "AgentRuntime_fail_transfers a =
     update_sinks (\<lambda>s. s\<lparr>as_transfer_log := as_transfer_log s @
       map (\<lambda>(transfer_id, _). (transfer_id, FileTransferState_AgentDisconnected)) (ar_transfers a)\<rparr>) (a\<lparr>ar_transfers := []\<rparr>)"

definition fail_outbound_completion :: "AgentRuntime \<Rightarrow> AgentRuntime" where
  "fail_outbound_completion a =
     (case ar_outbound_completion a of
        None \<Rightarrow> a
      | Some completion \<Rightarrow>
          answer_call completion (Answer_done (Inl AgentSendError_StaleGeneration)) (a\<lparr>ar_outbound_completion := None\<rparr>))"

definition AgentRuntime_begin_generation ::
    "'c mechanism \<Rightarrow> AgentRuntime \<Rightarrow> 'c Channel \<Rightarrow> (AgentRuntime \<times> 'c Channel) client" where
  "AgentRuntime_begin_generation enc a channel =
     (let a = AgentRuntime_fail_pending_reads AgentSendError_StaleGeneration a;
          a = AgentRuntime_fail_transfers a;
          a = fail_outbound_completion a;
          generation = max (ar_generation a + 1) 1;
          a = a\<lparr>ar_generation := generation, ar_ready := False, ar_decoder := AgentStreamDecoder_reset (ar_decoder a),
                ar_peer_capabilities := CapabilitySet_new, ar_outbound := None, ar_announce_pending := True,
                ar_max_clipboard_pending := False, ar_inbound_tokens := AGENT_RECEIVE_WINDOW,
                ar_outgoing_clipboard_serial := (\<lambda>_. 0), ar_incoming_clipboard_serial := (\<lambda>_. 0),
                ar_sent_offer_generation := (\<lambda>_. 0), ar_pending_host_requests := []\<rparr>;
          a = update_sinks (\<lambda>s. s\<lparr>as_credit_returns := AgentCreditReturns_reset generation (as_credit_returns s),
                as_offers := ClipboardOffers_default, as_audio_volume := None, as_graphics_devices := None\<rparr>) a in
      and_then (Channel_write_message enc main_client_AGENT_START (encode_agent_tokens AGENT_RECEIVE_WINDOW) channel) (\<lambda>channel.
      Inr (update_sinks (\<lambda>s. s\<lparr>as_state := AgentState_Negotiating (ar_connection_generation a) (ar_generation a)\<rparr>) a, channel)))"

definition AgentRuntime_disconnect :: "u32 option \<Rightarrow> AgentRuntime \<Rightarrow> AgentRuntime" where
  "AgentRuntime_disconnect reason a =
     (let a = a\<lparr>ar_connected := False, ar_ready := False, ar_inbound_tokens := 0,
                ar_decoder := AgentStreamDecoder_reset (ar_decoder a), ar_outbound := None\<rparr>;
          a = fail_outbound_completion a;
          a = a\<lparr>ar_announce_pending := False, ar_max_clipboard_pending := False, ar_peer_capabilities := CapabilitySet_new\<rparr>;
          a = AgentRuntime_fail_pending_reads AgentSendError_StaleGeneration a;
          a = AgentRuntime_fail_transfers a;
          a = a\<lparr>ar_pending_host_requests := []\<rparr> in
      update_sinks (\<lambda>s. s\<lparr>as_offers := ClipboardOffers_default, as_audio_volume := None, as_graphics_devices := None,
        as_state := AgentState_Disconnected (ar_connection_generation a) (ar_generation a) reason\<rparr>) a)"

definition AgentRuntime_initialize ::
    "'c mechanism \<Rightarrow> AgentRuntime \<Rightarrow> 'c Channel \<Rightarrow> (AgentRuntime \<times> 'c Channel) client" where
  "AgentRuntime_initialize enc a channel =
     (if ar_connected a then AgentRuntime_begin_generation enc a channel else Inr (a, channel))"

definition AgentRuntime_reinitialize_after_migration ::
    "'c mechanism \<Rightarrow> bool \<Rightarrow> u64 \<Rightarrow> u32 option \<Rightarrow> AgentRuntime \<Rightarrow> 'c Channel \<Rightarrow> (AgentRuntime \<times> 'c Channel) client" where
  "AgentRuntime_reinitialize_after_migration enc connected outbound_tokens disconnect_reason a channel =
     (let a = (AgentRuntime_disconnect disconnect_reason a)\<lparr>ar_outbound_tokens := outbound_tokens, ar_connected := connected\<rparr> in
      if connected then AgentRuntime_begin_generation enc a channel else Inr (a, channel))"

definition AgentRuntime_send_one ::
    "'c mechanism \<Rightarrow> AgentRuntime \<Rightarrow> 'c Channel \<Rightarrow> (AgentRuntime \<times> 'c Channel) client" where
  "AgentRuntime_send_one enc a channel =
     and_then (ok_or (ClientError_Internal STR ''missing outbound Agent message'') (ar_outbound a)) (\<lambda>outbound.
     and_then (from_decode (OutboundAgentMessage_next_fragment outbound)) (\<lambda>(outbound, fragment).
     let a = a\<lparr>ar_outbound := Some outbound\<rparr>; complete = OutboundAgentMessage_is_complete outbound in
     and_then (Channel_write_message enc main_client_AGENT_DATA fragment channel) (\<lambda>channel.
     if ar_outbound_tokens a = 0 then client_err (ClientError_Internal STR ''Agent outbound token underflow'')
     else
     let a = a\<lparr>ar_outbound_tokens := ar_outbound_tokens a - 1\<rparr> in
     if complete
     then Inr (case ar_outbound_completion a of
                 None \<Rightarrow> a\<lparr>ar_outbound := None\<rparr>
               | Some completion \<Rightarrow>
                   answer_call completion (Answer_done (Inr ())) (a\<lparr>ar_outbound := None, ar_outbound_completion := None\<rparr>),
               channel)
     else Inr (a, channel))))"

definition AgentRuntime_send_returned_credits ::
    "'c mechanism \<Rightarrow> AgentRuntime \<Rightarrow> 'c Channel \<Rightarrow> (AgentRuntime \<times> 'c Channel) client" where
  "AgentRuntime_send_returned_credits enc a channel =
     (let (returned, credit_returns) = AgentCreditReturns_take (ar_generation a) (as_credit_returns (ar_sinks a));
          a = update_sinks (\<lambda>s. s\<lparr>as_credit_returns := credit_returns\<rparr>) a in
      if returned = 0 then Inr (a, channel)
      else
      and_then (ok_or (agent_protocol_error STR ''Agent inbound token window'')
        (case u32_checked_add (ar_inbound_tokens a) returned of
           Some tokens \<Rightarrow> if tokens \<le> AGENT_RECEIVE_WINDOW then Some tokens else None
         | None \<Rightarrow> None)) (\<lambda>tokens.
      and_then (Channel_write_message enc main_client_AGENT_TOKEN (encode_agent_tokens returned) channel) (\<lambda>channel.
      Inr (a\<lparr>ar_inbound_tokens := tokens\<rparr>, channel))))"

section \<open>Internal messages\<close>

definition local_agent_capabilities :: "CapabilitySet client" where
  "local_agent_capabilities = from_decode (CapabilitySet_from_bits
     [agent_capability_MONITORS_CONFIG, agent_capability_REPLY, agent_capability_CLIPBOARD_BY_DEMAND,
      agent_capability_CLIPBOARD_SELECTION, agent_capability_MAX_CLIPBOARD, agent_capability_MONITORS_CONFIG_POSITION,
      agent_capability_SPARSE_MONITORS_CONFIG, agent_capability_AUDIO_VOLUME_SYNC,
      agent_capability_FILE_TRANSFER_DETAILED_ERRORS, agent_capability_GRAPHICS_DEVICE_INFO,
      agent_capability_CLIPBOARD_NO_RELEASE_ON_REGRAB, agent_capability_CLIPBOARD_GRAB_SERIAL,
      agent_capability_MONITORS_PHYSICAL_SIZE])"

definition layout_has_empty_monitor :: "GuestMonitor list \<Rightarrow> bool" where
  "layout_has_empty_monitor monitors \<longleftrightarrow> list_ex (\<lambda>monitor. gm_width monitor = 0 \<or> gm_height monitor = 0) monitors"

definition layout_monitor :: "AgentFeatures \<Rightarrow> GuestMonitor \<Rightarrow> AgentMonitorConfig" where
  "layout_monitor features monitor =
     (let monitor = AgentMonitorConfig_from monitor in
      if af_monitor_physical_size features then monitor else monitor\<lparr>mc_width_mm := None, mc_height_mm := None\<rparr>)"

definition prepare_layout :: "GuestMonitor list option \<Rightarrow> AgentRuntime \<Rightarrow> AgentRuntime client" where
  "prepare_layout desired a =
     (let a = a\<lparr>ar_sent_layout_generation := ar_generation a, ar_layout_dirty := False\<rparr> in
      case desired of
        None \<Rightarrow> Inr a
      | Some monitors \<Rightarrow>
          let features = features_from_capabilities (ar_peer_capabilities a) in
          if \<not> af_monitor_config features then Inr a
          else if \<not> af_sparse_monitors features \<and> layout_has_empty_monitor monitors then Inr a
          else and_then (from_decode (encode_monitors_config (map (layout_monitor features) monitors)
                  (af_monitor_positions features) (af_sparse_monitors features) (af_monitor_physical_size features))) (\<lambda>payload.
               AgentRuntime_queue agent_message_MONITORS_CONFIG payload a))"

text \<open>The serial of the next grab, if the guest numbers them.\<close>

definition take_grab_serial :: "AgentFeatures \<Rightarrow> AgentClipboardSelection \<Rightarrow> AgentRuntime \<Rightarrow> u32 option \<times> AgentRuntime" where
  "take_grab_serial features selection a =
     (if af_clipboard_grab_serial features
      then let serial = ar_outgoing_clipboard_serial a selection in
           (Some serial, a\<lparr>ar_outgoing_clipboard_serial := (ar_outgoing_clipboard_serial a)(selection := serial + 1)\<rparr>)
      else (None, a))"

definition mark_offer_sent :: "AgentClipboardSelection \<Rightarrow> AgentRuntime \<Rightarrow> AgentRuntime" where
  "mark_offer_sent selection a =
     a\<lparr>ar_sent_offer_generation := (ar_sent_offer_generation a)(selection := ar_generation a)\<rparr>"

fun prepare_offers :: "AgentFeatures \<Rightarrow> AgentClipboardSelection list \<Rightarrow> AgentRuntime \<Rightarrow> AgentRuntime client" where
  "prepare_offers features [] a = Inr a"
| "prepare_offers features (selection # selections) a =
     (case ar_desired_clipboard_offers a selection of
        None \<Rightarrow> prepare_offers features selections a
      | Some types \<Rightarrow>
          if ar_sent_offer_generation a selection = ar_generation a then prepare_offers features selections a
          else if selection \<noteq> AgentClipboardSelection_Clipboard \<and> \<not> af_clipboard_selection features
          then prepare_offers features selections (mark_offer_sent selection a)
          else
          let (serial, a) = take_grab_serial features selection a in
          and_then (from_decode (encode_clipboard_grab selection serial types (af_clipboard_selection features))) (\<lambda>payload.
          AgentRuntime_queue agent_message_CLIPBOARD_GRAB payload (mark_offer_sent selection a)))"

definition AgentRuntime_prepare_internal :: "LayoutWatch \<Rightarrow> AgentRuntime \<Rightarrow> (AgentRuntime \<times> LayoutWatch) client" where
  "AgentRuntime_prepare_internal layout a =
     (if \<not> ar_connected a \<or> ar_outbound a \<noteq> None then Inr (a, layout)
      else if ar_announce_pending a
      then and_then local_agent_capabilities (\<lambda>capabilities.
           and_then (AgentRuntime_queue agent_message_ANNOUNCE_CAPABILITIES
             (AgentCapabilities_encode \<lparr>ac_request_reply = (\<not> ar_ready a), ac_capabilities = capabilities\<rparr>)
             (a\<lparr>ar_announce_pending := False\<rparr>)) (\<lambda>a. Inr (a, layout)))
      else if ar_max_clipboard_pending a
      then and_then (AgentRuntime_queue agent_message_MAX_CLIPBOARD (u32_to_le_bytes (of_nat MAX_CLIPBOARD_BYTES))
             (a\<lparr>ar_max_clipboard_pending := False\<rparr>)) (\<lambda>a. Inr (a, layout))
      else if ar_ready a \<and> (ar_sent_layout_generation a \<noteq> ar_generation a \<or> ar_layout_dirty a \<or> lw_changed layout)
      then and_then (prepare_layout (lw_value layout) a) (\<lambda>a. Inr (a, layout\<lparr>lw_changed := False\<rparr>))
      else if ar_ready a
      then and_then (prepare_offers (features_from_capabilities (ar_peer_capabilities a))
             [AgentClipboardSelection_Clipboard, AgentClipboardSelection_Primary, AgentClipboardSelection_Secondary] a)
             (\<lambda>a. Inr (a, layout))
      else Inr (a, layout))"

section \<open>Commands of the host\<close>

definition validate_clipboard_payload :: "AgentClipboardType \<Rightarrow> u8 list \<Rightarrow> unit client" where
  "validate_clipboard_payload clipboard_type data =
     (case clipboard_type of
        AgentClipboardType_None \<Rightarrow> client_err (agent_protocol_error STR ''Agent clipboard data type'')
      | AgentClipboardType_Utf8Text \<Rightarrow>
          (case from_utf8 data of
             None \<Rightarrow> client_err (agent_protocol_error STR ''Agent clipboard UTF-8'')
           | Some _ \<Rightarrow> Inr ())
      | AgentClipboardType_FileList \<Rightarrow> and_then (from_decode (decode_clipboard_file_list data)) (\<lambda>_. Inr ())
      | _ \<Rightarrow> if data = [] then client_err (agent_protocol_error STR ''Agent clipboard image'') else Inr ())"

fun command_generation :: "AgentCommand \<Rightarrow> u64" where
  "command_generation (AgentCommand_SyncAudioVolume agent_generation volume) = agent_generation"
| "command_generation (AgentCommand_OfferClipboard agent_generation selection types) = agent_generation"
| "command_generation (AgentCommand_ReleaseClipboard agent_generation selection) = agent_generation"
| "command_generation (AgentCommand_RequestClipboard agent_generation selection clipboard_type response) = agent_generation"
| "command_generation (AgentCommand_ProvideClipboard agent_generation request_id data) = agent_generation"
| "command_generation (AgentCommand_StartFile agent_generation metadata response) = agent_generation"
| "command_generation (AgentCommand_FileData agent_generation transfer_id data completion) = agent_generation"
| "command_generation (AgentCommand_CancelFile agent_generation transfer_id completion) = agent_generation"

fun refuse_stale_command :: "AgentCommand \<Rightarrow> AgentRuntime \<Rightarrow> AgentRuntime" where
  "refuse_stale_command (AgentCommand_RequestClipboard agent_generation selection clipboard_type response) a =
     answer_call response (Answer_read (Inl AgentSendError_StaleGeneration)) a"
| "refuse_stale_command (AgentCommand_StartFile agent_generation metadata response) a =
     answer_call response (Answer_transfer (Inl AgentSendError_StaleGeneration)) a"
| "refuse_stale_command (AgentCommand_FileData agent_generation transfer_id data completion) a =
     answer_call completion (Answer_done (Inl AgentSendError_StaleGeneration)) a"
| "refuse_stale_command (AgentCommand_CancelFile agent_generation transfer_id completion) a =
     answer_call completion (Answer_done (Inl AgentSendError_StaleGeneration)) a"
| "refuse_stale_command command a = a"

definition accept_offer :: "AgentFeatures \<Rightarrow> AgentClipboardSelection \<Rightarrow> AgentClipboardType list \<Rightarrow> AgentRuntime \<Rightarrow> AgentRuntime client" where
  "accept_offer features selection types a =
     (if \<not> af_clipboard_by_demand features then Inr a
      else
      let a = a\<lparr>ar_desired_clipboard_offers := (ar_desired_clipboard_offers a)(selection := Some types)\<rparr>;
          (serial, a) = take_grab_serial features selection a in
      and_then (from_decode (encode_clipboard_grab selection serial types (af_clipboard_selection features))) (\<lambda>payload.
      AgentRuntime_queue agent_message_CLIPBOARD_GRAB payload (mark_offer_sent selection a)))"

definition accept_release :: "AgentFeatures \<Rightarrow> AgentClipboardSelection \<Rightarrow> AgentRuntime \<Rightarrow> AgentRuntime client" where
  "accept_release features selection a =
     (if \<not> af_clipboard_by_demand features then Inr a
      else
      let a = a\<lparr>ar_desired_clipboard_offers := (ar_desired_clipboard_offers a)(selection := None)\<rparr> in
      and_then (from_decode (encode_clipboard_release selection (af_clipboard_selection features))) (\<lambda>payload.
      AgentRuntime_queue agent_message_CLIPBOARD_RELEASE payload (mark_offer_sent selection a)))"

definition accept_read ::
    "AgentFeatures \<Rightarrow> AgentClipboardSelection \<Rightarrow> AgentClipboardType \<Rightarrow> nat \<Rightarrow> AgentRuntime \<Rightarrow> AgentRuntime client" where
  "accept_read features selection clipboard_type response a =
     (if \<not> af_clipboard_by_demand features
      then Inr (answer_call response (Answer_read (Inl AgentSendError_Unsupported)) a)
      else if map_of (ar_pending_reads a) selection \<noteq> None
      then Inr (answer_call response (Answer_read (Inl AgentSendError_InvalidData)) a)
      else
      and_then (from_decode (encode_clipboard_request selection clipboard_type (af_clipboard_selection features))) (\<lambda>payload.
      AgentRuntime_queue agent_message_CLIPBOARD_REQUEST payload
        (a\<lparr>ar_pending_reads := AList.update selection
             \<lparr>pr_generation = ar_generation a, pr_clipboard_type = clipboard_type, pr_response = response\<rparr>
             (ar_pending_reads a)\<rparr>)))"

definition accept_provide :: "AgentFeatures \<Rightarrow> u64 \<Rightarrow> u8 list \<Rightarrow> AgentRuntime \<Rightarrow> AgentRuntime client" where
  "accept_provide features request_id data a =
     (if \<not> af_clipboard_by_demand features then Inr a
      else case map_of (ar_pending_host_requests a) request_id of
        None \<Rightarrow> Inr a
      | Some (generation, selection, clipboard_type) \<Rightarrow>
          let a = a\<lparr>ar_pending_host_requests := AList.delete request_id (ar_pending_host_requests a)\<rparr> in
          if generation \<noteq> ar_generation a \<or> length data > MAX_CLIPBOARD_BYTES then Inr a
          else
          and_then (validate_clipboard_payload clipboard_type data) (\<lambda>_.
          and_then (from_decode (encode_clipboard_data selection clipboard_type data (af_clipboard_selection features))) (\<lambda>payload.
          AgentRuntime_queue agent_message_CLIPBOARD payload a)))"

definition accept_start_file :: "AgentFeatures \<Rightarrow> FileTransferMetadata \<Rightarrow> nat \<Rightarrow> AgentRuntime \<Rightarrow> AgentRuntime client" where
  "accept_start_file features metadata response a =
     (if af_file_transfer_disabled features \<or> length (ar_transfers a) \<ge> MAX_ACTIVE_FILE_TRANSFERS
      then Inr (answer_call response (Answer_transfer (Inl
             (if af_file_transfer_disabled features then AgentSendError_Unsupported else AgentSendError_ResourceLimit))) a)
      else
      and_then (AgentRuntime_allocate_transfer_id a) (\<lambda>(transfer_id, a).
      case encode_file_transfer_start transfer_id (fm_file_name metadata) (fm_size metadata) of
        Inl Panic \<Rightarrow> Inl Panic
      | Inl (Err _) \<Rightarrow> Inr (answer_call response (Answer_transfer (Inl AgentSendError_InvalidData)) a)
      | Inr payload \<Rightarrow>
          let a = publish_transfer transfer_id FileTransferState_WaitingForGuest
                (a\<lparr>ar_transfers := AList.update transfer_id
                     \<lparr>tr_generation = ar_generation a, tr_total_bytes = fm_size metadata, tr_accepted_bytes = 0,
                      tr_phase = TransferPhase_WaitingForGuest\<rparr> (ar_transfers a)\<rparr>) in
          and_then (AgentRuntime_queue agent_message_FILE_TRANSFER_START payload a) (\<lambda>a.
          Inr (answer_call response (Answer_transfer (Inr transfer_id)) a))))"

definition accept_file_data :: "u32 \<Rightarrow> u8 list \<Rightarrow> nat \<Rightarrow> AgentRuntime \<Rightarrow> AgentRuntime client" where
  "accept_file_data transfer_id data completion a =
     (case map_of (ar_transfers a) transfer_id of
        None \<Rightarrow> Inr (answer_call completion (Answer_done (Inl AgentSendError_InvalidData)) a)
      | Some transfer \<Rightarrow>
          if tr_generation transfer \<noteq> ar_generation a \<or> tr_phase transfer \<noteq> TransferPhase_Sending
          then Inr (answer_call completion (Answer_done (Inl AgentSendError_InvalidData)) a)
          else if length data \<ge> 2 ^ 64 then client_err (agent_resource_error STR ''Agent file chunk'')
          else if data = [] \<and> tr_total_bytes transfer \<noteq> 0 \<or> data \<noteq> [] \<and> tr_total_bytes transfer = 0
          then Inr (answer_call completion (Answer_done (Inl AgentSendError_InvalidData)) a)
          else case u64_checked_add (tr_accepted_bytes transfer) (of_nat (length data)) of
            None \<Rightarrow> Inr (answer_call completion (Answer_done (Inl AgentSendError_ResourceLimit)) a)
          | Some accepted_bytes \<Rightarrow>
              if \<not> accepted_bytes \<le> tr_total_bytes transfer
              then Inr (answer_call completion (Answer_done (Inl AgentSendError_ResourceLimit)) a)
              else case encode_file_transfer_data transfer_id data of
                Inl Panic \<Rightarrow> Inl Panic
              | Inl (Err _) \<Rightarrow> Inr (answer_call completion (Answer_done (Inl AgentSendError_ResourceLimit)) a)
              | Inr payload \<Rightarrow>
                  let transfer = transfer\<lparr>tr_accepted_bytes := accepted_bytes,
                        tr_phase := (if accepted_bytes = tr_total_bytes transfer then TransferPhase_AwaitingCompletion
                                     else tr_phase transfer)\<rparr>;
                      a = publish_transfer transfer_id
                        (if accepted_bytes = tr_total_bytes transfer then FileTransferState_AwaitingCompletion accepted_bytes
                         else FileTransferState_Sending accepted_bytes)
                        (a\<lparr>ar_transfers := AList.update transfer_id transfer (ar_transfers a)\<rparr>) in
                  AgentRuntime_queue_with_completion agent_message_FILE_TRANSFER_DATA payload completion a)"

definition accept_cancel_file :: "u32 \<Rightarrow> nat \<Rightarrow> AgentRuntime \<Rightarrow> AgentRuntime client" where
  "accept_cancel_file transfer_id completion a =
     (case map_of (ar_transfers a) transfer_id of
        None \<Rightarrow> Inr (answer_call completion (Answer_done (Inl AgentSendError_InvalidData)) a)
      | Some transfer \<Rightarrow>
          let a = publish_transfer transfer_id FileTransferState_Cancelled
                (a\<lparr>ar_transfers := AList.delete transfer_id (ar_transfers a)\<rparr>) in
          and_then (from_decode (encode_file_transfer_status transfer_id AgentFileTransferStatus_Cancelled)) (\<lambda>payload.
          AgentRuntime_queue_with_completion agent_message_FILE_TRANSFER_STATUS payload completion a))"

definition accept_volume :: "AgentFeatures \<Rightarrow> AgentAudioVolumeSync \<Rightarrow> AgentRuntime \<Rightarrow> AgentRuntime client" where
  "accept_volume features volume a =
     (if \<not> af_audio_volume_sync features then Inr a
      else and_then (from_decode (encode_audio_volume_sync volume)) (\<lambda>payload.
           AgentRuntime_queue agent_message_AUDIO_VOLUME_SYNC payload a))"

definition AgentRuntime_accept_command :: "AgentCommand \<Rightarrow> AgentRuntime \<Rightarrow> AgentRuntime client" where
  "AgentRuntime_accept_command command a =
     (if command_generation command \<noteq> ar_generation a \<or> \<not> ar_ready a then Inr (refuse_stale_command command a)
      else
      let features = features_from_capabilities (ar_peer_capabilities a) in
      case command of
        AgentCommand_SyncAudioVolume _ volume \<Rightarrow> accept_volume features volume a
      | AgentCommand_OfferClipboard _ selection types \<Rightarrow> accept_offer features selection types a
      | AgentCommand_ReleaseClipboard _ selection \<Rightarrow> accept_release features selection a
      | AgentCommand_RequestClipboard _ selection clipboard_type response \<Rightarrow>
          accept_read features selection clipboard_type response a
      | AgentCommand_ProvideClipboard _ request_id data \<Rightarrow> accept_provide features request_id data a
      | AgentCommand_StartFile _ metadata response \<Rightarrow> accept_start_file features metadata response a
      | AgentCommand_FileData _ transfer_id data completion \<Rightarrow> accept_file_data transfer_id data completion a
      | AgentCommand_CancelFile _ transfer_id completion \<Rightarrow> accept_cancel_file transfer_id completion a)"

section \<open>Messages of the guest\<close>

definition dispatch_capabilities :: "u8 list \<Rightarrow> AgentRuntime \<Rightarrow> (bool \<times> AgentRuntime) client" where
  "dispatch_capabilities payload a =
     and_then (from_decode (AgentCapabilities_decode payload)) (\<lambda>capabilities.
     let a = a\<lparr>ar_peer_capabilities := ac_capabilities capabilities, ar_ready := True,
               ar_max_clipboard_pending :=
                 CapabilitySet_contains (ac_capabilities capabilities) agent_capability_MAX_CLIPBOARD,
               ar_announce_pending := (ac_request_reply capabilities \<or> ar_announce_pending a)\<rparr> in
     Inr (False, update_sinks (\<lambda>s. s\<lparr>as_state := AgentState_Ready (ar_connection_generation a) (ar_generation a)
       (features_from_capabilities (ar_peer_capabilities a))\<rparr>) a))"

definition dispatch_grab :: "u8 list \<Rightarrow> bool \<Rightarrow> AgentRuntime \<Rightarrow> (bool \<times> AgentRuntime) client" where
  "dispatch_grab payload selection_supported a =
     and_then (from_decode (decode_clipboard_grab payload selection_supported
       (CapabilitySet_contains (ar_peer_capabilities a) agent_capability_CLIPBOARD_GRAB_SERIAL))) (\<lambda>grab.
     let selection = cg_selection grab in
     if (case cg_serial grab of None \<Rightarrow> False | Some serial \<Rightarrow> serial \<noteq> ar_incoming_clipboard_serial a selection)
     then Inr (False, a)
     else
     let a = (case cg_serial grab of
           None \<Rightarrow> a
         | Some _ \<Rightarrow> a\<lparr>ar_incoming_clipboard_serial :=
             (ar_incoming_clipboard_serial a)(selection := ar_incoming_clipboard_serial a selection + 1)\<rparr>);
         a = a\<lparr>ar_offer_revision := ar_offer_revision a + 1\<rparr>;
         offer = \<lparr>co_connection_generation = ar_connection_generation a, co_agent_generation = ar_generation a,
           co_revision = ar_offer_revision a, co_selection = selection, co_types = cg_types grab\<rparr> in
     Inr (False, update_sinks (\<lambda>s. s\<lparr>as_offers := ClipboardOffers_replace offer (as_offers s)\<rparr>) a))"

definition dispatch_release :: "u8 list \<Rightarrow> bool \<Rightarrow> AgentRuntime \<Rightarrow> (bool \<times> AgentRuntime) client" where
  "dispatch_release payload selection_supported a =
     and_then (from_decode (decode_clipboard_release payload selection_supported)) (\<lambda>selection.
     Inr (False, update_sinks (\<lambda>s. s\<lparr>as_offers := ClipboardOffers_clear selection (as_offers s)\<rparr>) a))"

definition dispatch_request :: "u8 list \<Rightarrow> bool \<Rightarrow> InboundAgentCredit \<Rightarrow> AgentRuntime \<Rightarrow> (bool \<times> AgentRuntime) client" where
  "dispatch_request payload selection_supported credit a =
     and_then (from_decode (decode_clipboard_request payload selection_supported)) (\<lambda>request.
     and_then (from_decode (AgentClipboardType_try_from (cr_clipboard_type request))) (\<lambda>clipboard_type.
     if clipboard_type = AgentClipboardType_None
     then client_err (agent_protocol_error STR ''Agent clipboard request type'')
     else
     let request_id = ar_next_request_id a;
         a = a\<lparr>ar_next_request_id := max (request_id + 1) 1,
               ar_pending_host_requests := AList.update request_id (ar_generation a, cr_selection request, clipboard_type)
                 (ar_pending_host_requests a)\<rparr>;
         event = \<lparr>crq_request_id = request_id, crq_connection_generation = ar_connection_generation a,
           crq_agent_generation = ar_generation a, crq_selection = cr_selection request,
           crq_clipboard_type = clipboard_type, crq_credit = credit\<rparr> in
     if \<not> as_events_open (ar_sinks a)
     then Inr (False, a\<lparr>ar_pending_host_requests := AList.delete request_id (ar_pending_host_requests a)\<rparr>)
     else if length (as_events (ar_sinks a)) \<ge> AGENT_EVENT_QUEUE_CAPACITY
     then client_err (agent_resource_error STR ''Agent event queue'')
     else Inr (True, update_sinks (\<lambda>s. s\<lparr>as_events := as_events s @ [event]\<rparr>) a)))"

definition dispatch_data :: "u8 list \<Rightarrow> bool \<Rightarrow> AgentRuntime \<Rightarrow> (bool \<times> AgentRuntime) client" where
  "dispatch_data payload selection_supported a =
     and_then (from_decode (decode_clipboard_data payload selection_supported)) (\<lambda>data.
     and_then (from_decode (AgentClipboardType_try_from (cd_clipboard_type data))) (\<lambda>clipboard_type.
     if length (cd_data data) > MAX_CLIPBOARD_BYTES
     then client_err (agent_resource_error STR ''Agent clipboard data'')
     else
     and_then (validate_clipboard_payload clipboard_type (cd_data data)) (\<lambda>_.
     case map_of (ar_pending_reads a) (cd_selection data) of
       None \<Rightarrow> Inr (False, a)
     | Some pending \<Rightarrow>
         let a = a\<lparr>ar_pending_reads := AList.delete (cd_selection data) (ar_pending_reads a)\<rparr> in
         Inr (False, answer_call (pr_response pending)
           (if pr_generation pending = ar_generation a \<and> pr_clipboard_type pending = clipboard_type
            then Answer_read (Inr (cd_data data)) else Answer_dropped) a))))"

definition finish_transfer :: "u32 \<Rightarrow> FileTransferState \<Rightarrow> AgentRuntime \<Rightarrow> AgentRuntime" where
  "finish_transfer transfer_id state a =
     publish_transfer transfer_id state (a\<lparr>ar_transfers := AList.delete transfer_id (ar_transfers a)\<rparr>)"

definition dispatch_transfer_status :: "u8 list \<Rightarrow> AgentRuntime \<Rightarrow> (bool \<times> AgentRuntime) client" where
  "dispatch_transfer_status payload a =
     and_then (from_decode (decode_file_transfer_status payload)) (\<lambda>status.
     let transfer_id = ft_transfer_id status in
     case map_of (ar_transfers a) transfer_id of
       None \<Rightarrow> Inr (False, a)
     | Some transfer \<Rightarrow>
         if tr_generation transfer \<noteq> ar_generation a then Inr (False, a)
         else case ft_status status of
           AgentFileTransferStatus_CanSendData \<Rightarrow>
             if tr_phase transfer \<noteq> TransferPhase_WaitingForGuest
             then client_err (agent_protocol_error STR ''duplicate Agent file acceptance'')
             else Inr (False, publish_transfer transfer_id (FileTransferState_Sending (tr_accepted_bytes transfer))
                    (a\<lparr>ar_transfers := AList.update transfer_id (transfer\<lparr>tr_phase := TransferPhase_Sending\<rparr>) (ar_transfers a)\<rparr>))
         | AgentFileTransferStatus_Success \<Rightarrow>
             if tr_phase transfer \<noteq> TransferPhase_AwaitingCompletion \<or>
                tr_accepted_bytes transfer \<noteq> tr_total_bytes transfer
             then client_err (agent_protocol_error STR ''early Agent file success'')
             else Inr (False, finish_transfer transfer_id FileTransferState_Completed a)
         | AgentFileTransferStatus_Cancelled \<Rightarrow> Inr (False, finish_transfer transfer_id FileTransferState_Cancelled a)
         | _ \<Rightarrow>
             and_then (from_decode (decode_file_transfer_failure (ft_status status) (ft_detail status))) (\<lambda>failure.
             Inr (False, finish_transfer transfer_id (FileTransferState_Failed failure) a)))"

definition dispatch_volume :: "u8 list \<Rightarrow> AgentRuntime \<Rightarrow> (bool \<times> AgentRuntime) client" where
  "dispatch_volume payload a =
     and_then (from_decode (decode_audio_volume_sync payload)) (\<lambda>volume.
     Inr (False, update_sinks (\<lambda>s. s\<lparr>as_audio_volume :=
       Some \<lparr>avs_connection_generation = ar_connection_generation a, avs_agent_generation = ar_generation a,
         avs_is_playback = av_is_playback volume, avs_muted = av_muted volume, avs_volumes = av_volumes volume\<rparr>\<rparr>) a))"

definition dispatch_devices :: "u8 list \<Rightarrow> AgentRuntime \<Rightarrow> (bool \<times> AgentRuntime) client" where
  "dispatch_devices payload a =
     and_then (from_decode (decode_graphics_device_info payload)) (\<lambda>info.
     Inr (False, update_sinks (\<lambda>s. s\<lparr>as_graphics_devices :=
       Some \<lparr>ags_connection_generation = ar_connection_generation a, ags_agent_generation = ar_generation a,
         ags_displays = gd_displays info\<rparr>\<rparr>) a))"

definition AgentRuntime_dispatch_agent_message ::
    "AgentMessage \<Rightarrow> InboundAgentCredit \<Rightarrow> AgentRuntime \<Rightarrow> (bool \<times> AgentRuntime) client" where
  "AgentRuntime_dispatch_agent_message message credit a =
     (if am_protocol message \<noteq> AGENT_PROTOCOL then Inr (False, a)
      else
      let selection_supported = CapabilitySet_contains (ar_peer_capabilities a) agent_capability_CLIPBOARD_SELECTION;
          message_type = am_message_type message; payload = am_payload message in
      if message_type = agent_message_ANNOUNCE_CAPABILITIES then dispatch_capabilities payload a
      else if message_type = agent_message_CLIPBOARD_GRAB then dispatch_grab payload selection_supported a
      else if message_type = agent_message_CLIPBOARD_RELEASE then dispatch_release payload selection_supported a
      else if message_type = agent_message_CLIPBOARD_REQUEST then dispatch_request payload selection_supported credit a
      else if message_type = agent_message_CLIPBOARD then dispatch_data payload selection_supported a
      else if message_type = agent_message_FILE_TRANSFER_STATUS then dispatch_transfer_status payload a
      else if message_type = agent_message_AUDIO_VOLUME_SYNC then dispatch_volume payload a
      else if message_type = agent_message_GRAPHICS_DEVICE_INFO then dispatch_devices payload a
      else Inr (False, a))"

fun dispatch_agent_messages ::
    "AgentMessage list \<Rightarrow> InboundAgentCredit \<Rightarrow> bool \<Rightarrow> AgentRuntime \<Rightarrow> (bool \<times> AgentRuntime) client" where
  "dispatch_agent_messages [] credit retained a = Inr (retained, a)"
| "dispatch_agent_messages (message # messages) credit retained a =
     and_then (AgentRuntime_dispatch_agent_message message credit a) (\<lambda>(kept, a).
     dispatch_agent_messages messages credit (retained \<or> kept) a)"

definition return_credit :: "InboundAgentCredit \<Rightarrow> AgentRuntime \<Rightarrow> AgentRuntime client" where
  "return_credit credit a =
     and_then (AgentCreditReturns_return_now (ic_generation credit) (as_credit_returns (ar_sinks a))) (\<lambda>credit_returns.
     Inr (update_sinks (\<lambda>s. s\<lparr>as_credit_returns := credit_returns\<rparr>) a))"

definition AgentRuntime_handle_fragment :: "u8 list \<Rightarrow> AgentRuntime \<Rightarrow> AgentRuntime client" where
  "AgentRuntime_handle_fragment body a =
     (if \<not> ar_connected a \<or> ar_inbound_tokens a = 0
      then client_err (agent_protocol_error STR ''Agent data without inbound token'')
      else
      let a = a\<lparr>ar_inbound_tokens := ar_inbound_tokens a - 1\<rparr>;
          (result, decoder, messages) = AgentStreamDecoder_push_fragment_into (ar_decoder a) body [] in
      and_then (from_decode result) (\<lambda>_.
      let credit = \<lparr>ic_generation = ar_generation a, ic_allocation = ar_next_allocation a\<rparr>;
          a = a\<lparr>ar_decoder := decoder, ar_next_allocation := Suc (ar_next_allocation a)\<rparr> in
      and_then (dispatch_agent_messages messages credit False a) (\<lambda>(retained, a).
      if retained then Inr a else return_credit credit a)))"

definition AgentRuntime_handle_server_message ::
    "'c mechanism \<Rightarrow> u16 \<Rightarrow> u8 list \<Rightarrow> AgentRuntime \<Rightarrow> 'c Channel \<Rightarrow> (bool \<times> AgentRuntime \<times> 'c Channel) client" where
  "AgentRuntime_handle_server_message enc message_type body a channel =
     (if message_type = main_server_AGENT_CONNECTED
      then if body \<noteq> [] then client_err (agent_protocol_error STR ''Main Agent Connected body'')
           else and_then (AgentRuntime_begin_generation enc (a\<lparr>ar_connected := True\<rparr>) channel) (\<lambda>(a, channel). Inr (True, a, channel))
      else if message_type = main_server_AGENT_CONNECTED_TOKENS
      then and_then (from_decode (decode_agent_u32 body STR ''Main Agent Connected tokens'')) (\<lambda>tokens.
           and_then (AgentRuntime_begin_generation enc (a\<lparr>ar_outbound_tokens := ucast tokens, ar_connected := True\<rparr>) channel)
             (\<lambda>(a, channel). Inr (True, a, channel)))
      else if message_type = main_server_AGENT_DISCONNECTED
      then and_then (from_decode (decode_agent_u32 body STR ''Main Agent disconnect reason'')) (\<lambda>reason.
           Inr (True, AgentRuntime_disconnect (Some reason) a, channel))
      else if message_type = main_server_AGENT_TOKEN
      then and_then (from_decode (decode_agent_u32 body STR ''Main Agent tokens'')) (\<lambda>tokens.
           and_then (ok_or (agent_resource_error STR ''Agent outbound tokens'')
             (u64_checked_add (ar_outbound_tokens a) (ucast tokens))) (\<lambda>tokens.
           Inr (True, a\<lparr>ar_outbound_tokens := tokens\<rparr>, channel)))
      else if message_type = main_server_AGENT_DATA
      then and_then (AgentRuntime_handle_fragment body a) (\<lambda>a. Inr (True, a, channel))
      else Inr (False, a, channel))"

section \<open>The host's side\<close>

text \<open>The checks a handle makes against the latest published values before it sends a command.\<close>

definition AgentHandle_ready_generation :: "AgentState \<Rightarrow> AgentSendError + u64" where
  "AgentHandle_ready_generation state =
     (if AgentState_is_ready state then Inr (AgentState_agent_generation state) else Inl AgentSendError_Unavailable)"

definition AgentHandle_ready_generation_for_selection :: "AgentState \<Rightarrow> AgentClipboardSelection \<Rightarrow> AgentSendError + u64" where
  "AgentHandle_ready_generation_for_selection state selection =
     (case state of
        AgentState_Ready _ agent_generation features \<Rightarrow>
          if \<not> af_clipboard_by_demand features \<or>
             selection \<noteq> AgentClipboardSelection_Clipboard \<and> \<not> af_clipboard_selection features
          then Inl AgentSendError_Unsupported else Inr agent_generation
      | _ \<Rightarrow> Inl AgentSendError_Unavailable)"

definition encode_failure :: "DecodeError abort \<Rightarrow> AgentSendError" where
  "encode_failure e =
     (case e of Err e \<Rightarrow> if kind e = ResourceLimit then AgentSendError_ResourceLimit else AgentSendError_InvalidData
      | Panic \<Rightarrow> AgentSendError_InvalidData)"

definition AgentHandle_sync_audio_volume :: "AgentState \<Rightarrow> bool \<Rightarrow> bool \<Rightarrow> u16 list \<Rightarrow> AgentSendError + AgentCommand" where
  "AgentHandle_sync_audio_volume state is_playback muted volumes =
     (case state of
        AgentState_Ready _ agent_generation features \<Rightarrow>
          if \<not> af_audio_volume_sync features then Inl AgentSendError_Unsupported
          else let volume = \<lparr>av_is_playback = is_playback, av_muted = muted, av_volumes = volumes\<rparr> in
            (case encode_audio_volume_sync volume of
               Inl e \<Rightarrow> Inl (encode_failure e)
             | Inr _ \<Rightarrow> Inr (AgentCommand_SyncAudioVolume agent_generation volume))
      | _ \<Rightarrow> Inl AgentSendError_Unavailable)"

definition AgentHandle_offer_clipboard ::
    "AgentState \<Rightarrow> AgentClipboardSelection \<Rightarrow> AgentClipboardType list \<Rightarrow> AgentSendError + AgentCommand" where
  "AgentHandle_offer_clipboard state selection types =
     (case AgentHandle_ready_generation_for_selection state selection of
        Inl e \<Rightarrow> Inl e
      | Inr generation \<Rightarrow>
          if types = [] \<or> length types > MAX_AGENT_CLIPBOARD_TYPES \<or> AgentClipboardType_None \<in> set types
          then Inl AgentSendError_InvalidData else Inr (AgentCommand_OfferClipboard generation selection types))"

definition AgentHandle_offer_clipboard_text :: "AgentState \<Rightarrow> AgentClipboardSelection \<Rightarrow> AgentSendError + AgentCommand" where
  "AgentHandle_offer_clipboard_text state selection =
     AgentHandle_offer_clipboard state selection [AgentClipboardType_Utf8Text]"

definition AgentHandle_release_clipboard :: "AgentState \<Rightarrow> AgentClipboardSelection \<Rightarrow> AgentSendError + AgentCommand" where
  "AgentHandle_release_clipboard state selection =
     (case AgentHandle_ready_generation_for_selection state selection of
        Inl e \<Rightarrow> Inl e
      | Inr generation \<Rightarrow> Inr (AgentCommand_ReleaseClipboard generation selection))"

definition AgentHandle_request_clipboard ::
    "AgentState \<Rightarrow> ClipboardOffers \<Rightarrow> AgentClipboardSelection \<Rightarrow> AgentClipboardType \<Rightarrow> nat \<Rightarrow> AgentSendError + AgentCommand" where
  "AgentHandle_request_clipboard state offers selection clipboard_type response =
     (case AgentHandle_ready_generation_for_selection state selection of
        Inl e \<Rightarrow> Inl e
      | Inr generation \<Rightarrow>
          (case offers selection of
             None \<Rightarrow> Inl AgentSendError_Unavailable
           | Some offer \<Rightarrow>
               if \<not> ClipboardOffer_supports offer clipboard_type \<or> clipboard_type = AgentClipboardType_None
               then Inl AgentSendError_Unsupported
               else Inr (AgentCommand_RequestClipboard generation selection clipboard_type response)))"

definition AgentHandle_provide_clipboard :: "AgentState \<Rightarrow> u64 \<Rightarrow> u8 list \<Rightarrow> AgentSendError + AgentCommand" where
  "AgentHandle_provide_clipboard state request_id data =
     (case AgentHandle_ready_generation state of
        Inl e \<Rightarrow> Inl e
      | Inr generation \<Rightarrow>
          if length data > MAX_CLIPBOARD_BYTES then Inl AgentSendError_ResourceLimit
          else Inr (AgentCommand_ProvideClipboard generation request_id data))"

definition AgentHandle_set_monitor_layout :: "AgentState \<Rightarrow> GuestMonitor list \<Rightarrow> AgentSendError + GuestMonitor list" where
  "AgentHandle_set_monitor_layout state monitors =
     (if length monitors > MAX_AGENT_MONITORS then Inl AgentSendError_ResourceLimit
      else if list_ex (\<lambda>monitor. gm_depth monitor = 0 \<or> gm_depth monitor > 32) monitors then Inl AgentSendError_InvalidData
      else if (case state of AgentState_Ready _ _ features \<Rightarrow> \<not> af_sparse_monitors features | _ \<Rightarrow> False) \<and>
              layout_has_empty_monitor monitors
      then Inl AgentSendError_Unsupported
      else Inr monitors)"

definition AgentHandle_start_file_transfer :: "AgentState \<Rightarrow> FileTransferMetadata \<Rightarrow> nat \<Rightarrow> AgentSendError + AgentCommand" where
  "AgentHandle_start_file_transfer state metadata response =
     (case state of
        AgentState_Ready _ agent_generation features \<Rightarrow>
          if af_file_transfer_disabled features then Inl AgentSendError_Unsupported
          else (case encode_file_transfer_start 1 (fm_file_name metadata) (fm_size metadata) of
                  Inl e \<Rightarrow> Inl (encode_failure e)
                | Inr _ \<Rightarrow> Inr (AgentCommand_StartFile agent_generation metadata response))
      | _ \<Rightarrow> Inl AgentSendError_Unavailable)"

subsection \<open>The owner of an outgoing transfer\<close>

record OutgoingFileTransfer =
  ot_transfer_id :: u32
  ot_agent_generation :: u64
  ot_declared_size :: u64
  ot_accepted_bytes :: u64
  ot_terminal :: bool

definition transfer_terminal :: "FileTransferState \<Rightarrow> bool" where
  "transfer_terminal state =
     (case state of
        FileTransferState_Completed \<Rightarrow> True | FileTransferState_Cancelled \<Rightarrow> True
      | FileTransferState_Failed _ \<Rightarrow> True | FileTransferState_AgentDisconnected \<Rightarrow> True | _ \<Rightarrow> False)"

definition OutgoingFileTransfer_changed :: "FileTransferState \<Rightarrow> OutgoingFileTransfer \<Rightarrow> FileTransferState \<times> OutgoingFileTransfer" where
  "OutgoingFileTransfer_changed state t = (state, if transfer_terminal state then t\<lparr>ot_terminal := True\<rparr> else t)"

text \<open>One turn of \<open>wait_until_sending\<close>: nothing means that it waits for the next state.\<close>

definition OutgoingFileTransfer_wait_until_sending :: "FileTransferState \<Rightarrow> (AgentSendError + unit) option" where
  "OutgoingFileTransfer_wait_until_sending current =
     (case current of
        FileTransferState_Sending _ \<Rightarrow> Some (Inr ())
      | FileTransferState_Cancelled \<Rightarrow> Some (Inl AgentSendError_StaleGeneration)
      | FileTransferState_Failed _ \<Rightarrow> Some (Inl AgentSendError_StaleGeneration)
      | FileTransferState_AgentDisconnected \<Rightarrow> Some (Inl AgentSendError_StaleGeneration)
      | FileTransferState_Completed \<Rightarrow> Some (Inl AgentSendError_InvalidData)
      | FileTransferState_AwaitingCompletion _ \<Rightarrow> Some (Inl AgentSendError_InvalidData)
      | FileTransferState_WaitingForGuest \<Rightarrow> None)"

text \<open>The command of \<open>send_chunk\<close>, and the transfer once the runtime has confirmed it.\<close>

definition OutgoingFileTransfer_send_chunk ::
    "u8 list \<Rightarrow> FileTransferState \<Rightarrow> nat \<Rightarrow> OutgoingFileTransfer \<Rightarrow> AgentSendError + AgentCommand \<times> OutgoingFileTransfer" where
  "OutgoingFileTransfer_send_chunk bytes state completion t =
     (if bytes = [] \<or> length bytes > MAX_AGENT_FILE_CHUNK_BYTES \<or>
         \<not> (case state of FileTransferState_Sending _ \<Rightarrow> True | _ \<Rightarrow> False)
      then Inl AgentSendError_InvalidData
      else if length bytes \<ge> 2 ^ 64 then Inl AgentSendError_ResourceLimit
      else case u64_checked_add (ot_accepted_bytes t) (of_nat (length bytes)) of
        None \<Rightarrow> Inl AgentSendError_ResourceLimit
      | Some accepted_bytes \<Rightarrow>
          if \<not> accepted_bytes \<le> ot_declared_size t then Inl AgentSendError_ResourceLimit
          else Inr (AgentCommand_FileData (ot_agent_generation t) (ot_transfer_id t) bytes completion,
                    t\<lparr>ot_accepted_bytes := accepted_bytes\<rparr>))"

text \<open>What \<open>finish_with_state\<close> sends before it waits, one turn of its waiting, and the result \<open>finish\<close> makes of the state.\<close>

definition finish_command :: "nat \<Rightarrow> OutgoingFileTransfer \<Rightarrow> AgentSendError + AgentCommand option" where
  "finish_command completion t =
     (if ot_accepted_bytes t \<noteq> ot_declared_size t then Inl AgentSendError_InvalidData
      else if ot_declared_size t = 0
      then Inr (Some (AgentCommand_FileData (ot_agent_generation t) (ot_transfer_id t) [] completion))
      else Inr None)"

definition OutgoingFileTransfer_finish_with_state ::
    "FileTransferState \<Rightarrow> OutgoingFileTransfer \<Rightarrow> (FileTransferState \<times> OutgoingFileTransfer) option" where
  "OutgoingFileTransfer_finish_with_state current t =
     (if transfer_terminal current then Some (current, t\<lparr>ot_terminal := True\<rparr>) else None)"

definition OutgoingFileTransfer_finish :: "FileTransferState \<Rightarrow> (AgentSendError, unit) outcome" where
  "OutgoingFileTransfer_finish state =
     (case state of
        FileTransferState_Completed \<Rightarrow> Inr ()
      | FileTransferState_Cancelled \<Rightarrow> Inl (Err AgentSendError_StaleGeneration)
      | FileTransferState_AgentDisconnected \<Rightarrow> Inl (Err AgentSendError_StaleGeneration)
      | FileTransferState_Failed _ \<Rightarrow> Inl (Err AgentSendError_InvalidData)
      | _ \<Rightarrow> Inl Panic)"

definition OutgoingFileTransfer_cancel :: "nat \<Rightarrow> OutgoingFileTransfer \<Rightarrow> AgentCommand" where
  "OutgoingFileTransfer_cancel completion t = AgentCommand_CancelFile (ot_agent_generation t) (ot_transfer_id t) completion"

definition OutgoingFileTransfer_drop :: "nat \<Rightarrow> OutgoingFileTransfer \<Rightarrow> AgentCommand option" where
  "OutgoingFileTransfer_drop completion t =
     (if ot_terminal t then None
      else Some (AgentCommand_CancelFile (ot_agent_generation t) (ot_transfer_id t) completion))"

section \<open>The tunnel at work\<close>

text \<open>
  The Main task and the host: the runtime, its channel and layout receiver, the clipboard requests the host has taken and not
  dropped yet, and the calls handed to the runtime so far. An action is one call of the Main task's loop (\<open>run_main\<close> of
  \<open>session.rs\<close>), under the guard of its \<open>select!\<close> branch, or a move of the host; any order of them is a run.
\<close>

record 'c AgentWorld =
  aw_runtime :: AgentRuntime
  aw_channel :: "'c Channel"
  aw_layout :: LayoutWatch
  aw_host :: "ClipboardRequest list"
  aw_calls :: "nat list"

datatype AgentAction =
    Act_prepare
  | Act_server u16 "u8 list"
  | Act_migrated bool u64 "u32 option"
  | Act_send
  | Act_command AgentCommand
  | Act_layout_seen
  | Act_credits
  | Act_host_layout "GuestMonitor list"
  | Act_host_next
  | Act_host_drop nat
  | Act_host_close

fun command_call :: "AgentCommand \<Rightarrow> nat list" where
  "command_call (AgentCommand_RequestClipboard agent_generation selection clipboard_type response) = [response]"
| "command_call (AgentCommand_StartFile agent_generation metadata response) = [response]"
| "command_call (AgentCommand_FileData agent_generation transfer_id data completion) = [completion]"
| "command_call (AgentCommand_CancelFile agent_generation transfer_id completion) = [completion]"
| "command_call command = []"

text \<open>Dropping events: a credit is returned with the last event that holds its allocation.\<close>

definition holds_credit :: "InboundAgentCredit \<Rightarrow> ClipboardRequest list \<Rightarrow> bool" where
  "holds_credit credit events \<longleftrightarrow> list_ex (\<lambda>event. ic_allocation (crq_credit event) = ic_allocation credit) events"

definition release_event :: "ClipboardRequest \<Rightarrow> 'c AgentWorld \<Rightarrow> 'c AgentWorld client" where
  "release_event event w =
     (if holds_credit (crq_credit event) (aw_host w @ as_events (ar_sinks (aw_runtime w))) then Inr w
      else and_then (return_credit (crq_credit event) (aw_runtime w)) (\<lambda>a. Inr (w\<lparr>aw_runtime := a\<rparr>)))"

fun release_events :: "ClipboardRequest list \<Rightarrow> 'c AgentWorld \<Rightarrow> 'c AgentWorld client" where
  "release_events [] w = Inr w"
| "release_events (event # events) w =
     (let w = w\<lparr>aw_runtime := update_sinks (\<lambda>s. s\<lparr>as_events := events\<rparr>) (aw_runtime w)\<rparr> in
      and_then (release_event event w) (release_events events))"

fun agent_step :: "'c mechanism \<Rightarrow> AgentAction \<Rightarrow> 'c AgentWorld \<Rightarrow> 'c AgentWorld client" where
  "agent_step enc Act_prepare w =
     and_then (AgentRuntime_prepare_internal (aw_layout w) (aw_runtime w)) (\<lambda>(a, layout).
     Inr (w\<lparr>aw_runtime := a, aw_layout := layout\<rparr>))"
| "agent_step enc (Act_server message_type body) w =
     and_then (AgentRuntime_handle_server_message enc message_type body (aw_runtime w) (aw_channel w)) (\<lambda>(handled, a, channel).
     Inr (w\<lparr>aw_runtime := a, aw_channel := channel\<rparr>))"
| "agent_step enc (Act_migrated connected outbound_tokens reason) w =
     and_then (AgentRuntime_reinitialize_after_migration enc connected outbound_tokens reason (aw_runtime w) (aw_channel w))
       (\<lambda>(a, channel). Inr (w\<lparr>aw_runtime := a, aw_channel := channel\<rparr>))"
| "agent_step enc Act_send w =
     (if AgentRuntime_can_send (aw_runtime w)
      then and_then (AgentRuntime_send_one enc (aw_runtime w) (aw_channel w)) (\<lambda>(a, channel).
           Inr (w\<lparr>aw_runtime := a, aw_channel := channel\<rparr>))
      else Inr w)"
| "agent_step enc (Act_command command) w =
     (if AgentRuntime_can_accept_command (aw_runtime w)
      then and_then (AgentRuntime_accept_command command (aw_runtime w)) (\<lambda>a.
           Inr (w\<lparr>aw_runtime := a, aw_calls := aw_calls w @ command_call command\<rparr>))
      else Inr w)"
| "agent_step enc Act_layout_seen w =
     Inr (w\<lparr>aw_runtime := AgentRuntime_note_layout_changed (aw_runtime w), aw_layout := (aw_layout w)\<lparr>lw_changed := False\<rparr>\<rparr>)"
| "agent_step enc Act_credits w =
     (if ar_connected (aw_runtime w)
      then and_then (AgentRuntime_send_returned_credits enc (aw_runtime w) (aw_channel w)) (\<lambda>(a, channel).
           Inr (w\<lparr>aw_runtime := a, aw_channel := channel\<rparr>))
      else Inr w)"
| "agent_step enc (Act_host_layout monitors) w =
     Inr (case AgentHandle_set_monitor_layout (as_state (ar_sinks (aw_runtime w))) monitors of
            Inl e \<Rightarrow> w
          | Inr monitors \<Rightarrow> w\<lparr>aw_layout := \<lparr>lw_value = Some monitors, lw_changed = True\<rparr>\<rparr>)"
| "agent_step enc Act_host_next w =
     Inr (case as_events (ar_sinks (aw_runtime w)) of
            [] \<Rightarrow> w
          | event # events \<Rightarrow>
              w\<lparr>aw_runtime := update_sinks (\<lambda>s. s\<lparr>as_events := events\<rparr>) (aw_runtime w), aw_host := aw_host w @ [event]\<rparr>)"
| "agent_step enc (Act_host_drop i) w =
     (if i < length (aw_host w)
      then release_event (aw_host w ! i) (w\<lparr>aw_host := take i (aw_host w) @ drop (Suc i) (aw_host w)\<rparr>)
      else Inr w)"
| "agent_step enc Act_host_close w =
     release_events (as_events (ar_sinks (aw_runtime w)))
       (w\<lparr>aw_runtime := update_sinks (\<lambda>s. s\<lparr>as_events_open := False\<rparr>) (aw_runtime w)\<rparr>)"

fun agent_run :: "'c mechanism \<Rightarrow> AgentAction list \<Rightarrow> 'c AgentWorld \<Rightarrow> 'c AgentWorld client" where
  "agent_run enc [] w = Inr w"
| "agent_run enc (act # acts) w = and_then (agent_step enc act w) (agent_run enc acts)"

definition agent_start :: "'c mechanism \<Rightarrow> u64 \<Rightarrow> bool \<Rightarrow> u64 \<Rightarrow> 'c Channel \<Rightarrow> 'c AgentWorld client" where
  "agent_start enc connection_generation connected outbound_tokens channel =
     and_then (AgentRuntime_new connection_generation connected outbound_tokens (agent_sinks connection_generation)) (\<lambda>a.
     and_then (AgentRuntime_initialize enc a channel) (\<lambda>(a, channel).
     Inr \<lparr>aw_runtime = a, aw_channel = channel, aw_layout = \<lparr>lw_value = None, lw_changed = False\<rparr>, aw_host = [], aw_calls = []\<rparr>))"

end
