(* ===== verification/Client_AgentFlow.thy ===== *)
theory Client_AgentFlow
  imports Client_Agent Client_Control
begin

text \<open>
  Flow control of the Agent tunnel: the credits of inbound fragments. At any moment the tokens the guest still has, the credits
  waiting to be returned and the credits held by undelivered or undropped clipboard requests make up the receive window of ten.
\<close>

named_theorems agent_frames \<open>which parts of the Agent runtime an operation leaves alone\<close>

section \<open>The cases of the larger operations\<close>

lemma accept_start_file_cases:
  assumes "accept_start_file features metadata response a = Inr a'"
  obtains (refused) e where "a' = answer_call response (Answer_transfer (Inl e)) a"
  | (invalid) transfer_id b where "AgentRuntime_allocate_transfer_id a = Inr (transfer_id, b)"
      "a' = answer_call response (Answer_transfer (Inl AgentSendError_InvalidData)) b"
  | (started) transfer_id b payload c where "length (ar_transfers a) < 8" "AgentRuntime_allocate_transfer_id a = Inr (transfer_id, b)"
      "AgentRuntime_queue agent_message_FILE_TRANSFER_START payload
         (publish_transfer transfer_id FileTransferState_WaitingForGuest
           (b\<lparr>ar_transfers := AList.update transfer_id \<lparr>tr_generation = ar_generation b, tr_total_bytes = fm_size metadata,
              tr_accepted_bytes = 0, tr_phase = TransferPhase_WaitingForGuest\<rparr> (ar_transfers b)\<rparr>)) = Inr c"
      "a' = answer_call response (Answer_transfer (Inr transfer_id)) c"
proof (cases "af_file_transfer_disabled features \<or> length (ar_transfers a) \<ge> 8")
  case True
  then show thesis using assms refused by (auto simp: accept_start_file_def)
next
  case False
  then obtain transfer_id b where b: "AgentRuntime_allocate_transfer_id a = Inr (transfer_id, b)"
    using assms by (auto simp: accept_start_file_def)
  show thesis
  proof (cases "encode_file_transfer_start transfer_id (fm_file_name metadata) (fm_size metadata)")
    case (Inl e)
    then show thesis using assms False b invalid by (cases e) (auto simp: accept_start_file_def)
  next
    case (Inr payload)
    then show thesis using assms False b started by (auto simp: accept_start_file_def Let_def)
  qed
qed

lemma dispatch_transfer_status_cases:
  assumes "dispatch_transfer_status payload a = Inr (kept, a')"
  obtains (ignored) "\<not> kept" "a' = a"
  | (accepted) transfer_id t where "\<not> kept" "map_of (ar_transfers a) transfer_id = Some t" "tr_generation t = ar_generation a"
      "tr_phase t = TransferPhase_WaitingForGuest"
      "a' = publish_transfer transfer_id (FileTransferState_Sending (tr_accepted_bytes t))
         (a\<lparr>ar_transfers := AList.update transfer_id (t\<lparr>tr_phase := TransferPhase_Sending\<rparr>) (ar_transfers a)\<rparr>)"
  | (finished) transfer_id t state where "\<not> kept" "map_of (ar_transfers a) transfer_id = Some t" "tr_generation t = ar_generation a"
      "transfer_terminal state" "state = FileTransferState_Completed \<Longrightarrow>
         tr_phase t = TransferPhase_AwaitingCompletion \<and> tr_accepted_bytes t = tr_total_bytes t"
      "a' = finish_transfer transfer_id state a"
proof -
  from assms obtain status where status: "decode_file_transfer_status payload = Inr status"
    by (auto simp: dispatch_transfer_status_def)
  show thesis
  proof (cases "map_of (ar_transfers a) (ft_transfer_id status)")
    case None
    then show thesis using assms status ignored by (auto simp: dispatch_transfer_status_def Let_def)
  next
    case (Some t)
    show thesis
    proof (cases "tr_generation t = ar_generation a")
      case False
      then show thesis using assms status Some ignored by (auto simp: dispatch_transfer_status_def Let_def)
    next
      case True
      show thesis
      proof (cases "ft_status status = AgentFileTransferStatus_CanSendData")
        case can_send: True
        then show thesis using assms status Some True accepted
          by (auto simp: dispatch_transfer_status_def Let_def split: if_split_asm)
      next
        case False
        then have "\<exists>state. \<not> kept \<and> transfer_terminal state \<and> (state = FileTransferState_Completed \<longrightarrow>
            tr_phase t = TransferPhase_AwaitingCompletion \<and> tr_accepted_bytes t = tr_total_bytes t) \<and>
            a' = finish_transfer (ft_transfer_id status) state a"
          using assms status Some True
          by (cases "ft_status status") (force simp: dispatch_transfer_status_def Let_def transfer_terminal_def split: if_split_asm)+
        then show thesis using finished [OF _ Some True] by blast
      qed
    qed
  qed
qed

section \<open>Flow control of inbound fragments\<close>

text \<open>The part of the runtime that the flow control of inbound fragments is about.\<close>

definition flow_part :: "AgentRuntime \<Rightarrow> u64 \<times> bool \<times> u32 \<times> nat \<times> AgentCreditReturns \<times> ClipboardRequest list" where
  "flow_part a = (ar_generation a, ar_connected a, ar_inbound_tokens a, ar_next_allocation a,
     as_credit_returns (ar_sinks a), as_events (ar_sinks a))"

lemma flow_part_sinks [simp]:
  "flow_part (answer_call call answer a) = flow_part a" "flow_part (publish_transfer transfer_id state a) = flow_part a"
  "flow_part (finish_transfer transfer_id state a) = flow_part a"
  "flow_part (mark_offer_sent selection a) = flow_part a" "flow_part (AgentRuntime_note_layout_changed a) = flow_part a"
  "flow_part (refuse_stale_command command a) = flow_part a"
  by (simp_all add: flow_part_def answer_call_def publish_transfer_def finish_transfer_def mark_offer_sent_def
      AgentRuntime_note_layout_changed_def) (cases command; simp add: answer_call_def)

lemma flow_part_updates [simp]:
  "flow_part (a\<lparr>ar_outbound := x1\<rparr>) = flow_part a" "flow_part (a\<lparr>ar_outbound_completion := x2\<rparr>) = flow_part a"
  "flow_part (a\<lparr>ar_transfers := x3\<rparr>) = flow_part a" "flow_part (a\<lparr>ar_pending_reads := x4\<rparr>) = flow_part a"
  "flow_part (a\<lparr>ar_pending_host_requests := x5\<rparr>) = flow_part a" "flow_part (a\<lparr>ar_desired_clipboard_offers := x6\<rparr>) = flow_part a"
  "flow_part (a\<lparr>ar_outgoing_clipboard_serial := x7\<rparr>) = flow_part a" "flow_part (a\<lparr>ar_announce_pending := x8\<rparr>) = flow_part a"
  "flow_part (a\<lparr>ar_max_clipboard_pending := x9\<rparr>) = flow_part a" "flow_part (a\<lparr>ar_next_transfer_id := x10\<rparr>) = flow_part a"
  "flow_part (a\<lparr>ar_outbound_tokens := x11\<rparr>) = flow_part a"
  "flow_part (a\<lparr>ar_next_request_id := x14\<rparr>) = flow_part a" "flow_part (a\<lparr>ar_incoming_clipboard_serial := x15\<rparr>) = flow_part a"
  "flow_part (a\<lparr>ar_offer_revision := x16\<rparr>) = flow_part a" "flow_part (a\<lparr>ar_peer_capabilities := x17\<rparr>) = flow_part a"
  "flow_part (a\<lparr>ar_ready := x18\<rparr>) = flow_part a"
  "flow_part (a\<lparr>ar_sinks := (ar_sinks a)\<lparr>as_state := y1\<rparr>\<rparr>) = flow_part a"
  "flow_part (a\<lparr>ar_sinks := (ar_sinks a)\<lparr>as_offers := y2\<rparr>\<rparr>) = flow_part a"
  "flow_part (a\<lparr>ar_sinks := (ar_sinks a)\<lparr>as_audio_volume := y3\<rparr>\<rparr>) = flow_part a"
  "flow_part (a\<lparr>ar_sinks := (ar_sinks a)\<lparr>as_graphics_devices := y4\<rparr>\<rparr>) = flow_part a"
  "flow_part (a\<lparr>ar_sent_layout_generation := x12, ar_layout_dirty := x13\<rparr>) = flow_part a"
  by (simp_all add: flow_part_def)

lemma queue_flow [agent_frames]: "AgentRuntime_queue t p a = Inr a' \<Longrightarrow> flow_part a' = flow_part a"
  by (auto simp: AgentRuntime_queue_def split: if_splits)

lemma queue_with_completion_flow [agent_frames]:
  "AgentRuntime_queue_with_completion t p c a = Inr a' \<Longrightarrow> flow_part a' = flow_part a"
  by (auto simp: AgentRuntime_queue_with_completion_def dest: queue_flow)

lemma take_grab_serial_flow: "take_grab_serial features selection a = (serial, a') \<Longrightarrow> flow_part a' = flow_part a"
  by (auto simp: take_grab_serial_def Let_def split: if_splits)

lemma allocate_loop_flow: "allocate_transfer_id_loop n a = Inr (transfer_id, a') \<Longrightarrow> flow_part a' = flow_part a"
  by (induction n arbitrary: a) (auto simp: Let_def split: if_splits)

lemma allocate_flow: "AgentRuntime_allocate_transfer_id a = Inr (transfer_id, a') \<Longrightarrow> flow_part a' = flow_part a"
  unfolding AgentRuntime_allocate_transfer_id_def by (rule allocate_loop_flow)

lemma prepare_layout_flow [agent_frames]: "prepare_layout desired a = Inr a' \<Longrightarrow> flow_part a' = flow_part a"
  by (auto simp: prepare_layout_def Let_def split: if_splits option.splits dest!: queue_flow)

lemma prepare_offers_flow [agent_frames]: "prepare_offers features selections a = Inr a' \<Longrightarrow> flow_part a' = flow_part a"
  by (induction features selections a rule: prepare_offers.induct)
     (auto split: if_splits option.splits prod.splits dest!: queue_flow take_grab_serial_flow)

lemma prepare_internal_flow [agent_frames]:
  "AgentRuntime_prepare_internal layout a = Inr (a', layout') \<Longrightarrow> flow_part a' = flow_part a"
  by (auto simp: AgentRuntime_prepare_internal_def simp del: prepare_offers.simps split: if_splits
      dest!: queue_flow prepare_layout_flow prepare_offers_flow)

lemma accept_offer_flow: "accept_offer features selection types a = Inr a' \<Longrightarrow> flow_part a' = flow_part a"
  by (auto simp: accept_offer_def Let_def split: if_split_asm prod.split_asm dest!: queue_flow take_grab_serial_flow)

lemma accept_release_flow: "accept_release features selection a = Inr a' \<Longrightarrow> flow_part a' = flow_part a"
  by (auto simp: accept_release_def Let_def split: if_split_asm dest!: queue_flow)

lemma accept_read_flow: "accept_read features selection clipboard_type response a = Inr a' \<Longrightarrow> flow_part a' = flow_part a"
  by (auto simp: accept_read_def Let_def split: if_split_asm dest!: queue_flow)

lemma accept_provide_flow: "accept_provide features request_id data a = Inr a' \<Longrightarrow> flow_part a' = flow_part a"
  by (auto simp: accept_provide_def Let_def split: if_split_asm option.split_asm prod.split_asm dest!: queue_flow)

lemma accept_start_file_flow: "accept_start_file features metadata response a = Inr a' \<Longrightarrow> flow_part a' = flow_part a"
  by (erule accept_start_file_cases) (auto dest!: queue_flow allocate_flow)

lemma accept_file_data_flow: "accept_file_data transfer_id data completion a = Inr a' \<Longrightarrow> flow_part a' = flow_part a"
  by (auto simp: accept_file_data_def Let_def split: if_split_asm option.split_asm sum.split_asm abort.split_asm dest!: queue_with_completion_flow)

lemma accept_cancel_file_flow: "accept_cancel_file transfer_id completion a = Inr a' \<Longrightarrow> flow_part a' = flow_part a"
  by (auto simp: accept_cancel_file_def Let_def split: option.split_asm dest!: queue_with_completion_flow)

lemma accept_volume_flow: "accept_volume features volume a = Inr a' \<Longrightarrow> flow_part a' = flow_part a"
  by (auto simp: accept_volume_def Let_def split: if_split_asm dest!: queue_flow)

lemmas accept_flow = accept_offer_flow accept_release_flow accept_read_flow accept_provide_flow accept_start_file_flow
  accept_file_data_flow accept_cancel_file_flow accept_volume_flow

lemma accept_command_flow [agent_frames]: "AgentRuntime_accept_command command a = Inr a' \<Longrightarrow> flow_part a' = flow_part a"
  by (auto simp: AgentRuntime_accept_command_def Let_def split: if_split_asm AgentCommand.split_asm dest: accept_flow)

lemma send_one_flow [agent_frames]: "AgentRuntime_send_one enc a ch = Inr (a', ch') \<Longrightarrow> flow_part a' = flow_part a"
  by (auto simp: AgentRuntime_send_one_def Let_def split: if_splits option.splits)

text \<open>Only clipboard requests hold on to the credit of their fragment: each queues one event with it.\<close>

definition flow_grown :: "InboundAgentCredit \<Rightarrow> bool \<Rightarrow> AgentRuntime \<Rightarrow> AgentRuntime \<Rightarrow> bool" where
  "flow_grown credit kept a a' \<longleftrightarrow>
     (\<exists>events. flow_part a' = (ar_generation a, ar_connected a, ar_inbound_tokens a, ar_next_allocation a,
        as_credit_returns (ar_sinks a), as_events (ar_sinks a) @ events) \<and>
      (\<forall>event \<in> set events. crq_credit event = credit) \<and> (kept \<longleftrightarrow> events \<noteq> []))"

lemma flow_grown_same: "flow_part a' = flow_part a \<Longrightarrow> flow_grown credit False a a'"
  by (auto simp: flow_grown_def flow_part_def)

lemma dispatch_capabilities_flow: "dispatch_capabilities payload a = Inr (kept, a') \<Longrightarrow> \<not> kept \<and> flow_part a' = flow_part a"
  by (auto simp: dispatch_capabilities_def flow_part_def answer_call_def publish_transfer_def finish_transfer_def Let_def
      split: if_split_asm option.split_asm AgentFileTransferStatus.split_asm)

lemma dispatch_grab_flow: "dispatch_grab payload ss a = Inr (kept, a') \<Longrightarrow> \<not> kept \<and> flow_part a' = flow_part a"
  by (auto simp: dispatch_grab_def flow_part_def answer_call_def publish_transfer_def finish_transfer_def Let_def
      split: if_split_asm option.split_asm AgentFileTransferStatus.split_asm)

lemma dispatch_release_flow: "dispatch_release payload ss a = Inr (kept, a') \<Longrightarrow> \<not> kept \<and> flow_part a' = flow_part a"
  by (auto simp: dispatch_release_def flow_part_def answer_call_def publish_transfer_def finish_transfer_def Let_def
      split: if_split_asm option.split_asm AgentFileTransferStatus.split_asm)

lemma dispatch_data_flow: "dispatch_data payload ss a = Inr (kept, a') \<Longrightarrow> \<not> kept \<and> flow_part a' = flow_part a"
  by (auto simp: dispatch_data_def flow_part_def answer_call_def publish_transfer_def finish_transfer_def Let_def
      split: if_split_asm option.split_asm AgentFileTransferStatus.split_asm)

lemma dispatch_transfer_status_flow: "dispatch_transfer_status payload a = Inr (kept, a') \<Longrightarrow> \<not> kept \<and> flow_part a' = flow_part a"
  by (erule dispatch_transfer_status_cases) auto

lemma dispatch_volume_flow: "dispatch_volume payload a = Inr (kept, a') \<Longrightarrow> \<not> kept \<and> flow_part a' = flow_part a"
  by (auto simp: dispatch_volume_def flow_part_def answer_call_def publish_transfer_def finish_transfer_def Let_def
      split: if_split_asm option.split_asm AgentFileTransferStatus.split_asm)

lemma dispatch_devices_flow: "dispatch_devices payload a = Inr (kept, a') \<Longrightarrow> \<not> kept \<and> flow_part a' = flow_part a"
  by (auto simp: dispatch_devices_def flow_part_def answer_call_def publish_transfer_def finish_transfer_def Let_def
      split: if_split_asm option.split_asm AgentFileTransferStatus.split_asm)

lemmas dispatch_flow = dispatch_capabilities_flow dispatch_grab_flow dispatch_release_flow dispatch_data_flow
  dispatch_transfer_status_flow dispatch_volume_flow dispatch_devices_flow

lemma dispatch_request_flow:
  "dispatch_request payload ss credit a = Inr (kept, a') \<Longrightarrow> flow_grown credit kept a a'"
  by (auto simp: dispatch_request_def flow_grown_def flow_part_def Let_def split: if_splits)

lemma dispatch_message_flow:
  "AgentRuntime_dispatch_agent_message message credit a = Inr (kept, a') \<Longrightarrow> flow_grown credit kept a a'"
  by (auto simp: AgentRuntime_dispatch_agent_message_def Let_def split: if_splits
      dest!: dispatch_flow dispatch_request_flow intro: flow_grown_same)

lemma flow_grown_trans:
  "flow_grown credit k1 a b \<Longrightarrow> flow_grown credit k2 b c \<Longrightarrow> flow_grown credit (k1 \<or> k2) a c"
proof -
  assume "flow_grown credit k1 a b" "flow_grown credit k2 b c"
  then obtain e1 e2 where "flow_part b = (ar_generation a, ar_connected a, ar_inbound_tokens a, ar_next_allocation a,
      as_credit_returns (ar_sinks a), as_events (ar_sinks a) @ e1)" "\<forall>event \<in> set e1. crq_credit event = credit" "k1 = (e1 \<noteq> [])"
    "flow_part c = (ar_generation b, ar_connected b, ar_inbound_tokens b, ar_next_allocation b,
      as_credit_returns (ar_sinks b), as_events (ar_sinks b) @ e2)" "\<forall>event \<in> set e2. crq_credit event = credit" "k2 = (e2 \<noteq> [])"
    by (auto simp: flow_grown_def)
  then show ?thesis unfolding flow_grown_def by (intro exI [of _ "e1 @ e2"]) (auto simp: flow_part_def)
qed

lemma dispatch_messages_flow:
  "dispatch_agent_messages messages credit retained a = Inr (retained', a') \<Longrightarrow>
     \<exists>kept. retained' = (retained \<or> kept) \<and> flow_grown credit kept a a'"
proof (induction messages arbitrary: retained a)
  case Nil
  then have "retained' = (retained \<or> False) \<and> flow_grown credit False a a'" by (simp add: flow_grown_same)
  then show ?case by blast
next
  case (Cons message messages)
  then obtain kept b where step: "AgentRuntime_dispatch_agent_message message credit a = Inr (kept, b)"
    and rest: "dispatch_agent_messages messages credit (retained \<or> kept) b = Inr (retained', a')" by auto
  from Cons.IH [OF rest] obtain k where k: "retained' = ((retained \<or> kept) \<or> k)" "flow_grown credit k b a'" by blast
  show ?case
    using flow_grown_trans [OF dispatch_message_flow [OF step] k(2)] k(1) by (intro exI [of _ "kept \<or> k"]) simp
qed

section \<open>The receive window\<close>

text \<open>The allocations of credits of a generation that some event still holds, and the window: inbound tokens, credits waiting to
  be returned and credits held by events of the current generation always make up the whole window.\<close>

definition held_credits :: "u64 \<Rightarrow> ClipboardRequest list \<Rightarrow> nat set" where
  "held_credits generation events =
     (\<lambda>event. ic_allocation (crq_credit event)) ` {event \<in> set events. ic_generation (crq_credit event) = generation}"

definition live_events :: "'c AgentWorld \<Rightarrow> ClipboardRequest list" where
  "live_events w = aw_host w @ as_events (ar_sinks (aw_runtime w))"

definition window_used :: "'c AgentWorld \<Rightarrow> nat" where
  "window_used w = unat (ar_inbound_tokens (aw_runtime w)) + unat (cr_pending (as_credit_returns (ar_sinks (aw_runtime w)))) +
     card (held_credits (ar_generation (aw_runtime w)) (live_events w))"

definition window_ok :: "'c AgentWorld \<Rightarrow> bool" where
  "window_ok w \<longleftrightarrow>
     cr_generation (as_credit_returns (ar_sinks (aw_runtime w))) = ar_generation (aw_runtime w) \<and>
     (if ar_connected (aw_runtime w) then window_used w = 10 else window_used w \<le> 10) \<and>
     (\<forall>event \<in> set (live_events w). ic_allocation (crq_credit event) < ar_next_allocation (aw_runtime w) \<and>
        ic_generation (crq_credit event) \<le> ar_generation (aw_runtime w))"

lemma window_ok_flow:
  "window_ok w \<Longrightarrow> flow_part a = flow_part (aw_runtime w) \<Longrightarrow> aw_host w' = aw_host w \<Longrightarrow> aw_runtime w' = a \<Longrightarrow> window_ok w'"
  by (auto simp: window_ok_def window_used_def live_events_def flow_part_def)
lemma next_generation: "g \<noteq> -1 \<Longrightarrow> max (g + 1) 1 = g + 1 \<and> unat (g + 1) = Suc (unat g)" for g :: u64
proof -
  assume "g \<noteq> -1"
  then have nz: "1 + g \<noteq> 0" by (metis add.commute eq_neg_iff_add_eq_0)
  then have "unat (1 + g) = Suc (unat g)" by (rule unatSuc)
  then show ?thesis by (auto simp: max_def word_le_nat_alt add.commute unat_eq_zero)
qed

lemma fail_flow [simp]:
  "flow_part (AgentRuntime_fail_pending_reads error a) = flow_part a" "flow_part (AgentRuntime_fail_transfers a) = flow_part a"
  "flow_part (fail_outbound_completion a) = flow_part a"
  by (auto simp: flow_part_def AgentRuntime_fail_pending_reads_def AgentRuntime_fail_transfers_def fail_outbound_completion_def
      answer_call_def split: option.split)

lemma begin_generation_flow:
  assumes "AgentRuntime_begin_generation enc a ch = Inr (a', ch')"
  shows "flow_part a' = (max (ar_generation a + 1) 1, ar_connected a, 10, ar_next_allocation a,
     \<lparr>cr_generation = max (ar_generation a + 1) 1, cr_pending = 0\<rparr>, as_events (ar_sinks a))"
proof -
  define b where "b = fail_outbound_completion (AgentRuntime_fail_transfers (AgentRuntime_fail_pending_reads AgentSendError_StaleGeneration a))"
  have "flow_part b = flow_part a" by (simp add: b_def)
  moreover have "flow_part a' = (max (ar_generation b + 1) 1, ar_connected b, 10, ar_next_allocation b,
     \<lparr>cr_generation = max (ar_generation b + 1) 1, cr_pending = 0\<rparr>, as_events (ar_sinks b))"
    using assms unfolding AgentRuntime_begin_generation_def b_def [symmetric] Let_def
    by (auto simp: flow_part_def AgentCreditReturns_reset_def)
  ultimately show ?thesis by (simp add: flow_part_def)
qed

lemma disconnect_flow:
  "flow_part (AgentRuntime_disconnect reason a) =
     (ar_generation a, False, 0, ar_next_allocation a, as_credit_returns (ar_sinks a), as_events (ar_sinks a))"
  by (simp add: AgentRuntime_disconnect_def Let_def flow_part_def AgentRuntime_fail_pending_reads_def AgentRuntime_fail_transfers_def
      fail_outbound_completion_def answer_call_def split: option.split)

lemma held_credits_append: "held_credits g (xs @ ys) = held_credits g xs \<union> held_credits g ys"
  by (auto simp: held_credits_def)

lemma held_credits_newer: "\<forall>event \<in> set events. ic_generation (crq_credit event) < g \<Longrightarrow> held_credits g events = {}"
  by (auto simp: held_credits_def)

lemma finite_held_credits [simp]: "finite (held_credits g events)"
  by (simp add: held_credits_def)

lemma window_begin:
  assumes ok: "window_ok w" and g: "ar_generation (aw_runtime w) \<noteq> -1"
    and step: "AgentRuntime_begin_generation enc a ch = Inr (a', ch')"
    and a: "ar_generation a = ar_generation (aw_runtime w)" "ar_connected a" "ar_next_allocation a = ar_next_allocation (aw_runtime w)"
      "as_events (ar_sinks a) = as_events (ar_sinks (aw_runtime w))"
    and w': "aw_host w' = aw_host w" "aw_runtime w' = a'"
  shows "window_ok w' \<and> unat (ar_generation a') = Suc (unat (ar_generation (aw_runtime w)))"
proof -
  let ?g = "ar_generation (aw_runtime w)"
  have new: "flow_part a' = (?g + 1, True, 10, ar_next_allocation (aw_runtime w), \<lparr>cr_generation = ?g + 1, cr_pending = 0\<rparr>,
      as_events (ar_sinks (aw_runtime w)))"
    using begin_generation_flow [OF step] a next_generation [OF g] by simp
  have live: "live_events w' = live_events w" using new w' by (simp add: live_events_def flow_part_def)
  have less: "?g < ?g + 1" using next_generation [OF g] by (simp add: word_less_nat_alt)
  then have "\<forall>event \<in> set (live_events w). ic_generation (crq_credit event) < ?g + 1"
    using ok by (auto simp: window_ok_def intro: le_less_trans)
  then have "held_credits (?g + 1) (live_events w) = {}" by (rule held_credits_newer)
  then show ?thesis
    using ok new live w' next_generation [OF g] less by (auto simp: window_ok_def window_used_def flow_part_def intro: less_imp_le order_trans)
qed

lemma window_disconnect:
  assumes "window_ok w" "flow_part a = flow_part (AgentRuntime_disconnect reason (aw_runtime w))" "aw_host w' = aw_host w" "aw_runtime w' = a"
  shows "window_ok w'"
proof -
  have "flow_part (aw_runtime w') = (ar_generation (aw_runtime w), False, 0, ar_next_allocation (aw_runtime w),
      as_credit_returns (ar_sinks (aw_runtime w)), as_events (ar_sinks (aw_runtime w)))"
    using assms(2,4) disconnect_flow by simp
  then show ?thesis
    using assms(1,3) by (auto simp: window_ok_def window_used_def live_events_def flow_part_def split: if_split_asm)
qed
lemma return_now_Inr:
  assumes "unat (cr_pending cr) < 10"
  shows "AgentCreditReturns_return_now g cr = Inr (if cr_generation cr = g then cr\<lparr>cr_pending := cr_pending cr + 1\<rparr> else cr)"
    "unat (cr_pending cr + 1) = Suc (unat (cr_pending cr))"
proof -
  show "unat (cr_pending cr + 1) = Suc (unat (cr_pending cr))"
    using unat_add_lem [of "cr_pending cr" 1] assms by simp
  show "AgentCreditReturns_return_now g cr = Inr (if cr_generation cr = g then cr\<lparr>cr_pending := cr_pending cr + 1\<rparr> else cr)"
    using assms by (simp add: AgentCreditReturns_return_now_def u32_checked_add_def)
qed

lemma return_credit_flow:
  assumes "unat (cr_pending (as_credit_returns (ar_sinks a))) < 10"
  shows "\<exists>a'. return_credit credit a = Inr a' \<and> flow_part a' = (ar_generation a, ar_connected a, ar_inbound_tokens a, ar_next_allocation a,
     if cr_generation (as_credit_returns (ar_sinks a)) = ic_generation credit
     then (as_credit_returns (ar_sinks a))\<lparr>cr_pending := cr_pending (as_credit_returns (ar_sinks a)) + 1\<rparr>
     else as_credit_returns (ar_sinks a), as_events (ar_sinks a))"
  by (simp add: return_credit_def return_now_Inr(1) [OF assms] flow_part_def)

lemma unat_pred: "x \<noteq> 0 \<Longrightarrow> Suc (unat (x - 1)) = unat x" for x :: u32
proof -
  assume "x \<noteq> 0"
  moreover from this have "0 < unat x" by (simp add: unat_gt_0)
  ultimately show ?thesis by (simp add: unat_minus_one)
qed

lemma held_credits_same:
  "\<forall>event \<in> set events. crq_credit event = credit \<Longrightarrow>
     held_credits g events = (if events \<noteq> [] \<and> ic_generation credit = g then {ic_allocation credit} else {})"
  by (cases events) (auto simp: held_credits_def image_iff)

lemma window_fragment:
  assumes ok: "window_ok w" and step: "AgentRuntime_handle_fragment body (aw_runtime w) = Inr a'"
    and w': "aw_host w' = aw_host w" "aw_runtime w' = a'"
  shows "window_ok w' \<and> ar_generation a' = ar_generation (aw_runtime w) \<and>
    (\<forall>e \<in> set (live_events w'). e \<in> set (live_events w) \<or>
       crq_credit e = \<lparr>ic_generation = ar_generation (aw_runtime w), ic_allocation = ar_next_allocation (aw_runtime w)\<rparr>)"
proof -
  let ?a = "aw_runtime w" let ?g = "ar_generation (aw_runtime w)" let ?n = "ar_next_allocation (aw_runtime w)"
  let ?credit = "\<lparr>ic_generation = ?g, ic_allocation = ?n\<rparr>" let ?cr = "as_credit_returns (ar_sinks (aw_runtime w))"
  obtain decoder messages where guard: "ar_connected ?a" "ar_inbound_tokens ?a \<noteq> 0"
    and pushed: "AgentStreamDecoder_push_fragment_into (ar_decoder ?a) body [] = (Inr (), decoder, messages)"
    using step by (auto simp: AgentRuntime_handle_fragment_def Let_def split: if_split_asm prod.split_asm)
  let ?b = "?a\<lparr>ar_inbound_tokens := ar_inbound_tokens ?a - 1, ar_decoder := decoder, ar_next_allocation := Suc ?n\<rparr>"
  obtain retained c where c: "dispatch_agent_messages messages ?credit False ?b = Inr (retained, c)"
    and fin: "retained \<and> c = a' \<or> \<not> retained \<and> return_credit ?credit c = Inr a'"
    using step guard pushed by (auto simp: AgentRuntime_handle_fragment_def Let_def split: if_split_asm)
  obtain events where flow: "flow_part c = (?g, True, ar_inbound_tokens ?a - 1, Suc ?n, ?cr, as_events (ar_sinks ?a) @ events)"
    and credits: "\<forall>event \<in> set events. crq_credit event = ?credit" and retained: "retained \<longleftrightarrow> events \<noteq> []"
    using dispatch_messages_flow [OF c] guard(1) by (auto simp: flow_grown_def)
  have total: "unat (ar_inbound_tokens ?a) + unat (cr_pending ?cr) + card (held_credits ?g (live_events w)) = 10"
    and gen: "cr_generation ?cr = ?g"
    using ok guard(1) by (auto simp: window_ok_def window_used_def)
  have fresh: "?n \<notin> held_credits ?g (live_events w)" using ok by (auto simp: window_ok_def held_credits_def)
  show ?thesis
  proof (cases retained)
    case True
    then have c': "c = a'" using fin by simp
    have "held_credits ?g (live_events w') = insert ?n (held_credits ?g (live_events w))"
      using flow held_credits_same [OF credits, of ?g] retained True w' c' by (auto simp: live_events_def held_credits_append flow_part_def)
    then show ?thesis
      using ok flow w' c' total fresh unat_pred [OF guard(2)] credits gen
      by (auto simp: window_ok_def window_used_def flow_part_def live_events_def intro: less_SucI)
  next
    case False
    have pending: "unat (cr_pending (as_credit_returns (ar_sinks c))) < 10"
      using flow total guard(2) by (auto simp: flow_part_def unat_gt_0 [symmetric])
    obtain "flow_part a' = (?g, True, ar_inbound_tokens ?a - 1, Suc ?n, ?cr\<lparr>cr_pending := cr_pending ?cr + 1\<rparr>, as_events (ar_sinks ?a))"
      using return_credit_flow [OF pending, of ?credit] fin False flow retained gen by (auto simp: flow_part_def)
    moreover have "unat (cr_pending ?cr + 1) = Suc (unat (cr_pending ?cr))"
      using return_now_Inr(2) [of ?cr] pending flow by (auto simp: flow_part_def)
    ultimately show ?thesis
      using ok w' total unat_pred [OF guard(2)] gen
      by (auto simp: window_ok_def window_used_def flow_part_def live_events_def intro: less_SucI)
  qed
qed

lemma window_credits:
  assumes ok: "window_ok w" and conn: "ar_connected (aw_runtime w)"
    and step: "AgentRuntime_send_returned_credits enc (aw_runtime w) ch = Inr (a', ch')"
    and w': "aw_host w' = aw_host w" "aw_runtime w' = a'"
  shows "window_ok w' \<and> ar_generation a' = ar_generation (aw_runtime w)"
proof -
  let ?a = "aw_runtime w" let ?cr = "as_credit_returns (ar_sinks (aw_runtime w))"
  have total: "unat (ar_inbound_tokens ?a) + unat (cr_pending ?cr) + card (held_credits (ar_generation ?a) (live_events w)) = 10"
    and gen: "cr_generation ?cr = ar_generation ?a"
    using ok conn by (auto simp: window_ok_def window_used_def)
  then have sum: "unat (ar_inbound_tokens ?a + cr_pending ?cr) = unat (ar_inbound_tokens ?a) + unat (cr_pending ?cr)"
    by (subst unat_add_lem [symmetric]) simp
  have "flow_part a' = (ar_generation ?a, True, ar_inbound_tokens ?a + cr_pending ?cr, ar_next_allocation ?a, ?cr\<lparr>cr_pending := 0\<rparr>,
      as_events (ar_sinks ?a))"
    using step gen conn
    by (auto simp: AgentRuntime_send_returned_credits_def AgentCreditReturns_take_def u32_checked_add_def flow_part_def Let_def
        split: if_split_asm option.split_asm)
  then show ?thesis
    using ok total w' gen sum by (fastforce simp: window_ok_def window_used_def flow_part_def live_events_def)
qed
text \<open>Dropping an event moves its credit from the held to the pending ones, if no other event holds it.\<close>

definition without_event :: "ClipboardRequest \<Rightarrow> 'c AgentWorld \<Rightarrow> 'c AgentWorld \<Rightarrow> bool" where
  "without_event event w v \<longleftrightarrow>
     flow_part (aw_runtime v) = (ar_generation (aw_runtime w), ar_connected (aw_runtime w), ar_inbound_tokens (aw_runtime w),
       ar_next_allocation (aw_runtime w), as_credit_returns (ar_sinks (aw_runtime w)), as_events (ar_sinks (aw_runtime v))) \<and>
     set (live_events w) = insert event (set (live_events v))"

lemma release_event_window:
  assumes ok: "window_ok w" and v: "without_event event w v"
    and unique: "\<forall>e \<in> set (live_events w). ic_allocation (crq_credit e) = ic_allocation (crq_credit event) \<longrightarrow> crq_credit e = crq_credit event"
  shows "\<exists>v'. release_event event v = Inr v' \<and> window_ok v' \<and> live_events v' = live_events v \<and>
    ar_generation (aw_runtime v') = ar_generation (aw_runtime w) \<and> aw_host v' = aw_host v \<and>
    as_events (ar_sinks (aw_runtime v')) = as_events (ar_sinks (aw_runtime v))"
proof (cases "holds_credit (crq_credit event) (live_events v)")
  case True
  then obtain e where e: "e \<in> set (live_events v)" "ic_allocation (crq_credit e) = ic_allocation (crq_credit event)"
    by (auto simp: holds_credit_def list_ex_iff)
  then have "crq_credit e = crq_credit event" using unique v by (auto simp: without_event_def)
  then have "held_credits g (live_events w) = held_credits g (live_events v)" for g
    using e(1) v by (auto simp: held_credits_def without_event_def image_iff intro!: exI [of _ e])
  then have "window_ok v" using ok v by (auto simp: window_ok_def window_used_def without_event_def flow_part_def)
  then show ?thesis using True v by (simp add: release_event_def without_event_def live_events_def flow_part_def)
next
  case False
  let ?g = "ar_generation (aw_runtime w)" let ?cr = "as_credit_returns (ar_sinks (aw_runtime w))"
  have fresh: "ic_allocation (crq_credit event) \<notin> held_credits g (live_events v)" for g
    using False by (auto simp: holds_credit_def list_ex_iff held_credits_def)
  have held: "held_credits g (live_events w) =
      (if ic_generation (crq_credit event) = g then insert (ic_allocation (crq_credit event)) (held_credits g (live_events v))
       else held_credits g (live_events v))" for g
    using v by (auto simp: held_credits_def without_event_def)
  have total: "unat (ar_inbound_tokens (aw_runtime w)) + unat (cr_pending ?cr) + card (held_credits ?g (live_events w)) \<le> 10"
    and gen: "cr_generation ?cr = ?g"
    using ok by (auto simp: window_ok_def window_used_def split: if_split_asm)
  show ?thesis
  proof (cases "ic_generation (crq_credit event) = ?g")
    case True
    then have "unat (cr_pending (as_credit_returns (ar_sinks (aw_runtime v)))) < 10"
      using total held [of ?g] fresh [of ?g] v by (simp add: without_event_def flow_part_def)
    moreover from this have "unat (cr_pending ?cr + 1) = Suc (unat (cr_pending ?cr))"
      using return_now_Inr(2) [of ?cr] v by (simp add: without_event_def flow_part_def)
    moreover obtain a' where "return_credit (crq_credit event) (aw_runtime v) = Inr a'" "flow_part a' = (?g, ar_connected (aw_runtime w),
        ar_inbound_tokens (aw_runtime w), ar_next_allocation (aw_runtime w), ?cr\<lparr>cr_pending := cr_pending ?cr + 1\<rparr>,
        as_events (ar_sinks (aw_runtime v)))"
      using return_credit_flow [OF calculation(1), of "crq_credit event"] True gen v by (auto simp: without_event_def flow_part_def)
    ultimately show ?thesis
      using False True ok v held [of ?g] fresh [of ?g] gen
      by (auto simp: release_event_def live_events_def window_ok_def window_used_def without_event_def flow_part_def)
  next
    case other: False
    have "return_credit (crq_credit event) (aw_runtime v) = Inr (aw_runtime v)"
      using other gen v by (simp add: return_credit_def AgentCreditReturns_return_now_def without_event_def flow_part_def)
    then show ?thesis
      using False other ok v held [of ?g] gen
      by (auto simp: release_event_def live_events_def window_ok_def window_used_def without_event_def flow_part_def)
  qed
qed

text \<open>One allocation is one credit: events with the same allocation number carry the same credit.\<close>

definition credits_unique :: "'c AgentWorld \<Rightarrow> bool" where
  "credits_unique w \<longleftrightarrow>
     (\<forall>e \<in> set (live_events w). \<forall>f \<in> set (live_events w). ic_allocation (crq_credit e) = ic_allocation (crq_credit f) \<longrightarrow>
        crq_credit e = crq_credit f)"

lemma release_events_window:
  "window_ok w \<Longrightarrow> credits_unique w \<Longrightarrow> as_events (ar_sinks (aw_runtime w)) = events \<Longrightarrow>
     \<exists>v'. release_events events w = Inr v' \<and> window_ok v' \<and> credits_unique v' \<and> ar_generation (aw_runtime v') = ar_generation (aw_runtime w)"
proof (induction events arbitrary: w)
  case (Cons event events)
  let ?v = "w\<lparr>aw_runtime := update_sinks (\<lambda>s. s\<lparr>as_events := events\<rparr>) (aw_runtime w)\<rparr>"
  have v: "without_event event w ?v" using Cons.prems(3) by (auto simp: without_event_def live_events_def flow_part_def)
  have "\<forall>e \<in> set (live_events w). ic_allocation (crq_credit e) = ic_allocation (crq_credit event) \<longrightarrow> crq_credit e = crq_credit event"
    using Cons.prems(2,3) by (auto simp: credits_unique_def live_events_def)
  then obtain v' where v': "release_event event ?v = Inr v'" "window_ok v'" "live_events v' = live_events ?v"
      "ar_generation (aw_runtime v') = ar_generation (aw_runtime w)" "as_events (ar_sinks (aw_runtime v')) = events"
    using release_event_window [OF Cons.prems(1) v] by auto
  have "set (live_events v') \<subseteq> set (live_events w)" using v'(3) v by (auto simp: without_event_def)
  then have "credits_unique v'" using Cons.prems(2) unfolding credits_unique_def by blast
  then show ?case using Cons.IH [OF v'(2) _ v'(5)] v'(1,4) by simp
qed simp

lemma credits_unique_subset: "credits_unique w \<Longrightarrow> set (live_events v) \<subseteq> set (live_events w) \<Longrightarrow> credits_unique v"
  unfolding credits_unique_def by blast

lemma credits_unique_fresh:
  assumes "credits_unique w" "window_ok w"
    and "\<forall>e \<in> set (live_events v). e \<in> set (live_events w) \<or>
      crq_credit e = \<lparr>ic_generation = g, ic_allocation = ar_next_allocation (aw_runtime w)\<rparr>"
  shows "credits_unique v"
proof -
  let ?n = "ar_next_allocation (aw_runtime w)"
  have old: "ic_allocation (crq_credit e) < ?n" if "e \<in> set (live_events w)" for e
    using assms(2) that by (auto simp: window_ok_def)
  show ?thesis
    unfolding credits_unique_def
  proof (intro ballI impI)
    fix e f
    assume "e \<in> set (live_events v)" "f \<in> set (live_events v)" and same: "ic_allocation (crq_credit e) = ic_allocation (crq_credit f)"
    let ?c = "\<lparr>ic_generation = g, ic_allocation = ?n\<rparr>"
    have "e \<in> set (live_events w) \<or> crq_credit e = ?c" "f \<in> set (live_events w) \<or> crq_credit f = ?c"
      using assms(3) \<open>e \<in> set (live_events v)\<close> \<open>f \<in> set (live_events v)\<close> by blast+
    then show "crq_credit e = crq_credit f"
    proof (elim disjE)
      assume "e \<in> set (live_events w)" "f \<in> set (live_events w)"
      then show ?thesis using same assms(1) unfolding credits_unique_def by blast
    next
      assume "e \<in> set (live_events w)" "crq_credit f = ?c"
      then show ?thesis using same old [of e] by simp
    next
      assume "crq_credit e = ?c" "f \<in> set (live_events w)"
      then show ?thesis using same old [of f] by simp
    qed simp
  qed
qed

definition window_inv :: "nat \<Rightarrow> 'c AgentWorld \<Rightarrow> bool" where
  "window_inv n w \<longleftrightarrow> window_ok w \<and> credits_unique w \<and> unat (ar_generation (aw_runtime w)) \<le> n"

lemma window_inv_flow:
  "window_inv n w \<Longrightarrow> flow_part (aw_runtime w') = flow_part (aw_runtime w) \<Longrightarrow> aw_host w' = aw_host w \<Longrightarrow> window_inv (Suc n) w'"
  using window_ok_flow [of w "aw_runtime w'" w'] by (auto simp: window_inv_def credits_unique_def live_events_def flow_part_def)

lemma generation_not_max: "unat g \<le> n \<Longrightarrow> n < 2 ^ 64 - 1 \<Longrightarrow> g \<noteq> -1" for g :: u64
  by (auto simp: unsigned_minus_1_eq_mask mask_eq_exp_minus_1)

lemma window_inv_begin:
  assumes "window_inv n w" "n < 2 ^ 64 - 1" "AgentRuntime_begin_generation enc a ch = Inr (a', ch')"
    "ar_generation a = ar_generation (aw_runtime w)" "ar_connected a" "ar_next_allocation a = ar_next_allocation (aw_runtime w)"
    "as_events (ar_sinks a) = as_events (ar_sinks (aw_runtime w))" "aw_host w' = aw_host w" "aw_runtime w' = a'"
  shows "window_inv (Suc n) w'"
proof -
  have "ar_generation (aw_runtime w) \<noteq> -1" using assms(1,2) generation_not_max by (auto simp: window_inv_def)
  from window_begin [OF _ this assms(3-9)] have "window_ok w' \<and> unat (ar_generation (aw_runtime w')) = Suc (unat (ar_generation (aw_runtime w)))"
    using assms(1,9) by (auto simp: window_inv_def)
  moreover have "live_events w' = live_events w"
    using begin_generation_flow [OF assms(3)] assms(7-9) by (simp add: live_events_def flow_part_def)
  ultimately show ?thesis using assms(1) by (auto simp: window_inv_def credits_unique_def)
qed

lemma send_credits_events:
  "AgentRuntime_send_returned_credits enc a ch = Inr (a', ch') \<Longrightarrow> as_events (ar_sinks a') = as_events (ar_sinks a)"
  by (auto simp: AgentRuntime_send_returned_credits_def Let_def split: if_split_asm option.split_asm prod.split_asm)

lemma window_inv_server:
  assumes inv: "window_inv n w" and n: "n < 2 ^ 64 - 1" and step: "agent_step enc (Act_server message_type body) w = Inr w'"
  shows "window_inv (Suc n) w'"
proof -
  from step obtain handled a' ch' where h: "AgentRuntime_handle_server_message enc message_type body (aw_runtime w) (aw_channel w) = Inr (handled, a', ch')"
    and w': "w' = w\<lparr>aw_runtime := a', aw_channel := ch'\<rparr>" by auto
  consider (started) a where "AgentRuntime_begin_generation enc a (aw_channel w) = Inr (a', ch')" "ar_connected a"
      "ar_generation a = ar_generation (aw_runtime w)" "ar_next_allocation a = ar_next_allocation (aw_runtime w)"
      "as_events (ar_sinks a) = as_events (ar_sinks (aw_runtime w))"
    | (disconnect) reason where "a' = AgentRuntime_disconnect reason (aw_runtime w)"
    | (fragment) "AgentRuntime_handle_fragment body (aw_runtime w) = Inr a'"
    | (same) "flow_part a' = flow_part (aw_runtime w)"
    using h unfolding AgentRuntime_handle_server_message_def
    by (auto split: if_split_asm)
  then show ?thesis
  proof cases
    case started
    then show ?thesis using window_inv_begin [OF inv n started(1), of w'] w' by simp
  next
    case disconnect
    have "window_ok w'" using window_disconnect [of w "aw_runtime w'" reason w'] inv w' disconnect by (simp add: window_inv_def)
    then show ?thesis using inv w' disconnect disconnect_flow [of reason "aw_runtime w"]
      by (auto simp: window_inv_def credits_unique_def live_events_def flow_part_def)
  next
    case fragment
    have "window_ok w' \<and> ar_generation a' = ar_generation (aw_runtime w) \<and>
      (\<forall>e \<in> set (live_events w'). e \<in> set (live_events w) \<or>
         crq_credit e = \<lparr>ic_generation = ar_generation (aw_runtime w), ic_allocation = ar_next_allocation (aw_runtime w)\<rparr>)"
      using window_fragment [OF _ fragment, of w'] inv w' by (simp add: window_inv_def)
    then show ?thesis using inv w' credits_unique_fresh [of w w'] by (auto simp: window_inv_def)
  next
    case same
    then show ?thesis using window_inv_flow [OF inv, of w'] w' by simp
  qed
qed

lemma window_inv_migrated:
  assumes inv: "window_inv n w" and n: "n < 2 ^ 64 - 1" and step: "agent_step enc (Act_migrated connected tokens reason) w = Inr w'"
  shows "window_inv (Suc n) w'"
proof -
  let ?d = "AgentRuntime_disconnect reason (aw_runtime w)"
  let ?a = "?d\<lparr>ar_outbound_tokens := tokens, ar_connected := connected\<rparr>"
  obtain a' ch' where a': "(if connected then AgentRuntime_begin_generation enc ?a (aw_channel w) else Inr (?a, aw_channel w)) = Inr (a', ch')"
    and w': "w' = w\<lparr>aw_runtime := a', aw_channel := ch'\<rparr>"
    using step by (auto simp: AgentRuntime_reinitialize_after_migration_def Let_def)
  show ?thesis
  proof (cases connected)
    case True
    then show ?thesis using window_inv_begin [OF inv n, of enc ?a "aw_channel w" a' ch' w'] a' w' disconnect_flow [of reason "aw_runtime w"]
      by (simp add: flow_part_def)
  next
    case False
    then have flow: "flow_part a' = flow_part ?d" using a' disconnect_flow [of reason "aw_runtime w"] by (auto simp: flow_part_def)
    then have "window_ok w'" using window_disconnect [of w a' reason w'] inv w' by (simp add: window_inv_def)
    then show ?thesis using inv w' flow disconnect_flow [of reason "aw_runtime w"]
      by (auto simp: window_inv_def credits_unique_def live_events_def flow_part_def)
  qed
qed

lemma window_inv_drop:
  assumes inv: "window_inv n w" and step: "agent_step enc (Act_host_drop i) w = Inr w'"
  shows "window_inv (Suc n) w'"
proof -
  show ?thesis
  proof (cases "i < length (aw_host w)")
    case True
    let ?v = "w\<lparr>aw_host := take i (aw_host w) @ drop (Suc i) (aw_host w)\<rparr>"
    have set: "set (aw_host w) = insert (aw_host w ! i) (set (take i (aw_host w) @ drop (Suc i) (aw_host w)))"
      using arg_cong [OF id_take_nth_drop [OF True], of set] by (simp add: insert_commute)
    then have v: "without_event (aw_host w ! i) w ?v" by (auto simp: without_event_def live_events_def flow_part_def)
    have "aw_host w ! i \<in> set (live_events w)" using True by (simp add: live_events_def)
    then obtain v' where v': "release_event (aw_host w ! i) ?v = Inr v'" "window_ok v'" "live_events v' = live_events ?v"
        "ar_generation (aw_runtime v') = ar_generation (aw_runtime w)"
      using release_event_window [OF _ v] inv by (auto simp: window_inv_def credits_unique_def)
    moreover have "set (live_events v') \<subseteq> set (live_events w)" using v'(3) v by (auto simp: without_event_def)
    ultimately show ?thesis
      using step True inv credits_unique_subset [of w v'] by (auto simp: window_inv_def)
  next
    case False
    then show ?thesis using step window_inv_flow [OF inv, of w'] by simp
  qed
qed

lemma window_inv_close:
  assumes inv: "window_inv n w" and step: "agent_step enc (Act_host_close) w = Inr w'"
  shows "window_inv (Suc n) w'"
proof -
  let ?v = "w\<lparr>aw_runtime := update_sinks (\<lambda>s. s\<lparr>as_events_open := False\<rparr>) (aw_runtime w)\<rparr>"
  have "window_inv (Suc n) ?v" by (rule window_inv_flow [OF inv]) (simp_all add: flow_part_def)
  then have "\<exists>v'. release_events (as_events (ar_sinks (aw_runtime ?v))) ?v = Inr v' \<and> window_ok v' \<and> credits_unique v' \<and>
      ar_generation (aw_runtime v') = ar_generation (aw_runtime ?v)"
    by (intro release_events_window) (simp_all add: window_inv_def)
  then show ?thesis using step inv by (auto simp: window_inv_def)
qed

lemma window_inv_step:
  assumes inv: "window_inv n w" and n: "n < 2 ^ 64 - 1" and step: "agent_step enc act w = Inr w'"
  shows "window_inv (Suc n) w'"
proof (cases act)
  case Act_prepare
  then show ?thesis using step by (auto intro!: window_inv_flow [OF inv] dest: prepare_internal_flow)
next
  case (Act_server message_type body)
  then show ?thesis using window_inv_server [OF inv n] step by simp
next
  case (Act_migrated connected tokens reason)
  then show ?thesis using window_inv_migrated [OF inv n] step by simp
next
  case Act_send
  then show ?thesis using step by (auto intro!: window_inv_flow [OF inv] split: if_split_asm dest: send_one_flow)
next
  case (Act_command command)
  then show ?thesis using step by (auto intro!: window_inv_flow [OF inv] split: if_split_asm dest: accept_command_flow)
next
  case Act_layout_seen
  then show ?thesis using step by (auto intro!: window_inv_flow [OF inv])
next
  case Act_credits
  show ?thesis
  proof (cases "ar_connected (aw_runtime w)")
    case True
    then obtain a' ch' where a': "AgentRuntime_send_returned_credits enc (aw_runtime w) (aw_channel w) = Inr (a', ch')"
      and w': "w' = w\<lparr>aw_runtime := a', aw_channel := ch'\<rparr>" using step Act_credits by auto
    have "window_ok w' \<and> ar_generation a' = ar_generation (aw_runtime w)"
      using window_credits [OF _ True a', of w'] inv w' by (simp add: window_inv_def)
    moreover have "live_events w' = live_events w" using send_credits_events [OF a'] w' by (simp add: live_events_def)
    ultimately show ?thesis using inv w' by (auto simp: window_inv_def credits_unique_def)
  next
    case False
    then show ?thesis using step Act_credits window_inv_flow [OF inv, of w'] by simp
  qed
next
  case (Act_host_layout monitors)
  then show ?thesis using step by (auto intro!: window_inv_flow [OF inv] split: sum.split)
next
  case Act_host_next
  show ?thesis
  proof (cases "as_events (ar_sinks (aw_runtime w))")
    case Nil
    then show ?thesis using step Act_host_next window_inv_flow [OF inv, of w'] by simp
  next
    case (Cons event events)
    then have "live_events w' = live_events w" "window_ok w'"
      using step Act_host_next inv by (auto simp: live_events_def window_inv_def window_ok_def window_used_def)
    then show ?thesis using step Act_host_next Cons inv by (auto simp: window_inv_def credits_unique_def)
  qed
next
  case (Act_host_drop i)
  then show ?thesis using window_inv_drop [OF inv] step by simp
next
  case Act_host_close
  then show ?thesis using window_inv_close [OF inv] step by simp
qed

lemma window_inv_run:
  "window_inv n w \<Longrightarrow> n + length acts < 2 ^ 64 \<Longrightarrow> agent_run enc acts w = Inr w' \<Longrightarrow> window_inv (n + length acts) w'"
proof (induction acts arbitrary: n w)
  case (Cons act acts)
  then obtain v where v: "agent_step enc act w = Inr v" "agent_run enc acts v = Inr w'" by auto
  have "window_inv (Suc n) v" using window_inv_step [OF Cons.prems(1) _ v(1)] Cons.prems(2) by simp
  from Cons.IH [OF this _ v(2)] Cons.prems(2) show ?case by simp
qed simp

lemma window_inv_start:
  assumes "agent_start enc connection_generation connected tokens ch = Inr w"
  shows "window_inv 1 w"
proof -
  obtain a where a: "AgentRuntime_new connection_generation connected tokens (agent_sinks connection_generation) = Inr a"
    using assms by (auto simp: agent_start_def)
  let ?w0 = "w\<lparr>aw_runtime := a\<lparr>ar_connected := False\<rparr>, aw_host := []\<rparr>"
  have flow: "flow_part a = (0, connected, 0, 0, \<lparr>cr_generation = 0, cr_pending = 0\<rparr>, [])"
    using a by (auto simp: AgentRuntime_new_def AgentStreamDecoder_new_def agent_sinks_def AgentCreditReturns_new_def flow_part_def)
  then have zero: "window_inv 0 ?w0"
    by (auto simp: window_inv_def window_ok_def window_used_def credits_unique_def live_events_def flow_part_def held_credits_def)
  show ?thesis
  proof (cases connected)
    case True
    then obtain a' ch' where "AgentRuntime_begin_generation enc a ch = Inr (a', ch')" "aw_runtime w = a'" "aw_host w = []"
      using assms a flow by (auto simp: agent_start_def AgentRuntime_initialize_def flow_part_def)
    with True show ?thesis using window_inv_begin [OF zero, of enc a ch a' ch' w] flow by (simp add: flow_part_def)
  next
    case False
    then have "aw_runtime w = a" "aw_host w = []"
      using assms a flow by (auto simp: agent_start_def AgentRuntime_initialize_def flow_part_def)
    then show ?thesis using window_inv_flow [OF zero, of w] False flow by (simp add: flow_part_def)
  qed
qed

section \<open>A small run\<close>

text \<open>The Main channel of a small run, and the fragment of a whole guest message.\<close>

definition sample_channel :: "u8 Channel" where
  "sample_channel = fresh_channel \<lparr>str_incoming = [], str_outgoing = [], str_writable = True\<rparr> None"

definition guest_message :: "u32 \<Rightarrow> u8 list \<Rightarrow> u8 list" where
  "guest_message message_type payload = agent_header message_type 0 (of_nat (length payload)) @ payload"

lemma push_guest_message:
  assumes "agent.state_inv d" "agent.state_of d = agent.idle 16777216" "length payload \<le> 2028"
  obtains d' where "AgentStreamDecoder_push_fragment_into d (guest_message t payload) [] =
      (Inr (), d', [\<lparr>am_protocol = 1, am_message_type = t, am_opaque = 0, am_payload = payload\<rparr>])"
    "agent.state_inv d'" "agent.state_of d' = agent.idle 16777216"
proof -
  have "fragment_ok (guest_message t payload)" using assms(3) by (simp add: fragment_ok_def guest_message_def agent_header_def)
  then have loop: "AgentStreamDecoder_push_fragment_into d (guest_message t payload) [] = agent_push_loop d (guest_message t payload) []"
    by (simp add: AgentStreamDecoder_push_fragment_into_def fragment_ok_def)
  have "map_pushed agent.state_of (agent_push_loop d (guest_message t payload) []) =
      (Inr (), agent.idle 16777216, [\<lparr>am_protocol = 1, am_message_type = t, am_opaque = 0, am_payload = payload\<rparr>])"
    using agent.push_refines [OF assms(1), of "guest_message t payload" "[]"] agent_feed_message [of payload 16777216 t 0 "[]"] assms(2,3)
    by (simp add: guest_message_def)
  then show thesis using that loop agent.push_inv [OF assms(1), of "guest_message t payload" "[]"]
    by (cases "agent_push_loop d (guest_message t payload) []") auto
qed

lemmas start_simps = agent_start_def AgentRuntime_new_def AgentStreamDecoder_new_def AgentRuntime_initialize_def AgentRuntime_begin_generation_def
   Let_def AgentRuntime_fail_pending_reads_def agent_sinks_def AgentRuntime_fail_transfers_def fail_outbound_completion_def
   Channel_write_message_def fresh_channel_def  u32_try_from_def DataHeader_encode_def write_all_def u64_checked_add_def sample_channel_def
   AgentCreditReturns_reset_def AgentCreditReturns_new_def AgentStreamDecoder_reset_def encode_agent_tokens_def

lemmas send_simps = AgentRuntime_prepare_internal_def AgentRuntime_queue_def OutboundAgentMessage_new_def
   AgentCapabilities_encode_def AgentRuntime_can_send_def AgentRuntime_send_one_def OutboundAgentMessage_next_fragment_def
   OutboundAgentMessage_is_complete_def outbound_fill.simps outbound_turn_def slice_index_def slice_get_def

lemma local_agent_capabilities_word: "local_agent_capabilities = Inr \<lparr>words = [515302]\<rparr>"
  by (simp add: local_agent_capabilities_def CapabilitySet_from_bits_def CapabilitySet_insert_def CapabilitySet_new_def vec_grow_def
     word_le_nat_alt)

text \<open>The client has sent its capabilities and the guest has announced clipboards by demand and selections.\<close>

definition sample_actions :: "AgentAction list" where
  "sample_actions = [Act_prepare, Act_send, Act_server 109 (guest_message 6 [0, 0, 0, 0, 96, 0, 0, 0])]"

definition sample_world :: "AgentStreamDecoder \<Rightarrow> u8 AgentWorld" where
  "sample_world d =
     \<lparr>aw_runtime =
        \<lparr>ar_connection_generation = 1, ar_generation = 1, ar_connected = True, ar_ready = True, ar_outbound_tokens = 4,
         ar_inbound_tokens = 9, ar_decoder = d, ar_peer_capabilities = \<lparr>words = [96]\<rparr>, ar_outbound = None,
         ar_outbound_completion = None, ar_announce_pending = False, ar_max_clipboard_pending = False,
         ar_sent_layout_generation = 0, ar_layout_dirty = False, ar_offer_revision = 0, ar_outgoing_clipboard_serial = (\<lambda>_. 0),
         ar_incoming_clipboard_serial = (\<lambda>_. 0), ar_desired_clipboard_offers = (\<lambda>_. None), ar_sent_offer_generation = (\<lambda>_. 0),
         ar_next_request_id = 1, ar_pending_reads = [], ar_pending_host_requests = [], ar_next_transfer_id = 1, ar_transfers = [],
         ar_next_allocation = 1,
         ar_sinks =
           \<lparr>as_state = AgentState_Ready 1 1 (features_from_capabilities \<lparr>words = [96]\<rparr>), as_offers = ClipboardOffers_default,
            as_events = [], as_events_open = True, as_audio_volume = None, as_graphics_devices = None,
            as_credit_returns = \<lparr>cr_generation = 1, cr_pending = 1\<rparr>, as_answers = [], as_transfer_log = []\<rparr>\<rparr>,
      aw_channel = sample_channel
        \<lparr>ch_stream := \<lparr>str_incoming = [], str_outgoing = u16_to_le_bytes 106 @ u32_to_le_bytes 4 @ u32_to_le_bytes 10 @
           u16_to_le_bytes 107 @ u32_to_le_bytes 28 @ u32_to_le_bytes 1 @ u32_to_le_bytes 6 @ u64_to_le_bytes 0 @ u32_to_le_bytes 8 @
           u32_to_le_bytes 1 @ u32_to_le_bytes 515302, str_writable = True\<rparr>, ch_next_serial := 3\<rparr>,
      aw_layout = \<lparr>lw_value = None, lw_changed = False\<rparr>, aw_host = [], aw_calls = []\<rparr>"

lemma sample_announcement: "AgentCapabilities_decode [0, 0, 0, 0, 96, 0, 0, 0] = Inr \<lparr>ac_request_reply = False, ac_capabilities = \<lparr>words = [96]\<rparr>\<rparr>"
proof -
  have "[0, 0, 0, 0, 96, 0, 0, 0] = AgentCapabilities_encode \<lparr>ac_request_reply = False, ac_capabilities = \<lparr>words = [96]\<rparr>\<rparr>"
    by (simp add: AgentCapabilities_encode_def to_le_expand)
  then show ?thesis using AgentCapabilities_decode_encode by simp
qed

lemma sample_run:
  obtains d s where "agent_start counting_encode 1 True 5 sample_channel = Inr s"
    "agent_run counting_encode sample_actions s = Inr (sample_world d)" "agent.state_inv d" "agent.state_of d = agent.idle 16777216"
proof -
  obtain d0 where d0: "AgentStreamDecoder_new 16777216 = Inr d0" by (simp add: AgentStreamDecoder_new_def)
  then have r: "d0 = \<lparr>ad_maximum_message_bytes = 16777216, ad_header = replicate 20 0, ad_header_bytes = 0, ad_current = None\<rparr>"
    by (simp add: AgentStreamDecoder_new_def)
  obtain d where d: "AgentStreamDecoder_push_fragment_into d0 (guest_message 6 [0, 0, 0, 0, 96, 0, 0, 0]) [] =
      (Inr (), d, [\<lparr>am_protocol = 1, am_message_type = 6, am_opaque = 0, am_payload = [0, 0, 0, 0, 96, 0, 0, 0]\<rparr>])"
    "agent.state_inv d" "agent.state_of d = agent.idle 16777216"
    using push_guest_message [OF agent_new_state [OF d0], of "[0, 0, 0, 0, 96, 0, 0, 0]" 6] by auto
  have "and_then (agent_start counting_encode 1 True 5 sample_channel) (agent_run counting_encode sample_actions) = Inr (sample_world d)"
    using d(1) unfolding r
    by (simp add: start_simps send_simps local_agent_capabilities_word sample_actions_def sample_world_def
        AgentRuntime_handle_server_message_def AgentRuntime_handle_fragment_def AgentRuntime_dispatch_agent_message_def
        dispatch_capabilities_def sample_announcement return_credit_def AgentCreditReturns_return_now_def u32_checked_add_def
        CapabilitySet_contains_def)
  then show thesis using d that by auto
qed

lemma agent_run_append: "agent_run enc (xs @ ys) w = and_then (agent_run enc xs w) (agent_run enc ys)"
proof (induction xs arbitrary: w)
  case (Cons x xs)
  then have "agent_run enc (xs @ ys) = (\<lambda>w. and_then (agent_run enc xs w) (agent_run enc ys))" by blast
  then show ?case by (simp add: and_then_assoc)
qed simp

section \<open>Properties\<close>

text \<open>C5: flow control of the Agent tunnel: in every state that a started tunnel reaches, by whatever order of guest messages,
  commands, reconnections, migrations and host actions, the fragments the guest may still send, the credits
  waiting to be returned and the credits held by clipboard requests that the host has not dropped make up
  the whole receive window of 10 while an agent is connected, and never more than it otherwise.\<close>

theorem agent_flow_control:
  assumes start: "agent_start enc connection_generation connected tokens channel = Inr s"
    and run: "agent_run enc actions s = Inr w" and short: "length actions < 2 ^ 64 - 1"
  shows "(if ar_connected (aw_runtime w) then window_used w = 10 else window_used w \<le> 10) \<and>
    unat (ar_inbound_tokens (aw_runtime w)) \<le> 10"
proof -
  have "window_inv (1 + length actions) w" using window_inv_run [OF window_inv_start [OF start] _ run] short by simp
  then show ?thesis by (auto simp: window_inv_def window_ok_def window_used_def split: if_split_asm)
qed

theorem agent_flow_control_witness:
  "\<exists>s w. agent_start counting_encode 1 True 5 sample_channel = Inr s \<and>
     agent_run counting_encode (sample_actions @ [Act_server 109 (guest_message 8 [0, 0, 0, 0, 1, 0, 0, 0]), Act_host_next]) s = Inr w \<and>
     map crq_request_id (aw_host w) = [1] \<and> unat (ar_inbound_tokens (aw_runtime w)) = 8 \<and> window_used w = 10"
proof -
  obtain d s where s: "agent_start counting_encode 1 True 5 sample_channel = Inr s"
    "agent_run counting_encode sample_actions s = Inr (sample_world d)"
    and d: "agent.state_inv d" "agent.state_of d = agent.idle 16777216" by (rule sample_run)
  obtain d' where d': "AgentStreamDecoder_push_fragment_into d (guest_message 8 [0, 0, 0, 0, 1, 0, 0, 0]) [] =
      (Inr (), d', [\<lparr>am_protocol = 1, am_message_type = 8, am_opaque = 0, am_payload = [0, 0, 0, 0, 1, 0, 0, 0]\<rparr>])"
    using push_guest_message [OF d, of "[0, 0, 0, 0, 1, 0, 0, 0]" 8] by auto
  have request: "decode_clipboard_request [0, 0, 0, 0, 1, 0, 0, 0] True =
      Inr \<lparr>cr_selection = AgentClipboardSelection_Clipboard, cr_clipboard_type = 1\<rparr>"
  proof -
    have "[0, 0, 0, 0, 1, 0, 0, 0] = [0, 0, 0, 0] @ u32_to_le_bytes 1" by (simp add: to_le_expand)
    then show ?thesis
      by (simp add: decode_clipboard_request_def decode_selection_def slice_get_def slice_index_def AgentClipboardSelection_try_from_def decode_with_at reader_width reader_simps del: append_Cons)
  qed
  let ?acts = "[Act_server 109 (guest_message 8 [0, 0, 0, 0, 1, 0, 0, 0]), Act_host_next]"
  obtain w where w: "agent_run counting_encode ?acts (sample_world d) = Inr w" "map crq_request_id (aw_host w) = [1]"
      "unat (ar_inbound_tokens (aw_runtime w)) = 8" "ar_connected (aw_runtime w)"
    by (simp add: sample_world_def AgentRuntime_handle_server_message_def AgentRuntime_handle_fragment_def d' Let_def
        AgentRuntime_dispatch_agent_message_def dispatch_request_def CapabilitySet_contains_def request AgentClipboardType_try_from_def)
  have run: "agent_run counting_encode (sample_actions @ ?acts) s = Inr w" using s(2) w(1) by (simp add: agent_run_append)
  have "window_used w = 10" using agent_flow_control [OF s(1) run] w(4) by (simp add: sample_actions_def)
  then show ?thesis by (intro exI [of _ s] exI [of _ w] conjI s(1) run w(2,3))
qed

end
