(* ===== verification/Client_AgentBooks.thy ===== *)
theory Client_AgentBooks
  imports Client_AgentFlow "HOL-Library.Multiset"
begin

text \<open>
  The accounts of the Agent runtime: every call the host hands over is answered exactly once, and no run of the tunnel panics.
  The invariant says that the stream decoder is between two fragments, that a queued message has bytes left to send, and that
  the calls handed over are the answered and the pending ones.
\<close>

section \<open>Accounts of the runtime\<close>

text \<open>The stream decoder is in a state reached by fragments, a queued message has bytes left to send, and only a queued message
  has a completion waiting; at most one read is pending for a selection.\<close>

definition decoder_ok :: "AgentStreamDecoder \<Rightarrow> bool" where
  "decoder_ok d \<longleftrightarrow> agent.state_inv d \<and> agent.waiting (agent.state_of d) \<and>
     agent.bounded DEFAULT_MAX_AGENT_MESSAGE_BYTES (agent.state_of d)"

definition tunnel_ok :: "AgentRuntime \<Rightarrow> bool" where
  "tunnel_ok a \<longleftrightarrow> decoder_ok (ar_decoder a) \<and> distinct (map fst (ar_pending_reads a)) \<and>
     (ar_outbound a = None \<longrightarrow> ar_outbound_completion a = None) \<and>
     (\<forall>m. ar_outbound a = Some m \<longrightarrow> outbound_ok m \<and> outbound_rest m \<noteq> [])"

definition pending_calls :: "AgentRuntime \<Rightarrow> nat multiset" where
  "pending_calls a = mset (map (pr_response \<circ> snd) (ar_pending_reads a)) +
     (case ar_outbound_completion a of None \<Rightarrow> {#} | Some completion \<Rightarrow> {#completion#})"

text \<open>Every call handed to the runtime: answered or pending.\<close>

definition ledger :: "AgentRuntime \<Rightarrow> nat multiset" where
  "ledger a = mset (map fst (as_answers (ar_sinks a))) + pending_calls a"

definition tunnel_part :: "AgentRuntime \<Rightarrow> AgentStreamDecoder \<times> OutboundAgentMessage option \<times> nat option \<times>
    (AgentClipboardSelection \<times> PendingClipboardRead) list \<times> (nat \<times> agent_answer) list" where
  "tunnel_part a = (ar_decoder a, ar_outbound a, ar_outbound_completion a, ar_pending_reads a, as_answers (ar_sinks a))"

definition books :: "nat multiset \<Rightarrow> AgentRuntime \<Rightarrow> AgentRuntime \<Rightarrow> bool" where
  "books calls a a' \<longleftrightarrow> tunnel_ok a' \<and> ledger a' = ledger a + calls"

lemma tunnel_part_same: "tunnel_part a' = tunnel_part a \<Longrightarrow> tunnel_ok a' = tunnel_ok a \<and> ledger a' = ledger a"
  by (simp add: tunnel_part_def tunnel_ok_def ledger_def pending_calls_def)

lemma books_same: "tunnel_ok a \<Longrightarrow> tunnel_part a' = tunnel_part a \<Longrightarrow> books {#} a a'"
  using tunnel_part_same [of a' a] by (simp add: books_def)

lemma books_trans: "books c1 a b \<Longrightarrow> books c2 b c \<Longrightarrow> books (c1 + c2) a c"
  by (simp add: books_def ac_simps)

lemma books_after: "tunnel_part b = tunnel_part a \<Longrightarrow> books calls b a' \<Longrightarrow> books calls a a'"
  using tunnel_part_same [of b a] by (simp add: books_def)

lemma books_ok: "books calls a a' \<Longrightarrow> tunnel_ok a'"
  by (simp add: books_def)

lemma answer_books: "tunnel_ok a \<Longrightarrow> books {#call#} a (answer_call call answer a)"
  by (simp add: books_def tunnel_ok_def ledger_def pending_calls_def answer_call_def)

lemma queue_books: "tunnel_ok a \<Longrightarrow> AgentRuntime_queue t p a = Inr a' \<Longrightarrow> books {#} a a'"
  by (auto simp: AgentRuntime_queue_def agent_header_def books_def tunnel_ok_def ledger_def pending_calls_def split: if_split_asm
      dest!: OutboundAgentMessage_new_Inr)

lemma queue_with_completion_books:
  "tunnel_ok a \<Longrightarrow> AgentRuntime_queue_with_completion t p c a = Inr a' \<Longrightarrow> books {#c#} a a'"
  by (auto simp: AgentRuntime_queue_with_completion_def AgentRuntime_queue_def agent_header_def books_def tunnel_ok_def ledger_def pending_calls_def
      split: if_split_asm dest!: OutboundAgentMessage_new_Inr)

lemma tunnel_part_updates [simp]:
  "tunnel_part (publish_transfer transfer_id state a) = tunnel_part a" "tunnel_part (mark_offer_sent selection a) = tunnel_part a"
  "tunnel_part (finish_transfer transfer_id state a) = tunnel_part a" "tunnel_part (AgentRuntime_note_layout_changed a) = tunnel_part a"
  "tunnel_part (a\<lparr>ar_transfers := x1\<rparr>) = tunnel_part a" "tunnel_part (a\<lparr>ar_pending_host_requests := x2\<rparr>) = tunnel_part a"
  "tunnel_part (a\<lparr>ar_desired_clipboard_offers := x3\<rparr>) = tunnel_part a" "tunnel_part (a\<lparr>ar_outgoing_clipboard_serial := x4\<rparr>) = tunnel_part a"
  "tunnel_part (a\<lparr>ar_announce_pending := x5\<rparr>) = tunnel_part a" "tunnel_part (a\<lparr>ar_max_clipboard_pending := x6\<rparr>) = tunnel_part a"
  "tunnel_part (a\<lparr>ar_next_transfer_id := x7\<rparr>) = tunnel_part a" "tunnel_part (a\<lparr>ar_outbound_tokens := x8\<rparr>) = tunnel_part a"
  "tunnel_part (a\<lparr>ar_sent_layout_generation := x9, ar_layout_dirty := x10\<rparr>) = tunnel_part a"
  "tunnel_part (a\<lparr>ar_connected := x11\<rparr>) = tunnel_part a" "tunnel_part (a\<lparr>ar_outbound_tokens := x8, ar_connected := x11\<rparr>) = tunnel_part a"
  by (simp_all add: tunnel_part_def publish_transfer_def mark_offer_sent_def finish_transfer_def AgentRuntime_note_layout_changed_def)

lemma tunnel_ok_part [simp]:
  "tunnel_ok (publish_transfer transfer_id state a) = tunnel_ok a" "tunnel_ok (mark_offer_sent selection a) = tunnel_ok a"
  "tunnel_ok (finish_transfer transfer_id state a) = tunnel_ok a"
  "tunnel_ok (a\<lparr>ar_transfers := x1\<rparr>) = tunnel_ok a" "tunnel_ok (a\<lparr>ar_pending_host_requests := x2\<rparr>) = tunnel_ok a"
  "tunnel_ok (a\<lparr>ar_desired_clipboard_offers := x3\<rparr>) = tunnel_ok a" "tunnel_ok (a\<lparr>ar_outgoing_clipboard_serial := x4\<rparr>) = tunnel_ok a"
  "tunnel_ok (a\<lparr>ar_announce_pending := x5\<rparr>) = tunnel_ok a" "tunnel_ok (a\<lparr>ar_max_clipboard_pending := x6\<rparr>) = tunnel_ok a"
  "tunnel_ok (a\<lparr>ar_next_transfer_id := x7\<rparr>) = tunnel_ok a" "tunnel_ok (a\<lparr>ar_outbound_tokens := x8\<rparr>) = tunnel_ok a"
  "tunnel_ok (a\<lparr>ar_sent_layout_generation := x9, ar_layout_dirty := x10\<rparr>) = tunnel_ok a"
  "tunnel_ok (a\<lparr>ar_connected := x11\<rparr>) = tunnel_ok a"
  by (rule tunnel_part_same [THEN conjunct1], simp)+

lemma take_grab_serial_part: "take_grab_serial features selection a = (serial, a') \<Longrightarrow> tunnel_part a' = tunnel_part a"
  by (auto simp: take_grab_serial_def Let_def split: if_split_asm)

lemma allocate_loop_part: "allocate_transfer_id_loop n a = Inr (transfer_id, a') \<Longrightarrow> tunnel_part a' = tunnel_part a"
  by (induction n arbitrary: a) (auto simp: Let_def split: if_split_asm)

lemma allocate_part: "AgentRuntime_allocate_transfer_id a = Inr (transfer_id, a') \<Longrightarrow> tunnel_part a' = tunnel_part a"
  unfolding AgentRuntime_allocate_transfer_id_def by (rule allocate_loop_part)

text \<open>Queueing after changes that the accounts do not see.\<close>

lemma queue_books_after: "AgentRuntime_queue t p b = Inr a' \<Longrightarrow> tunnel_ok a \<Longrightarrow> tunnel_part b = tunnel_part a \<Longrightarrow> books {#} a a'"
  using queue_books [of b] tunnel_part_same [of b a] books_after by blast

lemma queue_with_completion_books_after:
  "AgentRuntime_queue_with_completion t p c b = Inr a' \<Longrightarrow> tunnel_ok a \<Longrightarrow> tunnel_part b = tunnel_part a \<Longrightarrow> books {#c#} a a'"
  using queue_with_completion_books [of b] tunnel_part_same [of b a] books_after by blast

lemma prepare_layout_books: "tunnel_ok a \<Longrightarrow> prepare_layout desired a = Inr a' \<Longrightarrow> books {#} a a'"
  by (auto simp: prepare_layout_def Let_def split: if_split_asm option.split_asm intro: books_same queue_books_after)

lemma prepare_offers_books: "tunnel_ok a \<Longrightarrow> prepare_offers features selections a = Inr a' \<Longrightarrow> books {#} a a'"
proof (induction features selections a rule: prepare_offers.induct)
  case (2 features selection selections a)
  show ?case
  proof (cases "ar_desired_clipboard_offers a selection")
    case (Some types)
    obtain serial b where b: "take_grab_serial features selection a = (serial, b)" by (cases "take_grab_serial features selection a")
    show ?thesis
      using 2 Some b take_grab_serial_part [OF b]
      by (auto split: if_split_asm intro: books_after [of "mark_offer_sent selection a"] queue_books_after)
  qed (use 2 in simp)
qed (simp add: books_same)

lemma prepare_internal_books:
  "tunnel_ok a \<Longrightarrow> AgentRuntime_prepare_internal layout a = Inr (a', layout') \<Longrightarrow> books {#} a a'"
  by (auto simp: AgentRuntime_prepare_internal_def simp del: prepare_offers.simps split: if_split_asm
      intro: books_same queue_books_after prepare_layout_books prepare_offers_books)

lemma alist_update_new: "map_of al k = None \<Longrightarrow> AList.update k v al = al @ [(k, v)]"
  by (induction al) (auto split: if_split_asm)

lemma mset_alist_delete:
  "distinct (map fst al) \<Longrightarrow> map_of al k = Some v \<Longrightarrow>
     mset (map f al) = add_mset (f (k, v)) (mset (map f (AList.delete k al)))"
proof (induction al)
  case (Cons p al)
  obtain k' v' where p: "p = (k', v')" by (cases p)
  show ?case
  proof (cases "k' = k")
    case True
    then have "k \<notin> fst ` set al" using Cons.prems(1) p by (auto simp: image_iff)
    then have "AList.delete k al = al" by (induction al) auto
    then show ?thesis using True Cons.prems(2) p by simp
  next
    case False
    then show ?thesis using Cons p by simp
  qed
qed simp

lemma accept_offer_books: "tunnel_ok a \<Longrightarrow> accept_offer features selection types a = Inr a' \<Longrightarrow> books {#} a a'"
  by (auto simp: accept_offer_def Let_def split: if_split_asm prod.split_asm intro: books_same queue_books_after dest!: take_grab_serial_part)

lemma accept_release_books: "tunnel_ok a \<Longrightarrow> accept_release features selection a = Inr a' \<Longrightarrow> books {#} a a'"
  by (auto simp: accept_release_def Let_def split: if_split_asm intro: books_same queue_books_after)

lemma accept_read_books:
  assumes "tunnel_ok a" "accept_read features selection clipboard_type response a = Inr a'"
  shows "books {#response#} a a'"
proof (cases "af_clipboard_by_demand features \<and> map_of (ar_pending_reads a) selection = None")
  case True
  let ?p = "\<lparr>pr_generation = ar_generation a, pr_clipboard_type = clipboard_type, pr_response = response\<rparr>"
  let ?b = "a\<lparr>ar_pending_reads := ar_pending_reads a @ [(selection, ?p)]\<rparr>"
  have "books {#response#} a ?b"
    using assms(1) True by (auto simp: books_def tunnel_ok_def ledger_def pending_calls_def map_of_eq_None_iff)
  moreover obtain payload where "AgentRuntime_queue agent_message_CLIPBOARD_REQUEST payload ?b = Inr a'"
    using assms(2) True by (auto simp: accept_read_def alist_update_new)
  ultimately show ?thesis using books_trans [of _ a ?b "{#}"] queue_books books_ok by fastforce
next
  case False
  then show ?thesis using assms by (auto simp: accept_read_def intro: answer_books split: if_split_asm)
qed

lemma accept_provide_books: "tunnel_ok a \<Longrightarrow> accept_provide features request_id data a = Inr a' \<Longrightarrow> books {#} a a'"
  by (auto simp: accept_provide_def Let_def split: if_split_asm option.split_asm prod.split_asm intro: books_same queue_books_after)

lemma answer_books_after:
  "a' = answer_call call answer b \<Longrightarrow> tunnel_ok a \<Longrightarrow> tunnel_part b = tunnel_part a \<Longrightarrow> books {#call#} a a'"
  using answer_books [of b call answer] tunnel_part_same [of b a] books_after [of b a] by auto

lemma accept_start_file_books:
  assumes "tunnel_ok a" "accept_start_file features metadata response a = Inr a'"
  shows "books {#response#} a a'"
  using assms(2)
proof (cases rule: accept_start_file_cases)
  case (refused e)
  then show ?thesis using assms(1) answer_books by simp
next
  case (invalid transfer_id b)
  then show ?thesis using answer_books_after assms(1) allocate_part by blast
next
  case (started transfer_id b payload c)
  have "books {#} a c" by (rule queue_books_after [OF started(3) assms(1)]) (simp add: allocate_part [OF started(2)])
  then show ?thesis using started(4) books_trans [of "{#}" a c] answer_books books_ok by fastforce
qed

lemma accept_file_data_books:
  "tunnel_ok a \<Longrightarrow> accept_file_data transfer_id data completion a = Inr a' \<Longrightarrow> books {#completion#} a a'"
  by (auto simp: accept_file_data_def Let_def split: if_split_asm option.split_asm sum.split_asm abort.split_asm
      intro: answer_books queue_with_completion_books_after)

lemma accept_cancel_file_books:
  "tunnel_ok a \<Longrightarrow> accept_cancel_file transfer_id completion a = Inr a' \<Longrightarrow> books {#completion#} a a'"
  by (auto simp: accept_cancel_file_def Let_def split: option.split_asm intro: answer_books queue_with_completion_books_after)

lemma accept_volume_books: "tunnel_ok a \<Longrightarrow> accept_volume features volume a = Inr a' \<Longrightarrow> books {#} a a'"
  by (auto simp: accept_volume_def split: if_split_asm intro: books_same queue_books_after)

lemmas accept_books = accept_offer_books accept_release_books accept_read_books accept_provide_books accept_start_file_books
  accept_file_data_books accept_cancel_file_books accept_volume_books

lemma refuse_stale_books: "tunnel_ok a \<Longrightarrow> books (mset (command_call command)) a (refuse_stale_command command a)"
  by (cases command) (simp_all add: answer_books books_same)

lemma accept_command_books:
  "tunnel_ok a \<Longrightarrow> AgentRuntime_accept_command command a = Inr a' \<Longrightarrow> books (mset (command_call command)) a a'"
  by (auto simp: AgentRuntime_accept_command_def Let_def split: if_split_asm AgentCommand.split_asm
      intro: accept_books refuse_stale_books)

lemma send_one_books:
  assumes "tunnel_ok a" "AgentRuntime_send_one enc a ch = Inr (a', ch')"
  shows "books {#} a a'"
proof -
  obtain m where m: "ar_outbound a = Some m" "outbound_ok m" "outbound_rest m \<noteq> []"
    using assms by (auto simp: AgentRuntime_send_one_def tunnel_ok_def)
  obtain m' where m': "OutboundAgentMessage_next_fragment m = Inr (m', take 2048 (outbound_rest m))" "outbound_ok m'"
    using next_fragment_copies [OF m(2,3)] by auto
  show ?thesis
    using assms m m' outbound_complete_iff [OF m'(2)]
    by (auto simp: AgentRuntime_send_one_def Let_def books_def tunnel_ok_def ledger_def pending_calls_def answer_call_def
        split: if_split_asm option.split_asm)
qed

lemma decoder_ok_push:
  assumes "decoder_ok d" "AgentStreamDecoder_push_fragment_into d body out = (res, d', out')"
  shows "no_panic res \<and> (res = Inr () \<longrightarrow> decoder_ok d')"
proof (cases "fragment_ok body")
  case True
  then have push: "agent_push_loop d body out = (res, d', out')"
    using assms(2) by (simp add: AgentStreamDecoder_push_fragment_into_def fragment_ok_def)
  then have feed: "agent.feed (agent.state_of d) body out = (res, agent.state_of d', out')"
    using agent.push_refines [of d body out] assms(1) by (simp add: decoder_ok_def)
  have "no_panic res \<and> agent.bounded DEFAULT_MAX_AGENT_MESSAGE_BYTES (agent.state_of d')"
    using agent.feed_bounded [OF _ _ feed, of DEFAULT_MAX_AGENT_MESSAGE_BYTES] assms(1) by (simp add: decoder_ok_def)
  moreover have "agent.state_inv d' \<and> agent.waiting (agent.state_of d')" if "res = Inr ()"
    using that push feed assms(1) agent.push_inv [of d body out "()"] agent.feed_waiting [of "agent.state_of d" body out "()"]
    by (simp add: decoder_ok_def)
  ultimately show ?thesis by (simp add: decoder_ok_def)
next
  case False
  then show ?thesis using assms(2) by (auto simp: AgentStreamDecoder_push_fragment_into_def fragment_ok_def)
qed

lemma decoder_ok_reset: "decoder_ok d \<Longrightarrow> decoder_ok (AgentStreamDecoder_reset d)"
  by (auto simp: decoder_ok_def agent_state_of agent_abs_def AgentStreamDecoder_reset_def agent.state_inv_def agent.block_inv_def
      agent_view_def agent.bounded_def agent.waiting_def)


lemma dispatch_capabilities_part: "dispatch_capabilities payload a = Inr (kept, a') \<Longrightarrow> tunnel_part a' = tunnel_part a"
  by (auto simp: dispatch_capabilities_def Let_def tunnel_part_def)

lemma dispatch_grab_part: "dispatch_grab payload ss a = Inr (kept, a') \<Longrightarrow> tunnel_part a' = tunnel_part a"
  by (auto simp: dispatch_grab_def Let_def tunnel_part_def split: if_split_asm option.split_asm)

lemma dispatch_release_part: "dispatch_release payload ss a = Inr (kept, a') \<Longrightarrow> tunnel_part a' = tunnel_part a"
  by (auto simp: dispatch_release_def tunnel_part_def)

lemma dispatch_request_part: "dispatch_request payload ss credit a = Inr (kept, a') \<Longrightarrow> tunnel_part a' = tunnel_part a"
  by (auto simp: dispatch_request_def Let_def tunnel_part_def split: if_split_asm)

lemma dispatch_transfer_status_part: "dispatch_transfer_status payload a = Inr (kept, a') \<Longrightarrow> tunnel_part a' = tunnel_part a"
  by (erule dispatch_transfer_status_cases) auto

lemma dispatch_volume_part: "dispatch_volume payload a = Inr (kept, a') \<Longrightarrow> tunnel_part a' = tunnel_part a"
  by (auto simp: dispatch_volume_def tunnel_part_def)

lemma dispatch_devices_part: "dispatch_devices payload a = Inr (kept, a') \<Longrightarrow> tunnel_part a' = tunnel_part a"
  by (auto simp: dispatch_devices_def tunnel_part_def)

lemmas dispatch_part = dispatch_capabilities_part dispatch_grab_part dispatch_release_part dispatch_request_part
  dispatch_transfer_status_part dispatch_volume_part dispatch_devices_part

lemma distinct_alist_delete: "distinct (map fst al) \<Longrightarrow> distinct (map fst (AList.delete k al))"
  by (rule distinct_delete)

lemma read_answered_books:
  assumes "tunnel_ok a" "map_of (ar_pending_reads a) selection = Some pending"
  shows "books {#} a (answer_call (pr_response pending) answer (a\<lparr>ar_pending_reads := AList.delete selection (ar_pending_reads a)\<rparr>))"
  using assms(1) mset_alist_delete [OF _ assms(2), of "pr_response \<circ> snd"]
  by (simp add: books_def tunnel_ok_def ledger_def pending_calls_def answer_call_def distinct_alist_delete)

lemma dispatch_data_books: "tunnel_ok a \<Longrightarrow> dispatch_data payload ss a = Inr (kept, a') \<Longrightarrow> books {#} a a'"
  by (auto simp: dispatch_data_def Let_def simp del: map_of_eq_Some_iff split: if_split_asm option.split_asm
      intro: books_same read_answered_books)

lemma dispatch_message_books:
  "AgentRuntime_dispatch_agent_message message credit a = Inr (kept, a') \<Longrightarrow> tunnel_ok a \<Longrightarrow> books {#} a a'"
  by (auto simp: AgentRuntime_dispatch_agent_message_def Let_def split: if_split_asm intro: books_same dispatch_part dispatch_data_books)

lemma dispatch_messages_books:
  "dispatch_agent_messages messages credit retained a = Inr (kept, a') \<Longrightarrow> tunnel_ok a \<Longrightarrow> books {#} a a'"
proof (induction messages arbitrary: retained a)
  case (Cons message messages)
  then obtain k b where b: "AgentRuntime_dispatch_agent_message message credit a = Inr (k, b)"
    "dispatch_agent_messages messages credit (retained \<or> k) b = Inr (kept, a')" by auto
  have "books {#} a b" using dispatch_message_books [OF b(1)] Cons.prems(2) by simp
  from books_trans [OF this Cons.IH [OF b(2) books_ok [OF this]]] show ?case by simp
qed (simp add: books_same)

lemma return_credit_part: "return_credit credit a = Inr a' \<Longrightarrow> tunnel_part a' = tunnel_part a"
  by (auto simp: return_credit_def tunnel_part_def)

lemma handle_fragment_books:
  assumes "tunnel_ok a" "AgentRuntime_handle_fragment body a = Inr a'"
  shows "books {#} a a'"
proof -
  obtain d messages where push: "AgentStreamDecoder_push_fragment_into (ar_decoder a) body [] = (Inr (), d, messages)"
    using assms(2) by (auto simp: AgentRuntime_handle_fragment_def Let_def split: if_split_asm prod.split_asm)
  let ?b = "a\<lparr>ar_inbound_tokens := ar_inbound_tokens a - 1, ar_decoder := d, ar_next_allocation := Suc (ar_next_allocation a)\<rparr>"
  let ?c = "\<lparr>ic_generation = ar_generation a, ic_allocation = ar_next_allocation a\<rparr>"
  obtain kept c where c: "dispatch_agent_messages messages ?c False ?b = Inr (kept, c)"
    "(if kept then Inr c else return_credit ?c c) = Inr a'"
    using assms(2) push by (auto simp: AgentRuntime_handle_fragment_def Let_def split: if_split_asm)
  have "tunnel_ok ?b" "ledger ?b = ledger a"
    using decoder_ok_push [OF _ push] assms(1) by (auto simp: tunnel_ok_def ledger_def pending_calls_def)
  then have "books {#} a c" using dispatch_messages_books [OF c(1)] by (simp add: books_def)
  moreover have "tunnel_part a' = tunnel_part c" using c(2) return_credit_part by (auto split: if_split_asm)
  ultimately show ?thesis using tunnel_part_same [of a' c] by (simp add: books_def)
qed

lemma fail_pending_part [simp]:
  "decoder_ok (ar_decoder (AgentRuntime_fail_pending_reads e a)) = decoder_ok (ar_decoder a)"
  "ar_pending_reads (AgentRuntime_fail_pending_reads e a) = []"
  "ledger (AgentRuntime_fail_pending_reads e a) = ledger a"
  "ar_outbound_completion (AgentRuntime_fail_pending_reads e a) = ar_outbound_completion a"
  "ar_outbound (AgentRuntime_fail_pending_reads e a) = ar_outbound a"
  "tunnel_part (AgentRuntime_fail_transfers a) = tunnel_part a"
  by (auto simp: AgentRuntime_fail_pending_reads_def AgentRuntime_fail_transfers_def tunnel_part_def ledger_def pending_calls_def
      case_prod_beta comp_def)

lemma fail_outbound_part [simp]:
  "decoder_ok (ar_decoder (fail_outbound_completion a)) = decoder_ok (ar_decoder a)"
  "ar_pending_reads (fail_outbound_completion a) = ar_pending_reads a"
  "ledger (fail_outbound_completion a) = ledger a"
  "ar_outbound_completion (fail_outbound_completion a) = None"
  "ar_outbound (fail_outbound_completion a) = ar_outbound a"
  by (auto simp: fail_outbound_completion_def answer_call_def ledger_def pending_calls_def split: option.split)


lemma fail_transfers_part [simp]:
  "ar_decoder (AgentRuntime_fail_transfers a) = ar_decoder a" "ar_pending_reads (AgentRuntime_fail_transfers a) = ar_pending_reads a"
  "ar_outbound (AgentRuntime_fail_transfers a) = ar_outbound a" "ledger (AgentRuntime_fail_transfers a) = ledger a"
  "ar_outbound_completion (AgentRuntime_fail_transfers a) = ar_outbound_completion a"
  by (simp_all add: AgentRuntime_fail_transfers_def ledger_def pending_calls_def)

lemma ledger_frame:
  "ar_pending_reads a' = ar_pending_reads a \<Longrightarrow> ar_outbound_completion a' = ar_outbound_completion a \<Longrightarrow>
     as_answers (ar_sinks a') = as_answers (ar_sinks a) \<Longrightarrow> ledger a' = ledger a"
  by (simp add: ledger_def pending_calls_def)

lemma begin_generation_books:
  assumes "tunnel_ok a" "AgentRuntime_begin_generation enc a ch = Inr (a', ch')"
  shows "books {#} a a' \<and> pending_calls a' = {#}"
proof -
  let ?f = "fail_outbound_completion (AgentRuntime_fail_transfers (AgentRuntime_fail_pending_reads AgentSendError_StaleGeneration a))"
  have part: "ar_outbound a' = None" "ar_outbound_completion a' = None" "ar_pending_reads a' = []"
    "ar_decoder a' = AgentStreamDecoder_reset (ar_decoder ?f)" "as_answers (ar_sinks a') = as_answers (ar_sinks ?f)"
    using assms(2) by (auto simp: AgentRuntime_begin_generation_def Let_def)
  have "ledger a' = ledger ?f" by (rule ledger_frame) (simp_all add: part)
  moreover have "decoder_ok (ar_decoder ?f)" using assms(1) by (simp add: tunnel_ok_def)
  ultimately show ?thesis using part decoder_ok_reset by (simp add: books_def tunnel_ok_def pending_calls_def)
qed

lemma disconnect_books:
  assumes "tunnel_ok a"
  shows "books {#} a (AgentRuntime_disconnect reason a) \<and> pending_calls (AgentRuntime_disconnect reason a) = {#}"
proof -
  let ?r = "AgentStreamDecoder_reset (ar_decoder a)"
  let ?a = "a\<lparr>ar_connected := False, ar_ready := False, ar_inbound_tokens := 0, ar_decoder := ?r, ar_outbound := None\<rparr>"
  let ?b = "(fail_outbound_completion ?a)\<lparr>ar_announce_pending := False, ar_max_clipboard_pending := False, ar_peer_capabilities := CapabilitySet_new\<rparr>"
  let ?f = "AgentRuntime_fail_transfers (AgentRuntime_fail_pending_reads AgentSendError_StaleGeneration ?b)"
  let ?d = "AgentRuntime_disconnect reason a"
  have d: "?d = update_sinks (\<lambda>s. s\<lparr>as_offers := ClipboardOffers_default, as_audio_volume := None, as_graphics_devices := None,
        as_state := AgentState_Disconnected (ar_connection_generation ?f) (ar_generation ?f) reason\<rparr>) (?f\<lparr>ar_pending_host_requests := []\<rparr>)"
    by (simp add: AgentRuntime_disconnect_def Let_def)
  have "ledger ?d = ledger ?f" unfolding d by (rule ledger_frame) simp_all
  moreover have "ledger ?b = ledger (fail_outbound_completion ?a)" by (rule ledger_frame) simp_all
  moreover have "ledger ?a = ledger a" by (rule ledger_frame) simp_all
  ultimately have "ledger ?d = ledger a" by simp
  moreover have "decoder_ok (ar_decoder ?f)" using assms decoder_ok_reset by (simp add: tunnel_ok_def)
  moreover have "ar_outbound ?d = None" "ar_outbound_completion ?d = None" "ar_pending_reads ?d = []" "ar_decoder ?d = ar_decoder ?f"
    unfolding d by simp_all
  ultimately show ?thesis by (simp add: books_def tunnel_ok_def pending_calls_def)
qed

lemma books_before: "books calls a b \<Longrightarrow> tunnel_part c = tunnel_part b \<Longrightarrow> books calls a c"
  using tunnel_part_same [of c b] by (simp add: books_def)

lemma handle_server_message_books:
  assumes "tunnel_ok a" "AgentRuntime_handle_server_message enc message_type body a ch = Inr (handled, a', ch')"
  shows "books {#} a a'"
proof -
  consider (started) b where "AgentRuntime_begin_generation enc b ch = Inr (a', ch')" "tunnel_part b = tunnel_part a"
    | (disconnect) reason where "a' = AgentRuntime_disconnect reason a"
    | (fragment) "AgentRuntime_handle_fragment body a = Inr a'"
    | (same) "tunnel_part a' = tunnel_part a"
    using assms(2) unfolding AgentRuntime_handle_server_message_def by (auto split: if_split_asm)
  then show ?thesis
  proof cases
    case started
    then show ?thesis using begin_generation_books [of b] books_after tunnel_part_same [of b a] assms(1) by blast
  qed (use assms(1) disconnect_books handle_fragment_books books_same in blast)+
qed

lemma reinitialize_books:
  assumes "tunnel_ok a" "AgentRuntime_reinitialize_after_migration enc connected tokens reason a ch = Inr (a', ch')"
  shows "books {#} a a' \<and> pending_calls a' = {#}"
proof -
  let ?d = "AgentRuntime_disconnect reason a"
  let ?b = "?d\<lparr>ar_outbound_tokens := tokens, ar_connected := connected\<rparr>"
  have b: "books {#} a ?b" using disconnect_books [OF assms(1), of reason] by (auto intro: books_before)
  have p: "pending_calls ?b = {#}" using disconnect_books [OF assms(1), of reason] by (simp add: pending_calls_def)
  show ?thesis
  proof (cases connected)
    case True
    then have "AgentRuntime_begin_generation enc ?b ch = Inr (a', ch')"
      using assms(2) by (simp add: AgentRuntime_reinitialize_after_migration_def Let_def)
    from begin_generation_books [OF books_ok [OF b] this] show ?thesis using books_trans [OF b] by fastforce
  next
    case False
    then show ?thesis using assms(2) b p by (simp add: AgentRuntime_reinitialize_after_migration_def Let_def)
  qed
qed

lemma send_credits_part: "AgentRuntime_send_returned_credits enc a ch = Inr (a', ch') \<Longrightarrow> tunnel_part a' = tunnel_part a"
  by (auto simp: AgentRuntime_send_returned_credits_def Let_def tunnel_part_def split: if_split_asm option.split_asm prod.split_asm)

section \<open>Every call is answered once\<close>

text \<open>The calls handed to the runtime are those answered and those pending.\<close>

definition calls_ok :: "'c AgentWorld \<Rightarrow> bool" where
  "calls_ok w \<longleftrightarrow> tunnel_ok (aw_runtime w) \<and> mset (aw_calls w) = ledger (aw_runtime w)"

lemma calls_ok_books:
  "calls_ok w \<Longrightarrow> books (mset new) (aw_runtime w) (aw_runtime w') \<Longrightarrow> aw_calls w' = aw_calls w @ new \<Longrightarrow> calls_ok w'"
  by (simp add: calls_ok_def books_def)

lemma calls_ok_same: "calls_ok w \<Longrightarrow> tunnel_part (aw_runtime w') = tunnel_part (aw_runtime w) \<Longrightarrow> aw_calls w' = aw_calls w \<Longrightarrow> calls_ok w'"
  using calls_ok_books [of w "[]" w'] books_same by (simp add: calls_ok_def)

lemma release_event_calls: "release_event event w = Inr w' \<Longrightarrow> calls_ok w \<Longrightarrow> calls_ok w'"
  by (auto simp: release_event_def split: if_split_asm dest!: return_credit_part elim!: calls_ok_same)

lemma release_events_calls: "release_events events w = Inr w' \<Longrightarrow> calls_ok w \<Longrightarrow> calls_ok w'"
proof (induction events arbitrary: w)
  case (Cons event events)
  let ?v = "w\<lparr>aw_runtime := update_sinks (\<lambda>s. s\<lparr>as_events := events\<rparr>) (aw_runtime w)\<rparr>"
  obtain u where u: "release_event event ?v = Inr u" "release_events events u = Inr w'" using Cons.prems(1) by auto
  have "calls_ok ?v" by (rule calls_ok_same [OF Cons.prems(2)]) (simp_all add: tunnel_part_def)
  then show ?case using Cons.IH [OF u(2)] release_event_calls [OF u(1)] by simp
qed simp

lemma calls_ok_step:
  assumes ok: "calls_ok w" and step: "agent_step enc act w = Inr w'"
  shows "calls_ok w'"
proof -
  have t: "tunnel_ok (aw_runtime w)" using ok by (simp add: calls_ok_def)
  note keep = calls_ok_books [OF ok, of "[]"] calls_ok_same [OF ok]
  show ?thesis
  proof (cases act)
    case Act_prepare
    then show ?thesis using step t by (auto intro!: keep(1) dest: prepare_internal_books)
  next
    case (Act_server message_type body)
    then show ?thesis using step t by (auto intro!: keep(1) dest: handle_server_message_books)
  next
    case (Act_migrated connected tokens reason)
    then show ?thesis using step t by (auto intro!: keep(1) dest: reinitialize_books)
  next
    case Act_send
    then show ?thesis using step t ok by (auto intro!: keep(1) split: if_split_asm dest: send_one_books)
  next
    case (Act_command command)
    then show ?thesis using step t ok
      by (auto intro!: calls_ok_books [OF ok, of "command_call command"] split: if_split_asm dest: accept_command_books)
  next
    case Act_layout_seen
    then show ?thesis using step by (auto intro!: keep(2))
  next
    case Act_credits
    then show ?thesis using step ok by (auto intro!: keep(2) split: if_split_asm dest: send_credits_part)
  next
    case (Act_host_layout monitors)
    then show ?thesis using step by (auto intro!: keep(2) split: sum.split)
  next
    case Act_host_next
    then show ?thesis using step by (auto intro!: keep(2) simp: tunnel_part_def split: list.split)
  next
    case (Act_host_drop i)
    let ?v = "w\<lparr>aw_host := take i (aw_host w) @ drop (Suc i) (aw_host w)\<rparr>"
    have "calls_ok ?v" by (rule keep(2)) simp_all
    then show ?thesis using step Act_host_drop ok release_event_calls by (auto split: if_split_asm)
  next
    case Act_host_close
    let ?v = "w\<lparr>aw_runtime := update_sinks (\<lambda>s. s\<lparr>as_events_open := False\<rparr>) (aw_runtime w)\<rparr>"
    have "calls_ok ?v" by (rule keep(2)) (simp_all add: tunnel_part_def)
    then show ?thesis using step Act_host_close release_events_calls by auto
  qed
qed

lemma calls_ok_run: "agent_run enc acts w = Inr w' \<Longrightarrow> calls_ok w \<Longrightarrow> calls_ok w'"
  by (induction acts arbitrary: w) (auto dest: calls_ok_step)

lemma decoder_ok_new: "AgentStreamDecoder_new DEFAULT_MAX_AGENT_MESSAGE_BYTES = Inr d \<Longrightarrow> decoder_ok d"
  by (auto simp: AgentStreamDecoder_new_def decoder_ok_def agent_state_of agent_abs_def agent.state_inv_def agent.block_inv_def
      agent_view_def agent.bounded_def agent.waiting_def)

lemma new_tunnel_ok:
  "AgentRuntime_new connection_generation connected tokens (agent_sinks connection_generation) = Inr a \<Longrightarrow>
     tunnel_ok a \<and> ledger a = {#}"
  by (auto simp: AgentRuntime_new_def tunnel_ok_def ledger_def pending_calls_def agent_sinks_def
      simp del: DEFAULT_MAX_AGENT_MESSAGE_BYTES_def dest: decoder_ok_new split: sum.split_asm)

lemma calls_ok_start:
  assumes "agent_start enc connection_generation connected tokens ch = Inr w"
  shows "calls_ok w"
proof -
  obtain a a' ch' where a: "AgentRuntime_new connection_generation connected tokens (agent_sinks connection_generation) = Inr a"
    and i: "AgentRuntime_initialize enc a ch = Inr (a', ch')" and w: "aw_runtime w = a'" "aw_calls w = []"
    using assms by (auto simp: agent_start_def)
  have "books {#} a a'"
    using i new_tunnel_ok [OF a] begin_generation_books [of a enc ch a' ch'] books_same [of a a]
    by (auto simp: AgentRuntime_initialize_def split: if_split_asm)
  then show ?thesis using w new_tunnel_ok [OF a] by (simp add: calls_ok_def books_def)
qed


section \<open>The tunnel does not panic\<close>

lemma no_panic_option [no_panic_intros]:
  "(v = None \<Longrightarrow> no_panic m) \<Longrightarrow> (\<And>x. v = Some x \<Longrightarrow> no_panic (f x)) \<Longrightarrow> no_panic (case v of None \<Rightarrow> m | Some x \<Rightarrow> f x)"
  by (cases v) simp_all

lemma no_panic_fallible [no_panic_intros]:
  "no_panic m \<Longrightarrow> (\<And>e. no_panic (f e)) \<Longrightarrow> (\<And>x. m = Inr x \<Longrightarrow> no_panic (g x)) \<Longrightarrow>
     no_panic (case m of Inl e \<Rightarrow> (case e of Panic \<Rightarrow> Inl Panic | Err e \<Rightarrow> f e) | Inr x \<Rightarrow> g x)"
  by (auto simp: no_panic_def split: sum.splits abort.splits)

lemma no_panic_encoders [no_panic_intros]:
  "no_panic (encode_clipboard_grab selection serial types ss)" "no_panic (encode_clipboard_request selection type ss)"
  "no_panic (encode_clipboard_data selection type data ss)" "no_panic (encode_clipboard_release selection ss)"
  "no_panic (encode_file_transfer_start transfer_id name file_size)" "no_panic (encode_file_transfer_data transfer_id data)"
  "no_panic (encode_file_transfer_status transfer_id status)" "no_panic (encode_audio_volume_sync volume)"
  unfolding encode_clipboard_grab_def encode_clipboard_request_def encode_clipboard_data_def encode_clipboard_release_def
    encode_file_transfer_start_def encode_file_transfer_data_def encode_file_transfer_status_def encode_audio_volume_sync_def
  by (intro no_panic_intros)+

lemma no_panic_encode_monitors [no_panic_intros]: "no_panic (encode_monitors_config monitors use_positions sparse physical)"
  unfolding encode_monitors_config_def check_monitor_def checked_array_bytes_def by (intro no_panic_intros)

lemma no_panic_local_capabilities [no_panic_intros]: "no_panic local_agent_capabilities"
  unfolding local_agent_capabilities_def CapabilitySet_from_bits_def CapabilitySet_insert_all.simps CapabilitySet_insert_def
  by (intro no_panic_intros)

lemma no_panic_queue [no_panic_intros]: "no_panic (AgentRuntime_queue t p a)" "no_panic (AgentRuntime_queue_with_completion t p c a)"
  unfolding AgentRuntime_queue_with_completion_def AgentRuntime_queue_def OutboundAgentMessage_new_def by (intro no_panic_intros)+

lemma no_panic_allocate [no_panic_intros]: "no_panic (AgentRuntime_allocate_transfer_id a)"
proof -
  have "no_panic (allocate_transfer_id_loop n a)" for n by (induction n arbitrary: a) (auto simp: Let_def)
  then show ?thesis unfolding AgentRuntime_allocate_transfer_id_def by blast
qed

lemma no_panic_prepare_offers [no_panic_intros]: "no_panic (prepare_offers features selections a)"
proof (induction features selections a rule: prepare_offers.induct)
  case (2 features selection selections a)
  show ?case unfolding prepare_offers.simps by (intro no_panic_intros) (use 2 in auto)
qed simp

lemma no_panic_prepare [no_panic_intros]: "no_panic (AgentRuntime_prepare_internal layout a)"
  unfolding AgentRuntime_prepare_internal_def prepare_layout_def by (intro no_panic_intros)

lemma no_panic_validate_clipboard [no_panic_intros]: "no_panic (validate_clipboard_payload type data)"
  by (cases type) (auto simp: validate_clipboard_payload_def intro!: no_panic_intros)

lemma no_panic_accept [no_panic_intros]:
  "no_panic (accept_offer features selection types a)" "no_panic (accept_release features selection a)"
  "no_panic (accept_read features selection type response a)" "no_panic (accept_provide features request_id data a)"
  "no_panic (accept_start_file features metadata response a)" "no_panic (accept_file_data transfer_id data completion a)"
  "no_panic (accept_cancel_file transfer_id completion a)" "no_panic (accept_volume features volume a)"
  unfolding accept_offer_def accept_release_def accept_read_def accept_provide_def accept_start_file_def accept_file_data_def
    accept_cancel_file_def accept_volume_def
  by (intro no_panic_intros)+

lemma no_panic_accept_command [no_panic_intros]: "no_panic (AgentRuntime_accept_command command a)"
  by (cases command) (auto simp: AgentRuntime_accept_command_def Let_def intro: no_panic_intros)

lemma no_panic_dispatch [no_panic_intros]:
  "no_panic (dispatch_capabilities payload a)" "no_panic (dispatch_grab payload ss a)" "no_panic (dispatch_release payload ss a)"
  "no_panic (dispatch_request payload ss credit a)" "no_panic (dispatch_data payload ss a)" "no_panic (dispatch_volume payload a)"
  "no_panic (dispatch_devices payload a)"
  unfolding dispatch_capabilities_def dispatch_grab_def dispatch_release_def dispatch_request_def dispatch_data_def
    dispatch_volume_def dispatch_devices_def
  by (intro no_panic_intros clipboard_type.try_from_error)+

lemma no_panic_dispatch_status [no_panic_intros]: "no_panic (dispatch_transfer_status payload a)"
  unfolding dispatch_transfer_status_def
  by (intro no_panic_intros) (auto intro!: no_panic_intros split: AgentFileTransferStatus.split)

lemma no_panic_dispatch_message [no_panic_intros]: "no_panic (AgentRuntime_dispatch_agent_message message credit a)"
  unfolding AgentRuntime_dispatch_agent_message_def by (intro no_panic_intros)

lemma no_panic_dispatch_messages [no_panic_intros]: "no_panic (dispatch_agent_messages messages credit retained a)"
proof (induction messages arbitrary: retained a)
  case (Cons message messages)
  then show ?case unfolding dispatch_agent_messages.simps by (intro no_panic_intros)
qed simp

lemma no_panic_begin [no_panic_intros]: "no_panic (AgentRuntime_begin_generation enc a ch)"
  unfolding AgentRuntime_begin_generation_def by (intro no_panic_intros)

lemma no_panic_reinitialize [no_panic_intros]: "no_panic (AgentRuntime_reinitialize_after_migration enc connected tokens reason a ch)"
  unfolding AgentRuntime_reinitialize_after_migration_def by (intro no_panic_intros)

lemma no_panic_send_credits [no_panic_intros]: "no_panic (AgentRuntime_send_returned_credits enc a ch)"
  unfolding AgentRuntime_send_returned_credits_def by (intro no_panic_intros)

lemma no_panic_send_one: "tunnel_ok a \<Longrightarrow> no_panic (AgentRuntime_send_one enc a ch)"
  unfolding AgentRuntime_send_one_def
  by (intro no_panic_intros) (use next_fragment_copies in \<open>fastforce simp: tunnel_ok_def\<close>)


text \<open>Returning a credit would panic when the pending counter overflows; the window bounds it.\<close>

lemma no_panic_return_credit: "unat (cr_pending (as_credit_returns (ar_sinks a))) \<le> 10 \<Longrightarrow> no_panic (return_credit credit a)"
  unfolding return_credit_def AgentCreditReturns_return_now_def
  by (intro no_panic_intros) (simp add: u32_checked_add_def)

lemma window_pending: "window_ok w \<Longrightarrow> unat (cr_pending (as_credit_returns (ar_sinks (aw_runtime w)))) \<le> 10"
  by (auto simp: window_ok_def window_used_def split: if_split_asm)

lemma no_panic_handle_fragment:
  assumes "tunnel_ok a" "unat (cr_pending (as_credit_returns (ar_sinks a))) \<le> 10"
  shows "no_panic (AgentRuntime_handle_fragment body a)"
proof -
  obtain res d messages where push: "AgentStreamDecoder_push_fragment_into (ar_decoder a) body [] = (res, d, messages)"
    by (metis prod_cases3)
  have "no_panic res" using decoder_ok_push [OF _ push] assms(1) by (simp add: tunnel_ok_def)
  moreover have "unat (cr_pending (as_credit_returns (ar_sinks c))) \<le> 10"
    if "dispatch_agent_messages ms credit False (a\<lparr>ar_inbound_tokens := t, ar_decoder := d, ar_next_allocation := n\<rparr>) = Inr (k, c)"
    for ms credit t n k c
    using dispatch_messages_flow [OF that] assms(2) by (auto simp: flow_grown_def flow_part_def)
  ultimately show ?thesis
    unfolding AgentRuntime_handle_fragment_def using push
    by (simp add: Let_def) (intro no_panic_intros no_panic_return_credit impI conjI; auto)
qed

lemma no_panic_handle_server_message:
  assumes "tunnel_ok a" "unat (cr_pending (as_credit_returns (ar_sinks a))) \<le> 10"
  shows "no_panic (AgentRuntime_handle_server_message enc message_type body a ch)"
  unfolding AgentRuntime_handle_server_message_def decode_agent_u32_def
  by (intro no_panic_intros no_panic_handle_fragment [OF assms] safe_reader_intros)

lemma no_panic_step:
  assumes inv: "window_inv n w" and ok: "calls_ok w"
  shows "no_panic (agent_step enc act w)"
proof -
  have t: "tunnel_ok (aw_runtime w)" using ok by (simp add: calls_ok_def)
  have p: "unat (cr_pending (as_credit_returns (ar_sinks (aw_runtime w)))) \<le> 10"
    using inv window_pending [of w] by (simp add: window_inv_def)
  show ?thesis
  proof (cases act)
    case Act_host_close
    let ?v = "w\<lparr>aw_runtime := update_sinks (\<lambda>s. s\<lparr>as_events_open := False\<rparr>) (aw_runtime w)\<rparr>"
    have "window_inv (Suc n) ?v" by (rule window_inv_flow [OF inv]) (simp_all add: flow_part_def)
    then show ?thesis using release_events_window [of ?v] Act_host_close by (auto simp: window_inv_def)
  next
    case (Act_host_drop i)
    then show ?thesis using p
      by (auto simp: release_event_def intro!: no_panic_intros no_panic_return_credit)
  next
    case (Act_server message_type body)
    then show ?thesis using no_panic_handle_server_message [OF t p] by (auto intro!: no_panic_intros)
  next
    case Act_send
    then show ?thesis using no_panic_send_one [OF t] by (auto intro!: no_panic_intros)
  qed (auto intro!: no_panic_intros)
qed

lemma no_panic_run:
  "window_inv n w \<Longrightarrow> calls_ok w \<Longrightarrow> n + length acts < 2 ^ 64 \<Longrightarrow> no_panic (agent_run enc acts w)"
proof (induction acts arbitrary: n w)
  case (Cons act acts)
  have "no_panic (agent_run enc acts v)" if "agent_step enc act w = Inr v" for v
    using Cons.IH [OF window_inv_step [OF Cons.prems(1) _ that] calls_ok_step [OF Cons.prems(2) that]] Cons.prems(3) by simp
  then show ?case using no_panic_step [OF Cons.prems(1,2)] by (auto intro!: no_panic_intros)
qed simp

lemma no_panic_start: "no_panic (agent_start enc connection_generation connected tokens ch)"
  unfolding agent_start_def AgentRuntime_new_def AgentRuntime_initialize_def
  by (intro no_panic_intros) (simp add: AgentStreamDecoder_new_def)


section \<open>Nothing is pending while no agent is connected\<close>

definition quiet_ok :: "AgentRuntime \<Rightarrow> bool" where
  "quiet_ok a \<longleftrightarrow> ar_connected a \<or> \<not> ar_ready a \<and> pending_calls a = {#}"

lemma fragment_connected: "AgentRuntime_handle_fragment body a = Inr a' \<Longrightarrow> ar_connected a'"
proof -
  assume step: "AgentRuntime_handle_fragment body a = Inr a'"
  then obtain d messages credit t n kept c where conn: "ar_connected a" and
    c: "dispatch_agent_messages messages credit False (a\<lparr>ar_inbound_tokens := t, ar_decoder := d, ar_next_allocation := n\<rparr>) = Inr (kept, c)"
    "a' = c \<or> return_credit credit c = Inr a'"
    by (auto simp: AgentRuntime_handle_fragment_def Let_def split: if_split_asm prod.split_asm)
  have "ar_connected c" using dispatch_messages_flow [OF c(1)] conn by (auto simp: flow_grown_def flow_part_def)
  then show ?thesis using c(2) by (auto simp: return_credit_def)
qed

lemma begin_connected: "AgentRuntime_begin_generation enc a ch = Inr (a', ch') \<Longrightarrow> ar_connected a' = ar_connected a"
  using begin_generation_flow [of enc a ch a' ch'] by (auto simp: flow_part_def)

lemma disconnect_quiet: "tunnel_ok a \<Longrightarrow> quiet_ok (AgentRuntime_disconnect reason a)"
  using disconnect_books [of a reason] disconnect_flow [of reason a]
  by (auto simp: quiet_ok_def AgentRuntime_disconnect_def Let_def AgentRuntime_fail_transfers_def AgentRuntime_fail_pending_reads_def
      fail_outbound_completion_def answer_call_def split: option.split_asm)

lemma quiet_same:
  "quiet_ok a \<Longrightarrow> ar_connected a' = ar_connected a \<Longrightarrow> ar_ready a' = ar_ready a \<Longrightarrow> tunnel_part a' = tunnel_part a \<Longrightarrow> quiet_ok a'"
  by (auto simp: quiet_ok_def tunnel_part_def pending_calls_def)

lemma quiet_connected: "ar_connected a' \<Longrightarrow> quiet_ok a'"
  by (simp add: quiet_ok_def)

lemma send_one_connected: "AgentRuntime_send_one enc a ch = Inr (a', ch') \<Longrightarrow> ar_connected a' = ar_connected a"
  using send_one_flow [of enc a ch a' ch'] by (simp add: flow_part_def)

lemma server_quiet:
  assumes "tunnel_ok a" "quiet_ok a" "AgentRuntime_handle_server_message enc message_type body a ch = Inr (handled, a', ch')"
  shows "quiet_ok a'"
proof -
  consider (started) b where "AgentRuntime_begin_generation enc b ch = Inr (a', ch')" "ar_connected b"
    | (disconnect) reason where "a' = AgentRuntime_disconnect reason a"
    | (fragment) "AgentRuntime_handle_fragment body a = Inr a'"
    | (same) "tunnel_part a' = tunnel_part a" "ar_connected a' = ar_connected a" "ar_ready a' = ar_ready a"
    using assms(3) unfolding AgentRuntime_handle_server_message_def by (auto split: if_split_asm)
  then show ?thesis
  proof cases
    case started
    then show ?thesis using begin_connected quiet_connected by blast
  next
    case same
    then show ?thesis using quiet_same [OF assms(2)] by blast
  qed (use assms disconnect_quiet fragment_connected quiet_connected in blast)+
qed

lemma reinitialize_quiet:
  assumes "tunnel_ok a" "AgentRuntime_reinitialize_after_migration enc connected tokens reason a ch = Inr (a', ch')"
  shows "quiet_ok a'"
proof (cases connected)
  case True
  then show ?thesis using assms(2) begin_connected quiet_connected by (fastforce simp: AgentRuntime_reinitialize_after_migration_def Let_def)
next
  case False
  then have "a' = (AgentRuntime_disconnect reason a)\<lparr>ar_outbound_tokens := tokens, ar_connected := False\<rparr>"
    using assms(2) by (simp add: AgentRuntime_reinitialize_after_migration_def Let_def)
  moreover have "\<not> ar_connected (AgentRuntime_disconnect reason a)" using disconnect_flow [of reason a] by (simp add: flow_part_def)
  ultimately show ?thesis using disconnect_quiet [OF assms(1), of reason] by (auto simp: quiet_ok_def pending_calls_def)
qed

lemma release_event_quiet: "release_event event w = Inr w' \<Longrightarrow> quiet_ok (aw_runtime w) \<Longrightarrow> quiet_ok (aw_runtime w')"
  by (auto simp: release_event_def return_credit_def quiet_ok_def pending_calls_def split: if_split_asm)

lemma release_events_quiet: "release_events events w = Inr w' \<Longrightarrow> quiet_ok (aw_runtime w) \<Longrightarrow> quiet_ok (aw_runtime w')"
proof (induction events arbitrary: w)
  case (Cons event events)
  let ?v = "w\<lparr>aw_runtime := update_sinks (\<lambda>s. s\<lparr>as_events := events\<rparr>) (aw_runtime w)\<rparr>"
  obtain u where u: "release_event event ?v = Inr u" "release_events events u = Inr w'" using Cons.prems(1) by auto
  have "quiet_ok (aw_runtime ?v)" using Cons.prems(2) by (simp add: quiet_ok_def pending_calls_def)
  then show ?case using Cons.IH [OF u(2)] release_event_quiet [OF u(1)] by blast
qed simp

lemma ready_connected: "quiet_ok a \<Longrightarrow> AgentRuntime_can_accept_command a \<Longrightarrow> ar_connected a"
  by (auto simp: quiet_ok_def AgentRuntime_can_accept_command_def)

lemma quiet_step:
  assumes ok: "calls_ok w" and quiet: "quiet_ok (aw_runtime w)" and step: "agent_step enc act w = Inr w'"
  shows "quiet_ok (aw_runtime w')"
proof -
  have t: "tunnel_ok (aw_runtime w)" using ok by (simp add: calls_ok_def)
  show ?thesis
  proof (cases act)
    case Act_prepare
    then obtain a layout where a: "AgentRuntime_prepare_internal (aw_layout w) (aw_runtime w) = Inr (a, layout)" "aw_runtime w' = a"
      using step by auto
    show ?thesis
    proof (cases "ar_connected (aw_runtime w)")
      case True
      then show ?thesis using a prepare_internal_flow [OF a(1)] by (simp add: quiet_ok_def flow_part_def)
    next
      case False
      then show ?thesis using a quiet by (simp add: AgentRuntime_prepare_internal_def)
    qed
  next
    case (Act_server message_type body)
    then show ?thesis using step server_quiet [OF t quiet] by auto
  next
    case (Act_migrated connected tokens reason)
    then show ?thesis using step reinitialize_quiet [OF t] by auto
  next
    case Act_send
    then show ?thesis using step quiet
      by (auto simp: AgentRuntime_can_send_def quiet_ok_def split: if_split_asm dest!: send_one_connected)
  next
    case (Act_command command)
    then show ?thesis using step quiet accept_command_flow ready_connected [OF quiet] quiet_connected
      by (fastforce simp: flow_part_def split: if_split_asm)
  next
    case Act_credits
    then show ?thesis using step quiet
      by (auto simp: AgentRuntime_send_returned_credits_def Let_def quiet_ok_def pending_calls_def
          split: if_split_asm option.split_asm prod.split_asm)
  next
    case (Act_host_drop i)
    then show ?thesis using step quiet by (auto split: if_split_asm dest!: release_event_quiet)
  next
    case Act_host_close
    then show ?thesis using step quiet by (auto dest!: release_events_quiet simp: quiet_ok_def pending_calls_def)
  qed (use step quiet in \<open>auto simp: quiet_ok_def pending_calls_def AgentRuntime_note_layout_changed_def split: sum.splits list.splits\<close>)
qed

lemma quiet_run: "agent_run enc acts w = Inr w' \<Longrightarrow> calls_ok w \<Longrightarrow> quiet_ok (aw_runtime w) \<Longrightarrow> quiet_ok (aw_runtime w')"
proof (induction acts arbitrary: w)
  case (Cons act acts)
  then obtain v where v: "agent_step enc act w = Inr v" "agent_run enc acts v = Inr w'" by auto
  show ?case by (rule Cons.IH [OF v(2) calls_ok_step [OF Cons.prems(2) v(1)] quiet_step [OF Cons.prems(2,3) v(1)]])
qed simp

lemma quiet_start:
  assumes "agent_start enc connection_generation connected tokens ch = Inr w"
  shows "quiet_ok (aw_runtime w)"
proof -
  obtain a a' ch' where a: "AgentRuntime_new connection_generation connected tokens (agent_sinks connection_generation) = Inr a"
    and i: "AgentRuntime_initialize enc a ch = Inr (a', ch')" and w: "aw_runtime w = a'"
    using assms by (auto simp: agent_start_def)
  have "\<not> ar_ready a \<and> pending_calls a = {#}" using a by (auto simp: AgentRuntime_new_def pending_calls_def)
  then show ?thesis using i w begin_connected [of enc a ch a' ch']
    by (auto simp: AgentRuntime_initialize_def quiet_ok_def split: if_split_asm)
qed

section \<open>Properties\<close>

text \<open>C6: every call of the host that reaches the Agent task is answered exactly once: after any run the calls handed over are
  those answered and those still pending, as multisets, and none is pending while no agent is connected
  (after a disconnection or an unsuccessful migration).\<close>

theorem agent_calls_answered:
  assumes start: "agent_start enc connection_generation connected tokens channel = Inr s"
    and run: "agent_run enc actions s = Inr w"
  shows "mset (aw_calls w) = mset (map fst (as_answers (ar_sinks (aw_runtime w)))) + pending_calls (aw_runtime w) \<and>
    (ar_connected (aw_runtime w) \<or> pending_calls (aw_runtime w) = {#})"
  using calls_ok_run [OF run calls_ok_start [OF start]] quiet_run [OF run calls_ok_start [OF start] quiet_start [OF start]]
  by (auto simp: calls_ok_def ledger_def quiet_ok_def)

theorem agent_calls_answered_witness:
  "\<exists>s w. agent_start counting_encode 1 True 5 sample_channel = Inr s \<and>
     agent_run counting_encode (sample_actions @ [Act_command (AgentCommand_RequestClipboard 1 AgentClipboardSelection_Clipboard
       AgentClipboardType_Utf8Text 7), Act_migrated False 0 None]) s = Inr w \<and> aw_calls w = [7] \<and>
     map fst (as_answers (ar_sinks (aw_runtime w))) = [7]"
proof -
  obtain d s where s: "agent_start counting_encode 1 True 5 sample_channel = Inr s"
    "agent_run counting_encode sample_actions s = Inr (sample_world d)" by (rule sample_run)
  let ?acts = "[Act_command (AgentCommand_RequestClipboard 1 AgentClipboardSelection_Clipboard AgentClipboardType_Utf8Text 7),
    Act_migrated False 0 None]"
  obtain w where w: "agent_run counting_encode ?acts (sample_world d) = Inr w" "aw_calls w = [7]" "\<not> ar_connected (aw_runtime w)"
    by (simp add: sample_world_def AgentRuntime_can_accept_command_def AgentRuntime_accept_command_def accept_read_def Let_def
        features_from_capabilities_def CapabilitySet_contains_def encode_clipboard_request_def encode_selection_def AgentRuntime_queue_def
        OutboundAgentMessage_new_def u32_try_from_def AgentRuntime_reinitialize_after_migration_def)
  have run: "agent_run counting_encode (sample_actions @ ?acts) s = Inr w" using s(2) w(1) by (simp add: agent_run_append)
  have "mset (map fst (as_answers (ar_sinks (aw_runtime w)))) = {#7#}"
    using agent_calls_answered [OF s(1) run] w(2,3) by simp
  then have "map fst (as_answers (ar_sinks (aw_runtime w))) = [7]" by (metis mset_single_iff_right)
  then show ?thesis by (intro exI [of _ s] exI [of _ w] conjI s(1) run w(2))
qed

text \<open>C8: the Agent tunnel never panics: no order of guest messages, fragments, commands, reconnections, migrations and host
  actions reaches a failing index, an overflowing credit counter or another panic; a run ends in a state or
  in an error value.\<close>

theorem agent_run_no_panic:
  assumes start: "agent_start enc connection_generation connected tokens channel = Inr s" and short: "length actions < 2 ^ 64 - 1"
  shows "no_panic (agent_run enc actions s)"
  using no_panic_run [OF window_inv_start [OF start] calls_ok_start [OF start], of actions] short by simp

theorem agent_run_no_panic_witness:
  "\<exists>s. agent_start counting_encode 1 True 5 sample_channel = Inr s \<and>
     no_panic (agent_run counting_encode (sample_actions @ replicate 3 (Act_server 109 [1, 2, 3])) s)"
proof -
  obtain d s where s: "agent_start counting_encode 1 True 5 sample_channel = Inr s" by (rule sample_run)
  from agent_run_no_panic [OF s, of "sample_actions @ replicate 3 (Act_server 109 [1, 2, 3])"] s show ?thesis
    by (intro exI [of _ s] conjI) (simp_all add: sample_actions_def)
qed

end
