(* ===== verification/Client_AgentTransfers.thy ===== *)
theory Client_AgentTransfers
  imports Client_AgentFlow
begin

text \<open>
  File transfers of the Agent tunnel: what the host sees of a transfer is a run of the abstract life cycle below, which the
  runtime's table of active transfers follows, and identifiers never run out.
\<close>

section \<open>The life of a file transfer\<close>

text \<open>What a host may observe of one transfer: an offer, the guest's acceptance, growing progress, the wait for the guest's
  confirmation, and one final state. After the final state the identifier may be used for another transfer.\<close>

inductive transfer_step :: "FileTransferState option \<Rightarrow> FileTransferState \<Rightarrow> bool" where
  offered: "transfer_step None FileTransferState_WaitingForGuest"
| accepted: "transfer_step (Some FileTransferState_WaitingForGuest) (FileTransferState_Sending 0)"
| progress: "n < m \<Longrightarrow> transfer_step (Some (FileTransferState_Sending n)) (FileTransferState_Sending m)"
| sent: "n \<le> m \<Longrightarrow> transfer_step (Some (FileTransferState_Sending n)) (FileTransferState_AwaitingCompletion m)"
| completed: "transfer_step (Some (FileTransferState_AwaitingCompletion n)) FileTransferState_Completed"
| ended: "transfer_terminal s \<Longrightarrow> s \<noteq> FileTransferState_Completed \<Longrightarrow> transfer_step (Some p) s"

definition transfer_live :: "FileTransferState \<Rightarrow> FileTransferState option" where
  "transfer_live s = (if transfer_terminal s then None else Some s)"

inductive transfer_history :: "FileTransferState list \<Rightarrow> FileTransferState option \<Rightarrow> bool" where
  none: "transfer_history [] None"
| grown: "transfer_history h p \<Longrightarrow> transfer_step p s \<Longrightarrow> transfer_history (h @ [s]) (transfer_live s)"

definition published_states :: "u32 \<Rightarrow> AgentRuntime \<Rightarrow> FileTransferState list" where
  "published_states transfer_id a = map snd (filter (\<lambda>entry. fst entry = transfer_id) (as_transfer_log (ar_sinks a)))"

definition transfer_state :: "TransferRuntime \<Rightarrow> FileTransferState" where
  "transfer_state t =
     (case tr_phase t of
        TransferPhase_WaitingForGuest \<Rightarrow> FileTransferState_WaitingForGuest
      | TransferPhase_Sending \<Rightarrow> FileTransferState_Sending (tr_accepted_bytes t)
      | TransferPhase_AwaitingCompletion \<Rightarrow> FileTransferState_AwaitingCompletion (tr_accepted_bytes t))"

definition transfer_entry_ok :: "TransferRuntime \<Rightarrow> bool" where
  "transfer_entry_ok t \<longleftrightarrow>
     (case tr_phase t of
        TransferPhase_WaitingForGuest \<Rightarrow> tr_accepted_bytes t = 0
      | TransferPhase_Sending \<Rightarrow> tr_accepted_bytes t \<le> tr_total_bytes t
      | TransferPhase_AwaitingCompletion \<Rightarrow> tr_accepted_bytes t = tr_total_bytes t)"

definition transfers_ok :: "AgentRuntime \<Rightarrow> bool" where
  "transfers_ok a \<longleftrightarrow> distinct (map fst (ar_transfers a)) \<and> length (ar_transfers a) \<le> 8 \<and>
     (\<forall>(transfer_id, t) \<in> set (ar_transfers a). transfer_id \<noteq> 0 \<and> transfer_entry_ok t) \<and>
     (\<forall>transfer_id. transfer_history (published_states transfer_id a)
        (map_option transfer_state (map_of (ar_transfers a) transfer_id)))"

definition transfer_part :: "AgentRuntime \<Rightarrow> (u32 \<times> TransferRuntime) list \<times> (u32 \<times> FileTransferState) list" where
  "transfer_part a = (ar_transfers a, as_transfer_log (ar_sinks a))"

lemma transfers_ok_same: "transfer_part a' = transfer_part a \<Longrightarrow> transfers_ok a' = transfers_ok a"
  by (simp add: transfer_part_def transfers_ok_def published_states_def)

lemma transfer_live_state: "transfer_live (transfer_state t) = Some (transfer_state t)"
  by (simp add: transfer_live_def transfer_state_def transfer_terminal_def split: TransferPhase.split)

lemma published_states_publish:
  "published_states i (publish_transfer j s a) = published_states i a @ (if i = j then [s] else [])"
  by (simp add: published_states_def publish_transfer_def)

lemma published_states_frame [simp]: "published_states i (a\<lparr>ar_transfers := ts\<rparr>) = published_states i a"
  by (simp add: published_states_def)

lemma publish_transfers [simp]: "ar_transfers (publish_transfer j s a) = ar_transfers a"
  by (simp add: publish_transfer_def)

lemma alist_update_set: "set (AList.update k v al) \<subseteq> insert (k, v) (set al)"
  by (induction al) auto

lemma alist_update_length: "length (AList.update k v al) \<le> (if map_of al k = None then Suc (length al) else length al)"
  by (induction al) auto

lemma transfers_ok_update:
  assumes "transfers_ok a" "transfer_entry_ok t" "j \<noteq> 0" "map_of (ar_transfers a) j = None \<Longrightarrow> length (ar_transfers a) < 8"
    "transfer_step (map_option transfer_state (map_of (ar_transfers a) j)) (transfer_state t)"
  shows "transfers_ok (publish_transfer j (transfer_state t) (a\<lparr>ar_transfers := AList.update j t (ar_transfers a)\<rparr>))"
proof -
  have "length (AList.update j t (ar_transfers a)) \<le> 8"
    using alist_update_length [of j t "ar_transfers a"] assms(1,4) by (auto simp: transfers_ok_def split: if_split_asm)
  moreover have "\<forall>(i, t) \<in> set (AList.update j t (ar_transfers a)). i \<noteq> 0 \<and> transfer_entry_ok t"
    using assms(1-3) alist_update_set [of j t "ar_transfers a"] by (auto simp: transfers_ok_def)
  moreover have "transfer_history (published_states i a @ (if i = j then [transfer_state t] else []))
      (map_option transfer_state (map_of (AList.update j t (ar_transfers a)) i))" for i
    using assms(1,5) transfer_history.grown [of "published_states j a", OF _ assms(5)]
    by (auto simp: transfers_ok_def update_conv transfer_live_state)
  moreover have "distinct (map fst (AList.update j t (ar_transfers a)))"
    using assms(1) by (simp add: transfers_ok_def distinct_update)
  ultimately show ?thesis by (simp add: transfers_ok_def published_states_publish)
qed

lemma transfers_ok_delete:
  assumes "transfers_ok a" "transfer_step (map_option transfer_state (map_of (ar_transfers a) j)) s" "transfer_terminal s"
  shows "transfers_ok (publish_transfer j s (a\<lparr>ar_transfers := AList.delete j (ar_transfers a)\<rparr>))"
proof -
  have "transfer_history (published_states i a @ (if i = j then [s] else []))
      (map_option transfer_state (map_of (AList.delete j (ar_transfers a)) i))" for i
    using assms transfer_history.grown [of "published_states j a", OF _ assms(2)]
    by (auto simp: transfers_ok_def delete_conv transfer_live_def)
  moreover have "length (AList.delete j (ar_transfers a)) \<le> 8"
    using assms(1) length_delete_le [of j "ar_transfers a"] by (simp add: transfers_ok_def)
  moreover have "set (AList.delete j (ar_transfers a)) \<subseteq> set (ar_transfers a)" by (auto simp: AList.delete_eq)
  ultimately show ?thesis
    using assms(1) by (auto simp: transfers_ok_def published_states_publish distinct_delete)
qed

lemma published_states_fail:
  assumes "distinct (map fst (ar_transfers a))"
  shows "published_states i (AgentRuntime_fail_transfers a) =
    published_states i a @ (if map_of (ar_transfers a) i = None then [] else [FileTransferState_AgentDisconnected])"
proof -
  have "map snd (filter (\<lambda>e. fst e = i) (map (\<lambda>(j, _). (j, FileTransferState_AgentDisconnected)) ts)) =
      (if map_of ts i = None then [] else [FileTransferState_AgentDisconnected])"
    if "distinct (map fst ts)" for ts :: "(u32 \<times> TransferRuntime) list"
    using that by (induction ts) (auto simp: map_of_eq_None_iff split: if_split_asm)
  from this [OF assms] show ?thesis by (simp add: published_states_def AgentRuntime_fail_transfers_def)
qed

lemma fail_transfers_ok:
  assumes "transfers_ok a"
  shows "transfers_ok (AgentRuntime_fail_transfers a)"
proof -
  have "transfer_history (published_states i (AgentRuntime_fail_transfers a)) None" for i
  proof (cases "map_of (ar_transfers a) i")
    case None
    then show ?thesis using assms published_states_fail [of a i] by (auto simp: transfers_ok_def dest: spec [of _ i])
  next
    case (Some t)
    have "transfer_step (Some (transfer_state t)) FileTransferState_AgentDisconnected"
      by (rule ended) (simp_all add: transfer_terminal_def)
    moreover have "transfer_history (published_states i a) (Some (transfer_state t))"
      using assms Some by (auto simp: transfers_ok_def dest: spec [of _ i])
    ultimately show ?thesis
      using assms Some published_states_fail [of a i] transfer_history.grown
      by (fastforce simp: transfers_ok_def transfer_live_def transfer_terminal_def)
  qed
  then show ?thesis by (simp add: transfers_ok_def AgentRuntime_fail_transfers_def published_states_def)
qed


section \<open>Operations keep the transfers\<close>

lemma transfer_part_updates [simp]:
  "transfer_part (answer_call call answer a) = transfer_part a" "transfer_part (mark_offer_sent selection a) = transfer_part a"
  "transfer_part (AgentRuntime_note_layout_changed a) = transfer_part a" "transfer_part (a\<lparr>ar_pending_reads := x1\<rparr>) = transfer_part a"
  "transfer_part (a\<lparr>ar_pending_host_requests := x2\<rparr>) = transfer_part a" "transfer_part (a\<lparr>ar_desired_clipboard_offers := x3\<rparr>) = transfer_part a"
  "transfer_part (a\<lparr>ar_outgoing_clipboard_serial := x4\<rparr>) = transfer_part a" "transfer_part (a\<lparr>ar_announce_pending := x5\<rparr>) = transfer_part a"
  "transfer_part (a\<lparr>ar_max_clipboard_pending := x6\<rparr>) = transfer_part a" "transfer_part (a\<lparr>ar_next_transfer_id := x7\<rparr>) = transfer_part a"
  "transfer_part (a\<lparr>ar_outbound := x8\<rparr>) = transfer_part a" "transfer_part (a\<lparr>ar_outbound_completion := x9\<rparr>) = transfer_part a"
  "transfer_part (a\<lparr>ar_sent_layout_generation := x10, ar_layout_dirty := x11\<rparr>) = transfer_part a"
  "transfer_part (a\<lparr>ar_outbound_tokens := x12\<rparr>) = transfer_part a"
  by (simp_all add: transfer_part_def answer_call_def mark_offer_sent_def AgentRuntime_note_layout_changed_def)

lemma queue_transfers: "AgentRuntime_queue t p a = Inr a' \<Longrightarrow> transfer_part a' = transfer_part a"
  by (auto simp: AgentRuntime_queue_def split: if_split_asm)

lemma queue_with_completion_transfers: "AgentRuntime_queue_with_completion t p c a = Inr a' \<Longrightarrow> transfer_part a' = transfer_part a"
  by (auto simp: AgentRuntime_queue_with_completion_def dest!: queue_transfers)

lemma take_grab_serial_transfers: "take_grab_serial features selection a = (serial, a') \<Longrightarrow> transfer_part a' = transfer_part a"
  by (auto simp: take_grab_serial_def Let_def split: if_split_asm)

lemma prepare_layout_transfers: "prepare_layout desired a = Inr a' \<Longrightarrow> transfer_part a' = transfer_part a"
  by (auto simp: prepare_layout_def Let_def split: if_split_asm option.split_asm dest!: queue_transfers)

lemma prepare_offers_transfers: "prepare_offers features selections a = Inr a' \<Longrightarrow> transfer_part a' = transfer_part a"
  by (induction features selections a rule: prepare_offers.induct)
     (auto split: if_split_asm option.split_asm prod.split_asm dest!: queue_transfers take_grab_serial_transfers)

lemma prepare_internal_transfers: "AgentRuntime_prepare_internal layout a = Inr (a', layout') \<Longrightarrow> transfer_part a' = transfer_part a"
  by (auto simp: AgentRuntime_prepare_internal_def simp del: prepare_offers.simps split: if_split_asm
      dest!: queue_transfers prepare_layout_transfers prepare_offers_transfers)

lemma allocate_loop_fresh:
  "allocate_transfer_id_loop n a = Inr (transfer_id, a') \<Longrightarrow>
     transfer_part a' = transfer_part a \<and> transfer_id \<noteq> 0 \<and> map_of (ar_transfers a) transfer_id = None"
proof (induction n arbitrary: a)
  case (Suc n)
  show ?case
  proof (cases "map_of (ar_transfers a) (max (ar_next_transfer_id a) 1) = None")
    case True
    then show ?thesis using Suc.prems by (auto simp: Let_def max_def word_le_nat_alt split: if_split_asm)
  next
    case False
    then show ?thesis using Suc.prems Suc.IH by (fastforce simp: Let_def)
  qed
qed simp

lemma allocate_fresh:
  "AgentRuntime_allocate_transfer_id a = Inr (transfer_id, a') \<Longrightarrow>
     transfer_part a' = transfer_part a \<and> transfer_id \<noteq> 0 \<and> map_of (ar_transfers a) transfer_id = None"
  unfolding AgentRuntime_allocate_transfer_id_def by (rule allocate_loop_fresh)

lemma transfer_part_ok: "transfers_ok a \<Longrightarrow> transfer_part a' = transfer_part a \<Longrightarrow> transfers_ok a'"
  using transfers_ok_same [of a' a] by simp

lemma accept_start_file_transfers:
  assumes "transfers_ok a" "accept_start_file features metadata response a = Inr a'"
  shows "transfers_ok a'"
  using assms(2)
proof (cases rule: accept_start_file_cases)
  case (refused e)
  then show ?thesis using assms(1) transfer_part_ok by simp
next
  case (invalid transfer_id b)
  then show ?thesis using assms(1) transfer_part_ok allocate_fresh by (metis transfer_part_updates(1))
next
  case (started transfer_id b payload c)
  let ?t = "\<lparr>tr_generation = ar_generation b, tr_total_bytes = fm_size metadata, tr_accepted_bytes = 0, tr_phase = TransferPhase_WaitingForGuest\<rparr>"
  have b: "transfers_ok b" "ar_transfers b = ar_transfers a" "transfer_id \<noteq> 0" "map_of (ar_transfers b) transfer_id = None"
    using allocate_fresh [OF started(2)] transfer_part_ok [OF assms(1)] by (auto simp: transfer_part_def)
  have "transfers_ok (publish_transfer transfer_id (transfer_state ?t) (b\<lparr>ar_transfers := AList.update transfer_id ?t (ar_transfers b)\<rparr>))"
    by (rule transfers_ok_update) (use b started(1) in \<open>simp_all add: transfer_entry_ok_def transfer_state_def offered\<close>)
  then show ?thesis
    using started(3,4) queue_transfers transfer_part_ok by (fastforce simp: transfer_state_def)
qed

lemma u64_checked_add_Some: "u64_checked_add a b = Some c \<Longrightarrow> unat c = unat a + unat b" for a b :: u64
  using unat_add_lem [of a b] by (auto simp: u64_checked_add_def split: if_split_asm)

definition advanced :: "u64 \<Rightarrow> TransferRuntime \<Rightarrow> TransferRuntime" where
  "advanced accepted t = t\<lparr>tr_accepted_bytes := accepted,
     tr_phase := (if accepted = tr_total_bytes t then TransferPhase_AwaitingCompletion else tr_phase t)\<rparr>"

lemma accept_file_data_cases:
  assumes step: "accept_file_data transfer_id data completion a = Inr a'"
  obtains (refused) e where "a' = answer_call completion (Answer_done (Inl e)) a"
  | (moved) t accepted payload where "map_of (ar_transfers a) transfer_id = Some t" "tr_phase t = TransferPhase_Sending"
      "u64_checked_add (tr_accepted_bytes t) (of_nat (length data)) = Some accepted" "accepted \<le> tr_total_bytes t"
      "length data < 2 ^ 64" "data = [] \<longrightarrow> tr_total_bytes t = 0"
      "AgentRuntime_queue_with_completion agent_message_FILE_TRANSFER_DATA payload completion
         (publish_transfer transfer_id (transfer_state (advanced accepted t))
           (a\<lparr>ar_transfers := AList.update transfer_id (advanced accepted t) (ar_transfers a)\<rparr>)) = Inr a'"
proof (cases "map_of (ar_transfers a) transfer_id")
  case None
  then show thesis using step refused by (auto simp: accept_file_data_def)
next
  case (Some t)
  note unfold = accept_file_data_def Some option.case
  show thesis
  proof (cases "tr_generation t \<noteq> ar_generation a \<or> tr_phase t \<noteq> TransferPhase_Sending")
    case True
    then show thesis using step refused by (auto simp: unfold)
  next
    case phase: False
    then have len: "length data < 2 ^ 64" using step by (auto simp: unfold not_le split: if_split_asm)
    show thesis
    proof (cases "data = [] \<and> tr_total_bytes t \<noteq> 0 \<or> data \<noteq> [] \<and> tr_total_bytes t = 0")
      case True
      then show thesis using step refused phase len by (auto simp: unfold)
    next
      case sized: False
      show thesis
      proof (cases "u64_checked_add (tr_accepted_bytes t) (of_nat (length data))")
        case None
        then show thesis using step refused phase len sized by (auto simp: unfold split: if_split_asm)
      next
        case add: (Some accepted)
        show thesis
        proof (cases "\<not> accepted \<le> tr_total_bytes t")
          case True
          then show thesis using step refused phase len sized add by (auto simp: unfold split: if_split_asm)
        next
          case fits: False
          show thesis
          proof (cases "encode_file_transfer_data transfer_id data")
            case (Inl e)
            then show thesis using step refused phase len sized add fits by (cases e) (auto simp: unfold split: if_split_asm)
          next
            case (Inr payload)
            then show thesis using step moved [of t accepted payload] phase len sized add fits Some
              by (auto simp: unfold Let_def advanced_def transfer_state_def split: if_split_asm)
          qed
        qed
      qed
    qed
  qed
qed

lemma accept_file_data_transfers:
  assumes ok: "transfers_ok a" and step: "accept_file_data transfer_id data completion a = Inr a'"
  shows "transfers_ok a'"
  using step
proof (cases rule: accept_file_data_cases)
  case (refused e)
  then show ?thesis using transfer_part_ok [OF ok, of a'] by simp
next
  case (moved t accepted payload)
  have n: "unat accepted = unat (tr_accepted_bytes t) + length data"
    using u64_checked_add_Some [OF moved(3)] moved(5) by (simp add: unsigned_of_nat take_bit_nat_eq_self)
  have j: "transfer_id \<noteq> 0" using ok moved(1) by (auto simp: transfers_ok_def dest!: map_of_SomeD)
  have "tr_accepted_bytes t < accepted" if "accepted \<noteq> tr_total_bytes t"
    using n moved(4,6) that by (cases data) (auto simp: word_less_nat_alt word_le_nat_alt unat_eq_zero)
  moreover have "tr_accepted_bytes t \<le> accepted" using n by (simp add: word_le_nat_alt)
  ultimately have "transfer_step (Some (transfer_state t)) (transfer_state (advanced accepted t))"
    using moved(2) by (auto simp: transfer_state_def advanced_def intro: progress sent)
  then have "transfers_ok (publish_transfer transfer_id (transfer_state (advanced accepted t))
      (a\<lparr>ar_transfers := AList.update transfer_id (advanced accepted t) (ar_transfers a)\<rparr>))"
    using moved(1,2,4) j ok by (intro transfers_ok_update) (auto simp: transfer_entry_ok_def advanced_def)
  then show ?thesis using transfer_part_ok [of _ a'] queue_with_completion_transfers [OF moved(7)] by simp
qed

lemma accept_cancel_file_transfers:
  assumes "transfers_ok a" "accept_cancel_file transfer_id completion a = Inr a'"
  shows "transfers_ok a'"
proof (cases "map_of (ar_transfers a) transfer_id")
  case None
  then show ?thesis using assms(2) transfer_part_ok [OF assms(1), of a'] by (auto simp: accept_cancel_file_def)
next
  case (Some t)
  have "transfers_ok (publish_transfer transfer_id FileTransferState_Cancelled (a\<lparr>ar_transfers := AList.delete transfer_id (ar_transfers a)\<rparr>))"
    using assms(1) Some by (intro transfers_ok_delete) (auto simp: transfer_terminal_def intro: ended)
  then show ?thesis using assms(2) Some queue_with_completion_transfers transfer_part_ok
    by (fastforce simp: accept_cancel_file_def Let_def)
qed

lemma dispatch_status_transfers:
  assumes "transfers_ok a" "dispatch_transfer_status payload a = Inr (kept, a')"
  shows "transfers_ok a'"
  using assms(2)
proof (cases rule: dispatch_transfer_status_cases)
  case (accepted transfer_id t)
  let ?t = "t\<lparr>tr_phase := TransferPhase_Sending\<rparr>"
  have t: "transfer_id \<noteq> 0" "tr_accepted_bytes t = 0"
    using assms(1) accepted(2,4) by (auto simp: transfers_ok_def transfer_entry_ok_def dest!: map_of_SomeD)
  have "transfers_ok (publish_transfer transfer_id (transfer_state ?t) (a\<lparr>ar_transfers := AList.update transfer_id ?t (ar_transfers a)\<rparr>))"
    by (rule transfers_ok_update [OF assms(1)])
       (use accepted t in \<open>simp_all add: transfer_entry_ok_def transfer_state_def transfer_step.accepted\<close>)
  then show ?thesis using accepted(5) by (simp add: transfer_state_def)
next
  case (finished transfer_id t state)
  have "transfer_step (Some (transfer_state t)) state"
    using finished(4,5) by (cases "state = FileTransferState_Completed") (auto simp: transfer_state_def intro: ended completed)
  then show ?thesis using finished assms(1) transfers_ok_delete by (simp add: finish_transfer_def)
qed (use assms(1) in simp)


lemma accept_other_transfers:
  "accept_offer features selection types a = Inr a' \<Longrightarrow> transfer_part a' = transfer_part a"
  "accept_release features selection a = Inr a' \<Longrightarrow> transfer_part a' = transfer_part a"
  "accept_read features selection clipboard_type response a = Inr a' \<Longrightarrow> transfer_part a' = transfer_part a"
  "accept_provide features request_id data a = Inr a' \<Longrightarrow> transfer_part a' = transfer_part a"
  "accept_volume features volume a = Inr a' \<Longrightarrow> transfer_part a' = transfer_part a"
  by (auto simp: accept_offer_def accept_release_def accept_read_def accept_provide_def accept_volume_def Let_def
      split: if_split_asm option.split_asm prod.split_asm dest!: queue_transfers take_grab_serial_transfers)

lemma refuse_stale_transfers [simp]: "transfer_part (refuse_stale_command command a) = transfer_part a"
  by (cases command) simp_all

lemma accept_command_transfers: "transfers_ok a \<Longrightarrow> AgentRuntime_accept_command command a = Inr a' \<Longrightarrow> transfers_ok a'"
  by (auto simp: AgentRuntime_accept_command_def Let_def split: if_split_asm AgentCommand.split_asm
      intro: accept_start_file_transfers accept_file_data_transfers accept_cancel_file_transfers transfer_part_ok accept_other_transfers)

lemma dispatch_other_transfers:
  "dispatch_capabilities payload a = Inr (kept, a') \<Longrightarrow> transfer_part a' = transfer_part a"
  "dispatch_grab payload ss a = Inr (kept, a') \<Longrightarrow> transfer_part a' = transfer_part a"
  "dispatch_release payload ss a = Inr (kept, a') \<Longrightarrow> transfer_part a' = transfer_part a"
  "dispatch_request payload ss credit a = Inr (kept, a') \<Longrightarrow> transfer_part a' = transfer_part a"
  "dispatch_data payload ss a = Inr (kept, a') \<Longrightarrow> transfer_part a' = transfer_part a"
  "dispatch_volume payload a = Inr (kept, a') \<Longrightarrow> transfer_part a' = transfer_part a"
  "dispatch_devices payload a = Inr (kept, a') \<Longrightarrow> transfer_part a' = transfer_part a"
  by (auto simp: dispatch_capabilities_def dispatch_grab_def dispatch_release_def dispatch_request_def dispatch_data_def
      dispatch_volume_def dispatch_devices_def Let_def transfer_part_def answer_call_def split: if_split_asm option.split_asm)

lemma dispatch_message_transfers:
  "AgentRuntime_dispatch_agent_message message credit a = Inr (kept, a') \<Longrightarrow> transfers_ok a \<Longrightarrow> transfers_ok a'"
  by (auto simp: AgentRuntime_dispatch_agent_message_def Let_def split: if_split_asm
      intro: dispatch_status_transfers transfer_part_ok dispatch_other_transfers)

lemma dispatch_messages_transfers:
  "dispatch_agent_messages messages credit retained a = Inr (kept, a') \<Longrightarrow> transfers_ok a \<Longrightarrow> transfers_ok a'"
  by (induction messages arbitrary: retained a) (auto dest: dispatch_message_transfers)

lemma handle_fragment_transfers:
  assumes "transfers_ok a" "AgentRuntime_handle_fragment body a = Inr a'"
  shows "transfers_ok a'"
proof -
  obtain d messages credit t n kept c where
    c: "dispatch_agent_messages messages credit False (a\<lparr>ar_inbound_tokens := t, ar_decoder := d, ar_next_allocation := n\<rparr>) = Inr (kept, c)"
    "a' = c \<or> return_credit credit c = Inr a'"
    using assms(2) by (auto simp: AgentRuntime_handle_fragment_def Let_def split: if_split_asm prod.split_asm)
  have "transfers_ok c" by (rule dispatch_messages_transfers [OF c(1)], rule transfer_part_ok [OF assms(1)]) (simp add: transfer_part_def)
  then show ?thesis using c(2) transfer_part_ok [of c a'] by (auto simp: return_credit_def transfer_part_def)
qed

lemma fail_other_transfers [simp]:
  "ar_transfers (AgentRuntime_fail_pending_reads e a) = ar_transfers a" "ar_transfers (fail_outbound_completion a) = ar_transfers a"
  "as_transfer_log (ar_sinks (AgentRuntime_fail_pending_reads e a)) = as_transfer_log (ar_sinks a)"
  "as_transfer_log (ar_sinks (fail_outbound_completion a)) = as_transfer_log (ar_sinks a)"
  by (auto simp: AgentRuntime_fail_pending_reads_def fail_outbound_completion_def answer_call_def split: option.split)

lemma begin_generation_transfers:
  assumes "transfers_ok a" "AgentRuntime_begin_generation enc a ch = Inr (a', ch')"
  shows "transfers_ok a' \<and> ar_transfers a' = []"
proof -
  let ?f = "AgentRuntime_fail_transfers (AgentRuntime_fail_pending_reads AgentSendError_StaleGeneration a)"
  have "transfers_ok ?f" by (intro fail_transfers_ok transfer_part_ok [OF assms(1)]) (simp add: transfer_part_def)
  moreover have part: "transfer_part a' = transfer_part (fail_outbound_completion ?f)"
    using assms(2) by (auto simp: AgentRuntime_begin_generation_def Let_def transfer_part_def)
  moreover have "ar_transfers ?f = []" by (simp add: AgentRuntime_fail_transfers_def)
  ultimately show ?thesis using transfer_part_ok [of ?f a'] by (simp add: transfer_part_def)
qed

lemma disconnect_transfers:
  assumes "transfers_ok a"
  shows "transfers_ok (AgentRuntime_disconnect reason a) \<and> ar_transfers (AgentRuntime_disconnect reason a) = []"
proof -
  obtain b where b: "transfer_part b = transfer_part a" "transfer_part (AgentRuntime_disconnect reason a) = transfer_part (AgentRuntime_fail_transfers b)"
  proof
    let ?a = "a\<lparr>ar_connected := False, ar_ready := False, ar_inbound_tokens := 0, ar_decoder := AgentStreamDecoder_reset (ar_decoder a), ar_outbound := None\<rparr>"
    let ?b = "(fail_outbound_completion ?a)\<lparr>ar_announce_pending := False, ar_max_clipboard_pending := False, ar_peer_capabilities := CapabilitySet_new\<rparr>"
    show "transfer_part (AgentRuntime_fail_pending_reads AgentSendError_StaleGeneration ?b) = transfer_part a"
      by (simp add: transfer_part_def)
    show "transfer_part (AgentRuntime_disconnect reason a) =
        transfer_part (AgentRuntime_fail_transfers (AgentRuntime_fail_pending_reads AgentSendError_StaleGeneration ?b))"
      by (simp add: AgentRuntime_disconnect_def Let_def transfer_part_def)
  qed
  have "transfers_ok (AgentRuntime_fail_transfers b)" using transfer_part_ok [OF assms b(1)] fail_transfers_ok by blast
  then show ?thesis using transfer_part_ok b(2) by (simp add: transfer_part_def AgentRuntime_fail_transfers_def)
qed

lemma handle_server_message_transfers:
  assumes "transfers_ok a" "AgentRuntime_handle_server_message enc message_type body a ch = Inr (handled, a', ch')"
  shows "transfers_ok a'"
proof -
  consider (started) b where "AgentRuntime_begin_generation enc b ch = Inr (a', ch')" "transfer_part b = transfer_part a"
    | (disconnect) reason where "a' = AgentRuntime_disconnect reason a"
    | (fragment) "AgentRuntime_handle_fragment body a = Inr a'"
    | (same) "transfer_part a' = transfer_part a"
    using assms(2) unfolding AgentRuntime_handle_server_message_def by (auto simp: transfer_part_def split: if_split_asm)
  then show ?thesis
  proof cases
    case started
    then show ?thesis using begin_generation_transfers [of b] transfer_part_ok [OF assms(1)] by blast
  qed (use assms(1) disconnect_transfers handle_fragment_transfers transfer_part_ok in blast)+
qed

lemma reinitialize_transfers:
  assumes "transfers_ok a" "AgentRuntime_reinitialize_after_migration enc connected tokens reason a ch = Inr (a', ch')"
  shows "transfers_ok a'"
proof -
  let ?b = "(AgentRuntime_disconnect reason a)\<lparr>ar_outbound_tokens := tokens, ar_connected := connected\<rparr>"
  have "transfers_ok ?b" using disconnect_transfers [OF assms(1), of reason] transfer_part_ok by (fastforce simp: transfer_part_def)
  then show ?thesis using assms(2) begin_generation_transfers [of ?b]
    by (auto simp: AgentRuntime_reinitialize_after_migration_def Let_def split: if_split_asm)
qed

lemma send_one_transfers: "AgentRuntime_send_one enc a ch = Inr (a', ch') \<Longrightarrow> transfer_part a' = transfer_part a"
  by (auto simp: AgentRuntime_send_one_def Let_def transfer_part_def answer_call_def split: if_split_asm option.split_asm prod.split_asm)

lemma send_credits_transfers: "AgentRuntime_send_returned_credits enc a ch = Inr (a', ch') \<Longrightarrow> transfer_part a' = transfer_part a"
  by (auto simp: AgentRuntime_send_returned_credits_def Let_def transfer_part_def split: if_split_asm option.split_asm prod.split_asm)

lemma release_event_transfers: "release_event event w = Inr w' \<Longrightarrow> transfer_part (aw_runtime w') = transfer_part (aw_runtime w)"
  by (auto simp: release_event_def return_credit_def transfer_part_def split: if_split_asm)

lemma release_events_transfers: "release_events events w = Inr w' \<Longrightarrow> transfer_part (aw_runtime w') = transfer_part (aw_runtime w)"
  by (induction events arbitrary: w) (fastforce dest: release_event_transfers simp: transfer_part_def)+

lemma transfers_ok_step:
  assumes ok: "transfers_ok (aw_runtime w)" and step: "agent_step enc act w = Inr w'"
  shows "transfers_ok (aw_runtime w')"
proof -
  note same = transfer_part_ok [OF ok]
  show ?thesis
  proof (cases act)
    case (Act_server message_type body)
    then show ?thesis using step ok by (auto dest: handle_server_message_transfers)
  next
    case (Act_migrated connected tokens reason)
    then show ?thesis using step ok by (auto dest: reinitialize_transfers)
  next
    case (Act_command command)
    then show ?thesis using step ok by (auto split: if_split_asm dest: accept_command_transfers)
  next
    case (Act_host_drop i)
    then show ?thesis using step ok by (auto intro!: same split: if_split_asm dest!: release_event_transfers)
  next
    case Act_host_close
    then show ?thesis using step by (auto intro!: same simp: transfer_part_def dest!: release_events_transfers)
  qed (use step ok in \<open>auto intro!: same simp: transfer_part_def AgentRuntime_note_layout_changed_def split: if_split_asm sum.split list.split
      dest!: prepare_internal_transfers send_one_transfers send_credits_transfers\<close>)
qed

lemma transfers_ok_run: "agent_run enc acts w = Inr w' \<Longrightarrow> transfers_ok (aw_runtime w) \<Longrightarrow> transfers_ok (aw_runtime w')"
  by (induction acts arbitrary: w) (auto dest: transfers_ok_step)

lemma transfers_ok_start:
  assumes "agent_start enc connection_generation connected tokens ch = Inr w"
  shows "transfers_ok (aw_runtime w)"
proof -
  obtain a where a: "AgentRuntime_new connection_generation connected tokens (agent_sinks connection_generation) = Inr a"
    using assms by (auto simp: agent_start_def)
  then have "transfers_ok a"
    by (auto simp: AgentRuntime_new_def transfers_ok_def published_states_def agent_sinks_def intro: transfer_history.none)
  then show ?thesis using assms a begin_generation_transfers
    by (fastforce simp: agent_start_def AgentRuntime_initialize_def split: if_split_asm)
qed


section \<open>Identifiers never run out\<close>

definition next_candidate :: "u32 \<Rightarrow> u32" where
  "next_candidate c = max (c + 1) 1"

lemma next_candidate_index:
  fixes c :: u32
  assumes "c \<noteq> 0"
  shows "next_candidate c \<noteq> 0 \<and> unat (next_candidate c) - 1 = (unat c - 1 + 1) mod 4294967295"
proof (cases "c = -1")
  case True
  then show ?thesis by (simp add: next_candidate_def unsigned_minus_1_eq_mask mask_eq_exp_minus_1)
next
  case False
  have "unat c \<noteq> unat (-1 :: u32)" using False by (simp add: word_unat_eq_iff)
  then have bound: "unat c < 4294967295"
    using unsigned_less [of c, where 'a = nat] by (simp add: unsigned_minus_1_eq_mask mask_eq_exp_minus_1)
  have "unat (c + 1) = Suc (unat c)" using bound unat_add_lem [of c 1] by simp
  moreover from this have "max (c + 1) 1 = c + 1" by (auto simp: max_def word_le_nat_alt unat_eq_zero)
  moreover have "unat c \<noteq> 0" using assms by (simp add: unat_eq_zero)
  ultimately show ?thesis using bound by (auto simp: next_candidate_def)
qed

lemma candidates_index:
  fixes c :: u32
  assumes "c \<noteq> 0"
  shows "(next_candidate ^^ k) c \<noteq> 0 \<and> unat ((next_candidate ^^ k) c) - 1 = (unat c - 1 + k) mod 4294967295"
proof (induction k)
  case 0
  have "unat c < 4294967296" using unsigned_less [of c, where 'a = nat] by simp
  moreover have "unat c \<noteq> 0" using assms by (simp add: unat_eq_zero)
  ultimately show ?case using assms by simp
next
  case (Suc k)
  then show ?case using next_candidate_index [of "(next_candidate ^^ k) c"] by (simp add: mod_simps)
qed

lemma candidates_distinct:
  assumes "c \<noteq> 0" "n \<le> 4294967295"
  shows "inj_on (\<lambda>k. (next_candidate ^^ k) c) {..<n}"
proof (rule inj_onI)
  fix i j assume ij: "i \<in> {..<n}" "j \<in> {..<n}" "(next_candidate ^^ i) c = (next_candidate ^^ j) c"
  then have "(unat c - 1 + i) mod 4294967295 = (unat c - 1 + j) mod 4294967295"
    using candidates_index [OF assms(1), of i] candidates_index [OF assms(1), of j] by simp
  then have "i mod 4294967295 = j mod 4294967295" by (auto simp: nat_mod_eq_iff)
  then show "i = j" using ij(1,2) assms(2) by simp
qed

lemma allocate_loop_taken:
  "allocate_transfer_id_loop n a = Inl e \<Longrightarrow>
     (\<lambda>k. (next_candidate ^^ k) (max (ar_next_transfer_id a) 1)) ` {..<n} \<subseteq> fst ` set (ar_transfers a)"
proof (induction n arbitrary: a)
  case (Suc n)
  let ?c = "max (ar_next_transfer_id a) 1"
  have taken: "map_of (ar_transfers a) ?c \<noteq> None" using Suc.prems by (auto simp: Let_def split: if_split_asm)
  then have rest: "allocate_transfer_id_loop n (a\<lparr>ar_next_transfer_id := next_candidate ?c\<rparr>) = Inl e"
    using Suc.prems by (auto simp: Let_def next_candidate_def split: if_split_asm)
  have "max (next_candidate ?c) 1 = next_candidate ?c" by (simp add: next_candidate_def)
  then have tail: "(next_candidate ^^ k) (next_candidate ?c) \<in> fst ` set (ar_transfers a)" if "k < n" for k
    using Suc.IH [OF rest] that by auto
  have "?c \<in> fst ` set (ar_transfers a)" using taken by (simp add: map_of_eq_None_iff)
  show ?case
  proof
    fix x assume "x \<in> (\<lambda>k. (next_candidate ^^ k) ?c) ` {..<Suc n}"
    then obtain k where k: "x = (next_candidate ^^ k) ?c" "k < Suc n" by auto
    show "x \<in> fst ` set (ar_transfers a)"
      using k tail \<open>?c \<in> fst ` set (ar_transfers a)\<close> by (cases k) (simp_all add: funpow_swap1)
  qed
qed simp

lemma allocate_succeeds:
  assumes "length (ar_transfers a) \<le> 8"
  shows "\<exists>transfer_id a'. AgentRuntime_allocate_transfer_id a = Inr (transfer_id, a') \<and> transfer_id \<noteq> 0 \<and>
    map_of (ar_transfers a) transfer_id = None"
proof (cases "AgentRuntime_allocate_transfer_id a")
  case (Inl e)
  let ?c = "max (ar_next_transfer_id a) 1"
  let ?s = "(\<lambda>k. (next_candidate ^^ k) ?c) ` {..<9}"
  have c: "?c \<noteq> 0" by (simp add: max_def word_le_nat_alt split: if_split) auto
  have "?s \<subseteq> fst ` set (ar_transfers a)"
    using allocate_loop_taken [of 9 a] Inl by (simp add: AgentRuntime_allocate_transfer_id_def del: allocate_transfer_id_loop.simps)
  then have "card ?s \<le> card (fst ` set (ar_transfers a))" by (intro card_mono) auto
  also have "\<dots> \<le> 8" using card_image_le [of "set (ar_transfers a)" fst] card_length [of "ar_transfers a"] assms by simp
  finally show ?thesis using card_image [OF candidates_distinct [OF c, of 9]] by simp
next
  case (Inr r)
  then show ?thesis using allocate_fresh by (cases r) auto
qed


section \<open>Properties\<close>

text \<open>C7: the published states of every file transfer follow its life cycle: after any run the states published under an
  identifier are offers, acceptances, growing progress, waits for completion and final states in the
  legal order (completion only after all bytes were handed over), the runtime's own record of the transfer
  is where the published states stand, at most eight transfers are active, and a new transfer always gets
  an unused identifier other than zero.\<close>

theorem agent_transfer_lifecycle:
  assumes start: "agent_start enc connection_generation connected tokens channel = Inr s"
    and run: "agent_run enc actions s = Inr w"
  shows "transfer_history (published_states transfer_id (aw_runtime w))
      (map_option transfer_state (map_of (ar_transfers (aw_runtime w)) transfer_id)) \<and>
    list_all (transfer_entry_ok \<circ> snd) (ar_transfers (aw_runtime w)) \<and> length (ar_transfers (aw_runtime w)) \<le> 8 \<and>
    (\<exists>fresh a. AgentRuntime_allocate_transfer_id (aw_runtime w) = Inr (fresh, a) \<and> fresh \<noteq> 0 \<and>
       map_of (ar_transfers (aw_runtime w)) fresh = None)"
proof -
  have ok: "transfers_ok (aw_runtime w)" by (rule transfers_ok_run [OF run transfers_ok_start [OF start]])
  then show ?thesis using allocate_succeeds [of "aw_runtime w"] by (auto simp: transfers_ok_def list_all_iff)
qed

theorem agent_transfer_lifecycle_witness:
  "\<exists>s w. agent_start counting_encode 1 True 5 sample_channel = Inr s \<and>
     agent_run counting_encode (sample_actions @ [Act_command (AgentCommand_StartFile 1 \<lparr>fm_file_name = [97], fm_size = 3\<rparr> 9)]) s = Inr w \<and>
     published_states 1 (aw_runtime w) = [FileTransferState_WaitingForGuest] \<and>
     transfer_history [FileTransferState_WaitingForGuest] (Some FileTransferState_WaitingForGuest)"
proof -
  obtain d s where s: "agent_start counting_encode 1 True 5 sample_channel = Inr s"
    "agent_run counting_encode sample_actions s = Inr (sample_world d)" by (rule sample_run)
  let ?acts = "[Act_command (AgentCommand_StartFile 1 \<lparr>fm_file_name = [97], fm_size = 3\<rparr> 9)]"
  have alloc: "AgentRuntime_allocate_transfer_id (aw_runtime (sample_world d)) =
      Inr (1, (aw_runtime (sample_world d))\<lparr>ar_next_transfer_id := 2\<rparr>)"
    unfolding AgentRuntime_allocate_transfer_id_def allocate_transfer_id_loop.simps by (simp add: sample_world_def Let_def)
  have digits: "decimal 3 = [51]" by (simp add: decimal.simps)
  obtain w where w: "agent_run counting_encode ?acts (sample_world d) = Inr w"
      "published_states 1 (aw_runtime w) = [FileTransferState_WaitingForGuest]"
      "map_option transfer_state (map_of (ar_transfers (aw_runtime w)) 1) = Some FileTransferState_WaitingForGuest"
    using alloc
    by (simp add: sample_world_def AgentRuntime_can_accept_command_def AgentRuntime_accept_command_def accept_start_file_def Let_def
        features_from_capabilities_def CapabilitySet_contains_def
        encode_file_transfer_start_def file_name_byte_rejected_def ascii_def digits published_states_def publish_transfer_def
        AgentRuntime_queue_def OutboundAgentMessage_new_def u32_try_from_def answer_call_def transfer_state_def)
  have run: "agent_run counting_encode (sample_actions @ ?acts) s = Inr w" using s(2) w(1) by (simp add: agent_run_append)
  have "transfer_history [FileTransferState_WaitingForGuest] (Some FileTransferState_WaitingForGuest)"
    using agent_transfer_lifecycle [OF s(1) run, of 1] w(2,3) by simp
  then show ?thesis by (intro exI [of _ s] exI [of _ w] conjI s(1) run w(2))
qed

end
