(* ===== verification/Client_Cursor.thy ===== *)
theory Client_Cursor
  imports Spice_CursorWire Client_Control Codec_Common "HOL-Library.AList"
begin

text \<open>
  The Cursor channel of the client (\<open>cursor.rs\<close> of the client crate): the decoders of the seven cursor formats, the bounded
  cache, the budget of live decoded bytes and the task that keeps the latest cursor state.

  An \<open>Arc<CursorShape>\<close> is held by cache entries, by the task's current state, by the state published last and by states the
  host has cloned. Its allocation has a number; when the last holder of a number is dropped, its bytes go back to the budget.
  A task that fails drops everything, so errors carry no state. Capacities of vectors have no counterpart.
\<close>

section \<open>Constants and data\<close>

definition MAX_CURSOR_CACHE_ENTRIES :: nat where [simp]: "MAX_CURSOR_CACHE_ENTRIES = 256"
definition MAX_CURSOR_CACHE_BYTES :: nat where [simp]: "MAX_CURSOR_CACHE_BYTES = 4 * 1024 * 1024"
definition MAX_CURSOR_DIMENSION :: u16 where [simp]: "MAX_CURSOR_DIMENSION = 512"
definition MAX_CURSOR_IMAGE_BYTES :: nat where [simp]: "MAX_CURSOR_IMAGE_BYTES = 1024 * 1024"

definition cursor_server_INIT :: u16 where [simp]: "cursor_server_INIT = 101"
definition cursor_server_RESET :: u16 where [simp]: "cursor_server_RESET = 102"
definition cursor_server_SET :: u16 where [simp]: "cursor_server_SET = 103"
definition cursor_server_MOVE :: u16 where [simp]: "cursor_server_MOVE = 104"
definition cursor_server_HIDE :: u16 where [simp]: "cursor_server_HIDE = 105"
definition cursor_server_TRAIL :: u16 where [simp]: "cursor_server_TRAIL = 106"
definition cursor_server_INVALIDATE_ONE :: u16 where [simp]: "cursor_server_INVALIDATE_ONE = 107"
definition cursor_server_INVALIDATE_ALL :: u16 where [simp]: "cursor_server_INVALIDATE_ALL = 108"

definition cursor_resource_limit_error :: "context_str \<Rightarrow> ClientError" where
  "cursor_resource_limit_error ctx = ClientError_Decode (DecodeError_new ResourceLimit 0 ctx)"

definition cursor_protocol_value_error :: "context_str \<Rightarrow> ClientError" where
  "cursor_protocol_value_error ctx = ClientError_Decode (DecodeError_new InvalidValue 0 ctx)"

definition cursor_require_empty :: "u8 list \<Rightarrow> context_str \<Rightarrow> unit client" where
  "cursor_require_empty body ctx = (if body = [] then Inr () else client_err (cursor_protocol_value_error ctx))"

record CursorAllocation =
  ca_bytes :: nat
  ca_number :: nat

record CursorShape =
  cs_unique_id :: u64
  cs_width :: u16
  cs_height :: u16
  cs_hot_spot_x :: u16
  cs_hot_spot_y :: u16
  cs_rgba :: "u8 list"
  cs_allocation :: CursorAllocation

record CursorState =
  cst_connection_generation :: u64
  cst_channel_id :: u8
  cst_cursor_epoch :: u64
  cst_position :: CursorPosition
  cst_visible :: bool
  cst_shape :: "CursorShape option"
  cst_trail_length :: u16
  cst_trail_frequency :: u16

definition CursorState_fresh :: "u64 \<Rightarrow> u8 \<Rightarrow> u64 \<Rightarrow> CursorState" where
  "CursorState_fresh connection_generation channel_id cursor_epoch =
     \<lparr>cst_connection_generation = connection_generation, cst_channel_id = channel_id, cst_cursor_epoch = cursor_epoch,
      cst_position = \<lparr>cp_x = 0, cp_y = 0\<rparr>, cst_visible = False, cst_shape = None, cst_trail_length = 0, cst_trail_frequency = 0\<rparr>"

record CursorBudget =
  cb_used :: nat
  cb_maximum :: nat
  cb_next :: nat

definition CursorBudget_reserve :: "nat \<Rightarrow> CursorBudget \<Rightarrow> (CursorAllocation \<times> CursorBudget) client" where
  "CursorBudget_reserve bytes budget =
     and_then (ok_or (cursor_resource_limit_error STR ''cursor live byte budget'') (usize_checked_add (cb_used budget) bytes)) (\<lambda>updated.
     if updated > cb_maximum budget then client_err (cursor_resource_limit_error STR ''cursor live byte budget'')
     else Inr (\<lparr>ca_bytes = bytes, ca_number = cb_next budget\<rparr>, budget\<lparr>cb_used := updated, cb_next := Suc (cb_next budget)\<rparr>))"

text \<open>\<open>fetch_sub\<close> wraps around.\<close>

definition CursorAllocation_drop :: "CursorAllocation \<Rightarrow> CursorBudget \<Rightarrow> CursorBudget" where
  "CursorAllocation_drop allocation budget =
     budget\<lparr>cb_used := (cb_used budget + usize_limit - ca_bytes allocation) mod usize_limit\<rparr>"

section \<open>Decoding images\<close>

definition unpremultiply :: "u8 \<Rightarrow> u8 \<Rightarrow> u8" where
  "unpremultiply component alpha =
     (if alpha = 0 then 0
      else let straight = (ucast component * 255 + ucast alpha div 2) div (ucast alpha :: u16) in ucast (min straight 255))"

definition decode_alpha_cursor :: "u8 list \<Rightarrow> nat \<Rightarrow> u8 list client" where
  "decode_alpha_cursor data expected_bytes =
     (if length data < expected_bytes then client_err (cursor_protocol_value_error STR ''alpha cursor data size'')
      else
      and_then (slice_index data 0 expected_bytes) (\<lambda>pixels.
      for_each (\<lambda>bgra rgba.
        and_then (index_at bgra 3) (\<lambda>alpha.
        and_then (index_at bgra 2) (\<lambda>red.
        and_then (index_at bgra 1) (\<lambda>green.
        and_then (index_at bgra 0) (\<lambda>blue.
        Inr (rgba @ [unpremultiply red alpha, unpremultiply green alpha, unpremultiply blue alpha, alpha]))))))
        (chunks_exact 4 pixels) []))"

definition cursor_mask_stride :: "nat \<Rightarrow> nat client" where
  "cursor_mask_stride width =
     and_then (ok_or (cursor_resource_limit_error STR ''cursor mask stride'') (usize_checked_add width 7)) (\<lambda>bits. Inr (bits div 8))"

definition cursor_mask_bit :: "u8 list \<Rightarrow> nat \<Rightarrow> nat \<Rightarrow> nat \<Rightarrow> bool client" where
  "cursor_mask_bit mask_bytes stride x y =
     and_then (index_at mask_bytes (y * stride + x div 8)) (\<lambda>b. Inr (b AND drop_bit (x mod 8) 0x80 \<noteq> 0))"

definition invert_fallback :: "nat \<Rightarrow> nat \<Rightarrow> u8 list" where
  "invert_fallback x y =
     (let dark = (x XOR y) AND 1 \<noteq> 0; (shade, alpha) = (if dark then (0x30, 0xc0) else (0x50, 0x30)) in
      [shade, shade, shade, alpha])"

definition push_invert_fallback :: "u8 list \<Rightarrow> nat \<Rightarrow> nat \<Rightarrow> u8 list" where
  "push_invert_fallback rgba x y = rgba @ invert_fallback x y"

definition push_masked_color :: "u8 list \<Rightarrow> u8 list \<Rightarrow> bool \<Rightarrow> nat \<Rightarrow> nat \<Rightarrow> u8 list" where
  "push_masked_color rgba color masked x y =
     (if masked \<and> color = [255, 255, 255] then push_invert_fallback rgba x y
      else rgba @ color @ [if masked then 0 else 255])"

definition decode_mono_cursor :: "u8 list \<Rightarrow> nat \<Rightarrow> nat \<Rightarrow> u8 list client" where
  "decode_mono_cursor data width height =
     and_then (cursor_mask_stride width) (\<lambda>mask_stride.
     and_then (ok_or (cursor_resource_limit_error STR ''monochrome cursor mask'') (usize_checked_mul mask_stride height)) (\<lambda>mask_bytes.
     and_then (ok_or (cursor_resource_limit_error STR ''monochrome cursor bytes'') (usize_checked_mul mask_bytes 2)) (\<lambda>expected_bytes.
     if length data < expected_bytes then client_err (cursor_protocol_value_error STR ''monochrome cursor data size'')
     else
     and_then (slice_index data 0 mask_bytes) (\<lambda>and_mask.
     and_then (slice_index data mask_bytes (length data)) (\<lambda>xor_and_padding.
     and_then (slice_index xor_and_padding 0 mask_bytes) (\<lambda>xor_mask.
     for_each (\<lambda>(y, x) rgba.
       and_then (cursor_mask_bit and_mask mask_stride x y) (\<lambda>a.
       and_then (cursor_mask_bit xor_mask mask_stride x y) (\<lambda>b.
       Inr (if \<not> a \<and> \<not> b then rgba @ [0, 0, 0, 255]
            else if \<not> a \<and> b then rgba @ [255, 255, 255, 255]
            else if a \<and> \<not> b then rgba @ [0, 0, 0, 0]
            else push_invert_fallback rgba x y))))
       (List.product [0..<height] [0..<width]) []))))))"

definition palette_cursor_index :: "u8 list \<Rightarrow> nat \<Rightarrow> nat \<Rightarrow> nat \<Rightarrow> nat \<Rightarrow> u8 client" where
  "palette_cursor_index indices row_stride bits_per_pixel x y =
     (if bits_per_pixel = 4
      then and_then (index_at indices (y * row_stride + x div 2)) (\<lambda>packed.
           Inr (if x mod 2 = 0 then drop_bit 4 packed else packed AND 0x0f))
      else index_at indices (y * row_stride + x))"

definition decode_palette_cursor :: "u8 list \<Rightarrow> nat \<Rightarrow> nat \<Rightarrow> nat \<Rightarrow> u8 list client" where
  "decode_palette_cursor data width height bits_per_pixel =
     and_then (if bits_per_pixel = 4
               then and_then (ok_or (cursor_resource_limit_error STR ''color4 cursor stride'') (usize_checked_add width 1)) (\<lambda>pixels.
                    Inr (16, pixels div 2))
               else if bits_per_pixel = 8 then Inr (256, width)
               else client_err (cursor_protocol_value_error STR ''palette cursor bit depth'')) (\<lambda>(palette_entries, row_stride).
     and_then (ok_or (cursor_resource_limit_error STR ''palette cursor indices'') (usize_checked_mul row_stride height)) (\<lambda>index_bytes.
     and_then (ok_or (cursor_resource_limit_error STR ''cursor palette bytes'') (usize_checked_mul palette_entries 4)) (\<lambda>palette_bytes.
     and_then (cursor_mask_stride width) (\<lambda>mask_stride.
     and_then (ok_or (cursor_resource_limit_error STR ''palette cursor mask'') (usize_checked_mul mask_stride height)) (\<lambda>mask_bytes.
     and_then (ok_or (cursor_resource_limit_error STR ''palette cursor bytes'')
       (case usize_checked_add index_bytes palette_bytes of None \<Rightarrow> None | Some bytes \<Rightarrow> usize_checked_add bytes mask_bytes)) (\<lambda>expected_bytes.
     if length data < expected_bytes then client_err (cursor_protocol_value_error STR ''palette cursor data size'')
     else
     and_then (slice_index data 0 index_bytes) (\<lambda>indices.
     and_then (slice_index data index_bytes (index_bytes + palette_bytes)) (\<lambda>palette.
     and_then (slice_index data (index_bytes + palette_bytes) expected_bytes) (\<lambda>mask.
     for_each (\<lambda>(y, x) rgba.
       and_then (palette_cursor_index indices row_stride bits_per_pixel x y) (\<lambda>palette_index.
       let entry = unat palette_index * 4 in
       and_then (index_at palette (entry + 2)) (\<lambda>red.
       and_then (index_at palette (entry + 1)) (\<lambda>green.
       and_then (index_at palette entry) (\<lambda>blue.
       and_then (cursor_mask_bit mask mask_stride x y) (\<lambda>masked.
       Inr (push_masked_color rgba [red, green, blue] masked x y)))))))
       (List.product [0..<height] [0..<width]) [])))))))))"

definition decode_masked_color_cursor ::
    "u8 list \<Rightarrow> nat \<Rightarrow> nat \<Rightarrow> nat \<Rightarrow> nat \<Rightarrow> (u8 list \<Rightarrow> u8 list client) \<Rightarrow> u8 list client" where
  "decode_masked_color_cursor data width height bytes_per_pixel color_bytes decode_color =
     and_then (ok_or (cursor_resource_limit_error STR ''cursor pixel count'') (usize_checked_mul width height)) (\<lambda>pixels.
     and_then (cursor_mask_stride width) (\<lambda>mask_stride.
     and_then (ok_or (cursor_resource_limit_error STR ''cursor mask bytes'') (usize_checked_mul mask_stride height)) (\<lambda>mask_bytes.
     and_then (ok_or (cursor_resource_limit_error STR ''masked cursor bytes'') (usize_checked_add color_bytes mask_bytes)) (\<lambda>expected_bytes.
     if length data < expected_bytes \<or> color_bytes \<noteq> pixels * bytes_per_pixel
     then client_err (cursor_protocol_value_error STR ''masked cursor data size'')
     else
     and_then (slice_index data 0 color_bytes) (\<lambda>colors.
     and_then (slice_index data color_bytes (length data)) (\<lambda>mask.
     for_each (\<lambda>(pixel_index, pixel) rgba.
       and_then (decode_color pixel) (\<lambda>color.
       let x = pixel_index mod width; y = pixel_index div width in
       and_then (cursor_mask_bit mask mask_stride x y) (\<lambda>masked.
       Inr (push_masked_color rgba color masked x y))))
       (enumerate 0 (chunks_exact bytes_per_pixel colors)) []))))))"

text \<open>The closures that decode one pixel: reversed bytes, and five bits per component.\<close>

definition cursor_bgr :: "u8 list \<Rightarrow> u8 list client" where
  "cursor_bgr pixel =
     and_then (index_at pixel 2) (\<lambda>red. and_then (index_at pixel 1) (\<lambda>green. and_then (index_at pixel 0) (\<lambda>blue.
     Inr [red, green, blue])))"

definition cursor_rgb555 :: "u8 list \<Rightarrow> u8 list client" where
  "cursor_rgb555 pixel =
     and_then (index_at pixel 0) (\<lambda>low. and_then (index_at pixel 1) (\<lambda>high.
     let value = from_le [low, high] :: u16 in
     Inr [push_bit 3 (ucast (drop_bit 10 value) AND 0x1f), push_bit 3 (ucast (drop_bit 5 value) AND 0x1f),
          push_bit 3 (ucast value AND 0x1f)]))"

definition decode_color32_cursor :: "u8 list \<Rightarrow> nat \<Rightarrow> nat \<Rightarrow> u8 list client" where
  "decode_color32_cursor data width height =
     and_then (ok_or (cursor_resource_limit_error STR ''color32 cursor pixels'') (usize_checked_mul width height)) (\<lambda>pixels.
     and_then (ok_or (cursor_resource_limit_error STR ''color32 cursor bytes'') (usize_checked_mul pixels 4)) (\<lambda>color_bytes.
     decode_masked_color_cursor data width height 4 color_bytes cursor_bgr))"

definition decode_color16_cursor :: "u8 list \<Rightarrow> nat \<Rightarrow> nat \<Rightarrow> u8 list client" where
  "decode_color16_cursor data width height =
     and_then (ok_or (cursor_resource_limit_error STR ''color16 cursor pixels'') (usize_checked_mul width height)) (\<lambda>pixels.
     and_then (ok_or (cursor_resource_limit_error STR ''color16 cursor bytes'') (usize_checked_mul pixels 2)) (\<lambda>color_bytes.
     decode_masked_color_cursor data width height 2 color_bytes cursor_rgb555))"

definition decode_color24_cursor :: "u8 list \<Rightarrow> nat \<Rightarrow> nat \<Rightarrow> u8 list client" where
  "decode_color24_cursor data width height =
     and_then (ok_or (cursor_resource_limit_error STR ''color24 cursor pixels'') (usize_checked_mul width height)) (\<lambda>pixels.
     and_then (ok_or (cursor_resource_limit_error STR ''color24 cursor bytes'') (usize_checked_mul pixels 3)) (\<lambda>color_bytes.
     decode_masked_color_cursor data width height 3 color_bytes cursor_bgr))"

definition decode_shape :: "CursorHeader \<Rightarrow> u8 list \<Rightarrow> CursorBudget \<Rightarrow> (CursorShape \<times> CursorBudget) client" where
  "decode_shape header data budget =
     (if ch_width header = 0 \<or> ch_height header = 0 \<or> ch_width header > MAX_CURSOR_DIMENSION \<or>
         ch_height header > MAX_CURSOR_DIMENSION \<or> ch_hot_spot_x header > ch_width header \<or>
         ch_hot_spot_y header > ch_height header
      then client_err (cursor_resource_limit_error STR ''cursor dimensions or hotspot'')
      else
      let width = unat (ch_width header); height = unat (ch_height header) in
      and_then (ok_or (cursor_resource_limit_error STR ''cursor pixel count'') (usize_checked_mul width height)) (\<lambda>pixels.
      and_then (ok_or (cursor_resource_limit_error STR ''cursor image bytes'') (usize_checked_mul pixels 4)) (\<lambda>rgba_bytes.
      if rgba_bytes > MAX_CURSOR_IMAGE_BYTES then client_err (cursor_resource_limit_error STR ''cursor image bytes'')
      else
      and_then (CursorBudget_reserve rgba_bytes budget) (\<lambda>(allocation, budget).
      and_then (case ch_cursor_type header of
                  CursorType_Alpha \<Rightarrow> decode_alpha_cursor data rgba_bytes
                | CursorType_Mono \<Rightarrow> decode_mono_cursor data width height
                | CursorType_Color4 \<Rightarrow> decode_palette_cursor data width height 4
                | CursorType_Color8 \<Rightarrow> decode_palette_cursor data width height 8
                | CursorType_Color32 \<Rightarrow> decode_color32_cursor data width height
                | CursorType_Color16 \<Rightarrow> decode_color16_cursor data width height
                | CursorType_Color24 \<Rightarrow> decode_color24_cursor data width height) (\<lambda>rgba.
      Inr (\<lparr>cs_unique_id = ch_unique_id header, cs_width = ch_width header, cs_height = ch_height header,
            cs_hot_spot_x = ch_hot_spot_x header, cs_hot_spot_y = ch_hot_spot_y header, cs_rgba = rgba,
            cs_allocation = allocation\<rparr>, budget))))))"

section \<open>The task\<close>

record CursorTask =
  ct_cache :: "(u64 \<times> CursorShape) list"
  ct_budget :: CursorBudget
  ct_state :: CursorState
  ct_awaiting_init :: bool
  ct_published :: "CursorState option"
  ct_host :: "CursorState list"

definition state_shapes :: "CursorState \<Rightarrow> CursorShape list" where
  "state_shapes st = (case cst_shape st of None \<Rightarrow> [] | Some shape \<Rightarrow> [shape])"

definition held_shapes :: "CursorTask \<Rightarrow> CursorShape list" where
  "held_shapes t = map snd (ct_cache t) @ state_shapes (ct_state t) @
     (case ct_published t of None \<Rightarrow> [] | Some st \<Rightarrow> state_shapes st) @ concat (map state_shapes (ct_host t))"

text \<open>Dropping one reference to a shape, beside the ones still held by the task and by local variables.\<close>

definition release_shape :: "CursorShape list \<Rightarrow> CursorShape \<Rightarrow> CursorTask \<Rightarrow> CursorTask" where
  "release_shape locals shape t =
     (if list_ex (\<lambda>s. ca_number (cs_allocation s) = ca_number (cs_allocation shape)) (locals @ held_shapes t) then t
      else t\<lparr>ct_budget := CursorAllocation_drop (cs_allocation shape) (ct_budget t)\<rparr>)"

fun release_shapes :: "CursorShape list \<Rightarrow> CursorShape list \<Rightarrow> CursorTask \<Rightarrow> CursorTask" where
  "release_shapes locals [] t = t"
| "release_shapes locals (shape # shapes) t = release_shapes locals shapes (release_shape (shapes @ locals) shape t)"

definition CursorCache_insert :: "CursorShape \<Rightarrow> CursorTask \<Rightarrow> CursorTask client" where
  "CursorCache_insert shape t =
     (let is_new_entry = map_of (ct_cache t) (cs_unique_id shape) = None in
      if is_new_entry \<and> length (ct_cache t) \<ge> MAX_CURSOR_CACHE_ENTRIES
      then client_err (cursor_resource_limit_error STR ''cursor cache capacity'')
      else Inr (release_shapes [shape] (case map_of (ct_cache t) (cs_unique_id shape) of None \<Rightarrow> [] | Some old \<Rightarrow> [old])
                 (t\<lparr>ct_cache := AList.update (cs_unique_id shape) shape (ct_cache t)\<rparr>)))"

definition CursorCache_remove :: "u64 \<Rightarrow> CursorTask \<Rightarrow> CursorTask" where
  "CursorCache_remove unique_id t =
     release_shapes [] (case map_of (ct_cache t) unique_id of None \<Rightarrow> [] | Some old \<Rightarrow> [old])
       (t\<lparr>ct_cache := AList.delete unique_id (ct_cache t)\<rparr>)"

definition CursorCache_clear :: "CursorTask \<Rightarrow> CursorTask" where
  "CursorCache_clear t = release_shapes [] (map snd (ct_cache t)) (t\<lparr>ct_cache := []\<rparr>)"

definition resolve_image :: "CursorImage \<Rightarrow> CursorTask \<Rightarrow> (CursorShape option \<times> CursorTask) client" where
  "resolve_image cursor_image t =
     (case cursor_image of
        CursorImage_None \<Rightarrow> Inr (None, t)
      | CursorImage_Cached unique_id \<Rightarrow>
          and_then (ok_or (cursor_protocol_value_error STR ''cursor cache miss'') (map_of (ct_cache t) unique_id)) (\<lambda>shape.
          Inr (Some shape, t))
      | CursorImage_Data header cache_me data \<Rightarrow>
          and_then (decode_shape header data (ct_budget t)) (\<lambda>(shape, budget).
          let t = t\<lparr>ct_budget := budget\<rparr> in
          and_then (if cache_me then CursorCache_insert shape t else Inr t) (\<lambda>t. Inr (Some shape, t))))"

text \<open>Assigning the state drops the shape it held; so does publishing another state.\<close>

definition assign_state :: "CursorState \<Rightarrow> CursorTask \<Rightarrow> CursorTask" where
  "assign_state st t = release_shapes [] (state_shapes (ct_state t)) (t\<lparr>ct_state := st\<rparr>)"

definition publish_state :: "CursorState option \<Rightarrow> CursorTask \<Rightarrow> CursorTask" where
  "publish_state st t =
     release_shapes [] (case ct_published t of None \<Rightarrow> [] | Some old \<Rightarrow> state_shapes old) (t\<lparr>ct_published := st\<rparr>)"

definition fresh_epoch :: "CursorTask \<Rightarrow> CursorTask client" where
  "fresh_epoch t =
     and_then (ok_or (cursor_resource_limit_error STR ''cursor epoch'') (u64_checked_add (cst_cursor_epoch (ct_state t)) 1)) (\<lambda>next_epoch.
     let t = CursorCache_clear (assign_state (CursorState_fresh (cst_connection_generation (ct_state t)) (cst_channel_id (ct_state t)) next_epoch) t) in
     Inr (t\<lparr>ct_awaiting_init := True\<rparr>))"

text \<open>The first message after a migration that was not seamless.\<close>

definition cursor_migrated :: "CursorTask \<Rightarrow> CursorTask client" where
  "cursor_migrated t = and_then (fresh_epoch t) (\<lambda>t. Inr (publish_state None t))"

definition cursor_init :: "u8 list \<Rightarrow> CursorTask \<Rightarrow> CursorTask client" where
  "cursor_init body t =
     (if \<not> ct_awaiting_init t then client_err (cursor_protocol_value_error STR ''repeated Cursor Init'')
      else
      and_then (from_decode (CursorInit_decode body)) (\<lambda>update.
      let t = CursorCache_clear t;
          st = (ct_state t)\<lparr>cst_position := cui_position update, cst_trail_length := cui_trail_length update,
            cst_trail_frequency := cui_trail_frequency update, cst_visible := cui_visible update\<rparr> in
      and_then (resolve_image (cui_image update) t) (\<lambda>(shape, t).
      Inr ((assign_state (st\<lparr>cst_shape := shape\<rparr>) t)\<lparr>ct_awaiting_init := False\<rparr>))))"

definition cursor_set :: "u8 list \<Rightarrow> CursorTask \<Rightarrow> CursorTask client" where
  "cursor_set body t =
     and_then (from_decode (CursorSet_decode body)) (\<lambda>update.
     let st = (ct_state t)\<lparr>cst_position := cus_position update, cst_visible := cus_visible update\<rparr> in
     and_then (resolve_image (cus_image update) t) (\<lambda>(shape, t).
     Inr (assign_state (st\<lparr>cst_shape := shape\<rparr>) t)))"

definition cursor_dispatch :: "u16 \<Rightarrow> u8 list \<Rightarrow> CursorTask \<Rightarrow> CursorTask client" where
  "cursor_dispatch message_type body t =
     (if message_type = cursor_server_INIT then cursor_init body t
      else if message_type = cursor_server_RESET
      then and_then (cursor_require_empty body STR ''cursor reset body'') (\<lambda>_. fresh_epoch t)
      else if message_type = cursor_server_SET then cursor_set body t
      else if message_type = cursor_server_MOVE
      then and_then (from_decode (decode_cursor_position body)) (\<lambda>position.
           Inr (t\<lparr>ct_state := (ct_state t)\<lparr>cst_position := position, cst_visible := True\<rparr>\<rparr>))
      else if message_type = cursor_server_HIDE
      then and_then (cursor_require_empty body STR ''cursor hide body'') (\<lambda>_.
           Inr (t\<lparr>ct_state := (ct_state t)\<lparr>cst_visible := False\<rparr>\<rparr>))
      else if message_type = cursor_server_TRAIL
      then and_then (from_decode (decode_cursor_trail body)) (\<lambda>(trail_length, trail_frequency).
           Inr (t\<lparr>ct_state := (ct_state t)\<lparr>cst_trail_length := trail_length, cst_trail_frequency := trail_frequency\<rparr>\<rparr>))
      else if message_type = cursor_server_INVALIDATE_ONE
      then and_then (from_decode (decode_cursor_cache_id body)) (\<lambda>unique_id. Inr (CursorCache_remove unique_id t))
      else if message_type = cursor_server_INVALIDATE_ALL
      then and_then (cursor_require_empty body STR ''cursor invalidate all body'') (\<lambda>_. Inr (CursorCache_clear t))
      else client_err (ClientError_UnsupportedMessage STR ''cursor'' message_type))"

text \<open>One message that is neither common control nor a channel wait: dispatch, then publish the whole state.\<close>

definition cursor_message :: "u16 \<Rightarrow> u8 list \<Rightarrow> CursorTask \<Rightarrow> CursorTask client" where
  "cursor_message message_type body t =
     (if ct_awaiting_init t \<and> message_type \<noteq> cursor_server_INIT
      then client_err (cursor_protocol_value_error STR ''Cursor message before Init'')
      else and_then (cursor_dispatch message_type body t) (\<lambda>t. Inr (publish_state (Some (ct_state t)) t)))"

definition cursor_start :: "u64 \<Rightarrow> u8 \<Rightarrow> CursorTask" where
  "cursor_start connection_generation channel_id =
     \<lparr>ct_cache = [], ct_budget = \<lparr>cb_used = 0, cb_maximum = MAX_CURSOR_CACHE_BYTES, cb_next = 0\<rparr>,
      ct_state = CursorState_fresh connection_generation channel_id 1, ct_awaiting_init = True, ct_published = None, ct_host = []\<rparr>"

text \<open>A run of the task and its host: messages and migrations of the task, clones of the published state that the host takes
  (\<open>latest\<close> and \<open>next\<close> of \<open>CursorEvents\<close>) and drops.\<close>

datatype CursorAction = Cursor_message u16 "u8 list" | Cursor_migrated | Cursor_host_latest | Cursor_host_drop nat

fun cursor_step :: "CursorAction \<Rightarrow> CursorTask \<Rightarrow> CursorTask client" where
  "cursor_step (Cursor_message message_type body) t = cursor_message message_type body t"
| "cursor_step Cursor_migrated t = cursor_migrated t"
| "cursor_step Cursor_host_latest t =
     Inr (case ct_published t of None \<Rightarrow> t | Some st \<Rightarrow> t\<lparr>ct_host := ct_host t @ [st]\<rparr>)"
| "cursor_step (Cursor_host_drop i) t =
     Inr (if i < length (ct_host t)
          then release_shapes [] (state_shapes (ct_host t ! i)) (t\<lparr>ct_host := take i (ct_host t) @ drop (Suc i) (ct_host t)\<rparr>)
          else t)"

fun cursor_run :: "CursorAction list \<Rightarrow> CursorTask \<Rightarrow> CursorTask client" where
  "cursor_run [] t = Inr t"
| "cursor_run (act # acts) t = and_then (cursor_step act t) (cursor_run acts)"

end
