(* ===== verification/Client_CursorProofs.thy ===== *)
theory Client_CursorProofs
  imports Client_Cursor
begin

text \<open>
  What the Cursor channel guarantees: each decoder writes one pixel after the other from the pixel and mask planes of its
  format, the memory budget always equals the bytes of the images still held somewhere, and no sequence of messages and host
  actions panics.
\<close>

section \<open>What the decoders compute\<close>

lemma for_each_appends:
  "(\<And>i out. i \<in> set is \<Longrightarrow> f i out = Inr (out @ p i)) \<Longrightarrow> for_each f is out = Inr (out @ concat (map p is))"
  by (induction "is" arbitrary: out) auto

lemma product_indices: "map (\<lambda>(y, x). y * w + x) (List.product [0..<h] [0..<w]) = [0..<h * w]"
proof (induction h)
  case (Suc h)
  have "map (\<lambda>x. h * w + x) [0..<w] = [h * w..<h * w + w]"
    using map_add_upt [of "h * w" w] by (simp add: add.commute)
  moreover have "[0..<Suc h * w] = [0..<h * w] @ [h * w..<h * w + w]"
    using upt_add_eq_append [of 0 "h * w" w] by (simp add: add.commute)
  moreover have "List.product [0..<Suc h] [0..<w] = List.product [0..<h] [0..<w] @ map (Pair h) [0..<w]"
    by (simp add: product_concat_map)
  ultimately show ?case using Suc by (simp add: comp_def)
qed simp

lemma chunks_exact_nth: "0 < k \<Longrightarrow> chunks_exact k xs = map (\<lambda>i. take k (drop (i * k) xs)) [0..<length xs div k]"
proof (induction k xs rule: chunks_exact.induct)
  case (1 k xs)
  show ?case
  proof (cases "length xs < k")
    case True
    then show ?thesis by (subst chunks_exact.simps) simp
  next
    case False
    have "length xs div k = Suc ((length xs - k) div k)" using False 1(2) by (simp add: le_div_geq)
    moreover have "[0..<Suc n] = 0 # map Suc [0..<n]" for n by (metis map_Suc_upt upt_conv_Cons zero_less_Suc)
    ultimately show ?thesis using False 1 by (subst chunks_exact.simps) (simp add: comp_def add.commute)
  qed
qed

text \<open>The reference: the four bytes of the pixel at a position, format by format.\<close>

definition mask_set :: "u8 list \<Rightarrow> nat \<Rightarrow> nat \<Rightarrow> nat \<Rightarrow> nat \<Rightarrow> bool" where
  "mask_set data start w x y \<longleftrightarrow> data ! (start + y * ((w + 7) div 8) + x div 8) AND drop_bit (x mod 8) 0x80 \<noteq> 0"

definition masked_pixel :: "u8 list \<Rightarrow> bool \<Rightarrow> nat \<Rightarrow> nat \<Rightarrow> u8 list" where
  "masked_pixel color masked x y =
     (if masked \<and> color = [255, 255, 255] then invert_fallback x y else color @ [if masked then 0 else 255])"

definition palette_color :: "u8 list \<Rightarrow> nat \<Rightarrow> nat \<Rightarrow> u8 list" where
  "palette_color data start i = [data ! (start + 4 * i + 2), data ! (start + 4 * i + 1), data ! (start + 4 * i)]"

definition nibble :: "u8 \<Rightarrow> nat \<Rightarrow> nat" where
  "nibble packed x = unat (if x mod 2 = 0 then drop_bit 4 packed else packed AND 0x0f)"

definition rgb555 :: "u16 \<Rightarrow> u8 list" where
  "rgb555 value = [push_bit 3 (ucast (drop_bit 10 value) AND 0x1f), push_bit 3 (ucast (drop_bit 5 value) AND 0x1f),
     push_bit 3 (ucast value AND 0x1f)]"

fun cursor_pixel :: "CursorType \<Rightarrow> u8 list \<Rightarrow> nat \<Rightarrow> nat \<Rightarrow> nat \<times> nat \<Rightarrow> u8 list" where
  "cursor_pixel CursorType_Alpha data w h (y, x) =
     (let i = 4 * (y * w + x); alpha = data ! (i + 3) in
      [unpremultiply (data ! (i + 2)) alpha, unpremultiply (data ! (i + 1)) alpha, unpremultiply (data ! i) alpha, alpha])"
| "cursor_pixel CursorType_Mono data w h (y, x) =
     (case (mask_set data 0 w x y, mask_set data ((w + 7) div 8 * h) w x y) of
        (False, False) \<Rightarrow> [0, 0, 0, 255] | (False, True) \<Rightarrow> [255, 255, 255, 255]
      | (True, False) \<Rightarrow> [0, 0, 0, 0] | (True, True) \<Rightarrow> invert_fallback x y)"
| "cursor_pixel CursorType_Color4 data w h (y, x) =
     (let n = (w + 1) div 2 * h in
      masked_pixel (palette_color data n (nibble (data ! (y * ((w + 1) div 2) + x div 2)) x)) (mask_set data (n + 64) w x y) x y)"
| "cursor_pixel CursorType_Color8 data w h (y, x) =
     masked_pixel (palette_color data (w * h) (unat (data ! (y * w + x)))) (mask_set data (w * h + 1024) w x y) x y"
| "cursor_pixel CursorType_Color16 data w h (y, x) =
     (let i = 2 * (y * w + x) in
      masked_pixel (rgb555 (from_le [data ! i, data ! (i + 1)])) (mask_set data (2 * (w * h)) w x y) x y)"
| "cursor_pixel CursorType_Color24 data w h (y, x) =
     (let i = 3 * (y * w + x) in
      masked_pixel [data ! (i + 2), data ! (i + 1), data ! i] (mask_set data (3 * (w * h)) w x y) x y)"
| "cursor_pixel CursorType_Color32 data w h (y, x) =
     (let i = 4 * (y * w + x) in
      masked_pixel [data ! (i + 2), data ! (i + 1), data ! i] (mask_set data (4 * (w * h)) w x y) x y)"

fun cursor_data_bytes :: "CursorType \<Rightarrow> nat \<Rightarrow> nat \<Rightarrow> nat" where
  "cursor_data_bytes CursorType_Alpha w h = 4 * (w * h)"
| "cursor_data_bytes CursorType_Mono w h = 2 * ((w + 7) div 8 * h)"
| "cursor_data_bytes CursorType_Color4 w h = (w + 1) div 2 * h + 64 + (w + 7) div 8 * h"
| "cursor_data_bytes CursorType_Color8 w h = w * h + 1024 + (w + 7) div 8 * h"
| "cursor_data_bytes CursorType_Color16 w h = 2 * (w * h) + (w + 7) div 8 * h"
| "cursor_data_bytes CursorType_Color24 w h = 3 * (w * h) + (w + 7) div 8 * h"
| "cursor_data_bytes CursorType_Color32 w h = 4 * (w * h) + (w + 7) div 8 * h"

definition cursor_image_bytes :: "CursorType \<Rightarrow> u8 list \<Rightarrow> nat \<Rightarrow> nat \<Rightarrow> u8 list" where
  "cursor_image_bytes cursor_type data w h = concat (map (cursor_pixel cursor_type data w h) (List.product [0..<h] [0..<w]))"

lemma length_cursor_pixel: "length (cursor_pixel cursor_type data w h i) = 4"
  by (cases cursor_type; cases i)
     (simp_all add: Let_def masked_pixel_def palette_color_def invert_fallback_def rgb555_def split: bool.split)

lemma length_cursor_image: "length (cursor_image_bytes cursor_type data w h) = 4 * (w * h)"
proof -
  have "length (concat (map (cursor_pixel cursor_type data w h) xs)) = 4 * length xs" for xs
    by (induction xs) (simp_all add: length_cursor_pixel)
  then show ?thesis by (simp add: cursor_image_bytes_def mult.commute)
qed


lemma row_index_less: "x < w \<Longrightarrow> y < h \<Longrightarrow> y * w + x < w * h" for x y w h :: nat
proof -
  assume "x < w" "y < h"
  then have "y * w + x < Suc y * w" by simp
  also have "\<dots> \<le> h * w" using \<open>y < h\<close> by (intro mult_le_mono1) simp
  finally show ?thesis by (simp add: mult.commute)
qed

lemma mask_index_less: "x < w \<Longrightarrow> y < h \<Longrightarrow> y * ((w + 7) div 8) + x div 8 < (w + 7) div 8 * h" for x y w h :: nat
  by (rule row_index_less) auto

lemma cursor_mask_bit_at:
  assumes "x < w" "y < h" "(w + 7) div 8 * h \<le> n" "start + n \<le> length data"
  shows "cursor_mask_bit (take n (drop start data)) ((w + 7) div 8) x y = Inr (mask_set data start w x y)"
  using mask_index_less [OF assms(1,2)] assms(3,4)
  by (simp add: cursor_mask_bit_def mask_set_def add.assoc)

lemma slice_index_ok: "a \<le> b \<Longrightarrow> b \<le> length xs \<Longrightarrow> slice_index xs a b = Inr (take (b - a) (drop a xs))"
  by (simp add: slice_index_def slice_get_def)

lemma cursor_mask_stride_ok: "w \<le> 512 \<Longrightarrow> cursor_mask_stride w = Inr ((w + 7) div 8)"
  by (simp add: cursor_mask_stride_def)

lemma small_product: "w \<le> 512 \<Longrightarrow> h \<le> 512 \<Longrightarrow> w * h \<le> 262144" for w h :: nat
  using mult_le_mono [of w 512 h 512] by simp

lemma mask_bytes_small: "w \<le> 512 \<Longrightarrow> h \<le> 512 \<Longrightarrow> (w + 7) div 8 * h \<le> 262144" for w h :: nat
  by (rule small_product) auto

lemma in_product: "i \<in> set (List.product [0..<h] [0..<w]) \<Longrightarrow> \<exists>y x. i = (y, x) \<and> y < h \<and> x < w"
  by auto

lemma decode_alpha_exact:
  "decode_alpha_cursor data (4 * (w * h)) =
     (if length data < 4 * (w * h) then client_err (cursor_protocol_value_error STR ''alpha cursor data size'')
      else Inr (cursor_image_bytes CursorType_Alpha data w h))"
proof (cases "length data < 4 * (w * h)")
  case False
  let ?body = "\<lambda>bgra rgba.
        and_then (index_at bgra 3) (\<lambda>alpha. and_then (index_at bgra 2) (\<lambda>red. and_then (index_at bgra 1) (\<lambda>green.
        and_then (index_at bgra 0) (\<lambda>blue.
        Inr (rgba @ [unpremultiply red alpha, unpremultiply green alpha, unpremultiply blue alpha, alpha]))))) :: u8 list client"
  have "chunks_exact 4 (take (4 * (w * h)) data) = map (\<lambda>i. take 4 (drop (i * 4) (take (4 * (w * h)) data))) (map (\<lambda>(y, x). y * w + x) (List.product [0..<h] [0..<w]))"
    using False by (simp add: chunks_exact_nth product_indices mult.commute [of h w])
  also have "\<dots> = map (\<lambda>(y, x). take 4 (drop ((y * w + x) * 4) (take (4 * (w * h)) data))) (List.product [0..<h] [0..<w])"
    by (simp add: case_prod_beta comp_def)
  finally have "for_each ?body (chunks_exact 4 (take (4 * (w * h)) data)) [] =
      for_each (\<lambda>i. ?body ((\<lambda>(y, x). take 4 (drop ((y * w + x) * 4) (take (4 * (w * h)) data))) i)) (List.product [0..<h] [0..<w]) []"
    by (simp only: for_each_map)
  also have "\<dots> = Inr ([] @ cursor_image_bytes CursorType_Alpha data w h)"
    unfolding cursor_image_bytes_def
  proof (rule for_each_appends)
    fix i out assume "i \<in> set (List.product [0..<h] [0..<w])"
    then obtain y x where i: "i = (y, x)" "x < w" "y < h" by auto
    have "4 * (y * w + x) + 3 < 4 * (w * h)" using row_index_less [OF i(2,3)] by simp
    then show "?body ((\<lambda>(y, x). take 4 (drop ((y * w + x) * 4) (take (4 * (w * h)) data))) i) out = Inr (out @ cursor_pixel CursorType_Alpha data w h i)"
      using False i(1) by (simp add: Let_def mult.commute)
  qed
  finally show ?thesis using False by (simp add: decode_alpha_cursor_def slice_index_ok)
qed (simp add: decode_alpha_cursor_def)

lemma decode_mono_exact:
  assumes "w \<le> 512" "h \<le> 512"
  shows "decode_mono_cursor data w h =
     (if length data < cursor_data_bytes CursorType_Mono w h then client_err (cursor_protocol_value_error STR ''monochrome cursor data size'')
      else Inr (cursor_image_bytes CursorType_Mono data w h))"
proof (cases "length data < 2 * ((w + 7) div 8 * h)")
  case True
  then show ?thesis using mask_bytes_small [OF assms] assms by (simp add: decode_mono_cursor_def cursor_mask_stride_ok mult.commute)
next
  case False
  let ?s = "(w + 7) div 8" let ?m = "(w + 7) div 8 * h"
  have len: "?m + ?m \<le> length data" using False by simp
  let ?body = "\<lambda>(y, x) rgba.
       and_then (cursor_mask_bit (take ?m (drop 0 data)) ?s x y) (\<lambda>a.
       and_then (cursor_mask_bit (take ?m (drop ?m data)) ?s x y) (\<lambda>b.
       Inr (if \<not> a \<and> \<not> b then rgba @ [0, 0, 0, 255]
            else if \<not> a \<and> b then rgba @ [255, 255, 255, 255]
            else if a \<and> \<not> b then rgba @ [0, 0, 0, 0]
            else push_invert_fallback rgba x y)))"
  have "for_each ?body (List.product [0..<h] [0..<w]) [] = Inr ([] @ cursor_image_bytes CursorType_Mono data w h)"
    unfolding cursor_image_bytes_def
  proof (rule for_each_appends)
    fix i out assume "i \<in> set (List.product [0..<h] [0..<w])"
    then obtain y x where i: "i = (y, x)" "x < w" "y < h" by auto
    show "?body i out = Inr (out @ cursor_pixel CursorType_Mono data w h i)"
      using cursor_mask_bit_at [OF i(2,3), of ?m 0 data] cursor_mask_bit_at [OF i(2,3), of ?m ?m data] len
      by (simp add: i(1) push_invert_fallback_def split: bool.split)
  qed
  then show ?thesis
    using len False mask_bytes_small [OF assms] assms
    by (simp add: decode_mono_cursor_def cursor_mask_stride_ok slice_index_ok mult.commute)
qed

lemma push_masked_pixel: "push_masked_color rgba color masked x y = rgba @ masked_pixel color masked x y"
  by (simp add: push_masked_color_def masked_pixel_def push_invert_fallback_def)

lemma decode_masked_exact:
  assumes "w \<le> 512" "h \<le> 512" "0 < k" "k \<le> 4"
    and color: "\<And>pixel. length pixel = k \<Longrightarrow> decode_color pixel = Inr (c pixel)"
  shows "decode_masked_color_cursor data w h k (k * (w * h)) decode_color =
     (if length data < k * (w * h) + (w + 7) div 8 * h then client_err (cursor_protocol_value_error STR ''masked cursor data size'')
      else Inr (concat (map (\<lambda>(y, x). masked_pixel (c (take k (drop (k * (y * w + x)) data))) (mask_set data (k * (w * h)) w x y) x y)
        (List.product [0..<h] [0..<w]))))"
proof -
  let ?s = "(w + 7) div 8" let ?m = "(w + 7) div 8 * h" let ?n = "k * (w * h)"
  have small: "w * h \<le> 262144" "?m \<le> 262144" "?n \<le> 1048576"
    using small_product [OF assms(1,2)] mask_bytes_small [OF assms(1,2)] mult_le_mono [of k 4 "w * h" 262144] assms(4) by simp_all
  show ?thesis
  proof (cases "length data < ?n + ?m")
    case True
    then show ?thesis using small assms(1) by (simp add: decode_masked_color_cursor_def cursor_mask_stride_ok)
  next
    case False
    let ?mask = "take (length data - ?n) (drop ?n data)"
    let ?body = "\<lambda>(pixel_index, pixel) rgba.
       and_then (decode_color pixel) (\<lambda>color.
       let x = pixel_index mod w; y = pixel_index div w in
       and_then (cursor_mask_bit ?mask ?s x y) (\<lambda>masked. Inr (push_masked_color rgba color masked x y)))"
    let ?cell = "\<lambda>(y, x). (y * w + x, take k (drop ((y * w + x) * k) (take ?n data)))"
    have "enumerate 0 (chunks_exact k (take ?n data)) = map (\<lambda>i. (i, take k (drop (i * k) (take ?n data)))) [0..<h * w]"
      using False assms(3) by (simp add: chunks_exact_nth enumerate_map_upt mult.commute [of h w])
    also have "\<dots> = map ?cell (List.product [0..<h] [0..<w])"
      by (simp add: product_indices [symmetric] case_prod_beta comp_def)
    finally have "for_each ?body (enumerate 0 (chunks_exact k (take ?n data))) [] = for_each (\<lambda>i. ?body (?cell i)) (List.product [0..<h] [0..<w]) []"
      by (simp only: for_each_map)
    also have "\<dots> = Inr ([] @ concat (map (\<lambda>(y, x). masked_pixel (c (take k (drop (k * (y * w + x)) data))) (mask_set data ?n w x y) x y)
        (List.product [0..<h] [0..<w])))"
    proof (rule for_each_appends)
      fix i out assume "i \<in> set (List.product [0..<h] [0..<w])"
      then obtain y x where i: "i = (y, x)" "x < w" "y < h" by auto
      have "Suc (y * w + x) \<le> w * h" using row_index_less [OF i(2,3)] by simp
      then have "k * Suc (y * w + x) \<le> ?n" by (rule mult_le_mono2)
      then have cell: "k * (y * w + x) + k \<le> ?n" by (simp add: algebra_simps)
      then have take: "take k (drop ((y * w + x) * k) (take ?n data)) = take k (drop (k * (y * w + x)) data)"
        by (simp add: drop_take mult.commute min_def)
      have "cursor_mask_bit ?mask ?s x y = Inr (mask_set data ?n w x y)"
        using cursor_mask_bit_at [OF i(2,3), of "length data - ?n" ?n data] False by simp
      then show "?body (?cell i) out = Inr (out @ (\<lambda>(y, x). masked_pixel (c (take k (drop (k * (y * w + x)) data))) (mask_set data ?n w x y) x y) i)"
        using i cell False color by (simp add: take push_masked_pixel Let_def)
    qed
    finally show ?thesis
      using small assms(1) False
      by (simp add: decode_masked_color_cursor_def cursor_mask_stride_ok slice_index_ok mult.commute [of "w * h" k])
  qed
qed

lemma cursor_bgr_ok: "3 \<le> length pixel \<Longrightarrow> cursor_bgr pixel = Inr [pixel ! 2, pixel ! 1, pixel ! 0]"
  by (auto simp: cursor_bgr_def)

lemma cursor_rgb555_ok: "2 \<le> length pixel \<Longrightarrow> cursor_rgb555 pixel = Inr (rgb555 (from_le [pixel ! 0, pixel ! 1]))"
  by (auto simp: cursor_rgb555_def rgb555_def Let_def)

lemma cell_inside:
  assumes "i \<in> set (List.product [0..<h] [0..<w])" "k * (w * h) \<le> n" "0 < (k :: nat)"
  obtains y x where "i = (y, x)" "k * (y * w + x) + k \<le> n"
proof -
  obtain y x where i: "i = (y, x)" "x < w" "y < h" using assms(1) by auto
  have "k * Suc (y * w + x) \<le> k * (w * h)" using row_index_less [OF i(2,3)] by (intro mult_le_mono2) simp
  then show thesis using that i(1) assms(2) by (simp add: algebra_simps)
qed

lemma decode_colors_exact:
  assumes "w \<le> 512" "h \<le> 512"
  shows "decode_color32_cursor data w h = (if length data < cursor_data_bytes CursorType_Color32 w h
      then client_err (cursor_protocol_value_error STR ''masked cursor data size'') else Inr (cursor_image_bytes CursorType_Color32 data w h))"
    "decode_color24_cursor data w h = (if length data < cursor_data_bytes CursorType_Color24 w h
      then client_err (cursor_protocol_value_error STR ''masked cursor data size'') else Inr (cursor_image_bytes CursorType_Color24 data w h))"
    "decode_color16_cursor data w h = (if length data < cursor_data_bytes CursorType_Color16 w h
      then client_err (cursor_protocol_value_error STR ''masked cursor data size'') else Inr (cursor_image_bytes CursorType_Color16 data w h))"
proof -
  have small: "w * h \<le> 262144" by (rule small_product [OF assms])
  note masked = decode_masked_exact [OF assms, where data = data]
  have bgr: "concat (map (\<lambda>(y, x). masked_pixel ((\<lambda>p. [p ! 2, p ! 1, p ! 0]) (take k (drop (k * (y * w + x)) data))) (mask_set data (k * (w * h)) w x y) x y)
        (List.product [0..<h] [0..<w])) = cursor_image_bytes t data w h"
    if fits: "k * (w * h) \<le> length data" and kind: "k = 3 \<and> t = CursorType_Color24 \<or> k = 4 \<and> t = CursorType_Color32" for k t
    unfolding cursor_image_bytes_def
  proof (intro arg_cong [of _ _ concat] map_cong refl)
    fix i assume "i \<in> set (List.product [0..<h] [0..<w])"
    moreover have "0 < k" using kind by auto
    ultimately obtain y x where i: "i = (y, x)" "k * (y * w + x) + k \<le> length data" by (rule cell_inside [OF _ fits])
    then show "(\<lambda>(y, x). masked_pixel ((\<lambda>p. [p ! 2, p ! 1, p ! 0]) (take k (drop (k * (y * w + x)) data))) (mask_set data (k * (w * h)) w x y) x y) i =
        cursor_pixel t data w h i"
      using kind by (auto simp: Let_def)
  qed
  have mul: "usize_checked_mul w h = Some (w * h)" "k \<le> 4 \<Longrightarrow> usize_checked_mul (w * h) k = Some (k * (w * h))" for k
    using small mult_le_mono [of "w * h" 262144 k 4] by (simp_all add: mult.commute)
  show "decode_color32_cursor data w h = (if length data < cursor_data_bytes CursorType_Color32 w h
      then client_err (cursor_protocol_value_error STR ''masked cursor data size'') else Inr (cursor_image_bytes CursorType_Color32 data w h))"
  proof -
    have "decode_color32_cursor data w h = decode_masked_color_cursor data w h 4 (4 * (w * h)) cursor_bgr"
      unfolding decode_color32_cursor_def mul(1) by (simp add: mul(2))
    also have "\<dots> = (if length data < 4 * (w * h) + (w + 7) div 8 * h then client_err (cursor_protocol_value_error STR ''masked cursor data size'')
        else Inr (concat (map (\<lambda>(y, x). masked_pixel ((\<lambda>p. [p ! 2, p ! 1, p ! 0]) (take 4 (drop (4 * (y * w + x)) data))) (mask_set data (4 * (w * h)) w x y) x y)
        (List.product [0..<h] [0..<w]))))"
      by (rule masked) (simp_all add: cursor_bgr_ok)
    finally show ?thesis using bgr [of 4 CursorType_Color32] by (cases "length data < 4 * (w * h) + (w + 7) div 8 * h") simp_all
  qed
  show "decode_color24_cursor data w h = (if length data < cursor_data_bytes CursorType_Color24 w h
      then client_err (cursor_protocol_value_error STR ''masked cursor data size'') else Inr (cursor_image_bytes CursorType_Color24 data w h))"
  proof -
    have "decode_color24_cursor data w h = decode_masked_color_cursor data w h 3 (3 * (w * h)) cursor_bgr"
      unfolding decode_color24_cursor_def mul(1) by (simp add: mul(2))
    also have "\<dots> = (if length data < 3 * (w * h) + (w + 7) div 8 * h then client_err (cursor_protocol_value_error STR ''masked cursor data size'')
        else Inr (concat (map (\<lambda>(y, x). masked_pixel ((\<lambda>p. [p ! 2, p ! 1, p ! 0]) (take 3 (drop (3 * (y * w + x)) data))) (mask_set data (3 * (w * h)) w x y) x y)
        (List.product [0..<h] [0..<w]))))"
      by (rule masked) (simp_all add: cursor_bgr_ok)
    finally show ?thesis using bgr [of 3 CursorType_Color24] by (cases "length data < 3 * (w * h) + (w + 7) div 8 * h") simp_all
  qed
  have rgb: "concat (map (\<lambda>(y, x). masked_pixel ((\<lambda>p. rgb555 (from_le [p ! 0, p ! 1])) (take 2 (drop (2 * (y * w + x)) data))) (mask_set data (2 * (w * h)) w x y) x y)
        (List.product [0..<h] [0..<w])) = cursor_image_bytes CursorType_Color16 data w h" if fits: "2 * (w * h) \<le> length data"
    unfolding cursor_image_bytes_def
  proof (intro arg_cong [of _ _ concat] map_cong refl)
    fix i assume "i \<in> set (List.product [0..<h] [0..<w])"
    then obtain y x where i: "i = (y, x)" "2 * (y * w + x) + 2 \<le> length data" by (rule cell_inside [OF _ fits]) simp_all
    then show "(\<lambda>(y, x). masked_pixel ((\<lambda>p. rgb555 (from_le [p ! 0, p ! 1])) (take 2 (drop (2 * (y * w + x)) data))) (mask_set data (2 * (w * h)) w x y) x y) i =
        cursor_pixel CursorType_Color16 data w h i"
      by (simp add: Let_def)
  qed
  show "decode_color16_cursor data w h = (if length data < cursor_data_bytes CursorType_Color16 w h
      then client_err (cursor_protocol_value_error STR ''masked cursor data size'') else Inr (cursor_image_bytes CursorType_Color16 data w h))"
  proof -
    have "decode_color16_cursor data w h = decode_masked_color_cursor data w h 2 (2 * (w * h)) cursor_rgb555"
      unfolding decode_color16_cursor_def mul(1) by (simp add: mul(2))
    also have "\<dots> = (if length data < 2 * (w * h) + (w + 7) div 8 * h then client_err (cursor_protocol_value_error STR ''masked cursor data size'')
        else Inr (concat (map (\<lambda>(y, x). masked_pixel ((\<lambda>p. rgb555 (from_le [p ! 0, p ! 1])) (take 2 (drop (2 * (y * w + x)) data))) (mask_set data (2 * (w * h)) w x y) x y)
        (List.product [0..<h] [0..<w]))))"
      by (rule masked) (simp_all add: cursor_rgb555_ok)
    finally show ?thesis using rgb by (cases "length data < 2 * (w * h) + (w + 7) div 8 * h") simp_all
  qed
qed

lemma palette_index_bound: "unat (if x mod 2 = 0 then drop_bit 4 packed else packed AND 0x0f) < 16" for packed :: u8
proof -
  have "unat (packed AND 0x0f) \<le> unat (0x0f :: u8)" unfolding word_le_nat_alt [symmetric] by (simp add: word_and_le1)
  moreover have "unat (drop_bit 4 packed) < 16"
    using unsigned_less [of packed, where 'a = nat] by (simp add: drop_bit_eq_div unat_div)
  ultimately show ?thesis by simp
qed

lemma palette_entry_at:
  assumes "i < n" "start + n * 4 \<le> length data" "j < 4"
  shows "index_at (take (n * 4) (drop start data)) (i * 4 + j) = Inr (data ! (start + 4 * i + j))"
proof -
  have "i * 4 + j < n * 4" using assms(1,3) by simp
  then show ?thesis using assms(2) by (simp add: mult.commute add.assoc)
qed

lemma decode_palette_exact:
  assumes "w \<le> 512" "h \<le> 512" and kind: "bits = 4 \<and> t = CursorType_Color4 \<or> bits = 8 \<and> t = CursorType_Color8"
  shows "decode_palette_cursor data w h bits = (if length data < cursor_data_bytes t w h
      then client_err (cursor_protocol_value_error STR ''palette cursor data size'') else Inr (cursor_image_bytes t data w h))"
proof -
  define n where "n = (if bits = 4 then 16 else 256 :: nat)"
  define r where "r = (if bits = 4 then (w + 1) div 2 else w)"
  define m where "m = (w + 7) div 8 * h"
  have small: "r * h \<le> 262144" "m \<le> 262144"
    using assms(1,2) small_product [of r h] mask_bytes_small [OF assms(1,2)] by (auto simp: r_def m_def)
  have bytes: "cursor_data_bytes t w h = r * h + n * 4 + m" using kind by (auto simp: r_def n_def m_def)
  have head: "(if bits = 4 then and_then (ok_or e1 (usize_checked_add w 1)) (\<lambda>pixels. Inr (16, pixels div 2))
      else if bits = 8 then Inr (256, w) else client_err e2) = Inr (n, r)" for e1 e2
    using kind assms(1) by (auto simp: n_def r_def)
  have unfold: "decode_palette_cursor data w h bits = (if length data < r * h + n * 4 + m
      then client_err (cursor_protocol_value_error STR ''palette cursor data size'')
      else for_each (\<lambda>(y, x) rgba.
       and_then (palette_cursor_index (take (r * h) data) r bits x y) (\<lambda>palette_index.
       let entry = unat palette_index * 4 in
       and_then (index_at (take (n * 4) (drop (r * h) data)) (entry + 2)) (\<lambda>red.
       and_then (index_at (take (n * 4) (drop (r * h) data)) (entry + 1)) (\<lambda>green.
       and_then (index_at (take (n * 4) (drop (r * h) data)) entry) (\<lambda>blue.
       and_then (cursor_mask_bit (take m (drop (r * h + n * 4) data)) ((w + 7) div 8) x y) (\<lambda>masked.
       Inr (push_masked_color rgba [red, green, blue] masked x y)))))))
       (List.product [0..<h] [0..<w]) [])"
  proof -
    have "n \<le> 256" by (simp add: n_def)
    then show ?thesis
      unfolding decode_palette_cursor_def head
      using small assms(1) by (simp add: cursor_mask_stride_ok slice_index_ok m_def [symmetric])
  qed
  show ?thesis
  proof (cases "length data < r * h + n * 4 + m")
    case False
    have "for_each (\<lambda>(y, x) rgba.
       and_then (palette_cursor_index (take (r * h) data) r bits x y) (\<lambda>palette_index.
       let entry = unat palette_index * 4 in
       and_then (index_at (take (n * 4) (drop (r * h) data)) (entry + 2)) (\<lambda>red.
       and_then (index_at (take (n * 4) (drop (r * h) data)) (entry + 1)) (\<lambda>green.
       and_then (index_at (take (n * 4) (drop (r * h) data)) entry) (\<lambda>blue.
       and_then (cursor_mask_bit (take m (drop (r * h + n * 4) data)) ((w + 7) div 8) x y) (\<lambda>masked.
       Inr (push_masked_color rgba [red, green, blue] masked x y)))))))
       (List.product [0..<h] [0..<w]) [] = Inr ([] @ cursor_image_bytes t data w h)"
      unfolding cursor_image_bytes_def
    proof (rule for_each_appends, goal_cases)
      case (1 i out)
      then obtain y x where i: "i = (y, x)" "x < w" "y < h" by auto
      let ?e = "if bits = 4 then nibble (data ! (y * r + x div 2)) x else unat (data ! (y * r + x))"
      have "(if bits = 4 then x div 2 else x) < r" using i(2) kind by (auto simp: r_def)
      from row_index_less [OF this i(3)] have idx: "y * r + (if bits = 4 then x div 2 else x) < r * h" .
      have e: "?e < n" using palette_index_bound [of x "data ! (y * r + x div 2)"] unsigned_less [of "data ! (y * r + x)", where 'a = nat]
        by (auto simp: n_def nibble_def)
      obtain p where p: "palette_cursor_index (take (r * h) data) r bits x y = Inr p" "unat p = ?e"
        using idx False kind by (auto simp: palette_cursor_index_def nibble_def split: if_split_asm)
      have fits: "r * h + n * 4 \<le> length data" using False by simp
      note entries = palette_entry_at [OF e fits, of 2] palette_entry_at [OF e fits, of 1] palette_entry_at [OF e fits, of 0]
      have mask: "cursor_mask_bit (take m (drop (r * h + n * 4) data)) ((w + 7) div 8) x y = Inr (mask_set data (r * h + n * 4) w x y)"
        using cursor_mask_bit_at [OF i(2,3), of m "r * h + n * 4" data] False by (simp add: m_def)
      have "cursor_pixel t data w h i = masked_pixel (palette_color data (r * h) ?e) (mask_set data (r * h + n * 4) w x y) x y"
        using kind i(1) by (auto simp: r_def n_def Let_def)
      then show ?case using i(1) p entries mask by (simp add: Let_def push_masked_pixel palette_color_def)
    qed
    then show ?thesis using False unfold bytes by simp
  qed (simp add: unfold bytes)
qed

text \<open>Whatever the format, a shape decodes exactly when its header is in range, the budget has room and the data is long enough.\<close>

definition cursor_header_ok :: "CursorHeader \<Rightarrow> bool" where
  "cursor_header_ok header \<longleftrightarrow> 0 < ch_width header \<and> 0 < ch_height header \<and> ch_width header \<le> 512 \<and> ch_height header \<le> 512 \<and>
     ch_hot_spot_x header \<le> ch_width header \<and> ch_hot_spot_y header \<le> ch_height header"

lemma word_dimension: "w \<le> 512 \<longleftrightarrow> unat w \<le> 512" for w :: u16
  by (simp add: word_le_nat_alt)

lemma cursor_rgba_exact:
  assumes "w \<le> 512" "h \<le> 512"
  shows "\<exists>e. (case t of
                  CursorType_Alpha \<Rightarrow> decode_alpha_cursor data (w * h * 4)
                | CursorType_Mono \<Rightarrow> decode_mono_cursor data w h
                | CursorType_Color4 \<Rightarrow> decode_palette_cursor data w h 4
                | CursorType_Color8 \<Rightarrow> decode_palette_cursor data w h 8
                | CursorType_Color32 \<Rightarrow> decode_color32_cursor data w h
                | CursorType_Color16 \<Rightarrow> decode_color16_cursor data w h
                | CursorType_Color24 \<Rightarrow> decode_color24_cursor data w h) =
     (if length data < cursor_data_bytes t w h then client_err e else Inr (cursor_image_bytes t data w h))"
  using decode_alpha_exact [of data w h] decode_mono_exact [OF assms] decode_colors_exact [OF assms]
    decode_palette_exact [OF assms, of 4 CursorType_Color4] decode_palette_exact [OF assms, of 8 CursorType_Color8]
  by (cases t) (auto simp: mult.commute [of "w * h" 4])

definition decoded_shape :: "CursorHeader \<Rightarrow> u8 list \<Rightarrow> CursorBudget \<Rightarrow> CursorShape" where
  "decoded_shape header data budget =
     \<lparr>cs_unique_id = ch_unique_id header, cs_width = ch_width header, cs_height = ch_height header,
      cs_hot_spot_x = ch_hot_spot_x header, cs_hot_spot_y = ch_hot_spot_y header,
      cs_rgba = cursor_image_bytes (ch_cursor_type header) data (unat (ch_width header)) (unat (ch_height header)),
      cs_allocation = \<lparr>ca_bytes = 4 * (unat (ch_width header) * unat (ch_height header)), ca_number = cb_next budget\<rparr>\<rparr>"

lemma reserve_exact:
  "cb_maximum budget < usize_limit \<Longrightarrow> CursorBudget_reserve n budget =
     (if cb_used budget + n \<le> cb_maximum budget
      then Inr (\<lparr>ca_bytes = n, ca_number = cb_next budget\<rparr>, budget\<lparr>cb_used := cb_used budget + n, cb_next := Suc (cb_next budget)\<rparr>)
      else client_err (cursor_resource_limit_error STR ''cursor live byte budget''))"
  by (cases "cb_used budget + n < usize_limit") (simp_all add: CursorBudget_reserve_def usize_checked_add_def)

lemma decode_shape_exact:
  fixes header data budget
  defines "w \<equiv> unat (ch_width header)" and "h \<equiv> unat (ch_height header)"
  assumes "cb_maximum budget < usize_limit"
  shows "if cursor_header_ok header \<and> cb_used budget + 4 * (w * h) \<le> cb_maximum budget \<and> cursor_data_bytes (ch_cursor_type header) w h \<le> length data
    then decode_shape header data budget = Inr (decoded_shape header data budget,
      budget\<lparr>cb_used := cb_used budget + 4 * (w * h), cb_next := Suc (cb_next budget)\<rparr>)
    else \<exists>e. decode_shape header data budget = client_err e"
proof (cases "cursor_header_ok header")
  case False
  then show ?thesis by (auto simp: cursor_header_ok_def decode_shape_def word_gt_0)
next
  case True
  then have dims: "w \<le> 512" "h \<le> 512" by (simp_all add: cursor_header_ok_def word_dimension w_def h_def)
  have small: "w * h \<le> 262144" by (rule small_product [OF dims])
  obtain e where rgba: "(case ch_cursor_type header of
                  CursorType_Alpha \<Rightarrow> decode_alpha_cursor data (w * h * 4)
                | CursorType_Mono \<Rightarrow> decode_mono_cursor data w h
                | CursorType_Color4 \<Rightarrow> decode_palette_cursor data w h 4
                | CursorType_Color8 \<Rightarrow> decode_palette_cursor data w h 8
                | CursorType_Color32 \<Rightarrow> decode_color32_cursor data w h
                | CursorType_Color16 \<Rightarrow> decode_color16_cursor data w h
                | CursorType_Color24 \<Rightarrow> decode_color24_cursor data w h) =
     (if length data < cursor_data_bytes (ch_cursor_type header) w h then client_err e
      else Inr (cursor_image_bytes (ch_cursor_type header) data w h))"
    using cursor_rgba_exact [OF dims] by blast
  have unfold: "decode_shape header data budget =
      and_then (CursorBudget_reserve (w * h * 4) budget) (\<lambda>(allocation, budget).
      and_then (case ch_cursor_type header of
                  CursorType_Alpha \<Rightarrow> decode_alpha_cursor data (w * h * 4)
                | CursorType_Mono \<Rightarrow> decode_mono_cursor data w h
                | CursorType_Color4 \<Rightarrow> decode_palette_cursor data w h 4
                | CursorType_Color8 \<Rightarrow> decode_palette_cursor data w h 8
                | CursorType_Color32 \<Rightarrow> decode_color32_cursor data w h
                | CursorType_Color16 \<Rightarrow> decode_color16_cursor data w h
                | CursorType_Color24 \<Rightarrow> decode_color24_cursor data w h) (\<lambda>rgba.
      Inr (\<lparr>cs_unique_id = ch_unique_id header, cs_width = ch_width header, cs_height = ch_height header,
            cs_hot_spot_x = ch_hot_spot_x header, cs_hot_spot_y = ch_hot_spot_y header, cs_rgba = rgba,
            cs_allocation = allocation\<rparr>, budget)))"
  proof -
    have mul: "usize_checked_mul w h = Some (w * h)" "usize_checked_mul (w * h) 4 = Some (w * h * 4)" "\<not> MAX_CURSOR_IMAGE_BYTES < w * h * 4"
      using small by (simp_all add: mult.commute [of h w])
    have range: "\<not> (ch_width header = 0 \<or> ch_height header = 0 \<or> ch_width header > MAX_CURSOR_DIMENSION \<or>
         ch_height header > MAX_CURSOR_DIMENSION \<or> ch_hot_spot_x header > ch_width header \<or> ch_hot_spot_y header > ch_height header)"
      using True by (auto simp: cursor_header_ok_def)
    show ?thesis
      unfolding decode_shape_def Let_def if_not_P [OF range] w_def [symmetric] h_def [symmetric] mul(1) ok_or_simps and_then_Inr mul(2) if_not_P [OF mul(3)] ..
  qed
  show ?thesis
    unfolding unfold rgba
    using True assms(3)
    by (auto simp: reserve_exact [OF assms(3)] decoded_shape_def w_def h_def mult.commute [of _ 4])
qed

section \<open>The budget counts the live shapes\<close>

definition allocations :: "CursorShape list \<Rightarrow> CursorAllocation set" where
  "allocations shapes = cs_allocation ` set shapes"

definition budget_ok :: "CursorShape list \<Rightarrow> CursorTask \<Rightarrow> bool" where
  "budget_ok locals t \<longleftrightarrow>
     cb_used (ct_budget t) = (\<Sum>a \<in> allocations (locals @ held_shapes t). ca_bytes a) \<and>
     cb_used (ct_budget t) \<le> MAX_CURSOR_CACHE_BYTES \<and> cb_maximum (ct_budget t) = MAX_CURSOR_CACHE_BYTES \<and>
     inj_on ca_number (allocations (locals @ held_shapes t)) \<and>
     (\<forall>a \<in> allocations (locals @ held_shapes t). ca_number a < cb_next (ct_budget t))"

lemma budget_ok_cong:
  "budget_ok locals t \<Longrightarrow> ct_budget t' = ct_budget t \<Longrightarrow>
     allocations (locals' @ held_shapes t') = allocations (locals @ held_shapes t) \<Longrightarrow> budget_ok locals' t'"
  by (simp add: budget_ok_def)

lemma release_frame [simp]:
  "ct_cache (release_shape locals shape t) = ct_cache t" "ct_state (release_shape locals shape t) = ct_state t"
  "ct_published (release_shape locals shape t) = ct_published t" "ct_host (release_shape locals shape t) = ct_host t"
  "ct_awaiting_init (release_shape locals shape t) = ct_awaiting_init t"
  by (simp_all add: release_shape_def)

lemma release_shapes_frame [simp]:
  "ct_cache (release_shapes locals shapes t) = ct_cache t" "ct_state (release_shapes locals shapes t) = ct_state t"
  "ct_published (release_shapes locals shapes t) = ct_published t" "ct_host (release_shapes locals shapes t) = ct_host t"
  "ct_awaiting_init (release_shapes locals shapes t) = ct_awaiting_init t"
  by (induction locals shapes t rule: release_shapes.induct) simp_all

lemma held_release [simp]:
  "held_shapes (release_shape locals shape t) = held_shapes t" "held_shapes (release_shapes locals shapes t) = held_shapes t"
  by (simp_all add: held_shapes_def)

lemma release_shape_budget:
  assumes ok: "budget_ok (shape # locals) t"
  shows "budget_ok locals (release_shape locals shape t)"
proof (cases "\<exists>s \<in> set (locals @ held_shapes t). ca_number (cs_allocation s) = ca_number (cs_allocation shape)")
  case True
  then obtain s where s: "s \<in> set (locals @ held_shapes t)" "ca_number (cs_allocation s) = ca_number (cs_allocation shape)" by blast
  have "cs_allocation s = cs_allocation shape"
    using ok s by (auto simp: budget_ok_def allocations_def inj_on_def)
  then have "allocations (locals @ held_shapes t) = allocations ((shape # locals) @ held_shapes t)"
    using imageI [OF s(1), of cs_allocation] by (simp add: allocations_def insert_absorb)
  moreover have "release_shape locals shape t = t" using True by (simp add: release_shape_def list_ex_iff)
  ultimately show ?thesis using budget_ok_cong [OF ok] by simp
next
  case False
  let ?A = "allocations (locals @ held_shapes t)" let ?a = "cs_allocation shape"
  have new: "?a \<notin> ?A" using False by (auto simp: allocations_def)
  have all: "allocations ((shape # locals) @ held_shapes t) = insert ?a ?A" by (simp add: allocations_def)
  have sum: "cb_used (ct_budget t) = ca_bytes ?a + (\<Sum>a \<in> ?A. ca_bytes a)"
    using ok new by (simp add: budget_ok_def all allocations_def)
  have step: "release_shape locals shape t = t\<lparr>ct_budget := CursorAllocation_drop ?a (ct_budget t)\<rparr>"
    using False by (auto simp: release_shape_def list_ex_iff)
  have "cb_used (ct_budget t) \<le> MAX_CURSOR_CACHE_BYTES" using ok by (simp add: budget_ok_def)
  then have used: "(cb_used (ct_budget t) + usize_limit - ca_bytes ?a) mod usize_limit = (\<Sum>a \<in> ?A. ca_bytes a)"
    using sum by simp
  have held: "held_shapes (t\<lparr>ct_budget := b\<rparr>) = held_shapes t" for b by (simp add: held_shapes_def)
  have drop: "cb_used (CursorAllocation_drop ?a (ct_budget t)) = (\<Sum>a \<in> ?A. ca_bytes a)"
    "cb_maximum (CursorAllocation_drop ?a (ct_budget t)) = cb_maximum (ct_budget t)"
    "cb_next (CursorAllocation_drop ?a (ct_budget t)) = cb_next (ct_budget t)"
    by (simp_all add: CursorAllocation_drop_def used)
  have "(\<Sum>a \<in> ?A. ca_bytes a) \<le> MAX_CURSOR_CACHE_BYTES" using ok sum unfolding budget_ok_def by linarith
  moreover have "inj_on ca_number ?A" using ok unfolding budget_ok_def all by (simp add: inj_on_insert)
  ultimately show ?thesis using ok unfolding step budget_ok_def held all by (simp add: drop)
qed

lemma release_shapes_budget: "budget_ok (shapes @ locals) t \<Longrightarrow> budget_ok locals (release_shapes locals shapes t)"
proof (induction locals shapes t rule: release_shapes.induct)
  case (2 locals shape shapes t)
  then show ?case using release_shape_budget [of shape "shapes @ locals" t] by simp
qed simp

text \<open>Moving references: what leaves a holder is released, what enters one was held locally.\<close>

lemma allocations_append: "allocations (xs @ ys) = allocations xs \<union> allocations ys"
  by (auto simp: allocations_def)

lemma assign_state_budget: "budget_ok (state_shapes st) t \<Longrightarrow> budget_ok [] (assign_state st t)"
  unfolding assign_state_def
  by (rule release_shapes_budget, erule budget_ok_cong) (auto simp: allocations_append held_shapes_def)

lemma publish_state_budget:
  assumes "budget_ok [] t" "case st of None \<Rightarrow> True | Some s \<Rightarrow> set (state_shapes s) \<subseteq> set (state_shapes (ct_state t))"
  shows "budget_ok [] (publish_state st t)"
  unfolding publish_state_def
  by (rule release_shapes_budget, rule budget_ok_cong [OF assms(1)])
     (use assms(2) in \<open>auto simp: allocations_def held_shapes_def split: option.splits\<close>)

lemma cache_clear_budget: "budget_ok [] t \<Longrightarrow> budget_ok [] (CursorCache_clear t)"
  unfolding CursorCache_clear_def
  by (rule release_shapes_budget, erule budget_ok_cong) (auto simp: allocations_append held_shapes_def)

lemma alist_update_entries:
  "distinct (map fst al) \<Longrightarrow> set (AList.update k v al) = insert (k, v) {e \<in> set al. fst e \<noteq> k}"
  by (induction al) (auto simp: image_iff)

lemma alist_delete_entries: "set (AList.delete k al) = {e \<in> set al. fst e \<noteq> k}"
  by (auto simp: AList.delete_eq)

lemma alist_split:
  "distinct (map fst al) \<Longrightarrow> set al = {e \<in> set al. fst e \<noteq> k} \<union> (case map_of al k of None \<Rightarrow> {} | Some v \<Rightarrow> {(k, v)})"
  by (auto simp: map_of_eq_None_iff image_iff split: option.splits dest: map_of_SomeD) (metis fst_conv map_of_is_SomeI option.inject)+

lemma alist_values:
  assumes "distinct (map fst al)"
  shows "set (case map_of al k of None \<Rightarrow> [] | Some v \<Rightarrow> [v]) \<union> snd ` set (AList.delete k al) = snd ` set al"
    "set (case map_of al k of None \<Rightarrow> [] | Some v \<Rightarrow> [v]) \<union> snd ` set (AList.update k v al) = insert v (snd ` set al)"
proof -
  have split: "snd ` set al = snd ` {e \<in> set al. fst e \<noteq> k} \<union> set (case map_of al k of None \<Rightarrow> [] | Some v \<Rightarrow> [v])"
    by (subst alist_split [OF assms, of k]) (auto split: option.split)
  show "set (case map_of al k of None \<Rightarrow> [] | Some v \<Rightarrow> [v]) \<union> snd ` set (AList.delete k al) = snd ` set al"
    unfolding alist_delete_entries split by blast
  show "set (case map_of al k of None \<Rightarrow> [] | Some v \<Rightarrow> [v]) \<union> snd ` set (AList.update k v al) = insert v (snd ` set al)"
    unfolding alist_update_entries [OF assms] split by auto
qed

definition other_shapes :: "CursorTask \<Rightarrow> CursorShape list" where
  "other_shapes t = state_shapes (ct_state t) @
     (case ct_published t of None \<Rightarrow> [] | Some st \<Rightarrow> state_shapes st) @ concat (map state_shapes (ct_host t))"

lemma held_allocations: "allocations (xs @ held_shapes t) = cs_allocation ` (set xs \<union> snd ` set (ct_cache t) \<union> set (other_shapes t))"
  by (simp add: allocations_def held_shapes_def other_shapes_def Un_assoc)

lemma other_shapes_cache [simp]: "other_shapes (t\<lparr>ct_cache := c\<rparr>) = other_shapes t"
  by (simp add: other_shapes_def)

lemma cache_remove_budget:
  assumes "budget_ok [] t" "distinct (map fst (ct_cache t))"
  shows "budget_ok [] (CursorCache_remove k t)"
proof -
  let ?old = "case map_of (ct_cache t) k of None \<Rightarrow> [] | Some old \<Rightarrow> [old]"
  have "set (?old @ []) \<union> snd ` set (AList.delete k (ct_cache t)) = snd ` set (ct_cache t)"
    using alist_values(1) [OF assms(2), of k] by auto
  then show ?thesis
    unfolding CursorCache_remove_def
    by (intro release_shapes_budget budget_ok_cong [OF assms(1)]) (simp_all only: held_allocations append_Nil [symmetric], simp_all)
qed

lemma cache_insert_budget:
  assumes "budget_ok [shape] t" "distinct (map fst (ct_cache t))" "CursorCache_insert shape t = Inr t'"
  shows "budget_ok [shape] t'"
proof -
  let ?k = "cs_unique_id shape"
  let ?old = "case map_of (ct_cache t) ?k of None \<Rightarrow> [] | Some old \<Rightarrow> [old]"
  have t': "t' = release_shapes [shape] ?old (t\<lparr>ct_cache := AList.update ?k shape (ct_cache t)\<rparr>)"
    using assms(3) by (auto simp: CursorCache_insert_def Let_def split: if_split_asm)
  have "set (?old @ [shape]) \<union> snd ` set (AList.update ?k shape (ct_cache t)) = insert shape (snd ` set (ct_cache t))"
    using alist_values(2) [OF assms(2), of ?k shape] by auto
  then show ?thesis
    unfolding t'
    by (intro release_shapes_budget budget_ok_cong [OF assms(1)]) (simp_all only: held_allocations, simp_all)
qed

section \<open>The invariant of the task\<close>

definition shape_ok :: "CursorShape \<Rightarrow> bool" where
  "shape_ok s \<longleftrightarrow> 0 < cs_width s \<and> 0 < cs_height s \<and> cs_width s \<le> 512 \<and> cs_height s \<le> 512 \<and>
     cs_hot_spot_x s \<le> cs_width s \<and> cs_hot_spot_y s \<le> cs_height s \<and>
     length (cs_rgba s) = 4 * (unat (cs_width s) * unat (cs_height s)) \<and> ca_bytes (cs_allocation s) = length (cs_rgba s)"

definition cache_ok :: "CursorTask \<Rightarrow> bool" where
  "cache_ok t \<longleftrightarrow> distinct (map fst (ct_cache t)) \<and> length (ct_cache t) \<le> 256 \<and> (\<forall>(k, s) \<in> set (ct_cache t). cs_unique_id s = k)"

definition cursor_inv :: "CursorShape list \<Rightarrow> CursorTask \<Rightarrow> bool" where
  "cursor_inv locals t \<longleftrightarrow> budget_ok locals t \<and> cache_ok t \<and> (\<forall>s \<in> set (locals @ held_shapes t). shape_ok s)"

lemma decoded_shape_ok: "cursor_header_ok header \<Longrightarrow> shape_ok (decoded_shape header data budget)"
  by (simp add: shape_ok_def cursor_header_ok_def decoded_shape_def length_cursor_image)

lemma decode_shape_inv:
  assumes "cursor_inv [] t" "decode_shape header data (ct_budget t) = Inr (shape, budget)"
  shows "cursor_inv [shape] (t\<lparr>ct_budget := budget\<rparr>)"
proof -
  have max: "cb_maximum (ct_budget t) < usize_limit" using assms(1) by (simp add: cursor_inv_def budget_ok_def)
  define n where "n = 4 * (unat (ch_width header) * unat (ch_height header))"
  have ok: "cursor_header_ok header" "cb_used (ct_budget t) + n \<le> cb_maximum (ct_budget t)"
    and shape: "shape = decoded_shape header data (ct_budget t)"
    and budget: "budget = (ct_budget t)\<lparr>cb_used := cb_used (ct_budget t) + n, cb_next := Suc (cb_next (ct_budget t))\<rparr>"
    using decode_shape_exact [OF max, of header data] assms(2) by (auto simp: n_def split: if_split_asm)
  let ?A = "allocations (held_shapes t)" let ?a = "cs_allocation shape"
  have a: "ca_bytes ?a = n" "ca_number ?a = cb_next (ct_budget t)" by (simp_all add: shape decoded_shape_def n_def)
  have held: "held_shapes (t\<lparr>ct_budget := budget\<rparr>) = held_shapes t" by (simp add: held_shapes_def)
  have all: "allocations ([shape] @ held_shapes t) = insert ?a ?A" by (simp add: allocations_def)
  have below: "\<forall>x \<in> ?A. ca_number x < cb_next (ct_budget t)" using assms(1) by (simp add: cursor_inv_def budget_ok_def)
  then have new: "?a \<notin> ?A" "ca_number ?a \<notin> ca_number ` ?A" using a(2) by auto
  have fin: "finite ?A" by (simp add: allocations_def)
  have "budget_ok [shape] (t\<lparr>ct_budget := budget\<rparr>)"
    using assms(1) ok(2) below new fin a unfolding cursor_inv_def budget_ok_def held all
    by (auto simp: budget less_Suc_eq)
  then show ?thesis using assms(1) decoded_shape_ok [OF ok(1)] by (auto simp: cursor_inv_def held cache_ok_def shape)
qed

lemma cache_insert_inv:
  assumes "cursor_inv [shape] t" "CursorCache_insert shape t = Inr t'"
  shows "cursor_inv [shape] t'"
proof -
  have d: "distinct (map fst (ct_cache t))" using assms(1) by (simp add: cursor_inv_def cache_ok_def)
  have t': "ct_cache t' = AList.update (cs_unique_id shape) shape (ct_cache t)" "ct_state t' = ct_state t" "ct_published t' = ct_published t"
    "ct_host t' = ct_host t" and full: "map_of (ct_cache t) (cs_unique_id shape) = None \<Longrightarrow> length (ct_cache t) < 256"
    using assms(2) by (auto simp: CursorCache_insert_def Let_def split: if_split_asm)
  have len: "length (AList.update k v al) = (if map_of al k = None then Suc (length al) else length al)" for k v and al :: "(u64 \<times> CursorShape) list"
    by (induction al) auto
  have "cache_ok t'" using assms(1) full d
    by (auto simp: cursor_inv_def cache_ok_def t' distinct_update alist_update_entries [OF d] len)
  moreover have "set (held_shapes t') \<subseteq> insert shape (set (held_shapes t))"
    by (auto simp: held_shapes_def t' alist_update_entries [OF d])
  ultimately show ?thesis using assms(1) cache_insert_budget [OF _ d assms(2)] by (auto simp: cursor_inv_def)
qed

lemma cursor_inv_same:
  "cursor_inv [] t \<Longrightarrow> budget_ok [] t' \<Longrightarrow> ct_cache t' = ct_cache t \<Longrightarrow> set (held_shapes t') \<subseteq> set (held_shapes t) \<Longrightarrow> cursor_inv [] t'"
  by (auto simp: cursor_inv_def cache_ok_def)

lemma clear_inv: "cursor_inv [] t \<Longrightarrow> cursor_inv [] (CursorCache_clear t)"
  using cache_clear_budget [of t]
  by (auto simp: cursor_inv_def cache_ok_def CursorCache_clear_def held_shapes_def)

lemma remove_inv: "cursor_inv [] t \<Longrightarrow> cursor_inv [] (CursorCache_remove k t)"
  using cache_remove_budget [of t k] length_delete_le [of k "ct_cache t"]
  by (auto simp: cursor_inv_def cache_ok_def CursorCache_remove_def held_shapes_def distinct_delete alist_delete_entries)

lemma assign_inv:
  assumes "cursor_inv (state_shapes st) t"
  shows "cursor_inv [] (assign_state st t)"
  using assms assign_state_budget [of st t]
  by (auto simp: cursor_inv_def cache_ok_def assign_state_def held_shapes_def)

lemma publish_inv: "cursor_inv [] t \<Longrightarrow> cursor_inv [] (publish_state (Some (ct_state t)) t)" "cursor_inv [] t \<Longrightarrow> cursor_inv [] (publish_state None t)"
  using publish_state_budget [of t "Some (ct_state t)"] publish_state_budget [of t None]
  by (auto simp: cursor_inv_def cache_ok_def publish_state_def held_shapes_def)

lemma cache_insert_state: "CursorCache_insert shape t = Inr t' \<Longrightarrow> ct_state t' = ct_state t"
  by (auto simp: CursorCache_insert_def Let_def split: if_split_asm)

lemma resolve_image_inv:
  assumes "cursor_inv [] t" "resolve_image i t = Inr (shape, t')"
  shows "cursor_inv (case shape of None \<Rightarrow> [] | Some s \<Rightarrow> [s]) t' \<and> ct_state t' = ct_state t"
proof (cases i)
  case CursorImage_None
  then show ?thesis using assms by (auto simp: resolve_image_def)
next
  case (CursorImage_Cached k)
  then obtain s where s: "map_of (ct_cache t) k = Some s" "shape = Some s" "t' = t" using assms(2) by (auto simp: resolve_image_def)
  have held: "s \<in> set (held_shapes t)" using map_of_SomeD [OF s(1)] unfolding held_shapes_def by force
  then have "allocations ([s] @ held_shapes t) = allocations ([] @ held_shapes t)" by (auto simp: allocations_def)
  then have "budget_ok [s] t" using assms(1) budget_ok_cong [of "[]" t t "[s]"] by (simp add: cursor_inv_def)
  moreover have "shape_ok s" using assms(1) held by (auto simp: cursor_inv_def)
  ultimately have "cursor_inv [s] t" using assms(1) by (simp add: cursor_inv_def)
  then show ?thesis using s(2,3) by simp
next
  case (CursorImage_Data header cache_me data)
  then obtain s budget where d: "decode_shape header data (ct_budget t) = Inr (s, budget)" "shape = Some s"
    "(if cache_me then CursorCache_insert s (t\<lparr>ct_budget := budget\<rparr>) else Inr (t\<lparr>ct_budget := budget\<rparr>)) = Inr t'"
    using assms(2) by (auto simp: resolve_image_def Let_def)
  have "cursor_inv [s] (t\<lparr>ct_budget := budget\<rparr>)" by (rule decode_shape_inv [OF assms(1) d(1)])
  then show ?thesis using d(2,3) cache_insert_inv [of s "t\<lparr>ct_budget := budget\<rparr>" t'] cache_insert_state [of s "t\<lparr>ct_budget := budget\<rparr>" t']
    by (cases cache_me) auto
qed

lemma state_shapes_update [simp]:
  "state_shapes (st\<lparr>cst_shape := shape\<rparr>) = (case shape of None \<Rightarrow> [] | Some s \<Rightarrow> [s])"
  by (simp add: state_shapes_def)

lemma fresh_epoch_inv: "cursor_inv [] t \<Longrightarrow> fresh_epoch t = Inr t' \<Longrightarrow> cursor_inv [] t'"
proof -
  assume inv: "cursor_inv [] t" and step: "fresh_epoch t = Inr t'"
  obtain g c n where t': "t' = (CursorCache_clear (assign_state (CursorState_fresh g c n) t))\<lparr>ct_awaiting_init := True\<rparr>"
    using step by (auto simp: fresh_epoch_def Let_def)
  have "cursor_inv [] (CursorCache_clear (assign_state (CursorState_fresh g c n) t))"
    using inv by (intro clear_inv assign_inv) (simp add: state_shapes_def CursorState_fresh_def)
  then show ?thesis using t' by (simp add: cursor_inv_def budget_ok_def cache_ok_def held_shapes_def)
qed

lemma cursor_inv_fields:
  "cursor_inv [] t \<Longrightarrow> ct_cache t' = ct_cache t \<Longrightarrow> ct_budget t' = ct_budget t \<Longrightarrow> ct_published t' = ct_published t \<Longrightarrow> ct_host t' = ct_host t \<Longrightarrow>
     cst_shape (ct_state t') = cst_shape (ct_state t) \<Longrightarrow> cursor_inv [] t'"
  by (simp add: cursor_inv_def budget_ok_def cache_ok_def held_shapes_def state_shapes_def)

lemma cursor_init_inv:
  assumes inv: "cursor_inv [] t" and step: "cursor_init body t = Inr t'"
  shows "cursor_inv [] t'"
proof -
  obtain i st shape u where u: "resolve_image i (CursorCache_clear t) = Inr (shape, u)"
    "t' = (assign_state (st\<lparr>cst_shape := shape\<rparr>) u)\<lparr>ct_awaiting_init := False\<rparr>"
    using step by (auto simp: cursor_init_def Let_def split: if_split_asm)
  have "cursor_inv [] (assign_state (st\<lparr>cst_shape := shape\<rparr>) u)"
    using resolve_image_inv [OF clear_inv [OF inv] u(1)] by (intro assign_inv) simp
  then show ?thesis using u(2) cursor_inv_fields by simp
qed

lemma cursor_set_inv:
  assumes inv: "cursor_inv [] t" and step: "cursor_set body t = Inr t'"
  shows "cursor_inv [] t'"
proof -
  obtain i st shape u where u: "resolve_image i t = Inr (shape, u)" "t' = assign_state (st\<lparr>cst_shape := shape\<rparr>) u"
    using step by (auto simp: cursor_set_def Let_def)
  show ?thesis unfolding u(2) using resolve_image_inv [OF inv u(1)] by (intro assign_inv) simp
qed

lemma cursor_inv_state: "cst_shape st = cst_shape (ct_state t) \<Longrightarrow> cursor_inv [] t \<Longrightarrow> cursor_inv [] (t\<lparr>ct_state := st\<rparr>)"
  by (rule cursor_inv_fields) simp_all

lemma cursor_dispatch_inv: "cursor_inv [] t \<Longrightarrow> cursor_dispatch message_type body t = Inr t' \<Longrightarrow> cursor_inv [] t'"
  by (auto simp: cursor_dispatch_def split: if_split_asm
      intro: cursor_init_inv fresh_epoch_inv cursor_set_inv remove_inv clear_inv cursor_inv_state)

lemma cursor_step_inv:
  assumes inv: "cursor_inv [] t" and step: "cursor_step act t = Inr t'"
  shows "cursor_inv [] t'"
proof (cases act)
  case (Cursor_message message_type body)
  then show ?thesis using step inv cursor_dispatch_inv publish_inv(1)
    by (auto simp: cursor_message_def split: if_split_asm)
next
  case Cursor_migrated
  then show ?thesis using step inv fresh_epoch_inv publish_inv(2) by (auto simp: cursor_migrated_def)
next
  case Cursor_host_latest
  show ?thesis
  proof (cases "ct_published t")
    case (Some st)
    then have t': "t' = t\<lparr>ct_host := ct_host t @ [st]\<rparr>" using step Cursor_host_latest by simp
    have "set (held_shapes t') = set (held_shapes t)" using Some unfolding t' held_shapes_def by auto
    then have held: "set (held_shapes t') \<subseteq> set (held_shapes t)" "allocations ([] @ held_shapes t') = allocations ([] @ held_shapes t)"
      by (simp_all add: allocations_def)
    have "budget_ok [] t'" by (rule budget_ok_cong [OF _ _ held(2)]) (use inv in \<open>simp_all add: cursor_inv_def t'\<close>)
    then show ?thesis by (rule cursor_inv_same [OF inv _ _ held(1)]) (simp add: t')
  qed (use step Cursor_host_latest inv in simp)
next
  case (Cursor_host_drop i)
  show ?thesis
  proof (cases "i < length (ct_host t)")
    case True
    let ?v = "t\<lparr>ct_host := take i (ct_host t) @ drop (Suc i) (ct_host t)\<rparr>"
    have host: "ct_host t = take i (ct_host t) @ ct_host t ! i # drop (Suc i) (ct_host t)" by (rule id_take_nth_drop [OF True])
    have "set (concat (map state_shapes (ct_host t))) = set (state_shapes (ct_host t ! i)) \<union> set (concat (map state_shapes (ct_host ?v)))"
      by (subst host) auto
    then have held: "set (held_shapes t) = set (state_shapes (ct_host t ! i)) \<union> set (held_shapes ?v)"
      unfolding held_shapes_def by (simp del: set_concat) blast
    have t': "t' = release_shapes [] (state_shapes (ct_host t ! i)) ?v" using step Cursor_host_drop True by simp
    have "budget_ok (state_shapes (ct_host t ! i)) ?v"
      using inv budget_ok_cong [of "[]" t ?v "state_shapes (ct_host t ! i)"] held by (simp add: cursor_inv_def allocations_def)
    then have "budget_ok [] t'" unfolding t' by (intro release_shapes_budget) simp
    moreover have "set (held_shapes t') \<subseteq> set (held_shapes t)" unfolding t' held by simp
    ultimately show ?thesis by (intro cursor_inv_same [OF inv]) (simp_all add: t')
  qed (use step Cursor_host_drop inv in simp)
qed

lemma cursor_run_inv: "cursor_run acts t = Inr t' \<Longrightarrow> cursor_inv [] t \<Longrightarrow> cursor_inv [] t'"
  by (induction acts arbitrary: t) (auto dest: cursor_step_inv)

lemma cursor_start_inv: "cursor_inv [] (cursor_start connection_generation channel_id)"
  by (simp add: cursor_inv_def budget_ok_def cache_ok_def cursor_start_def held_shapes_def state_shapes_def CursorState_fresh_def allocations_def)

section \<open>The task does not panic\<close>

lemma no_panic_decode_shape: "cb_maximum budget < usize_limit \<Longrightarrow> no_panic (decode_shape header data budget)"
  using decode_shape_exact [of budget header data] by (auto simp: no_panic_def split: if_split_asm)

lemma no_panic_resolve_image: "cursor_inv [] t \<Longrightarrow> no_panic (resolve_image i t)"
  by (cases i) (auto simp: resolve_image_def CursorCache_insert_def Let_def cursor_inv_def budget_ok_def
      intro!: no_panic_intros no_panic_decode_shape)

lemma no_panic_fresh_epoch [no_panic_intros]: "no_panic (fresh_epoch t)"
  unfolding fresh_epoch_def by (intro no_panic_intros)

lemma no_panic_require_empty [no_panic_intros]: "no_panic (cursor_require_empty body ctx)"
  by (simp add: cursor_require_empty_def)

lemma no_panic_cursor_dispatch:
  assumes "cursor_inv [] t"
  shows "no_panic (cursor_dispatch message_type body t)"
  unfolding cursor_dispatch_def cursor_init_def cursor_set_def Let_def
  by (intro no_panic_intros no_panic_resolve_image clear_inv assms)

lemma no_panic_cursor_step: "cursor_inv [] t \<Longrightarrow> no_panic (cursor_step act t)"
  by (cases act) (auto simp: cursor_message_def cursor_migrated_def intro!: no_panic_intros no_panic_cursor_dispatch)

lemma no_panic_cursor_run: "cursor_inv [] t \<Longrightarrow> no_panic (cursor_run acts t)"
proof (induction acts arbitrary: t)
  case (Cons act acts)
  then show ?case using no_panic_cursor_step [OF Cons.prems] cursor_step_inv [OF Cons.prems] by (auto intro!: no_panic_and_then)
qed simp

section \<open>Properties\<close>

lemma concat_cell:
  "(\<And>x. x \<in> set xs \<Longrightarrow> length (f x) = k) \<Longrightarrow> i < length xs \<Longrightarrow> take k (drop (k * i) (concat (map f xs))) = f (xs ! i)"
proof (induction xs arbitrary: i)
  case (Cons x xs)
  then show ?case by (cases i) simp_all
qed simp

lemma cursor_image_cell:
  assumes "x < w" "y < h"
  shows "take 4 (drop (4 * (y * w + x)) (cursor_image_bytes t data w h)) = cursor_pixel t data w h (y, x)"
proof -
  have i: "y * w + x < h * w" using row_index_less [OF assms] by (simp add: mult.commute)
  then have "List.product [0..<h] [0..<w] ! (y * w + x) = (y, x)" using assms by (simp add: product_nth)
  then show ?thesis
    unfolding cursor_image_bytes_def using concat_cell [of "List.product [0..<h] [0..<w]" "cursor_pixel t data w h" 4 "y * w + x"] i
    by (simp add: length_cursor_pixel)
qed

text \<open>C10: the decoders of all seven cursor formats compute the reference image: a shape decodes exactly when the dimensions and
  the hot spot are in range, the budget has room for its bytes and the data is long enough; then the budget
  grows by the four bytes per pixel and every pixel is the one the format defines at its position. In all
  other cases the result is an error value, never a panic.\<close>

theorem cursor_decode_exact:
  fixes header data budget
  defines "w \<equiv> unat (ch_width header)" and "h \<equiv> unat (ch_height header)"
  assumes room: "cb_maximum budget < usize_limit"
  shows "if cursor_header_ok header \<and> cb_used budget + 4 * (w * h) \<le> cb_maximum budget \<and> cursor_data_bytes (ch_cursor_type header) w h \<le> length data
    then \<exists>shape budget'. decode_shape header data budget = Inr (shape, budget') \<and> cb_used budget' = cb_used budget + 4 * (w * h) \<and>
      length (cs_rgba shape) = 4 * (w * h) \<and>
      (\<forall>y < h. \<forall>x < w. take 4 (drop (4 * (y * w + x)) (cs_rgba shape)) = cursor_pixel (ch_cursor_type header) data w h (y, x))
    else \<exists>e. decode_shape header data budget = client_err e"
  using decode_shape_exact [OF room, of header data]
  by (auto simp: w_def h_def decoded_shape_def cursor_image_cell length_cursor_image simp del: distrib_left_numeral split: if_split_asm)

theorem cursor_decode_exact_witness:
  "\<exists>shape budget'. decode_shape \<lparr>ch_unique_id = 9, ch_cursor_type = CursorType_Mono, ch_width = 2, ch_height = 1, ch_hot_spot_x = 0, ch_hot_spot_y = 0\<rparr>
      [0x40, 0x80] \<lparr>cb_used = 0, cb_maximum = 64, cb_next = 0\<rparr> = Inr (shape, budget') \<and> cb_used budget' = 8 \<and>
    take 4 (drop 0 (cs_rgba shape)) = [255, 255, 255, 255] \<and> take 4 (drop 4 (cs_rgba shape)) = [0, 0, 0, 0]"
proof -
  let ?h = "\<lparr>ch_unique_id = 9, ch_cursor_type = CursorType_Mono, ch_width = 2, ch_height = 1, ch_hot_spot_x = 0, ch_hot_spot_y = 0\<rparr> :: CursorHeader"
  have "cursor_header_ok ?h" by (simp add: cursor_header_ok_def word_le_nat_alt)
  moreover have "cursor_pixel CursorType_Mono [0x40, 0x80] 2 1 (0, 0) = [255, 255, 255, 255]"
    "cursor_pixel CursorType_Mono [0x40, 0x80] 2 1 (0, 1) = [0, 0, 0, 0]"
    by (simp_all add: mask_set_def)
  ultimately show ?thesis
    using cursor_decode_exact [of "\<lparr>cb_used = 0, cb_maximum = 64, cb_next = 0\<rparr>" ?h "[0x40, 0x80]"]
    by (auto simp: less_2_cases_iff all_simps)
qed

text \<open>C9: the live byte budget of a Cursor channel is exact: after any sequence of messages, migrations and host actions the
  counter is the sum of the bytes of the distinct shapes still held by the cache, the current state, the
  published state or the host, it never exceeds 4 MiB, the cache holds at most 256 shapes, and every shape
  held has in-range dimensions and four bytes per pixel.\<close>

theorem cursor_budget_exact:
  assumes run: "cursor_run actions (cursor_start connection_generation channel_id) = Inr t"
  shows "cb_used (ct_budget t) = (\<Sum>a \<in> allocations (held_shapes t). ca_bytes a) \<and> cb_used (ct_budget t) \<le> 4194304 \<and>
    length (ct_cache t) \<le> 256 \<and> list_all shape_ok (held_shapes t)"
  using cursor_run_inv [OF run cursor_start_inv] by (auto simp: cursor_inv_def budget_ok_def cache_ok_def list_all_iff)

theorem cursor_budget_exact_witness:
  "\<exists>body t. cursor_run [Cursor_message 101 body, Cursor_host_latest] (cursor_start 1 0) = Inr t \<and>
     length (ct_cache t) = 1 \<and> length (held_shapes t) = 4 \<and> cb_used (ct_budget t) = 8 \<and> list_all shape_ok (held_shapes t)"
proof -
  let ?h = "\<lparr>ch_unique_id = 9, ch_cursor_type = CursorType_Mono, ch_width = 2, ch_height = 1, ch_hot_spot_x = 0, ch_hot_spot_y = 0\<rparr> :: CursorHeader"
  let ?i = "\<lparr>cui_position = \<lparr>cp_x = 0, cp_y = 0\<rparr>, cui_trail_length = 0, cui_trail_frequency = 0, cui_visible = True,
      cui_image = CursorImage_Data ?h True [0x40, 0x80]\<rparr>"
  let ?body = "cursor_init_bytes (replicate 9 0) ?i"
  have body: "CursorInit_decode ?body = Inr ?i"
    by (rule CursorInit_decode_bytes) (simp_all add: image_ok_def cursor_init_bytes_def image_bytes_def)
  have "cursor_header_ok ?h" by (simp add: cursor_header_ok_def word_le_nat_alt)
  then have shape: "decode_shape ?h [0x40, 0x80] \<lparr>cb_used = 0, cb_maximum = 4194304, cb_next = 0\<rparr> =
      Inr (decoded_shape ?h [0x40, 0x80] \<lparr>cb_used = 0, cb_maximum = 4194304, cb_next = 0\<rparr>, \<lparr>cb_used = 8, cb_maximum = 4194304, cb_next = 1\<rparr>)"
    using decode_shape_exact [of "\<lparr>cb_used = 0, cb_maximum = 4194304, cb_next = 0\<rparr>" ?h "[0x40, 0x80]"] by simp
  obtain t where t: "cursor_run [Cursor_message 101 ?body, Cursor_host_latest] (cursor_start 1 0) = Inr t"
      "length (ct_cache t) = 1" "length (held_shapes t) = 4" "cb_used (ct_budget t) = 8"
    by (simp add: cursor_start_def cursor_message_def cursor_dispatch_def cursor_init_def body CursorCache_clear_def Let_def resolve_image_def
        shape CursorCache_insert_def assign_state_def publish_state_def state_shapes_def CursorState_fresh_def held_shapes_def)
  have "list_all shape_ok (held_shapes t)" using cursor_budget_exact [OF t(1)] by blast
  then show ?thesis using t by blast
qed

text \<open>C25: the Cursor task never panics, whatever the server sends and the host does.\<close>

theorem cursor_run_no_panic: "no_panic (cursor_run actions (cursor_start connection_generation channel_id))"
  by (rule no_panic_cursor_run [OF cursor_start_inv])

end
