(* ===== verification/Helper_Handshake.thy ===== *)
theory Helper_Handshake
  imports Spice_Wire
begin

text \<open>
  The handshake of the helper process (\<open>handshake.rs\<close> of the helper-protocol crate): the host's Hello with the
  capabilities it requires, the helper's acknowledgement computed from its build, and the host's validation of
  the acknowledgement. A \<open>BTreeSet\<close> is the sorted list of its elements, in the derived order of the capabilities.

  Shown here: host and helper agree. The host accepts the acknowledgement of a helper exactly when the helper
  accepted the Hello, which is exactly when the version fits and the capabilities are duplicate-free,
  within the bound and all compiled in; a refusal for missing capabilities lists exactly the missing ones.
\<close>

section \<open>Capabilities\<close>

datatype HelperCapability =
    HelperCapability_CoreSession | HelperCapability_Tls | HelperCapability_SaslPassword | HelperCapability_SaslGssapi
  | HelperCapability_DisplayCanvas | HelperCapability_CompositePixman | HelperCapability_AudioRaw | HelperCapability_AudioOpus
  | HelperCapability_VideoMjpeg | HelperCapability_VideoVp8 | HelperCapability_VideoVp9 | HelperCapability_VideoH264
  | HelperCapability_VideoH265 | HelperCapability_Clipboard | HelperCapability_FileTransfer | HelperCapability_WebDav
  | HelperCapability_UsbRedir | HelperCapability_Smartcard | HelperCapability_MultiDisplay | HelperCapability_Playback
  | HelperCapability_Record | HelperCapability_Port

definition FULL_HELPER_CAPABILITIES :: "HelperCapability list" where
  "FULL_HELPER_CAPABILITIES =
    [HelperCapability_CoreSession, HelperCapability_Tls, HelperCapability_SaslPassword, HelperCapability_SaslGssapi,
     HelperCapability_DisplayCanvas, HelperCapability_CompositePixman, HelperCapability_AudioRaw, HelperCapability_AudioOpus,
     HelperCapability_VideoMjpeg, HelperCapability_VideoVp8, HelperCapability_VideoVp9, HelperCapability_VideoH264,
     HelperCapability_VideoH265, HelperCapability_Clipboard, HelperCapability_FileTransfer, HelperCapability_WebDav,
     HelperCapability_UsbRedir, HelperCapability_Smartcard, HelperCapability_MultiDisplay, HelperCapability_Playback,
     HelperCapability_Record, HelperCapability_Port]"

definition capability_rank :: "HelperCapability \<Rightarrow> nat" where
  "capability_rank c = the (position (\<lambda>d. d = c) FULL_HELPER_CAPABILITIES)"

lemma capability_rank_simps [simp]:
  "capability_rank HelperCapability_CoreSession = 0" "capability_rank HelperCapability_Tls = 1"
  "capability_rank HelperCapability_SaslPassword = 2" "capability_rank HelperCapability_SaslGssapi = 3"
  "capability_rank HelperCapability_DisplayCanvas = 4" "capability_rank HelperCapability_CompositePixman = 5"
  "capability_rank HelperCapability_AudioRaw = 6" "capability_rank HelperCapability_AudioOpus = 7"
  "capability_rank HelperCapability_VideoMjpeg = 8" "capability_rank HelperCapability_VideoVp8 = 9"
  "capability_rank HelperCapability_VideoVp9 = 10" "capability_rank HelperCapability_VideoH264 = 11"
  "capability_rank HelperCapability_VideoH265 = 12" "capability_rank HelperCapability_Clipboard = 13"
  "capability_rank HelperCapability_FileTransfer = 14" "capability_rank HelperCapability_WebDav = 15"
  "capability_rank HelperCapability_UsbRedir = 16" "capability_rank HelperCapability_Smartcard = 17"
  "capability_rank HelperCapability_MultiDisplay = 18" "capability_rank HelperCapability_Playback = 19"
  "capability_rank HelperCapability_Record = 20" "capability_rank HelperCapability_Port = 21"
  by (simp_all add: capability_rank_def position_def FULL_HELPER_CAPABILITIES_def)

lemma capability_rank_inject: "capability_rank c = capability_rank d \<longleftrightarrow> c = d"
  by (cases c; cases d) simp_all

lemma capability_rank_less: "capability_rank c < 22"
  by (cases c) simp_all

instantiation HelperCapability :: linorder
begin

definition less_eq_HelperCapability :: "HelperCapability \<Rightarrow> HelperCapability \<Rightarrow> bool" where
  "less_eq_HelperCapability c d \<longleftrightarrow> capability_rank c \<le> capability_rank d"

definition less_HelperCapability :: "HelperCapability \<Rightarrow> HelperCapability \<Rightarrow> bool" where
  "less_HelperCapability c d \<longleftrightarrow> capability_rank c < capability_rank d"

instance
  by standard (auto simp: less_eq_HelperCapability_def less_HelperCapability_def simp flip: capability_rank_inject)

end

section \<open>Hello and acknowledgement\<close>

definition HELPER_IPC_PROTOCOL_VERSION :: u32 where [simp]: "HELPER_IPC_PROTOCOL_VERSION = 1"
definition MAX_REQUIRED_CAPABILITIES :: nat where [simp]: "MAX_REQUIRED_CAPABILITIES = 64"

record HelperHello =
  hh_protocol_version :: u32
  hh_required_capabilities :: "HelperCapability list"

definition HelperHello_current :: "HelperCapability list \<Rightarrow> HelperHello" where
  "HelperHello_current required_capabilities =
     \<lparr>hh_protocol_version = HELPER_IPC_PROTOCOL_VERSION, hh_required_capabilities = required_capabilities\<rparr>"

record HelperBuildInfo =
  hb_helper_version :: "u8 list"
  hb_target :: "u8 list"
  hb_capabilities :: "HelperCapability list"

record HelperMetadata =
  hm_helper_version :: "u8 list"
  hm_ipc_protocol_version :: u32
  hm_target :: "u8 list"
  hm_capabilities :: "HelperCapability list"
  hm_minimum_system_version :: "u8 list"
  hm_dynamic_libraries :: "u8 list list"

text \<open>\<open>sort_unstable\<close> followed by \<open>dedup\<close>; strings are ordered by their bytes.\<close>

fun bytes_le :: "u8 list \<Rightarrow> u8 list \<Rightarrow> bool" where
  "bytes_le [] ys = True"
| "bytes_le (x # xs) [] = False"
| "bytes_le (x # xs) (y # ys) = (x < y \<or> x = y \<and> bytes_le xs ys)"

fun bytes_insert :: "u8 list \<Rightarrow> u8 list list \<Rightarrow> u8 list list" where
  "bytes_insert s [] = [s]"
| "bytes_insert s (t # ts) = (if bytes_le s t then s # t # ts else t # bytes_insert s ts)"

definition HelperMetadata_from_build :: "HelperBuildInfo \<Rightarrow> u8 list \<Rightarrow> u8 list list \<Rightarrow> HelperMetadata" where
  "HelperMetadata_from_build build minimum_system_version dynamic_libraries =
     \<lparr>hm_helper_version = hb_helper_version build, hm_ipc_protocol_version = HELPER_IPC_PROTOCOL_VERSION,
      hm_target = hb_target build, hm_capabilities = hb_capabilities build,
      hm_minimum_system_version = minimum_system_version,
      hm_dynamic_libraries = remdups_adj (foldr bytes_insert dynamic_libraries [])\<rparr>"

datatype HelperHandshakeRejection =
    HelperHandshakeRejection_UnsupportedProtocolVersion u32 u32
  | HelperHandshakeRejection_InvalidCapabilityList
  | HelperHandshakeRejection_MissingCapabilities "HelperCapability list"

record HelperHelloAck =
  ha_protocol_version :: u32
  ha_helper_version :: "u8 list"
  ha_target :: "u8 list"
  ha_capabilities :: "HelperCapability list"
  ha_compatible :: bool
  ha_rejection :: "HelperHandshakeRejection option"

datatype HelperHelloAckError =
    HelperHelloAckError_Rejected HelperHandshakeRejection
  | HelperHelloAckError_InconsistentAcknowledgement
  | HelperHelloAckError_ProtocolVersionMismatch u32 u32
  | HelperHelloAckError_InvalidCapabilityList
  | HelperHelloAckError_MissingCapabilities "HelperCapability list"

definition btree_set :: "'a::linorder list \<Rightarrow> 'a list" where
  "btree_set xs = sort (remdups xs)"

definition btree_difference :: "'a list \<Rightarrow> 'a list \<Rightarrow> 'a list" where
  "btree_difference xs ys = filter (\<lambda>x. x \<notin> set ys) xs"

definition HelperHelloAck_require_compatible :: "HelperHelloAck \<Rightarrow> HelperHelloAckError + unit" where
  "HelperHelloAck_require_compatible ack =
     (case (ha_rejection ack, ha_compatible ack) of
        (None, True) \<Rightarrow> Inr ()
      | (Some rejection, False) \<Rightarrow> Inl (HelperHelloAckError_Rejected rejection)
      | _ \<Rightarrow> Inl HelperHelloAckError_InconsistentAcknowledgement)"

definition HelperHelloAck_validate_for :: "HelperHelloAck \<Rightarrow> HelperHello \<Rightarrow> HelperHelloAckError + unit" where
  "HelperHelloAck_validate_for ack hello =
     (case HelperHelloAck_require_compatible ack of
        Inl e \<Rightarrow> Inl e
      | Inr _ \<Rightarrow>
          if ha_protocol_version ack \<noteq> hh_protocol_version hello
          then Inl (HelperHelloAckError_ProtocolVersionMismatch (hh_protocol_version hello) (ha_protocol_version ack))
          else if ha_helper_version ack = [] \<or> ha_target ack = [] \<or> length (ha_capabilities ack) > MAX_REQUIRED_CAPABILITIES
          then Inl HelperHelloAckError_InconsistentAcknowledgement
          else
          let compiled = btree_set (ha_capabilities ack) in
          if length compiled \<noteq> length (ha_capabilities ack) then Inl HelperHelloAckError_InvalidCapabilityList
          else
          let required = btree_set (hh_required_capabilities hello) in
          if length (hh_required_capabilities hello) > MAX_REQUIRED_CAPABILITIES \<or>
             length required \<noteq> length (hh_required_capabilities hello)
          then Inl HelperHelloAckError_InvalidCapabilityList
          else
          let missing = btree_difference required compiled in
          if missing = [] then Inr () else Inl (HelperHelloAckError_MissingCapabilities missing))"

record ServerHandshake =
  sh_build :: HelperBuildInfo

definition ServerHandshake_new :: "HelperBuildInfo \<Rightarrow> ServerHandshake" where
  "ServerHandshake_new build = \<lparr>sh_build = build\<lparr>hb_capabilities := remdups_adj (sort (hb_capabilities build))\<rparr>\<rparr>"

definition ServerHandshake_rejection_for :: "ServerHandshake \<Rightarrow> HelperHello \<Rightarrow> HelperHandshakeRejection option" where
  "ServerHandshake_rejection_for sh hello =
     (if hh_protocol_version hello \<noteq> HELPER_IPC_PROTOCOL_VERSION
      then Some (HelperHandshakeRejection_UnsupportedProtocolVersion (hh_protocol_version hello) HELPER_IPC_PROTOCOL_VERSION)
      else if length (hh_required_capabilities hello) > MAX_REQUIRED_CAPABILITIES
      then Some HelperHandshakeRejection_InvalidCapabilityList
      else
      let required = btree_set (hh_required_capabilities hello) in
      if length required \<noteq> length (hh_required_capabilities hello) then Some HelperHandshakeRejection_InvalidCapabilityList
      else
      let missing = btree_difference required (btree_set (hb_capabilities (sh_build sh))) in
      if missing \<noteq> [] then Some (HelperHandshakeRejection_MissingCapabilities missing) else None)"

definition ServerHandshake_negotiate :: "ServerHandshake \<Rightarrow> HelperHello \<Rightarrow> HelperHelloAck" where
  "ServerHandshake_negotiate sh hello =
     (let rejection = ServerHandshake_rejection_for sh hello in
      \<lparr>ha_protocol_version = HELPER_IPC_PROTOCOL_VERSION, ha_helper_version = hb_helper_version (sh_build sh),
       ha_target = hb_target (sh_build sh), ha_capabilities = hb_capabilities (sh_build sh),
       ha_compatible = (rejection = None), ha_rejection = rejection\<rparr>)"

section \<open>Agreement of host and helper\<close>

lemma set_btree_set [simp]: "set (btree_set xs) = set xs"
  by (simp add: btree_set_def)

lemma length_btree_set: "length (btree_set xs) = length xs \<longleftrightarrow> distinct xs"
  by (simp add: btree_set_def length_remdups_card_conv) (metis card_distinct distinct_card)

lemma btree_difference_empty: "btree_difference xs ys = [] \<longleftrightarrow> set xs \<subseteq> set ys"
  by (auto simp: btree_difference_def filter_empty_conv)

lemma distinct_sorted_caps: "distinct (remdups_adj (sort xs))" for xs :: "'a::linorder list"
proof -
  have "distinct (remdups_adj ys)" if "sorted ys" for ys :: "'a list"
    using that
  proof (induction ys rule: remdups_adj.induct)
    case (3 x y xs)
    then show ?case by (auto dest: antisym)
  qed simp_all
  then show ?thesis by simp
qed

lemma few_capabilities: "distinct cs \<Longrightarrow> length cs \<le> 22" for cs :: "HelperCapability list"
proof -
  assume "distinct cs"
  then have "length cs = card (capability_rank ` set cs)"
    by (simp add: distinct_card card_image inj_on_def capability_rank_inject)
  also have "\<dots> \<le> card {..<(22::nat)}" using capability_rank_less by (intro card_mono) auto
  finally show ?thesis by simp
qed

definition hello_acceptable :: "HelperBuildInfo \<Rightarrow> HelperHello \<Rightarrow> bool" where
  "hello_acceptable build hello \<longleftrightarrow>
     hh_protocol_version hello = HELPER_IPC_PROTOCOL_VERSION \<and>
     length (hh_required_capabilities hello) \<le> MAX_REQUIRED_CAPABILITIES \<and> distinct (hh_required_capabilities hello) \<and>
     set (hh_required_capabilities hello) \<subseteq> set (hb_capabilities build)"

lemma rejection_none:
  "ServerHandshake_rejection_for (ServerHandshake_new build) hello = None \<longleftrightarrow> hello_acceptable build hello"
  by (simp add: ServerHandshake_rejection_for_def ServerHandshake_new_def hello_acceptable_def Let_def length_btree_set
      btree_difference_empty not_less)

lemma missing_capabilities:
  "btree_difference (btree_set xs) (btree_set ys) = sorted_list_of_set (set xs - set ys)" for xs ys :: "'a::linorder list"
proof (rule sorted_distinct_set_unique)
  show "sorted (btree_difference (btree_set xs) (btree_set ys))" by (simp add: btree_difference_def btree_set_def sorted_filter [where f = "\<lambda>x. x", simplified])
  show "distinct (btree_difference (btree_set xs) (btree_set ys))" by (simp add: btree_difference_def btree_set_def)
  show "set (btree_difference (btree_set xs) (btree_set ys)) = set (sorted_list_of_set (set xs - set ys))"
    by (auto simp: btree_difference_def)
qed simp_all

text \<open>C13: host and helper agree on the handshake. For a helper whose build names its version and target (neither is empty), the
  host's validation of the acknowledgement gives exactly this answer: a Hello of another protocol version is refused with both
  versions; one that requires more than 64 capabilities or repeats one is refused as an invalid list; one that requires
  capabilities the helper was not compiled with is refused with exactly the missing ones, in ascending order; every other Hello
  is accepted. The acknowledgement says that it is compatible exactly in the last case.\<close>

theorem handshake_agreement:
  assumes "hb_helper_version build \<noteq> []" "hb_target build \<noteq> []"
  shows "let ack = ServerHandshake_negotiate (ServerHandshake_new build) hello;
      required = hh_required_capabilities hello; missing = set required - set (hb_capabilities build) in
    (ha_compatible ack \<longleftrightarrow> HelperHelloAck_validate_for ack hello = Inr ()) \<and>
    HelperHelloAck_validate_for ack hello =
      (if hh_protocol_version hello \<noteq> 1
       then Inl (HelperHelloAckError_Rejected (HelperHandshakeRejection_UnsupportedProtocolVersion (hh_protocol_version hello) 1))
       else if length required > 64 \<or> \<not> distinct required
       then Inl (HelperHelloAckError_Rejected HelperHandshakeRejection_InvalidCapabilityList)
       else if missing \<noteq> {}
       then Inl (HelperHelloAckError_Rejected (HelperHandshakeRejection_MissingCapabilities (sorted_list_of_set missing)))
       else Inr ())"
proof (cases "hello_acceptable build hello")
  case True
  let ?caps = "remdups_adj (sort (hb_capabilities build))"
  have "length ?caps \<le> 64" using few_capabilities [OF distinct_sorted_caps, of "hb_capabilities build"] by simp
  moreover have "length (btree_set ?caps) = length ?caps" using distinct_sorted_caps length_btree_set by blast
  ultimately show ?thesis
    using True assms rejection_none [of build hello]
    by (simp add: ServerHandshake_negotiate_def ServerHandshake_new_def HelperHelloAck_validate_for_def HelperHelloAck_require_compatible_def
        Let_def hello_acceptable_def length_btree_set btree_difference_empty not_less)
next
  case False
  have "sorted_list_of_set (set (hh_required_capabilities hello) - set (hb_capabilities build)) = [] \<longleftrightarrow>
      set (hh_required_capabilities hello) \<subseteq> set (hb_capabilities build)" by simp
  then show ?thesis using False rejection_none [of build hello]
    by (auto simp: ServerHandshake_negotiate_def HelperHelloAck_validate_for_def HelperHelloAck_require_compatible_def Let_def
        ServerHandshake_rejection_for_def ServerHandshake_new_def hello_acceptable_def missing_capabilities length_btree_set not_less)
qed

theorem handshake_agreement_witness:
  "let build = \<lparr>hb_helper_version = [48], hb_target = [120], hb_capabilities = [HelperCapability_Tls, HelperCapability_CoreSession]\<rparr>;
       hello = HelperHello_current [HelperCapability_Tls, HelperCapability_Port];
       ack = ServerHandshake_negotiate (ServerHandshake_new build) hello in
   ha_compatible ack = False \<and>
   HelperHelloAck_validate_for ack hello =
     Inl (HelperHelloAckError_Rejected (HelperHandshakeRejection_MissingCapabilities [HelperCapability_Port]))"
proof -
  have "set [HelperCapability_Tls, HelperCapability_Port] - set [HelperCapability_Tls, HelperCapability_CoreSession] = {HelperCapability_Port}"
    by auto
  then show ?thesis
    using handshake_agreement [of "\<lparr>hb_helper_version = [48], hb_target = [120], hb_capabilities = [HelperCapability_Tls, HelperCapability_CoreSession]\<rparr>"
        "HelperHello_current [HelperCapability_Tls, HelperCapability_Port]"]
    by (auto simp: HelperHello_current_def Let_def)
qed

end
