(* ===== verification/Helper_Types.thy ===== *)
theory Helper_Types
  imports Helper_Handshake
begin

text \<open>
  The messages of the stdio protocol between a host application and the helper process (the types of
  \<open>wire.rs\<close> of the helper-protocol crate) and the \<open>Debug\<close> rendering of requests. Rust strings and paths
  are their bytes, \<open>i32\<close> is a 32-bit word. The variants of an enum keep the source's names after the name of the enum,
  and their fields keep the source's order.

  Shown here: the \<open>Debug\<close> text of a request does not depend on the secrets and user data it carries.
\<close>

section \<open>Connection options\<close>

datatype HelperSecret = HelperSecret "u8 list"

datatype HelperEndpoint =
    HelperEndpoint_Tcp "u8 list" u16
  | HelperEndpoint_Unix "u8 list"

datatype HelperTransportSecurity =
    HelperTransportSecurity_Plain
  | HelperTransportSecurity_Tls "u8 list" "u8 list list"

datatype HelperSasl =
    HelperSasl_Gssapi "u8 list" "u8 list"
  | HelperSasl_Password "u8 list" "u8 list" "u8 list" "u8 list option" HelperSecret bool

record HelperConnectOptions =
  hc_endpoint :: HelperEndpoint
  hc_ticket :: HelperSecret
  hc_transport_security :: HelperTransportSecurity
  hc_sasl :: "HelperSasl option"

section \<open>Enumerations and records shared by requests and events\<close>

record HelperUsbDeviceIdentity =
  hu_bus_number :: u8
  hu_device_address :: u8
  hu_vendor_id :: u16
  hu_product_id :: u16

datatype HelperNativeBackendStatus =
    HelperNativeBackendStatus_Available
  | HelperNativeBackendStatus_Unavailable "u8 list"

record HelperRect =
  hr_x :: u32
  hr_y :: u32
  hr_width :: u32
  hr_height :: u32

datatype HelperPixelFormat = HelperPixelFormat_Rgba8

datatype HelperAudioDataMode = HelperAudioDataMode_Raw | HelperAudioDataMode_Celt051 | HelperAudioDataMode_Opus

datatype HelperPlaybackStateKind =
    HelperPlaybackStateKind_AwaitingMode | HelperPlaybackStateKind_Stopped
  | HelperPlaybackStateKind_Started | HelperPlaybackStateKind_Closed

datatype HelperRecordStateKind =
    HelperRecordStateKind_Stopped | HelperRecordStateKind_StartRequested
  | HelperRecordStateKind_Recording | HelperRecordStateKind_Closed

datatype HelperPortStateKind = HelperPortStateKind_AwaitingInit | HelperPortStateKind_Ready | HelperPortStateKind_Closed

datatype HelperButtonState = HelperButtonState_Pressed | HelperButtonState_Released

datatype HelperMouseButton =
    HelperMouseButton_Left | HelperMouseButton_Middle | HelperMouseButton_Right | HelperMouseButton_WheelUp
  | HelperMouseButton_WheelDown | HelperMouseButton_Side | HelperMouseButton_Extra

datatype HelperMouseMode = HelperMouseMode_Server | HelperMouseMode_Client

datatype HelperKeyState = HelperKeyState_Pressed | HelperKeyState_Released

datatype HelperClipboardSelection =
    HelperClipboardSelection_Clipboard | HelperClipboardSelection_Primary | HelperClipboardSelection_Secondary

datatype HelperClipboardFormat =
    HelperClipboardFormat_Utf8Text | HelperClipboardFormat_ImagePng | HelperClipboardFormat_ImageBmp
  | HelperClipboardFormat_ImageTiff | HelperClipboardFormat_ImageJpeg | HelperClipboardFormat_FileList

record HelperMonitor =
  hmo_width :: u32
  hmo_height :: u32
  hmo_depth :: u32
  hmo_x :: i32
  hmo_y :: i32
  hmo_width_mm :: "u16 option"
  hmo_height_mm :: "u16 option"

section \<open>Requests\<close>

datatype HelperRequest =
    HelperRequest_Hello HelperHello
  | HelperRequest_Connect HelperConnectOptions
  | HelperRequest_PointerPosition u32 u32 u16 u8
  | HelperRequest_PointerMotion i32 i32 u16
  | HelperRequest_MouseButton HelperMouseButton HelperButtonState u16
  | HelperRequest_KeyCode u32 HelperKeyState
  | HelperRequest_Scancodes "u8 list"
  | HelperRequest_Modifiers u16
  | HelperRequest_ClipboardOffer HelperClipboardSelection "HelperClipboardFormat list"
  | HelperRequest_ClipboardRelease HelperClipboardSelection
  | HelperRequest_ClipboardRequest HelperClipboardSelection HelperClipboardFormat
  | HelperRequest_ClipboardProvide u64 "u8 list"
  | HelperRequest_FileTransferStart u64 "u8 list" u64
  | HelperRequest_FileTransferData u64 "u8 list"
  | HelperRequest_FileTransferFinish u64
  | HelperRequest_FileTransferCancel u64
  | HelperRequest_PortWrite u8 "u8 list"
  | HelperRequest_PortBreak u8
  | HelperRequest_MonitorLayout "HelperMonitor list"
  | HelperRequest_SyncAgentAudioVolume bool bool "u16 list"
  | HelperRequest_RecordBegin u8
  | HelperRequest_RecordData u8 u32 "u8 list"
  | HelperRequest_ListNativeDevices
  | HelperRequest_StartWebDav u8 "u8 list" bool
  | HelperRequest_StartUsbRedirection u8 HelperUsbDeviceIdentity
  | HelperRequest_StartSmartcardRedirection u8 "u8 list"
  | HelperRequest_Close

section \<open>Events\<close>

datatype HelperStatus =
    HelperStatus_Connecting | HelperStatus_Connected | HelperStatus_Closing | HelperStatus_Disconnected | HelperStatus_Failed

datatype HelperErrorCategory =
    HelperErrorCategory_Configuration | HelperErrorCategory_Network | HelperErrorCategory_Tls
  | HelperErrorCategory_Authentication | HelperErrorCategory_Protocol | HelperErrorCategory_Negotiation
  | HelperErrorCategory_Unsupported | HelperErrorCategory_ResourceLimit | HelperErrorCategory_RemoteDisconnect
  | HelperErrorCategory_Cancelled | HelperErrorCategory_Internal

record HelperChannelCapabilities =
  hcc_inputs :: bool
  hcc_raw_scancodes :: bool
  hcc_cursor :: bool
  hcc_agent :: bool
  hcc_playback_channel_ids :: "u8 list"
  hcc_record_channel_ids :: "u8 list"
  hcc_port_channel_ids :: "u8 list"
  hcc_usbredir_channel_ids :: "u8 list"
  hcc_smartcard_channel_ids :: "u8 list"
  hcc_webdav_channel_ids :: "u8 list"

record HelperTopologyMonitor =
  htm_id :: u32
  htm_surface_id :: u32
  htm_width :: u32
  htm_height :: u32
  htm_x :: u32
  htm_y :: u32
  htm_flags :: u32

datatype HelperAgentStateKind =
    HelperAgentStateKind_Disconnected | HelperAgentStateKind_Negotiating | HelperAgentStateKind_Ready

datatype HelperFileTransferState =
    HelperFileTransferState_WaitingForGuest | HelperFileTransferState_Sending | HelperFileTransferState_AwaitingCompletion
  | HelperFileTransferState_Completed | HelperFileTransferState_Cancelled | HelperFileTransferState_Failed
  | HelperFileTransferState_AgentDisconnected

datatype HelperFileTransferFailure =
    HelperFileTransferFailure_RemoteError "u8 option" "u32 option"
  | HelperFileTransferFailure_NotEnoughSpace "u64 option"
  | HelperFileTransferFailure_SessionLocked
  | HelperFileTransferFailure_AgentNotConnected
  | HelperFileTransferFailure_Disabled

record HelperAgentFeatures =
  haf_clipboard_by_demand :: bool
  haf_clipboard_selection :: bool
  haf_clipboard_grab_serial :: bool
  haf_monitor_config :: bool
  haf_sparse_monitors :: bool
  haf_monitor_positions :: bool
  haf_monitor_physical_size :: bool
  haf_file_transfer_disabled :: bool
  haf_file_transfer_detailed_errors :: bool
  haf_audio_volume_sync :: bool
  haf_graphics_device_info :: bool

record HelperGraphicsDevice =
  hgd_channel_id :: u32
  hgd_monitor_id :: u32
  hgd_device_display_id :: u32
  hgd_device_address :: "u8 list"

datatype HelperEvent =
    HelperEvent_HelloAck HelperHelloAck
  | HelperEvent_Status HelperStatus "u8 list option"
  | HelperEvent_Connected u32 HelperChannelCapabilities
  | HelperEvent_ServerIdentity "u8 list option" "u8 list option"
  | HelperEvent_MouseMode HelperMouseMode
  | HelperEvent_KeyboardModifiers u16
  | HelperEvent_Topology u64 u64 u8 u16 "HelperTopologyMonitor list"
  | HelperEvent_Frame u64 u64 u8 u32 u32 u32 HelperRect bool HelperPixelFormat "u8 list"
  | HelperEvent_Cursor u64 u64 u8 i32 i32 bool u16 u16 u16 u16 "u64 option" "u8 list"
  | HelperEvent_ClipboardOffer HelperClipboardSelection u64 "HelperClipboardFormat list"
  | HelperEvent_ClipboardRequest u64 HelperClipboardSelection HelperClipboardFormat
  | HelperEvent_ClipboardData HelperClipboardSelection HelperClipboardFormat "u8 list"
  | HelperEvent_PlaybackData u8 u64 u64 u32 u32 u32 bool "u8 list"
  | HelperEvent_PlaybackState u64 u8 "u64 option" HelperPlaybackStateKind "u32 option" "u32 option" "u32 option" "u32 option"
  | HelperEvent_PlaybackSettings u8 "u16 list" bool "u32 option"
  | HelperEvent_RecordState u64 u8 u64 HelperRecordStateKind "u32 option" "HelperAudioDataMode option" "u32 option" "u32 option"
  | HelperEvent_RecordSettings u8 "u16 list" bool
  | HelperEvent_PortState u64 u8 HelperPortStateKind "u8 list option" bool
  | HelperEvent_PortData u8 bool "u8 list"
  | HelperEvent_PortBreak u8
  | HelperEvent_NativeDevices "HelperUsbDeviceIdentity list" HelperNativeBackendStatus "u8 list list" HelperNativeBackendStatus
  | HelperEvent_AgentState u64 u64 HelperAgentStateKind "u32 option" "HelperAgentFeatures option"
  | HelperEvent_AgentAudioVolume u64 u64 bool bool "u16 list"
  | HelperEvent_AgentAudioVolumeReset
  | HelperEvent_AgentGraphicsDevices u64 u64 "HelperGraphicsDevice list"
  | HelperEvent_AgentGraphicsDevicesReset
  | HelperEvent_FileTransferState u64 HelperFileTransferState u64 "HelperFileTransferFailure option"
  | HelperEvent_Error HelperErrorCategory "u8 list"

section \<open>Headers of binary messages\<close>

datatype BinaryRequestHeader =
    BinaryRequestHeader_ClipboardProvide u64 nat
  | BinaryRequestHeader_RecordData u8 u32 nat
  | BinaryRequestHeader_FileTransferData u64 nat
  | BinaryRequestHeader_PortWrite u8 nat

datatype InitialRequest = InitialRequest_Hello HelperHello

datatype BinaryEventHeader =
    BinaryEventHeader_Frame u64 u64 u8 u32 u32 u32 HelperRect bool HelperPixelFormat nat
  | BinaryEventHeader_Cursor u64 u64 u8 i32 i32 bool u16 u16 u16 u16 "u64 option" nat
  | BinaryEventHeader_ClipboardData HelperClipboardSelection HelperClipboardFormat nat
  | BinaryEventHeader_PlaybackData u8 u64 u64 u32 u32 u32 bool nat
  | BinaryEventHeader_PortData u8 bool nat

section \<open>Debug rendering\<close>

text \<open>The calls on the \<open>Formatter\<close>: a plain string, a tuple or struct builder with its fields, and the leaves. A
  field is either a nested value or the \<open>format_args!\<close> of a byte count.\<close>

datatype debug =
    Debug_str String.literal
  | Debug_tuple String.literal "debug list"
  | Debug_struct String.literal "(String.literal \<times> debug) list"
  | Debug_list "debug list"
  | Debug_int int
  | Debug_bool bool
  | Debug_string "u8 list"
  | Debug_byte_count nat

definition debug_option :: "('a \<Rightarrow> debug) \<Rightarrow> 'a option \<Rightarrow> debug" where
  "debug_option f v = (case v of None \<Rightarrow> Debug_str STR ''None'' | Some x \<Rightarrow> Debug_tuple STR ''Some'' [f x])"

definition debug_word :: "'a::len word \<Rightarrow> debug" where
  "debug_word w = Debug_int (uint w)"

definition HelperSecret_fmt :: "HelperSecret \<Rightarrow> debug" where
  "HelperSecret_fmt secret = Debug_str STR ''HelperSecret([REDACTED])''"

fun HelperEndpoint_fmt :: "HelperEndpoint \<Rightarrow> debug" where
  "HelperEndpoint_fmt (HelperEndpoint_Tcp host port) =
     Debug_struct STR ''Tcp'' [(STR ''host'', Debug_string host), (STR ''port'', debug_word port)]"
| "HelperEndpoint_fmt (HelperEndpoint_Unix path) = Debug_struct STR ''Unix'' [(STR ''path'', Debug_string path)]"

fun HelperTransportSecurity_fmt :: "HelperTransportSecurity \<Rightarrow> debug" where
  "HelperTransportSecurity_fmt HelperTransportSecurity_Plain = Debug_str STR ''Plain''"
| "HelperTransportSecurity_fmt (HelperTransportSecurity_Tls server_name root_certificates_der) =
     Debug_struct STR ''Tls'' [(STR ''server_name'', Debug_string server_name),
       (STR ''root_certificates_der'', Debug_list (map (\<lambda>der. Debug_list (map debug_word der)) root_certificates_der))]"

fun HelperSasl_fmt :: "HelperSasl \<Rightarrow> debug" where
  "HelperSasl_fmt (HelperSasl_Gssapi hostname service) =
     Debug_struct STR ''Gssapi'' [(STR ''hostname'', Debug_string hostname), (STR ''service'', Debug_string service)]"
| "HelperSasl_fmt (HelperSasl_Password hostname service authentication_id authorization_id password allow_gssapi) =
     Debug_struct STR ''Password''
       [(STR ''hostname'', Debug_string hostname), (STR ''service'', Debug_string service),
        (STR ''authentication_id'', Debug_string authentication_id),
        (STR ''authorization_id'', debug_option Debug_string authorization_id),
        (STR ''password'', HelperSecret_fmt password), (STR ''allow_gssapi'', Debug_bool allow_gssapi)]"

fun HelperCapability_fmt :: "HelperCapability \<Rightarrow> debug" where
  "HelperCapability_fmt HelperCapability_CoreSession = Debug_str STR ''CoreSession''"
| "HelperCapability_fmt HelperCapability_Tls = Debug_str STR ''Tls''"
| "HelperCapability_fmt HelperCapability_SaslPassword = Debug_str STR ''SaslPassword''"
| "HelperCapability_fmt HelperCapability_SaslGssapi = Debug_str STR ''SaslGssapi''"
| "HelperCapability_fmt HelperCapability_DisplayCanvas = Debug_str STR ''DisplayCanvas''"
| "HelperCapability_fmt HelperCapability_CompositePixman = Debug_str STR ''CompositePixman''"
| "HelperCapability_fmt HelperCapability_AudioRaw = Debug_str STR ''AudioRaw''"
| "HelperCapability_fmt HelperCapability_AudioOpus = Debug_str STR ''AudioOpus''"
| "HelperCapability_fmt HelperCapability_VideoMjpeg = Debug_str STR ''VideoMjpeg''"
| "HelperCapability_fmt HelperCapability_VideoVp8 = Debug_str STR ''VideoVp8''"
| "HelperCapability_fmt HelperCapability_VideoVp9 = Debug_str STR ''VideoVp9''"
| "HelperCapability_fmt HelperCapability_VideoH264 = Debug_str STR ''VideoH264''"
| "HelperCapability_fmt HelperCapability_VideoH265 = Debug_str STR ''VideoH265''"
| "HelperCapability_fmt HelperCapability_Clipboard = Debug_str STR ''Clipboard''"
| "HelperCapability_fmt HelperCapability_FileTransfer = Debug_str STR ''FileTransfer''"
| "HelperCapability_fmt HelperCapability_WebDav = Debug_str STR ''WebDav''"
| "HelperCapability_fmt HelperCapability_UsbRedir = Debug_str STR ''UsbRedir''"
| "HelperCapability_fmt HelperCapability_Smartcard = Debug_str STR ''Smartcard''"
| "HelperCapability_fmt HelperCapability_MultiDisplay = Debug_str STR ''MultiDisplay''"
| "HelperCapability_fmt HelperCapability_Playback = Debug_str STR ''Playback''"
| "HelperCapability_fmt HelperCapability_Record = Debug_str STR ''Record''"
| "HelperCapability_fmt HelperCapability_Port = Debug_str STR ''Port''"

definition HelperHello_fmt :: "HelperHello \<Rightarrow> debug" where
  "HelperHello_fmt hello =
     Debug_struct STR ''HelperHello'' [(STR ''protocol_version'', debug_word (hh_protocol_version hello)),
       (STR ''required_capabilities'', Debug_list (map HelperCapability_fmt (hh_required_capabilities hello)))]"

definition HelperUsbDeviceIdentity_fmt :: "HelperUsbDeviceIdentity \<Rightarrow> debug" where
  "HelperUsbDeviceIdentity_fmt device =
     Debug_struct STR ''HelperUsbDeviceIdentity''
       [(STR ''bus_number'', debug_word (hu_bus_number device)), (STR ''device_address'', debug_word (hu_device_address device)),
        (STR ''vendor_id'', debug_word (hu_vendor_id device)), (STR ''product_id'', debug_word (hu_product_id device))]"

fun HelperRequest_fmt :: "HelperRequest \<Rightarrow> debug" where
  "HelperRequest_fmt (HelperRequest_Hello hello) = Debug_tuple STR ''Hello'' [HelperHello_fmt hello]"
| "HelperRequest_fmt (HelperRequest_Connect options) =
     Debug_struct STR ''Connect''
       [(STR ''endpoint'', HelperEndpoint_fmt (hc_endpoint options)),
        (STR ''transport_security'', HelperTransportSecurity_fmt (hc_transport_security options)),
        (STR ''ticket'', HelperSecret_fmt (hc_ticket options)),
        (STR ''sasl'', debug_option HelperSasl_fmt (hc_sasl options))]"
| "HelperRequest_fmt (HelperRequest_ClipboardProvide request_id data) =
     Debug_struct STR ''ClipboardProvide'' [(STR ''request_id'', debug_word request_id), (STR ''data'', Debug_byte_count (length data))]"
| "HelperRequest_fmt (HelperRequest_FileTransferStart transfer_id file_name size') =
     Debug_struct STR ''FileTransferStart'' [(STR ''transfer_id'', debug_word transfer_id),
       (STR ''file_name'', Debug_string file_name), (STR ''size'', debug_word size')]"
| "HelperRequest_fmt (HelperRequest_FileTransferData transfer_id data) =
     Debug_struct STR ''FileTransferData'' [(STR ''transfer_id'', debug_word transfer_id), (STR ''data'', Debug_byte_count (length data))]"
| "HelperRequest_fmt (HelperRequest_FileTransferFinish transfer_id) =
     Debug_struct STR ''FileTransferFinish'' [(STR ''transfer_id'', debug_word transfer_id)]"
| "HelperRequest_fmt (HelperRequest_FileTransferCancel transfer_id) =
     Debug_struct STR ''FileTransferCancel'' [(STR ''transfer_id'', debug_word transfer_id)]"
| "HelperRequest_fmt (HelperRequest_PortWrite channel_id data) =
     Debug_struct STR ''PortWrite'' [(STR ''channel_id'', debug_word channel_id), (STR ''data'', Debug_byte_count (length data))]"
| "HelperRequest_fmt (HelperRequest_PortBreak channel_id) = Debug_struct STR ''PortBreak'' [(STR ''channel_id'', debug_word channel_id)]"
| "HelperRequest_fmt (HelperRequest_RecordData channel_id timestamp_ms pcm_s16le) =
     Debug_struct STR ''RecordData'' [(STR ''channel_id'', debug_word channel_id), (STR ''timestamp_ms'', debug_word timestamp_ms),
       (STR ''pcm_s16le'', Debug_byte_count (length pcm_s16le))]"
| "HelperRequest_fmt (HelperRequest_PointerPosition x y buttons display_id) = Debug_str STR ''PointerPosition''"
| "HelperRequest_fmt (HelperRequest_PointerMotion dx dy buttons) = Debug_str STR ''PointerMotion''"
| "HelperRequest_fmt (HelperRequest_MouseButton button state buttons) = Debug_str STR ''MouseButton''"
| "HelperRequest_fmt (HelperRequest_KeyCode code state) = Debug_str STR ''KeyCode''"
| "HelperRequest_fmt (HelperRequest_Scancodes bytes) = Debug_tuple STR ''Scancodes'' [Debug_byte_count (length bytes)]"
| "HelperRequest_fmt (HelperRequest_Modifiers bits) = Debug_str STR ''Modifiers''"
| "HelperRequest_fmt (HelperRequest_ClipboardOffer selection formats) = Debug_str STR ''ClipboardOffer''"
| "HelperRequest_fmt (HelperRequest_ClipboardRelease selection) = Debug_str STR ''ClipboardRelease''"
| "HelperRequest_fmt (HelperRequest_ClipboardRequest selection format) = Debug_str STR ''ClipboardRequest''"
| "HelperRequest_fmt (HelperRequest_MonitorLayout monitors) =
     Debug_struct STR ''MonitorLayout'' [(STR ''monitor_count'', Debug_int (int (length monitors)))]"
| "HelperRequest_fmt (HelperRequest_SyncAgentAudioVolume is_playback muted volumes) =
     Debug_struct STR ''SyncAgentAudioVolume'' [(STR ''is_playback'', Debug_bool is_playback), (STR ''muted'', Debug_bool muted),
       (STR ''channel_count'', Debug_int (int (length volumes)))]"
| "HelperRequest_fmt (HelperRequest_RecordBegin channel_id) = Debug_struct STR ''RecordBegin'' [(STR ''channel_id'', debug_word channel_id)]"
| "HelperRequest_fmt HelperRequest_ListNativeDevices = Debug_str STR ''ListNativeDevices''"
| "HelperRequest_fmt (HelperRequest_StartWebDav channel_id root read_only) =
     Debug_struct STR ''StartWebDav'' [(STR ''channel_id'', debug_word channel_id), (STR ''root'', Debug_string root),
       (STR ''read_only'', Debug_bool read_only)]"
| "HelperRequest_fmt (HelperRequest_StartUsbRedirection channel_id device) =
     Debug_struct STR ''StartUsbRedirection'' [(STR ''channel_id'', debug_word channel_id),
       (STR ''device'', HelperUsbDeviceIdentity_fmt device)]"
| "HelperRequest_fmt (HelperRequest_StartSmartcardRedirection channel_id display_name) =
     Debug_struct STR ''StartSmartcardRedirection'' [(STR ''channel_id'', debug_word channel_id),
       (STR ''display_name'', Debug_string display_name)]"
| "HelperRequest_fmt HelperRequest_Close = Debug_str STR ''Close''"

text \<open>Two requests a reader of the log must not be able to tell apart: they differ at most in the ticket, the SASL
  password, what the user types, points at or copies, and the contents (not the sizes) of transferred data.\<close>

fun sasl_public :: "HelperSasl \<Rightarrow> HelperSasl" where
  "sasl_public (HelperSasl_Gssapi hostname service) = HelperSasl_Gssapi hostname service"
| "sasl_public (HelperSasl_Password hostname service authentication_id authorization_id password allow_gssapi) =
     HelperSasl_Password hostname service authentication_id authorization_id (HelperSecret []) allow_gssapi"

definition bytes_public :: "u8 list \<Rightarrow> u8 list" where
  "bytes_public bs = replicate (length bs) 0"

fun request_public :: "HelperRequest \<Rightarrow> HelperRequest" where
  "request_public (HelperRequest_Connect options) =
     HelperRequest_Connect (options\<lparr>hc_ticket := HelperSecret [], hc_sasl := map_option sasl_public (hc_sasl options)\<rparr>)"
| "request_public (HelperRequest_PointerPosition x y buttons display_id) = HelperRequest_PointerPosition 0 0 0 0"
| "request_public (HelperRequest_PointerMotion dx dy buttons) = HelperRequest_PointerMotion 0 0 0"
| "request_public (HelperRequest_MouseButton button state buttons) =
     HelperRequest_MouseButton HelperMouseButton_Left HelperButtonState_Pressed 0"
| "request_public (HelperRequest_KeyCode code state) = HelperRequest_KeyCode 0 HelperKeyState_Pressed"
| "request_public (HelperRequest_Scancodes bytes) = HelperRequest_Scancodes (bytes_public bytes)"
| "request_public (HelperRequest_Modifiers bits) = HelperRequest_Modifiers 0"
| "request_public (HelperRequest_ClipboardOffer selection formats) =
     HelperRequest_ClipboardOffer HelperClipboardSelection_Clipboard []"
| "request_public (HelperRequest_ClipboardProvide request_id data) = HelperRequest_ClipboardProvide request_id (bytes_public data)"
| "request_public (HelperRequest_FileTransferData transfer_id data) = HelperRequest_FileTransferData transfer_id (bytes_public data)"
| "request_public (HelperRequest_PortWrite channel_id data) = HelperRequest_PortWrite channel_id (bytes_public data)"
| "request_public (HelperRequest_RecordData channel_id timestamp_ms pcm_s16le) =
     HelperRequest_RecordData channel_id timestamp_ms (bytes_public pcm_s16le)"
| "request_public request = request"

lemma HelperSasl_fmt_public: "HelperSasl_fmt (sasl_public s) = HelperSasl_fmt s"
  by (cases s) (simp_all add: HelperSecret_fmt_def)

lemma debug_option_map: "debug_option f (map_option g v) = debug_option (f \<circ> g) v"
  by (cases v) (simp_all add: debug_option_def)

lemma HelperRequest_fmt_public: "HelperRequest_fmt (request_public r) = HelperRequest_fmt r"
  by (cases r) (simp_all add: HelperSecret_fmt_def debug_option_map comp_def HelperSasl_fmt_public bytes_public_def)

text \<open>C14: logging a request with \<open>{:?}\<close> does not leak: the \<open>Debug\<close> rendering is the same for any two requests that agree on
  everything but the ticket, the SASL password, what the user typed, pointed at or copied, and the contents of
  clipboard, file, port and audio payloads.\<close>

theorem request_debug_redacted:
  assumes "request_public r = request_public s"
  shows "HelperRequest_fmt r = HelperRequest_fmt s"
  using assms HelperRequest_fmt_public by metis

theorem request_debug_redacted_witness:
  "HelperRequest_fmt (HelperRequest_Connect \<lparr>hc_endpoint = HelperEndpoint_Tcp [104] 5900, hc_ticket = HelperSecret [1, 2],
       hc_transport_security = HelperTransportSecurity_Plain,
       hc_sasl = Some (HelperSasl_Password [104] [115] [117] None (HelperSecret [9]) False)\<rparr>) =
   HelperRequest_fmt (HelperRequest_Connect \<lparr>hc_endpoint = HelperEndpoint_Tcp [104] 5900, hc_ticket = HelperSecret [7],
       hc_transport_security = HelperTransportSecurity_Plain,
       hc_sasl = Some (HelperSasl_Password [104] [115] [117] None (HelperSecret [5, 5]) False)\<rparr>)"
  by (rule request_debug_redacted) simp

end
