(* ===== verification/Helper_Wire.thy ===== *)
theory Helper_Wire
  imports Helper_Types Spice_Peripherals Spice_AgentPayload
begin

text \<open>
  The stdio transport of the helper protocol (\<open>wire.rs\<close> of the helper-protocol crate): bounded JSON lines, binary payloads after
  a JSON header, and the readers and writers of requests, events and metadata.

  The reader is the sequence of results its \<open>fill_buf\<close> gives (bytes or an I/O error; no bytes at all is the end of the
  stream), so that every way of cutting the stream into reads is covered. The writer is a sink with a bounded
  capacity. \<open>serde_json\<close> is a parameter: one record \<open>serde\<close> per type with its \<open>to_vec\<close> and \<open>from_str\<close>.

  Shown here: a sequence of written requests or events is read back exactly, for every way of cutting the bytes into
  reads; a message whose payload does not fit its header is refused without losing the position in the stream; and
  every reader buffers at most the documented bounds, whatever the peer sends.
\<close>

section \<open>Readers and writers\<close>

datatype io_error = Io_Interrupted | Io_UnexpectedEof | Io_WriteZero | Io_Other nat

type_synonym reads = "(io_error + u8 list) list"

fun fill_buf :: "reads \<Rightarrow> (io_error + u8 list) \<times> reads" where
  "fill_buf [] = (Inr [], [])"
| "fill_buf (Inl e # rest) = (Inl e, rest)"
| "fill_buf (Inr available # rest) = (Inr available, if available = [] then rest else Inr available # rest)"

fun consume :: "nat \<Rightarrow> reads \<Rightarrow> reads" where
  "consume n (Inr available # rest) = (if n < length available then Inr (drop n available) # rest else rest)"
| "consume n rest = rest"

text \<open>\<open>Read::read_exact\<close>: interrupted reads are retried, the end of the stream is an error.\<close>

fun read_exact :: "nat \<Rightarrow> reads \<Rightarrow> (io_error + u8 list) \<times> reads" where
  "read_exact 0 r = (Inr [], r)"
| "read_exact (Suc n) [] = (Inl Io_UnexpectedEof, [])"
| "read_exact (Suc n) (Inl e # rest) = (if e = Io_Interrupted then read_exact (Suc n) rest else (Inl e, rest))"
| "read_exact (Suc n) (Inr available # rest) =
     (if available = [] then (Inl Io_UnexpectedEof, rest)
      else if Suc n < length available then (Inr (take (Suc n) available), Inr (drop (Suc n) available) # rest)
      else (case read_exact (Suc n - length available) rest of
              (Inl e, r) \<Rightarrow> (Inl e, r)
            | (Inr later, r) \<Rightarrow> (Inr (available @ later), r)))"

record sink =
  sk_bytes :: "u8 list"
  sk_room :: nat
  sk_flush :: "io_error option"

definition write_all :: "u8 list \<Rightarrow> sink \<Rightarrow> (io_error + unit) \<times> sink" where
  "write_all bytes w =
     (if length bytes \<le> sk_room w
      then (Inr (), w\<lparr>sk_bytes := sk_bytes w @ bytes, sk_room := sk_room w - length bytes\<rparr>)
      else (Inl Io_WriteZero, w\<lparr>sk_bytes := sk_bytes w @ take (sk_room w) bytes, sk_room := 0\<rparr>))"

definition flush :: "sink \<Rightarrow> io_error + unit" where
  "flush w = (case sk_flush w of None \<Rightarrow> Inr () | Some e \<Rightarrow> Inl e)"

record 'a serde =
  to_vec :: "'a \<Rightarrow> u8 list option"
  from_str :: "u8 list \<Rightarrow> 'a option"

section \<open>Lines and payloads\<close>

definition MAX_JSON_LINE_BYTES :: nat where "MAX_JSON_LINE_BYTES = 1024 * 1024"
definition MAX_BINARY_PAYLOAD_BYTES :: nat where "MAX_BINARY_PAYLOAD_BYTES = 256 * 1024 * 1024"

datatype HelperIpcError =
    HelperIpcError_Io io_error
  | HelperIpcError_Json
  | HelperIpcError_LineTooLarge
  | HelperIpcError_InvalidUtf8
  | HelperIpcError_ExpectedHello
  | HelperIpcError_BinaryPayloadTooLarge
  | HelperIpcError_InvalidBinaryPayload
  | HelperIpcError_FileTransferChunkTooLarge
  | HelperIpcError_PortPayloadTooLarge

definition newline_end :: "u8 list \<Rightarrow> nat" where
  "newline_end available = (case position (\<lambda>byte. byte = 10) available of None \<Rightarrow> length available | Some index \<Rightarrow> index + 1)"

definition reads_left :: "reads \<Rightarrow> nat" where
  "reads_left r = (\<Sum>x\<leftarrow>r. case x of Inl e \<Rightarrow> 1 | Inr bytes \<Rightarrow> Suc (length bytes))"

text \<open>The loop of \<open>read_bounded_line\<close>, with the bytes gathered so far.\<close>

function read_bounded_line_loop :: "u8 list \<Rightarrow> reads \<Rightarrow> (HelperIpcError + u8 list option) \<times> reads" where
  "read_bounded_line_loop bytes r =
     (case fill_buf r of
        (Inl e, r') \<Rightarrow> (Inl (HelperIpcError_Io e), r')
      | (Inr available, r') \<Rightarrow>
          if available = [] then (Inr (if bytes = [] then None else Some bytes), r')
          else
          let consumed = newline_end available in
          if length bytes + consumed > MAX_JSON_LINE_BYTES then (Inl HelperIpcError_LineTooLarge, r')
          else
          let bytes' = bytes @ take consumed available;
              complete = (consumed - 1 < length available \<and> available ! (consumed - 1) = 10);
              r'' = consume consumed r' in
          if complete then (Inr (Some bytes'), r'') else read_bounded_line_loop bytes' r'')"
  by pat_completeness auto

lemma newline_end_bounds: "available \<noteq> [] \<Longrightarrow> 0 < newline_end available \<and> newline_end available \<le> length available"
  by (auto simp: newline_end_def split: option.split dest: position_Some_less)

termination read_bounded_line_loop
proof (relation "measure (\<lambda>(bytes, r). reads_left r)", goal_cases)
  case (2 bytes r v r' available x xa xb xc)
  then show ?case
    using newline_end_bounds [of available]
    by (cases r rule: fill_buf.cases) (auto simp: reads_left_def Let_def split: if_splits)
qed simp

definition trim_line_end :: "u8 list \<Rightarrow> u8 list" where
  "trim_line_end bytes = rev (dropWhile (\<lambda>byte. byte = 13 \<or> byte = 10) (rev bytes))"

definition read_bounded_line :: "reads \<Rightarrow> (HelperIpcError + u8 list option) \<times> reads" where
  "read_bounded_line r =
     (case read_bounded_line_loop [] r of
        (Inl e, r') \<Rightarrow> (Inl e, r')
      | (Inr None, r') \<Rightarrow> (Inr None, r')
      | (Inr (Some bytes), r') \<Rightarrow>
          (case from_utf8 (trim_line_end bytes) of
             None \<Rightarrow> (Inl HelperIpcError_InvalidUtf8, r')
           | Some line \<Rightarrow> (Inr (Some line), r')))"

definition validate_payload_len :: "nat \<Rightarrow> HelperIpcError + unit" where
  "validate_payload_len payload_len =
     (if payload_len > MAX_BINARY_PAYLOAD_BYTES then Inl HelperIpcError_BinaryPayloadTooLarge else Inr ())"

definition read_payload :: "nat \<Rightarrow> reads \<Rightarrow> (HelperIpcError + u8 list) \<times> reads" where
  "read_payload payload_len r =
     (case validate_payload_len payload_len of
        Inl e \<Rightarrow> (Inl e, r)
      | Inr _ \<Rightarrow>
          (case read_exact payload_len r of
             (Inl e, r') \<Rightarrow> (Inl (HelperIpcError_Io e), r')
           | (Inr payload, r') \<Rightarrow> (Inr payload, r')))"

definition write_json_line :: "'a serde \<Rightarrow> sink \<Rightarrow> 'a \<Rightarrow> (HelperIpcError + unit) \<times> sink" where
  "write_json_line js w v =
     (case to_vec js v of
        None \<Rightarrow> (Inl HelperIpcError_Json, w)
      | Some line \<Rightarrow>
          if length line \<ge> MAX_JSON_LINE_BYTES then (Inl HelperIpcError_LineTooLarge, w)
          else (case write_all (line @ [10]) w of
                  (Inl e, w') \<Rightarrow> (Inl (HelperIpcError_Io e), w')
                | (Inr _, w') \<Rightarrow>
                    (case flush w' of
                       Inl e \<Rightarrow> (Inl (HelperIpcError_Io e), w')
                     | Inr _ \<Rightarrow> (Inr (), w'))))"

definition write_binary :: "'a serde \<Rightarrow> sink \<Rightarrow> 'a \<Rightarrow> u8 list \<Rightarrow> (HelperIpcError + unit) \<times> sink" where
  "write_binary js w header payload =
     (case validate_payload_len (length payload) of
        Inl e \<Rightarrow> (Inl e, w)
      | Inr _ \<Rightarrow>
          (case to_vec js header of
             None \<Rightarrow> (Inl HelperIpcError_Json, w)
           | Some line \<Rightarrow>
               if length line \<ge> MAX_JSON_LINE_BYTES then (Inl HelperIpcError_LineTooLarge, w)
               else (case write_all (line @ [10]) w of
                       (Inl e, w') \<Rightarrow> (Inl (HelperIpcError_Io e), w')
                     | (Inr _, w') \<Rightarrow>
                         (case write_all payload w' of
                            (Inl e, w'') \<Rightarrow> (Inl (HelperIpcError_Io e), w'')
                          | (Inr _, w'') \<Rightarrow>
                              (case flush w'' of
                                 Inl e \<Rightarrow> (Inl (HelperIpcError_Io e), w'')
                               | Inr _ \<Rightarrow> (Inr (), w''))))))"

definition checked_rgba_bytes :: "u32 \<Rightarrow> u32 \<Rightarrow> HelperIpcError + nat" where
  "checked_rgba_bytes width height =
     (case usize_checked_mul (unat width) (unat height) of
        None \<Rightarrow> Inl HelperIpcError_InvalidBinaryPayload
      | Some pixels \<Rightarrow>
          (case usize_checked_mul pixels 4 of
             None \<Rightarrow> Inl HelperIpcError_InvalidBinaryPayload
           | Some bytes \<Rightarrow> Inr bytes))"

section \<open>Requests\<close>

fun request_payload_len :: "BinaryRequestHeader \<Rightarrow> nat" where
  "request_payload_len (BinaryRequestHeader_ClipboardProvide request_id payload_len) = payload_len"
| "request_payload_len (BinaryRequestHeader_RecordData channel_id timestamp_ms payload_len) = payload_len"
| "request_payload_len (BinaryRequestHeader_FileTransferData transfer_id payload_len) = payload_len"
| "request_payload_len (BinaryRequestHeader_PortWrite channel_id payload_len) = payload_len"

fun is_file_transfer_header :: "BinaryRequestHeader \<Rightarrow> bool" where
  "is_file_transfer_header (BinaryRequestHeader_FileTransferData transfer_id payload_len) = True"
| "is_file_transfer_header header = False"

fun is_port_write_header :: "BinaryRequestHeader \<Rightarrow> bool" where
  "is_port_write_header (BinaryRequestHeader_PortWrite channel_id payload_len) = True"
| "is_port_write_header header = False"

fun binary_request :: "BinaryRequestHeader \<Rightarrow> u8 list \<Rightarrow> HelperRequest" where
  "binary_request (BinaryRequestHeader_ClipboardProvide request_id payload_len) payload =
     HelperRequest_ClipboardProvide request_id payload"
| "binary_request (BinaryRequestHeader_RecordData channel_id timestamp_ms payload_len) payload =
     HelperRequest_RecordData channel_id timestamp_ms payload"
| "binary_request (BinaryRequestHeader_FileTransferData transfer_id payload_len) payload =
     HelperRequest_FileTransferData transfer_id payload"
| "binary_request (BinaryRequestHeader_PortWrite channel_id payload_len) payload = HelperRequest_PortWrite channel_id payload"

definition read_initial_hello :: "InitialRequest serde \<Rightarrow> reads \<Rightarrow> (HelperIpcError + HelperHello option) \<times> reads" where
  "read_initial_hello js r =
     (case read_bounded_line r of
        (Inl e, r') \<Rightarrow> (Inl e, r')
      | (Inr None, r') \<Rightarrow> (Inr None, r')
      | (Inr (Some line), r') \<Rightarrow>
          (case from_str js line of
             None \<Rightarrow> (Inl HelperIpcError_ExpectedHello, r')
           | Some (InitialRequest_Hello hello) \<Rightarrow> (Inr (Some hello), r')))"

definition read_request ::
  "BinaryRequestHeader serde \<Rightarrow> HelperRequest serde \<Rightarrow> reads \<Rightarrow> (HelperIpcError + HelperRequest option) \<times> reads" where
  "read_request hjs js r =
     (case read_bounded_line r of
        (Inl e, r') \<Rightarrow> (Inl e, r')
      | (Inr None, r') \<Rightarrow> (Inr None, r')
      | (Inr (Some line), r') \<Rightarrow>
          (case from_str hjs line of
             Some header \<Rightarrow>
               if is_file_transfer_header header \<and> request_payload_len header > MAX_AGENT_FILE_CHUNK_BYTES
               then (Inl HelperIpcError_FileTransferChunkTooLarge, r')
               else if is_port_write_header header \<and> request_payload_len header > MAX_PORT_DATA_BYTES
               then (Inl HelperIpcError_PortPayloadTooLarge, r')
               else (case read_payload (request_payload_len header) r' of
                       (Inl e, r'') \<Rightarrow> (Inl e, r'')
                     | (Inr payload, r'') \<Rightarrow> (Inr (Some (binary_request header payload)), r''))
           | None \<Rightarrow>
               (case from_str js line of
                  None \<Rightarrow> (Inl HelperIpcError_Json, r')
                | Some request \<Rightarrow> (Inr (Some request), r'))))"

definition write_request ::
  "BinaryRequestHeader serde \<Rightarrow> HelperRequest serde \<Rightarrow> sink \<Rightarrow> HelperRequest \<Rightarrow> (HelperIpcError + unit) \<times> sink" where
  "write_request hjs js w request =
     (case request of
        HelperRequest_ClipboardProvide request_id data \<Rightarrow>
          write_binary hjs w (BinaryRequestHeader_ClipboardProvide request_id (length data)) data
      | HelperRequest_RecordData channel_id timestamp_ms pcm_s16le \<Rightarrow>
          write_binary hjs w (BinaryRequestHeader_RecordData channel_id timestamp_ms (length pcm_s16le)) pcm_s16le
      | HelperRequest_FileTransferData transfer_id data \<Rightarrow>
          if length data > MAX_AGENT_FILE_CHUNK_BYTES then (Inl HelperIpcError_FileTransferChunkTooLarge, w)
          else write_binary hjs w (BinaryRequestHeader_FileTransferData transfer_id (length data)) data
      | HelperRequest_PortWrite channel_id data \<Rightarrow>
          if length data > MAX_PORT_DATA_BYTES then (Inl HelperIpcError_PortPayloadTooLarge, w)
          else write_binary hjs w (BinaryRequestHeader_PortWrite channel_id (length data)) data
      | _ \<Rightarrow> write_json_line js w request)"

section \<open>Events\<close>

definition write_event ::
  "BinaryEventHeader serde \<Rightarrow> HelperEvent serde \<Rightarrow> sink \<Rightarrow> HelperEvent \<Rightarrow> (HelperIpcError + unit) \<times> sink" where
  "write_event hjs js w event =
     (case event of
        HelperEvent_Frame connection_generation graphics_epoch display_channel_id surface_id surface_width surface_height
            rect full_refresh format pixels \<Rightarrow>
          write_binary hjs w
            (BinaryEventHeader_Frame connection_generation graphics_epoch display_channel_id surface_id surface_width
               surface_height rect full_refresh format (length pixels)) pixels
      | HelperEvent_Cursor connection_generation cursor_epoch channel_id x y visible width height hot_spot_x hot_spot_y
            shape_id rgba \<Rightarrow>
          if rgba \<noteq> []
          then write_binary hjs w
                 (BinaryEventHeader_Cursor connection_generation cursor_epoch channel_id x y visible width height
                    hot_spot_x hot_spot_y shape_id (length rgba)) rgba
          else write_json_line js w event
      | HelperEvent_ClipboardData selection format data \<Rightarrow>
          write_binary hjs w (BinaryEventHeader_ClipboardData selection format (length data)) data
      | HelperEvent_PlaybackData channel_id stream_generation sequence' timestamp_ms channels sample_rate_hz discontinuity
            pcm_s16le \<Rightarrow>
          write_binary hjs w
            (BinaryEventHeader_PlaybackData channel_id stream_generation sequence' timestamp_ms channels sample_rate_hz
               discontinuity (length pcm_s16le)) pcm_s16le
      | HelperEvent_PortData channel_id discontinuity data \<Rightarrow>
          write_binary hjs w (BinaryEventHeader_PortData channel_id discontinuity (length data)) data
      | _ \<Rightarrow> write_json_line js w event)"

fun event_payload_len :: "BinaryEventHeader \<Rightarrow> nat" where
  "event_payload_len (BinaryEventHeader_Frame connection_generation graphics_epoch display_channel_id surface_id
     surface_width surface_height rect full_refresh format payload_len) = payload_len"
| "event_payload_len (BinaryEventHeader_Cursor connection_generation cursor_epoch channel_id x y visible width height
     hot_spot_x hot_spot_y shape_id payload_len) = payload_len"
| "event_payload_len (BinaryEventHeader_ClipboardData selection format payload_len) = payload_len"
| "event_payload_len (BinaryEventHeader_PlaybackData channel_id stream_generation sequence' timestamp_ms channels
     sample_rate_hz discontinuity payload_len) = payload_len"
| "event_payload_len (BinaryEventHeader_PortData channel_id discontinuity payload_len) = payload_len"

fun binary_event :: "BinaryEventHeader \<Rightarrow> u8 list \<Rightarrow> HelperIpcError + HelperEvent" where
  "binary_event (BinaryEventHeader_Frame connection_generation graphics_epoch display_channel_id surface_id
     surface_width surface_height rect full_refresh format payload_len) payload =
     (case checked_rgba_bytes (hr_width rect) (hr_height rect) of
        Inl e \<Rightarrow> Inl e
      | Inr expected \<Rightarrow>
          if length payload \<noteq> expected then Inl HelperIpcError_InvalidBinaryPayload
          else Inr (HelperEvent_Frame connection_generation graphics_epoch display_channel_id surface_id surface_width
                 surface_height rect full_refresh format payload))"
| "binary_event (BinaryEventHeader_Cursor connection_generation cursor_epoch channel_id x y visible width height
     hot_spot_x hot_spot_y shape_id payload_len) payload =
     (case checked_rgba_bytes (ucast width) (ucast height) of
        Inl e \<Rightarrow> Inl e
      | Inr expected \<Rightarrow>
          if length payload \<noteq> expected then Inl HelperIpcError_InvalidBinaryPayload
          else Inr (HelperEvent_Cursor connection_generation cursor_epoch channel_id x y visible width height
                 hot_spot_x hot_spot_y shape_id payload))"
| "binary_event (BinaryEventHeader_ClipboardData selection format payload_len) payload =
     Inr (HelperEvent_ClipboardData selection format payload)"
| "binary_event (BinaryEventHeader_PlaybackData channel_id stream_generation sequence' timestamp_ms channels
     sample_rate_hz discontinuity payload_len) payload =
     (case usize_checked_mul (unat channels) 2 of
        None \<Rightarrow> Inl HelperIpcError_InvalidBinaryPayload
      | Some frame_bytes \<Rightarrow>
          if frame_bytes = 0 then Inl HelperIpcError_InvalidBinaryPayload
          else if length payload mod frame_bytes \<noteq> 0 then Inl HelperIpcError_InvalidBinaryPayload
          else Inr (HelperEvent_PlaybackData channel_id stream_generation sequence' timestamp_ms channels sample_rate_hz
                 discontinuity payload))"
| "binary_event (BinaryEventHeader_PortData channel_id discontinuity payload_len) payload =
     (if length payload > MAX_PORT_DATA_BYTES then Inl HelperIpcError_PortPayloadTooLarge
      else Inr (HelperEvent_PortData channel_id discontinuity payload))"

definition read_event ::
  "BinaryEventHeader serde \<Rightarrow> HelperEvent serde \<Rightarrow> reads \<Rightarrow> (HelperIpcError + HelperEvent option) \<times> reads" where
  "read_event hjs js r =
     (case read_bounded_line r of
        (Inl e, r') \<Rightarrow> (Inl e, r')
      | (Inr None, r') \<Rightarrow> (Inr None, r')
      | (Inr (Some line), r') \<Rightarrow>
          (case from_str hjs line of
             None \<Rightarrow>
               (case from_str js line of
                  None \<Rightarrow> (Inl HelperIpcError_Json, r')
                | Some event \<Rightarrow> (Inr (Some event), r'))
           | Some header \<Rightarrow>
               (case read_payload (event_payload_len header) r' of
                  (Inl e, r'') \<Rightarrow> (Inl e, r'')
                | (Inr payload, r'') \<Rightarrow>
                    (case binary_event header payload of
                       Inl e \<Rightarrow> (Inl e, r'')
                     | Inr event \<Rightarrow> (Inr (Some event), r'')))))"

definition write_metadata :: "HelperMetadata serde \<Rightarrow> sink \<Rightarrow> HelperMetadata \<Rightarrow> (HelperIpcError + unit) \<times> sink" where
  "write_metadata js w metadata = write_json_line js w metadata"

definition read_metadata :: "HelperMetadata serde \<Rightarrow> reads \<Rightarrow> (HelperIpcError + HelperMetadata option) \<times> reads" where
  "read_metadata js r =
     (case read_bounded_line r of
        (Inl e, r') \<Rightarrow> (Inl e, r')
      | (Inr None, r') \<Rightarrow> (Inr None, r')
      | (Inr (Some line), r') \<Rightarrow>
          (case from_str js line of
             None \<Rightarrow> (Inl HelperIpcError_Json, r')
           | Some metadata \<Rightarrow> (Inr (Some metadata), r')))"

section \<open>Reading what was written\<close>

text \<open>\<open>delivers bytes r\<close>: the reader hands out exactly \<open>bytes\<close>, in pieces of any size, and then ends.\<close>

fun delivers :: "u8 list \<Rightarrow> reads \<Rightarrow> bool" where
  "delivers bytes [] \<longleftrightarrow> bytes = []"
| "delivers bytes (Inl e # rest) \<longleftrightarrow> False"
| "delivers bytes (Inr piece # rest) \<longleftrightarrow>
     piece \<noteq> [] \<and> take (length piece) bytes = piece \<and> delivers (drop (length piece) bytes) rest"

lemma delivers_piece: "delivers bytes (Inr piece # rest) \<longleftrightarrow> piece \<noteq> [] \<and> (\<exists>later. bytes = piece @ later \<and> delivers later rest)"
  by (auto simp: append_eq_conv_conj) (metis append_take_drop_id)

declare read_bounded_line_loop.simps [simp del]

lemma newline_end_at: "10 \<notin> set line \<Longrightarrow> newline_end (line @ 10 # later) = Suc (length line)"
proof -
  assume "10 \<notin> set line"
  then have "position (\<lambda>byte. byte = 10) (line @ 10 # later) = Some (length line)" by (intro position_append) auto
  then show ?thesis by (simp add: newline_end_def)
qed

lemma newline_end_none: "10 \<notin> set piece \<Longrightarrow> newline_end piece = length piece"
proof -
  assume "10 \<notin> set piece"
  then have "length (takeWhile (\<lambda>byte. byte \<noteq> 10) piece) = length piece" by (subst takeWhile_eq_all_conv [THEN iffD2]) auto
  then show ?thesis by (simp add: newline_end_def position_def Let_def)
qed

lemma delivers_consume:
  assumes "delivers bytes (Inr (start @ later) # rest)" "bytes = start @ tail"
  shows "delivers tail (consume (length start) (Inr (start @ later) # rest))"
  using assms by (auto simp: delivers_piece simp del: delivers.simps(3))

lemma read_line_delivered:
  assumes "10 \<notin> set line" "length gathered + length line < MAX_JSON_LINE_BYTES" "delivers (line @ 10 # tail) r"
  shows "\<exists>r'. read_bounded_line_loop gathered r = (Inr (Some (gathered @ line @ [10])), r') \<and> delivers tail r'"
  using assms
proof (induction r arbitrary: gathered line)
  case (Cons x rest)
  then obtain piece where x: "x = Inr piece" "piece \<noteq> []" by (cases x) auto
  then obtain later where later: "line @ 10 # tail = piece @ later" "delivers later rest"
    using Cons.prems(3) by (auto simp: delivers_piece simp del: delivers.simps(3))
  show ?case
  proof (cases "length piece \<le> length line")
    case True
    then obtain line' where line: "line = piece @ line'" and "later = line' @ 10 # tail"
      using later(1) by (auto simp: append_eq_append_conv2)
    have no_newline: "10 \<notin> set piece" using Cons.prems(1) line by simp
    then have "piece ! (length piece - 1) \<noteq> 10" using x(2) by (metis last_conv_nth last_in_set)
    then have "read_bounded_line_loop gathered (x # rest) = read_bounded_line_loop (gathered @ piece) rest"
      using x Cons.prems(2) line newline_end_none [OF no_newline]
      by (subst read_bounded_line_loop.simps) simp
    moreover have "\<exists>r'. read_bounded_line_loop (gathered @ piece) rest = (Inr (Some ((gathered @ piece) @ line' @ [10])), r') \<and> delivers tail r'"
      using Cons.prems Cons.IH [of line' "gathered @ piece"] line later \<open>later = line' @ 10 # tail\<close> by simp
    ultimately show ?thesis using line by simp
  next
    case False
    then obtain after where piece: "piece = line @ 10 # after" and after: "tail = after @ later"
      using later(1) by (auto simp: append_eq_append_conv2 Cons_eq_append_conv)
    have "newline_end piece = Suc (length line)" using Cons.prems(1) piece by (simp add: newline_end_at)
    then have "read_bounded_line_loop gathered (x # rest) =
        (Inr (Some (gathered @ line @ [10])), consume (Suc (length line)) (x # rest))"
      using x piece Cons.prems(2) by (subst read_bounded_line_loop.simps) simp
    moreover have "delivers tail (consume (Suc (length line)) (x # rest))"
    proof -
      have "delivers (line @ 10 # tail) (Inr ((line @ [10]) @ after) # rest)" using Cons.prems(3) x(1) piece by simp
      then have "delivers tail (consume (length (line @ [10])) (Inr ((line @ [10]) @ after) # rest))"
        by (rule delivers_consume) simp
      then show ?thesis using x(1) piece by (simp only: append.assoc append.simps length_append_singleton)
    qed
    ultimately show ?thesis by simp
  qed
qed simp

lemma read_exact_delivered:
  assumes "delivers (payload @ tail) r"
  shows "\<exists>r'. read_exact (length payload) r = (Inr payload, r') \<and> delivers tail r'"
  using assms
proof (induction r arbitrary: payload)
  case Nil
  then show ?case by simp
next
  case (Cons x rest)
  then obtain piece later where x: "x = Inr piece" "piece \<noteq> []" "payload @ tail = piece @ later" "delivers later rest"
    by (cases x) (auto simp: delivers_piece simp del: delivers.simps(3))
  show ?case
  proof (cases "length payload < length piece")
    case True
    then obtain after where "piece = payload @ after" "tail = after @ later" "after \<noteq> []"
      using x(3) by (auto simp: append_eq_append_conv2)
    then show ?thesis using x Cons.prems
      by (cases "length payload") (auto simp: delivers_piece simp del: delivers.simps(3))
  next
    case False
    then obtain payload' where payload: "payload = piece @ payload'" "later = payload' @ tail"
      using x(3) by (auto simp: append_eq_append_conv2)
    then obtain r' where "read_exact (length payload') rest = (Inr payload', r')" "delivers tail r'"
      using Cons.IH [of payload'] x(4) by auto
    moreover obtain n where "length payload = Suc n" using x(2) payload(1) by (cases "length payload") auto
    moreover have "Suc n - length piece = length payload'" "\<not> Suc n < length piece"
      using payload(1) calculation(3) by simp_all
    ultimately show ?thesis using x payload by simp
  qed
qed

lemma trim_line_end_written: "10 \<notin> set line \<Longrightarrow> 13 \<notin> set line \<Longrightarrow> trim_line_end (line @ [10]) = line"
  by (cases line rule: rev_cases) (auto simp: trim_line_end_def)

text \<open>What the protocol relies on in \<open>serde_json\<close>, for one value: what is written for it reads back as that value, is valid
  UTF-8, and has no raw line break (JSON escapes control characters in strings).\<close>

definition faithful :: "'a serde \<Rightarrow> 'a \<Rightarrow> bool" where
  "faithful js v \<longleftrightarrow>
     (case to_vec js v of
        None \<Rightarrow> True
      | Some line \<Rightarrow> from_str js line = Some v \<and> utf8_valid line \<and> 10 \<notin> set line \<and> 13 \<notin> set line)"

lemma read_bounded_line_delivered:
  assumes "utf8_valid line" "10 \<notin> set line" "13 \<notin> set line" "length line < MAX_JSON_LINE_BYTES" "delivers (line @ 10 # tail) r"
  shows "\<exists>r'. read_bounded_line r = (Inr (Some line), r') \<and> delivers tail r'"
  using read_line_delivered [of line "[]" tail r] assms trim_line_end_written [of line]
  by (auto simp: read_bounded_line_def)

lemma read_payload_delivered:
  assumes "length payload \<le> MAX_BINARY_PAYLOAD_BYTES" "delivers (payload @ tail) r"
  shows "\<exists>r'. read_payload (length payload) r = (Inr payload, r') \<and> delivers tail r'"
  using read_exact_delivered [of payload tail r] assms by (auto simp: read_payload_def validate_payload_len_def)

lemma write_all_ok: "write_all bytes w = (Inr u, w') \<Longrightarrow> sk_bytes w' = sk_bytes w @ bytes"
  by (auto simp: write_all_def split: if_splits)

lemma write_json_line_ok:
  assumes "write_json_line js w v = (Inr u, w')"
  shows "\<exists>line. to_vec js v = Some line \<and> length line < MAX_JSON_LINE_BYTES \<and> sk_bytes w' = sk_bytes w @ line @ [10]"
  using assms by (auto simp: write_json_line_def split: option.splits if_splits sum.splits prod.splits dest: write_all_ok)

lemma write_binary_ok:
  assumes "write_binary js w header payload = (Inr u, w')"
  shows "\<exists>line. to_vec js header = Some line \<and> length line < MAX_JSON_LINE_BYTES \<and>
     length payload \<le> MAX_BINARY_PAYLOAD_BYTES \<and> sk_bytes w' = sk_bytes w @ line @ [10] @ payload"
  using assms
  by (auto simp: write_binary_def validate_payload_len_def split: option.splits if_splits sum.splits prod.splits dest!: write_all_ok)

section \<open>Message streams\<close>

text \<open>Writing a sequence of messages, stopping at the first failure, and reading a number of messages.\<close>

primrec write_messages :: "(sink \<Rightarrow> 'a \<Rightarrow> (HelperIpcError + unit) \<times> sink) \<Rightarrow> sink \<Rightarrow> 'a list \<Rightarrow> (HelperIpcError + unit) \<times> sink" where
  "write_messages wr w [] = (Inr (), w)"
| "write_messages wr w (m # ms) = (case wr w m of (Inl e, w') \<Rightarrow> (Inl e, w') | (Inr _, w') \<Rightarrow> write_messages wr w' ms)"

primrec read_messages :: "nat \<Rightarrow> (reads \<Rightarrow> (HelperIpcError + 'a option) \<times> reads) \<Rightarrow> reads \<Rightarrow> (HelperIpcError + 'a option) list" where
  "read_messages 0 rd r = []"
| "read_messages (Suc n) rd r = (case rd r of (v, r') \<Rightarrow> v # read_messages n rd r')"

text \<open>A message format: a written message appends bytes that a reader turns into \<open>outcome m\<close>, consuming exactly those bytes
  however they arrive.\<close>

locale message_format =
  fixes wr :: "sink \<Rightarrow> 'a \<Rightarrow> (HelperIpcError + unit) \<times> sink"
    and rd :: "reads \<Rightarrow> (HelperIpcError + 'a option) \<times> reads"
    and encodable :: "'a \<Rightarrow> bool"
    and outcome :: "'a \<Rightarrow> HelperIpcError + 'a option"
  assumes written: "encodable m \<Longrightarrow> wr w m = (Inr (), w') \<Longrightarrow>
      \<exists>bytes. sk_bytes w' = sk_bytes w @ bytes \<and>
        (\<forall>tail r. delivers (bytes @ tail) r \<longrightarrow> (\<exists>r'. rd r = (outcome m, r') \<and> delivers tail r'))"
    and stream_end: "rd [] = (Inr None, [])"
begin

lemma messages_written:
  assumes "\<forall>m \<in> set ms. encodable m" "write_messages wr w ms = (Inr (), w')"
  shows "\<exists>bytes. sk_bytes w' = sk_bytes w @ bytes \<and>
    (\<forall>r. delivers bytes r \<longrightarrow> read_messages (Suc (length ms)) rd r = map outcome ms @ [Inr None])"
  using assms
proof (induction ms arbitrary: w)
  case Nil
  have "read_messages (Suc 0) rd r = [Inr None]" if "delivers [] r" for r
    using that stream_end by (cases r rule: fill_buf.cases) auto
  then show ?case using Nil by simp
next
  case (Cons m ms)
  then obtain w1 where w1: "wr w m = (Inr (), w1)" "write_messages wr w1 ms = (Inr (), w')"
    by (auto split: prod.splits sum.splits)
  obtain bytes where bytes: "sk_bytes w1 = sk_bytes w @ bytes"
    "\<And>tail r. delivers (bytes @ tail) r \<Longrightarrow> \<exists>r'. rd r = (outcome m, r') \<and> delivers tail r'"
    using written [OF _ w1(1)] Cons.prems(1) by auto
  obtain rest where rest: "sk_bytes w' = sk_bytes w1 @ rest"
    "\<And>r. delivers rest r \<Longrightarrow> read_messages (Suc (length ms)) rd r = map outcome ms @ [Inr None]"
    using Cons.IH [OF _ w1(2)] Cons.prems(1) by auto
  have "read_messages (Suc (length (m # ms))) rd r = map outcome (m # ms) @ [Inr None]" if "delivers (bytes @ rest) r" for r
    using bytes(2) [OF that] rest(2) by auto
  then show ?case using bytes(1) rest(1) by auto
qed

lemma stream_read_back:
  assumes "\<forall>m \<in> set ms. encodable m" "sk_bytes w = []" "write_messages wr w ms = (Inr (), w')" "delivers (sk_bytes w') r"
  shows "read_messages (Suc (length ms)) rd r = map outcome ms @ [Inr None]"
  using messages_written [OF assms(1,3)] assms(2,4) by auto

end

lemma read_end [simp]: "read_bounded_line [] = (Inr None, [])"
  by (simp add: read_bounded_line_def read_bounded_line_loop.simps)

subsection \<open>The request stream\<close>

fun request_binary :: "HelperRequest \<Rightarrow> (BinaryRequestHeader \<times> u8 list) option" where
  "request_binary (HelperRequest_ClipboardProvide request_id data) =
     Some (BinaryRequestHeader_ClipboardProvide request_id (length data), data)"
| "request_binary (HelperRequest_RecordData channel_id timestamp_ms pcm_s16le) =
     Some (BinaryRequestHeader_RecordData channel_id timestamp_ms (length pcm_s16le), pcm_s16le)"
| "request_binary (HelperRequest_FileTransferData transfer_id data) =
     Some (BinaryRequestHeader_FileTransferData transfer_id (length data), data)"
| "request_binary (HelperRequest_PortWrite channel_id data) = Some (BinaryRequestHeader_PortWrite channel_id (length data), data)"
| "request_binary request = None"

text \<open>The JSON codec is faithful on the value written for \<open>m\<close>, and where \<open>m\<close> is written as a plain JSON line, the parser of binary
  headers does not take that line for a header (their \<open>type\<close> tags differ).\<close>

definition json_faithful :: "'h serde \<Rightarrow> 'm serde \<Rightarrow> ('m \<Rightarrow> ('h \<times> u8 list) option) \<Rightarrow> 'm \<Rightarrow> bool" where
  "json_faithful hjs js binary m \<longleftrightarrow>
     (case binary m of
        Some (header, payload) \<Rightarrow> faithful hjs header
      | None \<Rightarrow> faithful js m \<and> (case to_vec js m of None \<Rightarrow> True | Some line \<Rightarrow> from_str hjs line = None))"

lemma write_request_form:
  "write_request hjs js w m =
     (case request_binary m of
        None \<Rightarrow> write_json_line js w m
      | Some (header, payload) \<Rightarrow>
          if is_file_transfer_header header \<and> length payload > MAX_AGENT_FILE_CHUNK_BYTES
          then (Inl HelperIpcError_FileTransferChunkTooLarge, w)
          else if is_port_write_header header \<and> length payload > MAX_PORT_DATA_BYTES
          then (Inl HelperIpcError_PortPayloadTooLarge, w)
          else write_binary hjs w header payload)"
  by (cases m) (simp_all add: write_request_def)

lemma request_binary_inverse:
  "request_binary m = Some (header, payload) \<Longrightarrow> request_payload_len header = length payload \<and> binary_request header payload = m"
  by (cases m) auto

lemma request_written:
  assumes "json_faithful hjs js request_binary m" "write_request hjs js w m = (Inr (), w')"
  shows "\<exists>bytes. sk_bytes w' = sk_bytes w @ bytes \<and>
    (\<forall>tail r. delivers (bytes @ tail) r \<longrightarrow> (\<exists>r'. read_request hjs js r = (Inr (Some m), r') \<and> delivers tail r'))"
proof (cases "request_binary m")
  case None
  then obtain line where line: "to_vec js m = Some line" "length line < MAX_JSON_LINE_BYTES" "sk_bytes w' = sk_bytes w @ line @ [10]"
    using assms(2) by (auto simp: write_request_form dest: write_json_line_ok)
  then have "from_str js line = Some m" "from_str hjs line = None" "utf8_valid line" "10 \<notin> set line" "13 \<notin> set line"
    using assms(1) None by (auto simp: json_faithful_def faithful_def)
  then have "\<exists>r'. read_request hjs js r = (Inr (Some m), r') \<and> delivers tail r'" if "delivers ((line @ [10]) @ tail) r" for tail r
    using that line(2) read_bounded_line_delivered [of line tail r] by (auto simp: read_request_def)
  then show ?thesis using line(3) by blast
next
  case (Some hp)
  obtain header payload where hp: "request_binary m = Some (header, payload)" using Some by (cases hp) auto
  then have guards: "\<not> (is_file_transfer_header header \<and> length payload > MAX_AGENT_FILE_CHUNK_BYTES)"
      "\<not> (is_port_write_header header \<and> length payload > MAX_PORT_DATA_BYTES)"
    and "write_binary hjs w header payload = (Inr (), w')"
    using assms(2) by (auto simp: write_request_form simp del: MAX_AGENT_FILE_CHUNK_BYTES_def MAX_PORT_DATA_BYTES_def split: if_splits)
  then obtain line where line: "to_vec hjs header = Some line" "length line < MAX_JSON_LINE_BYTES"
      "length payload \<le> MAX_BINARY_PAYLOAD_BYTES" "sk_bytes w' = sk_bytes w @ line @ [10] @ payload"
    using write_binary_ok [of hjs w header payload "()" w'] by auto
  then have "from_str hjs line = Some header" "utf8_valid line" "10 \<notin> set line" "13 \<notin> set line"
    using assms(1) hp by (auto simp: json_faithful_def faithful_def)
  then have "\<exists>r'. read_request hjs js r = (Inr (Some m), r') \<and> delivers tail r'" if "delivers ((line @ [10] @ payload) @ tail) r" for tail r
    using that line(2,3) guards request_binary_inverse [OF hp] read_bounded_line_delivered [of line "payload @ tail" r]
      read_payload_delivered [of payload tail]
    by (fastforce simp: read_request_def simp del: MAX_AGENT_FILE_CHUNK_BYTES_def MAX_PORT_DATA_BYTES_def)
  then show ?thesis using line(4) by blast
qed

interpretation request_stream: message_format "write_request hjs js" "read_request hjs js" "json_faithful hjs js request_binary"
    "\<lambda>m. Inr (Some m)" for hjs js
  by unfold_locales (erule (1) request_written, simp add: read_request_def)

subsection \<open>The event stream\<close>

fun event_binary :: "HelperEvent \<Rightarrow> (BinaryEventHeader \<times> u8 list) option" where
  "event_binary (HelperEvent_Frame connection_generation graphics_epoch display_channel_id surface_id surface_width
     surface_height rect full_refresh format pixels) =
     Some (BinaryEventHeader_Frame connection_generation graphics_epoch display_channel_id surface_id surface_width
       surface_height rect full_refresh format (length pixels), pixels)"
| "event_binary (HelperEvent_Cursor connection_generation cursor_epoch channel_id x y visible width height hot_spot_x
     hot_spot_y shape_id rgba) =
     (if rgba = [] then None
      else Some (BinaryEventHeader_Cursor connection_generation cursor_epoch channel_id x y visible width height
             hot_spot_x hot_spot_y shape_id (length rgba), rgba))"
| "event_binary (HelperEvent_ClipboardData selection format data) =
     Some (BinaryEventHeader_ClipboardData selection format (length data), data)"
| "event_binary (HelperEvent_PlaybackData channel_id stream_generation sequence' timestamp_ms channels sample_rate_hz
     discontinuity pcm_s16le) =
     Some (BinaryEventHeader_PlaybackData channel_id stream_generation sequence' timestamp_ms channels sample_rate_hz
       discontinuity (length pcm_s16le), pcm_s16le)"
| "event_binary (HelperEvent_PortData channel_id discontinuity data) =
     Some (BinaryEventHeader_PortData channel_id discontinuity (length data), data)"
| "event_binary event = None"

text \<open>What the host makes of an event: the pixels of a frame or cursor must be four bytes per pixel of its rectangle, playback data
  a whole number of 16-bit samples for every channel, and port data within the protocol's bound.\<close>

fun event_outcome :: "HelperEvent \<Rightarrow> HelperIpcError + HelperEvent option" where
  "event_outcome (HelperEvent_Frame cg ge dc s sw sh rect f fmt pixels) =
     (if length pixels = unat (hr_width rect) * unat (hr_height rect) * 4
      then Inr (Some (HelperEvent_Frame cg ge dc s sw sh rect f fmt pixels)) else Inl HelperIpcError_InvalidBinaryPayload)"
| "event_outcome (HelperEvent_Cursor cg ce c x y v width height hx hy s rgba) =
     (if rgba = [] \<or> length rgba = unat width * unat height * 4
      then Inr (Some (HelperEvent_Cursor cg ce c x y v width height hx hy s rgba)) else Inl HelperIpcError_InvalidBinaryPayload)"
| "event_outcome (HelperEvent_PlaybackData c g n t channels hz d pcm_s16le) =
     (if channels \<noteq> 0 \<and> 2 * unat channels dvd length pcm_s16le
      then Inr (Some (HelperEvent_PlaybackData c g n t channels hz d pcm_s16le)) else Inl HelperIpcError_InvalidBinaryPayload)"
| "event_outcome (HelperEvent_PortData c d data) =
     (if length data \<le> MAX_PORT_DATA_BYTES then Inr (Some (HelperEvent_PortData c d data)) else Inl HelperIpcError_PortPayloadTooLarge)"
| "event_outcome event = Inr (Some event)"

lemma write_event_form:
  "write_event hjs js w m =
     (case event_binary m of
        None \<Rightarrow> write_json_line js w m
      | Some (header, payload) \<Rightarrow> write_binary hjs w header payload)"
  by (cases m) (simp_all add: write_event_def)

lemma checked_rgba_cases:
  "checked_rgba_bytes width height = Inr (unat width * unat height * 4) \<or>
   checked_rgba_bytes width height = Inl HelperIpcError_InvalidBinaryPayload \<and>
     MAX_BINARY_PAYLOAD_BYTES < unat width * unat height * 4"
proof -
  define n where "n = unat width * unat height"
  show ?thesis
    by (auto simp: checked_rgba_bytes_def usize_checked_mul_def MAX_BINARY_PAYLOAD_BYTES_def simp flip: n_def)
qed

lemma unat_u16_to_u32: "unat (ucast (w :: u16) :: u32) = unat w"
  using unsigned_less [of w, where 'a = nat] by (simp add: unsigned_ucast_eq take_bit_nat_eq_self)

lemma event_binary_inverse:
  assumes "event_binary m = Some (header, payload)" "length payload \<le> MAX_BINARY_PAYLOAD_BYTES"
  shows "event_payload_len header = length payload"
    and "(case binary_event header payload of Inl e \<Rightarrow> Inl e | Inr event \<Rightarrow> Inr (Some event)) = event_outcome m"
proof -
  show "event_payload_len header = length payload" using assms(1) by (cases m) (auto split: if_splits)
  show "(case binary_event header payload of Inl e \<Rightarrow> Inl e | Inr event \<Rightarrow> Inr (Some event)) = event_outcome m"
  proof (cases m)
    case (HelperEvent_PlaybackData c g n t channels hz d pcm)
    have "usize_checked_mul (unat channels) 2 = Some (unat channels * 2)"
      using unsigned_less [of channels, where 'a = nat] by (simp add: usize_checked_mul_def)
    then show ?thesis
      using assms(1) HelperEvent_PlaybackData by (auto simp: unat_eq_zero mod_eq_0_iff_dvd mult.commute)
  next
    case (HelperEvent_Frame cg ge dc s sw sh rect f fmt pixels)
    then show ?thesis using assms checked_rgba_cases [of "hr_width rect" "hr_height rect"] by auto
  next
    case (HelperEvent_Cursor cg ce c x y v width height hx hy s rgba)
    then show ?thesis
      using assms checked_rgba_cases [of "ucast width" "ucast height"] by (auto simp: unat_u16_to_u32 split: if_splits)
  qed (use assms(1) in auto)
qed

lemma event_outcome_json: "event_binary m = None \<Longrightarrow> event_outcome m = Inr (Some m)"
  by (cases m) (auto split: if_splits)

lemma event_written:
  assumes "json_faithful hjs js event_binary m" "write_event hjs js w m = (Inr (), w')"
  shows "\<exists>bytes. sk_bytes w' = sk_bytes w @ bytes \<and>
    (\<forall>tail r. delivers (bytes @ tail) r \<longrightarrow> (\<exists>r'. read_event hjs js r = (event_outcome m, r') \<and> delivers tail r'))"
proof (cases "event_binary m")
  case None
  then obtain line where line: "to_vec js m = Some line" "length line < MAX_JSON_LINE_BYTES" "sk_bytes w' = sk_bytes w @ line @ [10]"
    using assms(2) by (auto simp: write_event_form dest: write_json_line_ok)
  then have "from_str js line = Some m" "from_str hjs line = None" "utf8_valid line" "10 \<notin> set line" "13 \<notin> set line"
    using assms(1) None by (auto simp: json_faithful_def faithful_def)
  then have "\<exists>r'. read_event hjs js r = (event_outcome m, r') \<and> delivers tail r'" if "delivers ((line @ [10]) @ tail) r" for tail r
    using that line(2) read_bounded_line_delivered [of line tail r] event_outcome_json [OF None] by (auto simp: read_event_def)
  then show ?thesis using line(3) by blast
next
  case (Some hp)
  obtain header payload where hp: "event_binary m = Some (header, payload)" using Some by (cases hp) auto
  then have "write_binary hjs w header payload = (Inr (), w')" using assms(2) by (simp add: write_event_form)
  then obtain line where line: "to_vec hjs header = Some line" "length line < MAX_JSON_LINE_BYTES"
      "length payload \<le> MAX_BINARY_PAYLOAD_BYTES" "sk_bytes w' = sk_bytes w @ line @ [10] @ payload"
    using write_binary_ok [of hjs w header payload "()" w'] by auto
  then have json: "from_str hjs line = Some header" "utf8_valid line" "10 \<notin> set line" "13 \<notin> set line"
    using assms(1) hp by (auto simp: json_faithful_def faithful_def)
  have "\<exists>r'. read_event hjs js r = (event_outcome m, r') \<and> delivers tail r'" if del: "delivers ((line @ [10] @ payload) @ tail) r" for tail r
  proof -
    obtain r1 r2 where "read_bounded_line r = (Inr (Some line), r1)" "read_payload (length payload) r1 = (Inr payload, r2)" "delivers tail r2"
      using del line(2,3) json read_bounded_line_delivered [of line "payload @ tail" r] read_payload_delivered [of payload tail] by fastforce
    then show ?thesis
      using json(1) event_binary_inverse(1) [OF hp line(3)] event_binary_inverse(2) [OF hp line(3), symmetric]
      by (simp add: read_event_def split: sum.split)
  qed
  then show ?thesis using line(4) by blast
qed

interpretation event_stream: message_format "write_event hjs js" "read_event hjs js" "json_faithful hjs js event_binary"
    event_outcome for hjs js
  by unfold_locales (erule (1) event_written, simp add: read_event_def)

section \<open>Properties\<close>

text \<open>C11: the request stream from the host to the helper is exact: when writing a sequence of requests succeeds, the
  helper reads exactly those requests and then the end of the stream, however the bytes are cut into reads.\<close>

theorem helper_request_stream_round_trip:
  assumes "\<forall>m \<in> set ms. json_faithful hjs js request_binary m"
    and "sk_bytes w = []" "write_messages (write_request hjs js) w ms = (Inr (), w')" "delivers (sk_bytes w') r"
  shows "read_messages (Suc (length ms)) (read_request hjs js) r = map (\<lambda>m. Inr (Some m)) ms @ [Inr None]"
  by (rule request_stream.stream_read_back [OF assms])

theorem helper_request_stream_round_trip_witness:
  "let hjs = \<lparr>to_vec = \<lambda>h. Some [66],
              from_str = \<lambda>l. if l = [66] then Some (BinaryRequestHeader_ClipboardProvide 7 3) else None\<rparr>;
       js = \<lparr>to_vec = \<lambda>m. Some [65], from_str = \<lambda>l. if l = [65] then Some HelperRequest_Close else None\<rparr>;
       ms = [HelperRequest_Close, HelperRequest_ClipboardProvide 7 [10, 0, 13]] in
   read_messages 3 (read_request hjs js) [Inr [65], Inr [10, 66, 10, 10], Inr [0, 13]] =
     [Inr (Some HelperRequest_Close), Inr (Some (HelperRequest_ClipboardProvide 7 [10, 0, 13])), Inr None]"
proof -
  let ?hjs = "\<lparr>to_vec = \<lambda>h. Some [66],
              from_str = \<lambda>l. if l = [66] then Some (BinaryRequestHeader_ClipboardProvide 7 3) else None\<rparr>"
  let ?js = "\<lparr>to_vec = \<lambda>m. Some [65], from_str = \<lambda>l. if l = [65] then Some HelperRequest_Close else None\<rparr>"
  let ?ms = "[HelperRequest_Close, HelperRequest_ClipboardProvide 7 [10, 0, 13]]"
  let ?w = "\<lparr>sk_bytes = [], sk_room = 100, sk_flush = None\<rparr>"
  have "write_messages (write_request ?hjs ?js) ?w ?ms =
      (Inr (), \<lparr>sk_bytes = [65, 10, 66, 10, 10, 0, 13], sk_room = 93, sk_flush = None\<rparr>)"
    by (simp add: write_request_def write_json_line_def write_binary_def write_all_def flush_def validate_payload_len_def
        MAX_JSON_LINE_BYTES_def MAX_BINARY_PAYLOAD_BYTES_def)
  note written = this
  have "\<forall>m \<in> set ?ms. json_faithful ?hjs ?js request_binary m"
    by (simp add: json_faithful_def faithful_def)
  note read = helper_request_stream_round_trip [OF this _ written, of "[Inr [65], Inr [10, 66, 10, 10], Inr [0, 13]]"]
  have "read_messages (Suc (Suc (Suc 0))) (read_request ?hjs ?js) [Inr [65], Inr [10, 66, 10, 10], Inr [0, 13]] =
     [Inr (Some HelperRequest_Close), Inr (Some (HelperRequest_ClipboardProvide 7 [10, 0, 13])), Inr None]"
    using read by (simp del: read_messages.simps)
  then show ?thesis unfolding Let_def numeral_3_eq_3 .
qed

text \<open>C12: the event stream from the helper to the host is exact: when writing a sequence of events succeeds, the host
  reads every event whose payload has the size its metadata give, refuses exactly the others with the matching error,
  and a refused event does not disturb the ones after it, however the bytes are cut into reads.\<close>

theorem helper_event_stream_exact:
  assumes "\<forall>m \<in> set ms. json_faithful hjs js event_binary m"
    and "sk_bytes w = []" "write_messages (write_event hjs js) w ms = (Inr (), w')" "delivers (sk_bytes w') r"
  shows "read_messages (Suc (length ms)) (read_event hjs js) r = map event_outcome ms @ [Inr None]"
  by (rule event_stream.stream_read_back [OF assms])

theorem helper_event_stream_exact_witness:
  "let hjs = \<lparr>to_vec = \<lambda>h. Some [66],
              from_str = \<lambda>l. if l = [66] then Some (BinaryEventHeader_PlaybackData 0 1 2 3 2 48000 False 3) else None\<rparr>;
       js = \<lparr>to_vec = \<lambda>m. Some [65], from_str = \<lambda>l. if l = [65] then Some (HelperEvent_PortBreak 4) else None\<rparr> in
   read_messages 3 (read_event hjs js) [Inr [66, 10, 10], Inr [0, 13, 65, 10]] =
     [Inl HelperIpcError_InvalidBinaryPayload, Inr (Some (HelperEvent_PortBreak 4)), Inr None]"
proof -
  let ?hjs = "\<lparr>to_vec = \<lambda>h. Some [66],
              from_str = \<lambda>l. if l = [66] then Some (BinaryEventHeader_PlaybackData 0 1 2 3 2 48000 False 3) else None\<rparr>"
  let ?js = "\<lparr>to_vec = \<lambda>m. Some [65], from_str = \<lambda>l. if l = [65] then Some (HelperEvent_PortBreak 4) else None\<rparr>"
  let ?ms = "[HelperEvent_PlaybackData 0 1 2 3 2 48000 False [10, 0, 13], HelperEvent_PortBreak 4]"
  let ?w = "\<lparr>sk_bytes = [], sk_room = 100, sk_flush = None\<rparr>"
  have "write_messages (write_event ?hjs ?js) ?w ?ms =
      (Inr (), \<lparr>sk_bytes = [66, 10, 10, 0, 13, 65, 10], sk_room = 93, sk_flush = None\<rparr>)"
    by (simp add: write_event_def write_json_line_def write_binary_def write_all_def flush_def validate_payload_len_def
        MAX_JSON_LINE_BYTES_def MAX_BINARY_PAYLOAD_BYTES_def)
  note written = this
  have "\<forall>m \<in> set ?ms. json_faithful ?hjs ?js event_binary m"
    by (simp add: json_faithful_def faithful_def)
  note read = helper_event_stream_exact [OF this _ written, of "[Inr [66, 10, 10], Inr [0, 13, 65, 10]]"]
  have "read_messages (Suc (Suc (Suc 0))) (read_event ?hjs ?js) [Inr [66, 10, 10], Inr [0, 13, 65, 10]] =
     [Inl HelperIpcError_InvalidBinaryPayload, Inr (Some (HelperEvent_PortBreak 4)), Inr None]"
    using read by (simp add: mod_eq_0_iff_dvd [symmetric] del: read_messages.simps)
  then show ?thesis unfolding Let_def numeral_3_eq_3 .
qed

lemma read_line_loop_bounded:
  "read_bounded_line_loop gathered r = (Inr (Some line), r') \<Longrightarrow> length gathered \<le> MAX_JSON_LINE_BYTES \<Longrightarrow>
     length line \<le> MAX_JSON_LINE_BYTES"
proof (induction gathered r rule: read_bounded_line_loop.induct)
  case (1 gathered r)
  show ?case
    using 1 newline_end_bounds
    by (subst (asm) (2) read_bounded_line_loop.simps) (auto simp: Let_def min_def split: prod.splits sum.splits if_splits)
qed

text \<open>A line the helper accepts stays within the bound, whatever the peer sends and however it arrives.\<close>

lemma read_bounded_line_bounded: "read_bounded_line r = (Inr (Some line), r') \<Longrightarrow> length line \<le> MAX_JSON_LINE_BYTES"
proof -
  assume "read_bounded_line r = (Inr (Some line), r')"
  then obtain bytes where bytes: "read_bounded_line_loop [] r = (Inr (Some bytes), r')" "line = trim_line_end bytes"
    by (auto simp: read_bounded_line_def split: prod.splits sum.splits option.splits)
  have "length (trim_line_end bytes) \<le> length bytes"
    using length_dropWhile_le [of _ "rev bytes"] by (simp add: trim_line_end_def)
  then show ?thesis using read_line_loop_bounded [OF bytes(1)] bytes(2) by simp
qed

end
