(* ===== verification/Spec2Isabelle.thy ===== *)
theory Spec2Isabelle
  imports Spice_Capability Spice_Link Spice_Main Spice_UsbRedir Spice_AgentStream Spice_AgentPayload
    Spice_Peripherals Spice_CursorWire Client_CanvasExact Client_Updates Codec_LzTokens Codec_Glz Codec_QuicSafe Client_ImageCaches Client_Inputs Client_AgentBooks Client_AgentTransfers Client_CursorProofs Spice_Images Helper_Wire
begin

text \<open>
  A verification development for OxideSpice, a SPICE remote-desktop client in Rust. The sources are under \<open>src/crates\<close>.

  \<^bold>\<open>The program and its parts.\<close> \<open>oxide-spice-protocol\<close> decodes and encodes every message of the SPICE channels and never does
  input or output. \<open>oxide-spice-codecs\<close> decodes images. \<open>oxide-spice-client\<close> runs one task per channel: each reads wire
  envelopes from its transport, handles the common control messages, gives the rest to its channel logic and reports to the host
  through queues and watch channels; the tasks of a session share a progress registry, the image dictionaries and a cancellation
  flag. \<open>oxide-spice-helper-protocol\<close> is the request and event protocol of a helper process that hosts the client, and
  \<open>oxide-spice-helper\<close> is that process.

  \<^bold>\<open>Theories and sources.\<close> Definitions keep the names of the sources, a method \<open>m\<close> of a type \<open>T\<close> as \<open>T_m\<close>.

  \<^item> \<open>Spice_Prelude\<close>: machine integers, byte strings, slices, outcomes (\<open>Err\<close> and \<open>Panic\<close>), the collection \<open>no_panic_intros\<close>.
    \<open>Spice_Wire\<close>: \<open>error.rs\<close> and \<open>wire.rs\<close> of the protocol crate, the reader every decoder uses (locale \<open>safe_reader\<close>).
  \<^item> Protocol crate: \<open>Spice_Capability\<close> (\<open>capability.rs\<close>), \<open>Spice_Channel\<close> (\<open>channel.rs\<close>), \<open>Spice_Link\<close> (\<open>link.rs\<close>),
    \<open>Spice_Main\<close> (\<open>main_channel.rs\<close>), \<open>Spice_Framing\<close> with \<open>Spice_UsbRedir\<close> (\<open>usbredir.rs\<close>), \<open>Spice_AgentStream\<close> and
    \<open>Spice_AgentPayload\<close> (\<open>agent.rs\<close>), \<open>Spice_Peripherals\<close> (\<open>inputs.rs\<close>, \<open>port.rs\<close>, \<open>spicevmc.rs\<close>, \<open>smartcard.rs\<close>,
    \<open>playback.rs\<close>, \<open>record.rs\<close>), \<open>Spice_CursorWire\<close> (\<open>cursor.rs\<close>), \<open>Spice_Display\<close>, \<open>Spice_DisplayExact\<close> and
    \<open>Spice_Images\<close> (\<open>display.rs\<close>), \<open>Spice_ClassicDisplay\<close> (\<open>classic_display.rs\<close>).
  \<^item> Codecs crate: \<open>Codec_Common\<close>, \<open>Codec_Lz\<close> and \<open>Codec_LzTokens\<close> (\<open>lz.rs\<close>), \<open>Codec_Glz\<close> (\<open>glz.rs\<close>), \<open>Codec_Quic\<close>
    and \<open>Codec_QuicSafe\<close> (\<open>quic.rs\<close>).
  \<^item> Client crate: \<open>Client_Channel\<close>, \<open>Client_Control\<close> and \<open>Client_Progress\<close> (\<open>channel.rs\<close>, with \<open>error.rs\<close> and the
    security layer of \<open>sasl.rs\<close>), \<open>Client_Inputs\<close> (\<open>inputs.rs\<close>), \<open>Client_Surface\<close> and \<open>Client_ImageCaches\<close>
    (\<open>display.rs\<close>), \<open>Client_Canvas\<close> and \<open>Client_CanvasExact\<close> (\<open>display/canvas.rs\<close>), \<open>Client_Updates\<close>
    (\<open>display/updates.rs\<close>), \<open>Client_Agent\<close>, \<open>Client_AgentFlow\<close>, \<open>Client_AgentBooks\<close> and \<open>Client_AgentTransfers\<close>
    (\<open>agent.rs\<close>), \<open>Client_Cursor\<close> and \<open>Client_CursorProofs\<close> (\<open>cursor.rs\<close>).
  \<^item> Helper protocol crate: \<open>Helper_Types\<close> and \<open>Helper_Wire\<close> (\<open>wire.rs\<close>), \<open>Helper_Handshake\<close> (\<open>handshake.rs\<close>).

  \<^bold>\<open>How the code is modelled.\<close>

  \<^item> A fallible function returns a sum: an error of the code, or \<open>Panic\<close> for a failed \<open>expect\<close>, an index or slice out of range, a
    subtraction below zero or an overflowing addition. Borrowed slices are byte lists, \<open>usize\<close> is a natural number with checks
    against \<open>2 ^ 64\<close>, hash maps are maps or association lists with distinct keys, B-tree maps are sorted association lists.
  \<^item> An asynchronous task is a step relation or a fold over actions: \<open>inputs_step\<close>, \<open>session_step\<close>, \<open>glz_step\<close>, \<open>agent_step\<close>,
    \<open>cursor_step\<close>. A step is what happens between two points at which the task can be suspended, and host calls, server messages,
    migrations and cancellation come in any order. A watch channel is the value it shows with a mark of what was seen; a
    \<open>oneshot\<close> sender is the number of the waiting call, and using or dropping it appends to a log; an \<open>Arc\<close> whose last holder
    has an effect carries an allocation number; a mutex is the flag that a panic poisoned it.
  \<^item> A read is the bytes that will arrive. Where the moment of arrival matters, the future of a read is modelled poll by poll
    (\<open>read_poll\<close>, \<open>read_run\<close>), and \<open>select!\<close> drops the futures of the branches that lose a turn (\<open>read_dropped\<close>).
  \<^item> Third-party code is a parameter: the SASL mechanism (\<open>layer_pair\<close> states that the peer inverts it), the JSON functions of
    serde (\<open>json_faithful\<close>, \<open>faithful\<close>), and the dictionary, limits and cancellation callbacks of the image decoders. The GLZ
    dictionary callback is a function of the image identifier, since the client's callback only reads the window.

  \<^bold>\<open>What is shown.\<close>

  \<^item> Decoding: no decoder of the protocol crate panics on any input; sub-message lists, cursor
    messages, clipboard and Agent payloads, channel lists and image payloads are accepted exactly as laid out; the Agent and
    usbredir stream decoders invert their encoders for every cut of the stream.
  \<^item> Images: the LZ decoder inverts LZ77 token streams and places rows as the header says, GLZ and QUIC decoders end without a
    panic and return images of the declared size, the Golomb code reads back.
  \<^item> Channels: what one side writes the other reads, plain or through a security layer, however the bytes arrive; envelopes,
    acknowledgements and the common control state; a wait for other channels passes neither early nor late.
  \<^item> Inputs, Agent and Cursor: every accepted input edge is written once and in order; credits, host calls and transfers of the
    Agent are conserved; the byte budget of cursors is exact; none of these tasks panics.
  \<^item> Display: drawing commands rewrite only pixels of the surface they name, raster operations follow their truth tables, copies
    move exactly their source, the update channel refines a mailbox, the GLZ window is a function of the images inserted, and a
    channel that waits for an image misses no notification.
  \<^item> Helper: messages are read back for every cut into reads, Debug texts do not depend on secrets, and both sides of the handshake
    agree, with the refusal its cause demands.

  \<^bold>\<open>Bounds and fuel.\<close> Recursion that is not structural has a measure. Fuel occurs where an iterator is drained:
  \<open>SubMessages_collect\<close> takes the number of turns, and \<open>count + 1\<close> turns are shown to be enough; \<open>IncomingMessages_collect\<close> is run
  with 66 turns, one for each of at most 64 sub-messages, one for the main message and one for the end, and is shown to return.
  Runs of the Agent tunnel are shorter than \<open>2 ^ 64 - 1\<close> actions, so that its 64-bit counters do not wrap.

  \<^bold>\<open>Not modelled.\<close> Session orchestration with its replacement transports, the tasks of the audio, port, smartcard and USB channels
  and of the helper process, composite rendering (a binding to pixman) and strokes (64-bit floating point), the LZ4, JPEG, zlib,
  video and Opus codecs and the GSSAPI mechanism, which wrap third-party or system libraries, and system calls. Channels are
  modelled without an installed migration path except where a component reacts to a migration itself (Agent, Cursor, GLZ window).
\<close>

section \<open>Properties across components\<close>

lemma no_panic_main_decoders [no_panic_intros]:
  "no_panic (decode_switch_host body)" "no_panic (decode_agent_u32 body ctx)" "no_panic (decode_main_uuid body)"
  unfolding decode_switch_host_def decode_agent_u32_def decode_main_uuid_def by (intro no_panic_intros safe_reader_intros)+

lemma no_panic_streams [no_panic_intros]:
  "no_panic (fst (push_pieces UsbRedirStreamDecoder_push_bytes (UsbRedirStreamDecoder_new caps) pieces []))"
  "no_panic (and_then (AgentStreamDecoder_new maximum) (\<lambda>d. fst (push_pieces AgentStreamDecoder_push_fragment_into d pieces [])))"
proof -
  show "no_panic (fst (push_pieces UsbRedirStreamDecoder_push_bytes (UsbRedirStreamDecoder_new caps) pieces []))"
    using usbredir_bounded_no_panic [of caps pieces] by (cases "push_pieces UsbRedirStreamDecoder_push_bytes (UsbRedirStreamDecoder_new caps) pieces []") auto
  have "no_panic (fst (push_pieces AgentStreamDecoder_push_fragment_into d pieces []))" if "AgentStreamDecoder_new maximum = Inr d" for d
    using agent_stream_bounded [OF that, of pieces] by (cases "push_pieces AgentStreamDecoder_push_fragment_into d pieces []") auto
  moreover have "no_panic (AgentStreamDecoder_new maximum)" by (simp add: AgentStreamDecoder_new_def)
  ultimately show "no_panic (and_then (AgentStreamDecoder_new maximum) (\<lambda>d. fst (push_pieces AgentStreamDecoder_push_fragment_into d pieces [])))"
    by (intro no_panic_intros)
qed

text \<open>C24: no message decoder and no stream decoder of the protocol crate panics, whatever bytes the peer sends: every \<open>expect\<close>,
  \<open>unreachable\<close>, index, slice and subtraction in them is guarded by the checks before it, so each call returns a value or a
  \<open>DecodeError\<close>. The list is every public \<open>decode\<close> function of the crate: link, envelope and common messages, Main, Display with its
  drawing commands and image payloads, Cursor, Inputs, Playback, Record, Port, smartcard, compressed data, the Agent payloads, and
  the usbredir and Agent stream decoders on every sequence of pushes.\<close>

theorem protocol_decoders_total:
  "no_panic (LinkHeader_decode bytes) \<and> no_panic (LinkReply_decode bytes) \<and>
   no_panic (DataHeader_decode framing bytes) \<and> no_panic (SubMessageList_decode bytes list_offset) \<and>
   no_panic (WaitForChannels_decode bytes) \<and> no_panic (MainInit_decode bytes) \<and>
   no_panic (ChannelsList_decode bytes) \<and> no_panic (MigrationBegin_decode bytes seamless) \<and>
   no_panic (decode_switch_host bytes) \<and> no_panic (decode_agent_u32 bytes agent_context) \<and> no_panic (decode_main_uuid bytes) \<and>
   no_panic (MouseModeState_decode bytes) \<and> no_panic (decode_main_name bytes) \<and>
   no_panic (InvalidateList_decode bytes) \<and> no_panic (MonitorsConfig_decode bytes) \<and> no_panic (CompositeImage_decode_at bytes image_offset) \<and>
   no_panic (DrawComposite_decode bytes) \<and> no_panic (StreamClipUpdate_decode bytes) \<and> no_panic (StreamCreate_decode bytes) \<and>
   no_panic (StreamData_decode bytes sized) \<and> no_panic (StreamReportActivation_decode bytes) \<and> no_panic (GlScanoutUnix_decode bytes) \<and>
   no_panic (GlScanout2Unix_decode bytes) \<and> no_panic (GlDraw_decode bytes) \<and> no_panic (SurfaceCreate_decode bytes) \<and>
   no_panic (CopyBits_decode bytes) \<and> no_panic (DrawCopyImageType_decode bytes) \<and> no_panic (EmbeddedImage_decode bytes descriptor maximum) \<and>
   no_panic (BitmapUpdate_decode_draw_copy bytes maximum) \<and> no_panic (CompressedImageUpdate_decode_draw_copy bytes maximum) \<and>
   no_panic (JpegUpdate_decode_draw_copy bytes maximum) \<and>
   no_panic (DrawFill_decode bytes) \<and> no_panic (DrawCopy_decode bytes) \<and> no_panic (DrawOpaque_decode bytes) \<and>
   no_panic (DrawMaskedDestination_decode bytes) \<and> no_panic (DrawRop3_decode bytes) \<and> no_panic (DrawStroke_decode bytes) \<and>
   no_panic (DrawText_decode bytes) \<and> no_panic (DrawTransparent_decode bytes) \<and> no_panic (DrawAlphaBlend_decode bytes) \<and>
   no_panic (CursorInit_decode bytes) \<and> no_panic (CursorSet_decode bytes) \<and>
   no_panic (decode_cursor_position bytes) \<and> no_panic (decode_cursor_trail bytes) \<and>
   no_panic (decode_cursor_cache_id bytes) \<and> no_panic (KeyboardModifiers_decode bytes) \<and>
   no_panic (PortInit_decode bytes) \<and> no_panic (decode_port_event bytes) \<and> no_panic (decode_port_data bytes) \<and>
   no_panic (SpiceVmcCompressedData_decode bytes maximum) \<and> no_panic (SmartcardMessage_decode bytes) \<and>
   no_panic (decode_audio_volume bytes) \<and> no_panic (decode_audio_mute bytes) \<and>
   no_panic (decode_playback_latency bytes) \<and> no_panic (PlaybackMode_decode bytes) \<and>
   no_panic (PlaybackStart_decode bytes) \<and> no_panic (PlaybackPacket_decode bytes) \<and>
   no_panic (RecordStart_decode bytes) \<and> no_panic (decode_usbredir_hello bytes) \<and>
   no_panic (AgentCapabilities_decode bytes) \<and>
   no_panic (decode_clipboard_grab bytes selection_supported serial_supported) \<and>
   no_panic (decode_clipboard_request bytes selection_supported) \<and>
   no_panic (decode_clipboard_data bytes selection_supported) \<and>
   no_panic (decode_clipboard_release bytes selection_supported) \<and>
   no_panic (decode_clipboard_file_list bytes) \<and> no_panic (decode_file_transfer_status bytes) \<and>
   no_panic (decode_file_transfer_failure status bytes) \<and>
   no_panic (decode_audio_volume_sync bytes) \<and> no_panic (decode_graphics_device_info bytes) \<and>
   no_panic (fst (push_pieces UsbRedirStreamDecoder_push_bytes (UsbRedirStreamDecoder_new local_capabilities) pieces [])) \<and>
   no_panic (and_then (AgentStreamDecoder_new maximum) (\<lambda>d. fst (push_pieces AgentStreamDecoder_push_fragment_into d pieces [])))"
  by (intro conjI no_panic_streams) (intro no_panic_intros)+

end
